(* ===== verification/Prelude.thy ===== *)
theory Prelude
  imports Main "HOL-Library.Word"
begin

text \<open>
  What every component of the model shares.

  Machine integers. The fixed-point code of the repository mixes 16 and 32 bit signed and
  unsigned integers and converts between them all the time, so a C value is modelled as an
  \<open>int\<close> and every conversion the code makes is written out: \<open>s16\<close>, \<open>s32\<close>, \<open>u16\<close> and
  \<open>u32\<close> are the C casts to \<^verbatim>\<open>int16_t\<close>, \<^verbatim>\<open>int32_t\<close>, \<^verbatim>\<open>uint16_t\<close> and \<^verbatim>\<open>uint32_t\<close> (two's complement,
  as on every target of the build). The lemmas \<open>s16_word\<close> to \<open>u32_word\<close> tie them to the
  words of \<open>HOL-Library.Word\<close>. \<open>shr\<close> is the arithmetic right shift, \<open>shl\<close> the left
  shift before it is cut to a width, \<open>cdiv\<close> the division of C, which truncates towards zero.

  Arrays are lists; a write of a block (\<^verbatim>\<open>memcpy\<close>, \<^verbatim>\<open>memset\<close>) is \<open>blit\<close>.
\<close>

subsection \<open>Collections of facts\<close>

named_theorems range_simps \<open>membership of a C value in the range of its type\<close>
named_theorems len_simps \<open>lengths of the arrays the operations return\<close>

subsection \<open>Casts\<close>

definition s16 :: "int \<Rightarrow> int" where
  "s16 x = (x + 32768) mod 65536 - 32768"

definition s32 :: "int \<Rightarrow> int" where
  "s32 x = (x + 2147483648) mod 4294967296 - 2147483648"

definition u16 :: "int \<Rightarrow> int" where
  "u16 x = x mod 65536"

definition u32 :: "int \<Rightarrow> int" where
  "u32 x = x mod 4294967296"

definition is_s16 :: "int \<Rightarrow> bool" where
  "is_s16 x \<longleftrightarrow> - 32768 \<le> x \<and> x \<le> 32767"

definition is_s32 :: "int \<Rightarrow> bool" where
  "is_s32 x \<longleftrightarrow> - 2147483648 \<le> x \<and> x \<le> 2147483647"

definition is_u16 :: "int \<Rightarrow> bool" where
  "is_u16 x \<longleftrightarrow> 0 \<le> x \<and> x \<le> 65535"

definition is_u32 :: "int \<Rightarrow> bool" where
  "is_u32 x \<longleftrightarrow> 0 \<le> x \<and> x \<le> 4294967295"

lemma s16_word: "s16 x = sint (word_of_int x :: 16 word)"
  by (simp add: s16_def signed_of_int signed_take_bit_eq_take_bit_shift take_bit_eq_mod)

lemma s32_word: "s32 x = sint (word_of_int x :: 32 word)"
  by (simp add: s32_def signed_of_int signed_take_bit_eq_take_bit_shift take_bit_eq_mod)

lemma u16_word: "u16 x = uint (word_of_int x :: 16 word)"
  by (simp add: u16_def uint_word_of_int take_bit_eq_mod)

lemma u32_word: "u32 x = uint (word_of_int x :: 32 word)"
  by (simp add: u32_def uint_word_of_int take_bit_eq_mod)

lemma is_s16_s16 [simp, range_simps]: "is_s16 (s16 x)"
  by (simp add: is_s16_def s16_def)

lemma is_s32_s32 [simp, range_simps]: "is_s32 (s32 x)"
  by (simp add: is_s32_def s32_def)

lemma is_u16_u16 [simp, range_simps]: "is_u16 (u16 x)"
  by (simp add: is_u16_def u16_def)

lemma is_u32_u32 [simp, range_simps]: "is_u32 (u32 x)"
  by (simp add: is_u32_def u32_def)

lemma s16_id: "is_s16 x \<Longrightarrow> s16 x = x"
  by (simp add: is_s16_def s16_def)

lemma s32_id: "is_s32 x \<Longrightarrow> s32 x = x"
  by (simp add: is_s32_def s32_def)

lemma u16_id: "is_u16 x \<Longrightarrow> u16 x = x"
  by (simp add: is_u16_def u16_def)

lemma u32_id: "is_u32 x \<Longrightarrow> u32 x = x"
  by (simp add: is_u32_def u32_def)

lemma s16_idem [simp]: "s16 (s16 x) = s16 x"
  by (simp add: s16_id)

lemma s32_idem [simp]: "s32 (s32 x) = s32 x"
  by (simp add: s32_id)

lemma u16_idem [simp]: "u16 (u16 x) = u16 x"
  by (simp add: u16_id)

lemma u32_idem [simp]: "u32 (u32 x) = u32 x"
  by (simp add: u32_id)

lemma is_s16_imp_s32 [range_simps]: "is_s16 x \<Longrightarrow> is_s32 x"
  by (simp add: is_s16_def is_s32_def)

lemma s32_add_left [simp]: "s32 (s32 x + y) = s32 (x + y)"
  by (simp add: s32_def mod_simps algebra_simps)

lemma s32_add_right [simp]: "s32 (x + s32 y) = s32 (x + y)"
  by (simp add: s32_def mod_simps algebra_simps)

subsection \<open>Shifts and division\<close>

definition shr :: "int \<Rightarrow> nat \<Rightarrow> int" where
  "shr x n = x div 2 ^ n"

definition shl :: "int \<Rightarrow> nat \<Rightarrow> int" where
  "shl x n = x * 2 ^ n"

definition cdiv :: "int \<Rightarrow> int \<Rightarrow> int" where
  "cdiv a b = sgn a * sgn b * (\<bar>a\<bar> div \<bar>b\<bar>)"

lemma shr_0 [simp]: "shr x 0 = x" and shr_zero [simp]: "shr 0 n = 0"
  by (simp_all add: shr_def)

lemma shl_0 [simp]: "shl x 0 = x" and shl_zero [simp]: "shl 0 n = 0"
  by (simp_all add: shl_def)

lemma shr_mono: "x \<le> y \<Longrightarrow> shr x n \<le> shr y n"
  by (simp add: shr_def zdiv_mono1)

lemma shr_nonneg [simp]: "0 \<le> shr x n \<longleftrightarrow> 0 \<le> x"
  by (simp add: shr_def pos_imp_zdiv_nonneg_iff)

lemma shr_le: "0 \<le> x \<Longrightarrow> shr x n \<le> x"
proof -
  assume "0 \<le> x"
  have "1 \<le> (2::int) ^ n" by simp
  with \<open>0 \<le> x\<close> have "x * 1 \<le> x * 2 ^ n" by (intro mult_left_mono)
  then have "x div 2 ^ n \<le> x * 2 ^ n div 2 ^ n" by (intro zdiv_mono1) simp_all
  then show ?thesis by (simp add: shr_def)
qed

lemma shr_ge: "x \<le> 0 \<Longrightarrow> x \<le> shr x n"
proof -
  assume "x \<le> 0"
  have "1 \<le> (2::int) ^ n" by simp
  then have "x * 2 ^ n \<le> x * 1" using \<open>x \<le> 0\<close> by (rule mult_left_mono_neg)
  then have "x * 2 ^ n div 2 ^ n \<le> x div 2 ^ n" by (intro zdiv_mono1) simp_all
  then show ?thesis by (simp add: shr_def)
qed

lemma shr_drop_bit: "shr x n = drop_bit n x"
  by (simp add: shr_def drop_bit_eq_div)

lemma cdiv_nonneg: "0 \<le> a \<Longrightarrow> 0 \<le> b \<Longrightarrow> cdiv a b = a div b"
  by (cases "a = 0"; cases "b = 0") (auto simp: cdiv_def)

lemma cdiv_zero [simp]: "cdiv 0 b = 0"
  by (simp add: cdiv_def)

lemma le_div_iff:
  assumes d: "0 < (d::int)"
  shows "m \<le> a div d \<longleftrightarrow> m * d \<le> a"
proof
  assume "m \<le> a div d"
  then have "m * d \<le> a div d * d" using d by simp
  also have "\<dots> \<le> a" using d by (metis div_mult_mod_eq le_add_same_cancel1 pos_mod_sign)
  finally show "m * d \<le> a" .
next
  assume "m * d \<le> a"
  then have "m * d div d \<le> a div d" using d by (rule zdiv_mono1)
  then show "m \<le> a div d" using d by simp
qed

lemma div_less_iff: "0 < (d::int) \<Longrightarrow> a div d < m \<longleftrightarrow> a < m * d"
  using le_div_iff [of d m a] by linarith

lemma le_shr_iff: "m \<le> shr a n \<longleftrightarrow> m * 2 ^ n \<le> a"
  by (simp add: shr_def le_div_iff)

lemma shr_less_iff: "shr a n < m \<longleftrightarrow> a < m * 2 ^ n"
  by (simp add: shr_def div_less_iff)

subsection \<open>Sizes and arrays\<close>

text \<open>
  \<^verbatim>\<open>size_t\<close> is 32 bits wide on the build's main target (armeabi-v7a): subtraction wraps
  below zero. The invariants of the components show that it never does.
\<close>

definition size_sub :: "nat \<Rightarrow> nat \<Rightarrow> nat" where
  "size_sub a b = (if b \<le> a then a - b else a + 2 ^ 32 - b)"

lemma size_sub_le [simp]: "b \<le> a \<Longrightarrow> size_sub a b = a - b"
  by (simp add: size_sub_def)

text \<open>\<open>blit dst i src\<close> is \<^verbatim>\<open>memcpy(dst + i, src, ...)\<close>: the block \<open>src\<close> laid over \<open>dst\<close> from \<open>i\<close>.\<close>

definition blit :: "'a list \<Rightarrow> nat \<Rightarrow> 'a list \<Rightarrow> 'a list" where
  "blit dst i src = take i dst @ src @ drop (i + length src) dst"

lemma length_blit [len_simps]: "i + length src \<le> length dst \<Longrightarrow> length (blit dst i src) = length dst"
  by (simp add: blit_def)

lemma blit_Nil [simp]: "blit dst i [] = dst"
  by (simp add: blit_def)

lemma blit_whole: "length src = length dst \<Longrightarrow> blit dst 0 src = src"
  by (simp add: blit_def)

lemma nth_blit:
  "i + length src \<le> length dst \<Longrightarrow> j < length dst \<Longrightarrow>
   blit dst i src ! j = (if j < i then dst ! j else if j < i + length src then src ! (j - i) else dst ! j)"
  by (auto simp: blit_def nth_append min_absorb2)

lemma take_blit: "j \<le> i \<Longrightarrow> i \<le> length dst \<Longrightarrow> take j (blit dst i src) = take j dst"
  by (simp add: blit_def min_absorb1)

lemma take_blit_end: "i \<le> length dst \<Longrightarrow> take (i + length src) (blit dst i src) = take i dst @ src"
  by (simp add: blit_def)

lemma drop_blit: "i + length src \<le> j \<Longrightarrow> i + length src \<le> length dst \<Longrightarrow> drop j (blit dst i src) = drop j dst"
  by (simp add: blit_def)

lemma set_blit_subset: "set (blit dst i src) \<subseteq> set dst \<union> set src"
  by (auto simp: blit_def dest: in_set_takeD in_set_dropD)

lemma take_drop_append: "m \<le> n \<Longrightarrow> take m xs @ take (n - m) (drop m xs) = take n xs"
  by (metis le_add_diff_inverse take_add)

text \<open>A delay line: \<^verbatim>\<open>memmove(&a[1], &a[0], n - 1); a[0] = y\<close>.\<close>

lemma delay_line:
  "length xs = n \<Longrightarrow> 0 < n \<Longrightarrow> (blit xs (Suc 0) (take (n - Suc 0) xs))[0 := y] = y # take (n - 1) xs"
  by (cases xs) (auto simp: blit_def)

subsection \<open>Loops\<close>

text \<open>The indices of \<^verbatim>\<open>for (i = a; i < n; i += d)\<close>, for a positive step.\<close>

function upt_by :: "nat \<Rightarrow> nat \<Rightarrow> nat \<Rightarrow> nat list" where
  "upt_by a n d = (if a < n \<and> 0 < d then a # upt_by (a + d) n d else [])"
  by pat_completeness auto
termination by (relation "measure (\<lambda>(a, n, d). n - a)") auto

declare upt_by.simps [simp del]

lemma upt_by_less: "i \<in> set (upt_by a n d) \<Longrightarrow> a \<le> i \<and> i < n \<and> (i - a) mod d = 0"
proof (induction a n d rule: upt_by.induct)
  case (1 a n d)
  show ?case
  proof (cases "a < n \<and> 0 < d \<and> i \<noteq> a")
    case True
    then have i: "i \<in> set (upt_by (a + d) n d)" using "1.prems" by (subst (asm) upt_by.simps) auto
    then have "a + d \<le> i" "i < n" "(i - (a + d)) mod d = 0" using "1.IH" True by simp_all
    moreover have e: "i - a = (i - (a + d)) + d" using \<open>a + d \<le> i\<close> by simp
    ultimately show ?thesis unfolding e mod_add_self2 by simp
  next
    case False
    then show ?thesis using "1.prems" by (subst (asm) upt_by.simps) (auto split: if_splits)
  qed
qed

text \<open>What every turn of a loop keeps, the loop keeps.\<close>

lemma fold_keeps: "P s \<Longrightarrow> (\<And>x s. x \<in> set xs \<Longrightarrow> P s \<Longrightarrow> P (f x s)) \<Longrightarrow> P (fold f xs s)"
  by (induction xs arbitrary: s) auto

lemma fold_length [len_simps]:
  "(\<And>x s. length (f x s) = length s) \<Longrightarrow> length (fold f xs s) = length s"
  by (induction xs arbitrary: s) auto

lemma list_all_update: "list_all P xs \<Longrightarrow> P y \<Longrightarrow> list_all P (xs[i := y])"
  by (cases "i < length xs") (auto simp: list_all_length nth_list_update)

lemma list_all_nth: "list_all P xs \<Longrightarrow> i < length xs \<Longrightarrow> P (xs ! i)"
  by (simp add: list_all_length)

lemma list_all_blit: "list_all P dst \<Longrightarrow> list_all P src \<Longrightarrow> list_all P (blit dst i src)"
  by (auto simp: blit_def list_all_iff dest: in_set_takeD in_set_dropD)

lemma list_all_take: "list_all P xs \<Longrightarrow> list_all P (take n xs)"
  by (auto simp: list_all_iff dest: in_set_takeD)

lemma list_all_drop: "list_all P xs \<Longrightarrow> list_all P (drop n xs)"
  by (auto simp: list_all_iff dest: in_set_dropD)

end
