(* ===== verification/Ring_Buffer.thy ===== *)
theory Ring_Buffer
  imports Prelude
begin

text \<open>
  The ring buffer of \<^verbatim>\<open>common_audio/ring_buffer.c\<close>, on which the echo controllers queue their
  samples. The state is the struct \<^verbatim>\<open>RingBuffer\<close>; every address the code forms is
  \<^verbatim>\<open>data + k * element_size\<close> and every length \<^verbatim>\<open>n * element_size\<close>, so \<open>data\<close> is a list with one
  item per element and the factor disappears. The refinement to a queue (\<open>queue\<close>) is proved
  once, packaged as the locale \<open>fifo\<close>, and used by the clients through its interpretation.
\<close>

section \<open>The state and its operations\<close>

datatype wrap = SAME_WRAP | DIFF_WRAP

record 'a ring_buffer =
  read_pos :: nat
  write_pos :: nat
  element_count :: nat
  element_size :: nat
  rw_wrap :: wrap
  data :: "'a list"

definition available_read :: "'a ring_buffer \<Rightarrow> nat" where
  "available_read self =
     (if rw_wrap self = SAME_WRAP then size_sub (write_pos self) (read_pos self)
      else size_sub (element_count self) (read_pos self) + write_pos self)"

text \<open>The two public queries also accept a null handle.\<close>

definition WebRtc_available_read :: "'a ring_buffer option \<Rightarrow> nat" where
  "WebRtc_available_read self = (case self of None \<Rightarrow> 0 | Some b \<Rightarrow> available_read b)"

definition available_write :: "'a ring_buffer \<Rightarrow> nat" where
  "available_write self = size_sub (element_count self) (available_read self)"

definition WebRtc_available_write :: "'a ring_buffer option \<Rightarrow> nat" where
  "WebRtc_available_write self = (case self of None \<Rightarrow> 0 | Some b \<Rightarrow> available_write b)"

definition WebRtc_InitBuffer :: "'a::zero ring_buffer \<Rightarrow> 'a ring_buffer" where
  "WebRtc_InitBuffer self =
     self\<lparr>read_pos := 0, write_pos := 0, rw_wrap := SAME_WRAP,
       data := replicate (element_count self) 0\<rparr>"

text \<open>
  \<open>m1\<close> and \<open>m2\<close> say whether the two calls of \<^verbatim>\<open>malloc\<close> succeed, \<open>junk\<close> is what the struct
  holds before it is initialised.
\<close>

definition WebRtc_CreateBuffer ::
    "bool \<Rightarrow> bool \<Rightarrow> 'a::zero ring_buffer \<Rightarrow> nat \<Rightarrow> nat \<Rightarrow> 'a ring_buffer option" where
  "WebRtc_CreateBuffer m1 m2 junk count elem_size =
     (if count = 0 \<or> elem_size = 0 then None
      else if \<not> m1 then None
      else if \<not> m2 then None
      else Some (WebRtc_InitBuffer (junk\<lparr>element_count := count, element_size := elem_size\<rparr>)))"

definition WebRtc_MoveReadPtr :: "'a ring_buffer \<Rightarrow> int \<Rightarrow> 'a ring_buffer \<times> int" where
  "WebRtc_MoveReadPtr self count =
     (let free_elements = s32 (int (available_write self));
          readable_elements = s32 (int (available_read self));
          pos = s32 (int (read_pos self));
          count = (if count > readable_elements then readable_elements else count);
          count = (if count < - free_elements then - free_elements else count);
          pos = pos + count;
          (pos, wr) = (if pos > s32 (int (element_count self))
                       then (pos - s32 (int (element_count self)), SAME_WRAP)
                       else (pos, rw_wrap self));
          (pos, wr) = (if pos < 0 then (pos + s32 (int (element_count self)), DIFF_WRAP)
                       else (pos, wr))
      in (self\<lparr>read_pos := nat pos, rw_wrap := wr\<rparr>, count))"

text \<open>
  The two regions that hold the next elements, as offsets into \<open>data\<close> with their lengths; the
  second is \<^verbatim>\<open>NULL\<close> when the first holds them all.
\<close>

definition GetBufferReadRegions ::
    "'a ring_buffer \<Rightarrow> nat \<Rightarrow> nat \<times> (nat \<times> nat) \<times> (nat \<times> nat) option" where
  "GetBufferReadRegions buf count =
     (let readable_elements = available_read buf;
          read_elements = (if readable_elements < count then readable_elements else count);
          margin = size_sub (element_count buf) (read_pos buf)
      in if read_elements > margin
         then (read_elements, (read_pos buf, margin), Some (0, read_elements - margin))
         else (read_elements, (read_pos buf, read_elements), None))"

text \<open>
  \<open>want_ptr\<close> says whether \<^verbatim>\<open>data_ptr\<close> is given. The result holds the new buffer, the caller's
  array \<open>dst\<close> afterwards, the elements \<^verbatim>\<open>*data_ptr\<close> points to (\<open>None\<close> when no pointer was
  asked for), and the count.
\<close>

definition WebRtc_ReadBuffer ::
    "'a ring_buffer \<Rightarrow> bool \<Rightarrow> 'a list \<Rightarrow> nat \<Rightarrow> 'a ring_buffer \<times> 'a list \<times> 'a list option \<times> nat" where
  "WebRtc_ReadBuffer self want_ptr dst count =
     (case GetBufferReadRegions self count of (read_count, (p1, n1), r2) \<Rightarrow>
        let seg1 = take n1 (drop p1 (data self));
            (dst', view) =
              (case r2 of
                 Some (p2, n2) \<Rightarrow>
                   (let d = blit (blit dst 0 seg1) n1 (take n2 (drop p2 (data self)))
                    in (d, take read_count d))
               | None \<Rightarrow> (if \<not> want_ptr then (blit dst 0 seg1, seg1) else (dst, seg1)))
        in (fst (WebRtc_MoveReadPtr self (s32 (int read_count))), dst',
            (if want_ptr then Some view else None), read_count))"

definition WebRtc_WriteBuffer :: "'a ring_buffer \<Rightarrow> 'a list \<Rightarrow> nat \<Rightarrow> 'a ring_buffer \<times> nat" where
  "WebRtc_WriteBuffer self src count =
     (let free_elements = available_write self;
          write_elements = (if free_elements < count then free_elements else count);
          margin = size_sub (element_count self) (write_pos self);
          (self, n) =
            (if write_elements > margin
             then (self\<lparr>data := blit (data self) (write_pos self) (take margin src),
                        write_pos := 0, rw_wrap := DIFF_WRAP\<rparr>, write_elements - margin)
             else (self, write_elements))
      in (self\<lparr>data := blit (data self) (write_pos self) (take n (drop (write_elements - n) src)),
               write_pos := write_pos self + n\<rparr>, write_elements))"

section \<open>Invariant and abstraction\<close>

definition rb_ok :: "'a ring_buffer \<Rightarrow> bool" where
  "rb_ok b \<longleftrightarrow> 0 < element_count b \<and> element_count b < 2 ^ 31 \<and> read_pos b \<le> element_count b
     \<and> write_pos b \<le> element_count b \<and> length (data b) = element_count b
     \<and> (if rw_wrap b = SAME_WRAP then read_pos b \<le> write_pos b else write_pos b \<le> read_pos b)"

definition queue :: "'a ring_buffer \<Rightarrow> 'a list" where
  "queue b =
     (if rw_wrap b = SAME_WRAP then take (write_pos b - read_pos b) (drop (read_pos b) (data b))
      else drop (read_pos b) (data b) @ take (write_pos b) (data b))"

lemma length_queue: "rb_ok b \<Longrightarrow> length (queue b) = available_read b"
  by (auto simp: rb_ok_def queue_def available_read_def)

lemma available_read_le: "rb_ok b \<Longrightarrow> available_read b \<le> element_count b"
  by (auto simp: rb_ok_def available_read_def)

lemma available_write_eq: "rb_ok b \<Longrightarrow> available_write b = element_count b - length (queue b)"
  by (simp add: available_write_def available_read_le length_queue)

lemma InitBuffer_ok: "0 < element_count b \<Longrightarrow> element_count b < 2 ^ 31 \<Longrightarrow> rb_ok (WebRtc_InitBuffer b)"
  by (simp add: rb_ok_def WebRtc_InitBuffer_def)

lemma queue_init: "queue (WebRtc_InitBuffer b) = []"
  by (simp add: queue_def WebRtc_InitBuffer_def)

lemma element_count_init [simp]: "element_count (WebRtc_InitBuffer b) = element_count b"
  by (simp add: WebRtc_InitBuffer_def)

lemma s32_size: "n < 2 ^ 31 \<Longrightarrow> s32 (int n) = int n"
  by (rule s32_id) (simp add: is_s32_def)

lemma rb_ok_s32:
  assumes "rb_ok b"
  shows "s32 (int (available_write b)) = int (available_write b)"
    and "s32 (int (available_read b)) = int (available_read b)"
    and "s32 (int (read_pos b)) = int (read_pos b)"
    and "s32 (int (element_count b)) = int (element_count b)"
  using assms available_read_le [OF assms]
  by (auto simp: rb_ok_def available_write_def intro!: s32_size simp del: of_nat_diff)

section \<open>Moving the read position\<close>

text \<open>The number of elements moved is the request cut to what can be read or stuffed.\<close>

definition clamp_move :: "'a ring_buffer \<Rightarrow> int \<Rightarrow> int" where
  "clamp_move b k = max (- int (available_write b)) (min k (int (available_read b)))"

text \<open>Without the casts, which never change a value of a well-formed buffer:\<close>

lemma move_eq:
  assumes ok: "rb_ok b"
  shows "WebRtc_MoveReadPtr b k =
    (let e = clamp_move b k; pos = int (read_pos b) + e
     in (if pos > int (element_count b)
         then b\<lparr>read_pos := nat (pos - int (element_count b)), rw_wrap := SAME_WRAP\<rparr>
         else if pos < 0 then b\<lparr>read_pos := nat (pos + int (element_count b)), rw_wrap := DIFF_WRAP\<rparr>
         else b\<lparr>read_pos := nat pos\<rparr>, e))"
proof -
  have "clamp_move b k =
      (if (if k > int (available_read b) then int (available_read b) else k)
          < - int (available_write b) then - int (available_write b)
       else (if k > int (available_read b) then int (available_read b) else k))"
    by (simp add: clamp_move_def max_def min_def)
  then show ?thesis
    unfolding WebRtc_MoveReadPtr_def Let_def rb_ok_s32 [OF ok] by (auto split: prod.splits)
qed

lemma move_count: "rb_ok b \<Longrightarrow> snd (WebRtc_MoveReadPtr b k) = clamp_move b k"
  by (simp add: move_eq Let_def)

lemma move_frame:
  "data (fst (WebRtc_MoveReadPtr b k)) = data b"
  "write_pos (fst (WebRtc_MoveReadPtr b k)) = write_pos b"
  "element_count (fst (WebRtc_MoveReadPtr b k)) = element_count b"
  "element_size (fst (WebRtc_MoveReadPtr b k)) = element_size b"
  by (auto simp: WebRtc_MoveReadPtr_def Let_def split: if_splits)

lemma available_sum: "rb_ok b \<Longrightarrow> int (available_write b) = int (element_count b) - int (available_read b)"
  by (simp add: available_write_def available_read_le)

lemma move_ok:
  assumes ok: "rb_ok b"
  shows "rb_ok (fst (WebRtc_MoveReadPtr b k))"
proof -
  have e: "clamp_move b k \<le> int (available_read b)"
    "int (available_read b) - int (element_count b) \<le> clamp_move b k"
    using available_sum [OF ok] available_read_le [OF ok] by (auto simp: clamp_move_def)
  show ?thesis
    using ok e by (auto simp: move_eq Let_def rb_ok_def available_read_def
        nat_le_iff le_nat_iff split: if_splits)
qed

text \<open>Forwards: the elements moved over leave the front of the queue.\<close>

lemma move_forward:
  assumes ok: "rb_ok b" and k: "n \<le> length (queue b)"
  shows "queue (fst (WebRtc_MoveReadPtr b (int n))) = drop n (queue b)"
proof -
  have n: "n \<le> available_read b" using k by (simp add: length_queue ok)
  have clamp: "clamp_move b (int n) = int n" using n by (simp add: clamp_move_def)
  show ?thesis
    using ok n by (auto simp: move_eq clamp Let_def rb_ok_def available_read_def
        queue_def drop_take nat_add_distrib nat_diff_distrib algebra_simps split: if_splits)
qed

text \<open>Backwards (stuffing): old elements come back in front of the queue, which is kept.\<close>

lemma move_backward:
  assumes ok: "rb_ok b" and n: "n \<le> available_write b"
  shows "\<exists>old. length old = n \<and> queue (fst (WebRtc_MoveReadPtr b (- int n))) = old @ queue b"
proof -
  have clamp: "clamp_move b (- int n) = - int n" using n by (simp add: clamp_move_def)
  have sum: "int n \<le> int (element_count b) - int (available_read b)"
    using n available_sum [OF ok] by simp
  let ?b = "fst (WebRtc_MoveReadPtr b (- int n))"
  have ok': "rb_ok ?b" by (rule move_ok [OF ok])
  have "length (queue ?b) = available_read ?b" by (rule length_queue [OF ok'])
  also have "\<dots> = n + available_read b"
    using ok sum by (auto simp: move_eq clamp Let_def rb_ok_def available_read_def nat_add_distrib
        nat_diff_distrib split: if_splits)
  finally have len: "length (queue ?b) = n + length (queue b)" by (simp add: length_queue ok)
  have "drop n (queue ?b) = queue b"
  proof (cases "rw_wrap b")
    case SAME_WRAP
    then show ?thesis using ok sum
      by (auto simp: move_eq clamp Let_def rb_ok_def available_read_def queue_def drop_take
          nat_add_distrib nat_diff_distrib algebra_simps split: if_splits)
  next
    case DIFF_WRAP
    then show ?thesis using ok sum
      by (auto simp: move_eq clamp Let_def rb_ok_def available_read_def queue_def drop_take
          nat_add_distrib nat_diff_distrib algebra_simps split: if_splits)
  qed
  then have "queue ?b = take n (queue ?b) @ queue b" by (metis append_take_drop_id)
  then show ?thesis using len by (intro exI [of _ "take n (queue ?b)"]) simp
qed

section \<open>Reading\<close>

lemma read_count: "rb_ok b \<Longrightarrow> fst (GetBufferReadRegions b n) = min n (length (queue b))"
  by (auto simp: GetBufferReadRegions_def Let_def length_queue)

text \<open>The two regions together are the front of the queue.\<close>

definition regions :: "'a ring_buffer \<Rightarrow> nat \<Rightarrow> 'a list" where
  "regions b n =
     (case GetBufferReadRegions b n of (_, (p1, n1), r2) \<Rightarrow>
        take n1 (drop p1 (data b)) @
        (case r2 of None \<Rightarrow> [] | Some (p2, n2) \<Rightarrow> take n2 (drop p2 (data b))))"

lemma regions_queue: "rb_ok b \<Longrightarrow> regions b n = take n (queue b)"
  by (auto simp: regions_def GetBufferReadRegions_def Let_def queue_def rb_ok_def available_read_def
      min_def split: if_splits)

lemma read_eq:
  assumes ok: "rb_ok b" and dst: "n \<le> length dst"
  shows "WebRtc_ReadBuffer b p dst n =
    (fst (WebRtc_MoveReadPtr b (int (min n (length (queue b))))),
     (if p \<and> snd (snd (GetBufferReadRegions b n)) = None then dst
      else blit dst 0 (take n (queue b))),
     (if p then Some (take n (queue b)) else None), min n (length (queue b)))"
proof -
  define k where "k = min n (length (queue b))"
  obtain p1 n1 r2 where G: "GetBufferReadRegions b n = (k, (p1, n1), r2)"
    using read_count [OF ok, of n] unfolding k_def by (metis fst_conv prod.exhaust)
  have R: "take n1 (drop p1 (data b)) @
      (case r2 of None \<Rightarrow> [] | Some (p2, n2) \<Rightarrow> take n2 (drop p2 (data b))) = take n (queue b)"
    using regions_queue [OF ok, of n] unfolding regions_def G by simp
  have n1: "length (take n1 (drop p1 (data b))) = n1"
    using G ok by (auto simp: GetBufferReadRegions_def Let_def rb_ok_def available_read_def split: if_splits)
  have lt: "length (take n (queue b)) = k" by (simp add: k_def)
  have s32k: "s32 (int k) = int k"
    using ok available_read_le [OF ok] by (intro s32_size) (auto simp: k_def length_queue rb_ok_def)
  have two: "blit (blit dst 0 xs) (length xs) ys = blit dst 0 (xs @ ys)"
    if "length xs + length ys \<le> length dst" for xs ys :: "'a list"
    using that by (simp add: blit_def add.commute)
  show ?thesis unfolding k_def [symmetric]
  proof (cases r2)
    case None
    then show "WebRtc_ReadBuffer b p dst n = (fst (WebRtc_MoveReadPtr b (int k)),
       (if p \<and> snd (snd (GetBufferReadRegions b n)) = None then dst else blit dst 0 (take n (queue b))),
       (if p then Some (take n (queue b)) else None), k)"
      using R G by (simp add: WebRtc_ReadBuffer_def Let_def s32k)
  next
    case (Some r)
    obtain p2 n2 where r: "r = (p2, n2)" by (cases r)
    let ?xs = "take n1 (drop p1 (data b))" and ?ys = "take n2 (drop p2 (data b))"
    have xy: "?xs @ ?ys = take n (queue b)" using R Some r by simp
    then have l: "length ?xs + length ?ys = k" using lt by (metis length_append)
    have "blit (blit dst 0 ?xs) n1 ?ys = blit dst 0 (take n (queue b))"
      using two [of ?xs ?ys] l dst n1 xy by (simp add: k_def)
    moreover have "take k (blit dst 0 (take n (queue b))) = take n (queue b)"
      using take_blit_end [of 0 dst "take n (queue b)"] lt by simp
    ultimately show "WebRtc_ReadBuffer b p dst n = (fst (WebRtc_MoveReadPtr b (int k)),
       (if p \<and> snd (snd (GetBufferReadRegions b n)) = None then dst else blit dst 0 (take n (queue b))),
       (if p then Some (take n (queue b)) else None), k)"
      using G Some r by (simp add: WebRtc_ReadBuffer_def Let_def s32k)
  qed
qed

lemma read_state:
  assumes "rb_ok b" and "n \<le> length dst"
  shows "rb_ok (fst (WebRtc_ReadBuffer b p dst n))"
    and "queue (fst (WebRtc_ReadBuffer b p dst n)) = drop n (queue b)"
    and "element_count (fst (WebRtc_ReadBuffer b p dst n)) = element_count b"
    and "length (fst (snd (WebRtc_ReadBuffer b p dst n))) = length dst"
  using assms move_forward [OF assms(1), of "min n (length (queue b))"]
  by (auto simp: read_eq move_ok move_frame length_blit min_def)

section \<open>Writing\<close>

text \<open>The block is laid down at the write position and, when it wraps, from the start again.\<close>

lemma write_eq:
  assumes ok: "rb_ok b"
  defines "m \<equiv> element_count b - write_pos b"
  defines "k \<equiv> \<lambda>n. min n (element_count b - length (queue b))"
  shows "WebRtc_WriteBuffer b src n =
    (if k n > m
     then (b\<lparr>data := blit (blit (data b) (write_pos b) (take m src)) 0 (take (k n - m) (drop m src)),
             write_pos := k n - m, rw_wrap := DIFF_WRAP\<rparr>, k n)
     else (b\<lparr>data := blit (data b) (write_pos b) (take (k n) src), write_pos := write_pos b + k n\<rparr>, k n))"
proof -
  have "(if available_write b < n then available_write b else n) = k n"
    by (simp add: available_write_eq ok k_def min_def)
  moreover have "size_sub (element_count b) (write_pos b) = m"
    using ok by (simp add: m_def rb_ok_def)
  ultimately show ?thesis by (simp add: WebRtc_WriteBuffer_def Let_def)
qed

lemma write_count: "rb_ok b \<Longrightarrow> snd (WebRtc_WriteBuffer b src n) = min n (element_count b - length (queue b))"
  by (simp add: write_eq)

lemma write_frame: "rb_ok b \<Longrightarrow> element_count (fst (WebRtc_WriteBuffer b src n)) = element_count b"
  by (simp add: write_eq)

lemma queue_room: "rb_ok b \<Longrightarrow> length (queue b) \<le> element_count b"
  by (simp add: length_queue available_read_le)

lemma write_ok:
  assumes ok: "rb_ok b" and src: "n \<le> length src"
  shows "rb_ok (fst (WebRtc_WriteBuffer b src n))"
proof -
  define k where "k = min n (element_count b - length (queue b))"
  have k: "k \<le> element_count b - available_read b" "k \<le> length src"
    using src by (simp_all add: k_def length_queue ok)
  have c: "write_pos b \<le> element_count b" "read_pos b \<le> element_count b" "0 < element_count b"
    "element_count b < 2 ^ 31" "length (data b) = element_count b"
    using ok by (simp_all add: rb_ok_def)
  let ?m = "element_count b - write_pos b"
  show ?thesis
  proof (cases "?m < k")
    case True
    have same: "rw_wrap b = SAME_WRAP"
      using True k(1) ok by (cases "rw_wrap b") (auto simp: rb_ok_def available_read_def)
    have le: "k - ?m \<le> read_pos b"
      using k(1) ok same by (auto simp: rb_ok_def available_read_def)
    have "length (blit (data b) (write_pos b) (take ?m src)) = element_count b"
      using True k(2) c by (simp add: length_blit)
    then have "length (blit (blit (data b) (write_pos b) (take ?m src)) 0 (take (k - ?m) (drop ?m src)))
        = element_count b"
      using k(2) le c by (simp add: length_blit)
    then show ?thesis
      using True c le unfolding write_eq [OF ok] k_def [symmetric] by (simp add: rb_ok_def)
  next
    case False
    have "length (blit (data b) (write_pos b) (take k src)) = element_count b"
      using False k(2) c by (simp add: length_blit)
    moreover have "rw_wrap b \<noteq> SAME_WRAP \<Longrightarrow> write_pos b + k \<le> read_pos b"
      using k(1) ok by (auto simp: rb_ok_def available_read_def)
    ultimately show ?thesis
      using False ok unfolding write_eq [OF ok] k_def [symmetric] by (auto simp: rb_ok_def)
  qed
qed

lemma write_queue:
  assumes ok: "rb_ok b" and src: "n \<le> length src"
  defines "k \<equiv> min n (element_count b - length (queue b))"
  shows "queue (fst (WebRtc_WriteBuffer b src n)) = queue b @ take k src"
proof -
  have k: "k \<le> element_count b - available_read b" "k \<le> length src"
    using src by (simp_all add: k_def length_queue ok)
  have c: "write_pos b \<le> element_count b" "read_pos b \<le> element_count b"
    "length (data b) = element_count b"
    using ok by (simp_all add: rb_ok_def)
  let ?m = "element_count b - write_pos b"
  show ?thesis
  proof (cases "?m < k")
    case True
    have same: "rw_wrap b = SAME_WRAP"
      using True k(1) ok by (cases "rw_wrap b") (auto simp: rb_ok_def available_read_def)
    have le: "k - ?m \<le> read_pos b" "read_pos b \<le> write_pos b"
      using k(1) ok same by (auto simp: rb_ok_def available_read_def)
    let ?d1 = "blit (data b) (write_pos b) (take ?m src)" and ?s2 = "take (k - ?m) (drop ?m src)"
    have d1: "?d1 = take (write_pos b) (data b) @ take ?m src"
      using True k(2) c by (simp add: blit_def)
    have "drop (read_pos b) (blit ?d1 0 ?s2) = drop (read_pos b) ?d1"
      using le c k(2) True by (intro drop_blit) (simp_all add: d1)
    moreover have "take (k - ?m) (blit ?d1 0 ?s2) = ?s2"
      using take_blit_end [of 0 ?d1 ?s2] k(2) by simp
    moreover have "take ?m src @ ?s2 = take k src" using True by (simp add: take_drop_append)
    ultimately show ?thesis
      using True c le same unfolding write_eq [OF ok] k_def [symmetric]
      by (simp add: queue_def d1 drop_take)
  next
    case False
    let ?d = "blit (data b) (write_pos b) (take k src)"
    have t: "take (write_pos b + k) ?d = take (write_pos b) (data b) @ take k src"
      using take_blit_end [of "write_pos b" "data b" "take k src"] k(2) c by simp
    show ?thesis
    proof (cases "rw_wrap b")
      case SAME_WRAP
      have "read_pos b \<le> write_pos b" using SAME_WRAP ok by (simp add: rb_ok_def)
      then have "take (write_pos b + k - read_pos b) (drop (read_pos b) ?d) =
          drop (read_pos b) (take (write_pos b) (data b)) @ take k src"
        using t c by (simp add: drop_take [symmetric])
      then show ?thesis using False SAME_WRAP \<open>read_pos b \<le> write_pos b\<close>
        unfolding write_eq [OF ok] k_def [symmetric] by (simp add: queue_def drop_take)
    next
      case DIFF_WRAP
      have "write_pos b + k \<le> read_pos b" using DIFF_WRAP k(1) ok by (auto simp: rb_ok_def available_read_def)
      then have "drop (read_pos b) ?d = drop (read_pos b) (data b)"
        using k(2) c by (intro drop_blit) simp_all
      then show ?thesis using False DIFF_WRAP t
        unfolding write_eq [OF ok] k_def [symmetric] by (simp add: queue_def)
    qed
  qed
qed

section \<open>The buffer as a bounded queue\<close>

text \<open>
  What the clients rely on. \<open>put\<close> appends as much of a block as fits and returns how much that
  was; \<open>get\<close> takes up to \<open>n\<close> elements from the front. A sequence of operations returns what
  it read and what was accepted of what it wrote.
\<close>

datatype 'a fifo_op = Put "'a list" | Get nat

fun fifo_run :: "('q \<Rightarrow> 'a list \<Rightarrow> 'q \<times> nat) \<Rightarrow> ('q \<Rightarrow> nat \<Rightarrow> 'q \<times> 'a list) \<Rightarrow> 'q \<Rightarrow> 'a fifo_op list
    \<Rightarrow> 'q \<times> 'a list \<times> 'a list" where
  "fifo_run put get q [] = (q, [], [])"
| "fifo_run put get q (Put xs # ops) =
     (let (q', k) = put q xs; (q'', outs, ins) = fifo_run put get q' ops
      in (q'', outs, take k xs @ ins))"
| "fifo_run put get q (Get n # ops) =
     (let (q', xs) = get q n; (q'', outs, ins) = fifo_run put get q' ops
      in (q'', xs @ outs, ins))"

locale fifo =
  fixes inv :: "'q \<Rightarrow> bool" and content :: "'q \<Rightarrow> 'a list" and capacity :: "'q \<Rightarrow> nat"
    and put :: "'q \<Rightarrow> 'a list \<Rightarrow> 'q \<times> nat" and get :: "'q \<Rightarrow> nat \<Rightarrow> 'q \<times> 'a list"
  assumes put_inv: "inv q \<Longrightarrow> inv (fst (put q xs))"
    and put_count: "inv q \<Longrightarrow> snd (put q xs) = min (length xs) (capacity q - length (content q))"
    and put_content: "inv q \<Longrightarrow> content (fst (put q xs)) = content q @ take (snd (put q xs)) xs"
    and put_capacity: "inv q \<Longrightarrow> capacity (fst (put q xs)) = capacity q"
    and get_inv: "inv q \<Longrightarrow> inv (fst (get q n))"
    and get_out: "inv q \<Longrightarrow> snd (get q n) = take n (content q)"
    and get_content: "inv q \<Longrightarrow> content (fst (get q n)) = drop n (content q)"
    and get_capacity: "inv q \<Longrightarrow> capacity (fst (get q n)) = capacity q"
begin

lemma run_inv: "inv q \<Longrightarrow> inv (fst (fifo_run put get q ops))"
proof (induction ops arbitrary: q)
  case (Cons p ops)
  show ?case
  proof (cases p)
    case (Put xs)
    with Cons.IH [OF put_inv [OF Cons.prems, of xs]] show ?thesis by (simp add: Let_def case_prod_unfold)
  next
    case (Get n)
    with Cons.IH [OF get_inv [OF Cons.prems, of n]] show ?thesis by (simp add: Let_def case_prod_unfold)
  qed
qed simp

text \<open>Nothing accepted is lost, duplicated or reordered, whatever the sequence of operations.\<close>

lemma run_stream:
  "inv q \<Longrightarrow> fifo_run put get q ops = (q', outs, ins) \<Longrightarrow> outs @ content q' = content q @ ins"
proof (induction ops arbitrary: q outs ins)
  case (Cons p ops)
  show ?case
  proof (cases p)
    case (Put xs)
    obtain q1 k where P: "put q xs = (q1, k)" by (cases "put q xs")
    obtain outs1 ins1 where R: "fifo_run put get q1 ops = (q', outs1, ins1)" "outs = outs1" "ins = take k xs @ ins1"
      using Cons.prems(2) Put P by (auto simp: Let_def split: prod.splits)
    have "inv q1" "content q1 = content q @ take k xs"
      using put_inv [OF Cons.prems(1), of xs] put_content [OF Cons.prems(1), of xs] P by simp_all
    with Cons.IH [OF _ R(1)] show ?thesis using R by simp
  next
    case (Get n)
    obtain q1 xs where P: "get q n = (q1, xs)" by (cases "get q n")
    obtain outs1 ins1 where R: "fifo_run put get q1 ops = (q', outs1, ins1)" "outs = xs @ outs1" "ins = ins1"
      using Cons.prems(2) Get P by (auto simp: Let_def split: prod.splits)
    have "inv q1" "content q1 = drop n (content q)" "xs = take n (content q)"
      using get_inv [OF Cons.prems(1), of n] get_content [OF Cons.prems(1), of n]
        get_out [OF Cons.prems(1), of n] P by simp_all
    with Cons.IH [OF _ R(1)] show ?thesis using R by simp
  qed
qed simp

end

definition rb_put :: "'a ring_buffer \<Rightarrow> 'a list \<Rightarrow> 'a ring_buffer \<times> nat" where
  "rb_put b xs = WebRtc_WriteBuffer b xs (length xs)"

text \<open>A read into an array of \<open>n\<close> elements of the caller, without \<^verbatim>\<open>data_ptr\<close>.\<close>

definition rb_get :: "'a::zero ring_buffer \<Rightarrow> nat \<Rightarrow> 'a ring_buffer \<times> 'a list" where
  "rb_get b n =
     (case WebRtc_ReadBuffer b False (replicate n 0) n of (b', dst, _, k) \<Rightarrow> (b', take k dst))"

lemma rb_get_eq:
  assumes "rb_ok b"
  shows "fst (rb_get b n) = fst (WebRtc_ReadBuffer b False (replicate n 0) n)"
    and "snd (rb_get b n) = take n (queue b)"
  using assms by (auto simp: rb_get_def read_eq blit_def min_def split: prod.splits)

interpretation rb: fifo rb_ok queue element_count rb_put rb_get
  by unfold_locales
     (simp_all add: rb_put_def write_ok write_count write_queue write_frame rb_get_eq read_state)

section \<open>Properties\<close>

text \<open>
  C13. Over any sequence of writes and reads, also when a write does not fit or a read asks for
  too much, the elements read followed by those still queued are the elements queued at first
  followed by those the writes accepted: the ring buffer is a queue that loses, duplicates and
  reorders nothing.
\<close>

theorem ring_buffer_stream:
  assumes "rb_ok b" and "fifo_run rb_put rb_get b ops = (b', outs, ins)"
  shows "outs @ queue b' = queue b @ ins"
  using assms by (rule rb.run_stream)

definition example_buffer :: "int ring_buffer" where
  "example_buffer = \<lparr>read_pos = 2, write_pos = 2, element_count = 3, element_size = 2,
     rw_wrap = SAME_WRAP, data = [0, 0, 0]\<rparr>"

lemma example_buffer_ok: "rb_ok example_buffer"
  by (simp add: rb_ok_def example_buffer_def)

theorem ring_buffer_stream_witness:
  "\<exists>b'. fifo_run rb_put rb_get example_buffer [Put [1, 2], Get 1, Put [3, 4, 5], Get 9]
     = (b', [1, 2, 3, 4], [1, 2, 3, 4]) \<and> [1, 2, 3, 4] @ queue b' = [1, 2, 3, 4]"
proof -
  have "snd (fifo_run rb_put rb_get example_buffer [Put [1, 2], Get 1, Put [3, 4, 5], Get 9])
      = ([1, 2, 3, 4], [1, 2, 3, 4])"
    by code_simp
  then obtain b' where r: "fifo_run rb_put rb_get example_buffer
      [Put [1, 2], Get 1, Put [3, 4, 5], Get 9] = (b', [1, 2, 3, 4], [1, 2, 3, 4])"
    by (metis prod.collapse)
  have "queue example_buffer = []" by (simp add: queue_def example_buffer_def)
  with ring_buffer_stream [OF example_buffer_ok r] r show ?thesis by auto
qed

text \<open>
  \<open>WebRtc_MoveReadPtr\<close> moves the request cut to the readable elements (forwards) and to the
  free ones (backwards), returns that number, keeps the buffer well formed, drops exactly the
  elements moved over, and when it moves backwards puts old elements in front of the queue and
  keeps the queue itself.
\<close>

theorem ring_buffer_move:
  assumes ok: "rb_ok b" and m: "WebRtc_MoveReadPtr b k = (b', e)"
  shows "rb_ok b' \<and> e = max (int (length (queue b)) - int (element_count b)) (min k (int (length (queue b))))
    \<and> (0 \<le> e \<longrightarrow> queue b' = drop (nat e) (queue b))
    \<and> (e \<le> 0 \<longrightarrow> (\<exists>old. length old = nat (- e) \<and> queue b' = old @ queue b))"
proof -
  have e: "e = clamp_move b k" using move_count [OF ok, of k] m by simp
  have b': "b' = fst (WebRtc_MoveReadPtr b e)"
  proof -
    have "clamp_move b (clamp_move b k) = clamp_move b k" by (simp add: clamp_move_def)
    then have "WebRtc_MoveReadPtr b (clamp_move b k) = WebRtc_MoveReadPtr b k"
      by (simp add: move_eq [OF ok] Let_def)
    then show ?thesis using m e by simp
  qed
  have lo: "- int (available_write b) \<le> e" and hi: "e \<le> int (length (queue b))"
    using e by (auto simp: clamp_move_def length_queue ok)
  have "queue b' = drop (nat e) (queue b)" if "0 \<le> e"
    using move_forward [OF ok, of "nat e"] that hi b' by simp
  moreover have "\<exists>old. length old = nat (- e) \<and> queue b' = old @ queue b" if "e \<le> 0"
    using move_backward [OF ok, of "nat (- e)"] that lo b' by simp
  moreover have "e = max (int (length (queue b)) - int (element_count b)) (min k (int (length (queue b))))"
    using available_sum [OF ok] by (simp add: e clamp_move_def length_queue ok)
  moreover have "rb_ok b'" using move_ok [OF ok] b' by simp
  ultimately show ?thesis by blast
qed

theorem ring_buffer_move_witness:
  "snd (WebRtc_MoveReadPtr example_buffer (-7)) = - 3
   \<and> length (queue (fst (WebRtc_MoveReadPtr example_buffer (-7)))) = 3"
  using ring_buffer_move [OF example_buffer_ok prod.collapse [symmetric], of "-7"]
  by (auto simp: queue_def example_buffer_def)

text \<open>
  \<open>WebRtc_CreateBuffer\<close> returns a buffer exactly when neither size is zero and both
  allocations succeed; that buffer is well formed, empty, and has the requested capacity.
\<close>

theorem ring_buffer_create:
  assumes "count < 2 ^ 31"
  shows "(WebRtc_CreateBuffer m1 m2 junk count elem_size = None
      \<longleftrightarrow> count = 0 \<or> elem_size = 0 \<or> \<not> m1 \<or> \<not> m2)
    \<and> (\<forall>b. WebRtc_CreateBuffer m1 m2 junk count elem_size = Some b
      \<longrightarrow> rb_ok b \<and> queue b = [] \<and> element_count b = count \<and> available_write b = count)"
  using assms by (auto simp: WebRtc_CreateBuffer_def InitBuffer_ok queue_init available_write_eq)

theorem ring_buffer_create_witness:
  "(160::nat) < 2 ^ 31 \<and> (\<exists>b. WebRtc_CreateBuffer True True example_buffer 160 2 = Some b \<and> rb_ok b)"
proof -
  have "(160::nat) < 2 ^ 31" by simp
  from ring_buffer_create [OF this, of True True example_buffer 2] show ?thesis by auto
qed

end
