(* ===== verification/Spl_Inline.thy ===== *)
theory Spl_Inline
  imports Prelude
begin

unbundle bit_operations_syntax

text \<open>
  The inline functions and macros of the signal processing library
  (\<^verbatim>\<open>common_audio/signal_processing/include/spl_inl.h\<close> and
  \<^verbatim>\<open>signal_processing_library.h\<close>), in their generic C versions: saturation, saturated sums, and
  the normalisation functions, which count the bits of a value by five masks and shifts. The
  lemmas give each its meaning over the integers.
\<close>

section \<open>Saturation\<close>

definition WebRtcSpl_SatW32ToW16 :: "int \<Rightarrow> int" where
  "WebRtcSpl_SatW32ToW16 value32 =
     (let out16 = s16 value32
      in if value32 > 32767 then 32767 else if value32 < - 32768 then - 32768 else out16)"

definition WebRtcSpl_AddSatW32 :: "int \<Rightarrow> int \<Rightarrow> int" where
  "WebRtcSpl_AddSatW32 l_var1 l_var2 =
     (let l_sum = s32 (l_var1 + l_var2)
      in if l_var1 < 0
         then (if l_var2 < 0 \<and> l_sum \<ge> 0 then - 2147483648 else l_sum)
         else (if l_var2 > 0 \<and> l_sum < 0 then 2147483647 else l_sum))"

definition WebRtcSpl_SubSatW32 :: "int \<Rightarrow> int \<Rightarrow> int" where
  "WebRtcSpl_SubSatW32 l_var1 l_var2 =
     (let l_diff = s32 (l_var1 - l_var2)
      in if l_var1 < 0
         then (if l_var2 > 0 \<and> l_diff > 0 then - 2147483648 else l_diff)
         else (if l_var2 < 0 \<and> l_diff < 0 then 2147483647 else l_diff))"

definition WebRtcSpl_AddSatW16 :: "int \<Rightarrow> int \<Rightarrow> int" where
  "WebRtcSpl_AddSatW16 a b = WebRtcSpl_SatW32ToW16 (a + b)"

definition WebRtcSpl_SubSatW16 :: "int \<Rightarrow> int \<Rightarrow> int" where
  "WebRtcSpl_SubSatW16 var1 var2 = WebRtcSpl_SatW32ToW16 (var1 - var2)"

definition WebRtc_MulAccumW16 :: "int \<Rightarrow> int \<Rightarrow> int \<Rightarrow> int" where
  "WebRtc_MulAccumW16 a b c = s32 (a * b + c)"

section \<open>Bit counts\<close>

definition WebRtcSpl_GetSizeInBits :: "int \<Rightarrow> int" where
  "WebRtcSpl_GetSizeInBits n =
     (let bits = (if 0xFFFF0000 AND n \<noteq> 0 then 16 else 0);
          bits = (if 0x0000FF00 AND shr n bits \<noteq> 0 then bits + 8 else bits);
          bits = (if 0x000000F0 AND shr n bits \<noteq> 0 then bits + 4 else bits);
          bits = (if 0x0000000C AND shr n bits \<noteq> 0 then bits + 2 else bits);
          bits = (if 0x00000002 AND shr n bits \<noteq> 0 then bits + 1 else bits);
          bits = (if 0x00000001 AND shr n bits \<noteq> 0 then bits + 1 else bits)
      in int bits)"

text \<open>The five mask tests of \<open>NormW32\<close>, on a value that is not negative.\<close>

definition normW32_zeros :: "int \<Rightarrow> nat" where
  "normW32_zeros a =
     (let zeros = (if 0xFFFF8000 AND u32 a = 0 then 16 else 0);
          zeros = (if 0xFF800000 AND u32 (shl a zeros) = 0 then zeros + 8 else zeros);
          zeros = (if 0xF8000000 AND u32 (shl a zeros) = 0 then zeros + 4 else zeros);
          zeros = (if 0xE0000000 AND u32 (shl a zeros) = 0 then zeros + 2 else zeros);
          zeros = (if 0xC0000000 AND u32 (shl a zeros) = 0 then zeros + 1 else zeros)
      in zeros)"

definition WebRtcSpl_NormW32 :: "int \<Rightarrow> int" where
  "WebRtcSpl_NormW32 a =
     (if a = 0 then 0 else int (normW32_zeros (if a < 0 then NOT a else a)))"

definition WebRtcSpl_NormU32 :: "int \<Rightarrow> int" where
  "WebRtcSpl_NormU32 a =
     (if a = 0 then 0
      else let
          zeros = (if 0xFFFF0000 AND a = 0 then 16 else 0);
          zeros = (if 0xFF000000 AND u32 (shl a zeros) = 0 then zeros + 8 else zeros);
          zeros = (if 0xF0000000 AND u32 (shl a zeros) = 0 then zeros + 4 else zeros);
          zeros = (if 0xC0000000 AND u32 (shl a zeros) = 0 then zeros + 2 else zeros);
          zeros = (if 0x80000000 AND u32 (shl a zeros) = 0 then zeros + 1 else zeros)
      in int zeros)"

definition normW16_zeros :: "int \<Rightarrow> nat" where
  "normW16_zeros a =
     (let zeros = (if 0xFF80 AND a = 0 then 8 else 0);
          zeros = (if 0xF800 AND shl a zeros = 0 then zeros + 4 else zeros);
          zeros = (if 0xE000 AND shl a zeros = 0 then zeros + 2 else zeros);
          zeros = (if 0xC000 AND shl a zeros = 0 then zeros + 1 else zeros)
      in zeros)"

definition WebRtcSpl_NormW16 :: "int \<Rightarrow> int" where
  "WebRtcSpl_NormW16 a =
     (if a = 0 then 0 else int (normW16_zeros (if a < 0 then NOT a else a)))"

section \<open>Macros\<close>

definition WEBRTC_SPL_MUL :: "int \<Rightarrow> int \<Rightarrow> int" where
  "WEBRTC_SPL_MUL a b = s32 (a * b)"

definition WEBRTC_SPL_ABS_W16 :: "int \<Rightarrow> int" where
  "WEBRTC_SPL_ABS_W16 a = (if s16 a \<ge> 0 then s16 a else - s16 a)"

definition WEBRTC_SPL_ABS_W32 :: "int \<Rightarrow> int" where
  "WEBRTC_SPL_ABS_W32 a = (if s32 a \<ge> 0 then s32 a else s32 (- s32 a))"

definition WEBRTC_SPL_UMUL_32_16 :: "int \<Rightarrow> int \<Rightarrow> int" where
  "WEBRTC_SPL_UMUL_32_16 a b = u32 (u32 a * u16 b)"

definition WEBRTC_SPL_MUL_16_U16 :: "int \<Rightarrow> int \<Rightarrow> int" where
  "WEBRTC_SPL_MUL_16_U16 a b = s16 a * u16 b"

definition WEBRTC_SPL_MUL_16_16 :: "int \<Rightarrow> int \<Rightarrow> int" where
  "WEBRTC_SPL_MUL_16_16 a b = s16 a * s16 b"

definition WEBRTC_SPL_MUL_16_16_RSFT_WITH_ROUND :: "int \<Rightarrow> int \<Rightarrow> nat \<Rightarrow> int" where
  "WEBRTC_SPL_MUL_16_16_RSFT_WITH_ROUND a b c = shr (WEBRTC_SPL_MUL_16_16 a b + shl 1 (c - 1)) c"

definition WEBRTC_SPL_SAT :: "int \<Rightarrow> int \<Rightarrow> int \<Rightarrow> int" where
  "WEBRTC_SPL_SAT a b c = (if b > a then a else if b < c then c else b)"

text \<open>The macro \<open>WEBRTC_SPL_SHIFT_W32\<close> on a signed 32 bit value, and as \<open>shift_u32\<close> on an unsigned one.\<close>

definition WEBRTC_SPL_SHIFT_W32 :: "int \<Rightarrow> int \<Rightarrow> int" where
  "WEBRTC_SPL_SHIFT_W32 x c = (if c \<ge> 0 then s32 (shl x (nat c)) else shr x (nat (- c)))"

definition shift_u32 :: "int \<Rightarrow> int \<Rightarrow> int" where
  "shift_u32 x c = (if c \<ge> 0 then u32 (shl x (nat c)) else shr x (nat (- c)))"

definition WEBRTC_SPL_LSHIFT_W32 :: "int \<Rightarrow> nat \<Rightarrow> int" where
  "WEBRTC_SPL_LSHIFT_W32 x c = s32 (shl x c)"

definition WEBRTC_SPL_RSHIFT_U32 :: "int \<Rightarrow> nat \<Rightarrow> int" where
  "WEBRTC_SPL_RSHIFT_U32 x c = shr (u32 x) c"

definition WEBRTC_SPL_RAND :: "int \<Rightarrow> int" where
  "WEBRTC_SPL_RAND a = s16 (shr (s16 a * 18816) 7 AND 0x7fff)"

definition WEBRTC_SPL_SCALEDIFF32 :: "int \<Rightarrow> int \<Rightarrow> int \<Rightarrow> int" where
  "WEBRTC_SPL_SCALEDIFF32 A B C =
     s32 (C + shr B 16 * A + shr (u32 (u32 (0x0000FFFF AND B) * A)) 16)"

section \<open>Meaning\<close>

definition clamp16 :: "int \<Rightarrow> int" where
  "clamp16 x = max (- 32768) (min 32767 x)"

definition clamp32 :: "int \<Rightarrow> int" where
  "clamp32 x = max (- 2147483648) (min 2147483647 x)"

lemma is_s16_clamp16 [simp, range_simps]: "is_s16 (clamp16 x)"
  by (simp add: is_s16_def clamp16_def)

lemma is_s32_clamp32 [simp, range_simps]: "is_s32 (clamp32 x)"
  by (simp add: is_s32_def clamp32_def)

lemma SatW32ToW16_eq: "WebRtcSpl_SatW32ToW16 x = clamp16 x"
  by (auto simp: WebRtcSpl_SatW32ToW16_def clamp16_def Let_def s16_id is_s16_def)

lemma s32_cases:
  assumes "- 4294967296 \<le> x" and "x < 4294967296"
  shows "s32 x = (if x < - 2147483648 then x + 4294967296 else if x > 2147483647 then x - 4294967296 else x)"
proof -
  have shift: "(y :: int) mod 4294967296 = (y + 4294967296) mod 4294967296"
    and shift': "y mod 4294967296 = (y - 4294967296) mod 4294967296" for y :: int
    by simp_all
  consider "x < - 2147483648" | "x > 2147483647" | "- 2147483648 \<le> x \<and> x \<le> 2147483647" by linarith
  then show ?thesis
  proof cases
    case 1
    then show ?thesis using assms unfolding s32_def by (subst shift) (simp add: mod_pos_pos_trivial)
  next
    case 2
    then show ?thesis using assms unfolding s32_def by (subst shift') (simp add: mod_pos_pos_trivial)
  next
    case 3
    then show ?thesis by (simp add: s32_id is_s32_def)
  qed
qed

lemma AddSatW32_eq: "is_s32 a \<Longrightarrow> is_s32 b \<Longrightarrow> WebRtcSpl_AddSatW32 a b = clamp32 (a + b)"
  by (auto simp: WebRtcSpl_AddSatW32_def clamp32_def Let_def is_s32_def s32_cases)

lemma SubSatW32_eq: "is_s32 a \<Longrightarrow> is_s32 b \<Longrightarrow> WebRtcSpl_SubSatW32 a b = clamp32 (a - b)"
  by (auto simp: WebRtcSpl_SubSatW32_def clamp32_def Let_def is_s32_def s32_cases)

lemma AddSatW16_eq: "WebRtcSpl_AddSatW16 a b = clamp16 (a + b)"
  by (simp add: WebRtcSpl_AddSatW16_def SatW32ToW16_eq)

lemma SubSatW16_eq: "WebRtcSpl_SubSatW16 a b = clamp16 (a - b)"
  by (simp add: WebRtcSpl_SubSatW16_def SatW32ToW16_eq)

text \<open>A mask of the high bits tests a bound.\<close>

lemma high_mask:
  assumes "0 \<le> a" "a < 2 ^ n" "k \<le> n"
  shows "((2 ^ n - 2 ^ k) AND a = (0::int)) \<longleftrightarrow> a < 2 ^ k"
proof -
  have m: "(2 ^ n - 2 ^ k :: int) = push_bit k (mask (n - k))"
    using assms(3) by (simp add: push_bit_eq_mult mask_eq_exp_minus_1 algebra_simps flip: power_add)
  have "push_bit k (mask (n - k)) AND a = push_bit k (mask (n - k) AND drop_bit k a)"
    by (rule bit_eqI) (auto simp: bit_simps)
  also have "mask (n - k) AND drop_bit k a = take_bit (n - k) (drop_bit k a)"
    by (simp add: take_bit_eq_mask ac_simps)
  also have "\<dots> = drop_bit k a"
  proof (rule take_bit_int_eq_self)
    show "0 \<le> drop_bit k a" using assms(1) by simp
    have "a < 2 ^ (n - k) * 2 ^ k" using assms(2,3) by (simp flip: power_add)
    then show "drop_bit k a < 2 ^ (n - k)"
      by (simp add: drop_bit_eq_div div_less_iff)
  qed
  finally have "(2 ^ n - 2 ^ k) AND a = push_bit k (drop_bit k a)" by (simp add: m)
  moreover have "push_bit k (drop_bit k a) = 0 \<longleftrightarrow> a < 2 ^ k"
    using assms(1) by (simp add: drop_bit_eq_div push_bit_eq_mult zdiv_eq_0_iff)
      (metis linorder_not_less order_less_le_trans zero_less_numeral zero_less_power)
  ultimately show ?thesis by simp
qed

lemma mask32:
  assumes "is_u32 a"
  shows "0xFFFF0000 AND a = 0 \<longleftrightarrow> a < 0x10000" "0xFF000000 AND a = 0 \<longleftrightarrow> a < 0x1000000"
    "0xF0000000 AND a = 0 \<longleftrightarrow> a < 0x10000000" "0xC0000000 AND a = 0 \<longleftrightarrow> a < 0x40000000"
    "0x80000000 AND a = 0 \<longleftrightarrow> a < 0x80000000" "0xFFFF8000 AND a = 0 \<longleftrightarrow> a < 0x8000"
    "0xFF800000 AND a = 0 \<longleftrightarrow> a < 0x800000" "0xF8000000 AND a = 0 \<longleftrightarrow> a < 0x8000000"
    "0xE0000000 AND a = 0 \<longleftrightarrow> a < 0x20000000"
  using assms high_mask [of a 32 16] high_mask [of a 32 24] high_mask [of a 32 28]
    high_mask [of a 32 30] high_mask [of a 32 31] high_mask [of a 32 15] high_mask [of a 32 23]
    high_mask [of a 32 27] high_mask [of a 32 29]
  by (simp_all add: is_u32_def)

lemma mask16:
  assumes "0 \<le> a" "a < (0x10000::int)"
  shows "0xFF80 AND a = 0 \<longleftrightarrow> a < 0x80" "0xF800 AND a = 0 \<longleftrightarrow> a < 0x800"
    "0xE000 AND a = 0 \<longleftrightarrow> a < 0x2000" "0xC000 AND a = 0 \<longleftrightarrow> a < 0x4000"
  using assms high_mask [of a 16 7] high_mask [of a 16 11] high_mask [of a 16 13] high_mask [of a 16 14]
  by simp_all

text \<open>The bytes and nibbles tested by \<open>GetSizeInBits\<close>, once the bits above are known to be zero.\<close>

lemma mask_low:
  "0 \<le> a \<Longrightarrow> a < 0x10000 \<Longrightarrow> 0x0000FF00 AND a = 0 \<longleftrightarrow> a < (0x100::int)"
  "0 \<le> a \<Longrightarrow> a < 0x100 \<Longrightarrow> 0x000000F0 AND a = 0 \<longleftrightarrow> a < (0x10::int)"
  "0 \<le> a \<Longrightarrow> a < 0x10 \<Longrightarrow> 0x0000000C AND a = 0 \<longleftrightarrow> a < (4::int)"
  "0 \<le> a \<Longrightarrow> a < 4 \<Longrightarrow> 0x00000002 AND a = 0 \<longleftrightarrow> a < (2::int)"
  "0 \<le> a \<Longrightarrow> a < 2 \<Longrightarrow> 0x00000001 AND a = 0 \<longleftrightarrow> a < (1::int)"
  using high_mask [of a 16 8] high_mask [of a 8 4] high_mask [of a 4 2] high_mask [of a 2 1] high_mask [of a 1 0]
  by simp_all

lemma NormU32_spec:
  assumes "is_u32 a" and "a \<noteq> 0"
  obtains z where "WebRtcSpl_NormU32 a = int z" "z < 32" "2 ^ 31 \<le> a * 2 ^ z" "a * 2 ^ z < 2 ^ 32"
proof -
  have "\<exists>z. WebRtcSpl_NormU32 a = int z \<and> z < 32 \<and> 2 ^ 31 \<le> a * 2 ^ z \<and> a * 2 ^ z < 2 ^ 32"
    using assms by (auto simp: WebRtcSpl_NormU32_def Let_def mask32 shl_def is_u32_def u32_id split: if_splits)
  then show ?thesis using that by blast
qed

lemma normW32_pos:
  assumes "0 < a" and "a < 2 ^ 31"
  shows "normW32_zeros a < 32 \<and> 2 ^ 30 \<le> a * 2 ^ normW32_zeros a \<and> a * 2 ^ normW32_zeros a < 2 ^ 31"
proof -
  have a: "0 < a" "a < 0x80000000" using assms by simp_all
  have u: "u32 (shl a k) = a * 2 ^ k" if "a * 2 ^ k < 0x80000000" for k
    using a that by (simp add: u32_id is_u32_def shl_def)
  have u0: "u32 a = a" using a by (simp add: u32_id is_u32_def)
  have m: "0xFFFF8000 AND b = 0 \<longleftrightarrow> b < 0x8000" "0xFF800000 AND b = 0 \<longleftrightarrow> b < 0x800000"
     "0xF8000000 AND b = 0 \<longleftrightarrow> b < 0x8000000" "0xE0000000 AND b = 0 \<longleftrightarrow> b < 0x20000000"
     "0xC0000000 AND b = 0 \<longleftrightarrow> b < 0x40000000"
    if "0 < b" "b < 0x80000000" for b :: int
    using that mask32 [of b] by (simp_all add: is_u32_def)
  define z1 where "z1 = (if 0xFFFF8000 AND u32 a = 0 then 16 else (0::nat))"
  have s1: "0 < a * 2 ^ z1" "a * 2 ^ z1 < 0x80000000" "z1 = 0 \<or> z1 = 16" "0x8000 \<le> a * 2 ^ z1"
    using a by (auto simp: z1_def u0 m)
  define z2 where "z2 = (if 0xFF800000 AND u32 (shl a z1) = 0 then z1 + 8 else z1)"
  have s2: "0 < a * 2 ^ z2" "a * 2 ^ z2 < 0x80000000" "z2 = z1 \<or> z2 = z1 + 8" "0x800000 \<le> a * 2 ^ z2"
    using a s1 by (auto simp: z2_def u m power_add)
  define z3 where "z3 = (if 0xF8000000 AND u32 (shl a z2) = 0 then z2 + 4 else z2)"
  have s3: "0 < a * 2 ^ z3" "a * 2 ^ z3 < 0x80000000" "z3 = z2 \<or> z3 = z2 + 4" "0x8000000 \<le> a * 2 ^ z3"
    using a s2 by (auto simp: z3_def u m power_add)
  define z4 where "z4 = (if 0xE0000000 AND u32 (shl a z3) = 0 then z3 + 2 else z3)"
  have s4: "0 < a * 2 ^ z4" "a * 2 ^ z4 < 0x80000000" "z4 = z3 \<or> z4 = z3 + 2" "0x20000000 \<le> a * 2 ^ z4"
    using a s3 by (auto simp: z4_def u m power_add)
  define z5 where "z5 = (if 0xC0000000 AND u32 (shl a z4) = 0 then z4 + 1 else z4)"
  have s5: "0 < a * 2 ^ z5" "a * 2 ^ z5 < 0x80000000" "z5 = z4 \<or> z5 = z4 + 1" "0x40000000 \<le> a * 2 ^ z5"
    using a s4 by (auto simp: z5_def u m power_add)
  have "normW32_zeros a = z5"
    by (simp only: normW32_zeros_def Let_def z1_def z2_def z3_def z4_def z5_def)
  moreover have "z5 < 32" using s1(3) s2(3) s3(3) s4(3) s5(3) by arith
  ultimately show ?thesis using s5 by simp
qed

lemma normW16_pos:
  assumes "0 < a" and "a < 2 ^ 15"
  shows "normW16_zeros a < 16 \<and> 2 ^ 14 \<le> a * 2 ^ normW16_zeros a \<and> a * 2 ^ normW16_zeros a < 2 ^ 15"
  using assms by (auto simp: normW16_zeros_def Let_def mask16 shl_def split: if_splits)

lemma norm_zeros_0: "normW32_zeros 0 = 31" "normW16_zeros 0 = 15"
  by (simp_all add: normW32_zeros_def normW16_zeros_def u32_def Let_def)

text \<open>One bound for both signs: the complement of a negative value has its leading bits.\<close>

lemma norm_complement:
  assumes "z \<le> n" and "2 ^ n \<le> 2 * ((- a - 1) * 2 ^ z)" and "(- a - 1) * 2 ^ z < 2 ^ n" and "a < (- 1 :: int)"
  shows "- (2 ^ n) \<le> a * 2 ^ z" and "a * 2 ^ z < 0" and "a * 2 ^ Suc z < - (2 ^ n)"
proof -
  have split: "(2::int) ^ n = 2 ^ (n - z) * 2 ^ z" using assms(1) by (simp flip: power_add)
  then have "- a - 1 < 2 ^ (n - z)" using assms(3) by simp
  then have "- a \<le> 2 ^ (n - z)" by linarith
  then have "- a * 2 ^ z \<le> 2 ^ (n - z) * 2 ^ z" by (rule mult_right_mono) simp
  then show "- (2 ^ n) \<le> a * 2 ^ z" using split by simp
  show "a * 2 ^ z < 0" using assms(4) by (simp add: mult_neg_pos)
  have "(0::int) < 2 ^ z" by simp
  moreover have "2 * ((- a - 1) * 2 ^ z) = - (a * 2 ^ Suc z) - 2 * 2 ^ z" by (simp add: algebra_simps)
  ultimately show "a * 2 ^ Suc z < - (2 ^ n)" using assms(2) by linarith
qed

lemma NormW32_spec:
  assumes "is_s32 a" and "a \<noteq> 0"
  obtains z where "WebRtcSpl_NormW32 a = int z" "z < 32" "is_s32 (a * 2 ^ z)" "\<not> is_s32 (a * 2 ^ Suc z)"
proof -
  consider "0 < a" | "a = - 1" | "a < - 1" using assms(2) by linarith
  then have "\<exists>z. WebRtcSpl_NormW32 a = int z \<and> z < 32 \<and> is_s32 (a * 2 ^ z) \<and> \<not> is_s32 (a * 2 ^ Suc z)"
  proof cases
    case 1
    then show ?thesis using normW32_pos [of a] assms(1)
      by (auto simp: is_s32_def WebRtcSpl_NormW32_def)
  next
    case 2
    then show ?thesis by (simp add: is_s32_def WebRtcSpl_NormW32_def norm_zeros_0)
  next
    case 3
    let ?z = "normW32_zeros (- a - 1)"
    have b: "?z < 32" "2 ^ 30 \<le> (- a - 1) * 2 ^ ?z" "(- a - 1) * 2 ^ ?z < 2 ^ 31"
      using normW32_pos [of "- a - 1"] 3 assms(1) by (auto simp: is_s32_def)
    have "WebRtcSpl_NormW32 a = int ?z" using 3 by (simp add: WebRtcSpl_NormW32_def not_eq_complement)
    moreover have "is_s32 (a * 2 ^ ?z)" "\<not> is_s32 (a * 2 ^ Suc ?z)"
    proof -
      have "2 ^ 31 \<le> 2 * ((- a - 1) * 2 ^ ?z)"
        using mult_left_mono [OF b(2), of 2] by simp
      note c = norm_complement [OF _ this b(3) 3]
      show "is_s32 (a * 2 ^ ?z)" "\<not> is_s32 (a * 2 ^ Suc ?z)"
        using c b(1) by (auto simp: is_s32_def)
    qed
    ultimately show ?thesis using b(1) by blast
  qed
  then show ?thesis using that by blast
qed

lemma NormW16_spec:
  assumes "is_s16 a" and "a \<noteq> 0"
  obtains z where "WebRtcSpl_NormW16 a = int z" "z < 16" "is_s16 (a * 2 ^ z)" "\<not> is_s16 (a * 2 ^ Suc z)"
proof -
  consider "0 < a" | "a = - 1" | "a < - 1" using assms(2) by linarith
  then have "\<exists>z. WebRtcSpl_NormW16 a = int z \<and> z < 16 \<and> is_s16 (a * 2 ^ z) \<and> \<not> is_s16 (a * 2 ^ Suc z)"
  proof cases
    case 1
    then show ?thesis using normW16_pos [of a] assms(1)
      by (auto simp: is_s16_def WebRtcSpl_NormW16_def)
  next
    case 2
    then show ?thesis by (simp add: is_s16_def WebRtcSpl_NormW16_def norm_zeros_0)
  next
    case 3
    let ?z = "normW16_zeros (- a - 1)"
    have b: "?z < 16" "2 ^ 14 \<le> (- a - 1) * 2 ^ ?z" "(- a - 1) * 2 ^ ?z < 2 ^ 15"
      using normW16_pos [of "- a - 1"] 3 assms(1) by (auto simp: is_s16_def)
    have "WebRtcSpl_NormW16 a = int ?z" using 3 by (simp add: WebRtcSpl_NormW16_def not_eq_complement)
    moreover have "is_s16 (a * 2 ^ ?z)" "\<not> is_s16 (a * 2 ^ Suc ?z)"
    proof -
      have "2 ^ 15 \<le> 2 * ((- a - 1) * 2 ^ ?z)"
        using mult_left_mono [OF b(2), of 2] by simp
      note c = norm_complement [OF _ this b(3) 3]
      show "is_s16 (a * 2 ^ ?z)" "\<not> is_s16 (a * 2 ^ Suc ?z)"
        using c b(1) by (auto simp: is_s16_def)
    qed
    ultimately show ?thesis using b(1) by blast
  qed
  then show ?thesis using that by blast
qed

lemma Norm_zero [simp]: "WebRtcSpl_NormW32 0 = 0" "WebRtcSpl_NormU32 0 = 0" "WebRtcSpl_NormW16 0 = 0"
  by (simp_all add: WebRtcSpl_NormW32_def WebRtcSpl_NormU32_def WebRtcSpl_NormW16_def)

lemma NormW32_bounds: "is_s32 a \<Longrightarrow> 0 \<le> WebRtcSpl_NormW32 a \<and> WebRtcSpl_NormW32 a \<le> 31"
  by (cases "a = 0") (auto elim: NormW32_spec [of a])

lemma NormU32_bounds: "is_u32 a \<Longrightarrow> 0 \<le> WebRtcSpl_NormU32 a \<and> WebRtcSpl_NormU32 a \<le> 31"
  by (cases "a = 0") (auto elim: NormU32_spec [of a])

lemma NormW16_bounds: "is_s16 a \<Longrightarrow> 0 \<le> WebRtcSpl_NormW16 a \<and> WebRtcSpl_NormW16 a \<le> 15"
  by (cases "a = 0") (auto elim: NormW16_spec [of a])

lemma GetSizeInBits_spec:
  assumes "is_u32 n"
  obtains k where "WebRtcSpl_GetSizeInBits n = int k" "k \<le> 32" "n < 2 ^ k" "n = 0 \<or> 2 ^ k \<le> 2 * n"
proof -
  have "\<exists>k. WebRtcSpl_GetSizeInBits n = int k \<and> k \<le> 32 \<and> n < 2 ^ k \<and> (n = 0 \<or> 2 ^ k \<le> 2 * n)"
    using assms by (auto simp: WebRtcSpl_GetSizeInBits_def Let_def mask32 mask_low shr_less_iff le_shr_iff is_u32_def split: if_splits)
  then show ?thesis using that by blast
qed

section \<open>Properties\<close>

text \<open>
  The normalisation functions return the number of shifts that brings a value to full
  scale: shifted by it a signed value still has its type, shifted once more it has not; an
  unsigned value has its top bit set. \<open>GetSizeInBits\<close> returns the length of the binary
  representation.
\<close>
theorem normalisation:
  assumes "is_s32 a" and "a \<noteq> 0" and "is_s16 b" and "b \<noteq> 0" and "is_u32 c" and "c \<noteq> 0"
  shows "(\<exists>z < 32. WebRtcSpl_NormW32 a = int z \<and> is_s32 (shl a z) \<and> \<not> is_s32 (shl a (Suc z))) \<and>
    (\<exists>z < 16. WebRtcSpl_NormW16 b = int z \<and> is_s16 (shl b z) \<and> \<not> is_s16 (shl b (Suc z))) \<and>
    (\<exists>z < 32. WebRtcSpl_NormU32 c = int z \<and> 2 ^ 31 \<le> shl c z \<and> shl c z < 2 ^ 32) \<and>
    (\<exists>k \<le> 32. WebRtcSpl_GetSizeInBits c = int k \<and> c < 2 ^ k \<and> 2 ^ k \<le> 2 * c)"
  unfolding shl_def
proof (intro conjI)
  show "\<exists>z<32. WebRtcSpl_NormW32 a = int z \<and> is_s32 (a * 2 ^ z) \<and> \<not> is_s32 (a * 2 ^ Suc z)"
    using NormW32_spec [OF assms(1,2)] by metis
  show "\<exists>z<16. WebRtcSpl_NormW16 b = int z \<and> is_s16 (b * 2 ^ z) \<and> \<not> is_s16 (b * 2 ^ Suc z)"
    using NormW16_spec [OF assms(3,4)] by metis
  show "\<exists>z<32. WebRtcSpl_NormU32 c = int z \<and> 2 ^ 31 \<le> c * 2 ^ z \<and> c * 2 ^ z < 2 ^ 32"
    using NormU32_spec [OF assms(5,6)] by metis
  show "\<exists>k\<le>32. WebRtcSpl_GetSizeInBits c = int k \<and> c < 2 ^ k \<and> 2 ^ k \<le> 2 * c"
    using GetSizeInBits_spec [OF assms(5)] assms(6) by metis
qed

lemma normalisation_witness: "\<exists>z < 32. WebRtcSpl_NormW32 (- 3) = int z \<and> is_s32 (shl (- 3) z) \<and> \<not> is_s32 (shl (- 3) (Suc z))"
  using normalisation [of "- 3" 1 1] by (simp add: is_s32_def is_s16_def is_u32_def)

text \<open>
  The saturating sum and difference, which detect an overflow from the signs of the operands
  and of the wrapped result, are the exact sum and difference cut to the range of the type.
\<close>
theorem saturating_arithmetic:
  assumes "is_s32 a" and "is_s32 b"
  shows "WebRtcSpl_AddSatW32 a b = clamp32 (a + b) \<and> WebRtcSpl_SubSatW32 a b = clamp32 (a - b) \<and>
    WebRtcSpl_SatW32ToW16 a = clamp16 a \<and> WebRtcSpl_AddSatW16 a b = clamp16 (a + b) \<and>
    WebRtcSpl_SubSatW16 a b = clamp16 (a - b)"
  using assms by (simp add: AddSatW32_eq SubSatW32_eq SatW32ToW16_eq AddSatW16_eq SubSatW16_eq)

lemma saturating_arithmetic_witness: "WebRtcSpl_SubSatW32 (- 2147483648) 1 = - 2147483648"
  using saturating_arithmetic [of "- 2147483648" 1] by (simp add: is_s32_def clamp32_def)

end
