(* ===== verification/Spl_Math.thy ===== *)
theory Spl_Math
  imports Spl_Inline
begin

unbundle bit_operations_syntax

text \<open>
  Scalar arithmetic of the signal processing library: \<^verbatim>\<open>division_operations.c\<close>,
  \<^verbatim>\<open>spl_sqrt_floor.c\<close>, \<^verbatim>\<open>spl_sqrt.c\<close>, \<^verbatim>\<open>sqrt_of_one_minus_x_squared.c\<close> and
  \<^verbatim>\<open>randomization_functions.c\<close>. The lemmas show that the bit by bit root and quotient are
  the exact ones, and that the generator stays below its modulus and never merges two seeds.
\<close>

section \<open>Division\<close>

definition WebRtcSpl_DivU32U16 :: "int \<Rightarrow> int \<Rightarrow> int" where
  "WebRtcSpl_DivU32U16 num den = (if den \<noteq> 0 then u32 (num div den) else 0xFFFFFFFF)"

definition WebRtcSpl_DivW32W16 :: "int \<Rightarrow> int \<Rightarrow> int" where
  "WebRtcSpl_DivW32W16 num den = (if den \<noteq> 0 then s32 (cdiv num den) else 0x7FFFFFFF)"

definition WebRtcSpl_DivW32W16ResW16 :: "int \<Rightarrow> int \<Rightarrow> int" where
  "WebRtcSpl_DivW32W16ResW16 num den = (if den \<noteq> 0 then s16 (cdiv num den) else 0x7FFF)"

text \<open>One turn of the loop of \<open>DivResultInQ31\<close>, on the state \<open>(div, L_num)\<close> (here \<open>quot\<close>).\<close>

definition divQ31_step :: "int \<Rightarrow> int \<times> int \<Rightarrow> int \<times> int" where
  "divQ31_step L_den = (\<lambda>(quot, L_num).
     let quot = s32 (shl quot 1); L_num = s32 (shl L_num 1)
     in if L_num \<ge> L_den then (s32 (quot + 1), s32 (L_num - L_den)) else (quot, L_num))"

definition WebRtcSpl_DivResultInQ31 :: "int \<Rightarrow> int \<Rightarrow> int" where
  "WebRtcSpl_DivResultInQ31 num den =
     (if num = 0 then 0
      else let L_num = (if num < 0 then s32 (- num) else num);
               L_den = (if den < 0 then s32 (- den) else den);
               change_sign = (if num < 0 then 1 else 0) + (if den < 0 then 1 else (0 :: nat));
               quot = fst ((divQ31_step L_den ^^ 31) (0, L_num))
           in if change_sign = 1 then s32 (- quot) else quot)"

definition WebRtcSpl_DivW32HiLow :: "int \<Rightarrow> int \<Rightarrow> int \<Rightarrow> int" where
  "WebRtcSpl_DivW32HiLow num den_hi den_low =
     (let approx = s16 (WebRtcSpl_DivW32W16 0x1FFFFFFF den_hi);
          tmpW32 = s32 (s32 (shl (den_hi * approx) 1) + s32 (shl (shr (den_low * approx) 15) 1));
          tmpW32 = s32 (0x7fffffff - tmpW32);
          tmp_hi = s16 (shr tmpW32 16);
          tmp_low = s16 (shr (s32 (tmpW32 - s32 (shl tmp_hi 16))) 1);
          tmpW32 = s32 (shl (s32 (tmp_hi * approx + shr (tmp_low * approx) 15)) 1);
          tmp_hi = s16 (shr tmpW32 16);
          tmp_low = s16 (shr (s32 (tmpW32 - s32 (shl tmp_hi 16))) 1);
          num_hi = s16 (shr num 16);
          num_low = s16 (shr (s32 (num - s32 (shl num_hi 16))) 1);
          tmpW32 = s32 (num_hi * tmp_hi + shr (num_hi * tmp_low) 15 + shr (num_low * tmp_hi) 15)
      in s32 (shl tmpW32 3))"

section \<open>Square roots\<close>

text \<open>The macro \<^verbatim>\<open>WEBRTC_SPL_SQRT_ITER(N)\<close>, on the state \<open>(value, root)\<close>.\<close>

definition WEBRTC_SPL_SQRT_ITER :: "nat \<Rightarrow> int \<times> int \<Rightarrow> int \<times> int" where
  "WEBRTC_SPL_SQRT_ITER N = (\<lambda>(value, root).
     let try1 = s32 (root + shl 1 N)
     in if value \<ge> s32 (shl try1 N) then (s32 (value - s32 (shl try1 N)), root OR shl 2 N) else (value, root))"

definition WebRtcSpl_SqrtFloor :: "int \<Rightarrow> int" where
  "WebRtcSpl_SqrtFloor value = shr (snd (fold WEBRTC_SPL_SQRT_ITER (rev [0..<16]) (value, 0))) 1"

definition WebRtcSpl_SqrtLocal :: "int \<Rightarrow> int" where
  "WebRtcSpl_SqrtLocal input =
     (let B = cdiv input 2;
          B = s32 (B - 0x40000000);
          x_half = s16 (shr B 16);
          B = s32 (B + 0x40000000);
          B = s32 (B + 0x40000000);
          x2 = s32 (x_half * x_half * 2);
          A = s32 (- x2);
          B = s32 (B + shr A 1);
          A = shr A 16;
          A = s32 (A * A * 2);
          t16 = s16 (shr A 16);
          B = s32 (B + - 20480 * t16 * 2);
          A = s32 (x_half * t16 * 2);
          t16 = s16 (shr A 16);
          B = s32 (B + 28672 * t16 * 2);
          t16 = s16 (shr x2 16);
          A = s32 (x_half * t16 * 2);
          B = s32 (B + shr A 1)
      in s32 (B + 32768))"

definition WebRtcSpl_Sqrt :: "int \<Rightarrow> int" where
  "WebRtcSpl_Sqrt value =
     (if value = 0 then 0
      else let sh = WebRtcSpl_NormW32 value;
               A = s32 (shl value (nat sh));
               A = (if A < 0x7fffffff - 32767 then s32 (A + 32768) else 0x7fffffff);
               x_norm = s16 (shr A 16);
               nshift = s16 (cdiv sh 2);
               A = s32 (shl x_norm 16);
               A = WEBRTC_SPL_ABS_W32 A;
               A = WebRtcSpl_SqrtLocal A;
               A = (if 2 * nshift = sh
                    then let t16 = s16 (shr A 16);
                             A = s32 (23170 * t16 * 2);
                             A = s32 (A + 32768);
                             A = s32 (A AND 0x7fff0000)
                         in shr A 15
                    else shr A 16);
               A = A AND 0x0000ffff
           in shr A (nat nshift))"

definition WebRtcSpl_SqrtOfOneMinusXSquared :: "int list \<Rightarrow> nat \<Rightarrow> int list" where
  "WebRtcSpl_SqrtOfOneMinusXSquared xQ15 vector_length =
     map (\<lambda>m. let tmp = xQ15 ! m; sq = tmp * tmp; sq = s32 (1073741823 - sq); sq = WebRtcSpl_Sqrt sq
              in s16 sq) [0..<vector_length]"

section \<open>Random numbers\<close>

definition kMaxSeedUsed :: int where
  "kMaxSeedUsed = 0x80000000"

definition kRandNTable :: "int list" where
  "kRandNTable =
     [9178, - 7260, 40, 10189, 4894, - 3531, - 13779, 14764, - 4008, - 8884, - 8990, 1008,
      7368, 5184, 3251, - 5817, - 9786, 5963, 1770, 8066, - 7135, 10772, - 2298, 1361,
      6484, 2241, - 8633, 792, 199, - 3344, 6553, - 10079, - 15040, 95, 11608, - 12469,
      14161, - 4176, 2476, 6403, 13685, - 16005, 6646, 2239, 10916, - 3004, - 602, - 3141,
      2142, 14144, - 5829, 5305, 8209, 4713, 2697, - 5112, 16092, - 1210, - 2891, - 6631,
      - 5360, - 11878, - 6781, - 2739, - 6392, 536, 10923, 10872, 5059, - 4748, - 7770, 5477,
      38, - 1025, - 2892, 1638, 6304, 14375, - 11028, 1553, - 1565, 10762, - 393, 4040,
      5257, 12310, 6554, - 4799, 4899, - 6354, 1603, - 1048, - 2220, 8247, - 186, - 8944,
      - 12004, 2332, 4801, - 4933, 6371, 131, 8614, - 5927, - 8287, - 22760, 4033, - 15162,
      3385, 3246, 3153, - 5250, 3766, 784, 6494, - 62, 3531, - 1582, 15572, 662,
      - 3952, - 330, - 3196, 669, 7236, - 2678, - 6569, 23319, - 8645, - 741, 14830, - 15976,
      4903, 315, - 11342, 10311, 1858, - 7777, 2145, 5436, 5677, - 113, - 10033, 826,
      - 1353, 17210, 7768, 986, - 1471, 8291, - 4982, 8207, - 14911, - 6255, - 2449, - 11881,
      - 7059, - 11703, - 4338, 8025, 7538, - 2823, - 12490, 9470, - 1613, - 2529, - 10092, - 7807,
      9480, 6970, - 12844, 5123, 3532, 4816, 4803, - 8455, - 5045, 14032, - 4378, - 1643,
      5756, - 11041, - 2732, - 16618, - 6430, - 18375, - 3320, 6098, 5131, - 4269, - 8840, 2482,
      - 7048, 1547, - 21890, - 6505, - 7414, - 424, - 11722, 7955, 1653, - 17299, 1823, 473,
      - 9232, 3337, 1111, 873, 4018, - 8982, 9889, 3531, - 11763, - 3799, 7373, - 4539,
      3231, 7054, - 8537, 7616, 6244, 16635, 447, - 2915, 13967, 705, - 2669, - 1520,
      - 1771, - 16188, 5956, 5117, 6371, - 9936, - 1448, 2480, 5128, 7550, - 8130, 5236,
      8213, - 6443, 7707, - 1950, - 13811, 7218, 7031, - 3883, 67, 5731, - 2874, 13480,
      - 3743, 9298, - 3280, 3552, - 4425, - 18, - 3785, - 9988, - 5357, 5477, - 11794, 2117,
      1416, - 9935, 3376, 802, - 5079, - 8243, 12652, 66, 3653, - 2368, 6781, - 21895,
      - 7227, 2487, 7839, - 385, 6646, - 7016, - 4658, 5531, - 1705, 834, 129, 3694,
      - 1343, 2238, - 22640, - 6417, - 11139, 11301, - 2945, - 3494, - 5626, 185, - 3615, - 2041,
      - 7972, - 3106, - 60, - 23497, - 1566, 17064, 3519, 2518, 304, - 6805, - 10269, 2105,
      1936, - 426, - 736, - 8122, - 1467, 4238, - 6939, - 13309, 360, 7402, - 7970, 12576,
      3287, 12194, - 6289, - 16006, 9171, 4042, - 9193, 9123, - 2512, 6388, - 4734, - 8739,
      1028, - 5406, - 1696, 5889, - 666, - 4736, 4971, 3565, 9362, - 6292, 3876, - 3652,
      - 19666, 7523, - 4061, 391, - 11773, 7502, - 3763, 4929, - 9478, 13278, 2805, 4496,
      7814, 16419, 12455, - 14773, 2127, - 2746, 3763, 4847, 3698, 6978, 4751, - 6957,
      - 3581, - 45, 6252, 1513, - 4797, - 7925, 11270, 16188, - 2359, - 5269, 9376, - 10777,
      7262, 20031, - 6515, - 2208, - 5353, 8085, - 1341, - 1303, 7333, 5576, 3625, 5763,
      - 7931, 9833, - 3371, - 10305, 6534, - 13539, - 9971, 997, 8464, - 4064, - 1495, 1857,
      13624, 5458, 9490, - 11086, - 4524, 12022, - 550, - 198, 408, - 8455, - 7068, 10289,
      9712, - 3366, 9028, - 7621, - 5243, 2362, 6909, 4672, - 4933, - 1799, 4709, - 4563,
      - 62, - 566, 1624, - 7010, 14730, - 17791, - 3697, - 2344, - 1741, 7099, - 9509, - 6855,
      - 1989, 3495, - 2289, 2031, 12784, 891, 14189, - 3963, - 5683, 421, - 12575, 1724,
      - 12682, - 5970, - 8169, 3143, - 1824, - 5488, - 5130, 8536, 12799, 794, 5738, 3459,
      - 11689, - 258, - 3738, - 3775, - 8742, 2333, 8312, - 9383, 10331, 13119, 8398, 10644,
      - 19433, - 6446, - 16277, - 11793, 16284, 9345, 15222, 15834, 2009, - 7349, 130, - 14547,
      338, - 5998, 3337, 21492, 2406, 7703, - 951, 11196, - 564, 3406, 2217, 4806,
      2374, - 5797, 11839, 8940, - 11874, 18213, 2855, 10492]"

text \<open>The seed lives behind a pointer: the functions return it after their result.\<close>

definition IncreaseSeed :: "int \<Rightarrow> int" where
  "IncreaseSeed seed = u32 (u32 (seed * u32 69069) + 1) AND (kMaxSeedUsed - 1)"

definition WebRtcSpl_RandU :: "int \<Rightarrow> int \<times> int" where
  "WebRtcSpl_RandU seed = (let seed = IncreaseSeed seed in (s16 (shr seed 16), seed))"

definition WebRtcSpl_RandN :: "int \<Rightarrow> int \<times> int" where
  "WebRtcSpl_RandN seed = (let seed = IncreaseSeed seed in (kRandNTable ! nat (shr seed 23), seed))"

definition WebRtcSpl_RandUArray :: "int list \<Rightarrow> nat \<Rightarrow> int \<Rightarrow> int list \<times> int" where
  "WebRtcSpl_RandUArray vector vector_length seed =
     fold (\<lambda>i (vector, seed). let (r, seed) = WebRtcSpl_RandU seed in (vector[i := r], seed))
       [0..<vector_length] (vector, seed)"

section \<open>The root\<close>

text \<open>After the turn \<open>N\<close> the root is known but for its low \<open>N\<close> bits.\<close>

definition sqrt_inv :: "int \<Rightarrow> nat \<Rightarrow> int \<times> int \<Rightarrow> bool" where
  "sqrt_inv v0 N = (\<lambda>(value, root). \<exists>q. root = 2 * (2 ^ N * q) \<and> 0 \<le> q \<and> 2 ^ N * q < 65536 \<and>
     value = v0 - (2 ^ N * q)\<^sup>2 \<and> 0 \<le> value \<and> v0 < (2 ^ N * q + 2 ^ N)\<^sup>2)"

lemma or_add:
  assumes "0 \<le> q"
  shows "(2 ^ Suc n * q) OR 2 ^ n = 2 ^ Suc n * q + (2::int) ^ n"
proof -
  have "(2 ^ Suc n * q) AND 2 ^ n = 0"
  proof (rule bit_eqI)
    fix k
    have "2 ^ Suc n * q = push_bit (Suc n) q" by (simp add: push_bit_eq_mult)
    then have "bit (2 ^ Suc n * q) k \<longleftrightarrow> Suc n \<le> k \<and> bit q (k - Suc n)" by (simp only: bit_push_bit_iff_int)
    then show "bit ((2 ^ Suc n * q) AND 2 ^ n) k = bit (0::int) k"
      by (auto simp only: bit_and_iff bit_exp_iff bit_0_eq bot_apply bot_bool_def)
  qed
  then show ?thesis using plus_and_or [of "2 ^ Suc n * q" "2 ^ n :: int"] by simp
qed

lemma SQRT_ITER_inv:
  assumes "sqrt_inv v0 (Suc n) vr" "n < 16" "0 \<le> v0" "v0 < 2 ^ 31"
  shows "sqrt_inv v0 n (WEBRTC_SPL_SQRT_ITER n vr)"
proof -
  obtain q where vr: "vr = (v0 - (2 ^ Suc n * q)\<^sup>2, 2 * (2 ^ Suc n * q))"
    and q: "0 \<le> q" "2 ^ Suc n * q < 65536" and lo: "0 \<le> v0 - (2 ^ Suc n * q)\<^sup>2"
    and hi: "v0 < (2 ^ Suc n * q + 2 ^ Suc n)\<^sup>2"
    using assms(1) by (cases vr) (auto simp: sqrt_inv_def)
  let ?r = "2 ^ Suc n * q" and ?d = "2 ^ n :: int"
  have d: "1 \<le> ?d" "?d \<le> 2 ^ 15" using assms(2) power_increasing [of n 15 "2::int"] by auto
  have r: "0 \<le> ?r" using q by simp
  \<comment> \<open>the bits of the root above \<open>n\<close> leave room for the new one\<close>
  have top: "2 ^ Suc n * (q + 1) \<le> 65536"
  proof -
    have e: "(65536::int) = 2 ^ Suc n * 2 ^ (15 - n)" using assms(2) by (simp flip: power_add power_Suc)
    with q(2) have "2 ^ Suc n * q < 2 ^ Suc n * 2 ^ (15 - n)" by (simp only:)
    then have "q < 2 ^ (15 - n)" by (simp only: mult_less_cancel_left_pos zero_less_power zero_less_numeral)
    then have "q + 1 \<le> 2 ^ (15 - n)" by linarith
    then show ?thesis unfolding e by (intro mult_left_mono) auto
  qed
  then have room: "?r + 2 * ?d \<le> 65536" by (simp add: algebra_simps)
  have prod: "(2 * ?r + ?d) * ?d = (?r + ?d)\<^sup>2 - ?r\<^sup>2" by (simp add: power2_eq_square algebra_simps)
  have small: "(2 * ?r + ?d) * ?d < 2147483648"
  proof -
    have "2 * ?r + ?d \<le> 131072 - 3 * ?d" using room by linarith
    then have "(2 * ?r + ?d) * ?d \<le> (131072 - 3 * ?d) * ?d" using d by (intro mult_right_mono) auto
    also have "\<dots> < 2147483648"
    proof -
      have "0 \<le> (3 * ?d - 65536)\<^sup>2" by simp
      then have "9 * (?d * ?d) - 393216 * ?d + 4294967296 \<ge> 0" by (simp add: power2_eq_square algebra_simps)
      moreover have "(131072 - 3 * ?d) * ?d = 131072 * ?d - 3 * (?d * ?d)" by (simp add: algebra_simps)
      ultimately show ?thesis by simp
    qed
    finally show ?thesis .
  qed
  have c1: "s32 (2 * ?r + shl 1 n) = 2 * ?r + ?d"
  proof -
    have "- 2147483648 \<le> 2 * ?r + ?d" "2 * ?r + ?d \<le> 2147483647" using r room d by linarith+
    then show ?thesis by (simp only: shl_def mult_1 s32_id is_s32_def)
  qed
  have c2: "s32 (shl (2 * ?r + ?d) n) = (?r + ?d)\<^sup>2 - ?r\<^sup>2"
  proof -
    have "0 \<le> (2 * ?r + ?d) * ?d" using r d by (intro mult_nonneg_nonneg) linarith+
    then have "is_s32 ((2 * ?r + ?d) * ?d)" unfolding is_s32_def using small
      by (intro conjI) linarith+
    then show ?thesis by (simp only: shl_def s32_id prod)
  qed
  have c3: "s32 (v0 - ?r\<^sup>2 - ((?r + ?d)\<^sup>2 - ?r\<^sup>2)) = v0 - (?r + ?d)\<^sup>2" if "(?r + ?d)\<^sup>2 \<le> v0"
  proof -
    have "is_s32 (v0 - w)" if "0 \<le> w" "w \<le> v0" for w
      using that assms(3,4) by (simp add: is_s32_def)
    from this [OF zero_le_power2 that] have "is_s32 (v0 - (?r + ?d)\<^sup>2)" .
    moreover have "v0 - ?r\<^sup>2 - ((?r + ?d)\<^sup>2 - ?r\<^sup>2) = v0 - (?r + ?d)\<^sup>2" by simp
    ultimately show ?thesis by (simp only: s32_id)
  qed
  have o: "(2 * ?r) OR shl 2 n = 2 * (?r + ?d)"
    using or_add [OF q(1), of "Suc n"] by (simp add: shl_def mult.assoc)
  show ?thesis
  proof (cases "(?r + ?d)\<^sup>2 \<le> v0")
    case True
    then have "WEBRTC_SPL_SQRT_ITER n vr = (v0 - (?r + ?d)\<^sup>2, 2 * (?r + ?d))"
      unfolding vr WEBRTC_SPL_SQRT_ITER_def Let_def prod.case c1 c2 using c3 o by simp
    moreover have e: "2 ^ n * (2 * q + 1) = ?r + ?d" by (simp add: algebra_simps)
    moreover have "?r + ?d < 65536" using room d by linarith
    moreover have "v0 < (?r + ?d + ?d)\<^sup>2" using hi by (simp add: algebra_simps)
    ultimately show ?thesis unfolding sqrt_inv_def using True q(1)
      by (intro exI [of _ "2 * q + 1"] case_prodI2) (simp only: e, simp)
  next
    case False
    then have "WEBRTC_SPL_SQRT_ITER n vr = vr"
      unfolding vr WEBRTC_SPL_SQRT_ITER_def Let_def prod.case c1 c2 by simp
    moreover have e: "2 ^ n * (2 * q) = ?r" by simp
    moreover have "v0 < (?r + ?d)\<^sup>2" using False by simp
    ultimately show ?thesis unfolding sqrt_inv_def vr using lo q
      by (intro exI [of _ "2 * q"] case_prodI2) (simp only: e, simp)
  qed
qed

lemma SqrtFloor_fold:
  assumes "0 \<le> v0" "v0 < 2 ^ 31" and "n \<le> 16" and "sqrt_inv v0 n vr"
  shows "sqrt_inv v0 0 (fold WEBRTC_SPL_SQRT_ITER (rev [0..<n]) vr)"
  using assms(3,4)
proof (induction n arbitrary: vr)
  case (Suc n)
  then show ?case using SQRT_ITER_inv [of v0 n vr] assms by simp
qed simp

lemma SqrtFloor_floor:
  assumes "0 \<le> v" and "is_s32 v"
  shows "0 \<le> WebRtcSpl_SqrtFloor v \<and> (WebRtcSpl_SqrtFloor v)\<^sup>2 \<le> v \<and> v < (WebRtcSpl_SqrtFloor v + 1)\<^sup>2"
proof -
  have v: "v < 2 ^ 31" using assms by (simp add: is_s32_def)
  have "sqrt_inv v 16 (v, 0)" unfolding sqrt_inv_def prod.case
    using assms v by (intro exI [of _ 0]) simp
  from SqrtFloor_fold [OF assms(1) v _ this]
  show ?thesis by (auto simp: sqrt_inv_def WebRtcSpl_SqrtFloor_def shr_def split: prod.splits)
qed

lemma SqrtFloor_negative:
  assumes "v < 0" and "is_s32 v"
  shows "WebRtcSpl_SqrtFloor v = 0"
proof -
  have "WEBRTC_SPL_SQRT_ITER n (v, 0) = (v, 0)" if "n < 16" for n
  proof -
    have "(2::int) ^ n \<le> 2 ^ 15" using that by (intro power_increasing) auto
    moreover have "(2::int) ^ n * 2 ^ n \<le> 2 ^ 15 * 2 ^ 15"
      using that by (intro mult_mono power_increasing) auto
    ultimately have "s32 ((2::int) ^ n) = 2 ^ n" "s32 ((2::int) ^ n * 2 ^ n) = 2 ^ n * 2 ^ n"
      by (auto intro!: s32_id simp: is_s32_def order_trans [of _ 0])
    moreover have "\<not> (2::int) ^ n * 2 ^ n \<le> v" using assms(1) zero_le_power [of "2::int" n]
      by (smt (verit) mult_nonneg_nonneg)
    ultimately show ?thesis using assms by (simp add: WEBRTC_SPL_SQRT_ITER_def Let_def shl_def)
  qed
  then have "fold WEBRTC_SPL_SQRT_ITER (rev [0..<n]) (v, 0) = (v, 0)" if "n \<le> 16" for n
    using that by (induction n) auto
  then show ?thesis by (simp add: WebRtcSpl_SqrtFloor_def del: upt_Suc)
qed

section \<open>The quotient in Q31\<close>

text \<open>After \<open>k\<close> turns: the first \<open>k\<close> bits of the quotient, and the remainder.\<close>

lemma divQ31_steps:
  assumes "0 \<le> num" "num < den" "den \<le> 2 ^ 30" and "k \<le> 31"
  shows "(divQ31_step den ^^ k) (0, num) = (num * 2 ^ k div den, num * 2 ^ k mod den)"
  using assms(4)
proof (induction k)
  case 0
  then show ?case using assms by simp
next
  case (Suc k)
  let ?x = "num * 2 ^ k"
  have den: "0 < den" using assms by linarith
  define q r where "q = ?x div den" and "r = ?x mod den"
  have x: "?x = q * den + r" by (simp add: q_def r_def)
  have r: "0 \<le> r" "r < den" using den by (simp_all add: r_def)
  have q: "0 \<le> q" "q < 2 ^ k"
  proof -
    show "0 \<le> q" using assms den by (simp add: q_def pos_imp_zdiv_nonneg_iff)
    have "?x < 2 ^ k * den" using assms(2) by (simp add: mult.commute)
    then show "q < 2 ^ k" using den by (simp add: q_def div_less_iff)
  qed
  have "(2::int) ^ k \<le> 2 ^ 30" using Suc.prems by (intro power_increasing) auto
  with q have q': "q < 2 ^ 30" by linarith
  have c: "s32 (shl q (Suc 0)) = 2 * q" "s32 (shl r (Suc 0)) = 2 * r" "s32 (2 * q + 1) = 2 * q + 1"
    "s32 (2 * r - den) = 2 * r - den"
    using q q' r den assms(3) s32_id [of "q * 2"] s32_id [of "r * 2"]
      s32_id [of "2 * q + 1"] s32_id [of "2 * r - den"] by (auto simp: is_s32_def shl_def mult.commute)
  have x2: "num * 2 ^ Suc k = 2 * q * den + 2 * r" using x by (simp add: algebra_simps)
  have IH: "(divQ31_step den ^^ k) (0, num) = (q, r)" using Suc by (simp add: q_def r_def)
  have step: "(divQ31_step den ^^ Suc k) (0, num) = divQ31_step den (q, r)" using IH by simp
  show ?case
  proof (cases "den \<le> 2 * r")
    case True
    have e: "num * 2 ^ Suc k = den * (2 * q + 1) + (2 * r - den)" unfolding x2 by (simp add: algebra_simps)
    have "num * 2 ^ Suc k div den = 2 * q + 1" "num * 2 ^ Suc k mod den = 2 * r - den"
      by (rule int_div_pos_eq [OF e] int_mod_pos_eq [OF e]; use True r in simp)+
    then show ?thesis using True unfolding step by (simp add: divQ31_step_def Let_def c)
  next
    case False
    have "num * 2 ^ Suc k div den = 2 * q" "num * 2 ^ Suc k mod den = 2 * r"
      unfolding x2 using den False r by (simp_all add: div_pos_pos_trivial mod_pos_pos_trivial)
    then show ?thesis using False unfolding step by (simp add: divQ31_step_def Let_def c)
  qed
qed

lemma DivResultInQ31_eq:
  assumes "\<bar>num\<bar> < \<bar>den\<bar>" and "\<bar>den\<bar> \<le> 2 ^ 30"
  shows "WebRtcSpl_DivResultInQ31 num den = cdiv (num * 2 ^ 31) den"
proof (cases "num = 0")
  case True
  then show ?thesis by (simp add: WebRtcSpl_DivResultInQ31_def)
next
  case False
  have den: "0 < \<bar>den\<bar>" using assms by linarith
  have L: "(if num < 0 then s32 (- num) else num) = \<bar>num\<bar>" "(if den < 0 then s32 (- den) else den) = \<bar>den\<bar>"
    using assms by (auto simp: s32_id is_s32_def)
  let ?q = "\<bar>num\<bar> * 2 ^ 31 div \<bar>den\<bar>"
  have "\<bar>num\<bar> * 2 ^ 31 < 2 ^ 31 * \<bar>den\<bar>" using assms(1) by simp
  then have "?q < 2 ^ 31" using den by (simp add: div_less_iff)
  moreover have "0 \<le> ?q" using den by (simp add: pos_imp_zdiv_nonneg_iff)
  ultimately have n: "s32 (- ?q) = - ?q" by (simp add: s32_id is_s32_def)
  have st: "(divQ31_step \<bar>den\<bar> ^^ 31) (0, \<bar>num\<bar>) = (?q, \<bar>num\<bar> * 2 ^ 31 mod \<bar>den\<bar>)"
    using divQ31_steps [of "\<bar>num\<bar>" "\<bar>den\<bar>" 31] assms by simp
  show ?thesis
    unfolding WebRtcSpl_DivResultInQ31_def Let_def L st fst_conv
    using False den n by (auto simp: cdiv_def abs_mult sgn_mult sgn_if)
qed

section \<open>The generator\<close>

lemma IncreaseSeed_eq: "IncreaseSeed seed = (69069 * seed + 1) mod 2 ^ 31"
proof -
  have "x AND 0x7fffffff = x mod 2 ^ 31" for x :: int
    using take_bit_eq_mask [of 31 x] by (simp add: mask_eq_exp_minus_1 take_bit_eq_mod)
  moreover have "u32 (u32 (seed * u32 69069) + 1) mod 2 ^ 31 = (69069 * seed + 1) mod 2 ^ 31"
  proof -
    have "x mod 4294967296 mod 2147483648 = x mod (2147483648::int)" for x
      by (rule mod_mod_cancel) simp
    then show ?thesis by (simp add: u32_def mod_simps mult.commute)
  qed
  ultimately show ?thesis by (simp add: IncreaseSeed_def kMaxSeedUsed_def)
qed

lemma IncreaseSeed_range: "0 \<le> IncreaseSeed seed \<and> IncreaseSeed seed < 2 ^ 31"
  by (simp add: IncreaseSeed_eq)

text \<open>The multiplier is odd, so it can be undone.\<close>

lemma IncreaseSeed_inverse: "635610885 * (IncreaseSeed seed - 1) mod 2 ^ 31 = seed mod 2 ^ 31"
proof -
  let ?M = "2 ^ 31 :: int"
  have "635610885 * (IncreaseSeed seed - 1) mod ?M = 635610885 * (69069 * seed + 1 - 1) mod ?M"
    unfolding IncreaseSeed_eq by (metis mod_diff_left_eq mod_mult_right_eq)
  also have "635610885 * (69069 * seed + 1 - 1) = seed + ?M * (20443 * seed)" by simp
  also have "\<dots> mod ?M = seed mod ?M" by (rule mod_mult_self2)
  finally show ?thesis .
qed

section \<open>Properties\<close>

text \<open>
  C27. The successive approximation of \<open>SqrtFloor\<close> computes the integer square root of every
  value that is not negative, and 0 for every negative one.
\<close>
theorem sqrt_floor_exact:
  assumes "is_s32 v"
  shows "if 0 \<le> v
         then 0 \<le> WebRtcSpl_SqrtFloor v \<and> (WebRtcSpl_SqrtFloor v)\<^sup>2 \<le> v \<and> v < (WebRtcSpl_SqrtFloor v + 1)\<^sup>2
         else WebRtcSpl_SqrtFloor v = 0"
  using SqrtFloor_floor [OF _ assms] SqrtFloor_negative [OF _ assms] by simp

lemma sqrt_floor_exact_witness:
  "(WebRtcSpl_SqrtFloor 2147483647)\<^sup>2 \<le> 2147483647 \<and> 2147483647 < (WebRtcSpl_SqrtFloor 2147483647 + 1)\<^sup>2 \<and>
   WebRtcSpl_SqrtFloor (- 5) = 0"
  using sqrt_floor_exact [of 2147483647] sqrt_floor_exact [of "- 5"] by (simp add: is_s32_def)

text \<open>
  \<open>DivResultInQ31\<close>, a division by 31 shifts and subtractions, is the exact quotient in
  Q31, truncated towards zero, for both signs of both operands, when the denominator has a bit of
  headroom and the quotient is a fraction.
\<close>
theorem div_q31_exact:
  assumes "\<bar>num\<bar> < \<bar>den\<bar>" and "\<bar>den\<bar> \<le> 2 ^ 30"
  shows "WebRtcSpl_DivResultInQ31 num den = cdiv (num * 2 ^ 31) den"
  using assms by (rule DivResultInQ31_eq)

lemma div_q31_exact_witness: "WebRtcSpl_DivResultInQ31 (- 1) 3 = - 715827882"
  using div_q31_exact [of "- 1" 3] by (simp add: cdiv_def)

text \<open>
  The generator's seed stays below \<open>2 ^ 31\<close>; two different seeds in that range never lead
  to the same next seed; and the two outputs of a step are as narrow as this makes them: \<open>RandU\<close>
  never returns a negative value, \<open>RandN\<close> only reads the first half of its table.
\<close>
theorem random_generator:
  fixes seed seed' :: int
  defines "next \<equiv> IncreaseSeed seed"
  shows "0 \<le> next \<and> next < 2 ^ 31 \<and>
    (IncreaseSeed seed' = next \<longrightarrow> seed mod 2 ^ 31 = seed' mod 2 ^ 31) \<and>
    WebRtcSpl_RandU seed = (next div 65536, next) \<and> next div 65536 \<le> 32767 \<and>
    WebRtcSpl_RandN seed = (take 256 kRandNTable ! nat (next div 8388608), next) \<and> next div 8388608 < 256"
proof -
  have r: "0 \<le> next" "next < 2147483648" using IncreaseSeed_range [of seed] by (simp_all add: next_def)
  have inj: "seed mod 2 ^ 31 = seed' mod 2 ^ 31" if "IncreaseSeed seed' = next"
    using IncreaseSeed_inverse [of seed] IncreaseSeed_inverse [of seed'] that by (simp add: next_def)
  have h: "next div 65536 \<le> 32767" "next div 8388608 < 256" "0 \<le> next div 65536"
    using r zdiv_mono1 [of "next" 2147483647 65536] zdiv_mono1 [of "next" 2147483647 8388608]
    by (simp_all add: pos_imp_zdiv_nonneg_iff)
  have "s16 (shr next 16) = next div 65536" using h by (simp add: shr_def s16_id is_s16_def)
  moreover have "nat (shr next 23) < 256" "shr next 23 = next div 8388608" using h by (simp_all add: shr_def)
  ultimately show ?thesis using r h inj
    by (simp add: WebRtcSpl_RandU_def WebRtcSpl_RandN_def Let_def flip: next_def)
qed

lemma random_generator_witness:
  "fst (WebRtcSpl_RandU 777) = IncreaseSeed 777 div 65536 \<and> IncreaseSeed 777 = 53666614"
  using random_generator [of 777] by (simp add: IncreaseSeed_eq)

end
