(* ===== verification/Spl_Vector.thy ===== *)
theory Spl_Vector
  imports Spl_Math
begin

text \<open>
  The vector operations of the signal processing library: extreme values and their indices
  (\<^verbatim>\<open>min_max_operations.c\<close>), copies (\<^verbatim>\<open>copy_set_operations.c\<close>), scaling
  (\<^verbatim>\<open>vector_scaling_operations.c\<close>, \<^verbatim>\<open>ilbc_specific_functions.c\<close>), energies and correlations
  (\<^verbatim>\<open>get_scaling_square.c\<close>, \<^verbatim>\<open>energy.c\<close>, \<^verbatim>\<open>auto_correlation.c\<close>, \<^verbatim>\<open>cross_correlation.c\<close>,
  \<^verbatim>\<open>dot_product_with_scale.c\<close>), filters (\<^verbatim>\<open>filter_ar.c\<close>, \<^verbatim>\<open>filter_ar_fast_q12.c\<close>,
  \<^verbatim>\<open>filter_ma_fast_q12.c\<close>, \<^verbatim>\<open>downsample_fast.c\<close>) and the Hanning window
  (\<^verbatim>\<open>get_hanning_window.c\<close>).

  A vector is a list and a length; a function that fills an output returns the elements it
  writes. A loop whose turns do not depend on each other is a \<open>map\<close> over its indices, any other
  loop a \<open>fold\<close> over them with the loop's variables as the state.
\<close>

section \<open>Extreme values\<close>

definition WebRtcSpl_MaxAbsValueW16C :: "int list \<Rightarrow> nat \<Rightarrow> int" where
  "WebRtcSpl_MaxAbsValueW16C vector len =
     (let maximum = fold (\<lambda>i maximum. let absolute = \<bar>vector ! i\<bar>
                            in if absolute > maximum then absolute else maximum) [0..<len] 0;
          maximum = (if maximum > 32767 then 32767 else maximum)
      in s16 maximum)"

definition WebRtcSpl_MaxAbsValueW32C :: "int list \<Rightarrow> nat \<Rightarrow> int" where
  "WebRtcSpl_MaxAbsValueW32C vector len =
     (let maximum = fold (\<lambda>i maximum. let absolute = u32 \<bar>vector ! i\<bar>
                            in if absolute > maximum then absolute else maximum) [0..<len] 0;
          maximum = min maximum 0x7fffffff
      in s32 maximum)"

definition WebRtcSpl_MaxValueW16C :: "int list \<Rightarrow> nat \<Rightarrow> int" where
  "WebRtcSpl_MaxValueW16C vector len =
     fold (\<lambda>i maximum. if vector ! i > maximum then vector ! i else maximum) [0..<len] (- 32768)"

definition WebRtcSpl_MaxValueW32C :: "int list \<Rightarrow> nat \<Rightarrow> int" where
  "WebRtcSpl_MaxValueW32C vector len =
     fold (\<lambda>i maximum. if vector ! i > maximum then vector ! i else maximum) [0..<len] (- 2147483648)"

definition WebRtcSpl_MinValueW16C :: "int list \<Rightarrow> nat \<Rightarrow> int" where
  "WebRtcSpl_MinValueW16C vector len =
     fold (\<lambda>i minimum. if vector ! i < minimum then vector ! i else minimum) [0..<len] 32767"

definition WebRtcSpl_MinValueW32C :: "int list \<Rightarrow> nat \<Rightarrow> int" where
  "WebRtcSpl_MinValueW32C vector len =
     fold (\<lambda>i minimum. if vector ! i < minimum then vector ! i else minimum) [0..<len] 2147483647"

text \<open>The state of the index searches is \<open>(index, maximum)\<close>.\<close>

definition WebRtcSpl_MaxAbsIndexW16 :: "int list \<Rightarrow> nat \<Rightarrow> nat" where
  "WebRtcSpl_MaxAbsIndexW16 vector len =
     fst (fold (\<lambda>i (index, maximum). let absolute = \<bar>vector ! i\<bar>
                 in if absolute > maximum then (i, absolute) else (index, maximum)) [0..<len] (0, 0))"

definition WebRtcSpl_MaxIndexW16 :: "int list \<Rightarrow> nat \<Rightarrow> nat" where
  "WebRtcSpl_MaxIndexW16 vector len =
     fst (fold (\<lambda>i (index, maximum). if vector ! i > maximum then (i, vector ! i) else (index, maximum))
       [0..<len] (0, - 32768))"

definition WebRtcSpl_MaxIndexW32 :: "int list \<Rightarrow> nat \<Rightarrow> nat" where
  "WebRtcSpl_MaxIndexW32 vector len =
     fst (fold (\<lambda>i (index, maximum). if vector ! i > maximum then (i, vector ! i) else (index, maximum))
       [0..<len] (0, - 2147483648))"

definition WebRtcSpl_MinIndexW16 :: "int list \<Rightarrow> nat \<Rightarrow> nat" where
  "WebRtcSpl_MinIndexW16 vector len =
     fst (fold (\<lambda>i (index, minimum). if vector ! i < minimum then (i, vector ! i) else (index, minimum))
       [0..<len] (0, 32767))"

definition WebRtcSpl_MinIndexW32 :: "int list \<Rightarrow> nat \<Rightarrow> nat" where
  "WebRtcSpl_MinIndexW32 vector len =
     fst (fold (\<lambda>i (index, minimum). if vector ! i < minimum then (i, vector ! i) else (index, minimum))
       [0..<len] (0, 2147483647))"

section \<open>Copies\<close>

definition WebRtcSpl_MemSetW16 :: "int list \<Rightarrow> nat \<Rightarrow> int \<Rightarrow> nat \<Rightarrow> int list" where
  "WebRtcSpl_MemSetW16 arr ptr set_value len =
     fst (fold (\<lambda>_ (arr, arrptr). (arr[arrptr := set_value], arrptr + 1)) (rev [1..<len + 1]) (arr, ptr))"

definition WebRtcSpl_MemSetW32 :: "int list \<Rightarrow> nat \<Rightarrow> int \<Rightarrow> nat \<Rightarrow> int list" where
  "WebRtcSpl_MemSetW32 arr ptr set_value len =
     fst (fold (\<lambda>_ (arr, arrptr). (arr[arrptr := set_value], arrptr + 1)) (rev [1..<len + 1]) (arr, ptr))"

text \<open>\<open>dest\<close> is the array written and \<open>d\<close> the position of its pointer, which moves down.\<close>

definition WebRtcSpl_MemCpyReversedOrder :: "int list \<Rightarrow> nat \<Rightarrow> int list \<Rightarrow> nat \<Rightarrow> int list" where
  "WebRtcSpl_MemCpyReversedOrder dest d source len =
     fst (fold (\<lambda>j (dest, d). (dest[d := source ! j], d - 1)) [0..<len] (dest, d))"

definition WebRtcSpl_CopyFromEndW16 :: "int list \<Rightarrow> nat \<Rightarrow> nat \<Rightarrow> int list \<Rightarrow> int list" where
  "WebRtcSpl_CopyFromEndW16 vector_in len samples vector_out =
     blit vector_out 0 (take samples (drop (size_sub len samples) vector_in))"

definition WebRtcSpl_ZerosArrayW16 :: "int list \<Rightarrow> nat \<Rightarrow> nat \<Rightarrow> int list" where
  "WebRtcSpl_ZerosArrayW16 arr vector len = WebRtcSpl_MemSetW16 arr vector 0 len"

definition WebRtcSpl_ZerosArrayW32 :: "int list \<Rightarrow> nat \<Rightarrow> nat \<Rightarrow> int list" where
  "WebRtcSpl_ZerosArrayW32 arr vector len = WebRtcSpl_MemSetW32 arr vector 0 len"

section \<open>Scaling\<close>

definition WebRtcSpl_VectorBitShiftW16 :: "nat \<Rightarrow> int list \<Rightarrow> int \<Rightarrow> int list" where
  "WebRtcSpl_VectorBitShiftW16 len inp right_shifts =
     (if right_shifts > 0 then map (\<lambda>i. s16 (shr (inp ! i) (nat right_shifts))) [0..<len]
      else map (\<lambda>i. s16 (s32 (shl (inp ! i) (nat (- right_shifts))))) [0..<len])"

definition WebRtcSpl_VectorBitShiftW32 :: "nat \<Rightarrow> int list \<Rightarrow> int \<Rightarrow> int list" where
  "WebRtcSpl_VectorBitShiftW32 len inp right_shifts =
     (if right_shifts > 0 then map (\<lambda>i. shr (inp ! i) (nat right_shifts)) [0..<len]
      else map (\<lambda>i. s32 (shl (inp ! i) (nat (- right_shifts)))) [0..<len])"

definition WebRtcSpl_VectorBitShiftW32ToW16 :: "nat \<Rightarrow> int list \<Rightarrow> int \<Rightarrow> int list" where
  "WebRtcSpl_VectorBitShiftW32ToW16 len inp right_shifts =
     (if right_shifts \<ge> 0 then map (\<lambda>i. WebRtcSpl_SatW32ToW16 (shr (inp ! i) (nat right_shifts))) [0..<len]
      else map (\<lambda>i. WebRtcSpl_SatW32ToW16 (s32 (shl (inp ! i) (nat (- right_shifts))))) [0..<len])"

definition WebRtcSpl_ScaleVector :: "int list \<Rightarrow> int \<Rightarrow> nat \<Rightarrow> nat \<Rightarrow> int list" where
  "WebRtcSpl_ScaleVector in_vector gain in_vector_length right_shifts =
     map (\<lambda>i. s16 (shr (in_vector ! i * gain) right_shifts)) [0..<in_vector_length]"

definition WebRtcSpl_ScaleVectorWithSat :: "int list \<Rightarrow> int \<Rightarrow> nat \<Rightarrow> nat \<Rightarrow> int list" where
  "WebRtcSpl_ScaleVectorWithSat in_vector gain in_vector_length right_shifts =
     map (\<lambda>i. WebRtcSpl_SatW32ToW16 (shr (in_vector ! i * gain) right_shifts)) [0..<in_vector_length]"

definition WebRtcSpl_ScaleAndAddVectors ::
    "int list \<Rightarrow> int \<Rightarrow> nat \<Rightarrow> int list \<Rightarrow> int \<Rightarrow> nat \<Rightarrow> nat \<Rightarrow> int list" where
  "WebRtcSpl_ScaleAndAddVectors in1 gain1 shift1 in2 gain2 shift2 vector_length =
     map (\<lambda>i. s16 (s16 (shr (gain1 * in1 ! i) shift1) + s16 (shr (gain2 * in2 ! i) shift2)))
       [0..<vector_length]"

text \<open>\<open>None\<close> is a NULL pointer; the result is the return value and the output, if any.\<close>

definition WebRtcSpl_ScaleAndAddVectorsWithRoundC ::
    "int list option \<Rightarrow> int \<Rightarrow> int list option \<Rightarrow> int \<Rightarrow> int \<Rightarrow> int list option \<Rightarrow> nat \<Rightarrow> int \<times> int list option" where
  "WebRtcSpl_ScaleAndAddVectorsWithRoundC in_vector1 in_vector1_scale in_vector2 in_vector2_scale
       right_shifts out_vector len =
     (case (in_vector1, in_vector2, out_vector) of
        (Some v1, Some v2, Some out) \<Rightarrow>
          if len = 0 \<or> right_shifts < 0 then (- 1, Some out)
          else let round_value = shr (s32 (shl 1 (nat right_shifts))) 1
               in (0, Some (blit out 0 (map (\<lambda>i.
                     s16 (shr (s32 (v1 ! i * in_vector1_scale + v2 ! i * in_vector2_scale + round_value))
                       (nat right_shifts))) [0..<len])))
      | _ \<Rightarrow> (- 1, out_vector))"

definition WebRtcSpl_ReverseOrderMultArrayElements ::
    "int list \<Rightarrow> int list \<Rightarrow> nat \<Rightarrow> nat \<Rightarrow> nat \<Rightarrow> int list" where
  "WebRtcSpl_ReverseOrderMultArrayElements inp win winptr vector_length right_shifts =
     map (\<lambda>i. s16 (shr (inp ! i * win ! (winptr - i)) right_shifts)) [0..<vector_length]"

definition WebRtcSpl_ElementwiseVectorMult :: "int list \<Rightarrow> int list \<Rightarrow> nat \<Rightarrow> nat \<Rightarrow> int list" where
  "WebRtcSpl_ElementwiseVectorMult inp win vector_length right_shifts =
     map (\<lambda>i. s16 (shr (inp ! i * win ! i) right_shifts)) [0..<vector_length]"

definition WebRtcSpl_AddVectorsAndShift :: "int list \<Rightarrow> int list \<Rightarrow> nat \<Rightarrow> nat \<Rightarrow> int list" where
  "WebRtcSpl_AddVectorsAndShift in1 in2 vector_length right_shifts =
     map (\<lambda>i. s16 (shr (in1 ! i + in2 ! i) right_shifts)) [0..<vector_length]"

definition WebRtcSpl_AddAffineVectorToVector ::
    "int list \<Rightarrow> int list \<Rightarrow> int \<Rightarrow> int \<Rightarrow> nat \<Rightarrow> nat \<Rightarrow> int list" where
  "WebRtcSpl_AddAffineVectorToVector out inp gain add_constant right_shifts vector_length =
     map (\<lambda>i. s16 (out ! i + s16 (shr (s32 (inp ! i * gain + add_constant)) right_shifts))) [0..<vector_length]"

definition WebRtcSpl_AffineTransformVector :: "int list \<Rightarrow> int \<Rightarrow> int \<Rightarrow> nat \<Rightarrow> nat \<Rightarrow> int list" where
  "WebRtcSpl_AffineTransformVector inp gain add_constant right_shifts vector_length =
     map (\<lambda>i. s16 (shr (s32 (inp ! i * gain + add_constant)) right_shifts)) [0..<vector_length]"

section \<open>Energies and correlations\<close>

definition WebRtcSpl_GetScalingSquare :: "int list \<Rightarrow> nat \<Rightarrow> nat \<Rightarrow> int" where
  "WebRtcSpl_GetScalingSquare in_vector in_vector_length times0 =
     (let nbits = s16 (WebRtcSpl_GetSizeInBits (u32 (int times0)));
          smax = fold (\<lambda>i smax. let sabs = s16 (if in_vector ! i > 0 then in_vector ! i else - (in_vector ! i))
                         in if sabs > smax then sabs else smax) [0..<in_vector_length] (- 1);
          t = s16 (WebRtcSpl_NormW32 (WEBRTC_SPL_MUL smax smax))
      in if smax = 0 then 0 else if t > nbits then 0 else s16 (nbits - t))"

definition WebRtcSpl_Energy :: "int list \<Rightarrow> nat \<Rightarrow> int \<times> int" where
  "WebRtcSpl_Energy vector vector_length =
     (let scaling = WebRtcSpl_GetScalingSquare vector vector_length vector_length;
          en = fold (\<lambda>i en. s32 (en + shr (vector ! i * vector ! i) (nat scaling))) [0..<vector_length] 0
      in (en, scaling))"

text \<open>
  The loops that handle four products per turn. \<open>dot4\<close> is the unrolled loop, from index \<open>i\<close>,
  of products of \<open>u\<close> and \<open>v\<close>; the second loop of each caller finishes the rest.
\<close>

function dot4 :: "int list \<Rightarrow> int list \<Rightarrow> nat \<Rightarrow> nat \<Rightarrow> nat \<Rightarrow> int \<Rightarrow> nat \<times> int" where
  "dot4 u v len scaling i acc =
     (if i + 3 < len
      then let acc = s32 (acc + shr (u ! (i + 0) * v ! (i + 0)) scaling);
               acc = s32 (acc + shr (u ! (i + 1) * v ! (i + 1)) scaling);
               acc = s32 (acc + shr (u ! (i + 2) * v ! (i + 2)) scaling);
               acc = s32 (acc + shr (u ! (i + 3) * v ! (i + 3)) scaling)
           in dot4 u v len scaling (i + 4) acc
      else (i, acc))"
  by pat_completeness auto
termination by (relation "measure (\<lambda>(u, v, len, scaling, i, acc). len - i)") auto

declare dot4.simps [simp del]

definition WebRtcSpl_DotProductWithScale :: "int list \<Rightarrow> int list \<Rightarrow> nat \<Rightarrow> nat \<Rightarrow> int" where
  "WebRtcSpl_DotProductWithScale vector1 vector2 len scaling =
     (let (i, sum) = dot4 vector1 vector2 len scaling 0 0
      in fold (\<lambda>i sum. s32 (sum + shr (vector1 ! i * vector2 ! i) scaling)) [i..<len] sum)"

definition WebRtcSpl_AutoCorrelation :: "int list \<Rightarrow> nat \<Rightarrow> nat \<Rightarrow> nat \<times> int list \<times> int" where
  "WebRtcSpl_AutoCorrelation in_vector in_vector_length order =
     (let smax = WebRtcSpl_MaxAbsValueW16C in_vector in_vector_length;
          scaling = (if smax = 0 then 0
                     else let nbits = WebRtcSpl_GetSizeInBits (u32 (int in_vector_length));
                              t = WebRtcSpl_NormW32 (WEBRTC_SPL_MUL smax smax)
                          in if t > nbits then 0 else nbits - t);
          result = map (\<lambda>i. let (j, sum) = dot4 in_vector (drop i in_vector) (in_vector_length - i) (nat scaling) 0 0
                            in fold (\<lambda>j sum. s32 (sum + shr (in_vector ! j * in_vector ! (i + j)) (nat scaling)))
                                 [j..<size_sub in_vector_length i] sum) [0..<order + 1]
      in (order + 1, result, scaling))"

definition WebRtcSpl_CrossCorrelationC ::
    "int list \<Rightarrow> int list \<Rightarrow> nat \<Rightarrow> nat \<Rightarrow> nat \<Rightarrow> nat \<Rightarrow> int \<Rightarrow> int list" where
  "WebRtcSpl_CrossCorrelationC seq1 seq2 p2 dim_seq dim_cross_correlation right_shifts step_seq2 =
     map (\<lambda>i. fold (\<lambda>j corr. s32 (corr + shr (seq1 ! j * seq2 ! nat (int p2 + int i * step_seq2 + int j)) right_shifts))
            [0..<dim_seq] 0) [0..<dim_cross_correlation]"

section \<open>Filters\<close>

text \<open>
  \<open>data_in\<close> may be read before the first sample: \<open>p\<close> is the position of the pointer in its
  array. \<open>factor\<close> is positive.
\<close>

function downsample_loop :: "int list \<Rightarrow> nat \<Rightarrow> int list \<Rightarrow> nat \<Rightarrow> nat \<Rightarrow> nat \<Rightarrow> nat \<Rightarrow> int list" where
  "downsample_loop data_in p coefficients coefficients_length factor endpos i =
     (if i < endpos \<and> 0 < factor
      then let out_s32 = fold (\<lambda>j out_s32. s32 (out_s32 + coefficients ! j * data_in ! (p + i - j)))
                           [0..<coefficients_length] 2048;
               out_s32 = shr out_s32 12
           in WebRtcSpl_SatW32ToW16 out_s32 #
              downsample_loop data_in p coefficients coefficients_length factor endpos (i + factor)
      else [])"
  by pat_completeness auto
termination by (relation "measure (\<lambda>(data_in, p, c, cl, factor, endpos, i). endpos - i)") auto

declare downsample_loop.simps [simp del]

definition WebRtcSpl_DownsampleFastC ::
    "int list \<Rightarrow> nat \<Rightarrow> nat \<Rightarrow> nat \<Rightarrow> int list \<Rightarrow> nat \<Rightarrow> nat \<Rightarrow> nat \<Rightarrow> int \<times> int list" where
  "WebRtcSpl_DownsampleFastC data_in p data_in_length data_out_length coefficients coefficients_length factor delay =
     (let endpos = delay + factor * size_sub data_out_length 1 + 1
      in if data_out_length = 0 \<or> coefficients_length = 0 \<or> data_in_length < endpos then (- 1, [])
         else (0, downsample_loop data_in p coefficients coefficients_length factor endpos delay))"

definition WebRtcSpl_FilterMAFastQ12 :: "int list \<Rightarrow> nat \<Rightarrow> int list \<Rightarrow> nat \<Rightarrow> nat \<Rightarrow> int list" where
  "WebRtcSpl_FilterMAFastQ12 in_ptr p B B_length len =
     map (\<lambda>i. let out = fold (\<lambda>j out. s32 (out + B ! j * in_ptr ! (p + i - j))) [0..<B_length] 0;
                  out = WEBRTC_SPL_SAT 134215679 out (- 134217728)
              in s16 (shr (s32 (out + 2048)) 12)) [0..<len]"

text \<open>The output array holds the filter's state, \<open>p\<close> samples, before the first sample it writes.\<close>

definition WebRtcSpl_FilterARFastQ12 :: "int list \<Rightarrow> int list \<Rightarrow> nat \<Rightarrow> int list \<Rightarrow> nat \<Rightarrow> nat \<Rightarrow> int list" where
  "WebRtcSpl_FilterARFastQ12 data_in data_out p coefficients coefficients_length data_length =
     fold (\<lambda>i data_out.
         let sum = fold (\<lambda>j sum. s32 (sum + coefficients ! j * data_out ! (p + i - j)))
                     (rev [1..<coefficients_length]) 0;
             output = coefficients ! 0 * data_in ! i;
             output = s32 (output - sum);
             output = WEBRTC_SPL_SAT 134215679 output (- 134217728)
         in data_out[p + i := s16 (shr (s32 (output + 2048)) 12)])
       [0..<data_length] data_out"

text \<open>
  One sample of \<open>FilterAR\<close>: the products with the outputs so far, then those with the state,
  newest first; \<open>(filtered, filtered_low)\<close> is written at \<open>i\<close>.
\<close>

definition filterAR_sample ::
    "int list \<Rightarrow> nat \<Rightarrow> int list \<Rightarrow> int list \<Rightarrow> nat \<Rightarrow> int list \<Rightarrow> nat \<Rightarrow> int list \<times> int list \<Rightarrow> int list \<times> int list" where
  "filterAR_sample a a_length x state state_length state_low i = (\<lambda>(filtered, filtered_low).
     let stop = (if i < a_length then i + 1 else a_length);
         (o1, oLOW) = fold (\<lambda>j (o1, oLOW). (s32 (o1 - a ! j * filtered ! (i - j)), s32 (oLOW - a ! j * filtered_low ! (i - j))))
                        [1..<stop] (s32 (shl (x ! i) 12), 0);
         (o1, oLOW) = fold (\<lambda>j (o1, oLOW). (s32 (o1 - a ! j * state ! (state_length + i - j)),
                                              s32 (oLOW - a ! j * state_low ! (state_length + i - j))))
                        [i + 1..<a_length] (o1, oLOW);
         o1 = s32 (o1 + shr oLOW 12);
         fin = s16 (shr (s32 (o1 + 2048)) 12)
     in (filtered[i := fin], filtered_low[i := s16 (s32 (o1 - s32 (shl fin 12)))]))"

text \<open>
  The state arrays are saved as the source does it: in the last loop the low part is stored to
  \<open>state\<close>, over the high part.
\<close>

definition filterAR_save ::
    "nat \<Rightarrow> nat \<Rightarrow> int list \<Rightarrow> nat \<Rightarrow> int list \<Rightarrow> int list \<Rightarrow> int list \<Rightarrow> int list \<times> int list" where
  "filterAR_save a_length x_length state state_length state_low filtered filtered_low =
     (if x_length \<ge> state_length
      then (WebRtcSpl_CopyFromEndW16 filtered x_length (size_sub a_length 1) state,
            WebRtcSpl_CopyFromEndW16 filtered_low x_length (size_sub a_length 1) state_low)
      else let (state, state_low) =
                 fold (\<lambda>i (state, state_low). (state[i := state ! (i + x_length)], state_low[i := state_low ! (i + x_length)]))
                   [0..<state_length - x_length] (state, state_low);
               state = fold (\<lambda>i state. let state = state[state_length - x_length + i := filtered ! i]
                                        in state[state_length - x_length + i := filtered_low ! i])
                         [0..<x_length] state
           in (state, state_low))"

definition WebRtcSpl_FilterAR ::
    "int list \<Rightarrow> nat \<Rightarrow> int list \<Rightarrow> nat \<Rightarrow> int list \<Rightarrow> nat \<Rightarrow> int list \<Rightarrow> int list \<Rightarrow> int list \<Rightarrow>
     nat \<times> int list \<times> int list \<times> int list \<times> int list" where
  "WebRtcSpl_FilterAR a a_length x x_length state state_length state_low filtered filtered_low =
     (let (filtered, filtered_low) =
            fold (filterAR_sample a a_length x state state_length state_low) [0..<x_length] (filtered, filtered_low);
          (state', state_low') = filterAR_save a_length x_length state state_length state_low filtered filtered_low
      in (x_length, filtered, filtered_low, state', state_low'))"

section \<open>The Hanning window\<close>

definition kHanningTable :: "int list" where
  "kHanningTable =
     [1, 2, 6, 10, 15, 22, 30, 39, 50, 62, 75, 89, 104, 121, 138, 157,
      178, 199, 222, 246, 271, 297, 324, 353, 383, 413, 446, 479, 513, 549, 586, 624,
      663, 703, 744, 787, 830, 875, 920, 967, 1015, 1064, 1114, 1165, 1218, 1271, 1325, 1381,
      1437, 1494, 1553, 1612, 1673, 1734, 1796, 1859, 1924, 1989, 2055, 2122, 2190, 2259, 2329, 2399,
      2471, 2543, 2617, 2691, 2765, 2841, 2918, 2995, 3073, 3152, 3232, 3312, 3393, 3475, 3558, 3641,
      3725, 3809, 3895, 3980, 4067, 4154, 4242, 4330, 4419, 4509, 4599, 4689, 4781, 4872, 4964, 5057,
      5150, 5244, 5338, 5432, 5527, 5622, 5718, 5814, 5910, 6007, 6104, 6202, 6299, 6397, 6495, 6594,
      6693, 6791, 6891, 6990, 7090, 7189, 7289, 7389, 7489, 7589, 7690, 7790, 7890, 7991, 8091, 8192,
      8293, 8393, 8494, 8594, 8694, 8795, 8895, 8995, 9095, 9195, 9294, 9394, 9493, 9593, 9691, 9790,
      9889, 9987, 10085, 10182, 10280, 10377, 10474, 10570, 10666, 10762, 10857, 10952, 11046, 11140, 11234, 11327,
      11420, 11512, 11603, 11695, 11785, 11875, 11965, 12054, 12142, 12230, 12317, 12404, 12489, 12575, 12659, 12743,
      12826, 12909, 12991, 13072, 13152, 13232, 13311, 13389, 13466, 13543, 13619, 13693, 13767, 13841, 13913, 13985,
      14055, 14125, 14194, 14262, 14329, 14395, 14460, 14525, 14588, 14650, 14711, 14772, 14831, 14890, 14947, 15003,
      15059, 15113, 15166, 15219, 15270, 15320, 15369, 15417, 15464, 15509, 15554, 15597, 15640, 15681, 15721, 15760,
      15798, 15835, 15871, 15905, 15938, 15971, 16001, 16031, 16060, 16087, 16113, 16138, 16162, 16185, 16206, 16227,
      16246, 16263, 16280, 16295, 16309, 16322, 16334, 16345, 16354, 16362, 16369, 16374, 16378, 16382, 16383, 16384]"

definition WebRtcSpl_GetHanningWindow :: "nat \<Rightarrow> int list" where
  "WebRtcSpl_GetHanningWindow vsize =
     (let factor = WebRtcSpl_DivW32W16 0x40000000 (s16 (int vsize));
          index = (if vsize < 513 then - 0x200000 else - 0x100000)
      in snd (fold (\<lambda>jj (index, v). let index = s32 (index + factor)
                       in (index, v @ [kHanningTable ! nat (shr index 22)])) [0..<vsize] (index, [])))"

section \<open>Lemmas on the loops\<close>

lemma fold_max:
  "fold (\<lambda>i m. if (f i :: int) > m then f i else m) [0..<n] m0 = (if n = 0 then m0 else max m0 (Max (f ` {..<n})))"
proof (induction n)
  case (Suc n)
  show ?case
  proof (cases "n = 0")
    case False
    then have "Max (f ` {..<Suc n}) = max (f n) (Max (f ` {..<n}))"
      by (simp add: lessThan_Suc lessThan_empty_iff)
    then show ?thesis using Suc False by auto
  qed (simp add: max_def lessThan_Suc)
qed simp

lemma fold_min:
  "fold (\<lambda>i m. if (f i :: int) < m then f i else m) [0..<n] m0 = (if n = 0 then m0 else min m0 (Min (f ` {..<n})))"
proof (induction n)
  case (Suc n)
  show ?case
  proof (cases "n = 0")
    case False
    then have "Min (f ` {..<Suc n}) = min (f n) (Min (f ` {..<n}))"
      by (simp add: lessThan_Suc lessThan_empty_iff)
    then show ?thesis using Suc False by auto
  qed (simp add: min_def lessThan_Suc)
qed simp

text \<open>The index searches find the first position of the extreme value.\<close>

definition first_max :: "(nat \<Rightarrow> int) \<Rightarrow> nat \<Rightarrow> nat \<Rightarrow> bool" where
  "first_max f n k \<longleftrightarrow> k < n \<and> (\<forall>i<n. f i \<le> f k) \<and> (\<forall>i<k. f i < f k)"

lemma fold_argmax_inv:
  assumes "\<forall>i<n. m0 \<le> f i" and "fold (\<lambda>i (k, m). if (f i :: int) > m then (i, f i) else (k, m)) [0..<n] (0, m0) = (k, m)"
  shows "(m = m0 \<and> k = 0 \<and> (\<forall>i<n. f i = m0)) \<or> (m0 < m \<and> m = f k \<and> first_max f n k)"
  using assms
proof (induction n arbitrary: k m)
  case (Suc n)
  obtain k' m' where f: "fold (\<lambda>i (k, m). if f i > m then (i, f i) else (k, m)) [0..<n] (0, m0) = (k', m')"
    by (rule prod.exhaust)
  have IH: "(m' = m0 \<and> k' = 0 \<and> (\<forall>i<n. f i = m0)) \<or> (m0 < m' \<and> m' = f k' \<and> first_max f n k')"
  proof -
    have "\<forall>i<n. m0 \<le> f i" using Suc.prems(1) less_SucI by blast
    from Suc.IH [OF this f] show ?thesis .
  qed
  have km: "(k, m) = (if f n > m' then (n, f n) else (k', m'))" using Suc.prems(2) f by (simp split: if_splits)
  show ?case
  proof (cases "f n > m'")
    case True
    have b: "m0 \<le> m'" "\<forall>i<n. f i \<le> m'" using IH by (auto simp: first_max_def)
    have "\<forall>i<n. f i < f n" using b(2) True by (meson le_less_trans)
    moreover have "k = n" "m = f n" using km True by auto
    ultimately show ?thesis using b(1) True by (simp add: first_max_def less_Suc_eq order.strict_implies_order)
  next
    case False
    then have k: "k = k'" "m = m'" using km by auto
    have "m0 \<le> f n" "f n \<le> m'" using Suc.prems(1) False by simp_all
    then show ?thesis using IH unfolding k
      by (elim disjE) (auto simp: first_max_def less_Suc_eq)
  qed
qed simp

lemma fold_argmax:
  assumes "\<forall>i<n. m0 \<le> f i" and "0 < n"
  shows "first_max f n (fst (fold (\<lambda>i (k, m). if (f i :: int) > m then (i, f i) else (k, m)) [0..<n] (0, m0)))"
proof -
  obtain k m where f: "fold (\<lambda>i (k, m). if (f i :: int) > m then (i, f i) else (k, m)) [0..<n] (0, m0) = (k, m)"
    by (rule prod.exhaust)
  from fold_argmax_inv [OF assms(1) f] have "first_max f n k"
  proof
    assume "m = m0 \<and> k = 0 \<and> (\<forall>i<n. f i = m0)"
    then show ?thesis using assms(2) by (simp add: first_max_def)
  qed simp
  then show ?thesis unfolding f by simp
qed

text \<open>A search for a minimum is a search for a maximum of the negated values.\<close>

lemma fold_argmin:
  assumes "\<forall>i<n. f i \<le> m0" and "0 < n"
  shows "first_max (\<lambda>i. - f i) n (fst (fold (\<lambda>i (k, m). if (f i :: int) < m then (i, f i) else (k, m)) [0..<n] (0, m0)))"
proof -
  have "fold (\<lambda>i (k, m). if - f i > m then (i, - f i) else (k, m)) xs (k0, - m1) =
      map_prod id uminus (fold (\<lambda>i (k, m). if f i < m then (i, f i) else (k, m)) xs (k0, m1))" for xs :: "nat list" and k0 m1
    by (induction xs arbitrary: k0 m1) simp_all
  from this [of "[0..<n]" 0 m0] show ?thesis
    using fold_argmax [of n "- m0" "\<lambda>i. - f i"] assms by (simp only: fst_map_prod id_apply) simp
qed

section \<open>Extreme values: meaning\<close>

lemma all_nth: "list_all P v \<Longrightarrow> n \<le> length v \<Longrightarrow> i < n \<Longrightarrow> P (v ! i)"
  by (simp add: list_all_length)

lemmas extreme_defs = WebRtcSpl_MaxAbsValueW16C_def WebRtcSpl_MaxAbsValueW32C_def WebRtcSpl_MaxValueW16C_def
  WebRtcSpl_MaxValueW32C_def WebRtcSpl_MinValueW16C_def WebRtcSpl_MinValueW32C_def

lemma MaxValueW16C_eq:
  assumes "list_all is_s16 v" "n \<le> length v" "0 < n"
  shows "WebRtcSpl_MaxValueW16C v n = Max ((!) v ` {..<n})"
proof -
  have "- 32768 \<le> v ! 0" using all_nth [OF assms] by (simp add: is_s16_def)
  also have "v ! 0 \<le> Max ((!) v ` {..<n})" using assms(3) by (intro Max_ge) auto
  finally show ?thesis using assms(3) by (simp add: extreme_defs fold_max)
qed

lemma MaxValueW32C_eq:
  assumes "list_all is_s32 v" "n \<le> length v" "0 < n"
  shows "WebRtcSpl_MaxValueW32C v n = Max ((!) v ` {..<n})"
proof -
  have "- 2147483648 \<le> v ! 0" using all_nth [OF assms] by (simp add: is_s32_def)
  also have "v ! 0 \<le> Max ((!) v ` {..<n})" using assms(3) by (intro Max_ge) auto
  finally show ?thesis using assms(3) by (simp add: extreme_defs fold_max)
qed

lemma MinValueW16C_eq:
  assumes "list_all is_s16 v" "n \<le> length v" "0 < n"
  shows "WebRtcSpl_MinValueW16C v n = Min ((!) v ` {..<n})"
proof -
  have "Min ((!) v ` {..<n}) \<le> v ! 0" using assms(3) by (intro Min_le) auto
  also have "v ! 0 \<le> 32767" using all_nth [OF assms] by (simp add: is_s16_def)
  finally show ?thesis using assms(3) by (simp add: extreme_defs fold_min)
qed

lemma MinValueW32C_eq:
  assumes "list_all is_s32 v" "n \<le> length v" "0 < n"
  shows "WebRtcSpl_MinValueW32C v n = Min ((!) v ` {..<n})"
proof -
  have "Min ((!) v ` {..<n}) \<le> v ! 0" using assms(3) by (intro Min_le) auto
  also have "v ! 0 \<le> 2147483647" using all_nth [OF assms] by (simp add: is_s32_def)
  finally show ?thesis using assms(3) by (simp add: extreme_defs fold_min)
qed

lemma MaxAbsValueW16C_eq:
  assumes "list_all is_s16 v" "n \<le> length v" "0 < n"
  shows "WebRtcSpl_MaxAbsValueW16C v n = min 32767 (Max ((\<lambda>i. \<bar>v ! i\<bar>) ` {..<n}))"
proof -
  have "0 \<le> \<bar>v ! 0\<bar>" by simp
  also have "\<bar>v ! 0\<bar> \<le> Max ((\<lambda>i. \<bar>v ! i\<bar>) ` {..<n})" using assms(3) by (intro Max_ge) auto
  finally have "0 \<le> Max ((\<lambda>i. \<bar>v ! i\<bar>) ` {..<n})" .
  then show ?thesis using assms(3)
    by (auto simp: extreme_defs Let_def fold_max s16_id is_s16_def)
qed

lemma MaxAbsValueW16C_range: "0 \<le> WebRtcSpl_MaxAbsValueW16C v n \<and> WebRtcSpl_MaxAbsValueW16C v n \<le> 32767"
proof -
  have "0 \<le> fold (\<lambda>i m. if (f i :: int) > m then f i else m) [0..<n] 0" for f
    by (simp add: fold_max)
  from this [of "\<lambda>i. \<bar>v ! i\<bar>"] show ?thesis
    by (simp add: WebRtcSpl_MaxAbsValueW16C_def Let_def s16_id is_s16_def)
qed

section \<open>Unrolled loops\<close>

text \<open>The sum of products that the unrolled loops compute.\<close>

definition dot_ref :: "int list \<Rightarrow> int list \<Rightarrow> nat \<Rightarrow> nat \<Rightarrow> nat \<Rightarrow> int" where
  "dot_ref u v scaling a b = (\<Sum>i = a..<b. shr (u ! i * v ! i) scaling)"

lemma fold_s32_sum: "is_s32 c \<Longrightarrow> fold (\<lambda>i sum. s32 (sum + f i)) xs c = s32 (c + (\<Sum>i\<leftarrow>xs. f i))"
  by (induction xs arbitrary: c) (simp_all add: s32_id algebra_simps)

lemma fold_dot:
  "is_s32 c \<Longrightarrow> fold (\<lambda>i sum. s32 (sum + shr (u ! i * v ! i) scaling)) [a..<b] c = s32 (c + dot_ref u v scaling a b)"
  by (simp add: fold_s32_sum dot_ref_def interv_sum_list_conv_sum_set_nat)

lemma dot4_spec:
  assumes "dot4 u v len scaling i acc = (i', acc')" and "is_s32 acc" and "i \<le> len"
  shows "i \<le> i' \<and> i' \<le> len \<and> is_s32 acc' \<and> acc' = s32 (acc + dot_ref u v scaling i i')"
  using assms
proof (induction u v len scaling i acc rule: dot4.induct)
  case (1 u v len scaling i acc)
  show ?case
  proof (cases "i + 3 < len")
    case True
    have e: "s32 (s32 (s32 (s32 (acc + shr (u ! (i + 0) * v ! (i + 0)) scaling) + shr (u ! (i + 1) * v ! (i + 1)) scaling) +
        shr (u ! (i + 2) * v ! (i + 2)) scaling) + shr (u ! (i + 3) * v ! (i + 3)) scaling) =
        s32 (acc + dot_ref u v scaling i (i + 4))"
      by (simp add: dot_ref_def eval_nat_numeral add.assoc)
    have r: "dot4 u v len scaling (i + 4) (s32 (acc + dot_ref u v scaling i (i + 4))) = (i', acc')"
      using "1.prems"(1) True by (subst (asm) dot4.simps) (simp only: Let_def e if_True)
    have "i + 4 \<le> i' \<and> i' \<le> len \<and> is_s32 acc' \<and>
        acc' = s32 (s32 (acc + dot_ref u v scaling i (i + 4)) + dot_ref u v scaling (i + 4) i')"
      using "1.IH" [OF True refl refl refl refl] True r unfolding e by simp
    moreover have "dot_ref u v scaling i (i + 4) + dot_ref u v scaling (i + 4) i' = dot_ref u v scaling i i'"
      if "i + 4 \<le> i'" using that by (simp add: dot_ref_def sum.atLeastLessThan_concat)
    ultimately show ?thesis by (auto simp: add.assoc)
  next
    case False
    then show ?thesis using "1.prems" by (simp add: dot4.simps dot_ref_def s32_id)
  qed
qed

lemma dot_ref_split: "a \<le> b \<Longrightarrow> b \<le> c \<Longrightarrow> dot_ref u v scaling a b + dot_ref u v scaling b c = dot_ref u v scaling a c"
  by (simp add: dot_ref_def sum.atLeastLessThan_concat)

lemma dot4_rest:
  "(case dot4 u v len scaling 0 0 of (i, acc) \<Rightarrow> fold (\<lambda>i sum. s32 (sum + shr (u ! i * v ! i) scaling)) [i..<len] acc)
     = s32 (dot_ref u v scaling 0 len)"
proof -
  obtain i acc where d: "dot4 u v len scaling 0 0 = (i, acc)" by (rule prod.exhaust)
  have "i \<le> len" "is_s32 acc" "acc = s32 (dot_ref u v scaling 0 i)"
    using dot4_spec [OF d] by (auto simp: is_s32_def)
  then show ?thesis unfolding d prod.case by (simp add: fold_dot dot_ref_split)
qed

lemma DotProductWithScale_eq: "WebRtcSpl_DotProductWithScale u v len scaling = s32 (dot_ref u v scaling 0 len)"
  by (simp add: WebRtcSpl_DotProductWithScale_def Let_def dot4_rest)

section \<open>Energies\<close>

lemma fold_smax:
  assumes "list_all (\<lambda>x. is_s16 x \<and> x \<noteq> - 32768) v" and "n \<le> length v" and "0 < n"
  shows "fold (\<lambda>i smax. let sabs = s16 (if v ! i > 0 then v ! i else - (v ! i)) in if sabs > smax then sabs else smax)
      [0..<n] (- 1) = Max ((\<lambda>i. \<bar>v ! i\<bar>) ` {..<n})"
proof -
  have "fold (\<lambda>i smax. let sabs = s16 (if v ! i > 0 then v ! i else - (v ! i)) in if sabs > smax then sabs else smax)
      [0..<n] (- 1) = fold (\<lambda>i m. if \<bar>v ! i\<bar> > m then \<bar>v ! i\<bar> else m) [0..<n] (- 1)"
  proof (rule fold_cong [OF refl refl])
    fix i assume "i \<in> set [0..<n]"
    then have "is_s16 (v ! i) \<and> v ! i \<noteq> - 32768" using all_nth [OF assms(1,2)] by simp
    then have "s16 (if v ! i > 0 then v ! i else - (v ! i)) = \<bar>v ! i\<bar>"
      by (auto simp: is_s16_def s16_id)
    then show "(\<lambda>smax. let sabs = s16 (if v ! i > 0 then v ! i else - (v ! i)) in if sabs > smax then sabs else smax) =
        (\<lambda>m. if \<bar>v ! i\<bar> > m then \<bar>v ! i\<bar> else m)" by (simp add: Let_def)
  qed
  moreover have "- 1 \<le> Max ((\<lambda>i. \<bar>v ! i\<bar>) ` {..<n})"
  proof -
    have "- 1 \<le> \<bar>v ! 0\<bar>" by simp
    also have "\<bar>v ! 0\<bar> \<le> Max ((\<lambda>i. \<bar>v ! i\<bar>) ` {..<n})" using assms(3) by (intro Max_ge) auto
    finally show ?thesis .
  qed
  ultimately show ?thesis using assms(3) by (simp add: fold_max)
qed

text \<open>The scaling leaves room for the sum of as many squares as announced.\<close>

lemma GetScalingSquare_room:
  assumes "list_all (\<lambda>x. is_s16 x \<and> x \<noteq> - 32768) v" and "n \<le> length v" and "0 < n" and "times0 < 2 ^ 31" "i < n"
  shows "0 \<le> WebRtcSpl_GetScalingSquare v n times0" and
    "int times0 * shr (v ! i * v ! i) (nat (WebRtcSpl_GetScalingSquare v n times0)) < 2 ^ 31"
proof -
  define M where "M = Max ((\<lambda>i. \<bar>v ! i\<bar>) ` {..<n})"
  have ge: "\<bar>v ! j\<bar> \<le> M" if "j < n" for j using that by (simp add: M_def)
  have M: "0 \<le> M" "M \<le> 32767"
  proof -
    show "0 \<le> M" using ge [OF assms(3)] by linarith
    have "M \<in> (\<lambda>i. \<bar>v ! i\<bar>) ` {..<n}" unfolding M_def using assms(3) by (intro Max_in) auto
    then obtain j where "j < n" "M = \<bar>v ! j\<bar>" by auto
    then show "M \<le> 32767" using all_nth [OF assms(1,2), of j] by (auto simp: is_s16_def)
  qed
  have sq: "v ! i * v ! i \<le> M * M"
    using mult_mono [OF ge [OF assms(5)] ge [OF assms(5)]] M by (simp add: abs_mult_self_eq)
  have MM: "0 \<le> M * M" "M * M \<le> 32767 * 32767" using M mult_mono [OF M(2) M(2)] by simp_all
  then have r: "- 2147483648 \<le> M * M" "M * M \<le> 2147483647" by linarith+
  then have mul: "WEBRTC_SPL_MUL M M = M * M" by (simp add: WEBRTC_SPL_MUL_def is_s32_def s32_id)
  have "is_u32 (int times0)" using assms(4) by (simp add: is_u32_def)
  from GetSizeInBits_spec [OF this] obtain k where k: "WebRtcSpl_GetSizeInBits (int times0) = int k" "k \<le> 32"
    "int times0 < 2 ^ k" by blast
  have nbits: "s16 (WebRtcSpl_GetSizeInBits (u32 (int times0))) = int k"
    using k assms(4) by (simp add: u32_id is_u32_def s16_id is_s16_def)
  let ?s = "WebRtcSpl_GetScalingSquare v n times0"
  show "0 \<le> ?s" and "int times0 * shr (v ! i * v ! i) (nat ?s) < 2 ^ 31"
  proof (atomize (full), cases "M = 0")
    case True
    then have "?s = 0" unfolding WebRtcSpl_GetScalingSquare_def Let_def fold_smax [OF assms(1-3), unfolded Let_def] M_def by simp
    moreover have "v ! i = 0" using ge [OF assms(5)] True by simp
    ultimately show "0 \<le> ?s \<and> int times0 * shr (v ! i * v ! i) (nat ?s) < 2 ^ 31" by simp
  next
    case False
    then have "M * M \<noteq> 0" "is_s32 (M * M)" using r by (simp_all add: is_s32_def)
    then obtain t where t: "WebRtcSpl_NormW32 (M * M) = int t" "t < 32" "is_s32 (M * M * 2 ^ t)" using NormW32_spec by metis
    have s: "?s = (if int t > int k then 0 else s16 (int k - int t))"
      using False t(1,2) unfolding WebRtcSpl_GetScalingSquare_def Let_def fold_smax [OF assms(1-3), unfolded Let_def] nbits M_def [symmetric]
      by (simp add: mul s16_id is_s16_def)
    have top: "M * M * 2 ^ t < 2 ^ 31" using t(3) by (simp add: is_s32_def)
    show "0 \<le> ?s \<and> int times0 * shr (v ! i * v ! i) (nat ?s) < 2 ^ 31"
    proof (cases "k < t")
      case True
      then have "2 ^ k \<le> (2::int) ^ t" by (intro power_increasing) auto
      then have "int times0 \<le> 2 ^ t" using k(3) by linarith
      then have "int times0 * (v ! i * v ! i) \<le> 2 ^ t * (M * M)"
        using sq by (rule mult_mono) auto
      also have "\<dots> < 2 ^ 31" using top by (simp add: mult.commute)
      finally show ?thesis using True s by simp
    next
      case False
      have ks: "nat ?s = k - t" "0 \<le> ?s" using s False k(2) by (auto simp: s16_id is_s16_def)
      have "2 ^ (k - t) * shr (v ! i * v ! i) (k - t) \<le> M * M"
        using sq le_shr_iff [of "shr (v ! i * v ! i) (k - t)" "v ! i * v ! i" "k - t"] by (simp add: mult.commute)
      then have "2 ^ t * (2 ^ (k - t) * shr (v ! i * v ! i) (k - t)) \<le> 2 ^ t * (M * M)" by (intro mult_left_mono) auto
      then have "2 ^ k * shr (v ! i * v ! i) (k - t) < 2 ^ 31"
        using top False by (simp add: mult.assoc [symmetric] mult.commute flip: power_add)
      moreover have "int times0 * shr (v ! i * v ! i) (k - t) \<le> 2 ^ k * shr (v ! i * v ! i) (k - t)"
        using k(3) by (intro mult_right_mono) auto
      ultimately show ?thesis using ks by simp
    qed
  qed
qed

lemma sum_bounded_le:
  assumes "\<And>i. i < n \<Longrightarrow> 0 \<le> f i \<and> int n * f i \<le> B" and "0 \<le> B" and "m \<le> n"
  shows "0 \<le> (\<Sum>i = 0..<m. f i) \<and> (\<Sum>i = 0..<m. f i) \<le> (B :: int)"
proof -
  have "int n * (\<Sum>i = 0..<m. f i) = (\<Sum>i = 0..<m. int n * f i)" by (simp add: sum_distrib_left)
  also have "\<dots> \<le> (\<Sum>i = 0..<m. B)" using assms(1,3) by (intro sum_mono) auto
  also have "\<dots> = int m * B" by simp
  also have "\<dots> \<le> int n * B" using assms(2,3) by (intro mult_right_mono) auto
  finally have "n \<noteq> 0 \<Longrightarrow> (\<Sum>i = 0..<m. f i) \<le> B" by simp
  moreover have "0 \<le> (\<Sum>i = 0..<m. f i)" using assms(1,3) by (intro sum_nonneg) auto
  ultimately show ?thesis using assms(2,3) by (cases "n = 0") auto
qed

section \<open>Down-sampling\<close>

definition downsample_sample :: "int list \<Rightarrow> nat \<Rightarrow> int list \<Rightarrow> nat \<Rightarrow> nat \<Rightarrow> int" where
  "downsample_sample data_in p coefficients coefficients_length i =
     clamp16 (shr (s32 (2048 + (\<Sum>j\<leftarrow>[0..<coefficients_length]. coefficients ! j * data_in ! (p + i - j)))) 12)"

lemma downsample_loop_eq:
  assumes "0 < factor"
  shows "downsample_loop d p c cl factor (i + factor * n + 1) i = map (\<lambda>k. downsample_sample d p c cl (i + factor * k)) [0..<Suc n]"
proof (induction n arbitrary: i)
  case 0
  show ?case using assms
    by (simp add: downsample_loop.simps downsample_sample_def fold_s32_sum is_s32_def SatW32ToW16_eq)
next
  case (Suc n)
  have "downsample_loop d p c cl factor (i + factor * Suc n + 1) i =
      downsample_sample d p c cl i # downsample_loop d p c cl factor ((i + factor) + factor * n + 1) (i + factor)"
    using assms by (subst downsample_loop.simps)
      (simp add: downsample_sample_def fold_s32_sum is_s32_def SatW32ToW16_eq ac_simps)
  also have "\<dots> = downsample_sample d p c cl i # map (\<lambda>k. downsample_sample d p c cl (i + factor + factor * k)) [0..<Suc n]"
    by (simp only: Suc.IH)
  also have "\<dots> = map (\<lambda>k. downsample_sample d p c cl (i + factor * k)) [0..<Suc (Suc n)]"
    unfolding upt_conv_Cons [OF zero_less_Suc, of "Suc n"] map_Suc_upt [symmetric] by (simp add: comp_def add.assoc)
  finally show ?case .
qed

lemma DownsampleFastC_eq:
  assumes "0 < factor" "data_out_length \<noteq> 0" "cl \<noteq> 0" "delay + factor * (data_out_length - 1) < data_in_length"
  shows "WebRtcSpl_DownsampleFastC d p data_in_length data_out_length c cl factor delay =
    (0, map (\<lambda>k. downsample_sample d p c cl (delay + factor * k)) [0..<data_out_length])"
  using assms downsample_loop_eq [OF assms(1), of d p c cl delay "data_out_length - 1"]
  by (simp add: WebRtcSpl_DownsampleFastC_def)

section \<open>Copies: meaning\<close>

lemma MemSetW16_eq:
  "ptr + len \<le> length arr \<Longrightarrow> WebRtcSpl_MemSetW16 arr ptr c len = blit arr ptr (replicate len c)"
proof -
  assume a: "ptr + len \<le> length arr"
  have "fold (\<lambda>_ (arr, p). (arr[p := c], p + 1)) xs (arr, ptr) = (blit arr ptr (replicate (length xs) c), ptr + length xs)"
    if "ptr + length xs \<le> length arr" for xs :: "nat list"
    using that
  proof (induction xs arbitrary: arr ptr)
    case (Cons x xs)
    then show ?case by (simp add: blit_def take_Suc_conv_app_nth upd_conv_take_nth_drop min_absorb1 add.commute)
  qed simp
  from this [of "rev [1..<len + 1]"] a show ?thesis
    by (cases len) (simp_all add: WebRtcSpl_MemSetW16_def del: upt_Suc)
qed

lemma MemSetW32_eq: "WebRtcSpl_MemSetW32 = WebRtcSpl_MemSetW16"
  by (intro ext) (simp add: WebRtcSpl_MemSetW16_def WebRtcSpl_MemSetW32_def)

lemma ReversedOrder_steps:
  assumes "n \<le> d + 1" "d < length dest" "n \<le> length src"
  shows "\<exists>d'. fold (\<lambda>j (dest, d). (dest[d := src ! j], d - 1)) [0..<n] (dest, d) =
      (blit dest (d + 1 - n) (rev (take n src)), d') \<and> (n \<le> d \<longrightarrow> d' = d - n)"
  using assms(1,3)
proof (induction n)
  case (Suc n)
  then obtain d' where f: "fold (\<lambda>j (dest, d). (dest[d := src ! j], d - 1)) [0..<n] (dest, d) =
      (blit dest (d + 1 - n) (rev (take n src)), d')" "d' = d - n" by fastforce
  have e: "take (d + 1 - n) dest = take (d - n) dest @ [dest ! (d - n)]"
    using Suc.prems assms(2) take_Suc_conv_app_nth [of "d - n" dest] by (simp add: Suc_diff_le)
  have "(blit dest (d + 1 - n) (rev (take n src)))[d - n := src ! n] = blit dest (d + 1 - Suc n) (rev (take (Suc n) src))"
    using Suc.prems assms(2) unfolding blit_def e by (simp add: take_Suc_conv_app_nth list_update_append min_absorb1)
  then show ?case using f Suc.prems by simp
qed simp

lemma MemCpyReversedOrder_eq:
  "n \<le> d + 1 \<Longrightarrow> d < length dest \<Longrightarrow> n \<le> length src \<Longrightarrow>
   WebRtcSpl_MemCpyReversedOrder dest d src n = blit dest (d + 1 - n) (rev (take n src))"
  unfolding WebRtcSpl_MemCpyReversedOrder_def by (drule (2) ReversedOrder_steps) auto

section \<open>Properties\<close>

text \<open>
  Each index search returns the first position of the extreme value it looks for: no element
  is more extreme, and every earlier element is strictly less so. This holds for every vector of
  its type, also where all elements equal the start value of the search.
\<close>
theorem index_search_first:
  assumes "list_all is_s16 v" and "n \<le> length v" and "0 < n" and "list_all is_s32 w" and "n \<le> length w"
  shows "first_max (\<lambda>i. v ! i) n (WebRtcSpl_MaxIndexW16 v n) \<and>
    first_max (\<lambda>i. \<bar>v ! i\<bar>) n (WebRtcSpl_MaxAbsIndexW16 v n) \<and>
    first_max (\<lambda>i. - (v ! i)) n (WebRtcSpl_MinIndexW16 v n) \<and>
    first_max (\<lambda>i. w ! i) n (WebRtcSpl_MaxIndexW32 w n) \<and>
    first_max (\<lambda>i. - (w ! i)) n (WebRtcSpl_MinIndexW32 w n)"
proof -
  have v: "\<forall>i<n. - 32768 \<le> v ! i" "\<forall>i<n. v ! i \<le> 32767" using all_nth [OF assms(1,2)] by (auto simp: is_s16_def)
  have w: "\<forall>i<n. - 2147483648 \<le> w ! i" "\<forall>i<n. w ! i \<le> 2147483647"
    using all_nth [OF assms(4,5)] by (auto simp: is_s32_def)
  show ?thesis
    using fold_argmax [OF v(1) assms(3)] fold_argmax [of n 0 "\<lambda>i. \<bar>v ! i\<bar>"] fold_argmin [OF v(2) assms(3)]
      fold_argmax [OF w(1) assms(3)] fold_argmin [OF w(2) assms(3)] assms(3)
    by (simp add: WebRtcSpl_MaxIndexW16_def WebRtcSpl_MaxAbsIndexW16_def WebRtcSpl_MinIndexW16_def
        WebRtcSpl_MaxIndexW32_def WebRtcSpl_MinIndexW32_def Let_def)
qed

lemma index_search_first_witness:
  "WebRtcSpl_MaxAbsIndexW16 [3, - 7, 7] 3 = 1 \<and> first_max (\<lambda>i. \<bar>[3, - 7, 7] ! i\<bar>) 3 (WebRtcSpl_MaxAbsIndexW16 [3, - 7, 7] 3)"
proof
  show "first_max (\<lambda>i. \<bar>[3, - 7, 7] ! i\<bar>) 3 (WebRtcSpl_MaxAbsIndexW16 [3, - 7, 7] 3)"
    using index_search_first [of "[3, - 7, 7]" 3 "[3, - 7, 7]"] by (simp add: is_s16_def is_s32_def)
qed (simp add: WebRtcSpl_MaxAbsIndexW16_def upt_rec numeral_eq_Suc)

text \<open>
  The value searches return the true extreme value of the vector, except that the absolute
  value of the most negative sample, which has no 16 bit representation, is reported as 32767.
\<close>
theorem extreme_values:
  assumes "list_all is_s16 v" and "n \<le> length v" and "0 < n" and "list_all is_s32 w" and "n \<le> length w"
  shows "WebRtcSpl_MaxValueW16C v n = Max ((!) v ` {..<n}) \<and> WebRtcSpl_MinValueW16C v n = Min ((!) v ` {..<n}) \<and>
    WebRtcSpl_MaxValueW32C w n = Max ((!) w ` {..<n}) \<and> WebRtcSpl_MinValueW32C w n = Min ((!) w ` {..<n}) \<and>
    WebRtcSpl_MaxAbsValueW16C v n = min 32767 (Max ((\<lambda>i. \<bar>v ! i\<bar>) ` {..<n}))"
  using MaxValueW16C_eq [OF assms(1-3)] MinValueW16C_eq [OF assms(1-3)] MaxValueW32C_eq [OF assms(4,5,3)]
    MinValueW32C_eq [OF assms(4,5,3)] MaxAbsValueW16C_eq [OF assms(1-3)] by blast

lemma extreme_values_witness: "WebRtcSpl_MaxAbsValueW16C [5, - 32768] 2 = 32767 \<and> WebRtcSpl_MinValueW16C [5, - 32768] 2 = - 32768"
  using extreme_values [of "[5, - 32768]" 2 "[0, 0]"] by (simp add: is_s16_def is_s32_def lessThan_Suc numeral_eq_Suc)

text \<open>
  The dot product, unrolled by four with a separate loop for the rest, is the sum of the
  shifted products over all indices, reduced to 32 bits, for every length.
\<close>
theorem dot_product_unrolled:
  "WebRtcSpl_DotProductWithScale u v len scaling = s32 (\<Sum>i = 0..<len. shr (u ! i * v ! i) scaling)"
  using DotProductWithScale_eq [of u v len scaling] by (simp only: dot_ref_def)

text \<open>
  The energy of a vector does not overflow: the scaling that \<open>GetScalingSquare\<close> chooses is
  enough for the sum of all shifted squares to be computed exactly in 32 bits. The one
  exception is a sample of -32768, whose absolute value wraps in 16 bits.
\<close>
theorem energy_exact:
  assumes "list_all (\<lambda>x. is_s16 x \<and> x \<noteq> - 32768) v" and "n \<le> length v" and "n < 2 ^ 31"
  shows "(case WebRtcSpl_Energy v n of (en, scaling) \<Rightarrow>
    0 \<le> scaling \<and> en = (\<Sum>i = 0..<n. shr (v ! i * v ! i) (nat scaling)) \<and> 0 \<le> en \<and> en < 2 ^ 31)"
proof (cases "n = 0")
  case True
  have "WebRtcSpl_GetScalingSquare v 0 0 = WebRtcSpl_GetScalingSquare [] 0 0"
    by (simp add: WebRtcSpl_GetScalingSquare_def)
  also have "\<dots> = 0" by code_simp
  finally show ?thesis using True by (simp add: WebRtcSpl_Energy_def)
next
  case False
  let ?s = "WebRtcSpl_GetScalingSquare v n n"
  have s: "0 \<le> ?s" using GetScalingSquare_room(1) [OF assms(1,2) _ assms(3), of 0] False by simp
  have "0 \<le> shr (v ! i * v ! i) (nat ?s) \<and> int n * shr (v ! i * v ! i) (nat ?s) \<le> 2147483647" if "i < n" for i
    using GetScalingSquare_room(2) [OF assms(1,2) _ assms(3) that] False by simp
  then have b: "0 \<le> dot_ref v v (nat ?s) 0 n \<and> dot_ref v v (nat ?s) 0 n \<le> 2147483647"
    unfolding dot_ref_def by (intro sum_bounded_le [of n _ _ n]) auto
  have "WebRtcSpl_Energy v n = (s32 (dot_ref v v (nat ?s) 0 n), ?s)"
    by (simp add: WebRtcSpl_Energy_def Let_def fold_dot is_s32_def)
  then show ?thesis using b s by (simp add: s32_id is_s32_def dot_ref_def)
qed

lemma energy_exact_witness: "WebRtcSpl_Energy [32767, - 32767] 2 = (1073676288, 1)"
proof -
  have s: "WebRtcSpl_GetScalingSquare [32767, - 32767] 2 2 = 1"
    by code_simp
  obtain en sc where e: "WebRtcSpl_Energy [32767, - 32767] 2 = (en, sc)" by (rule prod.exhaust)
  then have "sc = 1" using s by (simp add: WebRtcSpl_Energy_def Let_def)
  have two: "(\<Sum>i = 0..<(2::nat). f i) = f 0 + f 1" for f :: "nat \<Rightarrow> int" by (simp add: numeral_2_eq_2)
  show ?thesis using energy_exact [of "[32767, - 32767]" 2] e \<open>sc = 1\<close>
    by (simp add: is_s16_def shr_def two)
qed

text \<open>With -32768 in the vector the scaling is too small and the sum of two squares wraps.\<close>

lemma energy_overflow: "WebRtcSpl_Energy [- 32768, - 32768] 2 = (- 2147483648, 0)"
  by code_simp

text \<open>
  \<open>DownsampleFast\<close> fails exactly when there is nothing to compute or the input is too
  short; otherwise it returns \<open>data_out_length\<close> samples, the one at \<open>k\<close> being the saturated,
  rounded value of the filter at input position \<open>delay + factor * k\<close>.
\<close>
theorem downsample_fast:
  assumes "0 < factor"
  shows "WebRtcSpl_DownsampleFastC d p data_in_length data_out_length c cl factor delay =
    (if data_out_length = 0 \<or> cl = 0 \<or> data_in_length \<le> delay + factor * (data_out_length - 1) then (- 1, [])
     else (0, map (\<lambda>k. downsample_sample d p c cl (delay + factor * k)) [0..<data_out_length]))"
proof (cases "data_out_length = 0 \<or> cl = 0 \<or> data_in_length \<le> delay + factor * (data_out_length - 1)")
  case True
  then show ?thesis by (auto simp: WebRtcSpl_DownsampleFastC_def Let_def)
next
  case False
  then show ?thesis using DownsampleFastC_eq [OF assms, of data_out_length cl delay data_in_length d p c] by simp
qed

lemma downsample_fast_witness:
  "WebRtcSpl_DownsampleFastC [1, 2, 3, 4, 5] 0 5 3 [4096] 1 2 0 = (0, [1, 3, 5])"
  using downsample_fast [of 2 "[1, 2, 3, 4, 5]" 0 5 3 "[4096]" 1 0]
  by (simp add: downsample_sample_def upt_rec numeral_eq_Suc s32_def shr_def clamp16_def)

end
