(* ===== verification/Spl_Fft.thy ===== *)
theory Spl_Fft
  imports Spl_Vector
begin

unbundle bit_operations_syntax

text \<open>
  The fixed-point Fourier transforms of the signal processing library: the re-ordering of
  \<^verbatim>\<open>complex_bit_reverse.c\<close>, the transforms of \<^verbatim>\<open>complex_fft.c\<close> (the generic C code, with the table
  of \<^verbatim>\<open>complex_fft_tables.h\<close>) and the wrappers of \<^verbatim>\<open>real_fft.c\<close>. A complex array is the C array:
  real and imaginary parts in turn.

  The lemmas show that the re-ordering puts every element at the position with its index
  reversed, whichever of the table and the loop is used, that every transform returns an array of
  16 bit values of the length it was given, and that the scaling an inverse transform reports is
  bounded by the number of its stages.
\<close>

section \<open>Bit reversal\<close>

definition index_7 :: "nat list" where
  "index_7 =
     [1, 64, 2, 32, 3, 96, 4, 16, 5, 80, 6, 48, 7, 112, 9, 72,
      10, 40, 11, 104, 12, 24, 13, 88, 14, 56, 15, 120, 17, 68, 18, 36,
      19, 100, 21, 84, 22, 52, 23, 116, 25, 76, 26, 44, 27, 108, 29, 92,
      30, 60, 31, 124, 33, 66, 35, 98, 37, 82, 38, 50, 39, 114, 41, 74,
      43, 106, 45, 90, 46, 58, 47, 122, 49, 70, 51, 102, 53, 86, 55, 118,
      57, 78, 59, 110, 61, 94, 63, 126, 67, 97, 69, 81, 71, 113, 75, 105,
      77, 89, 79, 121, 83, 101, 87, 117, 91, 109, 95, 125, 103, 115, 111, 123]"

definition index_8 :: "nat list" where
  "index_8 =
     [1, 128, 2, 64, 3, 192, 4, 32, 5, 160, 6, 96, 7, 224, 8, 16,
      9, 144, 10, 80, 11, 208, 12, 48, 13, 176, 14, 112, 15, 240, 17, 136,
      18, 72, 19, 200, 20, 40, 21, 168, 22, 104, 23, 232, 25, 152, 26, 88,
      27, 216, 28, 56, 29, 184, 30, 120, 31, 248, 33, 132, 34, 68, 35, 196,
      37, 164, 38, 100, 39, 228, 41, 148, 42, 84, 43, 212, 44, 52, 45, 180,
      46, 116, 47, 244, 49, 140, 50, 76, 51, 204, 53, 172, 54, 108, 55, 236,
      57, 156, 58, 92, 59, 220, 61, 188, 62, 124, 63, 252, 65, 130, 67, 194,
      69, 162, 70, 98, 71, 226, 73, 146, 74, 82, 75, 210, 77, 178, 78, 114,
      79, 242, 81, 138, 83, 202, 85, 170, 86, 106, 87, 234, 89, 154, 91, 218,
      93, 186, 94, 122, 95, 250, 97, 134, 99, 198, 101, 166, 103, 230, 105, 150,
      107, 214, 109, 182, 110, 118, 111, 246, 113, 142, 115, 206, 117, 174, 119, 238,
      121, 158, 123, 222, 125, 190, 127, 254, 131, 193, 133, 161, 135, 225, 137, 145,
      139, 209, 141, 177, 143, 241, 147, 201, 149, 169, 151, 233, 155, 217, 157, 185,
      159, 249, 163, 197, 167, 229, 171, 213, 173, 181, 175, 245, 179, 205, 183, 237,
      187, 221, 191, 253, 199, 227, 203, 211, 207, 243, 215, 235, 223, 251, 239, 247]"

text \<open>The exchange of the elements \<open>a\<close> and \<open>b\<close>, each of two 16 bit values.\<close>

definition swap_complex :: "'a list \<Rightarrow> nat \<Rightarrow> nat \<Rightarrow> 'a list" where
  "swap_complex data a b =
     (let temp0 = data ! (2 * a); temp1 = data ! (2 * a + 1);
          data = data[2 * a := data ! (2 * b), 2 * a + 1 := data ! (2 * b + 1)]
      in data[2 * b := temp0, 2 * b + 1 := temp1])"

text \<open>The loop that finds the next reversed index: \<^verbatim>\<open>do l >>= 1; while (l > nn - mr)\<close>.\<close>

function halve_until :: "nat \<Rightarrow> nat \<Rightarrow> nat" where
  "halve_until l bound = (let l = l div 2 in if l > bound then halve_until l bound else l)"
  by pat_completeness auto
termination by (relation "measure fst") auto

declare halve_until.simps [simp del]

text \<open>A complex index: only the positions are looked at, so the elements can be of any type.\<close>

definition WebRtcSpl_ComplexBitReverse :: "'a list \<Rightarrow> nat \<Rightarrow> 'a list" where
  "WebRtcSpl_ComplexBitReverse complex_data stages =
     (if stages = 7 \<or> stages = 8
      then let (len, index) = (if stages = 8 then (240, index_8) else (112, index_7))
           in fold (\<lambda>m data. swap_complex data (index ! m) (index ! (m + 1))) (upt_by 0 len 2) complex_data
      else let n = 2 ^ stages; nn = n - 1
           in fst (fold (\<lambda>m (data, mr).
                let l = halve_until n (nn - mr);
                    mr = (mr AND (l - 1)) + l
                in if mr \<le> m then (data, mr) else (swap_complex data m mr, mr)) [1..<nn + 1] (complex_data, 0)))"

section \<open>Transforms\<close>

definition kSinTable1024 :: "int list" where
  "kSinTable1024 =
     [0, 201, 402, 603, 804, 1005, 1206, 1406, 1607, 1808, 2009, 2209,
      2410, 2610, 2811, 3011, 3211, 3411, 3611, 3811, 4011, 4210, 4409, 4608,
      4807, 5006, 5205, 5403, 5601, 5799, 5997, 6195, 6392, 6589, 6786, 6982,
      7179, 7375, 7571, 7766, 7961, 8156, 8351, 8545, 8739, 8932, 9126, 9319,
      9511, 9703, 9895, 10087, 10278, 10469, 10659, 10849, 11038, 11227, 11416, 11604,
      11792, 11980, 12166, 12353, 12539, 12724, 12909, 13094, 13278, 13462, 13645, 13827,
      14009, 14191, 14372, 14552, 14732, 14911, 15090, 15268, 15446, 15623, 15799, 15975,
      16150, 16325, 16499, 16672, 16845, 17017, 17189, 17360, 17530, 17699, 17868, 18036,
      18204, 18371, 18537, 18702, 18867, 19031, 19194, 19357, 19519, 19680, 19840, 20000,
      20159, 20317, 20474, 20631, 20787, 20942, 21096, 21249, 21402, 21554, 21705, 21855,
      22004, 22153, 22301, 22448, 22594, 22739, 22883, 23027, 23169, 23311, 23452, 23592,
      23731, 23869, 24006, 24143, 24278, 24413, 24546, 24679, 24811, 24942, 25072, 25201,
      25329, 25456, 25582, 25707, 25831, 25954, 26077, 26198, 26318, 26437, 26556, 26673,
      26789, 26905, 27019, 27132, 27244, 27355, 27466, 27575, 27683, 27790, 27896, 28001,
      28105, 28208, 28309, 28410, 28510, 28608, 28706, 28802, 28897, 28992, 29085, 29177,
      29268, 29358, 29446, 29534, 29621, 29706, 29790, 29873, 29955, 30036, 30116, 30195,
      30272, 30349, 30424, 30498, 30571, 30643, 30713, 30783, 30851, 30918, 30984, 31049,
      31113, 31175, 31236, 31297, 31356, 31413, 31470, 31525, 31580, 31633, 31684, 31735,
      31785, 31833, 31880, 31926, 31970, 32014, 32056, 32097, 32137, 32176, 32213, 32249,
      32284, 32318, 32350, 32382, 32412, 32441, 32468, 32495, 32520, 32544, 32567, 32588,
      32609, 32628, 32646, 32662, 32678, 32692, 32705, 32717, 32727, 32736, 32744, 32751,
      32757, 32761, 32764, 32766, 32767, 32766, 32764, 32761, 32757, 32751, 32744, 32736,
      32727, 32717, 32705, 32692, 32678, 32662, 32646, 32628, 32609, 32588, 32567, 32544,
      32520, 32495, 32468, 32441, 32412, 32382, 32350, 32318, 32284, 32249, 32213, 32176,
      32137, 32097, 32056, 32014, 31970, 31926, 31880, 31833, 31785, 31735, 31684, 31633,
      31580, 31525, 31470, 31413, 31356, 31297, 31236, 31175, 31113, 31049, 30984, 30918,
      30851, 30783, 30713, 30643, 30571, 30498, 30424, 30349, 30272, 30195, 30116, 30036,
      29955, 29873, 29790, 29706, 29621, 29534, 29446, 29358, 29268, 29177, 29085, 28992,
      28897, 28802, 28706, 28608, 28510, 28410, 28309, 28208, 28105, 28001, 27896, 27790,
      27683, 27575, 27466, 27355, 27244, 27132, 27019, 26905, 26789, 26673, 26556, 26437,
      26318, 26198, 26077, 25954, 25831, 25707, 25582, 25456, 25329, 25201, 25072, 24942,
      24811, 24679, 24546, 24413, 24278, 24143, 24006, 23869, 23731, 23592, 23452, 23311,
      23169, 23027, 22883, 22739, 22594, 22448, 22301, 22153, 22004, 21855, 21705, 21554,
      21402, 21249, 21096, 20942, 20787, 20631, 20474, 20317, 20159, 20000, 19840, 19680,
      19519, 19357, 19194, 19031, 18867, 18702, 18537, 18371, 18204, 18036, 17868, 17699,
      17530, 17360, 17189, 17017, 16845, 16672, 16499, 16325, 16150, 15975, 15799, 15623,
      15446, 15268, 15090, 14911, 14732, 14552, 14372, 14191, 14009, 13827, 13645, 13462,
      13278, 13094, 12909, 12724, 12539, 12353, 12166, 11980, 11792, 11604, 11416, 11227,
      11038, 10849, 10659, 10469, 10278, 10087, 9895, 9703, 9511, 9319, 9126, 8932,
      8739, 8545, 8351, 8156, 7961, 7766, 7571, 7375, 7179, 6982, 6786, 6589,
      6392, 6195, 5997, 5799, 5601, 5403, 5205, 5006, 4807, 4608, 4409, 4210,
      4011, 3811, 3611, 3411, 3211, 3011, 2811, 2610, 2410, 2209, 2009, 1808,
      1607, 1406, 1206, 1005, 804, 603, 402, 201, 0, - 201, - 402, - 603,
      - 804, - 1005, - 1206, - 1406, - 1607, - 1808, - 2009, - 2209, - 2410, - 2610, - 2811, - 3011,
      - 3211, - 3411, - 3611, - 3811, - 4011, - 4210, - 4409, - 4608, - 4807, - 5006, - 5205, - 5403,
      - 5601, - 5799, - 5997, - 6195, - 6392, - 6589, - 6786, - 6982, - 7179, - 7375, - 7571, - 7766,
      - 7961, - 8156, - 8351, - 8545, - 8739, - 8932, - 9126, - 9319, - 9511, - 9703, - 9895, - 10087,
      - 10278, - 10469, - 10659, - 10849, - 11038, - 11227, - 11416, - 11604, - 11792, - 11980, - 12166, - 12353,
      - 12539, - 12724, - 12909, - 13094, - 13278, - 13462, - 13645, - 13827, - 14009, - 14191, - 14372, - 14552,
      - 14732, - 14911, - 15090, - 15268, - 15446, - 15623, - 15799, - 15975, - 16150, - 16325, - 16499, - 16672,
      - 16845, - 17017, - 17189, - 17360, - 17530, - 17699, - 17868, - 18036, - 18204, - 18371, - 18537, - 18702,
      - 18867, - 19031, - 19194, - 19357, - 19519, - 19680, - 19840, - 20000, - 20159, - 20317, - 20474, - 20631,
      - 20787, - 20942, - 21096, - 21249, - 21402, - 21554, - 21705, - 21855, - 22004, - 22153, - 22301, - 22448,
      - 22594, - 22739, - 22883, - 23027, - 23169, - 23311, - 23452, - 23592, - 23731, - 23869, - 24006, - 24143,
      - 24278, - 24413, - 24546, - 24679, - 24811, - 24942, - 25072, - 25201, - 25329, - 25456, - 25582, - 25707,
      - 25831, - 25954, - 26077, - 26198, - 26318, - 26437, - 26556, - 26673, - 26789, - 26905, - 27019, - 27132,
      - 27244, - 27355, - 27466, - 27575, - 27683, - 27790, - 27896, - 28001, - 28105, - 28208, - 28309, - 28410,
      - 28510, - 28608, - 28706, - 28802, - 28897, - 28992, - 29085, - 29177, - 29268, - 29358, - 29446, - 29534,
      - 29621, - 29706, - 29790, - 29873, - 29955, - 30036, - 30116, - 30195, - 30272, - 30349, - 30424, - 30498,
      - 30571, - 30643, - 30713, - 30783, - 30851, - 30918, - 30984, - 31049, - 31113, - 31175, - 31236, - 31297,
      - 31356, - 31413, - 31470, - 31525, - 31580, - 31633, - 31684, - 31735, - 31785, - 31833, - 31880, - 31926,
      - 31970, - 32014, - 32056, - 32097, - 32137, - 32176, - 32213, - 32249, - 32284, - 32318, - 32350, - 32382,
      - 32412, - 32441, - 32468, - 32495, - 32520, - 32544, - 32567, - 32588, - 32609, - 32628, - 32646, - 32662,
      - 32678, - 32692, - 32705, - 32717, - 32727, - 32736, - 32744, - 32751, - 32757, - 32761, - 32764, - 32766,
      - 32767, - 32766, - 32764, - 32761, - 32757, - 32751, - 32744, - 32736, - 32727, - 32717, - 32705, - 32692,
      - 32678, - 32662, - 32646, - 32628, - 32609, - 32588, - 32567, - 32544, - 32520, - 32495, - 32468, - 32441,
      - 32412, - 32382, - 32350, - 32318, - 32284, - 32249, - 32213, - 32176, - 32137, - 32097, - 32056, - 32014,
      - 31970, - 31926, - 31880, - 31833, - 31785, - 31735, - 31684, - 31633, - 31580, - 31525, - 31470, - 31413,
      - 31356, - 31297, - 31236, - 31175, - 31113, - 31049, - 30984, - 30918, - 30851, - 30783, - 30713, - 30643,
      - 30571, - 30498, - 30424, - 30349, - 30272, - 30195, - 30116, - 30036, - 29955, - 29873, - 29790, - 29706,
      - 29621, - 29534, - 29446, - 29358, - 29268, - 29177, - 29085, - 28992, - 28897, - 28802, - 28706, - 28608,
      - 28510, - 28410, - 28309, - 28208, - 28105, - 28001, - 27896, - 27790, - 27683, - 27575, - 27466, - 27355,
      - 27244, - 27132, - 27019, - 26905, - 26789, - 26673, - 26556, - 26437, - 26318, - 26198, - 26077, - 25954,
      - 25831, - 25707, - 25582, - 25456, - 25329, - 25201, - 25072, - 24942, - 24811, - 24679, - 24546, - 24413,
      - 24278, - 24143, - 24006, - 23869, - 23731, - 23592, - 23452, - 23311, - 23169, - 23027, - 22883, - 22739,
      - 22594, - 22448, - 22301, - 22153, - 22004, - 21855, - 21705, - 21554, - 21402, - 21249, - 21096, - 20942,
      - 20787, - 20631, - 20474, - 20317, - 20159, - 20000, - 19840, - 19680, - 19519, - 19357, - 19194, - 19031,
      - 18867, - 18702, - 18537, - 18371, - 18204, - 18036, - 17868, - 17699, - 17530, - 17360, - 17189, - 17017,
      - 16845, - 16672, - 16499, - 16325, - 16150, - 15975, - 15799, - 15623, - 15446, - 15268, - 15090, - 14911,
      - 14732, - 14552, - 14372, - 14191, - 14009, - 13827, - 13645, - 13462, - 13278, - 13094, - 12909, - 12724,
      - 12539, - 12353, - 12166, - 11980, - 11792, - 11604, - 11416, - 11227, - 11038, - 10849, - 10659, - 10469,
      - 10278, - 10087, - 9895, - 9703, - 9511, - 9319, - 9126, - 8932, - 8739, - 8545, - 8351, - 8156,
      - 7961, - 7766, - 7571, - 7375, - 7179, - 6982, - 6786, - 6589, - 6392, - 6195, - 5997, - 5799,
      - 5601, - 5403, - 5205, - 5006, - 4807, - 4608, - 4409, - 4210, - 4011, - 3811, - 3611, - 3411,
      - 3211, - 3011, - 2811, - 2610, - 2410, - 2209, - 2009, - 1808, - 1607, - 1406, - 1206, - 1005,
      - 804, - 603, - 402, - 201]"

text \<open>One butterfly of the forward transform, on the elements \<open>i\<close> and \<open>j\<close>.\<close>

definition fft_butterfly :: "int \<Rightarrow> int \<Rightarrow> int \<Rightarrow> nat \<Rightarrow> nat \<Rightarrow> int list \<Rightarrow> int list" where
  "fft_butterfly mode wr wi i j frfi =
     (if mode = 0
      then let tr32 = shr (s32 (wr * frfi ! (2 * j) - wi * frfi ! (2 * j + 1))) 15;
               ti32 = shr (s32 (wr * frfi ! (2 * j + 1) + wi * frfi ! (2 * j))) 15;
               qr32 = frfi ! (2 * i);
               qi32 = frfi ! (2 * i + 1)
           in frfi[2 * j := s16 (shr (s32 (qr32 - tr32)) 1), 2 * j + 1 := s16 (shr (s32 (qi32 - ti32)) 1),
                   2 * i := s16 (shr (s32 (qr32 + tr32)) 1), 2 * i + 1 := s16 (shr (s32 (qi32 + ti32)) 1)]
      else let tr32 = shr (s32 (wr * frfi ! (2 * j) - wi * frfi ! (2 * j + 1) + 1)) 1;
               ti32 = shr (s32 (wr * frfi ! (2 * j + 1) + wi * frfi ! (2 * j) + 1)) 1;
               qr32 = s32 (shl (frfi ! (2 * i)) 14);
               qi32 = s32 (shl (frfi ! (2 * i + 1)) 14)
           in frfi[2 * j := s16 (shr (s32 (qr32 - tr32 + 16384)) 15),
                   2 * j + 1 := s16 (shr (s32 (qi32 - ti32 + 16384)) 15),
                   2 * i := s16 (shr (s32 (qr32 + tr32 + 16384)) 15),
                   2 * i + 1 := s16 (shr (s32 (qi32 + ti32 + 16384)) 15)])"

definition fft_stage :: "int \<Rightarrow> nat \<Rightarrow> nat \<Rightarrow> nat \<Rightarrow> int list \<Rightarrow> int list" where
  "fft_stage mode n l k frfi =
     (let istep = 2 * l
      in fold (\<lambda>m frfi.
           let j = m * 2 ^ k;
               wr = kSinTable1024 ! (j + 256);
               wi = s16 (- (kSinTable1024 ! j))
           in fold (\<lambda>i frfi. fft_butterfly mode wr wi i (i + l) frfi) (upt_by m n istep) frfi) [0..<l] frfi)"

function fft_loop :: "int \<Rightarrow> nat \<Rightarrow> nat \<Rightarrow> nat \<Rightarrow> int list \<Rightarrow> int list" where
  "fft_loop mode n l k frfi =
     (if 0 < l \<and> l < n then fft_loop mode n (2 * l) (k - 1) (fft_stage mode n l k frfi) else frfi)"
  by pat_completeness auto
termination by (relation "measure (\<lambda>(mode, n, l, k, frfi). n - l)") auto

declare fft_loop.simps [simp del]

definition WebRtcSpl_ComplexFFT :: "int list \<Rightarrow> nat \<Rightarrow> int \<Rightarrow> int \<times> int list" where
  "WebRtcSpl_ComplexFFT frfi stages mode =
     (let n = 2 ^ stages
      in if n > 1024 then (- 1, frfi) else (0, fft_loop mode n 1 (10 - 1) frfi))"

text \<open>
  The inverse transform chooses the shift of each stage from the largest value in the array. The
  rounding constant is only used in the high accuracy mode.
\<close>

definition ifft_butterfly :: "int \<Rightarrow> nat \<Rightarrow> int \<Rightarrow> int \<Rightarrow> int \<Rightarrow> nat \<Rightarrow> nat \<Rightarrow> int list \<Rightarrow> int list" where
  "ifft_butterfly mode shift round2 wr wi i j frfi =
     (if mode = 0
      then let tr32 = shr (s32 (wr * frfi ! (2 * j) - wi * frfi ! (2 * j + 1))) 15;
               ti32 = shr (s32 (wr * frfi ! (2 * j + 1) + wi * frfi ! (2 * j))) 15;
               qr32 = frfi ! (2 * i);
               qi32 = frfi ! (2 * i + 1)
           in frfi[2 * j := s16 (shr (s32 (qr32 - tr32)) shift), 2 * j + 1 := s16 (shr (s32 (qi32 - ti32)) shift),
                   2 * i := s16 (shr (s32 (qr32 + tr32)) shift), 2 * i + 1 := s16 (shr (s32 (qi32 + ti32)) shift)]
      else let tr32 = shr (s32 (wr * frfi ! (2 * j) - wi * frfi ! (2 * j + 1) + 1)) 1;
               ti32 = shr (s32 (wr * frfi ! (2 * j + 1) + wi * frfi ! (2 * j) + 1)) 1;
               qr32 = s32 (shl (frfi ! (2 * i)) 14);
               qi32 = s32 (shl (frfi ! (2 * i + 1)) 14)
           in frfi[2 * j := s16 (shr (s32 (qr32 - tr32 + round2)) (shift + 14)),
                   2 * j + 1 := s16 (shr (s32 (qi32 - ti32 + round2)) (shift + 14)),
                   2 * i := s16 (shr (s32 (qr32 + tr32 + round2)) (shift + 14)),
                   2 * i + 1 := s16 (shr (s32 (qi32 + ti32 + round2)) (shift + 14))])"

definition ifft_stage :: "int \<Rightarrow> nat \<Rightarrow> nat \<Rightarrow> nat \<Rightarrow> nat \<Rightarrow> int \<Rightarrow> int list \<Rightarrow> int list" where
  "ifft_stage mode n l k shift round2 frfi =
     (let istep = 2 * l
      in fold (\<lambda>m frfi.
           let j = m * 2 ^ k;
               wr = kSinTable1024 ! (j + 256);
               wi = kSinTable1024 ! j
           in fold (\<lambda>i frfi. ifft_butterfly mode shift round2 wr wi i (i + l) frfi) (upt_by m n istep) frfi) [0..<l] frfi)"

definition ifft_shift :: "nat \<Rightarrow> int list \<Rightarrow> nat \<times> int" where
  "ifft_shift n frfi =
     (let tmp32 = WebRtcSpl_MaxAbsValueW16C frfi (2 * n);
          (shift, round2) = (0, 8192);
          (shift, round2) = (if tmp32 > 13573 then (shift + 1, round2 * 2) else (shift, round2))
      in if tmp32 > 27146 then (shift + 1, round2 * 2) else (shift, round2))"

function ifft_loop :: "int \<Rightarrow> nat \<Rightarrow> nat \<Rightarrow> nat \<Rightarrow> nat \<Rightarrow> int list \<Rightarrow> nat \<times> int list" where
  "ifft_loop mode n l k scale frfi =
     (if 0 < l \<and> l < n
      then let (shift, round2) = ifft_shift n frfi
           in ifft_loop mode n (2 * l) (k - 1) (scale + shift) (ifft_stage mode n l k shift round2 frfi)
      else (scale, frfi))"
  by pat_completeness auto
termination by (relation "measure (\<lambda>(mode, n, l, k, scale, frfi). n - l)") auto

declare ifft_loop.simps [simp del]

definition WebRtcSpl_ComplexIFFT :: "int list \<Rightarrow> nat \<Rightarrow> int \<Rightarrow> int \<times> int list" where
  "WebRtcSpl_ComplexIFFT frfi stages mode =
     (let n = 2 ^ stages
      in if n > 1024 then (- 1, frfi)
         else let (scale, frfi) = ifft_loop mode n 1 (10 - 1) 0 frfi in (int scale, frfi))"

section \<open>Real transforms\<close>

record RealFFT =
  order :: nat

definition kMaxFFTOrder :: int where
  "kMaxFFTOrder = 10"

text \<open>\<open>m\<close> says whether \<^verbatim>\<open>malloc\<close> succeeds.\<close>

definition WebRtcSpl_CreateRealFFT :: "bool \<Rightarrow> int \<Rightarrow> RealFFT option" where
  "WebRtcSpl_CreateRealFFT m ord =
     (if ord > kMaxFFTOrder \<or> ord < 0 then None else if \<not> m then None else Some \<lparr>order = nat ord\<rparr>)"

text \<open>
  The buffer of the forward transform is local and has room for the largest order; only its first
  \<open>2 * n\<close> values are used, which is what is kept here.
\<close>

definition WebRtcSpl_RealForwardFFT :: "RealFFT \<Rightarrow> int list \<Rightarrow> int \<times> int list" where
  "WebRtcSpl_RealForwardFFT self real_data_in =
     (let n = 2 ^ order self;
          complex_buffer = concat (map (\<lambda>i. [real_data_in ! i, 0]) [0..<n]);
          complex_buffer = WebRtcSpl_ComplexBitReverse complex_buffer (order self);
          (result, complex_buffer) = WebRtcSpl_ComplexFFT complex_buffer (order self) 1
      in (result, take (n + 2) complex_buffer))"

definition WebRtcSpl_RealInverseFFT :: "RealFFT \<Rightarrow> int list \<Rightarrow> int \<times> int list" where
  "WebRtcSpl_RealInverseFFT self complex_data_in =
     (let n = 2 ^ order self;
          complex_buffer = take (n + 2) complex_data_in @
            concat (map (\<lambda>i. [complex_data_in ! (2 * n - i), s16 (- (complex_data_in ! (2 * n - i + 1)))])
              (upt_by (n + 2) (2 * n) 2));
          complex_buffer = WebRtcSpl_ComplexBitReverse complex_buffer (order self);
          (result, complex_buffer) = WebRtcSpl_ComplexIFFT complex_buffer (order self) 1
      in (result, map (\<lambda>i. complex_buffer ! (2 * i)) [0..<n]))"

section \<open>Arrays keep their length and their type\<close>

lemma length_swap [len_simps]: "length (swap_complex data a b) = length data"
  by (simp add: swap_complex_def Let_def)

lemma length_fft_butterfly [len_simps]: "length (fft_butterfly mode wr wi i j frfi) = length frfi"
  by (simp add: fft_butterfly_def Let_def)

lemma length_ifft_butterfly [len_simps]: "length (ifft_butterfly mode sh r wr wi i j frfi) = length frfi"
  by (simp add: ifft_butterfly_def Let_def)

lemma length_fft_stage [len_simps]: "length (fft_stage mode n l k frfi) = length frfi"
  by (simp add: fft_stage_def Let_def len_simps)

lemma length_ifft_stage [len_simps]: "length (ifft_stage mode n l k sh r frfi) = length frfi"
  by (simp add: ifft_stage_def Let_def len_simps)

lemma length_fft_loop [len_simps]: "length (fft_loop mode n l k frfi) = length frfi"
  by (induction mode n l k frfi rule: fft_loop.induct) (subst fft_loop.simps, simp add: len_simps)

lemma length_ifft_loop [len_simps]: "length (snd (ifft_loop mode n l k scale frfi)) = length frfi"
proof (induction mode n l k scale frfi rule: ifft_loop.induct)
  case (1 mode n l k scale frfi)
  then show ?case
    by (subst ifft_loop.simps) (auto simp: len_simps split: prod.splits)
qed

lemma s16_fft_butterfly: "list_all is_s16 frfi \<Longrightarrow> list_all is_s16 (fft_butterfly mode wr wi i j frfi)"
  by (simp add: fft_butterfly_def Let_def list_all_update)

lemma s16_ifft_butterfly: "list_all is_s16 frfi \<Longrightarrow> list_all is_s16 (ifft_butterfly mode sh r wr wi i j frfi)"
  by (simp add: ifft_butterfly_def Let_def list_all_update)

lemma s16_fft_stage: "list_all is_s16 frfi \<Longrightarrow> list_all is_s16 (fft_stage mode n l k frfi)"
  unfolding fft_stage_def Let_def by (intro fold_keeps [where P = "list_all is_s16"] s16_fft_butterfly)

lemma s16_ifft_stage: "list_all is_s16 frfi \<Longrightarrow> list_all is_s16 (ifft_stage mode n l k sh r frfi)"
  unfolding ifft_stage_def Let_def by (intro fold_keeps [where P = "list_all is_s16"] s16_ifft_butterfly)

lemma s16_fft_loop: "list_all is_s16 frfi \<Longrightarrow> list_all is_s16 (fft_loop mode n l k frfi)"
  by (induction mode n l k frfi rule: fft_loop.induct) (subst fft_loop.simps, simp add: s16_fft_stage)

lemma s16_ifft_loop: "list_all is_s16 frfi \<Longrightarrow> list_all is_s16 (snd (ifft_loop mode n l k scale frfi))"
proof (induction mode n l k scale frfi rule: ifft_loop.induct)
  case (1 mode n l k scale frfi)
  then show ?case
    by (subst ifft_loop.simps) (auto simp: s16_ifft_stage split: prod.splits)
qed

lemma ifft_shift_le: "fst (ifft_shift n frfi) \<le> 2"
  by (simp add: ifft_shift_def Let_def split: if_splits)

lemma ifft_scale_le: "0 < l \<Longrightarrow> n \<le> l * 2 ^ r \<Longrightarrow> fst (ifft_loop mode n l k scale frfi) \<le> scale + 2 * r"
proof (induction mode n l k scale frfi arbitrary: r rule: ifft_loop.induct)
  case (1 mode n l k scale frfi)
  obtain shift round2 where s: "ifft_shift n frfi = (shift, round2)" by (rule prod.exhaust)
  show ?case
  proof (cases "l < n")
    case True
    then obtain r' where r: "r = Suc r'" using "1.prems" by (cases r) auto
    have "fst (ifft_loop mode n (2 * l) (k - 1) (scale + shift) (ifft_stage mode n l k shift round2 frfi)) \<le> scale + shift + 2 * r'"
      using "1.IH" [OF _ s [symmetric] refl, of r'] True "1.prems" r by (simp add: mult.commute mult.left_commute)
    moreover have "shift \<le> 2" using ifft_shift_le [of n frfi] s by simp
    ultimately show ?thesis using True "1.prems" s r by (subst ifft_loop.simps) simp
  next
    case False
    then show ?thesis by (subst ifft_loop.simps) simp
  qed
qed

section \<open>Bit reversal: meaning\<close>

fun rev_bits :: "nat \<Rightarrow> nat \<Rightarrow> nat" where
  "rev_bits 0 k = 0"
| "rev_bits (Suc s) k = (k mod 2) * 2 ^ s + rev_bits s (k div 2)"

definition bit_reversed :: "nat \<Rightarrow> 'a list \<Rightarrow> 'a list" where
  "bit_reversed s data = concat (map (\<lambda>k. [data ! (2 * rev_bits s k), data ! (2 * rev_bits s k + 1)]) [0..<2 ^ s])"

lemma rev_bits_less: "rev_bits s k < 2 ^ s"
proof (induction s arbitrary: k)
  case (Suc s)
  have "k mod 2 = 0 \<or> k mod 2 = 1" by auto
  then show ?case using Suc [of "k div 2"] by auto
qed simp

lemma rev_bits_0: "rev_bits s 0 = 0"
  by (induction s) auto

text \<open>The \<open>k\<close>-th complex element, and what an exchange does to it.\<close>

definition celem :: "'a list \<Rightarrow> nat \<Rightarrow> 'a \<times> 'a" where
  "celem data k = (data ! (2 * k), data ! (2 * k + 1))"

lemma celem_swap:
  assumes "a \<noteq> b" and "2 * a + 1 < length data" and "2 * b + 1 < length data" and "2 * k + 1 < length data"
  shows "celem (swap_complex data a b) k = celem data (if k = a then b else if k = b then a else k)"
proof -
  have "2 * a \<noteq> 2 * b + 1" "2 * a + 1 \<noteq> 2 * b" "2 * k \<noteq> 2 * a + 1" "2 * k \<noteq> 2 * b + 1" "2 * k + 1 \<noteq> 2 * a"
    "2 * k + 1 \<noteq> 2 * b" by presburger+
  then show ?thesis using assms by (simp add: celem_def swap_complex_def Let_def nth_list_update)
qed

text \<open>All re-orderings are this one: each pair is exchanged once, from its smaller index.\<close>

definition rev_swaps :: "nat \<Rightarrow> nat list \<Rightarrow> 'a list \<Rightarrow> 'a list" where
  "rev_swaps s ms data = fold (\<lambda>m data. if m < rev_bits s m then swap_complex data m (rev_bits s m) else data) ms data"

lemma length_rev_swaps [len_simps]: "length (rev_swaps s ms data) = length data"
  unfolding rev_swaps_def by (rule fold_length) (simp add: len_simps)

lemma rev_bits_split: "k < 2 ^ s \<Longrightarrow> rev_bits (Suc s) (c * 2 ^ s + k) = 2 * rev_bits s k + c mod 2"
proof (induction s arbitrary: k)
  case (Suc s)
  have "c * 2 ^ Suc s + k = 2 * (c * 2 ^ s) + k" by simp
  then have d: "(c * 2 ^ Suc s + k) div 2 = c * 2 ^ s + k div 2" and m: "(c * 2 ^ Suc s + k) mod 2 = k mod 2"
    by presburger+
  have "k div 2 < 2 ^ s" using Suc.prems by simp
  from Suc.IH [OF this] show ?case
    using d m by (simp only: rev_bits.simps(2) [of "Suc s"] rev_bits.simps(2) [of s k]) (simp add: algebra_simps)
qed simp

lemma rev_bits_rev: "k < 2 ^ s \<Longrightarrow> rev_bits s (rev_bits s k) = k"
proof (induction s arbitrary: k)
  case (Suc s)
  have "k div 2 < 2 ^ s" using Suc.prems by simp
  then have IH: "rev_bits s (rev_bits s (k div 2)) = k div 2" by (rule Suc.IH)
  have "rev_bits (Suc s) (rev_bits (Suc s) k) = 2 * (k div 2) + k mod 2 mod 2"
    using rev_bits_split [OF rev_bits_less [of s "k div 2"], of "k mod 2"] IH by simp
  then show ?case by simp
qed simp

lemma rev_swaps_spec:
  assumes "length data = 2 * 2 ^ s" and "t \<le> 2 ^ s" and "0 < t" and "k < 2 ^ s"
  shows "celem (rev_swaps s [1..<t] data) k = celem data (if min k (rev_bits s k) < t then rev_bits s k else k)"
  using assms(2,3,4)
proof (induction t arbitrary: k)
  case (Suc t)
  let ?d = "rev_swaps s [1..<t] data" and ?r = "rev_bits s"
  show ?case
  proof (cases "t = 0")
    case True
    have "?r k = k" if "min k (?r k) = 0"
      using that rev_bits_rev [OF Suc.prems(3)] by (auto simp: min_def rev_bits_0 split: if_splits)
    then have "(if min k (?r k) < Suc t then ?r k else k) = k" using True by simp
    then show ?thesis using True by (simp only: rev_swaps_def) simp
  next
    case False
    then have IH: "celem ?d j = celem data (if min j (?r j) < t then ?r j else j)" if "j < 2 ^ s" for j
      using Suc.IH [OF _ _ that] Suc.prems(1) by simp
    have t: "t < 2 ^ s" "?r t < 2 ^ s" using Suc.prems(1) rev_bits_less by auto
    have e: "rev_swaps s [1..<Suc t] data = (if t < ?r t then swap_complex ?d t (?r t) else ?d)"
      using False by (simp add: rev_swaps_def)
    have inv: "?r (?r k) = k" "?r (?r t) = t" using rev_bits_rev Suc.prems(3) t by auto
    show ?thesis
    proof (cases "t < ?r t")
      case True
      have "celem (swap_complex ?d t (?r t)) k = celem ?d (if k = t then ?r t else if k = ?r t then t else k)"
        using True t Suc.prems(3) assms(1) by (intro celem_swap) (auto simp: len_simps)
      then show ?thesis unfolding e using True IH t inv Suc.prems(3)
        by (auto simp: min_def less_Suc_eq split: if_splits)
    next
      case False
      have "celem data (if min k (?r k) < Suc t then ?r k else k) = celem data (if min k (?r k) < t then ?r k else k)"
        using False inv by (auto simp: min_def less_Suc_eq split: if_splits)
      then show ?thesis unfolding e using False IH Suc.prems(3) by simp
    qed
  qed
qed simp

lemma list_eq_celem:
  assumes "length xs = 2 * n" "length ys = 2 * n" "\<And>k. k < n \<Longrightarrow> celem xs k = celem ys k"
  shows "xs = ys"
proof (rule nth_equalityI)
  fix i assume "i < length xs"
  then have "i div 2 < n" using assms(1) by simp
  from assms(3) [OF this] show "xs ! i = ys ! i"
    unfolding celem_def by (cases "even i") (auto elim!: evenE oddE)
qed (simp add: assms)

lemma nth_bit_reversed:
  assumes "k < 2 ^ s"
  shows "length (bit_reversed s data) = 2 * 2 ^ s" "celem (bit_reversed s data) k = celem data (rev_bits s k)"
proof -
  have l: "length (concat (map (\<lambda>k. [f k, g k]) [0..<m])) = 2 * m" for f g :: "nat \<Rightarrow> 'a" and m
    by (induction m) auto
  have n: "celem (concat (map (\<lambda>k. [f k, g k]) [0..<m])) j = (f j, g j)" if "j < m" for f g :: "nat \<Rightarrow> 'a" and m j
    using that
  proof (induction m)
    case (Suc m)
    then show ?case using l [of f g m] by (auto simp: celem_def nth_append less_Suc_eq)
  qed simp
  show "length (bit_reversed s data) = 2 * 2 ^ s" unfolding bit_reversed_def by (rule l)
  show "celem (bit_reversed s data) k = celem data (rev_bits s k)"
    unfolding bit_reversed_def n [OF assms] by (simp add: celem_def)
qed

lemma rev_swaps_eq:
  assumes "length data = 2 * 2 ^ s"
  shows "rev_swaps s [1..<2 ^ s] data = bit_reversed s data"
proof (rule list_eq_celem)
  fix k :: nat assume k: "k < 2 ^ s"
  then show "celem (rev_swaps s [1..<2 ^ s] data) k = celem (bit_reversed s data) k"
    using rev_swaps_spec [OF assms order_refl _ k] rev_bits_less [of s k] nth_bit_reversed(2) [OF k, of data]
    by (simp add: min_less_iff_disj)
qed (use assms nth_bit_reversed(1) [of 0 s] in \<open>simp_all add: len_simps\<close>)

text \<open>The loop counts in reversed binary.\<close>

lemma nat_and_mask: "(m :: nat) AND (2 ^ q - 1) = m mod 2 ^ q"
  using take_bit_eq_mask [of q m] by (simp add: mask_eq_exp_minus_1 take_bit_eq_mod)

lemma halve_until_next:
  assumes "k + 1 < 2 ^ s"
  shows "\<exists>q < s. halve_until (2 ^ s) (2 ^ s - 1 - rev_bits s k) = 2 ^ q \<and>
    rev_bits s k mod 2 ^ q + 2 ^ q = rev_bits s (k + 1)"
  using assms
proof (induction s arbitrary: k)
  case (Suc s)
  let ?r = "rev_bits s (k div 2)"
  have r: "?r < 2 ^ s" by (rule rev_bits_less)
  show ?case
  proof (cases "even k")
    case True
    then have "rev_bits (Suc s) k = ?r" "rev_bits (Suc s) (k + 1) = 2 ^ s + ?r" by (auto elim!: evenE)
    moreover have "halve_until (2 ^ Suc s) (2 ^ Suc s - 1 - ?r) = 2 ^ s"
    proof -
      have "\<not> 2 ^ s > 2 ^ Suc s - 1 - ?r" "2 ^ Suc s div 2 = (2 ^ s :: nat)" using r by simp_all
      then show ?thesis by (subst halve_until.simps) (simp only: Let_def if_False)
    qed
    ultimately show ?thesis using r by (intro exI [of _ s]) simp
  next
    case False
    then have k: "k mod 2 = 1" "(k + 1) mod 2 = 0" "(k + 1) div 2 = k div 2 + 1" by presburger+
    then have "k div 2 + 1 < 2 ^ s" using Suc.prems by simp
    from Suc.IH [OF this] obtain q where q: "q < s" "halve_until (2 ^ s) (2 ^ s - 1 - ?r) = 2 ^ q"
      "?r mod 2 ^ q + 2 ^ q = rev_bits s (k div 2 + 1)" by blast
    have R: "rev_bits (Suc s) k = 2 ^ s + ?r" "rev_bits (Suc s) (k + 1) = rev_bits s (k div 2 + 1)" using k by simp_all
    have "halve_until (2 ^ Suc s) (2 ^ Suc s - 1 - (2 ^ s + ?r)) = halve_until (2 ^ s) (2 ^ s - 1 - ?r)"
    proof -
      have b: "2 ^ Suc s - 1 - (2 ^ s + ?r) = 2 ^ s - 1 - ?r" "2 ^ Suc s div 2 = (2 ^ s :: nat)" "2 ^ s - 1 - ?r < 2 ^ s" by simp_all
      show ?thesis unfolding b(1) by (subst halve_until.simps) (use b in \<open>simp add: Let_def\<close>)
    qed
    moreover have "(2 ^ s + ?r) mod 2 ^ q = ?r mod 2 ^ q"
    proof -
      have "(2 ^ s :: nat) = 2 ^ q * 2 ^ (s - q)" using q(1) by (simp flip: power_add)
      then show ?thesis by simp
    qed
    ultimately show ?thesis using q R by (intro exI [of _ q]) simp
  qed
qed simp

lemma generic_loop:
  assumes "t < 2 ^ s"
  shows "fold (\<lambda>m (data, mr).
                let l = halve_until (2 ^ s) (2 ^ s - 1 - mr);
                    mr = (mr AND (l - 1)) + l
                in if mr \<le> m then (data, mr) else (swap_complex data m mr, mr)) [1..<t + 1] (data, 0)
    = (rev_swaps s [1..<t + 1] data, rev_bits s t)"
  using assms
proof (induction t)
  case 0
  then show ?case by (simp add: rev_bits_0 rev_swaps_def)
next
  case (Suc t)
  obtain q where q: "halve_until (2 ^ s) (2 ^ s - 1 - rev_bits s t) = 2 ^ q"
    "rev_bits s t mod 2 ^ q + 2 ^ q = rev_bits s (t + 1)" using halve_until_next [of t s] Suc.prems by auto
  have IH: "fold (\<lambda>m (data, mr).
                let l = halve_until (2 ^ s) (2 ^ s - 1 - mr);
                    mr = (mr AND (l - 1)) + l
                in if mr \<le> m then (data, mr) else (swap_complex data m mr, mr)) [1..<t + 1] (data, 0)
    = (rev_swaps s [1..<t + 1] data, rev_bits s t)" using Suc by simp
  have u: "[1..<Suc t + 1] = [1..<t + 1] @ [Suc t]" by simp
  have sw: "rev_swaps s ([1..<t + 1] @ [Suc t]) data =
      (if rev_bits s (Suc t) \<le> Suc t then rev_swaps s [1..<t + 1] data
       else swap_complex (rev_swaps s [1..<t + 1] data) (Suc t) (rev_bits s (Suc t)))"
    by (simp add: rev_swaps_def not_less)
  have q': "rev_bits s t mod 2 ^ q + 2 ^ q = rev_bits s (Suc t)" using q(2) by simp
  show ?case unfolding u fold_append comp_apply IH sw
    by (simp only: fold.simps id_apply comp_apply prod.case Let_def q(1) nat_and_mask q') simp
qed

lemma concat_pairs:
  "length (concat (map (\<lambda>x. [f x, g x]) xs)) = 2 * length xs"
  "j < length xs \<Longrightarrow> celem (concat (map (\<lambda>x. [f x, g x]) xs)) j = (f (xs ! j), g (xs ! j))"
proof -
  show l: "length (concat (map (\<lambda>x. [f x, g x]) xs)) = 2 * length xs" by (induction xs) auto
  show "celem (concat (map (\<lambda>x. [f x, g x]) xs)) j = (f (xs ! j), g (xs ! j))" if "j < length xs"
    using that
  proof (induction xs arbitrary: j)
    case (Cons x xs)
    then show ?case by (cases j) (simp_all add: celem_def)
  qed simp
qed

lemma upt_by_2: "upt_by (2 * a) (2 * (a + n)) 2 = map (\<lambda>i. 2 * i) [a..<a + n]"
proof (induction n arbitrary: a)
  case 0
  then show ?case by (simp add: upt_by.simps)
next
  case (Suc n)
  then show ?case using Suc [of "Suc a"] by (subst upt_by.simps) (simp add: upt_conv_Cons)
qed

lemma table_pairs_if:
  assumes "index = concat (map (\<lambda>m. [m, r m]) ms)"
  shows "map (\<lambda>m. (index ! m, index ! (m + 1))) (upt_by 0 (length index) 2) = map (\<lambda>m. (m, r m)) ms"
proof -
  have "map (\<lambda>m. (index ! m, index ! (m + 1))) (upt_by 0 (length index) 2) = map (celem index) [0..<length ms]"
    using upt_by_2 [of 0 "length ms"] concat_pairs(1) [of "\<lambda>m. m" r ms] by (simp add: assms celem_def)
  also have "\<dots> = map (\<lambda>j. (ms ! j, r (ms ! j))) [0..<length ms]"
    unfolding assms by (intro map_cong refl) (simp add: concat_pairs(2))
  also have "\<dots> = map (\<lambda>m. (m, r m)) ms" by (rule nth_equalityI) auto
  finally show ?thesis .
qed

lemma rev_bits_numeral: "rev_bits (numeral v) k = k mod 2 * 2 ^ pred_numeral v + rev_bits (pred_numeral v) (k div 2)"
  by (simp add: numeral_eq_Suc)

lemma upt_from_1: "[1..<numeral n] = (if 1 < (numeral n :: nat) then 1 # [2..<numeral n] else [])"
  by (auto simp: upt_conv_Cons numeral_2_eq_2)

lemma filter_pairs: "concat (map (\<lambda>(a, b). [a, b]) (filter (\<lambda>(a, b). a < b) (map (\<lambda>m. (m, r m)) ms))) =
    concat (map (\<lambda>m. [m, r m]) (filter (\<lambda>m. m < r m) (ms :: nat list)))"
  by (induction ms) auto

lemma table_7: "index_7 = concat (map (\<lambda>m. [m, rev_bits 7 m]) (filter (\<lambda>m. m < rev_bits 7 m) [1..<128]))"
  unfolding index_7_def upt_from_1 filter_pairs [symmetric] by (simp add: upt_rec_numeral rev_bits_numeral)

lemma table_8: "index_8 = concat (map (\<lambda>m. [m, rev_bits 8 m]) (filter (\<lambda>m. m < rev_bits 8 m) [1..<256]))"
  unfolding index_8_def upt_from_1 filter_pairs [symmetric] by (simp add: upt_rec_numeral rev_bits_numeral)

lemma table_lengths: "length index_7 = 112" "length index_8 = 240"
  by (simp_all add: index_7_def index_8_def)

lemmas table_pairs = table_pairs_if [OF table_7, unfolded table_lengths] table_pairs_if [OF table_8, unfolded table_lengths]

lemma fold_pairs: "fold (\<lambda>m data. swap_complex data (f m) (g m)) ms data = fold (\<lambda>(a, b) data. swap_complex data a b) (map (\<lambda>m. (f m, g m)) ms) data"
  by (induction ms arbitrary: data) auto

lemma fold_filter: "fold (\<lambda>(a, b) data. swap_complex data a b) (map (\<lambda>m. (m, g m)) (filter (\<lambda>m. m < g m) ms)) data =
    fold (\<lambda>m data. if m < g m then swap_complex data m (g m) else data) ms data"
  by (induction ms arbitrary: data) auto

lemma ComplexBitReverse_eq:
  assumes "length data = 2 * 2 ^ s"
  shows "WebRtcSpl_ComplexBitReverse data s = bit_reversed s data"
proof -
  have "WebRtcSpl_ComplexBitReverse data s = rev_swaps s [1..<2 ^ s] data"
  proof (cases "s = 7 \<or> s = 8")
    case True
    have "fold (\<lambda>m data. swap_complex data (index_7 ! m) (index_7 ! (m + 1))) (upt_by 0 112 2) data =
        rev_swaps 7 [1..<128] data"
      "fold (\<lambda>m data. swap_complex data (index_8 ! m) (index_8 ! (m + 1))) (upt_by 0 240 2) data =
        rev_swaps 8 [1..<256] data"
      unfolding rev_swaps_def fold_pairs [of "\<lambda>m. index_7 ! m"] fold_pairs [of "\<lambda>m. index_8 ! m"]
        table_pairs fold_filter by (rule refl)+
    then show ?thesis using True by (auto simp: WebRtcSpl_ComplexBitReverse_def)
  next
    case False
    have l: "(2 :: nat) ^ s - 1 < 2 ^ s" "(2 :: nat) ^ s - 1 + 1 = 2 ^ s" by simp_all
    show ?thesis unfolding WebRtcSpl_ComplexBitReverse_def if_not_P [OF False] Let_def
      using generic_loop [OF l(1), of data] unfolding Let_def l(2) by simp
  qed
  then show ?thesis using rev_swaps_eq [OF assms] by simp
qed

section \<open>Properties\<close>

text \<open>
  C40. The re-ordering puts every complex element at the index with its bits reversed, for every
  number of stages: the tables of the stages 7 and 8 and the loop that counts in reversed binary
  compute the same permutation, and applying it twice gives back the array.
\<close>
theorem bit_reversal:
  assumes "length data = 2 * 2 ^ stages"
  shows "WebRtcSpl_ComplexBitReverse data stages = bit_reversed stages data \<and>
    WebRtcSpl_ComplexBitReverse (WebRtcSpl_ComplexBitReverse data stages) stages = data"
proof -
  have l: "length (bit_reversed stages data) = 2 * 2 ^ stages" using nth_bit_reversed(1) [of 0 stages data] by simp
  have "bit_reversed stages (bit_reversed stages data) = data"
  proof (rule list_eq_celem)
    fix k :: nat assume "k < 2 ^ stages"
    then show "celem (bit_reversed stages (bit_reversed stages data)) k = celem data k"
      by (simp add: nth_bit_reversed(2) rev_bits_less rev_bits_rev)
  qed (use l assms nth_bit_reversed(1) [of 0 stages] in simp_all)
  then show ?thesis using ComplexBitReverse_eq [OF assms] ComplexBitReverse_eq [OF l] by simp
qed

lemma bit_reversal_witness:
  "WebRtcSpl_ComplexBitReverse [10, 11, 20, 21, 30, 31, 40, 41 :: int] 2 = [10, 11, 30, 31, 20, 21, 40, 41]"
proof -
  have "WebRtcSpl_ComplexBitReverse [10, 11, 20, 21, 30, 31, 40, 41 :: int] 2 = bit_reversed 2 [10, 11, 20, 21, 30, 31, 40, 41]"
    using bit_reversal [of "[10, 11, 20, 21, 30, 31, 40, 41 :: int]" 2] by simp
  then show ?thesis by (simp add: bit_reversed_def upt_rec rev_bits_numeral)
qed

text \<open>
  The transforms refuse more than ten stages and then leave the array alone; otherwise they
  return an array of the same length whose values are 16 bit values again, and the scaling
  that the inverse transform reports is at most two bits for each stage.
\<close>
theorem fft_range:
  assumes "list_all is_s16 frfi"
  shows "(case WebRtcSpl_ComplexFFT frfi stages mode of (result, out) \<Rightarrow>
      length out = length frfi \<and> list_all is_s16 out \<and> (if stages > 10 then result = - 1 \<and> out = frfi else result = 0)) \<and>
    (case WebRtcSpl_ComplexIFFT frfi stages mode of (scale, out) \<Rightarrow>
      length out = length frfi \<and> list_all is_s16 out \<and>
      (if stages > 10 then scale = - 1 \<and> out = frfi else 0 \<le> scale \<and> scale \<le> 2 * int stages))"
proof -
  have big: "2 ^ stages > (1024 :: nat) \<longleftrightarrow> stages > 10"
    using power_less_imp_less_exp [of "2 :: nat" 10 stages] power_strict_increasing [of 10 stages "2 :: nat"] by auto
  obtain scale out where i: "ifft_loop mode (2 ^ stages) 1 9 0 frfi = (scale, out)" by (rule prod.exhaust)
  have "length out = length frfi" "list_all is_s16 out" "scale \<le> 2 * stages"
    using length_ifft_loop [of mode "2 ^ stages" 1 9 0 frfi] s16_ifft_loop [OF assms, of mode "2 ^ stages" 1 9 0]
      ifft_scale_le [of 1 "2 ^ stages" stages mode 9 0 frfi] i by simp_all
  then show ?thesis using assms big i
    by (simp add: WebRtcSpl_ComplexFFT_def WebRtcSpl_ComplexIFFT_def Let_def len_simps s16_fft_loop)
qed

lemma fft_range_witness: "fst (WebRtcSpl_ComplexIFFT [1, 2, 3, 4] 11 1) = - 1 \<and> length (snd (WebRtcSpl_ComplexFFT [1, 2, 3, 4] 1 1)) = 4"
  using fft_range [of "[1, 2, 3, 4]" 11 1] fft_range [of "[1, 2, 3, 4]" 1 1] by (auto simp: is_s16_def split: prod.splits)

end
