(* ===== verification/Float32.thy ===== *)
theory Float32
  imports Prelude "HOL-Library.Log_Nat"
begin

text \<open>
  Single precision arithmetic, for the parts of the delay estimator that keep statistics as
  \<^verbatim>\<open>float\<close>. A value is the rational number it stands for, and \<open>fround\<close> rounds to the nearest
  number with 24 significant bits, ties to even. Every C operation on floats is the exact operation
  followed by \<open>fround\<close> (no excess precision, no fused operations). Overflow and subnormal
  numbers are left out: the values the model works with lie between \<open>2 ^ - 60\<close> and \<open>2 ^ 20\<close>.
\<close>

type_synonym float32 = rat

definition round_even :: "rat \<Rightarrow> int" where
  "round_even y =
     (let n = \<lfloor>y\<rfloor>; d = y - of_int n
      in if d < 1 / 2 then n else if d > 1 / 2 then n + 1 else if even n then n else n + 1)"

text \<open>The exponent of a positive number: \<open>2 ^ e \<le> x < 2 ^ (e + 1)\<close>.\<close>

definition exponent :: "rat \<Rightarrow> int" where
  "exponent x =
     (if 1 \<le> x then int (floorlog 2 (nat \<lfloor>x\<rfloor>)) - 1 else - int (floorlog 2 (nat (\<lceil>1 / x\<rceil> - 1))))"

definition fround :: "rat \<Rightarrow> float32" where
  "fround x = (if x = 0 then 0 else let u = 2 powi (exponent \<bar>x\<bar> - 23) in of_int (round_even (x / u)) * u)"

definition float_of_int :: "int \<Rightarrow> float32" where
  "float_of_int i = fround (of_int i)"

definition fmul :: "float32 \<Rightarrow> float32 \<Rightarrow> float32" where
  "fmul x y = fround (x * y)"

definition fadd :: "float32 \<Rightarrow> float32 \<Rightarrow> float32" where
  "fadd x y = fround (x + y)"

definition fsub :: "float32 \<Rightarrow> float32 \<Rightarrow> float32" where
  "fsub x y = fround (x - y)"

definition fdiv :: "float32 \<Rightarrow> float32 \<Rightarrow> float32" where
  "fdiv x y = fround (x / y)"

lemma round_even_le: "y \<le> of_int N \<Longrightarrow> round_even y \<le> N"
proof -
  assume y: "y \<le> of_int N"
  show ?thesis
  proof (cases "\<lfloor>y\<rfloor> < N")
    case False
    then have "of_int N \<le> y" by (simp add: not_less le_floor_iff)
    then have "y = of_int N" using y by (rule order.antisym [rotated])
    then show ?thesis by (simp add: round_even_def)
  qed (auto simp: round_even_def Let_def)
qed

lemma round_even_ge: "of_int N \<le> y \<Longrightarrow> N \<le> round_even y"
proof -
  assume "of_int N \<le> y"
  then have "N \<le> \<lfloor>y\<rfloor>" by (simp add: le_floor_iff)
  then show ?thesis by (auto simp: round_even_def Let_def)
qed

lemma fround_nonneg: "0 \<le> x \<Longrightarrow> 0 \<le> fround x"
  using round_even_ge [of 0 "x / 2 powi (exponent \<bar>x\<bar> - 23)"]
  by (simp add: fround_def Let_def zero_le_divide_iff)

lemma fround_nonpos: "x \<le> 0 \<Longrightarrow> fround x \<le> 0"
  using round_even_le [of "x / 2 powi (exponent \<bar>x\<bar> - 23)" 0]
  by (simp add: fround_def Let_def divide_le_0_iff mult_le_0_iff)

lemma fround_0 [simp]: "fround 0 = 0"
  by (simp add: fround_def)

lemma exponent_bounds:
  assumes "0 < x"
  shows "2 powi exponent x \<le> x \<and> x < 2 powi (exponent x + 1)"
proof (cases "1 \<le> x")
  case True
  define n where "n = nat \<lfloor>x\<rfloor>"
  have n: "0 < n" using True by (simp add: n_def)
  then obtain k where k: "floorlog 2 n = Suc k" "2 ^ k \<le> n" "n < 2 ^ Suc k"
    using floorlog_bounds [of n 2] by (cases "floorlog 2 n") auto
  have "of_nat n \<le> x" "x < of_nat n + 1"
    using True of_int_floor_le [of x] floor_correct [of x] by (simp_all add: n_def)
  moreover have "of_nat (2 ^ k) \<le> (of_nat n :: rat)" using k(2) by (rule of_nat_mono)
  moreover have "of_nat (n + 1) \<le> (of_nat (2 ^ Suc k) :: rat)" using k(3) by (intro of_nat_mono) simp
  ultimately have "2 ^ k \<le> x" "x < 2 ^ Suc k" by (simp_all only: of_nat_power of_nat_numeral of_nat_add of_nat_1)
  then show ?thesis using True k(1) by (simp add: exponent_def n_def [symmetric] power_int_add)
next
  case False
  define m where "m = nat (\<lceil>1 / x\<rceil> - 1)"
  define k where "k = floorlog 2 m"
  have c: "1 < 1 / x" using False assms by simp
  then have "1 < \<lceil>1 / x\<rceil>" by (subst less_ceiling_iff) simp
  then have m: "0 < m" "int m + 1 = \<lceil>1 / x\<rceil>" unfolding m_def by linarith+
  then have b: "2 ^ (k - 1) \<le> m" "m < 2 ^ k" "0 < k" using floorlog_bounds [of m 2] by (auto simp: k_def floorlog_def)
  have "1 / x \<le> of_nat m + 1" "of_nat m < 1 / x"
    using le_of_int_ceiling [of "1 / x"] ceiling_correct [of "1 / x"] m(2) [symmetric] by simp_all
  moreover have "of_nat (m + 1) \<le> (of_nat (2 ^ k) :: rat)" using b(2) by (intro of_nat_mono) simp
  moreover have "of_nat (2 ^ (k - 1)) \<le> (of_nat m :: rat)" using b(1) by (rule of_nat_mono)
  ultimately have l: "1 / x \<le> 2 ^ k" "2 ^ (k - 1) < 1 / x"
    by (simp_all only: of_nat_power of_nat_numeral of_nat_add of_nat_1)
  then have "1 / 2 ^ k \<le> x" "x < 1 / 2 ^ (k - 1)" using assms by (simp_all add: field_simps)
  moreover have "exponent x = - int k" using False by (simp add: exponent_def m_def k_def)
  moreover have "- int k + 1 = - int (k - 1)" using b(3) by simp
  moreover have "(2 :: rat) powi (- int j) = 1 / 2 ^ j" for j by (simp add: power_int_minus inverse_eq_divide)
  ultimately show ?thesis by (simp only:)
qed

lemma exponent_le:
  assumes "0 < x" and "x < 2 ^ 24"
  shows "exponent x \<le> 23"
proof -
  have "(2 :: rat) powi exponent x < 2 powi int 24" using exponent_bounds [OF assms(1)] assms(2) by simp
  then have "\<not> 24 \<le> exponent x" using power_int_increasing [of 24 "exponent x" "2 :: rat"] by auto
  then show ?thesis by simp
qed

text \<open>Rounding does not pass an integer that has 24 bits.\<close>

lemma fround_le:
  assumes "x \<le> of_nat c" and "c < 2 ^ 24"
  shows "fround x \<le> of_nat c"
proof (cases "0 < x")
  case True
  have "of_nat c < (2 ^ 24 :: rat)"
  proof -
    have "(of_nat c :: rat) < of_nat (2 ^ 24)" using assms(2) by (simp only: of_nat_less_iff)
    then show ?thesis by simp
  qed
  then have e: "exponent x \<le> 23" using True assms(1) by (intro exponent_le) auto
  define u where "u = (2 :: rat) powi (exponent x - 23)"
  define k where "k = nat (23 - exponent x)"
  have u: "u = 1 / 2 ^ k" "0 < u" using e by (simp_all add: u_def k_def power_int_def inverse_eq_divide power_divide)
  have "x / u \<le> of_int (int c * 2 ^ k)" using assms(1) by (simp add: u mult_right_mono)
  then have "round_even (x / u) \<le> int c * 2 ^ k" by (rule round_even_le)
  then have "(of_int (round_even (x / u)) :: rat) \<le> of_int (int c * 2 ^ k)" by (simp only: of_int_le_iff)
  then have "of_int (round_even (x / u)) * u \<le> of_int (int c * 2 ^ k) * u" using u(2) by (intro mult_right_mono) auto
  also have "\<dots> = of_nat c" by (simp add: u)
  finally show ?thesis using True by (simp add: fround_def u_def Let_def)
next
  case False
  then have "fround x \<le> 0" by (intro fround_nonpos) simp
  then show ?thesis using order_trans of_nat_0_le_iff by blast
qed

end
