(* ===== verification/Delay_Estimator.thy ===== *)
theory Delay_Estimator
  imports Spl_Inline Float32
begin

unbundle bit_operations_syntax

text \<open>
  The binary delay estimator (\<^verbatim>\<open>modules/audio_processing/utility/delay_estimator.c\<close>): it keeps a
  history of far-end binary spectra, compares each near-end spectrum with all of them by counting the
  bits that differ, smooths the counts, and takes the delay with the smallest mean as a candidate,
  which is validated by its depth and, where enabled, by a histogram.

  The far-end part is an object of its own, shared through a pointer; here the operations take it as
  an argument of its own. Sizes are \<open>nat\<close>, the delays are \<open>int\<close> because -2 stands for "no estimate
  yet". A delay is the index of an array: where the code would use a negative one,
  \<open>WebRtc_ProcessBinarySpectrum\<close> is \<open>None\<close>, and the theorems show that it never is.
\<close>

section \<open>State\<close>

record BinaryDelayEstimatorFarend =
  far_bit_counts :: "int list"
  binary_far_history :: "int list"
  far_history_size :: nat

record BinaryDelayEstimator =
  mean_bit_counts :: "int list"
  bit_counts :: "int list"
  binary_near_history :: "int list"
  near_history_size :: nat
  history_size :: nat
  minimum_probability :: int
  last_delay_probability :: int
  last_delay :: int
  robust_validation_enabled :: int
  allowed_offset :: int
  last_candidate_delay :: int
  compare_delay :: int
  candidate_hits :: int
  histogram :: "float32 list"
  last_delay_histogram :: float32
  lookahead :: int

section \<open>Constants\<close>

definition kMaxBitCountsQ9 :: int where "kMaxBitCountsQ9 = 16384"
definition kShiftsAtZero :: int where "kShiftsAtZero = 13"
definition kShiftsLinearSlope :: int where "kShiftsLinearSlope = 3"
definition kProbabilityOffset :: int where "kProbabilityOffset = 1024"
definition kProbabilityLowerLimit :: int where "kProbabilityLowerLimit = 8704"
definition kProbabilityMinSpread :: int where "kProbabilityMinSpread = 2816"
definition kHistogramMax :: float32 where "kHistogramMax = 3000"
definition kLastHistogramMax :: float32 where "kLastHistogramMax = 250"
definition kMinHistogramThreshold :: float32 where "kMinHistogramThreshold = 3 / 2"
definition kMinRequiredHits :: int where "kMinRequiredHits = 10"
definition kMaxHitsWhenPossiblyNonCausal :: int where "kMaxHitsWhenPossiblyNonCausal = 10"
definition kMaxHitsWhenPossiblyCausal :: int where "kMaxHitsWhenPossiblyCausal = 1000"
definition kQ14Scaling :: float32 where "kQ14Scaling = 1 / 16384"
definition kFractionSlope :: float32 where "kFractionSlope = fround (5 / 100)"
definition kMinFractionWhenPossiblyCausal :: float32 where "kMinFractionWhenPossiblyCausal = 1 / 2"
definition kMinFractionWhenPossiblyNonCausal :: float32 where "kMinFractionWhenPossiblyNonCausal = 1 / 4"

section \<open>Bit counts\<close>

definition BitCount :: "int \<Rightarrow> int" where
  "BitCount u =
     (let tmp = u32 (u32 (u - (shr u 1 AND 3681400539)) - (shr u 2 AND 1227133513));
          tmp = u32 (tmp + shr tmp 3) AND 3340530119;
          tmp = u32 (tmp + shr tmp 6);
          tmp = u32 (u32 (tmp + shr tmp 12) + shr tmp 24) AND 63
      in s32 tmp)"

definition BitCountComparison :: "int \<Rightarrow> int list \<Rightarrow> nat \<Rightarrow> int list" where
  "BitCountComparison binary_vector binary_matrix matrix_size =
     map (\<lambda>n. BitCount (binary_vector XOR binary_matrix ! n)) [0..<matrix_size]"

definition WebRtc_MeanEstimatorFix :: "int \<Rightarrow> nat \<Rightarrow> int \<Rightarrow> int" where
  "WebRtc_MeanEstimatorFix new_value factor mean_value =
     (let diff = s32 (new_value - mean_value);
          diff = (if diff < 0 then - shr (- diff) factor else shr diff factor)
      in s32 (mean_value + diff))"

section \<open>Robust validation\<close>

definition q14_to_float :: "int \<Rightarrow> float32" where
  "q14_to_float v = fmul (float_of_int v) kQ14Scaling"

definition float_of_bool :: "bool \<Rightarrow> float32" where
  "float_of_bool b = (if b then 1 else 0)"

definition histogram_step :: "int \<Rightarrow> int \<Rightarrow> float32 \<Rightarrow> float32 \<Rightarrow> nat \<Rightarrow> float32 list \<Rightarrow> float32 list" where
  "histogram_step last_del candidate_delay decrease_in_last_set valley_depth i hist =
     (let is_in_last_set = int i \<ge> last_del - 2 \<and> int i \<le> last_del + 1 \<and> int i \<noteq> candidate_delay;
          is_in_candidate_set = int i \<ge> candidate_delay - 2 \<and> int i \<le> candidate_delay + 1;
          hist = hist[i := fsub (hist ! i)
            (fadd (fmul decrease_in_last_set (float_of_bool is_in_last_set))
                  (fmul valley_depth (float_of_bool (\<not> is_in_last_set \<and> \<not> is_in_candidate_set))))]
      in if hist ! i < 0 then hist[i := 0] else hist)"

definition UpdateRobustValidationStatistics ::
    "BinaryDelayEstimator \<Rightarrow> int \<Rightarrow> int \<Rightarrow> int \<Rightarrow> BinaryDelayEstimator" where
  "UpdateRobustValidationStatistics self candidate_delay valley_depth_q14 valley_level_q14 =
     (let valley_depth = q14_to_float valley_depth_q14;
          max_hits_for_slow_change = (if candidate_delay < last_delay self then kMaxHitsWhenPossiblyNonCausal
                                      else kMaxHitsWhenPossiblyCausal);
          self = (if candidate_delay \<noteq> last_candidate_delay self
                  then self\<lparr>candidate_hits := 0, last_candidate_delay := candidate_delay\<rparr> else self);
          self = self\<lparr>candidate_hits := s32 (candidate_hits self + 1)\<rparr>;
          c = nat candidate_delay;
          hist = (histogram self)[c := fadd (histogram self ! c) valley_depth];
          hist = (if hist ! c > kHistogramMax then hist[c := kHistogramMax] else hist);
          decrease_in_last_set = (if candidate_hits self < max_hits_for_slow_change
            then q14_to_float (s32 (mean_bit_counts self ! nat (compare_delay self) - valley_level_q14))
            else valley_depth);
          hist = fold (histogram_step (last_delay self) candidate_delay decrease_in_last_set valley_depth)
                   [0..<history_size self] hist
      in self\<lparr>histogram := hist\<rparr>)"

definition HistogramBasedValidation :: "BinaryDelayEstimator \<Rightarrow> int \<Rightarrow> bool" where
  "HistogramBasedValidation self candidate_delay =
     (let histogram_threshold = histogram self ! nat (compare_delay self);
          delay_difference = s32 (candidate_delay - last_delay self);
          fraction =
            (if delay_difference > allowed_offset self
             then let fraction = fsub 1 (fmul kFractionSlope (float_of_int (s32 (delay_difference - allowed_offset self))))
                  in if fraction > kMinFractionWhenPossiblyCausal then fraction else kMinFractionWhenPossiblyCausal
             else if delay_difference < 0
             then let fraction = fsub kMinFractionWhenPossiblyNonCausal (fmul kFractionSlope (float_of_int delay_difference))
                  in if fraction > 1 then 1 else fraction
             else 1);
          histogram_threshold = fmul histogram_threshold fraction;
          histogram_threshold = (if histogram_threshold > kMinHistogramThreshold then histogram_threshold
                                 else kMinHistogramThreshold)
      in histogram self ! nat candidate_delay \<ge> histogram_threshold \<and> candidate_hits self > kMinRequiredHits)"

definition RobustValidation :: "BinaryDelayEstimator \<Rightarrow> int \<Rightarrow> bool \<Rightarrow> bool \<Rightarrow> bool" where
  "RobustValidation self candidate_delay is_instantaneous_valid is_histogram_valid \<longleftrightarrow>
     (last_delay self < 0 \<and> (is_instantaneous_valid \<or> is_histogram_valid)) \<or>
     (is_instantaneous_valid \<and> is_histogram_valid) \<or>
     (is_histogram_valid \<and> histogram self ! nat candidate_delay > last_delay_histogram self)"

section \<open>Far end\<close>

text \<open>
  \<^verbatim>\<open>realloc\<close> keeps the old contents; what it adds is unspecified and then set to zero by the code
  (\<open>grow\<close>). \<open>m1\<close>, \<open>m2\<close> say whether the two calls succeed.
\<close>

definition grow :: "'a::zero list \<Rightarrow> nat \<Rightarrow> 'a list" where
  "grow xs n = take n xs @ replicate (n - length xs) 0"

definition WebRtc_AllocateFarendBufferMemory ::
    "bool \<Rightarrow> bool \<Rightarrow> BinaryDelayEstimatorFarend \<Rightarrow> nat \<Rightarrow> BinaryDelayEstimatorFarend \<times> nat" where
  "WebRtc_AllocateFarendBufferMemory m1 m2 self hsize =
     (let hsize' = (if m1 \<and> m2 then hsize else 0);
          self = self\<lparr>binary_far_history := (if m1 then grow (binary_far_history self) hsize else []),
                      far_bit_counts := (if m2 then grow (far_bit_counts self) hsize else []),
                      far_history_size := hsize'\<rparr>
      in (self, far_history_size self))"

definition WebRtc_CreateBinaryDelayEstimatorFarend :: "bool \<Rightarrow> bool \<Rightarrow> bool \<Rightarrow> int \<Rightarrow> BinaryDelayEstimatorFarend option" where
  "WebRtc_CreateBinaryDelayEstimatorFarend m0 m1 m2 hsize =
     (if \<not> hsize > 1 \<or> \<not> m0 then None
      else let self = \<lparr>far_bit_counts = [], binary_far_history = [], far_history_size = 0\<rparr>;
               (self, n) = WebRtc_AllocateFarendBufferMemory m1 m2 self (nat hsize)
           in if n = 0 then None else Some self)"

definition WebRtc_InitBinaryDelayEstimatorFarend :: "BinaryDelayEstimatorFarend \<Rightarrow> BinaryDelayEstimatorFarend" where
  "WebRtc_InitBinaryDelayEstimatorFarend self =
     self\<lparr>binary_far_history := blit (binary_far_history self) 0 (replicate (far_history_size self) 0),
          far_bit_counts := blit (far_bit_counts self) 0 (replicate (far_history_size self) 0)\<rparr>"

definition WebRtc_SoftResetBinaryDelayEstimatorFarend ::
    "BinaryDelayEstimatorFarend \<Rightarrow> int \<Rightarrow> BinaryDelayEstimatorFarend" where
  "WebRtc_SoftResetBinaryDelayEstimatorFarend self delay_shift =
     (let abs_shift = nat \<bar>delay_shift\<bar>; shift_size = far_history_size self - abs_shift
      in if delay_shift = 0 then self
         else let (dest_index, src_index, padding_index) =
                    (if delay_shift > 0 then (abs_shift, 0, 0) else (0, abs_shift, shift_size));
                  move = (\<lambda>buf. blit (blit buf dest_index (take shift_size (drop src_index buf)))
                                  padding_index (replicate abs_shift 0))
              in self\<lparr>binary_far_history := move (binary_far_history self),
                      far_bit_counts := move (far_bit_counts self)\<rparr>)"

definition WebRtc_AddBinaryFarSpectrum :: "BinaryDelayEstimatorFarend \<Rightarrow> int \<Rightarrow> BinaryDelayEstimatorFarend" where
  "WebRtc_AddBinaryFarSpectrum handle binary_far_spectrum =
     (let n = far_history_size handle - 1;
          history = (blit (binary_far_history handle) 1 (take n (binary_far_history handle)))[0 := binary_far_spectrum];
          counts = (blit (far_bit_counts handle) 1 (take n (far_bit_counts handle)))[0 := BitCount binary_far_spectrum]
      in handle\<lparr>binary_far_history := history, far_bit_counts := counts\<rparr>)"

section \<open>The estimator\<close>

text \<open>The allocation of the three buffers; \<open>m\<close> lists the outcomes of the allocations.\<close>

definition WebRtc_AllocateHistoryBufferMemory ::
    "bool list \<Rightarrow> BinaryDelayEstimatorFarend \<Rightarrow> BinaryDelayEstimator \<Rightarrow> nat \<Rightarrow>
     BinaryDelayEstimatorFarend \<times> BinaryDelayEstimator \<times> nat" where
  "WebRtc_AllocateHistoryBufferMemory m far self hsize =
     (let (far, hsize) = (if hsize \<noteq> far_history_size far
                          then WebRtc_AllocateFarendBufferMemory (m ! 0) (m ! 1) far hsize else (far, hsize));
          ok = m ! 2 \<and> m ! 3 \<and> m ! 4;
          hsize' = (if ok then hsize else 0);
          size_diff = hsize' - history_size self;
          zero = (\<lambda>xs. if hsize' > history_size self then blit xs (history_size self) (replicate size_diff 0) else xs);
          fzero = (\<lambda>xs. if hsize' > history_size self then blit xs (history_size self) (replicate size_diff 0) else xs);
          self = self\<lparr>mean_bit_counts := (if m ! 2 then zero (grow (mean_bit_counts self) (hsize + 1)) else []),
                      bit_counts := (if m ! 3 then zero (grow (bit_counts self) hsize) else []),
                      histogram := (if m ! 4 then fzero (grow (histogram self) (hsize + 1)) else []),
                      history_size := hsize'\<rparr>
      in (far, self, history_size self))"

definition WebRtc_CreateBinaryDelayEstimator ::
    "bool \<Rightarrow> bool \<Rightarrow> bool list \<Rightarrow> BinaryDelayEstimator \<Rightarrow> BinaryDelayEstimatorFarend option \<Rightarrow> int \<Rightarrow>
     (BinaryDelayEstimatorFarend \<times> BinaryDelayEstimator) option" where
  "WebRtc_CreateBinaryDelayEstimator m0 m1 m junk farend max_lookahead =
     (case farend of None \<Rightarrow> None
      | Some far \<Rightarrow>
          if max_lookahead < 0 \<or> \<not> m0 then None
          else let self = junk\<lparr>near_history_size := nat (max_lookahead + 1), history_size := 0,
                               robust_validation_enabled := 0, allowed_offset := 0, lookahead := max_lookahead,
                               mean_bit_counts := [], bit_counts := [], histogram := [],
                               binary_near_history := replicate (nat (max_lookahead + 1)) 0\<rparr>
               in if \<not> m1 then None
                  else let (far, self, n) = WebRtc_AllocateHistoryBufferMemory m far self (far_history_size far)
                       in if n = 0 then None else Some (far, self))"

definition WebRtc_InitBinaryDelayEstimator :: "BinaryDelayEstimator \<Rightarrow> BinaryDelayEstimator" where
  "WebRtc_InitBinaryDelayEstimator self =
     (let n = history_size self;
          self = self\<lparr>bit_counts := blit (bit_counts self) 0 (replicate n 0),
                      binary_near_history := blit (binary_near_history self) 0 (replicate (near_history_size self) 0)\<rparr>;
          self = fold (\<lambda>i self. self\<lparr>mean_bit_counts := (mean_bit_counts self)[i := 20 * 512],
                                     histogram := (histogram self)[i := 0]\<rparr>) [0..<n + 1] self
      in self\<lparr>minimum_probability := kMaxBitCountsQ9,
              last_delay_probability := kMaxBitCountsQ9,
              last_delay := - 2,
              last_candidate_delay := - 2,
              compare_delay := int n,
              candidate_hits := 0,
              last_delay_histogram := 0\<rparr>)"

definition WebRtc_SoftResetBinaryDelayEstimator :: "BinaryDelayEstimator \<Rightarrow> int \<Rightarrow> BinaryDelayEstimator \<times> int" where
  "WebRtc_SoftResetBinaryDelayEstimator self delay_shift =
     (let old = lookahead self;
          self = self\<lparr>lookahead := s32 (lookahead self - delay_shift)\<rparr>;
          self = (if lookahead self < 0 then self\<lparr>lookahead := 0\<rparr> else self);
          self = (if lookahead self > int (near_history_size self) - 1
                  then self\<lparr>lookahead := int (near_history_size self) - 1\<rparr> else self)
      in (self, s32 (old - lookahead self)))"

text \<open>
  The steps of \<open>WebRtc_ProcessBinarySpectrum\<close>: the near-end delay line, the update of the means,
  the search for the candidate, the adaptive threshold, the decision.
\<close>

definition near_delay_line :: "BinaryDelayEstimator \<Rightarrow> int \<Rightarrow> BinaryDelayEstimator \<times> int" where
  "near_delay_line self spectrum =
     (if near_history_size self > 1
      then let h = (blit (binary_near_history self) 1 (take (near_history_size self - 1) (binary_near_history self)))[0 := spectrum]
           in (self\<lparr>binary_near_history := h\<rparr>, h ! nat (lookahead self))
      else (self, spectrum))"

definition update_means :: "BinaryDelayEstimatorFarend \<Rightarrow> BinaryDelayEstimator \<Rightarrow> BinaryDelayEstimator" where
  "update_means far self =
     (let means = fold (\<lambda>i means.
            let bit_count = s32 (shl (bit_counts self ! i) 9)
            in if far_bit_counts far ! i > 0
               then let shifts = kShiftsAtZero - shr (kShiftsLinearSlope * far_bit_counts far ! i) 4
                    in means[i := WebRtc_MeanEstimatorFix bit_count (nat shifts) (means ! i)]
               else means) [0..<history_size self] (mean_bit_counts self)
      in self\<lparr>mean_bit_counts := means\<rparr>)"

text \<open>The search returns \<open>(candidate_delay, value_best_candidate, value_worst_candidate)\<close>.\<close>

definition find_candidate :: "int list \<Rightarrow> nat \<Rightarrow> int \<times> int \<times> int" where
  "find_candidate means n =
     fold (\<lambda>i (candidate_delay, best, worst).
        let (candidate_delay, best) = (if means ! i < best then (int i, means ! i) else (candidate_delay, best));
            worst = (if means ! i > worst then means ! i else worst)
        in (candidate_delay, best, worst)) [0..<n] (- 1, kMaxBitCountsQ9, 0)"

definition update_threshold :: "int \<Rightarrow> int \<Rightarrow> BinaryDelayEstimator \<Rightarrow> BinaryDelayEstimator" where
  "update_threshold value_best_candidate valley_depth self =
     (if minimum_probability self > kProbabilityLowerLimit \<and> valley_depth > kProbabilityMinSpread
      then let threshold = s32 (value_best_candidate + kProbabilityOffset);
               threshold = (if threshold < kProbabilityLowerLimit then kProbabilityLowerLimit else threshold)
           in if minimum_probability self > threshold then self\<lparr>minimum_probability := threshold\<rparr> else self
      else self)"

definition accept_candidate :: "int \<Rightarrow> int \<Rightarrow> BinaryDelayEstimator \<Rightarrow> BinaryDelayEstimator" where
  "accept_candidate candidate_delay value_best_candidate self =
     (let c = nat candidate_delay;
          self = (if candidate_delay \<noteq> last_delay self
                  then let self = self\<lparr>last_delay_histogram := (if histogram self ! c > kLastHistogramMax
                                                               then kLastHistogramMax else histogram self ! c)\<rparr>
                       in if histogram self ! c < histogram self ! nat (compare_delay self)
                          then self\<lparr>histogram := (histogram self)[nat (compare_delay self) := histogram self ! c]\<rparr>
                          else self
                  else self);
          self = self\<lparr>last_delay := candidate_delay\<rparr>;
          self = (if value_best_candidate < last_delay_probability self
                  then self\<lparr>last_delay_probability := value_best_candidate\<rparr> else self)
      in self\<lparr>compare_delay := last_delay self\<rparr>)"

definition validate_candidate :: "int \<Rightarrow> int \<Rightarrow> int \<Rightarrow> BinaryDelayEstimator \<Rightarrow> BinaryDelayEstimator" where
  "validate_candidate candidate_delay value_best_candidate valley_depth self =
     (let self = update_threshold value_best_candidate valley_depth self;
          self = self\<lparr>last_delay_probability := s32 (last_delay_probability self + 1)\<rparr>;
          valid_candidate = (valley_depth > kProbabilityOffset \<and>
            (value_best_candidate < minimum_probability self \<or> value_best_candidate < last_delay_probability self));
          self = UpdateRobustValidationStatistics self candidate_delay valley_depth value_best_candidate;
          valid_candidate = (if robust_validation_enabled self \<noteq> 0
            then RobustValidation self candidate_delay valid_candidate (HistogramBasedValidation self candidate_delay)
            else valid_candidate)
      in if valid_candidate then accept_candidate candidate_delay value_best_candidate self else self)"

definition WebRtc_ProcessBinarySpectrum ::
    "BinaryDelayEstimatorFarend \<Rightarrow> BinaryDelayEstimator \<Rightarrow> int \<Rightarrow> (BinaryDelayEstimator \<times> int) option" where
  "WebRtc_ProcessBinarySpectrum far self binary_near_spectrum =
     (if far_history_size far \<noteq> history_size self then Some (self, - 1)
      else let (self, spectrum) = near_delay_line self binary_near_spectrum;
               self = self\<lparr>bit_counts := blit (bit_counts self) 0
                        (BitCountComparison spectrum (binary_far_history far) (history_size self))\<rparr>;
               self = update_means far self;
               (candidate_delay, best, worst) = find_candidate (mean_bit_counts self) (history_size self);
               valley_depth = s32 (worst - best)
           in if candidate_delay < 0 then None
              else let self = validate_candidate candidate_delay best valley_depth self
                   in Some (self, last_delay self))"

definition WebRtc_binary_last_delay :: "BinaryDelayEstimator \<Rightarrow> int" where
  "WebRtc_binary_last_delay self = last_delay self"

definition WebRtc_binary_last_delay_quality :: "BinaryDelayEstimator \<Rightarrow> float32" where
  "WebRtc_binary_last_delay_quality self =
     (if robust_validation_enabled self \<noteq> 0
      then fdiv (histogram self ! nat (compare_delay self)) kHistogramMax
      else let quality = fdiv (float_of_int (s32 (kMaxBitCountsQ9 - last_delay_probability self))) (float_of_int kMaxBitCountsQ9)
           in if quality < 0 then 0 else quality)"

section \<open>Bit counts: meaning\<close>

text \<open>The number of ones among the low \<open>n\<close> bits.\<close>

fun popcount :: "nat \<Rightarrow> int \<Rightarrow> int" where
  "popcount 0 u = 0"
| "popcount (Suc n) u = u mod 2 + popcount n (u div 2)"

lemma popcount_range: "0 \<le> popcount n u \<and> popcount n u \<le> int n"
proof (induction n arbitrary: u)
  case (Suc n)
  have "0 \<le> u mod 2" "u mod 2 \<le> 1" using pos_mod_bound [of 2 u] by simp_all
  then show ?case using Suc [of "u div 2"] by simp
qed simp

lemma and_digit8:
  assumes "0 \<le> x" "x < 8" "0 \<le> y" "y < (8 :: int)"
  shows "(8 * a + x) AND (8 * b + y) = 8 * (a AND b) + (x AND y)"
proof -
  have split: "8 * c + z = push_bit 3 c OR z" if "0 \<le> z" "z < 8" for c z :: int
  proof -
    have "push_bit 3 c AND z = 0"
    proof (rule bit_eqI)
      fix k
      have "z = take_bit 3 z" using that by (simp add: take_bit_int_eq_self)
      then have "bit z k \<Longrightarrow> k < 3" by (metis bit_take_bit_iff)
      then show "bit (push_bit 3 c AND z) k = bit (0 :: int) k" by (auto simp: bit_simps)
    qed
    then show ?thesis using plus_and_or [of "push_bit 3 c" z] by (simp add: push_bit_eq_mult ac_simps)
  qed
  have xy: "0 \<le> x AND y" "x AND y < 8" using assms and_less_eq [of x y] AND_upper1 [of x y] by simp_all
  have "(push_bit 3 a OR x) AND (push_bit 3 b OR y) = push_bit 3 (a AND b) OR (x AND y)"
  proof (rule bit_eqI)
    fix k
    have "x = take_bit 3 x" "y = take_bit 3 y" using assms by (simp_all add: take_bit_int_eq_self)
    then have "bit x k \<Longrightarrow> k < 3" "bit y k \<Longrightarrow> k < 3" by (metis bit_take_bit_iff)+
    then show "bit ((push_bit 3 a OR x) AND (push_bit 3 b OR y)) k = bit (push_bit 3 (a AND b) OR (x AND y)) k"
      by (auto simp: bit_simps)
  qed
  then show ?thesis by (simp only: split [OF assms(1,2)] split [OF assms(3,4)] split [OF xy])
qed

text \<open>The first line of \<open>BitCount\<close> replaces every octal digit by its number of ones.\<close>

definition octal_ones :: "int \<Rightarrow> int \<Rightarrow> int \<Rightarrow> int" where
  "octal_ones m3 m1 u = u - (u div 2 AND m3) - (u div 4 AND m1)"

lemma octal_ones_step:
  assumes "0 \<le> d" "d < 8"
  shows "octal_ones (8 * m3 + 3) (8 * m1 + 1) (8 * v + d) = 8 * octal_ones m3 m1 v + popcount 3 d"
proof -
  have 2: "(8 * v + d) div 2 = 8 * (v div 2) + (4 * (v mod 2) + d div 2)"
    and 4: "(8 * v + d) div 4 = 8 * (v div 4) + (2 * (v mod 4) + d div 4)" by presburger+
  have d: "d \<in> {0, 1, 2, 3, 4, 5, 6, 7}" using assms by auto
  have v: "v mod 2 \<in> {0, 1}" "v mod 4 \<in> {0, 1, 2, 3}" by auto
  have a2: "(8 * v + d) div 2 AND (8 * m3 + 3) = 8 * (v div 2 AND m3) + (4 * (v mod 2) + d div 2 AND 3)"
    unfolding 2 using d v by (intro and_digit8) auto
  have a4: "(8 * v + d) div 4 AND (8 * m1 + 1) = 8 * (v div 4 AND m1) + (2 * (v mod 4) + d div 4 AND 1)"
    unfolding 4 using d v by (intro and_digit8) auto
  have "4 * (v mod 2) + d div 2 AND 3 = d div 2" "2 * (v mod 4) + d div 4 AND 1 = d div 4"
    "popcount 3 d = d - d div 2 - d div 4"
    using d v by (auto simp: numeral_eq_Suc)
  then show ?thesis by (simp add: octal_ones_def a2 a4)
qed

text \<open>A number by its octal digits, the lowest first.\<close>

definition octal :: "int list \<Rightarrow> int" where
  "octal ds = foldr (\<lambda>d v. 8 * v + d) ds 0"

lemma octal_simps [simp]: "octal [] = 0" "octal (d # ds) = 8 * octal ds + d"
  by (simp_all add: octal_def)

abbreviation is_digit :: "int \<Rightarrow> bool" where
  "is_digit d \<equiv> 0 \<le> d \<and> d < 8"

lemma octal_ones_digits:
  "list_all is_digit ds \<Longrightarrow>
   octal_ones (octal (replicate (length ds) 3)) (octal (replicate (length ds) 1)) (octal ds) = octal (map (popcount 3) ds)"
proof (induction ds)
  case Nil
  then show ?case by (simp add: octal_ones_def)
next
  case (Cons d ds)
  then show ?case using octal_ones_step [of d "octal (replicate (length ds) 3)" "octal (replicate (length ds) 1)" "octal ds"]
    by simp
qed

lemma octal_and:
  "length ds = length es \<Longrightarrow> list_all is_digit ds \<Longrightarrow> list_all is_digit es \<Longrightarrow>
   octal ds AND octal es = octal (map2 (AND) ds es)"
  by (induction ds es rule: list_induct2) (auto simp: and_digit8)

lemma popcount_octal: "list_all is_digit ds \<Longrightarrow> popcount (3 * length ds) (octal ds) = sum_list (map (popcount 3) ds)"
proof (induction ds)
  case (Cons d ds)
  have e: "(8 * v + e) mod 2 = e mod 2 \<and> (8 * v + e) div 2 mod 2 = e div 2 mod 2 \<and>
    (8 * v + e) div 2 div 2 mod 2 = e div 2 div 2 mod 2 \<and> (8 * v + e) div 2 div 2 div 2 = v"
    if "0 \<le> e" "e < 8" for v e :: int
  proof -
    have m: "(2 * w + x) mod 2 = x mod 2" "(2 * w + x) div 2 = w + x div 2" for w x :: int by simp_all
    have z: "e div 2 div 2 div 2 = 0" using that by (simp flip: zdiv_zmult2_eq)
    have "8 * v + e = 2 * (2 * (2 * v)) + e" by simp
    then show ?thesis by (simp only: m z) (simp add: m)
  qed
  have "(8 * octal ds + d) mod 2 = d mod 2" "(8 * octal ds + d) div 2 mod 2 = d div 2 mod 2"
    "(8 * octal ds + d) div 2 div 2 mod 2 = d div 2 div 2 mod 2" "(8 * octal ds + d) div 2 div 2 div 2 = octal ds"
  proof -
    have "0 \<le> d" "d < 8" using Cons.prems by simp_all
    from e [OF this, of "octal ds"] show "(8 * octal ds + d) mod 2 = d mod 2" "(8 * octal ds + d) div 2 mod 2 = d div 2 mod 2"
      "(8 * octal ds + d) div 2 div 2 mod 2 = d div 2 div 2 mod 2" "(8 * octal ds + d) div 2 div 2 div 2 = octal ds" by blast+
  qed
  moreover have "3 * length (d # ds) = Suc (Suc (Suc (3 * length ds)))" by simp
  moreover have "popcount 3 d = d mod 2 + (d div 2 mod 2 + d div 2 div 2 mod 2)" by (simp add: numeral_eq_Suc)
  ultimately show ?case using Cons by (simp only: octal_simps popcount.simps list.map sum_list.Cons list.pred_inject)
qed simp

lemma popcount_extra: "0 \<le> u \<Longrightarrow> u < 2 ^ n \<Longrightarrow> popcount (n + k) u = popcount n u"
proof (induction n arbitrary: u)
  case 0
  have "popcount k 0 = 0" by (induction k) auto
  moreover have "u = 0" using 0 by simp
  ultimately show ?case by simp
qed simp

lemma base64:
  fixes r0 r1 r2 r3 r4 r5 :: int
  assumes "0 \<le> r0" "r0 < 64" "0 \<le> r1" "r1 < 64" "0 \<le> r2" "r2 < 64" "0 \<le> r3" "r3 < 64"
  defines "U \<equiv> r0 + 64 * (r1 + 64 * (r2 + 64 * (r3 + 64 * (r4 + 64 * r5))))"
  shows "U div 4096 = r2 + 64 * (r3 + 64 * (r4 + 64 * r5))" and "U div 16777216 = r4 + 64 * r5"
    and "(U + U div 4096 + U div 16777216) mod 64 = (r0 + r2 + r4) mod 64"
proof -
  have d: "(r + 64 * v) div 64 = v" if "0 \<le> r" "r < 64" for r v :: int using that by simp
  have "U div 4096 = U div 64 div 64" using zdiv_zmult2_eq [of 64 U 64] by simp
  then show 1: "U div 4096 = r2 + 64 * (r3 + 64 * (r4 + 64 * r5))" unfolding U_def using assms by (simp only: d)
  have "U div 16777216 = U div 4096 div 64 div 64" using zdiv_zmult2_eq [of 64 "U div 4096" 64] zdiv_zmult2_eq [of 4096 U 4096] by simp
  then show 2: "U div 16777216 = r4 + 64 * r5" unfolding 1 using assms by (simp only: d)
  have "U + U div 4096 + U div 16777216 = (r0 + r2 + r4) + 64 * (r1 + 64 * (r2 + 64 * (r3 + 64 * (r4 + 64 * r5))) +
      (r3 + 64 * (r4 + 64 * r5)) + r5)" unfolding 1 2 unfolding U_def by simp
  then show "(U + U div 4096 + U div 16777216) mod 64 = (r0 + r2 + r4) mod 64" by (simp only: mod_mult_self2)
qed

lemma BitCount_popcount:
  assumes "is_u32 u"
  shows "BitCount u = popcount 32 u"
proof -
  define d where "d i = u div 8 ^ i mod 8" for i :: nat
  have dig: "is_digit (d i)" for i by (simp add: d_def)
  have step: "u div 8 ^ i = 8 * (u div 8 ^ Suc i) + d i" for i
  proof -
    have "u div 8 ^ Suc i = u div 8 ^ i div 8" unfolding power_Suc2 by (rule zdiv_zmult2_eq) simp
    then show ?thesis by (simp only: d_def mult_div_mod_eq)
  qed
  have top: "u div 8 ^ 11 = 0" "d 10 \<le> 3"
  proof -
    have u: "0 \<le> u" "u < 4294967296" using assms by (simp_all add: is_u32_def)
    then show "u div 8 ^ 11 = 0" by (simp add: div_pos_pos_trivial)
    have "u div 1073741824 < 4" "0 \<le> u div 1073741824" using u by (simp_all add: div_less_iff pos_imp_zdiv_nonneg_iff)
    then have "u div 1073741824 mod 8 = u div 1073741824" by (intro mod_pos_pos_trivial) simp_all
    then show "d 10 \<le> 3" using \<open>u div 1073741824 < 4\<close> by (simp add: d_def)
  qed
  let ?ds = "[d 0, d 1, d 2, d 3, d 4, d 5, d 6, d 7, d 8, d 9, d 10]"
  have u: "u = octal ?ds"
  proof -
    have "u div 8 ^ i = octal (map d [i..<11])" if "i \<le> 11" for i
      using that
    proof (induction i rule: inc_induct)
      case base
      show ?case using top(1) by simp
    next
      case (step n)
      then show ?case using \<open>\<And>i. u div 8 ^ i = 8 * (u div 8 ^ Suc i) + d i\<close> [of n]
        by (simp only: upt_conv_Cons list.map octal_simps)
    qed
    moreover have "[0..<11] = [0, 1, 2, 3, 4, 5, 6, 7, 8, 9, 10 :: nat]" by code_simp
    ultimately have "u div 8 ^ 0 = octal (map d [0, 1, 2, 3, 4, 5, 6, 7, 8, 9, 10])" by (metis le0)
    then show ?thesis by (simp only: power_0 div_by_1 list.map)
  qed
  define p where "p i = popcount 3 (d i)" for i
  have p: "0 \<le> p i" "p i \<le> 3" for i using popcount_range [of 3 "d i"] by (simp_all add: p_def)
  have "p 10 \<le> 2"
  proof -
    have "d 10 \<in> {0, 1, 2, 3}" using dig [of 10] top(2) by auto
    then show ?thesis by (auto simp: p_def numeral_eq_Suc)
  qed
  note p10 = this
  let ?ps = "[p 0, p 1, p 2, p 3, p 4, p 5, p 6, p 7, p 8, p 9, p 10]"
  have t1: "u - (shr u 1 AND 3681400539) - (shr u 2 AND 1227133513) = octal ?ps"
  proof -
    have l: "list_all is_digit ?ds" using dig by (simp only: list.pred_inject simp_thms)
    have m: "map (popcount 3) ?ds = ?ps" by (simp only: list.map p_def)
    have r: "octal (replicate (length ?ds) 3) = 3681400539" "octal (replicate (length ?ds) 1) = 1227133513" by simp_all
    from octal_ones_digits [OF l] show ?thesis unfolding m r u [symmetric] by (simp add: octal_ones_def shr_def)
  qed
  let ?qs = "[p 0 + p 1, p 1 + p 2, p 2 + p 3, p 3 + p 4, p 4 + p 5, p 5 + p 6, p 6 + p 7, p 7 + p 8, p 8 + p 9, p 9 + p 10, p 10]"
  have "octal ?ps div 8 = octal [p 1, p 2, p 3, p 4, p 5, p 6, p 7, p 8, p 9, p 10]"
    using p [of 0] by simp
  then have t2: "octal ?ps + shr (octal ?ps) 3 = octal ?qs" by (simp add: shr_def)
  have small: "0 \<le> octal ?ps" "octal ?ps \<le> 3681400539" "0 \<le> octal ?qs" "octal ?qs < 4294967296"
    using p [of 0] p [of 1] p [of 2] p [of 3] p [of 4] p [of 5] p [of 6] p [of 7] p [of 8] p [of 9] p10 p [of 10] by simp_all
  let ?q = "\<lambda>i. p (2 * i) + p (2 * i + 1)"
  have "octal ?qs AND octal [7, 0, 7, 0, 7, 0, 7, 0, 7, 0, 3] = octal [p 0 + p 1, 0, p 2 + p 3, 0, p 4 + p 5, 0, p 6 + p 7, 0, p 8 + p 9, 0, p 10]"
  proof -
    have m: "x AND 7 = x" if "0 \<le> x" "x < 8" for x :: int
      using that take_bit_eq_mask [of 3 x] by (simp add: mask_eq_exp_minus_1 take_bit_int_eq_self)
    have m3: "x AND 3 = x" if "0 \<le> x" "x < 4" for x :: int
      using that take_bit_eq_mask [of 2 x] by (simp add: mask_eq_exp_minus_1 take_bit_int_eq_self)
    show ?thesis
      using octal_and [of ?qs "[7, 0, 7, 0, 7, 0, 7, 0, 7, 0, 3]"]
        p [of 0] p [of 1] p [of 2] p [of 3] p [of 4] p [of 5] p [of 6] p [of 7] p [of 8] p [of 9] p10 p [of 10]
      by (simp add: m m3 del: octal_simps(2))
  qed
  then have t3: "octal ?qs AND 3340530119 = octal [p 0 + p 1, 0, p 2 + p 3, 0, p 4 + p 5, 0, p 6 + p 7, 0, p 8 + p 9, 0, p 10]"
    by simp
  define q0 q1 q2 q3 q4 where "q0 = p 0 + p 1" and "q1 = p 2 + p 3" and "q2 = p 4 + p 5" and "q3 = p 6 + p 7" and "q4 = p 8 + p 9"
  define T where "T = q0 + 64 * (q1 + 64 * (q2 + 64 * (q3 + 64 * (q4 + 64 * p 10))))"
  have q: "0 \<le> q0" "q0 \<le> 6" "0 \<le> q1" "q1 \<le> 6" "0 \<le> q2" "q2 \<le> 6" "0 \<le> q3" "q3 \<le> 6" "0 \<le> q4" "q4 \<le> 6" "0 \<le> p 10"
    using p by (simp_all add: q0_def q1_def q2_def q3_def q4_def add_mono [of _ 3 _ 3, simplified])
  have t3': "octal [p 0 + p 1, 0, p 2 + p 3, 0, p 4 + p 5, 0, p 6 + p 7, 0, p 8 + p 9, 0, p 10] = T"
    by (simp add: T_def q0_def q1_def q2_def q3_def q4_def)
  have "T div 64 = q1 + 64 * (q2 + 64 * (q3 + 64 * (q4 + 64 * p 10)))" using q by (simp add: T_def)
  then have t4: "T + shr T 6 = (q0 + q1) + 64 * ((q1 + q2) + 64 * ((q2 + q3) + 64 * ((q3 + q4) + 64 * ((q4 + p 10) + 64 * p 10))))" (is "_ = ?U")
    by (simp add: shr_def T_def)
  have "0 \<le> q0 + q1" "q0 + q1 < 64" "0 \<le> q1 + q2" "q1 + q2 < 64" "0 \<le> q2 + q3" "q2 + q3 < 64" "0 \<le> q3 + q4" "q3 + q4 < 64"
    using q by simp_all
  note base = base64 [OF this, of "q4 + p 10" "p 10"]
  have r: "0 \<le> (q0 + q1) + (q2 + q3) + (q4 + p 10)" "(q0 + q1) + (q2 + q3) + (q4 + p 10) < 64"
    using q p10 by linarith+
  have U: "0 \<le> ?U" "?U \<le> 3000000000" using q p10 by simp_all
  have "(?U + ?U div 4096 + ?U div 16777216) mod 64 = (q0 + q1) + (q2 + q3) + (q4 + p 10)"
    unfolding base(3) using r by (rule mod_pos_pos_trivial)
  moreover have "x AND 63 = x mod 64" for x :: int
    using take_bit_eq_mask [of 6 x] by (simp add: mask_eq_exp_minus_1 take_bit_eq_mod)
  ultimately have t5: "(?U + shr ?U 12 + shr ?U 24) AND 63 = (q0 + q1) + (q2 + q3) + (q4 + p 10)"
    by (simp add: shr_def)
  have u3: "?U div 4096 \<le> 1000000" "?U div 16777216 \<le> 1000000" unfolding base(1,2) using q p10 by simp_all
  have "popcount 32 u = (q0 + q1) + (q2 + q3) + (q4 + p 10)"
  proof -
    have "u < 2 ^ 32" "0 \<le> u" using assms by (simp_all add: is_u32_def)
    then have "popcount 32 u = popcount 33 u" using popcount_extra [of u 32 1] by simp
    also have "\<dots> = sum_list ?ps" using popcount_octal [of ?ds] dig u by (simp add: p_def del: octal_simps(2))
    finally show ?thesis by (simp add: q0_def q1_def q2_def q3_def q4_def)
  qed
  moreover have "BitCount u = (q0 + q1) + (q2 + q3) + (q4 + p 10)"
  proof -
    have a: "0 \<le> shr u 1 AND 3681400539" "0 \<le> shr u 2 AND 1227133513" by simp_all
    have s0: "0 \<le> u - (shr u 1 AND 3681400539)" "u < 4294967296"
      using t1 small(1) a assms unfolding is_u32_def by linarith+
    have w1: "u32 (u32 (u - (shr u 1 AND 3681400539)) - (shr u 2 AND 1227133513)) = octal ?ps"
    proof -
      have "u32 (u - (shr u 1 AND 3681400539)) = u - (shr u 1 AND 3681400539)"
        by (rule u32_id, unfold is_u32_def) (use s0 a in linarith)
      moreover have "u32 (octal ?ps) = octal ?ps" by (rule u32_id, unfold is_u32_def) (use small(1,2) in linarith)
      ultimately show ?thesis using t1 by metis
    qed
    have w2: "u32 (octal ?ps + shr (octal ?ps) 3) AND 3340530119 = T"
      unfolding t2 using small(3,4) t3 t3' by (simp add: u32_id is_u32_def del: octal_simps(2))
    have w3: "u32 (T + shr T 6) = ?U" unfolding t4 by (rule u32_id) (use U in \<open>simp add: is_u32_def\<close>)
    have le: "?U + ?U div 4096 + ?U div 16777216 \<le> 4294967295" "0 \<le> ?U div 4096" "0 \<le> ?U div 16777216"
      "?U + ?U div 4096 \<le> 4294967295"
      using U u3 by (simp_all add: pos_imp_zdiv_nonneg_iff)
    have w4: "u32 (u32 (?U + shr ?U 12) + shr ?U 24) = ?U + shr ?U 12 + shr ?U 24"
      using le U by (simp add: u32_id is_u32_def shr_def)
    have "BitCount u = s32 ((?U + shr ?U 12 + shr ?U 24) AND 63)"
      unfolding BitCount_def Let_def w1 w2 w3 w4 by (rule refl)
    then show ?thesis unfolding t5 using q p10 by (simp add: s32_id is_s32_def)
  qed
  ultimately show ?thesis by simp
qed

lemma BitCount_range: "is_u32 u \<Longrightarrow> 0 \<le> BitCount u \<and> BitCount u \<le> 32"
  using popcount_range [of 32 u] by (simp add: BitCount_popcount)

lemma is_u32_xor:
  assumes "is_u32 a" "is_u32 b"
  shows "is_u32 (a XOR b)"
proof -
  have "a = take_bit 32 a" "b = take_bit 32 b" using assms by (simp_all add: is_u32_def take_bit_int_eq_self)
  then have "a XOR b = take_bit 32 (a XOR b)" by (metis take_bit_xor)
  then have "0 \<le> a XOR b" "a XOR b < 2 ^ 32"
    using take_bit_nonnegative [of 32 "a XOR b"] take_bit_int_less_exp [of 32 "a XOR b"] by simp_all
  then show ?thesis by (simp add: is_u32_def)
qed

section \<open>The smoothed counts\<close>

text \<open>The mean moves towards the new value and never past it.\<close>

lemma mean_estimator_between:
  assumes "is_s32 new_value" "is_s32 m" "is_s32 (new_value - m)"
  shows "min new_value m \<le> WebRtc_MeanEstimatorFix new_value f m \<and> WebRtc_MeanEstimatorFix new_value f m \<le> max new_value m"
    and "0 < f \<Longrightarrow> m < new_value \<Longrightarrow> WebRtc_MeanEstimatorFix new_value f m < new_value"
proof -
  have d: "s32 (new_value - m) = new_value - m" using assms(3) by (rule s32_id)
  define k where "k = (if new_value - m < 0 then - shr (- (new_value - m)) f else shr (new_value - m) f)"
  have k: "min 0 (new_value - m) \<le> k" "k \<le> max 0 (new_value - m)"
    using shr_le [of "- (new_value - m)" f] shr_le [of "new_value - m" f] by (auto simp: k_def)
  have "is_s32 (m + k)" using k assms(1,2) by (auto simp: is_s32_def min_def max_def split: if_splits)
  then have e: "WebRtc_MeanEstimatorFix new_value f m = m + k"
    by (simp add: WebRtc_MeanEstimatorFix_def Let_def d k_def s32_id)
  show "min new_value m \<le> WebRtc_MeanEstimatorFix new_value f m \<and> WebRtc_MeanEstimatorFix new_value f m \<le> max new_value m"
    unfolding e using k by auto
  assume f: "0 < f" and lt: "m < new_value"
  have "(2::int) ^ 1 \<le> 2 ^ f" using f by (intro power_increasing) auto
  then have "new_value - m < (new_value - m) * 2 ^ f" using lt by simp
  then have "shr (new_value - m) f < new_value - m" by (simp only: shr_less_iff)
  then show "WebRtc_MeanEstimatorFix new_value f m < new_value" unfolding e k_def using lt by simp
qed

section \<open>Invariants\<close>

definition fe_ok :: "BinaryDelayEstimatorFarend \<Rightarrow> bool" where
  "fe_ok far \<longleftrightarrow> 0 < far_history_size far \<and>
     length (binary_far_history far) = far_history_size far \<and> list_all is_u32 (binary_far_history far) \<and>
     length (far_bit_counts far) = far_history_size far \<and>
     list_all (\<lambda>c. 0 \<le> c \<and> c \<le> 32) (far_bit_counts far)"

text \<open>
  Before the first estimate the delay is -2 and \<open>compare_delay\<close> points to the extra element of the
  arrays; afterwards both are the last estimate.
\<close>

definition bde_ok :: "BinaryDelayEstimator \<Rightarrow> bool" where
  "bde_ok self \<longleftrightarrow> 0 < history_size self \<and>
     length (mean_bit_counts self) = history_size self + 1 \<and>
     list_all (\<lambda>m. 0 \<le> m \<and> m < 16384) (mean_bit_counts self) \<and>
     length (bit_counts self) = history_size self \<and>
     length (histogram self) = history_size self + 1 \<and>
     list_all (\<lambda>h. 0 \<le> h \<and> h \<le> 3000) (histogram self) \<and>
     0 < near_history_size self \<and>
     length (binary_near_history self) = near_history_size self \<and>
     list_all is_u32 (binary_near_history self) \<and>
     0 \<le> lookahead self \<and> lookahead self < int (near_history_size self) \<and>
     (last_delay self = - 2 \<and> compare_delay self = int (history_size self) \<or>
      0 \<le> last_delay self \<and> last_delay self < int (history_size self) \<and> compare_delay self = last_delay self)"

lemma add_far_ok:
  assumes "fe_ok far" and "is_u32 spectrum"
  shows "fe_ok (WebRtc_AddBinaryFarSpectrum far spectrum)"
  using assms BitCount_range [OF assms(2)]
  by (auto simp: fe_ok_def WebRtc_AddBinaryFarSpectrum_def Let_def len_simps
      intro!: list_all_update list_all_blit list_all_take)

lemma add_far_history:
  assumes "fe_ok far"
  shows "binary_far_history (WebRtc_AddBinaryFarSpectrum far spectrum) =
      spectrum # take (far_history_size far - 1) (binary_far_history far)"
    and "far_bit_counts (WebRtc_AddBinaryFarSpectrum far spectrum) =
      BitCount spectrum # take (far_history_size far - 1) (far_bit_counts far)"
  using assms by (simp_all add: fe_ok_def WebRtc_AddBinaryFarSpectrum_def Let_def delay_line)

text \<open>The delay line, the means, the search.\<close>

lemma near_delay_line_ok:
  assumes "bde_ok self" "is_u32 spectrum" "near_delay_line self spectrum = (self', s)"
  shows "bde_ok self' \<and> is_u32 s \<and> history_size self' = history_size self \<and>
    last_delay self' = last_delay self \<and>
    s = (spectrum # binary_near_history self) ! nat (lookahead self)"
proof (cases "near_history_size self > 1")
  case True
  let ?n = "near_history_size self" and ?h = "binary_near_history self"
  have l: "length ?h = ?n" "nat (lookahead self) < ?n" "list_all is_u32 ?h" using assms(1) by (auto simp: bde_ok_def)
  have h: "(blit ?h 1 (take (?n - 1) ?h))[0 := spectrum] = spectrum # take (?n - 1) ?h"
    using l True by (simp add: delay_line)
  have u: "list_all is_u32 (spectrum # take (?n - 1) ?h)" using l assms(2) by (simp add: list_all_take)
  have s: "self' = self\<lparr>binary_near_history := spectrum # take (?n - 1) ?h\<rparr>"
    "s = (spectrum # take (?n - 1) ?h) ! nat (lookahead self)"
    using assms(3) True h by (simp_all add: near_delay_line_def Let_def)
  have "is_u32 s" unfolding s(2) by (rule list_all_nth [OF u]) (use l True in simp)
  moreover have "(spectrum # take (?n - 1) ?h) ! nat (lookahead self) = (spectrum # ?h) ! nat (lookahead self)"
    using l(2) by (cases "nat (lookahead self)") auto
  moreover have "bde_ok self'" using assms(1) u l True unfolding s by (simp add: bde_ok_def)
  ultimately show ?thesis unfolding s by simp
next
  case False
  then have "nat (lookahead self) = 0" using assms(1) by (auto simp: bde_ok_def)
  then show ?thesis using False assms by (simp add: near_delay_line_def)
qed

lemma shifts_range: "0 \<le> c \<Longrightarrow> c \<le> 32 \<Longrightarrow> 0 < nat (kShiftsAtZero - shr (kShiftsLinearSlope * c) 4)"
proof -
  assume "0 \<le> c" "c \<le> 32"
  then have "shr (3 * c) 4 < 7" by (subst shr_less_iff) simp
  then show ?thesis by (simp add: kShiftsAtZero_def kShiftsLinearSlope_def)
qed

text \<open>A mean below 32 matching bits stays below, whatever the counts are.\<close>

lemma mean_step_range:
  assumes "0 \<le> b" "b \<le> 32" "0 \<le> m" "m < 16384" "0 < f"
  shows "0 \<le> WebRtc_MeanEstimatorFix (s32 (shl b 9)) f m \<and> WebRtc_MeanEstimatorFix (s32 (shl b 9)) f m < 16384"
proof -
  have v: "s32 (shl b 9) = b * 512" "0 \<le> b * 512" "b * 512 \<le> 16384"
    using assms(1,2) by (simp_all add: shl_def s32_id is_s32_def)
  have "is_s32 (b * 512)" "is_s32 m" "is_s32 (b * 512 - m)" using v assms by (auto simp: is_s32_def)
  note mean_estimator_between [OF this, of f]
  then show ?thesis unfolding v(1) using assms v by (cases "m < b * 512") auto
qed

lemma update_means_ok:
  assumes "bde_ok self" "fe_ok far" "far_history_size far = history_size self"
    and "list_all (\<lambda>b. 0 \<le> b \<and> b \<le> 32) (bit_counts self)"
  shows "bde_ok (update_means far self)"
proof -
  let ?P = "\<lambda>means :: int list. length means = history_size self + 1 \<and> list_all (\<lambda>m. 0 \<le> m \<and> m < 16384) means"
  let ?f = "\<lambda>i means. let bit_count = s32 (shl (bit_counts self ! i) 9)
            in if far_bit_counts far ! i > 0
               then let shifts = kShiftsAtZero - shr (kShiftsLinearSlope * far_bit_counts far ! i) 4
                    in means[i := WebRtc_MeanEstimatorFix bit_count (nat shifts) (means ! i)]
               else means"
  have "?P (fold ?f [0..<history_size self] (mean_bit_counts self))"
  proof (rule fold_keeps [where P = ?P])
    show "?P (mean_bit_counts self)" using assms(1) by (simp add: bde_ok_def)
    fix i means assume i: "i \<in> set [0..<history_size self]" and P: "?P means"
    have b: "0 \<le> bit_counts self ! i \<and> bit_counts self ! i \<le> 32"
      using list_all_nth [OF assms(4), of i] i assms(1) by (simp add: bde_ok_def)
    have c: "0 \<le> far_bit_counts far ! i \<and> far_bit_counts far ! i \<le> 32"
      using assms(2,3) i by (auto simp: fe_ok_def list_all_length)
    have m: "0 \<le> means ! i \<and> means ! i < 16384" using P i list_all_nth [of _ means i] by auto
    show "?P (?f i means)"
      using P mean_step_range [of "bit_counts self ! i" "means ! i"] shifts_range [of "far_bit_counts far ! i"] b c m
      by (auto simp: Let_def intro!: list_all_update)
  qed
  then show ?thesis using assms(1) by (simp add: update_means_def Let_def bde_ok_def)
qed

text \<open>The candidate is the first position of the smallest mean; there always is one.\<close>

lemma find_candidate_spec:
  assumes "0 < n" and "n \<le> length means" and "list_all (\<lambda>m. 0 \<le> m \<and> m < 16384) means"
  obtains k worst where "find_candidate means n = (int k, means ! k, worst)" "k < n"
    "\<forall>i<n. means ! k \<le> means ! i" "\<forall>i<k. means ! k < means ! i" "means ! k \<le> worst" "worst < 16384"
    "\<forall>i<n. means ! i \<le> worst"
proof -
  let ?f = "\<lambda>i (candidate_delay, best, worst).
        let (candidate_delay, best) = (if means ! i < best then (int i, means ! i) else (candidate_delay, best));
            worst = (if means ! i > worst then means ! i else worst)
        in (candidate_delay, best, worst)"
  have m: "0 \<le> means ! i" "means ! i < 16384" if "i < length means" for i
    using assms(3) that by (auto simp: list_all_length)
  have "j < n \<Longrightarrow> \<exists>k worst. fold ?f [0..<Suc j] (- 1, kMaxBitCountsQ9, 0) = (int k, means ! k, worst) \<and> k \<le> j \<and>
      (\<forall>i\<le>j. means ! k \<le> means ! i) \<and> (\<forall>i<k. means ! k < means ! i) \<and> worst < 16384 \<and>
      (\<forall>i\<le>j. means ! i \<le> worst)" for j
  proof (induction j)
    case 0
    have "0 < length means" using assms(1,2) by linarith
    then show ?case using m [of 0] by (intro exI [of _ 0] exI [of _ "means ! 0"]) (auto simp: kMaxBitCountsQ9_def)
  next
    case (Suc j)
    then obtain k worst where IH: "fold ?f [0..<Suc j] (- 1, kMaxBitCountsQ9, 0) = (int k, means ! k, worst)" "k \<le> j"
      "\<forall>i\<le>j. means ! k \<le> means ! i" "\<forall>i<k. means ! k < means ! i" "worst < 16384" "\<forall>i\<le>j. means ! i \<le> worst" by auto
    have s: "fold ?f [0..<Suc (Suc j)] (- 1, kMaxBitCountsQ9, 0) = ?f (Suc j) (int k, means ! k, worst)"
      using IH(1) by simp
    define k' where "k' = (if means ! Suc j < means ! k then Suc j else k)"
    define w' where "w' = (if means ! Suc j > worst then means ! Suc j else worst)"
    have "fold ?f [0..<Suc (Suc j)] (- 1, kMaxBitCountsQ9, 0) = (int k', means ! k', w')"
      unfolding s by (simp add: k'_def w'_def)
    moreover have "means ! Suc j < 16384" using m [of "Suc j"] Suc.prems assms(2) by simp
    moreover have "k' \<le> Suc j" "\<forall>i\<le>Suc j. means ! k' \<le> means ! i" "w' < 16384 \<or> means ! Suc j \<ge> 16384" "\<forall>i\<le>Suc j. means ! i \<le> w'"
      using IH by (auto simp: k'_def w'_def le_Suc_eq intro: order_trans less_imp_le)
    moreover have "\<forall>i<k'. means ! k' < means ! i"
      using IH(3,4) by (auto simp: k'_def less_Suc_eq_le intro: less_le_trans)
    ultimately show ?case by (intro exI [of _ k'] exI [of _ w']) auto
  qed
  from this [of "n - 1"] obtain k worst where "find_candidate means n = (int k, means ! k, worst)" "k \<le> n - 1"
    "\<forall>i\<le>n - 1. means ! k \<le> means ! i" "\<forall>i<k. means ! k < means ! i" "worst < 16384" "\<forall>i\<le>n - 1. means ! i \<le> worst"
    using assms(1) by (auto simp: find_candidate_def)
  then show ?thesis using that [of k worst] assms(1) by auto
qed

section \<open>The histogram\<close>

definition hist_ok :: "float32 list \<Rightarrow> bool" where
  "hist_ok = list_all (\<lambda>h. 0 \<le> h \<and> h \<le> 3000)"

lemma fsub_le_3000: "h \<le> 3000 \<Longrightarrow> 0 \<le> d \<Longrightarrow> fsub h d \<le> 3000"
  using fround_le [of "h - d" 3000] by (simp add: fsub_def)

lemma q14_nonneg: "0 \<le> v \<Longrightarrow> 0 \<le> q14_to_float v"
  by (simp add: q14_to_float_def fmul_def float_of_int_def kQ14Scaling_def fround_nonneg)

lemma histogram_step_ok:
  assumes "hist_ok hist" and "0 \<le> valley_depth"
    and "last_del - 2 \<le> int i \<Longrightarrow> int i \<le> last_del + 1 \<Longrightarrow> 0 \<le> decrease" and "i < length hist"
  shows "hist_ok (histogram_step last_del c decrease valley_depth i hist)"
proof -
  define inl where "inl = (int i \<ge> last_del - 2 \<and> int i \<le> last_del + 1 \<and> int i \<noteq> c)"
  define inc where "inc = (int i \<ge> c - 2 \<and> int i \<le> c + 1)"
  define d where "d = fadd (fmul decrease (float_of_bool inl)) (fmul valley_depth (float_of_bool (\<not> inl \<and> \<not> inc)))"
  have "0 \<le> fmul decrease (float_of_bool inl)"
    using assms(3) by (auto simp: fmul_def float_of_bool_def inl_def fround_nonneg)
  moreover have "0 \<le> fmul valley_depth (float_of_bool (\<not> inl \<and> \<not> inc))"
    using assms(2) by (simp add: fmul_def float_of_bool_def fround_nonneg)
  ultimately have d: "0 \<le> d" by (simp add: d_def fadd_def fround_nonneg)
  have h: "hist ! i \<le> 3000" using assms(1,4) by (auto simp: hist_ok_def list_all_length)
  have e: "histogram_step last_del c decrease valley_depth i hist =
      hist[i := (if fsub (hist ! i) d < 0 then 0 else fsub (hist ! i) d)]"
    using assms(4) by (simp add: histogram_step_def d_def inl_def inc_def Let_def)
  show ?thesis unfolding e using assms(1) fsub_le_3000 [OF h d] by (auto simp: hist_ok_def intro!: list_all_update)
qed

lemma length_histogram_step [len_simps]: "length (histogram_step a b c d i hist) = length hist"
  by (simp add: histogram_step_def Let_def)

text \<open>What the statistics leave alone, and that they keep the histogram within its bounds.\<close>

lemma statistics_frame:
  "UpdateRobustValidationStatistics self c depth level =
   self\<lparr>candidate_hits := candidate_hits (UpdateRobustValidationStatistics self c depth level),
        last_candidate_delay := last_candidate_delay (UpdateRobustValidationStatistics self c depth level),
        histogram := histogram (UpdateRobustValidationStatistics self c depth level)\<rparr>"
  by (simp add: UpdateRobustValidationStatistics_def Let_def)

lemma statistics_histogram:
  assumes "hist_ok (histogram self)" "length (histogram self) = history_size self + 1" "0 \<le> c" "c < int (history_size self)"
    and "0 \<le> depth"
    and "0 \<le> last_delay self \<Longrightarrow> 0 \<le> s32 (mean_bit_counts self ! nat (compare_delay self) - level)"
    and "0 \<le> last_delay self \<or> last_delay self = - 2"
  shows "hist_ok (histogram (UpdateRobustValidationStatistics self c depth level)) \<and>
    length (histogram (UpdateRobustValidationStatistics self c depth level)) = history_size self + 1"
proof -
  define vd where "vd = q14_to_float depth"
  have vd: "0 \<le> vd" using assms(5) by (simp add: vd_def q14_nonneg)
  define h1 where "h1 = (histogram self)[nat c := fadd (histogram self ! nat c) vd]"
  define h2 where "h2 = (if h1 ! nat c > kHistogramMax then h1[nat c := kHistogramMax] else h1)"
  have n: "nat c < length (histogram self)" using assms(2,3,4) by simp
  have "0 \<le> histogram self ! nat c" using assms(1) n by (auto simp: hist_ok_def list_all_length)
  then have "0 \<le> fadd (histogram self ! nat c) vd" using vd by (simp add: fadd_def fround_nonneg)
  then have h2: "hist_ok h2" "length h2 = history_size self + 1"
    using assms(1,2) n by (auto simp: h2_def h1_def hist_ok_def kHistogramMax_def not_less intro!: list_all_update)
  have key: "hist_ok (fold (histogram_step (last_delay self) c dec vd) [0..<history_size self] h2) \<and>
      length (fold (histogram_step (last_delay self) c dec vd) [0..<history_size self] h2) = history_size self + 1"
    if "0 \<le> last_delay self \<Longrightarrow> 0 \<le> dec" for dec
  proof (rule fold_keeps [where P = "\<lambda>h. hist_ok h \<and> length h = history_size self + 1"])
    fix i h assume "i \<in> set [0..<history_size self]" "hist_ok h \<and> length h = history_size self + 1"
    then show "hist_ok (histogram_step (last_delay self) c dec vd i h) \<and>
        length (histogram_step (last_delay self) c dec vd i h) = history_size self + 1"
      using that assms(7) vd by (auto simp: len_simps intro!: histogram_step_ok)
  qed (use h2 in simp)
  have "\<exists>dec. histogram (UpdateRobustValidationStatistics self c depth level) =
      fold (histogram_step (last_delay self) c dec vd) [0..<history_size self] h2 \<and> (0 \<le> last_delay self \<longrightarrow> 0 \<le> dec)"
    using vd assms(6) q14_nonneg
    by (auto simp: UpdateRobustValidationStatistics_def Let_def h2_def h1_def vd_def)
  then show ?thesis using key by auto
qed

section \<open>The decision\<close>

lemma update_threshold_frame:
  "update_threshold best depth self = self\<lparr>minimum_probability := minimum_probability (update_threshold best depth self)\<rparr>"
  by (simp add: update_threshold_def Let_def)

lemma accept_candidate_ok:
  assumes "bde_ok self" "0 \<le> c" "c < int (history_size self)"
  shows "bde_ok (accept_candidate c best self) \<and> last_delay (accept_candidate c best self) = c"
proof -
  have "nat c < length (histogram self)" using assms by (simp add: bde_ok_def)
  then have "0 \<le> histogram self ! nat c \<and> histogram self ! nat c \<le> 3000"
    using assms(1) by (auto simp: bde_ok_def list_all_length)
  then show ?thesis using assms
    by (auto simp: accept_candidate_def Let_def bde_ok_def intro!: list_all_update)
qed

lemma validate_candidate_ok:
  assumes "bde_ok self" "0 \<le> c" "c < int (history_size self)" "0 \<le> depth"
    and "\<forall>i<history_size self. best \<le> mean_bit_counts self ! i" "0 \<le> best"
  shows "bde_ok (validate_candidate c best depth self) \<and>
    (last_delay (validate_candidate c best depth self) = last_delay self \<or> last_delay (validate_candidate c best depth self) = c)"
proof -
  define s1 where "s1 = (update_threshold best depth self)\<lparr>last_delay_probability :=
      s32 (last_delay_probability (update_threshold best depth self) + 1)\<rparr>"
  define s2 where "s2 = UpdateRobustValidationStatistics s1 c depth best"
  have s1: "s1 = self\<lparr>minimum_probability := minimum_probability s1, last_delay_probability := last_delay_probability s1\<rparr>"
    unfolding s1_def by (subst (1 2) update_threshold_frame) simp
  have ok1: "bde_ok s1" "last_delay s1 = last_delay self" "history_size s1 = history_size self"
    "mean_bit_counts s1 = mean_bit_counts self" "compare_delay s1 = compare_delay self"
    using assms(1) by (subst s1, simp add: bde_ok_def)+
  have dec: "0 \<le> s32 (mean_bit_counts s1 ! nat (compare_delay s1) - best)" if "0 \<le> last_delay s1"
  proof -
    have l: "nat (compare_delay self) < history_size self" using assms(1) that ok1 by (auto simp: bde_ok_def)
    then have "best \<le> mean_bit_counts self ! nat (compare_delay self)" using assms(5) by blast
    moreover have "mean_bit_counts self ! nat (compare_delay self) < 16384"
      using assms(1) l by (auto simp: bde_ok_def list_all_length)
    ultimately show ?thesis using assms(6) ok1 by (simp add: s32_id is_s32_def)
  qed
  have h: "hist_ok (histogram s2) \<and> length (histogram s2) = history_size s1 + 1"
    unfolding s2_def using ok1 assms dec
    by (intro statistics_histogram) (auto simp: bde_ok_def hist_ok_def)
  have s2: "s2 = s1\<lparr>candidate_hits := candidate_hits s2, last_candidate_delay := last_candidate_delay s2, histogram := histogram s2\<rparr>"
    unfolding s2_def by (rule statistics_frame)
  have "bde_ok (s1\<lparr>candidate_hits := a, last_candidate_delay := b, histogram := histogram s2\<rparr>)" for a b
    using ok1(1) h by (simp add: bde_ok_def hist_ok_def)
  then have "bde_ok s2" using s2 by metis
  moreover have "last_delay s2 = last_delay s1" "history_size s2 = history_size s1" by (subst s2, simp)+
  ultimately have ok2: "bde_ok s2 \<and> last_delay s2 = last_delay self \<and> history_size s2 = history_size self"
    using ok1 by simp
  have "validate_candidate c best depth self = s2 \<or> validate_candidate c best depth self = accept_candidate c best s2"
    by (simp add: validate_candidate_def Let_def s1_def s2_def)
  then show ?thesis using ok2 accept_candidate_ok [of s2 c best] assms(2,3) by auto
qed

lemma history_size_frames:
  "history_size (update_threshold best depth self) = history_size self"
  "history_size (accept_candidate c best self) = history_size self"
  "history_size (UpdateRobustValidationStatistics self c depth level) = history_size self"
  by (simp add: update_threshold_def Let_def)
    (simp add: accept_candidate_def Let_def, subst statistics_frame, simp)

lemma history_size_validate: "history_size (validate_candidate c best depth self) = history_size self"
  by (simp add: validate_candidate_def Let_def history_size_frames)

section \<open>Processing a spectrum\<close>

lemma process_ok:
  assumes "bde_ok self" "fe_ok far" "far_history_size far = history_size self" "is_u32 spectrum"
  obtains self' where "WebRtc_ProcessBinarySpectrum far self spectrum = Some (self', last_delay self')" "bde_ok self'"
    "history_size self' = history_size self"
proof -
  obtain s1 sp where s1: "near_delay_line self spectrum = (s1, sp)" by (rule prod.exhaust)
  note n = near_delay_line_ok [OF assms(1,4) s1]
  define s2 where "s2 = s1\<lparr>bit_counts := blit (bit_counts s1) 0 (BitCountComparison sp (binary_far_history far) (history_size s1))\<rparr>"
  define s3 where "s3 = update_means far s2"
  have cmp: "list_all (\<lambda>b. 0 \<le> b \<and> b \<le> 32) (BitCountComparison sp (binary_far_history far) (history_size s1))"
  proof -
    have "is_u32 (binary_far_history far ! i)" if "i < history_size s1" for i
      using that n assms(2,3) by (auto simp: fe_ok_def list_all_length)
    then show ?thesis using n BitCount_range is_u32_xor by (auto simp: BitCountComparison_def list_all_iff)
  qed
  have b: "bit_counts s2 = BitCountComparison sp (binary_far_history far) (history_size s1)"
    using n by (simp add: s2_def blit_whole BitCountComparison_def bde_ok_def)
  have ok2: "bde_ok s2" "history_size s2 = history_size self"
    using n b by (auto simp: s2_def bde_ok_def BitCountComparison_def blit_whole)
  have ok3: "bde_ok s3" "history_size s3 = history_size self"
    using update_means_ok [OF ok2(1) assms(2)] ok2(2) assms(3) cmp b by (simp_all add: s3_def update_means_def Let_def)
  have m: "0 < history_size s3" "history_size s3 \<le> length (mean_bit_counts s3)"
    "list_all (\<lambda>m. 0 \<le> m \<and> m < 16384) (mean_bit_counts s3)" using ok3(1) by (auto simp: bde_ok_def)
  obtain k worst where c: "find_candidate (mean_bit_counts s3) (history_size s3) = (int k, mean_bit_counts s3 ! k, worst)"
    "k < history_size s3" "\<forall>i<history_size s3. mean_bit_counts s3 ! k \<le> mean_bit_counts s3 ! i"
    "mean_bit_counts s3 ! k \<le> worst" "worst < 16384"
    using find_candidate_spec [OF m] by metis
  have best: "0 \<le> mean_bit_counts s3 ! k" using m c(2) by (auto simp: list_all_length)
  then have d: "0 \<le> s32 (worst - mean_bit_counts s3 ! k)" using c(4,5) by (simp add: s32_id is_s32_def)
  define s4 where "s4 = validate_candidate (int k) (mean_bit_counts s3 ! k) (s32 (worst - mean_bit_counts s3 ! k)) s3"
  have ok4: "bde_ok s4" unfolding s4_def
    by (rule validate_candidate_ok [THEN conjunct1]) (use ok3(1) c d best in auto)
  have "WebRtc_ProcessBinarySpectrum far self spectrum = Some (s4, last_delay s4)"
    using assms(3) s1 c(1) by (simp add: WebRtc_ProcessBinarySpectrum_def s2_def [symmetric] s3_def [symmetric] s4_def Let_def)
  moreover have "history_size s4 = history_size self" using ok3 by (simp add: s4_def history_size_validate)
  ultimately show ?thesis using that ok4 by blast
qed

section \<open>Creation and resets\<close>

lemma length_grow [len_simps]: "length (grow xs n) = n"
  by (simp add: grow_def)

lemma grow_all: "list_all P xs \<Longrightarrow> P 0 \<Longrightarrow> list_all P (grow xs n)"
  by (auto simp: grow_def list_all_iff dest: in_set_takeD)

lemma allocate_far_ok:
  assumes "WebRtc_AllocateFarendBufferMemory m1 m2 far n = (far', r)" and "0 < r"
    and "list_all is_u32 (binary_far_history far)" "list_all (\<lambda>c. 0 \<le> c \<and> c \<le> 32) (far_bit_counts far)"
  shows "fe_ok far' \<and> far_history_size far' = n \<and> r = n"
  using assms by (auto simp: WebRtc_AllocateFarendBufferMemory_def Let_def fe_ok_def len_simps is_u32_def
      split: if_splits intro!: grow_all)

lemma create_far_ok:
  assumes "WebRtc_CreateBinaryDelayEstimatorFarend m0 m1 m2 hsize = Some far"
  shows "fe_ok far \<and> int (far_history_size far) = hsize \<and> 1 < hsize"
proof -
  obtain far' r where a: "WebRtc_AllocateFarendBufferMemory m1 m2 \<lparr>far_bit_counts = [], binary_far_history = [], far_history_size = 0\<rparr> (nat hsize) = (far', r)"
    by (rule prod.exhaust)
  then show ?thesis using assms allocate_far_ok [OF a]
    by (auto simp: WebRtc_CreateBinaryDelayEstimatorFarend_def Let_def split: if_splits)
qed

lemma init_far_ok: "fe_ok far \<Longrightarrow> fe_ok (WebRtc_InitBinaryDelayEstimatorFarend far)"
  by (auto simp: fe_ok_def WebRtc_InitBinaryDelayEstimatorFarend_def blit_whole list_all_iff is_u32_def)

text \<open>The shapes that the allocation gives the estimator, before it is initialised.\<close>

definition bde_shape :: "BinaryDelayEstimator \<Rightarrow> bool" where
  "bde_shape self \<longleftrightarrow> 0 < history_size self \<and>
     length (mean_bit_counts self) = history_size self + 1 \<and>
     length (bit_counts self) = history_size self \<and>
     length (histogram self) = history_size self + 1 \<and>
     0 < near_history_size self \<and>
     length (binary_near_history self) = near_history_size self \<and>
     0 \<le> lookahead self \<and> lookahead self < int (near_history_size self)"

lemma create_shape:
  assumes "WebRtc_CreateBinaryDelayEstimator m0 m1 m junk (Some far) la = Some (far', self)"
  shows "bde_shape self \<and> far' = far \<and> history_size self = far_history_size far \<and> lookahead self = la \<and>
    robust_validation_enabled self = 0 \<and> allowed_offset self = 0"
  using assms by (auto simp: WebRtc_CreateBinaryDelayEstimator_def WebRtc_AllocateHistoryBufferMemory_def Let_def
      bde_shape_def len_simps split: if_splits)

lemma blit_replicate_Suc: "Suc k \<le> length xs \<Longrightarrow> (blit xs 0 (replicate k x))[k := x] = blit xs 0 (replicate (Suc k) x)"
proof -
  assume "Suc k \<le> length xs"
  then have "drop k xs = xs ! k # drop (Suc k) xs" by (simp add: Cons_nth_drop_Suc)
  then show ?thesis by (simp add: blit_def list_update_append replicate_append_same)
qed

lemma init_loop:
  "k \<le> length (mean_bit_counts self) \<Longrightarrow> k \<le> length (histogram self) \<Longrightarrow>
   fold (\<lambda>i self. self\<lparr>mean_bit_counts := (mean_bit_counts self)[i := c], histogram := (histogram self)[i := h]\<rparr>) [0..<k] self =
   self\<lparr>mean_bit_counts := blit (mean_bit_counts self) 0 (replicate k c), histogram := blit (histogram self) 0 (replicate k h)\<rparr>"
proof (induction k)
  case (Suc k)
  then show ?case by (simp add: blit_replicate_Suc)
qed simp

lemma init_ok:
  assumes "bde_shape self"
  shows "bde_ok (WebRtc_InitBinaryDelayEstimator self) \<and>
    history_size (WebRtc_InitBinaryDelayEstimator self) = history_size self \<and>
    last_delay (WebRtc_InitBinaryDelayEstimator self) = - 2"
proof -
  have "is_u32 0" by (simp add: is_u32_def)
  then show ?thesis using assms
    by (simp add: WebRtc_InitBinaryDelayEstimator_def Let_def init_loop bde_shape_def bde_ok_def blit_whole list_all_iff
        del: upt_Suc)
qed

lemma soft_reset_ok:
  assumes "bde_ok self" and "is_s32 (lookahead self - shift)"
  shows "bde_ok (fst (WebRtc_SoftResetBinaryDelayEstimator self shift)) \<and>
    lookahead (fst (WebRtc_SoftResetBinaryDelayEstimator self shift)) =
      max 0 (min (int (near_history_size self) - 1) (lookahead self - shift))"
  using assms by (auto simp: WebRtc_SoftResetBinaryDelayEstimator_def Let_def bde_ok_def s32_id)

lemma soft_reset_far:
  assumes "fe_ok far" and "\<bar>shift\<bar> < int (far_history_size far)"
  shows "binary_far_history (WebRtc_SoftResetBinaryDelayEstimatorFarend far shift) =
      (if shift \<ge> 0 then replicate (nat shift) 0 @ take (far_history_size far - nat shift) (binary_far_history far)
       else drop (nat (- shift)) (binary_far_history far) @ replicate (nat (- shift)) 0) \<and>
    fe_ok (WebRtc_SoftResetBinaryDelayEstimatorFarend far shift)"
proof -
  have up: "blit (blit xs k (take (n - k) xs)) 0 (replicate k 0) = replicate k 0 @ take (n - k) xs"
    and down: "blit (blit xs 0 (drop k xs)) (n - k) (replicate k 0) = drop k xs @ replicate k 0"
    if "length xs = n" "k < n" for xs :: "int list" and k n
    using that by (simp_all add: blit_def)
  have z: "list_all is_u32 (replicate k 0)" "list_all (\<lambda>c. 0 \<le> c \<and> c \<le> (32::int)) (replicate k 0)" for k
    by (simp_all add: list_all_iff is_u32_def)
  show ?thesis
  proof (cases "shift = 0")
    case False
    then consider "0 < shift" "nat shift < far_history_size far" | "shift < 0" "nat (- shift) < far_history_size far"
      using assms(2) by linarith
    then show ?thesis
    proof cases
      case 1
      then show ?thesis using assms z up
        by (simp add: WebRtc_SoftResetBinaryDelayEstimatorFarend_def Let_def fe_ok_def list_all_take)
    next
      case 2
      then show ?thesis using assms z down
        by (simp add: WebRtc_SoftResetBinaryDelayEstimatorFarend_def Let_def fe_ok_def list_all_drop)
    qed
  qed (use assms in \<open>auto simp: WebRtc_SoftResetBinaryDelayEstimatorFarend_def fe_ok_def\<close>)
qed

section \<open>The interface of a delay estimator\<close>

text \<open>
  A run: the spectra of both ends in the order they arrive, and the estimates it returns. It is
  stated for any estimator with an operation for each end, and fails as soon as one of them does.
\<close>

datatype 'x spectrum_event = Far 'x | Near 'x

fun source_run ::
    "('s \<Rightarrow> 'x \<Rightarrow> 's option) \<Rightarrow> ('s \<Rightarrow> 'x \<Rightarrow> ('s \<times> int) option) \<Rightarrow> 's \<Rightarrow> 'x spectrum_event list \<Rightarrow> ('s \<times> int list) option" where
  "source_run add proc s [] = Some (s, [])"
| "source_run add proc s (Far x # es) =
     (case add s x of None \<Rightarrow> None | Some s \<Rightarrow> source_run add proc s es)"
| "source_run add proc s (Near x # es) =
     (case proc s x of None \<Rightarrow> None
      | Some (s, d) \<Rightarrow> (case source_run add proc s es of None \<Rightarrow> None | Some (s, ds) \<Rightarrow> Some (s, d # ds)))"

fun event_input :: "'x spectrum_event \<Rightarrow> 'x" where
  "event_input (Far x) = x"
| "event_input (Near x) = x"

text \<open>
  What a client relies on: on good input no operation fails, the invariant is kept, and an
  estimate is -2 or an index below the size of the history.
\<close>

locale delay_source =
  fixes inv :: "'s \<Rightarrow> bool"
    and good :: "'x \<Rightarrow> bool"
    and hsize :: nat
    and add :: "'s \<Rightarrow> 'x \<Rightarrow> 's option"
    and proc :: "'s \<Rightarrow> 'x \<Rightarrow> ('s \<times> int) option"
  assumes add_inv: "inv s \<Longrightarrow> good x \<Longrightarrow> \<exists>s'. add s x = Some s' \<and> inv s'"
    and proc_inv: "inv s \<Longrightarrow> good x \<Longrightarrow> \<exists>s' d. proc s x = Some (s', d) \<and> inv s' \<and> (d = - 2 \<or> 0 \<le> d \<and> d < int hsize)"
begin

lemma run_ok:
  "inv s \<Longrightarrow> list_all (\<lambda>e. good (event_input e)) es \<Longrightarrow>
   \<exists>s' ds. source_run add proc s es = Some (s', ds) \<and> inv s' \<and> list_all (\<lambda>d. d = - 2 \<or> 0 \<le> d \<and> d < int hsize) ds"
proof (induction es arbitrary: s)
  case (Cons e es)
  show ?case
  proof (cases e)
    case (Far x)
    then obtain s' where "add s x = Some s'" "inv s'" using add_inv [OF Cons.prems(1), of x] Cons.prems(2) by auto
    then show ?thesis using Cons.IH [of s'] Cons.prems(2) Far by auto
  next
    case (Near x)
    then obtain s' d where p: "proc s x = Some (s', d)" "inv s'" "d = - 2 \<or> 0 \<le> d \<and> d < int hsize"
      using proc_inv [OF Cons.prems(1), of x] Cons.prems(2) by auto
    then obtain s'' ds where "source_run add proc s' es = Some (s'', ds)" "inv s''"
      "list_all (\<lambda>d. d = - 2 \<or> 0 \<le> d \<and> d < int hsize) ds"
      using Cons.IH [OF p(2)] Cons.prems(2) by auto
    then show ?thesis using p Near by auto
  qed
qed simp

text \<open>The estimates of a run do not look ahead: a longer run begins with the same estimates.\<close>

lemma run_append:
  "source_run add proc s (es @ fs) =
    (case source_run add proc s es of None \<Rightarrow> None
     | Some (s', ds) \<Rightarrow> (case source_run add proc s' fs of None \<Rightarrow> None | Some (s'', ds') \<Rightarrow> Some (s'', ds @ ds')))"
proof (induction es arbitrary: s)
  case Nil
  then show ?case by (auto split: option.splits)
next
  case (Cons e es)
  then show ?case by (cases e) (auto split: option.splits)
qed

end

section \<open>The binary estimator provides it\<close>

definition binary_add ::
    "BinaryDelayEstimatorFarend \<times> BinaryDelayEstimator \<Rightarrow> int \<Rightarrow> (BinaryDelayEstimatorFarend \<times> BinaryDelayEstimator) option" where
  "binary_add = (\<lambda>(far, self) s. Some (WebRtc_AddBinaryFarSpectrum far s, self))"

definition binary_proc ::
    "BinaryDelayEstimatorFarend \<times> BinaryDelayEstimator \<Rightarrow> int \<Rightarrow>
     ((BinaryDelayEstimatorFarend \<times> BinaryDelayEstimator) \<times> int) option" where
  "binary_proc = (\<lambda>(far, self) s. case WebRtc_ProcessBinarySpectrum far self s of None \<Rightarrow> None
     | Some (self, d) \<Rightarrow> Some ((far, self), d))"

definition pair_ok :: "nat \<Rightarrow> BinaryDelayEstimatorFarend \<times> BinaryDelayEstimator \<Rightarrow> bool" where
  "pair_ok n = (\<lambda>(far, self). fe_ok far \<and> bde_ok self \<and> far_history_size far = n \<and> history_size self = n)"

lemma add_far_size: "far_history_size (WebRtc_AddBinaryFarSpectrum far s) = far_history_size far"
  by (simp add: WebRtc_AddBinaryFarSpectrum_def Let_def)

lemma delay_range: "bde_ok self \<Longrightarrow> last_delay self = - 2 \<or> 0 \<le> last_delay self \<and> last_delay self < int (history_size self)"
  by (auto simp: bde_ok_def)

interpretation binary: delay_source "pair_ok n" is_u32 n binary_add binary_proc for n
proof (unfold_locales, goal_cases)
  case (1 s x)
  then show ?case using add_far_ok [of "fst s" x] by (auto simp: pair_ok_def binary_add_def add_far_size)
next
  case (2 s x)
  obtain far self where s: "s = (far, self)" by (rule prod.exhaust)
  obtain self' where "WebRtc_ProcessBinarySpectrum far self x = Some (self', last_delay self')" "bde_ok self'"
    "history_size self' = history_size self"
    using process_ok [of self far x] 2 s by (auto simp: pair_ok_def)
  then show ?case using 2 s delay_range [of self'] by (auto simp: pair_ok_def binary_proc_def)
qed

section \<open>Properties\<close>

text \<open>
  The five masked additions of \<open>BitCount\<close> count the ones of every 32 bit word.
\<close>
theorem bit_count_popcount:
  assumes "is_u32 u"
  shows "BitCount u = popcount 32 u"
  using assms by (rule BitCount_popcount)

lemma bit_count_popcount_witness: "BitCount 0xF00F0001 = 9"
  using bit_count_popcount [of "0xF00F0001"] by (simp add: is_u32_def numeral_eq_Suc)

text \<open>
  C12. A delay estimator that has been created and initialised processes every sequence of far-end
  and near-end spectra without an access outside its arrays: each near-end spectrum has a
  candidate delay, the histogram stays between 0 and 3000, the means between 0 and 32 bits, and every
  estimate it returns is -2 (none yet) or an index of its history. This holds with robust validation
  on and off.
\<close>
theorem delay_estimator_run:
  assumes "WebRtc_CreateBinaryDelayEstimatorFarend a0 a1 a2 hsize = Some far0"
    and "WebRtc_CreateBinaryDelayEstimator m0 m1 m junk (Some far0) max_lookahead = Some (far, created)"
    and "self = (WebRtc_InitBinaryDelayEstimator created)\<lparr>robust_validation_enabled := robust, allowed_offset := offset\<rparr>"
    and "list_all (\<lambda>e. is_u32 (event_input e)) es"
  shows "\<exists>far' self' ds. source_run binary_add binary_proc (WebRtc_InitBinaryDelayEstimatorFarend far, self) es = Some ((far', self'), ds) \<and>
    bde_ok self' \<and> hist_ok (histogram self') \<and> list_all (\<lambda>d. d = - 2 \<or> 0 \<le> d \<and> d < hsize) ds"
proof -
  note f = create_far_ok [OF assms(1)] and c = create_shape [OF assms(2)]
  have i: "bde_ok self" "history_size self = history_size created"
    using init_ok [of created] c unfolding assms(3) by (auto simp: bde_ok_def)
  have "far_history_size (WebRtc_InitBinaryDelayEstimatorFarend far) = far_history_size far"
    by (simp add: WebRtc_InitBinaryDelayEstimatorFarend_def)
  then have "pair_ok (nat hsize) (WebRtc_InitBinaryDelayEstimatorFarend far, self)"
    using i f c init_far_ok [of far] by (auto simp: pair_ok_def)
  from binary.run_ok [OF this assms(4)] f show ?thesis by (fastforce simp: pair_ok_def bde_ok_def hist_ok_def)
qed

definition blank_estimator :: BinaryDelayEstimator where
  "blank_estimator = \<lparr>mean_bit_counts = [], bit_counts = [], binary_near_history = [], near_history_size = 0,
     history_size = 0, minimum_probability = 0, last_delay_probability = 0, last_delay = 0,
     robust_validation_enabled = 0, allowed_offset = 0, last_candidate_delay = 0, compare_delay = 0,
     candidate_hits = 0, histogram = [], last_delay_histogram = 0, lookahead = 0\<rparr>"

lemma delay_estimator_run_witness:
  "\<exists>far' self' ds. source_run binary_add binary_proc (\<lparr>far_bit_counts = [0, 0], binary_far_history = [0, 0], far_history_size = 2\<rparr>,
     \<lparr>mean_bit_counts = [10240, 10240, 10240], bit_counts = [0, 0], binary_near_history = [0], near_history_size = 1,
     history_size = 2, minimum_probability = 16384, last_delay_probability = 16384, last_delay = - 2,
     robust_validation_enabled = 1, allowed_offset = 0, last_candidate_delay = - 2, compare_delay = 2,
     candidate_hits = 0, histogram = [0, 0, 0], last_delay_histogram = 0, lookahead = 0\<rparr>)
     [Far 5, Near 7, Near 12] = Some ((far', self'), ds) \<and> bde_ok self' \<and> hist_ok (histogram self') \<and>
     list_all (\<lambda>d. d = - 2 \<or> 0 \<le> d \<and> d < 2) ds"
proof -
  let ?far = "\<lparr>far_bit_counts = [0, 0], binary_far_history = [0, 0], far_history_size = 2\<rparr>"
  let ?self = "\<lparr>mean_bit_counts = [0, 0, 0], bit_counts = [0, 0], binary_near_history = [0], near_history_size = 1,
     history_size = 2, minimum_probability = 0, last_delay_probability = 0, last_delay = 0,
     robust_validation_enabled = 0, allowed_offset = 0, last_candidate_delay = 0, compare_delay = 0,
     candidate_hits = 0, histogram = [0, 0, 0], last_delay_histogram = 0, lookahead = 0\<rparr>"
  have f: "WebRtc_CreateBinaryDelayEstimatorFarend True True True 2 = Some ?far" by code_simp
  have c: "WebRtc_CreateBinaryDelayEstimator True True [True, True, True, True, True] blank_estimator (Some ?far) 0 = Some (?far, ?self)"
    by (simp add: WebRtc_CreateBinaryDelayEstimator_def WebRtc_AllocateHistoryBufferMemory_def blank_estimator_def grow_def
        blit_def numeral_eq_Suc)
  show ?thesis
    using delay_estimator_run [OF f c refl, where robust = 1 and offset = 0 and es = "[Far 5, Near 7, Near 12]"]
    by (simp add: is_u32_def WebRtc_InitBinaryDelayEstimator_def WebRtc_InitBinaryDelayEstimatorFarend_def blit_def
        numeral_eq_Suc kMaxBitCountsQ9_def)
qed

end
