(* ===== verification/Delay_Wrapper.thy ===== *)
theory Delay_Wrapper
  imports Delay_Estimator
begin

unbundle bit_operations_syntax

text \<open>
  The interface of the delay estimator (\<^verbatim>\<open>modules/audio_processing/utility/delay_estimator_wrapper.c\<close>)
  in its fixed-point version: a spectrum is turned into a word of 32 bits, one for each of the bands 12
  to 43, by comparing it with its own running mean, and handed to the binary estimator. The
  functions check their arguments and return -1 for a bad one.

  A handle that may be NULL is an \<open>option\<close>. The far-end object is shared by the two handles through
  a pointer and is an argument of its own here. The union \<^verbatim>\<open>SpectrumType\<close> is its integer member;
  the floating-point functions of the file are not modelled.
\<close>

section \<open>State\<close>

record DelayEstimatorFarend =
  mean_far_spectrum :: "int list"
  far_spectrum_initialized :: int
  far_spectrum_size :: int
  binary_farend :: BinaryDelayEstimatorFarend

record DelayEstimator =
  mean_near_spectrum :: "int list"
  near_spectrum_initialized :: int
  spectrum_size :: int
  binary_handle :: BinaryDelayEstimator

section \<open>Binary spectra\<close>

definition kBandFirst :: nat where "kBandFirst = 12"
definition kBandLast :: nat where "kBandLast = 43"

definition SetBit :: "int \<Rightarrow> nat \<Rightarrow> int" where
  "SetBit inp pos = (let mask = u32 (shl 1 pos) in inp OR mask)"

definition spectrum_q15 :: "int list \<Rightarrow> int \<Rightarrow> nat \<Rightarrow> int" where
  "spectrum_q15 spectrum q_domain i = s32 (shl (spectrum ! i) (nat (15 - q_domain)))"

text \<open>The threshold is set to half the spectrum the first time a spectrum is not empty.\<close>

definition init_threshold :: "int list \<Rightarrow> int \<Rightarrow> int list \<times> int \<Rightarrow> int list \<times> int" where
  "init_threshold spectrum q_domain =
     fold (\<lambda>i (threshold, initialized).
       if spectrum ! i > 0 then (threshold[i := shr (spectrum_q15 spectrum q_domain i) 1], 1)
       else (threshold, initialized)) [kBandFirst..<kBandLast + 1]"

definition BinarySpectrumFix :: "int list \<Rightarrow> int list \<Rightarrow> int \<Rightarrow> int \<Rightarrow> int \<times> int list \<times> int" where
  "BinarySpectrumFix spectrum threshold q_domain initialized =
     (let (threshold, initialized) =
            (if initialized = 0 then init_threshold spectrum q_domain (threshold, initialized)
             else (threshold, initialized));
          (out, threshold) = fold (\<lambda>i (out, threshold).
            let q15 = spectrum_q15 spectrum q_domain i;
                threshold = threshold[i := WebRtc_MeanEstimatorFix q15 6 (threshold ! i)]
            in (if q15 > threshold ! i then SetBit out (i - kBandFirst) else out, threshold))
            [kBandFirst..<kBandLast + 1] (0, threshold)
      in (out, threshold, initialized))"

section \<open>Far end\<close>

text \<open>\<open>junk\<close> is the contents of the memory that \<^verbatim>\<open>malloc\<close> returns.\<close>

definition WebRtc_CreateDelayEstimatorFarend ::
    "bool \<Rightarrow> bool list \<Rightarrow> bool \<Rightarrow> DelayEstimatorFarend \<Rightarrow> int \<Rightarrow> int \<Rightarrow> DelayEstimatorFarend option" where
  "WebRtc_CreateDelayEstimatorFarend m0 m m1 junk ssize hsize =
     (if \<not> ssize \<ge> int kBandLast \<or> \<not> m0 then None
      else case WebRtc_CreateBinaryDelayEstimatorFarend (m ! 0) (m ! 1) (m ! 2) hsize of
             None \<Rightarrow> None
           | Some b \<Rightarrow>
               if \<not> m1 then None
               else Some (junk\<lparr>binary_farend := b, mean_far_spectrum := replicate (nat ssize) 0, far_spectrum_size := ssize\<rparr>))"

definition WebRtc_InitDelayEstimatorFarend :: "DelayEstimatorFarend option \<Rightarrow> DelayEstimatorFarend option \<times> int" where
  "WebRtc_InitDelayEstimatorFarend handle =
     (case handle of None \<Rightarrow> (None, - 1)
      | Some self \<Rightarrow>
          (Some (self\<lparr>binary_farend := WebRtc_InitBinaryDelayEstimatorFarend (binary_farend self),
                      mean_far_spectrum := blit (mean_far_spectrum self) 0 (replicate (nat (far_spectrum_size self)) 0),
                      far_spectrum_initialized := 0\<rparr>), 0))"

definition WebRtc_SoftResetDelayEstimatorFarend :: "DelayEstimatorFarend \<Rightarrow> int \<Rightarrow> DelayEstimatorFarend" where
  "WebRtc_SoftResetDelayEstimatorFarend self delay_shift =
     self\<lparr>binary_farend := WebRtc_SoftResetBinaryDelayEstimatorFarend (binary_farend self) delay_shift\<rparr>"

definition WebRtc_AddFarSpectrumFix ::
    "DelayEstimatorFarend option \<Rightarrow> int list option \<Rightarrow> int \<Rightarrow> int \<Rightarrow> DelayEstimatorFarend option \<times> int" where
  "WebRtc_AddFarSpectrumFix handle far_spectrum ssize far_q =
     (case handle of None \<Rightarrow> (None, - 1)
      | Some self \<Rightarrow>
          (case far_spectrum of None \<Rightarrow> (handle, - 1)
           | Some spectrum \<Rightarrow>
               if ssize \<noteq> far_spectrum_size self then (handle, - 1)
               else if far_q > 15 then (handle, - 1)
               else let (binary_spectrum, mean, initialized) =
                          BinarySpectrumFix spectrum (mean_far_spectrum self) far_q (far_spectrum_initialized self)
                    in (Some (self\<lparr>mean_far_spectrum := mean, far_spectrum_initialized := initialized,
                                   binary_farend := WebRtc_AddBinaryFarSpectrum (binary_farend self) binary_spectrum\<rparr>), 0)))"

section \<open>Near end\<close>

definition WebRtc_CreateDelayEstimator ::
    "bool \<Rightarrow> bool \<Rightarrow> bool \<Rightarrow> bool list \<Rightarrow> bool \<Rightarrow> DelayEstimator \<Rightarrow> DelayEstimatorFarend option \<Rightarrow> int \<Rightarrow> DelayEstimator option" where
  "WebRtc_CreateDelayEstimator m0 b0 b1 b m1 junk farend_handle max_lookahead =
     (case farend_handle of None \<Rightarrow> None
      | Some farend \<Rightarrow>
          if \<not> m0 then None
          else case WebRtc_CreateBinaryDelayEstimator b0 b1 b (binary_handle junk) (Some (binary_farend farend)) max_lookahead of
                 None \<Rightarrow> None
               | Some (_, h) \<Rightarrow>
                   if \<not> m1 then None
                   else Some (junk\<lparr>binary_handle := h, mean_near_spectrum := replicate (nat (far_spectrum_size farend)) 0,
                                   spectrum_size := far_spectrum_size farend\<rparr>))"

definition WebRtc_InitDelayEstimator :: "DelayEstimator option \<Rightarrow> DelayEstimator option \<times> int" where
  "WebRtc_InitDelayEstimator handle =
     (case handle of None \<Rightarrow> (None, - 1)
      | Some self \<Rightarrow>
          (Some (self\<lparr>binary_handle := WebRtc_InitBinaryDelayEstimator (binary_handle self),
                      mean_near_spectrum := blit (mean_near_spectrum self) 0 (replicate (nat (spectrum_size self)) 0),
                      near_spectrum_initialized := 0\<rparr>), 0))"

definition WebRtc_SoftResetDelayEstimator :: "DelayEstimator \<Rightarrow> int \<Rightarrow> DelayEstimator \<times> int" where
  "WebRtc_SoftResetDelayEstimator self delay_shift =
     (let (h, r) = WebRtc_SoftResetBinaryDelayEstimator (binary_handle self) delay_shift
      in (self\<lparr>binary_handle := h\<rparr>, r))"

definition WebRtc_set_history_size ::
    "bool list \<Rightarrow> BinaryDelayEstimatorFarend \<Rightarrow> DelayEstimator option \<Rightarrow> int \<Rightarrow>
     BinaryDelayEstimatorFarend \<times> DelayEstimator option \<times> int" where
  "WebRtc_set_history_size m far handle hsize =
     (case handle of None \<Rightarrow> (far, None, - 1)
      | Some self \<Rightarrow>
          if hsize \<le> 1 then (far, handle, - 1)
          else let (far, h, r) = WebRtc_AllocateHistoryBufferMemory m far (binary_handle self) (nat hsize)
               in (far, Some (self\<lparr>binary_handle := h\<rparr>), int r))"

definition WebRtc_history_size :: "BinaryDelayEstimatorFarend \<Rightarrow> DelayEstimator option \<Rightarrow> int" where
  "WebRtc_history_size far handle =
     (case handle of None \<Rightarrow> - 1
      | Some self \<Rightarrow> if far_history_size far \<noteq> history_size (binary_handle self) then - 1
                    else int (history_size (binary_handle self)))"

definition WebRtc_set_lookahead :: "DelayEstimator \<Rightarrow> int \<Rightarrow> DelayEstimator \<times> int" where
  "WebRtc_set_lookahead self la =
     (if la > int (near_history_size (binary_handle self)) - 1 \<or> la < 0 then (self, - 1)
      else let self = self\<lparr>binary_handle := (binary_handle self)\<lparr>lookahead := la\<rparr>\<rparr>
           in (self, lookahead (binary_handle self)))"

definition WebRtc_lookahead :: "DelayEstimator \<Rightarrow> int" where
  "WebRtc_lookahead self = lookahead (binary_handle self)"

definition WebRtc_set_allowed_offset :: "DelayEstimator option \<Rightarrow> int \<Rightarrow> DelayEstimator option \<times> int" where
  "WebRtc_set_allowed_offset handle offset =
     (case handle of None \<Rightarrow> (None, - 1)
      | Some self \<Rightarrow> if offset < 0 then (handle, - 1)
                    else (Some (self\<lparr>binary_handle := (binary_handle self)\<lparr>allowed_offset := offset\<rparr>\<rparr>), 0))"

definition WebRtc_get_allowed_offset :: "DelayEstimator option \<Rightarrow> int" where
  "WebRtc_get_allowed_offset handle =
     (case handle of None \<Rightarrow> - 1 | Some self \<Rightarrow> allowed_offset (binary_handle self))"

definition WebRtc_enable_robust_validation :: "DelayEstimator option \<Rightarrow> int \<Rightarrow> DelayEstimator option \<times> int" where
  "WebRtc_enable_robust_validation handle enable =
     (case handle of None \<Rightarrow> (None, - 1)
      | Some self \<Rightarrow> if enable < 0 \<or> enable > 1 then (handle, - 1)
                    else (Some (self\<lparr>binary_handle := (binary_handle self)\<lparr>robust_validation_enabled := enable\<rparr>\<rparr>), 0))"

definition WebRtc_is_robust_validation_enabled :: "DelayEstimator option \<Rightarrow> int" where
  "WebRtc_is_robust_validation_enabled handle =
     (case handle of None \<Rightarrow> - 1 | Some self \<Rightarrow> robust_validation_enabled (binary_handle self))"

text \<open>\<open>None\<close>: the estimator would leave its arrays.\<close>

definition WebRtc_DelayEstimatorProcessFix ::
    "BinaryDelayEstimatorFarend \<Rightarrow> DelayEstimator option \<Rightarrow> int list option \<Rightarrow> int \<Rightarrow> int \<Rightarrow> (DelayEstimator option \<times> int) option" where
  "WebRtc_DelayEstimatorProcessFix far handle near_spectrum ssize near_q =
     (case handle of None \<Rightarrow> Some (None, - 1)
      | Some self \<Rightarrow>
          (case near_spectrum of None \<Rightarrow> Some (handle, - 1)
           | Some spectrum \<Rightarrow>
               if ssize \<noteq> spectrum_size self then Some (handle, - 1)
               else if near_q > 15 then Some (handle, - 1)
               else let (binary_spectrum, mean, initialized) =
                          BinarySpectrumFix spectrum (mean_near_spectrum self) near_q (near_spectrum_initialized self);
                        self = self\<lparr>mean_near_spectrum := mean, near_spectrum_initialized := initialized\<rparr>
                    in (case WebRtc_ProcessBinarySpectrum far (binary_handle self) binary_spectrum of
                          None \<Rightarrow> None
                        | Some (h, d) \<Rightarrow> Some (Some (self\<lparr>binary_handle := h\<rparr>), d))))"

definition WebRtc_last_delay :: "DelayEstimator option \<Rightarrow> int" where
  "WebRtc_last_delay handle =
     (case handle of None \<Rightarrow> - 1 | Some self \<Rightarrow> WebRtc_binary_last_delay (binary_handle self))"

definition WebRtc_last_delay_quality :: "DelayEstimator \<Rightarrow> float32" where
  "WebRtc_last_delay_quality self = WebRtc_binary_last_delay_quality (binary_handle self)"

section \<open>The binary spectrum: meaning\<close>

definition threshold_ok :: "int list \<Rightarrow> bool" where
  "threshold_ok t \<longleftrightarrow> 44 \<le> length t \<and> list_all (\<lambda>x. 0 \<le> x \<and> x < 2147483648) t"

definition spectrum_ok :: "int list \<Rightarrow> bool" where
  "spectrum_ok sp \<longleftrightarrow> 44 \<le> length sp \<and> list_all is_u16 sp"

lemma q15_range:
  assumes "is_u16 x" "0 \<le> q" "q \<le> 15"
  shows "s32 (shl x (nat (15 - q))) = shl x (nat (15 - q)) \<and> 0 \<le> shl x (nat (15 - q)) \<and> shl x (nat (15 - q)) < 2147483648"
proof -
  have "(2::int) ^ nat (15 - q) \<le> 2 ^ 15" using assms(2) by (intro power_increasing) auto
  then have "x * 2 ^ nat (15 - q) \<le> 65535 * 32768" using assms(1) by (intro mult_mono) (auto simp: is_u16_def)
  moreover have "0 \<le> x * 2 ^ nat (15 - q)" using assms(1) by (simp add: is_u16_def)
  ultimately show ?thesis by (simp add: shl_def s32_id is_s32_def)
qed

lemma spectrum_q15_range:
  assumes "spectrum_ok sp" "0 \<le> q" "q \<le> 15" "i \<le> 43"
  shows "spectrum_q15 sp q i = sp ! i * 2 ^ nat (15 - q) \<and> 0 \<le> spectrum_q15 sp q i \<and> spectrum_q15 sp q i < 2147483648"
proof -
  have "is_u16 (sp ! i)" using assms(1,4) by (auto simp: spectrum_ok_def list_all_length)
  from q15_range [OF this assms(2,3)] show ?thesis by (simp add: spectrum_q15_def shl_def)
qed

lemma band_indices: "i \<in> set [kBandFirst..<kBandLast + 1] \<longleftrightarrow> 12 \<le> i \<and> i \<le> 43"
  by (simp only: kBandFirst_def kBandLast_def set_upt atLeastLessThan_iff) arith

lemma threshold_update: "threshold_ok t \<Longrightarrow> 0 \<le> v \<Longrightarrow> v < 2147483648 \<Longrightarrow> threshold_ok (t[i := v])"
  by (auto simp: threshold_ok_def intro!: list_all_update)

lemma init_threshold_ok:
  assumes "spectrum_ok sp" "0 \<le> q" "q \<le> 15" "threshold_ok t"
  shows "threshold_ok (fst (init_threshold sp q (t, n))) \<and> length (fst (init_threshold sp q (t, n))) = length t"
  unfolding init_threshold_def
proof (rule fold_keeps [where P = "\<lambda>s. threshold_ok (fst s) \<and> length (fst s) = length t"])
  fix i and s :: "int list \<times> int"
  assume i: "i \<in> set [kBandFirst..<kBandLast + 1]" and s: "threshold_ok (fst s) \<and> length (fst s) = length t"
  have "0 \<le> shr (spectrum_q15 sp q i) 1" "shr (spectrum_q15 sp q i) 1 < 2147483648"
    using spectrum_q15_range [OF assms(1-3), of i] i shr_le [of "spectrum_q15 sp q i" 1] unfolding band_indices by auto
  then show "threshold_ok (fst ((\<lambda>(threshold, initialized).
       if sp ! i > 0 then (threshold[i := shr (spectrum_q15 sp q i) 1], 1) else (threshold, initialized)) s)) \<and>
     length (fst ((\<lambda>(threshold, initialized).
       if sp ! i > 0 then (threshold[i := shr (spectrum_q15 sp q i) 1], 1) else (threshold, initialized)) s)) = length t"
    using s by (auto simp: threshold_update split: prod.splits)
qed (use assms in simp)

lemma SetBit_bit: "pos < 32 \<Longrightarrow> bit (SetBit inp pos) k \<longleftrightarrow> bit inp k \<or> k = pos"
proof -
  assume "pos < 32"
  then have "(2::int) ^ pos < 2 ^ 32" by (intro power_strict_increasing) auto
  then have "u32 (shl 1 pos) = 2 ^ pos" by (simp add: shl_def u32_id is_u32_def)
  then show ?thesis by (auto simp: SetBit_def bit_simps)
qed

lemma SetBit_u32: "is_u32 inp \<Longrightarrow> is_u32 (SetBit inp pos)"
proof -
  assume a: "is_u32 inp"
  have "inp = take_bit 32 inp" "u32 (shl 1 pos) = take_bit 32 (u32 (shl 1 pos))"
    using a is_u32_u32 [of "shl 1 pos"] by (simp_all add: is_u32_def take_bit_int_eq_self)
  then have "SetBit inp pos = take_bit 32 (SetBit inp pos)" unfolding SetBit_def Let_def by (metis take_bit_or)
  then have "0 \<le> SetBit inp pos" "SetBit inp pos < 2 ^ 32"
    using take_bit_nonnegative [of 32 "SetBit inp pos"] take_bit_int_less_exp [of 32 "SetBit inp pos"] by simp_all
  then show ?thesis by (simp add: is_u32_def)
qed

text \<open>One turn of the main loop, and the loop over the first bands.\<close>

definition spectrum_step :: "int list \<Rightarrow> int \<Rightarrow> nat \<Rightarrow> int \<times> int list \<Rightarrow> int \<times> int list" where
  "spectrum_step sp q i = (\<lambda>(out, threshold).
            let q15 = spectrum_q15 sp q i;
                threshold = threshold[i := WebRtc_MeanEstimatorFix q15 6 (threshold ! i)]
            in (if q15 > threshold ! i then SetBit out (i - kBandFirst) else out, threshold))"

lemma spectrum_loop:
  assumes "spectrum_ok sp" "0 \<le> q" "q \<le> 15" "threshold_ok t" "n \<le> 32"
  shows "case fold (spectrum_step sp q) [kBandFirst..<kBandFirst + n] (0, t) of (out, t') \<Rightarrow>
    is_u32 out \<and> threshold_ok t' \<and> length t' = length t \<and>
    (\<forall>i. t' ! i = (if 12 \<le> i \<and> i < 12 + n then WebRtc_MeanEstimatorFix (spectrum_q15 sp q i) 6 (t ! i) else t ! i)) \<and>
    (\<forall>k. bit out k \<longleftrightarrow> k < n \<and> t' ! (k + 12) < spectrum_q15 sp q (k + 12))"
  using assms(5)
proof (induction n)
  case 0
  then show ?case using assms(4) by (simp add: is_u32_def)
next
  case (Suc n)
  obtain out t' where f: "fold (spectrum_step sp q) [kBandFirst..<kBandFirst + n] (0, t) = (out, t')" by (rule prod.exhaust)
  note IH = Suc.IH [unfolded f prod.case]
  let ?i = "kBandFirst + n"
  define v where "v = spectrum_q15 sp q ?i"
  define m where "m = WebRtc_MeanEstimatorFix v 6 (t' ! ?i)"
  have i: "?i \<le> 43" "?i = 12 + n" using Suc.prems by (simp_all add: kBandFirst_def)
  have v: "0 \<le> v" "v < 2147483648" using spectrum_q15_range [OF assms(1-3) i(1)] by (simp_all add: v_def)
  have l: "?i < length t'" using IH Suc.prems i assms(4) by (simp add: threshold_ok_def)
  have tok: "threshold_ok t'" using IH Suc.prems by simp
  then have "list_all (\<lambda>x. 0 \<le> x \<and> x < 2147483648) t'" by (simp add: threshold_ok_def)
  from list_all_nth [OF this l] have t: "0 \<le> t' ! ?i" "t' ! ?i < 2147483648" by simp_all
  have "is_s32 v" "is_s32 (t' ! ?i)" "is_s32 (v - t' ! ?i)" using v t by (simp_all add: is_s32_def)
  from mean_estimator_between(1) [OF this, of 6] have m: "0 \<le> m" "m < 2147483648" using v t by (auto simp: m_def)
  have s: "fold (spectrum_step sp q) [kBandFirst..<kBandFirst + Suc n] (0, t) =
      (if v > m then SetBit out n else out, t'[?i := m])"
    using f l by (simp add: spectrum_step_def v_def m_def)
  have "n < 32" using Suc.prems by simp
  have tt: "t' ! ?i = t ! ?i" using IH Suc.prems i by simp
  show ?case unfolding s prod.case
  proof (intro conjI allI)
    show "is_u32 (if v > m then SetBit out n else out)" using IH Suc.prems SetBit_u32 by simp
    show "threshold_ok (t'[?i := m])" "length (t'[?i := m]) = length t" using IH Suc.prems m tok by (simp_all add: threshold_update)
    show "t'[?i := m] ! j = (if 12 \<le> j \<and> j < 12 + Suc n then WebRtc_MeanEstimatorFix (spectrum_q15 sp q j) 6 (t ! j) else t ! j)" for j
      using IH Suc.prems l i tt by (cases "j = ?i") (auto simp: m_def v_def)
    show "bit (if v > m then SetBit out n else out) k \<longleftrightarrow>
        k < Suc n \<and> t'[?i := m] ! (k + 12) < spectrum_q15 sp q (k + 12)" for k
      using IH Suc.prems l i \<open>n < 32\<close> by (cases "k = n") (auto simp: SetBit_bit v_def add.commute)
  qed
qed

text \<open>The thresholds the comparison uses: the initial ones, moved towards the spectrum.\<close>

definition start_threshold :: "int list \<Rightarrow> int \<Rightarrow> int list \<Rightarrow> int \<Rightarrow> int list" where
  "start_threshold sp q t initialized = (if initialized = 0 then fst (init_threshold sp q (t, initialized)) else t)"

lemma BinarySpectrumFix_spec:
  assumes "spectrum_ok sp" "0 \<le> q" "q \<le> 15" "threshold_ok t" and "BinarySpectrumFix sp t q initialized = (out, t', initialized')"
  shows "is_u32 out \<and> threshold_ok t' \<and> length t' = length t \<and>
    (\<forall>i. t' ! i = (if 12 \<le> i \<and> i < 44 then WebRtc_MeanEstimatorFix (spectrum_q15 sp q i) 6 (start_threshold sp q t initialized ! i)
                   else start_threshold sp q t initialized ! i)) \<and>
    (\<forall>k. bit out k \<longleftrightarrow> k < 32 \<and> t' ! (k + 12) < spectrum_q15 sp q (k + 12))"
proof -
  let ?t = "start_threshold sp q t initialized"
  have ok: "threshold_ok ?t" "length ?t = length t"
    using init_threshold_ok [OF assms(1-4)] assms(4) by (simp_all add: start_threshold_def)
  have "fold (spectrum_step sp q) [kBandFirst..<kBandLast + 1] (0, ?t) = (out, t')"
    using assms(5) unfolding BinarySpectrumFix_def spectrum_step_def [symmetric]
    by (auto simp: start_threshold_def Let_def split: prod.splits if_splits)
  then show ?thesis using spectrum_loop [OF assms(1-3) ok(1), of 32] ok(2) by (simp add: kBandFirst_def kBandLast_def)
qed

section \<open>Invariants of the handles\<close>

definition farend_ok :: "DelayEstimatorFarend \<Rightarrow> bool" where
  "farend_ok self \<longleftrightarrow> 44 \<le> far_spectrum_size self \<and> length (mean_far_spectrum self) = nat (far_spectrum_size self) \<and>
     threshold_ok (mean_far_spectrum self) \<and> fe_ok (binary_farend self)"

definition estimator_ok :: "DelayEstimator \<Rightarrow> bool" where
  "estimator_ok self \<longleftrightarrow> 44 \<le> spectrum_size self \<and> length (mean_near_spectrum self) = nat (spectrum_size self) \<and>
     threshold_ok (mean_near_spectrum self) \<and> bde_ok (binary_handle self)"

lemma AddFar_ok:
  assumes "farend_ok self" "spectrum_ok sp" "0 \<le> q" "q \<le> 15" "ssize = far_spectrum_size self"
  obtains self' where "WebRtc_AddFarSpectrumFix (Some self) (Some sp) ssize q = (Some self', 0)" "farend_ok self'"
    "far_history_size (binary_farend self') = far_history_size (binary_farend self)"
    "far_spectrum_size self' = far_spectrum_size self"
proof -
  obtain out t' i' where b: "BinarySpectrumFix sp (mean_far_spectrum self) q (far_spectrum_initialized self) = (out, t', i')"
    by (rule prod_cases3)
  note spec = BinarySpectrumFix_spec [OF assms(2-4) _ b]
  then show ?thesis using that assms add_far_ok [of "binary_farend self" out]
    by (auto simp: WebRtc_AddFarSpectrumFix_def b farend_ok_def add_far_size)
qed

lemma ProcessFix_ok:
  assumes "estimator_ok self" "fe_ok far" "far_history_size far = history_size (binary_handle self)"
    and "spectrum_ok sp" "0 \<le> q" "q \<le> 15" "ssize = spectrum_size self"
  obtains self' d where "WebRtc_DelayEstimatorProcessFix far (Some self) (Some sp) ssize q = Some (Some self', d)"
    "estimator_ok self'" "history_size (binary_handle self') = history_size (binary_handle self)"
    "spectrum_size self' = spectrum_size self" "d = - 2 \<or> 0 \<le> d \<and> d < int (history_size (binary_handle self))"
proof -
  obtain out t' i' where b: "BinarySpectrumFix sp (mean_near_spectrum self) q (near_spectrum_initialized self) = (out, t', i')"
    by (rule prod_cases3)
  have spec: "is_u32 out" "threshold_ok t'" "length t' = length (mean_near_spectrum self)"
    using BinarySpectrumFix_spec [OF assms(4-6) _ b] assms(1) by (auto simp: estimator_ok_def)
  obtain h where h: "WebRtc_ProcessBinarySpectrum far (binary_handle self) out = Some (h, last_delay h)" "bde_ok h"
    "history_size h = history_size (binary_handle self)"
    using process_ok [of "binary_handle self" far out] assms(1-3) spec by (metis estimator_ok_def)
  show ?thesis
    by (rule that [of "self\<lparr>mean_near_spectrum := t', near_spectrum_initialized := i', binary_handle := h\<rparr>" "last_delay h"])
      (use assms h spec delay_range [OF h(2)] in \<open>simp_all add: WebRtc_DelayEstimatorProcessFix_def b estimator_ok_def\<close>)
qed

section \<open>The wrapper provides the interface of a delay estimator\<close>

text \<open>
  An input is a spectrum with its Q-domain. The pair of handles is in order when each is, they agree on the
  sizes, and both histories have \<open>n\<close> entries.
\<close>

definition handles_ok :: "nat \<Rightarrow> DelayEstimatorFarend \<times> DelayEstimator \<Rightarrow> bool" where
  "handles_ok n = (\<lambda>(fe, de). farend_ok fe \<and> estimator_ok de \<and> far_history_size (binary_farend fe) = n \<and>
     history_size (binary_handle de) = n)"

definition input_ok :: "int list \<times> int \<Rightarrow> bool" where
  "input_ok = (\<lambda>(sp, q). spectrum_ok sp \<and> 0 \<le> q \<and> q \<le> 15)"

definition fix_add :: "DelayEstimatorFarend \<times> DelayEstimator \<Rightarrow> int list \<times> int \<Rightarrow> (DelayEstimatorFarend \<times> DelayEstimator) option" where
  "fix_add = (\<lambda>(fe, de) (sp, q).
     case WebRtc_AddFarSpectrumFix (Some fe) (Some sp) (far_spectrum_size fe) q of
       (Some fe, r) \<Rightarrow> if r = 0 then Some (fe, de) else None
     | _ \<Rightarrow> None)"

definition fix_proc ::
    "DelayEstimatorFarend \<times> DelayEstimator \<Rightarrow> int list \<times> int \<Rightarrow> ((DelayEstimatorFarend \<times> DelayEstimator) \<times> int) option" where
  "fix_proc = (\<lambda>(fe, de) (sp, q).
     case WebRtc_DelayEstimatorProcessFix (binary_farend fe) (Some de) (Some sp) (spectrum_size de) q of
       Some (Some de, d) \<Rightarrow> Some ((fe, de), d)
     | _ \<Rightarrow> None)"

interpretation wrapper: delay_source "handles_ok n" input_ok n fix_add fix_proc for n
proof (unfold_locales, goal_cases)
  case (1 s x)
  obtain fe de sp q where sx: "s = (fe, de)" "x = (sp, q)" by (metis prod.exhaust)
  from 1 sx have h: "farend_ok fe" "spectrum_ok sp" "0 \<le> q" "q \<le> 15" by (auto simp: handles_ok_def input_ok_def)
  obtain fe' where "WebRtc_AddFarSpectrumFix (Some fe) (Some sp) (far_spectrum_size fe) q = (Some fe', 0)" "farend_ok fe'"
    "far_history_size (binary_farend fe') = far_history_size (binary_farend fe)"
    using AddFar_ok [OF h refl] by metis
  then show ?case using 1 sx by (simp add: handles_ok_def fix_add_def)
next
  case (2 s x)
  obtain fe de sp q where sx: "s = (fe, de)" "x = (sp, q)" by (metis prod.exhaust)
  from 2 sx have h: "estimator_ok de" "fe_ok (binary_farend fe)"
    "far_history_size (binary_farend fe) = history_size (binary_handle de)" "spectrum_ok sp" "0 \<le> q" "q \<le> 15"
    by (auto simp: handles_ok_def input_ok_def farend_ok_def)
  obtain de' d where "WebRtc_DelayEstimatorProcessFix (binary_farend fe) (Some de) (Some sp) (spectrum_size de) q = Some (Some de', d)"
    "estimator_ok de'" "history_size (binary_handle de') = history_size (binary_handle de)"
    "d = - 2 \<or> 0 \<le> d \<and> d < int (history_size (binary_handle de))"
    using ProcessFix_ok [OF h refl] by metis
  then show ?case using 2 sx by (auto simp: handles_ok_def fix_proc_def)
qed

section \<open>Properties\<close>

text \<open>
  The binary spectrum: bit \<open>k\<close> of the word says whether band \<open>k + 12\<close> of the spectrum, in
  Q15, lies above its running mean; the mean moves one 64th of the distance towards the spectrum, and
  stays a 32 bit value; nothing outside the 32 bands is touched.
\<close>
theorem binary_spectrum:
  assumes "spectrum_ok sp" and "0 \<le> q" and "q \<le> 15" and "threshold_ok t" and "initialized \<noteq> 0"
  shows "case BinarySpectrumFix sp t q initialized of (out, t', initialized') \<Rightarrow>
    is_u32 out \<and> threshold_ok t' \<and> initialized' = initialized \<and>
    (\<forall>i. t' ! i = (if 12 \<le> i \<and> i < 44 then WebRtc_MeanEstimatorFix (sp ! i * 2 ^ nat (15 - q)) 6 (t ! i) else t ! i)) \<and>
    (\<forall>k. bit out k \<longleftrightarrow> k < 32 \<and> t' ! (k + 12) < sp ! (k + 12) * 2 ^ nat (15 - q))"
proof -
  obtain out t' i' where b: "BinarySpectrumFix sp t q initialized = (out, t', i')" by (rule prod_cases3)
  have "i' = initialized" using b assms(5) by (auto simp: BinarySpectrumFix_def Let_def split: prod.splits)
  moreover have "start_threshold sp q t initialized = t" using assms(5) by (simp add: start_threshold_def)
  moreover have "spectrum_q15 sp q i = sp ! i * 2 ^ nat (15 - q)" if "i < 44" for i
    using spectrum_q15_range [OF assms(1-3), of i] that by simp
  ultimately show ?thesis using BinarySpectrumFix_spec [OF assms(1-4) b] unfolding b prod.case by simp
qed

lemma binary_spectrum_witness:
  "is_u32 (fst (BinarySpectrumFix (replicate 65 7) (replicate 65 100) 15 1)) \<and>
   bit (fst (BinarySpectrumFix (replicate 65 700) (replicate 65 100) 15 1)) 31"
proof -
  have s: "spectrum_ok (replicate 65 7)" "spectrum_ok (replicate 65 700)" "threshold_ok (replicate 65 100)"
    by (simp_all add: spectrum_ok_def threshold_ok_def list_all_iff is_u16_def)
  have m: "WebRtc_MeanEstimatorFix 700 6 100 = 109" by code_simp
  show ?thesis
    using binary_spectrum [OF s(1) _ _ s(3), of 15 1] binary_spectrum [OF s(2) _ _ s(3), of 15 1]
    by (auto simp: m split: prod.splits)
qed

text \<open>Both handles after their initialisation; robust validation may be switched before it.\<close>

lemma create_handles_ok:
  assumes "WebRtc_CreateDelayEstimatorFarend a0 a a1 junk1 ssize hsize = Some fe0" and "44 \<le> ssize"
    and "WebRtc_CreateDelayEstimator m0 b0 b1 b m1 junk2 (Some fe0) max_lookahead = Some de0"
    and "WebRtc_InitDelayEstimatorFarend (Some fe0) = (Some fe, 0)"
    and "WebRtc_InitDelayEstimator (fst (WebRtc_enable_robust_validation (Some de0) enable)) = (Some de, 0)"
  shows "handles_ok (nat hsize) (fe, de) \<and> 1 < hsize \<and> far_spectrum_size fe = ssize \<and> spectrum_size de = ssize"
proof -
  obtain bf where bf: "WebRtc_CreateBinaryDelayEstimatorFarend (a ! 0) (a ! 1) (a ! 2) hsize = Some bf"
    "fe0 = junk1\<lparr>binary_farend := bf, mean_far_spectrum := replicate (nat ssize) 0, far_spectrum_size := ssize\<rparr>"
    using assms(1) by (auto simp: WebRtc_CreateDelayEstimatorFarend_def split: if_splits option.splits)
  note f = create_far_ok [OF bf(1)]
  obtain far' h where h: "WebRtc_CreateBinaryDelayEstimator b0 b1 b (binary_handle junk2) (Some bf) max_lookahead = Some (far', h)"
    "de0 = junk2\<lparr>binary_handle := h, mean_near_spectrum := replicate (nat ssize) 0, spectrum_size := ssize\<rparr>"
    using assms(3) bf(2) by (auto simp: WebRtc_CreateDelayEstimator_def split: if_splits option.splits)
  note c = create_shape [OF h(1)]
  have "farend_ok fe"
    using assms(4) init_far_ok [of bf] f assms(2) bf(2)
    by (auto simp: WebRtc_InitDelayEstimatorFarend_def farend_ok_def blit_whole threshold_ok_def list_all_iff)
  moreover have "far_history_size (binary_farend fe) = nat hsize \<and> far_spectrum_size fe = ssize"
    using assms(4) f bf(2) by (auto simp: WebRtc_InitDelayEstimatorFarend_def WebRtc_InitBinaryDelayEstimatorFarend_def)
  moreover have "estimator_ok de \<and> history_size (binary_handle de) = nat hsize \<and> spectrum_size de = ssize"
    using assms(5) init_ok [of h] init_ok [of "h\<lparr>robust_validation_enabled := enable\<rparr>"] c f h(2) assms(2)
    by (auto simp: WebRtc_InitDelayEstimator_def WebRtc_enable_robust_validation_def estimator_ok_def bde_shape_def blit_whole
        threshold_ok_def list_all_iff split: if_splits)
  ultimately show ?thesis using f by (simp add: handles_ok_def)
qed

text \<open>
  C33. Through its interface the delay estimator works without fault for as long as it is used: after
  the creation and initialisation of both handles, every sequence of far-end and near-end spectra, in any
  order and any Q-domain from 0 to 15, is accepted, and every estimate is -2 or a delay below the
  history size. The spectrum needs room for all bands that are looked at, 44 elements.
\<close>
theorem delay_wrapper_run:
  assumes "WebRtc_CreateDelayEstimatorFarend a0 a a1 junk1 ssize hsize = Some fe0" and "44 \<le> ssize"
    and "WebRtc_CreateDelayEstimator m0 b0 b1 b m1 junk2 (Some fe0) max_lookahead = Some de0"
    and "WebRtc_InitDelayEstimatorFarend (Some fe0) = (Some fe, 0)"
    and "WebRtc_InitDelayEstimator (Some de0) = (Some de, 0)"
    and "list_all (\<lambda>e. input_ok (event_input e)) es"
  shows "\<exists>fe' de' ds. source_run fix_add fix_proc (fe, de) es = Some ((fe', de'), ds) \<and> farend_ok fe' \<and> estimator_ok de' \<and>
    list_all (\<lambda>d. d = - 2 \<or> 0 \<le> d \<and> d < hsize) ds"
proof -
  have "WebRtc_InitDelayEstimator (fst (WebRtc_enable_robust_validation (Some de0) 2)) = (Some de, 0)"
    using assms(5) by (simp add: WebRtc_enable_robust_validation_def)
  then have h: "handles_ok (nat hsize) (fe, de)" "1 < hsize" using create_handles_ok [OF assms(1-4)] by simp_all
  from wrapper.run_ok [OF h(1) assms(6)] h(2) show ?thesis by (auto simp: handles_ok_def)
qed

definition blank_farend :: DelayEstimatorFarend where
  "blank_farend = \<lparr>mean_far_spectrum = [], far_spectrum_initialized = 0, far_spectrum_size = 0,
     binary_farend = \<lparr>far_bit_counts = [], binary_far_history = [], far_history_size = 0\<rparr>\<rparr>"

definition blank_handle :: DelayEstimator where
  "blank_handle = \<lparr>mean_near_spectrum = [], near_spectrum_initialized = 0, spectrum_size = 0, binary_handle = blank_estimator\<rparr>"

lemma delay_wrapper_run_witness:
  "\<exists>fe0 de0 fe de s' ds.
     WebRtc_CreateDelayEstimatorFarend True [True, True, True] True blank_farend 65 100 = Some fe0 \<and>
     WebRtc_CreateDelayEstimator True True True [True, True, True, True, True] True blank_handle (Some fe0) 0 = Some de0 \<and>
     WebRtc_InitDelayEstimatorFarend (Some fe0) = (Some fe, 0) \<and> WebRtc_InitDelayEstimator (Some de0) = (Some de, 0) \<and>
     source_run fix_add fix_proc (fe, de) [Far (replicate 65 3, 0), Near (replicate 65 9, 15)] = Some (s', ds) \<and>
     list_all (\<lambda>d. d = - 2 \<or> 0 \<le> d \<and> d < 100) ds"
proof -
  obtain fe0 where fe0: "WebRtc_CreateDelayEstimatorFarend True [True, True, True] True blank_farend 65 100 = Some fe0"
    by (simp add: WebRtc_CreateDelayEstimatorFarend_def WebRtc_CreateBinaryDelayEstimatorFarend_def
        WebRtc_AllocateFarendBufferMemory_def kBandLast_def)
  then have n: "far_history_size (binary_farend fe0) = 100"
    by (auto simp: WebRtc_CreateDelayEstimatorFarend_def WebRtc_CreateBinaryDelayEstimatorFarend_def
        WebRtc_AllocateFarendBufferMemory_def kBandLast_def)
  obtain de0 where de0: "WebRtc_CreateDelayEstimator True True True [True, True, True, True, True] True blank_handle (Some fe0) 0 = Some de0"
    by (simp add: WebRtc_CreateDelayEstimator_def WebRtc_CreateBinaryDelayEstimator_def WebRtc_AllocateHistoryBufferMemory_def n Let_def)
  obtain fe where fe: "WebRtc_InitDelayEstimatorFarend (Some fe0) = (Some fe, 0)" by (simp add: WebRtc_InitDelayEstimatorFarend_def)
  obtain de where de: "WebRtc_InitDelayEstimator (Some de0) = (Some de, 0)" by (simp add: WebRtc_InitDelayEstimator_def)
  have es: "list_all (\<lambda>e. input_ok (event_input e)) [Far (replicate 65 3, 0), Near (replicate 65 9, 15)]"
    by (simp add: input_ok_def spectrum_ok_def list_all_iff is_u16_def)
  show ?thesis using fe0 de0 fe de delay_wrapper_run [OF fe0 _ de0 fe de es] by auto
qed

text \<open>
  The smallest size that the creation accepts is one too small: the loops over the bands also read
  and write element 43.
\<close>

lemma create_accepts_43:
  "\<exists>fe. WebRtc_CreateDelayEstimatorFarend True [True, True, True] True blank_farend 43 100 = Some fe \<and>
     length (mean_far_spectrum fe) = 43 \<and> 43 \<in> set [kBandFirst..<kBandLast + 1]"
  by (simp add: WebRtc_CreateDelayEstimatorFarend_def WebRtc_CreateBinaryDelayEstimatorFarend_def
        WebRtc_AllocateFarendBufferMemory_def kBandLast_def kBandFirst_def)

end
