(* ===== verification/Aecm_Core.thy ===== *)
theory Aecm_Core
  imports Ring_Buffer Spl_Fft Delay_Wrapper
begin

unbundle bit_operations_syntax

text \<open>
  The state of the mobile echo canceller and the operations on it that do not adapt the echo
  channel (\<^verbatim>\<open>modules/audio_processing/aecm/aecm_core.c\<close>, \<^verbatim>\<open>aecm_core.h\<close>): creation and
  initialisation, the history of far-end spectra, the far-end delay line, the energy levels with the
  voice detection, the step size and the suppression gain. The C versions behind the function pointers
  are modelled, as \<open>InitCore\<close> sets them.

  The aligned buffers of the struct are the arrays they point to, without the padding. A
  complex array is a list of pairs.
\<close>

section \<open>Tables\<close>

definition WebRtcAecm_kCosTable :: "int list" where
  "WebRtcAecm_kCosTable =
     [8192, 8190, 8187, 8180, 8172, 8160, 8147, 8130, 8112, 8091, 8067, 8041, 8012, 7982,
      7948, 7912, 7874, 7834, 7791, 7745, 7697, 7647, 7595, 7540, 7483, 7424, 7362, 7299,
      7233, 7164, 7094, 7021, 6947, 6870, 6791, 6710, 6627, 6542, 6455, 6366, 6275, 6182,
      6087, 5991, 5892, 5792, 5690, 5586, 5481, 5374, 5265, 5155, 5043, 4930, 4815, 4698,
      4580, 4461, 4341, 4219, 4096, 3971, 3845, 3719, 3591, 3462, 3331, 3200, 3068, 2935,
      2801, 2667, 2531, 2395, 2258, 2120, 1981, 1842, 1703, 1563, 1422, 1281, 1140, 998,
      856, 713, 571, 428, 285, 142, 0, - 142, - 285, - 428, - 571, - 713, - 856, - 998,
      - 1140, - 1281, - 1422, - 1563, - 1703, - 1842, - 1981, - 2120, - 2258, - 2395, - 2531, - 2667, - 2801, - 2935,
      - 3068, - 3200, - 3331, - 3462, - 3591, - 3719, - 3845, - 3971, - 4095, - 4219, - 4341, - 4461, - 4580, - 4698,
      - 4815, - 4930, - 5043, - 5155, - 5265, - 5374, - 5481, - 5586, - 5690, - 5792, - 5892, - 5991, - 6087, - 6182,
      - 6275, - 6366, - 6455, - 6542, - 6627, - 6710, - 6791, - 6870, - 6947, - 7021, - 7094, - 7164, - 7233, - 7299,
      - 7362, - 7424, - 7483, - 7540, - 7595, - 7647, - 7697, - 7745, - 7791, - 7834, - 7874, - 7912, - 7948, - 7982,
      - 8012, - 8041, - 8067, - 8091, - 8112, - 8130, - 8147, - 8160, - 8172, - 8180, - 8187, - 8190, - 8191, - 8190,
      - 8187, - 8180, - 8172, - 8160, - 8147, - 8130, - 8112, - 8091, - 8067, - 8041, - 8012, - 7982, - 7948, - 7912,
      - 7874, - 7834, - 7791, - 7745, - 7697, - 7647, - 7595, - 7540, - 7483, - 7424, - 7362, - 7299, - 7233, - 7164,
      - 7094, - 7021, - 6947, - 6870, - 6791, - 6710, - 6627, - 6542, - 6455, - 6366, - 6275, - 6182, - 6087, - 5991,
      - 5892, - 5792, - 5690, - 5586, - 5481, - 5374, - 5265, - 5155, - 5043, - 4930, - 4815, - 4698, - 4580, - 4461,
      - 4341, - 4219, - 4096, - 3971, - 3845, - 3719, - 3591, - 3462, - 3331, - 3200, - 3068, - 2935, - 2801, - 2667,
      - 2531, - 2395, - 2258, - 2120, - 1981, - 1842, - 1703, - 1563, - 1422, - 1281, - 1140, - 998, - 856, - 713,
      - 571, - 428, - 285, - 142, 0, 142, 285, 428, 571, 713, 856, 998, 1140, 1281,
      1422, 1563, 1703, 1842, 1981, 2120, 2258, 2395, 2531, 2667, 2801, 2935, 3068, 3200,
      3331, 3462, 3591, 3719, 3845, 3971, 4095, 4219, 4341, 4461, 4580, 4698, 4815, 4930,
      5043, 5155, 5265, 5374, 5481, 5586, 5690, 5792, 5892, 5991, 6087, 6182, 6275, 6366,
      6455, 6542, 6627, 6710, 6791, 6870, 6947, 7021, 7094, 7164, 7233, 7299, 7362, 7424,
      7483, 7540, 7595, 7647, 7697, 7745, 7791, 7834, 7874, 7912, 7948, 7982, 8012, 8041,
      8067, 8091, 8112, 8130, 8147, 8160, 8172, 8180, 8187, 8190]"

definition WebRtcAecm_kSinTable :: "int list" where
  "WebRtcAecm_kSinTable =
     [0, 142, 285, 428, 571, 713, 856, 998, 1140, 1281, 1422, 1563, 1703, 1842,
      1981, 2120, 2258, 2395, 2531, 2667, 2801, 2935, 3068, 3200, 3331, 3462, 3591, 3719,
      3845, 3971, 4095, 4219, 4341, 4461, 4580, 4698, 4815, 4930, 5043, 5155, 5265, 5374,
      5481, 5586, 5690, 5792, 5892, 5991, 6087, 6182, 6275, 6366, 6455, 6542, 6627, 6710,
      6791, 6870, 6947, 7021, 7094, 7164, 7233, 7299, 7362, 7424, 7483, 7540, 7595, 7647,
      7697, 7745, 7791, 7834, 7874, 7912, 7948, 7982, 8012, 8041, 8067, 8091, 8112, 8130,
      8147, 8160, 8172, 8180, 8187, 8190, 8191, 8190, 8187, 8180, 8172, 8160, 8147, 8130,
      8112, 8091, 8067, 8041, 8012, 7982, 7948, 7912, 7874, 7834, 7791, 7745, 7697, 7647,
      7595, 7540, 7483, 7424, 7362, 7299, 7233, 7164, 7094, 7021, 6947, 6870, 6791, 6710,
      6627, 6542, 6455, 6366, 6275, 6182, 6087, 5991, 5892, 5792, 5690, 5586, 5481, 5374,
      5265, 5155, 5043, 4930, 4815, 4698, 4580, 4461, 4341, 4219, 4096, 3971, 3845, 3719,
      3591, 3462, 3331, 3200, 3068, 2935, 2801, 2667, 2531, 2395, 2258, 2120, 1981, 1842,
      1703, 1563, 1422, 1281, 1140, 998, 856, 713, 571, 428, 285, 142, 0, - 142,
      - 285, - 428, - 571, - 713, - 856, - 998, - 1140, - 1281, - 1422, - 1563, - 1703, - 1842, - 1981, - 2120,
      - 2258, - 2395, - 2531, - 2667, - 2801, - 2935, - 3068, - 3200, - 3331, - 3462, - 3591, - 3719, - 3845, - 3971,
      - 4095, - 4219, - 4341, - 4461, - 4580, - 4698, - 4815, - 4930, - 5043, - 5155, - 5265, - 5374, - 5481, - 5586,
      - 5690, - 5792, - 5892, - 5991, - 6087, - 6182, - 6275, - 6366, - 6455, - 6542, - 6627, - 6710, - 6791, - 6870,
      - 6947, - 7021, - 7094, - 7164, - 7233, - 7299, - 7362, - 7424, - 7483, - 7540, - 7595, - 7647, - 7697, - 7745,
      - 7791, - 7834, - 7874, - 7912, - 7948, - 7982, - 8012, - 8041, - 8067, - 8091, - 8112, - 8130, - 8147, - 8160,
      - 8172, - 8180, - 8187, - 8190, - 8191, - 8190, - 8187, - 8180, - 8172, - 8160, - 8147, - 8130, - 8112, - 8091,
      - 8067, - 8041, - 8012, - 7982, - 7948, - 7912, - 7874, - 7834, - 7791, - 7745, - 7697, - 7647, - 7595, - 7540,
      - 7483, - 7424, - 7362, - 7299, - 7233, - 7164, - 7094, - 7021, - 6947, - 6870, - 6791, - 6710, - 6627, - 6542,
      - 6455, - 6366, - 6275, - 6182, - 6087, - 5991, - 5892, - 5792, - 5690, - 5586, - 5481, - 5374, - 5265, - 5155,
      - 5043, - 4930, - 4815, - 4698, - 4580, - 4461, - 4341, - 4219, - 4096, - 3971, - 3845, - 3719, - 3591, - 3462,
      - 3331, - 3200, - 3068, - 2935, - 2801, - 2667, - 2531, - 2395, - 2258, - 2120, - 1981, - 1842, - 1703, - 1563,
      - 1422, - 1281, - 1140, - 998, - 856, - 713, - 571, - 428, - 285, - 142]"

definition kChannelStored8kHz :: "int list" where
  "kChannelStored8kHz =
     [2040, 1815, 1590, 1498, 1405, 1395, 1385, 1418, 1451, 1506, 1562, 1644, 1726, 1804,
      1882, 1918, 1953, 1982, 2010, 2025, 2040, 2034, 2027, 2021, 2014, 1997, 1980, 1925,
      1869, 1800, 1732, 1683, 1635, 1604, 1572, 1545, 1517, 1481, 1444, 1405, 1367, 1331,
      1294, 1270, 1245, 1239, 1233, 1247, 1260, 1282, 1303, 1338, 1373, 1407, 1441, 1470,
      1499, 1524, 1549, 1565, 1582, 1601, 1621, 1649, 1676]"

definition kChannelStored16kHz :: "int list" where
  "kChannelStored16kHz =
     [2040, 1590, 1405, 1385, 1451, 1562, 1726, 1882, 1953, 2010, 2040, 2027, 2014, 1980,
      1869, 1732, 1635, 1572, 1517, 1444, 1367, 1294, 1245, 1233, 1260, 1303, 1373, 1441,
      1499, 1549, 1582, 1621, 1676, 1741, 1802, 1861, 1921, 1983, 2040, 2102, 2170, 2265,
      2375, 2515, 2651, 2781, 2922, 3075, 3253, 3471, 3738, 3976, 4151, 4258, 4308, 4288,
      4270, 4253, 4237, 4179, 4086, 3947, 3757, 3484, 3153]"

section \<open>Constants\<close>

abbreviation FRAME_LEN :: nat where "FRAME_LEN \<equiv> 80"
abbreviation PART_LEN :: nat where "PART_LEN \<equiv> 64"
abbreviation PART_LEN1 :: nat where "PART_LEN1 \<equiv> 65"
abbreviation PART_LEN2 :: nat where "PART_LEN2 \<equiv> 128"
abbreviation FAR_BUF_LEN :: nat where "FAR_BUF_LEN \<equiv> 256"
abbreviation MAX_DELAY :: nat where "MAX_DELAY \<equiv> 100"
abbreviation MAX_BUF_LEN :: nat where "MAX_BUF_LEN \<equiv> 64"
abbreviation PART_LEN_SHIFT :: int where "PART_LEN_SHIFT \<equiv> 7"
abbreviation CONV_LEN :: int where "CONV_LEN \<equiv> 512"
abbreviation CONV_LEN2 :: int where "CONV_LEN2 \<equiv> 1024"
abbreviation FAR_ENERGY_MIN :: int where "FAR_ENERGY_MIN \<equiv> 1025"
abbreviation FAR_ENERGY_DIFF :: int where "FAR_ENERGY_DIFF \<equiv> 929"
abbreviation ENERGY_DEV_OFFSET :: int where "ENERGY_DEV_OFFSET \<equiv> 0"
abbreviation ENERGY_DEV_TOL :: int where "ENERGY_DEV_TOL \<equiv> 400"
abbreviation FAR_ENERGY_VAD_REGION :: int where "FAR_ENERGY_VAD_REGION \<equiv> 230"
abbreviation MU_MIN :: int where "MU_MIN \<equiv> 10"
abbreviation MU_MAX :: int where "MU_MAX \<equiv> 1"
abbreviation MU_DIFF :: int where "MU_DIFF \<equiv> 9"
abbreviation MIN_MSE_COUNT :: nat where "MIN_MSE_COUNT \<equiv> 20"
abbreviation MIN_MSE_DIFF :: int where "MIN_MSE_DIFF \<equiv> 29"
abbreviation MSE_RESOLUTION :: nat where "MSE_RESOLUTION \<equiv> 5"
abbreviation RESOLUTION_CHANNEL16 :: int where "RESOLUTION_CHANNEL16 \<equiv> 12"
abbreviation RESOLUTION_CHANNEL32 :: int where "RESOLUTION_CHANNEL32 \<equiv> 28"
abbreviation CHANNEL_VAD :: int where "CHANNEL_VAD \<equiv> 16"
abbreviation RESOLUTION_SUPGAIN :: int where "RESOLUTION_SUPGAIN \<equiv> 8"
abbreviation SUPGAIN_DEFAULT :: int where "SUPGAIN_DEFAULT \<equiv> 256"
abbreviation SUPGAIN_ERROR_PARAM_A :: int where "SUPGAIN_ERROR_PARAM_A \<equiv> 3072"
abbreviation SUPGAIN_ERROR_PARAM_B :: int where "SUPGAIN_ERROR_PARAM_B \<equiv> 1536"
abbreviation SUPGAIN_ERROR_PARAM_D :: int where "SUPGAIN_ERROR_PARAM_D \<equiv> SUPGAIN_DEFAULT"
abbreviation SUPGAIN_EPC_DT :: int where "SUPGAIN_EPC_DT \<equiv> 200"
abbreviation ONE_Q14 :: int where "ONE_Q14 \<equiv> 16384"
abbreviation NLP_COMP_LOW :: int where "NLP_COMP_LOW \<equiv> 3277"
abbreviation NLP_COMP_HIGH :: int where "NLP_COMP_HIGH \<equiv> ONE_Q14"

section \<open>State\<close>

record AecmCore =
  farBufWritePos :: nat
  farBufReadPos :: int
  knownDelay :: int
  lastKnownDelay :: int
  firstVAD :: int
  farFrameBuf :: "int ring_buffer"
  nearNoisyFrameBuf :: "int ring_buffer"
  nearCleanFrameBuf :: "int ring_buffer"
  outFrameBuf :: "int ring_buffer"
  farBuf :: "int list"
  mult :: int
  seed :: int
  delay_estimator_farend :: "DelayEstimatorFarend option"
  delay_estimator :: "DelayEstimator option"
  far_history :: "int list"
  far_history_pos :: nat
  far_q_domains :: "int list"
  nlpFlag :: int
  fixedDelay :: int
  totCount :: int
  dfaCleanQDomain :: int
  dfaCleanQDomainOld :: int
  dfaNoisyQDomain :: int
  dfaNoisyQDomainOld :: int
  nearLogEnergy :: "int list"
  farLogEnergy :: int
  echoAdaptLogEnergy :: "int list"
  echoStoredLogEnergy :: "int list"
  channelStored :: "int list"
  channelAdapt16 :: "int list"
  channelAdapt32 :: "int list"
  xBuf :: "int list"
  dBufClean :: "int list"
  dBufNoisy :: "int list"
  outBuf :: "int list"
  echoFilt :: "int list"
  nearFilt :: "int list"
  noiseEst :: "int list"
  noiseEstTooLowCtr :: "int list"
  noiseEstTooHighCtr :: "int list"
  noiseEstCtr :: int
  cngMode :: int
  mseAdaptOld :: int
  mseStoredOld :: int
  mseThreshold :: int
  farEnergyMin :: int
  farEnergyMax :: int
  farEnergyMaxMin :: int
  farEnergyVAD :: int
  farEnergyMSE :: int
  currentVADValue :: int
  vadUpdateCount :: int
  startupState :: int
  mseChannelCount :: int
  supGain :: int
  supGainOld :: int
  supGainErrParamA :: int
  supGainErrParamD :: int
  supGainErrParamDiffAB :: int
  supGainErrParamDiffBD :: int
  real_fft :: RealFFT

section \<open>The history of far-end spectra\<close>

definition WebRtcAecm_UpdateFarHistory :: "AecmCore \<Rightarrow> int list \<Rightarrow> int \<Rightarrow> AecmCore" where
  "WebRtcAecm_UpdateFarHistory self far_spectrum far_q =
     (let self = self\<lparr>far_history_pos := far_history_pos self + 1\<rparr>;
          self = (if far_history_pos self \<ge> MAX_DELAY then self\<lparr>far_history_pos := 0\<rparr> else self)
      in self\<lparr>far_q_domains := (far_q_domains self)[far_history_pos self := far_q],
              far_history := blit (far_history self) (far_history_pos self * PART_LEN1) (take PART_LEN1 far_spectrum)\<rparr>)"

text \<open>The result is the Q-domain and the spectrum that the returned pointer points to.\<close>

definition WebRtcAecm_AlignedFarend :: "AecmCore \<Rightarrow> int \<Rightarrow> int \<times> int list" where
  "WebRtcAecm_AlignedFarend self delay =
     (let buffer_position = int (far_history_pos self) - delay;
          buffer_position = (if buffer_position < 0 then buffer_position + int MAX_DELAY else buffer_position);
          b = nat buffer_position
      in (far_q_domains self ! b, take PART_LEN1 (drop (b * PART_LEN1) (far_history self))))"

section \<open>Creation and initialisation\<close>

text \<open>
  \<open>ok\<close> tells for each allocation whether it succeeds: the ring buffers, the delay
  estimator's two parts, the Fourier transform. \<open>junk\<close> is the memory that \<^verbatim>\<open>malloc\<close> returns.
\<close>

definition WebRtcAecm_CreateCore :: "(nat \<Rightarrow> bool) \<Rightarrow> AecmCore \<Rightarrow> AecmCore option" where
  "WebRtcAecm_CreateCore ok junk =
     (case WebRtc_CreateBuffer (ok 0) (ok 1) (farFrameBuf junk) (FRAME_LEN + PART_LEN) 2 of None \<Rightarrow> None | Some b1 \<Rightarrow>
      case WebRtc_CreateBuffer (ok 2) (ok 3) (nearNoisyFrameBuf junk) (FRAME_LEN + PART_LEN) 2 of None \<Rightarrow> None | Some b2 \<Rightarrow>
      case WebRtc_CreateBuffer (ok 4) (ok 5) (nearCleanFrameBuf junk) (FRAME_LEN + PART_LEN) 2 of None \<Rightarrow> None | Some b3 \<Rightarrow>
      case WebRtc_CreateBuffer (ok 6) (ok 7) (outFrameBuf junk) (FRAME_LEN + PART_LEN) 2 of None \<Rightarrow> None | Some b4 \<Rightarrow>
      case WebRtc_CreateDelayEstimatorFarend (ok 8) [ok 9, ok 10, ok 11] (ok 12) blank_farend (int PART_LEN1) (int MAX_DELAY) of
        None \<Rightarrow> None | Some fe \<Rightarrow>
      case WebRtc_CreateDelayEstimator (ok 13) (ok 14) (ok 15) [ok 16, ok 17, ok 18, ok 19, ok 20] (ok 21) blank_handle (Some fe) 0 of
        None \<Rightarrow> None | Some de \<Rightarrow>
      case WebRtcSpl_CreateRealFFT (ok 22) PART_LEN_SHIFT of None \<Rightarrow> None | Some fft \<Rightarrow>
        Some (junk\<lparr>farFrameBuf := b1, nearNoisyFrameBuf := b2, nearCleanFrameBuf := b3, outFrameBuf := b4,
                   delay_estimator_farend := Some fe,
                   delay_estimator := fst (WebRtc_enable_robust_validation (Some de) 0),
                   real_fft := fft\<rparr>))"

definition WebRtcAecm_InitEchoPathCore :: "AecmCore \<Rightarrow> int list \<Rightarrow> AecmCore" where
  "WebRtcAecm_InitEchoPathCore aecm echo_path =
     aecm\<lparr>channelStored := blit (channelStored aecm) 0 (take PART_LEN1 echo_path),
          channelAdapt16 := blit (channelAdapt16 aecm) 0 (take PART_LEN1 echo_path),
          channelAdapt32 := map (\<lambda>i. s32 (shl (blit (channelAdapt16 aecm) 0 (take PART_LEN1 echo_path) ! i) 16)) [0..<PART_LEN1],
          mseAdaptOld := 1000, mseStoredOld := 1000, mseThreshold := 0x7fffffff, mseChannelCount := 0\<rparr>"

text \<open>The initial noise level: the state of the loop is \<open>(noiseEst, tmp32, tmp16)\<close>.\<close>

definition init_noise :: "int list \<Rightarrow> int list" where
  "init_noise noise =
     (let (noise, tmp32, tmp16) = fold (\<lambda>i (noise, tmp32, tmp16).
            let noise = noise[i := s32 (shl tmp32 8)]; tmp16 = s16 (tmp16 - 1)
            in (noise, s32 (tmp32 - (shl tmp16 1 + 1)), tmp16)) [0..<PART_LEN1 div 2 - 1]
            (noise, int (PART_LEN1 * PART_LEN1), int PART_LEN1)
      in fold (\<lambda>i noise. noise[i := s32 (shl tmp32 8)]) [PART_LEN1 div 2 - 1..<PART_LEN1] noise)"

definition AecmTrue :: int where "AecmTrue = 1"

text \<open>The fields that the end of \<open>InitCore\<close> sets to constants.\<close>

definition init_levels :: "AecmCore \<Rightarrow> AecmCore" where
  "init_levels aecm =
     aecm\<lparr>farEnergyMin := 32767, farEnergyMax := - 32768, farEnergyMaxMin := 0,
          farEnergyVAD := FAR_ENERGY_MIN, farEnergyMSE := 0, currentVADValue := 0, vadUpdateCount := 0, firstVAD := 1,
          startupState := 0, supGain := SUPGAIN_DEFAULT, supGainOld := SUPGAIN_DEFAULT,
          supGainErrParamA := SUPGAIN_ERROR_PARAM_A, supGainErrParamD := SUPGAIN_ERROR_PARAM_D,
          supGainErrParamDiffAB := SUPGAIN_ERROR_PARAM_A - SUPGAIN_ERROR_PARAM_B,
          supGainErrParamDiffBD := SUPGAIN_ERROR_PARAM_B - SUPGAIN_ERROR_PARAM_D\<rparr>"

definition init_buffers :: "AecmCore \<Rightarrow> AecmCore" where
  "init_buffers aecm =
     aecm\<lparr>farBufWritePos := 0, farBufReadPos := 0, knownDelay := 0, lastKnownDelay := 0,
          farFrameBuf := WebRtc_InitBuffer (farFrameBuf aecm),
          nearNoisyFrameBuf := WebRtc_InitBuffer (nearNoisyFrameBuf aecm),
          nearCleanFrameBuf := WebRtc_InitBuffer (nearCleanFrameBuf aecm),
          outFrameBuf := WebRtc_InitBuffer (outFrameBuf aecm),
          xBuf := replicate PART_LEN2 0, dBufClean := replicate PART_LEN2 0, dBufNoisy := replicate PART_LEN2 0,
          outBuf := replicate PART_LEN 0, seed := 666, totCount := 0\<rparr>"

definition init_filters :: "AecmCore \<Rightarrow> AecmCore" where
  "init_filters aecm =
     aecm\<lparr>echoFilt := replicate PART_LEN1 0, nearFilt := replicate PART_LEN1 0, noiseEstCtr := 0, cngMode := AecmTrue,
          noiseEstTooLowCtr := replicate PART_LEN1 0, noiseEstTooHighCtr := replicate PART_LEN1 0,
          noiseEst := init_noise (noiseEst aecm)\<rparr>"

definition init_history :: "AecmCore \<Rightarrow> AecmCore" where
  "init_history aecm =
     aecm\<lparr>far_history := replicate (PART_LEN1 * MAX_DELAY) 0, far_q_domains := replicate MAX_DELAY 0,
          far_history_pos := MAX_DELAY, nlpFlag := 1, fixedDelay := - 1,
          dfaCleanQDomain := 0, dfaCleanQDomainOld := 0, dfaNoisyQDomain := 0, dfaNoisyQDomainOld := 0,
          nearLogEnergy := replicate MAX_BUF_LEN 0, farLogEnergy := 0,
          echoAdaptLogEnergy := replicate MAX_BUF_LEN 0, echoStoredLogEnergy := replicate MAX_BUF_LEN 0\<rparr>"

definition WebRtcAecm_InitCore :: "AecmCore \<Rightarrow> int \<Rightarrow> AecmCore \<times> int" where
  "WebRtcAecm_InitCore aecm samplingFreq =
     (if samplingFreq \<noteq> 8000 \<and> samplingFreq \<noteq> 16000 then (aecm, - 1)
      else let aecm = init_buffers (aecm\<lparr>mult := s16 (cdiv (s16 samplingFreq) 8000)\<rparr>);
               (fe, r) = WebRtc_InitDelayEstimatorFarend (delay_estimator_farend aecm);
               aecm = aecm\<lparr>delay_estimator_farend := fe\<rparr>
           in if r \<noteq> 0 then (aecm, - 1)
              else let (de, r) = WebRtc_InitDelayEstimator (delay_estimator aecm);
                       aecm = aecm\<lparr>delay_estimator := de\<rparr>
                   in if r \<noteq> 0 then (aecm, - 1)
                      else let aecm = init_history aecm;
                               aecm = WebRtcAecm_InitEchoPathCore aecm
                                        (if samplingFreq = 8000 then kChannelStored8kHz else kChannelStored16kHz)
                           in (init_levels (init_filters aecm), 0))"

definition WebRtcAecm_Control :: "AecmCore \<Rightarrow> int \<Rightarrow> int \<Rightarrow> AecmCore \<times> int" where
  "WebRtcAecm_Control aecm delay nlp = (aecm\<lparr>nlpFlag := s16 nlp, fixedDelay := s16 delay\<rparr>, 0)"

section \<open>The far-end delay line\<close>

text \<open>
  \<open>wrap_write\<close> is the loop of \<open>BufferFarFrame\<close> on \<open>(farBuf, farBufWritePos, writeLen, writePos)\<close>. Its
  frames are shorter than the buffer, so that a turn from position 0 is the last one.
\<close>

function wrap_write :: "int list \<Rightarrow> nat \<Rightarrow> int list \<Rightarrow> nat \<Rightarrow> nat \<Rightarrow> nat \<Rightarrow> int list \<times> nat \<times> nat \<times> nat" where
  "wrap_write far farLen buf bufPos writeLen writePos =
     (if bufPos + writeLen > FAR_BUF_LEN \<and> 0 < bufPos
      then let writeLen = FAR_BUF_LEN - bufPos;
               buf = blit buf bufPos (take writeLen (drop writePos far))
           in wrap_write far farLen buf 0 (farLen - writeLen) writeLen
      else (buf, bufPos, writeLen, writePos))"
  by pat_completeness auto
termination by (relation "measure (\<lambda>(far, farLen, buf, bufPos, writeLen, writePos). bufPos)") auto

declare wrap_write.simps [simp del]

definition WebRtcAecm_BufferFarFrame :: "AecmCore \<Rightarrow> int list \<Rightarrow> nat \<Rightarrow> AecmCore" where
  "WebRtcAecm_BufferFarFrame aecm farend farLen =
     (let (buf, bufPos, writeLen, writePos) = wrap_write farend farLen (farBuf aecm) (farBufWritePos aecm) farLen 0
      in aecm\<lparr>farBuf := blit buf bufPos (take writeLen (drop writePos farend)), farBufWritePos := bufPos + writeLen\<rparr>)"

text \<open>The two loops that bring the read position into the buffer.\<close>

function wrap_up :: "int \<Rightarrow> int" where
  "wrap_up p = (if p < 0 then wrap_up (p + int FAR_BUF_LEN) else p)"
  by pat_completeness auto
termination by (relation "measure (\<lambda>p. nat (- p))") auto

function wrap_down :: "int \<Rightarrow> int" where
  "wrap_down p = (if p > int FAR_BUF_LEN - 1 then wrap_down (p - int FAR_BUF_LEN) else p)"
  by pat_completeness auto
termination by (relation "measure (\<lambda>p. nat p)") auto

declare wrap_up.simps [simp del] wrap_down.simps [simp del]

text \<open>The reading loop on \<open>(farend, farBufReadPos, readLen, readPos)\<close>.\<close>

function wrap_read :: "int list \<Rightarrow> nat \<Rightarrow> int list \<Rightarrow> nat \<Rightarrow> nat \<Rightarrow> nat \<Rightarrow> int list \<times> nat \<times> nat \<times> nat" where
  "wrap_read buf farLen out bufPos readLen readPos =
     (if bufPos + readLen > FAR_BUF_LEN \<and> 0 < bufPos
      then let readLen = FAR_BUF_LEN - bufPos;
               out = blit out readPos (take readLen (drop bufPos buf))
           in wrap_read buf farLen out 0 (farLen - readLen) readLen
      else (out, bufPos, readLen, readPos))"
  by pat_completeness auto
termination by (relation "measure (\<lambda>(buf, farLen, out, bufPos, readLen, readPos). bufPos)") auto

declare wrap_read.simps [simp del]

definition WebRtcAecm_FetchFarFrame :: "AecmCore \<Rightarrow> int list \<Rightarrow> nat \<Rightarrow> int \<Rightarrow> AecmCore \<times> int list" where
  "WebRtcAecm_FetchFarFrame aecm farend farLen delay =
     (let delayChange = s32 (delay - lastKnownDelay aecm);
          pos = s32 (farBufReadPos aecm - delayChange);
          pos = wrap_down (wrap_up pos);
          aecm = aecm\<lparr>lastKnownDelay := delay\<rparr>;
          (farend, bufPos, readLen, readPos) = wrap_read (farBuf aecm) farLen farend (nat pos) farLen 0;
          farend = blit farend readPos (take readLen (drop bufPos (farBuf aecm)))
      in (aecm\<lparr>farBufReadPos := int (bufPos + readLen)\<rparr>, farend))"

section \<open>Memory before the creation\<close>

definition blank_ring_buffer :: "int ring_buffer" where
  "blank_ring_buffer = \<lparr>read_pos = 0, write_pos = 0, element_count = 144, element_size = 2, rw_wrap = SAME_WRAP,
     data = replicate 144 0\<rparr>"

definition blank_core :: AecmCore where
  "blank_core = \<lparr>
     farBufWritePos = 0, farBufReadPos = 0, knownDelay = 0, lastKnownDelay = 0, firstVAD = 0, farFrameBuf
     = blank_ring_buffer, nearNoisyFrameBuf = blank_ring_buffer, nearCleanFrameBuf = blank_ring_buffer,
     outFrameBuf = blank_ring_buffer, farBuf = replicate 256 0, mult = 0, seed = 0,
     delay_estimator_farend = Some blank_farend, delay_estimator = Some blank_handle, far_history =
     replicate 6500 0, far_history_pos = 0, far_q_domains = replicate 100 0, nlpFlag = 0, fixedDelay = 0,
     totCount = 0, dfaCleanQDomain = 0, dfaCleanQDomainOld = 0, dfaNoisyQDomain = 0, dfaNoisyQDomainOld =
     0, nearLogEnergy = replicate 64 0, farLogEnergy = 0, echoAdaptLogEnergy = replicate 64 0,
     echoStoredLogEnergy = replicate 64 0, channelStored = replicate 65 0, channelAdapt16 = replicate 65
     0, channelAdapt32 = replicate 65 0, xBuf = replicate 128 0, dBufClean = replicate 128 0, dBufNoisy =
     replicate 128 0, outBuf = replicate 64 0, echoFilt = replicate 65 0, nearFilt = replicate 65 0,
     noiseEst = replicate 65 0, noiseEstTooLowCtr = replicate 65 0, noiseEstTooHighCtr = replicate 65 0,
     noiseEstCtr = 0, cngMode = 0, mseAdaptOld = 0, mseStoredOld = 0, mseThreshold = 0, farEnergyMin = 0,
     farEnergyMax = 0, farEnergyMaxMin = 0, farEnergyVAD = 0, farEnergyMSE = 0, currentVADValue = 0,
     vadUpdateCount = 0, startupState = 0, mseChannelCount = 0, supGain = 0, supGainOld = 0,
     supGainErrParamA = 0, supGainErrParamD = 0, supGainErrParamDiffAB = 0, supGainErrParamDiffBD = 0,
     real_fft = \<lparr>order = 7\<rparr>\<rparr>"

end
