(* ===== verification/Aecm_Farend.thy ===== *)
theory Aecm_Farend
  imports Aecm_Core
begin

text \<open>
  The far-end signal inside the core (\<^verbatim>\<open>modules/audio_processing/aecm/aecm_core.c\<close>): the history
  of spectra returns what was added a given number of blocks ago, and the delay line returns the
  samples of the given delay, whatever the changes of the delay between the frames.
\<close>

section \<open>The history keeps the last spectra\<close>

definition hist_slot :: "AecmCore \<Rightarrow> nat \<Rightarrow> int list" where
  "hist_slot self b = take PART_LEN1 (drop (b * PART_LEN1) (far_history self))"

text \<open>\<open>hist_rep self h\<close>: the history holds \<open>h\<close>, the newest spectrum first, as far as it goes back.\<close>

definition hist_rep :: "AecmCore \<Rightarrow> (int list \<times> int) list \<Rightarrow> bool" where
  "hist_rep self h \<longleftrightarrow> length (far_history self) = PART_LEN1 * MAX_DELAY \<and> length (far_q_domains self) = MAX_DELAY \<and>
     far_history_pos self \<le> MAX_DELAY \<and> (h \<noteq> [] \<longrightarrow> far_history_pos self < MAX_DELAY) \<and>
     (\<forall>d < min MAX_DELAY (length h).
        hist_slot self ((far_history_pos self + MAX_DELAY - d) mod MAX_DELAY) = fst (h ! d) \<and>
        far_q_domains self ! ((far_history_pos self + MAX_DELAY - d) mod MAX_DELAY) = snd (h ! d))"

lemma hist_slot_blit:
  assumes "length sp = PART_LEN1" "length (far_history self) = PART_LEN1 * MAX_DELAY" "a < MAX_DELAY" "b < MAX_DELAY"
  shows "take PART_LEN1 (drop (b * PART_LEN1) (blit (far_history self) (a * PART_LEN1) sp)) =
    (if b = a then sp else hist_slot self b)"
proof (cases "b = a")
  case True
  then show ?thesis using assms by (simp add: blit_def)
next
  case False
  have len: "length (blit (far_history self) (a * PART_LEN1) sp) = PART_LEN1 * MAX_DELAY"
    using assms by (simp add: length_blit)
  have "take PART_LEN1 (drop (b * PART_LEN1) (blit (far_history self) (a * PART_LEN1) sp)) = hist_slot self b"
  proof (rule nth_equalityI)
    show l: "length (take PART_LEN1 (drop (b * PART_LEN1) (blit (far_history self) (a * PART_LEN1) sp))) = length (hist_slot self b)"
      using len assms(2) by (simp add: hist_slot_def)
    fix i assume "i < length (take PART_LEN1 (drop (b * PART_LEN1) (blit (far_history self) (a * PART_LEN1) sp)))"
    then have i: "i < PART_LEN1" "b * PART_LEN1 + i < PART_LEN1 * MAX_DELAY" using len by (auto simp: less_diff_conv add.commute)
    have "b * PART_LEN1 + i < a * PART_LEN1 \<or> a * PART_LEN1 + PART_LEN1 \<le> b * PART_LEN1 + i" using False i by linarith
    then show "take PART_LEN1 (drop (b * PART_LEN1) (blit (far_history self) (a * PART_LEN1) sp)) ! i = hist_slot self b ! i"
      using i assms by (auto simp: hist_slot_def nth_blit length_blit less_diff_conv nth_drop)
  qed
  then show ?thesis using False by simp
qed

lemma hist_index:
  assumes "e + 1 < MAX_DELAY" and "p < MAX_DELAY"
  defines "q \<equiv> if p + 1 \<ge> MAX_DELAY then 0 else p + 1"
  shows "(q + MAX_DELAY - Suc e) mod MAX_DELAY = (p + MAX_DELAY - e) mod MAX_DELAY"
    and "(q + MAX_DELAY - Suc e) mod MAX_DELAY \<noteq> q"
proof -
  have "(p + MAX_DELAY - e) mod MAX_DELAY = (if p < e then p + MAX_DELAY - e else p - e)"
    using assms(1,2) by (auto simp: mod_if)
  moreover have "(q + MAX_DELAY - Suc e) mod MAX_DELAY = (if q < Suc e then q + MAX_DELAY - Suc e else q - Suc e)"
    using assms(1,2) by (auto simp: mod_if q_def)
  ultimately show "(q + MAX_DELAY - Suc e) mod MAX_DELAY = (p + MAX_DELAY - e) mod MAX_DELAY"
    and "(q + MAX_DELAY - Suc e) mod MAX_DELAY \<noteq> q"
    using assms(1,2) by (auto simp: q_def)
qed

lemma update_history:
  assumes "hist_rep self h" and "length sp = PART_LEN1"
  shows "hist_rep (WebRtcAecm_UpdateFarHistory self sp q) ((sp, q) # h)"
proof -
  let ?p = "far_history_pos self"
  define p' where "p' = (if ?p + 1 \<ge> MAX_DELAY then 0 else ?p + 1)"
  let ?s = "WebRtcAecm_UpdateFarHistory self sp q"
  have p': "p' < MAX_DELAY" "far_history_pos ?s = p'"
    by (auto simp: p'_def WebRtcAecm_UpdateFarHistory_def Let_def)
  have fh: "far_history ?s = blit (far_history self) (p' * PART_LEN1) sp" "far_q_domains ?s = (far_q_domains self)[p' := q]"
    using assms(2) by (auto simp: p'_def WebRtcAecm_UpdateFarHistory_def Let_def)
  have len: "length (far_history self) = PART_LEN1 * MAX_DELAY" "length (far_q_domains self) = MAX_DELAY"
    using assms(1) by (auto simp: hist_rep_def)
  have slot: "hist_slot ?s b = (if b = p' then sp else hist_slot self b)" if "b < MAX_DELAY" for b
    using hist_slot_blit [OF assms(2) len(1) p'(1) that] fh by (simp add: hist_slot_def [of ?s])
  have "hist_slot ?s ((p' + MAX_DELAY - d) mod MAX_DELAY) = fst (((sp, q) # h) ! d) \<and>
        far_q_domains ?s ! ((p' + MAX_DELAY - d) mod MAX_DELAY) = snd (((sp, q) # h) ! d)"
    if d: "d < min MAX_DELAY (length ((sp, q) # h))" for d
  proof (cases d)
    case 0
    then show ?thesis using slot [of p'] p' fh len by simp
  next
    case (Suc e)
    then have e: "e < length h" "e + 1 < MAX_DELAY" using d by simp_all
    then have "?p < MAX_DELAY" using assms(1) by (auto simp: hist_rep_def)
    then have idx: "(p' + MAX_DELAY - d) mod MAX_DELAY = (?p + MAX_DELAY - e) mod MAX_DELAY"
      "(p' + MAX_DELAY - d) mod MAX_DELAY \<noteq> p'"
      using e Suc p'(1) hist_index [of e ?p] unfolding p'_def by simp_all
    have "(?p + MAX_DELAY - e) mod MAX_DELAY < MAX_DELAY" by simp
    then show ?thesis using assms(1) e idx slot fh Suc by (auto simp: hist_rep_def)
  qed
  then show ?thesis using p' fh len assms(2) unfolding hist_rep_def by (simp add: length_blit)
qed

lemma aligned_farend:
  assumes "hist_rep self h" and "d < length h" and "d < MAX_DELAY"
  shows "WebRtcAecm_AlignedFarend self (int d) = (snd (h ! d), fst (h ! d))"
proof -
  let ?p = "far_history_pos self"
  have p: "?p < MAX_DELAY" using assms by (auto simp: hist_rep_def)
  define b where "b = nat (if int ?p - int d < 0 then int ?p - int d + int MAX_DELAY else int ?p - int d)"
  have b: "b = (?p + MAX_DELAY - d) mod MAX_DELAY"
    using p assms(3) by (auto simp: b_def mod_if nat_diff_distrib)
  have "WebRtcAecm_AlignedFarend self (int d) = (far_q_domains self ! b, hist_slot self b)"
    by (simp add: WebRtcAecm_AlignedFarend_def Let_def b_def hist_slot_def)
  then show ?thesis using assms unfolding b by (auto simp: hist_rep_def)
qed


lemma InitCore_history:
  assumes "WebRtcAecm_InitCore aecm fs = (a, 0)"
  shows "hist_rep a []"
proof -
  have "far_history a = replicate (PART_LEN1 * MAX_DELAY) 0 \<and> far_q_domains a = replicate MAX_DELAY 0 \<and>
      far_history_pos a = MAX_DELAY"
    using assms
    by (auto simp: WebRtcAecm_InitCore_def Let_def init_history_def init_levels_def init_filters_def
        WebRtcAecm_InitEchoPathCore_def split: if_splits prod.splits)
  then show ?thesis by (simp add: hist_rep_def)
qed

lemma update_history_list:
  assumes "hist_rep a h" and "list_all (\<lambda>(sp, q). length sp = PART_LEN1) added"
  shows "hist_rep (fold (\<lambda>(sp, q) a. WebRtcAecm_UpdateFarHistory a sp q) added a) (rev added @ h)"
  using assms
proof (induction added arbitrary: a h)
  case (Cons x xs)
  obtain sp q where x: "x = (sp, q)" by (cases x)
  have "hist_rep (WebRtcAecm_UpdateFarHistory a sp q) ((sp, q) # h)"
    using Cons.prems x by (intro update_history) auto
  from Cons.IH [OF this] Cons.prems show ?case by (simp add: x)
qed simp

text \<open>
  From the initialisation on, the history returns for each delay below 100 the spectrum, and its
  Q-domain, that was added that number of blocks ago, for any number of added spectra.
\<close>

theorem far_history_window:
  assumes "WebRtcAecm_InitCore aecm fs = (a, 0)"
    and "list_all (\<lambda>(sp, q). length sp = 65) added" and "d < length added" and "d < 100"
  shows "WebRtcAecm_AlignedFarend (fold (\<lambda>(sp, q) a. WebRtcAecm_UpdateFarHistory a sp q) added a) (int d) =
    (snd (rev added ! d), fst (rev added ! d))"
  using aligned_farend [OF update_history_list [OF InitCore_history [OF assms(1)]], of added d] assms(2-4)
  by simp

section \<open>The delay line\<close>

lemma circular_index:
  assumes "s \<le> t + 256"
  shows "(t mod 256 + 256 - s mod 256) mod 256 = (if s \<le> t then (t - s) mod 256 else (t + 256 - s :: nat))"
proof -
  have "s mod 256 \<le> t mod 256 + 256" by (simp add: trans_le_add2 less_imp_le)
  then have "int ((t mod 256 + 256 - s mod 256) mod 256) = (int t mod 256 + 256 - int s mod 256) mod 256"
    by (simp add: of_nat_diff zmod_int)
  also have "\<dots> = (int t + 256 - int s) mod 256" using mod_diff_eq [of "int t + 256" 256 "int s"] mod_add_left_eq [of "int t" 256 256]
    by (metis mod_add_self2 mod_diff_cong mod_mod_trivial)
  also have "\<dots> = int ((t + 256 - s) mod 256)" using assms by (simp add: zmod_int of_nat_diff)
  finally have "(t mod 256 + 256 - s mod 256) mod 256 = (t + 256 - s) mod 256" by linarith
  moreover have "(t + 256 - s) mod 256 = (t - s) mod 256" if "s \<le> t"
    using that mod_add_self2 [of "t - s" 256] by simp
  ultimately show ?thesis using assms by auto
qed

lemma circular_offset:
  assumes "p \<le> 256" and "j < 256"
  shows "(j + 256 - p mod 256) mod 256 = (if p = 256 then j else if j < p then j + 256 - p else j - (p::nat))"
proof (cases "p = 256")
  case True
  then show ?thesis using assms by simp
next
  case False
  then have "p mod 256 = p" using assms by simp
  then show ?thesis using assms False by (auto simp: mod_if)
qed

text \<open>Writing: the \<open>n\<close> samples at consecutive positions modulo 256, the others unchanged.\<close>

definition written :: "int list \<Rightarrow> nat \<Rightarrow> int list \<Rightarrow> nat \<Rightarrow> int" where
  "written buf p f j = (let k = (j + 256 - p mod 256) mod 256 in if k < length f then f ! k else buf ! j)"

lemma written_eq:
  assumes "p \<le> 256" and "j < 256"
  shows "written buf p f j =
    (let k = (if p = 256 then j else if j < p then j + 256 - p else j - p) in if k < length f then f ! k else buf ! j)"
  unfolding written_def circular_offset [OF assms] ..

lemma wrap_write_eq:
  assumes "0 < n" "n \<le> 256" and "p \<le> 256"
  shows "wrap_write f n buf p n 0 =
    (if p + n \<le> 256 then (buf, p, n, 0) else (blit buf p (take (256 - p) f), 0, n - (256 - p), 256 - p))"
proof (cases "p + n \<le> 256")
  case True
  then show ?thesis by (subst wrap_write.simps) simp
next
  case False
  have "wrap_write f n b 0 k j = (b, 0, k, j)" for b k j by (subst wrap_write.simps) simp
  then show ?thesis using False assms by (subst wrap_write.simps) (simp add: Let_def)
qed

lemma buffer_far_frame:
  assumes "length (farBuf a) = 256" and "farBufWritePos a \<le> 256" and "length f = n" and "0 < n" "n \<le> 256"
  defines "a' \<equiv> WebRtcAecm_BufferFarFrame a f n"
  shows "length (farBuf a') = 256" and "farBufWritePos a' \<le> 256"
    and "farBufWritePos a' mod 256 = (farBufWritePos a + n) mod 256"
    and "j < 256 \<Longrightarrow> farBuf a' ! j = written (farBuf a) (farBufWritePos a) f j"
proof -
  define p where "p = farBufWritePos a"
  define m where "m = 256 - p"
  have p: "p \<le> 256" using assms by (simp add: p_def)
  have eq: "farBuf a' = (if p + n \<le> 256 then blit (farBuf a) p f else blit (blit (farBuf a) p (take m f)) 0 (drop m f)) \<and>
      farBufWritePos a' = (if p + n \<le> 256 then p + n else n - m)"
    using assms(3) wrap_write_eq [OF assms(4,5) p, of f "farBuf a"] unfolding a'_def WebRtcAecm_BufferFarFrame_def
    by (simp add: p_def [symmetric] m_def)
  show "length (farBuf a') = 256" using eq assms(1,3,5) p m_def by (simp add: length_blit)
  show "farBufWritePos a' \<le> 256" using eq assms(5) by auto
  show "farBufWritePos a' mod 256 = (farBufWritePos a + n) mod 256"
  proof (cases "p + n \<le> 256")
    case False
    then have "p + n = (n - m) + 256" using p by (simp add: m_def)
    then have "(p + n) mod 256 = (n - m) mod 256" by (metis mod_add_self2)
    then show ?thesis using eq False by (simp add: p_def [symmetric])
  qed (use eq p_def in simp)
  show "farBuf a' ! j = written (farBuf a) (farBufWritePos a) f j" if j: "j < 256"
  proof (cases "p + n \<le> 256")
    case True
    then show ?thesis using eq j assms(1,3,4) p
      by (auto simp: p_def [symmetric] written_eq nth_blit Let_def)
  next
    case False
    then have l: "length (blit (farBuf a) p (take m f)) = 256" using assms(1,3) p m_def by (simp add: length_blit)
    have m: "m < n" using False p unfolding m_def by linarith
    have "farBuf a' ! j = (if j < n - m then f ! (m + j) else if j < p then farBuf a ! j else f ! (j - p))"
      using eq False j l m assms(1,3,5) p m_def by (auto simp: nth_blit)
    then show ?thesis using False j assms(3-5) p m_def
      by (auto simp: p_def [symmetric] written_eq Let_def add.commute)
  qed
qed

text \<open>Reading: the \<open>n\<close> samples at consecutive positions modulo 256, from the read position less the change of the delay.\<close>

lemma wrap_up_mod: "wrap_up p = (if p < 0 then p mod 256 else p)"
proof (induction p rule: wrap_up.induct)
  case (1 p)
  have "p mod 256 = (p + 256) mod 256" by simp
  then show ?case using "1.IH" mod_pos_pos_trivial [of "p + 256" 256]
    by (subst wrap_up.simps) (auto simp del: mod_add_self2)
qed

lemma wrap_down_mod: "0 \<le> p \<Longrightarrow> wrap_down p = p mod 256"
proof (induction p rule: wrap_down.induct)
  case (1 p)
  have "p mod 256 = (p - 256) mod 256" using mod_add_self2 [of "p - 256" 256] by simp
  then show ?case using "1.IH" "1.prems" by (subst wrap_down.simps) (auto simp: mod_pos_pos_trivial)
qed

lemma wrap_mod: "wrap_down (wrap_up p) = p mod 256"
  by (simp add: wrap_up_mod wrap_down_mod)

lemma wrap_read_eq:
  assumes "0 < n" "n \<le> 256" and "p \<le> 256"
  shows "wrap_read buf n out p n 0 =
    (if p + n \<le> 256 then (out, p, n, 0) else (blit out 0 (take (256 - p) (drop p buf)), 0, n - (256 - p), 256 - p))"
proof (cases "p + n \<le> 256")
  case True
  then show ?thesis by (subst wrap_read.simps) simp
next
  case False
  have "wrap_read buf n b 0 k j = (b, 0, k, j)" if "k \<le> 256" for b k j using that by (subst wrap_read.simps) simp
  then show ?thesis using False assms by (subst wrap_read.simps) (simp add: Let_def)
qed

lemma fetch_far_frame:
  assumes "length (farBuf a) = 256" and "length out = n" and "0 < n" "n \<le> 256"
    and "is_s32 (delay - lastKnownDelay a)" and "is_s32 (farBufReadPos a - (delay - lastKnownDelay a))"
    and "WebRtcAecm_FetchFarFrame a out n delay = (a', out')"
  defines "p \<equiv> nat ((farBufReadPos a + lastKnownDelay a - delay) mod 256)"
  shows "length out' = n" and "i < n \<Longrightarrow> out' ! i = farBuf a ! ((p + i) mod 256)"
    and "lastKnownDelay a' = delay" and "farBuf a' = farBuf a" and "farBufWritePos a' = farBufWritePos a"
    and "0 \<le> farBufReadPos a' \<and> farBufReadPos a' \<le> 256 \<and> farBufReadPos a' mod 256 = int ((p + n) mod 256)"
proof -
  define m where "m = 256 - p"
  have p: "p < 256" by (simp add: p_def nat_less_iff)
  have pos: "nat (wrap_down (wrap_up (s32 (farBufReadPos a - s32 (delay - lastKnownDelay a))))) = p"
    using assms(5,6) by (simp add: p_def s32_id wrap_mod algebra_simps)
  have eq: "out' = (if p + n \<le> 256 then blit out 0 (take n (drop p (farBuf a)))
                   else blit (blit out 0 (take m (drop p (farBuf a)))) m (take (n - m) (farBuf a)))"
    "a' = a\<lparr>lastKnownDelay := delay, farBufReadPos := int (if p + n \<le> 256 then p + n else n - m)\<rparr>"
    using assms(7) wrap_read_eq [OF assms(3,4), of p "farBuf a" out] p
    unfolding WebRtcAecm_FetchFarFrame_def Let_def pos by (auto simp: m_def split: if_splits)
  show "length out' = n" using eq(1) assms(1,2,4) p by (auto simp: length_blit m_def)
  show "lastKnownDelay a' = delay" "farBuf a' = farBuf a" "farBufWritePos a' = farBufWritePos a" using eq(2) by simp_all
  show "0 \<le> farBufReadPos a' \<and> farBufReadPos a' \<le> 256 \<and> farBufReadPos a' mod 256 = int ((p + n) mod 256)"
  proof (cases "p + n \<le> 256")
    case False
    then have "p + n = (n - m) + 256" using p by (simp add: m_def)
    then have "(p + n) mod 256 = (n - m) mod 256" by (metis mod_add_self2)
    then show ?thesis using eq(2) False assms(4) by (simp add: zmod_int)
  qed (use eq(2) in \<open>simp add: zmod_int\<close>)
  show "out' ! i = farBuf a ! ((p + i) mod 256)" if i: "i < n"
  proof (cases "p + n \<le> 256")
    case True
    then show ?thesis using eq(1) i assms(1,2) by (simp add: nth_blit)
  next
    case False
    have "(p + i) mod 256 = (if i < m then p + i else i - m)" using i assms(4) p m_def by (auto simp: mod_if)
    moreover have "length (blit out 0 (take m (drop p (farBuf a)))) = n"
      using False assms(1,2) p m_def by (simp add: length_blit)
    ultimately show ?thesis using eq(1) i False assms(1,2,4) p m_def by (auto simp: nth_blit)
  qed
qed

text \<open>
  \<open>far_rep a S\<close>: the buffer holds the last 256 samples of \<open>S\<close>, and the read position is behind the
  end by the delay.
\<close>

definition far_rep :: "AecmCore \<Rightarrow> int list \<Rightarrow> bool" where
  "far_rep a S \<longleftrightarrow> length (farBuf a) = 256 \<and> farBufWritePos a \<le> 256 \<and> farBufWritePos a mod 256 = length S mod 256 \<and>
     (\<forall>t < length S. length S \<le> t + 256 \<longrightarrow> farBuf a ! (t mod 256) = S ! t) \<and>
     0 \<le> farBufReadPos a \<and> farBufReadPos a \<le> 256 \<and> 0 \<le> lastKnownDelay a \<and> lastKnownDelay a \<le> 256 \<and>
     (farBufReadPos a + lastKnownDelay a) mod 256 = int (length S mod 256)"

definition far_step :: "AecmCore \<Rightarrow> int list \<Rightarrow> int \<Rightarrow> AecmCore \<times> int list" where
  "far_step a f delay = WebRtcAecm_FetchFarFrame (WebRtcAecm_BufferFarFrame a f FRAME_LEN) (replicate FRAME_LEN 0) FRAME_LEN delay"

lemma far_step_rep:
  assumes "far_rep a S" and "length f = 80" and d: "d \<le> 176" "d \<le> length S"
    and step: "far_step a f (int d) = (a', out)"
  shows "far_rep a' (S @ f) \<and> out = take 80 (drop (length S - d) (S @ f))"
proof -
  define b where "b = WebRtcAecm_BufferFarFrame a f 80"
  have r: "length (farBuf a) = 256" "farBufWritePos a \<le> 256" "farBufWritePos a mod 256 = length S mod 256"
    "\<And>t. t < length S \<Longrightarrow> length S \<le> t + 256 \<Longrightarrow> farBuf a ! (t mod 256) = S ! t"
    "0 \<le> farBufReadPos a" "farBufReadPos a \<le> 256" "0 \<le> lastKnownDelay a" "lastKnownDelay a \<le> 256"
    "(farBufReadPos a + lastKnownDelay a) mod 256 = int (length S mod 256)"
    using assms(1) by (auto simp: far_rep_def)
  note w = buffer_far_frame [OF r(1,2) assms(2) _ _, folded b_def, simplified]
  have buf: "farBuf b ! (t mod 256) = (S @ f) ! t" if t: "t < length S + 80" "length S + 80 \<le> t + 256" for t
  proof -
    define i where "i = t mod 256"
    define j where "j = (i + 256 - farBufWritePos a mod 256) mod 256"
    have j: "j = (if length S \<le> t then (t - length S) mod 256 else t + 256 - length S)"
      unfolding j_def i_def r(3) using t by (intro circular_index) simp
    have w4: "farBuf b ! i = (if j < 80 then f ! j else farBuf a ! i)"
      using w(4) [of i] by (simp add: written_def assms(2) j_def i_def Let_def)
    show ?thesis
    proof (cases "length S \<le> t")
      case True
      then have "j = t - length S" "j < 80" using j t(1) by simp_all
      then show ?thesis using True w4 by (simp add: nth_append i_def [symmetric])
    next
      case False
      then have "\<not> j < 80" using j t(2) by simp
      then show ?thesis using False w4 r(4) [of t] t(2) by (simp add: nth_append i_def [symmetric])
    qed
  qed
  have frame: "farBufReadPos b = farBufReadPos a" "lastKnownDelay b = lastKnownDelay a"
    by (simp_all add: b_def WebRtcAecm_BufferFarFrame_def split: prod.splits)
  have c: "is_s32 (int d - lastKnownDelay b)" "is_s32 (farBufReadPos b - (int d - lastKnownDelay b))"
    using r(5-8) d unfolding frame is_s32_def by linarith+
  have step': "WebRtcAecm_FetchFarFrame b (replicate 80 0) 80 (int d) = (a', out)"
    using step by (simp add: far_step_def b_def)
  define p where "p = nat ((farBufReadPos b + lastKnownDelay b - int d) mod 256)"
  note g = fetch_far_frame [OF w(1) _ _ _ c step', folded p_def, simplified]
  have "(farBufReadPos b + lastKnownDelay b - int d) mod 256 = int ((length S - d) mod 256)"
    using mod_diff_left_eq [of "farBufReadPos b + lastKnownDelay b" 256 "int d"] r(9) d
    by (simp add: frame zmod_int of_nat_diff mod_diff_left_eq)
  then have p: "p = (length S - d) mod 256" by (simp add: p_def)
  have "out = take 80 (drop (length S - d) (S @ f))"
  proof (rule nth_equalityI)
    show "length out = length (take 80 (drop (length S - d) (S @ f)))" using g(1) d assms(2) by simp
    fix i assume "i < length out"
    then have i: "i < 80" using g(1) by simp
    have "out ! i = farBuf b ! ((length S - d + i) mod 256)" using g(2) [OF i] p by (simp add: mod_add_left_eq)
    also have "\<dots> = (S @ f) ! (length S - d + i)" using i d by (intro buf) simp_all
    finally show "out ! i = take 80 (drop (length S - d) (S @ f)) ! i"
      using i d assms(2) by (simp del: drop_append)
  qed
  moreover have "(farBufReadPos a' + int d) mod 256 = int (length (S @ f) mod 256)"
  proof -
    have "(farBufReadPos a' + int d) mod 256 = (int ((p + 80) mod 256) + int d) mod 256"
      using g(6) mod_add_left_eq [of "farBufReadPos a'" 256 "int d"] by simp
    also have "\<dots> = int ((length S - d + 80 + d) mod 256)" by (simp add: p zmod_int mod_simps)
    finally show ?thesis using d assms(2) by simp
  qed
  moreover have "farBufWritePos b mod 256 = length (S @ f) mod 256"
    using w(3) r(3) assms(2) mod_add_left_eq [of "farBufWritePos a" 256 80] mod_add_left_eq [of "length S" 256 80] by simp
  ultimately show ?thesis using w(1,2) g(3-6) buf d assms(2) by (simp add: far_rep_def)
qed

fun far_run :: "AecmCore \<Rightarrow> (int list \<times> nat) list \<Rightarrow> AecmCore \<times> int list list" where
  "far_run a [] = (a, [])"
| "far_run a ((f, d) # fs) =
     (let (a, out) = far_step a f (int d); (a, outs) = far_run a fs in (a, out # outs))"

fun delays_ok :: "nat \<Rightarrow> (int list \<times> nat) list \<Rightarrow> bool" where
  "delays_ok n [] = True"
| "delays_ok n ((f, d) # fs) \<longleftrightarrow> length f = 80 \<and> d \<le> 176 \<and> d \<le> n \<and> delays_ok (n + 80) fs"

fun delayed :: "nat \<Rightarrow> int list \<Rightarrow> (int list \<times> nat) list \<Rightarrow> int list list" where
  "delayed n S [] = []"
| "delayed n S ((f, d) # fs) = take 80 (drop (n - d) S) # delayed (n + 80) S fs"

lemma far_run_rep:
  assumes "far_rep a S" and "delays_ok (length S) fs"
  shows "snd (far_run a fs) = delayed (length S) (S @ concat (map fst fs)) fs"
  using assms
proof (induction fs arbitrary: a S)
  case (Cons x fs)
  obtain f d where x: "x = (f, d)" by (cases x)
  obtain a' out where step: "far_step a f (int d) = (a', out)" by (rule prod.exhaust)
  have len: "length f = 80" "d \<le> 176" "d \<le> length S" "delays_ok (length (S @ f)) fs" using Cons.prems(2) x by simp_all
  note r = far_step_rep [OF Cons.prems(1) len(1-3) step]
  have "out = take 80 (drop (length S - d) ((S @ f) @ concat (map fst fs)))"
    using r len by simp
  then show ?case using Cons.IH [of a' "S @ f"] r len x step by (cases "far_run a' fs") simp
qed simp

lemma InitCore_farend:
  assumes "WebRtcAecm_InitCore aecm fs = (a, 0)" and "length (farBuf aecm) = 256"
  shows "far_rep a []"
proof -
  have "farBuf a = farBuf aecm \<and> farBufWritePos a = 0 \<and> farBufReadPos a = 0 \<and> lastKnownDelay a = 0"
    using assms(1)
    by (auto simp: WebRtcAecm_InitCore_def Let_def init_buffers_def init_history_def init_levels_def init_filters_def
        WebRtcAecm_InitEchoPathCore_def split: if_splits prod.splits)
  then show ?thesis using assms(2) by (simp add: far_rep_def)
qed

text \<open>
  C14. From the initialisation on, each fetched frame is the far-end signal delayed by the delay given
  for that frame, for every sequence of frames and every change of the delay from one frame to the
  next, as long as a delay is at most 176 samples (the buffer of 256 samples less one frame) and does
  not reach back to before the first frame.
\<close>

theorem far_end_delay_line:
  assumes "WebRtcAecm_InitCore aecm fs = (a, 0)" and "length (farBuf aecm) = 256" and "delays_ok 0 frames"
  shows "snd (far_run a frames) = delayed 0 (concat (map fst frames)) frames"
  using far_run_rep [OF InitCore_farend [OF assms(1,2)], of frames] assms(3) by simp

section \<open>Examples\<close>

lemma InitCore_succeeds:
  assumes "fs = 8000 \<or> fs = 16000" and "delay_estimator_farend a = Some fe" and "delay_estimator a = Some de"
  shows "\<exists>a'. WebRtcAecm_InitCore a fs = (a', 0)"
  using assms
  by (auto simp: WebRtcAecm_InitCore_def Let_def init_buffers_def WebRtc_InitDelayEstimatorFarend_def WebRtc_InitDelayEstimator_def)

theorem far_history_window_witness:
  "\<exists>a. WebRtcAecm_InitCore blank_core 8000 = (a, 0) \<and>
    WebRtcAecm_AlignedFarend (fold (\<lambda>(sp, q) a. WebRtcAecm_UpdateFarHistory a sp q)
      [(replicate 65 7, 3), (replicate 65 9, 5)] a) 1 = (3, replicate 65 7)"
proof -
  obtain a where a: "WebRtcAecm_InitCore blank_core 8000 = (a, 0)"
    using InitCore_succeeds [of 8000 blank_core] by (auto simp: blank_core_def)
  show ?thesis using a far_history_window [OF a, of "[(replicate 65 7, 3), (replicate 65 9, 5)]" 1] by auto
qed

theorem far_end_delay_line_witness:
  "\<exists>a. WebRtcAecm_InitCore blank_core 8000 = (a, 0) \<and>
    snd (far_run a [(replicate 80 1, 0), (replicate 80 2, 10), (replicate 80 3, 150)]) =
      [replicate 80 1, replicate 10 1 @ replicate 70 2, replicate 70 1 @ replicate 10 2]"
proof -
  obtain a where a: "WebRtcAecm_InitCore blank_core 8000 = (a, 0)"
    using InitCore_succeeds [of 8000 blank_core] by (auto simp: blank_core_def)
  have "delays_ok 0 [(replicate 80 1, 0), (replicate 80 2, 10), (replicate 80 3, 150)]" by simp
  from far_end_delay_line [OF a _ this] a show ?thesis
    by (simp add: blank_core_def flip: replicate_add)
qed

end
