(* ===== verification/Aecm_Adapt.thy ===== *)
theory Aecm_Adapt
  imports Aecm_Farend
begin

unbundle bit_operations_syntax

text \<open>
  The adaptation of the mobile echo canceller (\<^verbatim>\<open>modules/audio_processing/aecm/aecm_core.c\<close>): the
  logarithmic energies with the voice detection, the step size, the normalised least mean squares
  update of the echo channel with its storing and resetting, and the suppression gain.

  Shift counts of 32 and more, which C leaves undefined, have their mathematical value here, as on
  the ARM processors of the build.
\<close>

section \<open>Operations\<close>

definition WebRtcAecm_AsymFilt :: "int \<Rightarrow> int \<Rightarrow> int \<Rightarrow> int \<Rightarrow> int" where
  "WebRtcAecm_AsymFilt filtOld inVal stepSizePos stepSizeNeg =
     (if filtOld = 32767 \<or> filtOld = - 32768 then inVal
      else if filtOld > inVal then s16 (filtOld - shr (filtOld - inVal) (nat stepSizeNeg))
      else s16 (filtOld + shr (inVal - filtOld) (nat stepSizePos)))"

definition ExtractFractionPart :: "int \<Rightarrow> int \<Rightarrow> int" where
  "ExtractFractionPart a zeros = s16 (shr (u32 (shl a (nat zeros)) AND 0x7FFFFFFF) 23)"

definition LogOfEnergyInQ8 :: "int \<Rightarrow> int \<Rightarrow> int" where
  "LogOfEnergyInQ8 energy q_domain =
     (let kLogLowValue = shl PART_LEN_SHIFT 7
      in if energy > 0
         then let zeros = WebRtcSpl_NormU32 energy;
                  frac = ExtractFractionPart energy zeros
              in s16 (kLogLowValue + (shl (31 - zeros) 8 + frac - shl q_domain 8))
         else kLogLowValue)"

text \<open>The result is \<open>(echo_est, far_energy, echo_energy_adapt, echo_energy_stored)\<close>.\<close>

definition CalcLinearEnergiesC :: "AecmCore \<Rightarrow> int list \<Rightarrow> int list \<Rightarrow> int list \<times> int \<times> int \<times> int" where
  "CalcLinearEnergiesC aecm far_spectrum echo_est =
     fold (\<lambda>i (echo_est, far_energy, echo_energy_adapt, echo_energy_stored).
        let echo_est = echo_est[i := WEBRTC_SPL_MUL_16_U16 (channelStored aecm ! i) (far_spectrum ! i)]
        in (echo_est, u32 (far_energy + far_spectrum ! i),
            u32 (echo_energy_adapt + channelAdapt16 aecm ! i * far_spectrum ! i),
            u32 (echo_energy_stored + echo_est ! i)))
       [0..<PART_LEN1] (echo_est, 0, 0, 0)"

definition echo_estimate :: "int list \<Rightarrow> int list \<Rightarrow> nat \<Rightarrow> int list \<Rightarrow> int list" where
  "echo_estimate channel far_spectrum i echo_est =
     echo_est[i := WEBRTC_SPL_MUL_16_U16 (channel ! i) (far_spectrum ! i)]"

definition StoreAdaptiveChannelC :: "AecmCore \<Rightarrow> int list \<Rightarrow> int list \<Rightarrow> AecmCore \<times> int list" where
  "StoreAdaptiveChannelC aecm far_spectrum echo_est =
     (let aecm = aecm\<lparr>channelStored := blit (channelStored aecm) 0 (take PART_LEN1 (channelAdapt16 aecm))\<rparr>;
          e = echo_estimate (channelStored aecm) far_spectrum;
          echo_est = fold (\<lambda>i echo_est. e (i + 3) (e (i + 2) (e (i + 1) (e i echo_est)))) (upt_by 0 PART_LEN 4) echo_est
      in (aecm, e PART_LEN echo_est))"

definition ResetAdaptiveChannelC :: "AecmCore \<Rightarrow> AecmCore" where
  "ResetAdaptiveChannelC aecm =
     (let aecm = aecm\<lparr>channelAdapt16 := blit (channelAdapt16 aecm) 0 (take PART_LEN1 (channelStored aecm))\<rparr>;
          r = (\<lambda>i c32. c32[i := s32 (shl (channelStored aecm ! i) 16)]);
          c32 = fold (\<lambda>i c32. r (i + 3) (r (i + 2) (r (i + 1) (r i c32)))) (upt_by 0 PART_LEN 4) (channelAdapt32 aecm)
      in aecm\<lparr>channelAdapt32 := r PART_LEN c32\<rparr>)"

section \<open>Energies and voice detection\<close>

text \<open>\<open>memmove(a + 1, a, ...)\<close> and \<open>a[0] = x\<close>\<close>

definition push_energy :: "int list \<Rightarrow> int \<Rightarrow> int list" where
  "push_energy a x = (blit a 1 (take (MAX_BUF_LEN - 1) a))[0 := x]"

text \<open>The update of the far-end levels, when the far-end energy is above the minimum.\<close>

definition update_far_levels :: "AecmCore \<Rightarrow> AecmCore" where
  "update_far_levels aecm =
     (let (increase_max_shifts, decrease_max_shifts, increase_min_shifts, decrease_min_shifts) =
            (if startupState aecm = 0 then (2, 11, 8, 2) else (4, 11, 11, 3));
          lo = WebRtcAecm_AsymFilt (farEnergyMin aecm) (farLogEnergy aecm) increase_min_shifts decrease_min_shifts;
          hi = WebRtcAecm_AsymFilt (farEnergyMax aecm) (farLogEnergy aecm) increase_max_shifts decrease_max_shifts;
          tmp16 = s16 (2560 - lo);
          tmp16 = (if tmp16 > 0 then s16 (shr (tmp16 * FAR_ENERGY_VAD_REGION) 9) else 0);
          tmp16 = s16 (tmp16 + FAR_ENERGY_VAD_REGION);
          (vad, count) = (if startupState aecm = 0 \<or> vadUpdateCount aecm > 1024 then (s16 (lo + tmp16), vadUpdateCount aecm)
                          else if farEnergyVAD aecm > farLogEnergy aecm
                          then (s16 (farEnergyVAD aecm + shr (farLogEnergy aecm + tmp16 - farEnergyVAD aecm) 6), 0)
                          else (farEnergyVAD aecm, s16 (vadUpdateCount aecm + 1)))
      in aecm\<lparr>farEnergyMin := lo, farEnergyMax := hi, farEnergyMaxMin := s16 (hi - lo),
              farEnergyVAD := vad, vadUpdateCount := count, farEnergyMSE := s16 (vad + 256)\<rparr>)"

definition update_vad :: "AecmCore \<Rightarrow> AecmCore" where
  "update_vad aecm =
     (if farLogEnergy aecm > farEnergyVAD aecm
      then (if startupState aecm = 0 \<or> farEnergyMaxMin aecm > FAR_ENERGY_DIFF
            then aecm\<lparr>currentVADValue := 1\<rparr> else aecm)
      else aecm\<lparr>currentVADValue := 0\<rparr>)"

definition scale_first_channel :: "AecmCore \<Rightarrow> AecmCore" where
  "scale_first_channel aecm =
     (if currentVADValue aecm \<noteq> 0 \<and> firstVAD aecm \<noteq> 0
      then let aecm = aecm\<lparr>firstVAD := 0\<rparr>
           in if echoAdaptLogEnergy aecm ! 0 > nearLogEnergy aecm ! 0
              then aecm\<lparr>channelAdapt16 := map (\<lambda>i. shr (channelAdapt16 aecm ! i) 3) [0..<PART_LEN1],
                        echoAdaptLogEnergy := (echoAdaptLogEnergy aecm)[0 := s16 (echoAdaptLogEnergy aecm ! 0 - shl 3 8)],
                        firstVAD := 1\<rparr>
              else aecm
      else aecm)"

definition WebRtcAecm_CalcEnergies :: "AecmCore \<Rightarrow> int list \<Rightarrow> int \<Rightarrow> int \<Rightarrow> int list \<Rightarrow> AecmCore \<times> int list" where
  "WebRtcAecm_CalcEnergies aecm far_spectrum far_q nearEner echoEst =
     (let aecm = aecm\<lparr>nearLogEnergy := push_energy (nearLogEnergy aecm) (LogOfEnergyInQ8 nearEner (dfaNoisyQDomain aecm))\<rparr>;
          (echoEst, tmpFar, tmpAdapt, tmpStored) = CalcLinearEnergiesC aecm far_spectrum echoEst;
          aecm = aecm\<lparr>farLogEnergy := LogOfEnergyInQ8 tmpFar far_q,
                      echoAdaptLogEnergy := push_energy (echoAdaptLogEnergy aecm)
                        (LogOfEnergyInQ8 tmpAdapt (RESOLUTION_CHANNEL16 + far_q)),
                      echoStoredLogEnergy := push_energy (echoStoredLogEnergy aecm)
                        (LogOfEnergyInQ8 tmpStored (RESOLUTION_CHANNEL16 + far_q))\<rparr>;
          aecm = (if farLogEnergy aecm > FAR_ENERGY_MIN then update_far_levels aecm else aecm)
      in (scale_first_channel (update_vad aecm), echoEst))"

definition WebRtcAecm_CalcStepSize :: "AecmCore \<Rightarrow> int" where
  "WebRtcAecm_CalcStepSize aecm =
     (if currentVADValue aecm = 0 then 0
      else if startupState aecm > 0
      then let mu = (if farEnergyMin aecm \<ge> farEnergyMax aecm then MU_MIN
                     else let tmp16 = s16 (farLogEnergy aecm - farEnergyMin aecm);
                              tmp32 = WebRtcSpl_DivW32W16 (tmp16 * MU_DIFF) (farEnergyMaxMin aecm)
                          in s16 (MU_MIN - 1 - s16 tmp32))
           in if mu < MU_MAX then MU_MAX else mu
      else MU_MAX)"

section \<open>The echo channel\<close>

text \<open>
  One frequency bin of the channel update, in its three parts: the product of channel and far end
  \<open>(tmpU32no1, shiftChFar)\<close>, the error \<open>(tmp32no1, xfaQ)\<close> in a common Q-domain, and the correction.
\<close>

definition channel_product :: "int \<Rightarrow> int \<Rightarrow> int \<times> int" where
  "channel_product c32 far =
     (let zerosCh = WebRtcSpl_NormU32 (u32 c32);
          zerosFar = WebRtcSpl_NormU32 far
      in if zerosCh + zerosFar > 31 then (WEBRTC_SPL_UMUL_32_16 c32 far, 0)
         else let shiftChFar = 32 - zerosCh - zerosFar
              in (u32 (shr c32 (nat shiftChFar) * far), shiftChFar))"

definition channel_error :: "int \<Rightarrow> int \<Rightarrow> int \<Rightarrow> int \<Rightarrow> int \<Rightarrow> int \<times> int" where
  "channel_error tmpU32no1 shiftChFar dfa noisyQ far_q =
     (let zerosNum = WebRtcSpl_NormU32 tmpU32no1;
          zerosDfa = (if dfa \<noteq> 0 then WebRtcSpl_NormU32 dfa else 32);
          tmp16no1 = s16 (zerosDfa - 2 + noisyQ - RESOLUTION_CHANNEL32 - far_q + shiftChFar);
          (xfaQ, dfaQ) = (if zerosNum > tmp16no1 + 1 then (tmp16no1, s16 (zerosDfa - 2))
                          else let xfaQ = s16 (zerosNum - 2)
                               in (xfaQ, s16 (RESOLUTION_CHANNEL32 + far_q - noisyQ - shiftChFar + xfaQ)));
          tmpU32no1 = shift_u32 tmpU32no1 xfaQ;
          tmpU32no2 = shift_u32 dfa dfaQ
      in (s32 (s32 tmpU32no2 - s32 tmpU32no1), xfaQ))"

definition channel_correction :: "int \<Rightarrow> int \<Rightarrow> nat \<Rightarrow> int \<Rightarrow> int \<Rightarrow> int \<Rightarrow> int" where
  "channel_correction tmp32no1 far i shiftChFar xfaQ mu =
     (let zerosNum = WebRtcSpl_NormW32 tmp32no1;
          zerosFar = WebRtcSpl_NormU32 far;
          (tmp32no2, shiftNum) =
            (if zerosNum + zerosFar > 31
             then (if tmp32no1 > 0 then s32 (WEBRTC_SPL_UMUL_32_16 tmp32no1 far)
                   else s32 (- s32 (WEBRTC_SPL_UMUL_32_16 (- tmp32no1) far)), 0)
             else let shiftNum = 32 - (zerosNum + zerosFar)
                  in (if tmp32no1 > 0 then s32 (shr tmp32no1 (nat shiftNum) * far)
                      else s32 (- s32 (shr (s32 (- tmp32no1)) (nat shiftNum) * far)), shiftNum));
          tmp32no2 = WebRtcSpl_DivW32W16 tmp32no2 (int (i + 1));
          shift2ResChan = s16 (shiftNum + shiftChFar - xfaQ - mu - shl (30 - zerosFar) 1)
      in if WebRtcSpl_NormW32 tmp32no2 < shift2ResChan then 2147483647
         else WEBRTC_SPL_SHIFT_W32 tmp32no2 shift2ResChan)"

definition update_channel_bin :: "int list \<Rightarrow> int \<Rightarrow> int list \<Rightarrow> int \<Rightarrow> nat \<Rightarrow> AecmCore \<Rightarrow> AecmCore" where
  "update_channel_bin far_spectrum far_q dfa mu i aecm =
     (let (tmpU32no1, shiftChFar) = channel_product (channelAdapt32 aecm ! i) (far_spectrum ! i);
          (tmp32no1, xfaQ) = channel_error tmpU32no1 shiftChFar (dfa ! i) (dfaNoisyQDomain aecm) far_q
      in if tmp32no1 \<noteq> 0 \<and> far_spectrum ! i > shl CHANNEL_VAD (nat far_q)
         then let c32 = WebRtcSpl_AddSatW32 (channelAdapt32 aecm ! i)
                          (channel_correction tmp32no1 (far_spectrum ! i) i shiftChFar xfaQ mu);
                  c32 = (if c32 < 0 then 0 else c32)
              in aecm\<lparr>channelAdapt32 := (channelAdapt32 aecm)[i := c32],
                      channelAdapt16 := (channelAdapt16 aecm)[i := s16 (shr c32 16)]\<rparr>
         else aecm)"

text \<open>The mean absolute errors of the stored and of the adaptive channel.\<close>

definition channel_mse :: "AecmCore \<Rightarrow> int \<times> int" where
  "channel_mse aecm = fold (\<lambda>i (mseStored, mseAdapt).
     (s32 (mseStored + WEBRTC_SPL_ABS_W32 (echoStoredLogEnergy aecm ! i - nearLogEnergy aecm ! i)),
      s32 (mseAdapt + WEBRTC_SPL_ABS_W32 (echoAdaptLogEnergy aecm ! i - nearLogEnergy aecm ! i))))
     [0..<MIN_MSE_COUNT] (0, 0)"

definition validate_channel :: "AecmCore \<Rightarrow> int list \<Rightarrow> int list \<Rightarrow> AecmCore \<times> int list" where
  "validate_channel aecm far_spectrum echoEst =
     (let (mseStored, mseAdapt) = channel_mse aecm;
          (aecm, echoEst) =
            (if s32 (shl mseStored MSE_RESOLUTION) < s32 (MIN_MSE_DIFF * mseAdapt) \<and>
                s32 (shl (mseStoredOld aecm) MSE_RESOLUTION) < s32 (MIN_MSE_DIFF * mseAdaptOld aecm)
             then (ResetAdaptiveChannelC aecm, echoEst)
             else if s32 (MIN_MSE_DIFF * mseStored) > s32 (shl mseAdapt MSE_RESOLUTION) \<and>
                     mseAdapt < mseThreshold aecm \<and> mseAdaptOld aecm < mseThreshold aecm
             then let (aecm, echoEst) = StoreAdaptiveChannelC aecm far_spectrum echoEst;
                      aecm = (if mseThreshold aecm = 2147483647
                              then aecm\<lparr>mseThreshold := s32 (mseAdapt + mseAdaptOld aecm)\<rparr>
                              else let scaled_threshold = cdiv (s32 (mseThreshold aecm * 5)) 8
                                   in aecm\<lparr>mseThreshold := s32 (mseThreshold aecm + shr (s32 ((mseAdapt - scaled_threshold) * 205)) 8)\<rparr>)
                  in (aecm, echoEst)
             else (aecm, echoEst))
      in (aecm\<lparr>mseChannelCount := 0, mseStoredOld := mseStored, mseAdaptOld := mseAdapt\<rparr>, echoEst))"

definition WebRtcAecm_UpdateChannel ::
    "AecmCore \<Rightarrow> int list \<Rightarrow> int \<Rightarrow> int list \<Rightarrow> int \<Rightarrow> int list \<Rightarrow> AecmCore \<times> int list" where
  "WebRtcAecm_UpdateChannel aecm far_spectrum far_q dfa mu echoEst =
     (let aecm = (if mu \<noteq> 0 then fold (update_channel_bin far_spectrum far_q dfa mu) [0..<PART_LEN1] aecm else aecm)
      in if startupState aecm = 0 \<and> odd (currentVADValue aecm)
         then StoreAdaptiveChannelC aecm far_spectrum echoEst
         else let aecm = (if farLogEnergy aecm < farEnergyMSE aecm then aecm\<lparr>mseChannelCount := 0\<rparr>
                          else aecm\<lparr>mseChannelCount := s16 (mseChannelCount aecm + 1)\<rparr>)
              in if mseChannelCount aecm \<ge> int (MIN_MSE_COUNT + 10) then validate_channel aecm far_spectrum echoEst
                 else (aecm, echoEst))"

section \<open>The suppression gain\<close>

definition target_gain :: "AecmCore \<Rightarrow> int" where
  "target_gain aecm =
     (if currentVADValue aecm = 0 then 0
      else let tmp16no1 = s16 (nearLogEnergy aecm ! 0 - echoStoredLogEnergy aecm ! 0 - ENERGY_DEV_OFFSET);
               dE = s16 (WEBRTC_SPL_ABS_W16 tmp16no1)
           in if dE < ENERGY_DEV_TOL
              then if dE < SUPGAIN_EPC_DT
                   then let tmp32no1 = s32 (supGainErrParamDiffAB aecm * dE + shr SUPGAIN_EPC_DT 1)
                        in s16 (supGainErrParamA aecm - s16 (WebRtcSpl_DivW32W16 tmp32no1 SUPGAIN_EPC_DT))
                   else let tmp32no1 = s32 (supGainErrParamDiffBD aecm * (ENERGY_DEV_TOL - dE) + shr (ENERGY_DEV_TOL - SUPGAIN_EPC_DT) 1)
                        in s16 (supGainErrParamD aecm + s16 (WebRtcSpl_DivW32W16 tmp32no1 (ENERGY_DEV_TOL - SUPGAIN_EPC_DT)))
              else supGainErrParamD aecm)"

definition WebRtcAecm_CalcSuppressionGain :: "AecmCore \<Rightarrow> AecmCore \<times> int" where
  "WebRtcAecm_CalcSuppressionGain aecm =
     (let gain = target_gain aecm;
          tmp16no1 = (if gain > supGainOld aecm then gain else supGainOld aecm);
          aecm = aecm\<lparr>supGainOld := gain\<rparr>;
          aecm = aecm\<lparr>supGain := s16 (supGain aecm + s16 (shr (tmp16no1 - supGain aecm) 4))\<rparr>
      in (aecm, supGain aecm))"

end
