(* ===== verification/Aecm_Adapt_Inv.thy ===== *)
theory Aecm_Adapt_Inv
  imports Aecm_Adapt
begin

unbundle bit_operations_syntax

text \<open>
  What the adaptation of the mobile echo canceller keeps and computes: the logarithm of an energy,
  the order of the far-end levels, the step size, a channel gain that is never negative, and a
  suppression gain between zero and its maximum.
\<close>

section \<open>The logarithm\<close>

lemma and_31: "(x::int) AND 0x7FFFFFFF = x mod 2 ^ 31"
  using take_bit_eq_mask [of 31 x] by (simp add: mask_eq_exp_minus_1 take_bit_eq_mod)

text \<open>\<open>log8 e\<close> is 256 times the logarithm of \<open>e\<close> to the base 2, linear between the powers of 2.\<close>

definition log8 :: "nat \<Rightarrow> int \<Rightarrow> int" where
  "log8 k e = 256 * int k + (e - 2 ^ k) * 256 div 2 ^ k"

lemma fraction_part:
  assumes "k < 32" and "2 ^ k \<le> e" and "e < 2 ^ (k + 1)"
  shows "ExtractFractionPart e (31 - int k) = (e - 2 ^ k) * 256 div 2 ^ k"
proof -
  define z where "z = 31 - k"
  have z: "nat (31 - int k) = z" "(2::int) ^ k * 2 ^ z = 2 ^ 31" "(2::int) ^ (k + 1) * 2 ^ z = 2 ^ 32"
    using assms(1) by (auto simp: z_def nat_diff_distrib power_add [symmetric])
  have r: "2 ^ 31 \<le> e * 2 ^ z" "e * 2 ^ z < 2 ^ 32"
    using mult_right_mono [OF assms(2), of "2 ^ z"] mult_strict_right_mono [OF assms(3), of "2 ^ z"]
    unfolding z(2,3) by simp_all
  have "u32 (shl e z) = e * 2 ^ z" using r by (simp add: shl_def u32_id is_u32_def)
  moreover have "e * 2 ^ z mod 2 ^ 31 = (e - 2 ^ k) * 2 ^ z"
  proof -
    have "e * 2 ^ z mod 2 ^ 31 = (e * 2 ^ z - 2 ^ 31) mod 2 ^ 31" by (simp add: mod_diff_right_eq)
    also have "\<dots> = e * 2 ^ z - 2 ^ 31" using r by (intro mod_pos_pos_trivial) simp_all
    finally show ?thesis using z(2) by (simp add: left_diff_distrib)
  qed
  moreover have "(e - 2 ^ k) * 2 ^ z div 2 ^ 23 = (e - 2 ^ k) * 256 div 2 ^ k"
  proof -
    have "(2::int) ^ 23 * 2 ^ 8 = 2 ^ k * 2 ^ z" using z(2) by simp
    have "(e - 2 ^ k) * 2 ^ z div 2 ^ 23 = ((e - 2 ^ k) * 2 ^ z * 256) div (2 ^ 23 * 256)"
      by (simp only: div_mult_mult2 [of 256])
    also have "\<dots> = ((e - 2 ^ k) * 256 * 2 ^ z) div (2 ^ k * 2 ^ z)" using z(2) by (simp add: ac_simps)
    finally show ?thesis by (simp only: div_mult_mult2 [of "2 ^ z"]) simp
  qed
  ultimately have "ExtractFractionPart e (31 - int k) = s16 ((e - 2 ^ k) * 256 div 2 ^ k)"
    by (simp add: ExtractFractionPart_def z(1) and_31 [simplified] shr_def)
  moreover have "0 \<le> (e - 2 ^ k) * 256 div 2 ^ k" "(e - 2 ^ k) * 256 div 2 ^ k < 256"
    using assms(2,3) by (simp_all add: div_less_iff pos_imp_zdiv_nonneg_iff)
  ultimately show ?thesis by (simp add: s16_id is_s16_def)
qed

lemma log_energy_eq:
  assumes "k < 32" and "2 ^ k \<le> e" and "e < 2 ^ (k + 1)" and "- 64 \<le> q" "q \<le> 64"
  shows "LogOfEnergyInQ8 e q = 896 + log8 k e - 256 * q"
proof -
  have e: "0 < e" using assms(2) by (meson less_le_trans zero_less_numeral zero_less_power)
  have "is_u32 e"
    using assms(3) e power_increasing [of "k + 1" 32 "2::int"] assms(1) by (auto simp: is_u32_def)
  then obtain z where z: "WebRtcSpl_NormU32 e = int z" "z < 32" "2 ^ 31 \<le> e * 2 ^ z" "e * 2 ^ z < 2 ^ 32"
    using NormU32_spec [of e] e by auto
  have "z + k = 31"
  proof -
    have "(2::int) ^ (k + z) \<le> e * 2 ^ z" using mult_right_mono [OF assms(2), of "2 ^ z"] by (simp add: power_add)
    then have "(2::int) ^ (k + z) < 2 ^ 32" using z(4) by linarith
    moreover have "e * 2 ^ z < 2 ^ (k + 1 + z)" using mult_strict_right_mono [OF assms(3), of "2 ^ z"] by (simp add: power_add)
    then have "(2::int) ^ 31 < 2 ^ (k + 1 + z)" using z(3) by linarith
    ultimately have "k + z < 32" "31 < k + 1 + z" using power_less_imp_less_exp [of "2::int"] by (meson one_less_numeral_iff semiring_norm(76))+
    then show ?thesis by simp
  qed
  then have zk: "WebRtcSpl_NormU32 e = 31 - int k" using z(1) by simp
  have f: "0 \<le> (e - 2 ^ k) * 256 div 2 ^ k" "(e - 2 ^ k) * 256 div 2 ^ k < 256"
    using assms(2,3) by (simp_all add: div_less_iff pos_imp_zdiv_nonneg_iff)
  define g where "g = (e - 2 ^ k) * 256 div 2 ^ k"
  have "LogOfEnergyInQ8 e q = s16 (896 + (int k * 256 + g - q * 256))"
    using e by (simp add: LogOfEnergyInQ8_def Let_def zk fraction_part [OF assms(1-3)] shl_def g_def)
  also have "\<dots> = 896 + (int k * 256 + g - q * 256)"
    using f assms(1,4,5) unfolding g_def [symmetric] by (intro s16_id) (simp add: is_s16_def)
  finally show ?thesis by (simp add: log8_def g_def)
qed

lemma log2_exists:
  assumes "0 < e" and "is_u32 e"
  obtains k where "k < 32" "2 ^ k \<le> e" "e < 2 ^ (k + 1)"
proof -
  obtain z where z: "z < 32" "2 ^ 31 \<le> e * 2 ^ z" "e * 2 ^ z < 2 ^ 32"
    using NormU32_spec [of e] assms by auto
  have p: "(2::int) ^ 31 = 2 ^ (31 - z) * 2 ^ z" "(2::int) ^ 32 = 2 ^ (31 - z + 1) * 2 ^ z"
    using z(1) by (simp_all add: power_add [symmetric])
  have "2 ^ (31 - z) \<le> e" "e < 2 ^ (31 - z + 1)" using z(2,3) unfolding p by simp_all
  then show ?thesis using z(1) by (intro that [of "31 - z"]) simp_all
qed

lemma log8_range: "2 ^ k \<le> e \<Longrightarrow> e < 2 ^ (k + 1) \<Longrightarrow> 256 * int k \<le> log8 k e \<and> log8 k e < 256 * (int k + 1)"
  by (simp add: log8_def div_less_iff pos_imp_zdiv_nonneg_iff)

lemma log8_mono:
  assumes "2 ^ k \<le> a" "a < 2 ^ (k + 1)" and "2 ^ m \<le> b" "b < 2 ^ (m + 1)" and "a \<le> b"
  shows "log8 k a \<le> log8 m b"
proof -
  have "(2::int) ^ k < 2 ^ (m + 1)" using assms by linarith
  then have "k < m + 1" using power_less_imp_less_exp [of "2::int" k "m + 1"] by simp
  then consider "k = m" | "k + 1 \<le> m" by linarith
  then show ?thesis
  proof cases
    case 1
    then show ?thesis using assms(5) by (simp add: log8_def zdiv_mono1)
  next
    case 2
    then have "256 * (int k + 1) \<le> 256 * int m" by simp
    then show ?thesis using log8_range [OF assms(1,2)] log8_range [OF assms(3,4)] by linarith
  qed
qed

lemma log_energy_range:
  assumes "is_u32 e" and "0 \<le> q" "q \<le> 27"
  shows "- 6016 \<le> LogOfEnergyInQ8 e q \<and> LogOfEnergyInQ8 e q \<le> 9087"
proof (cases "0 < e")
  case True
  then obtain k where k: "k < 32" "2 ^ k \<le> e" "e < 2 ^ (k + 1)" using assms(1) by (rule log2_exists)
  have "LogOfEnergyInQ8 e q = 896 + log8 k e - 256 * q" using assms by (intro log_energy_eq k) auto
  moreover have "log8 k e < 256 * (int k + 1)" "0 \<le> log8 k e" using log8_range [OF k(2,3)] by simp_all
  ultimately show ?thesis using k(1) assms(2,3) by simp
qed (simp add: LogOfEnergyInQ8_def shl_def)

text \<open>
  \<open>LogOfEnergyInQ8\<close> is 256 times the logarithm of the energy to the base 2, linear between two
  powers of 2, less 256 for each bit of the Q-domain, over an offset of 896; and it never falls when
  the energy grows.
\<close>

theorem log_energy:
  assumes "2 ^ k \<le> e" and "e < 2 ^ (k + 1)" and "e \<le> e'" and "e' < 2 ^ 32" and "- 64 \<le> q" "q \<le> 64"
  shows "LogOfEnergyInQ8 e q = 896 + 256 * int k + (e - 2 ^ k) * 256 div 2 ^ k - 256 * q \<and>
    LogOfEnergyInQ8 e q \<le> LogOfEnergyInQ8 e' q"
proof -
  have e: "0 < e" using assms(1) by (meson less_le_trans zero_less_numeral zero_less_power)
  have "(2::int) ^ k < 2 ^ 32" using assms by linarith
  then have k: "k < 32" using power_less_imp_less_exp [of "2::int" k 32] by simp
  obtain m where m: "m < 32" "2 ^ m \<le> e'" "e' < 2 ^ (m + 1)"
    using log2_exists [of e'] e assms(3,4) by (auto simp: is_u32_def)
  show ?thesis
    using log_energy_eq [OF k assms(1,2,5,6)] log_energy_eq [OF m assms(5,6)] log8_mono [OF assms(1,2) m(2,3) assms(3)]
    by (simp add: log8_def)
qed

theorem log_energy_witness: "LogOfEnergyInQ8 5 1 = 896 + 512 + 64 - 256 \<and> LogOfEnergyInQ8 5 1 \<le> LogOfEnergyInQ8 1000 1"
  using log_energy [of 2 5 1000 1] by simp

section \<open>Far-end levels\<close>

lemma asym_filt:
  assumes "is_s16 a" and "is_s16 b"
  shows "WebRtcAecm_AsymFilt a b p n =
    (if a = 32767 \<or> a = - 32768 then b else if a > b then a - shr (a - b) (nat n) else a + shr (b - a) (nat p))"
proof -
  have "is_s16 (a - shr (a - b) (nat n))" if "a > b"
    using that assms shr_le [of "a - b" "nat n"] shr_nonneg [of "a - b" "nat n"] unfolding is_s16_def by linarith
  moreover have "is_s16 (a + shr (b - a) (nat p))" if "a \<le> b"
    using that assms shr_le [of "b - a" "nat p"] shr_nonneg [of "b - a" "nat p"] unfolding is_s16_def by linarith
  ultimately show ?thesis by (auto simp: WebRtcAecm_AsymFilt_def s16_id)
qed

lemma asym_filt_between:
  assumes "is_s16 a" and "is_s16 b" and "a \<noteq> 32767" "a \<noteq> - 32768"
  shows "min a b \<le> WebRtcAecm_AsymFilt a b p n \<and> WebRtcAecm_AsymFilt a b p n \<le> max a b"
  using shr_le [of "a - b" "nat n"] shr_le [of "b - a" "nat p"] assms
  by (auto simp: asym_filt min_def max_def)

text \<open>The lower level rises more slowly than the upper one, and the upper one falls more slowly.\<close>

lemma shr_slower:
  assumes "0 \<le> d" "d \<le> e" and "m \<le> n"
  shows "shr e n \<le> shr d m + (e - d)"
proof -
  have "shr e n \<le> shr e m"
  proof -
    have "e div 2 ^ n = e div 2 ^ m div 2 ^ (n - m)"
      using assms(3) by (simp add: div_exp_eq)
    then show ?thesis using shr_le [of "e div 2 ^ m" "n - m"] assms(1,2) by (simp add: shr_def pos_imp_zdiv_nonneg_iff)
  qed
  also have "shr e m \<le> shr d m + (e - d)"
  proof -
    have p: "0 < (2::int) ^ m" by simp
    have "e - d \<le> (e - d) * 2 ^ m" using assms(2) mult_left_mono [of 1 "2 ^ m" "e - d"] by simp
    then have "e \<le> d + (e - d) * 2 ^ m" by simp
    then have "shr e m \<le> (d + (e - d) * 2 ^ m) div 2 ^ m" unfolding shr_def using p by (rule zdiv_mono1)
    also have "\<dots> = shr d m + (e - d)" by (simp add: shr_def)
    finally show ?thesis .
  qed
  finally show ?thesis .
qed

lemma asym_filt_order:
  assumes "lo \<le> hi" and "- 32768 < lo" "hi < 32767" and "is_s16 x" and "ph \<le> pl" and "nl \<le> nh" and "0 \<le> ph" "0 \<le> nl"
  shows "WebRtcAecm_AsymFilt lo x pl nl \<le> WebRtcAecm_AsymFilt hi x ph nh"
proof -
  have s: "is_s16 lo" "is_s16 hi" using assms by (simp_all add: is_s16_def)
  have n: "nat ph \<le> nat pl" "nat nl \<le> nat nh" using assms(5,6) by (simp_all add: nat_mono)
  consider "x < lo" | "lo \<le> x" "x < hi" | "hi \<le> x" by linarith
  then show ?thesis
  proof cases
    case 1
    then show ?thesis using shr_slower [of "lo - x" "hi - x" "nat nl" "nat nh"] assms(1-3) n
      by (simp add: asym_filt [OF s(1) assms(4)] asym_filt [OF s(2) assms(4)])
  next
    case 2
    then show ?thesis using asym_filt_between [OF s(1) assms(4), of pl nl] asym_filt_between [OF s(2) assms(4), of ph nh] assms(1-3)
      by simp
  next
    case 3
    then show ?thesis using shr_slower [of "x - hi" "x - lo" "nat ph" "nat pl"] assms(1-3) n
      by (simp add: asym_filt [OF s(1) assms(4)] asym_filt [OF s(2) assms(4)])
  qed
qed

text \<open>
  The invariant of the levels: until the far end is loud enough for the first time they have their
  start values; from then on the minimum is below the maximum and both are in the range of the
  logarithm, so that their difference does not wrap.
\<close>

definition levels_ok :: "AecmCore \<Rightarrow> bool" where
  "levels_ok a \<longleftrightarrow>
     (farEnergyMin a = 32767 \<and> farEnergyMax a = - 32768 \<or>
      1025 < farEnergyMin a \<and> farEnergyMin a \<le> farEnergyMax a \<and> farEnergyMax a \<le> 9087 \<and>
      farEnergyMaxMin a = farEnergyMax a - farEnergyMin a) \<and> is_s16 (farLogEnergy a)"

lemma update_far_levels_frame:
  "farEnergyMin (update_far_levels a) =
     (if startupState a = 0 then WebRtcAecm_AsymFilt (farEnergyMin a) (farLogEnergy a) 8 2
      else WebRtcAecm_AsymFilt (farEnergyMin a) (farLogEnergy a) 11 3)"
  "farEnergyMax (update_far_levels a) =
     (if startupState a = 0 then WebRtcAecm_AsymFilt (farEnergyMax a) (farLogEnergy a) 2 11
      else WebRtcAecm_AsymFilt (farEnergyMax a) (farLogEnergy a) 4 11)"
  "farEnergyMaxMin (update_far_levels a) = s16 (farEnergyMax (update_far_levels a) - farEnergyMin (update_far_levels a))"
  "farLogEnergy (update_far_levels a) = farLogEnergy a"
  by (simp_all add: update_far_levels_def split_def Let_def)

lemma update_far_levels_ok:
  assumes "levels_ok a" and "1025 < farLogEnergy a" "farLogEnergy a \<le> 9087"
  shows "levels_ok (update_far_levels a)"
proof -
  define x lo hi where "x = farLogEnergy a" and "lo = farEnergyMin a" and "hi = farEnergyMax a"
  have x: "is_s16 x" using assms(2,3) by (simp add: x_def is_s16_def)
  have levels: "1025 < WebRtcAecm_AsymFilt lo x pl nl \<and> WebRtcAecm_AsymFilt lo x pl nl \<le> WebRtcAecm_AsymFilt hi x ph nh \<and>
      WebRtcAecm_AsymFilt hi x ph nh \<le> 9087"
    if n: "ph \<le> pl" "nl \<le> nh" "0 \<le> ph" "0 \<le> nl" for pl nl ph nh
  proof (cases "lo = 32767 \<and> hi = - 32768")
    case True
    then show ?thesis using assms(2,3) by (simp add: WebRtcAecm_AsymFilt_def x_def)
  next
    case False
    then have r: "1025 < lo" "lo \<le> hi" "hi \<le> 9087" using assms(1) by (auto simp: levels_ok_def lo_def hi_def)
    have s: "is_s16 lo" "is_s16 hi" using r by (auto simp: is_s16_def)
    show ?thesis
      using asym_filt_between [OF s(1) x, of pl nl] asym_filt_between [OF s(2) x, of ph nh]
        asym_filt_order [OF r(2) _ _ x n(1,2,3,4)] r assms(2,3) by (auto simp: x_def)
  qed
  show ?thesis
    using levels [of 2 8 2 11] levels [of 4 11 3 11] x
    by (auto simp: levels_ok_def update_far_levels_frame x_def [symmetric] lo_def [symmetric] hi_def [symmetric]
        intro!: s16_id simp: is_s16_def)
qed

lemma update_vad_frame [simp]:
  "farEnergyMin (update_vad a) = farEnergyMin a" "farEnergyMax (update_vad a) = farEnergyMax a"
  "farEnergyMaxMin (update_vad a) = farEnergyMaxMin a" "farLogEnergy (update_vad a) = farLogEnergy a"
  by (simp_all add: update_vad_def)

lemma scale_first_channel_frame [simp]:
  "farEnergyMin (scale_first_channel a) = farEnergyMin a" "farEnergyMax (scale_first_channel a) = farEnergyMax a"
  "farEnergyMaxMin (scale_first_channel a) = farEnergyMaxMin a" "farLogEnergy (scale_first_channel a) = farLogEnergy a"
  "currentVADValue (scale_first_channel a) = currentVADValue a"
  by (simp_all add: scale_first_channel_def Let_def)

section \<open>Step size\<close>

text \<open>
  The step size is zero exactly when there is no far-end activity, and else at least one shift. During
  the start-up it is the largest step; later it is the smallest one as long as the levels have not parted,
  and falls in equal parts from 9 shifts at the lower level to 1 at the upper level.
\<close>

theorem step_size:
  assumes "levels_ok a"
  shows "(WebRtcAecm_CalcStepSize a = 0 \<longleftrightarrow> currentVADValue a = 0) \<and> 0 \<le> WebRtcAecm_CalcStepSize a \<and>
    (currentVADValue a \<noteq> 0 \<and> startupState a \<le> 0 \<longrightarrow> WebRtcAecm_CalcStepSize a = 1) \<and>
    (currentVADValue a \<noteq> 0 \<and> startupState a > 0 \<and> farEnergyMin a \<ge> farEnergyMax a \<longrightarrow> WebRtcAecm_CalcStepSize a = 10) \<and>
    (currentVADValue a \<noteq> 0 \<and> startupState a > 0 \<and> farEnergyMin a < farEnergyMax a \<and>
       farEnergyMin a \<le> farLogEnergy a \<and> farLogEnergy a \<le> farEnergyMax a \<longrightarrow>
     WebRtcAecm_CalcStepSize a = max 1 (9 - 9 * (farLogEnergy a - farEnergyMin a) div (farEnergyMax a - farEnergyMin a)))"
proof -
  have "WebRtcAecm_CalcStepSize a = max 1 (9 - 9 * (farLogEnergy a - farEnergyMin a) div (farEnergyMax a - farEnergyMin a))"
    if c: "currentVADValue a \<noteq> 0" "startupState a > 0" "farEnergyMin a < farEnergyMax a"
      "farEnergyMin a \<le> farLogEnergy a" "farLogEnergy a \<le> farEnergyMax a"
  proof -
    define d m where "d = farLogEnergy a - farEnergyMin a" and "m = farEnergyMax a - farEnergyMin a"
    have l: "1025 < farEnergyMin a" "farEnergyMax a \<le> 9087" "farEnergyMaxMin a = m"
      using assms c by (auto simp: levels_ok_def m_def)
    have r: "0 \<le> d" "d \<le> m" "0 < m" "m < 8062" using c l by (auto simp: d_def m_def)
    have q: "0 \<le> 9 * d div m" "9 * d div m < 10"
      using r by (auto simp: pos_imp_zdiv_nonneg_iff div_less_iff)
    have "s16 d = d" using r by (intro s16_id) (simp add: is_s16_def)
    moreover have "WebRtcSpl_DivW32W16 (d * 9) m = 9 * d div m"
      using r q by (auto simp: WebRtcSpl_DivW32W16_def cdiv_nonneg mult.commute is_s32_def intro!: s32_id)
    moreover have "s16 (9 * d div m) = 9 * d div m" "s16 (9 - 9 * d div m) = 9 - 9 * d div m"
      using q by (auto simp: is_s16_def intro!: s16_id)
    ultimately show ?thesis using c l(3) unfolding WebRtcAecm_CalcStepSize_def
      by (simp add: d_def [symmetric] m_def [symmetric] Let_def max_def)
  qed
  then show ?thesis by (auto simp: WebRtcAecm_CalcStepSize_def Let_def)
qed

theorem step_size_witness:
  "WebRtcAecm_CalcStepSize (blank_core\<lparr>currentVADValue := 1, startupState := 1, farEnergyMin := 2000, farEnergyMax := 4000,
     farEnergyMaxMin := 2000, farLogEnergy := 3000\<rparr>) = 5"
  using step_size [of "blank_core\<lparr>currentVADValue := 1, startupState := 1, farEnergyMin := 2000, farEnergyMax := 4000,
     farEnergyMaxMin := 2000, farLogEnergy := 3000\<rparr>"]
  by (simp add: levels_ok_def is_s16_def)

section \<open>Invariants of the adaptation\<close>

definition chan_ok :: "AecmCore \<Rightarrow> bool" where
  "chan_ok a \<longleftrightarrow>
     length (channelStored a) = 65 \<and> list_all (\<lambda>c. 0 \<le> c \<and> c \<le> 32767) (channelStored a) \<and>
     length (channelAdapt16 a) = 65 \<and> list_all (\<lambda>c. 0 \<le> c \<and> c \<le> 32767) (channelAdapt16 a) \<and>
     length (channelAdapt32 a) = 65 \<and> list_all (\<lambda>c. 0 \<le> c \<and> c \<le> 2147483647) (channelAdapt32 a)"

definition energy_ok :: "int list \<Rightarrow> bool" where
  "energy_ok xs \<longleftrightarrow> length xs = 64 \<and> list_all (\<lambda>x. - 7000 \<le> x \<and> x \<le> 9087) xs"

text \<open>
  The gain parameters of one of the five echo modes; \<open>p\<close> is the largest gain. \<open>WebRtcAecm_Init\<close> chooses
  mode 3, with 3072.
\<close>

definition mode_gain :: "AecmCore \<Rightarrow> int \<Rightarrow> bool" where
  "mode_gain a p \<longleftrightarrow> p \<in> {384, 768, 1536, 3072, 6144} \<and>
     0 \<le> supGain a \<and> supGain a \<le> p \<and> 0 \<le> supGainOld a \<and> supGainOld a \<le> p \<and>
     supGainErrParamA a = p \<and> supGainErrParamD a = p div 12 \<and>
     supGainErrParamDiffAB a = p div 2 \<and> supGainErrParamDiffBD a = 5 * p div 12"

definition gain_ok :: "AecmCore \<Rightarrow> bool" where
  "gain_ok a \<longleftrightarrow> mode_gain a (supGainErrParamA a)"

definition adapt_ok :: "AecmCore \<Rightarrow> bool" where
  "adapt_ok a \<longleftrightarrow> chan_ok a \<and> levels_ok a \<and> gain_ok a \<and> energy_ok (nearLogEnergy a) \<and>
     energy_ok (echoAdaptLogEnergy a) \<and> energy_ok (echoStoredLogEnergy a)"

lemma energy_ok_0: "energy_ok xs \<Longrightarrow> - 7000 \<le> xs ! 0 \<and> xs ! 0 \<le> 9087"
  by (simp add: energy_ok_def list_all_length)

lemma push_energy_ok:
  assumes "energy_ok xs" and "- 7000 \<le> x" "x \<le> 9087"
  shows "energy_ok (push_energy xs x)" and "push_energy xs x = x # take 63 xs"
proof -
  show eq: "push_energy xs x = x # take 63 xs"
    using assms(1) delay_line [of xs 64 x] by (simp add: push_energy_def energy_ok_def)
  show "energy_ok (push_energy xs x)" using assms unfolding eq by (auto simp: energy_ok_def list_all_take)
qed

lemma linear_energies:
  assumes "length e = 65" and "CalcLinearEnergiesC a far e = (e', f, p, q)"
  shows "length e' = 65 \<and> is_u32 f \<and> is_u32 p \<and> is_u32 q"
proof -
  have "(\<lambda>(e, f, p, q). length e = 65 \<and> is_u32 f \<and> is_u32 p \<and> is_u32 q) (CalcLinearEnergiesC a far e)"
    unfolding CalcLinearEnergiesC_def
    by (rule fold_keeps) (use assms(1) in \<open>auto simp: is_u32_def u32_def\<close>)
  then show ?thesis using assms(2) by simp
qed

lemma chan_ok_levels [simp]:
  "chan_ok (update_far_levels a) = chan_ok a" "chan_ok (update_vad a) = chan_ok a"
  "gain_ok (update_far_levels a) = gain_ok a" "gain_ok (update_vad a) = gain_ok a"
  by (simp_all add: update_far_levels_def update_vad_def split_def Let_def chan_ok_def gain_ok_def mode_gain_def)

lemma energies_frame [simp]:
  "nearLogEnergy (update_far_levels a) = nearLogEnergy a" "echoAdaptLogEnergy (update_far_levels a) = echoAdaptLogEnergy a"
  "echoStoredLogEnergy (update_far_levels a) = echoStoredLogEnergy a"
  "nearLogEnergy (update_vad a) = nearLogEnergy a" "echoAdaptLogEnergy (update_vad a) = echoAdaptLogEnergy a"
  "echoStoredLogEnergy (update_vad a) = echoStoredLogEnergy a"
  by (simp_all add: update_far_levels_def update_vad_def split_def Let_def)

lemma levels_ok_frame [simp]:
  "levels_ok (update_vad a) = levels_ok a" "levels_ok (scale_first_channel a) = levels_ok a"
  by (simp_all add: levels_ok_def)

lemma gain_ok_scale [simp]: "gain_ok (scale_first_channel a) = gain_ok a"
  by (simp add: scale_first_channel_def Let_def gain_ok_def mode_gain_def)

lemma scale_ok:
  assumes "chan_ok a" and "energy_ok (nearLogEnergy a)" "energy_ok (echoStoredLogEnergy a)"
    and "energy_ok (echoAdaptLogEnergy a)" and "- 6016 \<le> echoAdaptLogEnergy a ! 0"
  shows "chan_ok (scale_first_channel a) \<and> energy_ok (nearLogEnergy (scale_first_channel a)) \<and>
    energy_ok (echoAdaptLogEnergy (scale_first_channel a)) \<and> energy_ok (echoStoredLogEnergy (scale_first_channel a))"
proof -
  have "list_all (\<lambda>c. 0 \<le> c \<and> c \<le> 32767) (map (\<lambda>i. shr (channelAdapt16 a ! i) 3) [0..<65])"
    using assms(1) by (auto simp: chan_ok_def list_all_length intro: order_trans [OF shr_le])
  moreover have "energy_ok ((echoAdaptLogEnergy a)[0 := s16 (echoAdaptLogEnergy a ! 0 - 768)])"
  proof -
    have "echoAdaptLogEnergy a ! 0 \<le> 9087" using assms(4) by (simp add: energy_ok_def list_all_length)
    then have "s16 (echoAdaptLogEnergy a ! 0 - 768) = echoAdaptLogEnergy a ! 0 - 768"
      using assms(5) by (intro s16_id) (simp add: is_s16_def)
    then show ?thesis using assms(4,5) \<open>echoAdaptLogEnergy a ! 0 \<le> 9087\<close>
      by (auto simp: energy_ok_def intro!: list_all_update)
  qed
  ultimately show ?thesis using assms by (auto simp: scale_first_channel_def Let_def chan_ok_def shl_def)
qed

lemma calc_energies_ok:
  assumes "adapt_ok a" and "0 \<le> far_q" "far_q \<le> 15" and "0 \<le> dfaNoisyQDomain a" "dfaNoisyQDomain a \<le> 15"
    and "is_u32 ener" and "length echo = 65" and "WebRtcAecm_CalcEnergies a far far_q ener echo = (a', echo')"
  shows "adapt_ok a' \<and> length echo' = 65"
proof -
  obtain e f p q where l: "CalcLinearEnergiesC (a\<lparr>nearLogEnergy := push_energy (nearLogEnergy a)
      (LogOfEnergyInQ8 ener (dfaNoisyQDomain a))\<rparr>) far echo = (e, f, p, q)"
    by (rule prod_cases4)
  note u = linear_energies [OF assms(7) l]
  define b where "b = a\<lparr>nearLogEnergy := push_energy (nearLogEnergy a) (LogOfEnergyInQ8 ener (dfaNoisyQDomain a)),
      farLogEnergy := LogOfEnergyInQ8 f far_q,
      echoAdaptLogEnergy := push_energy (echoAdaptLogEnergy a) (LogOfEnergyInQ8 p (12 + far_q)),
      echoStoredLogEnergy := push_energy (echoStoredLogEnergy a) (LogOfEnergyInQ8 q (12 + far_q))\<rparr>"
  have r: "- 6016 \<le> LogOfEnergyInQ8 x y \<and> LogOfEnergyInQ8 x y \<le> 9087" if "is_u32 x" "0 \<le> y" "y \<le> 27" for x y
    using log_energy_range that by blast
  have rs: "- 6016 \<le> LogOfEnergyInQ8 f far_q \<and> LogOfEnergyInQ8 f far_q \<le> 9087"
    "- 6016 \<le> LogOfEnergyInQ8 p (12 + far_q) \<and> LogOfEnergyInQ8 p (12 + far_q) \<le> 9087"
    "- 6016 \<le> LogOfEnergyInQ8 q (12 + far_q) \<and> LogOfEnergyInQ8 q (12 + far_q) \<le> 9087"
    "- 6016 \<le> LogOfEnergyInQ8 ener (dfaNoisyQDomain a) \<and> LogOfEnergyInQ8 ener (dfaNoisyQDomain a) \<le> 9087"
    using assms(2-6) u by (auto simp: r)
  have b: "chan_ok b" "gain_ok b" "levels_ok b" "energy_ok (nearLogEnergy b)" "energy_ok (echoAdaptLogEnergy b)"
      "energy_ok (echoStoredLogEnergy b)" "- 6016 \<le> echoAdaptLogEnergy b ! 0" "farLogEnergy b \<le> 9087"
    using assms(1) rs push_energy_ok
    by (simp_all add: b_def adapt_ok_def chan_ok_def gain_ok_def mode_gain_def levels_ok_def is_s16_def)
  define c where "c = (if farLogEnergy b > 1025 then update_far_levels b else b)"
  have c: "chan_ok c" "gain_ok c" "levels_ok c" "nearLogEnergy c = nearLogEnergy b" "echoAdaptLogEnergy c = echoAdaptLogEnergy b"
      "echoStoredLogEnergy c = echoStoredLogEnergy b"
    using b update_far_levels_ok [OF b(3)] by (simp_all add: c_def)
  have "a' = scale_first_channel (update_vad c) \<and> echo' = e"
    using assms(8) l by (auto simp: WebRtcAecm_CalcEnergies_def Let_def b_def c_def)
  then show ?thesis using scale_ok [of "update_vad c"] b c u by (simp add: adapt_ok_def)
qed

section \<open>The channel\<close>

lemma AddSatW32_range: "is_s32 (WebRtcSpl_AddSatW32 a b)"
  by (auto simp: WebRtcSpl_AddSatW32_def Let_def) (simp_all add: is_s32_def)

lemma update_channel_bin_ok:
  assumes "chan_ok a" and "i < 65"
  shows "chan_ok (update_channel_bin far far_q dfa mu i a)"
proof -
  have "0 \<le> shr c 16 \<and> shr c 16 \<le> 32767 \<and> s16 (shr c 16) = shr c 16" if "0 \<le> c" "c \<le> 2147483647" for c
  proof -
    have "shr c 16 < 32768" "0 \<le> shr c 16" using that by (simp_all add: shr_less_iff)
    moreover from this have "is_s16 (shr c 16)" unfolding is_s16_def by linarith
    ultimately show ?thesis by (simp add: s16_id)
  qed
  then show ?thesis using assms AddSatW32_range unfolding update_channel_bin_def chan_ok_def Let_def
    by (auto split: prod.splits intro!: list_all_update simp: is_s32_def)
qed

lemma update_channel_bin_frame:
  "update_channel_bin far far_q dfa mu i a =
     a\<lparr>channelAdapt32 := channelAdapt32 (update_channel_bin far far_q dfa mu i a),
       channelAdapt16 := channelAdapt16 (update_channel_bin far far_q dfa mu i a)\<rparr>"
  by (simp add: update_channel_bin_def Let_def split: prod.splits)

lemma upt_by_4: "upt_by 0 64 4 = [0, 4, 8, 12, 16, 20, 24, 28, 32, 36, 40, 44, 48, 52, 56, 60]"
  by (simp add: upt_by.simps)

lemma store_channel_eq:
  assumes "length (channelStored a) = 65" "length (channelAdapt16 a) = 65"
  shows "fst (StoreAdaptiveChannelC a far e) = a\<lparr>channelStored := channelAdapt16 a\<rparr>"
  using assms by (simp add: StoreAdaptiveChannelC_def Let_def blit_whole)

lemma store_channel_length: "length (snd (StoreAdaptiveChannelC a far e)) = length e"
  by (simp add: StoreAdaptiveChannelC_def Let_def echo_estimate_def fold_length)

lemma reset_channel_ok:
  assumes "chan_ok a"
  shows "chan_ok (ResetAdaptiveChannelC a)"
proof -
  define r where "r = (\<lambda>i c32. c32[i := s32 (shl (channelStored a ! i) 16)])"
  define P where "P = (\<lambda>xs :: int list. length xs = 65 \<and> list_all (\<lambda>c. 0 \<le> c \<and> c \<le> 2147483647) xs)"
  have r: "P (r i xs)" if "P xs" "i < 65" for i xs
  proof -
    have "0 \<le> channelStored a ! i \<and> channelStored a ! i \<le> 32767" using assms that by (simp add: chan_ok_def list_all_length)
    then have "s32 (shl (channelStored a ! i) 16) = channelStored a ! i * 65536"
      by (intro trans [OF s32_id]) (auto simp: shl_def is_s32_def)
    then show ?thesis using that \<open>0 \<le> channelStored a ! i \<and> _\<close> by (auto simp: P_def r_def intro!: list_all_update)
  qed
  have "P (fold (\<lambda>i c. r (i + 3) (r (i + 2) (r (i + 1) (r i c)))) (upt_by 0 64 4) (channelAdapt32 a))"
    by (rule fold_keeps) (use assms r in \<open>auto simp: upt_by_4 P_def chan_ok_def\<close>)
  then have "P (r 64 (fold (\<lambda>i c. r (i + 3) (r (i + 2) (r (i + 1) (r i c)))) (upt_by 0 64 4) (channelAdapt32 a)))"
    by (rule r) simp
  moreover have "ResetAdaptiveChannelC a = a\<lparr>channelAdapt16 := channelStored a,
      channelAdapt32 := r 64 (fold (\<lambda>i c. r (i + 3) (r (i + 2) (r (i + 1) (r i c)))) (upt_by 0 64 4) (channelAdapt32 a))\<rparr>"
    using assms by (simp add: ResetAdaptiveChannelC_def Let_def chan_ok_def blit_whole r_def)
  ultimately show ?thesis using assms by (simp add: chan_ok_def P_def)
qed

lemma reset_channel_frame:
  "ResetAdaptiveChannelC a = a\<lparr>channelAdapt16 := channelAdapt16 (ResetAdaptiveChannelC a),
     channelAdapt32 := channelAdapt32 (ResetAdaptiveChannelC a)\<rparr>"
  by (simp add: ResetAdaptiveChannelC_def Let_def)

text \<open>Only the channels and the counters of their comparison change.\<close>

definition channels_blank :: "AecmCore \<Rightarrow> AecmCore" where
  "channels_blank a = a\<lparr>channelStored := [], channelAdapt16 := [], channelAdapt32 := [], mseChannelCount := 0,
     mseThreshold := 0, mseStoredOld := 0, mseAdaptOld := 0\<rparr>"

lemma channels_blank_adapt:
  assumes "channels_blank b = channels_blank a" and "adapt_ok a" and "chan_ok b"
  shows "adapt_ok b"
  using assms by (cases a; cases b) (simp add: channels_blank_def adapt_ok_def levels_ok_def gain_ok_def mode_gain_def)

lemma channels_blank_fold:
  assumes "\<And>i a. i \<in> set is \<Longrightarrow> channels_blank (f i a) = channels_blank a"
  shows "channels_blank (fold f is a) = channels_blank a"
  using assms by (induction "is" arbitrary: a) auto

lemma channels_blank_frames [simp]:
  "channels_blank (update_channel_bin far far_q dfa mu i a) = channels_blank a"
  "channels_blank (ResetAdaptiveChannelC a) = channels_blank a"
  "channels_blank (fst (StoreAdaptiveChannelC a far e)) = channels_blank a"
  "channels_blank (a\<lparr>mseChannelCount := n\<rparr>) = channels_blank a"
  "channels_blank (a\<lparr>mseThreshold := n\<rparr>) = channels_blank a"
  "channels_blank (a\<lparr>mseChannelCount := n, mseStoredOld := x, mseAdaptOld := y\<rparr>) = channels_blank a"
  by (simp_all add: channels_blank_def update_channel_bin_def ResetAdaptiveChannelC_def StoreAdaptiveChannelC_def Let_def
      split: prod.splits)

lemma chan_ok_counters [simp]:
  "chan_ok (a\<lparr>mseChannelCount := n\<rparr>) = chan_ok a" "chan_ok (a\<lparr>mseThreshold := n\<rparr>) = chan_ok a"
  "chan_ok (a\<lparr>mseChannelCount := n, mseStoredOld := x, mseAdaptOld := y\<rparr>) = chan_ok a"
  by (simp_all add: chan_ok_def)

lemma store_channel_ok: "chan_ok a \<Longrightarrow> chan_ok (fst (StoreAdaptiveChannelC a far e))"
  by (simp add: store_channel_eq chan_ok_def)

lemma validate_channel_ok:
  assumes "chan_ok a" and "validate_channel a far e = (a', e')"
  shows "chan_ok a' \<and> channels_blank a' = channels_blank a \<and> length e' = length e"
proof -
  obtain ms ma where m: "channel_mse a = (ms, ma)" by (rule prod.exhaust)
  obtain b f where b: "StoreAdaptiveChannelC a far e = (b, f)" by (rule prod.exhaust)
  have "chan_ok b" "channels_blank b = channels_blank a" "length f = length e"
    using store_channel_ok [OF assms(1), of far e] channels_blank_frames(3) [of a far e] store_channel_length [of a far e] b by simp_all
  then show ?thesis using assms m b reset_channel_ok [OF assms(1)]
    by (auto simp: validate_channel_def Let_def split: if_splits)
qed

lemma update_channel_ok:
  assumes "chan_ok a" and "WebRtcAecm_UpdateChannel a far far_q dfa mu e = (a', e')"
  shows "chan_ok a' \<and> channels_blank a' = channels_blank a \<and> length e' = length e"
proof -
  define b where "b = (if mu \<noteq> 0 then fold (update_channel_bin far far_q dfa mu) [0..<65] a else a)"
  have "chan_ok (fold (update_channel_bin far far_q dfa mu) [0..<65] a)"
    by (rule fold_keeps [where P = chan_ok]) (use assms(1) in \<open>simp_all add: update_channel_bin_ok\<close>)
  moreover have "channels_blank (fold (update_channel_bin far far_q dfa mu) [0..<65] a) = channels_blank a"
    by (rule channels_blank_fold) simp
  ultimately have b: "chan_ok b" "channels_blank b = channels_blank a" using assms(1) by (simp_all add: b_def)
  define c where "c = (if farLogEnergy b < farEnergyMSE b then b\<lparr>mseChannelCount := 0\<rparr>
                       else b\<lparr>mseChannelCount := s16 (mseChannelCount b + 1)\<rparr>)"
  have c: "chan_ok c" "channels_blank c = channels_blank a" using b by (simp_all add: c_def)
  have "WebRtcAecm_UpdateChannel a far far_q dfa mu e =
      (if startupState b = 0 \<and> odd (currentVADValue b) then StoreAdaptiveChannelC b far e
       else if mseChannelCount c \<ge> 30 then validate_channel c far e else (c, e))"
    unfolding WebRtcAecm_UpdateChannel_def Let_def b_def [symmetric] c_def [symmetric] by simp
  then have "(a', e') = (if startupState b = 0 \<and> odd (currentVADValue b) then StoreAdaptiveChannelC b far e
       else if mseChannelCount c \<ge> 30 then validate_channel c far e else (c, e))"
    using assms(2) by simp
  then consider "(a', e') = StoreAdaptiveChannelC b far e" | "(a', e') = validate_channel c far e" | "a' = c" "e' = e"
    by (auto split: if_splits)
  then show ?thesis
  proof cases
    case 1
    then have "a' = fst (StoreAdaptiveChannelC b far e)" "e' = snd (StoreAdaptiveChannelC b far e)" by (simp_all add: prod_eq_iff)
    then show ?thesis using b by (simp add: store_channel_ok store_channel_length)
  next
    case 2
    then show ?thesis using validate_channel_ok [OF c(1), of far e a' e'] c(2) by simp
  qed (use c in simp)
qed

lemma update_channel_adapt:
  "adapt_ok a \<Longrightarrow> WebRtcAecm_UpdateChannel a far far_q dfa mu e = (a', e') \<Longrightarrow> adapt_ok a' \<and> length e' = length e"
  using update_channel_ok [of a far far_q dfa mu e a' e'] channels_blank_adapt [of a' a] by (simp add: adapt_ok_def)

section \<open>The suppression gain\<close>

lemma mode_target:
  fixes p e :: int
  assumes "p \<in> {384, 768, 1536, 3072, 6144}" and "0 \<le> e" "e < 400"
  shows "e < 200 \<Longrightarrow> 0 \<le> (p div 2 * e + 100) div 200 \<and> (p div 2 * e + 100) div 200 < p div 2 + 1"
    and "200 \<le> e \<Longrightarrow> 0 \<le> (5 * p div 12 * (400 - e) + 100) div 200 \<and> (5 * p div 12 * (400 - e) + 100) div 200 < 5 * p div 12 + 1"
  using assms by (auto simp: div_less_iff pos_imp_zdiv_nonneg_iff)

lemma target_gain_range:
  assumes "adapt_ok a"
  shows "0 \<le> target_gain a \<and> target_gain a \<le> supGainErrParamA a"
proof -
  define p where "p = supGainErrParamA a"
  define d where "d = nearLogEnergy a ! 0 - echoStoredLogEnergy a ! 0"
  have g: "mode_gain a p" and "energy_ok (nearLogEnergy a)" "energy_ok (echoStoredLogEnergy a)"
    using assms by (simp_all add: adapt_ok_def gain_ok_def p_def)
  then have "- 7000 \<le> nearLogEnergy a ! 0" "nearLogEnergy a ! 0 \<le> 9087"
      "- 7000 \<le> echoStoredLogEnergy a ! 0" "echoStoredLogEnergy a ! 0 \<le> 9087"
    by (simp_all add: energy_ok_0)
  then have d: "\<bar>d\<bar> \<le> 16087" unfolding d_def by linarith
  define e where "e = \<bar>d\<bar>"
  have e: "0 \<le> e" "e \<le> 16087" using d by (simp_all add: e_def)
  have "is_s16 d" "is_s16 (- d)" using d unfolding is_s16_def by linarith+
  then have "s16 (WEBRTC_SPL_ABS_W16 (s16 d)) = e"
    by (simp add: WEBRTC_SPL_ABS_W16_def e_def s16_id)
  moreover have p: "p \<in> {384, 768, 1536, 3072, 6144}" using g by (simp add: mode_gain_def)
  then have "WebRtcSpl_DivW32W16 (s32 (p div 2 * e + 100)) 200 = (p div 2 * e + 100) div 200" if "e < 200"
    using that e by (auto simp: s32_id is_s32_def WebRtcSpl_DivW32W16_def cdiv_nonneg div_less_iff le_div_iff)
  moreover have "WebRtcSpl_DivW32W16 (s32 (5 * p div 12 * (400 - e) + 100)) 200 = (5 * p div 12 * (400 - e) + 100) div 200" if "e < 400"
    using that e p by (auto simp: s32_id is_s32_def WebRtcSpl_DivW32W16_def cdiv_nonneg div_less_iff le_div_iff)
  ultimately have t: "target_gain a = (if currentVADValue a = 0 then 0
      else if e < 400 then if e < 200 then s16 (p - s16 ((p div 2 * e + 100) div 200))
                           else s16 (p div 12 + s16 ((5 * p div 12 * (400 - e) + 100) div 200))
      else p div 12)"
    using g by (simp add: target_gain_def d_def [symmetric] Let_def mode_gain_def shr_def)
  have r: "p div 2 \<le> p" "0 \<le> p div 12" "p div 12 + 5 * p div 12 = p div 2" "0 \<le> p" "p \<le> 6144" using p by auto
  define u v where "u = (p div 2 * e + 100) div 200" and "v = (5 * p div 12 * (400 - e) + 100) div 200"
  have u: "0 \<le> u" "u \<le> p div 2" if "e < 200" using mode_target(1) [OF p e(1)] that by (simp_all add: u_def)
  have v: "0 \<le> v" "p div 12 + v \<le> p div 2" if "200 \<le> e" "e < 400"
    using mode_target(2) [OF p e(1)] that r(3) unfolding v_def by linarith+
  have id: "s16 x = x" if "0 \<le> x" "x \<le> p" for x using that r by (intro s16_id) (simp add: is_s16_def)
  consider "currentVADValue a = 0" | "currentVADValue a \<noteq> 0" "e < 200" | "currentVADValue a \<noteq> 0" "200 \<le> e" "e < 400"
    | "currentVADValue a \<noteq> 0" "400 \<le> e" by linarith
  then have "0 \<le> target_gain a \<and> target_gain a \<le> p"
  proof cases
    case 2
    then show ?thesis using t u r id [of u] id [of "p - u"] by (simp add: u_def [symmetric])
  next
    case 3
    then show ?thesis using t v r id [of v] id [of "p div 12 + v"] by (simp add: v_def [symmetric])
  qed (use t r in simp_all)
  then show ?thesis by (simp add: p_def)
qed

lemma shr_towards:
  fixes x t :: int
  shows "min x t \<le> x + shr (t - x) n \<and> x + shr (t - x) n \<le> max x t"
  using shr_le [of "t - x" n] shr_ge [of "t - x" n] shr_mono [of "t - x" 0 n] by (auto simp: min_def max_def)

lemma suppression_gain_ok:
  assumes "adapt_ok a" and "WebRtcAecm_CalcSuppressionGain a = (a', g)"
  shows "adapt_ok a' \<and> 0 \<le> g \<and> g \<le> supGainErrParamA a"
proof -
  define p t where "p = supGainErrParamA a" and "t = (if target_gain a > supGainOld a then target_gain a else supGainOld a)"
  have g: "0 \<le> supGain a" "supGain a \<le> p" "0 \<le> supGainOld a" "supGainOld a \<le> p" "p \<le> 6144"
    using assms(1) by (auto simp: adapt_ok_def gain_ok_def mode_gain_def p_def)
  have t: "0 \<le> t" "t \<le> p" using g target_gain_range [OF assms(1)] by (auto simp: t_def p_def)
  note w = shr_towards [of "supGain a" t 4]
  have "is_s16 (shr (t - supGain a) 4)" using w t g unfolding is_s16_def by linarith
  moreover have r: "0 \<le> supGain a + shr (t - supGain a) 4" "supGain a + shr (t - supGain a) 4 \<le> p" using w t g by linarith+
  moreover from this have "is_s16 (supGain a + shr (t - supGain a) 4)" using g(5) unfolding is_s16_def by linarith
  ultimately have "a' = a\<lparr>supGainOld := target_gain a, supGain := supGain a + shr (t - supGain a) 4\<rparr> \<and> g = supGain a'"
    using assms(2) by (auto simp: WebRtcAecm_CalcSuppressionGain_def Let_def t_def [symmetric] s16_id)
  then show ?thesis using assms(1) r target_gain_range [OF assms(1)]
    by (auto simp: adapt_ok_def chan_ok_def levels_ok_def gain_ok_def mode_gain_def p_def)
qed

end
