(* ===== verification/Aecm_Block.thy ===== *)
theory Aecm_Block
  imports Aecm_Adapt_Inv
begin

unbundle bit_operations_syntax

text \<open>
  One block of 64 samples through the mobile echo canceller
  (\<^verbatim>\<open>modules/audio_processing/aecm/aecm_core_c.c\<close>, the generic C version): the transforms
  between time and frequency, the Wiener filter, the comfort noise, and \<open>ProcessBlock\<close>, which
  puts them together with the delay estimator and the adaptation.

  A complex array is a list of pairs. The arrays that the C functions leave on the stack
  uninitialised and then write completely start with zeros. A result \<open>None\<close> of \<open>ProcessBlock\<close> is
  an access outside an array in the delay estimator.
\<close>

section \<open>Time and frequency\<close>

definition WebRtcAecm_kSqrtHanning :: "int list" where
  "WebRtcAecm_kSqrtHanning =
     [0, 399, 798, 1196, 1594, 1990, 2386, 2780, 3172,
      3562, 3951, 4337, 4720, 5101, 5478, 5853, 6224,
      6591, 6954, 7313, 7668, 8019, 8364, 8705, 9040,
      9370, 9695, 10013, 10326, 10633, 10933, 11227, 11514,
      11795, 12068, 12335, 12594, 12845, 13089, 13325, 13553,
      13773, 13985, 14189, 14384, 14571, 14749, 14918, 15079,
      15231, 15373, 15506, 15631, 15746, 15851, 15947, 16034,
      16111, 16179, 16237, 16286, 16325, 16354, 16373, 16384]"

definition kNoiseEstQDomain :: int where "kNoiseEstQDomain = 15"
definition kNoiseEstIncCount :: int where "kNoiseEstIncCount = 5"

text \<open>The interleaved real and imaginary parts as pairs.\<close>

definition complex_of :: "int list \<Rightarrow> nat \<Rightarrow> (int \<times> int) list" where
  "complex_of flat n = map (\<lambda>i. (flat ! (2 * i), flat ! (2 * i + 1))) [0..<n]"

definition windowed :: "int list \<Rightarrow> int \<Rightarrow> int list" where
  "windowed time_signal scaling =
     map (\<lambda>i. s16 (shr (s16 (shl (time_signal ! i) (nat scaling)) * WebRtcAecm_kSqrtHanning ! i) 14)) [0..<PART_LEN] @
     map (\<lambda>i. s16 (shr (s16 (shl (time_signal ! (i + PART_LEN)) (nat scaling)) * WebRtcAecm_kSqrtHanning ! (PART_LEN - i)) 14)) [0..<PART_LEN]"

definition WindowAndFFT :: "AecmCore \<Rightarrow> int list \<Rightarrow> int \<Rightarrow> (int \<times> int) list" where
  "WindowAndFFT aecm time_signal scaling =
     (let freq_signal = complex_of (snd (WebRtcSpl_RealForwardFFT (real_fft aecm) (windowed time_signal scaling))) PART_LEN1
      in map (\<lambda>i. (fst (freq_signal ! i), if i < PART_LEN then s16 (- snd (freq_signal ! i)) else snd (freq_signal ! i))) [0..<PART_LEN1])"

definition magnitude :: "int \<times> int \<Rightarrow> int" where
  "magnitude c =
     (if fst c = 0 then u16 (WEBRTC_SPL_ABS_W16 (snd c))
      else if snd c = 0 then u16 (WEBRTC_SPL_ABS_W16 (fst c))
      else let tmp16no1 = s16 (WEBRTC_SPL_ABS_W16 (fst c)); tmp16no2 = s16 (WEBRTC_SPL_ABS_W16 (snd c));
               tmp32no2 = WebRtcSpl_AddSatW32 (tmp16no1 * tmp16no1) (tmp16no2 * tmp16no2)
           in u16 (WebRtcSpl_SqrtFloor tmp32no2))"

text \<open>The result is \<open>(time_signal_scaling, freq_signal, freq_signal_abs, freq_signal_sum_abs)\<close>.\<close>

definition TimeToFrequencyDomain :: "AecmCore \<Rightarrow> int list \<Rightarrow> int \<times> (int \<times> int) list \<times> int list \<times> int" where
  "TimeToFrequencyDomain aecm time_signal =
     (let scaling = WebRtcSpl_NormW16 (WebRtcSpl_MaxAbsValueW16C time_signal PART_LEN2);
          freq = WindowAndFFT aecm time_signal scaling;
          freq = freq[0 := (fst (freq ! 0), 0)];
          freq = freq[PART_LEN := (fst (freq ! PART_LEN), 0)];
          fabs = map (\<lambda>i. if i = 0 \<or> i = PART_LEN then u16 (WEBRTC_SPL_ABS_W16 (fst (freq ! i))) else magnitude (freq ! i)) [0..<PART_LEN1];
          total = fold (\<lambda>i t. u32 (t + fabs ! i)) [1..<PART_LEN] (u32 (fabs ! 0 + fabs ! PART_LEN))
      in (scaling, freq, fabs, total))"

text \<open>The block of output, with the state.\<close>

definition InverseFFTAndWindow :: "AecmCore \<Rightarrow> (int \<times> int) list \<Rightarrow> bool \<Rightarrow> AecmCore \<times> int list" where
  "InverseFFTAndWindow aecm efw has_clean =
     (let fft = concat (map (\<lambda>c. [fst c, s16 (- snd c)]) efw);
          (outCFFT, ifft_out) = WebRtcSpl_RealInverseFFT (real_fft aecm) fft;
          shift = outCFFT - dfaCleanQDomain aecm;
          output = map (\<lambda>i.
            let w = s16 (WEBRTC_SPL_MUL_16_16_RSFT_WITH_ROUND (ifft_out ! i) (WebRtcAecm_kSqrtHanning ! i) 14)
            in s16 (WEBRTC_SPL_SAT 32767 (s32 (WEBRTC_SPL_SHIFT_W32 w shift + outBuf aecm ! i)) (- 32768))) [0..<PART_LEN];
          out_buf = map (\<lambda>i.
            let w = shr (ifft_out ! (PART_LEN + i) * WebRtcAecm_kSqrtHanning ! (PART_LEN - i)) 14
            in s16 (WEBRTC_SPL_SAT 32767 (WEBRTC_SPL_SHIFT_W32 w shift) (- 32768))) [0..<PART_LEN];
          aecm = aecm\<lparr>outBuf := out_buf, xBuf := blit (xBuf aecm) 0 (take PART_LEN (drop PART_LEN (xBuf aecm))),
                      dBufNoisy := blit (dBufNoisy aecm) 0 (take PART_LEN (drop PART_LEN (dBufNoisy aecm)))\<rparr>;
          aecm = (if has_clean then aecm\<lparr>dBufClean := blit (dBufClean aecm) 0 (take PART_LEN (drop PART_LEN (dBufClean aecm)))\<rparr> else aecm)
      in (aecm, output))"

section \<open>Comfort noise\<close>

text \<open>The noise estimate of one bin: \<open>(noiseEst, noiseEstTooLowCtr, noiseEstTooHighCtr)\<close>.\<close>

definition track_noise :: "nat \<Rightarrow> int \<Rightarrow> int \<times> int \<times> int \<Rightarrow> int \<times> int \<times> int" where
  "track_noise minTrackShift outLShift32 = (\<lambda>(est, low, high).
     if outLShift32 < est
     then if est < shl 1 minTrackShift
          then let high = s32 (high + 1)
               in if high \<ge> kNoiseEstIncCount then (s32 (est - 1), 0, 0) else (est, 0, high)
          else (s32 (est - shr (s32 (est - outLShift32)) minTrackShift), 0, high)
     else if shr est 19 > 0 then (s32 (shr est 11 * 2049), low, 0)
     else if shr est 11 > 0 then (shr (s32 (est * 2049)) 11, low, 0)
     else let low = s32 (low + 1)
          in if low \<ge> kNoiseEstIncCount then (s32 (est + (shr est 9 + 1)), 0, 0) else (est, low, 0))"

definition estimate_noise :: "nat \<Rightarrow> nat \<Rightarrow> int list \<Rightarrow> nat \<Rightarrow> AecmCore \<Rightarrow> AecmCore" where
  "estimate_noise minTrackShift shiftFromNearToNoise dfa i aecm =
     (let (est, low, high) = track_noise minTrackShift (s32 (shl (dfa ! i) shiftFromNearToNoise))
                               (noiseEst aecm ! i, noiseEstTooLowCtr aecm ! i, noiseEstTooHighCtr aecm ! i)
      in aecm\<lparr>noiseEst := (noiseEst aecm)[i := est], noiseEstTooLowCtr := (noiseEstTooLowCtr aecm)[i := low],
              noiseEstTooHighCtr := (noiseEstTooHighCtr aecm)[i := high]\<rparr>)"

text \<open>The level of the noise in one bin: \<open>(noiseEst, noiseRShift16)\<close>.\<close>

definition noise_level :: "nat \<Rightarrow> int \<Rightarrow> int \<Rightarrow> int \<times> int" where
  "noise_level shiftFromNearToNoise lam est =
     (let tmp32 = shr est shiftFromNearToNoise;
          (tmp32, est) = (if tmp32 > 32767 then (32767, s32 (shl 32767 shiftFromNearToNoise)) else (tmp32, est));
          noise = s16 tmp32;
          tmp16 = s16 (ONE_Q14 - lam)
      in (est, s16 (shr (tmp16 * noise) 14)))"

text \<open>The random index into the tables of 360 entries. It is signed, as in the code: that it is never
  negative is a property of the random numbers.\<close>

definition noise_index :: "int \<Rightarrow> int" where
  "noise_index rand = s16 (shr (359 * rand) 15)"

definition ComfortNoise :: "AecmCore \<Rightarrow> int list \<Rightarrow> (int \<times> int) list \<Rightarrow> int list \<Rightarrow> AecmCore \<times> (int \<times> int) list" where
  "ComfortNoise aecm dfa out lambda =
     (let shiftFromNearToNoise = nat (s16 (kNoiseEstQDomain - dfaCleanQDomain aecm));
          (aecm, minTrackShift) = (if noiseEstCtr aecm < 100 then (aecm\<lparr>noiseEstCtr := s16 (noiseEstCtr aecm + 1)\<rparr>, 6)
                                   else (aecm, 9));
          aecm = fold (estimate_noise minTrackShift shiftFromNearToNoise dfa) [0..<PART_LEN1] aecm;
          levels = map (\<lambda>i. noise_level shiftFromNearToNoise (lambda ! i) (noiseEst aecm ! i)) [0..<PART_LEN1];
          aecm = aecm\<lparr>noiseEst := map fst levels\<rparr>;
          noiseRShift16 = map snd levels;
          (randW16, sd) = WebRtcSpl_RandUArray (replicate PART_LEN 0) PART_LEN (seed aecm);
          aecm = aecm\<lparr>seed := sd\<rparr>;
          uReal = map (\<lambda>i. if i = 0 then 0
                    else s16 (shr (noiseRShift16 ! i * WebRtcAecm_kCosTable ! nat (noise_index (randW16 ! (i - 1)))) 13)) [0..<PART_LEN1];
          uImag = map (\<lambda>i. if i = 0 \<or> i = PART_LEN then 0
                    else s16 (shr (- (noiseRShift16 ! i) * WebRtcAecm_kSinTable ! nat (noise_index (randW16 ! (i - 1)))) 13)) [0..<PART_LEN1]
      in (aecm, map (\<lambda>i. (WebRtcSpl_AddSatW16 (fst (out ! i)) (uReal ! i), WebRtcSpl_AddSatW16 (snd (out ! i)) (uImag ! i))) [0..<PART_LEN1]))"

section \<open>The Wiener filter\<close>

text \<open>The echo estimate of one bin times the suppression gain: \<open>(echoEst32Gained, resolutionDiff)\<close>.\<close>

definition echo_gained :: "int \<Rightarrow> int \<Rightarrow> int \<Rightarrow> int \<Rightarrow> int \<times> int" where
  "echo_gained echo_filt sup_gain cleanQ zerosXBuf =
     (let zeros32 = s16 (WebRtcSpl_NormW32 echo_filt + 1);
          zeros16 = s16 (WebRtcSpl_NormW16 sup_gain + 1)
      in if zeros32 + zeros16 > 16
         then (WEBRTC_SPL_UMUL_32_16 echo_filt sup_gain,
               s16 (14 - RESOLUTION_CHANNEL16 - RESOLUTION_SUPGAIN + (cleanQ - zerosXBuf)))
         else let tmp16no1 = s16 (17 - zeros32 - zeros16);
                  resolutionDiff = s16 (s16 (14 + tmp16no1 - RESOLUTION_CHANNEL16 - RESOLUTION_SUPGAIN) + (cleanQ - zerosXBuf))
              in if zeros32 > tmp16no1
                 then (WEBRTC_SPL_UMUL_32_16 echo_filt (shr sup_gain (nat tmp16no1)), resolutionDiff)
                 else (u32 (s32 (shr echo_filt (nat tmp16no1) * sup_gain)), resolutionDiff))"

text \<open>
  The smoothed near end of one bin. The test before the saturation is the source's \<^verbatim>\<open>(tmp16no2) &
  (-qDomainDiff > zeros16)\<close>, a bitwise conjunction with a truth value.
\<close>

definition near_filter :: "int \<Rightarrow> int \<Rightarrow> int \<Rightarrow> int" where
  "near_filter near dfa diff =
     (let zeros16 = WebRtcSpl_NormW16 near;
          (tmp16no1, qDomainDiff, tmp16no2) =
            (if zeros16 < diff \<and> near \<noteq> 0
             then let qDomainDiff = s16 (zeros16 - diff)
                  in (s16 (shl near (nat zeros16)), qDomainDiff, s16 (shr dfa (nat (- qDomainDiff))))
             else (if diff < 0 then s16 (shr near (nat (- diff))) else s16 (shl near (nat diff)), 0, s16 dfa));
          tmp32no1 = tmp16no2 - tmp16no1;
          tmp16no2 = s16 (s16 (shr tmp32no1 4) + tmp16no1);
          zeros16 = WebRtcSpl_NormW16 tmp16no2
      in if tmp16no2 AND (if - qDomainDiff > zeros16 then 1 else 0) \<noteq> 0 then 32767
         else if qDomainDiff < 0 then s16 (shl tmp16no2 (nat (- qDomainDiff))) else s16 (shr tmp16no2 (nat qDomainDiff)))"

text \<open>The coefficient of one bin in Q14.\<close>

definition wiener_gain :: "int \<Rightarrow> int \<Rightarrow> int \<Rightarrow> int" where
  "wiener_gain echoEst32Gained near resolutionDiff =
     (if echoEst32Gained = 0 then ONE_Q14
      else if near = 0 then 0
      else let echoEst32Gained = u32 (echoEst32Gained + shr near 1);
               tmpU32 = WebRtcSpl_DivU32U16 echoEst32Gained (u16 near);
               tmp32no1 = s32 (shift_u32 tmpU32 resolutionDiff)
           in if tmp32no1 > ONE_Q14 then 0
              else if tmp32no1 < 0 then ONE_Q14
              else let h = s16 (ONE_Q14 - s16 tmp32no1) in if h < 0 then 0 else h)"

text \<open>The loop over the bins, on \<open>(aecm, hnl, numPosCoef)\<close>.\<close>

definition wiener_bin ::
    "int \<Rightarrow> int \<Rightarrow> int list \<Rightarrow> int list \<Rightarrow> nat \<Rightarrow> AecmCore \<times> int list \<times> int \<Rightarrow> AecmCore \<times> int list \<times> int" where
  "wiener_bin sup_gain zerosXBuf dfaClean echoEst32 i = (\<lambda>(aecm, hnl, numPosCoef).
     let tmp32no1 = s32 (echoEst32 ! i - echoFilt aecm ! i);
         filt = s32 (echoFilt aecm ! i + shr (s32 (tmp32no1 * 50)) 8);
         (echoEst32Gained, resolutionDiff) = echo_gained filt sup_gain (dfaCleanQDomain aecm) zerosXBuf;
         near = near_filter (nearFilt aecm ! i) (dfaClean ! i) (s16 (dfaCleanQDomain aecm - dfaCleanQDomainOld aecm));
         h = wiener_gain echoEst32Gained near resolutionDiff
     in (aecm\<lparr>echoFilt := (echoFilt aecm)[i := filt], nearFilt := (nearFilt aecm)[i := near]\<rparr>, hnl[i := h],
         if h \<noteq> 0 then s16 (numPosCoef + 1) else numPosCoef))"

definition kMinPrefBand :: nat where "kMinPrefBand = 4"
definition kMaxPrefBand :: nat where "kMaxPrefBand = 24"

definition wideband_gain :: "int list \<Rightarrow> int list" where
  "wideband_gain hnl =
     (let hnl = map (\<lambda>i. s16 (shr (hnl ! i * hnl ! i) 14)) [0..<PART_LEN1];
          avgHnl32 = fold (\<lambda>i avg. s32 (avg + hnl ! i)) [kMinPrefBand..<kMaxPrefBand + 1] 0;
          avgHnl32 = cdiv avgHnl32 (int (kMaxPrefBand - kMinPrefBand + 1))
      in map (\<lambda>i. if kMaxPrefBand \<le> i \<and> hnl ! i > s16 avgHnl32 then s16 avgHnl32 else hnl ! i) [0..<PART_LEN1])"

definition nlp_gain :: "int \<Rightarrow> int \<Rightarrow> int" where
  "nlp_gain numPosCoef h =
     (let h = (if h > NLP_COMP_HIGH then ONE_Q14 else if h < NLP_COMP_LOW then 0 else h);
          nlpGain = (if numPosCoef < 3 then 0 else ONE_Q14)
      in if h = ONE_Q14 \<and> nlpGain = ONE_Q14 then ONE_Q14 else s16 (shr (h * nlpGain) 14))"

definition apply_gain :: "(int \<times> int) list \<Rightarrow> int list \<Rightarrow> (int \<times> int) list" where
  "apply_gain dfw hnl = map (\<lambda>i.
     (s16 (WEBRTC_SPL_MUL_16_16_RSFT_WITH_ROUND (fst (dfw ! i)) (hnl ! i) 14),
      s16 (WEBRTC_SPL_MUL_16_16_RSFT_WITH_ROUND (snd (dfw ! i)) (hnl ! i) 14))) [0..<PART_LEN1]"

section \<open>A block\<close>

definition buffer_block :: "AecmCore \<Rightarrow> int list \<Rightarrow> int list \<Rightarrow> int list option \<Rightarrow> AecmCore" where
  "buffer_block aecm farend nearendNoisy nearendClean =
     (let aecm = (if startupState aecm < 2
                  then aecm\<lparr>startupState := (if totCount aecm \<ge> CONV_LEN then 1 else 0) + (if totCount aecm \<ge> CONV_LEN2 then 1 else 0)\<rparr>
                  else aecm);
          aecm = aecm\<lparr>xBuf := blit (xBuf aecm) PART_LEN (take PART_LEN farend),
                      dBufNoisy := blit (dBufNoisy aecm) PART_LEN (take PART_LEN nearendNoisy)\<rparr>
      in case nearendClean of None \<Rightarrow> aecm | Some clean \<Rightarrow> aecm\<lparr>dBufClean := blit (dBufClean aecm) PART_LEN (take PART_LEN clean)\<rparr>)"

text \<open>The transforms of the near end: \<open>(aecm, dfw, dfaNoisy, dfaNoisySum, dfaClean)\<close>.\<close>

definition near_spectra :: "AecmCore \<Rightarrow> bool \<Rightarrow> AecmCore \<times> (int \<times> int) list \<times> int list \<times> int \<times> int list" where
  "near_spectra aecm has_clean =
     (let (zerosDBufNoisy, dfw, dfaNoisy, dfaNoisySum) = TimeToFrequencyDomain aecm (dBufNoisy aecm);
          aecm = aecm\<lparr>dfaNoisyQDomainOld := dfaNoisyQDomain aecm, dfaNoisyQDomain := s16 zerosDBufNoisy\<rparr>
      in if \<not> has_clean
         then (aecm\<lparr>dfaCleanQDomainOld := dfaNoisyQDomainOld aecm, dfaCleanQDomain := dfaNoisyQDomain aecm\<rparr>,
               dfw, dfaNoisy, dfaNoisySum, dfaNoisy)
         else let (zerosDBufClean, dfw, dfaClean, dfaCleanSum) = TimeToFrequencyDomain aecm (dBufClean aecm)
              in (aecm\<lparr>dfaCleanQDomainOld := dfaCleanQDomain aecm, dfaCleanQDomain := s16 zerosDBufClean\<rparr>,
                  dfw, dfaNoisy, dfaNoisySum, dfaClean))"

text \<open>
  The delay of the block: the state, and the delay or \<open>-1\<close>. The estimator looks at the far end through
  a pointer to the part of the far-end handle.
\<close>

definition estimate_delay :: "AecmCore \<Rightarrow> int list \<Rightarrow> int \<Rightarrow> int list \<Rightarrow> int \<Rightarrow> (AecmCore \<times> int) option" where
  "estimate_delay aecm xfa far_q dfaNoisy zerosDBufNoisy =
     (let aecm = WebRtcAecm_UpdateFarHistory aecm xfa far_q;
          (fe, r) = WebRtc_AddFarSpectrumFix (delay_estimator_farend aecm) (Some xfa) (int PART_LEN1) far_q;
          aecm = aecm\<lparr>delay_estimator_farend := fe\<rparr>
      in if r = - 1 then Some (aecm, - 1)
         else case fe of None \<Rightarrow> None | Some f \<Rightarrow>
           (case WebRtc_DelayEstimatorProcessFix (binary_farend f) (delay_estimator aecm) (Some dfaNoisy) (int PART_LEN1) zerosDBufNoisy of
              None \<Rightarrow> None
            | Some (de, delay) \<Rightarrow>
                let aecm = aecm\<lparr>delay_estimator := de\<rparr>
                in if delay = - 1 then Some (aecm, - 1)
                   else let delay = (if delay = - 2 then 0 else delay)
                        in Some (aecm, if fixedDelay aecm \<ge> 0 then fixedDelay aecm else delay)))"

text \<open>The adaptation of the block: \<open>(aecm, echoEst32, supGain)\<close>.\<close>

definition adapt_block :: "AecmCore \<Rightarrow> int list \<Rightarrow> int \<Rightarrow> int list \<Rightarrow> int \<Rightarrow> AecmCore \<times> int list \<times> int" where
  "adapt_block aecm far_spectrum zerosXBuf dfaNoisy dfaNoisySum =
     (let (aecm, echoEst32) = WebRtcAecm_CalcEnergies aecm far_spectrum zerosXBuf dfaNoisySum (replicate PART_LEN1 0);
          mu = WebRtcAecm_CalcStepSize aecm;
          aecm = aecm\<lparr>totCount := u32 (totCount aecm + 1)\<rparr>;
          (aecm, echoEst32) = WebRtcAecm_UpdateChannel aecm far_spectrum zerosXBuf dfaNoisy mu echoEst32;
          (aecm, gain) = WebRtcAecm_CalcSuppressionGain aecm
      in (aecm, echoEst32, gain))"

text \<open>The gains of the block: \<open>(aecm, hnl)\<close>.\<close>

definition block_gains :: "AecmCore \<Rightarrow> int list \<Rightarrow> int \<Rightarrow> int \<Rightarrow> int list \<Rightarrow> AecmCore \<times> int list" where
  "block_gains aecm echoEst32 gain zerosXBuf dfaClean =
     (let (aecm, hnl, numPosCoef) = fold (wiener_bin gain zerosXBuf dfaClean echoEst32) [0..<PART_LEN1] (aecm, replicate PART_LEN1 0, 0);
          hnl = (if mult aecm = 2 then wideband_gain hnl else hnl);
          hnl = (if nlpFlag aecm \<noteq> 0 then map (nlp_gain numPosCoef) hnl else hnl)
      in (aecm, hnl))"

definition WebRtcAecm_ProcessBlock ::
    "AecmCore \<Rightarrow> int list \<Rightarrow> int list \<Rightarrow> int list option \<Rightarrow> int list \<Rightarrow> (AecmCore \<times> int list \<times> int) option" where
  "WebRtcAecm_ProcessBlock aecm farend nearendNoisy nearendClean output =
     (let aecm = buffer_block aecm farend nearendNoisy nearendClean;
          (far_q, dfw, xfa, xfaSum) = TimeToFrequencyDomain aecm (xBuf aecm);
          (aecm, dfw, dfaNoisy, dfaNoisySum, dfaClean) = near_spectra aecm (nearendClean \<noteq> None)
      in case estimate_delay aecm xfa far_q dfaNoisy (dfaNoisyQDomain aecm) of None \<Rightarrow> None
         | Some (aecm, delay) \<Rightarrow>
             if delay = - 1 then Some (aecm, output, - 1)
             else let (far_q, far_spectrum) = WebRtcAecm_AlignedFarend aecm delay;
                      zerosXBuf = s16 far_q;
                      (aecm, echoEst32, gain) = adapt_block aecm far_spectrum zerosXBuf dfaNoisy dfaNoisySum;
                      (aecm, hnl) = block_gains aecm echoEst32 gain zerosXBuf dfaClean;
                      efw = apply_gain dfw hnl;
                      (aecm, efw) = (if cngMode aecm = AecmTrue then ComfortNoise aecm dfaClean efw hnl else (aecm, efw));
                      (aecm, out) = InverseFFTAndWindow aecm efw (nearendClean \<noteq> None)
                  in Some (aecm, blit output 0 out, 0))"

end
