(* ===== verification/Aecm_Block_Inv.thy ===== *)
theory Aecm_Block_Inv
  imports Aecm_Block
begin

unbundle bit_operations_syntax

text \<open>
  What a block through the mobile echo canceller keeps: the gains stay between zero and one, so that
  no bin is amplified; the noise estimate stays in range and its random table index inside the tables;
  and the invariant of the whole core, under which no block fails or leaves an array.
\<close>

section \<open>Gains\<close>

definition unit_gain :: "int \<Rightarrow> bool" where
  "unit_gain h \<longleftrightarrow> 0 \<le> h \<and> h \<le> 16384"

lemma wiener_gain_unit: "unit_gain (wiener_gain e near q)"
proof -
  have "s16 x = x \<and> s16 (16384 - x) = 16384 - x" if "0 \<le> x" "x \<le> 16384" for x
    using that by (auto intro!: s16_id simp: is_s16_def)
  then show ?thesis by (auto simp: wiener_gain_def unit_gain_def Let_def)
qed

lemma shr_14_unit:
  assumes "0 \<le> x" "x \<le> 16384 * 16384"
  shows "unit_gain (s16 (shr x 14))" and "s16 (shr x 14) = shr x 14"
proof -
  have "0 \<le> shr x 14" "shr x 14 < 16385" using assms by (simp_all add: shr_less_iff)
  then have "is_s16 (shr x 14)" unfolding is_s16_def by linarith
  then show "s16 (shr x 14) = shr x 14" by (rule s16_id)
  then show "unit_gain (s16 (shr x 14))" using \<open>0 \<le> shr x 14\<close> \<open>shr x 14 < 16385\<close> by (simp add: unit_gain_def)
qed

lemma unit_gain_mult: "unit_gain a \<Longrightarrow> unit_gain b \<Longrightarrow> 0 \<le> a * b \<and> a * b \<le> 16384 * 16384"
  using mult_mono [of a 16384 b 16384] by (simp add: unit_gain_def)

lemma nlp_gain_unit: "unit_gain h \<Longrightarrow> unit_gain (nlp_gain n h)"
proof -
  assume "unit_gain h"
  define g :: int where "g = (if n < 3 then 0 else 16384)"
  define k where "k = (if h > 16384 then 16384 else if h < 3277 then 0 else h)"
  have u: "unit_gain g" "unit_gain k" using \<open>unit_gain h\<close> by (auto simp: g_def k_def unit_gain_def)
  have "nlp_gain n h = (if k = 16384 \<and> g = 16384 then 16384 else s16 (shr (k * g) 14))"
    by (simp add: nlp_gain_def g_def k_def Let_def)
  then show ?thesis using shr_14_unit [of "k * g"] unit_gain_mult [OF u(2,1)] by (simp add: unit_gain_def)
qed

lemma sum_gains:
  assumes "list_all unit_gain hnl" and "set is \<subseteq> {..<length hnl}" and "length is \<le> 1000"
  shows "fold (\<lambda>i avg. s32 (avg + hnl ! i)) is 0 = sum_list (map ((!) hnl) is) \<and>
    0 \<le> sum_list (map ((!) hnl) is) \<and> sum_list (map ((!) hnl) is) \<le> 16384 * int (length is)"
  using assms(2,3)
proof (induction "is" rule: rev_induct)
  case (snoc i xs)
  have "0 \<le> hnl ! i \<and> hnl ! i \<le> 16384" using assms(1) snoc.prems(1) by (auto simp: list_all_length unit_gain_def)
  moreover have "s32 (sum_list (map ((!) hnl) xs) + hnl ! i) = sum_list (map ((!) hnl) xs) + hnl ! i"
    using snoc calculation by (intro s32_id) (auto simp: is_s32_def)
  ultimately show ?case using snoc by simp
qed simp

lemma wideband_gain_unit:
  assumes "length hnl = 65" and "list_all unit_gain hnl"
  shows "length (wideband_gain hnl) = 65 \<and> list_all unit_gain (wideband_gain hnl)"
proof -
  define sq where "sq = map (\<lambda>i. s16 (shr (hnl ! i * hnl ! i) 14)) [0..<65]"
  have sq: "list_all unit_gain sq" "length sq = 65"
    using assms unit_gain_mult shr_14_unit(1) by (auto simp: sq_def list_all_length)
  define t where "t = sum_list (map ((!) sq) [kMinPrefBand..<kMaxPrefBand + 1])"
  have sub: "{4..<25} \<subseteq> {..<65::nat}" by auto
  have t: "fold (\<lambda>i avg. s32 (avg + sq ! i)) [kMinPrefBand..<kMaxPrefBand + 1] 0 = t" "0 \<le> t" "t \<le> 16384 * 21"
    using sum_gains [OF sq(1), of "[kMinPrefBand..<kMaxPrefBand + 1]"] sq(2) sub
    by (auto simp: t_def kMinPrefBand_def kMaxPrefBand_def simp del: upt_Suc upt_rec_numeral)
  define avg where "avg = s16 (cdiv t (int (kMaxPrefBand - kMinPrefBand + 1)))"
  have "0 \<le> t div 21" "t div 21 < 16385" using t by (simp_all add: pos_imp_zdiv_nonneg_iff div_less_iff)
  then have "unit_gain avg" using t(2)
    by (simp add: avg_def cdiv_nonneg s16_id is_s16_def unit_gain_def kMinPrefBand_def kMaxPrefBand_def)
  moreover have "wideband_gain hnl = map (\<lambda>i. if kMaxPrefBand \<le> i \<and> sq ! i > avg then avg else sq ! i) [0..<65]"
    unfolding wideband_gain_def Let_def sq_def [symmetric] t(1) avg_def [symmetric] ..
  ultimately show ?thesis using sq by (auto simp: list_all_length)
qed

lemma wiener_bin_hnl: "\<exists>h. unit_gain h \<and> fst (snd (wiener_bin g z dfa echo i s)) = (fst (snd s))[i := h]"
  using wiener_gain_unit by (auto simp: wiener_bin_def Let_def split: prod.splits)

lemma block_gains_unit:
  assumes "block_gains a echo g z dfa = (a', hnl)"
  shows "length hnl = 65 \<and> list_all unit_gain hnl"
proof -
  obtain b h n where f: "fold (wiener_bin g z dfa echo) [0..<65] (a, replicate 65 0, 0) = (b, h, n)" by (rule prod_cases3)
  have "length (fst (snd (fold (wiener_bin g z dfa echo) [0..<65] (a, replicate 65 0, 0)))) = 65 \<and>
      list_all unit_gain (fst (snd (fold (wiener_bin g z dfa echo) [0..<65] (a, replicate 65 0, 0))))"
  proof (rule fold_keeps)
    fix i and s :: "AecmCore \<times> int list \<times> int"
    assume "length (fst (snd s)) = 65 \<and> list_all unit_gain (fst (snd s))"
    moreover obtain h where "unit_gain h" "fst (snd (wiener_bin g z dfa echo i s)) = (fst (snd s))[i := h]"
      using wiener_bin_hnl by blast
    ultimately show "length (fst (snd (wiener_bin g z dfa echo i s))) = 65 \<and> list_all unit_gain (fst (snd (wiener_bin g z dfa echo i s)))"
      by (simp add: list_all_update)
  qed (simp add: unit_gain_def list_all_iff)
  then have h: "length h = 65" "list_all unit_gain h" using f by simp_all
  define k where "k = (if mult b = 2 then wideband_gain h else h)"
  have "length k = 65 \<and> list_all unit_gain k" using h wideband_gain_unit by (simp add: k_def)
  moreover have "hnl = (if nlpFlag b \<noteq> 0 then map (nlp_gain n) k else k)"
    using assms f by (auto simp: block_gains_def Let_def k_def)
  ultimately show ?thesis using nlp_gain_unit by (auto simp: list_all_iff)
qed

lemma rounded_gain:
  assumes "is_s16 d" and "unit_gain h"
  shows "\<bar>s16 (WEBRTC_SPL_MUL_16_16_RSFT_WITH_ROUND d h 14)\<bar> \<le> \<bar>d\<bar>"
proof -
  have h: "0 \<le> h" "h \<le> 16384" "s16 h = h" using assms(2) by (auto simp: unit_gain_def intro!: s16_id simp: is_s16_def)
  have e: "WEBRTC_SPL_MUL_16_16_RSFT_WITH_ROUND d h 14 = shr (d * h + 8192) 14"
    using assms(1) h(3) by (simp add: WEBRTC_SPL_MUL_16_16_RSFT_WITH_ROUND_def WEBRTC_SPL_MUL_16_16_def s16_id shl_def)
  have "\<bar>shr (d * h + 8192) 14\<bar> \<le> \<bar>d\<bar>"
  proof (cases "0 \<le> d")
    case True
    then have "0 \<le> d * h" "d * h \<le> d * 16384" using h by (simp_all add: mult_left_mono)
    then have "0 \<le> shr (d * h + 8192) 14" by simp
    moreover have "shr (d * h + 8192) 14 < d + 1" using \<open>d * h \<le> d * 16384\<close> unfolding shr_less_iff by simp
    ultimately show ?thesis using True by simp
  next
    case False
    then have "d * h \<le> 0" "d * 16384 \<le> d * h" using h by (simp_all add: mult_nonpos_nonneg mult_left_mono_neg)
    then have "d \<le> shr (d * h + 8192) 14" "shr (d * h + 8192) 14 < 1" unfolding le_shr_iff shr_less_iff by simp_all
    then show ?thesis using False by simp
  qed
  moreover from this have "is_s16 (shr (d * h + 8192) 14)"
  proof -
    have "shr (d * h + 8192) 14 \<noteq> 32768"
    proof
      assume a: "shr (d * h + 8192) 14 = 32768"
      then have "536870912 \<le> d * h + 8192" using le_shr_iff [of 32768 "d * h + 8192" 14] by simp
      moreover have "d * h \<le> 32767 * 16384"
        using assms(1) h mult_mono [of d 32767 h 16384] mult_nonpos_nonneg [of d h] by (cases "0 \<le> d") (auto simp: is_s16_def)
      ultimately show False by simp
    qed
    then show ?thesis using assms(1) \<open>\<bar>shr (d * h + 8192) 14\<bar> \<le> \<bar>d\<bar>\<close> unfolding is_s16_def by linarith
  qed
  ultimately show ?thesis unfolding e by (simp add: s16_id)
qed

text \<open>
  C15. The gains of a block lie between 0 and 1 (in Q14) in all 65 bins, whatever the state and the
  spectra; so the suppression never makes the real or the imaginary part of a bin larger.
\<close>

theorem gains_never_amplify:
  assumes "block_gains a echo g z dfa = (a', hnl)" and "length dfw = 65"
    and "list_all (\<lambda>c. is_s16 (fst c) \<and> is_s16 (snd c)) dfw"
  shows "length hnl = 65 \<and> list_all (\<lambda>h. 0 \<le> h \<and> h \<le> 16384) hnl \<and>
    (\<forall>i < 65. \<bar>fst (apply_gain dfw hnl ! i)\<bar> \<le> \<bar>fst (dfw ! i)\<bar> \<and> \<bar>snd (apply_gain dfw hnl ! i)\<bar> \<le> \<bar>snd (dfw ! i)\<bar>)"
proof -
  note u = block_gains_unit [OF assms(1)]
  then show ?thesis using assms(2,3) rounded_gain
    by (auto simp: apply_gain_def list_all_length unit_gain_def)
qed

theorem gains_never_amplify_witness:
  "list_all (\<lambda>h. 0 \<le> h \<and> h \<le> 16384) (snd (block_gains blank_core (replicate 65 9000) 256 3 (replicate 65 77))) \<and>
   \<bar>fst (apply_gain (replicate 65 (500, - 4)) (snd (block_gains blank_core (replicate 65 9000) 256 3 (replicate 65 77))) ! 0)\<bar> \<le> 500"
  using gains_never_amplify [of blank_core "replicate 65 9000" 256 3 "replicate 65 77" _ _ "replicate 65 (500, - 4)", OF surjective_pairing]
  by (auto simp: list_all_iff is_s16_def)

section \<open>Comfort noise\<close>

definition noise_ok :: "AecmCore \<Rightarrow> bool" where
  "noise_ok a \<longleftrightarrow> length (noiseEst a) = 65 \<and> list_all (\<lambda>e. 0 \<le> e \<and> e \<le> 2 ^ 30) (noiseEst a) \<and>
     length (noiseEstTooLowCtr a) = 65 \<and> length (noiseEstTooHighCtr a) = 65"

lemma track_noise_range:
  assumes "0 \<le> est" "est \<le> 2 ^ 30" and "0 \<le> out" and "track_noise n out (est, low, high) = (est', low', high')"
  shows "0 \<le> est' \<and> est' < 2 ^ 31"
proof -
  have id: "s32 x = x" if "0 \<le> x" "x < 2 ^ 31" for x using that by (intro s32_id) (simp add: is_s32_def)
  have down: "0 \<le> est - shr (s32 (est - out)) n \<and> est - shr (s32 (est - out)) n < 2 ^ 31" if "out < est"
  proof -
    define d where "d = shr (est - out) n"
    have "s32 (est - out) = est - out" using that assms(2,3) by (intro id) simp_all
    moreover have "0 \<le> d" "d \<le> est - out" using that by (simp_all add: d_def shr_le)
    ultimately show ?thesis using assms(2,3) by (simp add: d_def [symmetric])
  qed
  have "shr est 11 < 2 ^ 19 + 1" using assms(2) unfolding shr_less_iff by simp
  then have up: "0 \<le> shr est 11 * 2049" "shr est 11 * 2049 < 2 ^ 31" using assms(1) by simp_all
  have mid: "0 \<le> shr (est * 2049) 11 \<and> shr (est * 2049) 11 < 2 ^ 31 \<and> s32 (est * 2049) = est * 2049" if "\<not> shr est 19 > 0"
  proof -
    have "shr est 19 < 1" using that by simp
    then have "est < 2 ^ 19" unfolding shr_less_iff by simp
    then have "0 \<le> est * 2049" "est * 2049 < 2 ^ 31" using assms(1) by simp_all
    then show ?thesis using id [of "est * 2049"] shr_le [of "est * 2049" 11] by simp
  qed
  have "shr est 9 < 2 ^ 21 + 1" using assms(2) unfolding shr_less_iff by simp
  then have small: "est + (shr est 9 + 1) < 2 ^ 31" using assms(2) by simp
  have "0 \<le> est + (shr est 9 + 1)" using assms(1) shr_nonneg [of est 9] by linarith
  then show ?thesis using assms(1,2,4) down up mid small id assms(3)
    by (auto simp: track_noise_def Let_def split: if_splits)
qed

lemma noise_level_range:
  assumes "0 \<le> est" "n \<le> 15" "unit_gain lam" and "noise_level n lam est = (est', noise)"
  shows "0 \<le> est' \<and> est' \<le> 2 ^ 30 \<and> 0 \<le> noise \<and> noise \<le> 32767"
proof -
  have p: "(2::int) ^ n \<le> 2 ^ 15" using assms(2) by (rule power_increasing) simp
  define t where "t = (if shr est n > 32767 then 32767 else shr est n)"
  have t: "0 \<le> t" "t \<le> 32767" using assms(1) by (auto simp: t_def)
  then have t: "0 \<le> t" "t \<le> 32767" "s16 t = t" by (simp_all add: s16_id is_s16_def)
  have g: "0 \<le> 16384 - lam" "16384 - lam \<le> 16384" "s16 (16384 - lam) = 16384 - lam"
    using assms(3) by (auto simp: unit_gain_def intro!: s16_id simp: is_s16_def)
  have "(16384 - lam) * t \<le> 16384 * 32767" using g t by (intro mult_mono) auto
  then have "shr ((16384 - lam) * t) 14 < 32768" unfolding shr_less_iff by simp
  moreover have n: "0 \<le> shr ((16384 - lam) * t) 14" using g t by simp
  ultimately have "s16 (shr ((16384 - lam) * t) 14) = shr ((16384 - lam) * t) 14"
    by (intro s16_id) (unfold is_s16_def, linarith)
  moreover have "shl 32767 n \<le> 2 ^ 30" "0 \<le> shl 32767 n" using p by (simp_all add: shl_def)
  moreover from this have "s32 (shl 32767 n) = shl 32767 n" by (intro s32_id) (simp add: is_s32_def)
  moreover have "est \<le> 2 ^ 30" if "\<not> shr est n > 32767"
  proof -
    have "shr est n < 32768" using that by simp
    then have "est < 32768 * 2 ^ n" unfolding shr_less_iff .
    then show ?thesis using p by simp
  qed
  ultimately show ?thesis using assms(1,4) t g n \<open>shr ((16384 - lam) * t) 14 < 32768\<close>
    by (auto simp: noise_level_def Let_def t_def split: if_splits)
qed

lemma noise_index_range: "0 \<le> r \<Longrightarrow> r \<le> 32767 \<Longrightarrow> 0 \<le> noise_index r \<and> noise_index r < 359"
proof -
  assume r: "0 \<le> r" "r \<le> 32767"
  then have "shr (359 * r) 15 < 359" "0 \<le> shr (359 * r) 15" by (simp_all add: shr_less_iff)
  moreover from this have "is_s16 (shr (359 * r) 15)" unfolding is_s16_def by linarith
  ultimately show ?thesis by (simp add: noise_index_def s16_id)
qed

lemma RandU_range: "0 \<le> fst (WebRtcSpl_RandU sd) \<and> fst (WebRtcSpl_RandU sd) \<le> 32767"
proof -
  have "0 \<le> shr (IncreaseSeed sd) 16" "shr (IncreaseSeed sd) 16 < 32768"
    using IncreaseSeed_range [of sd] by (simp_all add: shr_less_iff)
  moreover from this have "s16 (shr (IncreaseSeed sd) 16) = shr (IncreaseSeed sd) 16"
    by (intro s16_id) (unfold is_s16_def, linarith)
  ultimately show ?thesis by (simp add: WebRtcSpl_RandU_def Let_def)
qed

lemma RandUArray_range:
  assumes "list_all (\<lambda>r. 0 \<le> r \<and> r \<le> 32767) v"
  shows "length (fst (WebRtcSpl_RandUArray v n sd)) = length v \<and> list_all (\<lambda>r. 0 \<le> r \<and> r \<le> 32767) (fst (WebRtcSpl_RandUArray v n sd))"
  unfolding WebRtcSpl_RandUArray_def
proof (rule fold_keeps)
  fix i and s :: "int list \<times> int"
  assume "length (fst s) = length v \<and> list_all (\<lambda>r. 0 \<le> r \<and> r \<le> 32767) (fst s)"
  then show "length (fst ((\<lambda>(vector, seed). let (r, seed) = WebRtcSpl_RandU seed in (vector[i := r], seed)) s)) = length v \<and>
      list_all (\<lambda>r. 0 \<le> r \<and> r \<le> 32767) (fst ((\<lambda>(vector, seed). let (r, seed) = WebRtcSpl_RandU seed in (vector[i := r], seed)) s))"
    using RandU_range [of "snd s"] by (auto simp: Let_def split: prod.splits intro!: list_all_update)
qed (use assms in simp)

text \<open>What the noise does not touch.\<close>

definition noise_blank :: "AecmCore \<Rightarrow> AecmCore" where
  "noise_blank a = a\<lparr>noiseEst := [], noiseEstTooLowCtr := [], noiseEstTooHighCtr := [], noiseEstCtr := 0, seed := 0\<rparr>"

lemma estimate_noise_frame: "noise_blank (estimate_noise m n dfa i a) = noise_blank a"
  by (simp add: estimate_noise_def noise_blank_def split: prod.splits)

definition noise_mid :: "AecmCore \<Rightarrow> bool" where
  "noise_mid a \<longleftrightarrow> length (noiseEst a) = 65 \<and> length (noiseEstTooLowCtr a) = 65 \<and> length (noiseEstTooHighCtr a) = 65 \<and>
     (\<forall>i<65. 0 \<le> noiseEst a ! i)"

lemma u16_shift:
  assumes "is_u16 x" "n \<le> 15"
  shows "s32 (shl x n) = shl x n \<and> 0 \<le> shl x n"
proof -
  have "(2::int) ^ n \<le> 2 ^ 15" using assms(2) by (rule power_increasing) simp
  then have "x * 2 ^ n \<le> 65535 * 2 ^ 15" "0 \<le> x * 2 ^ n"
    using assms(1) mult_mono [of x 65535 "2 ^ n" "2 ^ 15"] by (simp_all add: is_u16_def)
  then show ?thesis by (auto simp: shl_def is_s32_def intro!: s32_id)
qed

lemma estimate_noise_list:
  assumes "noise_mid a" and "distinct is" and "set is \<subseteq> {..<65}" and "n \<le> 15"
    and "\<forall>i \<in> set is. noiseEst a ! i \<le> 2 ^ 30" and "length dfa = 65" "list_all is_u16 dfa"
  shows "noise_mid (fold (estimate_noise m n dfa) is a)"
  using assms
proof (induction "is" arbitrary: a)
  case (Cons i xs)
  obtain e l h where t: "track_noise m (s32 (shl (dfa ! i) n)) (noiseEst a ! i, noiseEstTooLowCtr a ! i, noiseEstTooHighCtr a ! i) = (e, l, h)"
    by (rule prod_cases3)
  have "is_u16 (dfa ! i)" using Cons.prems by (auto simp: list_all_length)
  then have "0 \<le> s32 (shl (dfa ! i) n)" using u16_shift [of "dfa ! i" n] Cons.prems(4) by simp
  then have "0 \<le> e" using track_noise_range [OF _ _ _ t] Cons.prems by (auto simp: noise_mid_def)
  then have "noise_mid (estimate_noise m n dfa i a)"
    using Cons.prems(1,3) t by (auto simp: noise_mid_def estimate_noise_def nth_list_update)
  moreover have "noiseEst (estimate_noise m n dfa i a) ! j \<le> 2 ^ 30" if "j \<in> set xs" for j
  proof -
    have "j \<noteq> i" using that Cons.prems(2) by auto
    then show ?thesis using that t Cons.prems(5) by (simp add: estimate_noise_def)
  qed
  ultimately have "noise_mid (fold (estimate_noise m n dfa) xs (estimate_noise m n dfa i a))"
    using Cons.prems by (intro Cons.IH) auto
  then show ?case by simp
qed simp

lemma ComfortNoise_ok:
  assumes "noise_ok a" and "0 \<le> dfaCleanQDomain a" "dfaCleanQDomain a \<le> 15"
    and "length dfa = 65" "list_all is_u16 dfa" and "length lam = 65" "list_all unit_gain lam"
    and "ComfortNoise a dfa out lam = (a', out')"
  shows "noise_ok a' \<and> noise_blank a' = noise_blank a \<and> length out' = 65"
proof -
  define n where "n = nat (s16 (15 - dfaCleanQDomain a))"
  have "is_s16 (15 - dfaCleanQDomain a)" using assms(2,3) by (simp add: is_s16_def)
  then have n: "n \<le> 15" using assms(2,3) by (simp add: n_def s16_id)
  define b m where "b = (if noiseEstCtr a < 100 then a\<lparr>noiseEstCtr := s16 (noiseEstCtr a + 1)\<rparr> else a)"
    and "m = (if noiseEstCtr a < 100 then 6 else (9 :: nat))"
  define c where "c = fold (estimate_noise m n dfa) [0..<65] b"
  have "noise_mid b" using assms(1) by (auto simp: b_def noise_ok_def noise_mid_def list_all_length)
  then have c: "noise_mid c" unfolding c_def using assms(1,4,5) n
    by (intro estimate_noise_list) (auto simp: b_def noise_ok_def list_all_length)
  have "noise_blank (fold (estimate_noise m n dfa) is x) = noise_blank x" for "is" x
    by (induction "is" arbitrary: x) (simp_all add: estimate_noise_frame)
  then have cb: "noise_blank c = noise_blank a" by (simp add: c_def b_def noise_blank_def)
  define lv where "lv = map (\<lambda>i. noise_level n (lam ! i) (noiseEst c ! i)) [0..<65]"
  have "0 \<le> fst (lv ! i) \<and> fst (lv ! i) \<le> 2 ^ 30" if "i < 65" for i
    using noise_level_range [of "noiseEst c ! i" n "lam ! i" "fst (lv ! i)" "snd (lv ! i)"] that c n assms(6,7)
    by (simp add: lv_def noise_mid_def list_all_length)
  then have l: "length (map fst lv) = 65" "list_all (\<lambda>e. 0 \<le> e \<and> e \<le> 2 ^ 30) (map fst lv)"
    by (simp_all add: lv_def list_all_length)
  obtain r sd where r: "WebRtcSpl_RandUArray (replicate 64 0) 64 (seed c) = (r, sd)" by (rule prod.exhaust)
  have bm: "(if noiseEstCtr a < 100 then (a\<lparr>noiseEstCtr := s16 (noiseEstCtr a + 1)\<rparr>, 6) else (a, 9)) = (b, m)"
    by (simp add: b_def m_def)
  have "a' = c\<lparr>noiseEst := map fst lv, seed := sd\<rparr> \<and> length out' = 65"
    using assms(8) r unfolding ComfortNoise_def Let_def bm kNoiseEstQDomain_def n_def [symmetric]
    by (auto simp: c_def lv_def)
  then show ?thesis using l c cb by (auto simp: noise_ok_def noise_mid_def noise_blank_def)
qed

text \<open>
  C38. The noise estimate of every bin stays between 0 and \<open>2 ^ 30\<close> for every sequence of spectra, so that
  neither its slow rise by 2049/2048 nor its shift to the signal's Q-domain overflows; and every random
  index is inside the tables of 360 sines and cosines, at neither end of which it can be read beyond.
\<close>

theorem noise_estimate_bounded:
  assumes "length (noiseEst a) = 65" "list_all (\<lambda>e. 0 \<le> e \<and> e \<le> 2 ^ 30) (noiseEst a)"
    and "length (noiseEstTooLowCtr a) = 65" "length (noiseEstTooHighCtr a) = 65"
    and "0 \<le> dfaCleanQDomain a" "dfaCleanQDomain a \<le> 15" and "length dfa = 65" "list_all is_u16 dfa"
    and "length lam = 65" "list_all (\<lambda>h. 0 \<le> h \<and> h \<le> 16384) lam"
    and "ComfortNoise a dfa out lam = (a', out')" and "WebRtcSpl_RandUArray (replicate 64 0) 64 sd = (rand, sd')"
  shows "list_all (\<lambda>e. 0 \<le> e \<and> e \<le> 2 ^ 30) (noiseEst a') \<and>
    list_all (\<lambda>r. 0 \<le> noise_index r \<and> noise_index r < 359) rand \<and> length WebRtcAecm_kCosTable = 360 \<and> length WebRtcAecm_kSinTable = 360"
proof -
  have "noise_ok a" using assms(1-4) by (simp add: noise_ok_def)
  moreover have "list_all unit_gain lam" using assms(10) by (auto simp: unit_gain_def list_all_iff)
  ultimately have "noise_ok a'" using ComfortNoise_ok assms(5-9,11) by blast
  moreover have "list_all (\<lambda>r. 0 \<le> noise_index r \<and> noise_index r < 359) rand"
    using RandUArray_range [of "replicate 64 0" 64 sd] assms(12) noise_index_range by (auto simp: list_all_iff)
  moreover have "length WebRtcAecm_kCosTable = 360" "length WebRtcAecm_kSinTable = 360"
    by (simp_all add: WebRtcAecm_kCosTable_def WebRtcAecm_kSinTable_def)
  ultimately show ?thesis by (simp add: noise_ok_def)
qed

theorem noise_estimate_bounded_witness:
  "list_all (\<lambda>e. 0 \<le> e \<and> e \<le> 2 ^ 30)
     (noiseEst (fst (ComfortNoise blank_core (replicate 65 70) (replicate 65 (1, 2)) (replicate 65 8192)))) \<and>
   list_all (\<lambda>r. 0 \<le> noise_index r \<and> noise_index r < 359) (fst (WebRtcSpl_RandUArray (replicate 64 0) 64 666))"
  using noise_estimate_bounded [of blank_core "replicate 65 70" "replicate 65 8192" "replicate 65 (1, 2)" _ _ 666 _ _,
      OF _ _ _ _ _ _ _ _ _ _ surjective_pairing surjective_pairing]
  by (simp add: blank_core_def list_all_iff is_u16_def)

section \<open>Spectra\<close>

lemma TimeToFrequencyDomain_ok:
  assumes "TimeToFrequencyDomain a sig = (q, freq, fabs, tot)"
  shows "0 \<le> q \<and> q \<le> 15 \<and> length freq = 65 \<and> length fabs = 65 \<and> list_all is_u16 fabs \<and> is_u32 tot"
proof -
  have "is_u16 (magnitude c)" for c by (simp add: magnitude_def Let_def)
  moreover have "is_u32 (fold (\<lambda>i t. u32 (t + f i)) xs (u32 x))" for f and x and xs :: "nat list"
    by (rule fold_keeps) simp_all
  moreover have "0 \<le> WebRtcSpl_NormW16 (WebRtcSpl_MaxAbsValueW16C sig 128) \<and> WebRtcSpl_NormW16 (WebRtcSpl_MaxAbsValueW16C sig 128) \<le> 15"
    using MaxAbsValueW16C_range [of sig 128] by (intro NormW16_bounds) (simp add: is_s16_def)
  ultimately show ?thesis using assms
    by (auto simp: TimeToFrequencyDomain_def Let_def WindowAndFFT_def list_all_length)
qed

section \<open>The invariant of the core\<close>

definition delay_ok :: "AecmCore \<Rightarrow> bool" where
  "delay_ok a \<longleftrightarrow> (case (delay_estimator_farend a, delay_estimator a) of
     (Some fe, Some de) \<Rightarrow> handles_ok 100 (fe, de) \<and> far_spectrum_size fe = 65 \<and> spectrum_size de = 65
   | _ \<Rightarrow> False) \<and> fixedDelay a < 0"

definition history_ok :: "AecmCore \<Rightarrow> bool" where
  "history_ok a \<longleftrightarrow> length (far_history a) = 6500 \<and> length (far_q_domains a) = 100 \<and>
     list_all (\<lambda>q. 0 \<le> q \<and> q \<le> 15) (far_q_domains a) \<and> far_history_pos a \<le> 100"

definition signals_ok :: "AecmCore \<Rightarrow> bool" where
  "signals_ok a \<longleftrightarrow> length (xBuf a) = 128 \<and> length (dBufNoisy a) = 128 \<and> length (dBufClean a) = 128 \<and> length (outBuf a) = 64 \<and>
     length (echoFilt a) = 65 \<and> length (nearFilt a) = 65 \<and>
     0 \<le> dfaCleanQDomain a \<and> dfaCleanQDomain a \<le> 15 \<and> 0 \<le> dfaNoisyQDomain a \<and> dfaNoisyQDomain a \<le> 15"

definition core_ok :: "AecmCore \<Rightarrow> bool" where
  "core_ok a \<longleftrightarrow> adapt_ok a \<and> noise_ok a \<and> delay_ok a \<and> history_ok a \<and> signals_ok a"

lemmas part_defs = adapt_ok_def chan_ok_def levels_ok_def gain_ok_def mode_gain_def noise_ok_def delay_ok_def history_ok_def signals_ok_def

lemma buffer_block_ok:
  assumes "core_ok a" and "length far = 64" "length noisy = 64" and "\<forall>c. clean = Some c \<longrightarrow> length c = 64"
  shows "core_ok (buffer_block a far noisy clean)"
proof -
  define b where "b = (if startupState a < 2
     then a\<lparr>startupState := (if totCount a \<ge> CONV_LEN then 1 else 0) + (if totCount a \<ge> CONV_LEN2 then 1 else 0)\<rparr> else a)"
  define c where "c = b\<lparr>xBuf := blit (xBuf b) 64 (take 64 far), dBufNoisy := blit (dBufNoisy b) 64 (take 64 noisy)\<rparr>"
  have "core_ok (a\<lparr>startupState := i\<rparr>)" for i using assms(1) by (simp add: core_ok_def part_defs)
  then have "core_ok b" using assms(1) by (simp add: b_def)
  then have "core_ok c" using assms(2,3) by (simp add: c_def core_ok_def part_defs length_blit)
  moreover have "core_ok (c\<lparr>dBufClean := blit (dBufClean c) 64 (take 64 x)\<rparr>)" if "core_ok c" "length x = 64" for x
    using that by (simp add: core_ok_def part_defs length_blit)
  moreover have "buffer_block a far noisy clean =
      (case clean of None \<Rightarrow> c | Some x \<Rightarrow> c\<lparr>dBufClean := blit (dBufClean c) 64 (take 64 x)\<rparr>)"
    unfolding buffer_block_def Let_def b_def [symmetric] c_def ..
  ultimately show ?thesis using assms(4) by (simp split: option.split)
qed

lemma core_ok_domains:
  assumes "core_ok a" and "0 \<le> q" "q \<le> 15" and "0 \<le> r" "r \<le> 15"
  shows "core_ok (a\<lparr>dfaNoisyQDomainOld := x, dfaNoisyQDomain := q, dfaCleanQDomainOld := y, dfaCleanQDomain := r\<rparr>)"
  using assms by (simp add: core_ok_def part_defs)

lemma near_spectra_ok:
  assumes "core_ok a" and "near_spectra a has_clean = (a', dfw, noisy, tot, clean)"
  shows "core_ok a' \<and> length dfw = 65 \<and> length noisy = 65 \<and> list_all is_u16 noisy \<and> is_u32 tot \<and>
    length clean = 65 \<and> list_all is_u16 clean"
proof -
  obtain q1 f1 s1 t1 where n: "TimeToFrequencyDomain a (dBufNoisy a) = (q1, f1, s1, t1)" by (rule prod_cases4)
  define b where "b = a\<lparr>dfaNoisyQDomainOld := dfaNoisyQDomain a, dfaNoisyQDomain := s16 q1\<rparr>"
  obtain q2 f2 s2 t2 where c: "TimeToFrequencyDomain b (dBufClean b) = (q2, f2, s2, t2)" by (rule prod_cases4)
  note r = TimeToFrequencyDomain_ok [OF n] TimeToFrequencyDomain_ok [OF c]
  have q: "s16 q1 = q1" "s16 q2 = q2" using r by (auto intro!: s16_id simp: is_s16_def)
  have e: "(a', dfw, noisy, tot, clean) =
      (if has_clean then (b\<lparr>dfaCleanQDomainOld := dfaCleanQDomain b, dfaCleanQDomain := s16 q2\<rparr>, f2, s1, t1, s2)
       else (b\<lparr>dfaCleanQDomainOld := dfaNoisyQDomainOld b, dfaCleanQDomain := dfaNoisyQDomain b\<rparr>, f1, s1, t1, s1))"
    unfolding assms(2) [symmetric] near_spectra_def n Let_def prod.case b_def [symmetric] c by simp
  have "core_ok (b\<lparr>dfaCleanQDomainOld := y, dfaCleanQDomain := z\<rparr>)" if "0 \<le> z" "z \<le> 15" for y z
    using core_ok_domains [OF assms(1), of q1 z] r that by (simp add: b_def q)
  moreover have "dfaNoisyQDomain b = q1" by (simp add: b_def q)
  ultimately show ?thesis using e r q by (cases has_clean) simp_all
qed

text \<open>The delay stage: it always finds a delay, below the length of the history.\<close>

lemma history_update:
  assumes "history_ok a" and "length sp = 65" and "0 \<le> q" "q \<le> 15"
  shows "history_ok (WebRtcAecm_UpdateFarHistory a sp q) \<and> far_history_pos (WebRtcAecm_UpdateFarHistory a sp q) < 100"
proof -
  define p where "p = (if far_history_pos a + 1 \<ge> 100 then 0 else far_history_pos a + 1)"
  have u: "WebRtcAecm_UpdateFarHistory a sp q = a\<lparr>far_history_pos := p, far_q_domains := (far_q_domains a)[p := q],
      far_history := blit (far_history a) (p * 65) sp\<rparr>"
    using assms(2) by (simp add: WebRtcAecm_UpdateFarHistory_def p_def Let_def)
  have "p < 100" by (simp add: p_def)
  then show ?thesis using assms unfolding u
    by (auto simp: history_ok_def length_blit intro!: list_all_update)
qed

lemma update_history_frame:
  "WebRtcAecm_UpdateFarHistory a sp q = a\<lparr>far_history_pos := far_history_pos (WebRtcAecm_UpdateFarHistory a sp q),
     far_q_domains := far_q_domains (WebRtcAecm_UpdateFarHistory a sp q),
     far_history := far_history (WebRtcAecm_UpdateFarHistory a sp q)\<rparr>"
  by (simp add: WebRtcAecm_UpdateFarHistory_def Let_def)

lemma core_ok_history:
  assumes "core_ok a" and "history_ok (a\<lparr>far_history_pos := p, far_q_domains := d, far_history := h\<rparr>)"
  shows "core_ok (a\<lparr>far_history_pos := p, far_q_domains := d, far_history := h\<rparr>)"
  using assms by (simp add: core_ok_def part_defs)

lemma core_ok_estimators:
  assumes "core_ok a" and "handles_ok 100 (fe, de)" "far_spectrum_size fe = 65" "spectrum_size de = 65"
  shows "core_ok (a\<lparr>delay_estimator_farend := Some fe, delay_estimator := Some de\<rparr>)"
  using assms by (simp add: core_ok_def part_defs)

lemma estimate_delay_ok:
  assumes "core_ok a" and "length xfa = 65" "list_all is_u16 xfa" "0 \<le> q" "q \<le> 15"
    and "length noisy = 65" "list_all is_u16 noisy" "0 \<le> z" "z \<le> 15"
  shows "\<exists>a' d. estimate_delay a xfa q noisy z = Some (a', d) \<and> core_ok a' \<and> 0 \<le> d \<and> d < 100 \<and> far_history_pos a' < 100"
proof -
  define b where "b = WebRtcAecm_UpdateFarHistory a xfa q"
  have h: "history_ok b" "far_history_pos b < 100"
    using history_update [of a xfa q] assms by (simp_all add: b_def core_ok_def)
  then have b: "core_ok b" using core_ok_history [OF assms(1)] update_history_frame [of a xfa q] unfolding b_def by metis
  then obtain fe de where e: "delay_estimator_farend b = Some fe" "delay_estimator b = Some de" "handles_ok 100 (fe, de)"
      "far_spectrum_size fe = 65" "spectrum_size de = 65" "fixedDelay b < 0"
    by (auto simp: core_ok_def delay_ok_def split: option.splits)
  have s: "spectrum_ok xfa" "spectrum_ok noisy" using assms by (simp_all add: spectrum_ok_def)
  obtain fe' where fe': "WebRtc_AddFarSpectrumFix (Some fe) (Some xfa) 65 q = (Some fe', 0)" "farend_ok fe'"
      "far_history_size (binary_farend fe') = 100" "far_spectrum_size fe' = 65"
    using AddFar_ok [of fe xfa q 65] e s(1) assms(4,5) by (auto simp: handles_ok_def)
  obtain de' d where de': "WebRtc_DelayEstimatorProcessFix (binary_farend fe') (Some de) (Some noisy) 65 z = Some (Some de', d)"
      "estimator_ok de'" "history_size (binary_handle de') = 100" "spectrum_size de' = 65" "d = - 2 \<or> 0 \<le> d \<and> d < 100"
    using ProcessFix_ok [of de "binary_farend fe'" noisy z 65] e fe' s(2) assms(8,9)
    by (auto simp: handles_ok_def farend_ok_def)
  define c where "c = b\<lparr>delay_estimator_farend := Some fe', delay_estimator := Some de'\<rparr>"
  have c: "core_ok c" unfolding c_def using fe' de' by (intro core_ok_estimators [OF b]) (simp_all add: handles_ok_def)
  have "estimate_delay a xfa q noisy z = Some (c, if d = - 2 then 0 else d)"
    using e fe' de' by (auto simp: estimate_delay_def Let_def b_def [symmetric] c_def)
  then show ?thesis using c de' h(2) by (auto simp: c_def)
qed

end
