(* ===== verification/Aecm_Process.thy ===== *)
theory Aecm_Process
  imports Aecm_Block_Inv
begin

unbundle bit_operations_syntax

text \<open>
  A block never fails: from a state that satisfies the invariant of the core, \<open>ProcessBlock\<close> returns 0
  with 64 samples, keeps the invariant, and leaves the buffers between frames and blocks alone. \<open>InitCore\<close>
  establishes the invariant.
\<close>

section \<open>What the stages leave alone\<close>

text \<open>The stages of a block change disjoint groups of fields; each group is blanked by one function.\<close>

definition adapt_blank :: "AecmCore \<Rightarrow> AecmCore" where
  "adapt_blank a = (channels_blank a)\<lparr>nearLogEnergy := [], farLogEnergy := 0, echoAdaptLogEnergy := [], echoStoredLogEnergy := [],
     farEnergyMin := 0, farEnergyMax := 0, farEnergyMaxMin := 0, farEnergyVAD := 0, farEnergyMSE := 0, currentVADValue := 0,
     vadUpdateCount := 0, firstVAD := 0, supGain := 0, supGainOld := 0, totCount := 0\<rparr>"

definition filter_blank :: "AecmCore \<Rightarrow> AecmCore" where
  "filter_blank a = a\<lparr>echoFilt := [], nearFilt := []\<rparr>"

definition signal_blank :: "AecmCore \<Rightarrow> AecmCore" where
  "signal_blank a = a\<lparr>outBuf := [], xBuf := [], dBufNoisy := [], dBufClean := []\<rparr>"

text \<open>The buffers between the frames and the blocks, and the sample rate.\<close>

definition frame_view ::
    "AecmCore \<Rightarrow> int ring_buffer \<times> int ring_buffer \<times> int ring_buffer \<times> int ring_buffer \<times> int list \<times> nat \<times> int \<times> int \<times> int \<times> int" where
  "frame_view a = (farFrameBuf a, nearNoisyFrameBuf a, nearCleanFrameBuf a, outFrameBuf a, farBuf a, farBufWritePos a,
     farBufReadPos a, knownDelay a, lastKnownDelay a, mult a)"

lemma view_blank:
  "frame_view (channels_blank a) = frame_view a" "frame_view (adapt_blank a) = frame_view a"
  "frame_view (filter_blank a) = frame_view a" "frame_view (signal_blank a) = frame_view a"
  "frame_view (noise_blank a) = frame_view a"
  by (simp_all add: frame_view_def channels_blank_def adapt_blank_def filter_blank_def signal_blank_def noise_blank_def)

lemma parts_blank:
  "noise_ok (adapt_blank a) = noise_ok a" "delay_ok (adapt_blank a) = delay_ok a"
  "history_ok (adapt_blank a) = history_ok a" "signals_ok (adapt_blank a) = signals_ok a"
  "adapt_ok (noise_blank a) = adapt_ok a" "delay_ok (noise_blank a) = delay_ok a"
  "history_ok (noise_blank a) = history_ok a" "signals_ok (noise_blank a) = signals_ok a"
  "adapt_ok (filter_blank a) = adapt_ok a" "delay_ok (filter_blank a) = delay_ok a"
  "history_ok (filter_blank a) = history_ok a" "noise_ok (filter_blank a) = noise_ok a"
  "adapt_ok (signal_blank a) = adapt_ok a" "delay_ok (signal_blank a) = delay_ok a"
  "history_ok (signal_blank a) = history_ok a" "noise_ok (signal_blank a) = noise_ok a"
  by (simp_all add: part_defs adapt_blank_def channels_blank_def filter_blank_def signal_blank_def noise_blank_def)

lemma same_via: "f b = f a \<Longrightarrow> (\<And>x. g (f x) = g x) \<Longrightarrow> g b = g a"
  by metis

lemma adapted_ok: "adapt_blank b = adapt_blank a \<Longrightarrow> core_ok a \<Longrightarrow> adapt_ok b \<Longrightarrow> core_ok b \<and> frame_view b = frame_view a"
  using same_via [of adapt_blank b a "\<lambda>x. (noise_ok x, delay_ok x, history_ok x, signals_ok x, frame_view x)"]
  by (simp add: parts_blank view_blank core_ok_def)

lemma noised_ok: "noise_blank b = noise_blank a \<Longrightarrow> core_ok a \<Longrightarrow> noise_ok b \<Longrightarrow> core_ok b \<and> frame_view b = frame_view a"
  using same_via [of noise_blank b a "\<lambda>x. (adapt_ok x, delay_ok x, history_ok x, signals_ok x, frame_view x)"]
  by (simp add: parts_blank view_blank core_ok_def)

lemma filtered_ok: "filter_blank b = filter_blank a \<Longrightarrow> core_ok a \<Longrightarrow> signals_ok b \<Longrightarrow> core_ok b \<and> frame_view b = frame_view a"
  using same_via [of filter_blank b a "\<lambda>x. (adapt_ok x, delay_ok x, history_ok x, noise_ok x, frame_view x)"]
  by (simp add: parts_blank view_blank core_ok_def)

lemma signalled_ok: "signal_blank b = signal_blank a \<Longrightarrow> core_ok a \<Longrightarrow> signals_ok b \<Longrightarrow> core_ok b \<and> frame_view b = frame_view a"
  using same_via [of signal_blank b a "\<lambda>x. (adapt_ok x, delay_ok x, history_ok x, noise_ok x, frame_view x)"]
  by (simp add: parts_blank view_blank core_ok_def)

section \<open>The stages\<close>

lemma buffer_block_view: "frame_view (buffer_block a far noisy clean) = frame_view a"
  by (simp add: frame_view_def buffer_block_def Let_def split: option.splits)

lemma near_spectra_view: "near_spectra a c = (a', dfw, noisy, tot, clean) \<Longrightarrow> frame_view a' = frame_view a"
  by (auto simp: near_spectra_def frame_view_def Let_def split: prod.splits if_splits)

lemma estimate_delay_view: "estimate_delay a xfa q noisy z = Some (a', d) \<Longrightarrow> frame_view a' = frame_view a"
  by (auto simp: estimate_delay_def frame_view_def Let_def WebRtcAecm_UpdateFarHistory_def split: prod.splits if_splits option.splits)

lemma adapt_blank_levels:
  "adapt_blank (update_far_levels a) = adapt_blank a" "adapt_blank (update_vad a) = adapt_blank a"
  "adapt_blank (scale_first_channel a) = adapt_blank a"
  by (simp_all add: adapt_blank_def channels_blank_def update_far_levels_def update_vad_def scale_first_channel_def split_def Let_def)

lemma calc_energies_blank:
  assumes "WebRtcAecm_CalcEnergies a far q ener echo = (a', e')"
  shows "adapt_blank a' = adapt_blank a"
proof -
  have n: "adapt_blank (b\<lparr>nearLogEnergy := x\<rparr>) = adapt_blank b"
    "adapt_blank (b\<lparr>farLogEnergy := l, echoAdaptLogEnergy := y, echoStoredLogEnergy := z\<rparr>) = adapt_blank b" for b x l y z
    by (simp_all add: adapt_blank_def channels_blank_def)
  show ?thesis using assms unfolding WebRtcAecm_CalcEnergies_def Let_def
    by (auto simp: adapt_blank_levels n split: prod.splits if_splits)
qed

lemma adapt_blank_channels: "channels_blank b = channels_blank a \<Longrightarrow> adapt_blank b = adapt_blank a"
  by (simp add: adapt_blank_def)

lemma adapt_block_ok:
  assumes "core_ok a" and "0 \<le> q" "q \<le> 15" and "is_u32 ener" and "adapt_block a far q dfa ener = (a', echo, g)"
  shows "core_ok a' \<and> frame_view a' = frame_view a \<and> length echo = 65"
proof -
  obtain b e1 where b: "WebRtcAecm_CalcEnergies a far q ener (replicate 65 0) = (b, e1)" by (rule prod.exhaust)
  define c where "c = b\<lparr>totCount := u32 (totCount b + 1)\<rparr>"
  obtain d e2 where d: "WebRtcAecm_UpdateChannel c far q dfa (WebRtcAecm_CalcStepSize b) e1 = (d, e2)" by (rule prod.exhaust)
  obtain f h where f: "WebRtcAecm_CalcSuppressionGain d = (f, h)" by (rule prod.exhaust)
  have e: "a' = f" "echo = e2"
    using assms(5) b d f by (simp_all add: adapt_block_def Let_def c_def)
  have "adapt_ok b \<and> length e1 = 65"
    by (rule calc_energies_ok [OF _ assms(2,3) _ _ assms(4) _ b]) (use assms(1) in \<open>simp_all add: core_ok_def signals_ok_def\<close>)
  then have c: "adapt_ok c" "length e1 = 65" by (simp_all add: c_def part_defs)
  note d2 = update_channel_adapt [OF c(1) d]
  note f2 = suppression_gain_ok [OF conjunct1 [OF d2] f]
  have "adapt_blank f = adapt_blank d" using f
    by (auto simp: WebRtcAecm_CalcSuppressionGain_def Let_def adapt_blank_def channels_blank_def)
  also have "adapt_blank d = adapt_blank c"
    using update_channel_ok [OF _ d] c(1) by (intro adapt_blank_channels) (simp add: adapt_ok_def)
  also have "adapt_blank c = adapt_blank b" by (simp add: c_def adapt_blank_def channels_blank_def)
  also have "adapt_blank b = adapt_blank a" by (rule calc_energies_blank [OF b])
  finally show ?thesis using adapted_ok [of f a] assms(1) f2 d2 c(2) by (simp add: e)
qed

lemma wiener_bin_frame:
  "filter_blank (fst (wiener_bin g z dfa echo i s)) = filter_blank (fst s) \<and>
   length (echoFilt (fst (wiener_bin g z dfa echo i s))) = length (echoFilt (fst s)) \<and>
   length (nearFilt (fst (wiener_bin g z dfa echo i s))) = length (nearFilt (fst s))"
  by (simp add: wiener_bin_def filter_blank_def Let_def split: prod.splits)

lemma block_gains_ok:
  assumes "core_ok a" and "block_gains a echo g z dfa = (a', hnl)"
  shows "core_ok a' \<and> frame_view a' = frame_view a"
proof -
  define s where "s = fold (wiener_bin g z dfa echo) [0..<65] (a, replicate 65 0, 0)"
  have "filter_blank (fst s) = filter_blank a \<and> length (echoFilt (fst s)) = length (echoFilt a) \<and>
      length (nearFilt (fst s)) = length (nearFilt a)"
    unfolding s_def by (rule fold_keeps) (simp_all add: wiener_bin_frame)
  moreover have "a' = fst s" using assms(2) by (auto simp: block_gains_def s_def Let_def split: prod.splits)
  moreover have "signals_ok b" if "filter_blank b = filter_blank a" "length (echoFilt b) = length (echoFilt a)"
      "length (nearFilt b) = length (nearFilt a)" for b
    using that assms(1) same_via [of filter_blank b a "\<lambda>x. (xBuf x, dBufNoisy x, dBufClean x, outBuf x, dfaCleanQDomain x, dfaNoisyQDomain x)"]
    by (simp add: filter_blank_def core_ok_def signals_ok_def)
  ultimately show ?thesis using filtered_ok assms(1) by blast
qed

lemma inverse_fft_ok:
  assumes "core_ok a" and "InverseFFTAndWindow a efw c = (a', out)"
  shows "core_ok a' \<and> frame_view a' = frame_view a \<and> length out = 64 \<and> list_all is_s16 out"
proof -
  have "signal_blank a' = signal_blank a" using assms(2)
    by (auto simp: InverseFFTAndWindow_def Let_def signal_blank_def split: prod.splits)
  moreover have "signals_ok a'" using assms
    by (auto simp: InverseFFTAndWindow_def Let_def core_ok_def signals_ok_def length_blit split: prod.splits)
  moreover have "length out = 64 \<and> list_all is_s16 out" using assms(2)
    by (auto simp: InverseFFTAndWindow_def Let_def list_all_length split: prod.splits)
  ultimately show ?thesis using signalled_ok assms(1) by blast
qed

lemma comfort_noise_core:
  assumes "core_ok a" and "length dfa = 65" "list_all is_u16 dfa" and "length lam = 65" "list_all unit_gain lam"
    and "ComfortNoise a dfa out lam = (a', out')"
  shows "core_ok a' \<and> frame_view a' = frame_view a"
proof -
  have "noise_ok a' \<and> noise_blank a' = noise_blank a \<and> length out' = 65"
    by (rule ComfortNoise_ok [OF _ _ _ assms(2-6)]) (use assms(1) in \<open>simp_all add: core_ok_def signals_ok_def\<close>)
  then show ?thesis using noised_ok assms(1) by blast
qed

section \<open>The block\<close>

lemma aligned_domain:
  assumes "history_ok a" and "far_history_pos a < 100" and "0 \<le> d" "d < 100" and "WebRtcAecm_AlignedFarend a d = (q, sp)"
  shows "0 \<le> q \<and> q \<le> 15 \<and> s16 q = q"
proof -
  define b where "b = nat (if int (far_history_pos a) - d < 0 then int (far_history_pos a) - d + 100 else int (far_history_pos a) - d)"
  have "b < 100" using assms(2-4) by (auto simp: b_def)
  moreover have "q = far_q_domains a ! b" using assms(5) by (auto simp: WebRtcAecm_AlignedFarend_def Let_def b_def)
  ultimately have "0 \<le> q" "q \<le> 15" using assms(1) by (simp_all add: history_ok_def list_all_length)
  then show ?thesis by (auto intro!: s16_id simp: is_s16_def)
qed

lemma process_block_ok:
  assumes "core_ok a" and "length far = 64" "length noisy = 64" and "\<forall>c. clean = Some c \<longrightarrow> length c = 64" and "length out = 64"
  shows "\<exists>a' out'. WebRtcAecm_ProcessBlock a far noisy clean out = Some (a', out', 0) \<and> core_ok a' \<and>
    frame_view a' = frame_view a \<and> length out' = 64 \<and> list_all is_s16 out'"
proof -
  define a1 where "a1 = buffer_block a far noisy clean"
  have a1: "core_ok a1" "frame_view a1 = frame_view a"
    using buffer_block_ok [OF assms(1-4)] by (simp_all add: a1_def buffer_block_view)
  obtain q1 f1 xfa s1 where t: "TimeToFrequencyDomain a1 (xBuf a1) = (q1, f1, xfa, s1)" by (rule prod_cases4)
  note t2 = TimeToFrequencyDomain_ok [OF t]
  obtain a2 dfw dn tot dc where n: "near_spectra a1 (clean \<noteq> None) = (a2, dfw, dn, tot, dc)" by (rule prod_cases5)
  note n2 = near_spectra_ok [OF a1(1) n] near_spectra_view [OF n]
  have z: "0 \<le> dfaNoisyQDomain a2" "dfaNoisyQDomain a2 \<le> 15" using n2(1) by (simp_all add: core_ok_def signals_ok_def)
  obtain a3 d where e: "estimate_delay a2 xfa q1 dn (dfaNoisyQDomain a2) = Some (a3, d)" "core_ok a3" "0 \<le> d" "d < 100"
      "far_history_pos a3 < 100"
    using estimate_delay_ok [of a2 xfa q1 dn "dfaNoisyQDomain a2"] n2(1) t2 z by blast
  note e2 = estimate_delay_view [OF e(1)]
  obtain q sp where al: "WebRtcAecm_AlignedFarend a3 d = (q, sp)" by (rule prod.exhaust)
  have q: "0 \<le> q \<and> q \<le> 15 \<and> s16 q = q" using aligned_domain [OF _ e(5,3,4) al] e(2) by (simp add: core_ok_def)
  obtain a4 echo g where ad: "adapt_block a3 sp q dn tot = (a4, echo, g)" by (rule prod_cases3)
  have ad2: "core_ok a4 \<and> frame_view a4 = frame_view a3 \<and> length echo = 65"
    using adapt_block_ok [OF e(2) _ _ _ ad] q n2(1) by blast
  obtain a5 hnl where b: "block_gains a4 echo g q dc = (a5, hnl)" by (rule prod.exhaust)
  note b2 = block_gains_ok [OF conjunct1 [OF ad2] b] block_gains_unit [OF b]
  obtain a6 efw where c: "(if cngMode a5 = AecmTrue then ComfortNoise a5 dc (apply_gain dfw hnl) hnl else (a5, apply_gain dfw hnl)) = (a6, efw)"
    by (rule prod.exhaust)
  have c2: "core_ok a6 \<and> frame_view a6 = frame_view a5"
    using c comfort_noise_core [of a5 dc hnl "apply_gain dfw hnl" a6 efw] b2 n2(1) by (auto split: if_splits)
  obtain a7 ob where i: "InverseFFTAndWindow a6 efw (clean \<noteq> None) = (a7, ob)" by (rule prod.exhaust)
  note i2 = inverse_fft_ok [OF conjunct1 [OF c2] i]
  have "WebRtcAecm_ProcessBlock a far noisy clean out = Some (a7, ob, 0)"
    using t n e(1,3) al ad b c i i2 assms(5) q
    unfolding WebRtcAecm_ProcessBlock_def Let_def a1_def [symmetric] t n prod.case
    by (simp add: blit_whole)
  then show ?thesis using i2 c2 b2 ad2 e2 n2 a1 by simp
qed

section \<open>Initialisation\<close>

text \<open>The sizes of the arrays inside the struct, whatever they contain.\<close>

definition memory_ok :: "AecmCore \<Rightarrow> bool" where
  "memory_ok a \<longleftrightarrow> length (farBuf a) = 256 \<and> length (channelStored a) = 65 \<and> length (channelAdapt16 a) = 65 \<and>
     length (noiseEst a) = 65 \<and> length (data (farFrameBuf a)) = 144 \<and> length (data (nearNoisyFrameBuf a)) = 144 \<and>
     length (data (nearCleanFrameBuf a)) = 144 \<and> length (data (outFrameBuf a)) = 144"

text \<open>The first loop over the noise leaves the squares of 65, 64, ... in Q8.\<close>

lemma init_noise_squares:
  assumes "length noise = 65" and "k \<le> 31"
  shows "\<exists>n. fold (\<lambda>i (noise, tmp32, tmp16).
        let noise = noise[i := s32 (shl tmp32 8)]; tmp16 = s16 (tmp16 - 1)
        in (noise, s32 (tmp32 - (shl tmp16 1 + 1)), tmp16)) [0..<k] (noise, 4225, 65) =
      (n, (65 - int k) * (65 - int k), 65 - int k) \<and> length n = 65 \<and> (\<forall>i<k. 0 \<le> n ! i \<and> n ! i \<le> 2 ^ 30)"
  using assms(2)
proof (induction k)
  case 0
  then show ?case using assms(1) by simp
next
  case (Suc k)
  then obtain n where n: "fold (\<lambda>i (noise, tmp32, tmp16).
        let noise = noise[i := s32 (shl tmp32 8)]; tmp16 = s16 (tmp16 - 1)
        in (noise, s32 (tmp32 - (shl tmp16 1 + 1)), tmp16)) [0..<k] (noise, 4225, 65) =
      (n, (65 - int k) * (65 - int k), 65 - int k)" "length n = 65" "\<forall>i<k. 0 \<le> n ! i \<and> n ! i \<le> 2 ^ 30"
    by auto
  define m where "m = 65 - int k"
  have m: "34 \<le> m" "m \<le> 65" using Suc.prems by (simp_all add: m_def)
  define q where "q = m * m"
  have "m * m \<le> 65 * 65" using m by (intro mult_mono) simp_all
  then have q: "0 \<le> q" "q \<le> 4225" by (simp_all add: q_def)
  then have r: "is_s32 (m * m * 256)" "is_s32 (m * m - (2 * (m - 1) + 1))" "is_s16 (m - 1)"
    using m unfolding q_def [symmetric] by (simp_all add: is_s32_def is_s16_def)
  have sh: "shl (m * m) 8 = m * m * 256" "shl (m - 1) 1 = 2 * (m - 1)" by (simp_all add: shl_def)
  have sq: "s32 (shl (m * m) 8) = m * m * 256" "s32 (m * m - (shl (m - 1) 1 + 1)) = m * m - (2 * (m - 1) + 1)" "s16 (m - 1) = m - 1"
    unfolding sh by (rule s32_id [OF r(1)] s32_id [OF r(2)] s16_id [OF r(3)])+
  have "m * m - (2 * (m - 1) + 1) = (m - 1) * (m - 1)" by (simp add: algebra_simps)
  moreover have "(n[k := m * m * 256]) ! i \<ge> 0 \<and> (n[k := m * m * 256]) ! i \<le> 2 ^ 30" if "i < Suc k" for i
    using that n(2,3) q Suc.prems unfolding q_def by (cases "i = k") simp_all
  ultimately show ?case using n sq by (auto simp: m_def Let_def)
qed

lemma fold_update_const:
  "length xs = 65 \<Longrightarrow> m \<le> 65 \<Longrightarrow> length (fold (\<lambda>i xs. xs[i := c]) [k..<m] xs) = 65 \<and>
     (\<forall>i<65. fold (\<lambda>i xs. xs[i := c]) [k..<m] xs ! i = (if k \<le> i \<and> i < m then c else xs ! i))"
  by (induction m) (auto simp: nth_list_update)

lemma init_noise_ok:
  assumes "length noise = 65"
  shows "length (init_noise noise) = 65 \<and> list_all (\<lambda>e. 0 \<le> e \<and> e \<le> 2 ^ 30) (init_noise noise)"
proof -
  obtain n where n: "fold (\<lambda>i (noise, tmp32, tmp16).
        let noise = noise[i := s32 (shl tmp32 8)]; tmp16 = s16 (tmp16 - 1)
        in (noise, s32 (tmp32 - (shl tmp16 1 + 1)), tmp16)) [0..<31] (noise, 4225, 65) =
      (n, 34 * 34, 34)" "length n = 65" "\<forall>i<31. 0 \<le> n ! i \<and> n ! i \<le> 2 ^ 30"
    using init_noise_squares [OF assms, of 31] by auto
  have "init_noise noise = fold (\<lambda>i xs. xs[i := s32 (shl (34 * 34) 8)]) [31..<65] n"
    using n(1) by (simp add: init_noise_def Let_def del: upt_Suc upt_rec_numeral)
  moreover have "s32 (shl (34 * 34) 8) = 295936" by (simp add: shl_def s32_id is_s32_def)
  ultimately show ?thesis using fold_update_const [OF n(2), of 65 295936 31] n(3)
    by (auto simp: list_all_length simp del: upt_Suc upt_rec_numeral)
qed

lemma init_channels:
  "length kChannelStored8kHz = 65 \<and> list_all (\<lambda>c. 0 \<le> c \<and> c \<le> 32767) kChannelStored8kHz"
  "length kChannelStored16kHz = 65 \<and> list_all (\<lambda>c. 0 \<le> c \<and> c \<le> 32767) kChannelStored16kHz"
  by (simp_all add: kChannelStored8kHz_def kChannelStored16kHz_def)

lemma init_echo_path_chan:
  assumes "length (channelStored a) = 65" "length (channelAdapt16 a) = 65"
    and "length path = 65" "list_all (\<lambda>c. 0 \<le> c \<and> c \<le> 32767) path"
  shows "chan_ok (WebRtcAecm_InitEchoPathCore a path)"
proof -
  have v: "0 \<le> s32 (shl c 16) \<and> s32 (shl c 16) \<le> 2147483647" if "0 \<le> c" "c \<le> 32767" for c
    using that by (simp add: shl_def s32_id is_s32_def)
  have "\<forall>n < 65. 0 \<le> s32 (shl (path ! n) 16) \<and> s32 (shl (path ! n) 16) \<le> 2147483647"
    using assms(3,4) v by (simp add: list_all_length)
  then show ?thesis using assms by (simp add: WebRtcAecm_InitEchoPathCore_def chan_ok_def blit_whole list_all_length)
qed

text \<open>The buffers between frames and blocks, with the elements they hold.\<close>

definition frames_hold :: "AecmCore \<Rightarrow> int list \<Rightarrow> int list \<Rightarrow> nat \<Rightarrow> nat \<Rightarrow> bool" where
  "frames_hold a F N c out \<longleftrightarrow>
     rb_ok (farFrameBuf a) \<and> element_count (farFrameBuf a) = 144 \<and> queue (farFrameBuf a) = F \<and>
     rb_ok (nearNoisyFrameBuf a) \<and> element_count (nearNoisyFrameBuf a) = 144 \<and> queue (nearNoisyFrameBuf a) = N \<and>
     rb_ok (nearCleanFrameBuf a) \<and> element_count (nearCleanFrameBuf a) = 144 \<and> length (queue (nearCleanFrameBuf a)) = c \<and>
     rb_ok (outFrameBuf a) \<and> element_count (outFrameBuf a) = 144 \<and> length (queue (outFrameBuf a)) = out"

lemma create_core:
  assumes "WebRtcAecm_CreateCore ok junk = Some a" and "memory_ok junk"
  shows "memory_ok a \<and> element_count (farFrameBuf a) = 144 \<and> element_count (nearNoisyFrameBuf a) = 144 \<and>
    element_count (nearCleanFrameBuf a) = 144 \<and> element_count (outFrameBuf a) = 144 \<and>
    (\<exists>fe de. WebRtc_CreateDelayEstimatorFarend (ok 8) [ok 9, ok 10, ok 11] (ok 12) blank_farend 65 100 = Some fe \<and>
       WebRtc_CreateDelayEstimator (ok 13) (ok 14) (ok 15) [ok 16, ok 17, ok 18, ok 19, ok 20] (ok 21) blank_handle (Some fe) 0 = Some de \<and>
       delay_estimator_farend a = Some fe \<and> delay_estimator a = fst (WebRtc_enable_robust_validation (Some de) 0))"
  using assms
  by (auto simp: WebRtcAecm_CreateCore_def memory_ok_def WebRtc_CreateBuffer_def WebRtc_InitBuffer_def split: option.splits if_splits)

text \<open>The state that \<open>InitCore\<close> leaves.\<close>

lemma init_core_ok:
  assumes "WebRtcAecm_CreateCore ok junk = Some a0" and "memory_ok junk" and "WebRtcAecm_InitCore a0 fs = (a, 0)"
  shows "core_ok a" and "frames_hold a [] [] 0 0" and "far_rep a []" and "knownDelay a = 0"
proof -
  note c = create_core [OF assms(1,2)]
  then obtain fe0 de0 where h: "WebRtc_CreateDelayEstimatorFarend (ok 8) [ok 9, ok 10, ok 11] (ok 12) blank_farend 65 100 = Some fe0"
      "WebRtc_CreateDelayEstimator (ok 13) (ok 14) (ok 15) [ok 16, ok 17, ok 18, ok 19, ok 20] (ok 21) blank_handle (Some fe0) 0 = Some de0"
      "delay_estimator_farend a0 = Some fe0" "delay_estimator a0 = fst (WebRtc_enable_robust_validation (Some de0) 0)"
    by blast
  obtain fe where fe: "WebRtc_InitDelayEstimatorFarend (Some fe0) = (Some fe, 0)" by (simp add: WebRtc_InitDelayEstimatorFarend_def)
  obtain de where de: "WebRtc_InitDelayEstimator (delay_estimator a0) = (Some de, 0)"
    using h(4) by (simp add: WebRtc_InitDelayEstimator_def WebRtc_enable_robust_validation_def)
  have hs: "handles_ok 100 (fe, de) \<and> far_spectrum_size fe = 65 \<and> spectrum_size de = 65"
    using create_handles_ok [OF h(1) _ h(2) fe de [unfolded h(4)]] by simp
  define b where "b = init_history (init_buffers (a0\<lparr>mult := s16 (cdiv (s16 fs) 8000)\<rparr>)\<lparr>delay_estimator_farend := Some fe, delay_estimator := Some de\<rparr>)"
  define path where "path = (if fs = 8000 then kChannelStored8kHz else kChannelStored16kHz)"
  have a: "a = init_levels (init_filters (WebRtcAecm_InitEchoPathCore b path))"
    using assms(3) h(3) fe de unfolding WebRtcAecm_InitCore_def Let_def b_def path_def
    by (auto simp: init_buffers_def split: if_splits)
  have m: "memory_ok a0" using c by simp
  have p: "length path = 65" "list_all (\<lambda>c. 0 \<le> c \<and> c \<le> 32767) path" using init_channels by (simp_all add: path_def)
  have "chan_ok (WebRtcAecm_InitEchoPathCore b path)"
    using m p by (intro init_echo_path_chan) (simp_all add: b_def init_history_def init_buffers_def memory_ok_def)
  then have "chan_ok a" by (simp add: a chan_ok_def init_levels_def init_filters_def)
  moreover have "levels_ok a" by (simp add: a levels_ok_def init_levels_def init_filters_def WebRtcAecm_InitEchoPathCore_def b_def init_history_def is_s16_def)
  moreover have "gain_ok a" by (simp add: a gain_ok_def mode_gain_def init_levels_def)
  moreover have "energy_ok (nearLogEnergy a) \<and> energy_ok (echoAdaptLogEnergy a) \<and> energy_ok (echoStoredLogEnergy a)"
    by (simp add: a energy_ok_def init_levels_def init_filters_def WebRtcAecm_InitEchoPathCore_def b_def init_history_def list_all_iff)
  moreover have "noise_ok a"
    using init_noise_ok [of "noiseEst a0"] m
    by (simp add: a noise_ok_def init_levels_def init_filters_def WebRtcAecm_InitEchoPathCore_def b_def init_history_def init_buffers_def memory_ok_def)
  moreover have "delay_ok a" using hs
    by (simp add: a delay_ok_def init_levels_def init_filters_def WebRtcAecm_InitEchoPathCore_def b_def init_history_def)
  moreover have "history_ok a"
    by (simp add: a history_ok_def init_levels_def init_filters_def WebRtcAecm_InitEchoPathCore_def b_def init_history_def list_all_iff)
  moreover have "signals_ok a"
    by (simp add: a signals_ok_def init_levels_def init_filters_def WebRtcAecm_InitEchoPathCore_def b_def init_history_def init_buffers_def)
  ultimately show "core_ok a" by (simp add: core_ok_def adapt_ok_def)
  show "frames_hold a [] [] 0 0" using c m
    by (simp add: a frames_hold_def init_levels_def init_filters_def WebRtcAecm_InitEchoPathCore_def b_def init_history_def init_buffers_def
        InitBuffer_ok queue_init memory_ok_def)
  show "far_rep a []" using InitCore_farend [OF assms(3)] m by (simp add: memory_ok_def)
  show "knownDelay a = 0"
    by (simp add: a init_levels_def init_filters_def WebRtcAecm_InitEchoPathCore_def b_def init_history_def init_buffers_def)
qed

section \<open>Sequences of blocks\<close>

fun run_blocks :: "AecmCore \<Rightarrow> (int list \<times> int list \<times> int list option) list \<Rightarrow> (AecmCore \<times> (int list \<times> int) list) option" where
  "run_blocks a [] = Some (a, [])"
| "run_blocks a ((far, noisy, clean) # bs) =
     (case WebRtcAecm_ProcessBlock a far noisy clean (replicate 64 0) of None \<Rightarrow> None
      | Some (a, out, r) \<Rightarrow> (case run_blocks a bs of None \<Rightarrow> None | Some (a, outs) \<Rightarrow> Some (a, (out, r) # outs)))"

fun block_ok :: "int list \<times> int list \<times> int list option \<Rightarrow> bool" where
  "block_ok (far, noisy, clean) \<longleftrightarrow> length far = 64 \<and> length noisy = 64 \<and> (case clean of None \<Rightarrow> True | Some c \<Rightarrow> length c = 64)"

lemma run_blocks_ok:
  assumes "core_ok a" and "list_all block_ok bs"
  shows "\<exists>a' outs. run_blocks a bs = Some (a', outs) \<and> core_ok a' \<and> length outs = length bs \<and>
    list_all (\<lambda>(out, r). r = 0 \<and> length out = 64 \<and> list_all is_s16 out) outs"
  using assms
proof (induction bs arbitrary: a)
  case (Cons b bs)
  obtain far noisy clean where b: "b = (far, noisy, clean)" by (rule prod_cases3)
  have bl: "length far = 64" "length noisy = 64" "\<forall>c. clean = Some c \<longrightarrow> length c = 64"
    using Cons.prems(2) b by (auto split: option.splits)
  obtain a1 out where p: "WebRtcAecm_ProcessBlock a far noisy clean (replicate 64 0) = Some (a1, out, 0)" "core_ok a1"
      "length out = 64" "list_all is_s16 out"
    using process_block_ok [OF Cons.prems(1) bl, of "replicate 64 0"] by auto
  obtain a2 outs where r: "run_blocks a1 bs = Some (a2, outs)" "core_ok a2" "length outs = length bs"
      "list_all (\<lambda>(out, r). r = 0 \<and> length out = 64 \<and> list_all is_s16 out) outs"
    using Cons.IH [OF p(2)] Cons.prems(2) by auto
  show ?case using b p r by simp
qed simp

text \<open>
  After its creation and initialisation the core processes every sequence of blocks of far and near
  end, each with or without a clean near end, without leaving an array: every \<open>ProcessBlock\<close> returns 0 and
  64 samples of 16 bits.
\<close>

theorem blocks_never_fail:
  assumes "WebRtcAecm_CreateCore ok junk = Some a0" and "memory_ok junk" and "WebRtcAecm_InitCore a0 fs = (a, 0)"
    and "list_all block_ok bs"
  shows "\<exists>a' outs. run_blocks a bs = Some (a', outs) \<and> core_ok a' \<and> length outs = length bs \<and>
    list_all (\<lambda>(out, r). r = 0 \<and> length out = 64 \<and> list_all is_s16 out) outs"
  using run_blocks_ok [OF init_core_ok(1) [OF assms(1-3)] assms(4)] .

lemma create_succeeds: "\<exists>a. WebRtcAecm_CreateCore (\<lambda>_. True) blank_core = Some a"
  by (simp add: WebRtcAecm_CreateCore_def WebRtc_CreateBuffer_def WebRtc_CreateDelayEstimatorFarend_def
      WebRtc_CreateBinaryDelayEstimatorFarend_def WebRtc_AllocateFarendBufferMemory_def kBandLast_def
      WebRtc_CreateDelayEstimator_def WebRtc_CreateBinaryDelayEstimator_def WebRtc_AllocateHistoryBufferMemory_def
      WebRtcSpl_CreateRealFFT_def kMaxFFTOrder_def Let_def)

lemma init_succeeds:
  assumes "fs = 8000 \<or> fs = 16000"
  obtains a0 a where "WebRtcAecm_CreateCore (\<lambda>_. True) blank_core = Some a0" "memory_ok blank_core"
    "WebRtcAecm_InitCore a0 fs = (a, 0)"
proof -
  have m: "memory_ok blank_core" by (simp add: memory_ok_def blank_core_def blank_ring_buffer_def)
  obtain a0 where a0: "WebRtcAecm_CreateCore (\<lambda>_. True) blank_core = Some a0" using create_succeeds by blast
  from create_core [OF a0 m] obtain fe de where "delay_estimator_farend a0 = Some fe" "delay_estimator a0 = Some de"
    by (auto simp: WebRtc_enable_robust_validation_def)
  then obtain a where "WebRtcAecm_InitCore a0 fs = (a, 0)" using InitCore_succeeds [OF assms] by blast
  then show ?thesis using that a0 m by blast
qed

theorem blocks_never_fail_witness:
  "\<exists>a0 a a' outs. WebRtcAecm_CreateCore (\<lambda>_. True) blank_core = Some a0 \<and> WebRtcAecm_InitCore a0 16000 = (a, 0) \<and>
     run_blocks a [(replicate 64 900, replicate 64 (- 7), None), (replicate 64 3, replicate 64 11, Some (replicate 64 5))] = Some (a', outs) \<and>
     length outs = 2"
proof -
  obtain a0 a where a: "WebRtcAecm_CreateCore (\<lambda>_. True) blank_core = Some a0" "memory_ok blank_core"
    "WebRtcAecm_InitCore a0 16000 = (a, 0)" using init_succeeds [of 16000] by auto
  show ?thesis
    using a(1,3) blocks_never_fail [OF a, of "[(replicate 64 900, replicate 64 (- 7), None), (replicate 64 3, replicate 64 11, Some (replicate 64 5))]"]
    by auto
qed

end
