(* ===== verification/Aecm_Frame.thy ===== *)
theory Aecm_Frame
  imports Aecm_Process
begin

unbundle bit_operations_syntax

text \<open>
  A frame of 80 samples through the mobile echo canceller (\<open>ProcessFrame\<close> of
  \<^verbatim>\<open>modules/audio_processing/aecm/aecm_core.c\<close>): the far-end delay line, the ring buffers that cut
  the frames into blocks of 64 samples, and the ring buffer that puts the output together again.
\<close>

section \<open>The frame\<close>

text \<open>
  A block from a ring buffer, through the pointer that \<open>ReadBuffer\<close> returns. \<open>None\<close>: fewer elements than
  a block are there, and the caller would read on behind them.
\<close>

definition read_block :: "int ring_buffer \<Rightarrow> (int ring_buffer \<times> int list) option" where
  "read_block b =
     (case WebRtc_ReadBuffer b True (replicate PART_LEN 0) PART_LEN of (b, _, ptr, n) \<Rightarrow>
        if n < PART_LEN then None else map_option (Pair b) ptr)"

text \<open>The inputs of the next block, the clean near end when there is one.\<close>

definition next_block :: "bool \<Rightarrow> AecmCore \<Rightarrow> (AecmCore \<times> int list \<times> int list \<times> int list option) option" where
  "next_block has_clean aecm =
     (case read_block (farFrameBuf aecm) of None \<Rightarrow> None
      | Some (b, far_block) \<Rightarrow>
          let aecm = aecm\<lparr>farFrameBuf := b\<rparr> in
          (case read_block (nearNoisyFrameBuf aecm) of None \<Rightarrow> None
           | Some (b, near_noisy_block) \<Rightarrow>
               let aecm = aecm\<lparr>nearNoisyFrameBuf := b\<rparr> in
               if has_clean
               then (case read_block (nearCleanFrameBuf aecm) of None \<Rightarrow> None
                     | Some (b, near_clean_block) \<Rightarrow>
                         Some (aecm\<lparr>nearCleanFrameBuf := b\<rparr>, far_block, near_noisy_block, Some near_clean_block))
               else Some (aecm, far_block, near_noisy_block, None)))"

text \<open>The loop over the blocks. It may fail or not end; both are \<open>None\<close>.\<close>

partial_function (option) process_blocks :: "bool \<Rightarrow> AecmCore \<Rightarrow> (AecmCore \<times> int) option" where
  "process_blocks has_clean aecm =
     (if WebRtc_available_read (Some (farFrameBuf aecm)) \<ge> PART_LEN
      then (case next_block has_clean aecm of None \<Rightarrow> None
            | Some (aecm, far_block, near_noisy_block, near_clean_block) \<Rightarrow>
                (case WebRtcAecm_ProcessBlock aecm far_block near_noisy_block near_clean_block (replicate PART_LEN 0) of
                   None \<Rightarrow> None
                 | Some (aecm, outBlock, r) \<Rightarrow>
                     if r = - 1 then Some (aecm, - 1)
                     else process_blocks has_clean
                            (aecm\<lparr>outFrameBuf := fst (WebRtc_WriteBuffer (outFrameBuf aecm) outBlock PART_LEN)\<rparr>)))
      else Some (aecm, 0))"

text \<open>The frame goes through the delay line and into the ring buffers.\<close>

definition buffer_frame :: "AecmCore \<Rightarrow> int list \<Rightarrow> int list \<Rightarrow> int list option \<Rightarrow> AecmCore" where
  "buffer_frame aecm farend nearendNoisy nearendClean =
     (let aecm = WebRtcAecm_BufferFarFrame aecm farend FRAME_LEN;
          (aecm, farFrame) = WebRtcAecm_FetchFarFrame aecm (replicate FRAME_LEN 0) FRAME_LEN (knownDelay aecm);
          aecm = aecm\<lparr>farFrameBuf := fst (WebRtc_WriteBuffer (farFrameBuf aecm) farFrame FRAME_LEN),
                      nearNoisyFrameBuf := fst (WebRtc_WriteBuffer (nearNoisyFrameBuf aecm) nearendNoisy FRAME_LEN)\<rparr>
      in case nearendClean of None \<Rightarrow> aecm
         | Some clean \<Rightarrow> aecm\<lparr>nearCleanFrameBuf := fst (WebRtc_WriteBuffer (nearCleanFrameBuf aecm) clean FRAME_LEN)\<rparr>)"

text \<open>The result is the state, the output frame and the return value.\<close>

definition WebRtcAecm_ProcessFrame ::
    "AecmCore \<Rightarrow> int list \<Rightarrow> int list \<Rightarrow> int list option \<Rightarrow> int list \<Rightarrow> (AecmCore \<times> int list \<times> int) option" where
  "WebRtcAecm_ProcessFrame aecm farend nearendNoisy nearendClean out =
     (case process_blocks (nearendClean \<noteq> None) (buffer_frame aecm farend nearendNoisy nearendClean) of None \<Rightarrow> None
      | Some (aecm, r) \<Rightarrow>
          if r = - 1 then Some (aecm, out, - 1)
          else let size = s32 (int (WebRtc_available_read (Some (outFrameBuf aecm))));
                   aecm = (if size < int FRAME_LEN
                           then aecm\<lparr>outFrameBuf := fst (WebRtc_MoveReadPtr (outFrameBuf aecm) (size - int FRAME_LEN))\<rparr>
                           else aecm)
               in (case WebRtc_ReadBuffer (outFrameBuf aecm) True out FRAME_LEN of (b, out, ptr, n) \<Rightarrow>
                     if n < FRAME_LEN then None
                     else Some (aecm\<lparr>outFrameBuf := b\<rparr>, blit out 0 (take FRAME_LEN (the ptr)), 0)))"

section \<open>Blocks from the ring buffers\<close>

lemma read_block_eq:
  assumes "rb_ok b" and "64 \<le> length (queue b)"
  shows "\<exists>b'. read_block b = Some (b', take 64 (queue b)) \<and> rb_ok b' \<and> queue b' = drop 64 (queue b) \<and>
    element_count b' = element_count b"
proof -
  define b' where "b' = fst (WebRtc_ReadBuffer b True (replicate 64 0) 64)"
  have "read_block b = Some (b', take 64 (queue b))"
    using assms read_eq [OF assms(1), of 64 "replicate 64 0" True] by (simp add: read_block_def b'_def)
  then show ?thesis using read_state [OF assms(1), of 64 "replicate 64 0" True] by (simp add: b'_def)
qed

lemma read_block_short: "rb_ok b \<Longrightarrow> length (queue b) < 64 \<Longrightarrow> read_block b = None"
  using read_eq [of b 64 "replicate 64 0" True] by (simp add: read_block_def)

text \<open>The invariant of the core does not look at the buffers between frames and blocks.\<close>

lemma core_ok_buffers [simp]:
  "core_ok (a\<lparr>farFrameBuf := b\<rparr>) = core_ok a" "core_ok (a\<lparr>nearNoisyFrameBuf := b\<rparr>) = core_ok a"
  "core_ok (a\<lparr>nearCleanFrameBuf := b\<rparr>) = core_ok a" "core_ok (a\<lparr>outFrameBuf := b\<rparr>) = core_ok a"
  "core_ok (a\<lparr>farBuf := x\<rparr>) = core_ok a" "core_ok (a\<lparr>farBufWritePos := n\<rparr>) = core_ok a"
  "core_ok (a\<lparr>farBufReadPos := i\<rparr>) = core_ok a" "core_ok (a\<lparr>lastKnownDelay := i\<rparr>) = core_ok a"
  by (simp_all add: core_ok_def part_defs)

lemma far_rep_buffers [simp]:
  "far_rep (a\<lparr>farFrameBuf := b\<rparr>) S = far_rep a S" "far_rep (a\<lparr>nearNoisyFrameBuf := b\<rparr>) S = far_rep a S"
  "far_rep (a\<lparr>nearCleanFrameBuf := b\<rparr>) S = far_rep a S" "far_rep (a\<lparr>outFrameBuf := b\<rparr>) S = far_rep a S"
  by (simp_all add: far_rep_def)

text \<open>What the loop over the blocks keeps of the delay line.\<close>

definition line_view :: "AecmCore \<Rightarrow> int list \<times> nat \<times> int \<times> int \<times> int \<times> int" where
  "line_view a = (farBuf a, farBufWritePos a, farBufReadPos a, knownDelay a, lastKnownDelay a, mult a)"

lemma line_view_far_rep: "line_view b = line_view a \<Longrightarrow> far_rep b S = far_rep a S"
  by (simp add: line_view_def far_rep_def)

lemma frame_view_line: "frame_view b = frame_view a \<Longrightarrow> line_view b = line_view a"
  by (simp add: line_view_def frame_view_def)

lemma frame_view_hold: "frame_view b = frame_view a \<Longrightarrow> frames_hold b F N c out = frames_hold a F N c out"
  by (simp add: frames_hold_def frame_view_def)

lemma next_block_ok:
  assumes "frames_hold a F N c out" and "core_ok a" and "64 \<le> length F" "64 \<le> length N" and "has_clean \<longrightarrow> 64 \<le> c"
  shows "\<exists>a' clean. next_block has_clean a = Some (a', take 64 F, take 64 N, clean) \<and>
    frames_hold a' (drop 64 F) (drop 64 N) (if has_clean then c - 64 else c) out \<and> core_ok a' \<and> line_view a' = line_view a \<and>
    (\<forall>x. clean = Some x \<longrightarrow> length x = 64)"
proof -
  have h: "rb_ok (farFrameBuf a)" "queue (farFrameBuf a) = F" "rb_ok (nearNoisyFrameBuf a)" "queue (nearNoisyFrameBuf a) = N"
    "rb_ok (nearCleanFrameBuf a)" "length (queue (nearCleanFrameBuf a)) = c"
    using assms(1) by (simp_all add: frames_hold_def)
  obtain bf where f: "read_block (farFrameBuf a) = Some (bf, take 64 F)" "rb_ok bf" "queue bf = drop 64 F"
      "element_count bf = element_count (farFrameBuf a)"
    using read_block_eq [OF h(1)] h(2) assms(3) by auto
  obtain bn where n: "read_block (nearNoisyFrameBuf a) = Some (bn, take 64 N)" "rb_ok bn" "queue bn = drop 64 N"
      "element_count bn = element_count (nearNoisyFrameBuf a)"
    using read_block_eq [OF h(3)] h(4) assms(4) by auto
  show ?thesis
  proof (cases has_clean)
    case True
    then obtain bc where c: "read_block (nearCleanFrameBuf a) = Some (bc, take 64 (queue (nearCleanFrameBuf a)))" "rb_ok bc"
        "queue bc = drop 64 (queue (nearCleanFrameBuf a))" "element_count bc = element_count (nearCleanFrameBuf a)"
      using read_block_eq [OF h(5)] h(6) assms(5) by auto
    show ?thesis using True f n c assms(1,2,5) h(6) by (simp add: next_block_def frames_hold_def line_view_def Let_def)
  next
    case False
    then show ?thesis using f n assms(1,2) by (simp add: next_block_def frames_hold_def line_view_def Let_def)
  qed
qed

lemma process_blocks_ok:
  assumes "frames_hold a F N c out" and "core_ok a" and "length F = 64 * n + r" "r < 64" and "length N = length F"
    and "has_clean \<longrightarrow> 64 * n \<le> c" and "out + 64 * n \<le> 144"
  shows "\<exists>a'. process_blocks has_clean a = Some (a', 0) \<and> core_ok a' \<and> line_view a' = line_view a \<and>
    frames_hold a' (drop (64 * n) F) (drop (64 * n) N) (if has_clean then c - 64 * n else c) (out + 64 * n)"
  using assms
proof (induction n arbitrary: a F N c out)
  case 0
  then show ?case
    by (subst process_blocks.simps) (simp add: WebRtc_available_read_def frames_hold_def length_queue [symmetric])
next
  case (Suc n)
  have "available_read (farFrameBuf a) = length F" using Suc.prems(1) length_queue [of "farFrameBuf a"] by (simp add: frames_hold_def)
  then have av: "64 \<le> WebRtc_available_read (Some (farFrameBuf a))" using Suc.prems(3) by (simp add: WebRtc_available_read_def)
  have "64 \<le> length F" "64 \<le> length N" "has_clean \<longrightarrow> 64 \<le> c" using Suc.prems(3,5,6) by auto
  then obtain b clean where b: "next_block has_clean a = Some (b, take 64 F, take 64 N, clean)"
      "frames_hold b (drop 64 F) (drop 64 N) (if has_clean then c - 64 else c) out" "core_ok b" "line_view b = line_view a"
      "\<forall>x. clean = Some x \<longrightarrow> length x = 64"
    using next_block_ok [OF Suc.prems(1,2)] by blast
  have len: "length (take 64 F) = 64" "length (take 64 N) = 64" using Suc.prems(3,5) by simp_all
  obtain d ob where d: "WebRtcAecm_ProcessBlock b (take 64 F) (take 64 N) clean (replicate 64 0) = Some (d, ob, 0)" "core_ok d"
      "frame_view d = frame_view b" "length ob = 64"
    using process_block_ok [OF b(3) len b(5), of "replicate 64 0"] by auto
  define e where "e = d\<lparr>outFrameBuf := fst (WebRtc_WriteBuffer (outFrameBuf d) ob 64)\<rparr>"
  have dh: "frames_hold d (drop 64 F) (drop 64 N) (if has_clean then c - 64 else c) out" using b(2) frame_view_hold [OF d(3)] by simp
  then have o: "rb_ok (outFrameBuf d)" "element_count (outFrameBuf d) = 144" "length (queue (outFrameBuf d)) = out"
    by (simp_all add: frames_hold_def)
  have eh: "frames_hold e (drop 64 F) (drop 64 N) (if has_clean then c - 64 else c) (out + 64)"
    using dh write_ok [OF o(1), of 64 ob] write_queue [OF o(1), of 64 ob] write_frame [OF o(1), of ob 64] o d(4) Suc.prems(7)
    by (simp add: e_def frames_hold_def)
  have "line_view e = line_view d" by (simp add: e_def line_view_def)
  then have el: "line_view e = line_view a" using frame_view_line [OF d(3)] b(4) by simp
  have IH: "\<exists>a'. process_blocks has_clean e = Some (a', 0) \<and> core_ok a' \<and> line_view a' = line_view e \<and>
      frames_hold a' (drop (64 * n) (drop 64 F)) (drop (64 * n) (drop 64 N))
        (if has_clean then (if has_clean then c - 64 else c) - 64 * n else (if has_clean then c - 64 else c)) (out + 64 + 64 * n)"
    using Suc.prems d(2) by (intro Suc.IH [OF eh]) (auto simp: e_def)
  have eqs: "out + 64 + 64 * n = out + 64 * Suc n" "drop (64 * n) (drop 64 F) = drop (64 * Suc n) F"
      "drop (64 * n) (drop 64 N) = drop (64 * Suc n) N"
      "(if has_clean then (if has_clean then c - 64 else c) - 64 * n else (if has_clean then c - 64 else c)) =
        (if has_clean then c - 64 * Suc n else c)"
    by (simp_all add: add.commute)
  have "process_blocks has_clean a = process_blocks has_clean e"
    using av b(1) d(1) by (subst process_blocks.simps) (simp add: e_def)
  then show ?case using IH unfolding eqs el by simp
qed

section \<open>Sequences of frames\<close>

text \<open>
  After \<open>k\<close> frames: the two near-end buffers and the far-end buffer hold the samples that do not yet fill a
  block, at most 48; the output holds nothing during the first three frames, which stuff it, and later the
  complement to 48.
\<close>

definition pending :: "nat \<Rightarrow> int list \<Rightarrow> int list" where
  "pending k S = drop (64 * (80 * k div 64)) S"

definition out_occupancy :: "nat \<Rightarrow> nat" where
  "out_occupancy k = (if k < 4 then 0 else 48 - 80 * k mod 64)"

definition frame_inv :: "nat \<Rightarrow> bool \<Rightarrow> AecmCore \<Rightarrow> int list \<Rightarrow> int list \<Rightarrow> bool" where
  "frame_inv k has_clean a S N \<longleftrightarrow> core_ok a \<and> far_rep a S \<and> knownDelay a = 0 \<and> length S = 80 * k \<and> length N = 80 * k \<and>
     frames_hold a (pending k S) (pending k N) (if has_clean then 80 * k mod 64 else 0) (out_occupancy k)"

lemma far_step_frame:
  assumes "far_step a f d = (a', out)"
  shows "core_ok a' = core_ok a \<and> frames_hold a' F N c k = frames_hold a F N c k \<and> knownDelay a' = knownDelay a \<and> mult a' = mult a"
  using assms
  by (auto simp: far_step_def WebRtcAecm_BufferFarFrame_def WebRtcAecm_FetchFarFrame_def Let_def frames_hold_def
      split: prod.splits)

lemma block_count:
  "80 * Suc k div 64 = 80 * k div 64 + (80 * k mod 64 + 80) div 64"
  "80 * Suc k mod 64 = (80 * k mod 64 + 80) mod 64"
proof -
  have "80 * Suc k = 64 * (80 * k div 64) + (80 * k mod 64 + 80)" using mult_div_mod_eq [of 64 "80 * k"] unfolding mult_Suc_right by linarith
  then show "80 * Suc k div 64 = 80 * k div 64 + (80 * k mod 64 + 80) div 64" by (metis div_mult_self4 zero_neq_numeral)
  show "80 * Suc k mod 64 = (80 * k mod 64 + 80) mod 64" by (simp add: mod_add_right_eq add.commute [of _ 80])
qed

lemma remainder_cases:
  obtains "80 * k mod 64 = (0::nat)" | "80 * k mod 64 = (16::nat)" | "80 * k mod 64 = (32::nat)" | "80 * k mod 64 = (48::nat)"
proof -
  have "80 * k mod 64 = 16 * (5 * k mod 4)" using mod_mult_mult1 [of 16 "5 * k" 4] by simp
  moreover have "5 * k mod 4 < 4" by simp
  then have "5 * k mod 4 = 0 \<or> 5 * k mod 4 = 1 \<or> 5 * k mod 4 = 2 \<or> 5 * k mod 4 = 3" by linarith
  ultimately show ?thesis using that by auto
qed

lemma out_occupancy_Suc:
  "out_occupancy (Suc k) = out_occupancy k + 64 * ((80 * k mod 64 + 80) div 64) - 80"
  "out_occupancy k + 64 * ((80 * k mod 64 + 80) div 64) \<le> 144"
proof -
  have m: "80 * Suc k mod 64 = (80 * k mod 64 + 80) mod 64" by (rule block_count)
  have k: "k = 0 \<or> k = 1 \<or> k = 2 \<or> k = 3 \<or> 4 \<le> k" by linarith
  show "out_occupancy (Suc k) = out_occupancy k + 64 * ((80 * k mod 64 + 80) div 64) - 80"
    using k by (cases k rule: remainder_cases) (auto simp: out_occupancy_def m simp del: mult_Suc_right One_nat_def)
  show "out_occupancy k + 64 * ((80 * k mod 64 + 80) div 64) \<le> 144"
    using k by (cases k rule: remainder_cases) (auto simp: out_occupancy_def)
qed

lemma write_more:
  assumes "rb_ok b" and "length (queue b) + 80 \<le> element_count b" and "length xs = 80"
  shows "rb_ok (fst (WebRtc_WriteBuffer b xs 80)) \<and> queue (fst (WebRtc_WriteBuffer b xs 80)) = queue b @ xs \<and>
    element_count (fst (WebRtc_WriteBuffer b xs 80)) = element_count b"
  using assms write_ok [OF assms(1), of 80 xs] write_queue [OF assms(1), of 80 xs] write_frame [OF assms(1), of xs 80] by simp

text \<open>The end of the frame: the output is filled up with old samples to a frame, which is read.\<close>

lemma output_frame:
  assumes "rb_ok b" and "element_count b = 144" and "length (queue b) = n" "n \<le> 144" and "length out = 80"
    and "c = (if s32 (int (WebRtc_available_read (Some b))) < 80
              then fst (WebRtc_MoveReadPtr b (s32 (int (WebRtc_available_read (Some b))) - 80)) else b)"
    and "WebRtc_ReadBuffer c True out 80 = (d, out', ptr, k)"
  shows "rb_ok d \<and> element_count d = 144 \<and> length (queue d) = n - 80 \<and> k = 80 \<and>
    length (blit out' 0 (take 80 (the ptr))) = 80 \<and> (80 \<le> n \<longrightarrow> blit out' 0 (take 80 (the ptr)) @ queue d = queue b)"
proof -
  have s: "s32 (int (WebRtc_available_read (Some b))) = int n"
    using assms(1,3) rb_ok_s32(2) length_queue by (metis WebRtc_available_read_def option.simps(5))
  have c: "rb_ok c \<and> element_count c = 144 \<and> length (queue c) = max n 80 \<and> (80 \<le> n \<longrightarrow> c = b)"
  proof (cases "n < 80")
    case True
    then have e: "int n - 80 = - int (80 - n)" by simp
    have "80 - n \<le> available_write b" using assms(1-3) True by (simp add: available_write_eq)
    then obtain old where "length old = 80 - n" "queue (fst (WebRtc_MoveReadPtr b (- int (80 - n)))) = old @ queue b"
      using move_backward [OF assms(1)] by blast
    then show ?thesis using True assms(2,3,6) move_ok [OF assms(1)] move_frame(3) [of b] unfolding s e by simp
  next
    case False
    then show ?thesis using assms(1-3,6) unfolding s by simp
  qed
  then have len: "80 \<le> length (queue c)" by simp
  have "k = 80" "the ptr = take 80 (queue c)" "length out' = 80"
    using assms(5,7) read_eq [of c 80 out True] c len by (auto simp: length_blit split: if_splits)
  moreover have "rb_ok d" "queue d = drop 80 (queue c)" "element_count d = element_count c"
    using read_state [of c 80 out True] assms(5,7) c by simp_all
  ultimately show ?thesis using c len by (auto simp: blit_whole)
qed

lemma buffer_frame_ok:
  assumes "core_ok a" and "far_rep a S" and "knownDelay a = 0" and "frames_hold a F N c out"
    and "length F \<le> 64" "length N \<le> 64" "c \<le> 64" and "length far = 80" "length noisy = 80" "\<forall>x. clean = Some x \<longrightarrow> length x = 80"
  shows "core_ok (buffer_frame a far noisy clean) \<and> far_rep (buffer_frame a far noisy clean) (S @ far) \<and>
    knownDelay (buffer_frame a far noisy clean) = 0 \<and> mult (buffer_frame a far noisy clean) = mult a \<and>
    frames_hold (buffer_frame a far noisy clean) (F @ far) (N @ noisy) (if clean \<noteq> None then c + 80 else c) out"
proof -
  obtain a1 ff where st: "far_step a far 0 = (a1, ff)" by (rule prod.exhaust)
  have fs: "WebRtcAecm_FetchFarFrame (WebRtcAecm_BufferFarFrame a far 80) (replicate 80 0) 80 (knownDelay (WebRtcAecm_BufferFarFrame a far 80)) = (a1, ff)"
    using st assms(3) by (simp add: far_step_def WebRtcAecm_BufferFarFrame_def split: prod.splits)
  have ff: "far_rep a1 (S @ far)" "ff = far"
    using far_step_rep [OF assms(2,8), of 0 a1 ff] st assms(8) by simp_all
  have a1: "core_ok a1" "frames_hold a1 F N c out" "knownDelay a1 = 0" "mult a1 = mult a" using far_step_frame [OF st] assms(1,3,4) by simp_all
  define b where "b = a1\<lparr>farFrameBuf := fst (WebRtc_WriteBuffer (farFrameBuf a1) far 80),
      nearNoisyFrameBuf := fst (WebRtc_WriteBuffer (nearNoisyFrameBuf a1) noisy 80)\<rparr>"
  have e: "buffer_frame a far noisy clean =
      (case clean of None \<Rightarrow> b | Some x \<Rightarrow> b\<lparr>nearCleanFrameBuf := fst (WebRtc_WriteBuffer (nearCleanFrameBuf b) x 80)\<rparr>)"
    unfolding buffer_frame_def Let_def fs prod.case ff(2) b_def ..
  have bh: "frames_hold b (F @ far) (N @ noisy) c out"
    using a1(2) write_more [of "farFrameBuf a1" far] write_more [of "nearNoisyFrameBuf a1" noisy] assms(5,6,8,9)
    by (simp add: frames_hold_def b_def)
  have "frames_hold (buffer_frame a far noisy clean) (F @ far) (N @ noisy) (if clean \<noteq> None then c + 80 else c) out"
  proof (cases clean)
    case (Some x)
    then show ?thesis unfolding e using bh write_more [of "nearCleanFrameBuf b" x] assms(7,10) by (simp add: frames_hold_def)
  qed (unfold e, use bh in simp)
  then show ?thesis using a1 ff unfolding e by (simp add: b_def split: option.splits)
qed

lemma process_frame_ok:
  assumes "frame_inv k (clean \<noteq> None) a S N" and "length far = 80" "length noisy = 80" and "\<forall>c. clean = Some c \<longrightarrow> length c = 80"
    and "length out = 80"
  shows "\<exists>a' out'. WebRtcAecm_ProcessFrame a far noisy clean out = Some (a', out', 0) \<and> length out' = 80 \<and> mult a' = mult a \<and>
    frame_inv (Suc k) (clean \<noteq> None) a' (S @ far) (N @ noisy)"
proof -
  define r n where "r = 80 * k mod 64" and "n = (r + 80) div 64"
  have inv: "core_ok a" "far_rep a S" "knownDelay a = 0" "length S = 80 * k" "length N = 80 * k"
    "frames_hold a (pending k S) (pending k N) (if clean \<noteq> None then r else 0) (out_occupancy k)"
    using assms(1) unfolding frame_inv_def r_def by blast+
  have r: "r < 64" "r \<le> 48" "80 * k = 64 * (80 * k div 64) + r"
    using remainder_cases [of k] mult_div_mod_eq [of 64 "80 * k"] unfolding r_def by (simp, fastforce, linarith)
  have pl: "length (pending k S) = r" "length (pending k N) = r"
    unfolding pending_def length_drop inv(4,5) using r(3) by linarith+
  define c where "c = buffer_frame a far noisy clean"
  have cc: "core_ok c" "far_rep c (S @ far)" "knownDelay c = 0" "mult c = mult a"
    "frames_hold c (pending k S @ far) (pending k N @ noisy) (if clean \<noteq> None then r + 80 else 0) (out_occupancy k)"
    using buffer_frame_ok [OF inv(1-3,6) _ _ _ assms(2-4)] pl r(1) unfolding c_def by (cases clean; simp)+
  note ch = cc(5)
  have n: "r + 80 = 64 * n + (r + 80) mod 64" "(r + 80) mod 64 < 64" by (simp_all add: n_def)
  have rest: "r + 80 - 64 * n = (r + 80) mod 64" using n(1) by linarith
  have pb: "\<exists>d. process_blocks (clean \<noteq> None) c = Some (d, 0) \<and> core_ok d \<and> line_view d = line_view c \<and>
      frames_hold d (drop (64 * n) (pending k S @ far)) (drop (64 * n) (pending k N @ noisy))
        (if clean \<noteq> None then (if clean \<noteq> None then r + 80 else 0) - 64 * n else (if clean \<noteq> None then r + 80 else 0)) (out_occupancy k + 64 * n)"
    using ch cc(1) pl assms(2,3) n out_occupancy_Suc(2) [of k]
    by (intro process_blocks_ok [where r = "(r + 80) mod 64"]) (auto simp: n_def r_def)
  have eq: "(if clean \<noteq> None then (if clean \<noteq> None then r + 80 else 0) - 64 * n else (if clean \<noteq> None then r + 80 else 0)) =
      (if clean \<noteq> None then (r + 80) mod 64 else 0)" using rest by simp
  obtain d where d: "process_blocks (clean \<noteq> None) c = Some (d, 0)" "core_ok d" "line_view d = line_view c"
      "frames_hold d (drop (64 * n) (pending k S @ far)) (drop (64 * n) (pending k N @ noisy))
        (if clean \<noteq> None then (r + 80) mod 64 else 0) (out_occupancy k + 64 * n)"
    using pb unfolding eq by blast
  have bc: "64 * (80 * Suc k div 64) = 64 * (80 * k div 64) + 64 * n" "80 * Suc k mod 64 = (r + 80) mod 64"
    using block_count [of k] by (simp_all add: n_def r_def)
  have drops: "drop (64 * n) (pending k X @ Y) = pending (Suc k) (X @ Y)" if "length X = 80 * k" for X Y
  proof -
    define m where "m = 64 * (80 * k div 64)"
    have "m \<le> length X" unfolding m_def that by simp
    then have "drop (m + 64 * n) (X @ Y) = drop (64 * n) (drop m X @ Y)" by (simp add: add.commute)
    then show ?thesis unfolding pending_def bc(1) m_def by (rule sym)
  qed
  define e where "e = (if s32 (int (WebRtc_available_read (Some (outFrameBuf d)))) < 80
     then fst (WebRtc_MoveReadPtr (outFrameBuf d) (s32 (int (WebRtc_available_read (Some (outFrameBuf d)))) - 80)) else outFrameBuf d)"
  obtain g out' ptr m where g: "WebRtc_ReadBuffer e True out 80 = (g, out', ptr, m)" by (rule prod_cases4)
  have o: "rb_ok (outFrameBuf d)" "element_count (outFrameBuf d) = 144" "length (queue (outFrameBuf d)) = out_occupancy k + 64 * n"
    using d(4) by (simp_all add: frames_hold_def)
  have g2: "rb_ok g" "element_count g = 144" "length (queue g) = out_occupancy (Suc k)" "m = 80" "length (blit out' 0 (take 80 (the ptr))) = 80"
    using output_frame [OF o _ assms(5) e_def g] out_occupancy_Suc [of k] by (simp_all add: n_def r_def)
  define h where "h = d\<lparr>outFrameBuf := g\<rparr>"
  have "WebRtcAecm_ProcessFrame a far noisy clean out = Some (h, blit out' 0 (take 80 (the ptr)), 0)"
    unfolding WebRtcAecm_ProcessFrame_def Let_def c_def [symmetric] d(1) using e_def g g2(4) by (simp add: h_def split: if_splits)
  moreover have "frame_inv (Suc k) (clean \<noteq> None) h (S @ far) (N @ noisy)"
    using d g2 drops [OF inv(4), of far] drops [OF inv(5), of noisy] inv(4,5) assms(2,3) cc line_view_far_rep [OF d(3)] bc(2)
    unfolding frame_inv_def by (simp add: h_def frames_hold_def line_view_def)
  moreover have "mult h = mult a" using d(3) cc(4) by (simp add: h_def line_view_def)
  ultimately show ?thesis using g2(5) by blast
qed

fun run_frames :: "AecmCore \<Rightarrow> (int list \<times> int list \<times> int list option) list \<Rightarrow> (AecmCore \<times> (int list \<times> int) list) option" where
  "run_frames a [] = Some (a, [])"
| "run_frames a ((far, noisy, clean) # fs) =
     (case WebRtcAecm_ProcessFrame a far noisy clean (replicate 80 0) of None \<Rightarrow> None
      | Some (a, out, r) \<Rightarrow> (case run_frames a fs of None \<Rightarrow> None | Some (a, outs) \<Rightarrow> Some (a, (out, r) # outs)))"

text \<open>Frames that all have a clean near end, or all have none.\<close>

fun frame_ok :: "bool \<Rightarrow> int list \<times> int list \<times> int list option \<Rightarrow> bool" where
  "frame_ok has_clean (far, noisy, clean) \<longleftrightarrow> length far = 80 \<and> length noisy = 80 \<and>
     (case clean of None \<Rightarrow> \<not> has_clean | Some c \<Rightarrow> has_clean \<and> length c = 80)"

lemma run_frames_inv:
  assumes "frame_inv k has_clean a S N" and "list_all (frame_ok has_clean) fs"
  shows "\<exists>a' outs. run_frames a fs = Some (a', outs) \<and> length outs = length fs \<and> list_all (\<lambda>(out, r). r = 0 \<and> length out = 80) outs \<and>
    frame_inv (k + length fs) has_clean a' (S @ concat (map fst fs)) (N @ concat (map (\<lambda>f. fst (snd f)) fs))"
  using assms
proof (induction fs arbitrary: k a S N)
  case (Cons f fs)
  obtain far noisy clean where f: "f = (far, noisy, clean)" by (rule prod_cases3)
  have l: "length far = 80" "length noisy = 80" "\<forall>c. clean = Some c \<longrightarrow> length c = 80" "(clean \<noteq> None) = has_clean"
    using Cons.prems(2) f by (auto split: option.splits)
  obtain a1 out where p: "WebRtcAecm_ProcessFrame a far noisy clean (replicate 80 0) = Some (a1, out, 0)" "length out = 80"
      "frame_inv (Suc k) has_clean a1 (S @ far) (N @ noisy)"
    using process_frame_ok [of k clean a S N far noisy "replicate 80 0"] Cons.prems(1) l by auto
  obtain a2 outs where r: "run_frames a1 fs = Some (a2, outs)" "length outs = length fs" "list_all (\<lambda>(out, r). r = 0 \<and> length out = 80) outs"
      "frame_inv (Suc k + length fs) has_clean a2 ((S @ far) @ concat (map fst fs)) ((N @ noisy) @ concat (map (\<lambda>f. fst (snd f)) fs))"
    using Cons.IH [OF p(3)] Cons.prems(2) by auto
  then show ?case using f p(1,2) by simp
qed (simp add: frame_inv_def)

lemma init_frame_inv:
  assumes "WebRtcAecm_CreateCore ok junk = Some a0" and "memory_ok junk" and "WebRtcAecm_InitCore a0 fs = (a, 0)"
  shows "frame_inv 0 has_clean a [] []"
  using init_core_ok [OF assms] by (simp add: frame_inv_def pending_def out_occupancy_def)

text \<open>
  C11. After its creation and initialisation the core processes every sequence of frames of which all have a clean near end
  beside the noisy one, or none has (frames that change from one to the other within a sequence are left out: they can make the
  code read past what its buffer holds, as is shown further below): \<open>ProcessFrame\<close> returns 0 and 80 samples each time, the far-end and the near-end ring
  buffers hold exactly the samples that have not yet filled a block, so that no sample is lost, repeated or overtaken between frames and blocks,
  and the output buffer holds \<open>out_occupancy\<close> samples: none during the first three frames and then, in turn, 48,
  32, 16 and 0, so that it is never filled up with old samples again.
\<close>

theorem frames_never_fail:
  assumes "WebRtcAecm_CreateCore ok junk = Some a0" and "memory_ok junk" and "WebRtcAecm_InitCore a0 fs = (a, 0)"
    and "list_all (frame_ok has_clean) frames"
  shows "\<exists>a' outs. run_frames a frames = Some (a', outs) \<and> length outs = length frames \<and>
    list_all (\<lambda>(out, r). r = 0 \<and> length out = 80) outs \<and>
    queue (farFrameBuf a') = drop (64 * (80 * length frames div 64)) (concat (map fst frames)) \<and>
    queue (nearNoisyFrameBuf a') = drop (64 * (80 * length frames div 64)) (concat (map (\<lambda>f. fst (snd f)) frames)) \<and>
    length (queue (outFrameBuf a')) = out_occupancy (length frames)"
proof -
  obtain a' outs where r: "run_frames a frames = Some (a', outs)" "length outs = length frames" "list_all (\<lambda>(out, r). r = 0 \<and> length out = 80) outs"
      "frame_inv (length frames) has_clean a' (concat (map fst frames)) (concat (map (\<lambda>f. fst (snd f)) frames))"
    using run_frames_inv [OF init_frame_inv [OF assms(1-3)] assms(4)] by auto
  then show ?thesis by (auto simp: frame_inv_def frames_hold_def pending_def)
qed

theorem frames_never_fail_witness:
  "\<exists>a0 a a' outs. WebRtcAecm_CreateCore (\<lambda>_. True) blank_core = Some a0 \<and> WebRtcAecm_InitCore a0 8000 = (a, 0) \<and>
     run_frames a [(replicate 80 1, replicate 80 2, None), (replicate 80 3, replicate 80 4, None)] = Some (a', outs) \<and>
     queue (nearNoisyFrameBuf a') = replicate 32 4 \<and> length (queue (outFrameBuf a')) = 0"
proof -
  obtain a0 a where a: "WebRtcAecm_CreateCore (\<lambda>_. True) blank_core = Some a0" "memory_ok blank_core"
    "WebRtcAecm_InitCore a0 8000 = (a, 0)" using init_succeeds [of 8000] by auto
  show ?thesis
    using a(1,3) frames_never_fail [OF a, of False "[(replicate 80 1, replicate 80 2, None), (replicate 80 3, replicate 80 4, None)]"]
    by (auto simp: out_occupancy_def)
qed

section \<open>A clean near end that comes late\<close>

text \<open>
  When the clean near end comes in only after the first three frames, its buffer is behind the others: in
  the fourth frame two blocks are due and only one is there, so that the second one reads on into what the
  buffer held before.
\<close>

lemma process_blocks_short:
  assumes "frames_hold a F N c out" and "core_ok a" and "128 \<le> length F" "length N = length F" and "64 \<le> c" "c < 128" and "out \<le> 80"
  shows "process_blocks True a = None"
proof -
  have av: "64 \<le> WebRtc_available_read (Some (farFrameBuf a))"
    using assms(1,3) length_queue [of "farFrameBuf a"] by (simp add: frames_hold_def WebRtc_available_read_def)
  have "64 \<le> length F" "64 \<le> length N" "True \<longrightarrow> 64 \<le> c" using assms(3-5) by simp_all
  then obtain b clean where b: "next_block True a = Some (b, take 64 F, take 64 N, clean)"
      "frames_hold b (drop 64 F) (drop 64 N) (c - 64) out" "core_ok b" "\<forall>x. clean = Some x \<longrightarrow> length x = 64"
    using next_block_ok [OF assms(1,2), of True] by auto
  have len: "length (take 64 F) = 64" "length (take 64 N) = 64" using assms(3,4) by simp_all
  obtain d ob where d: "WebRtcAecm_ProcessBlock b (take 64 F) (take 64 N) clean (replicate 64 0) = Some (d, ob, 0)" "frame_view d = frame_view b"
    using process_block_ok [OF b(3) len b(4), of "replicate 64 0"] by auto
  define e where "e = d\<lparr>outFrameBuf := fst (WebRtc_WriteBuffer (outFrameBuf d) ob 64)\<rparr>"
  have dh: "frames_hold d (drop 64 F) (drop 64 N) (c - 64) out" using b(2) frame_view_hold [OF d(2)] by simp
  then have eh: "rb_ok (farFrameBuf e)" "queue (farFrameBuf e) = drop 64 F" "rb_ok (nearNoisyFrameBuf e)" "queue (nearNoisyFrameBuf e) = drop 64 N"
      "rb_ok (nearCleanFrameBuf e)" "length (queue (nearCleanFrameBuf e)) = c - 64"
    by (simp_all add: e_def frames_hold_def)
  then have "64 \<le> WebRtc_available_read (Some (farFrameBuf e))"
    using assms(3) length_queue [of "farFrameBuf e"] by (simp add: WebRtc_available_read_def)
  moreover have "next_block True e = None"
    using read_block_eq [OF eh(1)] read_block_eq [OF eh(3)] read_block_short [OF eh(5)] eh assms(3-6)
    by (auto simp: next_block_def Let_def split: option.splits)
  ultimately have "process_blocks True e = None" by (subst process_blocks.simps) simp
  then show ?thesis using av b(1) d(1) by (subst process_blocks.simps) (simp add: e_def)
qed

text \<open>
  C35. After three frames without a clean near end, a frame with one makes the core read behind the 16 samples
  that its buffer holds for the second block: the interface lets the caller change between frames with and
  without a clean near end, but only the near-end buffers of the frames that came with one advance.
\<close>

theorem late_clean_reads_on:
  assumes "WebRtcAecm_CreateCore ok junk = Some a0" and "memory_ok junk" and "WebRtcAecm_InitCore a0 fs = (a, 0)"
    and "list_all (frame_ok False) frames" "length frames = 3" and "run_frames a frames = Some (a', outs)"
    and "length far = 80" "length noisy = 80" "length clean = 80"
  shows "WebRtcAecm_ProcessFrame a' far noisy (Some clean) out = None"
proof -
  define S N where "S = concat (map fst frames)" and "N = concat (map (\<lambda>f. fst (snd f)) frames)"
  have i: "frame_inv 3 False a' S N"
    using run_frames_inv [OF init_frame_inv [OF assms(1-3)] assms(4)] assms(5,6) by (auto simp: S_def N_def)
  have inv: "core_ok a'" "far_rep a' S" "knownDelay a' = 0" "frames_hold a' (pending 3 S) (pending 3 N) 0 0"
    "length (pending 3 S) = 48" "length (pending 3 N) = 48"
    using i by (simp_all add: frame_inv_def out_occupancy_def pending_def)
  define c where "c = buffer_frame a' far noisy (Some clean)"
  have c: "core_ok c" "frames_hold c (pending 3 S @ far) (pending 3 N @ noisy) 80 0"
    using buffer_frame_ok [OF inv(1-4) _ _ _ assms(7,8), of "Some clean"] inv(5,6) assms(9) by (simp_all add: c_def)
  have "process_blocks True c = None" by (rule process_blocks_short [OF c(2,1)]) (simp_all add: inv assms)
  then show ?thesis by (simp add: WebRtcAecm_ProcessFrame_def c_def)
qed

theorem late_clean_reads_on_witness:
  "\<exists>a0 a a' outs. WebRtcAecm_CreateCore (\<lambda>_. True) blank_core = Some a0 \<and> WebRtcAecm_InitCore a0 8000 = (a, 0) \<and>
     run_frames a (replicate 3 (replicate 80 1, replicate 80 2, None)) = Some (a', outs) \<and>
     WebRtcAecm_ProcessFrame a' (replicate 80 1) (replicate 80 2) (Some (replicate 80 2)) (replicate 80 0) = None"
proof -
  obtain a0 a where a: "WebRtcAecm_CreateCore (\<lambda>_. True) blank_core = Some a0" "memory_ok blank_core"
    "WebRtcAecm_InitCore a0 8000 = (a, 0)" using init_succeeds [of 8000] by auto
  have f: "list_all (frame_ok False) (replicate 3 (replicate 80 1, replicate 80 2, None))" by (simp add: list_all_iff)
  obtain a' outs where r: "run_frames a (replicate 3 (replicate 80 1, replicate 80 2, None)) = Some (a', outs)"
    using run_frames_inv [OF init_frame_inv [OF a] f] by blast
  have "WebRtcAecm_ProcessFrame a' (replicate 80 1) (replicate 80 2) (Some (replicate 80 2)) (replicate 80 0) = None"
    by (rule late_clean_reads_on [OF a f _ r]) simp_all
  then show ?thesis using a(1,3) r by blast
qed

end
