(* ===== verification/Aecm_Api.thy ===== *)
theory Aecm_Api
  imports Aecm_Frame
begin

unbundle bit_operations_syntax

text \<open>
  The interface of the mobile echo canceller (\<^verbatim>\<open>modules/audio_processing/aecm/echo_control_mobile.c\<close>):
  creation, initialisation and configuration, the buffer of far-end audio, the start-up phase that waits for
  a stable sound card buffer, and the estimate of the delay between the buffers.

  A null handle or a null array is \<open>None\<close>; a negative or positive return value is the error or warning code
  of the header. \<open>WebRtcAecm_Process\<close> may leave an array in the core, which is \<open>None\<close>. The output array may
  be the same as one of the inputs: each frame of it is written after that frame of the inputs was read.
\<close>

section \<open>Codes and state\<close>

definition AecmFalse :: int where "AecmFalse = 0"
definition AECM_UNSPECIFIED_ERROR :: int where "AECM_UNSPECIFIED_ERROR = 12000"
definition AECM_UNINITIALIZED_ERROR :: int where "AECM_UNINITIALIZED_ERROR = 12002"
definition AECM_NULL_POINTER_ERROR :: int where "AECM_NULL_POINTER_ERROR = 12003"
definition AECM_BAD_PARAMETER_ERROR :: int where "AECM_BAD_PARAMETER_ERROR = 12004"
definition AECM_BAD_PARAMETER_WARNING :: int where "AECM_BAD_PARAMETER_WARNING = 12100"

abbreviation BUF_SIZE_FRAMES :: nat where "BUF_SIZE_FRAMES \<equiv> 50"
definition kBufSizeSamp :: nat where "kBufSizeSamp = BUF_SIZE_FRAMES * FRAME_LEN"
definition kSampMsNb :: int where "kSampMsNb = 8"
definition kInitCheck :: int where "kInitCheck = 42"

record AecmConfig =
  config_cngMode :: int
  config_echoMode :: int

text \<open>
  The delay has the name \<open>instKnownDelay\<close>, since the core has a field \<open>knownDelay\<close> of its own; the sum of
  the buffer sizes is \<open>sumBuf\<close>. \<open>farendOld\<close> has its two rows of 80 samples one behind the other.
\<close>

record AecMobile =
  sampFreq :: int
  bufSizeStart :: int
  instKnownDelay :: int
  farendOld :: "int list"
  initFlag :: int
  counter :: int
  sumBuf :: int
  firstVal :: int
  checkBufSizeCtr :: int
  msInSndCardBuf :: int
  filtDelay :: int
  timeForDelayChange :: int
  ECstartup :: int
  checkBuffSize :: int
  delayChange :: int
  lastDelayDiff :: int
  echoMode :: int
  farendBuf :: "int ring_buffer"
  aecmCore :: AecmCore

section \<open>Creation and configuration\<close>

text \<open>\<open>ok\<close> tells for each allocation whether it succeeds, first those of the core.\<close>

definition WebRtcAecm_Create :: "(nat \<Rightarrow> bool) \<Rightarrow> AecMobile \<Rightarrow> AecMobile option" where
  "WebRtcAecm_Create ok junk =
     (case WebRtcAecm_CreateCore ok (aecmCore junk) of None \<Rightarrow> None
      | Some core \<Rightarrow>
          (case WebRtc_CreateBuffer (ok 23) (ok 24) (farendBuf junk) kBufSizeSamp 2 of None \<Rightarrow> None
           | Some b \<Rightarrow> Some (junk\<lparr>aecmCore := core, farendBuf := b, initFlag := 0\<rparr>)))"

definition set_gains :: "(int \<Rightarrow> int) \<Rightarrow> AecmCore \<Rightarrow> AecmCore" where
  "set_gains f core =
     core\<lparr>supGain := f SUPGAIN_DEFAULT, supGainOld := f SUPGAIN_DEFAULT,
          supGainErrParamA := f SUPGAIN_ERROR_PARAM_A, supGainErrParamD := f SUPGAIN_ERROR_PARAM_D,
          supGainErrParamDiffAB := f SUPGAIN_ERROR_PARAM_A - f SUPGAIN_ERROR_PARAM_B,
          supGainErrParamDiffBD := f SUPGAIN_ERROR_PARAM_B - f SUPGAIN_ERROR_PARAM_D\<rparr>"

definition WebRtcAecm_set_config :: "AecMobile option \<Rightarrow> AecmConfig \<Rightarrow> AecMobile option \<times> int" where
  "WebRtcAecm_set_config aecmInst config =
     (case aecmInst of None \<Rightarrow> (None, - 1)
      | Some aecm \<Rightarrow>
          if initFlag aecm \<noteq> kInitCheck then (Some aecm, AECM_UNINITIALIZED_ERROR)
          else if config_cngMode config \<noteq> AecmFalse \<and> config_cngMode config \<noteq> AecmTrue then (Some aecm, AECM_BAD_PARAMETER_ERROR)
          else let aecm = aecm\<lparr>aecmCore := (aecmCore aecm)\<lparr>cngMode := config_cngMode config\<rparr>\<rparr>
               in if config_echoMode config < 0 \<or> config_echoMode config > 4 then (Some aecm, AECM_BAD_PARAMETER_ERROR)
                  else let aecm = aecm\<lparr>echoMode := config_echoMode config\<rparr>;
                           core = (if echoMode aecm = 0 then set_gains (\<lambda>x. shr x 3) (aecmCore aecm)
                                   else if echoMode aecm = 1 then set_gains (\<lambda>x. shr x 2) (aecmCore aecm)
                                   else if echoMode aecm = 2 then set_gains (\<lambda>x. shr x 1) (aecmCore aecm)
                                   else if echoMode aecm = 3 then set_gains (\<lambda>x. x) (aecmCore aecm)
                                   else if echoMode aecm = 4 then set_gains (\<lambda>x. shl x 1) (aecmCore aecm)
                                   else aecmCore aecm)
                       in (Some (aecm\<lparr>aecmCore := core\<rparr>), 0))"

text \<open>The \<^verbatim>\<open>memset\<close> of \<open>farendOld\<close> has 160 bytes, the first 80 samples.\<close>

definition WebRtcAecm_Init :: "AecMobile option \<Rightarrow> int \<Rightarrow> AecMobile option \<times> int" where
  "WebRtcAecm_Init aecmInst freq =
     (case aecmInst of None \<Rightarrow> (None, - 1)
      | Some aecm \<Rightarrow>
          if freq \<noteq> 8000 \<and> freq \<noteq> 16000 then (Some aecm, AECM_BAD_PARAMETER_ERROR)
          else let aecm = aecm\<lparr>sampFreq := freq\<rparr>;
                   (core, r) = WebRtcAecm_InitCore (aecmCore aecm) (sampFreq aecm);
                   aecm = aecm\<lparr>aecmCore := core\<rparr>
               in if r = - 1 then (Some aecm, AECM_UNSPECIFIED_ERROR)
                  else let aecm = aecm\<lparr>farendBuf := WebRtc_InitBuffer (farendBuf aecm), initFlag := kInitCheck,
                             delayChange := 1, sumBuf := 0, counter := 0, checkBuffSize := 1, firstVal := 0,
                             ECstartup := 1, bufSizeStart := 0, checkBufSizeCtr := 0, filtDelay := 0,
                             timeForDelayChange := 0, instKnownDelay := 0, lastDelayDiff := 0,
                             farendOld := blit (farendOld aecm) 0 (replicate 80 0)\<rparr>;
                           (inst, r) = WebRtcAecm_set_config (Some aecm) \<lparr>config_cngMode = AecmTrue, config_echoMode = 3\<rparr>
                       in if r = - 1 then (inst, AECM_UNSPECIFIED_ERROR) else (inst, 0))"

definition WebRtcAecm_echo_path_size_bytes :: nat where
  "WebRtcAecm_echo_path_size_bytes = PART_LEN1 * 2"

definition WebRtcAecm_InitEchoPath :: "AecMobile option \<Rightarrow> int list option \<Rightarrow> nat \<Rightarrow> AecMobile option \<times> int" where
  "WebRtcAecm_InitEchoPath aecmInst echo_path size_bytes =
     (case aecmInst of None \<Rightarrow> (None, - 1)
      | Some aecm \<Rightarrow>
          (case echo_path of None \<Rightarrow> (Some aecm, AECM_NULL_POINTER_ERROR)
           | Some path \<Rightarrow>
               if size_bytes \<noteq> WebRtcAecm_echo_path_size_bytes then (Some aecm, AECM_BAD_PARAMETER_ERROR)
               else if initFlag aecm \<noteq> kInitCheck then (Some aecm, AECM_UNINITIALIZED_ERROR)
               else (Some (aecm\<lparr>aecmCore := WebRtcAecm_InitEchoPathCore (aecmCore aecm) path\<rparr>), 0)))"

text \<open>The result is the caller's array and the code.\<close>

definition WebRtcAecm_GetEchoPath :: "AecMobile option \<Rightarrow> int list option \<Rightarrow> nat \<Rightarrow> int list option \<times> int" where
  "WebRtcAecm_GetEchoPath aecmInst echo_path size_bytes =
     (case aecmInst of None \<Rightarrow> (echo_path, - 1)
      | Some aecm \<Rightarrow>
          (case echo_path of None \<Rightarrow> (None, AECM_NULL_POINTER_ERROR)
           | Some path \<Rightarrow>
               if size_bytes \<noteq> WebRtcAecm_echo_path_size_bytes then (echo_path, AECM_BAD_PARAMETER_ERROR)
               else if initFlag aecm \<noteq> kInitCheck then (echo_path, AECM_UNINITIALIZED_ERROR)
               else (Some (blit path 0 (take (size_bytes div 2) (channelStored (aecmCore aecm)))), 0)))"

section \<open>Delay\<close>

definition spl_max :: "int \<Rightarrow> int \<Rightarrow> int" where "spl_max a b = (if a > b then a else b)"
definition spl_min :: "int \<Rightarrow> int \<Rightarrow> int" where "spl_min a b = (if a < b then a else b)"

definition WebRtcAecm_EstBufDelay :: "AecMobile \<Rightarrow> int \<Rightarrow> AecMobile" where
  "WebRtcAecm_EstBufDelay aecm ms =
     (let nSampFar = s16 (int (WebRtc_available_read (Some (farendBuf aecm))));
          nSampSndCard = s16 (ms * kSampMsNb * mult (aecmCore aecm));
          delayNew = s16 (nSampSndCard - nSampFar);
          (aecm, delayNew) = (if delayNew < int FRAME_LEN
             then (aecm\<lparr>farendBuf := fst (WebRtc_MoveReadPtr (farendBuf aecm) (int FRAME_LEN))\<rparr>, s16 (delayNew + int FRAME_LEN))
             else (aecm, delayNew));
          filt = s16 (spl_max 0 (cdiv (8 * filtDelay aecm + 2 * delayNew) 10));
          diff = s16 (filt - instKnownDelay aecm);
          change = (if diff > 224 then (if lastDelayDiff aecm < 96 then 0 else timeForDelayChange aecm + 1)
                    else if diff < 96 \<and> instKnownDelay aecm > 0
                    then (if lastDelayDiff aecm > 224 then 0 else timeForDelayChange aecm + 1)
                    else 0);
          aecm = aecm\<lparr>filtDelay := filt, timeForDelayChange := s32 change, lastDelayDiff := diff\<rparr>
      in if timeForDelayChange aecm > 25 then aecm\<lparr>instKnownDelay := spl_max (filtDelay aecm - 160) 0\<rparr> else aecm)"

definition WebRtcAecm_DelayComp :: "AecMobile \<Rightarrow> AecMobile" where
  "WebRtcAecm_DelayComp aecm =
     (let nSampFar = int (WebRtc_available_read (Some (farendBuf aecm)));
          maxStuffSamp = 10 * int FRAME_LEN;
          nSampSndCard = msInSndCardBuf aecm * kSampMsNb * mult (aecmCore aecm);
          delayNew = nSampSndCard - nSampFar
      in if delayNew > int FAR_BUF_LEN - int FRAME_LEN * mult (aecmCore aecm)
         then let nSampAdd = spl_max (shr nSampSndCard 1 - nSampFar) (int FRAME_LEN);
                  nSampAdd = spl_min nSampAdd maxStuffSamp
              in aecm\<lparr>farendBuf := fst (WebRtc_MoveReadPtr (farendBuf aecm) (- nSampAdd)), delayChange := 1\<rparr>
         else aecm)"

section \<open>Far end\<close>

definition WebRtcAecm_GetBufferFarendError :: "AecMobile option \<Rightarrow> int list option \<Rightarrow> nat \<Rightarrow> int" where
  "WebRtcAecm_GetBufferFarendError aecmInst farend nrOfSamples =
     (case aecmInst of None \<Rightarrow> - 1
      | Some aecm \<Rightarrow>
          if farend = None then AECM_NULL_POINTER_ERROR
          else if initFlag aecm \<noteq> kInitCheck then AECM_UNINITIALIZED_ERROR
          else if nrOfSamples \<noteq> 80 \<and> nrOfSamples \<noteq> 160 then AECM_BAD_PARAMETER_ERROR
          else 0)"

definition WebRtcAecm_BufferFarend :: "AecMobile option \<Rightarrow> int list option \<Rightarrow> nat \<Rightarrow> AecMobile option \<times> int" where
  "WebRtcAecm_BufferFarend aecmInst farend nrOfSamples =
     (let err = WebRtcAecm_GetBufferFarendError aecmInst farend nrOfSamples
      in if err \<noteq> 0 then (aecmInst, err)
         else (case (aecmInst, farend) of
             (Some aecm, Some far) \<Rightarrow>
               let aecm = (if ECstartup aecm = 0 then WebRtcAecm_DelayComp aecm else aecm)
               in (Some (aecm\<lparr>farendBuf := fst (WebRtc_WriteBuffer (farendBuf aecm) far nrOfSamples)\<rparr>), 0)
           | _ \<Rightarrow> (aecmInst, err)))"

section \<open>Start-up\<close>

text \<open>
  The check of the sound card buffer. The source compares the deviation with the larger of 0.2 times the
  buffer size, in double precision, and 8: for the sizes from 10 to 510 the rounded product lies on the same
  side of every integer as the exact one. The counters are compared as \<^verbatim>\<open>size_t\<close>, here of 64 bits.
\<close>

definition stable_size :: "int \<Rightarrow> int \<Rightarrow> bool" where
  "stable_size first ms \<longleftrightarrow> 5 * \<bar>first - ms\<bar> < ms \<or> \<bar>first - ms\<bar> < kSampMsNb"

definition check_buf_size :: "AecMobile \<Rightarrow> int \<Rightarrow> AecMobile" where
  "check_buf_size aecm nBlocks10ms =
     (let ms = msInSndCardBuf aecm;
          ctr = s16 (checkBufSizeCtr aecm + 1);
          (val, acc) = (if counter aecm = 0 then (ms, 0) else (firstVal aecm, sumBuf aecm));
          (acc, count) = (if stable_size val ms then (s16 (acc + ms), s16 (counter aecm + 1)) else (acc, 0));
          (start, check) =
            (if count * nBlocks10ms mod 2 ^ 64 \<ge> 6
             then (s16 (spl_min (cdiv (3 * acc * mult (aecmCore aecm)) (count * 40)) (int BUF_SIZE_FRAMES)), 0)
             else (bufSizeStart aecm, checkBuffSize aecm));
          (start, check) =
            (if ctr * nBlocks10ms mod 2 ^ 64 > 50
             then (s16 (spl_min (cdiv (3 * ms * mult (aecmCore aecm)) 40) (int BUF_SIZE_FRAMES)), 0)
             else (start, check))
      in aecm\<lparr>checkBufSizeCtr := ctr, firstVal := val, sumBuf := acc, counter := count, bufSizeStart := start,
              checkBuffSize := check\<rparr>)"

definition startup_step :: "AecMobile \<Rightarrow> int \<Rightarrow> AecMobile" where
  "startup_step aecm nBlocks10ms =
     (let nmbrOfFilledBuffers = s16 (cdiv (s16 (int (WebRtc_available_read (Some (farendBuf aecm))))) (int FRAME_LEN));
          aecm = (if checkBuffSize aecm \<noteq> 0 then check_buf_size aecm nBlocks10ms else aecm)
      in if checkBuffSize aecm = 0
         then if nmbrOfFilledBuffers = bufSizeStart aecm then aecm\<lparr>ECstartup := 0\<rparr>
              else if nmbrOfFilledBuffers > bufSizeStart aecm
              then aecm\<lparr>farendBuf := fst (WebRtc_MoveReadPtr (farendBuf aecm)
                            (s32 (int (WebRtc_available_read (Some (farendBuf aecm)))) - bufSizeStart aecm * int FRAME_LEN)),
                        ECstartup := 0\<rparr>
              else aecm
         else aecm)"

section \<open>Processing\<close>

text \<open>The far end of frame \<open>i\<close>: the next one of the buffer or, when that is empty, the last one.\<close>

definition next_farend :: "AecMobile \<Rightarrow> nat \<Rightarrow> AecMobile \<times> int list" where
  "next_farend aecm i =
     (let nmbrOfFilledBuffers = s16 (cdiv (s16 (int (WebRtc_available_read (Some (farendBuf aecm))))) (int FRAME_LEN))
      in if nmbrOfFilledBuffers > 0
         then case WebRtc_ReadBuffer (farendBuf aecm) True (replicate FRAME_LEN 0) FRAME_LEN of
                (b, _, ptr, _) \<Rightarrow> (aecm\<lparr>farendBuf := b, farendOld := blit (farendOld aecm) (80 * i) (take FRAME_LEN (the ptr))\<rparr>, the ptr)
         else (aecm, take FRAME_LEN (drop (80 * i) (farendOld aecm))))"

definition process_step ::
    "int list \<Rightarrow> int list option \<Rightarrow> nat \<Rightarrow> AecMobile \<Rightarrow> int list \<Rightarrow> (AecMobile \<times> int list \<times> int) option" where
  "process_step nearendNoisy nearendClean i aecm out =
     (let (aecm, farend) = next_farend aecm i;
          aecm = (if (i = 0 \<and> sampFreq aecm = 8000) \<or> (i = 1 \<and> sampFreq aecm = 16000)
                  then WebRtcAecm_EstBufDelay aecm (msInSndCardBuf aecm) else aecm)
      in case WebRtcAecm_ProcessFrame (aecmCore aecm) farend (take FRAME_LEN (drop (FRAME_LEN * i) nearendNoisy))
                (map_option (\<lambda>c. take FRAME_LEN (drop (FRAME_LEN * i) c)) nearendClean)
                (take FRAME_LEN (drop (FRAME_LEN * i) out)) of
           None \<Rightarrow> None
         | Some (core, frame, r) \<Rightarrow> Some (aecm\<lparr>aecmCore := core\<rparr>, blit out (FRAME_LEN * i) frame, r))"

text \<open>The loop over the frames, from frame \<open>i\<close> on \<open>n\<close> of them; the error of a frame ends it.\<close>

fun process_loop ::
    "int list \<Rightarrow> int list option \<Rightarrow> nat \<Rightarrow> nat \<Rightarrow> AecMobile \<Rightarrow> int list \<Rightarrow> (AecMobile \<times> int list \<times> int) option" where
  "process_loop noisy clean i 0 aecm out = Some (aecm, out, 0)"
| "process_loop noisy clean i (Suc n) aecm out =
     (case process_step noisy clean i aecm out of None \<Rightarrow> None
      | Some (aecm, out, r) \<Rightarrow> if r = - 1 then Some (aecm, out, - 1) else process_loop noisy clean (Suc i) n aecm out)"

definition WebRtcAecm_Process ::
    "AecMobile option \<Rightarrow> int list option \<Rightarrow> int list option \<Rightarrow> int list option \<Rightarrow> nat \<Rightarrow> int \<Rightarrow>
     (AecMobile option \<times> int list option \<times> int) option" where
  "WebRtcAecm_Process aecmInst nearendNoisy nearendClean out nrOfSamples ms =
     (case aecmInst of None \<Rightarrow> Some (None, out, - 1)
      | Some aecm \<Rightarrow>
     (case nearendNoisy of None \<Rightarrow> Some (Some aecm, out, AECM_NULL_POINTER_ERROR)
      | Some noisy \<Rightarrow>
     (case out of None \<Rightarrow> Some (Some aecm, out, AECM_NULL_POINTER_ERROR)
      | Some dst \<Rightarrow>
          if initFlag aecm \<noteq> kInitCheck then Some (Some aecm, out, AECM_UNINITIALIZED_ERROR)
          else if nrOfSamples \<noteq> 80 \<and> nrOfSamples \<noteq> 160 then Some (Some aecm, out, AECM_BAD_PARAMETER_ERROR)
          else let (ms, retVal) = (if ms < 0 then (0, AECM_BAD_PARAMETER_WARNING)
                                   else if ms > 500 then (500, AECM_BAD_PARAMETER_WARNING) else (ms, 0));
                   aecm = aecm\<lparr>msInSndCardBuf := s16 (ms + 10)\<rparr>;
                   nFrames = nrOfSamples div FRAME_LEN;
                   nBlocks10ms = int nFrames div mult (aecmCore aecm)
               in if ECstartup aecm \<noteq> 0
                  then let dst = (case nearendClean of None \<Rightarrow> blit dst 0 (take nrOfSamples noisy)
                                  | Some clean \<Rightarrow> blit dst 0 (take nrOfSamples clean))
                       in Some (Some (startup_step aecm nBlocks10ms), Some dst, retVal)
                  else (case process_loop noisy nearendClean 0 nFrames aecm dst of None \<Rightarrow> None
                        | Some (aecm, dst, r) \<Rightarrow> Some (Some aecm, Some dst, if r = - 1 then - 1 else retVal)))))"

end
