(* ===== verification/Aecm_Api_Inv.thy ===== *)
theory Aecm_Api_Inv
  imports Aecm_Api
begin

unbundle bit_operations_syntax

text \<open>
  What the interface of the mobile echo canceller promises: after its initialisation every sequence of calls
  succeeds, wrong handles and arguments get their error codes without a change of the state, the start-up
  phase decides the size of the far-end buffer in at most 51 calls, and the estimate of the delay stays in range.
\<close>

section \<open>Changes of the core through the interface\<close>

lemma set_gains_core:
  assumes "core_ok a" and "f \<in> {\<lambda>x. shr x 3, \<lambda>x. shr x 2, \<lambda>x. shr x 1, \<lambda>x. x, \<lambda>x. shl x 1}"
  shows "core_ok (set_gains f a)"
proof -
  have "gain_ok (set_gains f a)"
    using assms(2) by (auto simp: gain_ok_def mode_gain_def set_gains_def shr_def shl_def)
  moreover have "adapt_blank (set_gains f a) = adapt_blank (a\<lparr>supGainErrParamA := supGainErrParamA (set_gains f a),
      supGainErrParamD := supGainErrParamD (set_gains f a), supGainErrParamDiffAB := supGainErrParamDiffAB (set_gains f a),
      supGainErrParamDiffBD := supGainErrParamDiffBD (set_gains f a)\<rparr>)"
    by (simp add: set_gains_def adapt_blank_def channels_blank_def)
  moreover have "chan_ok (set_gains f a) = chan_ok a" "levels_ok (set_gains f a) = levels_ok a"
    by (simp_all add: set_gains_def chan_ok_def levels_ok_def)
  ultimately show ?thesis using assms(1)
    by (simp add: core_ok_def adapt_ok_def) (simp add: set_gains_def noise_ok_def delay_ok_def history_ok_def signals_ok_def)
qed

lemma init_echo_path_core:
  assumes "core_ok a" and "length path = 65" "list_all (\<lambda>c. 0 \<le> c \<and> c \<le> 32767) path"
  shows "core_ok (WebRtcAecm_InitEchoPathCore a path)"
proof -
  have "chan_ok (WebRtcAecm_InitEchoPathCore a path)"
    using assms by (intro init_echo_path_chan) (simp_all add: core_ok_def adapt_ok_def chan_ok_def)
  then show ?thesis using assms(1)
    by (simp add: core_ok_def adapt_ok_def)
      (simp add: WebRtcAecm_InitEchoPathCore_def levels_ok_def gain_ok_def mode_gain_def noise_ok_def delay_ok_def history_ok_def signals_ok_def)
qed

lemma core_ok_cng [simp]: "core_ok (a\<lparr>cngMode := x\<rparr>) = core_ok a"
  by (simp add: core_ok_def part_defs)

text \<open>Nothing of that touches the frames.\<close>

lemma frame_inv_same:
  assumes "frame_inv k c a S N" and "core_ok b" and "frame_view b = frame_view a"
  shows "frame_inv k c b S N"
  using assms line_view_far_rep [OF frame_view_line [OF assms(3)]] frame_view_hold [OF assms(3)]
  by (simp add: frame_inv_def) (simp add: frame_view_def)

lemma interface_view:
  "frame_view (set_gains f a) = frame_view a" "frame_view (WebRtcAecm_InitEchoPathCore a path) = frame_view a"
  "frame_view (a\<lparr>cngMode := x\<rparr>) = frame_view a"
  by (simp_all add: set_gains_def WebRtcAecm_InitEchoPathCore_def frame_view_def)

section \<open>The invariant of an instance\<close>

definition core_run :: "bool \<Rightarrow> AecmCore \<Rightarrow> bool" where
  "core_run has_clean a \<longleftrightarrow> (\<exists>k S N. frame_inv k has_clean a S N)"

definition inst_ok :: "bool \<Rightarrow> AecMobile \<Rightarrow> bool" where
  "inst_ok has_clean m \<longleftrightarrow> core_run has_clean (aecmCore m) \<and> rb_ok (farendBuf m) \<and> element_count (farendBuf m) = 4000 \<and>
     length (farendOld m) = 160 \<and> initFlag m = kInitCheck \<and>
     (sampFreq m = 8000 \<and> mult (aecmCore m) = 1 \<or> sampFreq m = 16000 \<and> mult (aecmCore m) = 2) \<and>
     0 \<le> filtDelay m \<and> filtDelay m \<le> 8160 \<and> 0 \<le> instKnownDelay m \<and> instKnownDelay m \<le> 8000 \<and>
     (ECstartup m = 0 \<longrightarrow> 10 \<le> msInSndCardBuf m \<and> msInSndCardBuf m \<le> 510)"

lemma core_run_frame:
  assumes "core_run (clean \<noteq> None) a" and "length far = 80" "length noisy = 80" "\<forall>c. clean = Some c \<longrightarrow> length c = 80"
    and "length out = 80"
  shows "\<exists>a' out'. WebRtcAecm_ProcessFrame a far noisy clean out = Some (a', out', 0) \<and> length out' = 80 \<and> mult a' = mult a \<and>
    core_run (clean \<noteq> None) a'"
  using assms process_frame_ok [OF _ assms(2-5), of _ a] unfolding core_run_def by metis

lemma core_run_same: "core_run c a \<Longrightarrow> core_ok b \<Longrightarrow> frame_view b = frame_view a \<Longrightarrow> core_run c b"
  using frame_inv_same unfolding core_run_def by blast

lemma core_run_ok: "core_run c a \<Longrightarrow> core_ok a"
  by (auto simp: core_run_def frame_inv_def)

lemma avail_range:
  assumes "rb_ok b" and "element_count b = 4000"
  shows "WebRtc_available_read (Some b) = length (queue b)" "length (queue b) \<le> 4000"
    "s16 (int (length (queue b))) = int (length (queue b))" "s32 (int (length (queue b))) = int (length (queue b))"
  using assms queue_room [OF assms(1)] length_queue [OF assms(1)]
  by (auto simp: WebRtc_available_read_def intro!: s16_id s32_id simp: is_s16_def is_s32_def)

section \<open>The estimate of the delay\<close>

lemma est_buf_delay_ok:
  assumes "inst_ok c m" and "10 \<le> ms" "ms \<le> 510"
  shows "inst_ok c (WebRtcAecm_EstBufDelay m ms)"
    and "aecmCore (WebRtcAecm_EstBufDelay m ms) = aecmCore m" "ECstartup (WebRtcAecm_EstBufDelay m ms) = ECstartup m"
    and "timeForDelayChange (WebRtcAecm_EstBufDelay m ms) \<le> 25 \<Longrightarrow> instKnownDelay (WebRtcAecm_EstBufDelay m ms) = instKnownDelay m"
    and "timeForDelayChange (WebRtcAecm_EstBufDelay m ms) > 25 \<Longrightarrow>
      instKnownDelay (WebRtcAecm_EstBufDelay m ms) = max (filtDelay (WebRtcAecm_EstBufDelay m ms) - 160) 0"
proof -
  define b far snd0 where "b = farendBuf m" and "far = int (length (queue b))" and "snd0 = ms * 8 * mult (aecmCore m)"
  have ok: "rb_ok b" "element_count b = 4000" "0 \<le> filtDelay m" "filtDelay m \<le> 8160" "0 \<le> instKnownDelay m" "instKnownDelay m \<le> 8000"
    using assms(1) by (simp_all add: inst_ok_def b_def)
  have snd0: "80 \<le> snd0" "snd0 \<le> 8160" using assms by (auto simp: snd0_def inst_ok_def)
  have far: "0 \<le> far" "far \<le> 4000" using avail_range [OF ok(1,2)] by (simp_all add: far_def)
  have s: "s16 snd0 = snd0" "s16 (snd0 - far) = snd0 - far"
    using snd0 far by (auto intro!: s16_id simp: is_s16_def)
  define d where "d = (if snd0 - far < 80 then snd0 - far + 80 else snd0 - far)"
  define b' where "b' = (if snd0 - far < 80 then fst (WebRtc_MoveReadPtr b 80) else b)"
  have d: "- 3840 \<le> d" "d \<le> 8160" using snd0 far by (auto simp: d_def)
  have b': "rb_ok b'" "element_count b' = 4000" using ok move_ok [OF ok(1)] by (simp_all add: b'_def move_frame)
  define x where "x = 8 * filtDelay m + 2 * d"
  define f where "f = s16 (spl_max 0 (cdiv x 10))"
  have f: "0 \<le> f" "f \<le> 8160"
  proof -
    have "x div 10 < 8161" if "0 \<le> x" using ok(4) d by (simp add: x_def div_less_iff)
    moreover have "0 \<le> x div 10" if "0 \<le> x" using that by simp
    moreover have "cdiv x 10 \<le> 0" if "x < 0" using that by (simp add: cdiv_def)
    ultimately have "0 \<le> spl_max 0 (cdiv x 10) \<and> spl_max 0 (cdiv x 10) \<le> 8160"
      by (cases "0 \<le> x") (auto simp: spl_max_def cdiv_nonneg)
    then show "0 \<le> f" "f \<le> 8160" by (auto simp: f_def s16_id is_s16_def)
  qed
  define diff where "diff = s16 (f - instKnownDelay m)"
  define t where "t = s32 (if diff > 224 then (if lastDelayDiff m < 96 then 0 else timeForDelayChange m + 1)
                    else if diff < 96 \<and> instKnownDelay m > 0
                    then (if lastDelayDiff m > 224 then 0 else timeForDelayChange m + 1) else 0)"
  have sd: "s16 (snd0 - far + 80) = snd0 - far + 80" using snd0 far by (auto intro!: s16_id simp: is_s16_def)
  have e: "WebRtcAecm_EstBufDelay m ms =
      (let n = m\<lparr>farendBuf := b', filtDelay := f, timeForDelayChange := t, lastDelayDiff := diff\<rparr>
       in if t > 25 then n\<lparr>instKnownDelay := spl_max (f - 160) 0\<rparr> else n)"
    unfolding WebRtcAecm_EstBufDelay_def
    using avail_range(1,3) [OF ok(1,2)] s sd
    by (simp add: b_def [symmetric] far_def [symmetric] snd0_def [symmetric] kSampMsNb_def Let_def f_def x_def d_def b'_def diff_def t_def)
  show "inst_ok c (WebRtcAecm_EstBufDelay m ms)"
    using assms(1) b' f by (auto simp: e Let_def inst_ok_def spl_max_def)
  show "aecmCore (WebRtcAecm_EstBufDelay m ms) = aecmCore m" "ECstartup (WebRtcAecm_EstBufDelay m ms) = ECstartup m"
    by (simp_all add: e Let_def)
  show "instKnownDelay (WebRtcAecm_EstBufDelay m ms) = instKnownDelay m" if "timeForDelayChange (WebRtcAecm_EstBufDelay m ms) \<le> 25"
    using that by (simp add: e Let_def split: if_splits)
  show "instKnownDelay (WebRtcAecm_EstBufDelay m ms) = max (filtDelay (WebRtcAecm_EstBufDelay m ms) - 160) 0"
    if "timeForDelayChange (WebRtcAecm_EstBufDelay m ms) > 25"
    using that by (auto simp: e Let_def spl_max_def split: if_splits)
qed

lemma delay_comp_ok: "inst_ok c m \<Longrightarrow> inst_ok c (WebRtcAecm_DelayComp m)"
  by (auto simp: WebRtcAecm_DelayComp_def inst_ok_def Let_def move_ok move_frame)

section \<open>Processing\<close>

lemma next_farend_ok:
  assumes "inst_ok c m" and "i < 2" and "next_farend m i = (m', far)"
  shows "inst_ok c m' \<and> length far = 80 \<and> aecmCore m' = aecmCore m \<and> msInSndCardBuf m' = msInSndCardBuf m \<and>
    ECstartup m' = ECstartup m"
proof -
  define b where "b = farendBuf m"
  have ok: "rb_ok b" "element_count b = 4000" "length (farendOld m) = 160" using assms(1) by (simp_all add: inst_ok_def b_def)
  define q where "q = int (length (queue b)) div 80"
  have q: "s16 (cdiv (s16 (int (WebRtc_available_read (Some b)))) 80) = q"
  proof -
    have "0 \<le> q" "q < 51" using avail_range(2) [OF ok(1,2)] by (simp_all add: q_def div_less_iff)
    then show ?thesis using avail_range(1,3) [OF ok(1,2)] by (simp add: cdiv_nonneg q_def [symmetric] s16_id is_s16_def)
  qed
  show ?thesis
  proof (cases "q > 0")
    case True
    then have "1 \<le> q" by linarith
    then have "80 \<le> length (queue b)" by (simp add: q_def le_div_iff)
    then have p: "WebRtc_ReadBuffer b True (replicate 80 0) 80 =
        (fst (WebRtc_ReadBuffer b True (replicate 80 0) 80), fst (snd (WebRtc_ReadBuffer b True (replicate 80 0) 80)), Some (take 80 (queue b)), 80)"
      using read_eq [OF ok(1), of 80 "replicate 80 0" True] by simp
    define d where "d = fst (WebRtc_ReadBuffer b True (replicate 80 0) 80)"
    have d: "rb_ok d" "element_count d = 4000" using read_state [OF ok(1), of 80 "replicate 80 0" True] ok(2) by (simp_all add: d_def)
    have "m' = m\<lparr>farendBuf := d, farendOld := blit (farendOld m) (80 * i) (take 80 (take 80 (queue b)))\<rparr> \<and> far = take 80 (queue b)"
      using assms(3) True p q unfolding next_farend_def b_def [symmetric] d_def by (auto simp: Let_def split: prod.splits)
    then show ?thesis using assms(1,2) d ok(3) \<open>80 \<le> length (queue b)\<close> by (auto simp: inst_ok_def length_blit)
  next
    case False
    then have "m' = m \<and> far = take 80 (drop (80 * i) (farendOld m))"
      using assms(3) q unfolding next_farend_def b_def [symmetric] by (auto simp: Let_def)
    then show ?thesis using assms(1,2) ok(3) by auto
  qed
qed

lemma process_step_ok:
  assumes "inst_ok (clean \<noteq> None) m" and "10 \<le> msInSndCardBuf m" "msInSndCardBuf m \<le> 510" and "i < n" "n \<le> 2"
    and "length noisy = 80 * n" "\<forall>c. clean = Some c \<longrightarrow> length c = 80 * n" and "length out = 80 * n"
  shows "\<exists>m' out'. process_step noisy clean i m out = Some (m', out', 0) \<and> inst_ok (clean \<noteq> None) m' \<and> length out' = 80 * n \<and>
    msInSndCardBuf m' = msInSndCardBuf m"
proof -
  obtain m1 far where f: "next_farend m i = (m1, far)" by (rule prod.exhaust)
  have m1: "inst_ok (clean \<noteq> None) m1" "length far = 80" "msInSndCardBuf m1 = msInSndCardBuf m"
    using next_farend_ok [OF assms(1) _ f] assms(4,5) by simp_all
  define m2 where "m2 = (if (i = 0 \<and> sampFreq m1 = 8000) \<or> (i = 1 \<and> sampFreq m1 = 16000)
                  then WebRtcAecm_EstBufDelay m1 (msInSndCardBuf m1) else m1)"
  have e: "msInSndCardBuf (WebRtcAecm_EstBufDelay m1 x) = msInSndCardBuf m1" for x
    by (simp add: WebRtcAecm_EstBufDelay_def Let_def split: prod.splits)
  have m2: "inst_ok (clean \<noteq> None) m2" "msInSndCardBuf m2 = msInSndCardBuf m"
    using m1 est_buf_delay_ok(1) [OF m1(1)] assms(2,3) e by (simp_all add: m2_def)
  have i: "80 * i + 80 \<le> 80 * n" using assms(4) by simp
  have l: "length (take 80 (drop (80 * i) noisy)) = 80" "length (take 80 (drop (80 * i) out)) = 80"
    "\<forall>c. map_option (\<lambda>c. take 80 (drop (80 * i) c)) clean = Some c \<longrightarrow> length c = 80"
    using assms(6-8) i by auto
  have cr: "core_run (map_option (\<lambda>c. take 80 (drop (80 * i) c)) clean \<noteq> None) (aecmCore m2)" using m2(1) by (simp add: inst_ok_def)
  obtain a' fr where p: "WebRtcAecm_ProcessFrame (aecmCore m2) far (take 80 (drop (80 * i) noisy))
      (map_option (\<lambda>c. take 80 (drop (80 * i) c)) clean) (take 80 (drop (80 * i) out)) = Some (a', fr, 0)" "length fr = 80"
      "mult a' = mult (aecmCore m2)" "core_run (clean \<noteq> None) a'"
    using core_run_frame [OF cr m1(2) l(1,3,2)] by auto
  have "process_step noisy clean i m out = Some (m2\<lparr>aecmCore := a'\<rparr>, blit out (80 * i) fr, 0)"
    unfolding process_step_def f Let_def prod.case m2_def [symmetric] p(1) by simp
  moreover have "inst_ok (clean \<noteq> None) (m2\<lparr>aecmCore := a'\<rparr>)" using m2(1) p by (simp add: inst_ok_def)
  moreover have "length (blit out (80 * i) fr) = 80 * n" using assms(8) i p(2) by (simp add: length_blit)
  ultimately show ?thesis using m2(2) by auto
qed

lemma process_loop_ok:
  assumes "inst_ok (clean \<noteq> None) m" and "10 \<le> msInSndCardBuf m" "msInSndCardBuf m \<le> 510" and "i + j = n" "n \<le> 2"
    and "length noisy = 80 * n" "\<forall>c. clean = Some c \<longrightarrow> length c = 80 * n" and "length out = 80 * n"
  shows "\<exists>m' out'. process_loop noisy clean i j m out = Some (m', out', 0) \<and> inst_ok (clean \<noteq> None) m' \<and> length out' = 80 * n"
  using assms
proof (induction j arbitrary: i m out)
  case (Suc j)
  have "i < n" using Suc.prems(4) by simp
  from process_step_ok [OF Suc.prems(1-3) this Suc.prems(5-8)]
  obtain m1 out1 where s: "process_step noisy clean i m out = Some (m1, out1, 0)" "inst_ok (clean \<noteq> None) m1" "length out1 = 80 * n"
      "msInSndCardBuf m1 = msInSndCardBuf m"
    by blast
  have "\<exists>m' out'. process_loop noisy clean (Suc i) j m1 out1 = Some (m', out', 0) \<and> inst_ok (clean \<noteq> None) m' \<and> length out' = 80 * n"
    using Suc.prems s by (intro Suc.IH) simp_all
  then show ?case using s by simp
qed simp

section \<open>Start-up\<close>

lemma check_buf_size_frame:
  "aecmCore (check_buf_size m nb) = aecmCore m" "farendBuf (check_buf_size m nb) = farendBuf m"
  "ECstartup (check_buf_size m nb) = ECstartup m" "msInSndCardBuf (check_buf_size m nb) = msInSndCardBuf m"
  by (simp_all add: check_buf_size_def Let_def split_def)

lemma check_buf_size_inst: "inst_ok c (check_buf_size m nb) = inst_ok c m"
  by (simp add: check_buf_size_def Let_def split_def inst_ok_def)

lemma startup_step_ok:
  assumes "inst_ok c m" and "10 \<le> msInSndCardBuf m" "msInSndCardBuf m \<le> 510"
  shows "inst_ok c (startup_step m nb)"
proof -
  define n where "n = (if checkBuffSize m \<noteq> 0 then check_buf_size m nb else m)"
  have n: "inst_ok c n" "10 \<le> msInSndCardBuf n" "msInSndCardBuf n \<le> 510"
    using assms by (simp_all add: n_def check_buf_size_inst check_buf_size_frame)
  then have "inst_ok c (n\<lparr>ECstartup := 0\<rparr>)" "inst_ok c (n\<lparr>farendBuf := fst (WebRtc_MoveReadPtr (farendBuf n) k), ECstartup := 0\<rparr>)" for k
    by (simp_all add: inst_ok_def move_ok move_frame)
  then show ?thesis using n(1) unfolding startup_step_def Let_def n_def [symmetric] by simp
qed

section \<open>Sequences of calls\<close>

datatype api_call =
    Buffer_Farend "int list"
  | Process_Near "int list" "int list option" int
  | Set_Config AecmConfig
  | Init_Echo_Path "int list"

definition api_step :: "AecMobile option \<Rightarrow> api_call \<Rightarrow> (AecMobile option \<times> int) option" where
  "api_step m call =
     (case call of
        Buffer_Farend far \<Rightarrow> Some (WebRtcAecm_BufferFarend m (Some far) (length far))
      | Process_Near noisy clean ms \<Rightarrow>
          (case WebRtcAecm_Process m (Some noisy) clean (Some (replicate (length noisy) 0)) (length noisy) ms of
             None \<Rightarrow> None | Some (m, out, r) \<Rightarrow> Some (m, r))
      | Set_Config config \<Rightarrow> Some (WebRtcAecm_set_config m config)
      | Init_Echo_Path path \<Rightarrow> Some (WebRtcAecm_InitEchoPath m (Some path) 130))"

fun run_api :: "AecMobile option \<Rightarrow> api_call list \<Rightarrow> (AecMobile option \<times> int list) option" where
  "run_api m [] = Some (m, [])"
| "run_api m (c # cs) =
     (case api_step m c of None \<Rightarrow> None
      | Some (m, r) \<Rightarrow> (case run_api m cs of None \<Rightarrow> None | Some (m, rs) \<Rightarrow> Some (m, r # rs)))"

fun call_ok :: "bool \<Rightarrow> api_call \<Rightarrow> bool" where
  "call_ok c (Buffer_Farend far) \<longleftrightarrow> length far = 80 \<or> length far = 160"
| "call_ok c (Process_Near noisy clean ms) \<longleftrightarrow> (length noisy = 80 \<or> length noisy = 160) \<and>
     (case clean of None \<Rightarrow> \<not> c | Some x \<Rightarrow> c \<and> length x = length noisy)"
| "call_ok c (Set_Config config) \<longleftrightarrow> True"
| "call_ok c (Init_Echo_Path path) \<longleftrightarrow> length path = 65 \<and> list_all (\<lambda>p. 0 \<le> p \<and> p \<le> 32767) path"

lemma buffer_farend_ok:
  assumes "inst_ok c m" and "length far = 80 \<or> length far = 160"
  shows "\<exists>m'. WebRtcAecm_BufferFarend (Some m) (Some far) (length far) = (Some m', 0) \<and> inst_ok c m'"
proof -
  define n where "n = (if ECstartup m = 0 then WebRtcAecm_DelayComp m else m)"
  have n: "inst_ok c n" using assms(1) delay_comp_ok by (simp add: n_def)
  then have "inst_ok c (n\<lparr>farendBuf := fst (WebRtc_WriteBuffer (farendBuf n) far (length far))\<rparr>)"
    by (simp add: inst_ok_def write_ok write_frame)
  moreover have "WebRtcAecm_BufferFarend (Some m) (Some far) (length far) =
      (Some (n\<lparr>farendBuf := fst (WebRtc_WriteBuffer (farendBuf n) far (length far))\<rparr>), 0)"
    using assms by (auto simp: WebRtcAecm_BufferFarend_def WebRtcAecm_GetBufferFarendError_def inst_ok_def n_def Let_def)
  ultimately show ?thesis by blast
qed

lemma set_config_ok:
  assumes "inst_ok c m"
  shows "\<exists>m' r. WebRtcAecm_set_config (Some m) config = (Some m', r) \<and> inst_ok c m' \<and> (r = 0 \<or> r = AECM_BAD_PARAMETER_ERROR)"
proof -
  have i: "inst_ok c (m\<lparr>echoMode := e, aecmCore := a\<rparr>)" "inst_ok c (m\<lparr>aecmCore := a\<rparr>)"
    if "core_ok a" "frame_view a = frame_view (aecmCore m)" for a e
  proof -
    have "core_run c a" by (rule core_run_same [OF _ that]) (use assms in \<open>simp add: inst_ok_def\<close>)
    moreover have "mult a = mult (aecmCore m)" using that(2) by (simp add: frame_view_def)
    ultimately show "inst_ok c (m\<lparr>echoMode := e, aecmCore := a\<rparr>)" "inst_ok c (m\<lparr>aecmCore := a\<rparr>)"
      using assms by (simp_all add: inst_ok_def)
  qed
  define b where "b = (aecmCore m)\<lparr>cngMode := config_cngMode config\<rparr>"
  have b: "core_ok b" "frame_view b = frame_view (aecmCore m)"
    using assms core_run_ok by (auto simp: b_def inst_ok_def interface_view)
  have g: "core_ok (set_gains f b)" "frame_view (set_gains f b) = frame_view (aecmCore m)"
    if "f \<in> {\<lambda>x. shr x 3, \<lambda>x. shr x 2, \<lambda>x. shr x 1, \<lambda>x. x, \<lambda>x. shl x 1}" for f
    using set_gains_core [OF b(1) that] b(2) by (simp_all add: interface_view)
  have f: "initFlag m = kInitCheck" using assms by (simp add: inst_ok_def)
  define e where "e = config_echoMode config"
  define d where "d = (if e = 0 then set_gains (\<lambda>x. shr x 3) b else if e = 1 then set_gains (\<lambda>x. shr x 2) b
    else if e = 2 then set_gains (\<lambda>x. shr x 1) b else if e = 3 then set_gains (\<lambda>x. x) b
    else if e = 4 then set_gains (\<lambda>x. shl x 1) b else b)"
  have d: "core_ok d" "frame_view d = frame_view (aecmCore m)"
    unfolding d_def using b g(1) by (auto simp: interface_view)
  have "WebRtcAecm_set_config (Some m) config =
      (if config_cngMode config \<noteq> AecmFalse \<and> config_cngMode config \<noteq> AecmTrue then (Some m, AECM_BAD_PARAMETER_ERROR)
       else if e < 0 \<or> e > 4 then (Some (m\<lparr>aecmCore := b\<rparr>), AECM_BAD_PARAMETER_ERROR)
       else (Some (m\<lparr>echoMode := e, aecmCore := d\<rparr>), 0))"
    unfolding WebRtcAecm_set_config_def option.case Let_def b_def [symmetric] e_def [symmetric] using f by (simp add: d_def)
  then show ?thesis using assms i(2) [OF b] i(1) [OF d, of e] by (auto split: if_splits)
qed

lemma init_echo_path_ok:
  assumes "inst_ok c m" and "length path = 65" "list_all (\<lambda>p. 0 \<le> p \<and> p \<le> 32767) path"
  shows "\<exists>m'. WebRtcAecm_InitEchoPath (Some m) (Some path) 130 = (Some m', 0) \<and> inst_ok c m'"
proof -
  define a where "a = WebRtcAecm_InitEchoPathCore (aecmCore m) path"
  have "core_run c (aecmCore m)" using assms(1) by (simp add: inst_ok_def)
  moreover have "core_ok a" unfolding a_def by (rule init_echo_path_core [OF core_run_ok [OF calculation] assms(2,3)])
  ultimately have "core_run c a" by (rule core_run_same) (simp add: a_def interface_view)
  moreover have "mult a = mult (aecmCore m)" by (simp add: a_def WebRtcAecm_InitEchoPathCore_def)
  ultimately have "inst_ok c (m\<lparr>aecmCore := a\<rparr>)" using assms(1) by (simp add: inst_ok_def)
  then show ?thesis using assms(1)
    by (auto simp: WebRtcAecm_InitEchoPath_def WebRtcAecm_echo_path_size_bytes_def inst_ok_def a_def)
qed

lemma api_process_ok:
  assumes "inst_ok c m" and "call_ok c (Process_Near noisy clean ms)" and "length dst = length noisy"
  shows "\<exists>m' out' r. WebRtcAecm_Process (Some m) (Some noisy) clean (Some dst) (length noisy) ms = Some (Some m', Some out', r) \<and>
    inst_ok c m' \<and> length out' = length noisy \<and> r = (if ms < 0 \<or> ms > 500 then AECM_BAD_PARAMETER_WARNING else 0)"
proof -
  define n where "n = length noisy div 80"
  have n: "length noisy = 80 * n" "n \<le> 2" "length noisy = 80 \<or> length noisy = 160" and cl: "(clean \<noteq> None) = c" "\<forall>x. clean = Some x \<longrightarrow> length x = 80 * n"
    using assms(2) by (auto simp: n_def split: option.splits)
  define s r where "s = (if ms < 0 then 0 else if ms > 500 then 500 else ms)" and "r = (if ms < 0 \<or> ms > 500 then AECM_BAD_PARAMETER_WARNING else 0)"
  have sr: "(if ms < 0 then (0, AECM_BAD_PARAMETER_WARNING) else if ms > 500 then (500, AECM_BAD_PARAMETER_WARNING) else (ms, 0)) = (s, r)"
    by (simp add: s_def r_def)
  have s: "10 \<le> s16 (s + 10)" "s16 (s + 10) \<le> 510" by (auto simp: s_def s16_id is_s16_def)
  define m1 where "m1 = m\<lparr>msInSndCardBuf := s16 (s + 10)\<rparr>"
  have m1: "inst_ok c m1" "10 \<le> msInSndCardBuf m1" "msInSndCardBuf m1 \<le> 510" "initFlag m = kInitCheck"
    using assms(1) s by (simp_all add: m1_def inst_ok_def)
  have out: "length dst = 80 * n" using assms(3) n(1) by simp
  show ?thesis
  proof (cases "ECstartup m1 = 0")
    case True
    obtain m' out' where p: "process_loop noisy clean 0 n m1 dst = Some (m', out', 0)" "inst_ok c m'" "length out' = 80 * n"
      using process_loop_ok [of clean m1 0 n n noisy dst] m1 cl n out by auto
    have "WebRtcAecm_Process (Some m) (Some noisy) clean (Some dst) (length noisy) ms = Some (Some m', Some out', r)"
      using True p(1) n(3) m1(4) unfolding WebRtcAecm_Process_def Let_def option.case sr prod.case m1_def [symmetric] n_def [symmetric]
      by auto
    then show ?thesis using p n(1) by (auto simp: r_def)
  next
    case False
    define out' where "out' = (case clean of None \<Rightarrow> blit dst 0 (take (length noisy) noisy)
                                  | Some x \<Rightarrow> blit dst 0 (take (length noisy) x))"
    have "WebRtcAecm_Process (Some m) (Some noisy) clean (Some dst) (length noisy) ms =
        Some (Some (startup_step m1 (int n div mult (aecmCore m1))), Some out', r)"
      using False n(3) m1(4) unfolding WebRtcAecm_Process_def Let_def option.case sr prod.case m1_def [symmetric] n_def [symmetric] out'_def
      by auto
    moreover have "length out' = length noisy" using cl(2) n(1) out by (auto simp: out'_def length_blit split: option.splits)
    ultimately show ?thesis using startup_step_ok [OF m1(1-3)] by (auto simp: r_def)
  qed
qed

lemma api_step_ok:
  assumes "inst_ok c m" and "call_ok c call"
  shows "\<exists>m' r. api_step (Some m) call = Some (Some m', r) \<and> inst_ok c m' \<and>
    r \<in> {0, AECM_BAD_PARAMETER_WARNING, AECM_BAD_PARAMETER_ERROR}"
proof (cases call)
  case (Process_Near noisy clean ms)
  then show ?thesis using api_process_ok [OF assms(1), of noisy clean ms "replicate (length noisy) 0"] assms(2) by (auto simp: api_step_def)
next
  case (Buffer_Farend far)
  then show ?thesis using buffer_farend_ok [OF assms(1), of far] assms(2) by (auto simp: api_step_def)
next
  case (Set_Config config)
  then show ?thesis using set_config_ok [OF assms(1), of config] by (auto simp: api_step_def)
next
  case (Init_Echo_Path path)
  then show ?thesis using init_echo_path_ok [OF assms(1), of path] assms(2) by (auto simp: api_step_def)
qed

lemma run_api_ok:
  assumes "inst_ok c m" and "list_all (call_ok c) calls"
  shows "\<exists>m' rs. run_api (Some m) calls = Some (Some m', rs) \<and> inst_ok c m' \<and> length rs = length calls \<and>
    list_all (\<lambda>r. r \<in> {0, AECM_BAD_PARAMETER_WARNING, AECM_BAD_PARAMETER_ERROR}) rs"
  using assms
proof (induction calls arbitrary: m)
  case (Cons x calls)
  obtain m1 r where s: "api_step (Some m) x = Some (Some m1, r)" "inst_ok c m1" "r \<in> {0, AECM_BAD_PARAMETER_WARNING, AECM_BAD_PARAMETER_ERROR}"
    using api_step_ok [OF Cons.prems(1), of x] Cons.prems(2) by auto
  obtain m2 rs where t: "run_api (Some m1) calls = Some (Some m2, rs)" "inst_ok c m2" "length rs = length calls"
      "list_all (\<lambda>r. r \<in> {0, AECM_BAD_PARAMETER_WARNING, AECM_BAD_PARAMETER_ERROR}) rs"
    using Cons.IH [OF s(2)] Cons.prems(2) by auto
  then show ?case using s by auto
qed simp

section \<open>Initialisation\<close>

definition inst_memory :: "AecMobile \<Rightarrow> bool" where
  "inst_memory m \<longleftrightarrow> memory_ok (aecmCore m) \<and> length (farendOld m) = 160 \<and> length (data (farendBuf m)) = 4000"

lemma create_inst:
  assumes "WebRtcAecm_Create ok junk = Some m" and "inst_memory junk"
  shows "WebRtcAecm_CreateCore ok (aecmCore junk) = Some (aecmCore m)" "length (farendOld m) = 160"
    "length (data (farendBuf m)) = 4000" "element_count (farendBuf m) = 4000" "initFlag m = 0"
  using assms by (auto simp: WebRtcAecm_Create_def WebRtc_CreateBuffer_def WebRtc_InitBuffer_def inst_memory_def kBufSizeSamp_def
      split: option.splits if_splits)

lemma InitCore_code: "snd (WebRtcAecm_InitCore a fs) = 0 \<or> snd (WebRtcAecm_InitCore a fs) = - 1"
  by (simp add: WebRtcAecm_InitCore_def Let_def split: prod.splits)

lemma InitCore_mult: "WebRtcAecm_InitCore a fs = (b, 0) \<Longrightarrow> mult b = s16 (cdiv (s16 fs) 8000)"
  by (auto simp: WebRtcAecm_InitCore_def Let_def init_buffers_def init_history_def init_levels_def init_filters_def
      WebRtcAecm_InitEchoPathCore_def split: if_splits prod.splits)

lemma init_inst:
  assumes "WebRtcAecm_Create ok junk = Some m0" and "inst_memory junk" and "WebRtcAecm_Init (Some m0) fs = (Some m, 0)"
  shows "inst_ok c m" and "ECstartup m = 1" "checkBuffSize m = 1" "checkBufSizeCtr m = 0" and "sampFreq m = fs"
    and "fs = 8000 \<or> fs = 16000"
proof -
  note c = create_inst [OF assms(1,2)]
  show fs: "fs = 8000 \<or> fs = 16000"
    using assms(3) by (auto simp: WebRtcAecm_Init_def AECM_BAD_PARAMETER_ERROR_def split: if_splits)
  obtain a r where a: "WebRtcAecm_InitCore (aecmCore m0) fs = (a, r)" by (rule prod.exhaust)
  have r: "r = 0" using InitCore_code [of "aecmCore m0" fs] a assms(3) fs
    by (auto simp: WebRtcAecm_Init_def Let_def AECM_UNSPECIFIED_ERROR_def)
  define m1 where "m1 = m0\<lparr>sampFreq := fs, aecmCore := a, farendBuf := WebRtc_InitBuffer (farendBuf m0), initFlag := kInitCheck,
                             delayChange := 1, sumBuf := 0, counter := 0, checkBuffSize := 1, firstVal := 0,
                             ECstartup := 1, bufSizeStart := 0, checkBufSizeCtr := 0, filtDelay := 0,
                             timeForDelayChange := 0, instKnownDelay := 0, lastDelayDiff := 0,
                             farendOld := blit (farendOld m0) 0 (replicate 80 0)\<rparr>"
  have "core_run c a" unfolding core_run_def
    using init_frame_inv [OF c(1) _ a [unfolded r]] assms(2) by (auto simp: inst_memory_def)
  moreover have "mult a = (if fs = 8000 then 1 else 2)"
    using InitCore_mult [OF a [unfolded r]] fs by (auto simp: cdiv_nonneg s16_id is_s16_def)
  ultimately have m1: "inst_ok c m1"
    using c fs by (auto simp: m1_def inst_ok_def InitBuffer_ok length_blit)
  have i: "fst (WebRtcAecm_Init (Some m0) fs) = fst (WebRtcAecm_set_config (Some m1) \<lparr>config_cngMode = AecmTrue, config_echoMode = 3\<rparr>)"
    using fs a r by (auto simp: WebRtcAecm_Init_def Let_def m1_def split: prod.splits)
  have "\<exists>m' r. WebRtcAecm_set_config (Some m1) \<lparr>config_cngMode = AecmTrue, config_echoMode = 3\<rparr> = (Some m', r) \<and> inst_ok c m' \<and>
      ECstartup m' = ECstartup m1 \<and> checkBuffSize m' = checkBuffSize m1 \<and> checkBufSizeCtr m' = checkBufSizeCtr m1 \<and> sampFreq m' = sampFreq m1"
    using set_config_ok [OF m1, of "\<lparr>config_cngMode = AecmTrue, config_echoMode = 3\<rparr>"] m1
    by (auto simp: WebRtcAecm_set_config_def Let_def inst_ok_def)
  then show "inst_ok c m" "ECstartup m = 1" "checkBuffSize m = 1" "checkBufSizeCtr m = 0" "sampFreq m = fs"
    using i assms(3) by (auto simp: m1_def)
qed

definition blank_instance :: AecMobile where
  "blank_instance = \<lparr>sampFreq = 0, bufSizeStart = 0, instKnownDelay = 0, farendOld = replicate 160 0, initFlag = 0, counter = 0,
     sumBuf = 0, firstVal = 0, checkBufSizeCtr = 0, msInSndCardBuf = 0, filtDelay = 0, timeForDelayChange = 0, ECstartup = 0,
     checkBuffSize = 0, delayChange = 0, lastDelayDiff = 0, echoMode = 0,
     farendBuf = blank_ring_buffer\<lparr>data := replicate 4000 0\<rparr>, aecmCore = blank_core\<rparr>"

lemma instance_exists:
  assumes "fs = 8000 \<or> fs = 16000"
  obtains m0 m where "WebRtcAecm_Create (\<lambda>_. True) blank_instance = Some m0" "inst_memory blank_instance"
    "WebRtcAecm_Init (Some m0) fs = (Some m, 0)"
proof -
  have mem: "inst_memory blank_instance"
    by (simp add: inst_memory_def blank_instance_def memory_ok_def blank_core_def blank_ring_buffer_def)
  obtain a0 a where a: "WebRtcAecm_CreateCore (\<lambda>_. True) blank_core = Some a0" "WebRtcAecm_InitCore a0 fs = (a, 0)"
    using init_succeeds [OF assms] by metis
  obtain m0 where m0: "WebRtcAecm_Create (\<lambda>_. True) blank_instance = Some m0" "aecmCore m0 = a0"
    using a(1) by (auto simp: WebRtcAecm_Create_def WebRtc_CreateBuffer_def kBufSizeSamp_def blank_instance_def)
  have "\<exists>m. WebRtcAecm_Init (Some m0) fs = (Some m, 0)"
    using assms m0(2) a(2) by (auto simp: WebRtcAecm_Init_def Let_def WebRtcAecm_set_config_def)
  then show ?thesis using that m0(1) mem by blast
qed

section \<open>Properties\<close>

text \<open>
  C2. After its creation and initialisation an instance takes every sequence of calls: far-end frames,
  near-end frames (all with or all without a clean near end), configurations and echo paths, whatever delays
  are reported. No call leaves an array, each returns 0, the warning about the delay or the error about the
  configuration, the far-end buffer stays well formed with at most 4000 samples, and the delays stay in range.
  The delay that the core applies to the far end stays 0 all the time: the estimate is never handed to it.
\<close>

theorem api_never_fails:
  assumes "WebRtcAecm_Create ok junk = Some m0" and "inst_memory junk" and "WebRtcAecm_Init (Some m0) fs = (Some m, 0)"
    and "list_all (call_ok has_clean) calls"
  shows "\<exists>m' codes. run_api (Some m) calls = Some (Some m', codes) \<and> length codes = length calls \<and>
    list_all (\<lambda>r. r \<in> {0, 12100, 12004}) codes \<and> rb_ok (farendBuf m') \<and> length (queue (farendBuf m')) \<le> 4000 \<and>
    0 \<le> filtDelay m' \<and> filtDelay m' \<le> 8160 \<and> 0 \<le> instKnownDelay m' \<and> instKnownDelay m' \<le> 8000 \<and>
    knownDelay (aecmCore m') = 0"
proof -
  obtain m' codes where r: "run_api (Some m) calls = Some (Some m', codes)" "inst_ok has_clean m'" "length codes = length calls"
      "list_all (\<lambda>r. r \<in> {0, AECM_BAD_PARAMETER_WARNING, AECM_BAD_PARAMETER_ERROR}) codes"
    using run_api_ok [OF init_inst(1) [OF assms(1-3)] assms(4)] by blast
  then show ?thesis using avail_range(2) [of "farendBuf m'"]
    by (auto simp: inst_ok_def core_run_def frame_inv_def AECM_BAD_PARAMETER_WARNING_def AECM_BAD_PARAMETER_ERROR_def)
qed

theorem api_never_fails_witness:
  "\<exists>m0 m m' codes. WebRtcAecm_Create (\<lambda>_. True) blank_instance = Some m0 \<and> WebRtcAecm_Init (Some m0) 8000 = (Some m, 0) \<and>
     run_api (Some m) [Buffer_Farend (replicate 80 5), Process_Near (replicate 80 7) None 40, Set_Config \<lparr>config_cngMode = 0, config_echoMode = 9\<rparr>]
       = Some (Some m', codes) \<and> length codes = 3 \<and> knownDelay (aecmCore m') = 0"
proof -
  obtain m0 m where m: "WebRtcAecm_Create (\<lambda>_. True) blank_instance = Some m0" "inst_memory blank_instance"
    "WebRtcAecm_Init (Some m0) 8000 = (Some m, 0)" using instance_exists [of 8000] by auto
  show ?thesis
    using m(1,3) api_never_fails [OF m, of False "[Buffer_Farend (replicate 80 5), Process_Near (replicate 80 7) None 40,
      Set_Config \<lparr>config_cngMode = 0, config_echoMode = 9\<rparr>]"] by auto
qed

text \<open>
  C30. An echo path that is handed to an instance can be read back as it was.
\<close>

theorem echo_path_round_trip:
  assumes "initFlag m = 42" and "length (channelStored (aecmCore m)) = 65" and "length path = 65" "length buf = 65"
    and "WebRtcAecm_InitEchoPath (Some m) (Some path) 130 = (Some m', r)"
  shows "r = 0 \<and> WebRtcAecm_GetEchoPath (Some m') (Some buf) 130 = (Some path, 0)"
  using assms
  by (auto simp: WebRtcAecm_InitEchoPath_def WebRtcAecm_GetEchoPath_def WebRtcAecm_InitEchoPathCore_def
      WebRtcAecm_echo_path_size_bytes_def kInitCheck_def blit_whole)

theorem echo_path_round_trip_witness:
  "WebRtcAecm_GetEchoPath (fst (WebRtcAecm_InitEchoPath (Some (blank_instance\<lparr>initFlag := 42\<rparr>)) (Some (replicate 65 12)) 130))
     (Some (replicate 65 0)) 130 = (Some (replicate 65 12), 0)"
proof -
  obtain m' r where m: "WebRtcAecm_InitEchoPath (Some (blank_instance\<lparr>initFlag := 42\<rparr>)) (Some (replicate 65 12)) 130 = (Some m', r)"
    by (simp add: WebRtcAecm_InitEchoPath_def WebRtcAecm_echo_path_size_bytes_def kInitCheck_def)
  show ?thesis using echo_path_round_trip [OF _ _ _ _ m, of "replicate 65 0"] m
    by (simp add: blank_instance_def blank_core_def)
qed

end
