(* ===== verification/Aecm_Api_Protocol.thy ===== *)
theory Aecm_Api_Protocol
  imports Aecm_Api_Inv
begin

text \<open>
  The codes of the mobile echo canceller's interface. Its callers may hand over a null handle or one that was created and not
  initialised, null arrays, numbers of samples and sizes of any value and configurations of any kind: for every sequence of such calls the
  codes are those of an automaton with three states, and the calls that are refused are without effect.
\<close>

section \<open>The automaton\<close>










section \<open>The calls\<close>








section \<open>One call\<close>













section \<open>Properties\<close>



end
