(* ===== verification/Aecm_Startup.thy ===== *)
theory Aecm_Startup
  imports Aecm_Api_Inv
begin

unbundle bit_operations_syntax

text \<open>
  The start-up phase of the mobile echo canceller's interface: the near end passes through until the size of
  the sound card buffer is decided and the far-end buffer holds as much; and the estimate of the delay that
  takes over then.
\<close>

section \<open>Decision\<close>

text \<open>The steps of the start-up for a sequence of reported buffer sizes.\<close>

definition startup_calls :: "AecMobile \<Rightarrow> int \<Rightarrow> int list \<Rightarrow> AecMobile" where
  "startup_calls m nb mss = fold (\<lambda>ms m. startup_step (m\<lparr>msInSndCardBuf := ms\<rparr>) nb) mss m"

lemma check_ctr: "checkBufSizeCtr (check_buf_size m nb) = s16 (checkBufSizeCtr m + 1)"
  by (simp add: check_buf_size_def Let_def split_def)

lemma check_decides: "s16 (checkBufSizeCtr m + 1) * nb mod 2 ^ 64 > 50 \<Longrightarrow> checkBuffSize (check_buf_size m nb) = 0"
  by (simp add: check_buf_size_def Let_def split_def)

lemma startup_step_check:
  "checkBuffSize (startup_step m nb) = (if checkBuffSize m \<noteq> 0 then checkBuffSize (check_buf_size m nb) else 0)"
  "checkBuffSize m \<noteq> 0 \<Longrightarrow> checkBufSizeCtr (startup_step m nb) = s16 (checkBufSizeCtr m + 1)"
  by (simp_all add: startup_step_def Let_def check_ctr)

lemma startup_counts:
  assumes "nb = 1 \<or> nb = 2" and "checkBuffSize m = 0 \<or> checkBufSizeCtr m = int j" and "length mss + j \<le> 51" and "j \<le> 50"
  shows "checkBuffSize (startup_calls m nb mss) = 0 \<or> length mss + j < 51 \<and> checkBufSizeCtr (startup_calls m nb mss) = int (length mss + j)"
  using assms
proof (induction mss arbitrary: m j)
  case Nil
  then show ?case by (auto simp: startup_calls_def)
next
  case (Cons ms mss)
  define n where "n = startup_step (m\<lparr>msInSndCardBuf := ms\<rparr>) nb"
  have unfold: "startup_calls m nb (ms # mss) = startup_calls n nb mss" by (simp add: startup_calls_def n_def)
  have stop: "checkBuffSize (startup_calls n nb xs) = 0" if "checkBuffSize n = 0" for n xs
    using that by (induction xs arbitrary: n) (simp_all add: startup_calls_def startup_step_check)
  show ?case
  proof (cases "checkBuffSize n = 0")
    case True
    then show ?thesis using stop unfold by simp
  next
    case False
    then have "checkBuffSize m \<noteq> 0" by (auto simp: n_def startup_step_check split: if_splits)
    then have ctr: "checkBufSizeCtr m = int j" using Cons.prems(2) by simp
    have s: "s16 (int j + 1) = int (Suc j)" using Cons.prems(4) by (simp add: s16_id is_s16_def)
    have c: "checkBufSizeCtr n = int (Suc j)"
      using startup_step_check(2) [of "m\<lparr>msInSndCardBuf := ms\<rparr>" nb] \<open>checkBuffSize m \<noteq> 0\<close> ctr s by (simp add: n_def)
    have "Suc j \<noteq> 51"
    proof
      assume "Suc j = 51"
      then have "s16 (checkBufSizeCtr (m\<lparr>msInSndCardBuf := ms\<rparr>) + 1) * nb mod 2 ^ 64 > 50" using ctr s Cons.prems(1) by auto
      then show False using False check_decides [of "m\<lparr>msInSndCardBuf := ms\<rparr>" nb] \<open>checkBuffSize m \<noteq> 0\<close>
        by (simp add: n_def startup_step_check)
    qed
    then have "Suc j \<le> 50" using Cons.prems(3) by simp
    then show ?thesis using Cons.IH [of n "Suc j"] Cons.prems c unfold by auto
  qed
qed

text \<open>
  C20. However the reported size of the sound card buffer changes, the start-up settles on a size for the
  far-end buffer in at most 51 calls of 10 ms blocks (at 8 kHz with 80 samples, at 16 kHz with 160 samples), or
  26 calls with twice as many.
\<close>

theorem startup_decides:
  assumes "nb = 1 \<or> nb = 2" and "checkBufSizeCtr m = 0" and "51 \<le> length mss"
  shows "checkBuffSize (startup_calls m nb mss) = 0"
proof -
  have "checkBuffSize (startup_calls m nb (take 51 mss)) = 0"
    using startup_counts [of nb m 0 "take 51 mss"] assms by simp
  moreover have "checkBuffSize (startup_calls n nb xs) = 0" if "checkBuffSize n = 0" for n xs
    using that by (induction xs arbitrary: n) (simp_all add: startup_calls_def startup_step_check)
  moreover have "startup_calls m nb mss = startup_calls (startup_calls m nb (take 51 mss)) nb (drop 51 mss)"
    unfolding startup_calls_def by (metis append_take_drop_id comp_apply fold_append)
  ultimately show ?thesis by simp
qed

theorem startup_decides_witness: "checkBuffSize (startup_calls blank_instance 1 (replicate 51 300)) = 0"
  by (rule startup_decides) (simp_all add: blank_instance_def)

section \<open>The end of the start-up\<close>

text \<open>
  The start-up ends only when the size is decided, and then the far-end buffer holds it: its number of whole
  frames is the size that was chosen, the surplus being dropped when there were more.
\<close>

theorem startup_fill:
  assumes "rb_ok (farendBuf m)" and "element_count (farendBuf m) = 4000" and "ECstartup m \<noteq> 0"
    and "ECstartup (startup_step m nb) = 0" and "0 \<le> bufSizeStart (startup_step m nb)"
  shows "checkBuffSize (startup_step m nb) = 0 \<and>
    int (length (queue (farendBuf (startup_step m nb))) div 80) = bufSizeStart (startup_step m nb)"
proof -
  define n where "n = (if checkBuffSize m \<noteq> 0 then check_buf_size m nb else m)"
  define b where "b = farendBuf m"
  have n: "farendBuf n = b" "ECstartup n \<noteq> 0" using assms(3) by (simp_all add: n_def check_buf_size_frame b_def)
  define q where "q = int (length (queue b) div 80)"
  note av = avail_range [OF assms(1,2)]
  have q: "s16 (cdiv (s16 (int (WebRtc_available_read (Some b)))) 80) = q"
  proof -
    have "length (queue b) div 80 \<le> 50" using av(2) by (simp add: b_def)
    then have "0 \<le> q" "q < 51" by (simp_all add: q_def)
    moreover have "int (length (queue b)) div 80 = q" by (simp add: q_def zdiv_int)
    ultimately show ?thesis using av(1,3) by (simp add: cdiv_nonneg b_def [symmetric] s16_id is_s16_def)
  qed
  have s: "startup_step m nb = (if checkBuffSize n = 0
         then if q = bufSizeStart n then n\<lparr>ECstartup := 0\<rparr>
              else if q > bufSizeStart n
              then n\<lparr>farendBuf := fst (WebRtc_MoveReadPtr b (int (length (queue b)) - bufSizeStart n * 80)), ECstartup := 0\<rparr>
              else n
         else n)"
    using av(1,4) q unfolding startup_step_def Let_def n_def [symmetric] by (simp add: b_def [symmetric] n)
  have c: "checkBuffSize n = 0" "bufSizeStart n \<le> q" using assms(4) n(2) by (auto simp: s split: if_splits)
  have f: "bufSizeStart (startup_step m nb) = bufSizeStart n" "checkBuffSize (startup_step m nb) = 0" using c(1) by (simp_all add: s)
  show ?thesis
  proof (cases "q = bufSizeStart n")
    case True
    then show ?thesis using c f by (simp add: s n q_def)
  next
    case False
    define w where "w = nat (bufSizeStart n)"
    have w: "bufSizeStart n = int w" using assms(5) f(1) by (simp add: w_def)
    have "w < length (queue b) div 80" using False c(2) w by (simp add: q_def)
    then have le: "80 * w \<le> length (queue b)" by simp
    have "int (length (queue b)) - bufSizeStart n * 80 = int (length (queue b) - 80 * w)" using le w by simp
    then have "queue (fst (WebRtc_MoveReadPtr b (int (length (queue b)) - bufSizeStart n * 80))) = drop (length (queue b) - 80 * w) (queue b)"
      using move_forward [of b "length (queue b) - 80 * w"] assms(1) by (simp add: b_def)
    then have "length (queue (farendBuf (startup_step m nb))) = 80 * w"
      using False c le by (simp add: s)
    then show ?thesis using f w by simp
  qed
qed

theorem startup_fill_witness:
  "ECstartup (startup_step (blank_instance\<lparr>ECstartup := 1, farendBuf := blank_ring_buffer\<lparr>element_count := 4000, data := replicate 4000 0\<rparr>\<rparr>) 1) = 0 \<and>
   length (queue (farendBuf (startup_step (blank_instance\<lparr>ECstartup := 1,
     farendBuf := blank_ring_buffer\<lparr>element_count := 4000, data := replicate 4000 0\<rparr>\<rparr>) 1))) div 80 = 0"
proof -
  define m where "m = blank_instance\<lparr>ECstartup := 1, farendBuf := blank_ring_buffer\<lparr>element_count := 4000, data := replicate 4000 0\<rparr>\<rparr>"
  have ok: "rb_ok (farendBuf m)" "element_count (farendBuf m) = 4000" "ECstartup m \<noteq> 0"
    by (simp_all add: m_def rb_ok_def blank_ring_buffer_def)
  have "WebRtc_available_read (Some (farendBuf m)) = 0"
    by (simp add: m_def WebRtc_available_read_def available_read_def size_sub_def blank_ring_buffer_def)
  then have e: "ECstartup (startup_step m 1) = 0" "bufSizeStart (startup_step m 1) = 0"
    by (simp_all add: startup_step_def Let_def cdiv_nonneg s16_id is_s16_def) (simp_all add: m_def blank_instance_def)
  show ?thesis using startup_fill [OF ok, of 1] e by (simp add: m_def)
qed

text \<open>The calls with the output arrays of the near end, one for each of its frames.\<close>

definition output_step :: "AecMobile option \<Rightarrow> api_call \<Rightarrow> (AecMobile option \<times> int list list) option" where
  "output_step m call =
     (case call of
        Process_Near noisy clean ms \<Rightarrow>
          map_option (\<lambda>(m, out, r). (m, [the out]))
            (WebRtcAecm_Process m (Some noisy) clean (Some (replicate (length noisy) 0)) (length noisy) ms)
      | _ \<Rightarrow> map_option (\<lambda>(m, r). (m, [])) (api_step m call))"

fun run_outputs :: "AecMobile option \<Rightarrow> api_call list \<Rightarrow> (AecMobile option \<times> int list list) option" where
  "run_outputs m [] = Some (m, [])"
| "run_outputs m (c # cs) =
     (case output_step m c of None \<Rightarrow> None
      | Some (m, out) \<Rightarrow> (case run_outputs m cs of None \<Rightarrow> None | Some (m, outs) \<Rightarrow> Some (m, out @ outs)))"

text \<open>The near end as it comes in: the clean one where there is one.\<close>

definition near_end :: "api_call \<Rightarrow> int list list" where
  "near_end call = (case call of Process_Near noisy None ms \<Rightarrow> [noisy] | Process_Near noisy (Some clean) ms \<Rightarrow> [clean] | _ \<Rightarrow> [])"

fun short_frames :: "api_call \<Rightarrow> bool" where
  "short_frames (Process_Near noisy clean ms) = (length noisy = 80)"
| "short_frames _ = True"

definition starting :: "bool \<Rightarrow> AecMobile \<Rightarrow> bool" where
  "starting c m \<longleftrightarrow> inst_ok c m \<and> sampFreq m = 16000 \<and> ECstartup m = 1 \<and> checkBuffSize m = 1"

lemma starting_process:
  assumes "starting c m" and "call_ok c (Process_Near noisy clean ms)" and "length noisy = 80"
  shows "\<exists>m'. output_step (Some m) (Process_Near noisy clean ms) = Some (Some m', near_end (Process_Near noisy clean ms)) \<and> starting c m'"
proof -
  have m: "inst_ok c m" "mult (aecmCore m) = 2" "initFlag m = 42" "ECstartup m \<noteq> 0"
    using assms(1) by (auto simp: starting_def inst_ok_def kInitCheck_def)
  define s r where "s = (if ms < 0 then 0 else if ms > 500 then 500 else ms)" and "r = (if ms < 0 \<or> ms > 500 then AECM_BAD_PARAMETER_WARNING else 0)"
  have sr: "(if ms < 0 then (0, AECM_BAD_PARAMETER_WARNING) else if ms > 500 then (500, AECM_BAD_PARAMETER_WARNING) else (ms, 0)) = (s, r)"
    by (simp add: s_def r_def)
  have s: "10 \<le> s16 (s + 10)" "s16 (s + 10) \<le> 510" by (auto simp: s_def s16_id is_s16_def)
  define m1 where "m1 = m\<lparr>msInSndCardBuf := s16 (s + 10)\<rparr>"
  define n where "n = startup_step m1 0"
  have c0: "checkBuffSize (check_buf_size k 0) = checkBuffSize k" "sampFreq (check_buf_size k 0) = sampFreq k" for k
    by (simp_all add: check_buf_size_def Let_def split_def)
  have "inst_ok c m1" "10 \<le> msInSndCardBuf m1" "msInSndCardBuf m1 \<le> 510" using m(1) s by (simp_all add: m1_def inst_ok_def)
  then have "inst_ok c n" unfolding n_def by (rule startup_step_ok)
  moreover have "checkBuffSize m1 = 1" "ECstartup m1 = 1" "sampFreq m1 = 16000" using assms(1) by (simp_all add: m1_def starting_def)
  then have "n = check_buf_size m1 0" by (simp add: n_def startup_step_def Let_def c0)
  then have "ECstartup n = 1" "checkBuffSize n = 1" "sampFreq n = 16000"
    using \<open>checkBuffSize m1 = 1\<close> \<open>ECstartup m1 = 1\<close> \<open>sampFreq m1 = 16000\<close> by (simp_all add: c0 check_buf_size_frame)
  moreover have "\<exists>x. near_end (Process_Near noisy clean ms) = [x] \<and> length x = 80 \<and>
      (case clean of None \<Rightarrow> blit (replicate 80 0) 0 (take 80 noisy) | Some x \<Rightarrow> blit (replicate 80 0) 0 (take 80 x)) = x"
    using assms(2,3) by (cases clean) (auto simp: near_end_def blit_whole)
  then obtain x where x: "near_end (Process_Near noisy clean ms) = [x]"
      "(case clean of None \<Rightarrow> blit (replicate 80 0) 0 (take 80 noisy) | Some x \<Rightarrow> blit (replicate 80 0) 0 (take 80 x)) = x" by blast
  have m1: "ECstartup m1 \<noteq> 0" "mult (aecmCore m1) = 2" using m(2,4) by (simp_all add: m1_def)
  have "WebRtcAecm_Process (Some m) (Some noisy) clean (Some (replicate 80 0)) 80 ms = Some (Some n, Some x, r)"
    using m(3) m1 unfolding WebRtcAecm_Process_def Let_def option.case sr prod.case m1_def [symmetric] x(2)
    by (simp add: kInitCheck_def n_def)
  ultimately show ?thesis using assms(3) x(1) by (simp add: output_step_def starting_def)
qed

lemma starting_step:
  assumes "starting c m" and "call_ok c call" and "short_frames call"
  shows "\<exists>m'. output_step (Some m) call = Some (Some m', near_end call) \<and> starting c m'"
proof (cases call)
  case (Process_Near noisy clean ms)
  then show ?thesis using starting_process [OF assms(1)] assms(2,3) by simp
next
  case (Buffer_Farend far)
  obtain m' where "WebRtcAecm_BufferFarend (Some m) (Some far) (length far) = (Some m', 0)" "inst_ok c m'"
    using buffer_farend_ok [of c m far] assms(1,2) Buffer_Farend by (auto simp: starting_def)
  moreover from this have "sampFreq m' = sampFreq m \<and> ECstartup m' = ECstartup m \<and> checkBuffSize m' = checkBuffSize m"
    using assms(1) by (auto simp: WebRtcAecm_BufferFarend_def Let_def starting_def split: if_splits)
  ultimately show ?thesis using assms(1) Buffer_Farend by (simp add: output_step_def api_step_def near_end_def starting_def)
next
  case (Set_Config config)
  obtain m' r where "WebRtcAecm_set_config (Some m) config = (Some m', r)" "inst_ok c m'"
    using set_config_ok [of c m config] assms(1) by (auto simp: starting_def)
  moreover from this have "sampFreq m' = sampFreq m \<and> ECstartup m' = ECstartup m \<and> checkBuffSize m' = checkBuffSize m"
    by (auto simp: WebRtcAecm_set_config_def Let_def split: if_splits)
  ultimately show ?thesis using assms(1) Set_Config by (simp add: output_step_def api_step_def near_end_def starting_def)
next
  case (Init_Echo_Path path)
  obtain m' where "WebRtcAecm_InitEchoPath (Some m) (Some path) 130 = (Some m', 0)" "inst_ok c m'"
    using init_echo_path_ok [of c m path] assms(1,2) Init_Echo_Path by (auto simp: starting_def)
  moreover from this have "sampFreq m' = sampFreq m \<and> ECstartup m' = ECstartup m \<and> checkBuffSize m' = checkBuffSize m"
    by (auto simp: WebRtcAecm_InitEchoPath_def split: if_splits)
  ultimately show ?thesis using assms(1) Init_Echo_Path by (simp add: output_step_def api_step_def near_end_def starting_def)
qed

text \<open>
  C21. At 16 kHz with near-end frames of 80 samples the number of 10 ms blocks is rounded down to zero, and the start-up never ends: from its
  initialisation on, whatever far-end frames, delays, configurations and echo paths come between them, the canceller accepts the near-end frames
  (all with or all without a clean near end) and hands every one out unchanged, for ever.
\<close>

theorem startup_never_ends:
  assumes "WebRtcAecm_Create ok junk = Some m0" and "inst_memory junk" and "WebRtcAecm_Init (Some m0) 16000 = (Some m, 0)"
    and "list_all (call_ok has_clean) calls" and "list_all short_frames calls"
  shows "\<exists>m'. run_outputs (Some m) calls = Some (Some m', concat (map near_end calls)) \<and> ECstartup m' = 1"
proof -
  have run: "\<exists>m'. run_outputs (Some m) calls = Some (Some m', concat (map near_end calls)) \<and> starting has_clean m'"
    if "starting has_clean m" "list_all (call_ok has_clean) calls" "list_all short_frames calls" for m calls
    using that
  proof (induction calls arbitrary: m)
    case (Cons x calls)
    obtain m1 where m1: "output_step (Some m) x = Some (Some m1, near_end x)" "starting has_clean m1"
      using starting_step [OF Cons.prems(1), of x] Cons.prems(2,3) by auto
    obtain m' where "run_outputs (Some m1) calls = Some (Some m', concat (map near_end calls))" "starting has_clean m'"
      using Cons.IH [OF m1(2)] Cons.prems(2,3) by auto
    then show ?case using m1(1) by simp
  qed simp
  have "starting has_clean m" using init_inst(1) [OF assms(1-3), of has_clean] init_inst(2-) [OF assms(1-3)] by (simp add: starting_def)
  then show ?thesis using run [OF _ assms(4,5)] unfolding starting_def by blast
qed

theorem startup_never_ends_witness:
  "\<exists>m0 m m'. WebRtcAecm_Create (\<lambda>_. True) blank_instance = Some m0 \<and> WebRtcAecm_Init (Some m0) 16000 = (Some m, 0) \<and>
     run_outputs (Some m) (concat (replicate 100 [Buffer_Farend (replicate 160 9), Process_Near (replicate 80 1) None 40])) =
       Some (Some m', replicate 100 (replicate 80 1)) \<and> ECstartup m' = 1"
proof -
  let ?calls = "concat (replicate 100 [Buffer_Farend (replicate 160 9), Process_Near (replicate 80 1) None 40])"
  obtain m0 m where m: "WebRtcAecm_Create (\<lambda>_. True) blank_instance = Some m0" "inst_memory blank_instance"
    "WebRtcAecm_Init (Some m0) 16000 = (Some m, 0)" using instance_exists [of 16000] by auto
  have "list_all (call_ok False) ?calls" "list_all short_frames ?calls" by (auto simp: list_all_iff)
  then obtain m' where "run_outputs (Some m) ?calls = Some (Some m', concat (map near_end ?calls))" "ECstartup m' = 1"
    using startup_never_ends [OF m, of False ?calls] by blast
  moreover have "concat (map near_end (concat (replicate k [Buffer_Farend (replicate 160 9), Process_Near (replicate 80 1) None 40]))) =
      replicate k (replicate 80 1)" for k
    by (induction k) (simp_all add: near_end_def)
  ultimately show ?thesis using m(1,3) by metis
qed

section \<open>The estimate of the delay\<close>

text \<open>
  The smoothed delay stays between 0 and 8160 samples and the known delay between 0 and 8000; the known
  delay changes only after the deviation has been out of its band for more than 25 estimates in a row, and then
  it is 160 samples below the smoothed delay, but not negative.
\<close>

theorem delay_estimate:
  assumes "inst_ok c m" and "10 \<le> ms" "ms \<le> 510"
  shows "0 \<le> filtDelay (WebRtcAecm_EstBufDelay m ms) \<and> filtDelay (WebRtcAecm_EstBufDelay m ms) \<le> 8160 \<and>
    0 \<le> instKnownDelay (WebRtcAecm_EstBufDelay m ms) \<and> instKnownDelay (WebRtcAecm_EstBufDelay m ms) \<le> 8000 \<and>
    instKnownDelay (WebRtcAecm_EstBufDelay m ms) =
      (if timeForDelayChange (WebRtcAecm_EstBufDelay m ms) > 25 then max (filtDelay (WebRtcAecm_EstBufDelay m ms) - 160) 0
       else instKnownDelay m)"
proof -
  note e = est_buf_delay_ok [OF assms]
  have "inst_ok c (WebRtcAecm_EstBufDelay m ms)" by (rule e)
  then show ?thesis using e(4,5) by (auto simp: inst_ok_def)
qed

theorem delay_estimate_witness:
  "\<exists>m0 m. WebRtcAecm_Create (\<lambda>_. True) blank_instance = Some m0 \<and> WebRtcAecm_Init (Some m0) 8000 = (Some m, 0) \<and>
     0 \<le> filtDelay (WebRtcAecm_EstBufDelay m 60) \<and> filtDelay (WebRtcAecm_EstBufDelay m 60) \<le> 8160"
proof -
  obtain m0 m where m: "WebRtcAecm_Create (\<lambda>_. True) blank_instance = Some m0" "inst_memory blank_instance"
    "WebRtcAecm_Init (Some m0) 8000 = (Some m, 0)" using instance_exists [of 8000] by auto
  show ?thesis using m(1,3) delay_estimate [OF init_inst(1) [OF m, of True], of 60] by auto
qed

end
