(* ===== verification/Apm_Types.thy ===== *)
theory Apm_Types
  imports Prelude
begin

text \<open>
  What the layers share of the interface of the audio processing module (\<^verbatim>\<open>include/audio_processing.h\<close>): the codes it
  returns, frames of interleaved samples, formats and routing modes.
\<close>

section \<open>Codes\<close>

definition kNoError :: int where "kNoError = 0"
definition kUnspecifiedError :: int where "kUnspecifiedError = - 1"
definition kCreationFailedError :: int where "kCreationFailedError = - 2"
definition kUnsupportedComponentError :: int where "kUnsupportedComponentError = - 3"
definition kUnsupportedFunctionError :: int where "kUnsupportedFunctionError = - 4"
definition kNullPointerError :: int where "kNullPointerError = - 5"
definition kBadParameterError :: int where "kBadParameterError = - 6"
definition kBadSampleRateError :: int where "kBadSampleRateError = - 7"
definition kBadDataLengthError :: int where "kBadDataLengthError = - 8"
definition kBadNumberChannelsError :: int where "kBadNumberChannelsError = - 9"
definition kStreamParameterNotSetError :: int where "kStreamParameterNotSetError = - 11"
definition kNotEnabledError :: int where "kNotEnabledError = - 12"
definition kBadStreamParameterWarning :: int where "kBadStreamParameterWarning = - 13"

datatype RoutingMode = kQuietEarpieceOrHeadset | kEarpiece | kLoudEarpiece | kSpeakerphone | kLoudSpeakerphone

section \<open>Frames and formats\<close>

record AudioFrame =
  num_channels :: int
  sample_rate_hz :: int
  samples_per_channel :: int
  frame_data :: "int list"

definition kMaxDataSizeSamples :: nat where "kMaxDataSizeSamples = 3840"

definition new_AudioFrame :: AudioFrame where
  "new_AudioFrame = \<lparr>num_channels = 0, sample_rate_hz = 0, samples_per_channel = 0, frame_data = replicate kMaxDataSizeSamples 0\<rparr>"

text \<open>A stream is its rate and its number of channels.\<close>

record ProcessingConfig =
  input_stream :: "int \<times> int"
  output_stream :: "int \<times> int"
  reverse_input_stream :: "int \<times> int"
  reverse_output_stream :: "int \<times> int"

end
