(* ===== verification/Native_Aec.thy ===== *)
theory Native_Aec
  imports Float32 Apm_Types
begin

text \<open>
  The native layer of the Android library (\<^verbatim>\<open>jni/native\<close>): the global audio processing module and its two
  frames (\<^verbatim>\<open>webrtc_aec.cpp\<close>), the handle and the loop over 10 ms blocks (\<^verbatim>\<open>audio_aec.cpp\<close>), and the functions
  that Java calls (\<^verbatim>\<open>com_android_aec_util_WebRtcUtil.c\<close>).

  The module behind \<^verbatim>\<open>AudioProcessing\<close> is a parameter: a record of the operations the layer calls, on a state
  of any type. Null pointers are \<open>None\<close>, the heap of handles is a map from addresses, and an operation that would
  follow a null or dangling pointer, leave an array, divide by zero or convert a float that does not fit gives
  \<open>None\<close>. The numbers of modules and frames that were created and not deleted are counted, since the globals
  can lose them. Byte arrays are lists of bytes in \<open>0..255\<close>; samples are little-endian.
\<close>

section \<open>The audio processing module\<close>

text \<open>The settings the layer makes, with the names of the calls.\<close>

datatype Suppression = kLowSuppression | kModerateSuppression | kHighSuppression
datatype NsLevel = kLow | kModerate | kHigh | kVeryHigh

datatype apm_setting =
    HighPass_Enable bool
  | Aec_Enable bool | Aec_drift_compensation bool | Aec_suppression_level Suppression | Aec_metrics bool | Aec_delay_logging bool
  | Aecm_Enable bool | Aecm_routing_mode RoutingMode | Aecm_comfort_noise bool
  | Ns_Enable bool | Ns_level NsLevel

record apm_config =
  extended_filter :: bool
  delay_agnostic :: bool
  experimental_agc :: "bool \<times> int"
  experimental_ns :: bool
  intelligibility :: bool

record 'a apm_ops =
  create_apm :: "apm_config \<Rightarrow> 'a option"
  initialize_apm :: "'a \<Rightarrow> ProcessingConfig \<Rightarrow> 'a \<times> int"
  apply_setting :: "apm_setting \<Rightarrow> 'a \<Rightarrow> 'a"
  aec_is_enabled :: "'a \<Rightarrow> bool"
  ProcessReverseStream :: "'a \<Rightarrow> AudioFrame \<Rightarrow> 'a \<times> AudioFrame \<times> int"
  set_stream_delay_ms :: "'a \<Rightarrow> int \<Rightarrow> 'a"
  ProcessStream :: "'a \<Rightarrow> AudioFrame \<Rightarrow> 'a \<times> AudioFrame \<times> int"

section \<open>State\<close>

record aec_handle =
  magic :: int
  sample_rate :: int

record 'a native =
  apm :: "'a option"
  far_frame :: "AudioFrame option"
  near_frame :: "AudioFrame option"
  SAMPLE_RATE :: int
  live_apms :: nat
  live_frames :: nat
  handles :: "nat \<Rightarrow> aec_handle option"
  next_handle :: nat
  handle :: "nat option"

definition CHANNEL_NUM :: int where "CHANNEL_NUM = 1"
definition SAMPLE_TIME :: int where "SAMPLE_TIME = 10"
definition AGC_MAX_VOLUMN :: int where "AGC_MAX_VOLUMN = 255"
definition agc_start_volumn :: int where "agc_start_volumn = 85"
definition AP_AEC_MAGIC :: int where "AP_AEC_MAGIC = 97 * 2 ^ 24 + 101 * 2 ^ 16 + 99 * 2 ^ 8 + 48"

text \<open>The globals when the library has been loaded.\<close>

definition loaded :: "'a native" where
  "loaded = \<lparr>apm = None, far_frame = None, near_frame = None, SAMPLE_RATE = 8000, live_apms = 0, live_frames = 0,
     handles = (\<lambda>_. None), next_handle = 0, handle = None\<rparr>"

section \<open>Samples\<close>

definition float_to_short :: "float32 \<Rightarrow> int option" where
  "float_to_short x = (let n = (if 0 \<le> x then \<lfloor>x\<rfloor> else \<lceil>x\<rceil>) in if is_s16 n then Some n else None)"

fun all_some :: "'b option list \<Rightarrow> 'b list option" where
  "all_some [] = Some []"
| "all_some (None # xs) = None"
| "all_some (Some x # xs) = map_option ((#) x) (all_some xs)"

definition scale_samples :: "int list \<Rightarrow> float32 \<Rightarrow> int list option" where
  "scale_samples buf v = all_some (map (\<lambda>x. float_to_short (fmul (float_of_int x) v)) buf)"

definition short_at :: "int list \<Rightarrow> nat \<Rightarrow> int" where
  "short_at bytes i = s16 (bytes ! i + 256 * bytes ! (i + 1))"

definition read_shorts :: "int list \<Rightarrow> nat \<Rightarrow> nat \<Rightarrow> int list option" where
  "read_shorts bytes offset n =
     (if offset + 2 * n \<le> length bytes then Some (map (\<lambda>k. short_at bytes (offset + 2 * k)) [0..<n]) else None)"

definition short_bytes :: "int \<Rightarrow> int list" where
  "short_bytes x = [x mod 256, x div 256 mod 256]"

definition write_shorts :: "int list \<Rightarrow> nat \<Rightarrow> int list \<Rightarrow> int list option" where
  "write_shorts bytes offset xs =
     (if offset + 2 * length xs \<le> length bytes then Some (blit bytes offset (concat (map short_bytes xs))) else None)"

section \<open>The global module\<close>

definition apm_settings :: "apm_setting list" where
  "apm_settings = [HighPass_Enable True, Aec_Enable True, Aec_drift_compensation False,
     Aec_suppression_level kHighSuppression, Aec_metrics True, Aec_delay_logging True]"

definition aecm_settings :: "apm_setting list" where
  "aecm_settings = [Aecm_Enable True, Aecm_routing_mode kSpeakerphone, Aecm_comfort_noise True]"

definition ns_settings :: "apm_setting list" where
  "ns_settings = [Ns_Enable True, Ns_level kModerate]"

definition configure_apm :: "'a apm_ops \<Rightarrow> 'a \<Rightarrow> 'a" where
  "configure_apm ops a =
     (let a = fold (apply_setting ops) apm_settings a;
          a = (if \<not> aec_is_enabled ops a then fold (apply_setting ops) aecm_settings a else a)
      in fold (apply_setting ops) ns_settings a)"

definition ingenic_apm_init :: "'a apm_ops \<Rightarrow> int \<Rightarrow> 'a native \<Rightarrow> 'a native \<times> int" where
  "ingenic_apm_init ops rate g =
     (let g = g\<lparr>SAMPLE_RATE := rate\<rparr>;
          config = \<lparr>extended_filter = True, delay_agnostic = False, experimental_agc = (False, agc_start_volumn),
                    experimental_ns = False, intelligibility = False\<rparr>
      in if agc_start_volumn > AGC_MAX_VOLUMN then (g, - 1)
         else case create_apm ops config of
                None \<Rightarrow> (g\<lparr>apm := None\<rparr>, - 1)
              | Some a \<Rightarrow>
                  let (a, r) = initialize_apm ops a
                        \<lparr>input_stream = (rate, CHANNEL_NUM), output_stream = (rate, CHANNEL_NUM),
                         reverse_input_stream = (rate, CHANNEL_NUM), reverse_output_stream = (rate, CHANNEL_NUM)\<rparr>;
                      g = g\<lparr>live_apms := live_apms g + 1\<rparr>
                  in if r \<noteq> 0 then (g\<lparr>apm := Some a\<rparr>, - 1)
                     else (g\<lparr>apm := Some (configure_apm ops a), far_frame := Some new_AudioFrame,
                             near_frame := Some new_AudioFrame, live_frames := live_frames g + 2\<rparr>, 0))"

text \<open>The frame that a block of samples is put into, and the number of samples it takes.\<close>

definition frame_samples :: "int \<Rightarrow> int" where
  "frame_samples rate = cdiv (s32 (rate * SAMPLE_TIME)) 1000"

definition fill_frame :: "'a native \<Rightarrow> AudioFrame \<Rightarrow> int list \<Rightarrow> nat \<Rightarrow> float32 \<Rightarrow> AudioFrame option" where
  "fill_frame g f bytes offset v =
     (let n = frame_samples (SAMPLE_RATE g)
      in if nat n > kMaxDataSizeSamples then None
         else case read_shorts bytes offset (nat n) of None \<Rightarrow> None
              | Some buf \<Rightarrow>
                  (case scale_samples buf v of None \<Rightarrow> None
                   | Some xs \<Rightarrow> Some (f\<lparr>num_channels := CHANNEL_NUM, sample_rate_hz := SAMPLE_RATE g,
                                       samples_per_channel := n, frame_data := blit (frame_data f) 0 xs\<rparr>)))"

definition ingenic_apm_set_far_frame ::
    "'a apm_ops \<Rightarrow> int list \<Rightarrow> nat \<Rightarrow> float32 \<Rightarrow> 'a native \<Rightarrow> ('a native \<times> int) option" where
  "ingenic_apm_set_far_frame ops bytes offset far_v g =
     (case far_frame g of None \<Rightarrow> None
      | Some f \<Rightarrow>
     (case fill_frame g f bytes offset far_v of None \<Rightarrow> None
      | Some f \<Rightarrow>
     (case apm g of None \<Rightarrow> None
      | Some a \<Rightarrow> let (a, f, r) = ProcessReverseStream ops a f in Some (g\<lparr>apm := Some a, far_frame := Some f\<rparr>, 0))))"

definition ingenic_apm_set_near_frame ::
    "'a apm_ops \<Rightarrow> int list \<Rightarrow> int list \<Rightarrow> nat \<Rightarrow> int \<Rightarrow> float32 \<Rightarrow> 'a native \<Rightarrow> ('a native \<times> int list \<times> int) option" where
  "ingenic_apm_set_near_frame ops input output offset delay near_v g =
     (case near_frame g of None \<Rightarrow> None
      | Some f \<Rightarrow>
     (case fill_frame g f input offset near_v of None \<Rightarrow> None
      | Some f \<Rightarrow>
     (case apm g of None \<Rightarrow> None
      | Some a \<Rightarrow>
          let (a, f, r) = ProcessStream ops (set_stream_delay_ms ops a delay) f;
              g = g\<lparr>apm := Some a, near_frame := Some f\<rparr>
          in if samples_per_channel f < 0 \<or> samples_per_channel f > int (length (frame_data f)) then None
             else case write_shorts output offset (take (nat (samples_per_channel f)) (frame_data f)) of None \<Rightarrow> None
                  | Some output \<Rightarrow> Some (g, output, 0))))"

definition ingenic_apm_destroy :: "'a native \<Rightarrow> 'a native" where
  "ingenic_apm_destroy g =
     (let g = (if apm g \<noteq> None then g\<lparr>live_apms := live_apms g - 1, apm := None\<rparr> else g);
          g = (if far_frame g \<noteq> None then g\<lparr>live_frames := live_frames g - 1, far_frame := None\<rparr> else g)
      in if near_frame g \<noteq> None then g\<lparr>live_frames := live_frames g - 1, near_frame := None\<rparr> else g)"

section \<open>The handle\<close>

text \<open>The allocation of a handle has the outcome \<open>ok\<close>. The result of the initialisation is not looked at.\<close>

definition audio_process_aec_create :: "'a apm_ops \<Rightarrow> bool \<Rightarrow> int \<Rightarrow> 'a native \<Rightarrow> 'a native \<times> nat option" where
  "audio_process_aec_create ops ok rate g =
     (if \<not> ok then (g, None)
      else let ah = next_handle g;
               g = fst (ingenic_apm_init ops rate (g\<lparr>next_handle := ah + 1\<rparr>))
           in (g\<lparr>handles := (handles g)(ah \<mapsto> \<lparr>magic = AP_AEC_MAGIC, sample_rate = rate\<rparr>)\<rparr>, Some ah))"

record aec_process_param =
  param_far :: "int list"
  param_near :: "int list"
  param_filter :: "int list"
  param_size :: int
  param_delay_time :: int

text \<open>One block of 10 ms, \<open>aecsize\<close> bytes, the \<open>i\<close>th of the arrays.\<close>

definition aec_block ::
    "'a apm_ops \<Rightarrow> nat \<Rightarrow> float32 \<Rightarrow> float32 \<Rightarrow> nat \<Rightarrow> 'a native \<times> aec_process_param \<Rightarrow> ('a native \<times> aec_process_param) option" where
  "aec_block ops aecsize near_v far_v i = (\<lambda>(g, param).
     (case ingenic_apm_set_far_frame ops (param_far param) (aecsize * i) far_v g of None \<Rightarrow> None
      | Some (g, _) \<Rightarrow>
     (case ingenic_apm_set_near_frame ops (param_near param) (param_filter param) (aecsize * i) (param_delay_time param) near_v g of
        None \<Rightarrow> None
      | Some (g, out, _) \<Rightarrow> Some (g, param\<lparr>param_filter := out\<rparr>))))"

fun aec_blocks ::
    "'a apm_ops \<Rightarrow> nat \<Rightarrow> float32 \<Rightarrow> float32 \<Rightarrow> nat \<Rightarrow> nat \<Rightarrow> 'a native \<times> aec_process_param \<Rightarrow> ('a native \<times> aec_process_param) option" where
  "aec_blocks ops aecsize near_v far_v i 0 s = Some s"
| "aec_blocks ops aecsize near_v far_v i (Suc n) s =
     (case aec_block ops aecsize near_v far_v i s of None \<Rightarrow> None
      | Some s \<Rightarrow> aec_blocks ops aecsize near_v far_v (Suc i) n s)"

text \<open>The number of bytes of 10 ms; the product with \<^verbatim>\<open>sizeof(short)\<close> is a \<^verbatim>\<open>size_t\<close>, here of 64 bits.\<close>

definition aec_size :: "int \<Rightarrow> int" where
  "aec_size rate = s32 (rate * 2 mod 2 ^ 64 div 100)"

definition audio_process_aec_process ::
    "'a apm_ops \<Rightarrow> nat \<Rightarrow> aec_process_param \<Rightarrow> float32 \<Rightarrow> float32 \<Rightarrow> 'a native \<Rightarrow> ('a native \<times> aec_process_param \<times> int) option" where
  "audio_process_aec_process ops ah param near_v far_v g =
     (case handles g ah of None \<Rightarrow> None
      | Some h \<Rightarrow>
          if magic h \<noteq> AP_AEC_MAGIC then Some (g, param, - 1)
          else let aecsize = aec_size (sample_rate h)
               in if aecsize = 0 then None
                  else let n = cdiv (param_size param) aecsize
                       in case aec_blocks ops (nat aecsize) near_v far_v 0 (nat n) (g, param) of None \<Rightarrow> None
                          | Some (g, param) \<Rightarrow> Some (g, param, 0))"

definition audio_process_aec_free :: "nat \<Rightarrow> 'a native \<Rightarrow> ('a native \<times> int) option" where
  "audio_process_aec_free ah g =
     (case handles g ah of None \<Rightarrow> None
      | Some h \<Rightarrow>
          if magic h \<noteq> AP_AEC_MAGIC then Some (g, - 1)
          else let g = ingenic_apm_destroy g in Some (g\<lparr>handles := (handles g)(ah := None)\<rparr>, 0))"

section \<open>The functions of \<^verbatim>\<open>WebRtcUtil\<close>\<close>

text \<open>Each of them as a whole, the way a single thread calls it. The Java \<^verbatim>\<open>long\<close> is cut to an \<^verbatim>\<open>int\<close>.\<close>

definition WebRtcUtil_init :: "'a apm_ops \<Rightarrow> bool \<Rightarrow> int \<Rightarrow> 'a native \<Rightarrow> 'a native \<times> int" where
  "WebRtcUtil_init ops ok rate g =
     (let (g, h) = audio_process_aec_create ops ok (s32 rate) g; g = g\<lparr>handle := h\<rparr>
      in if handle g \<noteq> None then (g, 0) else (g, - 1))"

definition WebRtcUtil_free :: "'a native \<Rightarrow> 'a native option" where
  "WebRtcUtil_free g =
     (case handle g of None \<Rightarrow> Some g
      | Some h \<Rightarrow> (case audio_process_aec_free h g of None \<Rightarrow> None | Some (g, _) \<Rightarrow> Some (g\<lparr>handle := None\<rparr>)))"

text \<open>
  The arrays are copies that \<^verbatim>\<open>GetByteArrayElements\<close> makes; the copy of \<open>out\<close> is written back at the end and the
  other two are dropped. The result is the new contents of \<open>out\<close> and the return value.
\<close>

definition WebRtcUtil_bufferFarendAndProcess ::
    "'a apm_ops \<Rightarrow> int list \<Rightarrow> int list \<Rightarrow> int list \<Rightarrow> int \<Rightarrow> int \<Rightarrow> float32 \<Rightarrow> float32 \<Rightarrow> 'a native \<Rightarrow>
     ('a native \<times> int list \<times> int) option" where
  "WebRtcUtil_bufferFarendAndProcess ops far near out len delay near_v far_v g =
     (let param = \<lparr>param_far = far, param_near = near, param_filter = out, param_size = len, param_delay_time = delay\<rparr>
      in case handle g of None \<Rightarrow> Some (g, param_filter param, 0)
         | Some h \<Rightarrow>
             (case audio_process_aec_process ops h param near_v far_v g of None \<Rightarrow> None
              | Some (g, param, _) \<Rightarrow> Some (g, param_filter param, 0)))"

end
