(* ===== verification/Native_Inv.thy ===== *)
theory Native_Inv
  imports Native_Aec
begin

text \<open>
  Correctness of the native layer for a single caller: how bytes become samples and come back, what the audio
  processing module is given and what the caller gets, and what happens to the handles, the modules and the
  frames over any sequence of calls.
\<close>

section \<open>Samples\<close>

lemma round_even_int [simp]: "round_even (of_int n) = n"
  by (simp add: round_even_def)

lemma fround_int:
  assumes "\<bar>n\<bar> < 2 ^ 24"
  shows "fround (of_int n) = of_int n"
proof (cases "n = 0")
  case False
  define e where "e = exponent \<bar>of_int n\<bar>"
  have "of_int \<bar>n\<bar> < (2 ^ 24 :: rat)" using assms by (metis of_int_less_iff of_int_numeral of_int_power)
  then have e: "e \<le> 23" unfolding e_def using False by (intro exponent_le) auto
  define k where "k = nat (23 - e)"
  have u: "(2 :: rat) powi (e - 23) = 1 / 2 ^ k" using e by (simp add: k_def power_int_def inverse_eq_divide power_divide)
  have "(of_int n :: rat) / (1 / 2 ^ k) = of_int (n * 2 ^ k)" by simp
  then have "round_even (of_int n / (1 / 2 ^ k)) = n * 2 ^ k" by (metis round_even_int)
  then show ?thesis using False e_def u by (simp add: fround_def Let_def)
qed simp

lemma sample_at_unit_volume: "is_s16 x \<Longrightarrow> float_to_short (fmul (float_of_int x) 1) = Some x"
  by (simp add: float_to_short_def fmul_def float_of_int_def fround_int is_s16_def abs_less_iff Let_def)

lemma all_some_map: "(\<And>x. x \<in> set xs \<Longrightarrow> f x = Some (h x)) \<Longrightarrow> all_some (map f xs) = Some (map h xs)"
  by (induction xs) simp_all

lemma scale_unit: "list_all is_s16 xs \<Longrightarrow> scale_samples xs 1 = Some xs"
  unfolding scale_samples_def
  by (subst all_some_map [where h = "\<lambda>x. x"]) (auto simp: list_all_iff sample_at_unit_volume)

lemma fround_ge:
  assumes "- of_nat c \<le> x" and "c < 2 ^ 24"
  shows "- of_nat c \<le> fround x"
proof (cases "x < 0")
  case True
  have "of_nat c < (2 ^ 24 :: rat)" using assms(2) by (metis of_nat_less_iff of_nat_numeral of_nat_power)
  then have e: "exponent (- x) \<le> 23" using True assms(1) by (intro exponent_le) auto
  define k where "k = nat (23 - exponent (- x))"
  have u: "(2 :: rat) powi (exponent (- x) - 23) = 1 / 2 ^ k" using e by (simp add: k_def power_int_def inverse_eq_divide power_divide)
  have "of_int (- int c * 2 ^ k) \<le> x / (1 / 2 ^ k)" using mult_right_mono [OF assms(1), of "2 ^ k"] by simp
  then have "- int c * 2 ^ k \<le> round_even (x / (1 / 2 ^ k))" by (rule round_even_ge)
  then have "of_int (- int c * 2 ^ k) \<le> (of_int (round_even (x / (1 / 2 ^ k))) :: rat)" by (simp only: of_int_le_iff)
  then have "- of_nat c \<le> of_int (round_even (x / (1 / 2 ^ k))) * (1 / 2 ^ k :: rat)" by (simp add: field_simps)
  then show ?thesis using True by (simp add: fround_def Let_def u)
next
  case False
  then have "0 \<le> fround x" by (intro fround_nonneg) simp
  then show ?thesis by (meson neg_le_0_iff_le of_nat_0_le_iff order_trans)
qed

text \<open>A volume between 0 and 1 never leaves the range of the samples.\<close>

lemma sample_at_volume:
  assumes "is_s16 x" and "0 \<le> v" and "v \<le> 1"
  shows "\<exists>y. float_to_short (fmul (float_of_int x) v) = Some y \<and> is_s16 y"
proof -
  have x: "float_of_int x = of_int x" "- 32768 \<le> (of_int x :: rat)" "of_int x \<le> (32767 :: rat)"
    using assms(1) by (simp_all add: float_of_int_def fround_int is_s16_def abs_less_iff)
  have "of_int x * v \<le> of_nat 32767"
    using mult_mono [of "of_int x" 32767 v 1] mult_nonpos_nonneg [of "of_int x" v] x assms(2,3) by (cases "0 \<le> x") auto
  moreover have "- of_nat 32768 \<le> of_int x * v"
    using mult_mono [of "- of_int x" 32768 v 1] mult_nonneg_nonneg [of "of_int x" v] x assms(2,3) by (cases "0 \<le> x") auto
  ultimately have "fround (of_int x * v) \<le> of_nat 32767" "- of_nat 32768 \<le> fround (of_int x * v)"
    using fround_le [of "of_int x * v" 32767] fround_ge [of 32768 "of_int x * v"] by auto
  then show ?thesis
    by (auto simp: float_to_short_def fmul_def x(1) Let_def is_s16_def floor_le_iff ceiling_le_iff le_floor_iff le_ceiling_iff)
qed

lemma scale_at_volume:
  assumes "list_all is_s16 xs" and "0 \<le> v" and "v \<le> 1"
  shows "\<exists>ys. scale_samples xs v = Some ys \<and> length ys = length xs \<and> list_all is_s16 ys"
  using assms(1)
proof (induction xs)
  case (Cons x xs)
  then show ?case using sample_at_volume [OF _ assms(2,3), of x] by (fastforce simp: scale_samples_def)
qed (simp add: scale_samples_def)

lemma short_at_s16: "is_s16 (short_at bs i)"
  by (simp add: short_at_def)

lemma read_shorts_some:
  "offset + 2 * n \<le> length bs \<Longrightarrow> read_shorts bs offset n = Some (map (\<lambda>k. short_at bs (offset + 2 * k)) [0..<n])"
  by (simp add: read_shorts_def)

lemma read_shorts_ok: "read_shorts bs offset n = Some xs \<Longrightarrow> length xs = n \<and> list_all is_s16 xs"
  by (auto simp: read_shorts_def list_all_iff short_at_s16 split: if_splits)

lemma length_short_bytes [simp]: "length (concat (map short_bytes xs)) = 2 * length xs"
  by (induction xs) (simp_all add: short_bytes_def)

lemma nth_short_bytes:
  "k < length xs \<Longrightarrow> concat (map short_bytes xs) ! (2 * k) = xs ! k mod 256 \<and>
     concat (map short_bytes xs) ! Suc (2 * k) = xs ! k div 256 mod 256"
proof (induction xs arbitrary: k)
  case (Cons x xs)
  then show ?case by (cases k) (auto simp: short_bytes_def)
qed simp

lemma short_of_bytes: "s16 (x mod 256 + 256 * (x div 256 mod 256)) = s16 x"
proof -
  have "x mod 256 + 256 * (x div 256 mod 256) = x mod 65536" using zmod_zmult2_eq [of 256 x 256] by simp
  moreover have "s16 (x mod 65536) = s16 x" by (simp add: s16_def mod_simps)
  ultimately show ?thesis by simp
qed

text \<open>The samples written to a byte array are read back from it, cut to 16 bits, and the rest of the array stays.\<close>

lemma write_shorts_some:
  assumes "offset + 2 * length xs \<le> length bs"
  obtains out where "write_shorts bs offset xs = Some out" "length out = length bs"
    "read_shorts out offset (length xs) = Some (map s16 xs)"
    "\<And>i. i < length bs \<Longrightarrow> i < offset \<or> offset + 2 * length xs \<le> i \<Longrightarrow> out ! i = bs ! i"
proof -
  define c where "c = concat (map short_bytes xs)"
  define out where "out = blit bs offset c"
  have c: "length c = 2 * length xs" by (simp add: c_def)
  have nth: "out ! i = (if offset \<le> i \<and> i < offset + 2 * length xs then c ! (i - offset) else bs ! i)" if "i < length bs" for i
    using that assms by (simp add: out_def nth_blit c)
  have len: "length out = length bs" using assms by (simp add: out_def c len_simps)
  have "short_at out (offset + 2 * k) = s16 (xs ! k)" if "k < length xs" for k
  proof -
    have "out ! (offset + 2 * k) = xs ! k mod 256" "out ! (offset + 2 * k + 1) = xs ! k div 256 mod 256"
      using that assms nth_short_bytes [OF that] by (simp_all add: nth c_def)
    then have "short_at out (offset + 2 * k) = s16 (xs ! k mod 256 + 256 * (xs ! k div 256 mod 256))"
      by (simp only: short_at_def)
    then show ?thesis by (simp only: short_of_bytes)
  qed
  then have "map (\<lambda>k. short_at out (offset + 2 * k)) [0..<length xs] = map s16 xs" by (intro nth_equalityI) simp_all
  then have "read_shorts out offset (length xs) = Some (map s16 xs)" using assms len by (simp add: read_shorts_some)
  moreover have "out ! i = bs ! i" if "i < length bs" "i < offset \<or> offset + 2 * length xs \<le> i" for i
    using that by (auto simp: nth)
  moreover have "write_shorts bs offset xs = Some out" using assms by (simp add: write_shorts_def out_def c_def)
  ultimately show ?thesis using that len by blast
qed

section \<open>Frames and blocks\<close>

definition frame_ok :: "AudioFrame \<Rightarrow> bool" where
  "frame_ok f \<longleftrightarrow> length (frame_data f) = 3840"

text \<open>A frame as the layer hands it to a module of the given rate, and the format it initialises it with.\<close>

definition block_frame :: "int \<Rightarrow> AudioFrame \<Rightarrow> bool" where
  "block_frame rate f \<longleftrightarrow> num_channels f = 1 \<and> sample_rate_hz f = rate \<and> samples_per_channel f = int (nat (rate div 100))"

definition native_format :: "int \<Rightarrow> ProcessingConfig" where
  "native_format rate = \<lparr>input_stream = (rate, CHANNEL_NUM), output_stream = (rate, CHANNEL_NUM),
     reverse_input_stream = (rate, CHANNEL_NUM), reverse_output_stream = (rate, CHANNEL_NUM)\<rparr>"

text \<open>
  What the layer relies on, for the rates in \<open>R\<close>: the module can be created and initialised, and after that it keeps an
  invariant \<open>P\<close> and hands a frame back with its storage of 3840 samples and, for the near end, with as many of them in use.
\<close>

definition apm_ok :: "(int \<Rightarrow> bool) \<Rightarrow> (int \<Rightarrow> 'a \<Rightarrow> bool) \<Rightarrow> 'a apm_ops \<Rightarrow> bool" where
  "apm_ok R P ops \<longleftrightarrow>
     (\<forall>c. create_apm ops c \<noteq> None) \<and>
     (\<forall>c a rate. create_apm ops c = Some a \<longrightarrow> R rate \<longrightarrow> snd (initialize_apm ops a (native_format rate)) = 0 \<and>
        P rate (configure_apm ops (fst (initialize_apm ops a (native_format rate))))) \<and>
     (\<forall>rate a d. P rate a \<longrightarrow> P rate (set_stream_delay_ms ops a d)) \<and>
     (\<forall>rate a f. P rate a \<longrightarrow> frame_ok f \<longrightarrow> block_frame rate f \<longrightarrow> P rate (fst (ProcessReverseStream ops a f)) \<and>
        frame_ok (fst (snd (ProcessReverseStream ops a f)))) \<and>
     (\<forall>rate a f. P rate a \<longrightarrow> frame_ok f \<longrightarrow> block_frame rate f \<longrightarrow> P rate (fst (ProcessStream ops a f)) \<and>
        frame_ok (fst (snd (ProcessStream ops a f))) \<and> samples_per_channel (fst (snd (ProcessStream ops a f))) = samples_per_channel f)"

text \<open>A module that passes the near end through and counts its frames.\<close>

definition pass_through :: "nat apm_ops" where
  "pass_through = \<lparr>create_apm = (\<lambda>_. Some 0), initialize_apm = (\<lambda>a _. (a, 0)), apply_setting = (\<lambda>_ a. a),
     aec_is_enabled = (\<lambda>_. True), ProcessReverseStream = (\<lambda>a f. (Suc a, f, 0)), set_stream_delay_ms = (\<lambda>a _. a),
     ProcessStream = (\<lambda>a f. (Suc a, f, 0))\<rparr>"

abbreviation anything :: "int \<Rightarrow> nat \<Rightarrow> bool" where "anything \<equiv> \<lambda>_ _. True"
abbreviation any_rate :: "int \<Rightarrow> bool" where "any_rate \<equiv> \<lambda>_. True"

lemma apm_ok_pass_through [simp]: "apm_ok R anything pass_through"
  by (simp add: apm_ok_def pass_through_def)

text \<open>The frame a block of samples is given to the module in.\<close>

definition with_samples :: "int \<Rightarrow> int list \<Rightarrow> AudioFrame \<Rightarrow> AudioFrame" where
  "with_samples rate xs f = f\<lparr>num_channels := 1, sample_rate_hz := rate, samples_per_channel := int (length xs),
     frame_data := blit (frame_data f) 0 xs\<rparr>"

lemma with_samples_count [simp]: "samples_per_channel (with_samples rate xs f) = int (length xs)"
  by (simp add: with_samples_def)

lemma with_samples_ok:
  "frame_ok f \<Longrightarrow> length xs \<le> 3840 \<Longrightarrow> frame_ok (with_samples rate xs f)"
  by (simp add: frame_ok_def with_samples_def len_simps)

lemma with_samples_block: "length xs = nat (rate div 100) \<Longrightarrow> block_frame rate (with_samples rate xs f)"
  by (simp add: with_samples_def block_frame_def)

definition rate_ok :: "int \<Rightarrow> bool" where
  "rate_ok rate \<longleftrightarrow> 50 \<le> rate \<and> rate \<le> 384000"

abbreviation block_len :: "int \<Rightarrow> nat" where "block_len rate \<equiv> nat (rate div 100)"
abbreviation block_bytes :: "int \<Rightarrow> nat" where "block_bytes rate \<equiv> nat (rate div 50)"

definition block_samples :: "int list \<Rightarrow> int \<Rightarrow> nat \<Rightarrow> int list" where
  "block_samples bytes rate i = map (\<lambda>k. short_at bytes (block_bytes rate * i + 2 * k)) [0..<block_len rate]"

lemma block_samples_ok [simp]:
  "length (block_samples bytes rate i) = block_len rate" "list_all is_s16 (block_samples bytes rate i)"
  by (simp_all add: block_samples_def list_all_iff short_at_s16)

lemma rate_sizes:
  assumes "rate_ok rate"
  shows "frame_samples rate = rate div 100" "aec_size rate = rate div 50" "0 < block_bytes rate"
    "2 * block_len rate \<le> block_bytes rate" "block_len rate \<le> 3840"
proof -
  have r: "50 \<le> rate" "rate \<le> 384000" using assms by (simp_all add: rate_ok_def)
  have "rate * 10 div 1000 = rate div 100" using zdiv_zmult2_eq [of 100 "rate * 10" 10] by (simp add: div_mult2_eq)
  then show "frame_samples rate = rate div 100"
    using r by (simp add: frame_samples_def SAMPLE_TIME_def s32_id is_s32_def cdiv_nonneg)
  have "rate * 2 div 100 = rate div 50" by simp
  then show "aec_size rate = rate div 50" using r by (simp add: aec_size_def s32_def)
  show "0 < block_bytes rate" using r by (simp add: pos_imp_zdiv_pos_iff)
  show "2 * block_len rate \<le> block_bytes rate" "block_len rate \<le> 3840" using r by linarith+
qed

lemma fill_frame_ok:
  assumes "rate_ok rate" and "SAMPLE_RATE g = rate" and "frame_ok f" and "block_bytes rate * Suc i \<le> length bytes"
    and "0 \<le> v" and "v \<le> 1"
  obtains xs where "fill_frame g f bytes (block_bytes rate * i) v = Some (with_samples rate xs f)"
    "scale_samples (block_samples bytes rate i) v = Some xs" "length xs = block_len rate" "list_all is_s16 xs"
    "frame_ok (with_samples rate xs f)"
proof -
  note sz = rate_sizes [OF assms(1)]
  obtain xs where xs: "scale_samples (block_samples bytes rate i) v = Some xs" "length xs = block_len rate" "list_all is_s16 xs"
    using scale_at_volume [OF block_samples_ok(2) assms(5,6)] block_samples_ok(1) by metis
  have "block_bytes rate * i + 2 * block_len rate \<le> length bytes" using assms(4) sz(4) by simp
  then have "read_shorts bytes (block_bytes rate * i) (block_len rate) = Some (block_samples bytes rate i)"
    by (simp add: read_shorts_some block_samples_def)
  moreover have "0 \<le> rate div 100" using assms(1) by (simp add: rate_ok_def pos_imp_zdiv_nonneg_iff)
  ultimately have "fill_frame g f bytes (block_bytes rate * i) v = Some (with_samples rate xs f)"
    using assms(2) sz(1,5) xs by (simp add: fill_frame_def Let_def kMaxDataSizeSamples_def with_samples_def CHANNEL_NUM_def)
  then show ?thesis using that xs with_samples_ok [OF assms(3)] sz(5) by metis
qed

text \<open>The module and its frames are there, for the rate of the handle.\<close>

definition native_ok :: "(int \<Rightarrow> 'a \<Rightarrow> bool) \<Rightarrow> int \<Rightarrow> 'a native \<Rightarrow> bool" where
  "native_ok P rate g \<longleftrightarrow> rate_ok rate \<and> SAMPLE_RATE g = rate \<and> (\<exists>a. apm g = Some a \<and> P rate a) \<and>
     (\<exists>f. far_frame g = Some f \<and> frame_ok f) \<and> (\<exists>f. near_frame g = Some f \<and> frame_ok f)"

text \<open>A block with volumes between 0 and 1.\<close>

definition volume_ok :: "float32 \<Rightarrow> bool" where "volume_ok v \<longleftrightarrow> 0 \<le> v \<and> v \<le> 1"

definition arrays_ok :: "int \<Rightarrow> nat \<Rightarrow> aec_process_param \<Rightarrow> bool" where
  "arrays_ok rate n p \<longleftrightarrow> block_bytes rate * n \<le> length (param_far p) \<and> block_bytes rate * n \<le> length (param_near p) \<and>
     block_bytes rate * n \<le> length (param_filter p)"

text \<open>What the module does in a block that is given to it with the samples \<open>far\<close> and \<open>near\<close>.\<close>

definition apm_block ::
    "'a apm_ops \<Rightarrow> int \<Rightarrow> int \<Rightarrow> int list \<Rightarrow> int list \<Rightarrow> 'a \<times> AudioFrame \<times> AudioFrame \<Rightarrow> ('a \<times> AudioFrame \<times> AudioFrame) \<times> int list" where
  "apm_block ops rate delay far near = (\<lambda>(a, ff, nf).
     (let (a, ff, _) = ProcessReverseStream ops a (with_samples rate far ff);
          (a, nf, _) = ProcessStream ops (set_stream_delay_ms ops a delay) (with_samples rate near nf)
      in ((a, ff, nf), map s16 (take (length near) (frame_data nf)))))"

fun apm_blocks ::
    "'a apm_ops \<Rightarrow> int \<Rightarrow> int \<Rightarrow> (int list \<times> int list) list \<Rightarrow> 'a \<times> AudioFrame \<times> AudioFrame \<Rightarrow> ('a \<times> AudioFrame \<times> AudioFrame) \<times> int list list" where
  "apm_blocks ops rate delay [] s = (s, [])"
| "apm_blocks ops rate delay ((far, near) # bs) s =
     (let (s, out) = apm_block ops rate delay far near s; (s, outs) = apm_blocks ops rate delay bs s in (s, out # outs))"

text \<open>The module's state as it is in the globals.\<close>

definition holds :: "'a native \<Rightarrow> 'a \<times> AudioFrame \<times> AudioFrame \<Rightarrow> bool" where
  "holds g = (\<lambda>(a, ff, nf). apm g = Some a \<and> far_frame g = Some ff \<and> near_frame g = Some nf)"

definition with_module :: "'a native \<Rightarrow> 'a \<times> AudioFrame \<times> AudioFrame \<Rightarrow> 'a native" where
  "with_module g = (\<lambda>(a, ff, nf). g\<lparr>apm := Some a, far_frame := Some ff, near_frame := Some nf\<rparr>)"

lemma arrays_ok_mono: "arrays_ok rate n p \<Longrightarrow> m \<le> n \<Longrightarrow> arrays_ok rate m p"
  unfolding arrays_ok_def by (meson mult_le_mono2 order_trans)

lemma aec_block_ok:
  assumes "apm_ok R P ops" and "native_ok P rate g" and "holds g s" and "arrays_ok rate (Suc i) p" and "volume_ok near_v" "volume_ok far_v"
  obtains far near out s' where "scale_samples (block_samples (param_far p) rate i) far_v = Some far"
    "scale_samples (block_samples (param_near p) rate i) near_v = Some near"
    "aec_block ops (block_bytes rate) near_v far_v i (g, p) = Some (with_module g s', p\<lparr>param_filter := out\<rparr>)"
    "native_ok P rate (with_module g s')" "length out = length (param_filter p)"
    "apm_block ops rate (param_delay_time p) far near s = (s', block_samples out rate i)"
    "\<And>k. k < length out \<Longrightarrow> k < block_bytes rate * i \<or> block_bytes rate * Suc i \<le> k \<Longrightarrow> out ! k = param_filter p ! k"
proof -
  obtain a ff nf where s: "s = (a, ff, nf)" by (rule prod_cases3)
  have g: "rate_ok rate" "SAMPLE_RATE g = rate" "apm g = Some a" "far_frame g = Some ff" "near_frame g = Some nf" "frame_ok ff" "frame_ok nf"
    and Pa: "P rate a" using assms(2,3) by (auto simp: native_ok_def holds_def s)
  note sz = rate_sizes [OF g(1)]
  have bounds: "block_bytes rate * Suc i \<le> length (param_far p)" "block_bytes rate * Suc i \<le> length (param_near p)"
    "block_bytes rate * Suc i \<le> length (param_filter p)" using assms(4) by (simp_all add: arrays_ok_def)
  obtain far where far: "fill_frame g ff (param_far p) (block_bytes rate * i) far_v = Some (with_samples rate far ff)"
      "scale_samples (block_samples (param_far p) rate i) far_v = Some far" "frame_ok (with_samples rate far ff)" "length far = block_len rate"
    using fill_frame_ok [OF g(1,2,6) bounds(1)] assms(6) by (metis volume_ok_def)
  obtain a1 ff1 r1 where rev: "ProcessReverseStream ops a (with_samples rate far ff) = (a1, ff1, r1)" by (rule prod_cases3)
  then have ff1: "frame_ok ff1" "P rate a1" using assms(1) far(3) Pa with_samples_block [OF far(4)] unfolding apm_ok_def by (metis fst_conv snd_conv)+
  define g1 where "g1 = g\<lparr>apm := Some a1, far_frame := Some ff1\<rparr>"
  have g1: "SAMPLE_RATE g1 = rate" "near_frame g1 = Some nf" "apm g1 = Some a1" using g by (simp_all add: g1_def)
  obtain near where near: "fill_frame g1 nf (param_near p) (block_bytes rate * i) near_v = Some (with_samples rate near nf)"
      "scale_samples (block_samples (param_near p) rate i) near_v = Some near" "frame_ok (with_samples rate near nf)"
      "length near = block_len rate"
    using fill_frame_ok [OF g(1) g1(1) g(7) bounds(2)] assms(5) by (metis volume_ok_def)
  obtain a2 nf2 r2 where str: "ProcessStream ops (set_stream_delay_ms ops a1 (param_delay_time p)) (with_samples rate near nf) = (a2, nf2, r2)"
    by (rule prod_cases3)
  have d: "P rate (set_stream_delay_ms ops a1 (param_delay_time p))" using assms(1) ff1(2) by (simp add: apm_ok_def)
  have nf2: "frame_ok nf2" "samples_per_channel nf2 = int (block_len rate)" "P rate a2"
    using assms(1) near(3,4) with_samples_block [OF near(4)] with_samples_count [of rate near nf] d str unfolding apm_ok_def
    by (metis fst_conv snd_conv)+
  define ys where "ys = take (block_len rate) (frame_data nf2)"
  have ys: "length ys = block_len rate" using nf2(1) sz(5) by (simp add: ys_def frame_ok_def)
  have "block_bytes rate * i + 2 * length ys \<le> length (param_filter p)" using bounds(3) sz(4) ys by simp
  then obtain out where out: "write_shorts (param_filter p) (block_bytes rate * i) ys = Some out" "length out = length (param_filter p)"
      "read_shorts out (block_bytes rate * i) (length ys) = Some (map s16 ys)"
      "\<And>k. k < length (param_filter p) \<Longrightarrow> k < block_bytes rate * i \<or> block_bytes rate * i + 2 * length ys \<le> k \<Longrightarrow> out ! k = param_filter p ! k"
    by (rule write_shorts_some) blast
  have samples: "block_samples out rate i = map s16 ys"
    using out(3) ys by (simp add: read_shorts_def block_samples_def split: if_splits)
  have run: "aec_block ops (block_bytes rate) near_v far_v i (g, p) = Some (with_module g (a2, ff1, nf2), p\<lparr>param_filter := out\<rparr>)"
  proof -
    have n: "nat (samples_per_channel nf2) = block_len rate" "\<not> samples_per_channel nf2 < 0"
        "\<not> int (length (frame_data nf2)) < samples_per_channel nf2"
      using nf2 sz(5) by (auto simp: frame_ok_def simp del: int_nat_eq)
    have far_done: "ingenic_apm_set_far_frame ops (param_far p) (block_bytes rate * i) far_v g = Some (g1, 0)"
      using far(1) rev g(3,4) by (simp add: ingenic_apm_set_far_frame_def g1_def)
    have "ingenic_apm_set_near_frame ops (param_near p) (param_filter p) (block_bytes rate * i) (param_delay_time p) near_v g1 =
        Some (g1\<lparr>apm := Some a2, near_frame := Some nf2\<rparr>, out, 0)"
      unfolding ingenic_apm_set_near_frame_def g1(2,3) option.case near(1) str Let_def case_prod_conv
      using n out(1) by (simp add: ys_def)
    then show ?thesis by (simp add: aec_block_def far_done with_module_def g1_def)
  qed
  have "native_ok P rate (with_module g (a2, ff1, nf2))"
    using g(1,2) ff1(1) nf2(1,3) by (simp add: native_ok_def with_module_def)
  moreover have "apm_block ops rate (param_delay_time p) far near s = ((a2, ff1, nf2), block_samples out rate i)"
    by (simp add: apm_block_def s rev str samples ys_def near(4))
  moreover have "out ! k = param_filter p ! k" if "k < length out" "k < block_bytes rate * i \<or> block_bytes rate * Suc i \<le> k" for k
    using out(2,4) that sz(4) ys by (auto simp: algebra_simps)
  ultimately show ?thesis using that far(2) near(2) run out(2) by blast
qed

text \<open>All blocks: the module is given the blocks of the caller in order, and its output blocks are the caller's.\<close>

lemma aec_blocks_ok:
  assumes "apm_ok R P ops" and "volume_ok near_v" "volume_ok far_v"
    and "native_ok P rate g" and "holds g s" and "arrays_ok rate (i + n) p"
  obtains blocks s' out where
    "map Some blocks = map (\<lambda>j. Option.bind (scale_samples (block_samples (param_far p) rate j) far_v)
        (\<lambda>far. map_option (Pair far) (scale_samples (block_samples (param_near p) rate j) near_v))) [i..<i + n]"
    "aec_blocks ops (block_bytes rate) near_v far_v i n (g, p) = Some (with_module g s', p\<lparr>param_filter := out\<rparr>)"
    "native_ok P rate (with_module g s')" "length out = length (param_filter p)"
    "apm_blocks ops rate (param_delay_time p) blocks s = (s', map (block_samples out rate) [i..<i + n])"
    "\<And>k. k < length out \<Longrightarrow> k < block_bytes rate * i \<or> block_bytes rate * (i + n) \<le> k \<Longrightarrow> out ! k = param_filter p ! k"
  using assms(4-)
proof (induction n arbitrary: i g s p thesis)
  case 0
  obtain a ff nf where s: "s = (a, ff, nf)" by (rule prod_cases3)
  have "with_module g s = g" using 0(3) by (simp add: s with_module_def holds_def)
  then show ?case using 0(1) [of "[]" s "param_filter p"] 0(2) by simp
next
  case (Suc n)
  have sub: "arrays_ok rate (Suc i) p" by (rule arrays_ok_mono [OF Suc.prems(4)]) simp
  obtain far near out s' where b: "scale_samples (block_samples (param_far p) rate i) far_v = Some far"
    "scale_samples (block_samples (param_near p) rate i) near_v = Some near"
    "aec_block ops (block_bytes rate) near_v far_v i (g, p) = Some (with_module g s', p\<lparr>param_filter := out\<rparr>)"
    "native_ok P rate (with_module g s')" "length out = length (param_filter p)"
    "apm_block ops rate (param_delay_time p) far near s = (s', block_samples out rate i)"
    "\<And>k. k < length out \<Longrightarrow> k < block_bytes rate * i \<or> block_bytes rate * Suc i \<le> k \<Longrightarrow> out ! k = param_filter p ! k"
    using aec_block_ok [OF assms(1) Suc.prems(2,3) sub assms(2,3)] by metis
  define q where "q = p\<lparr>param_filter := out\<rparr>"
  have q: "param_far q = param_far p" "param_near q = param_near p" "param_filter q = out" "param_delay_time q = param_delay_time p"
    by (simp_all add: q_def)
  have h: "holds (with_module g s') s'" by (cases s') (simp add: holds_def with_module_def)
  have arr: "arrays_ok rate (Suc i + n) q" using Suc.prems(4) b(5) by (simp add: arrays_ok_def q)
  obtain blocks t fin where c: "map Some blocks = map (\<lambda>j. Option.bind (scale_samples (block_samples (param_far q) rate j) far_v)
        (\<lambda>far. map_option (Pair far) (scale_samples (block_samples (param_near q) rate j) near_v))) [Suc i..<Suc i + n]"
    "aec_blocks ops (block_bytes rate) near_v far_v (Suc i) n (with_module g s', q) = Some (with_module (with_module g s') t, q\<lparr>param_filter := fin\<rparr>)"
    "native_ok P rate (with_module (with_module g s') t)" "length fin = length (param_filter q)"
    "apm_blocks ops rate (param_delay_time q) blocks s' = (t, map (block_samples fin rate) [Suc i..<Suc i + n])"
    "\<And>k. k < length fin \<Longrightarrow> k < block_bytes rate * Suc i \<or> block_bytes rate * (Suc i + n) \<le> k \<Longrightarrow> fin ! k = param_filter q ! k"
    by (rule Suc.IH [OF _ b(4) h arr]) blast
  have w: "with_module (with_module g s') t = with_module g t" by (cases s'; cases t) (simp add: with_module_def)
  have rng: "[i..<i + Suc n] = i # [Suc i..<Suc i + n]" by (simp add: upt_rec)
  have keep: "block_samples fin rate i = block_samples out rate i"
  proof -
    have "fin ! k = out ! k" if "k < block_bytes rate * Suc i" for k
    proof -
      have "block_bytes rate * Suc i \<le> length (param_filter p)" using sub by (simp add: arrays_ok_def)
      then show ?thesis using c(4) c(6) [of k] that b(5) q(3) by simp
    qed
    moreover have "rate_ok rate" using Suc.prems(2) by (simp add: native_ok_def)
    ultimately show ?thesis using rate_sizes(4) [of rate] by (simp add: block_samples_def short_at_def)
  qed
  show ?case
  proof (rule Suc.prems(1) [of "(far, near) # blocks" t fin])
    show "map Some ((far, near) # blocks) = map (\<lambda>j. Option.bind (scale_samples (block_samples (param_far p) rate j) far_v)
        (\<lambda>far. map_option (Pair far) (scale_samples (block_samples (param_near p) rate j) near_v))) [i..<i + Suc n]"
      unfolding rng using b(1,2) c(1) q(1,2) by simp
    show "aec_blocks ops (block_bytes rate) near_v far_v i (Suc n) (g, p) = Some (with_module g t, p\<lparr>param_filter := fin\<rparr>)"
      using b(3) c(2) by (simp add: w q_def)
    show "native_ok P rate (with_module g t)" using c(3) by (simp add: w)
    show "length fin = length (param_filter p)" using c(4) b(5) q(3) by simp
    show "apm_blocks ops rate (param_delay_time p) ((far, near) # blocks) s = (t, map (block_samples fin rate) [i..<i + Suc n])"
      unfolding rng using b(6) c(5) q(4) by (simp add: keep)
    show "fin ! k = param_filter p ! k" if "k < length fin" "k < block_bytes rate * i \<or> block_bytes rate * (i + Suc n) \<le> k" for k
      using that b(5) b(7) [of k] c(4) c(6) [of k] q(3) by (auto simp: algebra_simps)
  qed
qed

section \<open>The state between the calls\<close>

text \<open>
  A handle that is set is one of the heap, made for the rate of the module; there are as many modules alive as
  handles, and two frames for each.
\<close>

definition jni_ok :: "(int \<Rightarrow> 'a \<Rightarrow> bool) \<Rightarrow> 'a native \<Rightarrow> bool" where
  "jni_ok P g \<longleftrightarrow>
     (\<forall>h. handle g = Some h \<longrightarrow> (\<exists>rate. handles g h = Some \<lparr>magic = AP_AEC_MAGIC, sample_rate = rate\<rparr> \<and> native_ok P rate g)) \<and>
     finite (dom (handles g)) \<and> (\<forall>h \<in> dom (handles g). h < next_handle g) \<and>
     card (dom (handles g)) = live_apms g \<and> live_frames g = 2 * live_apms g"

lemma jni_ok_loaded: "jni_ok P loaded"
  by (simp add: jni_ok_def loaded_def)

lemma with_module_rest:
  "handles (with_module g s) = handles g" "handle (with_module g s) = handle g" "next_handle (with_module g s) = next_handle g"
  "live_apms (with_module g s) = live_apms g" "live_frames (with_module g s) = live_frames g"
  by (cases s; simp add: with_module_def)+

lemma frame_ok_new [simp]: "frame_ok new_AudioFrame"
  by (simp add: frame_ok_def new_AudioFrame_def kMaxDataSizeSamples_def)

lemma apm_init_ok:
  assumes "apm_ok R P ops" and "rate_ok rate" "R rate"
  obtains s where "ingenic_apm_init ops rate g =
      (with_module (g\<lparr>SAMPLE_RATE := rate, live_apms := live_apms g + 1, live_frames := live_frames g + 2\<rparr>) s, 0)"
    "native_ok P rate (with_module (g\<lparr>SAMPLE_RATE := rate, live_apms := live_apms g + 1, live_frames := live_frames g + 2\<rparr>) s)"
proof -
  define c where "c = \<lparr>extended_filter = True, delay_agnostic = False, experimental_agc = (False, agc_start_volumn),
                    experimental_ns = False, intelligibility = False\<rparr>"
  obtain a where a: "create_apm ops c = Some a" using assms(1) by (force simp: apm_ok_def)
  have i: "snd (initialize_apm ops a (native_format rate)) = 0" "P rate (configure_apm ops (fst (initialize_apm ops a (native_format rate))))"
    using assms(1,3) a unfolding apm_ok_def by blast+
  obtain a1 where a1: "initialize_apm ops a (native_format rate) = (a1, 0)" using i(1) by (metis prod.collapse)
  have P: "P rate (configure_apm ops a1)" using i(2) a1 by simp
  have init: "ingenic_apm_init ops rate g =
      (with_module (g\<lparr>SAMPLE_RATE := rate, live_apms := live_apms g + 1, live_frames := live_frames g + 2\<rparr>)
        (configure_apm ops a1, new_AudioFrame, new_AudioFrame), 0)"
    unfolding ingenic_apm_init_def Let_def c_def [symmetric] native_format_def [symmetric] a option.case a1 case_prod_conv
    by (simp add: with_module_def agc_start_volumn_def AGC_MAX_VOLUMN_def)
  show ?thesis by (rule that [OF init]) (simp add: native_ok_def with_module_def assms(2) P)
qed

lemma native_ok_heap [simp]:
  "native_ok P rate (g\<lparr>handles := hs\<rparr>) = native_ok P rate g" "native_ok P rate (g\<lparr>handle := h\<rparr>) = native_ok P rate g"
  "native_ok P rate (g\<lparr>next_handle := n\<rparr>) = native_ok P rate g"
  by (simp_all add: native_ok_def)

text \<open>The three calls.\<close>

lemma jni_init_ok:
  assumes "apm_ok R P ops" and "rate_ok (s32 rate) \<and> R (s32 rate)" and "jni_ok P g"
  obtains g' where "WebRtcUtil_init ops ok rate g = (g', if ok then 0 else - 1)" "jni_ok P g'" "(handle g' \<noteq> None) = ok"
    "live_apms g' = live_apms g + (if ok then 1 else 0)"
proof (cases ok)
  case False
  then have "WebRtcUtil_init ops ok rate g = (g\<lparr>handle := None\<rparr>, - 1)"
    by (simp add: WebRtcUtil_init_def audio_process_aec_create_def)
  moreover have "jni_ok P (g\<lparr>handle := None\<rparr>)" using assms(3) by (simp add: jni_ok_def)
  ultimately show ?thesis using that [of "g\<lparr>handle := None\<rparr>"] False by simp
next
  case True
  define h where "h = next_handle g"
  define g0 where "g0 = g\<lparr>next_handle := h + 1\<rparr>"
  obtain s where s: "ingenic_apm_init ops (s32 rate) g0 =
      (with_module (g0\<lparr>SAMPLE_RATE := s32 rate, live_apms := live_apms g0 + 1, live_frames := live_frames g0 + 2\<rparr>) s, 0)"
    "native_ok P (s32 rate) (with_module (g0\<lparr>SAMPLE_RATE := s32 rate, live_apms := live_apms g0 + 1, live_frames := live_frames g0 + 2\<rparr>) s)"
    by (rule apm_init_ok [OF assms(1) conjunct1 [OF assms(2)] conjunct2 [OF assms(2)]])
  define g1 where "g1 = with_module (g0\<lparr>SAMPLE_RATE := s32 rate, live_apms := live_apms g0 + 1, live_frames := live_frames g0 + 2\<rparr>) s"
  define g2 where "g2 = g1\<lparr>handles := (handles g1)(h \<mapsto> \<lparr>magic = AP_AEC_MAGIC, sample_rate = s32 rate\<rparr>), handle := Some h\<rparr>"
  have g1: "handles g1 = handles g" "next_handle g1 = h + 1" "live_apms g1 = live_apms g + 1" "live_frames g1 = live_frames g + 2"
    by (simp_all add: g1_def with_module_rest g0_def)
  have new: "h \<notin> dom (handles g)" using assms(3) by (auto simp: jni_ok_def h_def)
  have "jni_ok P g2"
    using assms(3) s(2) g1 new unfolding jni_ok_def g1_def [symmetric] by (auto simp: g2_def g1 h_def less_Suc_eq)
  moreover have "WebRtcUtil_init ops ok rate g = (g2, 0)"
    using True s(1) by (simp add: WebRtcUtil_init_def audio_process_aec_create_def Let_def g0_def h_def g1_def g2_def)
  ultimately show ?thesis using that [of g2] True g1(3) by (simp add: g2_def)
qed

lemma jni_free_ok:
  assumes "jni_ok P g"
  obtains g' where "WebRtcUtil_free g = Some g'" "jni_ok P g'" "handle g' = None"
    "live_apms g' + (if handle g = None then 0 else 1) = live_apms g"
proof (cases "handle g")
  case None
  then show ?thesis using that [of g] assms by (simp add: WebRtcUtil_free_def)
next
  case (Some h)
  obtain rate where r: "handles g h = Some \<lparr>magic = AP_AEC_MAGIC, sample_rate = rate\<rparr>" "native_ok P rate g"
    using assms Some by (auto simp: jni_ok_def)
  define g1 where "g1 = ingenic_apm_destroy g"
  have g1: "handles g1 = handles g" "next_handle g1 = next_handle g" "live_apms g1 = live_apms g - 1" "live_frames g1 = live_frames g - 2"
    using r(2) by (auto simp: g1_def ingenic_apm_destroy_def native_ok_def Let_def)
  define g2 where "g2 = g1\<lparr>handles := (handles g1)(h := None), handle := None\<rparr>"
  have in_dom: "h \<in> dom (handles g)" using r(1) by blast
  then have "card (dom (handles g)) \<noteq> 0" using assms by (auto simp: jni_ok_def)
  then have pos: "0 < live_apms g" using assms by (simp add: jni_ok_def)
  have "jni_ok P g2" using assms in_dom g1 pos by (auto simp: jni_ok_def g2_def card_Diff_singleton)
  moreover have "WebRtcUtil_free g = Some g2"
    using Some r(1) by (simp add: WebRtcUtil_free_def audio_process_aec_free_def Let_def g1_def g2_def)
  ultimately show ?thesis using that [of g2] Some pos g1(3) by (simp add: g2_def)
qed

text \<open>The number of whole blocks in \<open>len\<close> bytes.\<close>

abbreviation blocks_in :: "int \<Rightarrow> int \<Rightarrow> nat" where "blocks_in rate len \<equiv> nat len div block_bytes rate"

lemma blocks_in_fit:
  assumes "len \<le> int n"
  shows "block_bytes rate * blocks_in rate len \<le> n"
proof -
  have "block_bytes rate * blocks_in rate len \<le> nat len" by (rule times_div_less_eq_dividend)
  then show ?thesis using assms by linarith
qed

definition process_ok :: "int list \<Rightarrow> int list \<Rightarrow> int list \<Rightarrow> int \<Rightarrow> bool" where
  "process_ok far near out len \<longleftrightarrow> 0 \<le> len \<and> len \<le> int (length far) \<and> len \<le> int (length near) \<and> len \<le> int (length out)"

lemma process_blocks:
  assumes "apm_ok R P ops" and "native_ok P rate g" and "handles g h = Some \<lparr>magic = AP_AEC_MAGIC, sample_rate = rate\<rparr>"
    and "handle g = Some h" and "process_ok far near out len" and "volume_ok near_v" "volume_ok far_v"
  obtains s blocks s' fin where "holds g s"
    "map Some blocks = map (\<lambda>j. Option.bind (scale_samples (block_samples far rate j) far_v)
        (\<lambda>fs. map_option (Pair fs) (scale_samples (block_samples near rate j) near_v))) [0..<blocks_in rate len]"
    "WebRtcUtil_bufferFarendAndProcess ops far near out len delay near_v far_v g = Some (with_module g s', fin, 0)"
    "native_ok P rate (with_module g s')" "length fin = length out"
    "apm_blocks ops rate delay blocks s = (s', map (block_samples fin rate) [0..<blocks_in rate len])"
    "\<And>k. k < length fin \<Longrightarrow> block_bytes rate * blocks_in rate len \<le> k \<Longrightarrow> fin ! k = out ! k"
proof -
  define p where "p = \<lparr>param_far = far, param_near = near, param_filter = out, param_size = len, param_delay_time = delay\<rparr>"
  have p: "param_far p = far" "param_near p = near" "param_filter p = out" "param_delay_time p = delay" "param_size p = len"
    by (simp_all add: p_def)
  obtain s where s: "holds g s" using assms(2) by (auto simp: native_ok_def holds_def)
  have r: "rate_ok rate" using assms(2) by (simp add: native_ok_def)
  have arr: "arrays_ok rate (0 + blocks_in rate len) p"
    using assms(5) blocks_in_fit [of len _ rate] by (simp add: arrays_ok_def p process_ok_def)
  obtain blocks s' fin where b: "map Some blocks = map (\<lambda>j. Option.bind (scale_samples (block_samples (param_far p) rate j) far_v)
        (\<lambda>fs. map_option (Pair fs) (scale_samples (block_samples (param_near p) rate j) near_v))) [0..<0 + blocks_in rate len]"
    "aec_blocks ops (block_bytes rate) near_v far_v 0 (blocks_in rate len) (g, p) = Some (with_module g s', p\<lparr>param_filter := fin\<rparr>)"
    "native_ok P rate (with_module g s')" "length fin = length (param_filter p)"
    "apm_blocks ops rate (param_delay_time p) blocks s = (s', map (block_samples fin rate) [0..<0 + blocks_in rate len])"
    "\<And>k. k < length fin \<Longrightarrow> k < block_bytes rate * 0 \<or> block_bytes rate * (0 + blocks_in rate len) \<le> k \<Longrightarrow> fin ! k = param_filter p ! k"
    by (rule aec_blocks_ok [OF assms(1,6,7,2) s arr]) blast
  have pos: "0 \<le> len" "0 \<le> rate div 50" using assms(5) r by (auto simp: process_ok_def rate_ok_def pos_imp_zdiv_nonneg_iff)
  have count: "nat (cdiv len (rate div 50)) = blocks_in rate len"
    using pos by (simp add: cdiv_nonneg nat_div_distrib)
  have size: "aec_size rate = rate div 50" "rate div 50 \<noteq> 0" using rate_sizes(2,3) [OF r] by auto
  have "audio_process_aec_process ops h p near_v far_v g = Some (with_module g s', p\<lparr>param_filter := fin\<rparr>, 0)"
    unfolding audio_process_aec_process_def assms(3) option.case aec_handle.select_convs Let_def size(1) p(5) count
    using b(2) size(2) by simp
  then have "WebRtcUtil_bufferFarendAndProcess ops far near out len delay near_v far_v g = Some (with_module g s', fin, 0)"
    by (simp add: WebRtcUtil_bufferFarendAndProcess_def assms(4) Let_def p_def [symmetric])
  then show ?thesis using that [OF s _ _ b(3)] b(1,4-6) by (simp add: p)
qed

section \<open>Sequences of calls\<close>

datatype jni_call =
    Jni_Init bool int
  | Jni_Free
  | Jni_Process "int list" "int list" "int list" int int float32 float32

definition jni_step :: "'a apm_ops \<Rightarrow> jni_call \<Rightarrow> 'a native \<Rightarrow> 'a native option" where
  "jni_step ops c g =
     (case c of Jni_Init ok rate \<Rightarrow> Some (fst (WebRtcUtil_init ops ok rate g))
      | Jni_Free \<Rightarrow> WebRtcUtil_free g
      | Jni_Process far near out len delay near_v far_v \<Rightarrow>
          map_option fst (WebRtcUtil_bufferFarendAndProcess ops far near out len delay near_v far_v g))"

fun jni_run :: "'a apm_ops \<Rightarrow> jni_call list \<Rightarrow> 'a native \<Rightarrow> 'a native option" where
  "jni_run ops [] g = Some g"
| "jni_run ops (c # cs) g = (case jni_step ops c g of None \<Rightarrow> None | Some g \<Rightarrow> jni_run ops cs g)"

definition jni_call_ok :: "(int \<Rightarrow> bool) \<Rightarrow> jni_call \<Rightarrow> bool" where
  "jni_call_ok R c =
     (case c of Jni_Init ok rate \<Rightarrow> rate_ok (s32 rate) \<and> R (s32 rate) | Jni_Free \<Rightarrow> True
      | Jni_Process far near out len delay near_v far_v \<Rightarrow> process_ok far near out len \<and> volume_ok near_v \<and> volume_ok far_v)"

text \<open>The initialisations that overwrite a handle that is still set.\<close>

definition overwrites :: "jni_call \<Rightarrow> 'a native \<Rightarrow> nat" where
  "overwrites c g = (case c of Jni_Init _ _ \<Rightarrow> if handle g = None then 0 else 1 | _ \<Rightarrow> 0)"

fun lost_handles :: "'a apm_ops \<Rightarrow> jni_call list \<Rightarrow> 'a native \<Rightarrow> nat" where
  "lost_handles ops [] g = 0"
| "lost_handles ops (c # cs) g = overwrites c g + (case jni_step ops c g of None \<Rightarrow> 0 | Some g \<Rightarrow> lost_handles ops cs g)"

abbreviation in_use :: "'a native \<Rightarrow> nat" where "in_use g \<equiv> if handle g = None then 0 else 1"

lemma jni_step_ok:
  assumes "apm_ok R P ops" and "jni_call_ok R c" and "jni_ok P g"
  obtains g' where "jni_step ops c g = Some g'" "jni_ok P g'" "live_apms g' + in_use g = live_apms g + in_use g' + overwrites c g"
proof (cases c)
  case (Jni_Init ok rate)
  then have r: "rate_ok (s32 rate) \<and> R (s32 rate)" using assms(2) by (simp add: jni_call_ok_def)
  obtain g' where "WebRtcUtil_init ops ok rate g = (g', if ok then 0 else - 1)" "jni_ok P g'" "(handle g' \<noteq> None) = ok"
    "live_apms g' = live_apms g + (if ok then 1 else 0)" by (rule jni_init_ok [OF assms(1) r assms(3)])
  then show ?thesis using that [of g'] Jni_Init by (cases ok) (simp_all add: jni_step_def overwrites_def)
next
  case Jni_Free
  obtain g' where "WebRtcUtil_free g = Some g'" "jni_ok P g'" "handle g' = None" "live_apms g' + in_use g = live_apms g"
    by (rule jni_free_ok [OF assms(3)])
  then show ?thesis using that [of g'] Jni_Free by (simp add: jni_step_def overwrites_def)
next
  case (Jni_Process far near out len delay near_v far_v)
  note step = jni_step_def Jni_Process overwrites_def
  show ?thesis
  proof (cases "handle g")
    case None
    then have "jni_step ops c g = Some g" by (simp add: step WebRtcUtil_bufferFarendAndProcess_def)
    then show ?thesis using that assms(3) Jni_Process by (simp add: overwrites_def)
  next
    case (Some h)
    then obtain rate where r: "handles g h = Some \<lparr>magic = AP_AEC_MAGIC, sample_rate = rate\<rparr>" "native_ok P rate g"
      using assms(3) by (auto simp: jni_ok_def)
    have args: "process_ok far near out len" "volume_ok near_v" "volume_ok far_v"
      using assms(2) Jni_Process by (simp_all add: jni_call_ok_def)
    obtain s' fin where "WebRtcUtil_bufferFarendAndProcess ops far near out len delay near_v far_v g = Some (with_module g s', fin, 0)"
      "native_ok P rate (with_module g s')"
      by (rule process_blocks [OF assms(1) r(2,1) Some args]) blast
    then have "jni_step ops c g = Some (with_module g s')" "jni_ok P (with_module g s')"
      using assms(3) r(1) Some by (auto simp: jni_step_def Jni_Process jni_ok_def with_module_rest)
    then show ?thesis using that Jni_Process by (simp add: overwrites_def with_module_rest)
  qed
qed

lemma jni_run_ok:
  assumes "apm_ok R P ops" and "list_all (jni_call_ok R) calls" and "jni_ok P g"
  shows "\<exists>g'. jni_run ops calls g = Some g' \<and> jni_ok P g' \<and>
    live_apms g' + in_use g = live_apms g + in_use g' + lost_handles ops calls g"
  using assms(2,3)
proof (induction calls arbitrary: g)
  case (Cons c calls)
  obtain g1 where g1: "jni_step ops c g = Some g1" "jni_ok P g1" "live_apms g1 + in_use g = live_apms g + in_use g1 + overwrites c g"
    by (rule jni_step_ok [OF assms(1) _ Cons.prems(2)]) (use Cons.prems(1) in auto)
  then show ?case using Cons.IH [OF _ g1(2)] Cons.prems(1) by fastforce
qed simp

section \<open>Properties\<close>

text \<open>
  C18. At unit volume a call processes the whole blocks of 10 ms that fit into the given number of bytes: the
  module is given exactly the far-end and near-end samples of the caller, in order and with the delay, every
  block of the output array holds the samples that the module returned for it, the remaining bytes of the array are as
  they were, and the call returns 0.
\<close>

theorem jni_process_stream:
  assumes "apm_ok R P ops" and "jni_ok P g" and "handle g = Some h" and "handles g h = Some ah" and "process_ok far near out len"
  shows "\<exists>s s' fin. holds g s \<and>
    WebRtcUtil_bufferFarendAndProcess ops far near out len delay 1 1 g = Some (with_module g s', fin, 0) \<and>
    length fin = length out \<and>
    apm_blocks ops (sample_rate ah) delay
      (map (\<lambda>i. (block_samples far (sample_rate ah) i, block_samples near (sample_rate ah) i)) [0..<blocks_in (sample_rate ah) len]) s =
      (s', map (block_samples fin (sample_rate ah)) [0..<blocks_in (sample_rate ah) len]) \<and>
    (\<forall>k. block_bytes (sample_rate ah) * blocks_in (sample_rate ah) len \<le> k \<and> k < length out \<longrightarrow> fin ! k = out ! k)"
proof -
  define rate where "rate = sample_rate ah"
  have ah: "handles g h = Some \<lparr>magic = AP_AEC_MAGIC, sample_rate = rate\<rparr>" "native_ok P rate g"
    using assms(2-4) by (auto simp: jni_ok_def rate_def)
  have v: "volume_ok 1" by (simp add: volume_ok_def)
  obtain s blocks s' fin where b: "holds g s"
    "map Some blocks = map (\<lambda>j. Option.bind (scale_samples (block_samples far rate j) 1)
        (\<lambda>fs. map_option (Pair fs) (scale_samples (block_samples near rate j) 1))) [0..<blocks_in rate len]"
    "WebRtcUtil_bufferFarendAndProcess ops far near out len delay 1 1 g = Some (with_module g s', fin, 0)"
    "native_ok P rate (with_module g s')" "length fin = length out"
    "apm_blocks ops rate delay blocks s = (s', map (block_samples fin rate) [0..<blocks_in rate len])"
    "\<And>k. k < length fin \<Longrightarrow> block_bytes rate * blocks_in rate len \<le> k \<Longrightarrow> fin ! k = out ! k"
    by (rule process_blocks [OF assms(1) ah(2,1) assms(3,5) v v]) blast
  have "map Some blocks = map Some (map (\<lambda>i. (block_samples far rate i, block_samples near rate i)) [0..<blocks_in rate len])"
    using b(2) by (simp add: scale_unit)
  then have eq: "blocks = map (\<lambda>i. (block_samples far rate i, block_samples near rate i)) [0..<blocks_in rate len]"
    by (simp only: inj_map_eq_map [OF inj_Some])
  show ?thesis unfolding rate_def [symmetric] using b(1,3,5,7) b(6) [unfolded eq]
    by (intro exI [of _ s] exI [of _ s'] exI [of _ fin]) simp
qed

theorem jni_process_stream_witness:
  "\<exists>g s s' fin. WebRtcUtil_init pass_through True 8000 loaded = (g, 0) \<and> holds g s \<and>
     WebRtcUtil_bufferFarendAndProcess pass_through (replicate 500 1) (replicate 500 2) (replicate 500 3) 500 60 1 1 g =
       Some (with_module g s', fin, 0) \<and> fin ! 499 = 3"
proof -
  have r0: "rate_ok (s32 8000) \<and> any_rate (s32 8000)" by (simp add: rate_ok_def s32_def)
  obtain g where g: "WebRtcUtil_init pass_through True 8000 loaded = (g, 0)" "jni_ok anything g" "handle g \<noteq> None"
    by (rule jni_init_ok [OF apm_ok_pass_through r0 jni_ok_loaded, where ok = True]) simp
  obtain h ah where h: "handle g = Some h" "handles g h = Some ah" "rate_ok (sample_rate ah)"
    using g(2,3) by (auto simp: jni_ok_def native_ok_def)
  have r: "sample_rate ah = 8000"
    using g(1) h(1,2) by (auto simp: WebRtcUtil_init_def audio_process_aec_create_def Let_def s32_def)
  show ?thesis
    using jni_process_stream [OF apm_ok_pass_through g(2) h(1,2), of "replicate 500 1" "replicate 500 2" "replicate 500 3" 500 60] g(1)
    by (fastforce simp: process_ok_def r)
qed

text \<open>
  With a module that can be created and initialised for the rates in \<open>R\<close> and keeps the contract, no sequence of calls that a single caller
  makes, with arrays that hold the given number of bytes and volumes from 0 to 1, faults in the layer, and every handle has its module and
  its two frames.
\<close>

lemma jni_counts:
  assumes "apm_ok R P ops" and "list_all (jni_call_ok R) calls"
  shows "\<exists>g. jni_run ops calls loaded = Some g \<and> card (dom (handles g)) = live_apms g \<and> live_frames g = 2 * live_apms g \<and>
    live_apms g = (if handle g = None then 0 else 1) + lost_handles ops calls loaded"
  using jni_run_ok [OF assms jni_ok_loaded] by (auto simp: jni_ok_def loaded_def)

text \<open>
  C36. The result of the creation of the module is not looked at: when it fails, the initialisation reports success
  with a handle that is set, and the first call that processes a block of audio follows a null pointer.
\<close>

theorem failed_module_unnoticed:
  assumes "\<forall>c. create_apm ops c = None" and "rate_ok rate" and "rate div 50 \<le> len"
  shows "\<exists>g. WebRtcUtil_init ops True rate loaded = (g, 0) \<and> handle g \<noteq> None \<and> apm g = None \<and>
    WebRtcUtil_bufferFarendAndProcess ops far near out len delay near_v far_v g = None"
proof -
  have s: "s32 rate = rate" using assms(2) by (simp add: rate_ok_def s32_id is_s32_def)
  define g :: "'a native" where "g = loaded\<lparr>SAMPLE_RATE := rate, apm := None, next_handle := 1,
    handles := [0 \<mapsto> \<lparr>magic = AP_AEC_MAGIC, sample_rate = rate\<rparr>], handle := Some 0\<rparr>"
  have init: "WebRtcUtil_init ops True rate loaded = (g, 0)"
    by (simp add: WebRtcUtil_init_def audio_process_aec_create_def ingenic_apm_init_def assms(1) s Let_def g_def loaded_def
        agc_start_volumn_def AGC_MAX_VOLUMN_def)
  note sz = rate_sizes [OF assms(2)]
  have b: "0 < rate div 50" using sz(3) by simp
  then have "0 < nat (cdiv len (rate div 50))" using assms(3) by (simp add: cdiv_nonneg pos_imp_zdiv_pos_iff)
  then obtain n where n: "nat (cdiv len (rate div 50)) = Suc n" by (cases "nat (cdiv len (rate div 50))") auto
  have "far_frame g = None" by (simp add: g_def loaded_def)
  then have blk: "aec_block ops (block_bytes rate) near_v far_v 0 (g, p) = None" for p
    by (simp add: aec_block_def ingenic_apm_set_far_frame_def)
  have h: "handle g = Some 0" "handles g 0 = Some \<lparr>magic = AP_AEC_MAGIC, sample_rate = rate\<rparr>" by (simp_all add: g_def)
  have "WebRtcUtil_bufferFarendAndProcess ops far near out len delay near_v far_v g = None"
    unfolding WebRtcUtil_bufferFarendAndProcess_def audio_process_aec_process_def h option.case aec_handle.select_convs
      aec_process_param.select_convs Let_def sz(2) n
    using b by (simp add: blk)
  then show ?thesis using init by (intro exI [of _ g]) (simp add: g_def)
qed

theorem failed_module_unnoticed_witness:
  "\<exists>g. WebRtcUtil_init (pass_through\<lparr>create_apm := \<lambda>_. None\<rparr>) True 8000 loaded = (g, 0) \<and>
     WebRtcUtil_bufferFarendAndProcess (pass_through\<lparr>create_apm := \<lambda>_. None\<rparr>) (replicate 160 1) (replicate 160 2) (replicate 160 3) 160 60 1 1 g = None"
  using failed_module_unnoticed [of "pass_through\<lparr>create_apm := \<lambda>_. None\<rparr>" 8000 160 "replicate 160 1" "replicate 160 2" "replicate 160 3" 60 1 1]
  by (auto simp: rate_ok_def)

end
