(* ===== verification/Native_Threads.thy ===== *)
theory Native_Threads
  imports Native_Inv
begin

text \<open>
  The native layer under several threads (\<^verbatim>\<open>com_android_aec_util_WebRtcUtil.c\<close>). The functions that free the handle
  and process audio hold a mutex; the initialisation does not. The steps of a thread are the accesses that others
  can come between: the allocation, the creation of the module and the store of the handle in the initialisation;
  the lock, the deletion of the module, the release of the handle and the store of the null pointer when it is
  freed; the lock, the test of the handle and every block of 10 ms when audio is processed. A thread that follows
  a null or dangling pointer is \<open>Crashed\<close>.

  With \<open>serial\<close> the callers keep the initialisation apart from all other calls, as a program does that sets the
  library up before it starts its audio threads; without it every interleaving is possible.
\<close>

section \<open>Threads\<close>

datatype thread =
    Idle
  | Creating nat int
  | Created nat
  | Freeing
  | Destroyed nat
  | Released
  | Locked aec_process_param float32 float32
  | Processing nat float32 float32 nat nat aec_process_param
  | Crashed

fun in_lock :: "thread \<Rightarrow> bool" where
  "in_lock Freeing = True"
| "in_lock (Destroyed _) = True"
| "in_lock Released = True"
| "in_lock (Locked _ _ _) = True"
| "in_lock (Processing _ _ _ _ _ _) = True"
| "in_lock _ = False"

fun in_init :: "thread \<Rightarrow> bool" where
  "in_init (Creating _ _) = True"
| "in_init (Created _) = True"
| "in_init _ = False"

record 'a system =
  globals :: "'a native"
  owner :: "nat option"
  threads :: "nat \<Rightarrow> thread"

definition at_thread :: "nat \<Rightarrow> thread \<Rightarrow> 'a system \<Rightarrow> 'a system" where
  "at_thread t c s = s\<lparr>threads := (threads s)(t := c)\<rparr>"

definition unlock :: "'a system \<Rightarrow> 'a system" where
  "unlock s = s\<lparr>owner := None\<rparr>"

definition started :: "'a system" where
  "started = \<lparr>globals = loaded, owner = None, threads = (\<lambda>_. Idle)\<rparr>"

text \<open>The arguments of a call that processes audio: arrays that hold the given number of bytes, volumes from 0 to 1.\<close>

definition call_args_ok :: "aec_process_param \<Rightarrow> float32 \<Rightarrow> float32 \<Rightarrow> bool" where
  "call_args_ok p near_v far_v \<longleftrightarrow>
     process_ok (param_far p) (param_near p) (param_filter p) (param_size p) \<and> volume_ok near_v \<and> volume_ok far_v"

inductive thread_step :: "'a apm_ops \<Rightarrow> bool \<Rightarrow> 'a system \<Rightarrow> 'a system \<Rightarrow> bool" for ops serial where
  init_enter: "\<lbrakk>threads s t = Idle; rate_ok rate; serial \<Longrightarrow> \<forall>u. threads s u = Idle; h = next_handle (globals s)\<rbrakk>
    \<Longrightarrow> thread_step ops serial s (at_thread t (Creating h rate) (s\<lparr>globals := (globals s)\<lparr>next_handle := h + 1\<rparr>\<rparr>))"
| init_module: "\<lbrakk>threads s t = Creating h rate; g = fst (ingenic_apm_init ops rate (globals s))\<rbrakk>
    \<Longrightarrow> thread_step ops serial s (at_thread t (Created h)
          (s\<lparr>globals := g\<lparr>handles := (handles g)(h \<mapsto> \<lparr>magic = AP_AEC_MAGIC, sample_rate = rate\<rparr>)\<rparr>\<rparr>))"
| init_done: "threads s t = Created h
    \<Longrightarrow> thread_step ops serial s (at_thread t Idle (s\<lparr>globals := (globals s)\<lparr>handle := Some h\<rparr>\<rparr>))"
| free_lock: "\<lbrakk>threads s t = Idle; owner s = None; serial \<Longrightarrow> \<forall>u. \<not> in_init (threads s u)\<rbrakk>
    \<Longrightarrow> thread_step ops serial s (at_thread t Freeing (s\<lparr>owner := Some t\<rparr>))"
| free_none: "\<lbrakk>threads s t = Freeing; handle (globals s) = None\<rbrakk>
    \<Longrightarrow> thread_step ops serial s (at_thread t Idle (unlock s))"
| free_dangling: "\<lbrakk>threads s t = Freeing; handle (globals s) = Some h; handles (globals s) h = None\<rbrakk>
    \<Longrightarrow> thread_step ops serial s (at_thread t Crashed s)"
| free_foreign: "\<lbrakk>threads s t = Freeing; handle (globals s) = Some h; handles (globals s) h = Some ah; magic ah \<noteq> AP_AEC_MAGIC\<rbrakk>
    \<Longrightarrow> thread_step ops serial s (at_thread t Released s)"
| free_destroy: "\<lbrakk>threads s t = Freeing; handle (globals s) = Some h; handles (globals s) h = Some ah; magic ah = AP_AEC_MAGIC\<rbrakk>
    \<Longrightarrow> thread_step ops serial s (at_thread t (Destroyed h) (s\<lparr>globals := ingenic_apm_destroy (globals s)\<rparr>))"
| free_release: "threads s t = Destroyed h
    \<Longrightarrow> thread_step ops serial s (at_thread t Released (s\<lparr>globals := (globals s)\<lparr>handles := (handles (globals s))(h := None)\<rparr>\<rparr>))"
| free_done: "threads s t = Released
    \<Longrightarrow> thread_step ops serial s (at_thread t Idle (unlock (s\<lparr>globals := (globals s)\<lparr>handle := None\<rparr>\<rparr>)))"
| process_lock: "\<lbrakk>threads s t = Idle; owner s = None; call_args_ok p near_v far_v; serial \<Longrightarrow> \<forall>u. \<not> in_init (threads s u)\<rbrakk>
    \<Longrightarrow> thread_step ops serial s (at_thread t (Locked p near_v far_v) (s\<lparr>owner := Some t\<rparr>))"
| process_none: "\<lbrakk>threads s t = Locked p near_v far_v; handle (globals s) = None\<rbrakk>
    \<Longrightarrow> thread_step ops serial s (at_thread t Idle (unlock s))"
| process_dangling: "\<lbrakk>threads s t = Locked p near_v far_v; handle (globals s) = Some h; handles (globals s) h = None\<rbrakk>
    \<Longrightarrow> thread_step ops serial s (at_thread t Crashed s)"
| process_foreign: "\<lbrakk>threads s t = Locked p near_v far_v; handle (globals s) = Some h; handles (globals s) h = Some ah; magic ah \<noteq> AP_AEC_MAGIC\<rbrakk>
    \<Longrightarrow> thread_step ops serial s (at_thread t Idle (unlock s))"
| process_start: "\<lbrakk>threads s t = Locked p near_v far_v; handle (globals s) = Some h; handles (globals s) h = Some ah; magic ah = AP_AEC_MAGIC;
      aec_size (sample_rate ah) \<noteq> 0\<rbrakk>
    \<Longrightarrow> thread_step ops serial s (at_thread t (Processing (nat (aec_size (sample_rate ah))) near_v far_v 0
          (nat (cdiv (param_size p) (aec_size (sample_rate ah)))) p) s)"
| process_zero: "\<lbrakk>threads s t = Locked p near_v far_v; handle (globals s) = Some h; handles (globals s) h = Some ah; magic ah = AP_AEC_MAGIC;
      aec_size (sample_rate ah) = 0\<rbrakk>
    \<Longrightarrow> thread_step ops serial s (at_thread t Crashed s)"
| process_block: "\<lbrakk>threads s t = Processing sz near_v far_v i (Suc n) p; aec_block ops sz near_v far_v i (globals s, p) = Some (g, q)\<rbrakk>
    \<Longrightarrow> thread_step ops serial s (at_thread t (Processing sz near_v far_v (Suc i) n q) (s\<lparr>globals := g\<rparr>))"
| process_fault: "\<lbrakk>threads s t = Processing sz near_v far_v i (Suc n) p; aec_block ops sz near_v far_v i (globals s, p) = None\<rbrakk>
    \<Longrightarrow> thread_step ops serial s (at_thread t Crashed s)"
| process_done: "threads s t = Processing sz near_v far_v i 0 p
    \<Longrightarrow> thread_step ops serial s (at_thread t Idle (unlock s))"

inductive reachable :: "'a apm_ops \<Rightarrow> bool \<Rightarrow> 'a system \<Rightarrow> bool" for ops serial where
  start: "reachable ops serial started"
| step: "reachable ops serial s \<Longrightarrow> thread_step ops serial s s' \<Longrightarrow> reachable ops serial s'"

inductive_cases thread_stepE: "thread_step ops serial s s'"

section \<open>Mutual exclusion\<close>

lemma at_thread_simps [simp]:
  "threads (at_thread t c s) = (threads s)(t := c)" "globals (at_thread t c s) = globals s" "owner (at_thread t c s) = owner s"
  "globals (unlock s) = globals s" "owner (unlock s) = None" "threads (unlock s) = threads s"
  by (simp_all add: at_thread_def unlock_def)

definition owner_ok :: "'a system \<Rightarrow> bool" where
  "owner_ok s \<longleftrightarrow> (\<forall>t. in_lock (threads s t) \<longrightarrow> owner s = Some t)"

lemma owner_keep:
  "owner_ok s \<Longrightarrow> (in_lock c \<Longrightarrow> in_lock (threads s t)) \<Longrightarrow> owner_ok (at_thread t c s)"
  "owner_ok s \<Longrightarrow> (in_lock c \<Longrightarrow> in_lock (threads s t)) \<Longrightarrow> owner_ok (at_thread t c (s\<lparr>globals := g\<rparr>))"
  by (auto simp: owner_ok_def)

lemma owner_acquire: "owner_ok s \<Longrightarrow> owner s = None \<Longrightarrow> owner_ok (at_thread t c (s\<lparr>owner := Some t\<rparr>))"
  by (auto simp: owner_ok_def)

lemma owner_release:
  assumes "owner_ok s" and "in_lock (threads s t)" and "\<not> in_lock c"
  shows "owner_ok (at_thread t c (unlock (s\<lparr>globals := g\<rparr>)))" "owner_ok (at_thread t c (unlock s))"
proof -
  have "u = t" if "in_lock (threads s u)" for u
    using assms(1,2) that by (metis option.inject owner_ok_def)
  then show "owner_ok (at_thread t c (unlock (s\<lparr>globals := g\<rparr>)))" "owner_ok (at_thread t c (unlock s))"
    using assms(3) by (auto simp: owner_ok_def)
qed

lemma step_owner: "thread_step ops serial s s' \<Longrightarrow> owner_ok s \<Longrightarrow> owner_ok s'"
  by (erule thread_step.cases) (auto intro: owner_release owner_acquire owner_keep)

lemma reachable_owner: "reachable ops serial s \<Longrightarrow> owner_ok s"
proof (induction rule: reachable.induct)
  case start
  show ?case by (simp add: owner_ok_def started_def)
qed (rule step_owner)

text \<open>
  At most one thread is inside the calls that the mutex protects, in every interleaving.
\<close>

theorem mutual_exclusion:
  assumes "reachable ops serial s" and "in_lock (threads s t)" and "in_lock (threads s u)"
  shows "t = u"
  using reachable_owner [OF assms(1)] assms(2,3) by (metis option.inject owner_ok_def)

theorem mutual_exclusion_witness:
  "\<exists>s. reachable pass_through False s \<and> in_lock (threads s 7) \<and> (\<forall>u. in_lock (threads s u) \<longrightarrow> u = 7)"
proof -
  define s :: "nat system" where "s = at_thread 7 Freeing (started\<lparr>owner := Some 7\<rparr>)"
  have "thread_step pass_through False started s" unfolding s_def by (rule free_lock) (simp_all add: started_def)
  then have r: "reachable pass_through False s" by (rule reachable.step [OF reachable.start])
  moreover have l: "in_lock (threads s 7)" by (simp add: s_def)
  ultimately show ?thesis using mutual_exclusion [OF r _ l] by blast
qed

section \<open>Serial initialisation\<close>

definition heap_ok :: "'a native \<Rightarrow> bool" where
  "heap_ok g \<longleftrightarrow> (\<forall>h \<in> dom (handles g). h < next_handle g)"

definition handle_ok :: "(int \<Rightarrow> 'a \<Rightarrow> bool) \<Rightarrow> nat \<Rightarrow> int \<Rightarrow> 'a native \<Rightarrow> bool" where
  "handle_ok P h rate g \<longleftrightarrow> handles g h = Some \<lparr>magic = AP_AEC_MAGIC, sample_rate = rate\<rparr> \<and> native_ok P rate g"

definition idle_ok :: "(int \<Rightarrow> 'a \<Rightarrow> bool) \<Rightarrow> 'a native \<Rightarrow> bool" where
  "idle_ok P g \<longleftrightarrow> heap_ok g \<and> (\<forall>h. handle g = Some h \<longrightarrow> (\<exists>rate. handle_ok P h rate g))"

text \<open>What a thread inside a call finds in the globals.\<close>

fun phase_ok :: "(int \<Rightarrow> 'a \<Rightarrow> bool) \<Rightarrow> 'a native \<Rightarrow> thread \<Rightarrow> bool" where
  "phase_ok P g Idle = True"
| "phase_ok P g (Creating h rate) = (idle_ok P g \<and> rate_ok rate \<and> h < next_handle g)"
| "phase_ok P g (Created h) = (heap_ok g \<and> (\<exists>rate. handle_ok P h rate g))"
| "phase_ok P g Freeing = idle_ok P g"
| "phase_ok P g (Destroyed h) = heap_ok g"
| "phase_ok P g Released = heap_ok g"
| "phase_ok P g (Locked p near_v far_v) = (idle_ok P g \<and> call_args_ok p near_v far_v)"
| "phase_ok P g (Processing sz near_v far_v i n p) =
     (heap_ok g \<and> volume_ok near_v \<and> volume_ok far_v \<and>
      (\<exists>h rate. handle g = Some h \<and> handle_ok P h rate g \<and> sz = block_bytes rate \<and> arrays_ok rate (i + n) p))"
| "phase_ok P g Crashed = False"

definition serial_ok :: "(int \<Rightarrow> 'a \<Rightarrow> bool) \<Rightarrow> 'a system \<Rightarrow> bool" where
  "serial_ok P s \<longleftrightarrow> owner_ok s \<and>
     ((\<forall>t. threads s t = Idle) \<and> idle_ok P (globals s) \<or>
      (\<exists>t. threads s t \<noteq> Idle \<and> (\<forall>u. u \<noteq> t \<longrightarrow> threads s u = Idle) \<and> phase_ok P (globals s) (threads s t) \<and>
         (in_lock (threads s t) \<or> in_init (threads s t))))"

lemma serial_phase:
  assumes "serial_ok P s" and "threads s t \<noteq> Idle"
  shows "phase_ok P (globals s) (threads s t)" "u \<noteq> t \<Longrightarrow> threads s u = Idle"
  using assms unfolding serial_ok_def by metis+

lemma serial_idle: "serial_ok P s \<Longrightarrow> \<forall>u. threads s u = Idle \<Longrightarrow> idle_ok P (globals s)"
  by (auto simp: serial_ok_def)

lemma serial_free:
  assumes "serial_ok P s" and "owner s = None" and "\<forall>u. \<not> in_init (threads s u)"
  shows "threads s u = Idle"
  using assms unfolding serial_ok_def owner_ok_def by (metis option.distinct(1))

lemma serial_next:
  assumes "owner_ok s'" and "\<And>u. u \<noteq> t \<Longrightarrow> threads s' u = Idle"
    and "if threads s' t = Idle then idle_ok P (globals s') else phase_ok P (globals s') (threads s' t) \<and>
           (in_lock (threads s' t) \<or> in_init (threads s' t))"
  shows "serial_ok P s'"
proof (cases "threads s' t = Idle")
  case True
  then have "\<forall>u. threads s' u = Idle" using assms(2) by metis
  then show ?thesis using assms(1,3) True by (simp add: serial_ok_def)
next
  case False
  then show ?thesis using assms unfolding serial_ok_def by (metis (full_types))
qed

lemma idle_of_handle: "heap_ok g \<Longrightarrow> handle g = Some h \<Longrightarrow> handle_ok P h rate g \<Longrightarrow> idle_ok P g"
  by (auto simp: idle_ok_def)

lemma start_blocks:
  assumes "call_args_ok p near_v far_v" and "idle_ok P g" and "handle g = Some h" and "handles g h = Some ah"
  shows "aec_size (sample_rate ah) \<noteq> 0 \<and> magic ah = AP_AEC_MAGIC \<and>
    phase_ok P g (Processing (nat (aec_size (sample_rate ah))) near_v far_v 0
      (nat (cdiv (param_size p) (aec_size (sample_rate ah)))) p)"
proof -
  define rate where "rate = sample_rate ah"
  have h: "handle_ok P h rate g" "magic ah = AP_AEC_MAGIC" using assms(2-4) by (auto simp: idle_ok_def handle_ok_def rate_def)
  then have r: "rate_ok rate" by (simp add: handle_ok_def native_ok_def)
  note sz = rate_sizes [OF r]
  have p: "process_ok (param_far p) (param_near p) (param_filter p) (param_size p)" using assms(1) by (simp add: call_args_ok_def)
  then have "0 \<le> param_size p" by (simp add: process_ok_def)
  moreover have "0 \<le> rate div 50" using sz(3) by simp
  ultimately have n: "nat (cdiv (param_size p) (rate div 50)) = blocks_in rate (param_size p)"
    by (simp add: cdiv_nonneg nat_div_distrib)
  have "arrays_ok rate (blocks_in rate (param_size p)) p"
    using p blocks_in_fit [of "param_size p" _ rate] by (simp add: arrays_ok_def process_ok_def)
  then show ?thesis using assms h sz(2,3) n unfolding rate_def [symmetric] by (auto simp: call_args_ok_def idle_ok_def)
qed

lemma block_step:
  assumes "apm_ok R P ops" and "phase_ok P g (Processing sz near_v far_v i (Suc n) p)"
  shows "\<exists>g' q. aec_block ops sz near_v far_v i (g, p) = Some (g', q) \<and> phase_ok P g' (Processing sz near_v far_v (Suc i) n q)"
proof -
  obtain h rate where h: "handle g = Some h" "handle_ok P h rate g" "sz = block_bytes rate" "arrays_ok rate (i + Suc n) p"
    "heap_ok g" "volume_ok near_v" "volume_ok far_v" using assms(2) by auto
  have nat: "native_ok P rate g" using h(2) by (simp add: handle_ok_def)
  then obtain s where s: "holds g s" by (auto simp: native_ok_def holds_def)
  have arr: "arrays_ok rate (Suc i) p" by (rule arrays_ok_mono [OF h(4)]) simp
  obtain out s' where b: "aec_block ops (block_bytes rate) near_v far_v i (g, p) = Some (with_module g s', p\<lparr>param_filter := out\<rparr>)"
    "native_ok P rate (with_module g s')" "length out = length (param_filter p)"
    using aec_block_ok [OF assms(1) nat s arr h(6,7)] by metis
  then show ?thesis
    using h by (auto simp: handle_ok_def with_module_rest heap_ok_def arrays_ok_def)
qed

lemma module_step:
  assumes "apm_ok R P ops" and "R rate" and "phase_ok P g (Creating h rate)" and "g' = fst (ingenic_apm_init ops rate g)"
  shows "phase_ok P (g'\<lparr>handles := (handles g')(h \<mapsto> \<lparr>magic = AP_AEC_MAGIC, sample_rate = rate\<rparr>)\<rparr>) (Created h)"
proof -
  have r: "rate_ok rate" "idle_ok P g" "h < next_handle g" using assms(3) by simp_all
  obtain s where s: "ingenic_apm_init ops rate g =
      (with_module (g\<lparr>SAMPLE_RATE := rate, live_apms := live_apms g + 1, live_frames := live_frames g + 2\<rparr>) s, 0)"
    "native_ok P rate (with_module (g\<lparr>SAMPLE_RATE := rate, live_apms := live_apms g + 1, live_frames := live_frames g + 2\<rparr>) s)"
    by (rule apm_init_ok [OF assms(1) r(1) assms(2)])
  then show ?thesis
    using r(2,3) assms(4) by (auto simp: handle_ok_def heap_ok_def idle_ok_def with_module_rest)
qed

lemma step_serial:
  assumes "apm_ok R P ops" and "thread_step ops True s s'" and "serial_ok P s" and "\<forall>t h rate. threads s t = Creating h rate \<longrightarrow> R rate"
  shows "serial_ok P s'"
proof -
  have own: "owner_ok s'" using step_owner [OF assms(2)] assms(3) by (simp add: serial_ok_def)
  note inside = serial_phase [OF assms(3)]
  from assms(2) show ?thesis
  proof cases
    case (init_enter t rate h)
    then have "idle_ok P (globals s)" using serial_idle [OF assms(3)] by simp
    then have "idle_ok P ((globals s)\<lparr>next_handle := h + 1\<rparr>)" using init_enter by (auto simp: idle_ok_def heap_ok_def handle_ok_def intro!: less_SucI)
    then show ?thesis using init_enter by (intro serial_next [OF own, of t]) auto
  next
    case (init_module t h rate g)
    then show ?thesis
      using inside(2) [of t] module_step [OF assms(1) _ _ init_module(3)] assms(4) inside(1) [of t] by (intro serial_next [OF own, of t]) auto
  next
    case (init_done t h)
    then have "idle_ok P ((globals s)\<lparr>handle := Some h\<rparr>)" using inside(1) [of t] by (auto simp: idle_ok_def heap_ok_def handle_ok_def)
    then show ?thesis using init_done inside(2) [of t] by (intro serial_next [OF own, of t]) auto
  next
    case (free_lock t)
    then have "idle_ok P (globals s)" "threads s u = Idle" for u
      using serial_idle [OF assms(3)] serial_free [OF assms(3) free_lock(3)] by auto
    then show ?thesis using free_lock by (intro serial_next [OF own, of t]) auto
  next
    case (process_lock t p near_v far_v)
    then have "idle_ok P (globals s)" "threads s u = Idle" for u
      using serial_idle [OF assms(3)] serial_free [OF assms(3) process_lock(3)] by auto
    then show ?thesis using process_lock by (intro serial_next [OF own, of t]) auto
  next
    case (process_start t p near_v far_v h ah)
    then show ?thesis using inside(2) [of t] inside(1) [of t] start_blocks [of p near_v far_v P "globals s" h ah]
      by (intro serial_next [OF own, of t]) auto
  next
    case (process_zero t p near_v far_v h ah)
    then show ?thesis using inside(1) [of t] start_blocks [of p near_v far_v P "globals s" h ah] by auto
  next
    case (process_block t sz near_v far_v i n p g q)
    then have "phase_ok P g (Processing sz near_v far_v (Suc i) n q)"
      using block_step [OF assms(1), of "globals s" sz near_v far_v i n p] inside(1) [of t] by fastforce
    then show ?thesis using process_block inside(2) [of t] by (intro serial_next [OF own, of t]) auto
  next
    case (process_fault t sz near_v far_v i n p)
    then show ?thesis using block_step [OF assms(1), of "globals s" sz near_v far_v i n p] inside(1) [of t] by fastforce
  next
    case (process_done t sz near_v far_v i p)
    then show ?thesis using inside(2) [of t] inside(1) [of t]
      by (intro serial_next [OF own, of t]) (auto intro: idle_of_handle)
  next
    case (free_release t h)
    then show ?thesis using inside(2) [of t] inside(1) [of t] by (intro serial_next [OF own, of t]) (auto simp: heap_ok_def)
  next
    case (free_done t)
    then show ?thesis using inside(2) [of t] inside(1) [of t] by (intro serial_next [OF own, of t]) (auto simp: heap_ok_def idle_ok_def)
  next
    case (free_destroy t h ah)
    then show ?thesis using inside(2) [of t] inside(1) [of t]
      by (intro serial_next [OF own, of t]) (auto simp: heap_ok_def idle_ok_def ingenic_apm_destroy_def Let_def)
  next
    case (free_none t)
    then show ?thesis using inside(2) [of t] inside(1) [of t] by (intro serial_next [OF own, of t]) auto
  next
    case (free_dangling t h)
    then show ?thesis using inside(1) [of t] by (auto simp: idle_ok_def handle_ok_def)
  next
    case (free_foreign t h ah)
    then show ?thesis using inside(1) [of t] by (auto simp: idle_ok_def handle_ok_def)
  next
    case (process_none t p near_v far_v)
    then show ?thesis using inside(2) [of t] inside(1) [of t] by (intro serial_next [OF own, of t]) auto
  next
    case (process_dangling t p near_v far_v h)
    then show ?thesis using inside(1) [of t] by (auto simp: idle_ok_def handle_ok_def)
  next
    case (process_foreign t p near_v far_v h ah)
    then show ?thesis using inside(1) [of t] by (auto simp: idle_ok_def handle_ok_def)
  qed
qed

text \<open>The callers keep the initialisation apart from the other calls, and set the library up for rates in \<open>R\<close> only.\<close>

inductive reachable_at :: "(int \<Rightarrow> bool) \<Rightarrow> 'a apm_ops \<Rightarrow> 'a system \<Rightarrow> bool" for R ops where
  start: "reachable_at R ops started"
| step: "\<lbrakk>reachable_at R ops s; thread_step ops True s s'; \<forall>t h rate. threads s' t = Creating h rate \<longrightarrow> R rate\<rbrakk> \<Longrightarrow> reachable_at R ops s'"

text \<open>
  Then no thread ever follows a null or dangling pointer or leaves an array, whatever the threads do otherwise, and the handle that is set
  while no call is under way belongs to a module that is alive and in its invariant.
\<close>

lemma serial_run:
  assumes "apm_ok R P ops" and "reachable_at R ops s"
  shows "serial_ok P s"
proof -
  have "serial_ok P s \<and> (\<forall>t h rate. threads s t = Creating h rate \<longrightarrow> R rate)" using assms(2)
  proof (induction rule: reachable_at.induct)
    case start
    show ?case by (simp add: serial_ok_def owner_ok_def started_def idle_ok_def heap_ok_def loaded_def)
  next
    case (step s s')
    then show ?case using step_serial [OF assms(1) step.hyps(2)] by blast
  qed
  then show ?thesis by blast
qed

lemma serial_safe:
  assumes "apm_ok R P ops" and "reachable_at R ops s"
  shows "threads s t \<noteq> Crashed"
    "\<forall>u. threads s u = Idle \<Longrightarrow> handle (globals s) = Some h \<Longrightarrow>
       \<exists>rate. handles (globals s) h = Some \<lparr>magic = AP_AEC_MAGIC, sample_rate = rate\<rparr> \<and> native_ok P rate (globals s)"
proof -
  note ok = serial_run [OF assms]
  show "threads s t \<noteq> Crashed" using serial_phase(1) [OF ok, of t] by (cases "threads s t") auto
  show "\<forall>u. threads s u = Idle \<Longrightarrow> handle (globals s) = Some h \<Longrightarrow>
       \<exists>rate. handles (globals s) h = Some \<lparr>magic = AP_AEC_MAGIC, sample_rate = rate\<rparr> \<and> native_ok P rate (globals s)"
    using serial_idle [OF ok] by (auto simp: idle_ok_def handle_ok_def)
qed

text \<open>A thread that sets the library up alone.\<close>

lemma serial_init:
  fixes ops :: "'a apm_ops"
  assumes "R 8000"
  shows "\<exists>s. reachable_at R ops s \<and> (\<forall>u. threads s u = Idle) \<and> handle (globals s) = Some 0"
proof -
  define s1 where "s1 = at_thread 3 (Creating 0 8000) (started\<lparr>globals := loaded\<lparr>next_handle := 0 + 1\<rparr>\<rparr> :: 'a system)"
  define g where "g = fst (ingenic_apm_init ops 8000 (globals s1))"
  define s2 where "s2 = at_thread 3 (Created 0) (s1\<lparr>globals := g\<lparr>handles := (handles g)(0 \<mapsto> \<lparr>magic = AP_AEC_MAGIC, sample_rate = 8000\<rparr>)\<rparr>\<rparr>)"
  define s3 where "s3 = at_thread 3 Idle (s2\<lparr>globals := (globals s2)\<lparr>handle := Some 0\<rparr>\<rparr>)"
  have "thread_step ops True started s1"
    using init_enter [of started 3 8000 True 0 ops] by (simp add: s1_def started_def rate_ok_def loaded_def)
  moreover have "thread_step ops True s1 s2" unfolding s2_def by (rule init_module) (simp_all add: s1_def g_def)
  moreover have "thread_step ops True s2 s3" unfolding s3_def by (rule init_done) (simp add: s2_def)
  moreover have idle: "\<forall>u. threads s3 u = Idle" "handle (globals s3) = Some 0" by (simp_all add: s3_def s2_def s1_def started_def)
  moreover have "threads s2 t \<noteq> Creating h rate" for t h rate by (simp add: s2_def s1_def started_def)
  moreover have "threads s1 t = Creating h rate \<longrightarrow> R rate" for t h rate using assms by (simp add: s1_def started_def)
  ultimately have "reachable_at R ops s3" by (metis reachable_at.intros thread.distinct(1))
  then show ?thesis using idle by blast
qed

section \<open>Concurrent initialisation\<close>

lemma init_heap [simp]:
  "handles (fst (ingenic_apm_init ops rate g)) = handles g" "handle (fst (ingenic_apm_init ops rate g)) = handle g"
  "next_handle (fst (ingenic_apm_init ops rate g)) = next_handle g"
  by (simp_all add: ingenic_apm_init_def Let_def split: option.split prod.split)

lemma destroy_heap [simp]:
  "handles (ingenic_apm_destroy g) = handles g" "handle (ingenic_apm_destroy g) = handle g"
  "next_handle (ingenic_apm_destroy g) = next_handle g" "far_frame (ingenic_apm_destroy g) = None"
  by (simp_all add: ingenic_apm_destroy_def Let_def)

text \<open>The end of the interleaving: a handle that is set without its frames, and a thread that processes a block.\<close>

lemma process_without_frames:
  assumes "reachable ops False s" and "threads s t = Idle" and "owner s = None" and "call_args_ok p near_v far_v"
    and "handle (globals s) = Some h" and "handles (globals s) h = Some \<lparr>magic = AP_AEC_MAGIC, sample_rate = 8000\<rparr>"
    and "far_frame (globals s) = None" and "param_size p = 160"
  shows "\<exists>s'. reachable ops False s' \<and> threads s' t = Crashed"
proof -
  define s1 where "s1 = at_thread t (Locked p near_v far_v) (s\<lparr>owner := Some t\<rparr>)"
  define s2 where "s2 = at_thread t (Processing 160 near_v far_v 0 1 p) s1"
  have size: "aec_size 8000 = 160" by (simp add: aec_size_def s32_def)
  have "thread_step ops False s s1" unfolding s1_def by (rule process_lock) (use assms in auto)
  moreover have "thread_step ops False s1 s2"
    using process_start [of s1 t p near_v far_v h "\<lparr>magic = AP_AEC_MAGIC, sample_rate = 8000\<rparr>" ops False] assms(5,6,8)
    by (simp add: s2_def s1_def size cdiv_def)
  moreover have "thread_step ops False s2 (at_thread t Crashed s2)"
    by (rule process_fault [of _ _ 160 near_v far_v 0 0 p])
      (use assms(7) in \<open>simp_all add: s2_def s1_def aec_block_def ingenic_apm_set_far_frame_def\<close>)
  ultimately have "reachable ops False (at_thread t Crashed s2)" using assms(1) by (blast intro: reachable.step)
  then show ?thesis by (intro exI) auto
qed

text \<open>
  C37. The initialisation takes no lock. When it runs beside the release of an older handle, the release can delete
  the new module after it was created and before its handle is stored; the handle is then set without a module,
  and the next call that processes audio follows a null pointer.
\<close>

theorem concurrent_init_crashes: "\<exists>s t. reachable ops False s \<and> threads s t = Crashed"
proof -
  define ah where "ah = \<lparr>magic = AP_AEC_MAGIC, sample_rate = 8000\<rparr>"
  define s1 where "s1 = at_thread 0 (Creating 0 8000) (started\<lparr>globals := loaded\<lparr>next_handle := 1\<rparr>\<rparr> :: 'a system)"
  define g1 where "g1 = fst (ingenic_apm_init ops 8000 (globals s1))"
  define s2 where "s2 = at_thread 0 (Created 0) (s1\<lparr>globals := g1\<lparr>handles := (handles g1)(0 \<mapsto> ah)\<rparr>\<rparr>)"
  define s3 where "s3 = at_thread 0 Idle (s2\<lparr>globals := (globals s2)\<lparr>handle := Some 0\<rparr>\<rparr>)"
  define s4 where "s4 = at_thread 1 Freeing (s3\<lparr>owner := Some 1\<rparr>)"
  define s5 where "s5 = at_thread 0 (Creating 1 8000) (s4\<lparr>globals := (globals s4)\<lparr>next_handle := 2\<rparr>\<rparr>)"
  define g5 where "g5 = fst (ingenic_apm_init ops 8000 (globals s5))"
  define s6 where "s6 = at_thread 0 (Created 1) (s5\<lparr>globals := g5\<lparr>handles := (handles g5)(1 \<mapsto> ah)\<rparr>\<rparr>)"
  define s7 where "s7 = at_thread 1 (Destroyed 0) (s6\<lparr>globals := ingenic_apm_destroy (globals s6)\<rparr>)"
  define s8 where "s8 = at_thread 1 Released (s7\<lparr>globals := (globals s7)\<lparr>handles := (handles (globals s7))(0 := None)\<rparr>\<rparr>)"
  define s9 where "s9 = at_thread 1 Idle (unlock (s8\<lparr>globals := (globals s8)\<lparr>handle := None\<rparr>\<rparr>))"
  define s10 where "s10 = at_thread 0 Idle (s9\<lparr>globals := (globals s9)\<lparr>handle := Some 1\<rparr>\<rparr>)"
  note st = s1_def s2_def s3_def s4_def s5_def s6_def s7_def s8_def s9_def s10_def g1_def g5_def started_def loaded_def
  have "thread_step ops False started s1"
    using init_enter [of started 0 8000 False 0 ops] by (simp add: s1_def started_def rate_ok_def loaded_def)
  moreover have "thread_step ops False s1 s2" unfolding s2_def ah_def by (rule init_module) (simp_all add: s1_def g1_def)
  moreover have "thread_step ops False s2 s3" unfolding s3_def by (rule init_done) (simp add: s2_def)
  moreover have "thread_step ops False s3 s4" unfolding s4_def by (rule free_lock) (simp_all add: st)
  moreover have "thread_step ops False s4 s5"
  proof -
    have "threads s3 0 = Idle" by (simp add: s3_def)
    then have t: "threads s4 0 = Idle" by (simp add: s4_def)
    have n: "next_handle (globals s1) = 1" by (simp add: s1_def)
    then have "next_handle (globals s3) = 1" by (simp add: s3_def s2_def g1_def)
    then have "next_handle (globals s4) = 1" by (simp add: s4_def)
    then show ?thesis using init_enter [of s4 0 8000 False 1 ops] t by (simp add: s5_def rate_ok_def numeral_2_eq_2)
  qed
  moreover have "thread_step ops False s5 s6" unfolding s6_def ah_def by (rule init_module) (simp_all add: s5_def g5_def)
  moreover have "thread_step ops False s6 s7"
  proof -
    have "handle (globals s3) = Some 0" "handles (globals s3) 0 = Some ah" by (simp_all add: s3_def s2_def)
    then have "handle (globals s5) = Some 0" "handles (globals s5) 0 = Some ah" by (simp_all add: s5_def s4_def)
    then have "handle (globals s6) = Some 0" "handles (globals s6) 0 = Some ah" by (simp_all add: s6_def g5_def)
    moreover have "threads s6 1 = Freeing" by (simp add: s6_def s5_def s4_def)
    moreover have "magic ah = AP_AEC_MAGIC" by (simp add: ah_def)
    ultimately show ?thesis using free_destroy [of s6 1 0 ah ops False] by (simp only: s7_def)
  qed
  moreover have "thread_step ops False s7 s8" unfolding s8_def by (rule free_release) (simp add: s7_def)
  moreover have "thread_step ops False s8 s9" unfolding s9_def by (rule free_done) (simp add: s8_def)
  moreover have "thread_step ops False s9 s10" unfolding s10_def
    by (rule init_done) (simp add: s9_def s8_def s7_def s6_def)
  ultimately have r: "reachable ops False s10" by (meson reachable.intros)
  define p where "p = \<lparr>param_far = replicate 160 0, param_near = replicate 160 0, param_filter = replicate 160 0, param_size = 160, param_delay_time = 60\<rparr>"
  have "call_args_ok p 1 1" "param_size p = 160" by (simp_all add: p_def call_args_ok_def process_ok_def volume_ok_def)
  moreover have "threads s10 1 = Idle" "owner s10 = None" "handle (globals s10) = Some 1" "far_frame (globals s10) = None"
    "handles (globals s10) 1 = Some \<lparr>magic = AP_AEC_MAGIC, sample_rate = 8000\<rparr>"
    by (simp_all add: s10_def s9_def s8_def s7_def s6_def ah_def)
  ultimately show ?thesis using process_without_frames [OF r, of 1 p 1 1 1] by blast
qed

end
