(* ===== verification/Swap_Queue.thy ===== *)
theory Swap_Queue
  imports Prelude
begin

text \<open>
  The queue between the render and the capture side (\<^verbatim>\<open>common_audio/swap_queue.h\<close>): a ring of slots whose
  elements are exchanged with those of the caller. It refines a bounded list; the locale \<open>bounded_queue\<close> has
  what its clients rely on. The lock and the checks of debug builds are not modelled.
\<close>

section \<open>The ring\<close>

record 'a SwapQueue =
  next_write_index :: nat
  next_read_index :: nat
  num_elements :: nat
  slots :: "'a list"

definition SwapQueue_new :: "nat \<Rightarrow> 'a \<Rightarrow> 'a SwapQueue" where
  "SwapQueue_new n prototype = \<lparr>next_write_index = 0, next_read_index = 0, num_elements = 0, slots = replicate n prototype\<rparr>"

definition SwapQueue_Clear :: "'a SwapQueue \<Rightarrow> 'a SwapQueue" where
  "SwapQueue_Clear q = q\<lparr>next_write_index := 0, next_read_index := 0, num_elements := 0\<rparr>"

text \<open>The results are the queue, what the caller's variable holds then, and whether there was room or an element.\<close>

definition SwapQueue_Insert :: "'a SwapQueue \<Rightarrow> 'a \<Rightarrow> 'a SwapQueue \<times> 'a \<times> bool" where
  "SwapQueue_Insert q input =
     (if num_elements q = length (slots q) then (q, input, False)
      else let w = next_write_index q
           in (q\<lparr>slots := (slots q)[w := input], next_write_index := (if w + 1 = length (slots q) then 0 else w + 1),
                 num_elements := num_elements q + 1\<rparr>, slots q ! w, True))"

definition SwapQueue_Remove :: "'a SwapQueue \<Rightarrow> 'a \<Rightarrow> 'a SwapQueue \<times> 'a \<times> bool" where
  "SwapQueue_Remove q output =
     (if num_elements q = 0 then (q, output, False)
      else let r = next_read_index q
           in (q\<lparr>slots := (slots q)[r := output], next_read_index := (if r + 1 = length (slots q) then 0 else r + 1),
                 num_elements := num_elements q - 1\<rparr>, slots q ! r, True))"

section \<open>Bounded queues\<close>

datatype 'a queue_op = Insert 'a | Remove 'a

locale bounded_queue =
  fixes inv :: "'q \<Rightarrow> bool" and content :: "'q \<Rightarrow> 'a list" and capacity :: "'q \<Rightarrow> nat"
    and insert_op remove_op :: "'q \<Rightarrow> 'a \<Rightarrow> 'q \<times> 'a \<times> bool"
  assumes insert_full: "inv q \<Longrightarrow> length (content q) = capacity q \<Longrightarrow> insert_op q x = (q, x, False)"
    and insert_room: "inv q \<Longrightarrow> length (content q) < capacity q \<Longrightarrow>
      \<exists>q' y. insert_op q x = (q', y, True) \<and> inv q' \<and> content q' = content q @ [x] \<and> capacity q' = capacity q"
    and remove_empty: "inv q \<Longrightarrow> content q = [] \<Longrightarrow> remove_op q x = (q, x, False)"
    and remove_first: "inv q \<Longrightarrow> content q = y # ys \<Longrightarrow>
      \<exists>q'. remove_op q x = (q', y, True) \<and> inv q' \<and> content q' = ys \<and> capacity q' = capacity q"
    and bounded: "inv q \<Longrightarrow> length (content q) \<le> capacity q"
begin

lemma insert_all:
  assumes "inv q" "length (content q) + length xs \<le> capacity q"
  shows "\<exists>q'. fold (\<lambda>x q. fst (insert_op q x)) xs q = q' \<and> inv q' \<and> content q' = content q @ xs \<and> capacity q' = capacity q"
  using assms
proof (induction xs arbitrary: q)
  case (Cons x xs)
  obtain q' y where i: "insert_op q x = (q', y, True)" "inv q'" "content q' = content q @ [x]" "capacity q' = capacity q"
    using insert_room [OF Cons.prems(1), of x] Cons.prems(2) by auto
  then show ?case using Cons.IH [OF i(2)] Cons.prems(2) by simp
qed simp

end

text \<open>The same operations on a list of at most \<open>n\<close> elements.\<close>

definition list_step :: "nat \<Rightarrow> 'a list \<Rightarrow> 'a queue_op \<Rightarrow> 'a list \<times> 'a \<times> bool" where
  "list_step n xs oper = (case oper of
       Insert x \<Rightarrow> if length xs < n then (xs @ [x], x, True) else (xs, x, False)
     | Remove x \<Rightarrow> (case xs of [] \<Rightarrow> ([], x, False) | y # ys \<Rightarrow> (ys, y, True)))"

text \<open>What the caller sees: whether it worked, and the element that was removed.\<close>

definition seen :: "'a queue_op \<Rightarrow> 'a \<times> bool \<Rightarrow> bool \<times> 'a option" where
  "seen oper r = (snd r, case oper of Insert x \<Rightarrow> None | Remove x \<Rightarrow> if snd r then Some (fst r) else None)"

definition swap_step :: "'a SwapQueue \<Rightarrow> 'a queue_op \<Rightarrow> 'a SwapQueue \<times> 'a \<times> bool" where
  "swap_step q oper = (case oper of Insert x \<Rightarrow> SwapQueue_Insert q x | Remove x \<Rightarrow> SwapQueue_Remove q x)"

fun run_queue :: "('q \<Rightarrow> 'a queue_op \<Rightarrow> 'q \<times> 'a \<times> bool) \<Rightarrow> 'q \<Rightarrow> 'a queue_op list \<Rightarrow> 'q \<times> (bool \<times> 'a option) list" where
  "run_queue step q [] = (q, [])"
| "run_queue step q (oper # ops) = (let (q, r) = step q oper; (q, rs) = run_queue step q ops in (q, seen oper r # rs))"

section \<open>The ring is a bounded queue\<close>

definition swap_inv :: "'a SwapQueue \<Rightarrow> bool" where
  "swap_inv q \<longleftrightarrow> next_write_index q < length (slots q) \<and> next_read_index q < length (slots q) \<and>
     num_elements q \<le> length (slots q) \<and> (next_read_index q + num_elements q) mod length (slots q) = next_write_index q"

definition swap_content :: "'a SwapQueue \<Rightarrow> 'a list" where
  "swap_content q = map (\<lambda>i. slots q ! ((next_read_index q + i) mod length (slots q))) [0..<num_elements q]"

definition swap_capacity :: "'a SwapQueue \<Rightarrow> nat" where "swap_capacity q = length (slots q)"

lemma next_index: "i < n \<Longrightarrow> (if i + 1 = n then 0 else i + 1) = (i + 1) mod (n :: nat)"
  by (cases "i + 1 = n") auto

lemma mod_add_neq:
  fixes r i j n :: nat
  assumes "i < j" "j < n + i"
  shows "(r + i) mod n \<noteq> (r + j) mod n"
proof
  assume "(r + i) mod n = (r + j) mod n"
  then have "n dvd (r + j) - (r + i)" using assms(1) by (metis mod_eq_dvd_iff_nat add_le_cancel_left less_imp_le)
  then have "n dvd j - i" by simp
  then show False using assms by (auto dest: dvd_imp_le)
qed

lemma swap_insert:
  fixes x :: 'a
  assumes "swap_inv q" "num_elements q < length (slots q)"
  defines "r \<equiv> SwapQueue_Insert q x"
  shows "snd (snd r)" "swap_inv (fst r)" "swap_content (fst r) = swap_content q @ [x]" "length (slots (fst r)) = length (slots q)"
proof -
  let ?n = "length (slots q)" and ?w = "next_write_index q" and ?k = "num_elements q" and ?r = "next_read_index q"
  have w: "?w < ?n" "?w = (?r + ?k) mod ?n" using assms(1) by (auto simp: swap_inv_def)
  have r: "r = (q\<lparr>slots := (slots q)[?w := x], next_write_index := (?w + 1) mod ?n, num_elements := ?k + 1\<rparr>, slots q ! ?w, True)"
    using assms(2) next_index [OF w(1)] by (simp add: r_def SwapQueue_Insert_def Let_def)
  show "snd (snd r)" "length (slots (fst r)) = ?n" by (simp_all add: r)
  have "(?r + (?k + 1)) mod ?n = (?w + 1) mod ?n" unfolding w(2) by (simp add: mod_Suc_eq)
  then show "swap_inv (fst r)" using assms(1,2) w by (auto simp: r swap_inv_def intro: mod_less_divisor)
  have "?w \<noteq> (?r + i) mod ?n" if "i < ?k" for i using mod_add_neq [of i ?k ?n ?r] that assms(2) unfolding w(2) by simp
  then have "map (\<lambda>i. (slots q)[?w := x] ! ((?r + i) mod ?n)) [0..<?k] = map (\<lambda>i. slots q ! ((?r + i) mod ?n)) [0..<?k]"
    by (intro map_cong refl nth_list_update_neq) (simp_all only: set_upt atLeastLessThan_iff simp_thms)
  then show "swap_content (fst r) = swap_content q @ [x]" using w(1) unfolding r swap_content_def by (simp flip: w(2))
qed

lemma swap_remove:
  fixes x :: 'a
  assumes "swap_inv q" "0 < num_elements q"
  defines "r \<equiv> SwapQueue_Remove q x"
  shows "snd (snd r)" "swap_inv (fst r)" "swap_content q = fst (snd r) # swap_content (fst r)" "length (slots (fst r)) = length (slots q)"
proof -
  let ?n = "length (slots q)" and ?k = "num_elements q" and ?r = "next_read_index q"
  have n: "?r < ?n" "?k \<le> ?n" using assms(1) by (auto simp: swap_inv_def)
  have r: "r = (q\<lparr>slots := (slots q)[?r := x], next_read_index := (?r + 1) mod ?n, num_elements := ?k - 1\<rparr>, slots q ! ?r, True)"
    using assms(2) next_index [OF n(1)] by (simp add: r_def SwapQueue_Remove_def Let_def)
  show "snd (snd r)" "length (slots (fst r)) = ?n" by (simp_all add: r)
  have s: "((?r + 1) mod ?n + i) mod ?n = (?r + Suc i) mod ?n" for i by (simp add: mod_add_left_eq)
  show "swap_inv (fst r)" using assms(1,2) n s [of "?k - 1"] by (auto simp: r swap_inv_def intro: mod_less_divisor)
  obtain m where k: "?k = Suc m" using assms(2) by (cases ?k) auto
  have "?r \<noteq> (?r + Suc i) mod ?n" if "i < m" for i using mod_add_neq [of 0 "Suc i" ?n ?r] that n k by simp
  then have "map (\<lambda>i. (slots q)[?r := x] ! ((?r + Suc i) mod ?n)) [0..<m] = map (\<lambda>i. slots q ! ((?r + Suc i) mod ?n)) [0..<m]"
    by (intro map_cong refl nth_list_update_neq) (simp_all only: set_upt atLeastLessThan_iff simp_thms)
  moreover have "swap_content q = slots q ! ?r # map (\<lambda>i. slots q ! ((?r + Suc i) mod ?n)) [0..<m]"
    using n unfolding swap_content_def k by (simp only: upt_conv_Cons [of 0 "Suc m"] map_Suc_upt [symmetric] zero_less_Suc) simp
  moreover have "swap_content (fst r) = map (\<lambda>i. (slots q)[?r := x] ! (((?r + 1) mod ?n + i) mod ?n)) [0..<m]"
    by (simp add: r swap_content_def k)
  ultimately show "swap_content q = fst (snd r) # swap_content (fst r)" unfolding s r fst_conv snd_conv by (simp only:)
qed

interpretation swap: bounded_queue swap_inv swap_content swap_capacity SwapQueue_Insert SwapQueue_Remove
proof
  fix q :: "'a SwapQueue" and x y :: 'a and ys
  assume q: "swap_inv q"
  have l: "length (swap_content q) = num_elements q" by (simp add: swap_content_def)
  show "length (swap_content q) \<le> swap_capacity q" using q by (simp add: l swap_capacity_def swap_inv_def)
  show "length (swap_content q) = swap_capacity q \<Longrightarrow> SwapQueue_Insert q x = (q, x, False)"
    by (simp add: l swap_capacity_def SwapQueue_Insert_def)
  show "swap_content q = [] \<Longrightarrow> SwapQueue_Remove q x = (q, x, False)" using l by (simp add: SwapQueue_Remove_def)
  show "\<exists>q' y. SwapQueue_Insert q x = (q', y, True) \<and> swap_inv q' \<and> swap_content q' = swap_content q @ [x] \<and> swap_capacity q' = swap_capacity q"
    if "length (swap_content q) < swap_capacity q"
    using swap_insert [OF q, of x] that unfolding l swap_capacity_def by (metis prod.collapse)
  show "\<exists>q'. SwapQueue_Remove q x = (q', y, True) \<and> swap_inv q' \<and> swap_content q' = ys \<and> swap_capacity q' = swap_capacity q"
    if c: "swap_content q = y # ys"
  proof -
    have "0 < num_elements q" using l c by simp
    from swap_remove [OF q this, of x] show ?thesis unfolding c swap_capacity_def by (metis prod.collapse list.inject)
  qed
qed

text \<open>
  C6. The queue between the render and the capture side is a list of bounded length: any sequence of insertions and
  removals, over any number of turns of the ring, succeeds or fails as on the list and removes the same elements in the same order.
\<close>

theorem swap_queue_refines:
  assumes "swap_inv q"
  shows "let (q', seen_q) = run_queue swap_step q ops; (xs', seen_l) = run_queue (list_step (swap_capacity q)) (swap_content q) ops
    in seen_q = seen_l \<and> swap_content q' = xs' \<and> swap_inv q' \<and> swap_capacity q' = swap_capacity q"
  using assms
proof (induction ops arbitrary: q)
  case (Cons oper ops)
  let ?n = "swap_capacity q"
  obtain q' r xs' r' where s: "swap_step q oper = (q', r)" "list_step ?n (swap_content q) oper = (xs', r')" by (metis prod.exhaust)
  have "swap_inv q' \<and> swap_content q' = xs' \<and> swap_capacity q' = ?n \<and> seen oper r = seen oper r'"
  proof (cases oper)
    case (Insert x)
    show ?thesis
    proof (cases "length (swap_content q) < ?n")
      case True
      then show ?thesis using swap.insert_room [OF Cons.prems True, of x] s Insert by (auto simp: swap_step_def list_step_def seen_def)
    next
      case False
      then have "length (swap_content q) = ?n" using swap.bounded [OF Cons.prems] by simp
      then show ?thesis using swap.insert_full [OF Cons.prems] s Insert Cons.prems by (auto simp: swap_step_def list_step_def seen_def)
    qed
  next
    case (Remove x)
    show ?thesis
    proof (cases "swap_content q")
      case Nil
      then show ?thesis using swap.remove_empty [OF Cons.prems Nil] s Remove Cons.prems by (auto simp: swap_step_def list_step_def seen_def)
    next
      case (Cons y ys)
      then show ?thesis using swap.remove_first [OF Cons.prems Cons, of x] s Remove by (auto simp: swap_step_def list_step_def seen_def)
    qed
  qed
  then show ?case using Cons.IH [of q'] s by (simp add: split_def Let_def)
qed simp

lemma swap_queue_refines_witness:
  "let (q', seen_q) = run_queue swap_step (SwapQueue_new 2 (0 :: int)) [Insert 5, Insert 6, Insert 7, Remove 0, Insert 8, Remove 0, Remove 0]
   in map fst seen_q = [True, True, False, True, True, True, True] \<and> map snd seen_q = [None, None, None, Some 5, None, Some 6, Some 8]"
proof -
  let ?ops = "[Insert 5, Insert 6, Insert 7, Remove 0, Insert 8, Remove 0, Remove (0 :: int)]" and ?q = "SwapQueue_new 2 (0 :: int)"
  have q: "swap_inv ?q" "swap_capacity ?q = 2" "swap_content ?q = []"
    by (simp_all add: swap_inv_def SwapQueue_new_def swap_capacity_def swap_content_def)
  have l: "run_queue (list_step 2) [] ?ops = ([], [(True, None), (True, None), (False, None), (True, Some 5), (True, None), (True, Some 6),
      (True, Some 8)])" by (simp add: list_step_def seen_def)
  obtain q' s where r: "run_queue swap_step ?q ?ops = (q', s)" by (rule prod.exhaust)
  show ?thesis using swap_queue_refines [OF q(1), of ?ops] unfolding q(2,3) l r by simp
qed

end
