(* ===== verification/Aecm_Component.thy ===== *)
theory Aecm_Component
  imports Aecm_Api Swap_Queue Apm_Types
begin

text \<open>
  The component of the audio processing module around the mobile echo canceller
  (\<^verbatim>\<open>processing_component.cc\<close>, \<^verbatim>\<open>echo_control_mobile_impl.cc\<close>): it keeps a canceller for each pair of an output and
  a reverse channel, creates, initialises and configures them, queues the far end of the render side and hands it to
  them on the capture side.

  What the component asks of the module around it is a record of parameters; \<open>dcheck_is_on\<close> tells whether the
  build evaluates \<^verbatim>\<open>RTC_DCHECK\<close>. A handle that was not created is \<open>None\<close>. The echo path of the caller is its list
  of 16 bit values. The locks are not modelled: each operation is one step.
\<close>

section \<open>Codes and state\<close>

fun MapSetting :: "RoutingMode \<Rightarrow> int" where
  "MapSetting kQuietEarpieceOrHeadset = 0"
| "MapSetting kEarpiece = 1"
| "MapSetting kLoudEarpiece = 2"
| "MapSetting kSpeakerphone = 3"
| "MapSetting kLoudSpeakerphone = 4"

definition AECM_UNSUPPORTED_FUNCTION_ERROR :: int where "AECM_UNSUPPORTED_FUNCTION_ERROR = 12001"

definition MapError :: "int \<Rightarrow> int" where
  "MapError err =
     (if err = AECM_UNSUPPORTED_FUNCTION_ERROR then kUnsupportedFunctionError
      else if err = AECM_NULL_POINTER_ERROR then kNullPointerError
      else if err = AECM_BAD_PARAMETER_ERROR then kBadParameterError
      else if err = AECM_BAD_PARAMETER_WARNING then kBadStreamParameterWarning
      else kUnspecifiedError)"

definition kMaxAllowedValuesOfSamplesPerFrame :: nat where "kMaxAllowedValuesOfSamplesPerFrame = 160"
definition kMaxNumFramesToBuffer :: nat where "kMaxNumFramesToBuffer = 100"

record apm_view =
  num_output_channels :: nat
  num_reverse_channels :: nat
  proc_sample_rate_hz :: int
  stream_delay_ms :: int
  was_stream_delay_set :: bool
  echo_cancellation_enabled :: bool
  dcheck_is_on :: bool

record EchoControlMobileImpl =
  initialized :: bool
  enabled :: bool
  num_handles :: nat
  handles :: "AecMobile option list"
  routing_mode :: RoutingMode
  comfort_noise_enabled :: bool
  external_echo_path :: "int list option"
  render_queue_element_max_size :: nat
  render_queue_buffer :: "int list"
  capture_queue_buffer :: "int list"
  render_signal_queue :: "int list SwapQueue option"

definition new_EchoControlMobileImpl :: EchoControlMobileImpl where
  "new_EchoControlMobileImpl = \<lparr>initialized = False, enabled = False, num_handles = 0, handles = [], routing_mode = kSpeakerphone,
     comfort_noise_enabled = True, external_echo_path = None, render_queue_element_max_size = 0, render_queue_buffer = [],
     capture_queue_buffer = [], render_signal_queue = None\<rparr>"

text \<open>What the component uses of an \<^verbatim>\<open>AudioBuffer\<close>: its lowest band and the low-pass reference of each channel.\<close>

record audio_buffer =
  low_bands :: "int list list"
  low_pass_references :: "int list option list"
  num_frames_per_band :: nat

section \<open>Handles\<close>

text \<open>For each handle: which of its allocations succeed, and the memory they return.\<close>

type_synonym memory = "nat \<Rightarrow> (nat \<Rightarrow> bool) \<times> AecMobile"

definition CreateHandle :: "memory \<Rightarrow> nat \<Rightarrow> AecMobile option" where
  "CreateHandle mem i = WebRtcAecm_Create (fst (mem i)) (snd (mem i))"

definition num_handles_required :: "apm_view \<Rightarrow> nat" where
  "num_handles_required apm = num_output_channels apm * num_reverse_channels apm"

definition InitializeHandle :: "apm_view \<Rightarrow> int list option \<Rightarrow> AecMobile \<Rightarrow> AecMobile option \<times> int" where
  "InitializeHandle apm echo_path h =
     (let (h, r) = WebRtcAecm_Init (Some h) (proc_sample_rate_hz apm)
      in if r \<noteq> 0 then (h, kUnspecifiedError)
         else if echo_path \<noteq> None
         then let (h, r) = WebRtcAecm_InitEchoPath h echo_path WebRtcAecm_echo_path_size_bytes
              in if r \<noteq> 0 then (h, kUnspecifiedError) else (h, kNoError)
         else (h, kNoError))"

definition ConfigureHandle :: "EchoControlMobileImpl \<Rightarrow> AecMobile option \<Rightarrow> AecMobile option \<times> int" where
  "ConfigureHandle c h =
     WebRtcAecm_set_config h \<lparr>config_cngMode = (if comfort_noise_enabled c then 1 else 0), config_echoMode = MapSetting (routing_mode c)\<rparr>"

section \<open>The component\<close>

text \<open>Both loops go over the handles from \<open>i\<close> on and end at the first error.\<close>

fun configure_handles :: "nat \<Rightarrow> nat \<Rightarrow> EchoControlMobileImpl \<Rightarrow> EchoControlMobileImpl \<times> int" where
  "configure_handles 0 i c = (c, kNoError)"
| "configure_handles (Suc n) i c =
     (let (h, err) = ConfigureHandle c (handles c ! i); c = c\<lparr>handles := (handles c)[i := h]\<rparr>
      in if err \<noteq> kNoError then (c, kUnspecifiedError) else configure_handles n (Suc i) c)"

definition Configure :: "EchoControlMobileImpl \<Rightarrow> EchoControlMobileImpl \<times> int" where
  "Configure c = (if \<not> initialized c then (c, kNoError) else configure_handles (num_handles c) 0 c)"

fun initialize_handles :: "memory \<Rightarrow> apm_view \<Rightarrow> nat \<Rightarrow> nat \<Rightarrow> EchoControlMobileImpl \<Rightarrow> EchoControlMobileImpl \<times> int" where
  "initialize_handles mem apm 0 i c = (c, kNoError)"
| "initialize_handles mem apm (Suc n) i c =
     (case (case handles c ! i of None \<Rightarrow> CreateHandle mem i | Some h \<Rightarrow> Some h) of
        None \<Rightarrow> (c, kCreationFailedError)
      | Some h \<Rightarrow>
          let (h, err) = InitializeHandle apm (external_echo_path c) h; c = c\<lparr>handles := (handles c)[i := h]\<rparr>
          in if err \<noteq> kNoError then (c, kUnspecifiedError) else initialize_handles mem apm n (Suc i) c)"

definition ProcessingComponent_Initialize :: "memory \<Rightarrow> apm_view \<Rightarrow> EchoControlMobileImpl \<Rightarrow> EchoControlMobileImpl \<times> int" where
  "ProcessingComponent_Initialize mem apm c =
     (if \<not> enabled c then (c, kNoError)
      else let n = num_handles_required apm;
               c = c\<lparr>num_handles := n, handles := handles c @ replicate (n - length (handles c)) None\<rparr>;
               (c, err) = initialize_handles mem apm n 0 c
           in if err \<noteq> kNoError then (c, err) else Configure (c\<lparr>initialized := True\<rparr>))"

definition AllocateRenderQueue :: "apm_view \<Rightarrow> EchoControlMobileImpl \<Rightarrow> EchoControlMobileImpl" where
  "AllocateRenderQueue apm c =
     (let new_size = max 1 (kMaxAllowedValuesOfSamplesPerFrame * num_handles_required apm);
          resize = (\<lambda>v. take new_size (v @ replicate (new_size - length v) 0))
      in if render_queue_element_max_size c < new_size
         then c\<lparr>render_queue_element_max_size := new_size,
                render_signal_queue := Some (SwapQueue_new kMaxNumFramesToBuffer (replicate new_size 0)),
                render_queue_buffer := resize (render_queue_buffer c), capture_queue_buffer := resize (capture_queue_buffer c)\<rparr>
         else c\<lparr>render_signal_queue := map_option SwapQueue_Clear (render_signal_queue c)\<rparr>)"

definition Initialize :: "memory \<Rightarrow> apm_view \<Rightarrow> EchoControlMobileImpl \<Rightarrow> EchoControlMobileImpl \<times> int" where
  "Initialize mem apm c =
     (if \<not> enabled c then (c, kNoError)
      else if proc_sample_rate_hz apm > 16000 then (c, kBadSampleRateError)
      else let (c, err) = ProcessingComponent_Initialize mem apm c
           in if err \<noteq> kNoError then (c, err) else (AllocateRenderQueue apm c, kNoError))"

definition EnableComponent :: "memory \<Rightarrow> apm_view \<Rightarrow> EchoControlMobileImpl \<Rightarrow> bool \<Rightarrow> EchoControlMobileImpl \<times> int" where
  "EnableComponent mem apm c enable =
     (if enable \<and> \<not> enabled c
      then let (c, err) = Initialize mem apm (c\<lparr>enabled := enable\<rparr>)
           in if err \<noteq> kNoError then (c\<lparr>enabled := False\<rparr>, err) else (c, kNoError)
      else (c\<lparr>enabled := enable\<rparr>, kNoError))"

definition Enable :: "memory \<Rightarrow> apm_view \<Rightarrow> EchoControlMobileImpl \<Rightarrow> bool \<Rightarrow> EchoControlMobileImpl \<times> int" where
  "Enable mem apm c enable =
     (if enable \<and> echo_cancellation_enabled apm then (c, kBadParameterError) else EnableComponent mem apm c enable)"

definition set_routing_mode :: "EchoControlMobileImpl \<Rightarrow> RoutingMode \<Rightarrow> EchoControlMobileImpl \<times> int" where
  "set_routing_mode c mode = (if MapSetting mode = - 1 then (c, kBadParameterError) else Configure (c\<lparr>routing_mode := mode\<rparr>))"

definition enable_comfort_noise :: "EchoControlMobileImpl \<Rightarrow> bool \<Rightarrow> EchoControlMobileImpl \<times> int" where
  "enable_comfort_noise c enable = Configure (c\<lparr>comfort_noise_enabled := enable\<rparr>)"

definition SetEchoPath :: "memory \<Rightarrow> apm_view \<Rightarrow> EchoControlMobileImpl \<Rightarrow> int list option \<Rightarrow> nat \<Rightarrow> EchoControlMobileImpl \<times> int" where
  "SetEchoPath mem apm c echo_path size_bytes =
     (case echo_path of None \<Rightarrow> (c, kNullPointerError)
      | Some path \<Rightarrow>
          if size_bytes \<noteq> WebRtcAecm_echo_path_size_bytes then (c, kBadParameterError)
          else Initialize mem apm (c\<lparr>external_echo_path := Some (take (size_bytes div 2) path)\<rparr>))"

definition GetEchoPath :: "EchoControlMobileImpl \<Rightarrow> int list option \<Rightarrow> nat \<Rightarrow> int list option \<times> int" where
  "GetEchoPath c echo_path size_bytes =
     (if echo_path = None then (None, kNullPointerError)
      else if size_bytes \<noteq> WebRtcAecm_echo_path_size_bytes then (echo_path, kBadParameterError)
      else if \<not> enabled c then (echo_path, kNotEnabledError)
      else let (path, err) = WebRtcAecm_GetEchoPath (handles c ! 0) echo_path size_bytes
           in if err \<noteq> 0 then (path, MapError err) else (path, kNoError))"

section \<open>The far end\<close>

text \<open>Each element of the queue has the frames of all handles one behind the other.\<close>

definition buffer_item :: "nat \<Rightarrow> int list \<Rightarrow> AecMobile option list \<Rightarrow> AecMobile option list" where
  "buffer_item n item hs =
     (let num_frames_per_band = length item div n
      in fold (\<lambda>k hs. hs[k := fst (WebRtcAecm_BufferFarend (hs ! k)
             (Some (take num_frames_per_band (drop (num_frames_per_band * k) item))) num_frames_per_band)]) [0..<n] hs)"

function drain_queue :: "nat \<Rightarrow> int list SwapQueue \<Rightarrow> int list \<Rightarrow> AecMobile option list \<Rightarrow>
    int list SwapQueue \<times> int list \<times> AecMobile option list" where
  "drain_queue n q buf hs =
     (let (q', buf', ok) = SwapQueue_Remove q buf
      in if ok then drain_queue n q' buf' (buffer_item n buf' hs) else (q', buf', hs))"
  by pat_completeness auto
termination
  by (relation "measure (\<lambda>(n, q, buf, hs). num_elements q)") (auto simp: SwapQueue_Remove_def Let_def split: if_splits)

declare drain_queue.simps [simp del]

definition ReadQueuedRenderData :: "apm_view \<Rightarrow> EchoControlMobileImpl \<Rightarrow> EchoControlMobileImpl option" where
  "ReadQueuedRenderData apm c =
     (if \<not> enabled c then Some c
      else case render_signal_queue c of None \<Rightarrow> None
           | Some q \<Rightarrow>
               let (q, buf, hs) = drain_queue (num_handles_required apm) q (capture_queue_buffer c) (handles c)
               in Some (c\<lparr>render_signal_queue := Some q, capture_queue_buffer := buf, handles := hs\<rparr>))"

text \<open>The loop over the handles collects the samples; \<open>j\<close> is the reverse channel of handle \<open>k\<close>.\<close>

fun collect_render :: "apm_view \<Rightarrow> EchoControlMobileImpl \<Rightarrow> audio_buffer \<Rightarrow> nat \<Rightarrow> nat \<Rightarrow> int list \<Rightarrow> int list \<times> int" where
  "collect_render apm c audio 0 k buf = (buf, kNoError)"
| "collect_render apm c audio (Suc n) k buf =
     (let j = k mod num_reverse_channels apm; band = low_bands audio ! j;
          err = WebRtcAecm_GetBufferFarendError (handles c ! k) (Some band) (num_frames_per_band audio)
      in if err \<noteq> kNoError then (buf, MapError err)
         else collect_render apm c audio n (Suc k) (buf @ take (num_frames_per_band audio) band))"

text \<open>The retry is the argument of a check, which a release build does not evaluate.\<close>

definition ProcessRenderAudio :: "apm_view \<Rightarrow> EchoControlMobileImpl \<Rightarrow> audio_buffer \<Rightarrow> (EchoControlMobileImpl \<times> int) option" where
  "ProcessRenderAudio apm c audio =
     (if \<not> enabled c then Some (c, kNoError)
      else let (buf, err) = collect_render apm c audio (num_handles_required apm) 0 []
           in if err \<noteq> kNoError then Some (c\<lparr>render_queue_buffer := buf\<rparr>, err)
              else case render_signal_queue c of None \<Rightarrow> None
              | Some q \<Rightarrow>
                  let (q, buf, ok) = SwapQueue_Insert q buf;
                      c = c\<lparr>render_signal_queue := Some q, render_queue_buffer := buf\<rparr>
                  in if ok then Some (c, kNoError)
                     else case ReadQueuedRenderData apm c of None \<Rightarrow> None
                     | Some c \<Rightarrow>
                         if \<not> dcheck_is_on apm then Some (c, kNoError)
                         else case render_signal_queue c of None \<Rightarrow> None
                         | Some q \<Rightarrow>
                             let (q, buf, ok) = SwapQueue_Insert q (render_queue_buffer c)
                             in if ok then Some (c\<lparr>render_signal_queue := Some q, render_queue_buffer := buf\<rparr>, kNoError) else None)"

section \<open>The near end\<close>

text \<open>The loop over the handles; the output of a canceller is the lowest band of the channel.\<close>

fun capture_loop :: "apm_view \<Rightarrow> nat \<Rightarrow> nat \<Rightarrow> EchoControlMobileImpl \<Rightarrow> audio_buffer \<Rightarrow> (EchoControlMobileImpl \<times> audio_buffer \<times> int) option" where
  "capture_loop apm 0 k c audio = Some (c, audio, kNoError)"
| "capture_loop apm (Suc n) k c audio =
     (let i = k div num_reverse_channels apm; band = low_bands audio ! i;
          (noisy, clean) = (case low_pass_references audio ! i of None \<Rightarrow> (band, None) | Some r \<Rightarrow> (r, Some band))
      in case WebRtcAecm_Process (handles c ! k) (Some noisy) clean (Some band) (num_frames_per_band audio) (stream_delay_ms apm) of
           None \<Rightarrow> None
         | Some (h, out, err) \<Rightarrow>
             let c = c\<lparr>handles := (handles c)[k := h]\<rparr>;
                 audio = audio\<lparr>low_bands := (low_bands audio)[i := the out]\<rparr>
             in if err \<noteq> kNoError then Some (c, audio, MapError err) else capture_loop apm n (Suc k) c audio)"

definition ProcessCaptureAudio :: "apm_view \<Rightarrow> EchoControlMobileImpl \<Rightarrow> audio_buffer \<Rightarrow> (EchoControlMobileImpl \<times> audio_buffer \<times> int) option" where
  "ProcessCaptureAudio apm c audio =
     (if \<not> enabled c then Some (c, audio, kNoError)
      else if \<not> was_stream_delay_set apm then Some (c, audio, kStreamParameterNotSetError)
      else capture_loop apm (length (low_bands audio) * num_reverse_channels apm) 0 c audio)"

end
