(* ===== verification/Audio_Buffer.thy ===== *)
theory Audio_Buffer
  imports Apm_Types
begin

text \<open>
  The buffers of the audio processing module (\<^verbatim>\<open>audio_buffer.cc\<close>) and the copying of samples between channels and
  interleaved frames (\<^verbatim>\<open>common_audio/include/audio_util.h\<close>). The model has the 16 bit side of the buffers; resampling,
  which works on floats, is a parameter with a state of its own. The bands above the lowest belong to the splitting filter.
\<close>

section \<open>Interleaved samples\<close>

definition Deinterleave :: "int list \<Rightarrow> nat \<Rightarrow> nat \<Rightarrow> int list list" where
  "Deinterleave interleaved n c = map (\<lambda>i. map (\<lambda>j. interleaved ! (i + j * c)) [0..<n]) [0..<c]"

definition Interleave :: "int list list \<Rightarrow> nat \<Rightarrow> nat \<Rightarrow> int list \<Rightarrow> int list" where
  "Interleave channels n c interleaved =
     fold (\<lambda>i dst. fold (\<lambda>j dst. dst[i + j * c := channels ! i ! j]) [0..<n] dst) [0..<c] interleaved"

definition UpmixMonoToInterleaved :: "int list \<Rightarrow> nat \<Rightarrow> nat \<Rightarrow> int list \<Rightarrow> int list" where
  "UpmixMonoToInterleaved src n c interleaved = blit interleaved 0 (concat (map (\<lambda>i. replicate c (src ! i)) [0..<n]))"

definition DownmixInterleavedToMono :: "int list \<Rightarrow> nat \<Rightarrow> nat \<Rightarrow> int list" where
  "DownmixInterleavedToMono interleaved n c =
     map (\<lambda>i. s16 (cdiv (fold (\<lambda>j v. s32 (v + interleaved ! (i * c + j))) [1..<c] (interleaved ! (i * c))) (int c))) [0..<n]"

section \<open>Buffers\<close>

record AudioBuffer =
  input_num_frames :: nat
  num_input_channels :: nat
  proc_num_frames :: nat
  num_proc_channels :: nat
  output_num_frames :: nat
  buffer_channels :: nat
  num_bands :: nat
  num_split_frames :: nat
  reference_copied :: bool
  full_band :: "int list list"
  split_low :: "int list list"
  low_pass_reference_channels :: "int list list option"

definition NumBandsFromSamplesPerChannel :: "nat \<Rightarrow> nat" where
  "NumBandsFromSamplesPerChannel num_frames = (if num_frames = 320 \<or> num_frames = 480 then num_frames div 160 else 1)"

definition new_AudioBuffer :: "nat \<Rightarrow> nat \<Rightarrow> nat \<Rightarrow> nat \<Rightarrow> nat \<Rightarrow> AudioBuffer" where
  "new_AudioBuffer in_frames in_channels proc_frames proc_channels out_frames =
     (let bands = NumBandsFromSamplesPerChannel proc_frames
      in \<lparr>input_num_frames = in_frames, num_input_channels = in_channels, proc_num_frames = proc_frames,
          num_proc_channels = proc_channels, output_num_frames = out_frames, buffer_channels = proc_channels, num_bands = bands,
          num_split_frames = proc_frames div bands, reference_copied = False,
          full_band = replicate proc_channels (replicate proc_frames 0),
          split_low = replicate proc_channels (replicate (proc_frames div bands) 0), low_pass_reference_channels = None\<rparr>)"

text \<open>\<^verbatim>\<open>split_bands(i)[kBand0To8kHz]\<close> for all channels: a buffer with one band has no separate bands.\<close>

definition low_band :: "AudioBuffer \<Rightarrow> int list list" where
  "low_band b = (if num_bands b > 1 then split_low b else full_band b)"

definition set_low_band :: "int list list \<Rightarrow> AudioBuffer \<Rightarrow> AudioBuffer" where
  "set_low_band x b = (if num_bands b > 1 then b\<lparr>split_low := x\<rparr> else b\<lparr>full_band := x\<rparr>)"

definition InitForNewData :: "AudioBuffer \<Rightarrow> AudioBuffer" where
  "InitForNewData b = b\<lparr>reference_copied := False, buffer_channels := num_proc_channels b\<rparr>"

definition low_pass_reference :: "AudioBuffer \<Rightarrow> nat \<Rightarrow> int list option" where
  "low_pass_reference b i = (if \<not> reference_copied b then None else map_option (\<lambda>r. r ! i) (low_pass_reference_channels b))"

definition CopyLowPassToReference :: "AudioBuffer \<Rightarrow> AudioBuffer" where
  "CopyLowPassToReference b =
     b\<lparr>reference_copied := True,
       low_pass_reference_channels := Some (map (\<lambda>i. take (num_split_frames b) (low_band b ! i)) [0..<num_proc_channels b])\<rparr>"

type_synonym 's resampler = "'s \<Rightarrow> int list list \<Rightarrow> 's \<times> int list list"

definition DeinterleaveFrom :: "'s resampler \<Rightarrow> 's \<Rightarrow> AudioFrame \<Rightarrow> AudioBuffer \<Rightarrow> 's \<times> AudioBuffer" where
  "DeinterleaveFrom resample s frame b =
     (let b = InitForNewData b;
          channels = (if num_proc_channels b = 1
                      then [DownmixInterleavedToMono (frame_data frame) (input_num_frames b) (num_input_channels b)]
                      else Deinterleave (frame_data frame) (input_num_frames b) (num_proc_channels b));
          (s, channels) = (if input_num_frames b = proc_num_frames b then (s, channels) else resample s channels)
      in (s, b\<lparr>full_band := channels\<rparr>))"

definition InterleaveTo :: "'s resampler \<Rightarrow> 's \<Rightarrow> AudioBuffer \<Rightarrow> AudioFrame \<Rightarrow> bool \<Rightarrow> 's \<times> AudioFrame" where
  "InterleaveTo resample s b frame data_changed =
     (if \<not> data_changed then (s, frame)
      else let (s, channels) = (if proc_num_frames b = output_num_frames b then (s, full_band b) else resample s (full_band b))
           in (s, frame\<lparr>frame_data :=
                 (if num_channels frame = int (buffer_channels b)
                  then Interleave channels (proc_num_frames b) (buffer_channels b) (frame_data frame)
                  else UpmixMonoToInterleaved (channels ! 0) (proc_num_frames b) (nat (num_channels frame)) (frame_data frame))\<rparr>))"

section \<open>Interleaving\<close>

lemma length_Deinterleave [simp]: "length (Deinterleave xs n c) = c" by (simp add: Deinterleave_def)

lemma nth_Deinterleave: "i < c \<Longrightarrow> j < n \<Longrightarrow> Deinterleave xs n c ! i ! j = xs ! (i + j * c)"
  by (simp add: Deinterleave_def)

lemma write_channel:
  fixes i c n :: nat
  assumes "k < length dst" "i < c"
  shows "fold (\<lambda>j dst. dst[i + j * c := f j]) [0..<n] dst ! k = (if k mod c = i \<and> k div c < n then f (k div c) else dst ! k)"
proof (induction n)
  case (Suc n)
  have l: "length (fold (\<lambda>j dst. dst[i + j * c := f j]) [0..<n] dst) = length dst" by (rule fold_length) simp
  have e: "k = i + n * c \<longleftrightarrow> k mod c = i \<and> k div c = n"
    using assms(2) div_mult_mod_eq [of k c] by (auto simp: add.commute)
  show ?case
  proof (cases "k = i + n * c")
    case True
    then show ?thesis using assms(1) l e by (simp add: nth_list_update)
  next
    case False
    then have "(if k mod c = i \<and> k div c < n then f (k div c) else dst ! k) = (if k mod c = i \<and> k div c < Suc n then f (k div c) else dst ! k)"
      using e less_Suc_eq by auto
    then show ?thesis using False Suc by simp
  qed
qed simp

lemma length_Interleave [simp]: "length (Interleave channels n c dst) = length dst"
  unfolding Interleave_def by (intro fold_length) simp

lemma nth_Interleave:
  assumes "k < length dst" "0 < c"
  shows "Interleave channels n c dst ! k = (if k < n * c then channels ! (k mod c) ! (k div c) else dst ! k)"
proof -
  let ?f = "\<lambda>i dst. fold (\<lambda>j dst. dst[i + j * c := channels ! i ! j]) [0..<n] dst"
  have "m \<le> c \<Longrightarrow> fold ?f [0..<m] dst ! k = (if k mod c < m \<and> k div c < n then channels ! (k mod c) ! (k div c) else dst ! k)" for m
  proof (induction m)
    case (Suc m)
    have l: "length (fold ?f [0..<m] dst) = length dst" by (intro fold_length) simp
    show ?case using Suc assms(1) write_channel [of k "fold ?f [0..<m] dst" m c "\<lambda>j. channels ! m ! j" n] by (auto simp: l less_Suc_eq)
  qed simp
  from this [of c] show ?thesis using assms(2) by (simp add: Interleave_def less_mult_imp_div_less div_less_iff_less_mult)
qed

lemma interleave_deinterleave:
  assumes "n * c \<le> length xs"
  shows "Interleave (Deinterleave xs n c) n c xs = xs"
proof (cases "c = 0")
  case False
  show ?thesis
  proof (rule nth_equalityI)
    fix k assume "k < length (Interleave (Deinterleave xs n c) n c xs)"
    then show "Interleave (Deinterleave xs n c) n c xs ! k = xs ! k"
      using False by (simp add: nth_Interleave nth_Deinterleave less_mult_imp_div_less)
  qed simp
qed (simp add: Interleave_def)

lemma deinterleave_interleave:
  assumes "length channels = c" "\<forall>ch \<in> set channels. length ch = n" "n * c \<le> length dst"
  shows "Deinterleave (Interleave channels n c dst) n c = channels"
proof (rule nth_equalityI)
  fix i assume "i < length (Deinterleave (Interleave channels n c dst) n c)"
  then have i: "i < c" by simp
  show "Deinterleave (Interleave channels n c dst) n c ! i = channels ! i"
  proof (rule nth_equalityI)
    fix j assume "j < length (Deinterleave (Interleave channels n c dst) n c ! i)"
    then have j: "j < n" using i by (simp add: Deinterleave_def)
    have "Suc j * c \<le> n * c" using j by (intro mult_le_mono1) simp
    then have "i + j * c < n * c" using i by simp
    then show "Deinterleave (Interleave channels n c dst) n c ! i ! j = channels ! i ! j"
      using i j assms(3) by (simp add: nth_Deinterleave nth_Interleave)
  qed (use i assms in \<open>simp add: Deinterleave_def\<close>)
qed (simp add: assms)

lemma take_map_nth: "n \<le> length xs \<Longrightarrow> take n xs = map ((!) xs) [0..<n]"
  by (rule nth_equalityI) simp_all

lemma cdiv_one: "cdiv x 1 = x" by (simp add: cdiv_def sgn_mult_abs)

lemma downmix_one: "list_all is_s16 xs \<Longrightarrow> n \<le> length xs \<Longrightarrow> DownmixInterleavedToMono xs n 1 = take n xs"
  by (rule nth_equalityI) (simp_all add: DownmixInterleavedToMono_def cdiv_one list_all_length s16_id)

text \<open>
  C31. A frame that is copied into a buffer of its format, mono or with several channels, and copied back without a change between is as it
  was, samples behind those in use included.
\<close>

theorem frame_round_trip:
  assumes "input_num_frames b = proc_num_frames b" "output_num_frames b = proc_num_frames b" "num_input_channels b = num_proc_channels b"
    and "num_channels frame = int (num_proc_channels b)" "list_all is_s16 (frame_data frame)"
    and "proc_num_frames b * num_proc_channels b \<le> length (frame_data frame)"
  shows "snd (InterleaveTo g (fst (DeinterleaveFrom f s frame b)) (snd (DeinterleaveFrom f s frame b)) frame True) = frame"
proof -
  let ?xs = "frame_data frame" and ?n = "proc_num_frames b" and ?c = "num_proc_channels b"
  have one: "[DownmixInterleavedToMono ?xs ?n 1] = Deinterleave ?xs ?n 1" if "?c = 1"
    using assms(6) that downmix_one [OF assms(5), of ?n] by (simp add: Deinterleave_def take_map_nth)
  have d: "DeinterleaveFrom f s frame b = (s, (InitForNewData b)\<lparr>full_band := Deinterleave ?xs ?n ?c\<rparr>)"
  proof (cases "?c = 1")
    case True
    then show ?thesis using assms(1,3) one by (simp add: DeinterleaveFrom_def InitForNewData_def Let_def)
  qed (use assms(1) in \<open>simp add: DeinterleaveFrom_def InitForNewData_def Let_def\<close>)
  show ?thesis
    unfolding d fst_conv snd_conv using assms(2,4) interleave_deinterleave [OF assms(6)] by (simp add: InterleaveTo_def InitForNewData_def)
qed

lemma frame_round_trip_witness:
  "snd (InterleaveTo Pair (fst (DeinterleaveFrom Pair () \<lparr>num_channels = 2, sample_rate_hz = 8000, samples_per_channel = 80, frame_data = replicate 200 5\<rparr>
       (new_AudioBuffer 80 2 80 2 80)))
     (snd (DeinterleaveFrom Pair () \<lparr>num_channels = 2, sample_rate_hz = 8000, samples_per_channel = 80, frame_data = replicate 200 5\<rparr>
       (new_AudioBuffer 80 2 80 2 80)))
     \<lparr>num_channels = 2, sample_rate_hz = 8000, samples_per_channel = 80, frame_data = replicate 200 5\<rparr> True) =
   \<lparr>num_channels = 2, sample_rate_hz = 8000, samples_per_channel = 80, frame_data = replicate 200 5\<rparr>"
  by (rule frame_round_trip) (simp_all add: new_AudioBuffer_def is_s16_def list_all_length Let_def)

end
