(* ===== verification/Stream_Filter.thy ===== *)
theory Stream_Filter
  imports Prelude
begin

text \<open>
  Filters that keep a state from one block of samples to the next. A C loop that updates a state and produces one
  value per sample is \<open>mealy\<close>. The locale \<open>block_filter\<close> is what a caller relies on who passes a signal in blocks:
  the blocks can be of any multiple of a unit, the output does not depend on how the signal is cut. Chains of
  such filters are such filters.
\<close>

section \<open>Loops with a state\<close>

fun mealy :: "('s \<Rightarrow> 'a \<Rightarrow> 's \<times> 'b) \<Rightarrow> 's \<Rightarrow> 'a list \<Rightarrow> 's \<times> 'b list" where
  "mealy f s [] = (s, [])"
| "mealy f s (x # xs) = (let (s, y) = f s x; (s, ys) = mealy f s xs in (s, y # ys))"

lemma mealy_append:
  "mealy f s (xs @ ys) = (let (s, us) = mealy f s xs; (s, vs) = mealy f s ys in (s, us @ vs))"
  by (induction xs arbitrary: s) (simp_all add: split_def Let_def)

lemma length_mealy [simp]: "length (snd (mealy f s xs)) = length xs"
  by (induction xs arbitrary: s) (simp_all add: split_def Let_def)

lemma mealy_keeps: "P s \<Longrightarrow> (\<And>s x. P s \<Longrightarrow> P (fst (f s x))) \<Longrightarrow> P (fst (mealy f s xs))"
  by (induction xs arbitrary: s) (simp_all add: split_def Let_def)

lemma mealy_all: "(\<And>s x. Q (snd (f s x))) \<Longrightarrow> list_all Q (snd (mealy f s xs))"
  by (induction xs arbitrary: s) (simp_all add: split_def Let_def)

section \<open>Even and odd samples\<close>

definition evens :: "'a list \<Rightarrow> nat \<Rightarrow> 'a list" where
  "evens xs n = map (\<lambda>i. xs ! (2 * i)) [0..<n]"

definition odds :: "'a list \<Rightarrow> nat \<Rightarrow> 'a list" where
  "odds xs n = map (\<lambda>i. xs ! (2 * i + 1)) [0..<n]"

definition interleave :: "'a list \<Rightarrow> 'a list \<Rightarrow> 'a list" where
  "interleave xs ys = concat (map2 (\<lambda>x y. [x, y]) xs ys)"

lemma length_evens [simp]: "length (evens xs n) = n" "length (odds xs n) = n"
  by (simp_all add: evens_def odds_def)

lemma map_upt_append: "map f [0..<m + n] = map f [0..<m] @ map (\<lambda>i. f (m + i)) [0..<n]"
  by (induction n) simp_all

lemma evens_append:
  assumes "length xs = 2 * m"
  shows "evens (xs @ ys) (m + n) = evens xs m @ evens ys n" "odds (xs @ ys) (m + n) = odds xs m @ odds ys n"
proof -
  have "map (\<lambda>i. (xs @ ys) ! (2 * i)) [0..<m] = evens xs m" "map (\<lambda>i. (xs @ ys) ! (2 * i + 1)) [0..<m] = odds xs m"
    unfolding evens_def odds_def using assms by (auto simp: nth_append)
  then show "evens (xs @ ys) (m + n) = evens xs m @ evens ys n" "odds (xs @ ys) (m + n) = odds xs m @ odds ys n"
    unfolding evens_def [of "xs @ ys"] odds_def [of "xs @ ys"] map_upt_append
    by (auto simp: nth_append assms evens_def odds_def)
qed

lemma interleave_append: "length xs = length ys \<Longrightarrow> interleave (xs @ us) (ys @ vs) = interleave xs ys @ interleave us vs"
  by (simp add: interleave_def)

lemma length_interleave [simp]: "length (interleave xs ys) = 2 * min (length xs) (length ys)"
  by (induction xs ys rule: list_induct2') (simp_all add: interleave_def)

lemma list_all_interleave: "list_all P xs \<Longrightarrow> list_all P ys \<Longrightarrow> list_all P (interleave xs ys)"
  by (induction xs ys rule: list_induct2') (simp_all add: interleave_def)

lemma map2_append_eq: "length xs = length ys \<Longrightarrow> map2 f (xs @ us) (ys @ vs) = map2 f xs ys @ map2 f us vs"
  by simp

section \<open>Filters on blocks\<close>

locale block_filter =
  fixes run :: "'s \<Rightarrow> 'a list \<Rightarrow> 's \<times> 'b list" and ok :: "'s \<Rightarrow> bool" and unit_in unit_out :: nat
  assumes run_append: "ok s \<Longrightarrow> unit_in dvd length xs \<Longrightarrow> unit_in dvd length ys \<Longrightarrow>
      run s (xs @ ys) = (let (s, us) = run s xs; (s, vs) = run s ys in (s, us @ vs))"
    and run_Nil: "ok s \<Longrightarrow> run s [] = (s, [])"
    and run_ok: "ok s \<Longrightarrow> unit_in dvd length xs \<Longrightarrow> ok (fst (run s xs))"
    and run_length: "ok s \<Longrightarrow> unit_in dvd length xs \<Longrightarrow> unit_in * length (snd (run s xs)) = unit_out * length xs"
begin

lemma run_blocks:
  assumes "ok s" and "\<forall>b \<in> set blocks. unit_in dvd length b"
  shows "run s (concat blocks) = (let (s, outs) = mealy run s blocks in (s, concat outs))"
  using assms
proof (induction blocks arbitrary: s)
  case (Cons b blocks)
  have "unit_in dvd length (concat blocks)" using Cons.prems(2) by (induction blocks) auto
  then have "run s (b @ concat blocks) = (let (s, us) = run s b; (s, vs) = run s (concat blocks) in (s, us @ vs))"
    using Cons.prems by (intro run_append) auto
  moreover have "ok (fst (run s b))" using Cons.prems run_ok by simp
  ultimately show ?case using Cons.IH [of "fst (run s b)"] Cons.prems(2) by (simp add: split_def Let_def)
qed (simp add: run_Nil)

text \<open>A multiple of the unit is a unit.\<close>

lemma rescaled:
  assumes "0 < m"
  shows "block_filter run ok (m * unit_in) (m * unit_out)"
proof
  fix s and xs ys :: "'a list"
  assume ok: "ok s"
  show "run s [] = (s, [])" by (rule run_Nil [OF ok])
  assume "m * unit_in dvd length xs"
  then have x: "unit_in dvd length xs" by (rule dvd_mult_right)
  show "ok (fst (run s xs))" by (rule run_ok [OF ok x])
  show "m * unit_in * length (snd (run s xs)) = m * unit_out * length xs" using run_length [OF ok x] by simp
  assume "m * unit_in dvd length ys"
  then have y: "unit_in dvd length ys" by (rule dvd_mult_right)
  show "run s (xs @ ys) = (let (s, us) = run s xs; (s, vs) = run s ys in (s, us @ vs))" by (rule run_append [OF ok x y])
qed

text \<open>
  An implementation that handles frames of \<open>n\<close> samples, on a state of its own, as the filter does: frame by frame
  it computes what the filter computes on the whole signal.
\<close>

lemma run_frames:
  assumes sim: "\<And>s x. ok (view s) \<Longrightarrow> length x = n \<Longrightarrow> run (view s) x = (view (fst (f s x)), snd (f s x))"
    and "ok (view s)" and frames: "\<forall>x \<in> set frames. length x = n" and "unit_in dvd n"
  shows "run (view s) (concat frames) = (view (fst (mealy f s frames)), concat (snd (mealy f s frames)))"
    "ok (view (fst (mealy f s frames)))"
proof -
  have "mealy run (view s) frames = (view (fst (mealy f s frames)), snd (mealy f s frames)) \<and> ok (view (fst (mealy f s frames)))"
    using assms(2) frames
  proof (induction frames arbitrary: s)
    case (Cons x frames)
    then have r: "run (view s) x = (view (fst (f s x)), snd (f s x))" using sim by simp
    then have "ok (view (fst (f s x)))" using run_ok [OF Cons.prems(1), of x] Cons.prems(2) assms(4) by simp
    then show ?case using Cons.IH [of "fst (f s x)"] Cons.prems(2) r by (simp add: split_def Let_def)
  qed simp
  then show "run (view s) (concat frames) = (view (fst (mealy f s frames)), concat (snd (mealy f s frames)))"
    "ok (view (fst (mealy f s frames)))"
    using run_blocks [OF assms(2), of frames] frames assms(4) by simp_all
qed

end

text \<open>The output of one filter is the input of the next.\<close>

definition chain :: "('s \<Rightarrow> 'a list \<Rightarrow> 's \<times> 'b list) \<Rightarrow> ('t \<Rightarrow> 'b list \<Rightarrow> 't \<times> 'c list) \<Rightarrow> 's \<times> 't \<Rightarrow> 'a list \<Rightarrow> ('s \<times> 't) \<times> 'c list" where
  "chain f g = (\<lambda>(s, t) xs. let (s, us) = f s xs; (t, vs) = g t us in ((s, t), vs))"

definition both_ok :: "('s \<Rightarrow> bool) \<Rightarrow> ('t \<Rightarrow> bool) \<Rightarrow> 's \<times> 't \<Rightarrow> bool" where
  "both_ok p q = (\<lambda>(s, t). p s \<and> q t)"

locale filter_chain =
  first: block_filter run1 ok1 unit1 unit2 + second: block_filter run2 ok2 unit2 unit3
  for run1 :: "'s \<Rightarrow> 'a list \<Rightarrow> 's \<times> 'b list" and ok1 unit1 unit2
    and run2 :: "'t \<Rightarrow> 'b list \<Rightarrow> 't \<times> 'c list" and ok2 unit3 +
  assumes units: "0 < unit1" "0 < unit2"
begin

lemma between:
  assumes "ok1 s" and "unit1 dvd length xs"
  shows "unit2 dvd length (snd (run1 s xs))" "unit1 * length (snd (run1 s xs)) = unit2 * length xs"
proof -
  show e: "unit1 * length (snd (run1 s xs)) = unit2 * length xs" by (rule first.run_length [OF assms])
  obtain k where "length xs = unit1 * k" using assms(2) by blast
  then have "length (snd (run1 s xs)) = unit2 * k" using e units(1) by simp
  then show "unit2 dvd length (snd (run1 s xs))" by simp
qed

lemma whole_filter: "block_filter (chain run1 run2) (both_ok ok1 ok2) unit1 unit3"
proof
  fix s :: "'s \<times> 't" and xs ys :: "'a list"
  obtain a b where s: "s = (a, b)" by (rule prod.exhaust)
  assume "both_ok ok1 ok2 s"
  then have ab: "ok1 a" "ok2 b" by (simp_all add: s both_ok_def)
  show "chain run1 run2 s [] = (s, [])" using ab by (simp add: chain_def s first.run_Nil second.run_Nil)
  assume x: "unit1 dvd length xs"
  obtain a' us where r1: "run1 a xs = (a', us)" by (rule prod.exhaust)
  obtain b' vs where r2: "run2 b us = (b', vs)" by (rule prod.exhaust)
  have us: "unit2 dvd length us" "unit1 * length us = unit2 * length xs" using between [OF ab(1) x] r1 by simp_all
  have ok: "ok1 a'" "ok2 b'" using first.run_ok [OF ab(1) x] second.run_ok [OF ab(2) us(1)] r1 r2 by simp_all
  show "both_ok ok1 ok2 (fst (chain run1 run2 s xs))" using ok by (simp add: chain_def s r1 r2 both_ok_def)
  have "unit2 * length vs = unit3 * length us" using second.run_length [OF ab(2) us(1)] r2 by simp
  then have "unit1 * (unit2 * length vs) = unit3 * (unit1 * length us)" by simp
  then have "unit2 * (unit1 * length vs) = unit2 * (unit3 * length xs)" by (simp add: us(2) algebra_simps)
  then show "unit1 * length (snd (chain run1 run2 s xs)) = unit3 * length xs" using units(2) by (simp add: chain_def s r1 r2)
  assume y: "unit1 dvd length ys"
  have "unit2 dvd length (snd (run1 a' ys))" by (rule between(1) [OF ok(1) y])
  then show "chain run1 run2 s (xs @ ys) = (let (s, us) = chain run1 run2 s xs; (s, vs) = chain run1 run2 s ys in (s, us @ vs))"
    using first.run_append [OF ab(1) x y] second.run_append [OF ab(2) us(1)] r1 r2
    by (simp add: chain_def s split_def Let_def)
qed

end

sublocale filter_chain \<subseteq> whole: block_filter "chain run1 run2" "both_ok ok1 ok2" unit1 unit3
  by (rule whole_filter)

lemma chain_filter:
  assumes "block_filter r ok u v" "block_filter r' ok' v w" "0 < u" "0 < v"
  shows "block_filter (chain r r') (both_ok ok ok') u w"
proof -
  have "filter_chain r ok u v r' ok' w" using assms by (simp add: filter_chain_def filter_chain_axioms_def)
  then show ?thesis by (rule filter_chain.whole_filter)
qed

end
