(* ===== verification/High_Pass.thy ===== *)
theory High_Pass
  imports Stream_Filter
begin

text \<open>
  The high-pass filter of the capture side (\<^verbatim>\<open>high_pass_filter_impl.cc\<close>): a biquad that keeps its output in two
  16 bit words, the upper bits and the lower 13 bits. While these hold the output it is the recursion on whole
  integers; inputs at full scale can leave them.
\<close>

section \<open>The biquad\<close>

definition kFilterCoefficients8kHz :: "int list" where "kFilterCoefficients8kHz = [3798, -7596, 3798, 7807, -3733]"
definition kFilterCoefficients :: "int list" where "kFilterCoefficients = [4012, -8024, 4012, 8002, -3913]"

record BiquadFilter =
  ba :: "int list"
  filter_x :: "int list"
  filter_y :: "int list"

definition Biquad_Reset :: "BiquadFilter \<Rightarrow> BiquadFilter" where
  "Biquad_Reset f = f\<lparr>filter_x := replicate 2 0, filter_y := replicate 4 0\<rparr>"

definition new_BiquadFilter :: "int \<Rightarrow> BiquadFilter" where
  "new_BiquadFilter rate = Biquad_Reset \<lparr>ba = (if rate = 8000 then kFilterCoefficients8kHz else kFilterCoefficients), filter_x = [], filter_y = []\<rparr>"

text \<open>One turn of the loop: the filter and the sample that replaces \<open>d\<close>.\<close>

definition biquad_sample :: "BiquadFilter \<Rightarrow> int \<Rightarrow> BiquadFilter \<times> int" where
  "biquad_sample f d =
     (let b = ba f; x = filter_x f; y = filter_y f;
          tmp = s32 (y ! 1 * b ! 3);
          tmp = s32 (tmp + y ! 3 * b ! 4);
          tmp = shr tmp 15;
          tmp = s32 (tmp + y ! 0 * b ! 3);
          tmp = s32 (tmp + y ! 2 * b ! 4);
          tmp = s32 (shl tmp 1);
          tmp = s32 (tmp + d * b ! 0);
          tmp = s32 (tmp + x ! 0 * b ! 1);
          tmp = s32 (tmp + x ! 1 * b ! 2);
          y0 = s16 (shr tmp 13);
          y1 = s16 (s32 (shl (s32 (tmp - shl y0 13)) 2));
          out = s32 (tmp + 2048);
          out = (if out > 134217727 then 134217727 else if out < -134217728 then -134217728 else out)
      in (f\<lparr>filter_x := [d, x ! 0], filter_y := [y0, y1, y ! 0, y ! 1]\<rparr>, s16 (shr out 12)))"

definition Biquad_Process :: "BiquadFilter \<Rightarrow> int list \<Rightarrow> BiquadFilter \<times> int list" where
  "Biquad_Process f samples = mealy biquad_sample f samples"

interpretation biquad: block_filter Biquad_Process "\<lambda>_. True" 1 1
  by unfold_locales (simp_all add: Biquad_Process_def mealy_append)

section \<open>The component\<close>

record HighPassFilterImpl =
  hp_enabled :: bool
  filters :: "BiquadFilter list"

definition new_HighPassFilterImpl :: HighPassFilterImpl where
  "new_HighPassFilterImpl = \<lparr>hp_enabled = False, filters = []\<rparr>"

definition HighPass_Initialize :: "HighPassFilterImpl \<Rightarrow> nat \<Rightarrow> int \<Rightarrow> HighPassFilterImpl" where
  "HighPass_Initialize h channels rate = h\<lparr>filters := replicate channels (new_BiquadFilter rate)\<rparr>"

definition HighPass_Enable :: "HighPassFilterImpl \<Rightarrow> bool \<Rightarrow> HighPassFilterImpl" where
  "HighPass_Enable h b =
     (let h = (if \<not> hp_enabled h \<and> b then h\<lparr>filters := map Biquad_Reset (filters h)\<rparr> else h) in h\<lparr>hp_enabled := b\<rparr>)"

text \<open>The lowest band of each channel is filtered in place.\<close>

definition HighPass_ProcessCaptureAudio :: "HighPassFilterImpl \<Rightarrow> int list list \<Rightarrow> HighPassFilterImpl \<times> int list list" where
  "HighPass_ProcessCaptureAudio h bands =
     (if \<not> hp_enabled h then (h, bands)
      else let n = length (filters h); r = map (\<lambda>i. Biquad_Process (filters h ! i) (bands ! i)) [0..<n]
           in (h\<lparr>filters := map fst r\<rparr>, map snd r @ drop n bands))"

section \<open>The recursion on integers\<close>

text \<open>The output in Q12 from the last two outputs and the last three inputs, rounded down once.\<close>

definition recursion :: "int list \<Rightarrow> int \<Rightarrow> int \<Rightarrow> int \<Rightarrow> int \<Rightarrow> int \<Rightarrow> int" where
  "recursion b t1 t2 d x1 x2 = 2 * ((t1 * b ! 3 + t2 * b ! 4) div 2 ^ 13) + d * b ! 0 + x1 * b ! 1 + x2 * b ! 2"

definition to_sample :: "int \<Rightarrow> int" where
  "to_sample t = min 32767 (max (-32768) ((t + 2048) div 2 ^ 12))"

fun reference_outputs :: "int list \<Rightarrow> int \<Rightarrow> int \<Rightarrow> int \<Rightarrow> int \<Rightarrow> int list \<Rightarrow> int list" where
  "reference_outputs b t1 t2 x1 x2 [] = []"
| "reference_outputs b t1 t2 x1 x2 (d # ds) =
     (let t = recursion b t1 t2 d x1 x2 in t # reference_outputs b t t1 d x1 ds)"

definition filter_coefficients :: "int list \<Rightarrow> bool" where
  "filter_coefficients b \<longleftrightarrow> b = kFilterCoefficients8kHz \<or> b = kFilterCoefficients"

text \<open>The filter holds the outputs \<open>t1\<close>, \<open>t2\<close> and the inputs \<open>x1\<close>, \<open>x2\<close>.\<close>

definition holds :: "BiquadFilter \<Rightarrow> int \<Rightarrow> int \<Rightarrow> int \<Rightarrow> int \<Rightarrow> bool" where
  "holds f t1 t2 x1 x2 \<longleftrightarrow> filter_coefficients (ba f) \<and> filter_x f = [x1, x2] \<and> is_s16 x1 \<and> is_s16 x2 \<and>
     - (2 ^ 28) \<le> t1 \<and> t1 < 2 ^ 28 \<and> - (2 ^ 28) \<le> t2 \<and> t2 < 2 ^ 28 \<and>
     filter_y f = [t1 div 2 ^ 13, 4 * (t1 mod 2 ^ 13), t2 div 2 ^ 13, 4 * (t2 mod 2 ^ 13)]"

lemma split_product:
  fixes t :: int
  shows "(t1 * b + t2 * c) div 2 ^ 13 = shr (4 * (t1 mod 2 ^ 13) * b + 4 * (t2 mod 2 ^ 13) * c) 15 + (t1 div 2 ^ 13) * b + (t2 div 2 ^ 13) * c"
proof -
  define q1 r1 q2 r2 where "q1 = t1 div 2 ^ 13" and "r1 = t1 mod 2 ^ 13" and "q2 = t2 div 2 ^ 13" and "r2 = t2 mod 2 ^ 13"
  have t: "t1 = 2 ^ 13 * q1 + r1" "t2 = 2 ^ 13 * q2 + r2" by (simp_all add: q1_def r1_def q2_def r2_def)
  have "t1 * b + t2 * c = (r1 * b + r2 * c) + 2 ^ 13 * (q1 * b + q2 * c)" unfolding t by (simp add: algebra_simps)
  then have "(t1 * b + t2 * c) div 2 ^ 13 = (r1 * b + r2 * c) div 2 ^ 13 + (q1 * b + q2 * c)" by simp
  also have "(r1 * b + r2 * c) div 2 ^ 13 = (4 * (r1 * b + r2 * c)) div (4 * 2 ^ 13)" by (subst div_mult_mult1) simp_all
  finally show ?thesis by (simp add: shr_def q1_def r1_def q2_def r2_def algebra_simps)
qed

text \<open>The upper word has 16 bits: an output that does not fit is off by a multiple of \<open>2 ^ 29\<close>, the lower word stays right.\<close>

definition wrap_output :: "int \<Rightarrow> int" where "wrap_output t = s16 (t div 2 ^ 13) * 2 ^ 13 + t mod 2 ^ 13"

fun wrapped_outputs :: "int list \<Rightarrow> int \<Rightarrow> int \<Rightarrow> int \<Rightarrow> int \<Rightarrow> int list \<Rightarrow> int list" where
  "wrapped_outputs b t1 t2 x1 x2 [] = []"
| "wrapped_outputs b t1 t2 x1 x2 (d # ds) =
     (let t = recursion b t1 t2 d x1 x2 in t # wrapped_outputs b (wrap_output t) t1 d x1 ds)"

lemma s16_off: "\<exists>k. x = s16 x + k * 2 ^ 16" "s16 (x + k * 2 ^ 16) = s16 x"
proof -
  have "x = s16 x + ((x + 2 ^ 15) div 2 ^ 16) * 2 ^ 16" by (simp add: s16_def minus_mod_eq_div_mult [symmetric])
  then show "\<exists>k. x = s16 x + k * 2 ^ 16" by blast
  have "x + k * 2 ^ 16 + 32768 = x + 32768 + k * 65536" by simp
  then show "s16 (x + k * 2 ^ 16) = s16 x" by (simp only: s16_def mod_mult_self1)
qed

lemma s32_off: "\<exists>k. s32 x = x + k * 2 ^ 16"
proof -
  have "(x + 2 ^ 31) mod 2 ^ 32 = x + 2 ^ 31 - (x + 2 ^ 31) div 2 ^ 32 * 2 ^ 32" by (rule minus_div_mult_eq_mod [symmetric])
  then have "s32 x = x + (- ((x + 2 ^ 31) div 2 ^ 32) * 2 ^ 16) * 2 ^ 16" by (simp add: s32_def)
  then show ?thesis by blast
qed

lemma wrap_output_parts: "wrap_output t div 2 ^ 13 = s16 (t div 2 ^ 13)" "wrap_output t mod 2 ^ 13 = t mod 2 ^ 13"
  by (simp_all add: wrap_output_def div_add1_eq)

lemma wrap_output_range: "- (2 ^ 28) \<le> wrap_output t" "wrap_output t < 2 ^ 28"
proof -
  have "- 32768 \<le> s16 (t div 2 ^ 13)" "s16 (t div 2 ^ 13) \<le> 32767" "0 \<le> t mod 2 ^ 13" "t mod 2 ^ 13 < 2 ^ 13"
    using is_s16_s16 [of "t div 2 ^ 13"] unfolding is_s16_def by simp_all
  then show "- (2 ^ 28) \<le> wrap_output t" "wrap_output t < 2 ^ 28" unfolding wrap_output_def by simp_all
qed

lemma wrap_output_id: "- (2 ^ 28) \<le> t \<Longrightarrow> t < 2 ^ 28 \<Longrightarrow> wrap_output t = t"
proof -
  assume "- (2 ^ 28) \<le> t" "t < 2 ^ 28"
  then have "- 32768 \<le> t div 2 ^ 13" "t div 2 ^ 13 \<le> 32767" by auto
  then have "s16 (t div 2 ^ 13) = t div 2 ^ 13" by (simp add: s16_id is_s16_def)
  then show ?thesis by (simp add: wrap_output_def)
qed

text \<open>The words that the code stores.\<close>

lemma stored_words: "s16 (shr t 13) = wrap_output t div 2 ^ 13"
    "s16 (s32 (shl (s32 (t - shl (s16 (shr t 13)) 13)) 2)) = 4 * (wrap_output t mod 2 ^ 13)"
proof -
  show y0: "s16 (shr t 13) = wrap_output t div 2 ^ 13" by (simp only: wrap_output_parts shr_def)
  obtain k where k: "t div 2 ^ 13 = s16 (t div 2 ^ 13) + k * 2 ^ 16" using s16_off(1) by blast
  define w where "w = t mod 2 ^ 13"
  have w: "0 \<le> w" "w < 8192" by (simp_all add: w_def)
  have "t = t div 2 ^ 13 * 2 ^ 13 + w" by (simp add: w_def)
  then have "t - shl (s16 (shr t 13)) 13 = w + k * 2 ^ 29" using k by (simp add: shl_def shr_def algebra_simps)
  then obtain m where "s32 (t - shl (s16 (shr t 13)) 13) = w + k * 2 ^ 29 + m * 2 ^ 16" using s32_off by metis
  then have "shl (s32 (t - shl (s16 (shr t 13)) 13)) 2 = 4 * w + (k * 2 ^ 15 + 4 * m) * 2 ^ 16" by (simp add: shl_def algebra_simps)
  then obtain n where "s32 (shl (s32 (t - shl (s16 (shr t 13)) 13)) 2) = 4 * w + (k * 2 ^ 15 + 4 * m) * 2 ^ 16 + n * 2 ^ 16" using s32_off by metis
  then have "s16 (s32 (shl (s32 (t - shl (s16 (shr t 13)) 13)) 2)) = s16 (4 * w)" by (simp only: s16_off(2))
  moreover have "s16 (4 * w) = 4 * w" using w by (simp add: s16_id is_s16_def)
  ultimately show "s16 (s32 (shl (s32 (t - shl (s16 (shr t 13)) 13)) 2)) = 4 * (wrap_output t mod 2 ^ 13)"
    by (simp only: wrap_output_parts w_def)
qed

lemma biquad_step:
  assumes "holds f t1 t2 x1 x2" "is_s16 d"
  defines "t \<equiv> recursion (ba f) t1 t2 d x1 x2"
  shows "snd (biquad_sample f d) = to_sample t" "holds (fst (biquad_sample f d)) (wrap_output t) t1 d x1"
proof -
  let ?b = "ba f"
  define h1 l1 h2 l2 where "h1 = t1 div 2 ^ 13" and "l1 = 4 * (t1 mod 2 ^ 13)" and "h2 = t2 div 2 ^ 13" and "l2 = 4 * (t2 mod 2 ^ 13)"
  have y: "filter_x f = [x1, x2]" "filter_y f = [h1, l1, h2, l2]" and b: "?b = kFilterCoefficients8kHz \<or> ?b = kFilterCoefficients"
    using assms(1) by (simp_all add: holds_def filter_coefficients_def h1_def l1_def h2_def l2_def)
  have r: "- 32768 \<le> h1" "h1 \<le> 32767" "0 \<le> l1" "l1 \<le> 32764" "- 32768 \<le> h2" "h2 \<le> 32767" "0 \<le> l2" "l2 \<le> 32764"
      "- 32768 \<le> x1" "x1 \<le> 32767" "- 32768 \<le> x2" "x2 \<le> 32767" "- 32768 \<le> d" "d \<le> 32767"
    using assms(1,2) unfolding holds_def is_s16_def h1_def l1_def h2_def l2_def by auto
  define p where "p = shr (l1 * ?b ! 3 + l2 * ?b ! 4) 15"
  define u where "u = 2 * (p + h1 * ?b ! 3 + h2 * ?b ! 4)"
  have t: "t = u + d * ?b ! 0 + x1 * ?b ! 1 + x2 * ?b ! 2"
    unfolding t_def recursion_def split_product u_def p_def h1_def l1_def h2_def l2_def by simp
  have p: "p = (l1 * ?b ! 3 + l2 * ?b ! 4) div 32768" by (simp add: p_def shr_def)
  have fits: "is_s32 (l1 * ?b ! 3)" "is_s32 (l1 * ?b ! 3 + l2 * ?b ! 4)" "is_s32 (p + h1 * ?b ! 3)" "is_s32 (p + h1 * ?b ! 3 + h2 * ?b ! 4)"
      "is_s32 u" "is_s32 (u + d * ?b ! 0)" "is_s32 (u + d * ?b ! 0 + x1 * ?b ! 1)" "is_s32 t" "is_s32 (t + 2048)"
    using b r p unfolding is_s32_def t u_def by (auto simp: kFilterCoefficients8kHz_def kFilterCoefficients_def)
  have s: "biquad_sample f d = (let y0 = s16 (shr t 13); y1 = s16 (s32 (shl (s32 (t - shl y0 13)) 2));
      out = (if t + 2048 > 134217727 then 134217727 else if t + 2048 < -134217728 then -134217728 else t + 2048)
      in (f\<lparr>filter_x := [d, x1], filter_y := [y0, y1, h1, l1]\<rparr>, s16 (shr out 12)))"
    using fits unfolding biquad_sample_def y u_def t p_def [symmetric] Let_def
    by (simp add: s32_id p_def [symmetric] shl_def mult.commute [of _ "2 :: int"])
  have c: "s16 (shr (if t + 2048 > 134217727 then 134217727 else if t + 2048 < -134217728 then -134217728 else t + 2048) 12) = to_sample t"
  proof -
    have "shr (if t + 2048 > 134217727 then 134217727 else if t + 2048 < -134217728 then -134217728 else t + 2048) 12 = to_sample t"
      by (auto simp: shr_def to_sample_def)
    then show ?thesis by (simp add: s16_id is_s16_def to_sample_def)
  qed
  then show "snd (biquad_sample f d) = to_sample t" unfolding s Let_def by simp
  show "holds (fst (biquad_sample f d)) (wrap_output t) t1 d x1"
    using assms(1,2) wrap_output_range h1_def l1_def unfolding s Let_def unfolding stored_words(2) unfolding stored_words(1) holds_def by simp
qed

lemma biquad_run:
  assumes "holds f t1 t2 x1 x2" "list_all is_s16 ds"
  shows "snd (Biquad_Process f ds) = map to_sample (wrapped_outputs (ba f) t1 t2 x1 x2 ds)"
  using assms
proof (induction ds arbitrary: f t1 t2 x1 x2)
  case (Cons d ds)
  define t where "t = recursion (ba f) t1 t2 d x1 x2"
  have d: "is_s16 d" "list_all is_s16 ds" using Cons.prems(2) by simp_all
  note step = biquad_step [OF Cons.prems(1) d(1), folded t_def]
  have b: "ba (fst (biquad_sample f d)) = ba f" by (simp add: biquad_sample_def Let_def)
  show ?case using Cons.IH [OF step(2) d(2)] step(1)
    by (simp add: Biquad_Process_def split_def Let_def b t_def [symmetric])
qed (simp add: Biquad_Process_def)

lemma wrapped_in_range:
  "list_all (\<lambda>t. - (2 ^ 28) \<le> t \<and> t < 2 ^ 28) (reference_outputs b t1 t2 x1 x2 ds) \<Longrightarrow>
     wrapped_outputs b t1 t2 x1 x2 ds = reference_outputs b t1 t2 x1 x2 ds"
  by (induction ds arbitrary: t1 t2 x1 x2) (simp_all add: Let_def wrap_output_id)

lemma new_filter_holds: "holds (new_BiquadFilter rate) 0 0 0 0"
  by (simp add: holds_def new_BiquadFilter_def Biquad_Reset_def filter_coefficients_def is_s16_def numeral_eq_Suc)

section \<open>Properties\<close>

text \<open>
  C24. Frame by frame, with the state passed on, the filter gives the exact recursion on integers, rounded down once per
  sample, as long as its output stays below twice the full scale: splitting the output in two 16 bit words loses nothing.
\<close>

theorem high_pass_exact:
  assumes "list_all is_s16 (concat frames)"
    and "list_all (\<lambda>t. - (2 ^ 28) \<le> t \<and> t < 2 ^ 28) (reference_outputs (ba (new_BiquadFilter rate)) 0 0 0 0 (concat frames))"
  shows "concat (snd (mealy Biquad_Process (new_BiquadFilter rate) frames)) =
    map to_sample (reference_outputs (ba (new_BiquadFilter rate)) 0 0 0 0 (concat frames))"
  using biquad_run [OF new_filter_holds [of rate] assms(1)] wrapped_in_range [OF assms(2)] biquad.run_blocks [where s = "new_BiquadFilter rate" and blocks = frames] by (simp add: split_def Let_def)

lemma high_pass_exact_witness:
  "concat (snd (mealy Biquad_Process (new_BiquadFilter 16000) [[1000, 1000], [-500]])) = [979, 934, -580]"
proof -
  have r: "reference_outputs (ba (new_BiquadFilter 16000)) 0 0 0 0 (concat [[1000, 1000], [-500]]) = [4012000, 3825896, -2376432]"
    by (simp add: new_BiquadFilter_def Biquad_Reset_def kFilterCoefficients_def recursion_def)
  show ?thesis using high_pass_exact [of "[[1000, 1000], [-500]]" 16000] unfolding r by (simp add: is_s16_def to_sample_def)
qed

text \<open>
  C25. Outside this range, which the output can leave, the filter is not the recursion. For every input of 16 bit samples, frame by frame, each
  sample that is handed out is the exact value cut to 16 bits, but what is kept for the next ones is that value with its upper word
  wrapped round to 16 bits, so that an output of twice the full scale is fed back with the opposite sign.
\<close>

theorem high_pass_wraps:
  assumes "list_all is_s16 (concat frames)"
  shows "concat (snd (mealy Biquad_Process (new_BiquadFilter rate) frames)) =
    map to_sample (wrapped_outputs (ba (new_BiquadFilter rate)) 0 0 0 0 (concat frames))"
  using biquad_run [OF new_filter_holds [of rate] assms] biquad.run_blocks [where s = "new_BiquadFilter rate" and blocks = frames] by (simp add: split_def Let_def)

text \<open>
  The witness: after 31 samples of -32768 the exact recursion stays above the full scale for eight samples of 32767, while the code returns
  -32768 from the second of them on.
\<close>

lemma high_pass_wraps_witness:
  "drop 31 (concat (snd (mealy Biquad_Process (new_BiquadFilter 16000) [replicate 31 (-32768), replicate 8 32767]))) = 32767 # replicate 7 (-32768) \<and>
   drop 31 (map to_sample (reference_outputs (ba (new_BiquadFilter 16000)) 0 0 0 0 (replicate 31 (-32768) @ replicate 8 32767))) = replicate 8 32767"
proof -
  have "drop 31 (map to_sample (wrapped_outputs (ba (new_BiquadFilter 16000)) 0 0 0 0 (replicate 31 (-32768) @ replicate 8 32767))) =
      32767 # replicate 7 (-32768) \<and>
    drop 31 (map to_sample (reference_outputs (ba (new_BiquadFilter 16000)) 0 0 0 0 (replicate 31 (-32768) @ replicate 8 32767))) = replicate 8 32767"
    by code_simp
  moreover have "list_all is_s16 (concat [replicate 31 (-32768), replicate 8 32767])" by (simp add: list_all_iff is_s16_def)
  from high_pass_wraps [OF this, of 16000] have "concat (snd (mealy Biquad_Process (new_BiquadFilter 16000) [replicate 31 (-32768), replicate 8 32767])) =
      map to_sample (wrapped_outputs (ba (new_BiquadFilter 16000)) 0 0 0 0 (replicate 31 (-32768) @ replicate 8 32767))" by simp
  ultimately show ?thesis by simp
qed

end
