(* ===== verification/Audio_Processing.thy ===== *)
theory Audio_Processing
  imports Aecm_Component Audio_Buffer High_Pass
begin

text \<open>
  The audio processing module (\<^verbatim>\<open>audio_processing_impl.cc\<close>) through its interface for frames of 16 bit samples: the
  choice of the formats, initialisation and re-initialisation, and the two paths of the audio. The high-pass filter and the
  mobile echo control are those of the model. The other submodules, the splitting into bands and the resampling are
  parameters: the record \<open>submodules\<close> has the calls the module makes to them, on a state of any type.

  The model is that of the Android build with the options the native layer sets: no beamformer, no transient suppressor,
  no intelligibility enhancer, no new gain control; the debug dump and the statistics of delays are left out. A call that would
  follow a null pointer or leave an array is \<open>None\<close>. Streams have no keyboard channel, and the number
  of channels of a frame is not negative (in the code it becomes unsigned).
\<close>

section \<open>Formats\<close>

definition kNativeSampleRatesHz :: "int list" where "kNativeSampleRatesHz = [8000, 16000, 32000, 48000]"
definition kMaxAECMSampleRateHz :: int where "kMaxAECMSampleRateHz = 16000"
definition kChunkSizeMs :: int where "kChunkSizeMs = 10"

text \<open>A stream is its rate and its number of channels; \<^verbatim>\<open>num_frames()\<close> and \<^verbatim>\<open>num_channels()\<close> of it.\<close>

definition stream_frames :: "int \<times> int \<Rightarrow> nat" where "stream_frames s = nat (cdiv (kChunkSizeMs * fst s) 1000)"
definition stream_channels :: "int \<times> int \<Rightarrow> nat" where "stream_channels s = nat (snd s)"

text \<open>The loop over the native rates ends at the first that is not below \<open>m\<close>, or at the last.\<close>

fun first_rate :: "int list \<Rightarrow> int \<Rightarrow> int \<Rightarrow> int" where
  "first_rate [] r m = r"
| "first_rate (x # xs) r m = (if x \<ge> m then x else first_rate xs x m)"

section \<open>State\<close>

record 's submodules =
  dchecks :: bool
  aecm_memory :: memory
  aec_enabled :: "'s \<Rightarrow> bool"
  gc_enabled :: "'s \<Rightarrow> bool"
  ns_enabled :: "'s \<Rightarrow> bool"
  le_enabled :: "'s \<Rightarrow> bool"
  vd_enabled :: "'s \<Rightarrow> bool"
  aec_initialize :: "apm_view \<Rightarrow> 's \<Rightarrow> 's \<times> int"
  gc_initialize :: "apm_view \<Rightarrow> 's \<Rightarrow> 's \<times> int"
  ns_initialize :: "apm_view \<Rightarrow> 's \<Rightarrow> 's"
  le_initialize :: "'s \<Rightarrow> 's"
  vd_initialize :: "int \<Rightarrow> 's \<Rightarrow> 's"
  aec_read_queued :: "apm_view \<Rightarrow> 's \<Rightarrow> 's"
  gc_read_queued :: "apm_view \<Rightarrow> 's \<Rightarrow> 's"
  aec_render :: "apm_view \<Rightarrow> AudioBuffer \<Rightarrow> 's \<Rightarrow> 's \<times> int"
  gc_render :: "apm_view \<Rightarrow> AudioBuffer \<Rightarrow> 's \<Rightarrow> 's \<times> int"
  gc_analyze :: "apm_view \<Rightarrow> AudioBuffer \<Rightarrow> 's \<Rightarrow> 's \<times> int"
  ns_analyze :: "AudioBuffer \<Rightarrow> 's \<Rightarrow> 's"
  aec_capture :: "apm_view \<Rightarrow> AudioBuffer \<Rightarrow> 's \<Rightarrow> 's \<times> AudioBuffer \<times> int"
  ns_capture :: "AudioBuffer \<Rightarrow> 's \<Rightarrow> 's \<times> AudioBuffer"
  vd_capture :: "AudioBuffer \<Rightarrow> 's \<Rightarrow> 's"
  gc_capture :: "apm_view \<Rightarrow> AudioBuffer \<Rightarrow> 's \<Rightarrow> 's \<times> AudioBuffer \<times> int"
  le_process :: "AudioBuffer \<Rightarrow> 's \<Rightarrow> 's"
  split_into_bands :: "AudioBuffer \<Rightarrow> 's \<Rightarrow> 's \<times> AudioBuffer"
  merge_bands :: "AudioBuffer \<Rightarrow> 's \<Rightarrow> 's \<times> AudioBuffer"
  render_split_into_bands :: "AudioBuffer \<Rightarrow> 's \<Rightarrow> 's \<times> AudioBuffer"
  resample_render :: "'s resampler"
  resample_input :: "'s resampler"
  resample_output :: "'s resampler"

record 's AudioProcessingImpl =
  api_format :: ProcessingConfig
  rev_proc_format :: "int \<times> int"
  fwd_proc_rate :: int
  split_rate :: int
  capture_audio :: "AudioBuffer option"
  render_audio :: "AudioBuffer option"
  delay_offset :: int
  stream_delay :: int
  stream_delay_set :: bool
  stream_key_pressed :: bool
  high_pass_filter :: HighPassFilterImpl
  echo_control_mobile :: EchoControlMobileImpl
  others :: 's

definition new_AudioProcessingImpl :: "'s \<Rightarrow> 's AudioProcessingImpl" where
  "new_AudioProcessingImpl s = \<lparr>
     api_format = \<lparr>input_stream = (16000, 1), output_stream = (16000, 1), reverse_input_stream = (16000, 1), reverse_output_stream = (16000, 1)\<rparr>,
     rev_proc_format = (16000, 1), fwd_proc_rate = 16000, split_rate = 16000, capture_audio = None, render_audio = None,
     delay_offset = 0, stream_delay = 0, stream_delay_set = False, stream_key_pressed = False,
     high_pass_filter = new_HighPassFilterImpl, echo_control_mobile = new_EchoControlMobileImpl, others = s\<rparr>"

text \<open>What the submodules see of the module.\<close>

definition view_of :: "'s submodules \<Rightarrow> 's AudioProcessingImpl \<Rightarrow> apm_view" where
  "view_of ops a = \<lparr>num_output_channels = stream_channels (output_stream (api_format a)),
     num_reverse_channels = stream_channels (rev_proc_format a), proc_sample_rate_hz = fwd_proc_rate a, stream_delay_ms = stream_delay a,
     was_stream_delay_set = stream_delay_set a, echo_cancellation_enabled = aec_enabled ops (others a), dcheck_is_on = dchecks ops\<rparr>"

section \<open>Initialisation\<close>

text \<open>First the buffers, then the components that can fail, then the others.\<close>

definition new_buffers :: "'s AudioProcessingImpl \<Rightarrow> 's AudioProcessingImpl" where
  "new_buffers a =
     (let f = api_format a;
          rev_out = (if stream_frames (reverse_output_stream f) = 0 then stream_frames (rev_proc_format a)
                     else stream_frames (reverse_output_stream f))
      in a\<lparr>render_audio := (if stream_channels (reverse_input_stream f) > 0
                then Some (new_AudioBuffer (stream_frames (reverse_input_stream f)) (stream_channels (reverse_input_stream f))
                             (stream_frames (rev_proc_format a)) (stream_channels (rev_proc_format a)) rev_out)
                else None),
            capture_audio := Some (new_AudioBuffer (stream_frames (input_stream f)) (stream_channels (input_stream f))
                               (stream_frames (fwd_proc_rate a, 1)) (stream_channels (output_stream f)) (stream_frames (output_stream f)))\<rparr>)"

definition InitializeLocked :: "'s submodules \<Rightarrow> 's AudioProcessingImpl \<Rightarrow> 's AudioProcessingImpl \<times> int" where
  "InitializeLocked ops a =
     (let a = new_buffers a;
          (s, err) = aec_initialize ops (view_of ops a) (others a); a = a\<lparr>others := s\<rparr>
      in if err \<noteq> kNoError then (a, err)
         else let (c, err) = Initialize (aecm_memory ops) (view_of ops a) (echo_control_mobile a); a = a\<lparr>echo_control_mobile := c\<rparr>
         in if err \<noteq> kNoError then (a, err)
         else let (s, err) = gc_initialize ops (view_of ops a) (others a); a = a\<lparr>others := s\<rparr>
         in if err \<noteq> kNoError then (a, err)
         else let v = view_of ops a;
                  a = a\<lparr>high_pass_filter := HighPass_Initialize (high_pass_filter a) (num_output_channels v) (proc_sample_rate_hz v)\<rparr>
         in (a\<lparr>others := vd_initialize ops (split_rate a) (le_initialize ops (ns_initialize ops v (others a)))\<rparr>, kNoError))"

definition config_streams :: "ProcessingConfig \<Rightarrow> (int \<times> int) list" where
  "config_streams f = [input_stream f, output_stream f, reverse_input_stream f, reverse_output_stream f]"

text \<open>The formats for the processing that follow from those of the interface.\<close>

definition choose_formats :: "ProcessingConfig \<Rightarrow> 's AudioProcessingImpl \<Rightarrow> 's AudioProcessingImpl" where
  "choose_formats config a =
     (let min_proc_rate = min (fst (input_stream config)) (fst (output_stream config));
          fwd = first_rate kNativeSampleRatesHz 0 min_proc_rate;
          fwd = (if enabled (echo_control_mobile a) \<and> min_proc_rate > kMaxAECMSampleRateHz then kMaxAECMSampleRateHz else fwd);
          rev = (if fwd = 8000 then 8000 else if fst (reverse_input_stream config) = 32000 then 32000 else 16000)
      in a\<lparr>api_format := config, fwd_proc_rate := fwd, rev_proc_format := (rev, 1),
           split_rate := (if fwd = 32000 \<or> fwd = 48000 then 16000 else fwd)\<rparr>)"

definition InitializeLocked_config :: "'s submodules \<Rightarrow> ProcessingConfig \<Rightarrow> 's AudioProcessingImpl \<Rightarrow> 's AudioProcessingImpl \<times> int" where
  "InitializeLocked_config ops config a =
     (if list_ex (\<lambda>s. snd s > 0 \<and> fst s \<le> 0) (config_streams config) then (a, kBadSampleRateError)
      else let num_in = snd (input_stream config); num_out = snd (output_stream config)
           in if num_in = 0 \<or> \<not> (num_out = 1 \<or> num_out = num_in) then (a, kBadNumberChannelsError)
              else InitializeLocked ops (choose_formats config a))"

definition MaybeInitialize :: "'s submodules \<Rightarrow> ProcessingConfig \<Rightarrow> 's AudioProcessingImpl \<Rightarrow> 's AudioProcessingImpl \<times> int" where
  "MaybeInitialize ops config a = (if config = api_format a then (a, kNoError) else InitializeLocked_config ops config a)"

definition Create :: "'s submodules \<Rightarrow> 's \<Rightarrow> 's AudioProcessingImpl option" where
  "Create ops s = (let (a, err) = InitializeLocked ops (new_AudioProcessingImpl s) in if err \<noteq> kNoError then None else Some a)"

section \<open>Parameters of the stream\<close>

definition set_stream_delay_ms :: "'s AudioProcessingImpl \<Rightarrow> int \<Rightarrow> 's AudioProcessingImpl \<times> int" where
  "set_stream_delay_ms a delay =
     (let delay = s32 (delay + delay_offset a);
          (delay, retval) = (if delay < 0 then (0, kBadStreamParameterWarning) else (delay, kNoError));
          (delay, retval) = (if delay > 500 then (500, kBadStreamParameterWarning) else (delay, retval))
      in (a\<lparr>stream_delay_set := True, stream_delay := delay\<rparr>, retval))"

definition set_delay_offset_ms :: "'s AudioProcessingImpl \<Rightarrow> int \<Rightarrow> 's AudioProcessingImpl" where
  "set_delay_offset_ms a offset = a\<lparr>delay_offset := offset\<rparr>"

definition set_stream_key_pressed :: "'s AudioProcessingImpl \<Rightarrow> bool \<Rightarrow> 's AudioProcessingImpl" where
  "set_stream_key_pressed a b = a\<lparr>stream_key_pressed := b\<rparr>"

section \<open>What is needed\<close>

definition is_data_processed :: "'s submodules \<Rightarrow> 's AudioProcessingImpl \<Rightarrow> bool" where
  "is_data_processed ops a =
     (let s = others a;
          enabled_count = length (filter (\<lambda>b. b) [aec_enabled ops s, enabled (echo_control_mobile a), gc_enabled ops s,
            hp_enabled (high_pass_filter a), ns_enabled ops s, le_enabled ops s, vd_enabled ops s])
      in if enabled_count = 0 then False
         else if enabled_count = 1 \<and> (le_enabled ops s \<or> vd_enabled ops s) then False
         else if enabled_count = 2 \<and> le_enabled ops s \<and> vd_enabled ops s then False
         else True)"

definition output_copy_needed :: "'s AudioProcessingImpl \<Rightarrow> bool \<Rightarrow> bool" where
  "output_copy_needed a data_processed \<longleftrightarrow> snd (output_stream (api_format a)) \<noteq> snd (input_stream (api_format a)) \<or> data_processed"

definition synthesis_needed :: "'s AudioProcessingImpl \<Rightarrow> bool \<Rightarrow> bool" where
  "synthesis_needed a data_processed \<longleftrightarrow> data_processed \<and> (fwd_proc_rate a = 32000 \<or> fwd_proc_rate a = 48000)"

definition analysis_needed :: "'s submodules \<Rightarrow> 's AudioProcessingImpl \<Rightarrow> bool \<Rightarrow> bool" where
  "analysis_needed ops a data_processed \<longleftrightarrow>
     (data_processed \<or> vd_enabled ops (others a)) \<and> (fwd_proc_rate a = 32000 \<or> fwd_proc_rate a = 48000)"

section \<open>The capture side\<close>

text \<open>The buffer as the mobile echo control reads it.\<close>

definition aecm_buffer :: "AudioBuffer \<Rightarrow> audio_buffer" where
  "aecm_buffer b = \<lparr>low_bands = low_band b, low_pass_references = map (low_pass_reference b) [0..<buffer_channels b],
     num_frames_per_band = num_split_frames b\<rparr>"

definition ReadQueued :: "'s submodules \<Rightarrow> 's AudioProcessingImpl \<Rightarrow> 's AudioProcessingImpl option" where
  "ReadQueued ops a =
     (let a = a\<lparr>others := aec_read_queued ops (view_of ops a) (others a)\<rparr>
      in case ReadQueuedRenderData (view_of ops a) (echo_control_mobile a) of None \<Rightarrow> None
         | Some c \<Rightarrow> let a = a\<lparr>echo_control_mobile := c\<rparr>
                     in Some (a\<lparr>others := gc_read_queued ops (view_of ops a) (others a)\<rparr>))"

text \<open>The stages before the echo control, and those from it on.\<close>

definition capture_front :: "'s submodules \<Rightarrow> AudioBuffer \<Rightarrow> 's AudioProcessingImpl \<Rightarrow> 's AudioProcessingImpl \<times> AudioBuffer \<times> int" where
  "capture_front ops ca a =
     (let (h, bands) = HighPass_ProcessCaptureAudio (high_pass_filter a) (low_band ca);
          a = a\<lparr>high_pass_filter := h\<rparr>; ca = set_low_band bands ca;
          (s, err) = gc_analyze ops (view_of ops a) ca (others a); a = a\<lparr>others := s\<rparr>
      in if err \<noteq> kNoError then (a, ca, err)
         else let a = a\<lparr>others := ns_analyze ops ca (others a)\<rparr>;
                  (s, ca, err) = aec_capture ops (view_of ops a) ca (others a); a = a\<lparr>others := s\<rparr>
         in if err \<noteq> kNoError then (a, ca, err)
         else let ca = (if enabled (echo_control_mobile a) \<and> ns_enabled ops (others a) then CopyLowPassToReference ca else ca);
                  (s, ca) = ns_capture ops ca (others a)
         in (a\<lparr>others := s\<rparr>, ca, kNoError))"

definition capture_back ::
    "'s submodules \<Rightarrow> bool \<Rightarrow> AudioBuffer \<Rightarrow> 's AudioProcessingImpl \<Rightarrow> ('s AudioProcessingImpl \<times> AudioBuffer \<times> int) option" where
  "capture_back ops data_processed ca a =
     (case ProcessCaptureAudio (view_of ops a) (echo_control_mobile a) (aecm_buffer ca) of None \<Rightarrow> None
      | Some (c, audio, err) \<Rightarrow>
          let a = a\<lparr>echo_control_mobile := c\<rparr>; ca = set_low_band (low_bands audio) ca
          in if err \<noteq> kNoError then Some (a, ca, err)
             else let a = a\<lparr>others := vd_capture ops ca (others a)\<rparr>;
                      (s, ca, err) = gc_capture ops (view_of ops a) ca (others a); a = a\<lparr>others := s\<rparr>
             in if err \<noteq> kNoError then Some (a, ca, err)
             else let (s, ca) = (if synthesis_needed a data_processed then merge_bands ops ca (others a) else (others a, ca))
             in Some (a\<lparr>others := le_process ops ca s, stream_delay_set := False\<rparr>, ca, kNoError))"

definition ProcessStreamLocked :: "'s submodules \<Rightarrow> 's AudioProcessingImpl \<Rightarrow> ('s AudioProcessingImpl \<times> int) option" where
  "ProcessStreamLocked ops a =
     (case capture_audio a of None \<Rightarrow> None
      | Some ca \<Rightarrow>
          let data_processed = is_data_processed ops a;
              (s, ca) = (if analysis_needed ops a data_processed then split_into_bands ops ca (others a) else (others a, ca));
              (a, ca, err) = capture_front ops ca (a\<lparr>others := s\<rparr>)
          in if err \<noteq> kNoError then Some (a\<lparr>capture_audio := Some ca\<rparr>, err)
             else (case capture_back ops data_processed ca a of None \<Rightarrow> None
                   | Some (a, ca, err) \<Rightarrow> Some (a\<lparr>capture_audio := Some ca\<rparr>, err)))"

definition is_native_rate :: "int \<Rightarrow> bool" where
  "is_native_rate r \<longleftrightarrow> r = 8000 \<or> r = 16000 \<or> r = 32000 \<or> r = 48000"

definition ProcessStream ::
    "'s submodules \<Rightarrow> AudioFrame \<Rightarrow> 's AudioProcessingImpl \<Rightarrow> ('s AudioProcessingImpl \<times> AudioFrame \<times> int) option" where
  "ProcessStream ops frame a =
     (case ReadQueued ops a of None \<Rightarrow> None
      | Some a \<Rightarrow>
          if \<not> is_native_rate (sample_rate_hz frame) then Some (a, frame, kBadSampleRateError)
          else if enabled (echo_control_mobile a) \<and> sample_rate_hz frame > kMaxAECMSampleRateHz then Some (a, frame, kUnsupportedComponentError)
          else let stream = (sample_rate_hz frame, num_channels frame);
                   (a, err) = MaybeInitialize ops ((api_format a)\<lparr>input_stream := stream, output_stream := stream\<rparr>) a
          in if err \<noteq> kNoError then Some (a, frame, err)
          else if samples_per_channel frame \<noteq> int (stream_frames (input_stream (api_format a))) then Some (a, frame, kBadDataLengthError)
          else (case capture_audio a of None \<Rightarrow> None
                | Some ca \<Rightarrow>
                    let (s, ca) = DeinterleaveFrom (resample_input ops) (others a) frame ca
                    in case ProcessStreamLocked ops (a\<lparr>others := s, capture_audio := Some ca\<rparr>) of None \<Rightarrow> None
                       | Some (a, err) \<Rightarrow>
                           if err \<noteq> kNoError then Some (a, frame, err)
                           else (case capture_audio a of None \<Rightarrow> None
                                 | Some ca \<Rightarrow>
                                     let (s, frame) = InterleaveTo (resample_output ops) (others a) ca frame
                                           (output_copy_needed a (is_data_processed ops a))
                                     in Some (a\<lparr>others := s\<rparr>, frame, kNoError))))"

section \<open>The render side\<close>

definition ProcessReverseStreamLocked :: "'s submodules \<Rightarrow> 's AudioProcessingImpl \<Rightarrow> ('s AudioProcessingImpl \<times> int) option" where
  "ProcessReverseStreamLocked ops a =
     (case render_audio a of None \<Rightarrow> None
      | Some ra \<Rightarrow>
          let (s, ra) = (if fst (rev_proc_format a) = 32000 then render_split_into_bands ops ra (others a) else (others a, ra));
              a = a\<lparr>others := s, render_audio := Some ra\<rparr>;
              (s, err) = aec_render ops (view_of ops a) ra (others a); a = a\<lparr>others := s\<rparr>
          in if err \<noteq> kNoError then Some (a, err)
             else (case ProcessRenderAudio (view_of ops a) (echo_control_mobile a) (aecm_buffer ra) of None \<Rightarrow> None
                   | Some (c, err) \<Rightarrow>
                       let a = a\<lparr>echo_control_mobile := c\<rparr>
                       in if err \<noteq> kNoError then Some (a, err)
                          else let (s, err) = gc_render ops (view_of ops a) ra (others a) in Some (a\<lparr>others := s\<rparr>, err)))"

definition AnalyzeReverseStream :: "'s submodules \<Rightarrow> AudioFrame \<Rightarrow> 's AudioProcessingImpl \<Rightarrow> ('s AudioProcessingImpl \<times> int) option" where
  "AnalyzeReverseStream ops frame a =
     (if \<not> is_native_rate (sample_rate_hz frame) then Some (a, kBadSampleRateError)
      else if sample_rate_hz frame \<noteq> fst (input_stream (api_format a)) then Some (a, kBadSampleRateError)
      else if num_channels frame \<le> 0 then Some (a, kBadNumberChannelsError)
      else let stream = (sample_rate_hz frame, num_channels frame);
               (a, err) = MaybeInitialize ops ((api_format a)\<lparr>reverse_input_stream := stream, reverse_output_stream := stream\<rparr>) a
      in if err \<noteq> kNoError then Some (a, err)
      else if samples_per_channel frame \<noteq> int (stream_frames (reverse_input_stream (api_format a))) then Some (a, kBadDataLengthError)
      else (case render_audio a of None \<Rightarrow> None
            | Some ra \<Rightarrow>
                let (s, ra) = DeinterleaveFrom (resample_render ops) (others a) frame ra
                in ProcessReverseStreamLocked ops (a\<lparr>others := s, render_audio := Some ra\<rparr>)))"

text \<open>Without the intelligibility enhancer the frame is only analysed.\<close>

definition ProcessReverseStream ::
    "'s submodules \<Rightarrow> AudioFrame \<Rightarrow> 's AudioProcessingImpl \<Rightarrow> ('s AudioProcessingImpl \<times> AudioFrame \<times> int) option" where
  "ProcessReverseStream ops frame a =
     (case AnalyzeReverseStream ops frame a of None \<Rightarrow> None | Some (a, err) \<Rightarrow> Some (a, frame, err))"

end
