(* ===== verification/Aecm_Component_Inv.thy ===== *)
theory Aecm_Component_Inv
  imports Aecm_Component Aecm_Api_Inv
begin

text \<open>
  The component around the canceller: the invariant that its creation establishes and every operation keeps, what
  the far end of the handles is after the queue was read, and what happens to a frame that finds the queue full.
\<close>

section \<open>The handles\<close>

definition handles_ok :: "bool \<Rightarrow> AecMobile option list \<Rightarrow> bool" where
  "handles_ok c hs \<longleftrightarrow> list_all (\<lambda>h. h \<noteq> None \<and> inst_ok c (the h)) hs"

lemma handles_ok_nth: "handles_ok c hs \<Longrightarrow> k < length hs \<Longrightarrow> \<exists>m. hs ! k = Some m \<and> inst_ok c m"
  by (force simp: handles_ok_def list_all_length)

lemma handles_ok_update: "handles_ok c hs \<Longrightarrow> inst_ok c m \<Longrightarrow> handles_ok c (hs[k := Some m])"
  by (simp add: handles_ok_def list_all_update)

text \<open>An item of the queue has a frame of 80 or 160 samples for each of \<open>n\<close> handles.\<close>

definition item_ok :: "nat \<Rightarrow> int list \<Rightarrow> bool" where
  "item_ok n item \<longleftrightarrow> length item = n * 80 \<or> length item = n * 160"

lemma buffer_item_ok:
  assumes "handles_ok c hs" "length hs = n" "item_ok n item"
  shows "handles_ok c (buffer_item n item hs) \<and> length (buffer_item n item hs) = n"
proof (cases "n = 0")
  case False
  define d where "d = length item div n"
  have d: "d = 80 \<or> d = 160" "length item = n * d" using assms(3) False by (auto simp: d_def item_ok_def)
  let ?f = "\<lambda>k. take d (drop (d * k) item)"
  have l: "length (?f k) = d" if "k < n" for k
  proof -
    have "Suc k * d \<le> n * d" using that by (intro mult_le_mono1) simp
    then show ?thesis by (simp add: d(2) mult.commute)
  qed
  show ?thesis unfolding buffer_item_def Let_def d_def [symmetric]
  proof (rule fold_keeps [where P = "\<lambda>hs. handles_ok c hs \<and> length hs = n"])
    fix k hs assume k: "k \<in> set [0..<n]" and h: "handles_ok c hs \<and> length hs = n"
    obtain m where m: "hs ! k = Some m" "inst_ok c m" using handles_ok_nth [of c hs k] h k by auto
    obtain m' where "WebRtcAecm_BufferFarend (Some m) (Some (?f k)) d = (Some m', 0)" "inst_ok c m'"
      using buffer_farend_ok [OF m(2), of "?f k"] l [of k] d(1) k by auto
    then show "handles_ok c (hs[k := fst (WebRtcAecm_BufferFarend (hs ! k) (Some (?f k)) d)]) \<and>
        length (hs[k := fst (WebRtcAecm_BufferFarend (hs ! k) (Some (?f k)) d)]) = n"
      using h by (simp add: m(1) handles_ok_update)
  qed (use assms in simp)
qed (use assms in \<open>simp add: buffer_item_def\<close>)

lemma buffer_items_ok:
  assumes "handles_ok c hs" "length hs = n" "list_all (item_ok n) items"
  shows "handles_ok c (fold (buffer_item n) items hs) \<and> length (fold (buffer_item n) items hs) = n"
  by (rule fold_keeps [where P = "\<lambda>hs. handles_ok c hs \<and> length hs = n"]) (use assms buffer_item_ok in \<open>auto simp: list_all_iff\<close>)

section \<open>The queue\<close>

text \<open>Reading the queue hands every item to the handles, in the order in which they were inserted.\<close>

lemma drain_queue_content:
  assumes "swap_inv q"
  shows "\<exists>q' buf'. drain_queue n q buf hs = (q', buf', fold (buffer_item n) (swap_content q) hs) \<and> swap_inv q' \<and>
    swap_content q' = [] \<and> swap_capacity q' = swap_capacity q"
  using assms
proof (induction "swap_content q" arbitrary: q buf hs)
  case Nil
  then have "SwapQueue_Remove q buf = (q, buf, False)" by (simp add: swap.remove_empty)
  then show ?case using Nil by (simp add: drain_queue.simps [of n q])
next
  case (Cons x xs)
  obtain q1 where r: "SwapQueue_Remove q buf = (q1, x, True)" "swap_inv q1" "swap_content q1 = xs" "swap_capacity q1 = swap_capacity q"
    using swap.remove_first [OF Cons.prems Cons.hyps(2) [symmetric], of buf] by blast
  have "drain_queue n q buf hs = drain_queue n q1 x (buffer_item n x hs)" by (simp add: drain_queue.simps [of n q] r(1))
  then show ?case using Cons.hyps(1) [OF r(3) [symmetric] r(2), of x "buffer_item n x hs"] r(3,4)
    by (simp add: Cons.hyps(2) [symmetric])
qed

section \<open>The invariant\<close>

definition comp_ok :: "bool \<Rightarrow> apm_view \<Rightarrow> EchoControlMobileImpl \<Rightarrow> bool" where
  "comp_ok has_clean apm c \<longleftrightarrow> enabled c \<and> initialized c \<and> num_handles c = num_handles_required apm \<and>
     length (handles c) = num_handles_required apm \<and> handles_ok has_clean (handles c) \<and>
     (\<exists>q. render_signal_queue c = Some q \<and> swap_inv q \<and> swap_capacity q = 100 \<and>
        list_all (item_ok (num_handles_required apm)) (swap_content q))"

text \<open>What is in the queue.\<close>

definition queued :: "EchoControlMobileImpl \<Rightarrow> int list list" where
  "queued c = (case render_signal_queue c of None \<Rightarrow> [] | Some q \<Rightarrow> swap_content q)"

lemma queued_length: "comp_ok cl apm c \<Longrightarrow> length (queued c) \<le> 100"
  using swap.bounded by (fastforce simp: comp_ok_def queued_def)

lemma read_queued:
  assumes "comp_ok cl apm c"
  shows "\<exists>c'. ReadQueuedRenderData apm c = Some c' \<and> comp_ok cl apm c' \<and> queued c' = [] \<and>
    handles c' = fold (buffer_item (num_handles_required apm)) (queued c) (handles c) \<and> render_queue_buffer c' = render_queue_buffer c"
proof -
  let ?n = "num_handles_required apm"
  obtain q where q: "render_signal_queue c = Some q" "swap_inv q" "swap_capacity q = 100" "list_all (item_ok ?n) (swap_content q)"
    using assms by (auto simp: comp_ok_def)
  obtain q' buf' where d: "drain_queue ?n q (capture_queue_buffer c) (handles c) = (q', buf', fold (buffer_item ?n) (swap_content q) (handles c))"
    "swap_inv q'" "swap_content q' = []" "swap_capacity q' = swap_capacity q" using drain_queue_content [OF q(2)] by blast
  have "handles_ok cl (fold (buffer_item ?n) (swap_content q) (handles c)) \<and> length (fold (buffer_item ?n) (swap_content q) (handles c)) = ?n"
    using buffer_items_ok [of cl "handles c" ?n "swap_content q"] assms q(4) by (simp add: comp_ok_def)
  then show ?thesis using assms q d by (simp add: ReadQueuedRenderData_def comp_ok_def queued_def)
qed

section \<open>The far end\<close>

definition render_fits :: "apm_view \<Rightarrow> audio_buffer \<Rightarrow> bool" where
  "render_fits apm audio \<longleftrightarrow> length (low_bands audio) = num_reverse_channels apm \<and>
     (num_frames_per_band audio = 80 \<or> num_frames_per_band audio = 160) \<and>
     list_all (\<lambda>b. length b = num_frames_per_band audio) (low_bands audio)"

text \<open>The item of a frame: the bands of the reverse channels, once for each output channel.\<close>

definition frame_item :: "apm_view \<Rightarrow> audio_buffer \<Rightarrow> int list" where
  "frame_item apm audio = concat (map (\<lambda>k. low_bands audio ! (k mod num_reverse_channels apm)) [0..<num_handles_required apm])"

lemma frame_item_ok:
  assumes "render_fits apm audio"
  shows "item_ok (num_handles_required apm) (frame_item apm audio)"
proof -
  let ?n = "num_handles_required apm" and ?f = "num_frames_per_band audio"
  have "length (low_bands audio ! (k mod num_reverse_channels apm)) = ?f" if "k < ?n" for k
  proof -
    have "0 < num_reverse_channels apm" using that by (cases "num_reverse_channels apm") (auto simp: num_handles_required_def)
    then show ?thesis using assms by (simp add: render_fits_def list_all_length)
  qed
  then have "map (length \<circ> (\<lambda>k. low_bands audio ! (k mod num_reverse_channels apm))) [0..<?n] = replicate ?n ?f"
    by (intro nth_equalityI) auto
  then have "length (frame_item apm audio) = ?n * ?f" by (simp add: frame_item_def length_concat o_def sum_list_replicate)
  then show ?thesis using assms by (auto simp: item_ok_def render_fits_def)
qed

lemma collect_render_ok:
  assumes "handles_ok cl (handles c)" "k + n \<le> length (handles c)" "length (handles c) = num_handles_required apm" "render_fits apm audio"
  shows "collect_render apm c audio n k buf =
    (buf @ concat (map (\<lambda>k. low_bands audio ! (k mod num_reverse_channels apm)) [k..<k + n]), kNoError)"
  using assms(2)
proof (induction n arbitrary: k buf)
  case (Suc n)
  let ?b = "low_bands audio ! (k mod num_reverse_channels apm)"
  obtain m where m: "handles c ! k = Some m" "inst_ok cl m" using handles_ok_nth [OF assms(1), of k] Suc.prems by auto
  have "0 < num_reverse_channels apm" using Suc.prems assms(3) by (cases "num_reverse_channels apm") (auto simp: num_handles_required_def)
  then have b: "length ?b = num_frames_per_band audio" using assms(4) by (simp add: render_fits_def list_all_length)
  have "WebRtcAecm_GetBufferFarendError (handles c ! k) (Some ?b) (num_frames_per_band audio) = kNoError"
    using m assms(4) by (auto simp: WebRtcAecm_GetBufferFarendError_def inst_ok_def render_fits_def kNoError_def)
  moreover have "[k..<k + Suc n] = k # [Suc k..<Suc k + n]" using upt_conv_Cons [of k "k + Suc n"] by simp
  ultimately show ?case using Suc.IH [of "Suc k" "buf @ ?b"] Suc.prems b unfolding collect_render.simps Let_def by (simp del: upt_Suc)
qed simp

lemma render_ok:
  assumes "comp_ok cl apm c" "render_fits apm audio"
  shows "\<exists>c'. ProcessRenderAudio apm c audio = Some (c', kNoError) \<and> comp_ok cl apm c' \<and>
    (if length (queued c) < 100 then queued c' = queued c @ [frame_item apm audio] \<and> handles c' = handles c
     else queued c' = (if dcheck_is_on apm then [frame_item apm audio] else []) \<and>
       handles c' = fold (buffer_item (num_handles_required apm)) (queued c) (handles c))"
proof -
  let ?n = "num_handles_required apm" and ?x = "frame_item apm audio"
  have x: "item_ok ?n ?x" using assms(2) by (rule frame_item_ok)
  obtain q where q: "render_signal_queue c = Some q" "swap_inv q" "swap_capacity q = 100" "list_all (item_ok ?n) (swap_content q)"
    and e: "enabled c" using assms(1) by (auto simp: comp_ok_def)
  have g: "queued c = swap_content q" by (simp add: queued_def q(1))
  have r: "collect_render apm c audio ?n 0 [] = (?x, kNoError)"
    using collect_render_ok [of cl c 0 ?n apm audio "[]"] assms by (simp add: comp_ok_def frame_item_def)
  show ?thesis
  proof (cases "length (queued c) < 100")
    case True
    obtain q' y where i: "SwapQueue_Insert q ?x = (q', y, True)" "swap_inv q'" "swap_content q' = swap_content q @ [?x]" "swap_capacity q' = swap_capacity q"
      using swap.insert_room [OF q(2), of ?x] True g q(3) by auto
    then show ?thesis using assms(1) q x True e unfolding g
      by (simp add: ProcessRenderAudio_def r kNoError_def comp_ok_def queued_def)
  next
    case False
    then have "length (swap_content q) = 100" using queued_length [OF assms(1)] g by simp
    then have i: "SwapQueue_Insert q ?x = (q, ?x, False)" using swap.insert_full [OF q(2), of ?x] q(3) by simp
    define c1 where "c1 = c\<lparr>render_signal_queue := Some q, render_queue_buffer := ?x\<rparr>"
    have c1: "comp_ok cl apm c1" "queued c1 = queued c" "handles c1 = handles c" using assms(1) q by (simp_all add: c1_def comp_ok_def queued_def)
    obtain c2 where c2: "ReadQueuedRenderData apm c1 = Some c2" "comp_ok cl apm c2" "queued c2 = []"
      "handles c2 = fold (buffer_item ?n) (queued c) (handles c)" "render_queue_buffer c2 = ?x"
      using read_queued [OF c1(1)] c1(2,3) by (auto simp: c1_def)
    obtain q2 where q2: "render_signal_queue c2 = Some q2" "swap_inv q2" "swap_capacity q2 = 100" "swap_content q2 = []"
      using c2(2,3) by (auto simp: comp_ok_def queued_def)
    obtain q3 y where i2: "SwapQueue_Insert q2 ?x = (q3, y, True)" "swap_inv q3" "swap_content q3 = [?x]" "swap_capacity q3 = 100"
      using swap.insert_room [OF q2(2), of ?x] q2(3,4) by auto
    have p: "ProcessRenderAudio apm c audio = (if \<not> dcheck_is_on apm then Some (c2, kNoError)
        else Some (c2\<lparr>render_signal_queue := Some q3, render_queue_buffer := y\<rparr>, kNoError))"
      using e by (simp add: ProcessRenderAudio_def r kNoError_def q(1) i c1_def [symmetric] c2(1,5) q2(1) i2(1))
    show ?thesis
    proof (cases "dcheck_is_on apm")
      case True
      then show ?thesis using False p c2 i2 x by (auto simp: comp_ok_def queued_def)
    qed (use False p c2 in simp)
  qed
qed

section \<open>The near end\<close>

text \<open>The low-pass references are there for all channels or for none.\<close>

definition capture_fits :: "bool \<Rightarrow> apm_view \<Rightarrow> audio_buffer \<Rightarrow> bool" where
  "capture_fits has_clean apm audio \<longleftrightarrow> length (low_bands audio) = num_output_channels apm \<and>
     length (low_pass_references audio) = num_output_channels apm \<and>
     (num_frames_per_band audio = 80 \<or> num_frames_per_band audio = 160) \<and>
     list_all (\<lambda>b. length b = num_frames_per_band audio) (low_bands audio) \<and>
     list_all (\<lambda>r. case r of None \<Rightarrow> \<not> has_clean | Some b \<Rightarrow> has_clean \<and> length b = num_frames_per_band audio) (low_pass_references audio)"

text \<open>
  What a capture frame is answered: it needs a stream delay, and the first canceller that is given a delay out of range ends the loop
  with a warning, after it has processed its frame with the nearest delay in range.
\<close>

definition delay_in_range :: "apm_view \<Rightarrow> bool" where
  "delay_in_range apm \<longleftrightarrow> 0 \<le> stream_delay_ms apm \<and> stream_delay_ms apm \<le> 500"

definition frame_code :: "apm_view \<Rightarrow> int" where
  "frame_code apm = (if \<not> was_stream_delay_set apm then kStreamParameterNotSetError
     else if num_handles_required apm = 0 \<or> delay_in_range apm then kNoError else kBadStreamParameterWarning)"

lemma capture_loop_ok:
  assumes "handles_ok cl (handles c)" "length (handles c) = num_handles_required apm" "k + n \<le> num_handles_required apm"
    and "capture_fits cl apm audio"
  shows "\<exists>hs audio'. capture_loop apm n k c audio =
      Some (c\<lparr>handles := hs\<rparr>, audio', if n = 0 \<or> delay_in_range apm then kNoError else kBadStreamParameterWarning) \<and> handles_ok cl hs \<and>
    length hs = length (handles c) \<and> capture_fits cl apm audio' \<and> num_frames_per_band audio' = num_frames_per_band audio"
  using assms
proof (induction n arbitrary: k c audio)
  case 0
  then show ?case by (intro exI [of _ "handles c"] exI [of _ audio]) simp
next
  case (Suc n)
  define i f b where "i = k div num_reverse_channels apm" and "f = num_frames_per_band audio" and "b = low_bands audio ! i"
  have "i < num_output_channels apm" using Suc.prems(3) less_mult_imp_div_less [of k] by (simp add: i_def num_handles_required_def)
  then have b: "length b = f" "i < length (low_bands audio)" "f = 80 \<or> f = 160"
      "case low_pass_references audio ! i of None \<Rightarrow> \<not> cl | Some r \<Rightarrow> cl \<and> length r = f"
    using Suc.prems(4) unfolding capture_fits_def list_all_length b_def f_def by (simp_all split: option.splits)
  obtain m where m: "handles c ! k = Some m" "inst_ok cl m" using handles_ok_nth [OF Suc.prems(1), of k] Suc.prems(2,3) by auto
  obtain noisy clean where nc: "(case low_pass_references audio ! i of None \<Rightarrow> (b, None) | Some r \<Rightarrow> (r, Some b)) = (noisy, clean)"
    by (rule prod.exhaust)
  have fit: "call_ok cl (Process_Near noisy clean (stream_delay_ms apm))" "length b = length noisy"
    using nc b by (auto split: option.splits)
  obtain m' out where p: "WebRtcAecm_Process (Some m) (Some noisy) clean (Some b) f (stream_delay_ms apm) =
        Some (Some m', Some out, if delay_in_range apm then 0 else AECM_BAD_PARAMETER_WARNING)"
      "inst_ok cl m'" "length out = f"
    using api_process_ok [OF m(2) fit] fit(2) b(1) by (fastforce simp: delay_in_range_def)
  define c1 audio1 where "c1 = c\<lparr>handles := (handles c)[k := Some m']\<rparr>" and "audio1 = audio\<lparr>low_bands := (low_bands audio)[i := out]\<rparr>"
  have 1: "handles_ok cl (handles c1)" "length (handles c1) = num_handles_required apm" "Suc k + n \<le> num_handles_required apm"
      "capture_fits cl apm audio1"
    using Suc.prems p(2,3) by (simp_all add: c1_def audio1_def handles_ok_update capture_fits_def list_all_update f_def cong: option.case_cong)
  note loop = capture_loop.simps Let_def i_def [symmetric] b_def [symmetric] f_def [symmetric] nc prod.case m(1) p(1) option.case
  show ?case
  proof (cases "delay_in_range apm")
    case True
    then have "capture_loop apm (Suc n) k c audio = capture_loop apm n (Suc k) c1 audio1"
      unfolding loop by (simp add: kNoError_def c1_def audio1_def)
    then show ?thesis using Suc.IH [OF 1] True by (auto simp: c1_def audio1_def)
  next
    case False
    then have "capture_loop apm (Suc n) k c audio = Some (c1, audio1, kBadStreamParameterWarning)"
      unfolding loop by (simp add: kNoError_def c1_def audio1_def AECM_BAD_PARAMETER_WARNING_def MapError_def AECM_NULL_POINTER_ERROR_def AECM_BAD_PARAMETER_ERROR_def AECM_UNSUPPORTED_FUNCTION_ERROR_def)
    then show ?thesis using 1 False by (auto simp: c1_def audio1_def)
  qed
qed

lemma capture_any:
  assumes "comp_ok cl apm c" "capture_fits cl apm audio"
  shows "\<exists>c' audio'. ProcessCaptureAudio apm c audio = Some (c', audio', frame_code apm) \<and> comp_ok cl apm c' \<and> queued c' = queued c \<and>
    capture_fits cl apm audio' \<and> num_frames_per_band audio' = num_frames_per_band audio"
proof (cases "was_stream_delay_set apm")
  case True
  have n: "length (low_bands audio) * num_reverse_channels apm = num_handles_required apm"
    using assms(2) by (simp add: capture_fits_def num_handles_required_def)
  obtain hs audio' where "capture_loop apm (num_handles_required apm) 0 c audio = Some (c\<lparr>handles := hs\<rparr>, audio', frame_code apm)"
    "handles_ok cl hs" "length hs = length (handles c)" "capture_fits cl apm audio'" "num_frames_per_band audio' = num_frames_per_band audio"
    using capture_loop_ok [of cl c apm 0 "num_handles_required apm" audio] assms True by (auto simp: comp_ok_def frame_code_def)
  then show ?thesis using assms(1) True n by (simp add: ProcessCaptureAudio_def comp_ok_def queued_def)
next
  case False
  then show ?thesis using assms by (simp add: ProcessCaptureAudio_def frame_code_def comp_ok_def)
qed

lemma capture_ok:
  assumes "comp_ok cl apm c" "capture_fits cl apm audio" "was_stream_delay_set apm" "0 \<le> stream_delay_ms apm" "stream_delay_ms apm \<le> 500"
  shows "\<exists>c' audio'. ProcessCaptureAudio apm c audio = Some (c', audio', kNoError) \<and> comp_ok cl apm c' \<and> queued c' = queued c \<and>
    capture_fits cl apm audio' \<and> num_frames_per_band audio' = num_frames_per_band audio"
  using capture_any [OF assms(1,2)] assms(3-5) by (simp add: frame_code_def delay_in_range_def)

section \<open>Configuration and creation\<close>

lemma configure_handles_ok:
  assumes "handles_ok cl (handles c)" "i + n \<le> length (handles c)"
  shows "\<exists>hs. configure_handles n i c = (c\<lparr>handles := hs\<rparr>, kNoError) \<and> handles_ok cl hs \<and> length hs = length (handles c)"
  using assms
proof (induction n arbitrary: i c)
  case 0
  then show ?case by (intro exI [of _ "handles c"]) simp
next
  case (Suc n)
  obtain m where m: "handles c ! i = Some m" "inst_ok cl m" using handles_ok_nth [OF Suc.prems(1), of i] Suc.prems(2) by auto
  define config where "config = \<lparr>config_cngMode = (if comfort_noise_enabled c then 1 else 0), config_echoMode = MapSetting (routing_mode c)\<rparr>"
  have "0 \<le> MapSetting (routing_mode c) \<and> MapSetting (routing_mode c) \<le> 4" by (cases "routing_mode c") simp_all
  then have "snd (WebRtcAecm_set_config (Some m) config) = 0"
    using m(2) by (auto simp: WebRtcAecm_set_config_def config_def inst_ok_def AecmTrue_def AecmFalse_def Let_def)
  then obtain m' where s: "WebRtcAecm_set_config (Some m) config = (Some m', 0)" "inst_ok cl m'"
    using set_config_ok [OF m(2), of config] by auto
  define c1 where "c1 = c\<lparr>handles := (handles c)[i := Some m']\<rparr>"
  have 1: "handles_ok cl (handles c1)" "Suc i + n \<le> length (handles c1)" using Suc.prems s(2) by (simp_all add: c1_def handles_ok_update)
  have "configure_handles (Suc n) i c = configure_handles n (Suc i) c1"
    unfolding configure_handles.simps ConfigureHandle_def config_def [symmetric] m(1) s(1) by (simp add: kNoError_def c1_def)
  then show ?case using Suc.IH [OF 1] by (auto simp: c1_def)
qed

lemma configure_ok:
  assumes "comp_ok cl apm c"
  shows "\<exists>c'. Configure c = (c', kNoError) \<and> comp_ok cl apm c' \<and> queued c' = queued c"
  using configure_handles_ok [of cl c 0 "num_handles c"] assms by (auto simp: Configure_def comp_ok_def queued_def)

lemma set_routing_mode_ok:
  assumes "comp_ok cl apm c"
  shows "\<exists>c'. set_routing_mode c mode = (c', kNoError) \<and> comp_ok cl apm c' \<and> queued c' = queued c"
proof -
  have "MapSetting mode \<noteq> - 1" by (cases mode) simp_all
  moreover have "comp_ok cl apm (c\<lparr>routing_mode := mode\<rparr>)" "queued (c\<lparr>routing_mode := mode\<rparr>) = queued c"
    using assms by (simp_all add: comp_ok_def queued_def)
  ultimately show ?thesis using configure_ok [of cl apm "c\<lparr>routing_mode := mode\<rparr>"] by (simp add: set_routing_mode_def)
qed

lemma enable_comfort_noise_ok:
  assumes "comp_ok cl apm c"
  shows "\<exists>c'. enable_comfort_noise c b = (c', kNoError) \<and> comp_ok cl apm c' \<and> queued c' = queued c"
proof -
  have "comp_ok cl apm (c\<lparr>comfort_noise_enabled := b\<rparr>)" "queued (c\<lparr>comfort_noise_enabled := b\<rparr>) = queued c"
    using assms by (simp_all add: comp_ok_def queued_def)
  then show ?thesis using configure_ok [of cl apm "c\<lparr>comfort_noise_enabled := b\<rparr>"] by (simp add: enable_comfort_noise_def)
qed

text \<open>The creation of the handles from \<open>i\<close> on; those before it are done.\<close>

lemma initialize_handles_ok:
  assumes "initialize_handles mem apm n i c = (c', kNoError)" and "i + n = length (handles c)"
    and "handles_ok cl (take i (handles c))" "\<forall>k \<ge> i. k < i + n \<longrightarrow> handles c ! k = None" "external_echo_path c = None"
    and "\<forall>k. inst_memory (snd (mem k))"
  shows "\<exists>hs. c' = c\<lparr>handles := hs\<rparr> \<and> handles_ok cl hs \<and> length hs = length (handles c)"
  using assms(1-5)
proof (induction n arbitrary: i c)
  case 0
  then show ?case by (intro exI [of _ "handles c"]) simp
next
  case (Suc n)
  have none: "handles c ! i = None" using Suc.prems(4) by simp
  then obtain m0 where m0: "CreateHandle mem i = Some m0" using Suc.prems(1)
    by (auto simp: kCreationFailedError_def kNoError_def split: option.splits)
  obtain h r where h: "WebRtcAecm_Init (Some m0) (proc_sample_rate_hz apm) = (h, r)" by (rule prod.exhaust)
  obtain m where m: "h = Some m" using h by (auto simp: WebRtcAecm_Init_def WebRtcAecm_set_config_def Let_def split: if_splits prod.splits)
  have r: "r = 0" using Suc.prems(1,5) m0 none h
    by (auto simp: InitializeHandle_def Let_def kNoError_def kUnspecifiedError_def split: if_splits)
  have "inst_ok cl m" by (rule init_inst(1) [OF m0 [unfolded CreateHandle_def] _ h [unfolded m r]]) (use assms(6) in simp)
  define c1 where "c1 = c\<lparr>handles := (handles c)[i := Some m]\<rparr>"
  have t: "take (Suc i) (handles c1) = take i (handles c) @ [Some m]"
    using Suc.prems(2) by (simp add: c1_def take_Suc_conv_app_nth)
  have 1: "Suc i + n = length (handles c1)" "handles_ok cl (take (Suc i) (handles c1))"
      "\<forall>k \<ge> Suc i. k < Suc i + n \<longrightarrow> handles c1 ! k = None" "external_echo_path c1 = None"
    using Suc.prems(2-5) \<open>inst_ok cl m\<close> unfolding t by (simp_all add: c1_def handles_ok_def)
  have "initialize_handles mem apm (Suc n) i c = initialize_handles mem apm n (Suc i) c1"
    using m0 none h m r Suc.prems(5) by (simp add: InitializeHandle_def Let_def c1_def)
  then show ?case using Suc.IH [OF _ 1] Suc.prems(1) by (auto simp: c1_def)
qed

lemma enable_ok:
  assumes "Enable mem apm new_EchoControlMobileImpl True = (c, kNoError)" and "\<forall>k. inst_memory (snd (mem k))"
  shows "comp_ok cl apm c \<and> queued c = []"
proof -
  let ?n = "num_handles_required apm"
  define c0 where "c0 = new_EchoControlMobileImpl\<lparr>enabled := True, num_handles := ?n, handles := replicate ?n None\<rparr>"
  obtain c1 e1 where i: "initialize_handles mem apm ?n 0 c0 = (c1, e1)" by (rule prod.exhaust)
  obtain c2 e2 where f: "Configure (c1\<lparr>initialized := True\<rparr>) = (c2, e2)" by (rule prod.exhaust)
  have c: "e1 = kNoError" "e2 = kNoError" "c = AllocateRenderQueue apm c2"
    using assms(1) i f unfolding Enable_def EnableComponent_def Initialize_def ProcessingComponent_Initialize_def
    by (auto simp: new_EchoControlMobileImpl_def c0_def kNoError_def kBadParameterError_def kBadSampleRateError_def Let_def split: if_splits prod.splits)
  obtain hs where hs: "c1 = c0\<lparr>handles := hs\<rparr>" "handles_ok cl hs" "length hs = ?n"
    using initialize_handles_ok [OF i [unfolded c(1)], of cl] assms(2) by (auto simp: c0_def handles_ok_def new_EchoControlMobileImpl_def)
  obtain hs' where hs': "c2 = (c1\<lparr>initialized := True\<rparr>)\<lparr>handles := hs'\<rparr>" "handles_ok cl hs'" "length hs' = ?n"
    using configure_handles_ok [of cl "c1\<lparr>initialized := True\<rparr>" 0 ?n] f hs by (auto simp: Configure_def c0_def)
  have "swap_inv (SwapQueue_new 100 x)" "swap_content (SwapQueue_new 100 x) = []" "swap_capacity (SwapQueue_new 100 x) = 100" for x :: "int list"
    by (simp_all add: SwapQueue_new_def swap_inv_def swap_content_def swap_capacity_def)
  then show ?thesis using hs' hs(1) unfolding c(3)
    by (simp add: AllocateRenderQueue_def c0_def new_EchoControlMobileImpl_def comp_ok_def queued_def kMaxNumFramesToBuffer_def Let_def)
qed

section \<open>Each canceller gets its channel\<close>

lemma fold_update_nth:
  fixes n :: nat
  assumes "length hs = n" "k < n"
  shows "fold (\<lambda>k hs. hs[k := f k (hs ! k)]) [0..<n] hs ! k = f k (hs ! k)"
proof -
  have l: "length (fold (\<lambda>k hs. hs[k := f k (hs ! k)]) [0..<j] hs) = length hs" for j by (induction j) simp_all
  have "j \<le> n \<Longrightarrow> fold (\<lambda>k hs. hs[k := f k (hs ! k)]) [0..<j] hs ! k = (if k < j then f k (hs ! k) else hs ! k)" for j
    by (induction j) (use assms l in \<open>auto simp: nth_list_update\<close>)
  from this [of n] assms(2) show ?thesis by simp
qed

lemma concat_chunk:
  assumes "list_all (\<lambda>x. length x = d) xs" "k < length xs"
  shows "take d (drop (d * k) (concat xs)) = xs ! k"
  using assms
proof (induction xs arbitrary: k)
  case (Cons x xs)
  then show ?case by (cases k) simp_all
qed simp

lemma buffer_item_nth:
  assumes "length hs = num_handles_required apm" "k < num_handles_required apm" "render_fits apm audio"
  shows "buffer_item (num_handles_required apm) (frame_item apm audio) hs ! k =
    fst (WebRtcAecm_BufferFarend (hs ! k) (Some (low_bands audio ! (k mod num_reverse_channels apm))) (num_frames_per_band audio))"
proof -
  let ?n = "num_handles_required apm" and ?d = "num_frames_per_band audio"
  let ?xs = "map (\<lambda>k. low_bands audio ! (k mod num_reverse_channels apm)) [0..<?n]"
  have r: "0 < num_reverse_channels apm" using assms(2) by (cases "num_reverse_channels apm") (auto simp: num_handles_required_def)
  have xs: "list_all (\<lambda>x. length x = ?d) ?xs" using assms(3) r by (simp add: list_all_length render_fits_def)
  then have "map length ?xs = replicate ?n ?d" by (intro nth_equalityI) (simp_all add: list_all_length)
  then have "length (frame_item apm audio) div ?n = ?d"
    using assms(2) by (simp add: frame_item_def length_concat sum_list_replicate del: map_map)
  moreover have "take ?d (drop (?d * k) (frame_item apm audio)) = low_bands audio ! (k mod num_reverse_channels apm)"
    using concat_chunk [OF xs, of k] assms(2) by (simp add: frame_item_def)
  ultimately show ?thesis
    using fold_update_nth [OF assms(1,2), of "\<lambda>k h. fst (WebRtcAecm_BufferFarend h (Some (take ?d (drop (?d * k) (frame_item apm audio)))) ?d)"]
    unfolding buffer_item_def Let_def by simp
qed

lemma buffer_items_nth:
  assumes "length hs = num_handles_required apm" "k < num_handles_required apm" "list_all (render_fits apm) frames"
  shows "fold (buffer_item (num_handles_required apm)) (map (frame_item apm) frames) hs ! k =
    fold (\<lambda>audio h. fst (WebRtcAecm_BufferFarend h (Some (low_bands audio ! (k mod num_reverse_channels apm))) (num_frames_per_band audio)))
      frames (hs ! k)"
  using assms(1,3)
proof (induction frames arbitrary: hs)
  case (Cons x frames)
  have "length (buffer_item (num_handles_required apm) (frame_item apm x) hs) = num_handles_required apm"
    unfolding buffer_item_def Let_def
    by (rule fold_keeps [where P = "\<lambda>hs. length hs = num_handles_required apm"]) (simp_all add: Cons.prems(1))
  then show ?case using Cons buffer_item_nth [OF Cons.prems(1) assms(2), of x] by simp
qed simp

section \<open>Properties\<close>

datatype component_call =
    Render audio_buffer
  | Read_Queued
  | Capture audio_buffer
  | Set_Routing RoutingMode
  | Comfort_Noise bool
  | Stream_Parameter bool int

definition component_step :: "apm_view \<Rightarrow> EchoControlMobileImpl \<Rightarrow> component_call \<Rightarrow> (EchoControlMobileImpl \<times> int) option" where
  "component_step apm c call =
     (case call of
        Render audio \<Rightarrow> ProcessRenderAudio apm c audio
      | Read_Queued \<Rightarrow> map_option (\<lambda>c. (c, kNoError)) (ReadQueuedRenderData apm c)
      | Capture audio \<Rightarrow> map_option (\<lambda>(c, audio, err). (c, err)) (ProcessCaptureAudio apm c audio)
      | Set_Routing mode \<Rightarrow> Some (set_routing_mode c mode)
      | Comfort_Noise b \<Rightarrow> Some (enable_comfort_noise c b)
      | Stream_Parameter b d \<Rightarrow> Some (c, kNoError))"

text \<open>The module the component is part of may change the stream delay between the calls, or take it back.\<close>

fun next_view :: "apm_view \<Rightarrow> component_call \<Rightarrow> apm_view" where
  "next_view apm (Stream_Parameter b d) = apm\<lparr>was_stream_delay_set := b, stream_delay_ms := d\<rparr>"
| "next_view apm _ = apm"

fun run_component :: "apm_view \<Rightarrow> EchoControlMobileImpl \<Rightarrow> component_call list \<Rightarrow> (EchoControlMobileImpl \<times> int list) option" where
  "run_component apm c [] = Some (c, [])"
| "run_component apm c (x # xs) =
     (case component_step apm c x of None \<Rightarrow> None
      | Some (c, r) \<Rightarrow> (case run_component (next_view apm x) c xs of None \<Rightarrow> None | Some (c, rs) \<Rightarrow> Some (c, r # rs)))"

fun component_call_fits :: "bool \<Rightarrow> apm_view \<Rightarrow> component_call \<Rightarrow> bool" where
  "component_call_fits cl apm (Render audio) = render_fits apm audio"
| "component_call_fits cl apm (Capture audio) = capture_fits cl apm audio"
| "component_call_fits cl apm _ = True"

text \<open>The codes of a sequence of calls: only capture frames are answered with other codes than that of success.\<close>

fun component_codes :: "apm_view \<Rightarrow> component_call list \<Rightarrow> int list" where
  "component_codes apm [] = []"
| "component_codes apm (Capture audio # xs) = frame_code apm # component_codes apm xs"
| "component_codes apm (x # xs) = kNoError # component_codes (next_view apm x) xs"

lemma next_view_same:
  "num_output_channels (next_view apm x) = num_output_channels apm" "num_reverse_channels (next_view apm x) = num_reverse_channels apm"
  by (cases x; simp)+

lemma next_view_fits: "component_call_fits cl (next_view apm x) y = component_call_fits cl apm y"
  by (cases y) (simp_all add: render_fits_def capture_fits_def next_view_same)

lemma comp_ok_view: "num_handles_required v = num_handles_required w \<Longrightarrow> comp_ok cl v c = comp_ok cl w c"
  by (simp add: comp_ok_def)

lemma next_view_ok: "comp_ok cl (next_view apm x) c = comp_ok cl apm c"
  by (rule comp_ok_view) (simp add: num_handles_required_def next_view_same)

lemma component_step_ok:
  assumes "comp_ok cl apm c" "component_call_fits cl apm call"
  shows "\<exists>c'. component_step apm c call = Some (c', hd (component_codes apm [call])) \<and> comp_ok cl apm c'"
proof (cases call)
  case (Render audio)
  then show ?thesis using render_ok [OF assms(1), of audio] assms(2) by (auto simp: component_step_def)
next
  case Read_Queued
  then show ?thesis using read_queued [OF assms(1)] by (auto simp: component_step_def)
next
  case (Capture audio)
  then show ?thesis using capture_any [OF assms(1), of audio] assms(2) by (auto simp: component_step_def)
next
  case (Set_Routing mode)
  then show ?thesis using set_routing_mode_ok [OF assms(1), of mode] by (auto simp: component_step_def)
next
  case (Comfort_Noise b)
  then show ?thesis using enable_comfort_noise_ok [OF assms(1), of b] by (auto simp: component_step_def)
next
  case (Stream_Parameter b d)
  then show ?thesis using assms(1) by (simp add: component_step_def)
qed

lemma component_codes_Cons: "component_codes apm (x # xs) = hd (component_codes apm [x]) # component_codes (next_view apm x) xs"
  by (cases x) simp_all

lemma run_component_ok:
  assumes "comp_ok cl apm c" "list_all (component_call_fits cl apm) calls"
  shows "\<exists>c'. run_component apm c calls = Some (c', component_codes apm calls) \<and> comp_ok cl apm c'"
  using assms
proof (induction calls arbitrary: apm c)
  case (Cons x calls)
  obtain c1 where "component_step apm c x = Some (c1, hd (component_codes apm [x]))" "comp_ok cl apm c1"
    using component_step_ok [OF Cons.prems(1), of x] Cons.prems(2) by auto
  then show ?case using Cons.IH [of "next_view apm x" c1] Cons.prems(2)
    unfolding component_codes_Cons [of apm x calls] by (auto simp: next_view_ok next_view_fits simp del: component_codes.simps)
qed simp

text \<open>Frames that find room in the queue.\<close>

lemma run_render:
  assumes "comp_ok cl apm c" "length (queued c) + length frames \<le> 100" "list_all (render_fits apm) frames"
  shows "\<exists>c'. run_component apm c (map Render frames) = Some (c', replicate (length frames) kNoError) \<and> comp_ok cl apm c' \<and>
    queued c' = queued c @ map (frame_item apm) frames \<and> handles c' = handles c"
  using assms
proof (induction frames arbitrary: c)
  case (Cons x frames)
  obtain c1 where "component_step apm c (Render x) = Some (c1, kNoError)" "comp_ok cl apm c1" "queued c1 = queued c @ [frame_item apm x]"
      "handles c1 = handles c"
    using render_ok [OF Cons.prems(1), of x] Cons.prems(2,3) by (auto simp: component_step_def)
  then show ?case using Cons.IH [of c1] Cons.prems(2,3) by auto
qed simp

text \<open>An environment with two output channels and one reverse channel, and memory that is always there.\<close>

definition stereo_apm :: apm_view where
  "stereo_apm = \<lparr>num_output_channels = 2, num_reverse_channels = 1, proc_sample_rate_hz = 16000, stream_delay_ms = 40,
     was_stream_delay_set = True, echo_cancellation_enabled = False, dcheck_is_on = False\<rparr>"

definition all_memory :: memory where "all_memory = (\<lambda>_. (\<lambda>_. True, blank_instance))"

text \<open>With memory that is always there, the component can be switched on for two cancellers.\<close>

lemma two_enabled:
  assumes v: "num_handles_required v = 2" "proc_sample_rate_hz v = 16000" "\<not> echo_cancellation_enabled v"
  obtains c where "Enable all_memory v new_EchoControlMobileImpl True = (c, kNoError)"
proof -
  obtain m0 m where m: "WebRtcAecm_Create (\<lambda>_. True) blank_instance = Some m0" "inst_memory blank_instance"
    "WebRtcAecm_Init (Some m0) 16000 = (Some m, 0)" using instance_exists [of 16000] by auto
  define c0 where "c0 = new_EchoControlMobileImpl\<lparr>enabled := True, num_handles := 2, handles := [None, None]\<rparr>"
  have h: "CreateHandle all_memory i = Some m0" "InitializeHandle v None m0 = (Some m, kNoError)" for i
    using m v(2) by (simp_all add: CreateHandle_def all_memory_def InitializeHandle_def)
  have i: "initialize_handles all_memory v 2 0 c0 = (c0\<lparr>handles := [Some m, Some m]\<rparr>, kNoError)"
    using h by (simp add: numeral_2_eq_2 c0_def new_EchoControlMobileImpl_def)
  have "handles_ok False [Some m, Some m]" using init_inst(1) [OF m] by (simp add: handles_ok_def)
  then obtain c2 where f: "Configure (c0\<lparr>handles := [Some m, Some m], initialized := True\<rparr>) = (c2, kNoError)"
    using configure_handles_ok [of False "c0\<lparr>handles := [Some m, Some m], initialized := True\<rparr>" 0 2]
    by (auto simp: Configure_def c0_def)
  have n: "replicate 2 None = [None, None :: AecMobile option]" by (simp add: numeral_2_eq_2)
  have "Enable all_memory v new_EchoControlMobileImpl True = (AllocateRenderQueue v c2, kNoError)"
    using i f n v unfolding Enable_def EnableComponent_def Initialize_def ProcessingComponent_Initialize_def
    by (simp add: c0_def new_EchoControlMobileImpl_def Let_def)
  then show ?thesis using that by blast
qed

lemma all_memory_ok: "\<forall>k. inst_memory (snd (all_memory k))"
  using instance_exists [of 16000] by (auto simp: all_memory_def)

lemma stereo_enabled:
  obtains c where "Enable all_memory stereo_apm new_EchoControlMobileImpl True = (c, kNoError)" "\<forall>k. inst_memory (snd (all_memory k))"
proof -
  have v: "num_handles_required stereo_apm = 2" "proc_sample_rate_hz stereo_apm = 16000" "\<not> echo_cancellation_enabled stereo_apm"
    by (simp_all add: num_handles_required_def stereo_apm_def)
  obtain c where "Enable all_memory stereo_apm new_EchoControlMobileImpl True = (c, kNoError)" by (rule two_enabled [OF v])
  then show ?thesis using that all_memory_ok by blast
qed

text \<open>
  C4. Once the component has been switched on, it takes every sequence of render frames, capture frames, reads of the queue, routing
  modes, settings of the comfort noise and changes of the stream delay by the module, as long as either all capture frames or none
  come with a copy from before the noise suppression. No canceller is missing or leaves an array, at most 100 frames wait in the queue, and the codes are those
  of the stream delay: a capture frame without one is refused, one whose delay is not between 0 and 500 ms is answered with a warning, and
  every other call succeeds.
\<close>

theorem mobile_component_run:
  assumes "Enable mem apm new_EchoControlMobileImpl True = (c, kNoError)" and "\<forall>k. inst_memory (snd (mem k))"
    and "list_all (component_call_fits has_clean apm) calls"
  shows "\<exists>c'. run_component apm c calls = Some (c', component_codes apm calls) \<and> enabled c' \<and>
    length (handles c') = num_output_channels apm * num_reverse_channels apm \<and> None \<notin> set (handles c') \<and> length (queued c') \<le> 100"
proof -
  obtain c' where "run_component apm c calls = Some (c', component_codes apm calls)" "comp_ok has_clean apm c'"
    using run_component_ok [OF conjunct1 [OF enable_ok [OF assms(1,2)]] assms(3)] by blast
  then show ?thesis using queued_length [of has_clean apm c']
    by (auto simp: comp_ok_def handles_ok_def list_all_iff num_handles_required_def)
qed

lemma mobile_component_run_witness:
  "\<exists>c c'. Enable all_memory stereo_apm new_EchoControlMobileImpl True = (c, kNoError) \<and>
     run_component stereo_apm c [Render \<lparr>low_bands = [replicate 160 3], low_pass_references = [None], num_frames_per_band = 160\<rparr>, Read_Queued,
         Set_Routing kEarpiece, Capture \<lparr>low_bands = [replicate 160 1, replicate 160 2], low_pass_references = [None, None], num_frames_per_band = 160\<rparr>,
         Stream_Parameter True 700, Capture \<lparr>low_bands = [replicate 160 1, replicate 160 2], low_pass_references = [None, None], num_frames_per_band = 160\<rparr>,
         Stream_Parameter False 0, Capture \<lparr>low_bands = [replicate 160 1, replicate 160 2], low_pass_references = [None, None], num_frames_per_band = 160\<rparr>]
       = Some (c', [0, 0, 0, 0, 0, - 13, 0, - 11])"
proof -
  let ?frame = "Capture \<lparr>low_bands = [replicate 160 1, replicate 160 2], low_pass_references = [None, None], num_frames_per_band = 160\<rparr>"
  let ?calls = "[Render \<lparr>low_bands = [replicate 160 3], low_pass_references = [None], num_frames_per_band = 160\<rparr>, Read_Queued, Set_Routing kEarpiece, ?frame,
     Stream_Parameter True 700, ?frame, Stream_Parameter False 0, ?frame]"
  obtain c where c: "Enable all_memory stereo_apm new_EchoControlMobileImpl True = (c, kNoError)" "\<forall>k. inst_memory (snd (all_memory k))"
    by (rule stereo_enabled)
  have fits: "list_all (component_call_fits False stereo_apm) ?calls"
    by (simp add: stereo_apm_def render_fits_def capture_fits_def numeral_eq_Suc)
  have "component_codes stereo_apm ?calls = [0, 0, 0, 0, 0, - 13, 0, - 11]"
    by (simp add: stereo_apm_def frame_code_def delay_in_range_def num_handles_required_def kNoError_def kBadStreamParameterWarning_def
        kStreamParameterNotSetError_def)
  then show ?thesis using mobile_component_run [OF c fits] c(1) by auto
qed

text \<open>
  C5. Up to 100 render frames may wait in the queue: when it is read, each canceller is as if its reverse channel of
  each frame had been handed to it directly, in the order of the frames.
\<close>

theorem queued_frames_arrive:
  assumes "comp_ok has_clean apm c" "queued c = []" "length frames \<le> 100" "list_all (render_fits apm) frames"
  shows "\<exists>c1 c2. run_component apm c (map Render frames) = Some (c1, replicate (length frames) kNoError) \<and> handles c1 = handles c \<and>
    ReadQueuedRenderData apm c1 = Some c2 \<and> queued c2 = [] \<and>
    (\<forall>k < num_handles_required apm. handles c2 ! k =
       fold (\<lambda>audio h. fst (WebRtcAecm_BufferFarend h (Some (low_bands audio ! (k mod num_reverse_channels apm))) (num_frames_per_band audio)))
         frames (handles c ! k))"
proof -
  obtain c1 where c1: "run_component apm c (map Render frames) = Some (c1, replicate (length frames) kNoError)" "comp_ok has_clean apm c1"
      "queued c1 = map (frame_item apm) frames" "handles c1 = handles c"
    using run_render [OF assms(1) _ assms(4)] assms(2,3) by auto
  obtain c2 where "ReadQueuedRenderData apm c1 = Some c2" "queued c2 = []"
      "handles c2 = fold (buffer_item (num_handles_required apm)) (queued c1) (handles c1)"
    using read_queued [OF c1(2)] by blast
  moreover have "length (handles c) = num_handles_required apm" using assms(1) by (simp add: comp_ok_def)
  ultimately show ?thesis using c1 buffer_items_nth [OF _ _ assms(4)] by auto
qed

lemma queued_frames_arrive_witness:
  "\<exists>c c1 c2. Enable all_memory stereo_apm new_EchoControlMobileImpl True = (c, kNoError) \<and>
     run_component stereo_apm c (map Render (replicate 100 \<lparr>low_bands = [replicate 160 3], low_pass_references = [None], num_frames_per_band = 160\<rparr>)) =
       Some (c1, replicate 100 kNoError) \<and> ReadQueuedRenderData stereo_apm c1 = Some c2 \<and> queued c2 = []"
proof -
  obtain c where c: "Enable all_memory stereo_apm new_EchoControlMobileImpl True = (c, kNoError)" "\<forall>k. inst_memory (snd (all_memory k))"
    by (rule stereo_enabled)
  show ?thesis
    using queued_frames_arrive [OF conjunct1 [OF enable_ok [OF c, of False]] conjunct2 [OF enable_ok [OF c, of False]],
      of "replicate 100 \<lparr>low_bands = [replicate 160 3], low_pass_references = [None], num_frames_per_band = 160\<rparr>"] c(1)
    by (auto simp: list_all_length render_fits_def stereo_apm_def)
qed

text \<open>
  C10. A render frame that finds the queue full empties it into the cancellers. In a build without debug checks the
  frame itself is lost, although the call reports no error, because the second attempt to insert it stands inside the check.
\<close>

theorem render_frame_lost:
  assumes "comp_ok has_clean apm c" "length (queued c) = 100" "render_fits apm audio"
  shows "\<exists>c'. ProcessRenderAudio apm c audio = Some (c', kNoError) \<and>
    handles c' = fold (buffer_item (num_handles_required apm)) (queued c) (handles c) \<and>
    queued c' = (if dcheck_is_on apm then [frame_item apm audio] else [])"
  using render_ok [OF assms(1,3)] assms(2) by auto

lemma render_frame_lost_witness:
  "\<exists>c c'. length (queued c) = 100 \<and>
     ProcessRenderAudio stereo_apm c \<lparr>low_bands = [replicate 160 7], low_pass_references = [None], num_frames_per_band = 160\<rparr> =
       Some (c', kNoError) \<and> queued c' = []"
proof -
  obtain c where c: "Enable all_memory stereo_apm new_EchoControlMobileImpl True = (c, kNoError)" "\<forall>k. inst_memory (snd (all_memory k))"
    by (rule stereo_enabled)
  note c = conjunct1 [OF enable_ok [OF c, of False]] conjunct2 [OF enable_ok [OF c, of False]]
  obtain c1 where "comp_ok False stereo_apm c1" "length (queued c1) = 100"
    using run_render [OF c(1), of "replicate 100 \<lparr>low_bands = [replicate 160 3], low_pass_references = [None], num_frames_per_band = 160\<rparr>"] c(2)
    by (auto simp: list_all_length render_fits_def stereo_apm_def)
  then show ?thesis
    using render_frame_lost [of False stereo_apm c1 "\<lparr>low_bands = [replicate 160 7], low_pass_references = [None], num_frames_per_band = 160\<rparr>"]
    by (auto simp: render_fits_def stereo_apm_def)
qed

end
