(* ===== verification/Audio_Processing_Inv.thy ===== *)
theory Audio_Processing_Inv
  imports Audio_Processing Aecm_Component_Inv
begin

text \<open>
  The audio processing module with frames of 8 or 16 kHz: the formats it chooses, what it remembers of an initialisation that
  failed, and the codes it answers with for any sequence of calls, with the mobile echo control on.
\<close>

section \<open>Formats\<close>

lemma first_rate_in: "first_rate xs r m = r \<or> first_rate xs r m \<in> set xs"
  by (induction xs r m rule: first_rate.induct) auto

lemma native_rate:
  "first_rate kNativeSampleRatesHz 0 m = (if m \<le> 8000 then 8000 else if m \<le> 16000 then 16000 else if m \<le> 32000 then 32000 else 48000)"
  by (auto simp: kNativeSampleRatesHz_def)

text \<open>The loop finds the lowest native rate that is not below its bound.\<close>

lemma lowest_rate:
  "first_rate kNativeSampleRatesHz 0 m = (if m \<le> 48000 then Min {x \<in> set kNativeSampleRatesHz. m \<le> x} else 48000)"
proof -
  have "Min {x \<in> set kNativeSampleRatesHz. m \<le> x} = first_rate kNativeSampleRatesHz 0 m" if "m \<le> 48000"
    by (rule Min_eqI) (use that in \<open>auto simp: native_rate kNativeSampleRatesHz_def\<close>)
  then show ?thesis by (auto simp: native_rate)
qed

definition format_ok :: "ProcessingConfig \<Rightarrow> bool" where
  "format_ok config \<longleftrightarrow> \<not> list_ex (\<lambda>s. snd s > 0 \<and> fst s \<le> 0) (config_streams config) \<and> snd (input_stream config) \<noteq> 0 \<and>
     (snd (output_stream config) = 1 \<or> snd (output_stream config) = snd (input_stream config))"

lemma initialize_format_ok: "format_ok config \<Longrightarrow> InitializeLocked_config ops config a = InitializeLocked ops (choose_formats config a)"
  by (auto simp: InitializeLocked_config_def format_ok_def Let_def)

lemma InitializeLocked_keeps:
  "api_format (fst (InitializeLocked ops a)) = api_format a" "fwd_proc_rate (fst (InitializeLocked ops a)) = fwd_proc_rate a"
  "rev_proc_format (fst (InitializeLocked ops a)) = rev_proc_format a" "split_rate (fst (InitializeLocked ops a)) = split_rate a"
  by (simp_all add: InitializeLocked_def new_buffers_def Let_def split_def)

section \<open>Buffers\<close>

definition buffer_ok :: "nat \<Rightarrow> nat \<Rightarrow> nat \<Rightarrow> AudioBuffer \<Rightarrow> bool" where
  "buffer_ok n in_channels channels b \<longleftrightarrow> input_num_frames b = n \<and> proc_num_frames b = n \<and> output_num_frames b = n \<and>
     num_input_channels b = in_channels \<and> num_proc_channels b = channels \<and> buffer_channels b = channels \<and> num_bands b = 1 \<and>
     num_split_frames b = n \<and> length (full_band b) = channels \<and> list_all (\<lambda>x. length x = n) (full_band b)"

text \<open>Stages may change the samples of a buffer, not its shape.\<close>

definition same_shape :: "AudioBuffer \<Rightarrow> AudioBuffer \<Rightarrow> bool" where
  "same_shape b b' \<longleftrightarrow> b' = b\<lparr>full_band := full_band b'\<rparr> \<and> map length (full_band b') = map length (full_band b)"

lemma same_shape_refl [simp]: "same_shape b b" by (simp add: same_shape_def)

lemma list_all_lengths: "list_all (\<lambda>x. length x = n) xs \<longleftrightarrow> map length xs = replicate (length xs) n"
  by (induction xs) auto

lemma same_shape_ok: "buffer_ok n i c b \<Longrightarrow> same_shape b b' \<Longrightarrow> buffer_ok n i c b'"
proof -
  assume b: "buffer_ok n i c b" and "same_shape b b'"
  then obtain x where "b' = b\<lparr>full_band := x\<rparr>" "map length x = map length (full_band b)" by (metis same_shape_def)
  moreover have "length x = length (full_band b)" using calculation(2) by (metis length_map)
  ultimately show "buffer_ok n i c b'" using b by (simp add: buffer_ok_def list_all_lengths)
qed

lemma same_shape_reference:
  assumes "same_shape b b'"
  shows "reference_copied b' = reference_copied b" "low_pass_reference_channels b' = low_pass_reference_channels b"
proof -
  obtain x where "b' = b\<lparr>full_band := x\<rparr>" using assms by (metis same_shape_def)
  then show "reference_copied b' = reference_copied b" "low_pass_reference_channels b' = low_pass_reference_channels b" by simp_all
qed

lemma low_band_ok: "buffer_ok n i c b \<Longrightarrow> low_band b = full_band b" "buffer_ok n i c b \<Longrightarrow> set_low_band x b = b\<lparr>full_band := x\<rparr>"
  by (simp_all add: buffer_ok_def low_band_def set_low_band_def)

lemma new_buffer_ok: "n = 80 \<or> n = 160 \<Longrightarrow> buffer_ok n i c (new_AudioBuffer n i n c n)"
  by (auto simp: new_AudioBuffer_def buffer_ok_def NumBandsFromSamplesPerChannel_def list_all_length)

lemma deinterleave_ok:
  assumes "buffer_ok n i c b"
  shows "\<exists>b'. DeinterleaveFrom f s frame b = (s, b') \<and> buffer_ok n i c b' \<and> \<not> reference_copied b'"
  using assms by (auto simp: DeinterleaveFrom_def InitForNewData_def Let_def buffer_ok_def Deinterleave_def DownmixInterleavedToMono_def list_all_length)

lemma copy_reference_ok:
  assumes "buffer_ok n i c b"
  shows "buffer_ok n i c (CopyLowPassToReference b)"
    "\<exists>refs. low_pass_reference_channels (CopyLowPassToReference b) = Some refs \<and> length refs = c \<and> list_all (\<lambda>x. length x = n) refs"
  using assms by (simp_all add: CopyLowPassToReference_def buffer_ok_def low_band_def list_all_length)

lemma interleave_ok:
  assumes "buffer_ok n i c b" "num_channels frame = int c"
  shows "\<exists>frame'. InterleaveTo f s b frame changed = (s, frame') \<and> samples_per_channel frame' = samples_per_channel frame \<and>
    num_channels frame' = num_channels frame \<and> sample_rate_hz frame' = sample_rate_hz frame \<and> length (frame_data frame') = length (frame_data frame)"
  using assms by (auto simp: InterleaveTo_def buffer_ok_def)

lemma high_pass_ok:
  assumes "length (filters h) = length bands"
  shows "length (filters (fst (HighPass_ProcessCaptureAudio h bands))) = length bands"
    "map length (snd (HighPass_ProcessCaptureAudio h bands)) = map length bands"
proof -
  show "length (filters (fst (HighPass_ProcessCaptureAudio h bands))) = length bands"
    using assms by (simp add: HighPass_ProcessCaptureAudio_def Let_def)
  show "map length (snd (HighPass_ProcessCaptureAudio h bands)) = map length bands"
    using assms by (auto simp: HighPass_ProcessCaptureAudio_def Let_def Biquad_Process_def intro: nth_equalityI)
qed

section \<open>The other submodules\<close>

text \<open>
  What the theorems ask of the submodules that are parameters. While they process, the stages keep the shape of the buffer, the noise
  suppression stays on or off (\<open>cl\<close>), and the codes they report are in \<open>E\<close>: \<open>UNIV\<close> when they may fail as they like.
\<close>

definition silent_stage :: "int set \<Rightarrow> 's submodules \<Rightarrow> bool \<Rightarrow> ('s \<Rightarrow> 's \<times> int) \<Rightarrow> bool" where
  "silent_stage E ops cl f \<longleftrightarrow> (\<forall>s. ns_enabled ops s = cl \<longrightarrow> ns_enabled ops (fst (f s)) = cl \<and> snd (f s) \<in> E)"

definition audio_stage :: "int set \<Rightarrow> 's submodules \<Rightarrow> bool \<Rightarrow> (AudioBuffer \<Rightarrow> 's \<Rightarrow> 's \<times> AudioBuffer \<times> int) \<Rightarrow> bool" where
  "audio_stage E ops cl f \<longleftrightarrow> (\<forall>b s. ns_enabled ops s = cl \<longrightarrow>
     ns_enabled ops (fst (f b s)) = cl \<and> same_shape b (fst (snd (f b s))) \<and> snd (snd (f b s)) \<in> E)"

abbreviation no_error :: "int set" where "no_error \<equiv> {kNoError}"

definition submodules_may :: "int set \<Rightarrow> 's submodules \<Rightarrow> bool \<Rightarrow> bool" where
  "submodules_may E ops cl \<longleftrightarrow> kNoError \<in> E \<and>
     (\<forall>v. silent_stage no_error ops cl (\<lambda>s. (aec_read_queued ops v s, kNoError)) \<and>
        silent_stage no_error ops cl (\<lambda>s. (gc_read_queued ops v s, kNoError)) \<and>
        audio_stage E ops cl (aec_capture ops v) \<and> audio_stage E ops cl (gc_capture ops v)) \<and>
     (\<forall>v b. silent_stage E ops cl (aec_render ops v b) \<and> silent_stage E ops cl (gc_render ops v b) \<and> silent_stage E ops cl (gc_analyze ops v b)) \<and>
     (\<forall>b. silent_stage no_error ops cl (\<lambda>s. (ns_analyze ops b s, kNoError)) \<and> silent_stage no_error ops cl (\<lambda>s. (vd_capture ops b s, kNoError)) \<and>
        silent_stage no_error ops cl (\<lambda>s. (le_process ops b s, kNoError))) \<and>
     audio_stage no_error ops cl (\<lambda>b s. let (s, b) = ns_capture ops b s in (s, b, kNoError)) \<and> (\<forall>k. inst_memory (snd (aecm_memory ops k)))"

text \<open>
  Their initialisation succeeds in the states of \<open>I\<close>, which it does not leave: those that nothing is switched on in, for instance, where
  \<^verbatim>\<open>ProcessingComponent::Initialize\<close> returns before it does anything.
\<close>

definition submodules_start :: "('s \<Rightarrow> bool) \<Rightarrow> 's submodules \<Rightarrow> bool \<Rightarrow> bool" where
  "submodules_start I ops cl \<longleftrightarrow> (\<forall>s. I s \<longrightarrow> ns_enabled ops s = cl \<and>
     (\<forall>v. I (fst (aec_initialize ops v s)) \<and> snd (aec_initialize ops v s) = kNoError \<and>
        I (fst (gc_initialize ops v s)) \<and> snd (gc_initialize ops v s) = kNoError \<and> I (ns_initialize ops v s)) \<and>
     I (le_initialize ops s) \<and> (\<forall>r. I (vd_initialize ops r s)))"

text \<open>Submodules that never report an error, neither while they process nor when they are initialised.\<close>

definition submodules_ok :: "'s submodules \<Rightarrow> bool \<Rightarrow> bool" where
  "submodules_ok ops cl \<longleftrightarrow> submodules_may no_error ops cl \<and> submodules_start (\<lambda>s. ns_enabled ops s = cl) ops cl"

lemma silent_stageE:
  assumes "silent_stage E ops cl f" "ns_enabled ops s = cl"
  obtains s' r where "f s = (s', r)" "r \<in> E" "ns_enabled ops s' = cl"
  using assms unfolding silent_stage_def by (metis prod.collapse)

lemma audio_stageE:
  assumes "audio_stage E ops cl f" "ns_enabled ops s = cl"
  obtains s' b' r where "f b s = (s', b', r)" "r \<in> E" "ns_enabled ops s' = cl" "same_shape b b'"
  using assms unfolding audio_stage_def by (metis prod.collapse)

section \<open>The mobile echo control in the module\<close>

definition aecm_ok :: "bool \<Rightarrow> bool \<Rightarrow> apm_view \<Rightarrow> EchoControlMobileImpl \<Rightarrow> bool" where
  "aecm_ok on cl v c \<longleftrightarrow> enabled c = on \<and> (on \<longrightarrow> comp_ok cl v c)"

lemma aecm_ok_view: "num_handles_required v = num_handles_required w \<Longrightarrow> aecm_ok on cl v c = aecm_ok on cl w c"
  by (simp add: aecm_ok_def comp_ok_view [of v w])

lemma aecm_read:
  assumes "aecm_ok on cl v c"
  obtains c' where "ReadQueuedRenderData v c = Some c'" "aecm_ok on cl v c'"
proof (cases on)
  case True
  then obtain c' where "ReadQueuedRenderData v c = Some c'" "comp_ok cl v c'" using assms read_queued [of cl v c] by (auto simp: aecm_ok_def)
  then show ?thesis using that True by (simp add: aecm_ok_def comp_ok_def)
qed (use assms that [of c] in \<open>simp add: ReadQueuedRenderData_def aecm_ok_def\<close>)

lemma aecm_render:
  assumes "aecm_ok on cl v c" "render_fits v audio"
  obtains c' where "ProcessRenderAudio v c audio = Some (c', kNoError)" "aecm_ok on cl v c'"
proof (cases on)
  case True
  then obtain c' where "ProcessRenderAudio v c audio = Some (c', kNoError)" "comp_ok cl v c'"
    using assms render_ok [of cl v c audio] by (auto simp: aecm_ok_def)
  then show ?thesis using that True by (simp add: aecm_ok_def comp_ok_def)
qed (use assms that [of c] in \<open>simp add: ProcessRenderAudio_def aecm_ok_def\<close>)

lemma capture_fits_lengths:
  assumes "capture_fits cl v audio" "capture_fits cl v audio'" "num_frames_per_band audio' = num_frames_per_band audio"
  shows "map length (low_bands audio') = map length (low_bands audio)"
  using assms unfolding capture_fits_def list_all_lengths by simp

lemma aecm_capture:
  assumes "aecm_ok on cl v c" "on \<longrightarrow> capture_fits cl v audio" "0 \<le> stream_delay_ms v" "stream_delay_ms v \<le> 500"
  obtains (Processed) c' audio' where "was_stream_delay_set v \<or> \<not> on" "ProcessCaptureAudio v c audio = Some (c', audio', kNoError)"
      "aecm_ok on cl v c'" "map length (low_bands audio') = map length (low_bands audio)"
    | (No_delay) "on" "\<not> was_stream_delay_set v" "ProcessCaptureAudio v c audio = Some (c, audio, kStreamParameterNotSetError)"
proof (cases on)
  case True
  note on = True
  show ?thesis
  proof (cases "was_stream_delay_set v")
    case True
    then obtain c' audio' where p: "ProcessCaptureAudio v c audio = Some (c', audio', kNoError)" "comp_ok cl v c'" "capture_fits cl v audio'"
        "num_frames_per_band audio' = num_frames_per_band audio"
      using capture_ok [of cl v c audio] assms on by (auto simp: aecm_ok_def)
    have "map length (low_bands audio') = map length (low_bands audio)"
      using capture_fits_lengths [OF _ p(3,4)] assms(2) on by simp
    then show ?thesis using Processed [of c' audio'] True on p(1,2) by (simp add: aecm_ok_def comp_ok_def)
  next
    case False
    then show ?thesis using No_delay on assms(1) by (simp add: ProcessCaptureAudio_def aecm_ok_def)
  qed
next
  case False
  then show ?thesis using Processed [of c audio] assms(1) by (simp add: ProcessCaptureAudio_def aecm_ok_def)
qed

section \<open>The invariant\<close>

definition stream_format :: "int \<Rightarrow> nat \<Rightarrow> nat \<Rightarrow> ProcessingConfig" where
  "stream_format rate c r = \<lparr>input_stream = (rate, int c), output_stream = (rate, int c),
     reverse_input_stream = (rate, int r), reverse_output_stream = (rate, int r)\<rparr>"

definition rate_frames :: "int \<Rightarrow> nat" where "rate_frames rate = (if rate = 8000 then 80 else 160)"

definition apm_core :: "'s submodules \<Rightarrow> bool \<Rightarrow> bool \<Rightarrow> int \<Rightarrow> nat \<Rightarrow> nat \<Rightarrow> 's AudioProcessingImpl \<Rightarrow> bool" where
  "apm_core ops on cl rate c r a \<longleftrightarrow> (rate = 8000 \<or> rate = 16000) \<and> 0 < c \<and> 0 < r \<and> api_format a = stream_format rate c r \<and>
     rev_proc_format a = (rate, 1) \<and> fwd_proc_rate a = rate \<and> 0 \<le> stream_delay a \<and> stream_delay a \<le> 500 \<and>
     length (filters (high_pass_filter a)) = c \<and> ns_enabled ops (others a) = cl \<and> aecm_ok on cl (view_of ops a) (echo_control_mobile a)"

definition apm_ok :: "'s submodules \<Rightarrow> bool \<Rightarrow> bool \<Rightarrow> int \<Rightarrow> nat \<Rightarrow> nat \<Rightarrow> 's AudioProcessingImpl \<Rightarrow> bool" where
  "apm_ok ops on cl rate c r a \<longleftrightarrow> apm_core ops on cl rate c r a \<and>
     (\<exists>b. capture_audio a = Some b \<and> buffer_ok (rate_frames rate) c c b) \<and> (\<exists>b. render_audio a = Some b \<and> buffer_ok (rate_frames rate) r 1 b)"

text \<open>What the two paths do not change of each other.\<close>

definition params :: "'s AudioProcessingImpl \<Rightarrow> AudioBuffer option \<times> bool \<times> int" where
  "params a = (render_audio a, stream_delay_set a, delay_offset a)"

lemma rate_frames_ok: "rate_frames rate = 80 \<or> rate_frames rate = 160" by (simp add: rate_frames_def)

lemma stream_frames_rate: "rate = 8000 \<or> rate = 16000 \<Longrightarrow> stream_frames (rate, k) = rate_frames rate"
  by (auto simp: stream_frames_def rate_frames_def kChunkSizeMs_def cdiv_def)

lemma core_cong:
  assumes "apm_core ops on cl rate c r a" "api_format b = api_format a" "rev_proc_format b = rev_proc_format a"
    and "fwd_proc_rate b = fwd_proc_rate a" "length (filters (high_pass_filter b)) = c" "ns_enabled ops (others b) = cl"
    and "echo_control_mobile b = echo_control_mobile a" "0 \<le> stream_delay b" "stream_delay b \<le> 500"
  shows "apm_core ops on cl rate c r b"
proof -
  have "aecm_ok on cl (view_of ops b) (echo_control_mobile b) = aecm_ok on cl (view_of ops a) (echo_control_mobile a)"
    unfolding assms(7) by (rule aecm_ok_view) (simp add: assms(2,3) num_handles_required_def view_of_def)
  then show ?thesis using assms unfolding apm_core_def by simp
qed

lemma core_others:
  assumes "apm_core ops on cl rate c r a" "ns_enabled ops s = cl"
  shows "apm_core ops on cl rate c r (a\<lparr>others := s\<rparr>)"
  by (rule core_cong [OF assms(1)]) (use assms in \<open>simp_all add: apm_core_def\<close>)

lemma core_same: "apm_core ops on cl rate c r (a\<lparr>capture_audio := x\<rparr>) = apm_core ops on cl rate c r a"
  "apm_core ops on cl rate c r (a\<lparr>render_audio := x\<rparr>) = apm_core ops on cl rate c r a"
  "apm_core ops on cl rate c r (a\<lparr>delay_offset := d\<rparr>) = apm_core ops on cl rate c r a"
  "apm_core ops on cl rate c r (a\<lparr>stream_key_pressed := k\<rparr>) = apm_core ops on cl rate c r a"
  by (simp_all add: apm_core_def view_of_def)

lemma core_delay:
  assumes "apm_core ops on cl rate c r a"
  shows "0 \<le> d \<Longrightarrow> d \<le> 500 \<Longrightarrow> apm_core ops on cl rate c r (a\<lparr>stream_delay_set := b, stream_delay := d\<rparr>)"
    "apm_core ops on cl rate c r (a\<lparr>stream_delay_set := b\<rparr>)"
  by (rule core_cong [OF assms]; use assms in \<open>simp add: apm_core_def\<close>)+

lemma core_aecm:
  assumes "apm_core ops on cl rate c r a" "aecm_ok on cl (view_of ops a) e"
  shows "apm_core ops on cl rate c r (a\<lparr>echo_control_mobile := e\<rparr>)"
  using assms by (simp add: apm_core_def view_of_def)

lemma core_high_pass:
  assumes "apm_core ops on cl rate c r a" "length (filters h) = c"
  shows "apm_core ops on cl rate c r (a\<lparr>high_pass_filter := h\<rparr>)"
  by (rule core_cong [OF assms(1)]) (use assms in \<open>simp_all add: apm_core_def\<close>)

section \<open>The capture side\<close>

text \<open>The copy of the low band that the noise suppression leaves for the mobile echo control.\<close>

definition copy_ok :: "bool \<Rightarrow> bool \<Rightarrow> nat \<Rightarrow> nat \<Rightarrow> AudioBuffer \<Rightarrow> bool" where
  "copy_ok on cl n c ca \<longleftrightarrow> (on \<longrightarrow>
     (if cl then reference_copied ca \<and> (\<exists>refs. low_pass_reference_channels ca = Some refs \<and> length refs = c \<and> list_all (\<lambda>x. length x = n) refs)
      else \<not> reference_copied ca))"

lemma copy_ok_shape: "copy_ok on cl n c ca \<Longrightarrow> same_shape ca ca' \<Longrightarrow> copy_ok on cl n c ca'"
  by (simp add: copy_ok_def same_shape_reference)

lemma shape_ok: "buffer_ok n c c ca \<and> \<not> reference_copied ca \<Longrightarrow> same_shape ca ca' \<Longrightarrow> buffer_ok n c c ca' \<and> \<not> reference_copied ca'"
  using same_shape_ok same_shape_reference by blast

lemma noise_stage_ok:
  assumes ops: "submodules_may E ops cl" and a: "apm_core ops on cl rate c r a" and ca: "buffer_ok n c c ca \<and> \<not> reference_copied ca"
  defines "cb \<equiv> if enabled (echo_control_mobile a) \<and> ns_enabled ops (others a) then CopyLowPassToReference ca else ca"
  obtains s ca' where "ns_capture ops cb (others a) = (s, ca')" "ns_enabled ops s = cl" "buffer_ok n c c ca'" "copy_ok on cl n c ca'"
proof -
  have on: "enabled (echo_control_mobile a) = on" "ns_enabled ops (others a) = cl" using a by (simp_all add: apm_core_def aecm_ok_def)
  have cb: "buffer_ok n c c cb" "copy_ok on cl n c cb"
    using on ca copy_reference_ok [of n c c ca] by (auto simp: cb_def copy_ok_def CopyLowPassToReference_def)
  obtain s ca' where "ns_capture ops cb (others a) = (s, ca')" "ns_enabled ops s = cl" "same_shape cb ca'"
    by (rule audio_stageE [of no_error ops cl "\<lambda>b s. let (s, b) = ns_capture ops b s in (s, b, kNoError)" "others a" cb])
      (use ops on(2) in \<open>auto simp: submodules_may_def split: prod.splits\<close>)
  then show ?thesis using that cb same_shape_ok copy_ok_shape by blast
qed

lemma capture_front_ok:
  assumes ops: "submodules_may E ops cl" and a: "apm_core ops on cl rate c r a" and ca: "buffer_ok n c c ca" "\<not> reference_copied ca"
  shows "\<exists>a' ca' code. capture_front ops ca a = (a', ca', code) \<and> code \<in> E \<and> apm_core ops on cl rate c r a' \<and> params a' = params a \<and>
    buffer_ok n c c ca' \<and> (code = kNoError \<longrightarrow> copy_ok on cl n c ca')"
proof -
  obtain h bands where h: "HighPass_ProcessCaptureAudio (high_pass_filter a) (low_band ca) = (h, bands)" by (rule prod.exhaust)
  have f: "length (filters (high_pass_filter a)) = length (low_band ca)" using a ca(1) by (simp add: apm_core_def low_band_def buffer_ok_def)
  have h': "length (filters h) = c" "map length bands = map length (full_band ca)"
    using high_pass_ok [OF f] h ca(1) by (simp_all add: low_band_def buffer_ok_def)
  define a1 ca1 where "a1 = a\<lparr>high_pass_filter := h\<rparr>" and "ca1 = set_low_band bands ca"
  have a1: "apm_core ops on cl rate c r a1" "params a1 = params a" using core_high_pass [OF a h'(1)] by (simp_all add: a1_def params_def)
  have "same_shape ca ca1" using h'(2) ca(1) by (simp add: ca1_def low_band_ok same_shape_def)
  then have ca1: "buffer_ok n c c ca1 \<and> \<not> reference_copied ca1" using shape_ok ca by blast
  obtain s2 r2 where s2: "gc_analyze ops (view_of ops a1) ca1 (others a1) = (s2, r2)" "r2 \<in> E" "ns_enabled ops s2 = cl"
    by (rule silent_stageE [of E ops cl "gc_analyze ops (view_of ops a1) ca1" "others a1"]) (use ops a1 in \<open>simp_all add: submodules_may_def apm_core_def\<close>)
  define a2 where "a2 = a1\<lparr>others := s2\<rparr>"
  have a2: "apm_core ops on cl rate c r a2" "params a2 = params a" using core_others [OF a1(1) s2(3)] a1(2) by (simp_all add: a2_def params_def)
  note front = capture_front_def h Let_def prod.case a1_def [symmetric] ca1_def [symmetric] s2(1) a2_def [symmetric]
  show ?thesis
  proof (cases "r2 = kNoError")
    case False
    then have "capture_front ops ca a = (a2, ca1, r2)" unfolding front by simp
    then show ?thesis using False s2(2) a2 ca1 by blast
  next
    case True
    obtain s3 where s3: "ns_analyze ops ca1 s2 = s3" "ns_enabled ops s3 = cl"
      using ops s2(3) by (auto simp: submodules_may_def silent_stage_def)
    define a3 where "a3 = a1\<lparr>others := s3\<rparr>"
    have a3: "apm_core ops on cl rate c r a3" "params a3 = params a" using core_others [OF a1(1) s3(2)] a1(2) by (simp_all add: a3_def params_def)
    obtain s4 ca4 r4 where s4: "aec_capture ops (view_of ops a3) ca1 (others a3) = (s4, ca4, r4)" "r4 \<in> E" "ns_enabled ops s4 = cl" "same_shape ca1 ca4"
      by (rule audio_stageE [of E ops cl "aec_capture ops (view_of ops a3)" "others a3" ca1]) (use ops a3 in \<open>simp_all add: submodules_may_def apm_core_def\<close>)
    define a4 where "a4 = a3\<lparr>others := s4\<rparr>"
    have a4: "apm_core ops on cl rate c r a4" "params a4 = params a" using core_others [OF a3(1) s4(3)] a3(2) by (simp_all add: a4_def params_def)
    have ca4: "buffer_ok n c c ca4 \<and> \<not> reference_copied ca4" using shape_ok [OF ca1 s4(4)] .
    have a3_eq: "a2\<lparr>others := ns_analyze ops ca1 (others a2)\<rparr> = a3" by (simp add: a2_def a3_def s3(1))
    note front = front a3_eq s4(1) a4_def [symmetric]
    show ?thesis
    proof (cases "r4 = kNoError")
      case False
      then have "capture_front ops ca a = (a4, ca4, r4)" using True unfolding front by simp
      then show ?thesis using False s4(2) a4 ca4 by blast
    next
      case r4: True
      obtain s6 ca6 where s6: "ns_capture ops (if enabled (echo_control_mobile a4) \<and> ns_enabled ops (others a4) then CopyLowPassToReference ca4 else ca4)
          (others a4) = (s6, ca6)" "ns_enabled ops s6 = cl" "buffer_ok n c c ca6" "copy_ok on cl n c ca6"
        by (rule noise_stage_ok [OF ops a4(1) ca4])
      have "capture_front ops ca a = (a4\<lparr>others := s6\<rparr>, ca6, kNoError)" using True r4 s6(1) unfolding front by simp
      moreover have "apm_core ops on cl rate c r (a4\<lparr>others := s6\<rparr>)" "params (a4\<lparr>others := s6\<rparr>) = params a"
        using core_others [OF a4(1) s6(2)] a4(2) by (simp_all add: params_def)
      ultimately show ?thesis using s6(3,4) ops by (auto simp: submodules_may_def)
    qed
  qed
qed

text \<open>Whether the stream delay is missing decides what the echo control answers.\<close>

definition delay_missing :: "bool \<Rightarrow> 's AudioProcessingImpl \<Rightarrow> bool" where
  "delay_missing on a \<longleftrightarrow> on \<and> \<not> stream_delay_set a"

definition capture_code :: "bool \<Rightarrow> 's AudioProcessingImpl \<Rightarrow> int" where
  "capture_code on a = (if delay_missing on a then kStreamParameterNotSetError else kNoError)"

text \<open>
  Success takes the stream delay back. The answer is the one that the delay decides, unless another submodule fails before it or after it:
  then it is the code of that submodule, and the delay stays.
\<close>

definition capture_params :: "bool \<Rightarrow> 's AudioProcessingImpl \<Rightarrow> AudioBuffer option \<times> bool \<times> int" where
  "capture_params on a = (render_audio a, False, delay_offset a)"

definition capture_answer :: "int set \<Rightarrow> bool \<Rightarrow> 's AudioProcessingImpl \<Rightarrow> int \<Rightarrow> 's AudioProcessingImpl \<Rightarrow> bool" where
  "capture_answer E on a code a' \<longleftrightarrow> code = capture_code on a \<and> params a' = capture_params on a \<or>
     code \<in> E \<and> code \<noteq> kNoError \<and> params a' = params a"

lemma capture_answer_cong: "params a1 = params a \<Longrightarrow> params b1 = params b \<Longrightarrow> capture_answer E on a1 code b1 = capture_answer E on a code b"
  by (auto simp: capture_answer_def capture_code_def delay_missing_def capture_params_def params_def)

lemma capture_answer_no_error:
  "capture_answer no_error on a code a' \<longleftrightarrow> code = capture_code on a \<and> params a' = capture_params on a"
  by (auto simp: capture_answer_def)

lemma aecm_buffer_fits:
  assumes "buffer_ok n c c ca" "n = 80 \<or> n = 160" "num_output_channels v = c" "copy_ok True cl n c ca"
  shows "capture_fits cl v (aecm_buffer ca)"
  using assms by (auto simp: copy_ok_def capture_fits_def aecm_buffer_def buffer_ok_def low_band_def low_pass_reference_def list_all_length split: if_splits)

lemma capture_back_ok:
  assumes ops: "submodules_may E ops cl" and a: "apm_core ops on cl rate c r a" and ca: "buffer_ok n c c ca" "n = 80 \<or> n = 160"
    and ref: "copy_ok on cl n c ca"
  shows "\<exists>a' ca' code. capture_back ops data_processed ca a = Some (a', ca', code) \<and> capture_answer E on a code a' \<and>
    apm_core ops on cl rate c r a' \<and> buffer_ok n c c ca'"
proof -
  let ?v = "view_of ops a"
  have v: "num_output_channels ?v = c" "0 \<le> stream_delay_ms ?v" "stream_delay_ms ?v \<le> 500" "was_stream_delay_set ?v = stream_delay_set a"
    "aecm_ok on cl ?v (echo_control_mobile a)" "fwd_proc_rate a = rate" "rate = 8000 \<or> rate = 16000"
    using a by (auto simp: apm_core_def view_of_def stream_format_def stream_channels_def)
  have fit: "on \<longrightarrow> capture_fits cl ?v (aecm_buffer ca)" using aecm_buffer_fits [OF ca v(1)] ref by (cases on) simp_all
  show ?thesis
  proof (rule aecm_capture [OF v(5) fit v(2,3)])
    fix e audio
    assume Processed: "was_stream_delay_set ?v \<or> \<not> on" "ProcessCaptureAudio ?v (echo_control_mobile a) (aecm_buffer ca) = Some (e, audio, kNoError)"
      "aecm_ok on cl ?v e" "map length (low_bands audio) = map length (low_bands (aecm_buffer ca))"
    define a1 ca1 where "a1 = a\<lparr>echo_control_mobile := e\<rparr>" and "ca1 = set_low_band (low_bands audio) ca"
    have a1: "apm_core ops on cl rate c r a1" "params a1 = params a" using core_aecm [OF a Processed(3)] by (simp_all add: a1_def params_def)
    have "map length (low_bands audio) = map length (full_band ca)" using Processed(4) ca(1) by (simp add: aecm_buffer_def low_band_def buffer_ok_def)
    then have ca1: "buffer_ok n c c ca1" using same_shape_ok [OF ca(1), of ca1] by (simp add: ca1_def low_band_ok [OF ca(1)] same_shape_def)
    obtain s2 where s2: "vd_capture ops ca1 (others a1) = s2" "ns_enabled ops s2 = cl"
      using ops a1(1) by (auto simp: submodules_may_def silent_stage_def apm_core_def)
    define a2 where "a2 = a1\<lparr>others := s2\<rparr>"
    have a2: "apm_core ops on cl rate c r a2" "params a2 = params a" using core_others [OF a1(1) s2(2)] a1(2) by (simp_all add: a2_def params_def)
    obtain s3 ca3 r3 where s3: "gc_capture ops (view_of ops a2) ca1 (others a2) = (s3, ca3, r3)" "r3 \<in> E" "ns_enabled ops s3 = cl" "same_shape ca1 ca3"
      by (rule audio_stageE [of E ops cl "gc_capture ops (view_of ops a2)" "others a2" ca1]) (use ops a2 in \<open>simp_all add: submodules_may_def apm_core_def\<close>)
    define a3 where "a3 = a2\<lparr>others := s3\<rparr>"
    have a3: "apm_core ops on cl rate c r a3" "params a3 = params a" using core_others [OF a2(1) s3(3)] a2(2) by (simp_all add: a3_def params_def)
    have ca3: "buffer_ok n c c ca3" using same_shape_ok [OF ca1 s3(4)] .
    note tail = capture_back_def Processed(2) option.case prod.case Let_def a1_def [symmetric] ca1_def [symmetric] s2(1) a2_def [symmetric] s3(1)
      a3_def [symmetric]
    show ?thesis
    proof (cases "r3 = kNoError")
      case False
      then have "capture_back ops data_processed ca a = Some (a3, ca3, r3)" unfolding tail by simp
      then show ?thesis using False s3(2) a3 ca3 by (auto simp: capture_answer_def)
    next
      case True
      have "fwd_proc_rate a3 = rate" using a3(1) by (simp add: apm_core_def)
      then have syn: "\<not> synthesis_needed a3 data_processed" using v(7) by (auto simp: synthesis_needed_def)
      obtain s4 where s4: "le_process ops ca3 (others a3) = s4" "ns_enabled ops s4 = cl"
        using ops a3(1) by (auto simp: submodules_may_def silent_stage_def apm_core_def)
      define a4 where "a4 = a3\<lparr>others := s4, stream_delay_set := False\<rparr>"
      have a4: "apm_core ops on cl rate c r a4" "params a4 = capture_params on a"
        using core_delay(2) [OF core_others [OF a3(1) s4(2)], of False] a3(2) by (simp_all add: a4_def params_def capture_params_def)
      have "capture_back ops data_processed ca a = Some (a4, ca3, kNoError)" using True syn s4(1) unfolding tail by (simp add: a4_def)
      moreover have "capture_code on a = kNoError" using Processed(1) v(4) by (auto simp: capture_code_def delay_missing_def)
      ultimately show ?thesis using a4 ca3 by (auto simp: capture_answer_def)
    qed
  next
    assume No_delay: "on" "\<not> was_stream_delay_set ?v"
      "ProcessCaptureAudio ?v (echo_control_mobile a) (aecm_buffer ca) = Some (echo_control_mobile a, aecm_buffer ca, kStreamParameterNotSetError)"
    have "capture_back ops data_processed ca a = Some (a\<lparr>echo_control_mobile := echo_control_mobile a\<rparr>, set_low_band (low_bands (aecm_buffer ca)) ca, kStreamParameterNotSetError)"
      unfolding capture_back_def No_delay(3) by (simp add: kStreamParameterNotSetError_def kNoError_def Let_def)
    moreover have "set_low_band (low_bands (aecm_buffer ca)) ca = ca" using ca(1) by (simp add: aecm_buffer_def low_band_def set_low_band_def)
    ultimately show ?thesis using No_delay a ca v(4)
      by (auto simp: capture_answer_def capture_code_def delay_missing_def capture_params_def params_def)
  qed
qed

lemma process_locked_ok:
  assumes ops: "submodules_may E ops cl" and a: "apm_core ops on cl rate c r a" and ca: "capture_audio a = Some ca" "buffer_ok (rate_frames rate) c c ca" "\<not> reference_copied ca"
  shows "\<exists>a' ca' code. ProcessStreamLocked ops a = Some (a', code) \<and> capture_answer E on a code a' \<and> apm_core ops on cl rate c r a' \<and>
    capture_audio a' = Some ca' \<and> buffer_ok (rate_frames rate) c c ca'"
proof -
  have "fwd_proc_rate a = 8000 \<or> fwd_proc_rate a = 16000" using a by (auto simp: apm_core_def)
  then have an: "\<not> analysis_needed ops a (is_data_processed ops a)" by (auto simp: analysis_needed_def)
  obtain a1 ca1 r1 where f: "capture_front ops ca a = (a1, ca1, r1)" "r1 \<in> E" "apm_core ops on cl rate c r a1" "params a1 = params a"
      "buffer_ok (rate_frames rate) c c ca1" "r1 = kNoError \<longrightarrow> copy_ok on cl (rate_frames rate) c ca1"
    using capture_front_ok [OF ops a ca(2,3)] by blast
  show ?thesis
  proof (cases "r1 = kNoError")
    case False
    then have "ProcessStreamLocked ops a = Some (a1\<lparr>capture_audio := Some ca1\<rparr>, r1)"
      using an f(1) unfolding ProcessStreamLocked_def ca(1) by simp
    then show ?thesis using False f by (auto simp: core_same params_def capture_answer_def)
  next
    case True
    obtain a2 ca2 r2 where b: "capture_back ops (is_data_processed ops a) ca1 a1 = Some (a2, ca2, r2)" "capture_answer E on a1 r2 a2"
        "apm_core ops on cl rate c r a2" "buffer_ok (rate_frames rate) c c ca2"
      using capture_back_ok [OF ops f(3,5) rate_frames_ok] f(6) True by blast
    have "ProcessStreamLocked ops a = Some (a2\<lparr>capture_audio := Some ca2\<rparr>, r2)"
      using an f(1) b(1) True unfolding ProcessStreamLocked_def ca(1) by simp
    moreover have "params (a2\<lparr>capture_audio := Some ca2\<rparr>) = params a2" by (simp add: params_def)
    then have "capture_answer E on a r2 (a2\<lparr>capture_audio := Some ca2\<rparr>)" using b(2) capture_answer_cong [OF f(4)] by blast
    ultimately show ?thesis using b(3,4) by (auto simp: core_same)
  qed
qed

lemma read_queued_ok:
  assumes ops: "submodules_may E ops cl" and a: "apm_core ops on cl rate c r a"
  shows "\<exists>a'. ReadQueued ops a = Some a' \<and> apm_core ops on cl rate c r a' \<and> params a' = params a \<and> capture_audio a' = capture_audio a"
proof -
  obtain s1 where s1: "aec_read_queued ops (view_of ops a) (others a) = s1" "ns_enabled ops s1 = cl"
    using ops a by (auto simp: submodules_may_def silent_stage_def apm_core_def)
  define a1 where "a1 = a\<lparr>others := s1\<rparr>"
  have a1: "apm_core ops on cl rate c r a1" using core_others [OF a s1(2)] by (simp add: a1_def)
  obtain e where e: "ReadQueuedRenderData (view_of ops a1) (echo_control_mobile a1) = Some e" "aecm_ok on cl (view_of ops a1) e"
    by (rule aecm_read [of on cl "view_of ops a1" "echo_control_mobile a1"]) (use a1 in \<open>simp_all add: apm_core_def\<close>)
  define a2 where "a2 = a1\<lparr>echo_control_mobile := e\<rparr>"
  have a2: "apm_core ops on cl rate c r a2" using core_aecm [OF a1 e(2)] by (simp add: a2_def)
  obtain s3 where s3: "gc_read_queued ops (view_of ops a2) (others a2) = s3" "ns_enabled ops s3 = cl"
    using ops a2 by (auto simp: submodules_may_def silent_stage_def apm_core_def)
  have "ReadQueued ops a = Some (a2\<lparr>others := s3\<rparr>)"
    using s1(1) s3(1) e(1) unfolding ReadQueued_def by (simp add: a1_def [symmetric] a2_def [symmetric] Let_def)
  then show ?thesis using core_others [OF a2 s3(2)] by (simp add: a1_def a2_def params_def)
qed

definition frame_ok :: "int \<Rightarrow> nat \<Rightarrow> AudioFrame \<Rightarrow> bool" where
  "frame_ok rate c frame \<longleftrightarrow> sample_rate_hz frame = rate \<and> num_channels frame = int c \<and> samples_per_channel frame = int (rate_frames rate) \<and>
     rate_frames rate * c \<le> length (frame_data frame)"

text \<open>A code other than that for success leaves the frame of the caller as it was.\<close>

lemma process_stream_ok:
  assumes ops: "submodules_may E ops cl" and a: "apm_ok ops on cl rate c r a" and frame: "frame_ok rate c frame"
  shows "\<exists>a' frame' code. ProcessStream ops frame a = Some (a', frame', code) \<and>
    (code = capture_code on a \<and> \<not> stream_delay_set a' \<or> code \<in> E \<and> code \<noteq> kNoError \<and> stream_delay_set a' = stream_delay_set a) \<and>
    apm_ok ops on cl rate c r a' \<and> delay_offset a' = delay_offset a \<and> frame_ok rate c frame' \<and>
    length (frame_data frame') = length (frame_data frame) \<and> (code \<noteq> kNoError \<longrightarrow> frame' = frame)"
proof -
  have core: "apm_core ops on cl rate c r a" using a by (simp add: apm_ok_def)
  obtain a1 where a1: "ReadQueued ops a = Some a1" "apm_core ops on cl rate c r a1" "params a1 = params a" "capture_audio a1 = capture_audio a"
    using read_queued_ok [OF ops core] by blast
  obtain ca where ca: "capture_audio a1 = Some ca" "buffer_ok (rate_frames rate) c c ca" using a a1(4) by (auto simp: apm_ok_def)
  obtain ca1 where ca1: "DeinterleaveFrom (resample_input ops) (others a1) frame ca = (others a1, ca1)" "buffer_ok (rate_frames rate) c c ca1" "\<not> reference_copied ca1"
    using deinterleave_ok [OF ca(2), of "resample_input ops" "others a1" frame] by blast
  define a2 where "a2 = a1\<lparr>others := others a1, capture_audio := Some ca1\<rparr>"
  have a2: "apm_core ops on cl rate c r a2" "params a2 = params a" "capture_audio a2 = Some ca1"
    using a1(2,3) by (simp_all add: a2_def core_same params_def)
  obtain a3 ca3 code where a3: "ProcessStreamLocked ops a2 = Some (a3, code)" "capture_answer E on a2 code a3" "apm_core ops on cl rate c r a3"
      "capture_audio a3 = Some ca3" "buffer_ok (rate_frames rate) c c ca3"
    using process_locked_ok [OF ops a2(1,3) ca1(2,3)] by blast
  have ans: "capture_answer E on a code a3" using a3(2) capture_answer_cong [OF a2(2) refl] by blast
  obtain frame' where fr: "InterleaveTo (resample_output ops) (others a3) ca3 frame (output_copy_needed a3 (is_data_processed ops a3)) = (others a3, frame')"
      "samples_per_channel frame' = samples_per_channel frame" "num_channels frame' = num_channels frame" "sample_rate_hz frame' = sample_rate_hz frame"
      "length (frame_data frame') = length (frame_data frame)"
    using interleave_ok [OF a3(5), of frame "resample_output ops" "others a3" "output_copy_needed a3 (is_data_processed ops a3)"] frame
    by (auto simp: frame_ok_def)
  have rate: "rate = 8000 \<or> rate = 16000" "api_format a1 = stream_format rate c r" using a1(2) by (simp_all add: apm_core_def)
  have m: "MaybeInitialize ops ((api_format a1)\<lparr>input_stream := (sample_rate_hz frame, num_channels frame),
      output_stream := (sample_rate_hz frame, num_channels frame)\<rparr>) a1 = (a1, kNoError)"
    using frame rate(2) by (simp add: MaybeInitialize_def frame_ok_def stream_format_def)
  have c: "is_native_rate (sample_rate_hz frame)" "\<not> sample_rate_hz frame > kMaxAECMSampleRateHz"
      "samples_per_channel frame = int (stream_frames (input_stream (api_format a1)))"
    using frame rate stream_frames_rate [OF rate(1)] by (auto simp: is_native_rate_def kMaxAECMSampleRateHz_def frame_ok_def stream_format_def)
  have p: "ProcessStream ops frame a = (if code \<noteq> kNoError then Some (a3, frame, code) else Some (a3\<lparr>others := others a3\<rparr>, frame', kNoError))"
    unfolding ProcessStream_def a1(1) option.case Let_def m prod.case ca(1) ca1(1) a2_def [symmetric] a3(1,4) fr(1) using c by simp
  have ok: "apm_ok ops on cl rate c r a3" "delay_offset a3 = delay_offset a"
    and code: "code = capture_code on a \<and> \<not> stream_delay_set a3 \<or> code \<in> E \<and> code \<noteq> kNoError \<and> stream_delay_set a3 = stream_delay_set a"
    using ans a3(3-5) a by (auto simp: apm_ok_def params_def capture_params_def capture_answer_def)
  have f: "frame_ok rate c frame'" using frame fr by (simp add: frame_ok_def)
  show ?thesis
  proof (cases "code = kNoError")
    case True
    then show ?thesis using p ok f fr(5) code by (intro exI [of _ a3] exI [of _ frame'] exI [of _ code]) simp
  next
    case False
    then show ?thesis using p ok frame code by (intro exI [of _ a3] exI [of _ frame] exI [of _ code]) simp
  qed
qed

section \<open>The render side\<close>

lemma render_buffer_fits: "buffer_ok n r 1 ra \<Longrightarrow> n = 80 \<or> n = 160 \<Longrightarrow> num_reverse_channels v = 1 \<Longrightarrow> render_fits v (aecm_buffer ra)"
  by (auto simp: render_fits_def aecm_buffer_def buffer_ok_def low_band_def)

lemma reverse_stream_ok:
  assumes ops: "submodules_may E ops cl" and a: "apm_ok ops on cl rate c r a" and frame: "frame_ok rate r frame"
  shows "\<exists>a' code. ProcessReverseStream ops frame a = Some (a', frame, code) \<and> code \<in> E \<and> apm_ok ops on cl rate c r a' \<and>
    stream_delay_set a' = stream_delay_set a \<and> delay_offset a' = delay_offset a"
proof -
  have core: "apm_core ops on cl rate c r a" using a by (simp add: apm_ok_def)
  obtain ra where ra: "render_audio a = Some ra" "buffer_ok (rate_frames rate) r 1 ra" using a by (auto simp: apm_ok_def)
  obtain ra1 where ra1: "DeinterleaveFrom (resample_render ops) (others a) frame ra = (others a, ra1)" "buffer_ok (rate_frames rate) r 1 ra1"
    using deinterleave_ok [OF ra(2), of "resample_render ops" "others a" frame] by blast
  have rate: "rate = 8000 \<or> rate = 16000" "api_format a = stream_format rate c r" "0 < r" "rev_proc_format a = (rate, 1)"
    using core by (simp_all add: apm_core_def)
  have m: "MaybeInitialize ops ((api_format a)\<lparr>reverse_input_stream := (sample_rate_hz frame, num_channels frame),
      reverse_output_stream := (sample_rate_hz frame, num_channels frame)\<rparr>) a = (a, kNoError)"
    using frame rate(2) by (simp add: MaybeInitialize_def frame_ok_def stream_format_def)
  have c: "is_native_rate (sample_rate_hz frame)" "sample_rate_hz frame = fst (input_stream (api_format a))" "\<not> num_channels frame \<le> 0"
      "samples_per_channel frame = int (stream_frames (reverse_input_stream (api_format a)))"
    using frame rate stream_frames_rate [OF rate(1)] by (auto simp: is_native_rate_def frame_ok_def stream_format_def)
  define a1 where "a1 = a\<lparr>others := others a, render_audio := Some ra1\<rparr>"
  have a1: "apm_core ops on cl rate c r a1" using core by (simp add: a1_def core_same)
  have audio: "render_audio a1 = Some ra1" "a1\<lparr>others := others a1, render_audio := Some ra1\<rparr> = a1" "fst (rev_proc_format a1) \<noteq> 32000"
    using rate by (auto simp: a1_def)
  obtain s2 r2 where s2: "aec_render ops (view_of ops a1) ra1 (others a1) = (s2, r2)" "r2 \<in> E" "ns_enabled ops s2 = cl"
    by (rule silent_stageE [of E ops cl "aec_render ops (view_of ops a1) ra1" "others a1"]) (use ops a1 in \<open>simp_all add: submodules_may_def apm_core_def\<close>)
  define a2 where "a2 = a1\<lparr>others := s2\<rparr>"
  have a2: "apm_core ops on cl rate c r a2" using core_others [OF a1 s2(3)] by (simp add: a2_def)
  have "render_fits (view_of ops a2) (aecm_buffer ra1)"
    by (rule render_buffer_fits [OF ra1(2) rate_frames_ok]) (use a2 in \<open>simp add: view_of_def apm_core_def stream_channels_def\<close>)
  then obtain e where e: "ProcessRenderAudio (view_of ops a2) (echo_control_mobile a2) (aecm_buffer ra1) = Some (e, kNoError)" "aecm_ok on cl (view_of ops a2) e"
    by (rule aecm_render [of on cl "view_of ops a2" "echo_control_mobile a2" "aecm_buffer ra1", rotated]) (use a2 in \<open>simp_all add: apm_core_def\<close>)
  define a3 where "a3 = a2\<lparr>echo_control_mobile := e\<rparr>"
  have a3: "apm_core ops on cl rate c r a3" using core_aecm [OF a2 e(2)] by (simp add: a3_def)
  obtain s4 r4 where s4: "gc_render ops (view_of ops a3) ra1 (others a3) = (s4, r4)" "r4 \<in> E" "ns_enabled ops s4 = cl"
    by (rule silent_stageE [of E ops cl "gc_render ops (view_of ops a3) ra1" "others a3"]) (use ops a3 in \<open>simp_all add: submodules_may_def apm_core_def\<close>)
  define b code where "b = (if r2 \<noteq> kNoError then a2 else a3\<lparr>others := s4\<rparr>)" and "code = (if r2 \<noteq> kNoError then r2 else r4)"
  have l: "ProcessReverseStreamLocked ops a1 = Some (b, code)"
    unfolding ProcessReverseStreamLocked_def audio(1) option.case if_not_P [OF audio(3)] Let_def prod.case audio(2) s2(1) a2_def [symmetric] e(1)
      a3_def [symmetric] s4(1) by (simp add: b_def code_def)
  have "AnalyzeReverseStream ops frame a = Some (b, code)"
    unfolding AnalyzeReverseStream_def Let_def m prod.case ra(1) option.case ra1(1) a1_def [symmetric] l using c by simp
  moreover have "apm_core ops on cl rate c r b" using a2 core_others [OF a3 s4(3)] by (simp add: b_def)
  moreover have "render_audio b = Some ra1" "capture_audio b = capture_audio a" "stream_delay_set b = stream_delay_set a" "delay_offset b = delay_offset a"
    by (simp_all add: b_def a1_def a2_def a3_def)
  moreover have "code \<in> E" using s2(2) s4(2) by (simp add: code_def)
  ultimately show ?thesis using a ra1(2) by (simp add: ProcessReverseStream_def apm_ok_def)
qed

section \<open>Initialisation\<close>

lemma startE:
  assumes "submodules_start I ops cl" "I s"
  obtains s1 s2 where "aec_initialize ops v s = (s1, kNoError)" "I s1" "gc_initialize ops v s = (s2, kNoError)" "I s2"
  using assms unfolding submodules_start_def by (metis prod.collapse)

lemma initialize_ok:
  assumes ops: "submodules_start I ops cl" and rate: "rate = 8000 \<or> rate = 16000" "0 < c" "0 < r"
    and a: "\<not> enabled (echo_control_mobile a)" "I (others a)" "0 \<le> stream_delay a" "stream_delay a \<le> 500"
    and f: "api_format a = stream_format rate c r" "fwd_proc_rate a = rate" "rev_proc_format a = (rate, 1)"
  shows "\<exists>a'. InitializeLocked ops a = (a', kNoError) \<and> apm_ok ops False cl rate c r a' \<and> I (others a') \<and>
    echo_control_mobile a' = echo_control_mobile a \<and> stream_delay_set a' = stream_delay_set a \<and> delay_offset a' = delay_offset a"
proof -
  let ?n = "rate_frames rate"
  define a1 where "a1 = new_buffers a"
  have n: "stream_frames (rate, k) = ?n" for k by (rule stream_frames_rate [OF rate(1)])
  have "0 < ?n" using rate_frames_ok [of rate] by auto
  then have a1: "a1 = a\<lparr>render_audio := Some (new_AudioBuffer ?n r ?n 1 ?n), capture_audio := Some (new_AudioBuffer ?n c ?n c ?n)\<rparr>"
    using rate n by (simp add: a1_def new_buffers_def f stream_format_def stream_channels_def Let_def)
  obtain s1 where s1: "aec_initialize ops (view_of ops a1) (others a1) = (s1, kNoError)" "I s1"
    by (rule startE [OF ops, of "others a1" "view_of ops a1"]) (use a in \<open>simp_all add: a1\<close>)
  define a2 where "a2 = a1\<lparr>others := s1\<rparr>"
  have i: "Initialize (aecm_memory ops) (view_of ops a2) (echo_control_mobile a2) = (echo_control_mobile a2, kNoError)"
    using a(1) by (simp add: Initialize_def a2_def a1)
  obtain s3 where s3: "gc_initialize ops (view_of ops a2) (others a2) = (s3, kNoError)" "I s3"
    by (rule startE [OF ops, of "others a2" "view_of ops a2"]) (use s1 in \<open>simp_all add: a2_def\<close>)
  define a3 where "a3 = a2\<lparr>others := s3\<rparr>"
  define a4 where "a4 = a3\<lparr>high_pass_filter := HighPass_Initialize (high_pass_filter a3) (num_output_channels (view_of ops a3)) (proc_sample_rate_hz (view_of ops a3))\<rparr>"
  define s5 where "s5 = vd_initialize ops (split_rate a4) (le_initialize ops (ns_initialize ops (view_of ops a3) s3))"
  have I: "I s5" using ops s3(2) by (simp add: s5_def submodules_start_def)
  then have s5: "ns_enabled ops s5 = cl" using ops by (simp add: submodules_start_def)
  have c: "num_output_channels (view_of ops a3) = c" by (simp add: view_of_def a3_def a2_def a1 f stream_format_def stream_channels_def)
  have r: "a2\<lparr>echo_control_mobile := echo_control_mobile a2\<rparr> = a2" by simp
  have "InitializeLocked ops a = (a4\<lparr>others := s5\<rparr>, kNoError)"
    unfolding InitializeLocked_def a1_def [symmetric] Let_def s1(1) prod.case a2_def [symmetric] i r s3(1) a3_def [symmetric] a4_def [symmetric]
    by (simp add: s5_def) (simp add: a4_def a3_def)
  moreover have "apm_core ops False cl rate c r (a4\<lparr>others := s5\<rparr>)"
    using rate a f s5 c by (simp add: apm_core_def a4_def a3_def a2_def a1 HighPass_Initialize_def aecm_ok_def)
  moreover have "buffer_ok ?n r 1 (new_AudioBuffer ?n r ?n 1 ?n)" "buffer_ok ?n c c (new_AudioBuffer ?n c ?n c ?n)"
    using new_buffer_ok rate_frames_ok by blast+
  ultimately show ?thesis using I by (simp add: apm_ok_def a4_def a3_def a2_def a1)
qed

lemma choose_formats_narrow:
  assumes "rate = 8000 \<or> rate = 16000"
  shows "api_format (choose_formats (stream_format rate c r) a) = stream_format rate c r"
    "fwd_proc_rate (choose_formats (stream_format rate c r) a) = rate" "rev_proc_format (choose_formats (stream_format rate c r) a) = (rate, 1)"
  using assms by (auto simp: choose_formats_def stream_format_def native_rate kMaxAECMSampleRateHz_def Let_def)

lemma initialize_config_ok:
  assumes ops: "submodules_start I ops cl" and rate: "rate = 8000 \<or> rate = 16000" "0 < c" "0 < r"
    and a: "\<not> enabled (echo_control_mobile a)" "I (others a)" "0 \<le> stream_delay a" "stream_delay a \<le> 500"
  shows "\<exists>a'. InitializeLocked_config ops (stream_format rate c r) a = (a', kNoError) \<and> apm_ok ops False cl rate c r a' \<and> I (others a') \<and>
    echo_control_mobile a' = echo_control_mobile a \<and> stream_delay_set a' = stream_delay_set a \<and> delay_offset a' = delay_offset a"
proof -
  have "format_ok (stream_format rate c r)" using rate by (auto simp: format_ok_def config_streams_def stream_format_def)
  then show ?thesis
    using initialize_ok [OF ops rate, of "choose_formats (stream_format rate c r) a"] a choose_formats_narrow [OF rate(1), of c r a]
    by (simp add: initialize_format_ok) (simp add: choose_formats_def Let_def)
qed

lemma create_ok:
  assumes "submodules_start I ops cl" "I s"
  shows "\<exists>a. Create ops s = Some a \<and> apm_ok ops False cl 16000 1 1 a \<and> I (others a) \<and> echo_control_mobile a = new_EchoControlMobileImpl \<and>
    \<not> stream_delay_set a \<and> delay_offset a = 0"
  using initialize_ok [OF assms(1), of 16000 1 1 "new_AudioProcessingImpl s"] assms(2)
  by (auto simp: Create_def new_AudioProcessingImpl_def stream_format_def new_EchoControlMobileImpl_def)

lemma enable_aecm_ok:
  assumes "\<forall>k. inst_memory (snd (aecm_memory ops k))" "apm_ok ops on cl rate c r a"
    and "Enable (aecm_memory ops) (view_of ops a) new_EchoControlMobileImpl True = (e, kNoError)"
  shows "apm_ok ops True cl rate c r (a\<lparr>echo_control_mobile := e\<rparr>)"
proof -
  have e: "comp_ok cl (view_of ops a) e" using enable_ok [OF assms(3,1)] by blast
  then have v: "comp_ok cl (view_of ops (a\<lparr>echo_control_mobile := e\<rparr>)) e" by (simp add: view_of_def)
  have "enabled e" using e by (simp add: comp_ok_def)
  then show ?thesis using assms(2) v by (simp add: apm_ok_def apm_core_def aecm_ok_def)
qed

section \<open>Sequences of calls\<close>

datatype apm_call =
    Reverse_Frame AudioFrame
  | Capture_Frame AudioFrame
  | Stream_Delay int
  | Delay_Offset int
  | Key_Pressed bool
  | High_Pass bool

definition apm_step :: "'s submodules \<Rightarrow> 's AudioProcessingImpl \<Rightarrow> apm_call \<Rightarrow> ('s AudioProcessingImpl \<times> int) option" where
  "apm_step ops a call =
     (case call of
        Reverse_Frame f \<Rightarrow> map_option (\<lambda>(a, f, r). (a, r)) (ProcessReverseStream ops f a)
      | Capture_Frame f \<Rightarrow> map_option (\<lambda>(a, f, r). (a, r)) (ProcessStream ops f a)
      | Stream_Delay d \<Rightarrow> Some (set_stream_delay_ms a d)
      | Delay_Offset d \<Rightarrow> Some (set_delay_offset_ms a d, kNoError)
      | Key_Pressed b \<Rightarrow> Some (set_stream_key_pressed a b, kNoError)
      | High_Pass b \<Rightarrow> Some (a\<lparr>high_pass_filter := HighPass_Enable (high_pass_filter a) b\<rparr>, kNoError))"

fun run_apm :: "'s submodules \<Rightarrow> 's AudioProcessingImpl \<Rightarrow> apm_call list \<Rightarrow> ('s AudioProcessingImpl \<times> int list) option" where
  "run_apm ops a [] = Some (a, [])"
| "run_apm ops a (x # xs) =
     (case apm_step ops a x of None \<Rightarrow> None
      | Some (a, r) \<Rightarrow> (case run_apm ops a xs of None \<Rightarrow> None | Some (a, rs) \<Rightarrow> Some (a, r # rs)))"

fun apm_call_fits :: "int \<Rightarrow> nat \<Rightarrow> nat \<Rightarrow> apm_call \<Rightarrow> bool" where
  "apm_call_fits rate c r (Reverse_Frame f) = frame_ok rate r f"
| "apm_call_fits rate c r (Capture_Frame f) = frame_ok rate c f"
| "apm_call_fits rate c r _ = True"

text \<open>
  The protocol of the stream delay: a delay is clipped to the range from 0 to 500 ms, with a warning, and one frame of the
  capture side takes it; a frame without one is refused.
\<close>

fun protocol_codes :: "int \<Rightarrow> bool \<Rightarrow> apm_call list \<Rightarrow> int list" where
  "protocol_codes offset given [] = []"
| "protocol_codes offset given (Capture_Frame f # cs) = (if given then 0 else - 11) # protocol_codes offset False cs"
| "protocol_codes offset given (Stream_Delay d # cs) =
     (if 0 \<le> s32 (d + offset) \<and> s32 (d + offset) \<le> 500 then 0 else - 13) # protocol_codes offset True cs"
| "protocol_codes offset given (Delay_Offset d # cs) = 0 # protocol_codes d given cs"
| "protocol_codes offset given (Reverse_Frame f # cs) = 0 # protocol_codes offset given cs"
| "protocol_codes offset given (Key_Pressed b # cs) = 0 # protocol_codes offset given cs"
| "protocol_codes offset given (High_Pass b # cs) = 0 # protocol_codes offset given cs"

lemma set_delay_ok:
  assumes "apm_ok ops on cl rate c r a"
  shows "apm_ok ops on cl rate c r (fst (set_stream_delay_ms a d))" "stream_delay_set (fst (set_stream_delay_ms a d))"
    "delay_offset (fst (set_stream_delay_ms a d)) = delay_offset a"
    "snd (set_stream_delay_ms a d) = (if 0 \<le> s32 (d + delay_offset a) \<and> s32 (d + delay_offset a) \<le> 500 then 0 else - 13)"
  using assms core_delay(1) [of ops on cl rate c r a _ True]
  by (auto simp: set_stream_delay_ms_def Let_def apm_ok_def kNoError_def kBadStreamParameterWarning_def)

lemma run_apm_ok:
  assumes ops: "submodules_may no_error ops cl" and "apm_ok ops True cl rate c r a" "list_all (apm_call_fits rate c r) calls"
  shows "\<exists>a'. run_apm ops a calls = Some (a', protocol_codes (delay_offset a) (stream_delay_set a) calls) \<and> apm_ok ops True cl rate c r a'"
  using assms(2,3)
proof (induction calls arbitrary: a)
  case (Cons x calls)
  have l: "length (filters (HighPass_Enable h b)) = length (filters h)" for h b by (simp add: HighPass_Enable_def Let_def)
  note ok = Cons.prems(1)
  show ?case
  proof (cases x)
    case (Reverse_Frame f)
    obtain a1 where "apm_step ops a x = Some (a1, 0)" "apm_ok ops True cl rate c r a1" "stream_delay_set a1 = stream_delay_set a" "delay_offset a1 = delay_offset a"
      using reverse_stream_ok [OF ops ok, of f] Cons.prems(2) Reverse_Frame by (auto simp: apm_step_def kNoError_def)
    then show ?thesis using Cons.IH [of a1] Cons.prems(2) Reverse_Frame by auto
  next
    case (Capture_Frame f)
    obtain a1 f1 where p: "ProcessStream ops f a = Some (a1, f1, capture_code True a)" "apm_ok ops True cl rate c r a1" "\<not> stream_delay_set a1"
        "delay_offset a1 = delay_offset a"
      using process_stream_ok [OF ops ok, of f] Cons.prems(2) Capture_Frame by auto
    then have "apm_step ops a x = Some (a1, if stream_delay_set a then 0 else - 11)"
      using Capture_Frame by (simp add: apm_step_def capture_code_def delay_missing_def kStreamParameterNotSetError_def kNoError_def)
    then show ?thesis using Cons.IH [of a1] Cons.prems(2) Capture_Frame p(2-4) by auto
  next
    case (Stream_Delay d)
    then show ?thesis using Cons.IH [of "fst (set_stream_delay_ms a d)"] set_delay_ok [OF ok, of d] Cons.prems(2)
      by (auto simp: apm_step_def split: prod.splits)
  next
    case (Delay_Offset d)
    have "apm_ok ops True cl rate c r (set_delay_offset_ms a d)" using ok by (simp add: apm_ok_def set_delay_offset_ms_def core_same)
    then show ?thesis using Cons.IH [of "set_delay_offset_ms a d"] Cons.prems(2) Delay_Offset
      by (auto simp: apm_step_def set_delay_offset_ms_def kNoError_def)
  next
    case (Key_Pressed b)
    have "apm_ok ops True cl rate c r (set_stream_key_pressed a b)" using ok by (simp add: apm_ok_def set_stream_key_pressed_def core_same)
    then show ?thesis using Cons.IH [of "set_stream_key_pressed a b"] Cons.prems(2) Key_Pressed
      by (auto simp: apm_step_def set_stream_key_pressed_def kNoError_def)
  next
    case (High_Pass b)
    have "apm_ok ops True cl rate c r (a\<lparr>high_pass_filter := HighPass_Enable (high_pass_filter a) b\<rparr>)"
      using ok core_high_pass [of ops True cl rate c r a "HighPass_Enable (high_pass_filter a) b"] l by (simp add: apm_ok_def) (simp add: apm_core_def)
    then show ?thesis using Cons.IH [of "a\<lparr>high_pass_filter := HighPass_Enable (high_pass_filter a) b\<rparr>"] Cons.prems(2) High_Pass
      by (auto simp: apm_step_def kNoError_def)
  qed
qed simp

section \<open>Properties\<close>

text \<open>Submodules that leave the audio alone; only the noise suppression may be on.\<close>

definition quiet :: "('s \<Rightarrow> bool) \<Rightarrow> 's submodules" where
  "quiet ns = \<lparr>dchecks = False, aecm_memory = all_memory, aec_enabled = (\<lambda>_. False), gc_enabled = (\<lambda>_. False), ns_enabled = ns,
     le_enabled = (\<lambda>_. False), vd_enabled = (\<lambda>_. False), aec_initialize = (\<lambda>_ s. (s, 0)), gc_initialize = (\<lambda>_ s. (s, 0)),
     ns_initialize = (\<lambda>_ s. s), le_initialize = (\<lambda>s. s), vd_initialize = (\<lambda>_ s. s), aec_read_queued = (\<lambda>_ s. s),
     gc_read_queued = (\<lambda>_ s. s), aec_render = (\<lambda>_ _ s. (s, 0)), gc_render = (\<lambda>_ _ s. (s, 0)), gc_analyze = (\<lambda>_ _ s. (s, 0)),
     ns_analyze = (\<lambda>_ s. s), aec_capture = (\<lambda>_ b s. (s, b, 0)), ns_capture = (\<lambda>b s. (s, b)), vd_capture = (\<lambda>_ s. s),
     gc_capture = (\<lambda>_ b s. (s, b, 0)), le_process = (\<lambda>_ s. s), split_into_bands = (\<lambda>b s. (s, b)), merge_bands = (\<lambda>b s. (s, b)),
     render_split_into_bands = (\<lambda>b s. (s, b)), resample_render = Pair, resample_input = Pair, resample_output = Pair\<rparr>"

lemma quiet_ok: "submodules_ok (quiet ns) cl" "ns_enabled (quiet ns) s = ns s" "aec_enabled (quiet ns) s = False" "aecm_memory (quiet ns) = all_memory"
  using all_memory_ok by (simp_all add: submodules_ok_def submodules_may_def submodules_start_def quiet_def silent_stage_def audio_stage_def kNoError_def)

text \<open>
  C3. A module that is created, initialised for streams of 8 or 16 kHz and given the mobile echo control takes every sequence of render
  frames, capture frames, stream delays, delay offsets, key presses and switches of the high-pass filter, and answers as the
  protocol of the stream delay says: nothing but a delay out of range and a capture frame without a delay is answered with a code.
\<close>

theorem apm_protocol:
  assumes "submodules_ok ops cl" "ns_enabled ops s = cl" "rate = 8000 \<or> rate = 16000" "0 < c" "0 < r"
    and "list_all (apm_call_fits rate c r) calls"
  shows "\<exists>a b. Create ops s = Some a \<and> InitializeLocked_config ops (stream_format rate c r) a = (b, kNoError) \<and>
    (\<forall>e. Enable (aecm_memory ops) (view_of ops b) (echo_control_mobile b) True = (e, kNoError) \<longrightarrow>
       (\<exists>b'. run_apm ops (b\<lparr>echo_control_mobile := e\<rparr>) calls = Some (b', protocol_codes 0 False calls)))"
proof -
  have may: "submodules_may no_error ops cl" and start: "submodules_start (\<lambda>s. ns_enabled ops s = cl) ops cl"
    using assms(1) by (simp_all add: submodules_ok_def)
  have mem: "\<forall>k. inst_memory (snd (aecm_memory ops k))" using may by (simp add: submodules_may_def)
  obtain a where a: "Create ops s = Some a" "apm_ok ops False cl 16000 1 1 a" "echo_control_mobile a = new_EchoControlMobileImpl"
      "\<not> stream_delay_set a" "delay_offset a = 0"
    using create_ok [OF start, of s] assms(2) by blast
  obtain b where b: "InitializeLocked_config ops (stream_format rate c r) a = (b, kNoError)" "apm_ok ops False cl rate c r b"
      "echo_control_mobile b = new_EchoControlMobileImpl" "\<not> stream_delay_set b" "delay_offset b = 0"
    using initialize_config_ok [OF start assms(3-5), of a] a by (auto simp: apm_ok_def apm_core_def new_EchoControlMobileImpl_def)
  have "\<exists>b'. run_apm ops (b\<lparr>echo_control_mobile := e\<rparr>) calls = Some (b', protocol_codes 0 False calls)"
    if "Enable (aecm_memory ops) (view_of ops b) (echo_control_mobile b) True = (e, kNoError)" for e
    using run_apm_ok [OF may enable_aecm_ok [OF mem b(2) that [unfolded b(3)]] assms(6)] b(4,5) by auto
  then show ?thesis using a(1) b(1) by blast
qed

definition a_frame :: "int \<Rightarrow> AudioFrame" where
  "a_frame c = \<lparr>num_channels = c, sample_rate_hz = 16000, samples_per_channel = 160, frame_data = replicate 3840 7\<rparr>"

lemma apm_protocol_witness:
  "\<exists>a b e b'. Create (quiet Not) True = Some a \<and> InitializeLocked_config (quiet Not) (stream_format 16000 2 1) a = (b, kNoError) \<and>
     Enable all_memory (view_of (quiet Not) b) (echo_control_mobile b) True = (e, kNoError) \<and>
     run_apm (quiet Not) (b\<lparr>echo_control_mobile := e\<rparr>) [Reverse_Frame (a_frame 1), Capture_Frame (a_frame 2), Stream_Delay 700, Capture_Frame (a_frame 2)] =
       Some (b', [0, - 11, - 13, 0])"
proof -
  let ?calls = "[Reverse_Frame (a_frame 1), Capture_Frame (a_frame 2), Stream_Delay 700, Capture_Frame (a_frame 2)]"
  have fits: "list_all (apm_call_fits 16000 2 1) ?calls" by (simp add: a_frame_def frame_ok_def rate_frames_def)
  have start: "submodules_start (\<lambda>s. ns_enabled (quiet Not) s = False) (quiet Not) False"
    using quiet_ok(1) [of Not False] by (simp add: submodules_ok_def)
  have n: "ns_enabled (quiet Not) True = False" by (simp add: quiet_ok)
  have num: "(16000 :: int) = 8000 \<or> (16000 :: int) = 16000" "0 < (2 :: nat)" "0 < (1 :: nat)" by simp_all
  obtain a b where ab: "Create (quiet Not) True = Some a" "InitializeLocked_config (quiet Not) (stream_format 16000 2 1) a = (b, kNoError)"
    and run: "\<forall>e. Enable all_memory (view_of (quiet Not) b) (echo_control_mobile b) True = (e, kNoError) \<longrightarrow>
       (\<exists>b'. run_apm (quiet Not) (b\<lparr>echo_control_mobile := e\<rparr>) ?calls = Some (b', protocol_codes 0 False ?calls))"
    using apm_protocol [OF quiet_ok(1) n num fits] unfolding quiet_ok(4) by blast
  have a: "echo_control_mobile a = new_EchoControlMobileImpl" "apm_ok (quiet Not) False False 16000 1 1 a"
    using create_ok [OF start n] ab(1) by auto
  have b: "echo_control_mobile b = new_EchoControlMobileImpl" "apm_ok (quiet Not) False False 16000 2 1 b"
    using initialize_config_ok [OF start, of 16000 2 1 a] ab(2) a by (auto simp: apm_ok_def apm_core_def new_EchoControlMobileImpl_def)
  have v: "num_handles_required (view_of (quiet Not) b) = 2" "proc_sample_rate_hz (view_of (quiet Not) b) = 16000" "\<not> echo_cancellation_enabled (view_of (quiet Not) b)"
    using b(2) by (simp_all add: quiet_ok(3) apm_ok_def apm_core_def view_of_def num_handles_required_def stream_format_def stream_channels_def)
  obtain e where "Enable all_memory (view_of (quiet Not) b) (echo_control_mobile b) True = (e, kNoError)"
    unfolding b(1) by (rule two_enabled [OF v])
  moreover have "protocol_codes 0 False ?calls = [0, - 11, - 13, 0]" by (simp add: s32_def)
  ultimately show ?thesis using ab run by metis
qed

text \<open>
  C8. The formats the module chooses for its processing. The capture side runs at the lowest native rate that is not below the
  lower one of the rates of the input and the output, at 48 kHz if there is none, and at 16 kHz where the mobile echo control is on and that
  lower rate is above; the lowest band has at most 16 kHz. The render side has one channel and runs at 8 kHz beside a capture side
  of 8 kHz, otherwise at 32 kHz for a render stream of that rate and at 16 kHz for every other.
\<close>

theorem processing_formats:
  assumes "format_ok config" and "InitializeLocked_config ops config a = (a', err)"
  defines "lower \<equiv> min (fst (input_stream config)) (fst (output_stream config))"
  shows "fwd_proc_rate a' = (if enabled (echo_control_mobile a) \<and> kMaxAECMSampleRateHz < lower then kMaxAECMSampleRateHz
       else if lower \<le> 48000 then Min {x \<in> set kNativeSampleRatesHz. lower \<le> x} else 48000) \<and>
    split_rate a' = min (fwd_proc_rate a') 16000 \<and>
    rev_proc_format a' = (if fwd_proc_rate a' = 8000 then 8000 else if fst (reverse_input_stream config) = 32000 then 32000 else 16000, 1)"
proof -
  have "a' = fst (InitializeLocked ops (choose_formats config a))" using assms by (simp add: initialize_format_ok)
  then have f: "fwd_proc_rate a' = fwd_proc_rate (choose_formats config a)" "rev_proc_format a' = rev_proc_format (choose_formats config a)"
      "split_rate a' = split_rate (choose_formats config a)"
    by (simp_all add: InitializeLocked_keeps)
  define fwd where "fwd = fwd_proc_rate (choose_formats config a)"
  have n: "first_rate kNativeSampleRatesHz 0 lower = (if lower \<le> 48000 then Min {x \<in> set kNativeSampleRatesHz. lower \<le> x} else 48000)"
    by (rule lowest_rate)
  then have fwd: "fwd = (if enabled (echo_control_mobile a) \<and> kMaxAECMSampleRateHz < lower then kMaxAECMSampleRateHz
       else if lower \<le> 48000 then Min {x \<in> set kNativeSampleRatesHz. lower \<le> x} else 48000)"
    by (simp add: fwd_def choose_formats_def lower_def Let_def)
  have "fwd \<in> set kNativeSampleRatesHz" unfolding fwd n [symmetric] native_rate by (simp add: kNativeSampleRatesHz_def kMaxAECMSampleRateHz_def)
  then have "split_rate (choose_formats config a) = min fwd 16000"
    unfolding fwd_def by (auto simp: choose_formats_def kNativeSampleRatesHz_def Let_def)
  moreover have "rev_proc_format (choose_formats config a) = (if fwd = 8000 then 8000 else if fst (reverse_input_stream config) = 32000 then 32000 else 16000, 1)"
    unfolding fwd_def by (simp add: choose_formats_def Let_def)
  ultimately show ?thesis unfolding f fwd_def [symmetric] using fwd by simp
qed

lemma processing_formats_witness:
  "\<exists>a' err. InitializeLocked_config (quiet Not) (stream_format 32000 1 1) (new_AudioProcessingImpl True\<lparr>echo_control_mobile :=
       new_EchoControlMobileImpl\<lparr>enabled := True\<rparr>\<rparr>) = (a', err) \<and> fwd_proc_rate a' = 16000 \<and> split_rate a' = 16000 \<and> rev_proc_format a' = (32000, 1)"
proof -
  let ?a = "new_AudioProcessingImpl True\<lparr>echo_control_mobile := new_EchoControlMobileImpl\<lparr>enabled := True\<rparr>\<rparr>"
  obtain a' err where i: "InitializeLocked_config (quiet Not) (stream_format 32000 1 1) ?a = (a', err)" by (rule prod.exhaust)
  have "format_ok (stream_format 32000 1 1)" by (simp add: format_ok_def config_streams_def stream_format_def)
  from processing_formats [OF this i] show ?thesis using i by (simp add: stream_format_def kMaxAECMSampleRateHz_def)
qed

text \<open>
  C9. The formats of the interface are stored before the components are initialised. Whatever the initialisation for a valid configuration
  comes to, the next call with that configuration finds it stored and reports success without any initialisation: an error is reported
  once and then forgotten.
\<close>

theorem failed_reinit_forgotten:
  assumes "format_ok config" and "InitializeLocked_config ops config a = (a', err)"
  shows "MaybeInitialize ops config a' = (a', kNoError)"
proof -
  have "a' = fst (InitializeLocked ops (choose_formats config a))" using assms by (simp add: initialize_format_ok)
  then have "api_format a' = config" by (simp add: InitializeLocked_keeps choose_formats_def Let_def)
  then show ?thesis by (simp add: MaybeInitialize_def)
qed

lemma failed_reinit_forgotten_witness:
  "\<exists>a'. MaybeInitialize (quiet Not\<lparr>aec_initialize := \<lambda>_ s. (s, - 2)\<rparr>) (stream_format 8000 1 1) (new_AudioProcessingImpl True) = (a', - 2) \<and>
     MaybeInitialize (quiet Not\<lparr>aec_initialize := \<lambda>_ s. (s, - 2)\<rparr>) (stream_format 8000 1 1) a' = (a', 0)"
proof -
  let ?ops = "quiet Not\<lparr>aec_initialize := \<lambda>_ s. (s, - 2)\<rparr>"
  have f: "format_ok (stream_format 8000 1 1)" by (simp add: format_ok_def config_streams_def stream_format_def)
  have "snd (InitializeLocked ?ops (choose_formats (stream_format 8000 1 1) (new_AudioProcessingImpl True))) = - 2"
    by (simp add: InitializeLocked_def kNoError_def Let_def)
  then obtain a' where i: "InitializeLocked_config ?ops (stream_format 8000 1 1) (new_AudioProcessingImpl True) = (a', - 2)"
    unfolding initialize_format_ok [OF f] by (metis prod.collapse)
  moreover have "stream_format 8000 1 1 \<noteq> api_format (new_AudioProcessingImpl True)" by (simp add: stream_format_def new_AudioProcessingImpl_def)
  ultimately show ?thesis using failed_reinit_forgotten [OF f i] by (auto simp: MaybeInitialize_def kNoError_def)
qed

end
