(* ===== verification/Native_Apm.thy ===== *)
theory Native_Apm
  imports Native_Threads Audio_Processing_Inv
begin

text \<open>
  The two halves of the program together: the native layer of the library on the audio processing module of the model, with its
  buffers, its high-pass filter and its mobile echo control. The operations that the native layer calls become those of the module;
  a fault inside the module is the state \<open>None\<close>, which it never leaves. The module keeps the contract the native layer was
  proved against, so that the theorems of the layer, for a single caller and for several threads, hold of the whole. The other submodules, the
  floating-point echo cancellation that the layer switches on among them, may report any error in any frame.
\<close>

section \<open>The module behind the interface\<close>

text \<open>The settings of the other submodules are a parameter, which is told whether the mobile echo control is on.\<close>

definition set_apm ::
    "'s submodules \<Rightarrow> (apm_setting \<Rightarrow> bool \<Rightarrow> 's \<Rightarrow> 's) \<Rightarrow> apm_setting \<Rightarrow> 's AudioProcessingImpl \<Rightarrow> 's AudioProcessingImpl" where
  "set_apm ops setting x a =
     (case x of
        apm_setting.HighPass_Enable b \<Rightarrow> a\<lparr>high_pass_filter := High_Pass.HighPass_Enable (high_pass_filter a) b\<rparr>
      | Aecm_Enable b \<Rightarrow> a\<lparr>echo_control_mobile := fst (Enable (aecm_memory ops) (view_of ops a) (echo_control_mobile a) b)\<rparr>
      | Aecm_routing_mode m \<Rightarrow> a\<lparr>echo_control_mobile := fst (set_routing_mode (echo_control_mobile a) m)\<rparr>
      | Aecm_comfort_noise b \<Rightarrow> a\<lparr>echo_control_mobile := fst (enable_comfort_noise (echo_control_mobile a) b)\<rparr>
      | _ \<Rightarrow> a\<lparr>others := setting x (enabled (echo_control_mobile a)) (others a)\<rparr>)"

definition apm_layer ::
    "'s submodules \<Rightarrow> (apm_setting \<Rightarrow> bool \<Rightarrow> 's \<Rightarrow> 's) \<Rightarrow> (apm_config \<Rightarrow> 's) \<Rightarrow> 's AudioProcessingImpl option apm_ops" where
  "apm_layer ops setting fresh = \<lparr>
     create_apm = (\<lambda>c. map_option Some (Create ops (fresh c))),
     initialize_apm = (\<lambda>a config. case a of None \<Rightarrow> (None, 0)
        | Some a \<Rightarrow> (let (a, err) = InitializeLocked_config ops config a in (Some a, err))),
     apply_setting = (\<lambda>x. map_option (set_apm ops setting x)),
     aec_is_enabled = (\<lambda>a. case a of None \<Rightarrow> False | Some a \<Rightarrow> aec_enabled ops (others a)),
     ProcessReverseStream = (\<lambda>a f. case Option.bind a (Audio_Processing.ProcessReverseStream ops f) of
        None \<Rightarrow> (None, f, 0) | Some (a, f, r) \<Rightarrow> (Some a, f, r)),
     set_stream_delay_ms = (\<lambda>a d. map_option (\<lambda>a. fst (Audio_Processing.set_stream_delay_ms a d)) a),
     ProcessStream = (\<lambda>a f. case Option.bind a (Audio_Processing.ProcessStream ops f) of
        None \<Rightarrow> (None, f, 0) | Some (a, f, r) \<Rightarrow> (Some a, f, r))\<rparr>"

abbreviation narrow_rate :: "int \<Rightarrow> bool" where "narrow_rate \<equiv> \<lambda>rate. rate = 8000 \<or> rate = 16000"

text \<open>The state of the module between the calls.\<close>

definition module_ok :: "'s submodules \<Rightarrow> int \<Rightarrow> 's AudioProcessingImpl option \<Rightarrow> bool" where
  "module_ok ops rate m \<longleftrightarrow> (\<exists>a on cl. m = Some a \<and> Audio_Processing_Inv.apm_ok ops on cl rate 1 1 a)"

section \<open>Settings\<close>

text \<open>Before the first frame, the state fits the noise suppression both on and off.\<close>

definition before_frames :: "'s submodules \<Rightarrow> int \<Rightarrow> 's AudioProcessingImpl \<Rightarrow> bool" where
  "before_frames ops rate a \<longleftrightarrow> (\<exists>on. Audio_Processing_Inv.apm_ok ops on (ns_enabled ops (others a)) rate 1 1 a \<and>
     (\<forall>cl. aecm_ok on cl (view_of ops a) (echo_control_mobile a)))"

lemma before_frames_ok: "before_frames ops rate a \<Longrightarrow> module_ok ops rate (Some a)"
  by (auto simp: before_frames_def module_ok_def)

lemma apm_ok_others:
  assumes "Audio_Processing_Inv.apm_ok ops on cl rate 1 1 a" "aecm_ok on cl' (view_of ops a) (echo_control_mobile a)" "ns_enabled ops s = cl'"
  shows "Audio_Processing_Inv.apm_ok ops on cl' rate 1 1 (a\<lparr>others := s\<rparr>)"
proof -
  have "aecm_ok on cl' (view_of ops (a\<lparr>others := s\<rparr>)) (echo_control_mobile a)"
    using assms(2) by (subst aecm_ok_view [of _ "view_of ops a"]) (simp_all add: num_handles_required_def view_of_def)
  then show ?thesis using assms(1,3) by (simp add: Audio_Processing_Inv.apm_ok_def apm_core_def)
qed

lemma before_frames_others: "before_frames ops rate a \<Longrightarrow> before_frames ops rate (a\<lparr>others := s\<rparr>)"
proof -
  assume "before_frames ops rate a"
  then obtain on where on: "Audio_Processing_Inv.apm_ok ops on (ns_enabled ops (others a)) rate 1 1 a"
      "\<forall>cl. aecm_ok on cl (view_of ops a) (echo_control_mobile a)" by (auto simp: before_frames_def)
  have "aecm_ok on cl (view_of ops (a\<lparr>others := s\<rparr>)) (echo_control_mobile a)" for cl
    using on(2) by (subst aecm_ok_view [of _ "view_of ops a"]) (simp_all add: num_handles_required_def view_of_def)
  then show ?thesis using apm_ok_others [OF on(1), of "ns_enabled ops s" s] on(2) by (auto simp: before_frames_def)
qed

lemma before_frames_high_pass:
  assumes "before_frames ops rate a"
  shows "before_frames ops rate (a\<lparr>high_pass_filter := High_Pass.HighPass_Enable (high_pass_filter a) b\<rparr>)"
proof -
  have l: "length (filters (High_Pass.HighPass_Enable h b)) = length (filters h)" for h by (simp add: HighPass_Enable_def Let_def)
  have v: "view_of ops (a\<lparr>high_pass_filter := h\<rparr>) = view_of ops a" for h by (simp add: view_of_def)
  show ?thesis using assms by (simp add: before_frames_def Audio_Processing_Inv.apm_ok_def apm_core_def l v)
qed

lemma before_frames_aecm:
  assumes "before_frames ops rate a" and "\<forall>cl. aecm_ok on cl (view_of ops a) e"
  shows "before_frames ops rate (a\<lparr>echo_control_mobile := e\<rparr>)"
proof -
  have "view_of ops (a\<lparr>echo_control_mobile := e\<rparr>) = view_of ops a" by (simp add: view_of_def)
  then show ?thesis using assms by (auto simp: before_frames_def Audio_Processing_Inv.apm_ok_def apm_core_def)
qed

text \<open>The mobile echo control through its settings: switched on, or off after an error.\<close>

lemma configure_handles_enabled: "enabled (fst (configure_handles n i c)) = enabled c"
  by (induction n i c rule: configure_handles.induct) (simp_all add: Let_def split: prod.split)

lemma aecm_ok_settings:
  assumes "\<forall>cl. aecm_ok on cl v c"
  shows "\<forall>cl. aecm_ok on cl v (fst (set_routing_mode c m))" "\<forall>cl. aecm_ok on cl v (fst (enable_comfort_noise c b))"
proof -
  have e: "enabled (fst (set_routing_mode c m)) = enabled c" "enabled (fst (enable_comfort_noise c b)) = enabled c"
    by (simp_all add: set_routing_mode_def enable_comfort_noise_def Configure_def configure_handles_enabled)
  show "\<forall>cl. aecm_ok on cl v (fst (set_routing_mode c m))"
    using assms e(1) set_routing_mode_ok [of _ v c m] by (metis aecm_ok_def fst_conv)
  show "\<forall>cl. aecm_ok on cl v (fst (enable_comfort_noise c b))"
    using assms e(2) enable_comfort_noise_ok [of _ v c b] by (metis aecm_ok_def fst_conv)
qed

lemma aecm_ok_enable:
  assumes "\<forall>k. inst_memory (snd (mem k))"
  obtains on where "\<forall>cl. aecm_ok on cl v (fst (Enable mem v new_EchoControlMobileImpl True))"
proof (cases "snd (Enable mem v new_EchoControlMobileImpl True) = kNoError")
  case True
  then have e: "Enable mem v new_EchoControlMobileImpl True = (fst (Enable mem v new_EchoControlMobileImpl True), kNoError)"
    by (metis prod.collapse)
  have "comp_ok cl v (fst (Enable mem v new_EchoControlMobileImpl True))" for cl using enable_ok [OF e assms] by blast
  then show ?thesis using that [of True] by (simp add: aecm_ok_def comp_ok_def)
next
  case False
  then have "\<not> enabled (fst (Enable mem v new_EchoControlMobileImpl True))"
    by (auto simp: Enable_def EnableComponent_def new_EchoControlMobileImpl_def Let_def split: if_splits prod.splits)
  then show ?thesis using that [of False] by (simp add: aecm_ok_def)
qed

section \<open>The contract\<close>

text \<open>
  What is asked of the submodules that are parameters: they keep the shape of the buffers and leave it to the settings whether the noise
  suppression is on, while the codes they report, in every frame of both directions, are any; and as long as nothing is switched on
  (\<open>idle\<close>, as they are created) their initialisation succeeds.
\<close>

definition others_ok :: "'s submodules \<Rightarrow> ('s \<Rightarrow> bool) \<Rightarrow> (apm_config \<Rightarrow> 's) \<Rightarrow> bool" where
  "others_ok ops idle fresh \<longleftrightarrow> (\<forall>cl. submodules_may UNIV ops cl) \<and> (\<exists>cl. submodules_start idle ops cl) \<and> (\<forall>c. idle (fresh c))"

lemma fold_layer: "fold (apply_setting (apm_layer ops setting fresh)) xs (Some a) = Some (fold (set_apm ops setting) xs a)"
  by (induction xs arbitrary: a) (simp_all add: apm_layer_def)

lemma set_others: "before_frames ops rate a \<Longrightarrow> x \<in> set apm_settings \<union> set ns_settings \<Longrightarrow>
    before_frames ops rate (set_apm ops setting x a) \<and> echo_control_mobile (set_apm ops setting x a) = echo_control_mobile a"
  by (auto simp: apm_settings_def ns_settings_def set_apm_def before_frames_others before_frames_high_pass)

lemma fold_others: "before_frames ops rate a \<Longrightarrow> set xs \<subseteq> set apm_settings \<union> set ns_settings \<Longrightarrow>
    before_frames ops rate (fold (set_apm ops setting) xs a) \<and> echo_control_mobile (fold (set_apm ops setting) xs a) = echo_control_mobile a"
proof (induction xs arbitrary: a)
  case (Cons x xs)
  then show ?case using set_others [of ops rate a x setting] by simp
qed simp

lemma fold_aecm:
  assumes "before_frames ops rate a" and "echo_control_mobile a = new_EchoControlMobileImpl" and "\<forall>k. inst_memory (snd (aecm_memory ops k))"
  shows "before_frames ops rate (fold (set_apm ops setting) aecm_settings a)"
proof -
  let ?v = "view_of ops a"
  define e1 where "e1 = fst (Enable (aecm_memory ops) ?v new_EchoControlMobileImpl True)"
  define e3 where "e3 = fst (enable_comfort_noise (fst (set_routing_mode e1 kSpeakerphone)) True)"
  obtain on where "\<forall>cl. aecm_ok on cl ?v e1" using aecm_ok_enable [OF assms(3)] e1_def by metis
  then have "\<forall>cl. aecm_ok on cl ?v e3" unfolding e3_def by (intro aecm_ok_settings)
  then have "before_frames ops rate (a\<lparr>echo_control_mobile := e3\<rparr>)" by (rule before_frames_aecm [OF assms(1)])
  then show ?thesis by (simp add: aecm_settings_def set_apm_def assms(2) e1_def e3_def)
qed

lemma configure_layer:
  assumes "before_frames ops rate a" and "echo_control_mobile a = new_EchoControlMobileImpl" and "\<forall>k. inst_memory (snd (aecm_memory ops k))"
  shows "\<exists>b. configure_apm (apm_layer ops setting fresh) (Some a) = Some b \<and> before_frames ops rate b"
proof -
  define a1 where "a1 = fold (set_apm ops setting) apm_settings a"
  have a1: "before_frames ops rate a1" "echo_control_mobile a1 = new_EchoControlMobileImpl"
    using fold_others [OF assms(1), of apm_settings setting] assms(2) by (simp_all add: a1_def)
  define a2 where "a2 = (if aec_enabled ops (others a1) then a1 else fold (set_apm ops setting) aecm_settings a1)"
  have a2: "before_frames ops rate a2" using a1(1) fold_aecm [OF a1 assms(3)] by (simp add: a2_def)
  have e: "aec_is_enabled (apm_layer ops setting fresh) (Some a1) = aec_enabled ops (others a1)" by (simp add: apm_layer_def)
  have "configure_apm (apm_layer ops setting fresh) (Some a) = Some (fold (set_apm ops setting) ns_settings a2)"
    unfolding configure_apm_def Let_def fold_layer a1_def [symmetric] e by (simp add: fold_layer a2_def)
  then show ?thesis using fold_others [OF a2, of ns_settings] by auto
qed

lemma frames_agree:
  "block_frame rate f \<Longrightarrow> narrow_rate rate \<Longrightarrow> Native_Inv.frame_ok f \<Longrightarrow> Audio_Processing_Inv.frame_ok rate 1 f"
  by (auto simp: block_frame_def Native_Inv.frame_ok_def Audio_Processing_Inv.frame_ok_def rate_frames_def)

lemma module_okE:
  assumes "module_ok ops rate m"
  obtains a on cl where "m = Some a" "Audio_Processing_Inv.apm_ok ops on cl rate 1 1 a" "narrow_rate rate"
  using assms by (auto simp: module_ok_def Audio_Processing_Inv.apm_ok_def apm_core_def)

text \<open>The module keeps the contract of the native layer.\<close>

lemma layer_contract:
  assumes ops: "others_ok ops idle fresh"
  shows "Native_Inv.apm_ok narrow_rate (module_ok ops) (apm_layer ops setting fresh)"
  unfolding Native_Inv.apm_ok_def
proof (intro conjI allI impI)
  have ok: "submodules_may UNIV ops cl" for cl using ops by (simp add: others_ok_def)
  obtain ns where start: "submodules_start idle ops ns" using ops by (auto simp: others_ok_def)
  fix k
  have fresh: "idle (fresh k)" using ops by (simp add: others_ok_def)
  obtain a where a: "Create ops (fresh k) = Some a" "echo_control_mobile a = new_EchoControlMobileImpl" "idle (others a)"
      "0 \<le> stream_delay a" "stream_delay a \<le> 500"
    using create_ok [OF start fresh] by (auto simp: Audio_Processing_Inv.apm_ok_def apm_core_def)
  then show "create_apm (apm_layer ops setting fresh) k \<noteq> None" by (simp add: apm_layer_def)
  fix m rate
  assume m: "create_apm (apm_layer ops setting fresh) k = Some m" and r: "narrow_rate rate"
  have ma: "m = Some a" using m a(1) by (simp add: apm_layer_def)
  have f: "native_format rate = stream_format rate 1 1" by (simp add: native_format_def stream_format_def CHANNEL_NUM_def)
  obtain b where b: "InitializeLocked_config ops (stream_format rate 1 1) a = (b, kNoError)"
      "Audio_Processing_Inv.apm_ok ops False ns rate 1 1 b" "echo_control_mobile b = new_EchoControlMobileImpl"
    using initialize_config_ok [OF start r, of 1 1 a] a(2-5) by (auto simp: new_EchoControlMobileImpl_def)
  have i: "initialize_apm (apm_layer ops setting fresh) m (native_format rate) = (Some b, 0)"
    using b(1) by (simp add: apm_layer_def ma f kNoError_def)
  then show "snd (initialize_apm (apm_layer ops setting fresh) m (native_format rate)) = 0" by simp
  have "ns_enabled ops (others b) = ns" using b(2) by (simp add: Audio_Processing_Inv.apm_ok_def apm_core_def)
  then have "before_frames ops rate b"
    using b(2,3) by (auto simp: before_frames_def aecm_ok_def new_EchoControlMobileImpl_def)
  moreover have "\<forall>k. inst_memory (snd (aecm_memory ops k))" using ok [of True] by (simp add: submodules_may_def)
  ultimately obtain c where "configure_apm (apm_layer ops setting fresh) (Some b) = Some c" "before_frames ops rate c"
    using configure_layer [of ops rate b setting fresh] b(3) by blast
  then show "module_ok ops rate (configure_apm (apm_layer ops setting fresh) (fst (initialize_apm (apm_layer ops setting fresh) m (native_format rate))))"
    unfolding i by (simp add: before_frames_ok)
next
  fix rate m d
  assume "module_ok ops rate m"
  then obtain a on cl where a: "m = Some a" "Audio_Processing_Inv.apm_ok ops on cl rate 1 1 a" by (rule module_okE)
  then show "module_ok ops rate (Native_Aec.set_stream_delay_ms (apm_layer ops setting fresh) m d)"
    using set_delay_ok(1) [OF a(2), of d] by (auto simp: module_ok_def apm_layer_def)
next
  have ok: "submodules_may UNIV ops cl" for cl using ops by (simp add: others_ok_def)
  fix rate m f
  assume m: "module_ok ops rate m" and f: "Native_Inv.frame_ok f" "block_frame rate f"
  obtain a on cl where a: "m = Some a" "Audio_Processing_Inv.apm_ok ops on cl rate 1 1 a" "narrow_rate rate" by (rule module_okE [OF m])
  note fr = frames_agree [OF f(2) a(3) f(1)]
  obtain a1 r1 where a1: "Audio_Processing.ProcessReverseStream ops f a = Some (a1, f, r1)" "Audio_Processing_Inv.apm_ok ops on cl rate 1 1 a1"
    using reverse_stream_ok [OF ok a(2) fr] by blast
  then show "module_ok ops rate (fst (Native_Aec.ProcessReverseStream (apm_layer ops setting fresh) m f))"
      "Native_Inv.frame_ok (fst (snd (Native_Aec.ProcessReverseStream (apm_layer ops setting fresh) m f)))"
    using f(1) by (auto simp: apm_layer_def a(1) module_ok_def)
  obtain a2 f2 r where a2: "Audio_Processing.ProcessStream ops f a = Some (a2, f2, r)" "Audio_Processing_Inv.apm_ok ops on cl rate 1 1 a2"
      "samples_per_channel f2 = samples_per_channel f" "length (frame_data f2) = length (frame_data f)"
    using process_stream_ok [OF ok a(2) fr] fr by (auto simp: Audio_Processing_Inv.frame_ok_def)
  then show "module_ok ops rate (fst (Native_Aec.ProcessStream (apm_layer ops setting fresh) m f))"
      "Native_Inv.frame_ok (fst (snd (Native_Aec.ProcessStream (apm_layer ops setting fresh) m f)))"
      "samples_per_channel (fst (snd (Native_Aec.ProcessStream (apm_layer ops setting fresh) m f))) = samples_per_channel f"
    using f(1) by (auto simp: apm_layer_def a(1) module_ok_def Native_Inv.frame_ok_def)
qed

section \<open>A module whose echo cancellation fails\<close>

text \<open>
  The submodules of the witnesses. The state is whether the echo cancellation and the noise suppression are on; the first, once on, refuses
  the second initialisation and answers every frame of both directions with an error.
\<close>

definition failing_aec :: "(bool \<times> bool) submodules" where
  "failing_aec = (quiet snd)\<lparr>aec_enabled := fst, aec_initialize := \<lambda>_ s. (s, if fst s then - 1 else 0),
     aec_render := \<lambda>_ _ s. (s, if fst s then - 1 else 0), aec_capture := \<lambda>_ b s. (s, b, if fst s then - 1 else 0)\<rparr>"

definition switches :: "apm_setting \<Rightarrow> bool \<Rightarrow> bool \<times> bool \<Rightarrow> bool \<times> bool" where
  "switches x aecm_on s = (case x of Aec_Enable b \<Rightarrow> (b, snd s) | Ns_Enable b \<Rightarrow> (fst s, b) | _ \<Rightarrow> s)"

definition off :: "bool \<times> bool \<Rightarrow> bool" where "off s \<longleftrightarrow> s = (False, False)"

abbreviation failing_layer :: "(bool \<times> bool) AudioProcessingImpl option apm_ops" where
  "failing_layer \<equiv> apm_layer failing_aec switches (\<lambda>_. (False, False))"

lemma failing_ok: "others_ok failing_aec off (\<lambda>_. (False, False))"
proof -
  have "submodules_start off failing_aec False" by (simp add: submodules_start_def off_def failing_aec_def quiet_def kNoError_def)
  moreover have "submodules_may UNIV failing_aec cl" for cl
    using all_memory_ok by (simp add: submodules_may_def failing_aec_def quiet_def silent_stage_def audio_stage_def kNoError_def)
  ultimately show ?thesis by (auto simp: others_ok_def off_def)
qed

lemma failing_on:
  "\<exists>b. configure_apm failing_layer (Some a) = Some b \<and> (\<forall>v x. aec_capture failing_aec v x (others b) = (others b, x, - 1))"
  by (simp add: configure_apm_def apm_settings_def ns_settings_def apm_layer_def set_apm_def switches_def failing_aec_def quiet_def Let_def)

section \<open>Properties\<close>

text \<open>
  C1. The library as a whole, at 8 or 16 kHz: whatever sequence of calls a single caller makes, with arrays that hold the given number of
  bytes and volumes from 0 to 1, no call faults in the native layer or in the module, and while a handle is set its module is there and
  processes at the rate of the handle. The submodules that are parameters, the floating-point echo cancellation among
  them, may report any error for any frame; what is asked of them is that they keep the shape of the buffers and can be initialised before they
  are switched on.
\<close>

theorem native_module_run:
  assumes "others_ok ops idle fresh" and "list_all (jni_call_ok narrow_rate) calls"
  shows "\<exists>g. jni_run (apm_layer ops setting fresh) calls loaded = Some g \<and>
    (\<forall>h. handle g = Some h \<longrightarrow> (\<exists>a ah. Native_Aec.handles g h = Some ah \<and> Native_Aec.apm g = Some (Some a) \<and> fwd_proc_rate a = sample_rate ah \<and>
       api_format a = stream_format (sample_rate ah) 1 1))"
proof -
  obtain g where g: "jni_run (apm_layer ops setting fresh) calls loaded = Some g" "jni_ok (module_ok ops) g"
    using jni_run_ok [OF layer_contract [OF assms(1)] assms(2) jni_ok_loaded] by blast
  then show ?thesis
    by (fastforce simp: jni_ok_def native_ok_def module_ok_def Audio_Processing_Inv.apm_ok_def apm_core_def)
qed

text \<open>The witness: the echo cancellation is on and fails in every frame.\<close>

lemma native_module_run_witness:
  "\<exists>g a h. jni_run failing_layer [Jni_Init True 16000, Jni_Process (replicate 640 1) (replicate 640 2) (replicate 640 3) 640 60 1 1] loaded = Some g \<and>
     handle g = Some h \<and> Native_Aec.apm g = Some (Some a) \<and> fwd_proc_rate a = 16000 \<and>
     (\<exists>b. configure_apm failing_layer (Some a) = Some b \<and> (\<forall>v x. aec_capture failing_aec v x (others b) = (others b, x, - 1)))"
proof -
  let ?p = "Jni_Process (replicate 640 1) (replicate 640 2) (replicate 640 3) 640 60 1 1"
  have "list_all (jni_call_ok narrow_rate) [Jni_Init True 16000, ?p]"
    by (simp add: jni_call_ok_def s32_def rate_ok_def process_ok_def volume_ok_def)
  from native_module_run [OF failing_ok this, of switches] obtain g where g: "jni_run failing_layer [Jni_Init True 16000, ?p] loaded = Some g"
      "\<forall>h. handle g = Some h \<longrightarrow> (\<exists>a ah. Native_Aec.handles g h = Some ah \<and> Native_Aec.apm g = Some (Some a) \<and> fwd_proc_rate a = sample_rate ah \<and>
         api_format a = stream_format (sample_rate ah) 1 1)" by blast
  have r: "rate_ok (s32 16000) \<and> narrow_rate (s32 16000)" by (simp add: s32_def rate_ok_def)
  obtain g1 where g1: "WebRtcUtil_init failing_layer True 16000 loaded = (g1, 0)" "jni_ok (module_ok failing_aec) g1" "handle g1 \<noteq> None"
    by (rule jni_init_ok [OF layer_contract [OF failing_ok] r jni_ok_loaded, where ok = True]) simp
  obtain h rate where h: "handle g1 = Some h" "Native_Aec.handles g1 h = Some \<lparr>magic = AP_AEC_MAGIC, sample_rate = rate\<rparr>"
      "native_ok (module_ok failing_aec) rate g1"
    using g1(2,3) by (auto simp: jni_ok_def)
  have rate: "rate = 16000"
    using g1(1) h(1,2) by (auto simp: WebRtcUtil_init_def audio_process_aec_create_def Let_def s32_def)
  have fits: "process_ok (replicate 640 1) (replicate 640 2) (replicate 640 3) 640" "volume_ok 1" by (simp_all add: process_ok_def volume_ok_def)
  obtain s fin where "WebRtcUtil_bufferFarendAndProcess failing_layer (replicate 640 1) (replicate 640 2) (replicate 640 3) 640 60 1 1 g1 =
      Some (with_module g1 s, fin, 0)"
    by (rule process_blocks [OF layer_contract [OF failing_ok] h(3,2,1) fits fits(2), where delay = 60])
  then have "g = with_module g1 s" using g(1) g1(1) by (simp add: jni_step_def)
  then show ?thesis using g h(1,2) rate failing_on by (auto simp: with_module_rest)
qed

text \<open>
  C17. The handles, modules and frames of the library at 8 or 16 kHz, for a single caller whose arrays hold the given number of bytes and
  whose volumes are from 0 to 1: no call follows a null or dangling pointer or leaves an array, every handle has its module and its two
  frames, and those alive in the end are the ones in use and one for every initialisation that was made while a handle was set: without a call
  of \<open>free\<close> between two of them, the first is lost. The module is that of the model; its creation and
  initialisation succeed because its submodules can be initialised before they are switched on.
\<close>

theorem jni_lifecycle:
  assumes "others_ok ops idle fresh" and "list_all (jni_call_ok narrow_rate) calls"
  shows "\<exists>g. jni_run (apm_layer ops setting fresh) calls loaded = Some g \<and> card (dom (Native_Aec.handles g)) = live_apms g \<and>
    live_frames g = 2 * live_apms g \<and>
    live_apms g = (if handle g = None then 0 else 1) + lost_handles (apm_layer ops setting fresh) calls loaded"
  by (rule jni_counts [OF layer_contract [OF assms(1)] assms(2)])

lemma jni_lifecycle_witness:
  "\<exists>g. jni_run failing_layer [Jni_Init True 8000, Jni_Init True 16000, Jni_Free] loaded = Some g \<and> live_apms g = 1 \<and> handle g = None"
proof -
  let ?calls = "[Jni_Init True 8000, Jni_Init True 16000, Jni_Free]"
  have "list_all (jni_call_ok narrow_rate) ?calls" by (simp add: jni_call_ok_def rate_ok_def s32_def)
  from jni_lifecycle [OF failing_ok this, of switches] obtain g where g: "jni_run failing_layer ?calls loaded = Some g"
    "live_apms g = (if handle g = None then 0 else 1) + lost_handles failing_layer ?calls loaded" by blast
  moreover have "handle g = None" using g(1) by (auto simp: jni_step_def WebRtcUtil_free_def split: option.splits)
  moreover have "lost_handles failing_layer ?calls loaded = 1"
    by (simp add: overwrites_def jni_step_def WebRtcUtil_init_def audio_process_aec_create_def Let_def loaded_def split: option.splits)
  ultimately show ?thesis by auto
qed

text \<open>
  C19. The library at 8 or 16 kHz under several threads, when the initialisation is kept apart from the other calls: no thread ever follows a
  null or dangling pointer or leaves an array, whatever the threads do otherwise, and the handle that is set while no call is under way
  belongs to a module that is alive, has not faulted and processes at the rate of the handle. Here too the creation of the module succeeds because its
  submodules can be initialised before they are switched on.
\<close>

theorem serial_threads_safe:
  assumes "others_ok ops idle fresh" and "reachable_at narrow_rate (apm_layer ops setting fresh) s"
  shows "threads s t \<noteq> Crashed \<and>
    ((\<forall>u. threads s u = Idle) \<longrightarrow> (\<forall>h. handle (globals s) = Some h \<longrightarrow> (\<exists>a ah. Native_Aec.handles (globals s) h = Some ah \<and>
       Native_Aec.apm (globals s) = Some (Some a) \<and> fwd_proc_rate a = sample_rate ah \<and> far_frame (globals s) \<noteq> None \<and> near_frame (globals s) \<noteq> None)))"
proof -
  note safe = serial_safe [OF layer_contract [OF assms(1)] assms(2)]
  show ?thesis using safe(1) [of t] safe(2)
    by (fastforce simp: native_ok_def module_ok_def Audio_Processing_Inv.apm_ok_def apm_core_def)
qed

lemma serial_threads_safe_witness:
  "\<exists>s a. reachable_at narrow_rate failing_layer s \<and> handle (globals s) = Some 0 \<and> Native_Aec.apm (globals s) = Some (Some a) \<and> threads s 3 \<noteq> Crashed"
proof -
  obtain s where s: "reachable_at narrow_rate failing_layer s" "\<forall>u. threads s u = Idle" "handle (globals s) = Some 0"
    using serial_init [of narrow_rate failing_layer] by auto
  show ?thesis using serial_threads_safe [OF failing_ok s(1), of 3] s by blast
qed

end
