(* ===== verification/Nsx_Core.thy ===== *)
theory Nsx_Core
  imports Nsx_Tables
begin

text \<open>
  The noise suppression in fixed point (\<^verbatim>\<open>nsx_core.c\<close>, \<^verbatim>\<open>nsx_core.h\<close>, \<^verbatim>\<open>noise_suppression_x.c\<close>): its state, creation,
  initialisation and policy, and the estimates of the noise by quantiles and by a parametric model.

  The functions are the generic C ones. A pointer to a table is the table, and a number of samples or of stages is a
  natural number. The code shifts by computed amounts in many places and asserts only a few of them. A shift by less
  than 0 or more than 31 bits is undefined in C. Here it shifts everything out, as a shift by 32 to 255 bits does on the ARM
  processors of the build; on those of x86 and MIPS, for which the library is built too, the count is taken modulo 32, so that
  the values of such a shift are not those of the model. A division by zero, which is undefined as well, gives zero
  here; on x86 it stops the program. Where a frame gets to such a shift or division, what is shown is shown of these conventions.
\<close>

section \<open>Shifts by computed amounts\<close>

definition lsl :: "int \<Rightarrow> int \<Rightarrow> int" where "lsl x n = (if 0 \<le> n \<and> n < 32 then u32 (shl x (nat n)) else 0)"
definition lsr :: "int \<Rightarrow> int \<Rightarrow> int" where "lsr x n = (if 0 \<le> n \<and> n < 32 then shr x (nat n) else 0)"
definition asr :: "int \<Rightarrow> int \<Rightarrow> int" where "asr x n = (if 0 \<le> n \<and> n < 32 then shr x (nat n) else if x < 0 then - 1 else 0)"

section \<open>State\<close>

record NoiseSuppressionFixedC =
  fs :: int
  window :: "int list"
  analysisBuffer :: "int list"
  synthesisBuffer :: "int list"
  noiseSupFilter :: "int list"
  overdrive :: int
  denoiseBound :: int
  factor2Table :: "int list"
  noiseEstLogQuantile :: "int list"
  noiseEstDensity :: "int list"
  noiseEstCounter :: "int list"
  noiseEstQuantile :: "int list"
  anaLen :: nat
  anaLen2 :: nat
  magnLen :: nat
  aggrMode :: int
  stages :: nat
  nsx_initFlag :: int
  gainMap :: int
  maxLrt :: int
  minLrt :: int
  logLrtTimeAvgW32 :: "int list"
  featureLogLrt :: int
  thresholdLogLrt :: int
  weightLogLrt :: int
  featureSpecDiff :: int
  thresholdSpecDiff :: int
  weightSpecDiff :: int
  featureSpecFlat :: int
  thresholdSpecFlat :: int
  weightSpecFlat :: int
  avgMagnPause :: "int list"
  magnEnergy :: int
  sumMagn :: int
  curAvgMagnEnergy :: int
  timeAvgMagnEnergy :: int
  timeAvgMagnEnergyTmp :: int
  whiteNoiseLevel :: int
  initMagnEst :: "int list"
  pinkNoiseNumerator :: int
  pinkNoiseExp :: int
  minNorm :: int
  zeroInputSignal :: int
  prevNoiseU32 :: "int list"
  prevMagnU16 :: "int list"
  priorNonSpeechProb :: int
  blockIndex :: int
  modelUpdate :: int
  cntThresUpdate :: int
  histLrt :: "int list"
  histSpecFlat :: "int list"
  histSpecDiff :: "int list"
  dataBufHBFX :: "int list list"
  qNoise :: int
  prevQNoise :: int
  prevQMagn :: int
  blockLen10ms :: nat
  realPart :: "int list"
  imagPart :: "int list"
  energyIn :: int
  scaleEnergyIn :: int
  normData :: int
  nsx_fft :: "RealFFT option"

definition NUM_HIGH_BANDS_MAX :: nat where "NUM_HIGH_BANDS_MAX = 2"

section \<open>Creation, initialisation and policy\<close>

text \<open>\<open>raw\<close> is what \<^verbatim>\<open>malloc\<close> left in the object.\<close>

definition WebRtcNsx_Create :: "NoiseSuppressionFixedC \<Rightarrow> NoiseSuppressionFixedC" where
  "WebRtcNsx_Create raw = raw\<lparr>nsx_fft := None, nsx_initFlag := 0\<rparr>"

definition WebRtcNsx_set_policy_core :: "NoiseSuppressionFixedC \<Rightarrow> int \<Rightarrow> NoiseSuppressionFixedC \<times> int" where
  "WebRtcNsx_set_policy_core inst mode =
     (if mode < 0 \<or> mode > 3 then (inst, - 1)
      else let inst = inst\<lparr>aggrMode := mode\<rparr>
           in (if mode = 0 then inst\<lparr>overdrive := 256, denoiseBound := 8192, gainMap := 0\<rparr>
               else if mode = 1 then inst\<lparr>overdrive := 256, denoiseBound := 4096, factor2Table := kFactor2Aggressiveness1, gainMap := 1\<rparr>
               else if mode = 2 then inst\<lparr>overdrive := 282, denoiseBound := 2048, factor2Table := kFactor2Aggressiveness2, gainMap := 1\<rparr>
               else inst\<lparr>overdrive := 320, denoiseBound := 1475, factor2Table := kFactor2Aggressiveness3, gainMap := 1\<rparr>, 0))"

text \<open>The part of the initialisation that depends on the rate.\<close>

definition nsx_format :: "NoiseSuppressionFixedC \<Rightarrow> int \<Rightarrow> NoiseSuppressionFixedC" where
  "nsx_format inst rate =
     (let inst = (if rate = 8000
                  then inst\<lparr>fs := rate, blockLen10ms := 80, anaLen := 128, stages := 7, window := kBlocks80w128x,
                            thresholdLogLrt := 131072, maxLrt := 0x0040000, minLrt := 52429\<rparr>
                  else inst\<lparr>fs := rate, blockLen10ms := 160, anaLen := 256, stages := 8, window := kBlocks160w256x,
                            thresholdLogLrt := 212644, maxLrt := 0x0080000, minLrt := 104858\<rparr>)
      in inst\<lparr>anaLen2 := anaLen inst div 2, magnLen := anaLen inst div 2 + 1\<rparr>)"

definition nsx_reset :: "NoiseSuppressionFixedC \<Rightarrow> NoiseSuppressionFixedC" where
  "nsx_reset inst = inst\<lparr>
     analysisBuffer := replicate ANAL_BLOCKL_MAX 0, synthesisBuffer := replicate ANAL_BLOCKL_MAX 0,
     dataBufHBFX := replicate NUM_HIGH_BANDS_MAX (replicate ANAL_BLOCKL_MAX 0),
     noiseEstQuantile := replicate HALF_ANAL_BLOCKL 0,
     noiseEstLogQuantile := replicate (SIMULT * HALF_ANAL_BLOCKL) 2048,
     noiseEstDensity := replicate (SIMULT * HALF_ANAL_BLOCKL) 153,
     noiseEstCounter := map (\<lambda>i. cdiv (s16 (END_STARTUP_LONG * (int i + 1))) (int SIMULT)) [0..<SIMULT],
     noiseSupFilter := replicate HALF_ANAL_BLOCKL 16384,
     aggrMode := 0, priorNonSpeechProb := 8192,
     prevMagnU16 := replicate HALF_ANAL_BLOCKL 0, prevNoiseU32 := replicate HALF_ANAL_BLOCKL 0,
     logLrtTimeAvgW32 := replicate HALF_ANAL_BLOCKL 0, avgMagnPause := replicate HALF_ANAL_BLOCKL 0,
     initMagnEst := replicate HALF_ANAL_BLOCKL 0,
     thresholdSpecDiff := 50, thresholdSpecFlat := 20480, featureLogLrt := thresholdLogLrt inst,
     featureSpecFlat := 20480, featureSpecDiff := 50,
     weightLogLrt := 6, weightSpecFlat := 0, weightSpecDiff := 0,
     curAvgMagnEnergy := 0, timeAvgMagnEnergy := 0, timeAvgMagnEnergyTmp := 0,
     histLrt := replicate HIST_PAR_EST 0, histSpecDiff := replicate HIST_PAR_EST 0, histSpecFlat := replicate HIST_PAR_EST 0,
     blockIndex := - 1, modelUpdate := shl 1 STAT_UPDATES, cntThresUpdate := 0,
     sumMagn := 0, magnEnergy := 0, prevQMagn := 0, qNoise := 0, prevQNoise := 0,
     energyIn := 0, scaleEnergyIn := 0, whiteNoiseLevel := 0, pinkNoiseNumerator := 0, pinkNoiseExp := 0,
     minNorm := 15, zeroInputSignal := 0\<rparr>"

text \<open>\<open>m\<close> says whether the memory of the transform can be had. The object before it is released here.\<close>

definition WebRtcNsx_InitCore :: "bool \<Rightarrow> NoiseSuppressionFixedC option \<Rightarrow> int \<Rightarrow> NoiseSuppressionFixedC option \<times> int" where
  "WebRtcNsx_InitCore m inst rate =
     (case inst of None \<Rightarrow> (None, - 1)
      | Some inst \<Rightarrow>
          if \<not> (rate = 8000 \<or> rate = 16000 \<or> rate = 32000 \<or> rate = 48000) then (Some inst, - 1)
          else let inst = nsx_format inst rate;
                   inst = inst\<lparr>nsx_fft := WebRtcSpl_CreateRealFFT m (int (stages inst))\<rparr>
               in if nsx_fft inst = None then (Some inst, - 1)
                  else let inst = fst (WebRtcNsx_set_policy_core (nsx_reset inst) 0)
                       in (Some (inst\<lparr>nsx_initFlag := 1\<rparr>), 0))"

definition WebRtcNsx_Init :: "bool \<Rightarrow> NoiseSuppressionFixedC option \<Rightarrow> int \<Rightarrow> NoiseSuppressionFixedC option \<times> int" where
  "WebRtcNsx_Init m inst rate = WebRtcNsx_InitCore m inst (u32 rate)"

definition WebRtcNsx_set_policy :: "NoiseSuppressionFixedC \<Rightarrow> int \<Rightarrow> NoiseSuppressionFixedC \<times> int" where
  "WebRtcNsx_set_policy inst mode = WebRtcNsx_set_policy_core inst mode"

section \<open>Noise by quantiles\<close>

text \<open>The logarithm to base two of a value above zero in Q8, as it is computed in several places.\<close>

definition log2_Q8 :: "int \<Rightarrow> int" where
  "log2_Q8 m =
     (let zeros = WebRtcSpl_NormU32 m;
          frac = s16 (shr (u32 (shl m (nat zeros)) AND 0x7FFFFFFF) 23)
      in shl (31 - zeros) 8 + WebRtcNsx_kLogTableFrac ! nat frac)"

text \<open>One turn of the loop of \<open>UpdateNoiseEstimate\<close>: the quantile that a logarithm in Q8 stands for, in Q(\<open>q\<close>).\<close>

definition quantile_value :: "int \<Rightarrow> int \<Rightarrow> int" where
  "quantile_value q lq =
     (let tmp32no2 = 11819 * lq;
          tmp32no1 = 0x00200000 OR (tmp32no2 AND 0x001FFFFF);
          tmp16 = s16 (shr tmp32no2 21);
          tmp16 = s16 (tmp16 - 21);
          tmp16 = s16 (tmp16 + s16 q)
      in WebRtcSpl_SatW32ToW16 (if tmp16 < 0 then asr tmp32no1 (- tmp16) else s32 (lsl tmp32no1 tmp16)))"

definition UpdateNoiseEstimate :: "NoiseSuppressionFixedC \<Rightarrow> nat \<Rightarrow> NoiseSuppressionFixedC" where
  "UpdateNoiseEstimate inst offset =
     (let tmp16 = WebRtcSpl_MaxValueW16C (drop offset (noiseEstLogQuantile inst)) (magnLen inst);
          q = 14 - WEBRTC_SPL_MUL_16_16_RSFT_WITH_ROUND 11819 tmp16 21
      in inst\<lparr>qNoise := q,
              noiseEstQuantile := blit (noiseEstQuantile inst) 0
                (map (\<lambda>i. quantile_value q (noiseEstLogQuantile inst ! (offset + i))) [0..<magnLen inst])\<rparr>)"

definition log_stages :: "NoiseSuppressionFixedC \<Rightarrow> int" where
  "log_stages inst =
     (let tabind = s16 (int (stages inst) - normData inst)
      in if tabind < 0 then s16 (- (WebRtcNsx_kLogTable ! nat (- tabind))) else WebRtcNsx_kLogTable ! nat tabind)"

definition log_magn :: "int \<Rightarrow> int \<Rightarrow> int" where
  "log_magn logval m = (if m \<noteq> 0 then s16 (s16 (shr (s16 (log2_Q8 m) * 22713) 15) + logval) else logval)"

text \<open>One turn of the inner loop: the quantile and the density of a bin.\<close>

definition quant_est :: "int \<Rightarrow> int \<Rightarrow> int \<Rightarrow> int \<Rightarrow> int \<Rightarrow> int \<Rightarrow> int \<Rightarrow> int \<times> int" where
  "quant_est index logval countDiv countProd lmagn lq dens =
     (let delta = (if dens > 512 then s16 (asr FACTOR_Q16 (14 - WebRtcSpl_NormW16 dens))
                   else if index < END_STARTUP_LONG then FACTOR_Q7_STARTUP else FACTOR_Q7);
          tmp16 = s16 (shr (delta * countDiv) 14);
          lq = (if lmagn > lq then s16 (lq + cdiv (s16 (tmp16 + 2)) 4)
                else let lq = s16 (lq - s16 (cdiv (cdiv (s16 (tmp16 + 1)) 2 * 3) 2)) in if lq < logval then logval else lq);
          dens = (if \<bar>lmagn - lq\<bar> < WIDTH_Q8
                  then s16 (s16 (WEBRTC_SPL_MUL_16_16_RSFT_WITH_ROUND dens countProd 15)
                            + s16 (WEBRTC_SPL_MUL_16_16_RSFT_WITH_ROUND 21845 countDiv 15))
                  else dens)
      in (lq, dens))"

text \<open>One of the simultaneous estimates.\<close>

definition noise_estimator :: "(nat \<Rightarrow> int) \<Rightarrow> int \<Rightarrow> nat \<Rightarrow> NoiseSuppressionFixedC \<Rightarrow> NoiseSuppressionFixedC" where
  "noise_estimator lmagn logval s inst =
     (let offset = s * magnLen inst;
          counter = noiseEstCounter inst ! s;
          countDiv = WebRtcNsx_kCounterDiv ! nat counter;
          countProd = s16 (counter * countDiv);
          (lqs, densities) =
            fold (\<lambda>i (lqs, densities).
                let (lq, dens) = quant_est (blockIndex inst) logval countDiv countProd (lmagn i) (lqs ! (offset + i)) (densities ! (offset + i))
                in (lqs[offset + i := lq], densities[offset + i := dens]))
              [0..<magnLen inst] (noiseEstLogQuantile inst, noiseEstDensity inst);
          inst = inst\<lparr>noiseEstLogQuantile := lqs, noiseEstDensity := densities\<rparr>;
          inst = (if counter \<ge> END_STARTUP_LONG
                  then let inst = inst\<lparr>noiseEstCounter := (noiseEstCounter inst)[s := 0]\<rparr>
                       in if blockIndex inst \<ge> END_STARTUP_LONG then UpdateNoiseEstimate inst offset else inst
                  else inst)
      in inst\<lparr>noiseEstCounter := (noiseEstCounter inst)[s := s16 (noiseEstCounter inst ! s + 1)]\<rparr>)"

definition NoiseEstimationC :: "NoiseSuppressionFixedC \<Rightarrow> int list \<Rightarrow> NoiseSuppressionFixedC \<times> int list \<times> int" where
  "NoiseEstimationC inst magn =
     (let logval = log_stages inst;
          inst = fold (noise_estimator (\<lambda>i. log_magn logval (magn ! i)) logval) [0..<SIMULT] inst;
          inst = (if blockIndex inst < END_STARTUP_LONG then UpdateNoiseEstimate inst ((SIMULT - 1) * magnLen inst) else inst)
      in (inst, map (\<lambda>i. u32 (noiseEstQuantile inst ! i)) [0..<magnLen inst], s16 (qNoise inst)))"

section \<open>Parametric noise\<close>

text \<open>The two results, which keep the given values where the exponent is not above zero.\<close>

definition WebRtcNsx_CalcParametricNoiseEstimate :: "NoiseSuppressionFixedC \<Rightarrow> int \<Rightarrow> int \<Rightarrow> nat \<Rightarrow> int \<times> int \<Rightarrow> int \<times> int" where
  "WebRtcNsx_CalcParametricNoiseEstimate inst pink_noise_exp_avg pink_noise_num_avg freq_index = (\<lambda>(noise_estimate, noise_estimate_avg).
     let tmp32no2 = shr (pink_noise_exp_avg * kLogIndex ! freq_index) 15;
         tmp32no1 = s32 (pink_noise_num_avg - tmp32no2);
         tmp32no1 = s32 (tmp32no1 + shl (minNorm inst - int (stages inst)) 11)
     in if tmp32no1 > 0
        then let int_part = s16 (shr tmp32no1 11);
                 frac_part = s16 (tmp32no1 AND 0x000007ff);
                 tmp32no2 = (if shr frac_part 10 \<noteq> 0 then 2048 - shr ((2048 - frac_part) * 1244) 10 else shr (frac_part * 804) 10);
                 tmp32no2 = WEBRTC_SPL_SHIFT_W32 tmp32no2 (int_part - 11);
                 avg = u32 (lsl 1 int_part + u32 tmp32no2)
             in (u32 (avg * u32 (blockIndex inst + 1)), avg)
        else (noise_estimate, noise_estimate_avg))"

end
