(* ===== verification/Nsx_Features.thy ===== *)
theory Nsx_Features
  imports Nsx_Core
begin

text \<open>
  The features by which the noise suppression tells speech from noise (\<^verbatim>\<open>nsx_core.c\<close>, \<^verbatim>\<open>nsx_core_c.c\<close>): the likelihood
  ratio, the spectral flatness and the difference to the spectrum of the noise, the histograms from which their thresholds
  and weights are taken, and the probability that a bin is noise.
\<close>

section \<open>Histograms, thresholds and weights\<close>

definition count_hist :: "int list \<Rightarrow> int \<Rightarrow> int list" where
  "count_hist hist idx = (if idx < int HIST_PAR_EST then hist[nat idx := s16 (hist ! nat idx + 1)] else hist)"

definition update_histograms :: "NoiseSuppressionFixedC \<Rightarrow> NoiseSuppressionFixedC" where
  "update_histograms inst = inst\<lparr>
     histLrt := count_hist (histLrt inst) (u32 (featureLogLrt inst)),
     histSpecFlat := count_hist (histSpecFlat inst) (shr (u32 (featureSpecFlat inst * 5)) 8),
     histSpecDiff := count_hist (histSpecDiff inst)
       (if timeAvgMagnEnergy inst > 0 then shr (u32 (featureSpecDiff inst * 5)) (stages inst) div timeAvgMagnEnergy inst
        else int HIST_PAR_EST)\<rparr>"

text \<open>
  The sums over the histogram of the likelihood ratio: \<open>avgHistLrtFX\<close>, \<open>numHistLrt\<close>, \<open>avgSquareHistLrtFX\<close> and
  \<open>avgHistLrtComplFX\<close>.
\<close>

definition lrt_sums :: "int list \<Rightarrow> int \<times> int \<times> int \<times> int" where
  "lrt_sums hist =
     (let (avg, num, sq) =
            fold (\<lambda>i (avg, num, sq). let j = 2 * int i + 1; tmp32 = hist ! i * j
                                     in (s32 (avg + tmp32), s16 (num + hist ! i), s32 (sq + s32 (tmp32 * j))))
              [0..<BIN_SIZE_LRT] (0, 0, 0);
          (compl, sq) =
            fold (\<lambda>i (compl, sq). let j = 2 * int i + 1; tmp32 = hist ! i * j
                                  in (s32 (compl + tmp32), s32 (sq + s32 (tmp32 * j))))
              [BIN_SIZE_LRT..<HIST_PAR_EST] (avg, sq)
      in (avg, num, sq, compl))"

text \<open>
  The two largest peaks of a histogram, \<open>(maxPeak1, maxPeak2, posPeak1, posPeak2)\<close>; in the code the weights of the peaks are
  second variables with the values of \<open>maxPeak1\<close> and \<open>maxPeak2\<close>.
\<close>

definition find_peaks :: "int list \<Rightarrow> int \<times> int \<times> int \<times> int" where
  "find_peaks hist =
     fold (\<lambda>i (maxPeak1, maxPeak2, pos1, pos2).
         if hist ! i > maxPeak1 then (hist ! i, maxPeak1, 2 * int i + 1, pos1)
         else if hist ! i > maxPeak2 then (maxPeak1, hist ! i, pos1, 2 * int i + 1)
         else (maxPeak1, maxPeak2, pos1, pos2))
       [0..<HIST_PAR_EST] (0, 0, 0, 0)"

text \<open>Weight and position of the main peak. The difference of the positions is unsigned.\<close>

definition merge_peaks :: "int \<times> int \<times> int \<times> int \<Rightarrow> int \<times> int" where
  "merge_peaks = (\<lambda>(weight1, weight2, pos1, pos2).
     if u32 (pos1 - pos2) < LIM_PEAK_SPACE_FLAT_DIFF \<and> weight2 * LIM_PEAK_WEIGHT_FLAT_DIFF > weight1
     then (weight1 + weight2, shr (u32 (pos1 + pos2)) 1) else (weight1, pos1))"

definition extract_parameters :: "NoiseSuppressionFixedC \<Rightarrow> NoiseSuppressionFixedC" where
  "extract_parameters inst =
     (let (avg, num, sq, compl) = lrt_sums (histLrt inst);
          fluct = s32 (s32 (sq * num) - s32 (avg * compl));
          thres = s32 (THRES_FLUCT_LRT * num);
          tmpU32 = u32 (FACTOR_1_LRT_DIFF * u32 avg);
          logLrt = (if fluct < thres \<or> num = 0 \<or> tmpU32 > u32 (100 * num) then maxLrt inst
                    else WEBRTC_SPL_SAT (maxLrt inst) (s32 (u32 (shl tmpU32 (9 + stages inst)) div u32 num div 25)) (minLrt inst));
          (weightFlat, posFlat) = merge_peaks (find_peaks (histSpecFlat inst));
          useFlat = (if weightFlat < THRES_WEIGHT_FLAT_DIFF \<or> posFlat < THRES_PEAK_FLAT then 0 else 1);
          flat = (if useFlat = 0 then thresholdSpecFlat inst
                  else WEBRTC_SPL_SAT MAX_FLAT_Q10 (u32 (FACTOR_2_FLAT_Q10 * posFlat)) MIN_FLAT_Q10);
          (weightDiff, posDiff) = merge_peaks (find_peaks (histSpecDiff inst));
          diff = (if fluct < thres then thresholdSpecDiff inst
                  else WEBRTC_SPL_SAT MAX_DIFF (u32 (FACTOR_1_LRT_DIFF * posDiff)) MIN_DIFF);
          useDiff = (if fluct < thres \<or> weightDiff < THRES_WEIGHT_FLAT_DIFF then 0 else 1);
          featureSum = cdiv 6 (1 + useFlat + useDiff)
      in inst\<lparr>thresholdLogLrt := logLrt, thresholdSpecFlat := flat, thresholdSpecDiff := diff,
              weightLogLrt := s16 featureSum, weightSpecFlat := s16 (useFlat * featureSum), weightSpecDiff := s16 (useDiff * featureSum),
              histLrt := replicate HIST_PAR_EST 0, histSpecDiff := replicate HIST_PAR_EST 0, histSpecFlat := replicate HIST_PAR_EST 0\<rparr>)"

definition WebRtcNsx_FeatureParameterExtraction :: "NoiseSuppressionFixedC \<Rightarrow> bool \<Rightarrow> NoiseSuppressionFixedC" where
  "WebRtcNsx_FeatureParameterExtraction inst flag = (if \<not> flag then update_histograms inst else extract_parameters inst)"

section \<open>Spectral flatness\<close>

definition current_flatness :: "NoiseSuppressionFixedC \<Rightarrow> int list \<Rightarrow> int" where
  "current_flatness inst magn =
     (let num = fold (\<lambda>i num. u32 (num + u32 (log2_Q8 (magn ! i)))) [1..<magnLen inst] 0;
          den = u32 (sumMagn inst - magn ! 0);
          tmp32 = log2_Q8 den;
          logCur = s32 num;
          logCur = s32 (logCur + shl (int (stages inst) - 1) (stages inst + 7));
          logCur = s32 (logCur - s32 (shl tmp32 (stages inst - 1)));
          logCur = s32 (shl logCur (10 - stages inst));
          tmp32 = 0x00020000 OR (WEBRTC_SPL_ABS_W32 logCur AND 0x0001FFFF);
          intPart = s16 (7 - shr logCur 17)
      in if intPart > 0 then asr tmp32 intPart else s32 (lsl tmp32 (- intPart)))"

definition WebRtcNsx_ComputeSpectralFlatness :: "NoiseSuppressionFixedC \<Rightarrow> int list \<Rightarrow> NoiseSuppressionFixedC" where
  "WebRtcNsx_ComputeSpectralFlatness inst magn =
     (if list_ex (\<lambda>i. magn ! i = 0) [1..<magnLen inst]
      then let tmpU32 = WEBRTC_SPL_UMUL_32_16 (featureSpecFlat inst) SPECT_FLAT_TAVG_Q14
           in inst\<lparr>featureSpecFlat := u32 (featureSpecFlat inst - shr tmpU32 14)\<rparr>
      else let tmp32 = s32 (current_flatness inst magn - s32 (featureSpecFlat inst));
               tmp32 = s32 (tmp32 * SPECT_FLAT_TAVG_Q14)
           in inst\<lparr>featureSpecFlat := u32 (featureSpecFlat inst + shr tmp32 14)\<rparr>)"

section \<open>Spectral difference\<close>

text \<open>
  The variances and the covariance, \<open>(varMagnUFX, varPauseUFX, covMagnPauseFX)\<close>, and the number of shifts in them.
\<close>

definition pause_statistics :: "NoiseSuppressionFixedC \<Rightarrow> int list \<Rightarrow> (int \<times> int \<times> int) \<times> int" where
  "pause_statistics inst magnIn =
     (let (avgPause, maxPause, minPause) =
            fold (\<lambda>i (avgPause, maxPause, minPause).
                (s32 (avgPause + avgMagnPause inst ! i), max maxPause (avgMagnPause inst ! i), min minPause (avgMagnPause inst ! i)))
              [0..<magnLen inst] (0, 0, avgMagnPause inst ! 0);
          avgPause = shr avgPause (stages inst - 1);
          avgMagn = s32 (shr (sumMagn inst) (stages inst - 1));
          deviation = max (s32 (maxPause - avgPause)) (s32 (avgPause - minPause));
          nShifts = max 0 (10 + int (stages inst) - WebRtcSpl_NormW32 deviation)
      in (fold (\<lambda>i (varMagn, varPause, cov).
              let tmp16no1 = s16 (magnIn ! i - avgMagn);
                  tmp32no2 = s32 (avgMagnPause inst ! i - avgPause);
                  tmp32no1 = asr tmp32no2 nShifts
              in (u32 (varMagn + u32 (tmp16no1 * tmp16no1)), u32 (varPause + tmp32no1 * tmp32no1), s32 (cov + s32 (tmp32no2 * tmp16no1))))
            [0..<magnLen inst] (0, 0, 0), nShifts))"

text \<open>The variance of the spectrum that the noise does not explain.\<close>

definition unexplained_variance :: "int \<times> int \<times> int \<Rightarrow> int \<Rightarrow> int" where
  "unexplained_variance = (\<lambda>(varMagn, varPause, cov) nShifts.
     if varPause \<noteq> 0 \<and> cov \<noteq> 0
     then let tmpU32no1 = u32 (WEBRTC_SPL_ABS_W32 cov);
              norm32 = WebRtcSpl_NormU32 tmpU32no1 - 16;
              tmpU32no1 = (if norm32 > 0 then lsl tmpU32no1 norm32 else lsr tmpU32no1 (- norm32));
              tmpU32no2 = u32 (tmpU32no1 * tmpU32no1);
              nShifts = 2 * (nShifts + norm32);
              varPause = (if nShifts < 0 then lsr varPause (- nShifts) else varPause);
              nShifts = max 0 nShifts
          in if varPause > 0 then u32 (varMagn - min varMagn (lsr (tmpU32no2 div varPause) nShifts)) else 0
     else varMagn)"

definition WebRtcNsx_ComputeSpectralDifference :: "NoiseSuppressionFixedC \<Rightarrow> int list \<Rightarrow> NoiseSuppressionFixedC" where
  "WebRtcNsx_ComputeSpectralDifference inst magnIn =
     (let (vars, nShifts) = pause_statistics inst magnIn;
          cur = u32 (curAvgMagnEnergy inst + lsr (magnEnergy inst) (2 * normData inst + int (stages inst) - 1));
          tmpU32no1 = lsr (unexplained_variance vars nShifts) (2 * normData inst);
          f = featureSpecDiff inst
      in inst\<lparr>curAvgMagnEnergy := cur,
              featureSpecDiff :=
                (if f > tmpU32no1 then u32 (f - shr (WEBRTC_SPL_UMUL_32_16 (f - tmpU32no1) SPECT_DIFF_TAVG_Q8) 8)
                 else u32 (f + shr (WEBRTC_SPL_UMUL_32_16 (tmpU32no1 - f) SPECT_DIFF_TAVG_Q8) 8))\<rparr>)"

section \<open>The likelihood ratio\<close>

text \<open>One turn of the loop: the smoothed logarithm of the likelihood ratio of a bin.\<close>

definition log_lrt :: "int \<Rightarrow> int \<Rightarrow> int \<Rightarrow> int" where
  "log_lrt prior post avg =
     (let normTmp = WebRtcSpl_NormU32 post;
          num = lsl post normTmp;
          den = (if normTmp > 10 then lsl prior (normTmp - 11) else lsr prior (11 - normTmp));
          bessel = (if den > 0 then s32 (s32 post - num div den) else 0);
          zeros = WebRtcSpl_NormU32 prior;
          frac32 = shr (lsl prior zeros AND 0x7FFFFFFF) 19;
          tmp32 = shr (frac32 * frac32 * (- 43)) 19;
          tmp32 = tmp32 + shr (s16 frac32 * 5412) 12;
          frac32 = tmp32 + 37;
          tmp32 = s32 (s32 (shl (31 - zeros) 12 + frac32) - shl 11 12);
          logTmp = shr (s32 (tmp32 * 178)) 8;
          tmp32no1 = cdiv (s32 (logTmp + avg)) 2
      in s32 (avg + (bessel - tmp32no1)))"

section \<open>Indicator functions\<close>

text \<open>
  The index into the table of the sigmoid map is tested against its upper end only where it comes from an unsigned value.
  \<open>stray\<close> is what the memory in front of the table holds.
\<close>

definition indicator_entry :: "(int \<Rightarrow> int) \<Rightarrow> int \<Rightarrow> int" where
  "indicator_entry stray i = (if 0 \<le> i then kIndicatorTable ! nat i else stray i)"

definition indicator_lrt :: "NoiseSuppressionFixedC \<Rightarrow> int \<Rightarrow> int" where
  "indicator_lrt inst ksum =
     (let tmp32no1 = s32 (ksum - thresholdLogLrt inst);
          neg = tmp32no1 < 0;
          nShifts = 7 - int (stages inst) + (if neg then 1 else 0);
          tmp32no1 = WEBRTC_SPL_SHIFT_W32 (if neg then s32 (- tmp32no1) else tmp32no1) nShifts;
          tableIndex = s16 (shr tmp32no1 14)
      in if tableIndex < 16 \<and> tableIndex \<ge> 0
         then let low = kIndicatorTable ! nat tableIndex;
                  step = s16 (kIndicatorTable ! (nat tableIndex + 1) - low);
                  frac = tmp32no1 AND 0x00003fff;
                  tmp16no2 = s16 (low + s16 (shr (step * frac) 14))
              in s16 (if neg then 8192 - tmp16no2 else 8192 + tmp16no2)
         else if neg then 0 else 16384)"

definition indicator_flat :: "NoiseSuppressionFixedC \<Rightarrow> int" where
  "indicator_flat inst =
     (let tmpU32no1 = u32 (featureSpecFlat inst * 400);
          neg = thresholdSpecFlat inst < tmpU32no1;
          tmpU32no2 = (if neg then u32 (tmpU32no1 - thresholdSpecFlat inst) else u32 (thresholdSpecFlat inst - tmpU32no1));
          tmpU32no1 = WebRtcSpl_DivU32U16 (u32 (shl tmpU32no2 (if neg then 5 else 4))) 25;
          tableIndex = s16 (shr tmpU32no1 14)
      in if tableIndex < 16
         then let low = kIndicatorTable ! nat tableIndex;
                  step = s16 (kIndicatorTable ! (nat tableIndex + 1) - low);
                  frac = tmpU32no1 AND 0x00003fff;
                  tmp16no2 = s16 (low + s16 (shr (step * frac) 14))
              in s16 (if neg then 8192 - tmp16no2 else 8192 + tmp16no2)
         else if neg then 0 else 16384)"

definition normalised_diff :: "NoiseSuppressionFixedC \<Rightarrow> int" where
  "normalised_diff inst =
     (if featureSpecDiff inst \<noteq> 0
      then let normTmp = min (20 - int (stages inst)) (WebRtcSpl_NormU32 (featureSpecDiff inst));
               tmpU32no1 = lsl (featureSpecDiff inst) normTmp;
               tmpU32no2 = lsr (timeAvgMagnEnergy inst) (20 - int (stages inst) - normTmp)
           in if tmpU32no2 > 0 then tmpU32no1 div tmpU32no2 else 0x7fffffff
      else 0)"

text \<open>Whether the difference is below its threshold, and its distance to it, from which the index is taken.\<close>

definition diff_distance :: "NoiseSuppressionFixedC \<Rightarrow> bool \<times> int" where
  "diff_distance inst =
     (let tmpU32no1 = normalised_diff inst;
          tmpU32no3 = u32 (shl (thresholdSpecDiff inst) 17) div 25;
          tmpU32no2 = u32 (tmpU32no1 - tmpU32no3)
      in if tmpU32no2 AND 0x80000000 \<noteq> 0 then (True, u32 (tmpU32no3 - tmpU32no1)) else (False, shr tmpU32no2 1))"

definition indicator_diff :: "(int \<Rightarrow> int) \<Rightarrow> NoiseSuppressionFixedC \<Rightarrow> int" where
  "indicator_diff stray inst =
     (let (neg, tmpU32no1) = diff_distance inst;
          tableIndex = s16 (shr tmpU32no1 14)
      in if tableIndex < 16
         then let low = indicator_entry stray tableIndex;
                  step = s16 (indicator_entry stray (tableIndex + 1) - low);
                  frac = tmpU32no1 AND 0x00003fff;
                  tmp16no2 = s16 (low + s16 (WEBRTC_SPL_MUL_16_16_RSFT_WITH_ROUND step frac 14))
              in s16 (if neg then 8192 - tmp16no2 else 8192 + tmp16no2)
         else if neg then 0 else 16384)"

section \<open>The probability of noise\<close>

text \<open>The probability that a bin is noise, from its likelihood ratio and the probability \<open>p\<close> for the frame.\<close>

definition non_speech_prob :: "int \<Rightarrow> int \<Rightarrow> int" where
  "non_speech_prob p avg =
     (if avg < 65300
      then let tmp32no1 = shr (s32 (avg * 23637)) 14;
               intPart = max (- 8) (s16 (shr tmp32no1 12));
               frac = tmp32no1 AND 0x00000fff;
               tmp32no2 = shr (frac * frac * 44) 19 + shr (frac * 84) 7;
               invLrt = s32 (lsl 1 (8 + intPart) + WEBRTC_SPL_SHIFT_W32 tmp32no2 (intPart - 4));
               norms = WebRtcSpl_NormW32 invLrt + WebRtcSpl_NormW16 (s16 (16384 - p))
           in if norms \<ge> 7
              then let invLrt = (if norms < 15
                                 then WEBRTC_SPL_SHIFT_W32 (s32 (asr invLrt (15 - norms) * (16384 - p))) (7 - norms)
                                 else shr (s32 (invLrt * (16384 - p))) 8)
                   in u16 (cdiv (shl p 8) (s32 (p + invLrt)))
              else 0
      else 0)"

definition prior_update :: "(int \<Rightarrow> int) \<Rightarrow> NoiseSuppressionFixedC \<Rightarrow> int \<Rightarrow> int" where
  "prior_update stray inst ksum =
     (let indPrior = s32 (weightLogLrt inst * indicator_lrt inst ksum);
          indPrior = (if weightSpecFlat inst \<noteq> 0 then s32 (indPrior + weightSpecFlat inst * indicator_flat inst) else indPrior);
          indPrior = (if weightSpecDiff inst \<noteq> 0 then s32 (indPrior + weightSpecDiff inst * indicator_diff stray inst) else indPrior);
          indPrior16 = WebRtcSpl_DivW32W16ResW16 (s32 (98307 - indPrior)) 6;
          tmp16 = s16 (indPrior16 - priorNonSpeechProb inst)
      in s16 (priorNonSpeechProb inst + s16 (shr (PRIOR_UPDATE_Q14 * tmp16) 14)))"

definition WebRtcNsx_SpeechNoiseProb ::
    "(int \<Rightarrow> int) \<Rightarrow> NoiseSuppressionFixedC \<Rightarrow> int list \<Rightarrow> int list \<Rightarrow> NoiseSuppressionFixedC \<times> int list" where
  "WebRtcNsx_SpeechNoiseProb stray inst priorLocSnr postLocSnr =
     (let n = magnLen inst;
          lrt = map (\<lambda>i. log_lrt (priorLocSnr ! i) (postLocSnr ! i) (logLrtTimeAvgW32 inst ! i)) [0..<n];
          ksum = fold (\<lambda>i sum. s32 (sum + lrt ! i)) [0..<n] 0;
          p = prior_update stray inst ksum
      in (inst\<lparr>logLrtTimeAvgW32 := blit (logLrtTimeAvgW32 inst) 0 lrt,
               featureLogLrt := shr (s32 (ksum * int BIN_SIZE_LRT)) (stages inst + 11),
               priorNonSpeechProb := p\<rparr>,
          if p > 0 then map (\<lambda>i. non_speech_prob p (lrt ! i)) [0..<n] else replicate n 0))"

end
