(* ===== verification/Nsx_Process.thy ===== *)
theory Nsx_Process
  imports Nsx_Features
begin

text \<open>
  A frame through the noise suppression (\<^verbatim>\<open>nsx_core.c\<close>): analysis into a spectrum, the ratios of signal and noise, the
  update of the noise, the suppression filter, and the synthesis of the output; and the gain of the upper bands.
\<close>

section \<open>Analysis\<close>

definition AnalysisUpdateC :: "NoiseSuppressionFixedC \<Rightarrow> int list \<Rightarrow> NoiseSuppressionFixedC \<times> int list" where
  "AnalysisUpdateC inst new_speech =
     (let b = blockLen10ms inst; n = anaLen inst;
          buf = blit (analysisBuffer inst) 0 (take (n - b) (drop b (analysisBuffer inst)));
          buf = blit buf (n - b) (take b new_speech)
      in (inst\<lparr>analysisBuffer := buf\<rparr>,
          map (\<lambda>i. s16 (WEBRTC_SPL_MUL_16_16_RSFT_WITH_ROUND (window inst ! i) (buf ! i) 14)) [0..<n]))"

definition NormalizeRealBufferC :: "NoiseSuppressionFixedC \<Rightarrow> int list \<Rightarrow> int list" where
  "NormalizeRealBufferC inst inp = map (\<lambda>i. s16 (shl (inp ! i) (nat (normData inst)))) [0..<anaLen inst]"

text \<open>
  The spectrum: the output of the transform, interleaved, becomes the real and the imaginary part, the magnitudes
  and their sums. The first and the last bin are real.
\<close>

definition bin_energy :: "int list \<Rightarrow> nat \<Rightarrow> int" where
  "bin_energy winData i = u32 (u32 (winData ! (2 * i) * winData ! (2 * i)) + u32 (winData ! (2 * i + 1) * winData ! (2 * i + 1)))"

definition bin_magn :: "NoiseSuppressionFixedC \<Rightarrow> int list \<Rightarrow> nat \<Rightarrow> int" where
  "bin_magn inst winData i =
     (if i = 0 \<or> i = anaLen2 inst then u16 (WEBRTC_SPL_ABS_W16 (winData ! (2 * i)))
      else u16 (WebRtcSpl_SqrtFloor (s32 (bin_energy winData i))))"

definition spectrum :: "NoiseSuppressionFixedC \<Rightarrow> int list \<Rightarrow> NoiseSuppressionFixedC \<times> int list" where
  "spectrum inst winData =
     (let n = anaLen2 inst;
          magn = map (bin_magn inst winData) [0..<n + 1];
          energy = u32 (u32 (winData ! 0 * winData ! 0) + u32 (winData ! (2 * n) * winData ! (2 * n)));
          energy = fold (\<lambda>i energy. u32 (energy + bin_energy winData i)) [1..<n] energy;
          total = fold (\<lambda>i total. u32 (total + magn ! i)) [1..<n] (u32 (magn ! 0 + magn ! n))
      in (inst\<lparr>realPart := blit (realPart inst) 0 (map (\<lambda>i. winData ! (2 * i)) [0..<n + 1]),
               imagPart := blit (imagPart inst) 0 (map (\<lambda>i. if i = 0 \<or> i = n then 0 else s16 (- (winData ! (2 * i + 1)))) [0..<n + 1]),
               magnEnergy := energy, sumMagn := total\<rparr>, magn))"

text \<open>The logarithm of a magnitude, which is 0 for 0, and its sums over the bins from \<open>kStartBand\<close> on.\<close>

definition log_bin :: "int \<Rightarrow> int" where
  "log_bin m = (if m \<noteq> 0 then s16 (log2_Q8 m) else 0)"

definition log_sums :: "NoiseSuppressionFixedC \<Rightarrow> int list \<Rightarrow> int \<times> int" where
  "log_sums inst magn =
     (let n = anaLen2 inst
      in fold (\<lambda>i (sum, weighted). (s32 (sum + log_bin (magn ! i)), s32 (weighted + shr (kLogIndex ! i * log_bin (magn ! i)) 3)))
           [kStartBand..<n] (log_bin (magn ! n), shr (kLogIndex ! n * log_bin (magn ! n)) 3))"

text \<open>The coefficients of the pink noise model: \<open>matrix_determinant\<close>, \<open>sum_log_i\<close> and \<open>sum_log_i_square\<close>.\<close>

definition pink_constants :: "NoiseSuppressionFixedC \<Rightarrow> int \<times> int \<times> int" where
  "pink_constants inst =
     (let det = kDeterminantEstMatrix ! kStartBand;
          sum_log_i = kSumLogIndex ! kStartBand;
          sum_log_i_square = kSumSquareLogIndex ! kStartBand
      in if fs inst = 8000
         then let t = s32 (det + shr (kSumLogIndex ! 65 * sum_log_i) 9);
                  t = s32 (t - shr (kSumLogIndex ! 65 * kSumLogIndex ! 65) 10);
                  t = s32 (t - shl sum_log_i_square 4);
                  t = s32 (t - shr (int (magnLen inst - kStartBand) * kSumSquareLogIndex ! 65) 2)
              in (s16 t, s16 (sum_log_i - kSumLogIndex ! 65), s16 (sum_log_i_square - kSumSquareLogIndex ! 65))
         else (det, sum_log_i, sum_log_i_square))"

definition pink_noise :: "NoiseSuppressionFixedC \<Rightarrow> int list \<Rightarrow> NoiseSuppressionFixedC" where
  "pink_noise inst magn =
     (let net_norm = int (stages inst) - normData inst;
          (sum_log_magn, weighted) = log_sums inst magn;
          (det, sum_log_i, sum_log_i_square) = pink_constants inst;
          zeros = max 0 (16 - WebRtcSpl_NormW32 sum_log_magn);
          sum_log_magn_u16 = u16 (asr (s32 (shl sum_log_magn 1)) zeros);
          tmp_2 = WEBRTC_SPL_MUL_16_U16 sum_log_i_square sum_log_magn_u16;
          tmpU32no1 = u32 (shr weighted 12);
          tmp_u16 = u16 (shl (u16 sum_log_i) 1);
          (tmp_u16, tmpU32no1) = (if u32 sum_log_i > tmpU32no1 then (asr tmp_u16 zeros, tmpU32no1) else (tmp_u16, lsr tmpU32no1 zeros));
          tmp_2 = s32 (tmp_2 - s32 (WEBRTC_SPL_UMUL_32_16 tmpU32no1 tmp_u16));
          det = asr det zeros;
          tmp_2 = WebRtcSpl_DivW32W16 tmp_2 det;
          tmp_2 = max 0 (s32 (tmp_2 + shl net_norm 11));
          numerator = s32 (pinkNoiseNumerator inst + tmp_2);
          tmp_2 = WEBRTC_SPL_MUL_16_U16 sum_log_i sum_log_magn_u16;
          tmp_1 = s32 (asr weighted (3 + zeros) * int (magnLen inst - kStartBand));
          tmp_2 = s32 (tmp_2 - tmp_1)
      in inst\<lparr>pinkNoiseNumerator := numerator,
              pinkNoiseExp :=
                (if tmp_2 > 0 then s32 (pinkNoiseExp inst + WEBRTC_SPL_SAT 16384 (WebRtcSpl_DivW32W16 tmp_2 det) 0)
                 else pinkNoiseExp inst)\<rparr>)"

text \<open>
  What the first frames contribute to the models of the noise; \<open>rsI\<close> and \<open>rsM\<close> are \<open>right_shifts_in_initMagnEst\<close> and
  \<open>right_shifts_in_magnU16\<close>.
\<close>

definition startup_models :: "NoiseSuppressionFixedC \<Rightarrow> int list \<Rightarrow> int \<Rightarrow> int \<Rightarrow> NoiseSuppressionFixedC" where
  "startup_models inst magn rsI rsM =
     (let est = map (\<lambda>i. u32 (lsr (initMagnEst inst ! i) rsI + asr (magn ! i) rsM)) [0..<magnLen inst];
          tmpU32no1 = shr (WEBRTC_SPL_UMUL_32_16 (sumMagn inst) (overdrive inst)) (stages inst + 8);
          white = u32 (lsr (whiteNoiseLevel inst) rsI + lsr tmpU32no1 rsM)
      in pink_noise (inst\<lparr>initMagnEst := blit (initMagnEst inst) 0 est, whiteNoiseLevel := white\<rparr>) magn)"

text \<open>The magnitudes are not set for a frame of zeros.\<close>

definition WebRtcNsx_DataAnalysis :: "NoiseSuppressionFixedC \<Rightarrow> int list \<Rightarrow> NoiseSuppressionFixedC \<times> int list" where
  "WebRtcNsx_DataAnalysis inst speechFrame =
     (let (inst, winData) = AnalysisUpdateC inst speechFrame;
          (en, scale) = WebRtcSpl_Energy winData (anaLen inst);
          maxWinData = WebRtcSpl_MaxAbsValueW16C winData (anaLen inst);
          inst = inst\<lparr>energyIn := en, scaleEnergyIn := scale, zeroInputSignal := 0, normData := WebRtcSpl_NormW16 maxWinData\<rparr>
      in if maxWinData = 0 then (inst\<lparr>zeroInputSignal := 1\<rparr>, [])
         else let rsM = normData inst - minNorm inst;
                  rsI = max (- rsM) 0;
                  inst = inst\<lparr>minNorm := minNorm inst - rsI\<rparr>;
                  winData = snd (WebRtcSpl_RealForwardFFT (the (nsx_fft inst)) (NormalizeRealBufferC inst winData));
                  (inst, magn) = spectrum inst winData
              in (if blockIndex inst \<ge> END_STARTUP_SHORT then inst else startup_models inst magn rsI (max rsM 0), magn))"

section \<open>Synthesis\<close>

text \<open>The filtered spectrum in the arrays of the object, and its conjugate interleaved.\<close>

definition PrepareSpectrumC :: "NoiseSuppressionFixedC \<Rightarrow> NoiseSuppressionFixedC \<times> int list" where
  "PrepareSpectrumC inst =
     (let re = map (\<lambda>i. s16 (shr (realPart inst ! i * s16 (noiseSupFilter inst ! i)) 14)) [0..<magnLen inst];
          im = map (\<lambda>i. s16 (shr (imagPart inst ! i * s16 (noiseSupFilter inst ! i)) 14)) [0..<magnLen inst]
      in (inst\<lparr>realPart := blit (realPart inst) 0 re, imagPart := blit (imagPart inst) 0 im\<rparr>,
          concat (map (\<lambda>i. [re ! i, s16 (- (im ! i))]) [0..<anaLen2 inst + 1])))"

definition DenormalizeC :: "NoiseSuppressionFixedC \<Rightarrow> int list \<Rightarrow> int \<Rightarrow> NoiseSuppressionFixedC" where
  "DenormalizeC inst inp factor =
     inst\<lparr>realPart := blit (realPart inst) 0
       (map (\<lambda>i. WebRtcSpl_SatW32ToW16 (WEBRTC_SPL_SHIFT_W32 (inp ! i) (factor - normData inst))) [0..<anaLen inst])\<rparr>"

text \<open>The end of the synthesis, which is also all of it for a frame of zeros.\<close>

definition read_out :: "NoiseSuppressionFixedC \<Rightarrow> int list \<Rightarrow> NoiseSuppressionFixedC \<times> int list" where
  "read_out inst buf =
     (let b = blockLen10ms inst; n = anaLen inst
      in (inst\<lparr>synthesisBuffer :=
                 WebRtcSpl_ZerosArrayW16 (blit buf 0 (take (n - b) (drop b buf))) (n - b) b\<rparr>, take b buf))"

definition SynthesisUpdateC :: "NoiseSuppressionFixedC \<Rightarrow> int \<Rightarrow> NoiseSuppressionFixedC \<times> int list" where
  "SynthesisUpdateC inst gain_factor =
     read_out inst (blit (synthesisBuffer inst) 0
       (map (\<lambda>i. let tmp16a = s16 (WEBRTC_SPL_MUL_16_16_RSFT_WITH_ROUND (window inst ! i) (realPart inst ! i) 14);
                     tmp16b = WebRtcSpl_SatW32ToW16 (WEBRTC_SPL_MUL_16_16_RSFT_WITH_ROUND tmp16a gain_factor 13)
                 in WebRtcSpl_AddSatW16 (synthesisBuffer inst ! i) tmp16b) [0..<anaLen inst]))"

text \<open>The gain that makes up for the energy the filter has taken, with the scaled energy of the input.\<close>

definition gain_factor :: "NoiseSuppressionFixedC \<Rightarrow> int \<times> int" where
  "gain_factor inst =
     (let (energyOut, scaleOut) = WebRtcSpl_Energy (realPart inst) (anaLen inst);
          (energyOut, en) =
            (if scaleOut = 0 \<and> energyOut AND 0x7f800000 = 0
             then (WEBRTC_SPL_SHIFT_W32 energyOut (8 + scaleOut - scaleEnergyIn inst), energyIn inst)
             else (energyOut, asr (energyIn inst) (8 + scaleOut - scaleEnergyIn inst)));
          energyRatio = s16 (cdiv (s32 (energyOut + cdiv en 2)) en);
          energyRatio = WEBRTC_SPL_SAT 256 energyRatio 0;
          gainFactor1 = kFactor1Table ! nat energyRatio;
          gainFactor2 = factor2Table inst ! nat energyRatio;
          tmp16no1 = s16 (shr ((16384 - priorNonSpeechProb inst) * gainFactor1) 14);
          tmp16no2 = s16 (shr (priorNonSpeechProb inst * gainFactor2) 14)
      in (s16 (tmp16no1 + tmp16no2), en))"

definition WebRtcNsx_DataSynthesis :: "NoiseSuppressionFixedC \<Rightarrow> NoiseSuppressionFixedC \<times> int list" where
  "WebRtcNsx_DataSynthesis inst =
     (if zeroInputSignal inst \<noteq> 0 then read_out inst (synthesisBuffer inst)
      else let (inst, freq_buf) = PrepareSpectrumC inst;
               (outCIFFT, rfft_out) = WebRtcSpl_RealInverseFFT (the (nsx_fft inst)) freq_buf;
               inst = DenormalizeC inst rfft_out outCIFFT;
               (gain, en) = (if gainMap inst = 1 \<and> blockIndex inst > END_STARTUP_LONG \<and> energyIn inst > 0
                             then gain_factor inst else (8192, energyIn inst))
           in SynthesisUpdateC (inst\<lparr>energyIn := en\<rparr>) gain)"

end
