(* ===== verification/Nsx_Frame.thy ===== *)
theory Nsx_Frame
  imports Nsx_Process
begin

text \<open>
  The frame as a whole (\<open>WebRtcNsx_ProcessCore\<close> of \<^verbatim>\<open>nsx_core.c\<close>): the start-up model, the ratios of signal and noise, the
  update of the noise, the suppression filter, and the gain of the upper bands.
\<close>

section \<open>The noise of the first frames\<close>

text \<open>The filter coefficient of the parametric Wiener filter, from the magnitude and the noise.\<close>

definition parametric_filter :: "NoiseSuppressionFixedC \<Rightarrow> int \<Rightarrow> int \<Rightarrow> int" where
  "parametric_filter inst est noise_estimate =
     (let tmpU32no1 = WEBRTC_SPL_UMUL_32_16 noise_estimate (overdrive inst);
          numerator = u32 (shl est 8)
      in if est \<noteq> 0 \<and> numerator > tmpU32no1
         then let numerator = u32 (numerator - tmpU32no1);
                  nShifts = WEBRTC_SPL_SAT 6 (WebRtcSpl_NormU32 numerator) 0;
                  numerator = lsl numerator nShifts;
                  tmpU32no1 = lsr est (6 - nShifts);
                  tmpU32no1 = (if tmpU32no1 = 0 then 1 else tmpU32no1)
              in u16 (WEBRTC_SPL_SAT 16384 (numerator div tmpU32no1) (denoiseBound inst))
         else denoiseBound inst)"

text \<open>The noise of the quantiles and that of the model, weighted by the number of the frame, in Q(\<open>qd\<close>).\<close>

definition weighted_noise :: "NoiseSuppressionFixedC \<Rightarrow> int \<Rightarrow> int \<Rightarrow> int \<Rightarrow> int \<Rightarrow> int" where
  "weighted_noise inst q qd noise noise_estimate_avg =
     (let tmpU32no1 = lsr noise (q - qd);
          tmpU32no2 = lsr noise_estimate_avg (minNorm inst - int (stages inst) - qd);
          (tmpU32no1, tmpU32no2, nShifts) =
            (if tmpU32no1 AND 0xfc000000 \<noteq> 0 then (shr tmpU32no1 6, shr tmpU32no2 6, 6) else (tmpU32no1, tmpU32no2, 0));
          tmpU32no1 = u32 (tmpU32no1 * blockIndex inst);
          tmpU32no2 = u32 (tmpU32no2 * (END_STARTUP_SHORT - blockIndex inst))
      in lsl (WebRtcSpl_DivU32U16 (u32 (tmpU32no1 + tmpU32no2)) END_STARTUP_SHORT) nShifts)"

text \<open>The estimate of the model for each bin, \<open>(noise_estimate, noise_estimate_avg)\<close>.\<close>

definition model_estimate :: "NoiseSuppressionFixedC \<Rightarrow> nat \<Rightarrow> int \<times> int" where
  "model_estimate inst i =
     (if pinkNoiseExp inst \<noteq> 0
      then let exp_avg = s16 (WebRtcSpl_DivW32W16 (pinkNoiseExp inst) (s16 (blockIndex inst + 1)));
               num_avg = WebRtcSpl_DivW32W16 (pinkNoiseNumerator inst) (s16 (blockIndex inst + 1))
           in WebRtcNsx_CalcParametricNoiseEstimate inst exp_avg num_avg (max kStartBand i) (0, 0)
      else (whiteNoiseLevel inst, whiteNoiseLevel inst div u32 (blockIndex inst + 1)))"

text \<open>\<open>noiseSupFilterTmp\<close>, \<open>noiseU32\<close> and \<open>qNoise\<close> at the end of the start-up block.\<close>

definition startup_noise :: "NoiseSuppressionFixedC \<Rightarrow> int list \<Rightarrow> int \<Rightarrow> int list \<times> int list \<times> int" where
  "startup_noise inst noise q =
     (if blockIndex inst < END_STARTUP_SHORT
      then let qd = min q (minNorm inst - int (stages inst))
           in (map (\<lambda>i. parametric_filter inst (initMagnEst inst ! i) (fst (model_estimate inst i))) [0..<magnLen inst],
               map (\<lambda>i. weighted_noise inst q qd (noise ! i) (snd (model_estimate inst i))) [0..<magnLen inst], s16 qd)
      else ([], noise, q))"

definition average_energy :: "NoiseSuppressionFixedC \<Rightarrow> NoiseSuppressionFixedC" where
  "average_energy inst =
     (if blockIndex inst < END_STARTUP_LONG
      then let tmp = u32 (timeAvgMagnEnergyTmp inst + lsr (magnEnergy inst) (2 * normData inst + int (stages inst) - 1))
           in inst\<lparr>timeAvgMagnEnergyTmp := tmp, timeAvgMagnEnergy := WebRtcSpl_DivU32U16 tmp (u16 (blockIndex inst + 1))\<rparr>
      else inst)"

section \<open>Signal to noise ratios\<close>

definition satMax :: int where "satMax = 1048575"

text \<open>The three ratios of a bin: \<open>postLocSnr\<close>, \<open>prevNearSnr\<close> and \<open>priorLocSnr\<close>, in Q11.\<close>

definition bin_snr :: "int \<Rightarrow> int \<Rightarrow> int \<Rightarrow> int \<Rightarrow> int \<Rightarrow> int \<Rightarrow> int \<Rightarrow> int \<times> int \<times> int" where
  "bin_snr postShifts nShifts magn noise prevMagn filt prevNoise =
     (let tmpU32no1 = u32 (shl magn 6);
          tmpU32no2 = (if postShifts < 0 then lsr noise (- postShifts) else lsl noise postShifts);
          post = (if tmpU32no1 > tmpU32no2
                  then (if tmpU32no2 > 0 then min satMax (u32 (shl tmpU32no1 11) div tmpU32no2) else satMax)
                  else 2048);
          tmpU32no1 = u32 (shl (u32 (prevMagn * filt)) 3);
          tmpU32no2 = lsr prevNoise nShifts;
          near = (if tmpU32no2 > 0 then min satMax (tmpU32no1 div tmpU32no2) else satMax);
          priorSnr = u32 (WEBRTC_SPL_UMUL_32_16 near DD_PR_SNR_Q11 + WEBRTC_SPL_UMUL_32_16 (post - 2048) ONE_MINUS_DD_PR_SNR_Q11 + 512)
      in (post, near, u32 (2048 + shr priorSnr 10)))"

section \<open>The window of the thresholds\<close>

text \<open>The loop that shifts a value into 16 bits, with the number of shifts added to \<open>n\<close>.\<close>

function fit16 :: "int \<Rightarrow> int \<Rightarrow> int \<times> int" where
  "fit16 t n = (if 0 < t \<and> 0xFFFF0000 AND t \<noteq> 0 then fit16 (shr t 1) (n + 1) else (t, n))"
  by pat_completeness auto
termination by (relation "measure (\<lambda>(t, n). nat t)") (auto simp: shr_def)

declare fit16.simps [simp del]

definition rescale_difference :: "NoiseSuppressionFixedC \<Rightarrow> int \<Rightarrow> int" where
  "rescale_difference inst tmpU32no1 =
     (if tmpU32no1 \<noteq> timeAvgMagnEnergy inst \<and> featureSpecDiff inst \<noteq> 0 \<and> timeAvgMagnEnergy inst > 0
      then let (tmpU32no3, norm32) = fit16 tmpU32no1 0;
               (tmpU32no2, norm32) = fit16 (featureSpecDiff inst) norm32;
               tmpU32no3 = u32 (tmpU32no3 * tmpU32no2) div timeAvgMagnEnergy inst
           in if WebRtcSpl_NormU32 tmpU32no3 < norm32 then 0x007FFFFF else min 0x007FFFFF (lsl tmpU32no3 norm32)
      else featureSpecDiff inst)"

definition update_window :: "NoiseSuppressionFixedC \<Rightarrow> NoiseSuppressionFixedC" where
  "update_window inst =
     (let inst = inst\<lparr>cntThresUpdate := s32 (cntThresUpdate inst + 1)\<rparr>;
          flag = (cntThresUpdate inst = modelUpdate inst);
          inst = WebRtcNsx_FeatureParameterExtraction inst flag
      in if flag
         then let cur = shr (curAvgMagnEnergy inst) STAT_UPDATES;
                  tmpU32no1 = shr (u32 (cur + timeAvgMagnEnergy inst + 1)) 1
              in inst\<lparr>cntThresUpdate := 0, featureSpecDiff := rescale_difference inst tmpU32no1,
                      timeAvgMagnEnergy := tmpU32no1, curAvgMagnEnergy := 0\<rparr>
         else inst)"

section \<open>The update of the noise\<close>

definition noise_change :: "int \<Rightarrow> int \<Rightarrow> int" where
  "noise_change gamma t = (if 0x7c000000 AND t \<noteq> 0 then u32 (shr t 5 * gamma) else shr (u32 (t * gamma)) 5)"

text \<open>The noise of a bin; the state of the loop is \<open>gammaNoise\<close>, which the next bin starts with.\<close>

definition update_noise_bin :: "int \<Rightarrow> int \<Rightarrow> int \<times> int \<times> int \<Rightarrow> int \<times> int" where
  "update_noise_bin postShifts gammaNoise = (\<lambda>(magn, prevNoise, prob).
     let prevU16 = u16 (shr prevNoise 11);
         tmpU32no2 = (if postShifts < 0 then lsr magn (- postShifts) else lsl magn postShifts);
         neg = prevU16 > tmpU32no2;
         tmpU32no1 = (if neg then u32 (prevU16 - tmpU32no2) else u32 (tmpU32no2 - prevU16));
         active = tmpU32no1 \<noteq> 0 \<and> prob \<noteq> 0;
         tmpU32no3 = (if active then WEBRTC_SPL_UMUL_32_16 tmpU32no1 prob else 0);
         moved = (\<lambda>gamma. if neg then u32 (prevNoise - noise_change gamma tmpU32no3) else u32 (prevNoise + noise_change gamma tmpU32no3));
         noise = (if active then moved gammaNoise else prevNoise);
         gamma = (if prob < ONE_MINUS_PROB_RANGE_Q8 then GAMMA_NOISE_TRANS_AND_SPEECH_Q8 else NOISE_UPDATE_Q8)
     in (gamma, if gammaNoise \<noteq> gamma \<and> noise > moved gamma then moved gamma else noise))"

text \<open>The conservative noise spectrum.\<close>

definition update_pause :: "int \<Rightarrow> int \<Rightarrow> int \<Rightarrow> int \<Rightarrow> int" where
  "update_pause nShifts magn prob pause =
     (let tmp32no2 = WEBRTC_SPL_SHIFT_W32 pause (- nShifts)
      in if prob > ONE_MINUS_PROB_RANGE_Q8
         then (if nShifts < 0
               then s32 (tmp32no2 + shr (s32 (s32 (s32 (magn - tmp32no2) * ONE_MINUS_GAMMA_PAUSE_Q8) + 128)) 8)
               else s32 (tmp32no2 + asr (s32 (s32 (s32 (s32 (lsl magn nShifts) - pause) * ONE_MINUS_GAMMA_PAUSE_Q8)
                                              + s32 (lsl 128 nShifts))) (8 + nShifts)))
         else tmp32no2)"

section \<open>The suppression filter\<close>

definition cur_near_snr :: "int \<Rightarrow> int \<Rightarrow> int \<Rightarrow> int" where
  "cur_near_snr nShifts magn noise =
     (let (tmpMagn, tmpNoise) =
            (if nShifts < 0 then (magn, lsl noise (- nShifts))
             else if nShifts > 17 then (u32 (shl magn 17), lsr noise (nShifts - 17))
             else (lsl magn nShifts, noise))
      in if tmpMagn > tmpNoise
         then let tmpU32no1 = u32 (tmpMagn - tmpNoise);
                  norm32 = min 11 (WebRtcSpl_NormU32 tmpU32no1);
                  tmpU32no1 = lsl tmpU32no1 norm32;
                  tmpU32no2 = lsr tmpNoise (11 - norm32)
              in min satMax (if tmpU32no2 > 0 then tmpU32no1 div tmpU32no2 else tmpU32no1)
         else 0)"

text \<open>\<open>tmpFilter\<close> is the coefficient of the parametric filter, used in the first frames.\<close>

definition filter_bin :: "NoiseSuppressionFixedC \<Rightarrow> int \<Rightarrow> int \<Rightarrow> int \<Rightarrow> int" where
  "filter_bin inst near cur tmpFilter =
     (let priorSnr = u32 (WEBRTC_SPL_UMUL_32_16 near DD_PR_SNR_Q11 + WEBRTC_SPL_UMUL_32_16 cur ONE_MINUS_DD_PR_SNR_Q11);
          tmpU32no1 = u32 (overdrive inst + shr (u32 (priorSnr + 8192)) 14);
          tmpU16no1 = u16 (u32 (priorSnr + tmpU32no1 div 2) div tmpU32no1);
          filt = u16 (WEBRTC_SPL_SAT 16384 tmpU16no1 (denoiseBound inst))
      in if blockIndex inst < END_STARTUP_SHORT
         then u16 (WebRtcSpl_DivU32U16 (u32 (u32 (filt * blockIndex inst) + u32 (tmpFilter * (END_STARTUP_SHORT - blockIndex inst))))
                     END_STARTUP_SHORT)
         else filt)"

section \<open>The upper bands\<close>

definition append_high_band :: "NoiseSuppressionFixedC \<Rightarrow> int list \<Rightarrow> int list \<Rightarrow> int list" where
  "append_high_band inst buf frame =
     (let b = blockLen10ms inst; n = anaLen inst
      in blit (blit buf 0 (take (n - b) (drop b buf))) (n - b) (take b frame))"

definition high_band_gain :: "NoiseSuppressionFixedC \<Rightarrow> int list \<Rightarrow> int" where
  "high_band_gain inst nonSpeechProbFinal =
     (let bins = [anaLen2 inst - anaLen2 inst div 4..<anaLen2 inst];
          prob = fold (\<lambda>i prob. u16 (prob + nonSpeechProbFinal ! i)) bins 0;
          gains = fold (\<lambda>i gains. u32 (gains + noiseSupFilter inst ! i)) bins 0;
          avgProb = s16 (4096 - shr prob (stages inst - 7));
          avgFilter = s16 (shr gains (stages inst - 3));
          gainMod = min avgProb 3607;
          gain = (if avgProb < 2048 then s16 (shl gainMod 1 + shr avgFilter 1)
                  else s16 (s16 (shr (3 * avgFilter) 2) + gainMod))
      in s16 (WEBRTC_SPL_SAT 16384 gain (s16 (denoiseBound inst))))"

text \<open>\<open>set_high_band\<close> updates the buffers of the bands that have a frame.\<close>

definition set_high_band :: "NoiseSuppressionFixedC \<Rightarrow> int list list \<Rightarrow> NoiseSuppressionFixedC" where
  "set_high_band inst frames =
     inst\<lparr>dataBufHBFX := blit (dataBufHBFX inst) 0
            (map (\<lambda>i. append_high_band inst (dataBufHBFX inst ! i) (frames ! i)) [0..<length frames])\<rparr>"

section \<open>The frame\<close>

text \<open>Step 1 to step 3 on the spectrum \<open>magn\<close>: the new object and the probabilities of noise.\<close>

definition suppression :: "(int \<Rightarrow> int) \<Rightarrow> NoiseSuppressionFixedC \<Rightarrow> int list \<Rightarrow> NoiseSuppressionFixedC \<times> int list" where
  "suppression stray inst magn =
     (let n = magnLen inst;
          inst = inst\<lparr>blockIndex := s32 (blockIndex inst + 1)\<rparr>;
          qMagn = s16 (normData inst - int (stages inst));
          inst = WebRtcNsx_ComputeSpectralFlatness inst magn;
          (inst, noise, q) = NoiseEstimationC inst magn;
          (tmpFilter, noise, q) = startup_noise inst noise q;
          inst = average_energy inst;
          snr = map (\<lambda>i. bin_snr (6 + qMagn - q) (5 - prevQMagn inst + prevQNoise inst)
                           (magn ! i) (noise ! i) (prevMagnU16 inst ! i) (noiseSupFilter inst ! i) (prevNoiseU32 inst ! i)) [0..<n];
          inst = WebRtcNsx_ComputeSpectralDifference inst magn;
          inst = update_window inst;
          (inst, prob) = WebRtcNsx_SpeechNoiseProb stray inst (map (\<lambda>t. snd (snd t)) snr) (map fst snr);
          noise = snd (mealy (update_noise_bin (prevQNoise inst - qMagn)) NOISE_UPDATE_Q8
                         (map (\<lambda>i. (magn ! i, prevNoiseU32 inst ! i, prob ! i)) [0..<n]));
          pause = map (\<lambda>i. update_pause (prevQMagn inst - qMagn) (magn ! i) (prob ! i) (avgMagnPause inst ! i)) [0..<n];
          maxNoise = fold (\<lambda>x m. if x > m then x else m) noise 0;
          norm32 = WebRtcSpl_NormU32 maxNoise;
          filt = map (\<lambda>i. filter_bin inst (fst (snd (snr ! i)))
                             (cur_near_snr (prevQNoise inst + 11 - qMagn) (magn ! i) (noise ! i)) (tmpFilter ! i)) [0..<n];
          prevNoise = map (\<lambda>x. if norm32 > 5 then lsl x (norm32 - 5) else lsr x (5 - norm32)) noise
      in (inst\<lparr>avgMagnPause := blit (avgMagnPause inst) 0 pause, noiseSupFilter := blit (noiseSupFilter inst) 0 filt,
               prevQNoise := s16 (prevQNoise inst + norm32 - 5), prevQMagn := qMagn,
               prevNoiseU32 := blit (prevNoiseU32 inst) 0 prevNoise, prevMagnU16 := blit (prevMagnU16 inst) 0 magn\<rparr>, prob))"

text \<open>The frame of each band; the result has the output of each band.\<close>

definition WebRtcNsx_ProcessCore ::
    "(int \<Rightarrow> int) \<Rightarrow> NoiseSuppressionFixedC \<Rightarrow> int list list \<Rightarrow> NoiseSuppressionFixedC \<times> int list list" where
  "WebRtcNsx_ProcessCore stray inst speechFrame =
     (let (inst, magn) = WebRtcNsx_DataAnalysis inst (hd speechFrame);
          high = tl speechFrame
      in if zeroInputSignal inst \<noteq> 0
         then let (inst, out) = WebRtcNsx_DataSynthesis inst;
                  inst = (if high = [] then inst else set_high_band inst high)
              in (inst, out # map (\<lambda>i. take (blockLen10ms inst) (dataBufHBFX inst ! i)) [0..<length high])
         else let (inst, prob) = suppression stray inst magn;
                  (inst, out) = WebRtcNsx_DataSynthesis inst
              in if high = [] then (inst, [out])
                 else let inst = set_high_band inst high;
                          gain = high_band_gain inst prob
                      in (inst, out # map (\<lambda>i. map (\<lambda>j. s16 (shr (gain * dataBufHBFX inst ! i ! j) 14)) [0..<blockLen10ms inst])
                                        [0..<length high]))"

definition WebRtcNsx_Process ::
    "(int \<Rightarrow> int) \<Rightarrow> NoiseSuppressionFixedC \<Rightarrow> int list list \<Rightarrow> NoiseSuppressionFixedC \<times> int list list" where
  "WebRtcNsx_Process stray inst speechFrame = WebRtcNsx_ProcessCore stray inst speechFrame"

end
