(* ===== verification/Nsx_Inv.thy ===== *)
theory Nsx_Inv
  imports Nsx_Frame
begin

text \<open>
  What holds of the noise suppression: the invariant that its initialisation establishes and every frame and
  policy keeps, what a frame of zeros does, the bounds of the gains, the complementary windows, and the read in front of
  the table of the sigmoid map.
\<close>

section \<open>The invariant\<close>

text \<open>Formats, lengths of the arrays and the transform.\<close>

definition nsx_dims :: "NoiseSuppressionFixedC \<Rightarrow> bool" where
  "nsx_dims i \<longleftrightarrow>
     (fs i = 8000 \<and> blockLen10ms i = 80 \<and> anaLen i = 128 \<and> anaLen2 i = 64 \<and> magnLen i = 65 \<and> stages i = 7 \<and> window i = kBlocks80w128x
      \<or> fs i \<noteq> 8000 \<and> blockLen10ms i = 160 \<and> anaLen i = 256 \<and> anaLen2 i = 128 \<and> magnLen i = 129 \<and> stages i = 8 \<and> window i = kBlocks160w256x)
     \<and> nsx_fft i = Some \<lparr>order = stages i\<rparr>
     \<and> length (noiseSupFilter i) = 129 \<and> length (noiseEstLogQuantile i) = 387 \<and> length (noiseEstDensity i) = 387
     \<and> length (noiseEstQuantile i) = 129 \<and> length (logLrtTimeAvgW32 i) = 129 \<and> length (avgMagnPause i) = 129
     \<and> length (initMagnEst i) = 129 \<and> length (prevNoiseU32 i) = 129 \<and> length (prevMagnU16 i) = 129
     \<and> length (histLrt i) = 1000 \<and> length (histSpecFlat i) = 1000 \<and> length (histSpecDiff i) = 1000
     \<and> length (realPart i) = 256 \<and> length (imagPart i) = 256"

text \<open>The buffers of samples.\<close>

definition samples_ok :: "nat \<Rightarrow> int list \<Rightarrow> bool" where
  "samples_ok n xs \<longleftrightarrow> length xs = n \<and> list_all is_s16 xs"

definition nsx_buffers :: "NoiseSuppressionFixedC \<Rightarrow> bool" where
  "nsx_buffers i \<longleftrightarrow> samples_ok 256 (analysisBuffer i) \<and> samples_ok 256 (synthesisBuffer i)
     \<and> length (dataBufHBFX i) = 2 \<and> list_all (samples_ok 256) (dataBufHBFX i)"

text \<open>
  The values: a policy is set; the filter coefficients are at least the lowest floor of a policy and at most one; the counters
  of the quantiles index their table; weights and thresholds are in their limits.
\<close>

definition policy_ok :: "NoiseSuppressionFixedC \<Rightarrow> bool" where
  "policy_ok i \<longleftrightarrow> (aggrMode i, overdrive i, denoiseBound i, gainMap i) \<in> {(0, 256, 8192, 0), (1, 256, 4096, 1), (2, 282, 2048, 1), (3, 320, 1475, 1)}
     \<and> (gainMap i = 1 \<longrightarrow> length (factor2Table i) = 257)"

definition gain_ok :: "int \<Rightarrow> int \<Rightarrow> bool" where "gain_ok low g \<longleftrightarrow> low \<le> g \<and> g \<le> 16384"

definition counter_ok :: "int \<Rightarrow> bool" where "counter_ok c \<longleftrightarrow> 1 \<le> c \<and> c \<le> 200"

definition thresholds_ok :: "NoiseSuppressionFixedC \<Rightarrow> bool" where
  "thresholds_ok i \<longleftrightarrow> minLrt i \<le> thresholdLogLrt i \<and> thresholdLogLrt i \<le> maxLrt i \<and> minLrt i \<le> maxLrt i
     \<and> 4096 \<le> thresholdSpecFlat i \<and> thresholdSpecFlat i \<le> 38912 \<and> 16 \<le> thresholdSpecDiff i \<and> thresholdSpecDiff i \<le> 100
     \<and> (weightLogLrt i, weightSpecFlat i, weightSpecDiff i) \<in> {(6, 0, 0), (3, 3, 0), (3, 0, 3), (2, 2, 2)}
     \<and> modelUpdate i = 512 \<and> 0 \<le> cntThresUpdate i \<and> cntThresUpdate i < 512"

definition nsx_values :: "NoiseSuppressionFixedC \<Rightarrow> bool" where
  "nsx_values i \<longleftrightarrow> policy_ok i \<and> list_all (gain_ok 1475) (noiseSupFilter i)
     \<and> length (noiseEstCounter i) = 3 \<and> list_all counter_ok (noiseEstCounter i)
     \<and> thresholds_ok i \<and> 0 \<le> minNorm i \<and> minNorm i \<le> 15 \<and> - 1 \<le> blockIndex i"

definition nsx_ok :: "NoiseSuppressionFixedC \<Rightarrow> bool" where
  "nsx_ok i \<longleftrightarrow> nsx_dims i \<and> nsx_buffers i \<and> nsx_values i"

lemmas nsx_simps = nsx_ok_def nsx_dims_def nsx_buffers_def nsx_values_def policy_ok_def thresholds_ok_def

section \<open>Initialisation and policy\<close>

text \<open>What the memory of a new object must have: arrays for the spectrum.\<close>

definition nsx_raw :: "NoiseSuppressionFixedC \<Rightarrow> bool" where
  "nsx_raw raw \<longleftrightarrow> length (realPart raw) = 256 \<and> length (imagPart raw) = 256"

lemma nsx_table_lengths [simp]:
  "length kFactor2Aggressiveness1 = 257" "length kFactor2Aggressiveness2 = 257" "length kFactor2Aggressiveness3 = 257"
  "length kFactor1Table = 257" "length WebRtcNsx_kCounterDiv = 201"
  "length kBlocks80w128x = 128" "length kBlocks160w256x = 256"
  by (simp_all add: kFactor2Aggressiveness1_def kFactor2Aggressiveness2_def kFactor2Aggressiveness3_def kFactor1Table_def
      WebRtcNsx_kCounterDiv_def kBlocks80w128x_def kBlocks160w256x_def)

lemma set_policy_ok: "nsx_ok i \<Longrightarrow> nsx_ok (fst (WebRtcNsx_set_policy_core i mode))"
  by (auto simp: WebRtcNsx_set_policy_core_def nsx_ok_def nsx_dims_def nsx_buffers_def nsx_values_def policy_ok_def thresholds_ok_def Let_def)

lemma nsx_init_ok:
  assumes "nsx_raw raw" "rate \<in> {8000, 16000, 32000, 48000}"
  obtains i where "WebRtcNsx_InitCore True (Some raw) rate = (Some i, 0)" "nsx_ok i" "fs i = rate" "blockIndex i = - 1"
proof -
  let ?f = "(nsx_format raw rate)\<lparr>nsx_fft := WebRtcSpl_CreateRealFFT True (int (stages (nsx_format raw rate)))\<rparr>"
  let ?i = "(fst (WebRtcNsx_set_policy_core (nsx_reset ?f) 0))\<lparr>nsx_initFlag := 1\<rparr>"
  have fft: "nsx_fft ?f = Some \<lparr>order = stages ?f\<rparr>"
    by (simp add: nsx_format_def WebRtcSpl_CreateRealFFT_def kMaxFFTOrder_def Let_def)
  have e: "WebRtcNsx_InitCore True (Some raw) rate = (Some ?i, 0)"
    using assms(2) fft by (auto simp: WebRtcNsx_InitCore_def Let_def)
  have "nsx_dims ?i" using assms fft
    by (auto simp: nsx_dims_def nsx_raw_def WebRtcNsx_set_policy_core_def nsx_reset_def nsx_format_def Let_def
        HALF_ANAL_BLOCKL_def SIMULT_def HIST_PAR_EST_def)
  moreover have "nsx_buffers ?i"
    by (simp add: nsx_buffers_def samples_ok_def WebRtcNsx_set_policy_core_def nsx_reset_def Let_def list_all_length is_s16_def
        ANAL_BLOCKL_MAX_def NUM_HIGH_BANDS_MAX_def)
  moreover have "nsx_values ?i"
    by (simp add: nsx_values_def policy_ok_def thresholds_ok_def WebRtcNsx_set_policy_core_def nsx_reset_def nsx_format_def Let_def
        list_all_length gain_ok_def counter_ok_def SIMULT_def END_STARTUP_LONG_def STAT_UPDATES_def shl_def s16_def cdiv_def
        numeral_eq_Suc less_Suc_eq nth_Cons')
  ultimately have "nsx_ok ?i" by (simp add: nsx_ok_def)
  moreover have "fs ?i = rate" "blockIndex ?i = - 1"
    by (simp_all add: WebRtcNsx_set_policy_core_def nsx_reset_def nsx_format_def Let_def)
  ultimately show ?thesis using that e by blast
qed

section \<open>Analysis and synthesis keep the invariant\<close>

lemma samples_blit: "samples_ok n dst \<Longrightarrow> list_all is_s16 src \<Longrightarrow> k + length src \<le> n \<Longrightarrow> samples_ok n (blit dst k src)"
  by (simp add: samples_ok_def list_all_blit len_simps)

lemma block_fits: "nsx_dims i \<Longrightarrow> blockLen10ms i \<le> anaLen i \<and> anaLen i \<le> 256"
  by (auto simp: nsx_dims_def)

lemma append_high_band_ok:
  assumes "nsx_dims i" "samples_ok 256 buf" "samples_ok (blockLen10ms i) frame"
  shows "samples_ok 256 (append_high_band i buf frame)"
  using assms(2,3) block_fits [OF assms(1)]
  by (auto simp: append_high_band_def Let_def intro!: samples_blit list_all_take list_all_drop) (simp_all add: samples_ok_def list_all_take list_all_drop)

lemma analysis_update_ok:
  assumes "nsx_ok i" "samples_ok (blockLen10ms i) frame"
  shows "nsx_ok (fst (AnalysisUpdateC i frame))"
proof -
  have "samples_ok 256 (analysisBuffer (fst (AnalysisUpdateC i frame)))"
    using append_high_band_ok [of i "analysisBuffer i" frame] assms
    by (simp add: AnalysisUpdateC_def append_high_band_def Let_def nsx_ok_def nsx_buffers_def)
  then show ?thesis using assms(1) by (simp add: AnalysisUpdateC_def Let_def nsx_simps)
qed

lemma read_out_ok:
  assumes "nsx_ok i" "samples_ok 256 buf"
  shows "nsx_ok (fst (read_out i buf))" "samples_ok (blockLen10ms i) (snd (read_out i buf))"
proof -
  have f: "blockLen10ms i \<le> anaLen i" "anaLen i \<le> 256" using block_fits assms(1) by (simp_all add: nsx_ok_def)
  let ?b = "blit buf 0 (take (anaLen i - blockLen10ms i) (drop (blockLen10ms i) buf))"
  have b: "samples_ok 256 ?b"
    by (rule samples_blit [OF assms(2)]) (use assms(2) f in \<open>simp_all add: samples_ok_def list_all_take list_all_drop\<close>)
  then have z: "WebRtcSpl_ZerosArrayW16 ?b (anaLen i - blockLen10ms i) (blockLen10ms i)
      = blit ?b (anaLen i - blockLen10ms i) (replicate (blockLen10ms i) 0)"
    using f by (simp add: WebRtcSpl_ZerosArrayW16_def MemSetW16_eq samples_ok_def)
  have "samples_ok 256 (WebRtcSpl_ZerosArrayW16 ?b (anaLen i - blockLen10ms i) (blockLen10ms i))"
    unfolding z by (rule samples_blit [OF b]) (use f in \<open>simp_all add: list_all_length is_s16_def\<close>)
  then show "nsx_ok (fst (read_out i buf))" using assms(1) by (simp add: read_out_def Let_def nsx_simps)
  show "samples_ok (blockLen10ms i) (snd (read_out i buf))"
    using assms(2) f by (simp add: read_out_def Let_def samples_ok_def list_all_take)
qed

lemma synthesis_update_ok:
  assumes "nsx_ok i"
  shows "nsx_ok (fst (SynthesisUpdateC i g))" "samples_ok (blockLen10ms i) (snd (SynthesisUpdateC i g))"
proof -
  have "anaLen i \<le> 256" "samples_ok 256 (synthesisBuffer i)"
    using block_fits assms by (simp_all add: nsx_ok_def nsx_buffers_def)
  then have "samples_ok 256 (blit (synthesisBuffer i) 0
       (map (\<lambda>k. let tmp16a = s16 (WEBRTC_SPL_MUL_16_16_RSFT_WITH_ROUND (window i ! k) (realPart i ! k) 14);
                     tmp16b = WebRtcSpl_SatW32ToW16 (WEBRTC_SPL_MUL_16_16_RSFT_WITH_ROUND tmp16a g 13)
                 in WebRtcSpl_AddSatW16 (synthesisBuffer i ! k) tmp16b) [0..<anaLen i]))"
    by (intro samples_blit) (simp_all add: list_all_length AddSatW16_eq Let_def)
  then show "nsx_ok (fst (SynthesisUpdateC i g))" "samples_ok (blockLen10ms i) (snd (SynthesisUpdateC i g))"
    using read_out_ok [OF assms] by (simp_all add: SynthesisUpdateC_def)
qed

lemma spectrum_arrays_ok:
  "nsx_ok i \<Longrightarrow> length re = 256 \<Longrightarrow> length im = 256 \<Longrightarrow> nsx_ok (i\<lparr>realPart := re, imagPart := im\<rparr>)"
  by (simp add: nsx_simps)

lemma spectrum_fits: "nsx_ok i \<Longrightarrow> magnLen i \<le> 129 \<and> anaLen i \<le> 256 \<and> length (realPart i) = 256 \<and> length (imagPart i) = 256"
  by (auto simp: nsx_ok_def nsx_dims_def)

lemma prepare_spectrum_ok: "nsx_ok i \<Longrightarrow> nsx_ok (fst (PrepareSpectrumC i))"
  using spectrum_fits [of i] by (simp add: PrepareSpectrumC_def Let_def spectrum_arrays_ok len_simps)

lemma denormalize_ok: "nsx_ok i \<Longrightarrow> nsx_ok (DenormalizeC i inp f)"
  using spectrum_fits [of i] spectrum_arrays_ok [of i _ "imagPart i"] by (simp add: DenormalizeC_def len_simps)

lemma same_block [simp]:
  "blockLen10ms (fst (AnalysisUpdateC i frame)) = blockLen10ms i" "blockLen10ms (fst (PrepareSpectrumC i)) = blockLen10ms i"
  "blockLen10ms (DenormalizeC i inp f) = blockLen10ms i" "blockLen10ms (fst (read_out i buf)) = blockLen10ms i"
  "blockLen10ms (fst (SynthesisUpdateC i g)) = blockLen10ms i"
  by (simp_all add: AnalysisUpdateC_def PrepareSpectrumC_def DenormalizeC_def read_out_def SynthesisUpdateC_def Let_def)

lemma energy_update_ok: "nsx_ok i \<Longrightarrow> nsx_ok (i\<lparr>energyIn := en\<rparr>)"
  by (simp add: nsx_simps)

lemma data_synthesis_ok:
  assumes "nsx_ok i"
  shows "nsx_ok (fst (WebRtcNsx_DataSynthesis i))" "samples_ok (blockLen10ms i) (snd (WebRtcNsx_DataSynthesis i))"
proof -
  obtain j fb where p: "PrepareSpectrumC i = (j, fb)" by (rule prod.exhaust)
  obtain out r where r: "WebRtcSpl_RealInverseFFT (the (nsx_fft j)) fb = (out, r)" by (rule prod.exhaust)
  let ?k = "DenormalizeC j r out"
  have k: "nsx_ok ?k" "blockLen10ms ?k = blockLen10ms i"
    using prepare_spectrum_ok [OF assms] same_block(2) [of i] p by (simp_all add: denormalize_ok)
  have b: "samples_ok 256 (synthesisBuffer i)" using assms by (simp add: nsx_ok_def nsx_buffers_def)
  show "nsx_ok (fst (WebRtcNsx_DataSynthesis i))" "samples_ok (blockLen10ms i) (snd (WebRtcNsx_DataSynthesis i))"
    using read_out_ok [OF assms b] synthesis_update_ok [OF energy_update_ok [OF k(1)]] synthesis_update_ok [OF k(1)] k(2) p r
    by (simp_all add: WebRtcNsx_DataSynthesis_def Let_def split: prod.splits)
qed

text \<open>What no step of a frame changes once the samples are in the buffer.\<close>

definition nsx_fixed :: "NoiseSuppressionFixedC \<Rightarrow> int \<times> int \<times> int \<times> nat \<times> nat \<times> nat \<times> int list list \<times> int list" where
  "nsx_fixed i = (blockIndex i, denoiseBound i, fs i, magnLen i, blockLen10ms i, anaLen2 i, dataBufHBFX i, analysisBuffer i)"

lemma pink_noise_ok: "nsx_ok i \<Longrightarrow> nsx_ok (pink_noise i magn)" "nsx_fixed (pink_noise i magn) = nsx_fixed i"
    "normData (pink_noise i magn) = normData i" "zeroInputSignal (pink_noise i magn) = zeroInputSignal i"
  by (simp_all add: pink_noise_def Let_def nsx_simps nsx_fixed_def split_def)

lemma startup_models_ok:
  "nsx_ok i \<Longrightarrow> nsx_ok (startup_models i magn rsI rsM)" "nsx_fixed (startup_models i magn rsI rsM) = nsx_fixed i"
  "normData (startup_models i magn rsI rsM) = normData i" "zeroInputSignal (startup_models i magn rsI rsM) = zeroInputSignal i"
proof -
  assume i: "nsx_ok i"
  then have "length (blit (initMagnEst i) 0 (map (\<lambda>k. u32 (lsr (initMagnEst i ! k) rsI + asr (magn ! k) rsM)) [0..<magnLen i])) = 129"
    using spectrum_fits [OF i] by (simp add: nsx_ok_def nsx_dims_def len_simps)
  then show "nsx_ok (startup_models i magn rsI rsM)"
    using i unfolding startup_models_def Let_def by (intro pink_noise_ok(1)) (simp add: nsx_simps)
qed (simp_all add: startup_models_def Let_def pink_noise_ok nsx_fixed_def [of "_\<lparr>initMagnEst := _, whiteNoiseLevel := _\<rparr>"], simp_all add: nsx_fixed_def)

lemma spectrum_ok:
  assumes "nsx_ok i"
  shows "nsx_ok (fst (spectrum i w))" "nsx_fixed (fst (spectrum i w)) = nsx_fixed i" "length (snd (spectrum i w)) = magnLen i"
    "normData (fst (spectrum i w)) = normData i" "zeroInputSignal (fst (spectrum i w)) = zeroInputSignal i"
proof -
  have n: "magnLen i = anaLen2 i + 1" "anaLen2 i \<le> 128" using assms by (auto simp: nsx_ok_def nsx_dims_def)
  have ok: "length re = 256 \<Longrightarrow> length im = 256 \<Longrightarrow> nsx_ok (i\<lparr>realPart := re, imagPart := im, magnEnergy := e, sumMagn := m\<rparr>)" for re im e m
    using assms by (simp add: nsx_simps)
  show "nsx_ok (fst (spectrum i w))" unfolding spectrum_def Let_def fst_conv
    by (rule ok) (use n spectrum_fits [OF assms] in \<open>simp_all add: len_simps\<close>)
  show "length (snd (spectrum i w)) = magnLen i" using n by (simp add: spectrum_def Let_def)
qed (simp_all add: spectrum_def Let_def nsx_fixed_def)

lemma analysis_fields_ok:
  "nsx_ok i \<Longrightarrow> nsx_ok (i\<lparr>energyIn := en, scaleEnergyIn := sc, zeroInputSignal := z, normData := nd\<rparr>)"
  "nsx_ok i \<Longrightarrow> 0 \<le> m \<Longrightarrow> m \<le> 15 \<Longrightarrow> nsx_ok (i\<lparr>minNorm := m\<rparr>)"
  "nsx_ok i \<Longrightarrow> nsx_ok (i\<lparr>zeroInputSignal := z\<rparr>)"
  by (simp_all add: nsx_simps)

lemma min_norm_range: "nsx_ok i \<Longrightarrow> 0 \<le> minNorm i \<and> minNorm i \<le> 15"
  by (simp add: nsx_ok_def nsx_values_def)

lemma data_analysis_ok:
  assumes i: "nsx_ok i" and f: "samples_ok (blockLen10ms i) frame"
  shows "nsx_ok (fst (WebRtcNsx_DataAnalysis i frame))
      \<and> nsx_fixed (fst (WebRtcNsx_DataAnalysis i frame)) = nsx_fixed (fst (AnalysisUpdateC i frame))"
    and "0 \<le> normData (fst (WebRtcNsx_DataAnalysis i frame)) \<and> normData (fst (WebRtcNsx_DataAnalysis i frame)) \<le> 15"
    and "zeroInputSignal (fst (WebRtcNsx_DataAnalysis i frame)) = 0 \<Longrightarrow> length (snd (WebRtcNsx_DataAnalysis i frame)) = magnLen i"
proof -
  obtain j w where u: "AnalysisUpdateC i frame = (j, w)" by (rule prod.exhaust)
  obtain en sc where e: "WebRtcSpl_Energy w (anaLen j) = (en, sc)" by (rule prod.exhaust)
  let ?m = "WebRtcSpl_MaxAbsValueW16C w (anaLen j)"
  let ?k = "j\<lparr>energyIn := en, scaleEnergyIn := sc, zeroInputSignal := 0, normData := WebRtcSpl_NormW16 ?m\<rparr>"
  let ?r = "normData ?k - minNorm ?k"
  let ?l = "?k\<lparr>minNorm := minNorm ?k - max (- ?r) 0\<rparr>"
  have j: "nsx_ok j" using analysis_update_ok [OF i f] u by simp
  have same: "magnLen j = magnLen i" using u by (auto simp: AnalysisUpdateC_def Let_def)
  have n: "0 \<le> WebRtcSpl_NormW16 ?m \<and> WebRtcSpl_NormW16 ?m \<le> 15"
    by (rule NormW16_bounds) (use MaxAbsValueW16C_range [of w "anaLen j"] in \<open>simp add: is_s16_def\<close>)
  have k0: "nsx_ok ?k" by (rule analysis_fields_ok(1) [OF j])
  note k = k0 analysis_fields_ok(3) [OF k0, of 1]
  have l: "nsx_ok ?l" by (rule analysis_fields_ok(2) [OF k(1)]) (use n min_norm_range [OF j] in \<open>auto simp: max_def\<close>)
  obtain q magn where s: "spectrum ?l (snd (WebRtcSpl_RealForwardFFT (the (nsx_fft ?l)) (NormalizeRealBufferC ?l w))) = (q, magn)"
    by (rule prod.exhaust)
  have q: "nsx_ok q" "nsx_fixed q = nsx_fixed ?l" "length magn = magnLen ?l" "normData q = normData ?l" "zeroInputSignal q = 0"
    using spectrum_ok [OF l, of "snd (WebRtcSpl_RealForwardFFT (the (nsx_fft ?l)) (NormalizeRealBufferC ?l w))"] s by simp_all
  have r: "WebRtcNsx_DataAnalysis i frame =
     (if ?m = 0 then (?k\<lparr>zeroInputSignal := 1\<rparr>, [])
      else (if blockIndex q \<ge> END_STARTUP_SHORT then q else startup_models q magn (max (- ?r) 0) (max ?r 0), magn))"
    unfolding WebRtcNsx_DataAnalysis_def u prod.case Let_def e s by simp
  have fl: "nsx_fixed ?l = nsx_fixed j" "nsx_fixed (?k\<lparr>zeroInputSignal := 1\<rparr>) = nsx_fixed j" "magnLen ?l = magnLen i"
    using same by (simp_all add: nsx_fixed_def)
  have fj: "fst (AnalysisUpdateC i frame) = j" using u by simp
  show "nsx_ok (fst (WebRtcNsx_DataAnalysis i frame))
      \<and> nsx_fixed (fst (WebRtcNsx_DataAnalysis i frame)) = nsx_fixed (fst (AnalysisUpdateC i frame))"
  proof (cases "?m = 0")
    case True
    show ?thesis unfolding fj r if_P [OF True] fst_conv using k(2) fl(2) by (rule conjI)
  next
    case False
    then show ?thesis unfolding fj r if_not_P [OF False] using q(1,2) fl(1) startup_models_ok [of q] by simp
  qed
  show "0 \<le> normData (fst (WebRtcNsx_DataAnalysis i frame)) \<and> normData (fst (WebRtcNsx_DataAnalysis i frame)) \<le> 15"
    unfolding r using n q(4) startup_models_ok(3) [of q] by simp
  show "zeroInputSignal (fst (WebRtcNsx_DataAnalysis i frame)) = 0 \<Longrightarrow> length (snd (WebRtcNsx_DataAnalysis i frame)) = magnLen i"
    unfolding r using q(3) fl(3) by (simp split: if_splits)
qed

text \<open>A frame counts as silent when the windowed samples are zero.\<close>

lemma silent_flag:
  "zeroInputSignal (fst (WebRtcNsx_DataAnalysis i frame)) =
    (if WebRtcSpl_MaxAbsValueW16C (snd (AnalysisUpdateC i frame)) (anaLen i) = 0 then 1 else 0)"
proof -
  obtain j w where u: "AnalysisUpdateC i frame = (j, w)" by (rule prod.exhaust)
  have n: "anaLen j = anaLen i" using u by (auto simp: AnalysisUpdateC_def Let_def)
  obtain en sc where e: "WebRtcSpl_Energy w (anaLen j) = (en, sc)" by (rule prod.exhaust)
  let ?k = "j\<lparr>energyIn := en, scaleEnergyIn := sc, zeroInputSignal := 0, normData := WebRtcSpl_NormW16 (WebRtcSpl_MaxAbsValueW16C w (anaLen j))\<rparr>"
  let ?l = "?k\<lparr>minNorm := minNorm ?k - max (- (normData ?k - minNorm ?k)) 0\<rparr>"
  obtain q magn where s: "spectrum ?l (snd (WebRtcSpl_RealForwardFFT (the (nsx_fft ?l)) (NormalizeRealBufferC ?l w))) = (q, magn)"
    by (rule prod.exhaust)
  have "zeroInputSignal q = zeroInputSignal ?l"
    using arg_cong [OF s, of "\<lambda>t. zeroInputSignal (fst t)"] by (simp only: spectrum_def Let_def fst_conv) simp
  then have q: "zeroInputSignal q = 0" by simp
  show ?thesis unfolding WebRtcNsx_DataAnalysis_def u prod.case Let_def e s
    using n q startup_models_ok(4) [of q] by simp
qed

end
