(* ===== verification/Nsx_Run.thy ===== *)
theory Nsx_Run
  imports Nsx_Inv
begin

text \<open>
  The noise suppression over any sequence of frames and policies: the steps of a frame keep the invariant, the
  suppression filter stays between the floor of the policy and one, and what follows for the output.
\<close>

section \<open>The estimate of the noise\<close>

lemma update_estimate_ok:
  "nsx_ok i \<Longrightarrow> nsx_ok (UpdateNoiseEstimate i off)" "nsx_fixed (UpdateNoiseEstimate i off) = nsx_fixed i"
proof -
  assume i: "nsx_ok i"
  have ok: "length q = 129 \<Longrightarrow> nsx_ok (i\<lparr>qNoise := n, noiseEstQuantile := q\<rparr>)" for n q using i by (simp add: nsx_simps)
  show "nsx_ok (UpdateNoiseEstimate i off)" unfolding UpdateNoiseEstimate_def Let_def
    by (rule ok) (use i spectrum_fits [OF i] in \<open>simp add: nsx_ok_def nsx_dims_def len_simps\<close>)
qed (simp add: UpdateNoiseEstimate_def Let_def nsx_fixed_def)

lemma quantile_loop_lengths:
  "length (fst (fold (\<lambda>i (lqs, densities). let (lq, dens) = f i lqs densities in (lqs[g i := lq], densities[g i := dens])) xs s)) = length (fst s)
   \<and> length (snd (fold (\<lambda>i (lqs, densities). let (lq, dens) = f i lqs densities in (lqs[g i := lq], densities[g i := dens])) xs s)) = length (snd s)"
  by (induction xs arbitrary: s) (simp_all add: Let_def split_def)

lemma counters_ok: "nsx_ok i \<Longrightarrow> length (noiseEstCounter i) = 3 \<and> list_all counter_ok (noiseEstCounter i)"
  by (simp add: nsx_ok_def nsx_values_def)

lemma counter_update_ok: "nsx_ok i \<Longrightarrow> length cs = 3 \<Longrightarrow> list_all counter_ok cs \<Longrightarrow> nsx_ok (i\<lparr>noiseEstCounter := cs\<rparr>)"
  by (simp add: nsx_simps)

text \<open>In each turn the counter of an estimate is still in the table, and is counted up or starts again at 1.\<close>

lemma noise_estimator_ok:
  assumes i: "nsx_ok i" and s: "s < 3"
  shows "nsx_ok (noise_estimator lm lv s i)" "nsx_fixed (noise_estimator lm lv s i) = nsx_fixed i"
proof -
  let ?c = "noiseEstCounter i ! s" and ?off = "s * magnLen i"
  obtain lqs ds where f:
    "fold (\<lambda>k (lqs, densities).
                let (lq, dens) = quant_est (blockIndex i) lv (WebRtcNsx_kCounterDiv ! nat ?c) (s16 (?c * WebRtcNsx_kCounterDiv ! nat ?c))
                     (lm k) (lqs ! (?off + k)) (densities ! (?off + k))
                in (lqs[?off + k := lq], densities[?off + k := dens]))
              [0..<magnLen i] (noiseEstLogQuantile i, noiseEstDensity i) = (lqs, ds)" by (rule prod.exhaust)
  let ?j = "i\<lparr>noiseEstLogQuantile := lqs, noiseEstDensity := ds\<rparr>"
  have "length lqs = 387 \<and> length ds = 387"
    using quantile_loop_lengths [of "\<lambda>k lqs densities. quant_est (blockIndex i) lv (WebRtcNsx_kCounterDiv ! nat ?c)
        (s16 (?c * WebRtcNsx_kCounterDiv ! nat ?c)) (lm k) (lqs ! (?off + k)) (densities ! (?off + k))" "\<lambda>k. ?off + k"
        "[0..<magnLen i]" "(noiseEstLogQuantile i, noiseEstDensity i)"] f i
    by (simp add: nsx_ok_def nsx_dims_def)
  then have j: "nsx_ok ?j" and jf: "nsx_fixed ?j = nsx_fixed i" using i by (simp_all add: nsx_simps nsx_fixed_def)
  let ?z = "?j\<lparr>noiseEstCounter := (noiseEstCounter ?j)[s := 0]\<rparr>"
  let ?k = "if ?c \<ge> END_STARTUP_LONG then if blockIndex ?z \<ge> END_STARTUP_LONG then UpdateNoiseEstimate ?z ?off else ?z else ?j"
  have c: "counter_ok ?c" using counters_ok [OF i] s by (simp add: list_all_length)
  have r: "noise_estimator lm lv s i = ?k\<lparr>noiseEstCounter := (noiseEstCounter ?k)[s := s16 (noiseEstCounter ?k ! s + 1)]\<rparr>"
    unfolding noise_estimator_def Let_def using f unfolding Let_def by simp
  have cs: "noiseEstCounter (UpdateNoiseEstimate x off) = noiseEstCounter x" for x off by (simp add: UpdateNoiseEstimate_def Let_def)
  define cs' where "cs' = (noiseEstCounter i)[s := if ?c \<ge> END_STARTUP_LONG then 1 else 1 + ?c]"
  have cs'_ok: "length cs' = 3" "list_all counter_ok cs'"
    using counters_ok [OF i] c by (auto simp: cs'_def counter_ok_def END_STARTUP_LONG_def intro!: list_all_update)
  have r2: "noise_estimator lm lv s i =
      (if ?c \<ge> END_STARTUP_LONG then if blockIndex i \<ge> END_STARTUP_LONG then UpdateNoiseEstimate ?j ?off else ?j else ?j)\<lparr>noiseEstCounter := cs'\<rparr>"
    unfolding r using counters_ok [OF i] c s
    by (simp add: cs cs'_def UpdateNoiseEstimate_def Let_def counter_ok_def s16_def END_STARTUP_LONG_def)
  show "nsx_ok (noise_estimator lm lv s i)" unfolding r2
    by (rule counter_update_ok [OF _ cs'_ok]) (use j update_estimate_ok(1) [OF j] in simp)
  show "nsx_fixed (noise_estimator lm lv s i) = nsx_fixed i" unfolding r2
    using jf update_estimate_ok(2) [of ?j] by (simp add: nsx_fixed_def)
qed

lemma noise_estimation_ok:
  assumes i: "nsx_ok i"
  shows "nsx_ok (fst (NoiseEstimationC i magn))" "nsx_fixed (fst (NoiseEstimationC i magn)) = nsx_fixed i"
    "length (fst (snd (NoiseEstimationC i magn))) = magnLen i"
proof -
  let ?f = "fold (noise_estimator (\<lambda>k. log_magn (log_stages i) (magn ! k)) (log_stages i)) [0..<SIMULT] i"
  have f: "nsx_ok ?f \<and> nsx_fixed ?f = nsx_fixed i"
    by (rule fold_keeps [where P = "\<lambda>j. nsx_ok j \<and> nsx_fixed j = nsx_fixed i"]) (use i noise_estimator_ok in \<open>auto simp: SIMULT_def\<close>)
  then show "nsx_ok (fst (NoiseEstimationC i magn))" "nsx_fixed (fst (NoiseEstimationC i magn)) = nsx_fixed i"
    using update_estimate_ok [of ?f] by (simp_all add: NoiseEstimationC_def Let_def)
  then show "length (fst (snd (NoiseEstimationC i magn))) = magnLen i"
    by (simp add: NoiseEstimationC_def Let_def nsx_fixed_def)
qed

section \<open>Features and thresholds\<close>

lemma SAT_range: "c \<le> a \<Longrightarrow> c \<le> WEBRTC_SPL_SAT a b c \<and> WEBRTC_SPL_SAT a b c \<le> a"
  by (auto simp: WEBRTC_SPL_SAT_def)

lemma flatness_ok:
  "nsx_ok i \<Longrightarrow> nsx_ok (WebRtcNsx_ComputeSpectralFlatness i magn)"
  "nsx_fixed (WebRtcNsx_ComputeSpectralFlatness i magn) = nsx_fixed i"
  by (simp_all add: WebRtcNsx_ComputeSpectralFlatness_def Let_def nsx_simps nsx_fixed_def)

lemma average_energy_ok: "nsx_ok i \<Longrightarrow> nsx_ok (average_energy i)" "nsx_fixed (average_energy i) = nsx_fixed i"
  by (simp_all add: average_energy_def Let_def nsx_simps nsx_fixed_def)

lemma difference_ok:
  "nsx_ok i \<Longrightarrow> nsx_ok (WebRtcNsx_ComputeSpectralDifference i magn)"
  "nsx_fixed (WebRtcNsx_ComputeSpectralDifference i magn) = nsx_fixed i"
  by (simp_all add: WebRtcNsx_ComputeSpectralDifference_def Let_def nsx_simps nsx_fixed_def split_def)

lemma length_count_hist [simp]: "length (count_hist h k) = length h"
  by (simp add: count_hist_def)

lemma histograms_ok: "nsx_ok i \<Longrightarrow> nsx_ok (update_histograms i)" "nsx_fixed (update_histograms i) = nsx_fixed i"
    "cntThresUpdate (update_histograms i) = cntThresUpdate i"
  by (simp_all add: update_histograms_def nsx_simps nsx_fixed_def)

text \<open>The weights that the two choices leave are those of the invariant.\<close>

lemma weights_of_choice:
  fixes flat diff :: int
  assumes "flat \<in> {0, 1}" "diff \<in> {0, 1}"
  shows "(s16 (cdiv 6 (1 + flat + diff)), s16 (flat * cdiv 6 (1 + flat + diff)), s16 (diff * cdiv 6 (1 + flat + diff)))
     \<in> {(6, 0, 0), (3, 3, 0), (3, 0, 3), (2, 2, 2)}"
  using assms by (auto simp: cdiv_def s16_def)

lemma parameters_set:
  assumes i: "nsx_ok i"
    and t: "minLrt i \<le> t1" "t1 \<le> maxLrt i" "4096 \<le> t2" "t2 \<le> 38912" "16 \<le> t3" "t3 \<le> 100"
    and w: "(w1, w2, w3) \<in> {(6, 0, 0), (3, 3, 0), (3, 0, 3), (2, 2, 2)}"
  shows "nsx_ok (i\<lparr>thresholdLogLrt := t1, thresholdSpecFlat := t2, thresholdSpecDiff := t3, weightLogLrt := w1, weightSpecFlat := w2,
     weightSpecDiff := w3, histLrt := replicate HIST_PAR_EST 0, histSpecDiff := replicate HIST_PAR_EST 0, histSpecFlat := replicate HIST_PAR_EST 0\<rparr>)"
proof -
  have "thresholds_ok (i\<lparr>thresholdLogLrt := t1, thresholdSpecFlat := t2, thresholdSpecDiff := t3, weightLogLrt := w1, weightSpecFlat := w2,
     weightSpecDiff := w3, histLrt := replicate HIST_PAR_EST 0, histSpecDiff := replicate HIST_PAR_EST 0, histSpecFlat := replicate HIST_PAR_EST 0\<rparr>)"
    using assms by (simp add: thresholds_ok_def nsx_ok_def nsx_values_def)
  then show ?thesis using i by (simp add: nsx_ok_def nsx_dims_def nsx_buffers_def nsx_values_def policy_ok_def HIST_PAR_EST_def)
qed

lemma extract_ok: "nsx_ok i \<Longrightarrow> nsx_ok (extract_parameters i)" "nsx_fixed (extract_parameters i) = nsx_fixed i"
    "cntThresUpdate (extract_parameters i) = cntThresUpdate i"
proof -
  obtain avg num sq compl where l: "lrt_sums (histLrt i) = (avg, num, sq, compl)" by (rule prod_cases4)
  obtain wf pf where f: "merge_peaks (find_peaks (histSpecFlat i)) = (wf, pf)" by (rule prod.exhaust)
  obtain wd pd where d: "merge_peaks (find_peaks (histSpecDiff i)) = (wd, pd)" by (rule prod.exhaust)
  { assume i: "nsx_ok i"
    then have t: "minLrt i \<le> maxLrt i" "4096 \<le> thresholdSpecFlat i" "thresholdSpecFlat i \<le> 38912" "16 \<le> thresholdSpecDiff i" "thresholdSpecDiff i \<le> 100"
      by (simp_all add: nsx_ok_def nsx_values_def thresholds_ok_def)
    show "nsx_ok (extract_parameters i)"
      unfolding extract_parameters_def l f d prod.case Let_def
      by (rule parameters_set [OF i _ _ _ _ _ _ weights_of_choice])
        (use t SAT_range [OF t(1)] SAT_range [of 4096 38912] SAT_range [of 16 100] in
          \<open>simp_all add: MAX_FLAT_Q10_def MIN_FLAT_Q10_def MAX_DIFF_def MIN_DIFF_def\<close>) }
qed (simp_all add: extract_parameters_def Let_def split_def nsx_fixed_def)

lemma window_fields_ok:
  "nsx_ok i \<Longrightarrow> nsx_ok (i\<lparr>cntThresUpdate := 0, featureSpecDiff := d, timeAvgMagnEnergy := e, curAvgMagnEnergy := 0\<rparr>)"
  by (simp add: nsx_simps)

text \<open>The counter of the frames of a window is below 512 before and after every frame.\<close>

lemma update_window_ok:
  assumes i: "nsx_ok i"
  shows "nsx_ok (update_window i)" "nsx_fixed (update_window i) = nsx_fixed i"
proof -
  have c: "0 \<le> cntThresUpdate i" "cntThresUpdate i < 512" "modelUpdate i = 512"
    using i by (simp_all add: nsx_ok_def nsx_values_def thresholds_ok_def)
  then have n: "s32 (cntThresUpdate i + 1) = cntThresUpdate i + 1" by (simp add: s32_def)
  let ?j = "i\<lparr>cntThresUpdate := cntThresUpdate i + 1\<rparr>"
  have eq: "update_window i =
    (if cntThresUpdate i + 1 = 512
     then (extract_parameters ?j)\<lparr>cntThresUpdate := 0,
            featureSpecDiff := rescale_difference (extract_parameters ?j)
              (shr (u32 (shr (curAvgMagnEnergy (extract_parameters ?j)) STAT_UPDATES + timeAvgMagnEnergy (extract_parameters ?j) + 1)) 1),
            timeAvgMagnEnergy := shr (u32 (shr (curAvgMagnEnergy (extract_parameters ?j)) STAT_UPDATES + timeAvgMagnEnergy (extract_parameters ?j) + 1)) 1,
            curAvgMagnEnergy := 0\<rparr>
     else update_histograms ?j)"
    using c(3) n by (simp add: update_window_def Let_def WebRtcNsx_FeatureParameterExtraction_def)
  have x: "(extract_parameters ?j)\<lparr>cntThresUpdate := 0, featureSpecDiff := d, timeAvgMagnEnergy := e, curAvgMagnEnergy := 0\<rparr>
      = (extract_parameters i)\<lparr>cntThresUpdate := 0, featureSpecDiff := d, timeAvgMagnEnergy := e, curAvgMagnEnergy := 0\<rparr>" for d e
    by (simp add: extract_parameters_def Let_def split_def)
  have j: "cntThresUpdate i + 1 \<noteq> 512 \<Longrightarrow> nsx_ok ?j" using i c by (simp add: nsx_simps)
  show "nsx_ok (update_window i)" unfolding eq x
    using window_fields_ok [OF extract_ok(1) [OF i]] histograms_ok(1) [OF j] by simp
  show "nsx_fixed (update_window i) = nsx_fixed i" unfolding eq x
    using extract_ok(2) [of i] histograms_ok(2) [of ?j] by (simp add: nsx_fixed_def)
qed

lemma speech_prob_ok:
  assumes i: "nsx_ok i"
  shows "nsx_ok (fst (WebRtcNsx_SpeechNoiseProb stray i prior post))" "nsx_fixed (fst (WebRtcNsx_SpeechNoiseProb stray i prior post)) = nsx_fixed i"
    "length (snd (WebRtcNsx_SpeechNoiseProb stray i prior post)) = magnLen i"
proof -
  have ok: "length l = 129 \<Longrightarrow> nsx_ok (i\<lparr>logLrtTimeAvgW32 := l, featureLogLrt := f, priorNonSpeechProb := p\<rparr>)" for l f p
    using i by (simp add: nsx_simps)
  show "nsx_ok (fst (WebRtcNsx_SpeechNoiseProb stray i prior post))"
    unfolding WebRtcNsx_SpeechNoiseProb_def Let_def fst_conv
    by (rule ok) (use i spectrum_fits [OF i] in \<open>simp add: nsx_ok_def nsx_dims_def len_simps\<close>)
qed (simp_all add: WebRtcNsx_SpeechNoiseProb_def Let_def nsx_fixed_def)

section \<open>The suppression filter\<close>

lemma floor_range: "nsx_ok i \<Longrightarrow> 1475 \<le> denoiseBound i \<and> denoiseBound i \<le> 8192"
  by (auto simp: nsx_ok_def nsx_values_def policy_ok_def)

lemma gain_u16: "0 \<le> low \<Longrightarrow> gain_ok low g \<Longrightarrow> gain_ok low (u16 g)"
  by (simp add: gain_ok_def u16_def)

lemma gain_SAT: "low \<le> 16384 \<Longrightarrow> gain_ok low (WEBRTC_SPL_SAT 16384 x low)"
  using SAT_range [of low 16384 x] by (simp add: gain_ok_def)

lemma parametric_filter_range: "nsx_ok i \<Longrightarrow> gain_ok (denoiseBound i) (parametric_filter i est n)"
  using floor_range [of i]
  by (auto simp: parametric_filter_def Let_def gain_ok_def intro!: gain_u16 [unfolded gain_ok_def] gain_SAT [unfolded gain_ok_def])

text \<open>A weighted mean of two gains, as it is computed in the first frames.\<close>

lemma mean_gain:
  assumes a: "gain_ok low f" "gain_ok low t" "0 \<le> low" and b: "0 \<le> b" "b < 50"
  shows "gain_ok low (u16 (WebRtcSpl_DivU32U16 (u32 (u32 (f * b) + u32 (t * (50 - b)))) 50))"
proof -
  have f: "0 \<le> f * b" "f * b \<le> 16384 * 50" using a b mult_mono [of f 16384 b 50] by (simp_all add: gain_ok_def)
  have t: "0 \<le> t * (50 - b)" "t * (50 - b) \<le> 16384 * 50" using a b mult_mono [of t 16384 "50 - b" 50] by (simp_all add: gain_ok_def)
  have u: "u32 (u32 (f * b) + u32 (t * (50 - b))) = f * b + t * (50 - b)" using f t by (simp add: u32_def)
  have "low * b \<le> f * b" "low * (50 - b) \<le> t * (50 - b)" using a b by (auto simp: gain_ok_def intro!: mult_right_mono)
  then have "low * b + low * (50 - b) \<le> f * b + t * (50 - b)" by (rule add_mono)
  then have lo: "low * 50 \<le> f * b + t * (50 - b)" by (simp add: algebra_simps)
  have "f * b \<le> 16384 * b" "t * (50 - b) \<le> 16384 * (50 - b)"
    by (rule mult_right_mono; use a b in \<open>simp add: gain_ok_def\<close>)+
  then have "f * b + t * (50 - b) \<le> 16384 * b + 16384 * (50 - b)" by (rule add_mono)
  then have hi: "f * b + t * (50 - b) \<le> 16384 * 50" by (simp add: algebra_simps)
  have "gain_ok low ((f * b + t * (50 - b)) div 50)" using lo hi by (simp add: gain_ok_def le_div_iff)
  then have "gain_ok low (u16 (u32 ((f * b + t * (50 - b)) div 50)))"
    using a(3) by (intro gain_u16) (simp_all add: gain_ok_def u32_def)
  then show ?thesis by (simp add: WebRtcSpl_DivU32U16_def u)
qed

lemma filter_bin_range:
  assumes "nsx_ok i" "0 \<le> blockIndex i" "blockIndex i < END_STARTUP_SHORT \<Longrightarrow> gain_ok (denoiseBound i) t"
  shows "gain_ok (denoiseBound i) (filter_bin i near cur t)"
proof -
  let ?p = "u32 (WEBRTC_SPL_UMUL_32_16 near DD_PR_SNR_Q11 + WEBRTC_SPL_UMUL_32_16 cur ONE_MINUS_DD_PR_SNR_Q11)"
  let ?t = "u32 (overdrive i + shr (u32 (?p + 8192)) 14)"
  let ?f = "u16 (WEBRTC_SPL_SAT 16384 (u16 (u32 (?p + ?t div 2) div ?t)) (denoiseBound i))"
  have d: "0 \<le> denoiseBound i" "denoiseBound i \<le> 16384" using floor_range [OF assms(1)] by simp_all
  have f: "gain_ok (denoiseBound i) ?f" using d by (intro gain_u16 gain_SAT)
  show ?thesis
  proof (cases "blockIndex i < END_STARTUP_SHORT")
    case True
    then have "blockIndex i < 50" by (simp add: END_STARTUP_SHORT_def)
    from mean_gain [OF f assms(3) [OF True] d(1) assms(2) this] True show ?thesis
      by (simp add: filter_bin_def Let_def END_STARTUP_SHORT_def)
  qed (use f in \<open>simp add: filter_bin_def Let_def\<close>)
qed

text \<open>\<open>fixed_but_index\<close> is what a frame does not change although it counts the frame.\<close>

definition fixed_but_index :: "NoiseSuppressionFixedC \<Rightarrow> int \<times> int \<times> nat \<times> nat \<times> nat" where
  "fixed_but_index i = (denoiseBound i, fs i, magnLen i, blockLen10ms i, anaLen2 i)"

lemma fixed_parts:
  "nsx_fixed i = nsx_fixed j \<Longrightarrow> blockIndex i = blockIndex j \<and> denoiseBound i = denoiseBound j \<and> fs i = fs j
     \<and> magnLen i = magnLen j \<and> blockLen10ms i = blockLen10ms j \<and> anaLen2 i = anaLen2 j
     \<and> dataBufHBFX i = dataBufHBFX j \<and> analysisBuffer i = analysisBuffer j \<and> fixed_but_index i = fixed_but_index j"
  by (simp add: nsx_fixed_def fixed_but_index_def)

lemma update_parts [simp]:
  "blockIndex (fst (AnalysisUpdateC i x)) = blockIndex i" "denoiseBound (fst (AnalysisUpdateC i x)) = denoiseBound i"
  "magnLen (fst (AnalysisUpdateC i x)) = magnLen i" "anaLen2 (fst (AnalysisUpdateC i x)) = anaLen2 i" "fs (fst (AnalysisUpdateC i x)) = fs i"
  "dataBufHBFX (fst (AnalysisUpdateC i x)) = dataBufHBFX i" "fixed_but_index (fst (AnalysisUpdateC i x)) = fixed_but_index i"
  by (simp_all add: AnalysisUpdateC_def Let_def fixed_but_index_def)

lemma blit_gains:
  "list_all (gain_ok low) dst \<Longrightarrow> list_all (gain_ok low') src \<Longrightarrow> low \<le> low' \<Longrightarrow> list_all (gain_ok low) (blit dst 0 src)"
  by (rule list_all_blit) (auto simp: list_all_iff gain_ok_def)

text \<open>The arrays that the end of the frame stores.\<close>

lemma store_frame_ok:
  assumes "nsx_ok i" "length pause = 129" "length filt = 129" "list_all (gain_ok 1475) filt" "length prev = 129" "length m = 129"
  shows "nsx_ok (i\<lparr>avgMagnPause := pause, noiseSupFilter := filt, prevQNoise := q, prevQMagn := qm, prevNoiseU32 := prev, prevMagnU16 := m\<rparr>)"
  using assms by (simp add: nsx_simps)

lemma suppression_ok:
  assumes i: "nsx_ok i" and b: "blockIndex i < 2147483647" and m: "length magn = magnLen i"
  obtains j prob where "suppression stray i magn = (j, prob)" "nsx_ok j" "length prob = magnLen i"
    "fixed_but_index j = fixed_but_index i" "blockIndex j = blockIndex i + 1" "dataBufHBFX j = dataBufHBFX i \<and> analysisBuffer j = analysisBuffer i"
    "list_all (gain_ok (denoiseBound j)) (take (magnLen j) (noiseSupFilter j))"
proof -
  have bi: "- 1 \<le> blockIndex i" using i by (simp add: nsx_ok_def nsx_values_def)
  then have sb: "s32 (blockIndex i + 1) = blockIndex i + 1" using b by (simp add: s32_def)
  let ?a = "i\<lparr>blockIndex := blockIndex i + 1\<rparr>"
  have a: "nsx_ok ?a" using i bi by (simp add: nsx_simps)
  have fa: "fixed_but_index ?a = fixed_but_index i" by (simp add: fixed_but_index_def nsx_fixed_def)
  let ?c = "WebRtcNsx_ComputeSpectralFlatness ?a magn"
  have c: "nsx_ok ?c" "nsx_fixed ?c = nsx_fixed ?a" using flatness_ok [of ?a] a by simp_all
  obtain d noise q where ne: "NoiseEstimationC ?c magn = (d, noise, q)" by (rule prod_cases3)
  have d: "nsx_ok d" "nsx_fixed d = nsx_fixed ?a" "length noise = magnLen ?a"
    using noise_estimation_ok [OF c(1), of magn] ne c(2) fixed_parts [OF c(2)] by simp_all
  obtain tf ns q2 where st: "startup_noise d noise q = (tf, ns, q2)" by (rule prod_cases3)
  have tf: "blockIndex d < END_STARTUP_SHORT \<Longrightarrow> k < magnLen d \<Longrightarrow> gain_ok (denoiseBound d) (tf ! k)" for k
    using st parametric_filter_range [OF d(1)] by (auto simp: startup_noise_def Let_def)
  let ?e = "average_energy d"
  have e: "nsx_ok ?e" "nsx_fixed ?e = nsx_fixed ?a" using average_energy_ok [of d] d by simp_all
  let ?f = "update_window (WebRtcNsx_ComputeSpectralDifference ?e magn)"
  have f: "nsx_ok ?f" "nsx_fixed ?f = nsx_fixed ?a"
    using update_window_ok [OF difference_ok(1) [OF e(1)]] difference_ok(2) [of ?e] e(2) by simp_all
  define snr where "snr = map (\<lambda>k. bin_snr (6 + s16 (normData i - int (stages i)) - q2) (5 - prevQMagn ?e + prevQNoise ?e)
     (magn ! k) (ns ! k) (prevMagnU16 ?e ! k) (noiseSupFilter ?e ! k) (prevNoiseU32 ?e ! k)) [0..<magnLen i]"
  obtain g prob where sp: "WebRtcNsx_SpeechNoiseProb stray ?f (map (\<lambda>t. snd (snd t)) snr) (map fst snr) = (g, prob)" by (rule prod.exhaust)
  have g: "nsx_ok g" "nsx_fixed g = nsx_fixed ?a" "length prob = magnLen ?a"
    using speech_prob_ok [OF f(1), of stray "map (\<lambda>t. snd (snd t)) snr" "map fst snr"] sp f(2) fixed_parts [OF f(2)] by simp_all
  define noise' where "noise' = snd (mealy (update_noise_bin (prevQNoise g - s16 (normData i - int (stages i)))) NOISE_UPDATE_Q8
                         (map (\<lambda>k. (magn ! k, prevNoiseU32 g ! k, prob ! k)) [0..<magnLen i]))"
  define filt where "filt = map (\<lambda>k. filter_bin g (fst (snd (snr ! k)))
     (cur_near_snr (prevQNoise g + 11 - s16 (normData i - int (stages i))) (magn ! k) (noise' ! k)) (tf ! k)) [0..<magnLen i]"
  obtain pause prev q3 where r: "suppression stray i magn =
    (g\<lparr>avgMagnPause := blit (avgMagnPause g) 0 pause, noiseSupFilter := blit (noiseSupFilter g) 0 filt,
       prevQNoise := q3, prevQMagn := s16 (normData i - int (stages i)), prevNoiseU32 := blit (prevNoiseU32 g) 0 prev,
       prevMagnU16 := blit (prevMagnU16 g) 0 magn\<rparr>, prob)" and len: "length pause = magnLen i" "length prev = magnLen i"
  proof (rule that)
    show "suppression stray i magn =
    (g\<lparr>avgMagnPause := blit (avgMagnPause g) 0
          (map (\<lambda>k. update_pause (prevQMagn g - s16 (normData i - int (stages i))) (magn ! k) (prob ! k) (avgMagnPause g ! k)) [0..<magnLen i]),
       noiseSupFilter := blit (noiseSupFilter g) 0 filt,
       prevQNoise := s16 (prevQNoise g + WebRtcSpl_NormU32 (fold (\<lambda>x m. if x > m then x else m) noise' 0) - 5),
       prevQMagn := s16 (normData i - int (stages i)),
       prevNoiseU32 := blit (prevNoiseU32 g) 0
          (map (\<lambda>x. if WebRtcSpl_NormU32 (fold (\<lambda>x m. if x > m then x else m) noise' 0) > 5
                    then lsl x (WebRtcSpl_NormU32 (fold (\<lambda>x m. if x > m then x else m) noise' 0) - 5)
                    else lsr x (5 - WebRtcSpl_NormU32 (fold (\<lambda>x m. if x > m then x else m) noise' 0))) noise'),
       prevMagnU16 := blit (prevMagnU16 g) 0 magn\<rparr>, prob)"
      unfolding suppression_def Let_def sb using ne st sp
      by (simp add: snr_def noise'_def filt_def cong: if_cong)
  qed (simp_all add: noise'_def)
  have ga: "blockIndex g = blockIndex i + 1" "denoiseBound g = denoiseBound i" "magnLen g = magnLen i" "denoiseBound d = denoiseBound i"
    "blockIndex d = blockIndex i + 1" "magnLen d = magnLen i"
    using fixed_parts [OF g(2)] fixed_parts [OF d(2)] by simp_all
  have gains: "list_all (gain_ok (denoiseBound g)) filt"
    using filter_bin_range [OF g(1)] tf ga bi by (simp add: filt_def list_all_length)
  let ?j = "fst (suppression stray i magn)"
  have n: "magnLen g \<le> 129" "length (noiseSupFilter g) = 129" "length (avgMagnPause g) = 129" "length (prevNoiseU32 g) = 129"
    "length (prevMagnU16 g) = 129" "list_all (gain_ok 1475) (noiseSupFilter g)"
    using g(1) spectrum_fits [OF g(1)] by (simp_all add: nsx_ok_def nsx_dims_def nsx_values_def)
  have j: "nsx_ok ?j" unfolding r fst_conv
    by (rule store_frame_ok [OF g(1)])
      (use n len ga m gains blit_gains [OF n(6) gains] floor_range [OF g(1)] in \<open>simp_all add: len_simps filt_def\<close>)
  have "take (magnLen g) (blit (noiseSupFilter g) 0 filt) = filt"
    using n(1,2) ga by (simp add: blit_def filt_def)
  then have "list_all (gain_ok (denoiseBound ?j)) (take (magnLen ?j) (noiseSupFilter ?j))" using gains by (simp add: r)
  moreover have "fixed_but_index ?j = fixed_but_index i" "blockIndex ?j = blockIndex i + 1" "dataBufHBFX ?j = dataBufHBFX i \<and> analysisBuffer ?j = analysisBuffer i"
    using g(2) fa ga by (simp_all add: r fixed_but_index_def nsx_fixed_def)
  moreover have "suppression stray i magn = (?j, prob)" using r by simp
  moreover have "length prob = magnLen i" using g(3) by simp
  ultimately show ?thesis using that j by blast
qed

section \<open>The upper bands\<close>

lemma set_high_band_ok:
  assumes i: "nsx_ok i" and f: "list_all (samples_ok (blockLen10ms i)) frames" "length frames \<le> 2"
  shows "nsx_ok (set_high_band i frames)"
    "fixed_but_index (set_high_band i frames) = fixed_but_index i \<and> blockIndex (set_high_band i frames) = blockIndex i
     \<and> zeroInputSignal (set_high_band i frames) = zeroInputSignal i \<and> analysisBuffer (set_high_band i frames) = analysisBuffer i"
    "noiseSupFilter (set_high_band i frames) = noiseSupFilter i"
    "\<And>k. k < length frames \<Longrightarrow> dataBufHBFX (set_high_band i frames) ! k = append_high_band i (dataBufHBFX i ! k) (frames ! k)"
proof -
  have b: "length (dataBufHBFX i) = 2" "list_all (samples_ok 256) (dataBufHBFX i)" "nsx_dims i"
    using i by (simp_all add: nsx_ok_def nsx_buffers_def)
  let ?n = "map (\<lambda>k. append_high_band i (dataBufHBFX i ! k) (frames ! k)) [0..<length frames]"
  have "list_all (samples_ok 256) ?n" using b f by (auto simp: list_all_length intro!: append_high_band_ok)
  then have "list_all (samples_ok 256) (blit (dataBufHBFX i) 0 ?n)" "length (blit (dataBufHBFX i) 0 ?n) = 2"
    using b f(2) by (simp_all add: list_all_blit len_simps)
  then show "nsx_ok (set_high_band i frames)"
    using i unfolding set_high_band_def by (simp add: nsx_simps)
  show "dataBufHBFX (set_high_band i frames) ! k = append_high_band i (dataBufHBFX i ! k) (frames ! k)" if "k < length frames" for k
    using that b(1) f(2) by (simp add: set_high_band_def nth_blit)
qed (simp_all add: set_high_band_def fixed_but_index_def)

lemma high_band_gain_range: "nsx_ok i \<Longrightarrow> gain_ok (denoiseBound i) (high_band_gain i prob)"
proof -
  assume "nsx_ok i"
  then have d: "0 \<le> denoiseBound i" "denoiseBound i \<le> 8192" using floor_range [of i] by simp_all
  then have s: "s16 (denoiseBound i) = denoiseBound i" by (simp add: s16_def)
  have "gain_ok (denoiseBound i) (s16 (WEBRTC_SPL_SAT 16384 x (denoiseBound i)))" for x
    using gain_SAT [of "denoiseBound i" x] d by (simp add: gain_ok_def s16_def)
  then show ?thesis unfolding high_band_gain_def Let_def s by simp
qed

text \<open>A gain of at most one in Q14 moves no sample away from zero.\<close>

lemma shr_14_bounds: "t \<le> 16384 * x \<Longrightarrow> shr t 14 \<le> x" "16384 * x \<le> t \<Longrightarrow> x \<le> shr t 14" "t \<le> 0 \<Longrightarrow> shr t 14 \<le> 0"
  by (simp_all add: shr_def)

lemma scaled_sample:
  assumes "0 \<le> g" "g \<le> 16384" "is_s16 x"
  shows "s16 (shr (g * x) 14) = shr (g * x) 14" "min 0 x \<le> shr (g * x) 14" "shr (g * x) 14 \<le> max 0 x"
proof -
  have "min 0 x \<le> shr (g * x) 14 \<and> shr (g * x) 14 \<le> max 0 x"
  proof (cases "0 \<le> x")
    case True
    have "g * x \<le> 16384 * x" using assms True by (intro mult_right_mono) simp_all
    moreover have "0 \<le> g * x" using assms True by simp
    ultimately show ?thesis using True by (simp add: shr_14_bounds)
  next
    case False
    have "16384 * x \<le> g * x" using assms False by (intro mult_right_mono_neg) simp_all
    moreover have "g * x \<le> 0" using assms False by (simp add: mult_nonneg_nonpos)
    ultimately show ?thesis using False by (simp add: shr_14_bounds)
  qed
  then show "min 0 x \<le> shr (g * x) 14" "shr (g * x) 14 \<le> max 0 x" by simp_all
  then have "is_s16 (shr (g * x) 14)" using assms(3) by (auto simp: is_s16_def)
  then show "s16 (shr (g * x) 14) = shr (g * x) 14" by (rule s16_id)
qed

section \<open>A frame\<close>

definition frames_ok :: "NoiseSuppressionFixedC \<Rightarrow> int list list \<Rightarrow> bool" where
  "frames_ok i frames \<longleftrightarrow> frames \<noteq> [] \<and> length frames \<le> 3 \<and> list_all (samples_ok (blockLen10ms i)) frames"

lemma synthesis_same:
  "nsx_fixed (fst (WebRtcNsx_DataSynthesis i)) = nsx_fixed i" "noiseSupFilter (fst (WebRtcNsx_DataSynthesis i)) = noiseSupFilter i"
  "zeroInputSignal (fst (WebRtcNsx_DataSynthesis i)) = zeroInputSignal i"
  by (simp_all add: WebRtcNsx_DataSynthesis_def PrepareSpectrumC_def DenormalizeC_def SynthesisUpdateC_def read_out_def Let_def nsx_fixed_def
      split: prod.splits if_splits)

text \<open>A frame of zeros, and one that is not: \<open>h\<close> is the object at the end.\<close>

lemma silent_frame:
  assumes i: "nsx_ok i" and f: "frames_ok i (x # xs)" and an: "WebRtcNsx_DataAnalysis i x = (a, magn)" "zeroInputSignal a \<noteq> 0"
  obtains h out where
    "WebRtcNsx_Process stray i (x # xs) = (h, out # map (\<lambda>k. take (blockLen10ms h) (dataBufHBFX h ! k)) [0..<length xs])"
    "nsx_ok h" "samples_ok (blockLen10ms i) out" "fixed_but_index h = fixed_but_index i" "blockIndex h = blockIndex i"
    "zeroInputSignal h \<noteq> 0" "analysisBuffer h = analysisBuffer (fst (AnalysisUpdateC i x))"
proof -
  have x: "samples_ok (blockLen10ms i) x" "list_all (samples_ok (blockLen10ms i)) xs" "length xs \<le> 2"
    using f by (simp_all add: frames_ok_def)
  have a: "nsx_ok a" "nsx_fixed a = nsx_fixed (fst (AnalysisUpdateC i x))" using data_analysis_ok [OF i x(1)] an by simp_all
  obtain s out where sy: "WebRtcNsx_DataSynthesis a = (s, out)" by (rule prod.exhaust)
  have s: "nsx_ok s" "samples_ok (blockLen10ms i) out" "nsx_fixed s = nsx_fixed (fst (AnalysisUpdateC i x))" "zeroInputSignal s = zeroInputSignal a"
    using data_synthesis_ok [OF a(1)] synthesis_same [of a] sy a(2) fixed_parts [OF a(2)] by simp_all
  let ?h = "if xs = [] then s else set_high_band s xs"
  have "nsx_ok ?h" "fixed_but_index ?h = fixed_but_index i" "blockIndex ?h = blockIndex i" "zeroInputSignal ?h \<noteq> 0"
    "analysisBuffer ?h = analysisBuffer (fst (AnalysisUpdateC i x))"
    using s set_high_band_ok(1,2) [OF s(1), of xs] x fixed_parts [OF s(3)] an(2) by simp_all
  moreover have "WebRtcNsx_Process stray i (x # xs) = (?h, out # map (\<lambda>k. take (blockLen10ms ?h) (dataBufHBFX ?h ! k)) [0..<length xs])"
    using an sy by (simp add: WebRtcNsx_Process_def WebRtcNsx_ProcessCore_def Let_def)
  ultimately show ?thesis using that s(2) by blast
qed

lemma active_frame:
  assumes i: "nsx_ok i" "blockIndex i < 2147483647" and f: "frames_ok i (x # xs)"
    and an: "WebRtcNsx_DataAnalysis i x = (a, magn)" "zeroInputSignal a = 0"
  obtains h out g where
    "WebRtcNsx_Process stray i (x # xs) =
      (h, out # map (\<lambda>k. map (\<lambda>l. s16 (shr (g * dataBufHBFX h ! k ! l) 14)) [0..<blockLen10ms i]) [0..<length xs])"
    "nsx_ok h" "samples_ok (blockLen10ms i) out" "fixed_but_index h = fixed_but_index i" "blockIndex h = blockIndex i + 1"
    "analysisBuffer h = analysisBuffer (fst (AnalysisUpdateC i x))"
    "list_all (gain_ok (denoiseBound h)) (take (magnLen h) (noiseSupFilter h))" "gain_ok (denoiseBound h) g"
    "\<forall>k<length xs. dataBufHBFX h ! k = append_high_band i (dataBufHBFX i ! k) (xs ! k)"
proof -
  have x: "samples_ok (blockLen10ms i) x" "list_all (samples_ok (blockLen10ms i)) xs" "length xs \<le> 2"
    using f by (simp_all add: frames_ok_def)
  have a: "nsx_ok a" "nsx_fixed a = nsx_fixed (fst (AnalysisUpdateC i x))" "length magn = magnLen a"
    using data_analysis_ok [OF i(1) x(1)] an fixed_parts [of a "fst (AnalysisUpdateC i x)"] by simp_all
  note fa = fixed_parts [OF a(2)]
  obtain p prob where su: "suppression stray a magn = (p, prob)" "nsx_ok p" "fixed_but_index p = fixed_but_index a"
    "blockIndex p = blockIndex a + 1" "dataBufHBFX p = dataBufHBFX a \<and> analysisBuffer p = analysisBuffer a" "list_all (gain_ok (denoiseBound p)) (take (magnLen p) (noiseSupFilter p))"
    by (rule suppression_ok [OF a(1) _ a(3)]) (use i(2) fa in auto)
  obtain s out where sy: "WebRtcNsx_DataSynthesis p = (s, out)" by (rule prod.exhaust)
  have pb: "blockLen10ms p = blockLen10ms i" using su(3) fa by (simp add: fixed_but_index_def)
  have s: "nsx_ok s" "samples_ok (blockLen10ms i) out" "nsx_fixed s = nsx_fixed p" "noiseSupFilter s = noiseSupFilter p"
    using data_synthesis_ok [OF su(2)] synthesis_same [of p] sy pb by simp_all
  note fs = fixed_parts [OF s(3)]
  have sb: "blockLen10ms s = blockLen10ms i" using fs pb by simp
  let ?h = "if xs = [] then s else set_high_band s xs"
  note hb = set_high_band_ok [OF s(1), unfolded sb, OF x(2,3)]
  have h: "nsx_ok ?h" "fixed_but_index ?h = fixed_but_index s" "blockIndex ?h = blockIndex s" "noiseSupFilter ?h = noiseSupFilter s"
    using s(1) hb by simp_all
  have an2: "anaLen s = anaLen i" using s(1) i(1) su(3) fs fa by (auto simp: nsx_ok_def nsx_dims_def fixed_but_index_def)
  have "WebRtcNsx_Process stray i (x # xs) =
      (?h, out # map (\<lambda>k. map (\<lambda>l. s16 (shr (high_band_gain ?h prob * dataBufHBFX ?h ! k ! l) 14)) [0..<blockLen10ms i]) [0..<length xs])"
    using an su(1) sy hb(2) sb by (simp add: WebRtcNsx_Process_def WebRtcNsx_ProcessCore_def Let_def fixed_but_index_def)
  moreover have "fixed_but_index ?h = fixed_but_index i" "blockIndex ?h = blockIndex i + 1" using h su fs fa by simp_all
  moreover have "analysisBuffer ?h = analysisBuffer (fst (AnalysisUpdateC i x))" using hb(2) fs su fa by simp
  moreover have "list_all (gain_ok (denoiseBound ?h)) (take (magnLen ?h) (noiseSupFilter ?h))"
    using su(6) h s(4) fs by (simp add: fixed_but_index_def)
  moreover have "\<forall>k<length xs. dataBufHBFX ?h ! k = append_high_band i (dataBufHBFX i ! k) (xs ! k)"
    using hb(4) fs fa su(5) sb an2 by (auto simp: append_high_band_def)
  ultimately show ?thesis using that h(1) s(2) high_band_gain_range [OF h(1)] by blast
qed

lemma nsx_process_ok:
  assumes i: "nsx_ok i" and b: "blockIndex i < 2147483647" and f: "frames_ok i frames"
  obtains j out where "WebRtcNsx_Process stray i frames = (j, out)" "nsx_ok j" "length out = length frames"
    "list_all (samples_ok (blockLen10ms i)) out" "fixed_but_index j = fixed_but_index i" "blockIndex j \<le> blockIndex i + 1"
    "analysisBuffer j = analysisBuffer (fst (AnalysisUpdateC i (hd frames)))"
proof -
  obtain x xs where fr: "frames = x # xs" using f by (auto simp: frames_ok_def neq_Nil_conv)
  note f' = f [unfolded fr]
  obtain a magn where an: "WebRtcNsx_DataAnalysis i x = (a, magn)" by (rule prod.exhaust)
  show ?thesis
  proof (cases "zeroInputSignal a = 0")
    case False
    obtain h out where h: "WebRtcNsx_Process stray i (x # xs) = (h, out # map (\<lambda>k. take (blockLen10ms h) (dataBufHBFX h ! k)) [0..<length xs])"
      "nsx_ok h" "samples_ok (blockLen10ms i) out" "fixed_but_index h = fixed_but_index i" "blockIndex h = blockIndex i"
      "analysisBuffer h = analysisBuffer (fst (AnalysisUpdateC i x))"
      by (rule silent_frame [OF i f' an False])
    have l: "length (dataBufHBFX h) = 2" "list_all (samples_ok 256) (dataBufHBFX h)" "blockLen10ms h \<le> 256"
      using h(2) block_fits [of h] by (auto simp: nsx_ok_def nsx_buffers_def)
    have "samples_ok (blockLen10ms i) (take (blockLen10ms h) (dataBufHBFX h ! k))" if "k < length xs" for k
    proof -
      have "samples_ok 256 (dataBufHBFX h ! k)" using that l(1,2) f' by (simp add: list_all_length frames_ok_def)
      then show ?thesis using l(3) h(4) by (simp add: samples_ok_def list_all_take fixed_but_index_def)
    qed
    then have "list_all (samples_ok (blockLen10ms i)) (out # map (\<lambda>k. take (blockLen10ms h) (dataBufHBFX h ! k)) [0..<length xs])"
      using h(3) by (simp add: list_all_iff)
    then show ?thesis using that [of h] h fr by simp
  next
    case True
    obtain h out g where h: "WebRtcNsx_Process stray i (x # xs) =
        (h, out # map (\<lambda>k. map (\<lambda>l. s16 (shr (g * dataBufHBFX h ! k ! l) 14)) [0..<blockLen10ms i]) [0..<length xs])"
      "nsx_ok h" "samples_ok (blockLen10ms i) out" "fixed_but_index h = fixed_but_index i" "blockIndex h = blockIndex i + 1"
      "analysisBuffer h = analysisBuffer (fst (AnalysisUpdateC i x))"
      by (rule active_frame [OF i b f' an True])
    have "list_all (samples_ok (blockLen10ms i))
        (out # map (\<lambda>k. map (\<lambda>l. s16 (shr (g * dataBufHBFX h ! k ! l) 14)) [0..<blockLen10ms i]) [0..<length xs])"
      using h(3) by (auto simp: samples_ok_def list_all_iff)
    then show ?thesis using that [of h] h fr by simp
  qed
qed

section \<open>Any sequence of calls\<close>

datatype nsx_call = Policy int | Frame "int list list"

fun nsx_step :: "(int \<Rightarrow> int) \<Rightarrow> NoiseSuppressionFixedC \<Rightarrow> nsx_call \<Rightarrow> NoiseSuppressionFixedC \<times> (int + int list list)" where
  "nsx_step stray i (Policy m) = (let (i, r) = WebRtcNsx_set_policy i m in (i, Inl r))"
| "nsx_step stray i (Frame frames) = (let (i, out) = WebRtcNsx_Process stray i frames in (i, Inr out))"

definition nsx_block :: "int \<Rightarrow> nat" where "nsx_block rate = (if rate = 8000 then 80 else 160)"

fun nsx_call_ok :: "nat \<Rightarrow> nsx_call \<Rightarrow> bool" where
  "nsx_call_ok n (Policy m) = True"
| "nsx_call_ok n (Frame frames) = (frames \<noteq> [] \<and> length frames \<le> 3 \<and> list_all (samples_ok n) frames)"

text \<open>A policy is accepted when it is 0 to 3; a frame gives as many samples of 16 bits for each band.\<close>

fun nsx_answer :: "nat \<Rightarrow> nsx_call \<Rightarrow> int + int list list \<Rightarrow> bool" where
  "nsx_answer n (Policy m) (Inl r) = (r = (if 0 \<le> m \<and> m \<le> 3 then 0 else - 1))"
| "nsx_answer n (Frame frames) (Inr out) = (length out = length frames \<and> list_all (samples_ok n) out)"
| "nsx_answer n _ _ = False"

lemma nsx_step_ok:
  assumes i: "nsx_ok i" "blockLen10ms i = n" "blockIndex i < 2147483647" and c: "nsx_call_ok n c"
  obtains j r where "nsx_step stray i c = (j, r)" "nsx_ok j" "blockLen10ms j = n" "blockIndex j \<le> blockIndex i + 1" "nsx_answer n c r"
proof (cases c)
  case (Policy m)
  have "blockLen10ms (fst (WebRtcNsx_set_policy i m)) = n" "blockIndex (fst (WebRtcNsx_set_policy i m)) = blockIndex i"
    "snd (WebRtcNsx_set_policy i m) = (if 0 \<le> m \<and> m \<le> 3 then 0 else - 1)"
    using i by (auto simp: WebRtcNsx_set_policy_def WebRtcNsx_set_policy_core_def Let_def)
  then show ?thesis using that [of "fst (WebRtcNsx_set_policy i m)" "Inl (snd (WebRtcNsx_set_policy i m))"] set_policy_ok [OF i(1), of m] Policy
    by (simp add: WebRtcNsx_set_policy_def split_def Let_def)
next
  case (Frame frames)
  obtain j out where "WebRtcNsx_Process stray i frames = (j, out)" "nsx_ok j" "length out = length frames"
    "list_all (samples_ok (blockLen10ms i)) out" "fixed_but_index j = fixed_but_index i" "blockIndex j \<le> blockIndex i + 1"
    by (rule nsx_process_ok [OF i(1,3), of frames]) (use c i Frame in \<open>auto simp: frames_ok_def\<close>)
  then show ?thesis using that [of j "Inr out"] Frame i(2) by (simp add: fixed_but_index_def nsx_fixed_def)
qed

lemma nsx_calls_ok:
  assumes "nsx_ok i" "blockLen10ms i = n" "blockIndex i + int (length calls) \<le> 2147483647" "list_all (nsx_call_ok n) calls"
  shows "nsx_ok (fst (mealy (nsx_step stray) i calls)) \<and> blockLen10ms (fst (mealy (nsx_step stray) i calls)) = n
     \<and> list_all2 (nsx_answer n) calls (snd (mealy (nsx_step stray) i calls))"
  using assms
proof (induction calls arbitrary: i)
  case (Cons c calls)
  obtain j r where s: "nsx_step stray i c = (j, r)" "nsx_ok j" "blockLen10ms j = n" "blockIndex j \<le> blockIndex i + 1" "nsx_answer n c r"
    by (rule nsx_step_ok [OF Cons.prems(1,2), of c]) (use Cons.prems in auto)
  show ?case using Cons.IH [OF s(2,3)] Cons.prems s by (simp add: split_def Let_def)
qed simp

text \<open>
  C7. From its creation and initialisation at 8, 16, 32 or 48 kHz on, whatever the memory held before and wherever a
  read leaves the table of the sigmoid map, the noise suppression takes every sequence of policies and frames of one
  to three bands (as many frames as fit a counter of 32 bits): a policy is accepted exactly when it is 0 to 3, a frame comes
  back with as many samples of 16 bits in each band, all arrays keep their lengths, the filter coefficients lie between the floor of the lowest
  policy and one, the counters of the quantiles index their table, the weights of the features sum up to
  6 and their thresholds lie within their limits.
\<close>

theorem noise_suppressor_run:
  assumes raw: "nsx_raw raw" and rate: "rate \<in> {8000, 16000, 32000, 48000}"
    and calls: "list_all (nsx_call_ok (nsx_block rate)) calls" "length calls < 2147483648"
  shows "\<exists>i. WebRtcNsx_Init True (Some (WebRtcNsx_Create raw)) rate = (Some i, 0) \<and>
    (let (j, answers) = mealy (nsx_step stray) i calls in nsx_ok j \<and> list_all2 (nsx_answer (nsx_block rate)) calls answers)"
proof -
  have "nsx_raw (WebRtcNsx_Create raw)" using raw by (simp add: nsx_raw_def WebRtcNsx_Create_def)
  moreover have "u32 rate = rate" using rate by (auto simp: u32_def)
  ultimately obtain i where i: "WebRtcNsx_Init True (Some (WebRtcNsx_Create raw)) rate = (Some i, 0)" "nsx_ok i" "fs i = rate" "blockIndex i = - 1"
    using nsx_init_ok [OF _ rate, of "WebRtcNsx_Create raw"] by (metis WebRtcNsx_Init_def)
  have "blockLen10ms i = nsx_block rate" using i(2,3) by (auto simp: nsx_ok_def nsx_dims_def nsx_block_def)
  from nsx_calls_ok [OF i(2) this _ calls(1), of stray] i(1,4) calls(2) show ?thesis by (auto simp: split_def Let_def)
qed

definition malloced_nsx :: NoiseSuppressionFixedC where
  "malloced_nsx = undefined\<lparr>realPart := replicate 256 7, imagPart := replicate 256 0\<rparr>"

lemma noise_suppressor_run_witness:
  "\<exists>i. WebRtcNsx_Init True (Some (WebRtcNsx_Create malloced_nsx)) 16000 = (Some i, 0) \<and>
    (let (j, answers) = mealy (nsx_step (\<lambda>_. 0)) i [Policy 2, Frame [replicate 160 1000], Policy 7, Frame [replicate 160 (- 5), replicate 160 3]]
     in nsx_ok j \<and> list_all2 (nsx_answer (nsx_block 16000)) [Policy 2, Frame [replicate 160 1000], Policy 7, Frame [replicate 160 (- 5), replicate 160 3]] answers)"
proof -
  have r: "nsx_raw malloced_nsx" by (simp add: nsx_raw_def malloced_nsx_def)
  show ?thesis
    by (rule noise_suppressor_run [OF r]) (simp_all add: nsx_block_def samples_ok_def list_all_iff is_s16_def)
qed

end
