(* ===== verification/Nsx_Signal.thy ===== *)
theory Nsx_Signal
  imports Nsx_Run
begin

text \<open>
  The noise suppression and the signal: the gains of a frame, the delay line that the overlapping windows make of the frames up to
  what the filter changes, silence, and the index that leaves the table of the sigmoid map.
\<close>

section \<open>What a frame does to the signal\<close>

lemma append_high_band_start:
  assumes "nsx_ok i" "samples_ok 256 buf" "samples_ok (blockLen10ms i) frame"
  shows "take (blockLen10ms i) (append_high_band i buf frame) = take (blockLen10ms i) (drop (blockLen10ms i) (take (anaLen i) buf) @ frame)"
proof -
  have d: "anaLen i \<le> 2 * blockLen10ms i" "blockLen10ms i \<le> anaLen i" "anaLen i \<le> 256" using assms(1) by (auto simp: nsx_ok_def nsx_dims_def)
  have l: "length buf = 256" "length frame = blockLen10ms i" using assms(2,3) by (simp_all add: samples_ok_def)
  let ?t = "take (anaLen i - blockLen10ms i) (drop (blockLen10ms i) buf)"
  have "take (anaLen i - blockLen10ms i + length frame) (append_high_band i buf frame) = take (anaLen i - blockLen10ms i) (blit buf 0 ?t) @ frame"
    unfolding append_high_band_def Let_def take_all [OF eq_imp_le [OF l(2)]] by (rule take_blit_end) (use d l in \<open>simp add: len_simps\<close>)
  moreover have "take (anaLen i - blockLen10ms i) (blit buf 0 ?t) = ?t"
    using d l by (simp add: blit_def min_def)
  ultimately have t: "take (anaLen i) (append_high_band i buf frame) = ?t @ frame" using d l by simp
  have "take (blockLen10ms i) (append_high_band i buf frame) = take (blockLen10ms i) (take (anaLen i) (append_high_band i buf frame))"
    using d by (simp add: min_def)
  then show ?thesis unfolding t by (simp add: drop_take)
qed

text \<open>
  C16. After a frame that is not silent the suppression filter, by which each bin is multiplied, lies between the floor of
  the policy and one; and each upper band is its input delayed by the overlap of the frames, times one gain that is
  between that floor and one as well, so that no sample of it is moved away from zero.
\<close>

theorem frame_gains:
  assumes i: "nsx_ok i" "blockIndex i < 2147483647" and f: "frames_ok i frames"
    and loud: "zeroInputSignal (fst (WebRtcNsx_DataAnalysis i (hd frames))) = 0"
    and p: "WebRtcNsx_Process stray i frames = (j, out)"
  shows "(\<forall>k<magnLen j. denoiseBound j \<le> noiseSupFilter j ! k \<and> noiseSupFilter j ! k \<le> 16384) \<and>
    (\<exists>g. denoiseBound j \<le> g \<and> g \<le> 16384 \<and>
      (\<forall>k<length frames - 1.
        (let delayed = take (blockLen10ms i) (drop (blockLen10ms i) (take (anaLen i) (dataBufHBFX i ! k)) @ frames ! Suc k)
         in out ! Suc k = map (\<lambda>x. shr (g * x) 14) delayed \<and> (\<forall>x \<in> set delayed. min 0 x \<le> shr (g * x) 14 \<and> shr (g * x) 14 \<le> max 0 x))))"
proof -
  obtain x xs where fr: "frames = x # xs" using f by (auto simp: frames_ok_def neq_Nil_conv)
  note f' = f [unfolded fr]
  obtain a magn where an: "WebRtcNsx_DataAnalysis i x = (a, magn)" by (rule prod.exhaust)
  have z: "zeroInputSignal a = 0" using loud an fr by simp
  obtain h' out' g' where h': "WebRtcNsx_Process stray i (x # xs) =
      (h', out' # map (\<lambda>k. map (\<lambda>l. s16 (shr (g' * dataBufHBFX h' ! k ! l) 14)) [0..<blockLen10ms i]) [0..<length xs])"
    "nsx_ok h'" "samples_ok (blockLen10ms i) out'" "fixed_but_index h' = fixed_but_index i" "blockIndex h' = blockIndex i + 1"
    "analysisBuffer h' = analysisBuffer (fst (AnalysisUpdateC i x))" "list_all (gain_ok (denoiseBound h')) (take (magnLen h') (noiseSupFilter h'))" "gain_ok (denoiseBound h') g'"
    "\<forall>k<length xs. dataBufHBFX h' ! k = append_high_band i (dataBufHBFX i ! k) (xs ! k)"
    by (rule active_frame [OF i f' an z, of stray])
  have j: "j = h'" using p fr h'(1) by simp
  obtain g out0 where h: "out = out0 # map (\<lambda>k. map (\<lambda>l. s16 (shr (g * dataBufHBFX j ! k ! l) 14)) [0..<blockLen10ms i]) [0..<length xs]"
    "list_all (gain_ok (denoiseBound j)) (take (magnLen j) (noiseSupFilter j))" "gain_ok (denoiseBound j) g" "nsx_ok j"
    "\<And>k. k < length xs \<Longrightarrow> dataBufHBFX j ! k = append_high_band i (dataBufHBFX i ! k) (xs ! k)"
    by (rule that [of out' g']) (use p fr h' j in auto)
  have m: "magnLen j \<le> length (noiseSupFilter j)" using h(4) by (auto simp: nsx_ok_def nsx_dims_def)
  then have filt: "\<forall>k<magnLen j. denoiseBound j \<le> noiseSupFilter j ! k \<and> noiseSupFilter j ! k \<le> 16384"
    using h(2) by (simp add: list_all_length gain_ok_def)
  have g: "0 \<le> g" "denoiseBound j \<le> g" "g \<le> 16384" using h(3) floor_range [OF h(4)] by (simp_all add: gain_ok_def)
  have "let delayed = take (blockLen10ms i) (drop (blockLen10ms i) (take (anaLen i) (dataBufHBFX i ! k)) @ xs ! k)
         in out ! Suc k = map (\<lambda>x. shr (g * x) 14) delayed \<and> (\<forall>x \<in> set delayed. min 0 x \<le> shr (g * x) 14 \<and> shr (g * x) 14 \<le> max 0 x)"
    if k: "k < length xs" for k
  proof -
    have b: "samples_ok 256 (dataBufHBFX i ! k)" "samples_ok (blockLen10ms i) (xs ! k)" "blockLen10ms i \<le> 256"
      using i(1) f' k block_fits [of i] by (auto simp: nsx_ok_def nsx_buffers_def frames_ok_def list_all_length)
    define delayed where "delayed = take (blockLen10ms i) (drop (blockLen10ms i) (take (anaLen i) (dataBufHBFX i ! k)) @ xs ! k)"
    have d: "take (blockLen10ms i) (dataBufHBFX j ! k) = delayed"
      using append_high_band_start [OF i(1) b(1,2)] h(5) [OF k] by (simp add: delayed_def)
    have l: "length (dataBufHBFX j ! k) = 256"
      using append_high_band_ok [OF _ b(1,2)] i(1) h(5) [OF k] by (simp add: samples_ok_def nsx_ok_def)
    have s: "is_s16 y" if "y \<in> set delayed" for y
    proof -
      have "list_all is_s16 delayed"
        unfolding delayed_def using b by (intro list_all_take) (simp add: list_all_drop list_all_take samples_ok_def)
      then show ?thesis using that by (simp add: list_all_iff)
    qed
    have "out ! Suc k = map (\<lambda>x. s16 (shr (g * x) 14)) delayed"
      using k l b(3) by (intro nth_equalityI) (simp_all add: h(1) flip: d)
    also have "\<dots> = map (\<lambda>x. shr (g * x) 14) delayed" using scaled_sample(1) [OF g(1,3) s] by simp
    finally show ?thesis unfolding delayed_def [symmetric] Let_def
      using scaled_sample(2,3) [OF g(1,3) s] by (intro conjI ballI)
  qed
  then show ?thesis using filt g fr by auto
qed

text \<open>A frame in which one windowed sample is not zero is not silent.\<close>

lemma loud_frame:
  assumes "k < anaLen i" "snd (AnalysisUpdateC i frame) ! k \<noteq> 0"
  shows "zeroInputSignal (fst (WebRtcNsx_DataAnalysis i frame)) = 0"
proof -
  let ?w = "snd (AnalysisUpdateC i frame)"
  have w: "length ?w = anaLen i" "list_all is_s16 ?w" by (simp_all add: AnalysisUpdateC_def Let_def list_all_length)
  have "1 \<le> \<bar>?w ! k\<bar>" using assms(2) by simp
  also have "\<dots> \<le> Max ((\<lambda>l. \<bar>?w ! l\<bar>) ` {..<anaLen i})" using assms(1) by simp
  finally have "WebRtcSpl_MaxAbsValueW16C ?w (anaLen i) \<noteq> 0"
    using MaxAbsValueW16C_eq [OF w(2), of "anaLen i"] w(1) assms(1) by simp
  then show ?thesis by (simp add: silent_flag)
qed

lemma frame_gains_witness:
  "\<exists>i j out. WebRtcNsx_Init True (Some (WebRtcNsx_Create malloced_nsx)) 8000 = (Some i, 0) \<and>
     WebRtcNsx_Process (\<lambda>_. 0) i [replicate 80 1000] = (j, out) \<and>
     (\<forall>k<magnLen j. denoiseBound j \<le> noiseSupFilter j ! k \<and> noiseSupFilter j ! k \<le> 16384)"
proof -
  have r: "nsx_raw (WebRtcNsx_Create malloced_nsx)" by (simp add: nsx_raw_def malloced_nsx_def WebRtcNsx_Create_def)
  obtain i where i: "WebRtcNsx_InitCore True (Some (WebRtcNsx_Create malloced_nsx)) 8000 = (Some i, 0)" "nsx_ok i" "fs i = 8000" "blockIndex i = - 1"
    by (rule nsx_init_ok [OF r, of 8000]) simp_all
  have d: "blockLen10ms i = 80" "anaLen i = 128" "window i = kBlocks80w128x" "length (analysisBuffer i) = 256"
    using i(2,3) by (auto simp: nsx_ok_def nsx_dims_def nsx_buffers_def samples_ok_def)
  have f: "frames_ok i [replicate 80 1000]" using d by (simp add: frames_ok_def samples_ok_def list_all_iff is_s16_def)
  have w: "kBlocks80w128x ! 60 = 16384" by (simp add: kBlocks80w128x_def)
  have "blit (blit (analysisBuffer i) 0 (take 48 (drop 80 (analysisBuffer i)))) 48 (replicate 80 1000) ! 60 = 1000"
    using d(4) by (simp add: nth_blit len_simps)
  then have "snd (AnalysisUpdateC i (replicate 80 1000)) ! 60 = s16 (WEBRTC_SPL_MUL_16_16_RSFT_WITH_ROUND 16384 1000 14)"
    using d(1-3) w by (simp add: AnalysisUpdateC_def Let_def)
  also have "\<dots> = 1000" by (simp add: WEBRTC_SPL_MUL_16_16_RSFT_WITH_ROUND_def WEBRTC_SPL_MUL_16_16_def shl_def shr_def s16_def)
  finally have "snd (AnalysisUpdateC i (replicate 80 1000)) ! 60 = 1000" .
  then have l: "zeroInputSignal (fst (WebRtcNsx_DataAnalysis i (hd [replicate 80 1000]))) = 0"
    using loud_frame [of 60 i "replicate 80 1000"] d by simp
  obtain j out where p: "WebRtcNsx_Process (\<lambda>_. 0) i [replicate 80 1000] = (j, out)" by (rule prod.exhaust)
  have "WebRtcNsx_Init True (Some (WebRtcNsx_Create malloced_nsx)) 8000 = (Some i, 0)" using i(1) by (simp add: WebRtcNsx_Init_def u32_def)
  then show ?thesis using frame_gains [OF i(2) _ f l p] i(4) p by auto
qed

section \<open>The windows\<close>

definition window_values :: "int list \<Rightarrow> nat \<Rightarrow> bool" where
  "window_values win b \<longleftrightarrow> list_all (\<lambda>w. 0 \<le> w \<and> w \<le> 16384) win
     \<and> list_all (\<lambda>(u, v). \<bar>u * u + v * v - 268435456\<bar> \<le> 17304 \<and> u + v \<le> 23171) (zip win (drop b win))
     \<and> list_all (\<lambda>w. w = 16384) (drop (length win - b) (take b win))"

lemma values_80w128x:
  "list_all (\<lambda>w. 0 \<le> w \<and> w \<le> 16384) kBlocks80w128x"
  "list_all (\<lambda>w. w = 16384) (drop 48 (take 80 kBlocks80w128x))"
  "list_all (\<lambda>(u, v). \<bar>u * u + v * v - 268435456\<bar> \<le> 17304 \<and> u + v \<le> 23171) (zip kBlocks80w128x (drop 80 kBlocks80w128x))"
  by (simp_all add: kBlocks80w128x_def)

lemma values_160w256x:
  "list_all (\<lambda>w. 0 \<le> w \<and> w \<le> 16384) kBlocks160w256x"
  "list_all (\<lambda>w. w = 16384) (drop 96 (take 160 kBlocks160w256x))"
  "list_all (\<lambda>(u, v). \<bar>u * u + v * v - 268435456\<bar> \<le> 17304 \<and> u + v \<le> 23171) (zip kBlocks160w256x (drop 160 kBlocks160w256x))"
  by (simp_all add: kBlocks160w256x_def)

lemma tables_window_values: "window_values kBlocks80w128x 80" "window_values kBlocks160w256x 160"
proof -
  have d: "length kBlocks80w128x - 80 = 48" "length kBlocks160w256x - 160 = 96" by simp_all
  show "window_values kBlocks80w128x 80" "window_values kBlocks160w256x 160"
    unfolding window_values_def d by (intro conjI; fact values_80w128x values_160w256x)+
qed

lemma round_14: "\<bar>16384 * shr (a + 8192) 14 - a\<bar> \<le> 8192"
proof -
  have "16384 * ((a + 8192) div 16384) + (a + 8192) mod 16384 = a + 8192" by (rule mult_div_mod_eq)
  moreover have "0 \<le> (a + 8192) mod 16384" "(a + 8192) mod 16384 < 16384" by simp_all
  ultimately have "16384 * ((a + 8192) div 16384) - a \<le> 8192" "a - 16384 * ((a + 8192) div 16384) \<le> 8192" by linarith+
  moreover have "shr (a + 8192) 14 = (a + 8192) div 16384" by (simp add: shr_def)
  ultimately show ?thesis by (simp only: abs_le_iff minus_diff_eq)
qed

text \<open>A sample under the \<open>k\<close>-th value of a window, as it is rounded before the transform and again after it.\<close>

definition weighted :: "int list \<Rightarrow> nat \<Rightarrow> int \<Rightarrow> int" where
  "weighted win k y = s16 (WEBRTC_SPL_MUL_16_16_RSFT_WITH_ROUND (win ! k) y 14)"

lemma weighted_eq:
  assumes "0 \<le> win ! k" "win ! k \<le> 16384" "is_s16 y"
  shows "weighted win k y = shr (win ! k * y + 8192) 14"
proof -
  let ?r = "shr (win ! k * y + 8192) 14"
  have "win ! k * y \<le> win ! k * 32767" "win ! k * (- 32768) \<le> win ! k * y"
    using assms(1,3) mult_left_mono [of y 32767 "win ! k"] mult_left_mono [of "- 32768" y "win ! k"] by (simp_all add: is_s16_def)
  then have "win ! k * y \<le> 16384 * 32767" "- (16384 * 32768) \<le> win ! k * y" using assms(2) by simp_all
  then have "is_s16 ?r" using round_14 [of "win ! k * y"] by (auto simp: is_s16_def abs_le_iff)
  then show ?thesis
    using assms by (simp add: weighted_def WEBRTC_SPL_MUL_16_16_RSFT_WITH_ROUND_def WEBRTC_SPL_MUL_16_16_def shl_def s16_id is_s16_def)
qed

lemma weighted_bounds:
  assumes "0 \<le> win ! k" "win ! k \<le> 16384" "is_s16 y"
  shows "\<bar>16384 * weighted win k y - win ! k * y\<bar> \<le> 8192"
  using round_14 [of "win ! k * y"] by (simp add: weighted_eq [OF assms])

lemma weighted_one: "win ! k = 16384 \<Longrightarrow> is_s16 y \<Longrightarrow> weighted win k y = y"
  by (simp add: weighted_eq shr_def)

lemma weighted_0: "weighted win k 0 = 0"
  by (simp add: weighted_def WEBRTC_SPL_MUL_16_16_RSFT_WITH_ROUND_def WEBRTC_SPL_MUL_16_16_def shr_def shl_def s16_def)

lemma is_s16_weighted [simp]: "is_s16 (weighted win k y)" by (simp add: weighted_def)

text \<open>
  The two values of a window that fall on one sample give it back, up to the rounding and up to what happened to it between
  the two windows.
\<close>

lemma weighted_twice:
  assumes w: "0 \<le> win ! k" "win ! k \<le> 16384" and x: "is_s16 x" and a: "is_s16 a" "\<bar>a - weighted win k x\<bar> \<le> e"
  shows "\<bar>268435456 * weighted win k a - win ! k * win ! k * x\<bar> \<le> (8192 + 16384 * e) * (win ! k) + 134217728"
proof -
  let ?w = "win ! k"
  have "\<bar>16384 * weighted win k a - ?w * a\<bar> \<le> 8192" by (rule weighted_bounds [OF w a(1)])
  then have 1: "\<bar>268435456 * weighted win k a - 16384 * (?w * a)\<bar> \<le> 134217728" by (simp add: abs_le_iff)
  have "\<bar>16384 * weighted win k x - ?w * x\<bar> \<le> 8192" by (rule weighted_bounds [OF w x])
  then have "\<bar>16384 * a - ?w * x\<bar> \<le> 8192 + 16384 * e" using a(2) by (simp add: abs_le_iff)
  then have "\<bar>?w * (16384 * a - ?w * x)\<bar> \<le> ?w * (8192 + 16384 * e)"
    unfolding abs_mult using w(1) by (intro mult_mono) simp_all
  then have "\<bar>16384 * (?w * a) - ?w * ?w * x\<bar> \<le> (8192 + 16384 * e) * ?w" by (simp add: algebra_simps)
  with 1 show ?thesis by (simp add: abs_le_iff)
qed

lemma overlap_sum:
  assumes v: "window_values win b" and k: "k < length win - b" and x: "is_s16 x"
    and a: "is_s16 a" "\<bar>a - weighted win k x\<bar> \<le> e" and c: "is_s16 c" "\<bar>c - weighted win (b + k) x\<bar> \<le> e" and e: "0 \<le> e"
  shows "\<bar>weighted win (b + k) c + weighted win k a - x\<bar> \<le> 3 + 2 * e"
proof -
  let ?u = "win ! k" and ?v = "win ! (b + k)"
  have w: "0 \<le> ?u" "?u \<le> 16384" "0 \<le> ?v" "?v \<le> 16384" "\<bar>?u * ?u + ?v * ?v - 268435456\<bar> \<le> 17304" "?u + ?v \<le> 23171"
    using v k by (auto simp: window_values_def list_all_length add.commute)
  have 1: "\<bar>268435456 * weighted win k a - ?u * ?u * x\<bar> \<le> (8192 + 16384 * e) * ?u + 134217728" by (rule weighted_twice [OF w(1,2) x a])
  have 2: "\<bar>268435456 * weighted win (b + k) c - ?v * ?v * x\<bar> \<le> (8192 + 16384 * e) * ?v + 134217728" by (rule weighted_twice [OF w(3,4) x c])
  have "\<bar>(?u * ?u + ?v * ?v - 268435456) * x\<bar> \<le> 17304 * 32768"
    unfolding abs_mult using w(5) x by (intro mult_mono) (auto simp: is_s16_def)
  then have 3: "\<bar>?u * ?u * x + ?v * ?v * x - 268435456 * x\<bar> \<le> 567017472" by (simp add: algebra_simps)
  have "(8192 + 16384 * e) * (?u + ?v) \<le> (8192 + 16384 * e) * 23171" using w(6) e by (intro mult_left_mono) simp_all
  then have "(8192 + 16384 * e) * ?u + (8192 + 16384 * e) * ?v \<le> 189816832 + 379633664 * e" by (simp add: algebra_simps)
  with 1 2 3 have "\<bar>268435456 * (weighted win (b + k) c + weighted win k a - x)\<bar> \<le> 1025269760 + 379633664 * e"
    unfolding abs_le_iff by (simp add: algebra_simps)
  then show ?thesis using e by (simp add: abs_le_iff)
qed

section \<open>The frames overlap and add up\<close>

text \<open>What neither the analysis nor the suppression of a frame touches: the sums of the output, and which gain applies.\<close>

definition carried :: "NoiseSuppressionFixedC \<Rightarrow> int list \<times> int" where
  "carried i = (synthesisBuffer i, gainMap i)"

lemma carried_estimate: "carried (UpdateNoiseEstimate i off) = carried i \<and> zeroInputSignal (UpdateNoiseEstimate i off) = zeroInputSignal i"
  by (simp add: UpdateNoiseEstimate_def Let_def carried_def)

lemma carried_estimator: "carried (noise_estimator lm lv s i) = carried i \<and> zeroInputSignal (noise_estimator lm lv s i) = zeroInputSignal i"
  using carried_estimate by (simp add: noise_estimator_def Let_def split_def carried_def)

lemma carried_noise:
  "carried (fst (NoiseEstimationC i magn)) = carried i \<and> zeroInputSignal (fst (NoiseEstimationC i magn)) = zeroInputSignal i"
proof -
  let ?f = "fold (noise_estimator (\<lambda>k. log_magn (log_stages i) (magn ! k)) (log_stages i)) [0..<SIMULT] i"
  have "carried ?f = carried i \<and> zeroInputSignal ?f = zeroInputSignal i"
    by (rule fold_keeps [where P = "\<lambda>j. carried j = carried i \<and> zeroInputSignal j = zeroInputSignal i"]) (simp_all add: carried_estimator)
  then show ?thesis using carried_estimate [of ?f] by (simp add: NoiseEstimationC_def Let_def)
qed

lemma carried_window: "carried (update_window i) = carried i \<and> zeroInputSignal (update_window i) = zeroInputSignal i"
  by (simp add: update_window_def WebRtcNsx_FeatureParameterExtraction_def extract_parameters_def update_histograms_def Let_def split_def carried_def)

lemma carried_features:
  "carried (WebRtcNsx_ComputeSpectralFlatness i magn) = carried i \<and> zeroInputSignal (WebRtcNsx_ComputeSpectralFlatness i magn) = zeroInputSignal i"
  "carried (WebRtcNsx_ComputeSpectralDifference i magn) = carried i \<and> zeroInputSignal (WebRtcNsx_ComputeSpectralDifference i magn) = zeroInputSignal i"
  "carried (average_energy i) = carried i \<and> zeroInputSignal (average_energy i) = zeroInputSignal i"
  "carried (fst (WebRtcNsx_SpeechNoiseProb stray i prior post)) = carried i
     \<and> zeroInputSignal (fst (WebRtcNsx_SpeechNoiseProb stray i prior post)) = zeroInputSignal i"
  by (simp_all add: WebRtcNsx_ComputeSpectralFlatness_def WebRtcNsx_ComputeSpectralDifference_def average_energy_def
      WebRtcNsx_SpeechNoiseProb_def Let_def split_def carried_def)

lemma carried_suppression:
  "carried (fst (suppression stray i magn)) = carried i \<and> zeroInputSignal (fst (suppression stray i magn)) = zeroInputSignal i"
proof -
  have store: "carried (j\<lparr>avgMagnPause := a, noiseSupFilter := f, prevQNoise := q, prevQMagn := m, prevNoiseU32 := n, prevMagnU16 := u\<rparr>) = carried j"
      "zeroInputSignal (j\<lparr>avgMagnPause := a, noiseSupFilter := f, prevQNoise := q, prevQMagn := m, prevNoiseU32 := n, prevMagnU16 := u\<rparr>) = zeroInputSignal j"
      "carried (j\<lparr>blockIndex := k\<rparr>) = carried j" for j a f q m n u k by (simp_all add: carried_def)
  let ?a = "i\<lparr>blockIndex := s32 (blockIndex i + 1)\<rparr>"
  obtain d noise q where ne: "NoiseEstimationC (WebRtcNsx_ComputeSpectralFlatness ?a magn) magn = (d, noise, q)"
    by (rule prod_cases3)
  have d: "carried d = carried i \<and> zeroInputSignal d = zeroInputSignal i"
    using carried_noise [of "WebRtcNsx_ComputeSpectralFlatness ?a magn" magn] ne
    by (simp add: carried_features store)
  obtain tf ns q2 where st: "startup_noise d noise q = (tf, ns, q2)" by (rule prod_cases3)
  let ?f = "update_window (WebRtcNsx_ComputeSpectralDifference (average_energy d) magn)"
  define snr where "snr = map (\<lambda>k. bin_snr (6 + s16 (normData ?a - int (stages ?a)) - q2) (5 - prevQMagn (average_energy d) + prevQNoise (average_energy d))
     (magn ! k) (ns ! k) (prevMagnU16 (average_energy d) ! k) (noiseSupFilter (average_energy d) ! k) (prevNoiseU32 (average_energy d) ! k)) [0..<magnLen i]"
  obtain g prob where sp: "WebRtcNsx_SpeechNoiseProb stray ?f (map (\<lambda>t. snd (snd t)) snr) (map fst snr) = (g, prob)" by (rule prod.exhaust)
  have g: "carried g = carried i \<and> zeroInputSignal g = zeroInputSignal i"
    using carried_features(4) [of stray ?f "map (\<lambda>t. snd (snd t)) snr" "map fst snr"] sp d by (simp add: carried_window carried_features)
  show ?thesis unfolding suppression_def Let_def ne prod.case st sp [unfolded snr_def] fst_conv store(1,2) by (rule g)
qed

lemma carried_analysis: "carried (fst (WebRtcNsx_DataAnalysis i x)) = carried i"
proof -
  obtain j w where u: "AnalysisUpdateC i x = (j, w)" by (rule prod.exhaust)
  have j: "carried j = carried i" using u by (auto simp: AnalysisUpdateC_def Let_def carried_def)
  obtain en sc where e: "WebRtcSpl_Energy w (anaLen j) = (en, sc)" by (rule prod.exhaust)
  have models: "carried (startup_models k magn a b) = carried k" for k magn a b
    by (simp add: startup_models_def pink_noise_def Let_def split_def carried_def)
  have spec: "carried (fst (spectrum k v)) = carried k" for k v by (simp add: spectrum_def Let_def carried_def)
  have parts: "carried (k\<lparr>energyIn := en, scaleEnergyIn := sc, zeroInputSignal := z, normData := n\<rparr>) = carried k"
      "carried (k\<lparr>minNorm := m\<rparr>) = carried k" "carried (k\<lparr>zeroInputSignal := z\<rparr>) = carried k" for k z n m by (simp_all add: carried_def)
  show ?thesis unfolding WebRtcNsx_DataAnalysis_def u e prod.case Let_def
    by (simp only: split_def if_distrib [of fst] if_distrib [of carried] fst_conv models spec parts j if_cancel)
qed

lemma dims: "nsx_ok i \<Longrightarrow> blockLen10ms i \<le> anaLen i \<and> anaLen i \<le> 2 * blockLen10ms i \<and> anaLen i \<le> 256
    \<and> length (analysisBuffer i) = 256 \<and> length (synthesisBuffer i) = 256"
  by (auto simp: nsx_ok_def nsx_dims_def nsx_buffers_def samples_ok_def)

lemma read_out_zeros:
  assumes i: "nsx_ok i" and b: "length buf = 256"
  shows "k < anaLen i \<Longrightarrow> synthesisBuffer (fst (read_out i buf)) ! k = (if k < anaLen i - blockLen10ms i then buf ! (blockLen10ms i + k) else 0)"
    and "anaLen (fst (read_out i buf)) = anaLen i"
  using dims [OF i] b
  by (auto simp: read_out_def Let_def WebRtcSpl_ZerosArrayW16_def MemSetW16_eq nth_blit len_simps)

text \<open>The synthesis without a gain: the weighted samples are added to what the frame before left, a block goes out, the rest moves up.\<close>

lemma read_out_sums:
  assumes i: "nsx_ok i" and s: "length s = 256" "\<forall>k<anaLen i. s ! k = f k"
  shows "\<forall>k<blockLen10ms i. snd (read_out i s) ! k = f k"
    "\<forall>k<anaLen i. synthesisBuffer (fst (read_out i s)) ! k = (if k < anaLen i - blockLen10ms i then f (blockLen10ms i + k) else 0)"
  using read_out_zeros(1) [OF i s(1)] dims [OF i] s by (auto simp: read_out_def Let_def)

lemma synthesis_sums:
  assumes i: "nsx_ok i"
  shows "\<forall>k<blockLen10ms i. snd (SynthesisUpdateC i 8192) ! k = clamp16 (synthesisBuffer i ! k + weighted (window i) k (realPart i ! k))"
    "\<forall>k<anaLen i. synthesisBuffer (fst (SynthesisUpdateC i 8192)) ! k = (if k < anaLen i - blockLen10ms i
        then clamp16 (synthesisBuffer i ! (blockLen10ms i + k) + weighted (window i) (blockLen10ms i + k) (realPart i ! (blockLen10ms i + k))) else 0)"
proof -
  have one: "clamp16 (WEBRTC_SPL_MUL_16_16_RSFT_WITH_ROUND (weighted win k y) 8192 13) = weighted win k y" for win k y
  proof -
    define a where "a = weighted win k y"
    have a: "is_s16 a" by (simp add: a_def)
    then have "clamp16 a = a" by (simp add: is_s16_def clamp16_def)
    moreover have "s16 a = a" "s16 8192 = 8192" using a by (simp_all add: s16_id is_s16_def)
    ultimately show ?thesis
      unfolding a_def [symmetric] by (simp add: WEBRTC_SPL_MUL_16_16_RSFT_WITH_ROUND_def WEBRTC_SPL_MUL_16_16_def shl_def shr_def)
  qed
  let ?s = "blit (synthesisBuffer i) 0 (map (\<lambda>k. clamp16 (synthesisBuffer i ! k + weighted (window i) k (realPart i ! k))) [0..<anaLen i])"
  have s: "SynthesisUpdateC i 8192 = read_out i ?s"
    by (simp add: SynthesisUpdateC_def Let_def SatW32ToW16_eq AddSatW16_eq one flip: weighted_def)
  have "length ?s = 256" "\<forall>k<anaLen i. ?s ! k = clamp16 (synthesisBuffer i ! k + weighted (window i) k (realPart i ! k))"
    using dims [OF i] by (simp_all add: len_simps nth_blit)
  from read_out_sums [OF i this] show
    "\<forall>k<blockLen10ms i. snd (SynthesisUpdateC i 8192) ! k = clamp16 (synthesisBuffer i ! k + weighted (window i) k (realPart i ! k))"
    "\<forall>k<anaLen i. synthesisBuffer (fst (SynthesisUpdateC i 8192)) ! k = (if k < anaLen i - blockLen10ms i
        then clamp16 (synthesisBuffer i ! (blockLen10ms i + k) + weighted (window i) (blockLen10ms i + k) (realPart i ! (blockLen10ms i + k))) else 0)"
    unfolding s by simp_all
qed

text \<open>What reaches the synthesis are 16-bit samples; at the lowest policy there is no gain.\<close>

lemma data_synthesis_sums:
  assumes i: "nsx_ok i" "gainMap i = 0" "zeroInputSignal i = 0" and p: "WebRtcNsx_DataSynthesis i = (j, out)"
  shows "\<forall>k<anaLen i. is_s16 (realPart j ! k)"
    "\<forall>k<blockLen10ms i. out ! k = clamp16 (synthesisBuffer i ! k + weighted (window i) k (realPart j ! k))"
    "\<forall>k<anaLen i. synthesisBuffer j ! k = (if k < anaLen i - blockLen10ms i
        then clamp16 (synthesisBuffer i ! (blockLen10ms i + k) + weighted (window i) (blockLen10ms i + k) (realPart j ! (blockLen10ms i + k))) else 0)"
    "gainMap j = 0 \<and> zeroInputSignal j = 0"
proof -
  obtain q fb where q: "PrepareSpectrumC i = (q, fb)" by (rule prod.exhaust)
  obtain sc r where r: "WebRtcSpl_RealInverseFFT (the (nsx_fft q)) fb = (sc, r)" by (rule prod.exhaust)
  have qi: "synthesisBuffer q = synthesisBuffer i" "gainMap q = 0" "anaLen q = anaLen i" "blockLen10ms q = blockLen10ms i" "window q = window i"
      "zeroInputSignal q = 0"
    using q i by (auto simp: PrepareSpectrumC_def Let_def)
  have qk: "nsx_ok q" using prepare_spectrum_ok [OF i(1)] q by simp
  let ?d = "DenormalizeC q r sc"
  have d: "nsx_ok ?d" by (rule denormalize_ok [OF qk])
  have di: "synthesisBuffer ?d = synthesisBuffer i" "anaLen ?d = anaLen i" "blockLen10ms ?d = blockLen10ms i" "window ?d = window i"
      "gainMap ?d = 0" "zeroInputSignal ?d = 0"
    using qi by (simp_all add: DenormalizeC_def)
  have dr: "\<forall>k<anaLen i. is_s16 (realPart ?d ! k)"
    using spectrum_fits [OF qk] qi by (simp add: DenormalizeC_def nth_blit SatW32ToW16_eq)
  have s: "(j, out) = SynthesisUpdateC ?d 8192"
    using p i(3) q r qi by (simp add: WebRtcNsx_DataSynthesis_def DenormalizeC_def)
  have keep: "realPart (fst (SynthesisUpdateC x g)) = realPart x" "gainMap (fst (SynthesisUpdateC x g)) = gainMap x"
      "zeroInputSignal (fst (SynthesisUpdateC x g)) = zeroInputSignal x" for x g
    by (simp_all add: SynthesisUpdateC_def read_out_def Let_def)
  have jr: "realPart j = realPart ?d" "gainMap j = 0 \<and> zeroInputSignal j = 0"
    using keep [of ?d 8192] di by (simp_all flip: s)
  show "\<forall>k<anaLen i. is_s16 (realPart j ! k)" "gainMap j = 0 \<and> zeroInputSignal j = 0" using dr jr by simp_all
  show "\<forall>k<blockLen10ms i. out ! k = clamp16 (synthesisBuffer i ! k + weighted (window i) k (realPart j ! k))"
    using synthesis_sums(1) [OF d] unfolding di jr(1) s [symmetric] by simp
  show "\<forall>k<anaLen i. synthesisBuffer j ! k = (if k < anaLen i - blockLen10ms i
        then clamp16 (synthesisBuffer i ! (blockLen10ms i + k) + weighted (window i) (blockLen10ms i + k) (realPart j ! (blockLen10ms i + k))) else 0)"
    using synthesis_sums(2) [OF d] unfolding di jr(1) s [symmetric] by simp
qed

text \<open>
  \<open>frame_error\<close> is how far the samples that come back from the spectrum are from the windowed samples that went into it: what the
  transforms, the filter and the rounding of a frame that is not silent have changed.
\<close>

definition frame_error :: "(int \<Rightarrow> int) \<Rightarrow> NoiseSuppressionFixedC \<Rightarrow> int list list \<Rightarrow> int" where
  "frame_error stray i frames =
     (let j = fst (WebRtcNsx_Process stray i frames); windowed = snd (AnalysisUpdateC i (hd frames))
      in if zeroInputSignal j = 0 then Max ((\<lambda>k. \<bar>realPart j ! k - windowed ! k\<bar>) ` {..<anaLen i}) else 0)"

lemma analysis_windowed:
  assumes i: "nsx_ok i" and x: "length x = blockLen10ms i" and k: "k < anaLen i"
  shows "snd (AnalysisUpdateC i x) ! k = weighted (window i) k (analysisBuffer (fst (AnalysisUpdateC i x)) ! k)"
    and "analysisBuffer (fst (AnalysisUpdateC i x)) ! k =
      (if k < anaLen i - blockLen10ms i then analysisBuffer i ! (blockLen10ms i + k) else x ! (k - (anaLen i - blockLen10ms i)))"
  using dims [OF i] x k by (auto simp: AnalysisUpdateC_def Let_def weighted_def nth_blit len_simps)

lemma silent_windowed:
  assumes "zeroInputSignal (fst (WebRtcNsx_DataAnalysis i x)) \<noteq> 0" "k < anaLen i"
  shows "snd (AnalysisUpdateC i x) ! k = 0"
  using assms loud_frame by blast

text \<open>A frame, whatever its upper bands: \<open>r\<close> are the samples that are weighted for the second time.\<close>

lemma frame_sums:
  assumes i: "nsx_ok i" "blockIndex i < 2147483647" "gainMap i = 0" and f: "frames_ok i frames"
  obtains j out outs r where "WebRtcNsx_Process stray i frames = (j, out # outs)" "nsx_ok j" "blockIndex j \<le> blockIndex i + 1" "gainMap j = 0"
    "fs j = fs i" "length out = blockLen10ms i" "analysisBuffer j = analysisBuffer (fst (AnalysisUpdateC i (hd frames)))"
    "\<forall>k<anaLen i. is_s16 (r k) \<and> \<bar>r k - snd (AnalysisUpdateC i (hd frames)) ! k\<bar> \<le> frame_error stray i frames"
    "\<forall>k<blockLen10ms i. out ! k = clamp16 (synthesisBuffer i ! k + weighted (window i) k (r k))"
    "\<forall>k<anaLen i. synthesisBuffer j ! k = (if k < anaLen i - blockLen10ms i
        then clamp16 (synthesisBuffer i ! (blockLen10ms i + k) + weighted (window i) (blockLen10ms i + k) (r (blockLen10ms i + k))) else 0)"
proof -
  obtain x xs where fr: "frames = x # xs" using f by (auto simp: frames_ok_def neq_Nil_conv)
  have x: "samples_ok (blockLen10ms i) x" using f fr by (simp add: frames_ok_def)
  obtain j out' where p: "WebRtcNsx_Process stray i frames = (j, out')" "nsx_ok j" "length out' = length frames"
    "list_all (samples_ok (blockLen10ms i)) out'" "fixed_but_index j = fixed_but_index i" "blockIndex j \<le> blockIndex i + 1"
    "analysisBuffer j = analysisBuffer (fst (AnalysisUpdateC i (hd frames)))"
    by (rule nsx_process_ok [OF i(1,2) f, of stray])
  obtain out outs where out': "out' = out # outs" using p(3) fr by (cases out') auto
  obtain a magn where an: "WebRtcNsx_DataAnalysis i x = (a, magn)" by (rule prod.exhaust)
  have a: "nsx_ok a" "carried a = carried i" "fs a = fs i" "zeroInputSignal a = 0 \<Longrightarrow> length magn = magnLen a" "blockIndex a = blockIndex i"
    using data_analysis_ok [OF i(1) x] carried_analysis [of i x] an fixed_parts [of a "fst (AnalysisUpdateC i x)"] by simp_all
  have bands: "carried (set_high_band s hs) = carried s \<and> realPart (set_high_band s hs) = realPart s \<and> zeroInputSignal (set_high_band s hs) = zeroInputSignal s"
    for s hs by (simp add: set_high_band_def carried_def)
  have same: "anaLen s = anaLen i" "blockLen10ms s = blockLen10ms i" "window s = window i" if "nsx_ok s" "fs s = fs i" for s
    using that i(1) by (auto simp: nsx_ok_def nsx_dims_def)
  have jf: "fs j = fs i" using p(5) by (simp add: fixed_but_index_def)
  have ol: "length out = blockLen10ms i" using p(4) out' by (simp add: samples_ok_def)
  show ?thesis
  proof (cases "zeroInputSignal a = 0")
    case True
    obtain y prob where y: "suppression stray a magn = (y, prob)" "nsx_ok y" "fixed_but_index y = fixed_but_index a"
      by (rule suppression_ok [OF a(1) _ a(4) [OF True]]) (use i(2) a(5) in auto)
    have yc: "carried y = carried i" "zeroInputSignal y = 0" "fs y = fs i"
      using carried_suppression [of stray a magn] y(1,3) a True by (simp_all add: fixed_but_index_def)
    obtain s o1 where s: "WebRtcNsx_DataSynthesis y = (s, o1)" by (rule prod.exhaust)
    have yg: "gainMap y = 0" "synthesisBuffer y = synthesisBuffer i" using yc i(3) by (simp_all add: carried_def)
    note sums = data_synthesis_sums [OF y(2) yg(1) yc(2) s, unfolded same [OF y(2) yc(3)] yg(2)]
    have j: "j = (if xs = [] then s else set_high_band s xs)" "out = o1"
      using p(1) out' fr an True y(1) s by (auto simp: WebRtcNsx_Process_def WebRtcNsx_ProcessCore_def Let_def split: if_splits)
    have js: "realPart j = realPart s" "synthesisBuffer j = synthesisBuffer s" "gainMap j = 0" "zeroInputSignal j = 0"
      using bands [of s xs] sums(4) by (simp_all add: j carried_def)
    have e: "\<bar>realPart j ! k - snd (AnalysisUpdateC i (hd frames)) ! k\<bar> \<le> frame_error stray i frames" if "k < anaLen i" for k
      using that js(4) p(1) by (auto simp: frame_error_def Let_def intro!: Max_ge)
    show ?thesis
      by (rule that [of j out outs "\<lambda>k. realPart s ! k"]) (use p out' js jf ol sums e j(2) in simp_all)
  next
    case False
    obtain s o1 where s: "WebRtcNsx_DataSynthesis a = (s, o1)" by (rule prod.exhaust)
    have ag: "gainMap a = 0" "synthesisBuffer a = synthesisBuffer i" using a(2) i(3) by (simp_all add: carried_def)
    have so: "(s, o1) = read_out a (synthesisBuffer i)" using s False ag by (simp add: WebRtcNsx_DataSynthesis_def)
    have keep: "gainMap (fst (read_out z b)) = gainMap z" "zeroInputSignal (fst (read_out z b)) = zeroInputSignal z" for z b
      by (simp_all add: read_out_def Let_def)
    have sg: "gainMap s = 0" "zeroInputSignal s \<noteq> 0" using keep [of a "synthesisBuffer i"] ag False by (simp_all flip: so)
    have j: "j = (if xs = [] then s else set_high_band s xs)" "out = o1"
      using p(1) out' fr an False s by (auto simp: WebRtcNsx_Process_def WebRtcNsx_ProcessCore_def Let_def split: if_splits)
    have js: "synthesisBuffer j = synthesisBuffer s" "gainMap j = 0" "zeroInputSignal j \<noteq> 0"
      using bands [of s xs] sg by (simp_all add: j carried_def)
    have z: "\<bar>0 - snd (AnalysisUpdateC i (hd frames)) ! k\<bar> \<le> frame_error stray i frames" if "k < anaLen i" for k
      using silent_windowed [of i x k] False an that js(3) p(1) fr by (simp add: frame_error_def)
    have sb: "length (synthesisBuffer i) = 256" "list_all is_s16 (synthesisBuffer i)"
      using i(1) by (auto simp: nsx_ok_def nsx_buffers_def samples_ok_def)
    have c: "synthesisBuffer i ! k = clamp16 (synthesisBuffer i ! k + weighted (window i) k 0)" if "k < anaLen i" for k
      using that sb dims [OF i(1)] by (simp add: weighted_0 list_all_length is_s16_def clamp16_def)
    note ro = read_out_sums [OF a(1) sb(1), of "\<lambda>k. clamp16 (synthesisBuffer i ! k + weighted (window i) k 0)", unfolded same [OF a(1,3)], folded so]
    show ?thesis
      by (rule that [of j out outs "\<lambda>k. 0"]) (use p out' js jf ol z ro c j(2) in \<open>simp_all add: is_s16_def\<close>)
  qed
qed

text \<open>
  Between two frames: \<open>h\<close> are the last samples, which the next frame sees again; the sums hold their second weighting, and
  nothing behind them.
\<close>

definition overlapped :: "NoiseSuppressionFixedC \<Rightarrow> int list \<Rightarrow> int \<Rightarrow> bool" where
  "overlapped i h e \<longleftrightarrow> length h = anaLen i - blockLen10ms i \<and> list_all is_s16 h
     \<and> (\<forall>k<length h. analysisBuffer i ! (blockLen10ms i + k) = h ! k
          \<and> (\<exists>r. is_s16 r \<and> \<bar>r - weighted (window i) (blockLen10ms i + k) (h ! k)\<bar> \<le> e \<and> synthesisBuffer i ! k = weighted (window i) (blockLen10ms i + k) r))
     \<and> (\<forall>k. length h \<le> k \<and> k < anaLen i \<longrightarrow> synthesisBuffer i ! k = 0)"

lemma window_ok: "nsx_ok i \<Longrightarrow> window_values (window i) (blockLen10ms i) \<and> length (window i) = anaLen i"
  using tables_window_values by (auto simp: nsx_ok_def nsx_dims_def)

lemma window_flat:
  assumes v: "window_values win b" and k: "length win - b \<le> k" "k < b" "b \<le> length win"
  shows "win ! k = 16384"
proof -
  have "drop (length win - b) (take b win) ! (k - (length win - b)) = win ! k" "k - (length win - b) < length (drop (length win - b) (take b win))"
    using k by auto
  then show ?thesis using v unfolding window_values_def list_all_length by metis
qed

lemma clamped_close:
  assumes "is_s16 x" "\<bar>y - x\<bar> \<le> d"
  shows "\<bar>clamp16 y - x\<bar> \<le> d"
  using assms by (auto simp: clamp16_def is_s16_def abs_le_iff)

lemma clamp16_weighted: "clamp16 (weighted win k r) = weighted win k r"
  using is_s16_weighted [of win k r] by (simp add: is_s16_def clamp16_def)

lemma frame_overlaps:
  assumes i: "nsx_ok i" "blockIndex i < 2147483647" "gainMap i = 0" and f: "frames_ok i frames"
    and h: "overlapped i h e" and e: "frame_error stray i frames \<le> e" "0 \<le> e"
  obtains j out outs where "WebRtcNsx_Process stray i frames = (j, out # outs)" "nsx_ok j" "blockIndex j \<le> blockIndex i + 1" "gainMap j = 0"
    "fs j = fs i" "length out = blockLen10ms i" "overlapped j (drop (blockLen10ms i) (h @ hd frames)) e"
    "\<forall>k<blockLen10ms i. \<bar>out ! k - (h @ hd frames) ! k\<bar> \<le> (if anaLen i - blockLen10ms i \<le> k then e else 3 + 2 * e)"
proof -
  let ?b = "blockLen10ms i" and ?n = "anaLen i" and ?w = "weighted (window i)"
  define v where "v = h @ hd frames"
  obtain j out outs r where p: "WebRtcNsx_Process stray i frames = (j, out # outs)" "nsx_ok j" "blockIndex j \<le> blockIndex i + 1" "gainMap j = 0"
    "fs j = fs i" "length out = ?b" "analysisBuffer j = analysisBuffer (fst (AnalysisUpdateC i (hd frames)))"
    and r: "\<forall>k<?n. is_s16 (r k) \<and> \<bar>r k - snd (AnalysisUpdateC i (hd frames)) ! k\<bar> \<le> frame_error stray i frames"
    and o: "\<forall>k<?b. out ! k = clamp16 (synthesisBuffer i ! k + ?w k (r k))"
    and s: "\<forall>k<?n. synthesisBuffer j ! k = (if k < ?n - ?b then clamp16 (synthesisBuffer i ! (?b + k) + ?w (?b + k) (r (?b + k))) else 0)"
    by (rule frame_sums [OF i f, of stray])
  have d: "?b \<le> ?n" "?n \<le> 2 * ?b" using dims [OF i(1)] by simp_all
  have same: "anaLen j = ?n" "blockLen10ms j = ?b" "window j = window i" using p(2,5) i(1) by (auto simp: nsx_ok_def nsx_dims_def)
  have x: "samples_ok ?b (hd frames)" using f by (cases frames) (simp_all add: frames_ok_def)
  have hl: "length h = ?n - ?b" "list_all is_s16 h" "\<forall>k. length h \<le> k \<and> k < ?n \<longrightarrow> synthesisBuffer i ! k = 0"
    and hk: "\<And>k. k < ?n - ?b \<Longrightarrow> analysisBuffer i ! (?b + k) = h ! k
          \<and> (\<exists>r. is_s16 r \<and> \<bar>r - ?w (?b + k) (h ! k)\<bar> \<le> e \<and> synthesisBuffer i ! k = ?w (?b + k) r)"
    using h by (auto simp: overlapped_def)
  have vl: "length v = ?n" "list_all is_s16 v" using hl x d by (simp_all add: v_def samples_ok_def)
  then have vs: "is_s16 (v ! k)" if "k < ?n" for k using that by (simp add: list_all_length)
  have ab: "analysisBuffer j ! k = v ! k" if "k < ?n" for k
    using analysis_windowed(2) [OF i(1) _ that, of "hd frames"] x hk [of k] hl(1) that by (simp add: p(7) v_def nth_append samples_ok_def)
  have rk: "is_s16 (r k)" "\<bar>r k - ?w k (v ! k)\<bar> \<le> e" if "k < ?n" for k
    using r that e(1) analysis_windowed(1) [OF i(1) _ that, of "hd frames"] ab [OF that] x by (force simp: p(7) samples_ok_def)+
  have out: "\<bar>out ! k - v ! k\<bar> \<le> (if ?n - ?b \<le> k then e else 3 + 2 * e)" if k: "k < ?b" for k
  proof (cases "?n - ?b \<le> k")
    case True
    have "window i ! k = 16384" using window_flat [of "window i" ?b k] window_ok [OF i(1)] True k d by simp
    then have "?w k y = y" if "is_s16 y" for y using weighted_one that by simp
    then have "\<bar>r k - v ! k\<bar> \<le> e" "out ! k = clamp16 (r k)" using rk [of k] vs [of k] k d True o hl by simp_all
    then show ?thesis using clamped_close [of "v ! k" "r k" e] vs [of k] k d True by simp
  next
    case False
    then have kn: "k < ?n - ?b" by simp
    obtain c where c: "is_s16 c" "\<bar>c - ?w (?b + k) (v ! k)\<bar> \<le> e" "synthesisBuffer i ! k = ?w (?b + k) c"
      using hk [OF kn] kn hl(1) by (auto simp: v_def nth_append)
    have "\<bar>?w (?b + k) c + ?w k (r k) - v ! k\<bar> \<le> 3 + 2 * e"
      using window_ok [OF i(1)] kn d by (intro overlap_sum [where b = ?b] vs rk c(1,2) e(2)) simp_all
    then show ?thesis using clamped_close [of "v ! k" "?w (?b + k) c + ?w k (r k)" "3 + 2 * e"] vs [of k] k d False o c(3) by simp
  qed
  have "overlapped j (drop ?b v) e"
    unfolding overlapped_def same
  proof (intro conjI allI impI)
    show "length (drop ?b v) = ?n - ?b" "list_all is_s16 (drop ?b v)" using vl by (simp_all add: list_all_drop)
    fix k
    { assume k: "k < length (drop ?b v)"
      then have k': "?b + k < ?n" "drop ?b v ! k = v ! (?b + k)" "k < ?n - ?b" "k < ?n" using vl by simp_all
      show "analysisBuffer j ! (?b + k) = drop ?b v ! k" using ab k' by simp
      have "synthesisBuffer i ! (?b + k) = 0" using hl d k' by simp
      then have "synthesisBuffer j ! k = ?w (?b + k) (r (?b + k))" using s k' by (simp add: clamp16_weighted)
      then show "\<exists>r. is_s16 r \<and> \<bar>r - ?w (?b + k) (drop ?b v ! k)\<bar> \<le> e \<and> synthesisBuffer j ! k = ?w (?b + k) r"
        using rk [OF k'(1)] k' by auto }
    assume "length (drop ?b v) \<le> k \<and> k < ?n"
    then show "synthesisBuffer j ! k = 0" using s vl by simp
  qed
  then show ?thesis using that [of j out outs] p out unfolding v_def by blast
qed

definition frame_errors :: "(int \<Rightarrow> int) \<Rightarrow> NoiseSuppressionFixedC \<Rightarrow> int list list list \<Rightarrow> int list" where
  "frame_errors stray i calls = snd (mealy (\<lambda>i frames. (fst (WebRtcNsx_Process stray i frames), frame_error stray i frames)) i calls)"

definition call_ok :: "nat \<Rightarrow> int list list \<Rightarrow> bool" where
  "call_ok b frames \<longleftrightarrow> frames \<noteq> [] \<and> length frames \<le> 3 \<and> list_all (samples_ok b) frames"

lemma calls_overlap:
  assumes "nsx_ok i" "blockIndex i + int (length calls) \<le> 2147483647" "gainMap i = 0" "list_all (call_ok (blockLen10ms i)) calls"
    "overlapped i h e" "list_all (\<lambda>d. d \<le> e) (frame_errors stray i calls)" "0 \<le> e"
  shows "length (concat (map hd (snd (mealy (WebRtcNsx_Process stray) i calls)))) = length calls * blockLen10ms i
    \<and> (\<forall>p < length calls * blockLen10ms i. \<bar>concat (map hd (snd (mealy (WebRtcNsx_Process stray) i calls))) ! p - (h @ concat (map hd calls)) ! p\<bar>
         \<le> (if anaLen i - blockLen10ms i \<le> p mod blockLen10ms i then e else 3 + 2 * e))"
  using assms
proof (induction calls arbitrary: i h)
  case (Cons frames calls)
  let ?b = "blockLen10ms i" and ?n = "anaLen i"
  have f: "frames_ok i frames" using Cons.prems(4) by (simp add: call_ok_def frames_ok_def)
  have er: "frame_error stray i frames \<le> e" "list_all (\<lambda>d. d \<le> e) (frame_errors stray (fst (WebRtcNsx_Process stray i frames)) calls)"
    using Cons.prems(6) by (simp_all add: frame_errors_def split_def Let_def)
  obtain j out outs where p: "WebRtcNsx_Process stray i frames = (j, out # outs)" "nsx_ok j" "blockIndex j \<le> blockIndex i + 1" "gainMap j = 0"
    "fs j = fs i" "length out = ?b" "overlapped j (drop ?b (h @ hd frames)) e"
    "\<forall>k<?b. \<bar>out ! k - (h @ hd frames) ! k\<bar> \<le> (if ?n - ?b \<le> k then e else 3 + 2 * e)"
    by (rule frame_overlaps [OF Cons.prems(1) _ Cons.prems(3) f Cons.prems(5) er(1) Cons.prems(7)]) (use Cons.prems(2) in auto)
  have same: "anaLen j = ?n" "blockLen10ms j = ?b" using p(2,5) Cons.prems(1) by (auto simp: nsx_ok_def nsx_dims_def)
  let ?o = "concat (map hd (snd (mealy (WebRtcNsx_Process stray) j calls)))"
  define v where "v = h @ hd frames"
  let ?d = "drop ?b v @ concat (map hd calls)"
  have IH: "length ?o = length calls * ?b" "\<And>p. p < length calls * ?b \<Longrightarrow> \<bar>?o ! p - ?d ! p\<bar> \<le> (if ?n - ?b \<le> p mod ?b then e else 3 + 2 * e)"
    using Cons.IH [OF p(2) _ p(4) _ p(7)] Cons.prems(2,4,7) p(1,3) er(2) by (simp_all add: same v_def)
  have lv: "?b \<le> length v" using f by (cases frames) (simp_all add: frames_ok_def samples_ok_def v_def)
  have split: "h @ concat (map hd (frames # calls)) = take ?b v @ ?d"
    by (simp only: v_def list.map concat.simps append_assoc [symmetric] append_take_drop_id)
  have out: "concat (map hd (snd (mealy (WebRtcNsx_Process stray) i (frames # calls)))) = out @ ?o"
    using p(1) by (simp add: split_def Let_def)
  show ?case unfolding split out
  proof (intro conjI allI impI)
    show "length (out @ ?o) = length (frames # calls) * ?b" using p(6) IH(1) by simp
    fix q assume q: "q < length (frames # calls) * ?b"
    show "\<bar>(out @ ?o) ! q - (take ?b v @ ?d) ! q\<bar> \<le> (if ?n - ?b \<le> q mod ?b then e else 3 + 2 * e)"
    proof (cases "q < ?b")
      case True
      then show ?thesis using p(6) p(8) [folded v_def] lv by (simp add: nth_append [of out] nth_append [of "take ?b v"])
    next
      case False
      then have "q - ?b < length calls * ?b" "q mod ?b = (q - ?b) mod ?b" using q by (simp_all add: le_mod_geq)
      then show ?thesis using IH(2) [of "q - ?b"] False p(6) lv
        by (simp add: nth_append [of out] nth_append [of "take ?b v"] min_absorb2)
    qed
  qed
qed simp

text \<open>
  C39. From its creation and initialisation at 8, 16, 32 or 48 kHz on (its policy is then the lowest, without a gain), the output
  of the lowest band is its input, delayed by the overlap of the frames, up to what happened in the spectrum: when in
  every frame that is not silent the samples that come back from the filter and the transforms differ by at most e from the windowed
  samples that went in, no output sample differs by more than 3 + 2e from the delayed input, and none between
  the overlaps by more than e. The windows, the two buffers, their hop, the rounding and the saturation of the frames add no more
  than that, whatever the signal, the upper bands and the number of frames.
\<close>

theorem windows_reconstruct:
  assumes raw: "nsx_raw raw" and rate: "rate \<in> {8000, 16000, 32000, 48000}"
    and calls: "list_all (call_ok (nsx_block rate)) calls" "length calls < 2147483648"
  shows "\<exists>i. WebRtcNsx_Init True (Some (WebRtcNsx_Create raw)) rate = (Some i, 0) \<and>
    (let b = nsx_block rate; overlap = anaLen i - b;
         delayed = replicate overlap 0 @ concat (map hd calls);
         out = concat (map hd (snd (mealy (WebRtcNsx_Process stray) i calls)));
         e = foldr max (frame_errors stray i calls) 0
     in length out = length calls * b
        \<and> (\<forall>p<length out. \<bar>out ! p - delayed ! p\<bar> \<le> (if overlap \<le> p mod b then e else 3 + 2 * e)))"
proof -
  have "nsx_raw (WebRtcNsx_Create raw)" using raw by (simp add: nsx_raw_def WebRtcNsx_Create_def)
  moreover have "u32 rate = rate" using rate by (auto simp: u32_def)
  ultimately obtain i where i: "WebRtcNsx_Init True (Some (WebRtcNsx_Create raw)) rate = (Some i, 0)" "nsx_ok i" "fs i = rate" "blockIndex i = - 1"
    using nsx_init_ok [OF _ rate, of "WebRtcNsx_Create raw"] by (metis WebRtcNsx_Init_def)
  have b: "blockLen10ms i = nsx_block rate" using i(2,3) by (auto simp: nsx_ok_def nsx_dims_def nsx_block_def)
  have z: "gainMap i = 0" "analysisBuffer i = replicate 256 0" "synthesisBuffer i = replicate 256 0"
    using i(1) by (auto simp: WebRtcNsx_Init_def WebRtcNsx_InitCore_def WebRtcNsx_set_policy_core_def nsx_reset_def Let_def ANAL_BLOCKL_MAX_def split: if_splits)
  let ?e = "foldr max (frame_errors stray i calls) 0" and ?h = "replicate (anaLen i - blockLen10ms i) (0::int)"
  have e: "list_all (\<lambda>d. d \<le> foldr max es 0) es \<and> 0 \<le> foldr max es (0::int)" for es
    by (induction es) (auto simp: list_all_iff)
  have h: "overlapped i ?h ?e"
    using dims [OF i(2)] e [of "frame_errors stray i calls"]
    by (auto simp: overlapped_def z list_all_length is_s16_def weighted_0 intro!: exI [of _ 0])
  have "blockIndex i + int (length calls) \<le> 2147483647" "list_all (call_ok (blockLen10ms i)) calls" using i(4) calls b by simp_all
  from calls_overlap [OF i(2) this(1) z(1) this(2) h] e [of "frame_errors stray i calls"] i(1) b show ?thesis
    by (intro exI [of _ i]) (simp add: Let_def)
qed

lemma windows_reconstruct_witness:
  "\<exists>i. WebRtcNsx_Init True (Some (WebRtcNsx_Create malloced_nsx)) 8000 = (Some i, 0) \<and>
    (let calls = replicate 3 [replicate 80 1000]; delayed = replicate (anaLen i - 80) 0 @ concat (map hd calls);
         out = concat (map hd (snd (mealy (WebRtcNsx_Process (\<lambda>_. 0)) i calls)));
         e = foldr max (frame_errors (\<lambda>_. 0) i calls) 0
     in length out = 240 \<and> (\<forall>p<length out. \<bar>out ! p - delayed ! p\<bar> \<le> (if anaLen i - 80 \<le> p mod 80 then e else 3 + 2 * e)))"
proof -
  have r: "nsx_raw malloced_nsx" by (simp add: nsx_raw_def malloced_nsx_def)
  have c: "list_all (call_ok (nsx_block 8000)) (replicate 3 [replicate 80 1000])" "length (replicate 3 [replicate 80 (1000::int)]) < 2147483648"
    by (simp_all add: list_all_length call_ok_def samples_ok_def nsx_block_def is_s16_def)
  show ?thesis using windows_reconstruct [OF r _ c, of "\<lambda>_. 0"] by (simp add: nsx_block_def Let_def)
qed

section \<open>Silence\<close>

text \<open>The object without its buffers of samples and what belongs to the frame: the model of the noise.\<close>

definition noise_model :: "NoiseSuppressionFixedC \<Rightarrow> NoiseSuppressionFixedC" where
  "noise_model i = i\<lparr>analysisBuffer := [], synthesisBuffer := [], energyIn := 0, scaleEnergyIn := 0, zeroInputSignal := 0, normData := 0\<rparr>"

text \<open>The samples that the next frame still sees are zero; nothing is left to be added to the next output.\<close>

definition quiet :: "NoiseSuppressionFixedC \<Rightarrow> bool" where
  "quiet i \<longleftrightarrow> (\<forall>k. blockLen10ms i \<le> k \<and> k < anaLen i \<longrightarrow> analysisBuffer i ! k = 0)"

definition zero_from :: "nat \<Rightarrow> NoiseSuppressionFixedC \<Rightarrow> bool" where
  "zero_from m i \<longleftrightarrow> (\<forall>k. m \<le> k \<and> k < anaLen i \<longrightarrow> synthesisBuffer i ! k = 0)"

lemma updated_buffer:
  assumes i: "nsx_ok i" and k: "k < anaLen i"
  shows "analysisBuffer (fst (AnalysisUpdateC i (replicate (blockLen10ms i) 0))) ! k =
    (if k < anaLen i - blockLen10ms i then analysisBuffer i ! (blockLen10ms i + k) else 0)"
  using dims [OF i] k by (auto simp: AnalysisUpdateC_def Let_def nth_blit len_simps)

lemma quiet_update:
  assumes i: "nsx_ok i" and q: "quiet i"
  shows "zeroInputSignal (fst (WebRtcNsx_DataAnalysis i (replicate (blockLen10ms i) 0))) = 1"
proof -
  let ?w = "snd (AnalysisUpdateC i (replicate (blockLen10ms i) 0))"
  have "?w ! k = 0" if "k < anaLen i" for k
    using updated_buffer [OF i that] q that
    by (auto simp: AnalysisUpdateC_def Let_def quiet_def WEBRTC_SPL_MUL_16_16_RSFT_WITH_ROUND_def WEBRTC_SPL_MUL_16_16_def shr_def shl_def s16_def)
  then have "(\<lambda>l. \<bar>?w ! l\<bar>) ` {..<anaLen i} = (\<lambda>_. 0) ` {..<anaLen i}" by (intro image_cong) simp_all
  moreover have "0 < anaLen i" using i by (auto simp: nsx_ok_def nsx_dims_def)
  then have "(\<lambda>_. 0 :: int) ` {..<anaLen i} = {0}" by auto
  ultimately have "(\<lambda>l. \<bar>?w ! l\<bar>) ` {..<anaLen i} = {0}" by simp
  moreover have "list_all is_s16 ?w" "anaLen i \<le> length ?w" "0 < anaLen i"
    using i by (auto simp: AnalysisUpdateC_def Let_def list_all_length nsx_ok_def nsx_dims_def)
  ultimately have "WebRtcSpl_MaxAbsValueW16C ?w (anaLen i) = 0" by (simp add: MaxAbsValueW16C_eq)
  then show ?thesis by (simp add: silent_flag)
qed

lemma synthesis_zeros:
  assumes i: "nsx_ok i"
  shows "zero_from (anaLen i - blockLen10ms i) (fst (WebRtcNsx_DataSynthesis i)) \<and> anaLen (fst (WebRtcNsx_DataSynthesis i)) = anaLen i"
proof (cases "zeroInputSignal i = 0")
  case False
  then show ?thesis using dims [OF i] read_out_zeros [OF i, of "synthesisBuffer i"]
    by (simp add: WebRtcNsx_DataSynthesis_def zero_from_def)
next
  case True
  obtain j fb where p: "PrepareSpectrumC i = (j, fb)" by (rule prod.exhaust)
  obtain out r where r: "WebRtcSpl_RealInverseFFT (the (nsx_fft j)) fb = (out, r)" by (rule prod.exhaust)
  obtain g en where g: "(if gainMap (DenormalizeC j r out) = 1 \<and> blockIndex (DenormalizeC j r out) > END_STARTUP_LONG \<and> energyIn (DenormalizeC j r out) > 0
       then gain_factor (DenormalizeC j r out) else (8192, energyIn (DenormalizeC j r out))) = (g, en)" by (rule prod.exhaust)
  let ?k = "(DenormalizeC j r out)\<lparr>energyIn := en\<rparr>"
  have k: "nsx_ok ?k" using prepare_spectrum_ok [OF i] p by (intro energy_update_ok denormalize_ok) simp
  have n: "anaLen ?k = anaLen i" "blockLen10ms ?k = blockLen10ms i"
    using p by (auto simp: PrepareSpectrumC_def DenormalizeC_def Let_def)
  have e: "fst (WebRtcNsx_DataSynthesis i) = fst (SynthesisUpdateC ?k g)"
    using True p r g by (simp add: WebRtcNsx_DataSynthesis_def)
  have l: "length (blit (synthesisBuffer ?k) 0 (map f [0..<anaLen ?k])) = 256" for f :: "nat \<Rightarrow> int"
    using dims [OF k] by (simp add: len_simps)
  show ?thesis unfolding e SynthesisUpdateC_def using read_out_zeros [OF k l] n by (simp add: zero_from_def)
qed

text \<open>A frame of zeros in a quiet state.\<close>

lemma quiet_frame:
  assumes i: "nsx_ok i" and q: "quiet i"
  obtains j where "WebRtcNsx_Process stray i [replicate (blockLen10ms i) 0] = (j, [take (blockLen10ms i) (synthesisBuffer i)])"
    "nsx_ok j" "quiet j" "noise_model j = noise_model i"
    "\<forall>m. zero_from m i \<and> m \<le> blockLen10ms i \<longrightarrow> zero_from 0 j"
proof -
  let ?z = "replicate (blockLen10ms i) (0::int)"
  have z: "samples_ok (blockLen10ms i) ?z" by (simp add: samples_ok_def list_all_length is_s16_def)
  obtain a magn where an: "WebRtcNsx_DataAnalysis i ?z = (a, magn)" by (rule prod.exhaust)
  have a: "nsx_ok a" "zeroInputSignal a = 1" using data_analysis_ok(1) [OF i z] quiet_update [OF i q] an by simp_all
  obtain u w where u: "AnalysisUpdateC i ?z = (u, w)" by (rule prod.exhaust)
  obtain en sc where e: "WebRtcSpl_Energy w (anaLen u) = (en, sc)" by (rule prod.exhaust)
  have m: "WebRtcSpl_MaxAbsValueW16C w (anaLen u) = 0"
    using silent_flag [of i ?z] quiet_update [OF i q] u by (auto simp: AnalysisUpdateC_def Let_def split: if_splits)
  have a2: "a = u\<lparr>energyIn := en, scaleEnergyIn := sc, normData := 0, zeroInputSignal := 1\<rparr>"
    using an unfolding WebRtcNsx_DataAnalysis_def u prod.case Let_def e m by simp
  have ui: "u = i\<lparr>analysisBuffer := analysisBuffer u\<rparr>" using u by (auto simp: AnalysisUpdateC_def Let_def)
  have same: "blockLen10ms a = blockLen10ms i" "anaLen a = anaLen i" "synthesisBuffer a = synthesisBuffer i"
    unfolding a2 by (subst ui, simp)+
  let ?j = "fst (read_out a (synthesisBuffer a))"
  have j: "nsx_ok ?j" using read_out_ok(1) [OF a(1)] a(1) by (simp add: nsx_ok_def nsx_buffers_def)
  have "WebRtcNsx_Process stray i [?z] = (?j, [take (blockLen10ms i) (synthesisBuffer i)])"
    using an a(2) same by (simp add: WebRtcNsx_Process_def WebRtcNsx_ProcessCore_def WebRtcNsx_DataSynthesis_def read_out_def Let_def)
  moreover have "noise_model ?j = noise_model i"
    unfolding a2 by (subst ui) (simp add: noise_model_def read_out_def Let_def)
  moreover have "quiet ?j"
    using updated_buffer [OF i] dims [OF i] same a2 u q
    by (auto simp: quiet_def read_out_def Let_def)
  moreover have "\<forall>m. zero_from m i \<and> m \<le> blockLen10ms i \<longrightarrow> zero_from 0 ?j"
    using read_out_zeros [OF a(1), of "synthesisBuffer a"] dims [OF a(1)] same by (auto simp: zero_from_def)
  ultimately show ?thesis using that j by blast
qed

lemma quiet_frames:
  assumes "nsx_ok i" "quiet i" "zero_from 0 i" "blockLen10ms i = b"
  shows "snd (mealy (WebRtcNsx_Process stray) i (replicate n [replicate b 0])) = replicate n [replicate b 0]
    \<and> noise_model (fst (mealy (WebRtcNsx_Process stray) i (replicate n [replicate b 0]))) = noise_model i"
  using assms
proof (induction n arbitrary: i)
  case (Suc n)
  obtain j where j: "WebRtcNsx_Process stray i [replicate (blockLen10ms i) 0] = (j, [take (blockLen10ms i) (synthesisBuffer i)])"
    "nsx_ok j" "quiet j" "noise_model j = noise_model i" "\<forall>m. zero_from m i \<and> m \<le> blockLen10ms i \<longrightarrow> zero_from 0 j"
    by (rule quiet_frame [OF Suc.prems(1,2), of stray])
  have "blockLen10ms j = b" using arg_cong [OF j(4), of blockLen10ms] Suc.prems(4) by (simp add: noise_model_def)
  moreover have "take b (synthesisBuffer i) = replicate b 0"
    using Suc.prems(3,4) dims [OF Suc.prems(1)] by (intro nth_equalityI) (auto simp: zero_from_def)
  ultimately show ?case using Suc.IH [OF j(2,3)] j(1,4,5) Suc.prems(3,4) by (auto simp add: split_def Let_def)
qed simp

text \<open>
  C28. Whatever came before, from the second frame of zeros on the model of the noise stands still (the
  filter, the quantiles, the histograms, the thresholds and the counters of frames), and from the third on the output is
  zero: two frames later nothing of the old signal is left.
\<close>

theorem silence:
  assumes i: "nsx_ok i" "blockIndex i < 2147483647" and b: "b = blockLen10ms i"
  shows "let j1 = fst (WebRtcNsx_Process stray i [replicate b 0]);
             j2 = fst (WebRtcNsx_Process stray j1 [replicate b 0]);
             (j, outs) = mealy (WebRtcNsx_Process stray) j2 (replicate n [replicate b 0])
         in noise_model j2 = noise_model j1 \<and> noise_model j = noise_model j1 \<and> outs = replicate n [replicate b 0]"
proof -
  let ?z = "replicate b (0::int)"
  have f: "frames_ok i [?z]" by (simp add: frames_ok_def samples_ok_def list_all_length is_s16_def b)
  obtain j1 out where p: "WebRtcNsx_Process stray i [?z] = (j1, out)" "nsx_ok j1" "fixed_but_index j1 = fixed_but_index i"
    "analysisBuffer j1 = analysisBuffer (fst (AnalysisUpdateC i (hd [?z])))"
    by (rule nsx_process_ok [OF i f])
  have d: "blockLen10ms j1 = b" "anaLen j1 = anaLen i"
    using p(2,3) i(1) b by (auto simp: fixed_but_index_def nsx_ok_def nsx_dims_def)
  have q1: "quiet j1" using updated_buffer [OF i(1)] p(4) d dims [OF i(1)] b by (auto simp: quiet_def)
  have z: "samples_ok (blockLen10ms i) ?z" by (simp add: samples_ok_def list_all_length is_s16_def b)
  obtain a magn where an: "WebRtcNsx_DataAnalysis i ?z = (a, magn)" by (rule prod.exhaust)
  have a: "nsx_ok a" "blockIndex a = blockIndex i" "zeroInputSignal a = 0 \<Longrightarrow> length magn = magnLen a"
    using data_analysis_ok [OF i(1) z] an fixed_parts [of a "fst (AnalysisUpdateC i ?z)"] by simp_all
  obtain x where x: "nsx_ok x" "j1 = fst (WebRtcNsx_DataSynthesis x)"
  proof (cases "zeroInputSignal a = 0")
    case True
    obtain y prob where y: "suppression stray a magn = (y, prob)" "nsx_ok y"
      by (rule suppression_ok [OF a(1) _ a(3) [OF True]]) (use i(2) a(2) in auto)
    then show ?thesis using that [of y] p(1) an True by (simp add: WebRtcNsx_Process_def WebRtcNsx_ProcessCore_def split_def Let_def)
  next
    case False
    then show ?thesis using that [of a] a(1) p(1) an by (simp add: WebRtcNsx_Process_def WebRtcNsx_ProcessCore_def split_def Let_def)
  qed
  have xb: "blockLen10ms x = b" "anaLen x = anaLen i"
    using fixed_parts [OF synthesis_same(1) [of x]] d x synthesis_zeros [OF x(1)] by simp_all
  have z1: "zero_from (anaLen i - b) j1" using synthesis_zeros [OF x(1)] x(2) xb by simp
  have le: "anaLen i - b \<le> blockLen10ms j1" using dims [OF i(1)] d b by auto
  obtain j2 where j2: "WebRtcNsx_Process stray j1 [?z] = (j2, [take b (synthesisBuffer j1)])"
    "nsx_ok j2" "quiet j2" "noise_model j2 = noise_model j1" "\<forall>m. zero_from m j1 \<and> m \<le> blockLen10ms j1 \<longrightarrow> zero_from 0 j2"
    by (rule quiet_frame [OF p(2) q1, of stray]) (simp only: d)
  have "blockLen10ms j2 = b" using arg_cong [OF j2(4), of blockLen10ms] d by (simp add: noise_model_def)
  moreover have "zero_from 0 j2" using j2(5) z1 le by blast
  ultimately have "snd (mealy (WebRtcNsx_Process stray) j2 (replicate n [?z])) = replicate n [?z]
    \<and> noise_model (fst (mealy (WebRtcNsx_Process stray) j2 (replicate n [?z]))) = noise_model j2"
    by (intro quiet_frames j2(2,3))
  then show ?thesis
    using p(1) j2(1,4) by (simp add: split_def Let_def)
qed

lemma silence_witness:
  "\<exists>i. WebRtcNsx_Init True (Some (WebRtcNsx_Create malloced_nsx)) 8000 = (Some i, 0) \<and>
    (let j1 = fst (WebRtcNsx_Process (\<lambda>_. 0) i [replicate 80 0]); j2 = fst (WebRtcNsx_Process (\<lambda>_. 0) j1 [replicate 80 0]);
         (j, outs) = mealy (WebRtcNsx_Process (\<lambda>_. 0)) j2 (replicate 7 [replicate 80 0])
     in noise_model j2 = noise_model j1 \<and> noise_model j = noise_model j1 \<and> outs = replicate 7 [replicate 80 0])"
proof -
  have r: "nsx_raw (WebRtcNsx_Create malloced_nsx)" by (simp add: nsx_raw_def malloced_nsx_def WebRtcNsx_Create_def)
  obtain i where i: "WebRtcNsx_InitCore True (Some (WebRtcNsx_Create malloced_nsx)) 8000 = (Some i, 0)" "nsx_ok i" "fs i = 8000" "blockIndex i = - 1"
    by (rule nsx_init_ok [OF r, of 8000]) simp_all
  have "80 = blockLen10ms i" using i(2,3) by (auto simp: nsx_ok_def nsx_dims_def)
  from silence [OF i(2) _ this, of "\<lambda>_. 0" 7] i(1,4) show ?thesis by (intro exI [of _ i]) (simp add: WebRtcNsx_Init_def u32_def)
qed

section \<open>The index in front of the table\<close>

text \<open>
  In a state whose spectral difference is positive and whose average energy is so small that all of it is shifted out, the distance
  to the threshold is so large that its index, cast to 16 bits, is negative: between -17 and -3. As only the
  upper end is tested, the code reads the table of the sigmoid map at that index, and the indicator is 1/2 plus whatever
  the memory in front of the table holds. This is about the function and the fields it reads; that such a state
  comes up from the initialisation on is not shown here.
\<close>

lemma stray_index:
  assumes st: "stages i = 7 \<or> stages i = 8" and f: "0 < featureSpecDiff i"
    and e: "lsr (timeAvgMagnEnergy i) (20 - int (stages i) - min (20 - int (stages i)) (WebRtcSpl_NormU32 (featureSpecDiff i))) = 0"
    and t: "16 \<le> thresholdSpecDiff i" "thresholdSpecDiff i \<le> 100" and c: "is_s16 c" "is_s16 (8192 + c)"
  shows "(let (neg, d) = diff_distance i in \<not> neg \<and> - 17 \<le> s16 (shr d 14) \<and> s16 (shr d 14) \<le> - 3)
    \<and> indicator_diff (\<lambda>_. c) i = 8192 + c"
proof -
  define t3 where "t3 = u32 (shl (thresholdSpecDiff i) 17) div 25"
  have "u32 (shl (thresholdSpecDiff i) 17) = thresholdSpecDiff i * 131072" using t by (simp add: u32_def shl_def)
  then have t3: "83886 \<le> t3" "t3 \<le> 524288" using t by (simp_all add: t3_def)
  have nd: "normalised_diff i = 2147483647" using f e by (simp add: normalised_diff_def Let_def)
  have u: "u32 (2147483647 - t3) = 2147483647 - t3" using t3 by (simp add: u32_def)
  have a: "(2147483647 - t3) AND 0x80000000 = 0"
  proof -
    have "(2147483647 - t3) AND mask 31 = 2147483647 - t3" using t3 by (simp add: take_bit_int_eq_self flip: take_bit_eq_mask)
    then have "(2147483647 - t3) AND 0x80000000 = (2147483647 - t3) AND (mask 31 AND 0x80000000)" by (metis and.assoc)
    also have "mask 31 AND (0x80000000 :: int) = 0" by (simp add: mask_eq_exp_minus_1)
    finally show ?thesis by simp
  qed
  define dist where "dist = (2147483647 - t3) div 2"
  have d: "diff_distance i = (False, dist)"
    using a by (simp add: diff_distance_def Let_def nd u shr_def dist_def flip: t3_def)
  define k where "k = shr dist 14"
  have "k < 65534" unfolding k_def shr_less_iff using t3 by (simp add: dist_def)
  moreover have "65519 \<le> k" unfolding k_def le_shr_iff using t3 by (simp add: dist_def)
  ultimately have k: "65519 \<le> k" "k \<le> 65533" by simp_all
  have "is_s16 (k - 65536)" using k by (simp add: is_s16_def)
  moreover have "k - 65536 + 32768 = (k + 32768) - 65536" by simp
  then have "s16 (k - 65536) = s16 k" unfolding s16_def by (simp only: minus_mod_self2)
  ultimately have s: "s16 k = k - 65536" by (simp add: s16_id)
  have i1: "indicator_entry (\<lambda>_. c) (k - 65536) = c" "indicator_entry (\<lambda>_. c) (k - 65536 + 1) = c"
    using k by (simp_all add: indicator_entry_def)
  have "k - 65536 < 16" using k by simp
  then have "indicator_diff (\<lambda>_. c) i = s16 (8192 + s16 (c + s16 (WEBRTC_SPL_MUL_16_16_RSFT_WITH_ROUND (s16 (c - c)) (dist AND 0x3fff) 14)))"
    unfolding indicator_diff_def d prod.case Let_def k_def [symmetric] s i1 by simp
  also have "\<dots> = s16 (8192 + s16 c)"
    by (simp add: WEBRTC_SPL_MUL_16_16_RSFT_WITH_ROUND_def WEBRTC_SPL_MUL_16_16_def shr_def shl_def s16_def)
  also have "\<dots> = 8192 + c" using c by (simp add: s16_id)
  finally show ?thesis using k by (simp add: d s flip: k_def)
qed

text \<open>For instance a spectral difference of 2^25 beside an average energy of 16, at 8 kHz.\<close>

lemma stray_index_example:
  "\<exists>i. stages i = 7 \<and> featureSpecDiff i = 33554432 \<and> timeAvgMagnEnergy i = 16 \<and> thresholdSpecDiff i = 50 \<and>
     indicator_diff (\<lambda>_. 1234) i = 9426"
proof -
  let ?i = "malloced_nsx\<lparr>stages := 7, featureSpecDiff := 33554432, timeAvgMagnEnergy := 16, thresholdSpecDiff := 50\<rparr>"
  have n: "WebRtcSpl_NormU32 33554432 = 6" by code_simp
  have "indicator_diff (\<lambda>_. 1234) ?i = 8192 + 1234"
    by (rule conjunct2 [OF stray_index]) (simp_all add: n lsr_def shr_def is_s16_def)
  then show ?thesis by (intro exI [of _ ?i]) simp
qed

end
