(* ===== verification/Profiles.thy ===== *)
theory Profiles
  imports Main "HOL-Library.Sublist"
begin

text \<open>
  The profile files of the native layer (\<^verbatim>\<open>jni/native/profiles_management.c\<close>): sections with a token in brackets
  and lines \<^verbatim>\<open>parameter=value\<close>, read and written with the string functions of C.

  A C string is the list of its characters without the terminating zero, a pointer into a string is the suffix
  it points to, and a null pointer is \<open>None\<close>. The file system is one file: its contents, or \<open>None\<close> when it does
  not exist. The outcomes of the calls that can fail (\<^verbatim>\<open>fseek\<close>, \<^verbatim>\<open>malloc\<close>, the later \<^verbatim>\<open>fopen\<close>s) are given by
  number. The model's result \<open>None\<close> is undefined behaviour or a loop that does not end.

  \<^verbatim>\<open>read_profile\<close> does not terminate the buffer it reads the file into, so that the string functions go on in the
  memory behind it: \<open>beyond\<close> is that memory, up to the next zero byte.
\<close>

section \<open>Strings\<close>

abbreviation newline :: char where "newline \<equiv> CHR 0x0A"

definition c_string :: "string \<Rightarrow> string" where
  "c_string s = takeWhile (\<lambda>c. c \<noteq> CHR 0x00) s"

fun strstr :: "string \<Rightarrow> string \<Rightarrow> string option" where
  "strstr [] needle = (if needle = [] then Some [] else None)"
| "strstr (c # cs) needle = (if prefix needle (c # cs) then Some (c # cs) else strstr cs needle)"

fun strchr :: "string \<Rightarrow> char \<Rightarrow> string option" where
  "strchr [] x = None"
| "strchr (c # cs) x = (if c = x then Some (c # cs) else strchr cs x)"

text \<open>\<^verbatim>\<open>strtok\<close> on a string with one delimiter: the token and the string behind the delimiter that ends it.\<close>

definition strtok :: "string \<Rightarrow> char \<Rightarrow> (string \<times> string) option" where
  "strtok s d =
     (let t = dropWhile (\<lambda>c. c = d) s
      in if t = [] then None else Some (takeWhile (\<lambda>c. c \<noteq> d) t, drop 1 (dropWhile (\<lambda>c. c \<noteq> d) t)))"

section \<open>The directory\<close>

text \<open>
  The names of the profiles among the entries of a directory, the first ten that are not hidden. The buffer of
  a name has 100 bytes; \<^verbatim>\<open>strcmp\<close> of a null pointer is undefined.
\<close>

fun dir_entries :: "string list \<Rightarrow> nat \<Rightarrow> string list option" where
  "dir_entries [] i = Some []"
| "dir_entries (name # names) i =
     (if i \<ge> 10 then Some []
      else if take 1 name = ''.'' then dir_entries names i
      else if length name \<ge> 100 then None
      else case strtok name (CHR ''.'') of None \<Rightarrow> None
           | Some (_, rest) \<Rightarrow>
               (case strtok rest (CHR ''.'') of None \<Rightarrow> None
                | Some (p, _) \<Rightarrow>
                    if p = ''ini'' then map_option ((#) name) (dir_entries names (Suc i)) else dir_entries names (Suc i)))"

definition read_dir_file :: "string list option \<Rightarrow> (string list \<times> int) option" where
  "read_dir_file dir =
     (case dir of None \<Rightarrow> Some ([], - 1) | Some names \<Rightarrow> map_option (\<lambda>found. (found, int (length found))) (dir_entries names 0))"

section \<open>Reading\<close>

text \<open>The part of the text from the token up to the next bracket.\<close>

definition section_text :: "string \<Rightarrow> string" where
  "section_text start = (case strchr start (CHR ''['') of None \<Rightarrow> start | Some e \<Rightarrow> take (length start - length e) start)"

text \<open>The search for the parameter followed by an equals sign. With an empty parameter it need not end.\<close>

partial_function (option) find_parameter :: "string \<Rightarrow> string \<Rightarrow> string option option" where
  "find_parameter text parameter =
     (case strstr text parameter of None \<Rightarrow> Some None
      | Some p \<Rightarrow>
          if take 1 (drop (length parameter) p) = ''='' then Some (Some p)
          else find_parameter (drop (length parameter) p) parameter)"

text \<open>The value that is stored, if any, and the return value.\<close>

definition read_profile ::
    "(nat \<Rightarrow> bool) \<Rightarrow> string option \<Rightarrow> string \<Rightarrow> string \<Rightarrow> string \<Rightarrow> (string option \<times> int) option" where
  "read_profile ok contents beyond token parameter =
     (case contents of None \<Rightarrow> Some (None, - 1)
      | Some bytes \<Rightarrow>
          if \<not> ok 0 \<or> \<not> ok 1 \<or> \<not> ok 2 then Some (None, - 1)
          else if length token + 2 > 100 then None
          else case strstr (c_string (bytes @ beyond)) token of None \<Rightarrow> Some (None, - 1)
               | Some start \<Rightarrow>
                   if \<not> ok 3 then Some (None, - 1)
                   else case find_parameter (section_text start) parameter of None \<Rightarrow> None
                        | Some None \<Rightarrow> Some (None, - 1)
                        | Some (Some p) \<Rightarrow>
                            (case strchr p (CHR ''='') of None \<Rightarrow> Some (None, - 1)
                             | Some p \<Rightarrow>
                                 (case strtok p newline of None \<Rightarrow> None
                                  | Some (p, _) \<Rightarrow> Some (Some (drop 1 p), int (length (drop 1 p))))))"

section \<open>Writing\<close>

text \<open>The buffer for a line has 256 bytes.\<close>

definition print_line :: "string \<Rightarrow> string option" where
  "print_line line = (if length line + 1 > 256 then None else Some line)"

definition append_section ::
    "(nat \<Rightarrow> bool) \<Rightarrow> string option \<Rightarrow> string \<Rightarrow> string \<Rightarrow> string \<Rightarrow> (string option \<times> int) option" where
  "append_section ok contents token parameter val =
     (if \<not> ok 5 then Some (contents, - 1)
      else map_option (\<lambda>line. (Some (case contents of None \<Rightarrow> line | Some bytes \<Rightarrow> bytes @ line), 0))
             (print_line (''['' @ token @ '']'' @ [newline] @ parameter @ ''='' @ val @ [newline])))"

text \<open>The new contents of the file and the return value.\<close>

definition write_profile ::
    "(nat \<Rightarrow> bool) \<Rightarrow> string option \<Rightarrow> string \<Rightarrow> string \<Rightarrow> string \<Rightarrow> (string option \<times> int) option" where
  "write_profile ok contents token parameter val =
     (if \<not> ok 0 then Some (contents, - 1)
      else case contents of None \<Rightarrow> append_section ok contents token parameter val
      | Some bytes \<Rightarrow>
          if \<not> ok 1 \<or> \<not> ok 2 \<or> \<not> ok 3 then Some (contents, - 1)
          else if length token + 2 > 100 then None
          else let s = c_string bytes
               in case (if length bytes < length token + 1 then None else strstr s (token @ '']'')) of
                    None \<Rightarrow> append_section ok contents token parameter val
                  | Some start \<Rightarrow>
                      if \<not> ok 4 then Some (contents, - 1)
                      else let body = section_text start; before = length s - length start
                           in case find_parameter body parameter of None \<Rightarrow> None
                              | Some (Some p) \<Rightarrow>
                                  if \<not> ok 6 then Some (contents, - 1)
                                  else (case strstr p [newline] of None \<Rightarrow> None
                                        | Some e \<Rightarrow>
                                            map_option (\<lambda>line. (Some (take (before + (length body - length p)) s @ line @
                                                                     drop (length body - length e) start), 0))
                                              (print_line (parameter @ ''='' @ val)))
                              | Some None \<Rightarrow>
                                  if \<not> ok 6 then Some (contents, - 1)
                                  else map_option (\<lambda>line. (Some (take (before + length body) s @ line @ drop (length body) start), 0))
                                         (print_line (parameter @ ''='' @ val @ [newline])))"

end
