(* ===== verification/Profiles_Inv.thy ===== *)
theory Profiles_Inv
  imports Profiles
begin

text \<open>
  Correctness of the profile files: a file is the text of a list of sections, reading looks a parameter up in
  it, writing replaces it or adds it, and what was written is read.
\<close>

section \<open>Sections\<close>

type_synonym section_data = "string \<times> (string \<times> string) list"

definition line_text :: "string \<times> string \<Rightarrow> string" where
  "line_text = (\<lambda>(p, v). p @ ''='' @ v @ [newline])"

definition lines_text :: "(string \<times> string) list \<Rightarrow> string" where
  "lines_text ps = concat (map line_text ps)"

definition header_text :: "string \<Rightarrow> string" where
  "header_text t = ''['' @ t @ '']'' @ [newline]"

definition file_text :: "section_data list \<Rightarrow> string" where
  "file_text secs = concat (map (\<lambda>(t, ps). header_text t @ lines_text ps) secs)"

text \<open>Names and values without the characters that structure the file.\<close>

definition plain :: "string \<Rightarrow> bool" where
  "plain s \<longleftrightarrow> set s \<inter> {CHR ''['', CHR '']'', CHR ''='', newline, CHR 0x00} = {}"

definition section_ok :: "section_data \<Rightarrow> bool" where
  "section_ok = (\<lambda>(t, ps). t \<noteq> [] \<and> plain t \<and> (\<forall>(p, v) \<in> set ps. p \<noteq> [] \<and> plain p \<and> plain v))"

lemma text_simps [simp]:
  "lines_text [] = []" "lines_text (l # ls) = line_text l @ lines_text ls" "lines_text (xs @ ys) = lines_text xs @ lines_text ys"
  "file_text [] = []" "file_text ((t, ps) # secs) = header_text t @ lines_text ps @ file_text secs"
  "file_text (s1 @ s2) = file_text s1 @ file_text s2"
  by (simp_all add: lines_text_def file_text_def)

lemma plain_chars:
  "plain s \<Longrightarrow> c \<in> set s \<Longrightarrow> c \<noteq> CHR ''['' \<and> c \<noteq> CHR '']'' \<and> c \<noteq> CHR ''='' \<and> c \<noteq> newline \<and> c \<noteq> CHR 0x00"
  by (auto simp: plain_def)

lemma lines_chars:
  assumes "\<forall>(p, v) \<in> set ps. plain p \<and> plain v" and "c \<in> set (lines_text ps)"
  shows "c \<noteq> CHR ''['' \<and> c \<noteq> CHR 0x00"
  using assms by (induction ps) (auto simp: line_text_def dest: plain_chars)

lemma file_chars:
  assumes "list_all section_ok secs" and "c \<in> set (file_text secs)"
  shows "c \<noteq> CHR 0x00"
  using assms
proof (induction secs)
  case (Cons sec secs)
  obtain t ps where sec: "sec = (t, ps)" by (rule prod.exhaust)
  have "c \<noteq> CHR 0x00" if "c \<in> set (lines_text ps)"
    using lines_chars [OF _ that] Cons.prems(1) by (auto simp: section_ok_def sec)
  then show ?case using Cons by (auto simp: sec header_text_def section_ok_def dest: plain_chars)
qed simp

section \<open>Searching\<close>

lemma strstr_here: "strstr (n @ b) n = Some (n @ b)"
proof (cases "n @ b")
  case (Cons c cs)
  have "prefix n (n @ b)" by simp
  then show ?thesis unfolding Cons by simp
qed simp

lemma strstr_split: "strstr s n = Some q \<Longrightarrow> \<exists>a r. s = a @ q \<and> q = n @ r"
proof (induction s)
  case (Cons c s)
  show ?case
  proof (cases "prefix n (c # s)")
    case True
    then show ?thesis using Cons.prems by (metis append_Nil option.inject prefixE strstr.simps(2))
  next
    case False
    then obtain a r where "s = a @ q" "q = n @ r" using Cons by auto
    then show ?thesis by (intro exI [of _ "c # a"] exI [of _ r]) simp
  qed
qed (auto split: if_splits)

text \<open>The first occurrence is found: none that starts earlier.\<close>

lemma strstr_first:
  assumes "strstr (a @ n @ b) n = Some q"
  shows "\<exists>a1 r. q = n @ r \<and> a1 @ q = a @ n @ b \<and> length a1 \<le> length a"
  using assms
proof (induction a)
  case Nil
  then show ?case by (auto simp: strstr_here)
next
  case (Cons c a)
  show ?case
  proof (cases "prefix n (c # a @ n @ b)")
    case True
    then show ?thesis using Cons.prems by (auto elim: prefixE intro: exI [of _ "[]"])
  next
    case False
    then obtain a1 r where "q = n @ r" "a1 @ q = a @ n @ b" "length a1 \<le> length a" using Cons by auto
    then show ?thesis by (intro exI [of _ "c # a1"] exI [of _ r]) auto
  qed
qed

lemma strstr_found: "strstr (a @ n @ b) n \<noteq> None"
proof (induction a)
  case Nil
  then show ?case by (simp add: strstr_here)
qed simp

lemma strstr_none: "strstr s n = None \<longleftrightarrow> \<not> sublist n s"
proof
  assume "strstr s n = None"
  then show "\<not> sublist n s" using strstr_found [of _ n] by (metis sublist_def)
next
  assume "\<not> sublist n s"
  then show "strstr s n = None" using strstr_split [of s n] by (cases "strstr s n") (auto simp: sublist_def)
qed

text \<open>
  A needle whose characters other than the first do not occur in front of it and that is not in the text before
  the bracket is found behind the bracket.
\<close>

lemma strstr_behind:
  assumes "\<not> sublist n a" and "x \<notin> set n" and "n \<noteq> []"
  shows "strstr (a @ x # n @ b) n = Some (n @ b)"
proof -
  obtain q where q: "strstr (a @ x # n @ b) n = Some q" using strstr_found [of "a @ [x]" n b] by auto
  then obtain a1 r where s: "q = n @ r" "a1 @ q = a @ x # n @ b" "length a1 \<le> Suc (length a)"
    using strstr_first [of "a @ [x]" n b q] by auto
  show ?thesis
  proof (cases "length a1 = Suc (length a)")
    case True
    then have "q = n @ b" using s(2) append_eq_append_conv [of a1 "a @ [x]" q "n @ b"] by simp
    then show ?thesis using q by simp
  next
    case False
    then have le: "length a1 \<le> length a" using s(3) by simp
    then obtain m where m: "a = a1 @ m" using s(2) by (metis append_eq_append_conv_if append_take_drop_id)
    then have e: "n @ r = m @ x # n @ b" using s(1,2) by simp
    have "\<not> length m < length n"
    proof
      assume "length m < length n"
      then have "n ! length m = x" using arg_cong [OF e, of "\<lambda>l. l ! length m"] by (simp add: nth_append)
      then show False using assms(2) \<open>length m < length n\<close> nth_mem by metis
    qed
    then have "prefix n m" using e by (metis append_eq_append_conv_if not_less prefixI append_take_drop_id)
    then have "sublist n a" unfolding m by (auto simp: prefix_def sublist_def)
    then show ?thesis using assms(1) by simp
  qed
qed

section \<open>The search for a parameter\<close>

text \<open>The parameter is not followed by an equals sign anywhere in the text.\<close>

definition unassigned :: "string \<Rightarrow> string \<Rightarrow> bool" where
  "unassigned p text \<longleftrightarrow> (\<forall>x y. text \<noteq> x @ p @ ''='' @ y)"

lemma unassigned_suffix: "unassigned p (a @ b) \<Longrightarrow> unassigned p b"
  unfolding unassigned_def by (metis append.assoc)

lemma unassigned_Nil: "p \<noteq> [] \<Longrightarrow> unassigned p []"
  by (simp add: unassigned_def)

text \<open>Text without an equals sign up to the end of a line, and a line of another parameter.\<close>

lemma unassigned_word:
  assumes "unassigned p rest" and "CHR ''='' \<notin> set v" "newline \<notin> set v" and "plain p"
  shows "unassigned p (v @ newline # rest)"
  unfolding unassigned_def
proof (intro allI notI)
  fix x y assume e: "v @ newline # rest = x @ p @ ''='' @ y"
  have np: "newline \<notin> set p" using assms(4) plain_chars by blast
  show False
  proof (cases "newline \<in> set x")
    case False
    have "takeWhile (\<lambda>c. c \<noteq> newline) (v @ newline # rest) = v" using assms(3) by (subst takeWhile_append2) auto
    moreover have "CHR ''='' \<in> set (takeWhile (\<lambda>c. c \<noteq> newline) (x @ p @ ''='' @ y))"
      using False np by (subst takeWhile_append2, force)+ simp
    ultimately show False using e assms(2) by simp
  next
    case True
    then obtain x1 x2 where x: "x = x1 @ newline # x2" "newline \<notin> set x1" by (metis split_list_first)
    have "dropWhile (\<lambda>c. c \<noteq> newline) (v @ newline # rest) = newline # rest" using assms(3) by (subst dropWhile_append2) auto
    moreover have "dropWhile (\<lambda>c. c \<noteq> newline) (x @ p @ ''='' @ y) = newline # x2 @ p @ ''='' @ y"
      using x by (auto simp: dropWhile_append)
    ultimately have "rest = x2 @ p @ ''='' @ y" using e by simp
    then show False using assms(1) unfolding unassigned_def by blast
  qed
qed

lemma unassigned_line:
  assumes "unassigned p rest" and "plain q" "plain v" "plain p" and "\<not> suffix p q"
  shows "unassigned p (line_text (q, v) @ rest)"
  unfolding unassigned_def
proof (intro allI notI)
  fix x y assume "line_text (q, v) @ rest = x @ p @ ''='' @ y"
  then have e: "q @ ''='' @ v @ newline # rest = x @ p @ ''='' @ y" by (simp add: line_text_def)
  have nq: "CHR ''='' \<notin> set q" "CHR ''='' \<notin> set p" using assms(2,4) plain_chars by blast+
  show False
  proof (cases "CHR ''='' \<in> set x")
    case False
    have "takeWhile (\<lambda>c. c \<noteq> CHR ''='') (q @ ''='' @ v @ newline # rest) = q" using nq by (subst takeWhile_append2) auto
    moreover have "takeWhile (\<lambda>c. c \<noteq> CHR ''='') ((x @ p) @ ''='' @ y) = x @ p" using False nq by (subst takeWhile_append2) auto
    ultimately have "q = x @ p" using e by simp
    then show False using assms(5) by (simp add: suffix_def)
  next
    case True
    then obtain x1 x2 where x: "x = x1 @ CHR ''='' # x2" "CHR ''='' \<notin> set x1" by (metis split_list_first)
    have "dropWhile (\<lambda>c. c \<noteq> CHR ''='') (q @ ''='' @ v @ newline # rest) = ''='' @ v @ newline # rest"
      using nq by (subst dropWhile_append2) auto
    moreover have "dropWhile (\<lambda>c. c \<noteq> CHR ''='') (x @ p @ ''='' @ y) = ''='' @ x2 @ p @ ''='' @ y"
      using x by (auto simp: dropWhile_append)
    ultimately have "v @ newline # rest = x2 @ p @ ''='' @ y" using e by simp
    moreover have "unassigned p (v @ newline # rest)" using assms(1,3,4) plain_chars [of v] by (intro unassigned_word) auto
    ultimately show False unfolding unassigned_def by blast
  qed
qed

lemma unassigned_lines:
  assumes "\<forall>(q, v) \<in> set ps. plain q \<and> plain v \<and> \<not> suffix p q" and "plain p" and "unassigned p rest"
  shows "unassigned p (lines_text ps @ rest)"
  using assms(1)
proof (induction ps)
  case (Cons l ps)
  obtain q v where l: "l = (q, v)" by (rule prod.exhaust)
  then show ?case using unassigned_line [of p "lines_text ps @ rest" q v] Cons assms(2) by auto
qed (simp add: assms(3))

lemma find_parameter_none:
  assumes "unassigned p s" and "p \<noteq> []"
  shows "find_parameter s p = Some None"
  using assms(1)
proof (induction "length s" arbitrary: s rule: less_induct)
  case less
  show ?case
  proof (cases "strstr s p")
    case None
    then show ?thesis by (subst find_parameter.simps) simp
  next
    case (Some q)
    then obtain a r where q: "s = a @ q" "q = p @ r" using strstr_split by blast
    have "take 1 r \<noteq> ''=''" using less.prems q unfolding unassigned_def by (metis append.assoc append_take_drop_id)
    moreover have "find_parameter r p = Some None"
    proof (rule less.hyps)
      show "length r < length s" using q assms(2) by simp
      show "unassigned p r" using less.prems unassigned_suffix [of p "a @ p" r] q by simp
    qed
    ultimately show ?thesis using Some q by (subst find_parameter.simps) simp
  qed
qed

lemma find_parameter_hit:
  assumes "unassigned p s" and "s = [] \<or> last s = newline" and "plain p" "p \<noteq> []"
  shows "find_parameter (s @ p @ ''='' @ w) p = Some (Some (p @ ''='' @ w))"
  using assms(1,2)
proof (induction "length s" arbitrary: s rule: less_induct)
  case less
  obtain q where q: "strstr (s @ p @ ''='' @ w) p = Some q" using strstr_found [of s p "''='' @ w"] by auto
  then obtain a r where a: "q = p @ r" "a @ q = s @ p @ ''='' @ w" "length a \<le> length s"
    using strstr_first [of s p "''='' @ w" q] by auto
  show ?case
  proof (cases "length a = length s")
    case True
    then have "q = p @ ''='' @ w" using a(2) append_eq_append_conv [of a s q "p @ ''='' @ w"] by simp
    then show ?thesis using q by (subst find_parameter.simps) simp
  next
    case False
    then have lt: "length a < length s" using a(3) by simp
    then obtain m where m: "s = a @ m" "m \<noteq> []"
      using a(2) by (metis append_eq_append_conv_if append_take_drop_id append.right_neutral less_imp_le nat_neq_iff)
    then have e: "p @ r = m @ p @ ''='' @ w" using a(1,2) by simp
    have last: "last m = newline" using less.prems(2) m by simp
    have "\<not> length m \<le> length p - 1"
    proof
      assume le: "length m \<le> length p - 1"
      moreover have "0 < length p" using assms(4) by simp
      ultimately have lt: "length m - 1 < length p" by linarith
      then have "p ! (length m - 1) = m ! (length m - 1)"
        using arg_cong [OF e, of "\<lambda>l. l ! (length m - 1)"] m(2) by (simp add: nth_append)
      then have "p ! (length m - 1) = newline" using last m(2) by (simp add: last_conv_nth)
      moreover have "p ! (length m - 1) \<in> set p" using lt by simp
      ultimately show False using plain_chars [OF assms(3)] by blast
    qed
    then have "length p \<le> length m" by simp
    then obtain m2 where m2: "m = p @ m2" using e by (metis append_eq_append_conv_if append_take_drop_id)
    then have r: "r = m2 @ p @ ''='' @ w" using e by simp
    have ne: "take 1 r \<noteq> ''=''"
    proof (cases m2)
      case Nil
      then show ?thesis using r assms(3,4) plain_chars [OF assms(3), of "hd p"] by (cases p) auto
    next
      case (Cons c m3)
      then show ?thesis using less.prems(1) m(1) m2 r unfolding unassigned_def by (metis append.assoc append_Cons append_Nil list.inject take_Suc_Cons take0 One_nat_def)
    qed
    have "find_parameter r p = Some (Some (p @ ''='' @ w))"
      unfolding r
    proof (rule less.hyps)
      show "length m2 < length s" using m(1) m2 assms(4) by simp
      show "unassigned p m2" using less.prems(1) unassigned_suffix [of p "a @ p" m2] m(1) m2 by simp
      show "m2 = [] \<or> last m2 = newline" using last m2 by (cases "m2 = []") auto
    qed
    then show ?thesis using q a(1) ne by (subst find_parameter.simps) simp
  qed
qed

section \<open>The abstract profile\<close>

definition value_of :: "string \<Rightarrow> string \<Rightarrow> section_data list \<Rightarrow> string option" where
  "value_of t p secs = (case dropWhile (\<lambda>s. fst s \<noteq> t) secs of [] \<Rightarrow> None | (_, ps) # _ \<Rightarrow> map_of ps p)"

definition set_line :: "string \<Rightarrow> string \<Rightarrow> (string \<times> string) list \<Rightarrow> (string \<times> string) list" where
  "set_line p v ps =
     (case dropWhile (\<lambda>l. fst l \<noteq> p) ps of [] \<Rightarrow> ps @ [(p, v)] | _ # rest \<Rightarrow> takeWhile (\<lambda>l. fst l \<noteq> p) ps @ (p, v) # rest)"

definition set_value :: "string \<Rightarrow> string \<Rightarrow> string \<Rightarrow> section_data list \<Rightarrow> section_data list" where
  "set_value t p v secs =
     (case dropWhile (\<lambda>s. fst s \<noteq> t) secs of [] \<Rightarrow> secs @ [(t, [(p, v)])]
      | (_, ps) # rest \<Rightarrow> takeWhile (\<lambda>s. fst s \<noteq> t) secs @ (t, set_line p v ps) # rest)"

text \<open>
  What the searches for substrings need: the token does not occur in the text before its section, and in that
  section no parameter before the one meant ends with its name.
\<close>

definition addressable :: "string \<Rightarrow> string \<Rightarrow> section_data list \<Rightarrow> bool" where
  "addressable t p secs \<longleftrightarrow> t \<noteq> [] \<and> plain t \<and> length t \<le> 98 \<and> p \<noteq> [] \<and> plain p \<and>
     \<not> sublist t (file_text (takeWhile (\<lambda>s. fst s \<noteq> t) secs)) \<and>
     (case dropWhile (\<lambda>s. fst s \<noteq> t) secs of [] \<Rightarrow> True
      | (_, ps) # _ \<Rightarrow> \<forall>l \<in> set (takeWhile (\<lambda>l. fst l \<noteq> p) ps). \<not> suffix p (fst l))"

lemma while_cases:
  obtains "dropWhile P xs = []" "takeWhile P xs = xs"
  | x rest where "dropWhile P xs = x # rest" "\<not> P x" "xs = takeWhile P xs @ x # rest"
  by (metis dropWhile_eq_Cons_conv dropWhile_eq_Nil_conv list.exhaust takeWhile_dropWhile_id takeWhile_eq_all_conv)

lemma map_of_while: "map_of ps p = (case dropWhile (\<lambda>l. fst l \<noteq> p) ps of [] \<Rightarrow> None | l # _ \<Rightarrow> Some (snd l))"
  by (induction ps) auto

lemma line_cases:
  obtains "dropWhile (\<lambda>l. fst l \<noteq> p) ps = []" "takeWhile (\<lambda>l. fst l \<noteq> p) ps = ps" "map_of ps p = None"
  | v rest where "dropWhile (\<lambda>l. fst l \<noteq> p) ps = (p, v) # rest" "ps = takeWhile (\<lambda>l. fst l \<noteq> p) ps @ (p, v) # rest" "map_of ps p = Some v"
proof (cases rule: while_cases [of "\<lambda>l. fst l \<noteq> p" ps])
  case 1
  show ?thesis by (rule that(1)) (simp_all add: 1 map_of_while del: map_of_eq_None_iff takeWhile_eq_all_conv dropWhile_eq_Nil_conv)
next
  case (2 x rest)
  then show ?thesis using that(2) [of "snd x" rest] map_of_while [of ps p] by (cases x) auto
qed

lemma section_cases:
  obtains "dropWhile (\<lambda>s. fst s \<noteq> t) secs = []" "takeWhile (\<lambda>s. fst s \<noteq> t) secs = secs"
  | ps rest where "dropWhile (\<lambda>s. fst s \<noteq> t) secs = (t, ps) # rest" "secs = takeWhile (\<lambda>s. fst s \<noteq> t) secs @ (t, ps) # rest"
proof (cases rule: while_cases [of "\<lambda>s. fst s \<noteq> t" secs])
  case (2 x rest)
  then show ?thesis using that(2) [of "snd x" rest] by (cases x) auto
qed (use that(1) in auto)

section \<open>The section in the file\<close>

lemma c_string_append: "\<forall>c \<in> set a. c \<noteq> CHR 0x00 \<Longrightarrow> c_string (a @ b) = a @ c_string b"
  by (simp add: c_string_def takeWhile_append2)

lemma c_string_file: "list_all section_ok secs \<Longrightarrow> c_string (file_text secs) = file_text secs"
  using c_string_append [of "file_text secs" "[]"] file_chars [of secs] by (auto simp: c_string_def)

lemma strchr_drop: "strchr s x = (if x \<in> set s then Some (dropWhile (\<lambda>c. c \<noteq> x) s) else None)"
  by (induction s) auto

lemma section_text_take: "section_text s = takeWhile (\<lambda>c. c \<noteq> CHR ''['') s"
proof (cases "CHR ''['' \<in> set s")
  case True
  have "length s - length (dropWhile (\<lambda>c. c \<noteq> CHR ''['') s) = length (takeWhile (\<lambda>c. c \<noteq> CHR ''['') s)"
    by (metis add_diff_cancel_right' length_append takeWhile_dropWhile_id)
  then show ?thesis using True takeWhile_eq_take [of "\<lambda>c. c \<noteq> CHR ''[''" s] by (simp add: section_text_def strchr_drop)
next
  case False
  then have "takeWhile (\<lambda>c. c \<noteq> CHR ''['') s = s" by (auto simp: takeWhile_eq_all_conv)
  then show ?thesis using False by (simp only: section_text_def strchr_drop if_False option.case)
qed

definition body_text :: "string \<Rightarrow> (string \<times> string) list \<Rightarrow> string" where
  "body_text t ps = t @ '']'' @ newline # lines_text ps"

lemma body_no_bracket:
  assumes "plain t" and "\<forall>(p, v) \<in> set ps. plain p \<and> plain v"
  shows "section_text (body_text t ps @ rest) = body_text t ps @ section_text rest"
proof -
  have "c \<noteq> CHR ''[''" if "c \<in> set (body_text t ps)" for c
    using that plain_chars [OF assms(1)] lines_chars [OF assms(2)] by (auto simp: body_text_def)
  then show ?thesis by (simp add: section_text_take takeWhile_append2)
qed

lemma section_text_file: "section_text (file_text secs) = []"
  by (cases secs) (auto simp: section_text_take header_text_def)

lemma token_found:
  assumes "\<not> sublist t (file_text S1)" and "plain t" "t \<noteq> []"
  shows "strstr (file_text (S1 @ (t, ps) # S2) @ b) t = Some (body_text t ps @ file_text S2 @ b)"
proof -
  have "CHR ''['' \<notin> set t" using plain_chars [OF assms(2)] by blast
  then show ?thesis
    using strstr_behind [OF assms(1) _ assms(3), of "CHR ''[''" "'']'' @ newline # lines_text ps @ file_text S2 @ b"]
    by (simp add: header_text_def body_text_def)
qed

lemma bracket_found:
  assumes "\<not> sublist t (file_text S1)" and "plain t"
  shows "strstr (file_text (S1 @ (t, ps) # S2)) (t @ '']'') = Some (body_text t ps @ file_text S2)"
proof -
  have "CHR ''['' \<notin> set (t @ '']'')" using plain_chars [OF assms(2)] by auto
  moreover have "\<not> sublist (t @ '']'') (file_text S1)" using assms(1) by (auto simp: sublist_def)
  ultimately show ?thesis
    using strstr_behind [of "t @ '']''" "file_text S1" "CHR ''[''" "newline # lines_text ps @ file_text S2"]
    by (simp add: header_text_def body_text_def)
qed

lemma body_unassigned:
  assumes "plain t" "plain p" "p \<noteq> []" and "\<forall>(q, v) \<in> set ps. plain q \<and> plain v \<and> \<not> suffix p q"
  shows "unassigned p (body_text t ps)" "last (body_text t ps) = newline"
proof -
  have "unassigned p (lines_text ps @ [])" using assms by (intro unassigned_lines unassigned_Nil) auto
  moreover have "CHR ''='' \<notin> set (t @ '']'')" "newline \<notin> set (t @ '']'')" using plain_chars [OF assms(1)] by auto
  ultimately show "unassigned p (body_text t ps)"
    using unassigned_word [of p "lines_text ps" "t @ '']''"] assms(2) by (simp add: body_text_def)
  have "lines_text ps \<noteq> [] \<Longrightarrow> last (lines_text ps) = newline"
  proof (induction ps)
    case (Cons l ps)
    then show ?case by (cases l; cases "lines_text ps = []") (simp_all add: line_text_def)
  qed simp
  then show "last (body_text t ps) = newline" by (auto simp: body_text_def)
qed

lemma body_split: "body_text t (ps1 @ (p, v) # ps2) = body_text t ps1 @ p @ ''='' @ v @ newline # lines_text ps2"
  by (simp add: body_text_def line_text_def)

section \<open>Reading and writing\<close>

abbreviation no_failure :: "nat \<Rightarrow> bool" where "no_failure \<equiv> \<lambda>_. True"

lemma read_in_section:
  assumes "list_all section_ok (S1 @ (t, ps) # S2)" and "\<not> sublist t (file_text S1)" and "length t \<le> 98"
  shows "read_profile no_failure (Some (file_text (S1 @ (t, ps) # S2))) beyond t p =
    (case find_parameter (body_text t ps @ section_text (file_text S2 @ c_string beyond)) p of None \<Rightarrow> None
     | Some None \<Rightarrow> Some (None, - 1)
     | Some (Some p) \<Rightarrow>
         (case strchr p (CHR ''='') of None \<Rightarrow> Some (None, - 1)
          | Some p \<Rightarrow>
              (case strtok p newline of None \<Rightarrow> None
               | Some (p, _) \<Rightarrow> Some (Some (drop 1 p), int (length (drop 1 p))))))"
proof -
  have t: "plain t" "t \<noteq> []" "\<forall>(p, v) \<in> set ps. plain p \<and> plain v" using assms(1) by (auto simp: section_ok_def)
  have "c_string (file_text (S1 @ (t, ps) # S2) @ beyond) = file_text (S1 @ (t, ps) # S2) @ c_string beyond"
    using file_chars [OF assms(1)] by (intro c_string_append) blast
  then have "strstr (c_string (file_text (S1 @ (t, ps) # S2) @ beyond)) t = Some (body_text t ps @ file_text S2 @ c_string beyond)"
    using token_found [OF assms(2) t(1,2)] by simp
  then show ?thesis using assms(3) body_no_bracket [OF t(1,3)] by (simp add: read_profile_def)
qed

lemma value_read:
  assumes "plain v"
  shows "(case strchr (p @ ''='' @ v @ newline # w) (CHR ''='') of None \<Rightarrow> Some (None, - 1)
     | Some q \<Rightarrow> (case strtok q newline of None \<Rightarrow> None | Some (q, _) \<Rightarrow> Some (Some (drop 1 q), int (length (drop 1 q))))) =
     (if plain p then Some (Some v, int (length v)) else
      (case strchr (p @ ''='' @ v @ newline # w) (CHR ''='') of None \<Rightarrow> Some (None, - 1)
     | Some q \<Rightarrow> (case strtok q newline of None \<Rightarrow> None | Some (q, _) \<Rightarrow> Some (Some (drop 1 q), int (length (drop 1 q))))))"
proof (cases "plain p")
  case True
  have "strchr (p @ ''='' @ v @ newline # w) (CHR ''='') = Some (''='' @ v @ newline # w)"
    using plain_chars [OF True] by (auto simp: strchr_drop dropWhile_append)
  moreover have "takeWhile (\<lambda>c. c \<noteq> newline) (v @ newline # w) = v" using plain_chars [OF assms] by (subst takeWhile_append2) auto
  ultimately show ?thesis using True by (simp add: strtok_def)
qed simp

lemma addressable_line:
  assumes "addressable t p secs" and "dropWhile (\<lambda>s. fst s \<noteq> t) secs = (t, ps) # rest"
  shows "\<forall>l \<in> set (takeWhile (\<lambda>l. fst l \<noteq> p) ps). \<not> suffix p (fst l)"
  using assms by (simp add: addressable_def)

lemma read_profile_spec:
  assumes "list_all section_ok secs" and "addressable t p secs" and "value_of t p secs = Some v"
  shows "read_profile no_failure (Some (file_text secs)) beyond t p = Some (Some v, int (length v))"
proof (cases rule: section_cases [of t secs])
  case 1
  then show ?thesis using assms(3) by (simp add: value_of_def del: dropWhile_eq_Nil_conv)
next
  case (2 ps S2)
  define S1 where "S1 = takeWhile (\<lambda>s. fst s \<noteq> t) secs"
  define ps1 where "ps1 = takeWhile (\<lambda>l. fst l \<noteq> p) ps"
  have secs: "secs = S1 @ (t, ps) # S2" using 2(2) by (simp add: S1_def)
  have a: "plain p" "p \<noteq> []" "plain t" "\<not> sublist t (file_text S1)" "length t \<le> 98" using assms(2) by (simp_all add: addressable_def S1_def)
  have "map_of ps p = Some v" using assms(3) 2(1) by (simp add: value_of_def)
  then obtain ps2 where ps: "ps = ps1 @ (p, v) # ps2" by (cases rule: line_cases [of p ps]) (auto simp: ps1_def)
  have lines: "\<forall>(q, v) \<in> set ps. plain q \<and> plain v" using assms(1) by (auto simp: secs section_ok_def)
  then have "\<forall>(q, v) \<in> set ps1. plain q \<and> plain v \<and> \<not> suffix p q"
    using addressable_line [OF assms(2) 2(1)] by (fastforce simp: ps1_def ps [symmetric] dest: set_takeWhileD)
  note un = body_unassigned [OF a(3,1,2) this]
  have v: "plain v" using lines by (simp add: ps)
  define w where "w = lines_text ps2 @ section_text (file_text S2 @ c_string beyond)"
  have "body_text t ps @ section_text (file_text S2 @ c_string beyond) = body_text t ps1 @ p @ ''='' @ v @ newline # w"
    by (simp add: ps body_split w_def)
  then have "find_parameter (body_text t ps @ section_text (file_text S2 @ c_string beyond)) p = Some (Some (p @ ''='' @ v @ newline # w))"
    using find_parameter_hit [OF un(1) _ a(1,2), of "v @ newline # w"] un(2) by simp
  then show ?thesis
    using read_in_section [of S1 t ps S2 beyond p] assms(1) a(4,5) value_read [OF v, of p w] a(1) by (simp add: secs)
qed

lemma read_profile_missing:
  assumes "list_all section_ok secs" and "t \<noteq> []" "plain t" "length t \<le> 98" "p \<noteq> []" "plain p"
    and "\<not> sublist t (file_text (takeWhile (\<lambda>s. fst s \<noteq> t) secs))"
    and "case dropWhile (\<lambda>s. fst s \<noteq> t) secs of [] \<Rightarrow> True | (_, ps) # _ \<Rightarrow> \<forall>l \<in> set ps. \<not> suffix p (fst l)"
  shows "read_profile no_failure (Some (file_text secs)) [] t p = Some (None, - 1)"
proof (cases rule: section_cases [of t secs])
  case 1
  then have "strstr (file_text secs) t = None" using assms(7) by (simp add: strstr_none del: takeWhile_eq_all_conv)
  moreover note c_string_file [OF assms(1)]
  ultimately show ?thesis using assms(4) by (simp add: read_profile_def)
next
  case (2 ps S2)
  define S1 where "S1 = takeWhile (\<lambda>s. fst s \<noteq> t) secs"
  have secs: "secs = S1 @ (t, ps) # S2" using 2(2) by (simp add: S1_def)
  have "\<forall>(q, v) \<in> set ps. plain q \<and> plain v \<and> \<not> suffix p q" using assms(1,8) 2(1) by (fastforce simp: secs section_ok_def)
  note un = body_unassigned [OF assms(3,6,5) this]
  have "section_text (file_text S2 @ c_string []) = []" using section_text_file [of S2] by (simp add: c_string_def)
  then have "find_parameter (body_text t ps @ section_text (file_text S2 @ c_string [])) p = Some None"
    using find_parameter_none [OF un(1) assms(5)] by simp
  moreover have ok: "list_all section_ok (S1 @ (t, ps) # S2)" using assms(1) unfolding secs .
  have ns: "\<not> sublist t (file_text S1)" using assms(7) unfolding S1_def .
  ultimately show ?thesis unfolding secs read_in_section [OF ok ns assms(4)] by simp
qed

lemma length_file: "length (file_text (S1 @ (t, ps) # S2)) = length (file_text S1) + 1 + length (body_text t ps) + length (file_text S2)"
  by (simp add: header_text_def body_text_def)

lemma write_in_section:
  assumes "list_all section_ok (S1 @ (t, ps) # S2)" and "\<not> sublist t (file_text S1)" and "length t \<le> 98"
  defines "front \<equiv> file_text S1 @ ''[''" and "body \<equiv> body_text t ps"
  shows "write_profile no_failure (Some (file_text (S1 @ (t, ps) # S2))) t p v =
    (case find_parameter body p of None \<Rightarrow> None
     | Some (Some q) \<Rightarrow>
         (case strstr q [newline] of None \<Rightarrow> None
          | Some e \<Rightarrow> map_option (\<lambda>line. (Some (front @ take (length body - length q) body @ line @
                        drop (length body - length e) body @ file_text S2), 0)) (print_line (p @ ''='' @ v)))
     | Some None \<Rightarrow> map_option (\<lambda>line. (Some (front @ body @ line @ file_text S2), 0)) (print_line (p @ ''='' @ v @ [newline])))"
proof -
  have t: "plain t" "\<forall>(p, v) \<in> set ps. plain p \<and> plain v" using assms(1) by (auto simp: section_ok_def)
  have whole: "file_text (S1 @ (t, ps) # S2) = front @ body @ file_text S2" by (simp add: front_def body_def header_text_def body_text_def)
  have c: "c_string (front @ body @ file_text S2) = front @ body @ file_text S2"
    using c_string_file [OF assms(1)] by (simp only: whole)
  have s: "strstr (front @ body @ file_text S2) (t @ '']'') = Some (body @ file_text S2)"
    using bracket_found [OF assms(2) t(1), of ps S2] by (simp only: whole body_def)
  have b: "section_text (body @ file_text S2) = body" using body_no_bracket [OF t, of "file_text S2"] by (simp add: section_text_file body_def)
  have len: "\<not> length (front @ body @ file_text S2) < length t + 1" by (simp add: body_def body_text_def)
  have dr: "drop (length body - length e) (body @ x) = drop (length body - length e) body @ x" for e x :: string by simp
  have tk: "take (length front + (length body - length q)) (front @ body @ x) = front @ take (length body - length q) body" for q x :: string by simp
  show ?thesis
    unfolding write_profile_def whole c Let_def option.case if_not_P [OF len] s b
    using assms(3) by (simp add: dr tk split: option.split)
qed

lemma print_line_ok: "length line \<le> 255 \<Longrightarrow> print_line line = Some line"
  by (simp add: print_line_def)

lemma write_profile_spec:
  assumes "list_all section_ok secs" and "addressable t p secs" and "plain v" and "length t + length p + length v \<le> 250"
    and new: "value_of t p secs = None \<Longrightarrow>
      (case dropWhile (\<lambda>s. fst s \<noteq> t) secs of [] \<Rightarrow> \<not> sublist (t @ '']'') (file_text secs) | (_, ps) # _ \<Rightarrow> \<forall>l \<in> set ps. \<not> suffix p (fst l))"
  shows "write_profile no_failure (Some (file_text secs)) t p v = Some (Some (file_text (set_value t p v secs)), 0)"
proof (cases rule: section_cases [of t secs])
  case 1
  then have "strstr (file_text secs) (t @ '']'') = None"
    using new by (simp add: strstr_none value_of_def del: dropWhile_eq_Nil_conv)
  moreover note c_string_file [OF assms(1)]
  ultimately show ?thesis
    using 1 assms(2,4) unfolding write_profile_def Let_def
    by (simp add: append_section_def print_line_ok set_value_def addressable_def header_text_def line_text_def
        del: dropWhile_eq_Nil_conv)
next
  case (2 ps S2)
  define S1 where "S1 = takeWhile (\<lambda>s. fst s \<noteq> t) secs"
  have secs: "secs = S1 @ (t, ps) # S2" using 2(2) by (simp add: S1_def)
  have a: "plain p" "p \<noteq> []" "plain t" "\<not> sublist t (file_text S1)" "length t \<le> 98" using assms(2) by (simp_all add: addressable_def S1_def)
  have ok: "list_all section_ok (S1 @ (t, ps) # S2)" using assms(1) by (simp add: secs)
  have lines: "\<forall>(q, v) \<in> set ps. plain q \<and> plain v" using ok by (auto simp: section_ok_def)
  have set: "set_value t p v secs = S1 @ (t, set_line p v ps) # S2" using 2(1) by (simp add: set_value_def S1_def)
  note wr = write_in_section [OF ok a(4,5), of p v]
  show ?thesis
  proof (cases rule: line_cases [of p ps])
    case 1
    then have "\<forall>l \<in> set ps. \<not> suffix p (fst l)" using new 2(1) by (simp add: value_of_def)
    then have "\<forall>(q, v) \<in> set ps. plain q \<and> plain v \<and> \<not> suffix p q" using lines by fastforce
    note un = body_unassigned [OF a(3,1,2) this]
    have l: "set_line p v ps = ps @ [(p, v)]" using 1(1) by (simp add: set_line_def del: dropWhile_eq_Nil_conv)
    have pl: "print_line (p @ ''='' @ v @ [newline]) = Some (p @ ''='' @ v @ [newline])" using assms(4) by (intro print_line_ok) simp
    have txt_eq: "file_text (S1 @ (t, ps @ [(p, v)]) # S2) = (file_text S1 @ ''['') @ body_text t ps @ (p @ ''='' @ v @ [newline]) @ file_text S2"
      by (simp add: header_text_def body_text_def line_text_def)
    show ?thesis unfolding set l txt_eq unfolding secs wr find_parameter_none [OF un(1) a(2)] option.case pl by simp
  next
    case (2 w rest)
    define ps1 where "ps1 = takeWhile (\<lambda>l. fst l \<noteq> p) ps"
    have ps: "ps = ps1 @ (p, w) # rest" using 2(2) by (simp add: ps1_def)
    have w: "plain w" using lines by (simp add: ps)
    have "\<forall>(q, v) \<in> set ps1. plain q \<and> plain v \<and> \<not> suffix p q"
      using addressable_line [OF assms(2) \<open>dropWhile (\<lambda>s. fst s \<noteq> t) secs = (t, ps) # S2\<close>] lines
      by (fastforce simp: ps1_def ps [symmetric] dest: set_takeWhileD)
    note un = body_unassigned [OF a(3,1,2) this]
    define y where "y = newline # lines_text rest"
    have body: "body_text t ps = body_text t ps1 @ p @ ''='' @ w @ y" by (simp add: ps body_split y_def)
    have find: "find_parameter (body_text t ps) p = Some (Some (p @ ''='' @ w @ y))"
      unfolding body using find_parameter_hit [OF un(1) _ a(1,2), of "w @ y"] un(2) by simp
    have eol: "strstr (p @ ''='' @ w @ y) [newline] = Some y"
    proof -
      have "strstr (x @ newline # z) [newline] = Some (newline # z)" if "newline \<notin> set x" for x z
        using that by (induction x) auto
      from this [of "p @ ''='' @ w"] show ?thesis using plain_chars [OF a(1)] plain_chars [OF w] by (auto simp: y_def)
    qed
    have l: "set_line p v ps = ps1 @ (p, v) # rest" using 2(1) by (simp add: set_line_def ps1_def)
    have pl: "print_line (p @ ''='' @ v) = Some (p @ ''='' @ v)" using assms(4) by (intro print_line_ok) simp
    have txt_eq: "file_text (S1 @ (t, ps1 @ (p, v) # rest) # S2) = (file_text S1 @ ''['') @ body_text t ps1 @ (p @ ''='' @ v) @ y @ file_text S2"
      by (simp add: header_text_def body_text_def line_text_def y_def)
    have t1: "take (length (body_text t ps) - length (p @ ''='' @ w @ y)) (body_text t ps) = body_text t ps1" by (simp add: body)
    have t2: "drop (length (body_text t ps) - length y) (body_text t ps) = y" by (simp add: body)
    show ?thesis unfolding set l txt_eq unfolding secs wr find option.case eol pl t1 t2 by simp
  qed
qed

lemma addressable_new:
  assumes "addressable t p secs" and "value_of t p secs = None"
  shows "case dropWhile (\<lambda>s. fst s \<noteq> t) secs of [] \<Rightarrow> \<not> sublist (t @ '']'') (file_text secs) | (_, ps) # _ \<Rightarrow> \<forall>l \<in> set ps. \<not> suffix p (fst l)"
proof (cases rule: section_cases [of t secs])
  case 1
  then have "\<not> sublist t (file_text secs)" using assms(1) by (simp add: addressable_def del: takeWhile_eq_all_conv dropWhile_eq_Nil_conv)
  then have "\<not> sublist (t @ '']'') (file_text secs)" by (auto simp: sublist_def)
  then show ?thesis by (simp add: 1(1) del: dropWhile_eq_Nil_conv)
next
  case (2 ps S2)
  have "map_of ps p = None" using assms(2) 2(1) by (simp add: value_of_def)
  then have "takeWhile (\<lambda>l. fst l \<noteq> p) ps = ps" by (cases rule: line_cases [of p ps]) auto
  then show ?thesis using addressable_line [OF assms(1) 2(1)] by (simp add: 2(1) del: takeWhile_eq_all_conv)
qed

lemma write_sets_value:
  assumes "list_all section_ok secs" and "addressable t p secs" and "plain v" and "length t + length p + length v \<le> 250"
  shows "write_profile no_failure (Some (file_text secs)) t p v = Some (Some (file_text (set_value t p v secs)), 0)"
  by (rule write_profile_spec [OF assms]) (rule addressable_new [OF assms(2)])

lemma set_line_facts:
  "map_of (set_line p v ps) p = Some v" "takeWhile (\<lambda>l. fst l \<noteq> p) (set_line p v ps) = takeWhile (\<lambda>l. fst l \<noteq> p) ps"
  "set (set_line p v ps) \<subseteq> insert (p, v) (set ps)"
proof -
  have tw: "takeWhile (\<lambda>l. fst l \<noteq> p) (a @ (p, v) # b) = a" "map_of (a @ (p, v) # b) p = Some v" if "\<forall>l \<in> set a. fst l \<noteq> p" for a b
    using that by (induction a) auto
  have a: "\<forall>l \<in> set (takeWhile (\<lambda>l. fst l \<noteq> p) ps). fst l \<noteq> p" by (auto dest: set_takeWhileD)
  show "map_of (set_line p v ps) p = Some v" "takeWhile (\<lambda>l. fst l \<noteq> p) (set_line p v ps) = takeWhile (\<lambda>l. fst l \<noteq> p) ps"
    "set (set_line p v ps) \<subseteq> insert (p, v) (set ps)"
  proof (atomize (full), cases rule: line_cases [of p ps])
    case 1
    then have "set_line p v ps = ps @ (p, v) # []" by (simp add: set_line_def del: dropWhile_eq_Nil_conv)
    then show "map_of (set_line p v ps) p = Some v \<and> takeWhile (\<lambda>l. fst l \<noteq> p) (set_line p v ps) = takeWhile (\<lambda>l. fst l \<noteq> p) ps \<and>
      set (set_line p v ps) \<subseteq> insert (p, v) (set ps)"
      using tw [of ps "[]"] a 1(2) by (auto simp del: takeWhile_eq_all_conv)
  next
    case (2 w rest)
    then have "set_line p v ps = takeWhile (\<lambda>l. fst l \<noteq> p) ps @ (p, v) # rest" by (simp add: set_line_def)
    moreover have "set rest \<subseteq> set ps" using 2(2) by (metis set_subset_Cons sup.coboundedI2 set_append)
    ultimately show "map_of (set_line p v ps) p = Some v \<and> takeWhile (\<lambda>l. fst l \<noteq> p) (set_line p v ps) = takeWhile (\<lambda>l. fst l \<noteq> p) ps \<and>
      set (set_line p v ps) \<subseteq> insert (p, v) (set ps)"
      using tw [OF a, of rest] by (auto dest: set_takeWhileD)
  qed
qed

lemma set_value_facts:
  assumes "list_all section_ok secs" and "addressable t p secs" and "plain v"
  shows "list_all section_ok (set_value t p v secs)" "addressable t p (set_value t p v secs)" "value_of t p (set_value t p v secs) = Some v"
proof -
  have a: "t \<noteq> []" "plain t" "p \<noteq> []" "plain p" using assms(2) by (simp_all add: addressable_def)
  have tw: "takeWhile (\<lambda>s. fst s \<noteq> t) (x @ (t, ps) # b) = x" "dropWhile (\<lambda>s. fst s \<noteq> t) (x @ (t, ps) # b) = (t, ps) # b"
    if "\<forall>s \<in> set x. fst s \<noteq> t" for x b and ps :: "(string \<times> string) list"
    using that by (induction x) auto
  have b: "\<forall>s \<in> set (takeWhile (\<lambda>s. fst s \<noteq> t) secs). fst s \<noteq> t" by (auto dest: set_takeWhileD)
  have "\<exists>S1 ps S2. set_value t p v secs = S1 @ (t, set_line p v ps) # S2 \<and> S1 = takeWhile (\<lambda>s. fst s \<noteq> t) secs \<and>
      list_all section_ok (S1 @ (t, ps) # S2) \<and> (\<forall>l \<in> set (takeWhile (\<lambda>l. fst l \<noteq> p) ps). \<not> suffix p (fst l))"
  proof (cases rule: section_cases [of t secs])
    case 1
    then have "set_value t p v secs = secs @ (t, set_line p v []) # []" by (simp add: set_value_def set_line_def del: dropWhile_eq_Nil_conv)
    then show ?thesis using 1(2) assms(1) a
      by (rule_tac exI [of _ secs], rule_tac exI [of _ "[]"], rule_tac exI [of _ "[]"])
        (auto simp: section_ok_def simp del: takeWhile_eq_all_conv)
  next
    case (2 ps S2)
    then show ?thesis using assms(1) addressable_line [OF assms(2) 2(1)]
      by (intro exI [of _ "takeWhile (\<lambda>s. fst s \<noteq> t) secs"] exI [of _ ps] exI [of _ S2]) (auto simp: set_value_def)
  qed
  then obtain S1 ps S2 where s: "set_value t p v secs = S1 @ (t, set_line p v ps) # S2" "S1 = takeWhile (\<lambda>s. fst s \<noteq> t) secs"
      "list_all section_ok (S1 @ (t, ps) # S2)" "\<forall>l \<in> set (takeWhile (\<lambda>l. fst l \<noteq> p) ps). \<not> suffix p (fst l)" by blast
  have c: "\<forall>s \<in> set S1. fst s \<noteq> t" using b s(2) by simp
  show "list_all section_ok (set_value t p v secs)"
    using s(1,3) set_line_facts(3) [of p v ps] a assms(3) by (fastforce simp: section_ok_def list_all_iff)
  show "addressable t p (set_value t p v secs)"
    using assms(2) s(4) unfolding addressable_def s(1) tw [OF c] by (simp add: s(2) set_line_facts(2))
  show "value_of t p (set_value t p v secs) = Some v"
    unfolding value_of_def s(1) tw(2) [OF c] by (simp add: set_line_facts(1))
qed

lemma find_empty: "find_parameter s q = Some r \<Longrightarrow> q = [] \<longrightarrow> take 1 s = ''=''"
proof (rule find_parameter.raw_induct [where P = "\<lambda>s q r. q = [] \<longrightarrow> take 1 s = ''=''"])
  fix f s q r
  assume ih: "\<And>s q r. f s q = Some r \<Longrightarrow> q = [] \<longrightarrow> take 1 s = ''=''"
    and r: "(case strstr s q of None \<Rightarrow> Some None
      | Some p \<Rightarrow> if take 1 (drop (length q) p) = ''='' then Some (Some p) else f (drop (length q) p) q) = Some r"
  show "q = [] \<longrightarrow> take 1 s = ''=''"
  proof
    assume q: "q = []"
    then have "strstr s q = Some s" using strstr_here [of "[]" s] by simp
    then show "take 1 s = ''=''" using r ih [of s "[]"] q by (auto split: if_splits)
  qed
qed

section \<open>Properties\<close>

text \<open>
  C29. On the text of a list of well-formed sections, for a token and a name that are \<open>addressable\<close>, the functions do
  what their names say. Addressable means that the search for the bare token and the bare name cannot stop too early: the token
  does not occur anywhere in the text before its own section (with a section NS2 in front, NS is not addressable), and in that
  section no line before the one meant has a name that ends with the name. Then reading returns the value of the first line of
  that name in the first section of that token, whatever lies behind the buffer in memory; when there is
  no such line it returns -1, provided that nothing lies behind the buffer, which has no terminating zero; and
  writing a value that fits the buffer sets it there, or adds a line or a section.
\<close>

theorem profile_refinement:
  assumes "list_all section_ok secs" and "addressable t p secs" and "plain v" and "length t + length p + length v \<le> 250"
  shows "(\<forall>w. value_of t p secs = Some w \<longrightarrow>
      read_profile no_failure (Some (file_text secs)) beyond t p = Some (Some w, int (length w))) \<and>
    (value_of t p secs = None \<longrightarrow> read_profile no_failure (Some (file_text secs)) [] t p = Some (None, - 1)) \<and>
    write_profile no_failure (Some (file_text secs)) t p v = Some (Some (file_text (set_value t p v secs)), 0)"
proof (intro conjI allI impI)
  show "read_profile no_failure (Some (file_text secs)) beyond t p = Some (Some w, int (length w))" if "value_of t p secs = Some w" for w
    using assms(1,2) that by (rule read_profile_spec)
  show "read_profile no_failure (Some (file_text secs)) [] t p = Some (None, - 1)" if none: "value_of t p secs = None"
  proof (rule read_profile_missing [OF assms(1)])
    show "case dropWhile (\<lambda>s. fst s \<noteq> t) secs of [] \<Rightarrow> True | (_, ps) # _ \<Rightarrow> \<forall>l \<in> set ps. \<not> suffix p (fst l)"
      using addressable_new [OF assms(2) none]
      by (cases "dropWhile (\<lambda>s. fst s \<noteq> t) secs") (simp_all del: dropWhile_eq_Nil_conv split: prod.splits)
  qed (use assms(2) in \<open>simp_all add: addressable_def\<close>)
  show "write_profile no_failure (Some (file_text secs)) t p v = Some (Some (file_text (set_value t p v secs)), 0)"
    by (rule write_sets_value [OF assms])
qed

theorem profile_refinement_witness:
  "read_profile no_failure (Some (file_text [(''NS'', [(''level'', ''2'')]), (''AGC'', [(''mode'', ''1'')])])) ''xyz'' ''AGC'' ''mode'' = Some (Some ''1'', 1)"
proof -
  have "addressable ''AGC'' ''mode'' [(''NS'', [(''level'', ''2'')]), (''AGC'', [(''mode'', ''1'')])]"
    by (simp add: addressable_def plain_def header_text_def line_text_def sublist_code)
  then show ?thesis
    using profile_refinement [of "[(''NS'', [(''level'', ''2'')]), (''AGC'', [(''mode'', ''1'')])]" "''AGC''" "''mode''" "''7''" "''xyz''"]
    by (auto simp: section_ok_def plain_def value_of_def)
qed

text \<open>
  A value that was written is read back, whatever lies behind the buffer.
\<close>

theorem profile_round_trip:
  assumes "list_all section_ok secs" and "addressable t p secs" and "plain v" and "length t + length p + length v \<le> 250"
  shows "\<exists>contents. write_profile no_failure (Some (file_text secs)) t p v = Some (Some contents, 0) \<and>
    read_profile no_failure (Some contents) beyond t p = Some (Some v, int (length v))"
  using write_sets_value [OF assms] read_profile_spec [OF set_value_facts [OF assms(1-3)]] by blast

theorem profile_round_trip_witness:
  "\<exists>contents. write_profile no_failure (Some (file_text [(''NS'', [(''level'', ''2'')])])) ''AGC'' ''mode'' ''1'' = Some (Some contents, 0) \<and>
    read_profile no_failure (Some contents) ''rubbish'' ''AGC'' ''mode'' = Some (Some ''1'', 1)"
proof -
  have "addressable ''AGC'' ''mode'' [(''NS'', [(''level'', ''2'')])]"
    by (simp add: addressable_def plain_def header_text_def line_text_def sublist_code)
  then show ?thesis
    using profile_round_trip [of "[(''NS'', [(''level'', ''2'')])]" "''AGC''" "''mode''" "''1''" "''rubbish''"]
    by (auto simp: section_ok_def plain_def)
qed

text \<open>
  The buffer that a profile is read into is not terminated: when the last section of the file does not have
  the parameter, the search goes on behind the buffer, and a line that happens to be there is returned as the
  value.
\<close>

theorem profile_reads_beyond:
  assumes "list_all section_ok (S1 @ [(t, ps)])" and "\<not> sublist t (file_text S1)" and "length t \<le> 98"
    and "p \<noteq> []" "plain p" "plain w" and "\<forall>l \<in> set ps. \<not> suffix p (fst l)"
  shows "read_profile no_failure (Some (file_text (S1 @ [(t, ps)]))) [] t p = Some (None, - 1) \<and>
    read_profile no_failure (Some (file_text (S1 @ [(t, ps)]))) (line_text (p, w)) t p = Some (Some w, int (length w))"
proof -
  have t: "plain t" "\<forall>(q, v) \<in> set ps. plain q \<and> plain v \<and> \<not> suffix p q"
    using assms(1,7) by (fastforce simp: section_ok_def)+
  note un = body_unassigned [OF t(1) assms(5,4) t(2)]
  note rd = read_in_section [OF assms(1-3)]
  have c: "c \<noteq> CHR ''[''" "c \<noteq> CHR 0x00" if "c \<in> set (line_text (p, w))" for c
    using that plain_chars [OF assms(5)] plain_chars [OF assms(6)] by (auto simp: line_text_def)
  have "c_string (line_text (p, w)) = line_text (p, w)" using c(2) by (auto simp: c_string_def takeWhile_eq_all_conv)
  moreover have "section_text (line_text (p, w)) = line_text (p, w)" using c(1) by (auto simp: section_text_take takeWhile_eq_all_conv)
  ultimately have tail: "section_text (file_text [] @ c_string (line_text (p, w))) = p @ ''='' @ w @ [newline]" by (simp add: line_text_def)
  have hit: "find_parameter (body_text t ps @ p @ ''='' @ w @ [newline]) p = Some (Some (p @ ''='' @ w @ [newline]))"
    using find_parameter_hit [OF un(1) _ assms(5,4), of "w @ [newline]"] un(2) by simp
  have nil: "section_text (file_text [] @ c_string []) = []" by (simp add: c_string_def section_text_def)
  have "find_parameter (body_text t ps @ []) p = Some None" using find_parameter_none [OF un(1) assms(4)] by simp
  then show ?thesis
    unfolding rd tail hit nil using value_read [OF assms(6), of p "[]"] assms(5) by simp
qed

theorem profile_reads_beyond_witness:
  "read_profile no_failure (Some (file_text [(''AGC'', [(''mode'', ''1'')])])) (line_text (''enable'', ''no'')) ''AGC'' ''enable'' = Some (Some ''no'', 2)"
  using profile_reads_beyond [of "[]" "''AGC''" "[(''mode'', ''1'')]" "''enable''" "''no''"]
  by (auto simp: section_ok_def plain_def sublist_code suffix_to_prefix)

text \<open>
  The search for a parameter always ends when its name is not empty; with an empty name it ends only when the
  text begins with an equals sign.
\<close>

theorem parameter_search_ends:
  "(p \<noteq> [] \<longrightarrow> find_parameter s p \<noteq> None) \<and> (find_parameter s [] \<noteq> None \<longleftrightarrow> take 1 s = ''='')"
proof
  show "p \<noteq> [] \<longrightarrow> find_parameter s p \<noteq> None"
  proof
    assume p: "p \<noteq> []"
    show "find_parameter s p \<noteq> None"
    proof (induction "length s" arbitrary: s rule: less_induct)
      case less
      show ?case
      proof (cases "strstr s p")
        case None
        then show ?thesis by (subst find_parameter.simps) simp
      next
        case (Some q)
        then obtain a r where "s = a @ q" "q = p @ r" using strstr_split by blast
        then have "find_parameter r p \<noteq> None" using less [of r] p by simp
        then show ?thesis using Some \<open>q = p @ r\<close> by (subst find_parameter.simps) simp
      qed
    qed
  qed
  have here: "strstr s [] = Some s" using strstr_here [of "[]" s] by simp
  have "take 1 s = ''=''" if "find_parameter s [] = Some r" for r using find_empty [OF that] by simp
  moreover have "find_parameter s [] = Some (Some s)" if "take 1 s = ''=''" using that here by (subst find_parameter.simps) simp
  ultimately show "find_parameter s [] \<noteq> None \<longleftrightarrow> take 1 s = ''=''" by auto
qed

theorem parameter_search_ends_witness: "find_parameter ''AGC]'' ''mode'' \<noteq> None \<and> find_parameter ''AGC]'' [] = None"
  using parameter_search_ends [of "''mode''" "''AGC]''"] by simp

end
