(* ===== verification/Resample_By_2.thy ===== *)
theory Resample_By_2
  imports Spl_Inline Stream_Filter
begin

text \<open>
  Resampling by two with pairs of allpass filters: the internal functions of the resamplers
  (\<^verbatim>\<open>resample_by_2_internal.c\<close>), the public ones (\<^verbatim>\<open>resample_by_2.c\<close>, generic C) and the splitting of a signal in
  two bands (\<^verbatim>\<open>splitting_filter.c\<close>).

  A state array is a list; each allpass filter works on four consecutive elements of it. The passes over the
  even and the odd samples follow one another as in the source. Arithmetic of 32 bits wraps around. The functions
  that use their input array for intermediate results leave it, in the model, as it was: no caller reads it again.
\<close>

section \<open>The allpass filter\<close>

definition kResampleAllpass :: "int list list" where
  "kResampleAllpass = [[821, 6110, 12382], [3050, 9368, 15063]]"

definition scale_trunc :: "int \<Rightarrow> int" where
  "scale_trunc diff = (let diff = shr diff 14 in if diff < 0 then diff + 1 else diff)"

text \<open>One sample; the output is the last element of the new state.\<close>

definition allpass_step :: "int list \<Rightarrow> int list \<Rightarrow> int \<Rightarrow> int list \<times> int" where
  "allpass_step c st x =
     (let diff = shr (s32 (s32 (x - st ! 1) + 2 ^ 13)) 14;
          tmp1 = s32 (st ! 0 + diff * c ! 0);
          diff = scale_trunc (s32 (tmp1 - st ! 2));
          tmp0 = s32 (st ! 1 + diff * c ! 1);
          diff = scale_trunc (s32 (tmp0 - st ! 3));
          y = s32 (st ! 2 + diff * c ! 2)
      in ([x, tmp1, tmp0, y], y))"

text \<open>A filter with the coefficients \<open>k\<close> on the \<open>i\<close>th four elements of the state.\<close>

definition allpass :: "nat \<Rightarrow> nat \<Rightarrow> int list \<Rightarrow> int list \<Rightarrow> int list \<times> int list" where
  "allpass k i st xs = (let (s, ys) = mealy (allpass_step (kResampleAllpass ! k)) (take 4 (drop (4 * i) st)) xs in (blit st (4 * i) s, ys))"

text \<open>Samples shifted 15 positions to the left, with an offset for rounding.\<close>

definition q15 :: "int \<Rightarrow> int" where
  "q15 x = s32 (s32 (shl x 15) + 2 ^ 14)"

definition saturate16 :: "int \<Rightarrow> int" where
  "saturate16 x = (let x = (if x > 32767 then 32767 else x); x = (if x < - 32768 then - 32768 else x) in s16 x)"

section \<open>Internal functions\<close>

text \<open>The samples are combined in pairs; when the number of outputs is odd the last pair is read beyond the input.\<close>

definition WebRtcSpl_DownBy2IntToShort :: "int list \<Rightarrow> nat \<Rightarrow> int list \<Rightarrow> int list \<times> int list" where
  "WebRtcSpl_DownBy2IntToShort xs len state =
     (let n = len div 2;
          (state, lo) = allpass 1 0 state (evens xs n);
          (state, hi) = allpass 0 1 state (odds xs n);
          tmp = (\<lambda>i. saturate16 (shr (s32 (shr (lo ! i) 1 + shr (hi ! i) 1)) 15))
      in (state, concat (map (\<lambda>i. [tmp i, tmp (i + 1)]) (upt_by 0 n 2))))"

definition WebRtcSpl_DownBy2ShortToInt :: "int list \<Rightarrow> nat \<Rightarrow> int list \<Rightarrow> int list \<times> int list" where
  "WebRtcSpl_DownBy2ShortToInt xs len state =
     (let n = len div 2;
          (state, lo) = allpass 1 0 state (map q15 (evens xs n));
          (state, hi) = allpass 0 1 state (map q15 (odds xs n))
      in (state, map2 (\<lambda>l h. s32 (shr l 1 + shr h 1)) lo hi))"

definition WebRtcSpl_UpBy2ShortToInt :: "int list \<Rightarrow> nat \<Rightarrow> int list \<Rightarrow> int list \<times> int list" where
  "WebRtcSpl_UpBy2ShortToInt xs len state =
     (let (state, hi) = allpass 0 1 state (map q15 (take len xs));
          (state, lo) = allpass 1 0 state (map q15 (take len xs))
      in (state, interleave (map (\<lambda>y. shr y 15) hi) (map (\<lambda>y. shr y 15) lo)))"

definition WebRtcSpl_UpBy2IntToInt :: "int list \<Rightarrow> nat \<Rightarrow> int list \<Rightarrow> int list \<times> int list" where
  "WebRtcSpl_UpBy2IntToInt xs len state =
     (let (state, hi) = allpass 0 1 state (take len xs);
          (state, lo) = allpass 1 0 state (take len xs)
      in (state, interleave hi lo))"

definition WebRtcSpl_UpBy2IntToShort :: "int list \<Rightarrow> nat \<Rightarrow> int list \<Rightarrow> int list \<times> int list" where
  "WebRtcSpl_UpBy2IntToShort xs len state =
     (let (state, hi) = allpass 0 1 state (take len xs);
          (state, lo) = allpass 1 0 state (take len xs)
      in (state, interleave (map (\<lambda>y. saturate16 (shr y 15)) hi) (map (\<lambda>y. saturate16 (shr y 15)) lo)))"

text \<open>
  The low-pass filters have four allpass filters; the first one gets the odd samples one late, the last odd sample
  of the call before being the element 12 of the state. \<open>conv\<close> is the conversion of the input.
\<close>

definition lowpass :: "(int \<Rightarrow> int) \<Rightarrow> int list \<Rightarrow> nat \<Rightarrow> int list \<Rightarrow> int list \<times> int list" where
  "lowpass conv xs len state =
     (let n = len div 2;
          delayed = take n (state ! 12 # map conv (odds xs n));
          (state, a) = allpass 1 0 state delayed;
          (state, b) = allpass 0 1 state (map conv (evens xs n));
          (state, c) = allpass 1 2 state (map conv (evens xs n));
          (state, d) = allpass 0 3 state (map conv (odds xs n));
          avg = map2 (\<lambda>l h. shr (s32 (shr l 1 + shr h 1)) 15)
      in (state, interleave (avg a b) (avg c d)))"

definition WebRtcSpl_LPBy2ShortToInt :: "int list \<Rightarrow> nat \<Rightarrow> int list \<Rightarrow> int list \<times> int list" where
  "WebRtcSpl_LPBy2ShortToInt xs len state = lowpass q15 xs len state"

definition WebRtcSpl_LPBy2IntToInt :: "int list \<Rightarrow> nat \<Rightarrow> int list \<Rightarrow> int list \<times> int list" where
  "WebRtcSpl_LPBy2IntToInt xs len state = lowpass (\<lambda>x. x) xs len state"

section \<open>Public functions\<close>

definition kResampleAllpass1 :: "int list" where "kResampleAllpass1 = [3284, 24441, 49528]"
definition kResampleAllpass2 :: "int list" where "kResampleAllpass2 = [12199, 37471, 60255]"

definition MUL_ACCUM_1 :: "int \<Rightarrow> int \<Rightarrow> int \<Rightarrow> int" where "MUL_ACCUM_1 a b c = WEBRTC_SPL_SCALEDIFF32 a b c"
definition MUL_ACCUM_2 :: "int \<Rightarrow> int \<Rightarrow> int \<Rightarrow> int" where "MUL_ACCUM_2 a b c = WEBRTC_SPL_SCALEDIFF32 a b c"

text \<open>One allpass filter of the decimator or the interpolator, on four elements of the state.\<close>

definition by2_step :: "int list \<Rightarrow> (int \<Rightarrow> int \<Rightarrow> int \<Rightarrow> int) \<Rightarrow> int list \<Rightarrow> int \<Rightarrow> int list" where
  "by2_step c second st in32 =
     (let tmp1 = MUL_ACCUM_1 (c ! 0) (s32 (in32 - st ! 1)) (st ! 0);
          tmp2 = second (c ! 1) (s32 (tmp1 - st ! 2)) (st ! 1)
      in [in32, tmp1, tmp2, MUL_ACCUM_2 (c ! 2) (s32 (tmp2 - st ! 3)) (st ! 2)])"

definition downsample_pair :: "int list \<Rightarrow> int \<times> int \<Rightarrow> int list \<times> int" where
  "downsample_pair st = (\<lambda>(x0, x1).
     let lo = by2_step kResampleAllpass2 MUL_ACCUM_2 (take 4 st) (s32 (shl x0 10));
         hi = by2_step kResampleAllpass1 MUL_ACCUM_1 (drop 4 st) (s32 (shl x1 10));
         out32 = shr (s32 (s32 (lo ! 3 + hi ! 3) + 1024)) 11
     in (lo @ hi, WebRtcSpl_SatW32ToW16 out32))"

definition WebRtcSpl_DownsampleBy2 :: "int list \<Rightarrow> nat \<Rightarrow> int list \<Rightarrow> int list \<times> int list" where
  "WebRtcSpl_DownsampleBy2 xs len filtState = mealy downsample_pair filtState (zip (evens xs (len div 2)) (odds xs (len div 2)))"

definition upsample_one :: "int list \<Rightarrow> int \<Rightarrow> int list \<times> int list" where
  "upsample_one st x =
     (let in32 = s32 (shl x 10);
          lo = by2_step kResampleAllpass1 MUL_ACCUM_1 (take 4 st) in32;
          out0 = WebRtcSpl_SatW32ToW16 (shr (s32 (lo ! 3 + 512)) 10);
          hi = by2_step kResampleAllpass2 MUL_ACCUM_2 (drop 4 st) in32;
          out1 = WebRtcSpl_SatW32ToW16 (shr (s32 (hi ! 3 + 512)) 10)
      in (lo @ hi, [out0, out1]))"

definition WebRtcSpl_UpsampleBy2 :: "int list \<Rightarrow> nat \<Rightarrow> int list \<Rightarrow> int list \<times> int list" where
  "WebRtcSpl_UpsampleBy2 xs len filtState = (let (st, outs) = mealy upsample_one filtState (take len xs) in (st, concat outs))"

section \<open>Two bands\<close>

definition WebRtcSpl_kAllPassFilter1 :: "int list" where "WebRtcSpl_kAllPassFilter1 = [6418, 36982, 57261]"
definition WebRtcSpl_kAllPassFilter2 :: "int list" where "WebRtcSpl_kAllPassFilter2 = [21333, 49062, 63010]"

text \<open>One cascade: the state is the last input and the last output.\<close>

definition qmf_step :: "int \<Rightarrow> int \<times> int \<Rightarrow> int \<Rightarrow> (int \<times> int) \<times> int" where
  "qmf_step c = (\<lambda>(x', y') x. let y = WEBRTC_SPL_SCALEDIFF32 c (WebRtcSpl_SubSatW32 x y') x' in ((x, y), y))"

definition WebRtcSpl_AllPassQMF :: "int list \<Rightarrow> int list \<Rightarrow> int list \<Rightarrow> int list \<times> int list" where
  "WebRtcSpl_AllPassQMF in_data filter_coefficients filter_state =
     (let ((a0, a1), ys) = mealy (qmf_step (filter_coefficients ! 0)) (filter_state ! 0, filter_state ! 1) in_data;
          ((a2, a3), ys) = mealy (qmf_step (filter_coefficients ! 1)) (filter_state ! 2, filter_state ! 3) ys;
          ((a4, a5), ys) = mealy (qmf_step (filter_coefficients ! 2)) (filter_state ! 4, filter_state ! 5) ys
      in ([a0, a1, a2, a3, a4, a5], ys))"

text \<open>The state of the analysis and the synthesis are both arrays; the result has both bands.\<close>

definition WebRtcSpl_AnalysisQMF :: "int list \<Rightarrow> nat \<Rightarrow> int list \<times> int list \<Rightarrow> (int list \<times> int list) \<times> int list \<times> int list" where
  "WebRtcSpl_AnalysisQMF in_data in_data_length = (\<lambda>(filter_state1, filter_state2).
     let n = in_data_length div 2;
         half_in2 = map (\<lambda>x. WEBRTC_SPL_LSHIFT_W32 x 10) (evens in_data n);
         half_in1 = map (\<lambda>x. WEBRTC_SPL_LSHIFT_W32 x 10) (odds in_data n);
         (filter_state1, filter1) = WebRtcSpl_AllPassQMF half_in1 WebRtcSpl_kAllPassFilter1 filter_state1;
         (filter_state2, filter2) = WebRtcSpl_AllPassQMF half_in2 WebRtcSpl_kAllPassFilter2 filter_state2
     in ((filter_state1, filter_state2),
         map2 (\<lambda>a b. WebRtcSpl_SatW32ToW16 (shr (s32 (s32 (a + b) + 1024)) 11)) filter1 filter2,
         map2 (\<lambda>a b. WebRtcSpl_SatW32ToW16 (shr (s32 (s32 (a - b) + 1024)) 11)) filter1 filter2))"

definition WebRtcSpl_SynthesisQMF :: "int list \<Rightarrow> int list \<Rightarrow> nat \<Rightarrow> int list \<times> int list \<Rightarrow> (int list \<times> int list) \<times> int list" where
  "WebRtcSpl_SynthesisQMF low_band high_band band_length = (\<lambda>(filter_state1, filter_state2).
     let low = take band_length low_band; high = take band_length high_band;
         half_in1 = map2 (\<lambda>l h. WEBRTC_SPL_LSHIFT_W32 (l + h) 10) low high;
         half_in2 = map2 (\<lambda>l h. WEBRTC_SPL_LSHIFT_W32 (l - h) 10) low high;
         (filter_state1, filter1) = WebRtcSpl_AllPassQMF half_in1 WebRtcSpl_kAllPassFilter2 filter_state1;
         (filter_state2, filter2) = WebRtcSpl_AllPassQMF half_in2 WebRtcSpl_kAllPassFilter1 filter_state2;
         out = (\<lambda>y. WebRtcSpl_SatW32ToW16 (shr (s32 (y + 512)) 10))
     in ((filter_state1, filter_state2), interleave (map out filter2) (map out filter1)))"

section \<open>Streams\<close>

lemma length_allpass_step [simp]: "length (fst (allpass_step c st x)) = 4"
  by (simp add: allpass_step_def Let_def)

lemma length_allpass_run [simp]: "length st = 4 \<Longrightarrow> length (fst (mealy (allpass_step c) st xs)) = 4"
  by (rule mealy_keeps [where P = "\<lambda>s. length s = 4"]) simp_all

lemma allpass_at:
  assumes "length a = 4 * i" "length b = 4"
  shows "allpass k i (a @ b @ c) xs = (let (b, ys) = mealy (allpass_step (kResampleAllpass ! k)) b xs in (a @ b @ c, ys))"
proof -
  obtain b' ys where m: "mealy (allpass_step (kResampleAllpass ! k)) b xs = (b', ys)" by (rule prod.exhaust)
  then have "length b' = 4" using length_allpass_run [OF assms(2)] by (metis fst_conv)
  then show ?thesis using assms m by (simp add: allpass_def blit_def)
qed

lemma state_halves:
  assumes "length st = 8"
  obtains a b :: "int list" where "st = a @ b" "length a = 4" "length b = 4"
  using assms that [of "take 4 st" "drop 4 st"] by simp

lemma state_quarters:
  assumes "length st = 16"
  obtains a b c d :: "int list" where "st = a @ b @ c @ d" "length a = 4" "length b = 4" "length c = 4" "length d = 4"
proof -
  have "st = take 4 st @ drop 4 st" "drop 4 st = take 4 (drop 4 st) @ drop 8 st" "drop 8 st = take 4 (drop 8 st) @ drop 12 st"
    using append_take_drop_id [of 4 "drop 4 st"] append_take_drop_id [of 4 "drop 8 st"] by simp_all
  then have "st = take 4 st @ take 4 (drop 4 st) @ take 4 (drop 8 st) @ drop 12 st" by argo
  then show ?thesis using that [of "take 4 st" "take 4 (drop 4 st)" "take 4 (drop 8 st)" "drop 12 st"] assms by simp
qed

text \<open>The passes on the parts of the state, without the array.\<close>

abbreviation pass :: "nat \<Rightarrow> int list \<Rightarrow> int list \<Rightarrow> int list \<times> int list" where
  "pass k \<equiv> mealy (allpass_step (kResampleAllpass ! k))"

definition two_passes :: "(int \<Rightarrow> int \<Rightarrow> 'b list) \<Rightarrow> int list \<Rightarrow> int list \<Rightarrow> int list \<Rightarrow> int list \<times> 'b list" where
  "two_passes out st los his =
     (let (a, lo) = pass 1 (take 4 st) los; (b, hi) = pass 0 (drop 4 st) his in (a @ b, concat (map2 out lo hi)))"

lemma two_passes_append:
  assumes "length st = 8" "length los = length his"
  shows "two_passes out st (los @ los') (his @ his') =
    (let (st, us) = two_passes out st los his; (st, vs) = two_passes out st los' his' in (st, us @ vs))"
proof -
  obtain a b where st: "st = a @ b" "length a = 4" "length b = 4" by (rule state_halves [OF assms(1)])
  obtain a' lo where a: "pass 1 a los = (a', lo)" by (rule prod.exhaust)
  obtain b' hi where b: "pass 0 b his = (b', hi)" by (rule prod.exhaust)
  have l: "length a' = 4" using length_allpass_run [OF st(2), of "kResampleAllpass ! 1" los] unfolding a by simp
  have "length lo = length los" "length hi = length his"
    using length_mealy [of "allpass_step (kResampleAllpass ! 1)" a los]
      length_mealy [of "allpass_step (kResampleAllpass ! 0)" b his] unfolding a b by simp_all
  note l = l this
  show ?thesis unfolding two_passes_def using st l assms(2) a b
    by (simp add: split_def Let_def mealy_append)
qed

lemma two_passes_state:
  assumes "length st = 8"
  shows "length (fst (two_passes out st los his)) = 8"
proof -
  obtain a b where st: "st = a @ b" "length a = 4" "length b = 4" by (rule state_halves [OF assms])
  then show ?thesis using length_allpass_run [OF st(2)] length_allpass_run [OF st(3)]
    by (simp add: two_passes_def split_def Let_def)
qed

lemma two_passes_Nil: "length st = 8 \<Longrightarrow> two_passes out st [] [] = (st, [])"
  by (simp add: two_passes_def)

lemma concat_map2_length: "(\<And>x y. length (f x y) = n) \<Longrightarrow> length xs = length ys \<Longrightarrow> length (concat (map2 f xs ys)) = n * length xs"
  by (induction xs ys rule: list_induct2') simp_all

lemma two_passes_length:
  assumes "length los = length his" "\<And>x y. length (out x y) = n"
  shows "length (snd (two_passes out st los his)) = n * length los"
  using concat_map2_length [OF assms(2), of "snd (pass 1 (take 4 st) los)" "snd (pass 0 (drop 4 st) his)"] assms(1)
  by (simp add: two_passes_def split_def Let_def)

text \<open>What the six functions are in these terms.\<close>

lemma map2_concat: "map2 f xs ys = concat (map2 (\<lambda>x y. [f x y]) xs ys)"
  by (induction xs ys rule: list_induct2') simp_all

lemma interleave_maps: "interleave (map f xs) (map g ys) = concat (map2 (\<lambda>x y. [f x, g y]) xs ys)"
  by (induction xs ys rule: list_induct2') (simp_all add: interleave_def)

lemma concat_map2_swap: "concat (map2 (\<lambda>x y. f x y) xs ys) = concat (map2 (\<lambda>y x. f x y) ys xs)"
  by (induction xs ys rule: list_induct2') simp_all

lemma upt_by_pairs: "upt_by a (a + 2 * k) 2 = map (\<lambda>j. a + 2 * j) [0..<k]"
proof (induction k arbitrary: a)
  case (Suc k)
  have "upt_by a (a + 2 * Suc k) 2 = a # upt_by (a + 2) (a + 2 + 2 * k) 2" by (subst upt_by.simps) simp
  also have "\<dots> = map (\<lambda>j. a + 2 * j) (0 # map Suc [0..<k])" unfolding Suc.IH by simp
  also have "0 # map Suc [0..<k] = [0..<Suc k]" by (simp only: map_Suc_upt upt_conv_Cons [of 0 "Suc k"] zero_less_Suc)
  finally show ?case .
qed (simp add: upt_by.simps)

lemma pairs_map:
  assumes "even n"
  shows "concat (map (\<lambda>i. [f i, f (i + 1)]) (upt_by 0 n 2)) = map f [0..<n]"
proof -
  obtain k where n: "n = 2 * k" using assms by blast
  have "upt_by 0 (2 * k) 2 = map (\<lambda>j. 2 * j) [0..<k]" using upt_by_pairs [of 0 k] by simp
  moreover have "concat (map (\<lambda>j. [f (2 * j), f (2 * j + 1)]) [0..<k]) = map f [0..<2 * k]"
    by (induction k) simp_all
  ultimately show ?thesis by (simp add: n o_def)
qed

lemma allpass_two:
  assumes "length st = 8"
  shows "(let (st, lo) = allpass 1 0 st los; (st, hi) = allpass 0 1 st his in F st lo hi) =
      (let (a, lo) = pass 1 (take 4 st) los; (b, hi) = pass 0 (drop 4 st) his in F (a @ b) lo hi)"
    and "(let (st, hi) = allpass 0 1 st his; (st, lo) = allpass 1 0 st los in F st lo hi) =
      (let (a, lo) = pass 1 (take 4 st) los; (b, hi) = pass 0 (drop 4 st) his in F (a @ b) lo hi)"
proof -
  obtain a b where st: "st = a @ b" "length a = 4" "length b = 4" by (rule state_halves [OF assms])
  note l = length_allpass_run [OF st(2)]
  have p: "allpass k 0 (a @ b) xs = (let (a, ys) = pass k a xs in (a @ b, ys))" for k xs b
    using allpass_at [of "[]" 0 a k b xs] st(2) by simp
  have q: "allpass k 1 (a @ b) xs = (let (b, ys) = pass k b xs in (a @ b, ys))" if "length a = 4" for k xs a
    using allpass_at [of a 1 b k "[]" xs] st(3) that by simp
  show "(let (st, lo) = allpass 1 0 st los; (st, hi) = allpass 0 1 st his in F st lo hi) =
      (let (a, lo) = pass 1 (take 4 st) los; (b, hi) = pass 0 (drop 4 st) his in F (a @ b) lo hi)"
    using st l q by (simp add: p split_def Let_def)
  show "(let (st, hi) = allpass 0 1 st his; (st, lo) = allpass 1 0 st los in F st lo hi) =
      (let (a, lo) = pass 1 (take 4 st) los; (b, hi) = pass 0 (drop 4 st) his in F (a @ b) lo hi)"
    using st q [OF st(2)] by (simp add: p split_def Let_def)
qed

definition avg :: "int \<Rightarrow> int \<Rightarrow> int" where "avg l h = s32 (shr l 1 + shr h 1)"

lemma map_nth_map2: "length xs = n \<Longrightarrow> length ys = n \<Longrightarrow> map (\<lambda>i. f (xs ! i) (ys ! i)) [0..<n] = map2 f xs ys"
  by (rule nth_equalityI) simp_all

lemma DownBy2ShortToInt_eq:
  assumes "length st = 8"
  shows "WebRtcSpl_DownBy2ShortToInt xs len st =
    two_passes (\<lambda>l h. [avg l h]) st (map q15 (evens xs (len div 2))) (map q15 (odds xs (len div 2)))"
  unfolding WebRtcSpl_DownBy2ShortToInt_def Let_def [of "len div 2"] allpass_two(1) [OF assms] two_passes_def
    map2_concat [of "\<lambda>l h. s32 (shr l 1 + shr h 1)"] avg_def ..

lemma DownBy2IntToShort_eq:
  assumes "length st = 8" "4 dvd len"
  shows "WebRtcSpl_DownBy2IntToShort xs len st =
    two_passes (\<lambda>l h. [saturate16 (shr (avg l h) 15)]) st (evens xs (len div 2)) (odds xs (len div 2))"
proof -
  have e: "even (len div 2)" using assms(2) by auto
  obtain a lo where a: "pass 1 (take 4 st) (evens xs (len div 2)) = (a, lo)" by (rule prod.exhaust)
  obtain b hi where b: "pass 0 (drop 4 st) (odds xs (len div 2)) = (b, hi)" by (rule prod.exhaust)
  have "length lo = len div 2" "length hi = len div 2"
    using length_mealy [of "allpass_step (kResampleAllpass ! 1)" "take 4 st" "evens xs (len div 2)"]
      length_mealy [of "allpass_step (kResampleAllpass ! 0)" "drop 4 st" "odds xs (len div 2)"] unfolding a b by simp_all
  note l = map_nth_map2 [OF this, of "\<lambda>l h. saturate16 (shr (s32 (shr l 1 + shr h 1)) 15)"]
  show ?thesis
    unfolding WebRtcSpl_DownBy2IntToShort_def Let_def [of "len div 2"] allpass_two(1) [OF assms(1)] two_passes_def a b
    unfolding Let_def prod.case pairs_map [OF e] l avg_def
      map2_concat [of "\<lambda>l h. saturate16 (shr (s32 (shr l 1 + shr h 1)) 15)"] ..
qed

lemma UpBy2ShortToInt_eq:
  assumes "length st = 8"
  shows "WebRtcSpl_UpBy2ShortToInt xs len st =
    two_passes (\<lambda>l h. [shr h 15, shr l 15]) st (map q15 (take len xs)) (map q15 (take len xs))"
  unfolding WebRtcSpl_UpBy2ShortToInt_def allpass_two(2) [OF assms] two_passes_def interleave_maps
  by (subst concat_map2_swap) simp

lemma UpBy2IntToShort_eq:
  assumes "length st = 8"
  shows "WebRtcSpl_UpBy2IntToShort xs len st =
    two_passes (\<lambda>l h. [saturate16 (shr h 15), saturate16 (shr l 15)]) st (take len xs) (take len xs)"
  unfolding WebRtcSpl_UpBy2IntToShort_def allpass_two(2) [OF assms] two_passes_def interleave_maps
  by (subst concat_map2_swap) simp

lemma UpBy2IntToInt_eq:
  assumes "length st = 8"
  shows "WebRtcSpl_UpBy2IntToInt xs len st = two_passes (\<lambda>l h. [h, l]) st (take len xs) (take len xs)"
  unfolding WebRtcSpl_UpBy2IntToInt_def allpass_two(2) [OF assms] two_passes_def
  by (simp only: interleave_def, subst concat_map2_swap) (rule refl)

text \<open>They are filters on blocks.\<close>

lemma evens_halves:
  assumes "(2 :: nat) dvd length xs"
  shows "evens (xs @ ys) (length (xs @ ys) div 2) = evens xs (length xs div 2) @ evens ys (length ys div 2)"
    "odds (xs @ ys) (length (xs @ ys) div 2) = odds xs (length xs div 2) @ odds ys (length ys div 2)"
proof -
  obtain k where k: "length xs = 2 * k" using assms by blast
  then show "evens (xs @ ys) (length (xs @ ys) div 2) = evens xs (length xs div 2) @ evens ys (length ys div 2)"
    "odds (xs @ ys) (length (xs @ ys) div 2) = odds xs (length xs div 2) @ odds ys (length ys div 2)"
    using evens_append [OF k, of ys "length ys div 2"] by simp_all
qed

lemma evens_0 [simp]: "evens xs 0 = []" "odds xs 0 = []" by (simp_all add: evens_def odds_def)

definition state8 :: "int list \<Rightarrow> bool" where "state8 st = (length st = 8)"

lemmas by_2_eqs = DownBy2ShortToInt_eq DownBy2IntToShort_eq UpBy2ShortToInt_eq UpBy2IntToShort_eq UpBy2IntToInt_eq

interpretation down_short: block_filter "\<lambda>st xs. WebRtcSpl_DownBy2ShortToInt xs (length xs) st" state8 2 1
proof
  fix st xs ys :: "int list"
  assume st: "state8 st"
  then have s: "length st = 8" by (simp add: state8_def)
  show "WebRtcSpl_DownBy2ShortToInt [] (length []) st = (st, [])" by (simp add: by_2_eqs s two_passes_Nil)
  assume x: "2 dvd length xs"
  show "state8 (fst (WebRtcSpl_DownBy2ShortToInt xs (length xs) st))" by (simp add: by_2_eqs s two_passes_state state8_def)
  show "2 * length (snd (WebRtcSpl_DownBy2ShortToInt xs (length xs) st)) = 1 * length xs"
    using x by (simp add: by_2_eqs s two_passes_length [where n = 1])
  show "WebRtcSpl_DownBy2ShortToInt (xs @ ys) (length (xs @ ys)) st =
    (let (st, us) = WebRtcSpl_DownBy2ShortToInt xs (length xs) st; (st, vs) = WebRtcSpl_DownBy2ShortToInt ys (length ys) st
     in (st, us @ vs))"
    unfolding DownBy2ShortToInt_eq [OF s] evens_halves [OF x] map_append
    by (simp add: by_2_eqs two_passes_append [OF s] two_passes_state [OF s] split_def Let_def)
qed

interpretation down_int: block_filter "\<lambda>st xs. WebRtcSpl_DownBy2IntToShort xs (length xs) st" state8 4 2
proof
  fix st xs ys :: "int list"
  assume st: "state8 st"
  then have s: "length st = 8" by (simp add: state8_def)
  show "WebRtcSpl_DownBy2IntToShort [] (length []) st = (st, [])" by (simp add: by_2_eqs s two_passes_Nil)
  assume x: "4 dvd length xs"
  then have x2: "2 dvd length xs" by auto
  show "state8 (fst (WebRtcSpl_DownBy2IntToShort xs (length xs) st))" by (simp add: by_2_eqs s x two_passes_state state8_def)
  show "4 * length (snd (WebRtcSpl_DownBy2IntToShort xs (length xs) st)) = 2 * length xs"
    using x by (auto simp: by_2_eqs s two_passes_length [where n = 1])
  assume y: "4 dvd length ys"
  then have xy: "4 dvd length (xs @ ys)" using x by simp
  show "WebRtcSpl_DownBy2IntToShort (xs @ ys) (length (xs @ ys)) st =
    (let (st, us) = WebRtcSpl_DownBy2IntToShort xs (length xs) st; (st, vs) = WebRtcSpl_DownBy2IntToShort ys (length ys) st
     in (st, us @ vs))"
    unfolding DownBy2IntToShort_eq [OF s xy] DownBy2IntToShort_eq [OF s x] evens_halves [OF x2]
    by (simp add: DownBy2IntToShort_eq y two_passes_append [OF s] two_passes_state [OF s] split_def Let_def)
qed

lemma doubling_filter:
  assumes eq: "\<And>st xs. length st = 8 \<Longrightarrow> run st xs = two_passes out st (map c xs) (map c xs)"
    and out: "\<And>x y. length (out x y) = 2"
  shows "block_filter run state8 1 2"
proof
  fix st :: "int list" and xs ys
  assume st: "state8 st"
  then have s: "length st = 8" by (simp add: state8_def)
  show "run st [] = (st, [])" by (simp add: eq s two_passes_Nil)
  show "state8 (fst (run st xs))" by (simp add: eq s two_passes_state state8_def)
  show "1 * length (snd (run st xs)) = 2 * length xs" by (simp add: eq s two_passes_length [where n = 2] out)
  show "run st (xs @ ys) = (let (st, us) = run st xs; (st, vs) = run st ys in (st, us @ vs))"
    by (simp add: eq s two_passes_append [OF s] two_passes_state [OF s] split_def Let_def)
qed

interpretation up_short: block_filter "\<lambda>st xs. WebRtcSpl_UpBy2ShortToInt xs (length xs) st" state8 1 2
  by (rule doubling_filter [where c = q15 and out = "\<lambda>l h. [shr h 15, shr l 15]"]) (simp_all add: by_2_eqs)

interpretation up_int: block_filter "\<lambda>st xs. WebRtcSpl_UpBy2IntToInt xs (length xs) st" state8 1 2
  by (rule doubling_filter [where c = "\<lambda>x. x" and out = "\<lambda>l h. [h, l]"]) (simp_all add: by_2_eqs)

interpretation up_int_short: block_filter "\<lambda>st xs. WebRtcSpl_UpBy2IntToShort xs (length xs) st" state8 1 2
  by (rule doubling_filter [where c = "\<lambda>x. x" and out = "\<lambda>l h. [saturate16 (shr h 15), saturate16 (shr l 15)]"]) (simp_all add: by_2_eqs)

section \<open>The low-pass filters as filters on blocks\<close>

definition state16 :: "int list \<Rightarrow> bool" where "state16 st = (length st = 16)"

definition avg15 :: "int \<Rightarrow> int \<Rightarrow> int list" where "avg15 l h = [shr (avg l h) 15]"

definition four_passes :: "int list \<Rightarrow> int list \<Rightarrow> int list \<Rightarrow> int list \<times> int list" where
  "four_passes st ev od =
     (let (s, us) = two_passes avg15 (take 8 st) (take (length od) (st ! 12 # od)) ev;
          (t, vs) = two_passes avg15 (drop 8 st) ev od
      in (s @ t, interleave us vs))"

lemma lowpass_eq:
  assumes "length st = 16"
  shows "lowpass conv xs len st = four_passes st (map conv (evens xs (len div 2))) (map conv (odds xs (len div 2)))"
proof -
  obtain a b c d where st: "st = a @ b @ c @ d" and l: "length a = 4" "length b = 4" "length c = 4" "length d = 4"
    by (rule state_quarters [OF assms])
  have p: "allpass k i (u @ v @ w) xs = (let (v, ys) = pass k v xs in (u @ v @ w, ys))"
    if "length u = 4 * i" "length v = 4" for k i u v w xs using that by (rule allpass_at)
  obtain a' A where a: "pass 1 a (take (len div 2) (st ! 12 # map conv (odds xs (len div 2)))) = (a', A)" by (rule prod.exhaust)
  obtain b' B where b: "pass 0 b (map conv (evens xs (len div 2))) = (b', B)" by (rule prod.exhaust)
  obtain c' C where c: "pass 1 c (map conv (evens xs (len div 2))) = (c', C)" by (rule prod.exhaust)
  obtain d' D where d: "pass 0 d (map conv (odds xs (len div 2))) = (d', D)" by (rule prod.exhaust)
  have l': "length a' = 4" "length b' = 4" "length c' = 4"
    using length_allpass_run [OF l(1)] length_allpass_run [OF l(2)] length_allpass_run [OF l(3)] a b c by (metis fst_conv)+
  have 1: "allpass 1 0 st (take (len div 2) (st ! 12 # map conv (odds xs (len div 2)))) = (a' @ b @ c @ d, A)"
    using p [of "[]" 0 a 1 "b @ c @ d"] a l unfolding st by simp
  have 2: "allpass 0 1 (a' @ b @ c @ d) (map conv (evens xs (len div 2))) = (a' @ b' @ c @ d, B)"
    using p [of a' 1 b 0 "c @ d"] b l l' by simp
  have 3: "allpass 1 2 (a' @ b' @ c @ d) (map conv (evens xs (len div 2))) = (a' @ b' @ c' @ d, C)"
    using p [of "a' @ b'" 2 c 1 d] c l l' by simp
  have 4: "allpass 0 3 (a' @ b' @ c' @ d) (map conv (odds xs (len div 2))) = (a' @ b' @ c' @ d', D)"
    using p [of "a' @ b' @ c'" 3 d 0 "[]"] d l l' by simp
  have t: "take 4 (take 8 st) = a" "drop 4 (take 8 st) = b" "take 4 (drop 8 st) = c" "drop 4 (drop 8 st) = d"
    using st l by simp_all
  show ?thesis
    unfolding lowpass_def four_passes_def two_passes_def Let_def [of "len div 2"] Let_def [of "take _ _"] 1 2 3 4 t b c d
      length_map length_evens a
    unfolding Let_def prod.case 2 3 4 avg15_def avg_def append_assoc
      map2_concat [of "\<lambda>l h. shr (s32 (shr l 1 + shr h 1)) 15"] ..
qed

text \<open>The element 12 is the last odd sample.\<close>

lemma pass_head: "length st = 4 \<Longrightarrow> fst (pass k st xs) ! 0 = last (st ! 0 # xs)"
proof (induction xs arbitrary: st)
  case (Cons x xs)
  then show ?case using Cons.IH [of "fst (allpass_step (kResampleAllpass ! k) st x)"]
    by (simp add: split_def Let_def) (simp add: allpass_step_def Let_def)
qed simp

lemma two_passes_head:
  assumes "length st = 8"
  shows "fst (two_passes out st los his) ! 4 = last (st ! 4 # his)"
proof -
  obtain a b where st: "st = a @ b" "length a = 4" "length b = 4" by (rule state_halves [OF assms])
  have "fst (two_passes out st los his) ! 4 = fst (pass 0 b his) ! 0"
    using st length_allpass_run [OF st(2), of "kResampleAllpass ! 1" los]
    by (simp add: two_passes_def split_def Let_def nth_append)
  then show ?thesis using pass_head [OF st(3)] st by (simp add: nth_append)
qed

lemma four_passes_state:
  assumes "length st = 16"
  shows "length (fst (four_passes st ev od)) = 16" "fst (four_passes st ev od) ! 12 = last (st ! 12 # od)"
proof -
  have l: "length (take 8 st) = 8" "length (drop 8 st) = 8" using assms by simp_all
  show "length (fst (four_passes st ev od)) = 16"
    using two_passes_state [OF l(1), of avg15] two_passes_state [OF l(2), of avg15] by (simp add: four_passes_def split_def Let_def)
  have "fst (four_passes st ev od) ! 12 = fst (two_passes avg15 (drop 8 st) ev od) ! 4"
    using two_passes_state [OF l(1), of avg15] by (simp add: four_passes_def split_def Let_def nth_append)
  then show "fst (four_passes st ev od) ! 12 = last (st ! 12 # od)" using two_passes_head [OF l(2), of avg15 ev od] assms by simp
qed

lemma delay_append: "take (length (us @ vs)) (x # us @ vs) = take (length us) (x # us) @ take (length vs) (last (x # us) # vs)"
proof (induction us arbitrary: x)
  case (Cons u us)
  show ?case using Cons.IH [of u] by simp
qed simp

lemma four_passes_length:
  assumes "length ev = length od"
  shows "length (snd (four_passes st ev od)) = 2 * length od"
  using assms by (simp add: four_passes_def split_def Let_def two_passes_length [where n = 1] avg15_def)

lemma four_passes_append:
  assumes "length st = 16" "length ev = length od"
  shows "four_passes st (ev @ ev') (od @ od') =
    (let (st, us) = four_passes st ev od; (st, vs) = four_passes st ev' od' in (st, us @ vs))"
proof -
  have l: "length (take 8 st) = 8" "length (drop 8 st) = 8" using assms(1) by simp_all
  define dl where "dl = take (length od) (st ! 12 # od)"
  have dl: "length dl = length ev" using assms(2) by (simp add: dl_def)
  obtain s us where s: "two_passes avg15 (take 8 st) dl ev = (s, us)" by (rule prod.exhaust)
  obtain t vs where t: "two_passes avg15 (drop 8 st) ev od = (t, vs)" by (rule prod.exhaust)
  have 1: "four_passes st ev od = (s @ t, interleave us vs)" by (simp add: four_passes_def s t flip: dl_def)
  have h: "(s @ t) ! 12 = last (st ! 12 # od)" using four_passes_state(2) [OF assms(1), of ev od] by (simp add: 1)
  have m: "length s = 8" "length t = 8" using two_passes_state [OF l(1)] two_passes_state [OF l(2)] s t by (metis fst_conv)+
  have n: "length us = length vs"
    using two_passes_length [OF dl, of avg15 1 "take 8 st"] two_passes_length [OF assms(2), of avg15 1 "drop 8 st"] assms(2) dl
    by (simp add: s t avg15_def)
  show ?thesis
    unfolding four_passes_def [of st "ev @ ev'"] delay_append two_passes_append [OF l(1) dl [unfolded dl_def]]
      two_passes_append [OF l(2) assms(2)] s [unfolded dl_def] t 1
    using m n h by (simp add: four_passes_def split_def Let_def interleave_append)
qed

lemma lowpass_filter: "block_filter (\<lambda>st xs. lowpass conv xs (length xs) st) state16 2 2"
proof
  fix st xs ys :: "int list"
  assume st: "state16 st"
  then have s: "length st = 16" by (simp add: state16_def)
  show "lowpass conv [] (length []) st = (st, [])"
    unfolding lowpass_eq [OF s] using s by (simp add: four_passes_def two_passes_Nil interleave_def)
  assume x: "2 dvd length xs"
  show "state16 (fst (lowpass conv xs (length xs) st))" by (simp add: lowpass_eq s four_passes_state(1) state16_def)
  show "2 * length (snd (lowpass conv xs (length xs) st)) = 2 * length xs"
    using x by (auto simp: lowpass_eq s four_passes_length)
  show "lowpass conv (xs @ ys) (length (xs @ ys)) st =
    (let (st, us) = lowpass conv xs (length xs) st; (st, vs) = lowpass conv ys (length ys) st in (st, us @ vs))"
    unfolding lowpass_eq [OF s] evens_halves [OF x] map_append
    by (simp add: lowpass_eq four_passes_append [OF s] four_passes_state(1) [OF s] split_def Let_def)
qed

interpretation lowpass_short: block_filter "\<lambda>st xs. WebRtcSpl_LPBy2ShortToInt xs (length xs) st" state16 2 2
  unfolding WebRtcSpl_LPBy2ShortToInt_def by (rule lowpass_filter)

interpretation lowpass_int: block_filter "\<lambda>st xs. WebRtcSpl_LPBy2IntToInt xs (length xs) st" state16 2 2
  unfolding WebRtcSpl_LPBy2IntToInt_def by (rule lowpass_filter)

section \<open>The public functions and the two bands as filters on blocks\<close>

lemma length_by2_step [simp]: "length (by2_step c second st x) = 4"
  by (simp add: by2_step_def Let_def)

lemma downsample_pair_state: "state8 (fst (downsample_pair st x))"
  by (simp add: downsample_pair_def state8_def split_def Let_def)

lemma upsample_one_state: "state8 (fst (upsample_one st x))"
  by (simp add: upsample_one_def state8_def Let_def)

lemma mealy_concat_length: "(\<And>s x. length (snd (f s x)) = n) \<Longrightarrow> length (concat (snd (mealy f s xs))) = n * length xs"
  by (induction xs arbitrary: s) (simp_all add: split_def Let_def)

interpretation downsample: block_filter "\<lambda>st xs. WebRtcSpl_DownsampleBy2 xs (length xs) st" state8 2 1
proof
  fix st xs ys :: "int list"
  assume st: "state8 st"
  show "WebRtcSpl_DownsampleBy2 [] (length []) st = (st, [])" by (simp add: WebRtcSpl_DownsampleBy2_def)
  assume x: "2 dvd length xs"
  show "state8 (fst (WebRtcSpl_DownsampleBy2 xs (length xs) st))"
    unfolding WebRtcSpl_DownsampleBy2_def using st downsample_pair_state by (intro mealy_keeps [where P = state8]) simp_all
  show "2 * length (snd (WebRtcSpl_DownsampleBy2 xs (length xs) st)) = 1 * length xs"
    using x by (auto simp: WebRtcSpl_DownsampleBy2_def)
  show "WebRtcSpl_DownsampleBy2 (xs @ ys) (length (xs @ ys)) st =
    (let (st, us) = WebRtcSpl_DownsampleBy2 xs (length xs) st; (st, vs) = WebRtcSpl_DownsampleBy2 ys (length ys) st in (st, us @ vs))"
    unfolding WebRtcSpl_DownsampleBy2_def evens_halves [OF x] by (simp add: mealy_append)
qed

interpretation upsample: block_filter "\<lambda>st xs. WebRtcSpl_UpsampleBy2 xs (length xs) st" state8 1 2
proof
  fix st xs ys :: "int list"
  assume st: "state8 st"
  show "WebRtcSpl_UpsampleBy2 [] (length []) st = (st, [])" by (simp add: WebRtcSpl_UpsampleBy2_def)
  have "state8 (fst (mealy upsample_one st xs))" by (rule mealy_keeps [where P = state8]) (simp_all add: st upsample_one_state)
  then show "state8 (fst (WebRtcSpl_UpsampleBy2 xs (length xs) st))" by (simp add: WebRtcSpl_UpsampleBy2_def split_def Let_def)
  have "length (snd (upsample_one st x)) = 2" for st x by (simp add: upsample_one_def Let_def)
  from mealy_concat_length [OF this]
  show "1 * length (snd (WebRtcSpl_UpsampleBy2 xs (length xs) st)) = 2 * length xs"
    by (simp add: WebRtcSpl_UpsampleBy2_def split_def Let_def)
  show "WebRtcSpl_UpsampleBy2 (xs @ ys) (length (xs @ ys)) st =
    (let (st, us) = WebRtcSpl_UpsampleBy2 xs (length xs) st; (st, vs) = WebRtcSpl_UpsampleBy2 ys (length ys) st in (st, us @ vs))"
    by (simp add: WebRtcSpl_UpsampleBy2_def mealy_append split_def Let_def)
qed

definition state6 :: "int list \<Rightarrow> bool" where "state6 st = (length st = 6)"

interpretation all_pass_qmf: block_filter "\<lambda>st xs. WebRtcSpl_AllPassQMF xs coefs st" state6 1 1 for coefs
proof
  fix st xs ys :: "int list"
  assume st: "state6 st"
  then obtain a b c d e f where s: "st = [a, b, c, d, e, f]"
    by (auto simp: state6_def numeral_eq_Suc length_Suc_conv)
  show "WebRtcSpl_AllPassQMF [] coefs st = (st, [])" by (simp add: WebRtcSpl_AllPassQMF_def s)
  show "state6 (fst (WebRtcSpl_AllPassQMF xs coefs st))"
    by (simp add: WebRtcSpl_AllPassQMF_def state6_def split_def Let_def)
  show "1 * length (snd (WebRtcSpl_AllPassQMF xs coefs st)) = 1 * length xs"
    by (simp add: WebRtcSpl_AllPassQMF_def split_def Let_def)
  show "WebRtcSpl_AllPassQMF (xs @ ys) coefs st =
    (let (st, us) = WebRtcSpl_AllPassQMF xs coefs st; (st, vs) = WebRtcSpl_AllPassQMF ys coefs st in (st, us @ vs))"
    by (simp add: WebRtcSpl_AllPassQMF_def mealy_append split_def Let_def)
qed

lemma length_AllPassQMF [simp]: "length (snd (WebRtcSpl_AllPassQMF xs c st)) = length xs"
  by (simp add: WebRtcSpl_AllPassQMF_def split_def Let_def)

definition both6 :: "int list \<times> int list \<Rightarrow> bool" where "both6 = both_ok state6 state6"

definition pair_bands :: "'s \<times> int list \<times> int list \<Rightarrow> 's \<times> (int \<times> int) list" where
  "pair_bands = (\<lambda>(s, low, high). (s, zip low high))"

interpretation analysis: block_filter "\<lambda>st xs. pair_bands (WebRtcSpl_AnalysisQMF xs (length xs) st)" both6 2 1
proof
  fix st and xs ys :: "int list"
  assume "both6 st"
  then obtain s t where st: "st = (s, t)" and s: "state6 s" "state6 t" by (cases st) (auto simp: both6_def both_ok_def)
  note n = all_pass_qmf.run_Nil all_pass_qmf.run_append all_pass_qmf.run_ok
  note defs = pair_bands_def WebRtcSpl_AnalysisQMF_def st split_def Let_def
  show "pair_bands (WebRtcSpl_AnalysisQMF [] (length []) st) = (st, [])" using s by (simp add: defs n)
  assume x: "2 dvd length xs"
  show "both6 (fst (pair_bands (WebRtcSpl_AnalysisQMF xs (length xs) st)))"
    using s by (simp add: defs n both6_def both_ok_def)
  show "2 * length (snd (pair_bands (WebRtcSpl_AnalysisQMF xs (length xs) st))) = 1 * length xs"
    using x s by (auto simp: defs)
  show "pair_bands (WebRtcSpl_AnalysisQMF (xs @ ys) (length (xs @ ys)) st) =
    (let (st, us) = pair_bands (WebRtcSpl_AnalysisQMF xs (length xs) st);
         (st, vs) = pair_bands (WebRtcSpl_AnalysisQMF ys (length ys) st) in (st, us @ vs))"
    using s unfolding defs evens_halves [OF x] map_append by (simp add: n split_def Let_def)
qed

interpretation synthesis:
  block_filter "\<lambda>st xs. WebRtcSpl_SynthesisQMF (map fst xs) (map snd xs) (length xs) st" both6 1 2
proof
  fix st and xs ys :: "(int \<times> int) list"
  assume "both6 st"
  then obtain s t where st: "st = (s, t)" and s: "state6 s" "state6 t" by (cases st) (auto simp: both6_def both_ok_def)
  note n = all_pass_qmf.run_Nil all_pass_qmf.run_append all_pass_qmf.run_ok
  note defs = WebRtcSpl_SynthesisQMF_def st split_def Let_def
  show "WebRtcSpl_SynthesisQMF (map fst []) (map snd []) (length []) st = (st, [])" using s by (simp add: defs n interleave_def)
  show "both6 (fst (WebRtcSpl_SynthesisQMF (map fst xs) (map snd xs) (length xs) st))"
    using s by (simp add: defs n both6_def both_ok_def)
  show "1 * length (snd (WebRtcSpl_SynthesisQMF (map fst xs) (map snd xs) (length xs) st)) = 2 * length xs"
    using s by (simp add: defs)
  show "WebRtcSpl_SynthesisQMF (map fst (xs @ ys)) (map snd (xs @ ys)) (length (xs @ ys)) st =
    (let (st, us) = WebRtcSpl_SynthesisQMF (map fst xs) (map snd xs) (length xs) st;
         (st, vs) = WebRtcSpl_SynthesisQMF (map fst ys) (map snd ys) (length ys) st in (st, us @ vs))"
    using s by (simp add: defs n interleave_append)
qed

end
