(* ===== verification/Resample_Frac.thy ===== *)
theory Resample_Frac
  imports Resample_By_2
begin

text \<open>
  The stages of the resamplers with a fractional ratio (\<^verbatim>\<open>resample_fractional.c\<close> and the end of \<^verbatim>\<open>resample.c\<close>):
  each block of \<open>p\<close> inputs gives \<open>q\<close> outputs, which are inner products of the inputs of the block and of a few
  inputs behind it with constant coefficients. The accumulators have 32 bits and wrap around.
  An input pointer is the function from an offset to the element.
\<close>

section \<open>Inner products\<close>

definition kCoefficients48To32 :: "int list list" where
  "kCoefficients48To32 = [[778, -2050, 1087, 23285, 12903, -3783, 441, 222], [222, 441, -3783, 12903, 23285, 1087, -2050, 778]]"

definition kCoefficients32To24 :: "int list list" where
  "kCoefficients32To24 = [[767, -2362, 2434, 24406, 10620, -3838, 721, 90], [386, -381, -2646, 19062, 19062, -2646, -381, 386],
     [90, 721, -3838, 10620, 24406, 2434, -2362, 767]]"

definition kCoefficients44To32 :: "int list list" where
  "kCoefficients44To32 = [[117, -669, 2245, -6183, 26267, 13529, -3245, 845, -138], [-101, 612, -2283, 8532, 29790, -5138, 1789, -524, 91],
     [50, -292, 1016, -3064, 32010, 3933, -1147, 315, -53], [-156, 974, -3863, 18603, 21691, -6246, 2353, -712, 126]]"

definition kCoefficients32To22 :: "int list list" where
  "kCoefficients32To22 = [[127, -712, 2359, -6333, 23456, 16775, -3695, 945, -154], [-39, 230, -830, 2785, 32366, -2324, 760, -218, 38],
     [117, -663, 2222, -6133, 26634, 13070, -3174, 831, -137], [-77, 457, -1677, 5958, 31175, -4136, 1405, -408, 71],
     [98, -560, 1900, -5406, 29240, 9423, -2480, 663, -110]]"

definition inner :: "int list \<Rightarrow> (nat \<Rightarrow> int) \<Rightarrow> int" where
  "inner coefs x = fold (\<lambda>i tmp. s32 (tmp + coefs ! i * x i)) [0..<length coefs] 16384"

text \<open>Two inner products, one forwards from \<open>in1\<close> and one backwards from \<open>in2\<close>.\<close>

definition WebRtcSpl_ResampDotProduct :: "(nat \<Rightarrow> int) \<Rightarrow> nat \<Rightarrow> nat \<Rightarrow> int list \<Rightarrow> int \<times> int" where
  "WebRtcSpl_ResampDotProduct In in1 in2 coef = (inner coef (\<lambda>i. In (in1 + i)), inner coef (\<lambda>i. In (in2 - i)))"

definition WebRtcSpl_DotProdIntToInt :: "(nat \<Rightarrow> int) \<Rightarrow> nat \<Rightarrow> nat \<Rightarrow> int list \<Rightarrow> int \<times> int" where
  "WebRtcSpl_DotProdIntToInt In in1 in2 coef = (inner coef (\<lambda>i. In (in1 + i)), inner coef (\<lambda>i. In (in2 - i)))"

definition WebRtcSpl_DotProdIntToShort :: "(nat \<Rightarrow> int) \<Rightarrow> nat \<Rightarrow> nat \<Rightarrow> int list \<Rightarrow> int \<times> int" where
  "WebRtcSpl_DotProdIntToShort In in1 in2 coef =
     (let tmp1 = inner coef (\<lambda>i. In (in1 + i)); tmp2 = inner coef (\<lambda>i. In (in2 - i))
      in (saturate16 (shr tmp1 15), saturate16 (shr tmp2 15)))"

section \<open>Blocks\<close>

definition block_48_32 :: "(nat \<Rightarrow> int) \<Rightarrow> int list" where
  "block_48_32 In = [inner (kCoefficients48To32 ! 0) In, inner (kCoefficients48To32 ! 1) (\<lambda>i. In (i + 1))]"

definition block_32_24 :: "(nat \<Rightarrow> int) \<Rightarrow> int list" where
  "block_32_24 In = [inner (kCoefficients32To24 ! 0) In, inner (kCoefficients32To24 ! 1) (\<lambda>i. In (i + 1)),
     inner (kCoefficients32To24 ! 2) (\<lambda>i. In (i + 2))]"

definition block_44_32 :: "(nat \<Rightarrow> int) \<Rightarrow> int list" where
  "block_44_32 In =
     (let out0 = s32 (s32 (shl (In 3) 15) + 2 ^ 14);
          out4 = inner (kCoefficients44To32 ! 3) (\<lambda>i. In (i + 5));
          (out1, out7) = WebRtcSpl_ResampDotProduct In 0 17 (kCoefficients44To32 ! 0);
          (out2, out6) = WebRtcSpl_ResampDotProduct In 2 15 (kCoefficients44To32 ! 1);
          (out3, out5) = WebRtcSpl_ResampDotProduct In 3 14 (kCoefficients44To32 ! 2)
      in [out0, out1, out2, out3, out4, out5, out6, out7])"

definition block_32_22 :: "((nat \<Rightarrow> int) \<Rightarrow> nat \<Rightarrow> nat \<Rightarrow> int list \<Rightarrow> int \<times> int) \<Rightarrow> int \<Rightarrow> (nat \<Rightarrow> int) \<Rightarrow> int list" where
  "block_32_22 product out0 In =
     (let (out1, out10) = product In 0 22 (kCoefficients32To22 ! 0);
          (out2, out9) = product In 2 20 (kCoefficients32To22 ! 1);
          (out3, out8) = product In 3 19 (kCoefficients32To22 ! 2);
          (out4, out7) = product In 5 17 (kCoefficients32To22 ! 3);
          (out5, out6) = product In 6 16 (kCoefficients32To22 ! 4)
      in [out0, out1, out2, out3, out4, out5, out6, out7, out8, out9, out10])"

definition block_32_22_int :: "(nat \<Rightarrow> int) \<Rightarrow> int list" where
  "block_32_22_int In = block_32_22 WebRtcSpl_DotProdIntToInt (s32 (s32 (shl (In 3) 15) + 2 ^ 14)) In"

definition block_32_22_short :: "(nat \<Rightarrow> int) \<Rightarrow> int list" where
  "block_32_22_short In = block_32_22 WebRtcSpl_DotProdIntToShort (saturate16 (In 3)) In"

definition blocks :: "nat \<Rightarrow> ((nat \<Rightarrow> int) \<Rightarrow> int list) \<Rightarrow> int list \<Rightarrow> nat \<Rightarrow> int list" where
  "blocks p block In K = concat (map (\<lambda>m. block (\<lambda>i. In ! (p * m + i))) [0..<K])"

definition WebRtcSpl_Resample48khzTo32khz :: "int list \<Rightarrow> nat \<Rightarrow> int list" where
  "WebRtcSpl_Resample48khzTo32khz In K = blocks 3 block_48_32 In K"

definition WebRtcSpl_Resample32khzTo24khz :: "int list \<Rightarrow> nat \<Rightarrow> int list" where
  "WebRtcSpl_Resample32khzTo24khz In K = blocks 4 block_32_24 In K"

definition WebRtcSpl_Resample44khzTo32khz :: "int list \<Rightarrow> nat \<Rightarrow> int list" where
  "WebRtcSpl_Resample44khzTo32khz In K = blocks 11 block_44_32 In K"

definition WebRtcSpl_32khzTo22khzIntToInt :: "int list \<Rightarrow> nat \<Rightarrow> int list" where
  "WebRtcSpl_32khzTo22khzIntToInt In K = blocks 16 block_32_22_int In K"

definition WebRtcSpl_32khzTo22khzIntToShort :: "int list \<Rightarrow> nat \<Rightarrow> int list" where
  "WebRtcSpl_32khzTo22khzIntToShort In K = blocks 16 block_32_22_short In K"

section \<open>Streams\<close>

text \<open>
  The callers put the last eight samples of the signal before the samples of the call, and keep the last eight
  of the call for the next one.
\<close>

definition fractional :: "(int list \<Rightarrow> nat \<Rightarrow> int list) \<Rightarrow> nat \<Rightarrow> int list \<Rightarrow> int list \<Rightarrow> int list \<times> int list" where
  "fractional resample p st xs = (take 8 (drop (length xs) (st @ xs)), resample (st @ xs) (length xs div p))"

locale polyphase =
  fixes block :: "(nat \<Rightarrow> int) \<Rightarrow> int list" and p q :: nat
  assumes block_cong: "(\<And>i. i < p + 8 \<Longrightarrow> f i = g i) \<Longrightarrow> block f = block g"
    and block_length: "length (block f) = q" and p_pos: "0 < p"
begin

lemma length_blocks: "length (blocks p block In K) = q * K"
  by (induction K) (simp_all add: blocks_def block_length)

lemma blocks_append:
  assumes "length st = 8" "length xs = p * k"
  shows "blocks p block (st @ xs @ ys) (k + l) = blocks p block (st @ xs) k @ blocks p block (drop (p * k) (st @ xs) @ ys) l"
proof -
  have 1: "map (\<lambda>m. block (\<lambda>i. (st @ xs @ ys) ! (p * m + i))) [0..<k] = map (\<lambda>m. block (\<lambda>i. (st @ xs) ! (p * m + i))) [0..<k]"
  proof (rule map_cong [OF refl], rule block_cong)
    fix m i assume m: "m \<in> set [0..<k]" and i: "i < p + 8"
    have "Suc m \<le> k" using m by simp
    then have "p * Suc m \<le> p * k" by (rule mult_le_mono2)
    then have "p * m + i < length (st @ xs)" using i assms by simp
    then show "(st @ xs @ ys) ! (p * m + i) = (st @ xs) ! (p * m + i)" by (simp add: nth_append flip: append_assoc)
  qed
  have 2: "(st @ xs @ ys) ! (p * (k + m) + i) = (drop (p * k) (st @ xs) @ ys) ! (p * m + i)" for m i
  proof -
    have "drop (p * k) (st @ xs) @ ys = drop (p * k) (st @ xs @ ys)" using assms(2) by simp
    then show ?thesis using assms(2) by (simp only:) (subst nth_drop, simp_all add: algebra_simps)
  qed
  show ?thesis unfolding blocks_def map_upt_append 1 2 concat_append ..
qed

lemma stream: "block_filter (fractional (blocks p block) p) state8 p q"
proof
  fix st xs ys :: "int list"
  assume "state8 st"
  then have st: "length st = 8" by (simp add: state8_def)
  show "fractional (blocks p block) p st [] = (st, [])" using st by (simp add: fractional_def blocks_def)
  assume "p dvd length xs"
  then obtain k where k: "length xs = p * k" by blast
  show "state8 (fst (fractional (blocks p block) p st xs))" using st by (simp add: fractional_def state8_def)
  show "p * length (snd (fractional (blocks p block) p st xs)) = q * length xs"
    using k p_pos by (simp add: fractional_def length_blocks)
  assume "p dvd length ys"
  then obtain l where l: "length ys = p * l" by blast
  have 1: "take 8 (drop (length xs) (st @ xs)) = drop (p * k) (st @ xs)" using st k by simp
  have "drop (p * k) (st @ xs) @ ys = drop (p * k) (st @ xs @ ys)" using k by simp
  then have 2: "drop (length ys) (drop (p * k) (st @ xs) @ ys) = drop (length (xs @ ys)) (st @ xs @ ys)"
    by (simp only: drop_drop length_append k add.commute)
  have d: "length (xs @ ys) div p = k + l" "length xs div p = k" "length ys div p = l"
    using k l p_pos by (simp_all flip: distrib_left)
  show "fractional (blocks p block) p st (xs @ ys) =
    (let (st, us) = fractional (blocks p block) p st xs; (st, vs) = fractional (blocks p block) p st ys in (st, us @ vs))"
    unfolding fractional_def d 1 Let_def prod.case 2 blocks_append [OF st k] ..
qed

end

text \<open>A block looks only at itself and the eight samples behind it.\<close>

lemma inner_cong: "(\<And>i. i < length coefs \<Longrightarrow> f i = g i) \<Longrightarrow> inner coefs f = inner coefs g"
  unfolding inner_def by (rule fold_cong) simp_all

interpretation r_48_32: polyphase block_48_32 3 2
  by unfold_locales (auto simp: block_48_32_def kCoefficients48To32_def intro!: inner_cong)

interpretation r_32_24: polyphase block_32_24 4 3
  by unfold_locales (auto simp: block_32_24_def kCoefficients32To24_def intro!: inner_cong)

lemma product_cong:
  assumes "\<And>i. i < n \<Longrightarrow> f i = g i" "in1 + length coef \<le> n" "in2 < n"
  shows "WebRtcSpl_ResampDotProduct f in1 in2 coef = WebRtcSpl_ResampDotProduct g in1 in2 coef"
    "WebRtcSpl_DotProdIntToInt f in1 in2 coef = WebRtcSpl_DotProdIntToInt g in1 in2 coef"
    "WebRtcSpl_DotProdIntToShort f in1 in2 coef = WebRtcSpl_DotProdIntToShort g in1 in2 coef"
proof -
  have "inner coef (\<lambda>i. f (in1 + i)) = inner coef (\<lambda>i. g (in1 + i))" "inner coef (\<lambda>i. f (in2 - i)) = inner coef (\<lambda>i. g (in2 - i))"
    using assms by (auto intro!: inner_cong)
  then show "WebRtcSpl_ResampDotProduct f in1 in2 coef = WebRtcSpl_ResampDotProduct g in1 in2 coef"
    "WebRtcSpl_DotProdIntToInt f in1 in2 coef = WebRtcSpl_DotProdIntToInt g in1 in2 coef"
    "WebRtcSpl_DotProdIntToShort f in1 in2 coef = WebRtcSpl_DotProdIntToShort g in1 in2 coef"
    by (simp_all add: WebRtcSpl_ResampDotProduct_def WebRtcSpl_DotProdIntToInt_def WebRtcSpl_DotProdIntToShort_def)
qed

lemma kCoefficients_length:
  "length (kCoefficients44To32 ! 0) = 9" "length (kCoefficients44To32 ! 1) = 9" "length (kCoefficients44To32 ! 2) = 9"
  "length (kCoefficients44To32 ! 3) = 9"
  "length (kCoefficients32To22 ! 0) = 9" "length (kCoefficients32To22 ! 1) = 9" "length (kCoefficients32To22 ! 2) = 9"
  "length (kCoefficients32To22 ! 3) = 9" "length (kCoefficients32To22 ! 4) = 9"
  by (simp_all add: kCoefficients44To32_def kCoefficients32To22_def)

lemma block_44_32_cong:
  assumes "\<And>i. i < 19 \<Longrightarrow> f i = g i"
  shows "block_44_32 f = block_44_32 g"
proof -
  note p = product_cong(1) [of 19 f g, OF assms]
  have "inner (kCoefficients44To32 ! 3) (\<lambda>i. f (i + 5)) = inner (kCoefficients44To32 ! 3) (\<lambda>i. g (i + 5))"
    by (rule inner_cong) (simp add: kCoefficients_length assms)
  then show ?thesis
    unfolding block_44_32_def using assms [of 3] p [of 0 "kCoefficients44To32 ! 0" 17] p [of 2 "kCoefficients44To32 ! 1" 15]
      p [of 3 "kCoefficients44To32 ! 2" 14] by (simp add: kCoefficients_length kCoefficients_length [unfolded One_nat_def])
qed

interpretation r_44_32: polyphase block_44_32 11 8
  by unfold_locales (rule block_44_32_cong, simp, simp_all add: block_44_32_def Let_def split_def)

lemma block_32_22_cong:
  assumes "\<And>i. i < 24 \<Longrightarrow> f i = g i"
  shows "block_32_22_int f = block_32_22_int g" "block_32_22_short f = block_32_22_short g"
proof -
  have "WebRtcSpl_DotProdIntToInt f a b (kCoefficients32To22 ! k) = WebRtcSpl_DotProdIntToInt g a b (kCoefficients32To22 ! k)"
    "WebRtcSpl_DotProdIntToShort f a b (kCoefficients32To22 ! k) = WebRtcSpl_DotProdIntToShort g a b (kCoefficients32To22 ! k)"
    if "a < 10" "b < 24" "k < 5" for a b k
  proof -
    have "length (kCoefficients32To22 ! k) = 9" using that(3) by (auto simp: less_Suc_eq numeral_eq_Suc kCoefficients32To22_def)
    then show "WebRtcSpl_DotProdIntToInt f a b (kCoefficients32To22 ! k) = WebRtcSpl_DotProdIntToInt g a b (kCoefficients32To22 ! k)"
      "WebRtcSpl_DotProdIntToShort f a b (kCoefficients32To22 ! k) = WebRtcSpl_DotProdIntToShort g a b (kCoefficients32To22 ! k)"
      using product_cong(2,3) [of 24 f g, OF assms] that by simp_all
  qed
  then show "block_32_22_int f = block_32_22_int g" "block_32_22_short f = block_32_22_short g"
    unfolding block_32_22_int_def block_32_22_short_def block_32_22_def using assms [of 3] by simp_all
qed

interpretation r_32_22: polyphase block_32_22_int 16 11
  by unfold_locales (rule block_32_22_cong(1), simp, simp_all add: block_32_22_int_def block_32_22_def Let_def split_def)

interpretation r_32_22_short: polyphase block_32_22_short 16 11
  by unfold_locales (rule block_32_22_cong(2), simp, simp_all add: block_32_22_short_def block_32_22_def Let_def split_def)

text \<open>The five resampling functions as filters on blocks.\<close>

lemma resampling_blocks:
  "WebRtcSpl_Resample48khzTo32khz = blocks 3 block_48_32" "WebRtcSpl_Resample32khzTo24khz = blocks 4 block_32_24"
  "WebRtcSpl_Resample44khzTo32khz = blocks 11 block_44_32" "WebRtcSpl_32khzTo22khzIntToInt = blocks 16 block_32_22_int"
  "WebRtcSpl_32khzTo22khzIntToShort = blocks 16 block_32_22_short"
  by (simp_all add: fun_eq_iff WebRtcSpl_Resample48khzTo32khz_def WebRtcSpl_Resample32khzTo24khz_def
      WebRtcSpl_Resample44khzTo32khz_def WebRtcSpl_32khzTo22khzIntToInt_def WebRtcSpl_32khzTo22khzIntToShort_def)

interpretation stage_48_32: block_filter "fractional WebRtcSpl_Resample48khzTo32khz 3" state8 3 2
  unfolding resampling_blocks by (rule r_48_32.stream)

interpretation stage_32_24: block_filter "fractional WebRtcSpl_Resample32khzTo24khz 4" state8 4 3
  unfolding resampling_blocks by (rule r_32_24.stream)

interpretation stage_44_32: block_filter "fractional WebRtcSpl_Resample44khzTo32khz 11" state8 11 8
  unfolding resampling_blocks by (rule r_44_32.stream)

interpretation stage_32_22: block_filter "fractional WebRtcSpl_32khzTo22khzIntToInt 16" state8 16 11
  unfolding resampling_blocks by (rule r_32_22.stream)

interpretation stage_32_22_short: block_filter "fractional WebRtcSpl_32khzTo22khzIntToShort 16" state8 16 11
  unfolding resampling_blocks by (rule r_32_22_short.stream)

end
