(* ===== verification/Resamplers.thy ===== *)
theory Resamplers
  imports Resample_Frac
begin

text \<open>
  The resamplers of 10 ms frames between 48 kHz or 22 kHz and 16 kHz or 8 kHz: \<^verbatim>\<open>resample_48khz.c\<close> and the
  public functions of \<^verbatim>\<open>resample.c\<close>. The scratch array \<open>tmpmem\<close> of the callers holds the intermediate signals; they
  are values here. Where a stage works in place in it, each element is overwritten only after its last use.
  The functions for 22 kHz cut the frame in blocks to need less of that array; the number of blocks is the
  argument \<open>n\<close>, and the function of the source takes it from its macro.
\<close>

section \<open>48 kHz\<close>

record State48khzTo16khz = S_48_48 :: "int list" S_48_32 :: "int list" S_32_16 :: "int list"
record State16khzTo48khz = S_16_32 :: "int list" S_32_24 :: "int list" S_24_48 :: "int list"
record State48khzTo8khz = S_48_24 :: "int list" S_24_24 :: "int list" S_24_16 :: "int list" S_16_8 :: "int list"
record State8khzTo48khz = S_8_16 :: "int list" S_16_12 :: "int list" S_12_24 :: "int list" S_24_48' :: "int list"

text \<open>The eight samples before those in \<open>tmp\<close>, and the last eight of both.\<close>

definition behind :: "int list \<Rightarrow> int list \<Rightarrow> int list" where "behind st tmp = st @ tmp"
definition last8 :: "nat \<Rightarrow> int list \<Rightarrow> int list" where "last8 n In = take 8 (drop n In)"

definition WebRtcSpl_Resample48khzTo16khz :: "State48khzTo16khz \<Rightarrow> int list \<Rightarrow> State48khzTo16khz \<times> int list" where
  "WebRtcSpl_Resample48khzTo16khz state xs =
     (let (s1, tmp) = WebRtcSpl_LPBy2ShortToInt xs 480 (S_48_48 state);
          In = behind (S_48_32 state) tmp;
          tmp = WebRtcSpl_Resample48khzTo32khz In 160;
          (s3, out) = WebRtcSpl_DownBy2IntToShort tmp 320 (S_32_16 state)
      in (\<lparr>S_48_48 = s1, S_48_32 = last8 480 In, S_32_16 = s3\<rparr>, out))"

definition WebRtcSpl_ResetResample48khzTo16khz :: State48khzTo16khz where
  "WebRtcSpl_ResetResample48khzTo16khz = \<lparr>S_48_48 = replicate 16 0, S_48_32 = replicate 8 0, S_32_16 = replicate 8 0\<rparr>"

definition WebRtcSpl_Resample16khzTo48khz :: "State16khzTo48khz \<Rightarrow> int list \<Rightarrow> State16khzTo48khz \<times> int list" where
  "WebRtcSpl_Resample16khzTo48khz state xs =
     (let (s1, tmp) = WebRtcSpl_UpBy2ShortToInt xs 160 (S_16_32 state);
          In = behind (S_32_24 state) tmp;
          tmp = WebRtcSpl_Resample32khzTo24khz In 80;
          (s3, out) = WebRtcSpl_UpBy2IntToShort tmp 240 (S_24_48 state)
      in (\<lparr>S_16_32 = s1, S_32_24 = last8 320 In, S_24_48 = s3\<rparr>, out))"

definition WebRtcSpl_ResetResample16khzTo48khz :: State16khzTo48khz where
  "WebRtcSpl_ResetResample16khzTo48khz = \<lparr>S_16_32 = replicate 8 0, S_32_24 = replicate 8 0, S_24_48 = replicate 8 0\<rparr>"

definition WebRtcSpl_Resample48khzTo8khz :: "State48khzTo8khz \<Rightarrow> int list \<Rightarrow> State48khzTo8khz \<times> int list" where
  "WebRtcSpl_Resample48khzTo8khz state xs =
     (let (s1, tmp) = WebRtcSpl_DownBy2ShortToInt xs 480 (S_48_24 state);
          (s2, tmp) = WebRtcSpl_LPBy2IntToInt tmp 240 (S_24_24 state);
          In = behind (S_24_16 state) tmp;
          tmp = WebRtcSpl_Resample48khzTo32khz In 80;
          (s4, out) = WebRtcSpl_DownBy2IntToShort tmp 160 (S_16_8 state)
      in (\<lparr>S_48_24 = s1, S_24_24 = s2, S_24_16 = last8 240 In, S_16_8 = s4\<rparr>, out))"

definition WebRtcSpl_ResetResample48khzTo8khz :: State48khzTo8khz where
  "WebRtcSpl_ResetResample48khzTo8khz =
     \<lparr>S_48_24 = replicate 8 0, S_24_24 = replicate 16 0, S_24_16 = replicate 8 0, S_16_8 = replicate 8 0\<rparr>"

definition WebRtcSpl_Resample8khzTo48khz :: "State8khzTo48khz \<Rightarrow> int list \<Rightarrow> State8khzTo48khz \<times> int list" where
  "WebRtcSpl_Resample8khzTo48khz state xs =
     (let (s1, tmp) = WebRtcSpl_UpBy2ShortToInt xs 80 (S_8_16 state);
          In = behind (S_16_12 state) tmp;
          tmp = WebRtcSpl_Resample32khzTo24khz In 40;
          (s3, tmp) = WebRtcSpl_UpBy2IntToInt tmp 120 (S_12_24 state);
          (s4, out) = WebRtcSpl_UpBy2IntToShort tmp 240 (S_24_48' state)
      in (\<lparr>S_8_16 = s1, S_16_12 = last8 160 In, S_12_24 = s3, S_24_48' = s4\<rparr>, out))"

definition WebRtcSpl_ResetResample8khzTo48khz :: State8khzTo48khz where
  "WebRtcSpl_ResetResample8khzTo48khz =
     \<lparr>S_8_16 = replicate 8 0, S_16_12 = replicate 8 0, S_12_24 = replicate 8 0, S_24_48' = replicate 8 0\<rparr>"

section \<open>22 kHz\<close>

record State22khzTo16khz = S_22_44 :: "int list" S_44_32 :: "int list" T_32_16 :: "int list"
record State16khzTo22khz = T_16_32 :: "int list" S_32_22 :: "int list"
record State22khzTo8khz = S_22_22 :: "int list" S_22_16 :: "int list" T_16_8 :: "int list"
record State8khzTo22khz = T_8_16 :: "int list" S_16_11 :: "int list" S_11_22 :: "int list"

text \<open>The loop over the blocks of \<open>m\<close> samples of a frame: a step gets the input from where the pointer is.\<close>

definition sub_blocks :: "('s \<Rightarrow> int list \<Rightarrow> 's \<times> int list) \<Rightarrow> nat \<Rightarrow> nat \<Rightarrow> 's \<Rightarrow> int list \<Rightarrow> 's \<times> int list" where
  "sub_blocks step n m state xs =
     (let (state, outs) = mealy (\<lambda>st k. step st (drop (m * k) xs)) state [0..<n] in (state, concat outs))"

definition SUB_BLOCKS_22_16 :: nat where "SUB_BLOCKS_22_16 = 5"
definition SUB_BLOCKS_16_22 :: nat where "SUB_BLOCKS_16_22 = 4"
definition SUB_BLOCKS_22_8 :: nat where "SUB_BLOCKS_22_8 = 2"
definition SUB_BLOCKS_8_22 :: nat where "SUB_BLOCKS_8_22 = 2"

definition step_22_16 :: "nat \<Rightarrow> State22khzTo16khz \<Rightarrow> int list \<Rightarrow> State22khzTo16khz \<times> int list" where
  "step_22_16 n state xs =
     (let (s1, tmp) = WebRtcSpl_UpBy2ShortToInt xs (220 div n) (S_22_44 state);
          In = behind (S_44_32 state) tmp;
          tmp = WebRtcSpl_Resample44khzTo32khz In (40 div n);
          (s3, out) = WebRtcSpl_DownBy2IntToShort tmp (320 div n) (T_32_16 state)
      in (\<lparr>S_22_44 = s1, S_44_32 = last8 (440 div n) In, T_32_16 = s3\<rparr>, out))"

definition WebRtcSpl_Resample22khzTo16khz :: "nat \<Rightarrow> State22khzTo16khz \<Rightarrow> int list \<Rightarrow> State22khzTo16khz \<times> int list" where
  "WebRtcSpl_Resample22khzTo16khz n = sub_blocks (step_22_16 n) n (220 div n)"

definition WebRtcSpl_ResetResample22khzTo16khz :: State22khzTo16khz where
  "WebRtcSpl_ResetResample22khzTo16khz = \<lparr>S_22_44 = replicate 8 0, S_44_32 = replicate 8 0, T_32_16 = replicate 8 0\<rparr>"

definition step_16_22 :: "nat \<Rightarrow> State16khzTo22khz \<Rightarrow> int list \<Rightarrow> State16khzTo22khz \<times> int list" where
  "step_16_22 n state xs =
     (let (s1, tmp) = WebRtcSpl_UpBy2ShortToInt xs (160 div n) (T_16_32 state);
          In = behind (S_32_22 state) tmp;
          out = WebRtcSpl_32khzTo22khzIntToShort In (20 div n)
      in (\<lparr>T_16_32 = s1, S_32_22 = last8 (320 div n) In\<rparr>, out))"

definition WebRtcSpl_Resample16khzTo22khz :: "nat \<Rightarrow> State16khzTo22khz \<Rightarrow> int list \<Rightarrow> State16khzTo22khz \<times> int list" where
  "WebRtcSpl_Resample16khzTo22khz n = sub_blocks (step_16_22 n) n (160 div n)"

definition WebRtcSpl_ResetResample16khzTo22khz :: State16khzTo22khz where
  "WebRtcSpl_ResetResample16khzTo22khz = \<lparr>T_16_32 = replicate 8 0, S_32_22 = replicate 8 0\<rparr>"

definition step_22_8 :: "nat \<Rightarrow> State22khzTo8khz \<Rightarrow> int list \<Rightarrow> State22khzTo8khz \<times> int list" where
  "step_22_8 n state xs =
     (let (s1, tmp) = WebRtcSpl_LPBy2ShortToInt xs (220 div n) (S_22_22 state);
          In = behind (S_22_16 state) tmp;
          tmp = WebRtcSpl_Resample44khzTo32khz In (20 div n);
          (s3, out) = WebRtcSpl_DownBy2IntToShort tmp (160 div n) (T_16_8 state)
      in (\<lparr>S_22_22 = s1, S_22_16 = last8 (220 div n) In, T_16_8 = s3\<rparr>, out))"

definition WebRtcSpl_Resample22khzTo8khz :: "nat \<Rightarrow> State22khzTo8khz \<Rightarrow> int list \<Rightarrow> State22khzTo8khz \<times> int list" where
  "WebRtcSpl_Resample22khzTo8khz n = sub_blocks (step_22_8 n) n (220 div n)"

definition WebRtcSpl_ResetResample22khzTo8khz :: State22khzTo8khz where
  "WebRtcSpl_ResetResample22khzTo8khz = \<lparr>S_22_22 = replicate 16 0, S_22_16 = replicate 8 0, T_16_8 = replicate 8 0\<rparr>"

definition step_8_22 :: "nat \<Rightarrow> State8khzTo22khz \<Rightarrow> int list \<Rightarrow> State8khzTo22khz \<times> int list" where
  "step_8_22 n state xs =
     (let (s1, tmp) = WebRtcSpl_UpBy2ShortToInt xs (80 div n) (T_8_16 state);
          In = behind (S_16_11 state) tmp;
          tmp = WebRtcSpl_32khzTo22khzIntToInt In (10 div n);
          (s3, out) = WebRtcSpl_UpBy2IntToShort tmp (110 div n) (S_11_22 state)
      in (\<lparr>T_8_16 = s1, S_16_11 = last8 (160 div n) In, S_11_22 = s3\<rparr>, out))"

definition WebRtcSpl_Resample8khzTo22khz :: "nat \<Rightarrow> State8khzTo22khz \<Rightarrow> int list \<Rightarrow> State8khzTo22khz \<times> int list" where
  "WebRtcSpl_Resample8khzTo22khz n = sub_blocks (step_8_22 n) n (80 div n)"

definition WebRtcSpl_ResetResample8khzTo22khz :: State8khzTo22khz where
  "WebRtcSpl_ResetResample8khzTo22khz = \<lparr>T_8_16 = replicate 8 0, S_16_11 = replicate 8 0, S_11_22 = replicate 8 0\<rparr>"

section \<open>The stages on a whole signal\<close>

abbreviation lp_short where "lp_short \<equiv> \<lambda>st xs. WebRtcSpl_LPBy2ShortToInt xs (length xs) st"
abbreviation lp_int where "lp_int \<equiv> \<lambda>st xs. WebRtcSpl_LPBy2IntToInt xs (length xs) st"
abbreviation dn_short where "dn_short \<equiv> \<lambda>st xs. WebRtcSpl_DownBy2ShortToInt xs (length xs) st"
abbreviation dn_int where "dn_int \<equiv> \<lambda>st xs. WebRtcSpl_DownBy2IntToShort xs (length xs) st"
abbreviation dbl_short where "dbl_short \<equiv> \<lambda>st xs. WebRtcSpl_UpBy2ShortToInt xs (length xs) st"
abbreviation dbl_int where "dbl_int \<equiv> \<lambda>st xs. WebRtcSpl_UpBy2IntToInt xs (length xs) st"
abbreviation dbl_int_short where "dbl_int_short \<equiv> \<lambda>st xs. WebRtcSpl_UpBy2IntToShort xs (length xs) st"

definition filter_48_16 where
  "filter_48_16 = chain (chain lp_short (fractional WebRtcSpl_Resample48khzTo32khz 3)) dn_int"

definition filter_16_48 where
  "filter_16_48 = chain (chain dbl_short (fractional WebRtcSpl_Resample32khzTo24khz 4)) dbl_int_short"

definition filter_48_8 where
  "filter_48_8 = chain (chain (chain dn_short lp_int) (fractional WebRtcSpl_Resample48khzTo32khz 3)) dn_int"

definition filter_8_48 where
  "filter_8_48 = chain (chain (chain dbl_short (fractional WebRtcSpl_Resample32khzTo24khz 4)) dbl_int) dbl_int_short"

definition filter_22_16 where
  "filter_22_16 = chain (chain dbl_short (fractional WebRtcSpl_Resample44khzTo32khz 11)) dn_int"

definition filter_16_22 where
  "filter_16_22 = chain dbl_short (fractional WebRtcSpl_32khzTo22khzIntToShort 16)"

definition filter_22_8 where
  "filter_22_8 = chain (chain lp_short (fractional WebRtcSpl_Resample44khzTo32khz 11)) dn_int"

definition filter_8_22 where
  "filter_8_22 = chain (chain dbl_short (fractional WebRtcSpl_32khzTo22khzIntToInt 16)) dbl_int_short"

abbreviation ok_16_8_8 where "ok_16_8_8 \<equiv> both_ok (both_ok state16 state8) state8"
abbreviation ok_8_8 where "ok_8_8 \<equiv> both_ok state8 state8"
abbreviation ok_8_8_8 where "ok_8_8_8 \<equiv> both_ok ok_8_8 state8"
abbreviation ok_8_16_8_8 where "ok_8_16_8_8 \<equiv> both_ok (both_ok (both_ok state8 state16) state8) state8"
abbreviation ok_8_8_8_8 where "ok_8_8_8_8 \<equiv> both_ok ok_8_8_8 state8"

lemmas unit_simps = arith_simps rel_simps mult_1_right simp_thms triv_forall_equality

interpretation f_48_16: block_filter filter_48_16 ok_16_8_8 12 4
  unfolding filter_48_16_def
  using chain_filter [OF chain_filter [OF lowpass_short.rescaled [of 6, simplified unit_simps] stage_48_32.rescaled [of 4, simplified unit_simps]] down_int.rescaled [of 2, simplified unit_simps]] by simp

interpretation f_16_48: block_filter filter_16_48 ok_8_8_8 2 6
  unfolding filter_16_48_def
  using chain_filter [OF chain_filter [OF up_short.rescaled [of 2, simplified unit_simps] stage_32_24.block_filter_axioms] up_int_short.rescaled [of 3, simplified unit_simps]] by simp

interpretation f_48_8: block_filter filter_48_8 ok_8_16_8_8 24 4
  unfolding filter_48_8_def
  using chain_filter [OF chain_filter [OF chain_filter [OF down_short.rescaled [of 12, simplified unit_simps] lowpass_int.rescaled [of 6, simplified unit_simps]]
        stage_48_32.rescaled [of 4, simplified unit_simps]] down_int.rescaled [of 2, simplified unit_simps]] by simp

interpretation f_8_48: block_filter filter_8_48 ok_8_8_8_8 2 12
  unfolding filter_8_48_def
  using chain_filter [OF chain_filter [OF chain_filter [OF up_short.rescaled [of 2, simplified unit_simps] stage_32_24.block_filter_axioms] up_int.rescaled [of 3, simplified unit_simps]]
        up_int_short.rescaled [of 6, simplified unit_simps]] by simp

interpretation f_22_16: block_filter filter_22_16 ok_8_8_8 11 8
  unfolding filter_22_16_def
  using chain_filter [OF chain_filter [OF up_short.rescaled [of 11, simplified unit_simps] stage_44_32.rescaled [of 2, simplified unit_simps]] down_int.rescaled [of 4, simplified unit_simps]] by simp

interpretation f_16_22: block_filter filter_16_22 ok_8_8 8 11
  unfolding filter_16_22_def using chain_filter [OF up_short.rescaled [of 8, simplified unit_simps] stage_32_22_short.block_filter_axioms] by simp

interpretation f_22_8: block_filter filter_22_8 ok_16_8_8 22 8
  unfolding filter_22_8_def
  using chain_filter [OF chain_filter [OF lowpass_short.rescaled [of 11, simplified unit_simps] stage_44_32.rescaled [of 2, simplified unit_simps]] down_int.rescaled [of 4, simplified unit_simps]] by simp

interpretation f_8_22: block_filter filter_8_22 ok_8_8_8 8 22
  unfolding filter_8_22_def
  using chain_filter [OF chain_filter [OF up_short.rescaled [of 8, simplified unit_simps] stage_32_22.block_filter_axioms] up_int_short.rescaled [of 11, simplified unit_simps]] by simp

text \<open>The resamplers compute what the stages compute, each on a frame. A view has the states of the stages.\<close>

definition view_48_16 where "view_48_16 st = ((S_48_48 st, S_48_32 st), S_32_16 st)"
definition view_16_48 where "view_16_48 st = ((S_16_32 st, S_32_24 st), S_24_48 st)"
definition view_48_8 where "view_48_8 st = (((S_48_24 st, S_24_24 st), S_24_16 st), S_16_8 st)"
definition view_8_48 where "view_8_48 st = (((S_8_16 st, S_16_12 st), S_12_24 st), S_24_48' st)"
definition view_22_16 where "view_22_16 st = ((S_22_44 st, S_44_32 st), T_32_16 st)"
definition view_16_22 where "view_16_22 st = (T_16_32 st, S_32_22 st)"
definition view_22_8 where "view_22_8 st = ((S_22_22 st, S_22_16 st), T_16_8 st)"
definition view_8_22 where "view_8_22 st = ((T_8_16 st, S_16_11 st), S_11_22 st)"

lemma stage_lengths [simp]:
  "length st = 8 \<Longrightarrow> length (snd (WebRtcSpl_UpBy2ShortToInt xs len st)) = 2 * min (length xs) len"
  "length st = 8 \<Longrightarrow> length (snd (WebRtcSpl_UpBy2IntToInt xs len st)) = 2 * min (length xs) len"
  "length st = 8 \<Longrightarrow> length (snd (WebRtcSpl_UpBy2IntToShort xs len st)) = 2 * min (length xs) len"
  "length st = 8 \<Longrightarrow> length (snd (WebRtcSpl_DownBy2ShortToInt xs len st)) = len div 2"
  "length st = 8 \<Longrightarrow> 4 dvd len \<Longrightarrow> length (snd (WebRtcSpl_DownBy2IntToShort xs len st)) = len div 2"
  "length st = 16 \<Longrightarrow> length (snd (WebRtcSpl_LPBy2ShortToInt xs len st)) = 2 * (len div 2)"
  "length st = 16 \<Longrightarrow> length (snd (WebRtcSpl_LPBy2IntToInt xs len st)) = 2 * (len div 2)"
  by (simp_all add: by_2_eqs two_passes_length [where n = 2] two_passes_length [where n = 1] min.commute
      WebRtcSpl_LPBy2ShortToInt_def WebRtcSpl_LPBy2IntToInt_def lowpass_eq four_passes_length)

lemma fractional_lengths [simp]:
  "length (WebRtcSpl_Resample48khzTo32khz In K) = 2 * K" "length (WebRtcSpl_Resample32khzTo24khz In K) = 3 * K"
  "length (WebRtcSpl_Resample44khzTo32khz In K) = 8 * K" "length (WebRtcSpl_32khzTo22khzIntToInt In K) = 11 * K"
  "length (WebRtcSpl_32khzTo22khzIntToShort In K) = 11 * K"
  by (simp_all add: resampling_blocks r_48_32.length_blocks r_32_24.length_blocks r_44_32.length_blocks
      r_32_22.length_blocks r_32_22_short.length_blocks)

lemmas stage_defs = chain_def fractional_def behind_def last8_def both_ok_def state8_def state16_def split_def Let_def

lemma frame_48_16:
  assumes "ok_16_8_8 (view_48_16 st)" "length xs = 480"
  shows "filter_48_16 (view_48_16 st) xs =
    (view_48_16 (fst (WebRtcSpl_Resample48khzTo16khz st xs)), snd (WebRtcSpl_Resample48khzTo16khz st xs))"
  using assms by (simp add: view_48_16_def filter_48_16_def WebRtcSpl_Resample48khzTo16khz_def stage_defs)

lemma frame_16_48:
  assumes "ok_8_8_8 (view_16_48 st)" "length xs = 160"
  shows "filter_16_48 (view_16_48 st) xs =
    (view_16_48 (fst (WebRtcSpl_Resample16khzTo48khz st xs)), snd (WebRtcSpl_Resample16khzTo48khz st xs))"
  using assms by (simp add: view_16_48_def filter_16_48_def WebRtcSpl_Resample16khzTo48khz_def stage_defs)

lemma frame_48_8:
  assumes "ok_8_16_8_8 (view_48_8 st)" "length xs = 480"
  shows "filter_48_8 (view_48_8 st) xs =
    (view_48_8 (fst (WebRtcSpl_Resample48khzTo8khz st xs)), snd (WebRtcSpl_Resample48khzTo8khz st xs))"
  using assms by (simp add: view_48_8_def filter_48_8_def WebRtcSpl_Resample48khzTo8khz_def stage_defs)

lemma frame_8_48:
  assumes "ok_8_8_8_8 (view_8_48 st)" "length xs = 80"
  shows "filter_8_48 (view_8_48 st) xs =
    (view_8_48 (fst (WebRtcSpl_Resample8khzTo48khz st xs)), snd (WebRtcSpl_Resample8khzTo48khz st xs))"
  using assms by (simp add: view_8_48_def filter_8_48_def WebRtcSpl_Resample8khzTo48khz_def stage_defs)

text \<open>The functions read as many samples as they are told, from the front of a longer signal.\<close>

lemma take_input:
  "WebRtcSpl_UpBy2ShortToInt (take len xs) len st = WebRtcSpl_UpBy2ShortToInt xs len st"
  by (simp add: WebRtcSpl_UpBy2ShortToInt_def)

lemma take_evens: "evens (take len xs) (len div 2) = evens xs (len div 2)" "odds (take len xs) (len div 2) = odds xs (len div 2)"
  by (simp_all add: evens_def odds_def)

lemma take_input_lowpass:
  "WebRtcSpl_LPBy2ShortToInt (take len xs) len st = WebRtcSpl_LPBy2ShortToInt xs len st"
  by (simp add: WebRtcSpl_LPBy2ShortToInt_def lowpass_def take_evens)

section \<open>Blocks of a frame\<close>

lemma mealy_map: "mealy f s (map g xs) = mealy (\<lambda>s x. f s (g x)) s xs"
  by (induction xs arbitrary: s) (simp_all add: split_def Let_def)

lemma concat_slices: "length xs = n * m \<Longrightarrow> concat (map (\<lambda>k. take m (drop (m * k) xs)) [0..<n]) = xs"
proof (induction n arbitrary: xs)
  case (Suc n)
  have "length (take (n * m) xs) = n * m" using Suc.prems by simp
  note ih = Suc.IH [OF this]
  have 1: "map (\<lambda>k. take m (drop (m * k) xs)) [0..<n] = map (\<lambda>k. take m (drop (m * k) (take (n * m) xs))) [0..<n]"
  proof (rule map_cong [OF refl])
    fix k assume "k \<in> set [0..<n]"
    then have "Suc k * m \<le> n * m" by (intro mult_le_mono1) simp
    then have "m \<le> n * m - m * k" by (simp add: algebra_simps)
    then show "take m (drop (m * k) xs) = take m (drop (m * k) (take (n * m) xs))" by (simp add: drop_take min_def)
  qed
  have "take m (drop (m * n) xs) = drop (n * m) xs" using Suc.prems by (simp add: mult.commute)
  then show ?case using ih unfolding 1 [symmetric] by (simp add: append_take_drop_id)
qed simp

lemma sub_blocks_eq:
  assumes bf: "block_filter run ok u v" and "u dvd m" and "0 < n"
    and sim: "\<And>s x. ok (view s) \<Longrightarrow> length x = m \<Longrightarrow> run (view s) x = (view (fst (step s x)), snd (step s x))"
    and take: "\<And>s x. step s (take m x) = step s x"
    and ok: "ok (view s)" and len: "length xs = n * m"
  shows "run (view s) xs = (view (fst (sub_blocks step n m s xs)), snd (sub_blocks step n m s xs))"
proof -
  let ?frames = "map (\<lambda>k. take m (drop (m * k) xs)) [0..<n]"
  have frames: "\<forall>x \<in> set ?frames. length x = m"
  proof
    fix x assume "x \<in> set ?frames"
    then obtain k where k: "k < n" and x: "x = take m (drop (m * k) xs)" by auto
    have "Suc k * m \<le> n * m" using k by (intro mult_le_mono1) simp
    then show "length x = m" using len by (simp add: x algebra_simps)
  qed
  have "mealy step s ?frames = mealy (\<lambda>st k. step st (drop (m * k) xs)) s [0..<n]"
    unfolding mealy_map take ..
  then show ?thesis
    using block_filter.run_frames(1) [OF bf, of view m step s ?frames, OF sim ok frames assms(2)] concat_slices [OF len]
    by (simp add: sub_blocks_def split_def Let_def)
qed

text \<open>The numbers of blocks that the comments of the source allow.\<close>

definition options5 :: "nat list" where "options5 = [1, 2, 4, 5, 10]"
definition options4 :: "nat list" where "options4 = [1, 2, 5, 10]"

lemmas block_defs = options5_def options4_def WebRtcSpl_Resample22khzTo16khz_def WebRtcSpl_Resample16khzTo22khz_def
  WebRtcSpl_Resample22khzTo8khz_def WebRtcSpl_Resample8khzTo22khz_def

lemma frame_22_16:
  assumes "n \<in> set options5" "ok_8_8_8 (view_22_16 st)" "length xs = 220"
  shows "filter_22_16 (view_22_16 st) xs =
    (view_22_16 (fst (WebRtcSpl_Resample22khzTo16khz n st xs)), snd (WebRtcSpl_Resample22khzTo16khz n st xs))"
  unfolding WebRtcSpl_Resample22khzTo16khz_def
proof (rule sub_blocks_eq [OF f_22_16.block_filter_axioms])
  show "11 dvd 220 div n" "0 < n" "length xs = n * (220 div n)" using assms(1,3) by (auto simp: options5_def)
  fix s x
  show "step_22_16 n s (take (220 div n) x) = step_22_16 n s x" by (simp add: step_22_16_def take_input)
  assume "ok_8_8_8 (view_22_16 s)" "length x = 220 div n"
  then show "filter_22_16 (view_22_16 s) x = (view_22_16 (fst (step_22_16 n s x)), snd (step_22_16 n s x))"
    using assms(1) by (auto simp: options5_def view_22_16_def filter_22_16_def step_22_16_def stage_defs)
qed (rule assms)

lemma frame_16_22:
  assumes "n \<in> set options5" "ok_8_8 (view_16_22 st)" "length xs = 160"
  shows "filter_16_22 (view_16_22 st) xs =
    (view_16_22 (fst (WebRtcSpl_Resample16khzTo22khz n st xs)), snd (WebRtcSpl_Resample16khzTo22khz n st xs))"
  unfolding WebRtcSpl_Resample16khzTo22khz_def
proof (rule sub_blocks_eq [OF f_16_22.block_filter_axioms])
  show "8 dvd 160 div n" "0 < n" "length xs = n * (160 div n)" using assms(1,3) by (auto simp: options5_def)
  fix s x
  show "step_16_22 n s (take (160 div n) x) = step_16_22 n s x" by (simp add: step_16_22_def take_input)
  assume "ok_8_8 (view_16_22 s)" "length x = 160 div n"
  then show "filter_16_22 (view_16_22 s) x = (view_16_22 (fst (step_16_22 n s x)), snd (step_16_22 n s x))"
    using assms(1) by (auto simp: options5_def view_16_22_def filter_16_22_def step_16_22_def stage_defs)
qed (rule assms)

lemma frame_22_8:
  assumes "n \<in> set options4" "ok_16_8_8 (view_22_8 st)" "length xs = 220"
  shows "filter_22_8 (view_22_8 st) xs =
    (view_22_8 (fst (WebRtcSpl_Resample22khzTo8khz n st xs)), snd (WebRtcSpl_Resample22khzTo8khz n st xs))"
  unfolding WebRtcSpl_Resample22khzTo8khz_def
proof (rule sub_blocks_eq [OF f_22_8.block_filter_axioms])
  show "22 dvd 220 div n" "0 < n" "length xs = n * (220 div n)" using assms(1,3) by (auto simp: options4_def)
  fix s x
  show "step_22_8 n s (take (220 div n) x) = step_22_8 n s x" by (simp add: step_22_8_def take_input_lowpass)
  assume "ok_16_8_8 (view_22_8 s)" "length x = 220 div n"
  then show "filter_22_8 (view_22_8 s) x = (view_22_8 (fst (step_22_8 n s x)), snd (step_22_8 n s x))"
    using assms(1) by (auto simp: options4_def view_22_8_def filter_22_8_def step_22_8_def stage_defs)
qed (rule assms)

lemma frame_8_22:
  assumes "n \<in> set options4" "ok_8_8_8 (view_8_22 st)" "length xs = 80"
  shows "filter_8_22 (view_8_22 st) xs =
    (view_8_22 (fst (WebRtcSpl_Resample8khzTo22khz n st xs)), snd (WebRtcSpl_Resample8khzTo22khz n st xs))"
  unfolding WebRtcSpl_Resample8khzTo22khz_def
proof (rule sub_blocks_eq [OF f_8_22.block_filter_axioms])
  show "8 dvd 80 div n" "0 < n" "length xs = n * (80 div n)" using assms(1,3) by (auto simp: options4_def)
  fix s x
  show "step_8_22 n s (take (80 div n) x) = step_8_22 n s x" by (simp add: step_8_22_def take_input)
  assume "ok_8_8_8 (view_8_22 s)" "length x = 80 div n"
  then show "filter_8_22 (view_8_22 s) x = (view_8_22 (fst (step_8_22 n s x)), snd (step_8_22 n s x))"
    using assms(1) by (auto simp: options4_def view_8_22_def filter_8_22_def step_8_22_def stage_defs)
qed (rule assms)

section \<open>Outputs of 16 bits\<close>

lemma is_s16_saturate16: "is_s16 (saturate16 x)"
  by (simp add: saturate16_def Let_def)

lemma two_passes_all: "(\<And>l h. list_all P (out l h)) \<Longrightarrow> list_all P (snd (two_passes out st los his))"
proof -
  assume "\<And>l h. list_all P (out l h)"
  then have "list_all P (concat (map2 out xs ys))" for xs ys by (induction xs ys rule: list_induct2') simp_all
  then show ?thesis by (simp add: two_passes_def split_def Let_def)
qed

lemma last_stage_s16:
  "length st = 8 \<Longrightarrow> 4 dvd len \<Longrightarrow> list_all is_s16 (snd (WebRtcSpl_DownBy2IntToShort xs len st))"
  "length st = 8 \<Longrightarrow> list_all is_s16 (snd (WebRtcSpl_UpBy2IntToShort xs len st))"
  "list_all is_s16 (WebRtcSpl_32khzTo22khzIntToShort In K)"
proof -
  show "length st = 8 \<Longrightarrow> 4 dvd len \<Longrightarrow> list_all is_s16 (snd (WebRtcSpl_DownBy2IntToShort xs len st))"
    "length st = 8 \<Longrightarrow> list_all is_s16 (snd (WebRtcSpl_UpBy2IntToShort xs len st))"
    by (simp_all add: by_2_eqs two_passes_all is_s16_saturate16)
  have "list_all is_s16 (block_32_22_short f)" for f
    by (simp add: block_32_22_short_def block_32_22_def WebRtcSpl_DotProdIntToShort_def Let_def is_s16_saturate16)
  then show "list_all is_s16 (WebRtcSpl_32khzTo22khzIntToShort In K)"
    by (induction K) (simp_all add: WebRtcSpl_32khzTo22khzIntToShort_def blocks_def)
qed

lemma filters_s16:
  "ok_16_8_8 s \<Longrightarrow> 12 dvd length xs \<Longrightarrow> list_all is_s16 (snd (filter_48_16 s xs))"
  "ok_8_8_8 t \<Longrightarrow> list_all is_s16 (snd (filter_16_48 t xs))"
  "ok_8_16_8_8 u \<Longrightarrow> 24 dvd length xs \<Longrightarrow> list_all is_s16 (snd (filter_48_8 u xs))"
  "ok_8_8_8_8 v \<Longrightarrow> list_all is_s16 (snd (filter_8_48 v xs))"
  "ok_8_8_8 t \<Longrightarrow> 11 dvd length xs \<Longrightarrow> list_all is_s16 (snd (filter_22_16 t xs))"
  "list_all is_s16 (snd (filter_16_22 w xs))"
  "ok_16_8_8 s \<Longrightarrow> 22 dvd length xs \<Longrightarrow> list_all is_s16 (snd (filter_22_8 s xs))"
  "ok_8_8_8 t \<Longrightarrow> list_all is_s16 (snd (filter_8_22 t xs))"
  by (auto simp: filter_48_16_def filter_16_48_def filter_48_8_def filter_8_48_def filter_22_16_def filter_16_22_def
      filter_22_8_def filter_8_22_def stage_defs intro!: last_stage_s16)

section \<open>A frame\<close>

lemma resampled_48_16:
  assumes "ok_16_8_8 (view_48_16 st)" "length xs = 480"
  shows "ok_16_8_8 (view_48_16 (fst (WebRtcSpl_Resample48khzTo16khz st xs)))" "length (snd (WebRtcSpl_Resample48khzTo16khz st xs)) = 160"
    "list_all is_s16 (snd (WebRtcSpl_Resample48khzTo16khz st xs))"
  using f_48_16.run_ok [of "view_48_16 st" xs] f_48_16.run_length [of "view_48_16 st" xs] filters_s16(1) [of "view_48_16 st" xs]
    frame_48_16 [OF assms] assms by simp_all

lemma resampled_16_48:
  assumes "ok_8_8_8 (view_16_48 st)" "length xs = 160"
  shows "ok_8_8_8 (view_16_48 (fst (WebRtcSpl_Resample16khzTo48khz st xs)))" "length (snd (WebRtcSpl_Resample16khzTo48khz st xs)) = 480"
    "list_all is_s16 (snd (WebRtcSpl_Resample16khzTo48khz st xs))"
  using f_16_48.run_ok [of "view_16_48 st" xs] f_16_48.run_length [of "view_16_48 st" xs] filters_s16(2) [of "view_16_48 st" xs]
    frame_16_48 [OF assms] assms by simp_all

lemma resampled_48_8:
  assumes "ok_8_16_8_8 (view_48_8 st)" "length xs = 480"
  shows "ok_8_16_8_8 (view_48_8 (fst (WebRtcSpl_Resample48khzTo8khz st xs)))" "length (snd (WebRtcSpl_Resample48khzTo8khz st xs)) = 80"
    "list_all is_s16 (snd (WebRtcSpl_Resample48khzTo8khz st xs))"
  using f_48_8.run_ok [of "view_48_8 st" xs] f_48_8.run_length [of "view_48_8 st" xs] filters_s16(3) [of "view_48_8 st" xs]
    frame_48_8 [OF assms] assms by simp_all

lemma resampled_8_48:
  assumes "ok_8_8_8_8 (view_8_48 st)" "length xs = 80"
  shows "ok_8_8_8_8 (view_8_48 (fst (WebRtcSpl_Resample8khzTo48khz st xs)))" "length (snd (WebRtcSpl_Resample8khzTo48khz st xs)) = 480"
    "list_all is_s16 (snd (WebRtcSpl_Resample8khzTo48khz st xs))"
  using f_8_48.run_ok [of "view_8_48 st" xs] f_8_48.run_length [of "view_8_48 st" xs] filters_s16(4) [of "view_8_48 st" xs]
    frame_8_48 [OF assms] assms by simp_all

lemma resampled_22_16:
  assumes "n \<in> set options5" "ok_8_8_8 (view_22_16 st)" "length xs = 220"
  shows "ok_8_8_8 (view_22_16 (fst (WebRtcSpl_Resample22khzTo16khz n st xs)))" "length (snd (WebRtcSpl_Resample22khzTo16khz n st xs)) = 160"
    "list_all is_s16 (snd (WebRtcSpl_Resample22khzTo16khz n st xs))"
  using f_22_16.run_ok [of "view_22_16 st" xs] f_22_16.run_length [of "view_22_16 st" xs] filters_s16(5) [of "view_22_16 st" xs]
    frame_22_16 [OF assms] assms by simp_all

lemma resampled_16_22:
  assumes "n \<in> set options5" "ok_8_8 (view_16_22 st)" "length xs = 160"
  shows "ok_8_8 (view_16_22 (fst (WebRtcSpl_Resample16khzTo22khz n st xs)))" "length (snd (WebRtcSpl_Resample16khzTo22khz n st xs)) = 220"
    "list_all is_s16 (snd (WebRtcSpl_Resample16khzTo22khz n st xs))"
  using f_16_22.run_ok [of "view_16_22 st" xs] f_16_22.run_length [of "view_16_22 st" xs] filters_s16(6) [of "view_16_22 st" xs]
    frame_16_22 [OF assms] assms by simp_all

lemma resampled_22_8:
  assumes "n \<in> set options4" "ok_16_8_8 (view_22_8 st)" "length xs = 220"
  shows "ok_16_8_8 (view_22_8 (fst (WebRtcSpl_Resample22khzTo8khz n st xs)))" "length (snd (WebRtcSpl_Resample22khzTo8khz n st xs)) = 80"
    "list_all is_s16 (snd (WebRtcSpl_Resample22khzTo8khz n st xs))"
  using f_22_8.run_ok [of "view_22_8 st" xs] f_22_8.run_length [of "view_22_8 st" xs] filters_s16(7) [of "view_22_8 st" xs]
    frame_22_8 [OF assms] assms by simp_all

lemma resampled_8_22:
  assumes "n \<in> set options4" "ok_8_8_8 (view_8_22 st)" "length xs = 80"
  shows "ok_8_8_8 (view_8_22 (fst (WebRtcSpl_Resample8khzTo22khz n st xs)))" "length (snd (WebRtcSpl_Resample8khzTo22khz n st xs)) = 220"
    "list_all is_s16 (snd (WebRtcSpl_Resample8khzTo22khz n st xs))"
  using f_8_22.run_ok [of "view_8_22 st" xs] f_8_22.run_length [of "view_8_22 st" xs] filters_s16(8) [of "view_8_22 st" xs]
    frame_8_22 [OF assms] assms by simp_all

text \<open>
  C34. The eight resamplers between 48 or 22 kHz and 16 or 8 kHz turn a frame of 10 ms into a frame of 10 ms at the new
  rate: from states of the right shape, the output has the right number of samples, they fit in 16 bits, and the
  states keep their shape, whatever the input and the filter states, whose arithmetic wraps around; for 22 kHz with each
  number of blocks that the source allows.
\<close>

theorem resampled_frames:
  "(ok_16_8_8 (view_48_16 a) \<and> length xs = 480 \<longrightarrow>
     (let (st, out) = WebRtcSpl_Resample48khzTo16khz a xs in ok_16_8_8 (view_48_16 st) \<and> length out = 160 \<and> list_all is_s16 out)) \<and>
   (ok_8_8_8 (view_16_48 b) \<and> length xs = 160 \<longrightarrow>
     (let (st, out) = WebRtcSpl_Resample16khzTo48khz b xs in ok_8_8_8 (view_16_48 st) \<and> length out = 480 \<and> list_all is_s16 out)) \<and>
   (ok_8_16_8_8 (view_48_8 c) \<and> length xs = 480 \<longrightarrow>
     (let (st, out) = WebRtcSpl_Resample48khzTo8khz c xs in ok_8_16_8_8 (view_48_8 st) \<and> length out = 80 \<and> list_all is_s16 out)) \<and>
   (ok_8_8_8_8 (view_8_48 d) \<and> length xs = 80 \<longrightarrow>
     (let (st, out) = WebRtcSpl_Resample8khzTo48khz d xs in ok_8_8_8_8 (view_8_48 st) \<and> length out = 480 \<and> list_all is_s16 out)) \<and>
   (n \<in> set options5 \<and> ok_8_8_8 (view_22_16 p) \<and> length xs = 220 \<longrightarrow>
     (let (st, out) = WebRtcSpl_Resample22khzTo16khz n p xs in ok_8_8_8 (view_22_16 st) \<and> length out = 160 \<and> list_all is_s16 out)) \<and>
   (n \<in> set options5 \<and> ok_8_8 (view_16_22 q) \<and> length xs = 160 \<longrightarrow>
     (let (st, out) = WebRtcSpl_Resample16khzTo22khz n q xs in ok_8_8 (view_16_22 st) \<and> length out = 220 \<and> list_all is_s16 out)) \<and>
   (n \<in> set options4 \<and> ok_16_8_8 (view_22_8 r) \<and> length xs = 220 \<longrightarrow>
     (let (st, out) = WebRtcSpl_Resample22khzTo8khz n r xs in ok_16_8_8 (view_22_8 st) \<and> length out = 80 \<and> list_all is_s16 out)) \<and>
   (n \<in> set options4 \<and> ok_8_8_8 (view_8_22 s) \<and> length xs = 80 \<longrightarrow>
     (let (st, out) = WebRtcSpl_Resample8khzTo22khz n s xs in ok_8_8_8 (view_8_22 st) \<and> length out = 220 \<and> list_all is_s16 out))"
  using resampled_48_16 [of "a" xs]
    resampled_16_48 [of "b" xs]
    resampled_48_8 [of "c" xs]
    resampled_8_48 [of "d" xs]
    resampled_22_16 [of n "p" xs]
    resampled_16_22 [of n "q" xs]
    resampled_22_8 [of n "r" xs]
    resampled_8_22 [of n "s" xs]
  by (simp add: split_def Let_def)

lemma resets_ok:
  "ok_16_8_8 (view_48_16 WebRtcSpl_ResetResample48khzTo16khz)"
  "ok_8_8_8 (view_16_48 WebRtcSpl_ResetResample16khzTo48khz)"
  "ok_8_16_8_8 (view_48_8 WebRtcSpl_ResetResample48khzTo8khz)"
  "ok_8_8_8_8 (view_8_48 WebRtcSpl_ResetResample8khzTo48khz)"
  "ok_8_8_8 (view_22_16 WebRtcSpl_ResetResample22khzTo16khz)"
  "ok_8_8 (view_16_22 WebRtcSpl_ResetResample16khzTo22khz)"
  "ok_16_8_8 (view_22_8 WebRtcSpl_ResetResample22khzTo8khz)"
  "ok_8_8_8 (view_8_22 WebRtcSpl_ResetResample8khzTo22khz)"
  by (simp_all add: both_ok_def state8_def state16_def
      view_48_16_def WebRtcSpl_ResetResample48khzTo16khz_def
      view_16_48_def WebRtcSpl_ResetResample16khzTo48khz_def
      view_48_8_def WebRtcSpl_ResetResample48khzTo8khz_def
      view_8_48_def WebRtcSpl_ResetResample8khzTo48khz_def
      view_22_16_def WebRtcSpl_ResetResample22khzTo16khz_def
      view_16_22_def WebRtcSpl_ResetResample16khzTo22khz_def
      view_22_8_def WebRtcSpl_ResetResample22khzTo8khz_def
      view_8_22_def WebRtcSpl_ResetResample8khzTo22khz_def)

theorem resampled_frames_witness:
  "(let (st, out) = WebRtcSpl_Resample48khzTo16khz WebRtcSpl_ResetResample48khzTo16khz (replicate 480 0) in
     ok_16_8_8 (view_48_16 st) \<and> length out = 160 \<and> list_all is_s16 out) \<and>
   (let (st, out) = WebRtcSpl_Resample16khzTo48khz WebRtcSpl_ResetResample16khzTo48khz (replicate 160 0) in
     ok_8_8_8 (view_16_48 st) \<and> length out = 480 \<and> list_all is_s16 out) \<and>
   (let (st, out) = WebRtcSpl_Resample48khzTo8khz WebRtcSpl_ResetResample48khzTo8khz (replicate 480 0) in
     ok_8_16_8_8 (view_48_8 st) \<and> length out = 80 \<and> list_all is_s16 out) \<and>
   (let (st, out) = WebRtcSpl_Resample8khzTo48khz WebRtcSpl_ResetResample8khzTo48khz (replicate 80 0) in
     ok_8_8_8_8 (view_8_48 st) \<and> length out = 480 \<and> list_all is_s16 out) \<and>
   (let (st, out) = WebRtcSpl_Resample22khzTo16khz 5 WebRtcSpl_ResetResample22khzTo16khz (replicate 220 0) in
     ok_8_8_8 (view_22_16 st) \<and> length out = 160 \<and> list_all is_s16 out) \<and>
   (let (st, out) = WebRtcSpl_Resample16khzTo22khz 5 WebRtcSpl_ResetResample16khzTo22khz (replicate 160 0) in
     ok_8_8 (view_16_22 st) \<and> length out = 220 \<and> list_all is_s16 out) \<and>
   (let (st, out) = WebRtcSpl_Resample22khzTo8khz 2 WebRtcSpl_ResetResample22khzTo8khz (replicate 220 0) in
     ok_16_8_8 (view_22_8 st) \<and> length out = 80 \<and> list_all is_s16 out) \<and>
   (let (st, out) = WebRtcSpl_Resample8khzTo22khz 2 WebRtcSpl_ResetResample8khzTo22khz (replicate 80 0) in
     ok_8_8_8 (view_8_22 st) \<and> length out = 220 \<and> list_all is_s16 out)"
  using resampled_frames [where xs = "replicate 480 0" and n = 2
      and a = WebRtcSpl_ResetResample48khzTo16khz and b = WebRtcSpl_ResetResample16khzTo48khz
      and c = WebRtcSpl_ResetResample48khzTo8khz and d = WebRtcSpl_ResetResample8khzTo48khz
      and p = WebRtcSpl_ResetResample22khzTo16khz and q = WebRtcSpl_ResetResample16khzTo22khz
      and r = WebRtcSpl_ResetResample22khzTo8khz and s = WebRtcSpl_ResetResample8khzTo22khz]
    resampled_frames [where xs = "replicate 160 0" and n = 5
      and a = WebRtcSpl_ResetResample48khzTo16khz and b = WebRtcSpl_ResetResample16khzTo48khz
      and c = WebRtcSpl_ResetResample48khzTo8khz and d = WebRtcSpl_ResetResample8khzTo48khz
      and p = WebRtcSpl_ResetResample22khzTo16khz and q = WebRtcSpl_ResetResample16khzTo22khz
      and r = WebRtcSpl_ResetResample22khzTo8khz and s = WebRtcSpl_ResetResample8khzTo22khz]
    resampled_frames [where xs = "replicate 80 0" and n = 2
      and a = WebRtcSpl_ResetResample48khzTo16khz and b = WebRtcSpl_ResetResample16khzTo48khz
      and c = WebRtcSpl_ResetResample48khzTo8khz and d = WebRtcSpl_ResetResample8khzTo48khz
      and p = WebRtcSpl_ResetResample22khzTo16khz and q = WebRtcSpl_ResetResample16khzTo22khz
      and r = WebRtcSpl_ResetResample22khzTo8khz and s = WebRtcSpl_ResetResample8khzTo22khz]
    resampled_frames [where xs = "replicate 220 0" and n = 5
      and a = WebRtcSpl_ResetResample48khzTo16khz and b = WebRtcSpl_ResetResample16khzTo48khz
      and c = WebRtcSpl_ResetResample48khzTo8khz and d = WebRtcSpl_ResetResample8khzTo48khz
      and p = WebRtcSpl_ResetResample22khzTo16khz and q = WebRtcSpl_ResetResample16khzTo22khz
      and r = WebRtcSpl_ResetResample22khzTo8khz and s = WebRtcSpl_ResetResample8khzTo22khz]
    resampled_frames [where xs = "replicate 220 0" and n = 2
      and a = WebRtcSpl_ResetResample48khzTo16khz and b = WebRtcSpl_ResetResample16khzTo48khz
      and c = WebRtcSpl_ResetResample48khzTo8khz and d = WebRtcSpl_ResetResample8khzTo48khz
      and p = WebRtcSpl_ResetResample22khzTo16khz and q = WebRtcSpl_ResetResample16khzTo22khz
      and r = WebRtcSpl_ResetResample22khzTo8khz and s = WebRtcSpl_ResetResample8khzTo22khz]
  by (simp add: resets_ok options5_def options4_def)

section \<open>Signals\<close>

lemma sub_blocks_options: "SUB_BLOCKS_22_16 \<in> set options5" "SUB_BLOCKS_16_22 \<in> set options5" "SUB_BLOCKS_22_8 \<in> set options4" "SUB_BLOCKS_8_22 \<in> set options4"
  by (simp_all add: options5_def options4_def SUB_BLOCKS_22_16_def SUB_BLOCKS_16_22_def SUB_BLOCKS_22_8_def SUB_BLOCKS_8_22_def)

lemma signal_48_16:
  assumes "ok_16_8_8 (view_48_16 st)" "\<forall>x \<in> set frames. length x = 480"
  shows "filter_48_16 (view_48_16 st) (concat frames) =
    (view_48_16 (fst (mealy (WebRtcSpl_Resample48khzTo16khz) st frames)), concat (snd (mealy (WebRtcSpl_Resample48khzTo16khz) st frames)))"
  by (rule f_48_16.run_frames(1) [of view_48_16 480, OF frame_48_16 assms]) simp_all

lemma signal_16_48:
  assumes "ok_8_8_8 (view_16_48 st)" "\<forall>x \<in> set frames. length x = 160"
  shows "filter_16_48 (view_16_48 st) (concat frames) =
    (view_16_48 (fst (mealy (WebRtcSpl_Resample16khzTo48khz) st frames)), concat (snd (mealy (WebRtcSpl_Resample16khzTo48khz) st frames)))"
  by (rule f_16_48.run_frames(1) [of view_16_48 160, OF frame_16_48 assms]) simp_all

lemma signal_48_8:
  assumes "ok_8_16_8_8 (view_48_8 st)" "\<forall>x \<in> set frames. length x = 480"
  shows "filter_48_8 (view_48_8 st) (concat frames) =
    (view_48_8 (fst (mealy (WebRtcSpl_Resample48khzTo8khz) st frames)), concat (snd (mealy (WebRtcSpl_Resample48khzTo8khz) st frames)))"
  by (rule f_48_8.run_frames(1) [of view_48_8 480, OF frame_48_8 assms]) simp_all

lemma signal_8_48:
  assumes "ok_8_8_8_8 (view_8_48 st)" "\<forall>x \<in> set frames. length x = 80"
  shows "filter_8_48 (view_8_48 st) (concat frames) =
    (view_8_48 (fst (mealy (WebRtcSpl_Resample8khzTo48khz) st frames)), concat (snd (mealy (WebRtcSpl_Resample8khzTo48khz) st frames)))"
  by (rule f_8_48.run_frames(1) [of view_8_48 80, OF frame_8_48 assms]) simp_all

lemma signal_22_16:
  assumes "ok_8_8_8 (view_22_16 st)" "\<forall>x \<in> set frames. length x = 220"
  shows "filter_22_16 (view_22_16 st) (concat frames) =
    (view_22_16 (fst (mealy (WebRtcSpl_Resample22khzTo16khz SUB_BLOCKS_22_16) st frames)), concat (snd (mealy (WebRtcSpl_Resample22khzTo16khz SUB_BLOCKS_22_16) st frames)))"
  by (rule f_22_16.run_frames(1) [of view_22_16 220, OF frame_22_16 [OF sub_blocks_options(1)] assms]) simp_all

lemma signal_16_22:
  assumes "ok_8_8 (view_16_22 st)" "\<forall>x \<in> set frames. length x = 160"
  shows "filter_16_22 (view_16_22 st) (concat frames) =
    (view_16_22 (fst (mealy (WebRtcSpl_Resample16khzTo22khz SUB_BLOCKS_16_22) st frames)), concat (snd (mealy (WebRtcSpl_Resample16khzTo22khz SUB_BLOCKS_16_22) st frames)))"
  by (rule f_16_22.run_frames(1) [of view_16_22 160, OF frame_16_22 [OF sub_blocks_options(2)] assms]) simp_all

lemma signal_22_8:
  assumes "ok_16_8_8 (view_22_8 st)" "\<forall>x \<in> set frames. length x = 220"
  shows "filter_22_8 (view_22_8 st) (concat frames) =
    (view_22_8 (fst (mealy (WebRtcSpl_Resample22khzTo8khz SUB_BLOCKS_22_8) st frames)), concat (snd (mealy (WebRtcSpl_Resample22khzTo8khz SUB_BLOCKS_22_8) st frames)))"
  by (rule f_22_8.run_frames(1) [of view_22_8 220, OF frame_22_8 [OF sub_blocks_options(3)] assms]) simp_all

lemma signal_8_22:
  assumes "ok_8_8_8 (view_8_22 st)" "\<forall>x \<in> set frames. length x = 80"
  shows "filter_8_22 (view_8_22 st) (concat frames) =
    (view_8_22 (fst (mealy (WebRtcSpl_Resample8khzTo22khz SUB_BLOCKS_8_22) st frames)), concat (snd (mealy (WebRtcSpl_Resample8khzTo22khz SUB_BLOCKS_8_22) st frames)))"
  by (rule f_8_22.run_frames(1) [of view_8_22 80, OF frame_8_22 [OF sub_blocks_options(4)] assms]) simp_all

text \<open>
  C26. Resampling a signal frame by frame, each call on 10 ms with the state that the call before has left, gives what the
  stages of the resampler, allpass filters and interpolators, give on the whole signal at once: nothing is lost or
  disturbed at the borders of the frames, for each of the eight resamplers, any number of frames and any contents.
\<close>

theorem resampling_streams:
  "(ok_16_8_8 (view_48_16 a) \<and> (\<forall>x \<in> set frames. length x = 480) \<longrightarrow>
     (let (st, outs) = mealy (WebRtcSpl_Resample48khzTo16khz) a frames in filter_48_16 (view_48_16 a) (concat frames) = (view_48_16 st, concat outs))) \<and>
   (ok_8_8_8 (view_16_48 b) \<and> (\<forall>x \<in> set frames. length x = 160) \<longrightarrow>
     (let (st, outs) = mealy (WebRtcSpl_Resample16khzTo48khz) b frames in filter_16_48 (view_16_48 b) (concat frames) = (view_16_48 st, concat outs))) \<and>
   (ok_8_16_8_8 (view_48_8 c) \<and> (\<forall>x \<in> set frames. length x = 480) \<longrightarrow>
     (let (st, outs) = mealy (WebRtcSpl_Resample48khzTo8khz) c frames in filter_48_8 (view_48_8 c) (concat frames) = (view_48_8 st, concat outs))) \<and>
   (ok_8_8_8_8 (view_8_48 d) \<and> (\<forall>x \<in> set frames. length x = 80) \<longrightarrow>
     (let (st, outs) = mealy (WebRtcSpl_Resample8khzTo48khz) d frames in filter_8_48 (view_8_48 d) (concat frames) = (view_8_48 st, concat outs))) \<and>
   (ok_8_8_8 (view_22_16 p) \<and> (\<forall>x \<in> set frames. length x = 220) \<longrightarrow>
     (let (st, outs) = mealy (WebRtcSpl_Resample22khzTo16khz SUB_BLOCKS_22_16) p frames in filter_22_16 (view_22_16 p) (concat frames) = (view_22_16 st, concat outs))) \<and>
   (ok_8_8 (view_16_22 q) \<and> (\<forall>x \<in> set frames. length x = 160) \<longrightarrow>
     (let (st, outs) = mealy (WebRtcSpl_Resample16khzTo22khz SUB_BLOCKS_16_22) q frames in filter_16_22 (view_16_22 q) (concat frames) = (view_16_22 st, concat outs))) \<and>
   (ok_16_8_8 (view_22_8 r) \<and> (\<forall>x \<in> set frames. length x = 220) \<longrightarrow>
     (let (st, outs) = mealy (WebRtcSpl_Resample22khzTo8khz SUB_BLOCKS_22_8) r frames in filter_22_8 (view_22_8 r) (concat frames) = (view_22_8 st, concat outs))) \<and>
   (ok_8_8_8 (view_8_22 s) \<and> (\<forall>x \<in> set frames. length x = 80) \<longrightarrow>
     (let (st, outs) = mealy (WebRtcSpl_Resample8khzTo22khz SUB_BLOCKS_8_22) s frames in filter_8_22 (view_8_22 s) (concat frames) = (view_8_22 st, concat outs)))"
  using signal_48_16 [of "a" frames]
    signal_16_48 [of "b" frames]
    signal_48_8 [of "c" frames]
    signal_8_48 [of "d" frames]
    signal_22_16 [of "p" frames]
    signal_16_22 [of "q" frames]
    signal_22_8 [of "r" frames]
    signal_8_22 [of "s" frames]
  by (simp add: split_def Let_def)

theorem resampling_streams_witness:
  "(let (st, outs) = mealy (WebRtcSpl_Resample48khzTo16khz) WebRtcSpl_ResetResample48khzTo16khz [replicate 480 1000, replicate 480 (- 7)] in
     filter_48_16 (view_48_16 WebRtcSpl_ResetResample48khzTo16khz) (concat [replicate 480 1000, replicate 480 (- 7)]) = (view_48_16 st, concat outs)) \<and>
   (let (st, outs) = mealy (WebRtcSpl_Resample16khzTo48khz) WebRtcSpl_ResetResample16khzTo48khz [replicate 160 1000, replicate 160 (- 7)] in
     filter_16_48 (view_16_48 WebRtcSpl_ResetResample16khzTo48khz) (concat [replicate 160 1000, replicate 160 (- 7)]) = (view_16_48 st, concat outs)) \<and>
   (let (st, outs) = mealy (WebRtcSpl_Resample48khzTo8khz) WebRtcSpl_ResetResample48khzTo8khz [replicate 480 1000, replicate 480 (- 7)] in
     filter_48_8 (view_48_8 WebRtcSpl_ResetResample48khzTo8khz) (concat [replicate 480 1000, replicate 480 (- 7)]) = (view_48_8 st, concat outs)) \<and>
   (let (st, outs) = mealy (WebRtcSpl_Resample8khzTo48khz) WebRtcSpl_ResetResample8khzTo48khz [replicate 80 1000, replicate 80 (- 7)] in
     filter_8_48 (view_8_48 WebRtcSpl_ResetResample8khzTo48khz) (concat [replicate 80 1000, replicate 80 (- 7)]) = (view_8_48 st, concat outs)) \<and>
   (let (st, outs) = mealy (WebRtcSpl_Resample22khzTo16khz SUB_BLOCKS_22_16) WebRtcSpl_ResetResample22khzTo16khz [replicate 220 1000, replicate 220 (- 7)] in
     filter_22_16 (view_22_16 WebRtcSpl_ResetResample22khzTo16khz) (concat [replicate 220 1000, replicate 220 (- 7)]) = (view_22_16 st, concat outs)) \<and>
   (let (st, outs) = mealy (WebRtcSpl_Resample16khzTo22khz SUB_BLOCKS_16_22) WebRtcSpl_ResetResample16khzTo22khz [replicate 160 1000, replicate 160 (- 7)] in
     filter_16_22 (view_16_22 WebRtcSpl_ResetResample16khzTo22khz) (concat [replicate 160 1000, replicate 160 (- 7)]) = (view_16_22 st, concat outs)) \<and>
   (let (st, outs) = mealy (WebRtcSpl_Resample22khzTo8khz SUB_BLOCKS_22_8) WebRtcSpl_ResetResample22khzTo8khz [replicate 220 1000, replicate 220 (- 7)] in
     filter_22_8 (view_22_8 WebRtcSpl_ResetResample22khzTo8khz) (concat [replicate 220 1000, replicate 220 (- 7)]) = (view_22_8 st, concat outs)) \<and>
   (let (st, outs) = mealy (WebRtcSpl_Resample8khzTo22khz SUB_BLOCKS_8_22) WebRtcSpl_ResetResample8khzTo22khz [replicate 80 1000, replicate 80 (- 7)] in
     filter_8_22 (view_8_22 WebRtcSpl_ResetResample8khzTo22khz) (concat [replicate 80 1000, replicate 80 (- 7)]) = (view_8_22 st, concat outs))"
  using resampling_streams [where frames = "[replicate 480 1000, replicate 480 (- 7)]"
      and a = WebRtcSpl_ResetResample48khzTo16khz and b = WebRtcSpl_ResetResample16khzTo48khz
      and c = WebRtcSpl_ResetResample48khzTo8khz and d = WebRtcSpl_ResetResample8khzTo48khz
      and p = WebRtcSpl_ResetResample22khzTo16khz and q = WebRtcSpl_ResetResample16khzTo22khz
      and r = WebRtcSpl_ResetResample22khzTo8khz and s = WebRtcSpl_ResetResample8khzTo22khz]
    resampling_streams [where frames = "[replicate 160 1000, replicate 160 (- 7)]"
      and a = WebRtcSpl_ResetResample48khzTo16khz and b = WebRtcSpl_ResetResample16khzTo48khz
      and c = WebRtcSpl_ResetResample48khzTo8khz and d = WebRtcSpl_ResetResample8khzTo48khz
      and p = WebRtcSpl_ResetResample22khzTo16khz and q = WebRtcSpl_ResetResample16khzTo22khz
      and r = WebRtcSpl_ResetResample22khzTo8khz and s = WebRtcSpl_ResetResample8khzTo22khz]
    resampling_streams [where frames = "[replicate 80 1000, replicate 80 (- 7)]"
      and a = WebRtcSpl_ResetResample48khzTo16khz and b = WebRtcSpl_ResetResample16khzTo48khz
      and c = WebRtcSpl_ResetResample48khzTo8khz and d = WebRtcSpl_ResetResample8khzTo48khz
      and p = WebRtcSpl_ResetResample22khzTo16khz and q = WebRtcSpl_ResetResample16khzTo22khz
      and r = WebRtcSpl_ResetResample22khzTo8khz and s = WebRtcSpl_ResetResample8khzTo22khz]
    resampling_streams [where frames = "[replicate 220 1000, replicate 220 (- 7)]"
      and a = WebRtcSpl_ResetResample48khzTo16khz and b = WebRtcSpl_ResetResample16khzTo48khz
      and c = WebRtcSpl_ResetResample48khzTo8khz and d = WebRtcSpl_ResetResample8khzTo48khz
      and p = WebRtcSpl_ResetResample22khzTo16khz and q = WebRtcSpl_ResetResample16khzTo22khz
      and r = WebRtcSpl_ResetResample22khzTo8khz and s = WebRtcSpl_ResetResample8khzTo22khz]
  by (simp add: resets_ok del: concat.simps mealy.simps)

lemma view_inject_22_16: "view_22_16 st = view_22_16 st' \<Longrightarrow> st = (st' :: State22khzTo16khz)"
  by (cases st; cases st'; simp add: view_22_16_def)

lemma view_inject_16_22: "view_16_22 st = view_16_22 st' \<Longrightarrow> st = (st' :: State16khzTo22khz)"
  by (cases st; cases st'; simp add: view_16_22_def)

lemma view_inject_22_8: "view_22_8 st = view_22_8 st' \<Longrightarrow> st = (st' :: State22khzTo8khz)"
  by (cases st; cases st'; simp add: view_22_8_def)

lemma view_inject_8_22: "view_8_22 st = view_8_22 st' \<Longrightarrow> st = (st' :: State8khzTo22khz)"
  by (cases st; cases st'; simp add: view_8_22_def)

text \<open>
  The functions for 22 kHz cut a frame in 5, 4 or 2 blocks so as to need a smaller scratch array. The number does not
  matter: with each of the numbers that the comments beside the macros list, a frame gives the output and the new
  state that it gives in one block.
\<close>

theorem number_of_sub_blocks:
  "(n \<in> set options5 \<and> ok_8_8_8 (view_22_16 p) \<and> length xs = 220 \<longrightarrow> WebRtcSpl_Resample22khzTo16khz n p xs = WebRtcSpl_Resample22khzTo16khz 1 p xs) \<and>
   (n \<in> set options5 \<and> ok_8_8 (view_16_22 q) \<and> length xs = 160 \<longrightarrow> WebRtcSpl_Resample16khzTo22khz n q xs = WebRtcSpl_Resample16khzTo22khz 1 q xs) \<and>
   (n \<in> set options4 \<and> ok_16_8_8 (view_22_8 r) \<and> length xs = 220 \<longrightarrow> WebRtcSpl_Resample22khzTo8khz n r xs = WebRtcSpl_Resample22khzTo8khz 1 r xs) \<and>
   (n \<in> set options4 \<and> ok_8_8_8 (view_8_22 s) \<and> length xs = 80 \<longrightarrow> WebRtcSpl_Resample8khzTo22khz n s xs = WebRtcSpl_Resample8khzTo22khz 1 s xs)"
proof -
  have "WebRtcSpl_Resample22khzTo16khz n p xs = WebRtcSpl_Resample22khzTo16khz 1 p xs"
    if "n \<in> set options5" "ok_8_8_8 (view_22_16 p)" "length xs = 220"
    using frame_22_16 [OF that] frame_22_16 [of 1, OF _ that(2,3)] view_inject_22_16
    by (auto simp: options5_def intro: prod_eqI)
  note 1 = this
  have "WebRtcSpl_Resample16khzTo22khz n q xs = WebRtcSpl_Resample16khzTo22khz 1 q xs"
    if "n \<in> set options5" "ok_8_8 (view_16_22 q)" "length xs = 160"
    using frame_16_22 [OF that] frame_16_22 [of 1, OF _ that(2,3)] view_inject_16_22
    by (auto simp: options5_def intro: prod_eqI)
  note 1 = 1 this
  have "WebRtcSpl_Resample22khzTo8khz n r xs = WebRtcSpl_Resample22khzTo8khz 1 r xs"
    if "n \<in> set options4" "ok_16_8_8 (view_22_8 r)" "length xs = 220"
    using frame_22_8 [OF that] frame_22_8 [of 1, OF _ that(2,3)] view_inject_22_8
    by (auto simp: options4_def intro: prod_eqI)
  note 1 = 1 this
  have "WebRtcSpl_Resample8khzTo22khz n s xs = WebRtcSpl_Resample8khzTo22khz 1 s xs"
    if "n \<in> set options4" "ok_8_8_8 (view_8_22 s)" "length xs = 80"
    using frame_8_22 [OF that] frame_8_22 [of 1, OF _ that(2,3)] view_inject_8_22
    by (auto simp: options4_def intro: prod_eqI)
  note 1 = 1 this
  show ?thesis using 1 by blast
qed

theorem number_of_sub_blocks_witness:
  "(WebRtcSpl_Resample22khzTo16khz 5 WebRtcSpl_ResetResample22khzTo16khz (replicate 220 1000) =
     WebRtcSpl_Resample22khzTo16khz 1 WebRtcSpl_ResetResample22khzTo16khz (replicate 220 1000)) \<and>
   (WebRtcSpl_Resample16khzTo22khz 5 WebRtcSpl_ResetResample16khzTo22khz (replicate 160 1000) =
     WebRtcSpl_Resample16khzTo22khz 1 WebRtcSpl_ResetResample16khzTo22khz (replicate 160 1000)) \<and>
   (WebRtcSpl_Resample22khzTo8khz 5 WebRtcSpl_ResetResample22khzTo8khz (replicate 220 1000) =
     WebRtcSpl_Resample22khzTo8khz 1 WebRtcSpl_ResetResample22khzTo8khz (replicate 220 1000)) \<and>
   (WebRtcSpl_Resample8khzTo22khz 5 WebRtcSpl_ResetResample8khzTo22khz (replicate 80 1000) =
     WebRtcSpl_Resample8khzTo22khz 1 WebRtcSpl_ResetResample8khzTo22khz (replicate 80 1000))"
  using number_of_sub_blocks [where xs = "replicate 220 1000" and n = 5
      and p = WebRtcSpl_ResetResample22khzTo16khz and q = WebRtcSpl_ResetResample16khzTo22khz
      and r = WebRtcSpl_ResetResample22khzTo8khz and s = WebRtcSpl_ResetResample8khzTo22khz]
    number_of_sub_blocks [where xs = "replicate 160 1000" and n = 5
      and p = WebRtcSpl_ResetResample22khzTo16khz and q = WebRtcSpl_ResetResample16khzTo22khz
      and r = WebRtcSpl_ResetResample22khzTo8khz and s = WebRtcSpl_ResetResample8khzTo22khz]
    number_of_sub_blocks [where xs = "replicate 80 1000" and n = 5
      and p = WebRtcSpl_ResetResample22khzTo16khz and q = WebRtcSpl_ResetResample16khzTo22khz
      and r = WebRtcSpl_ResetResample22khzTo8khz and s = WebRtcSpl_ResetResample8khzTo22khz]
  by (simp add: resets_ok options5_def options4_def)

end
