(* ===== verification/Vad_Features.thy ===== *)
theory Vad_Features
  imports Spl_Math Spl_Vector Resamplers
begin

text \<open>
  The voice activity detector (\<^verbatim>\<open>common_audio/vad\<close>): its state (\<^verbatim>\<open>vad_core.h\<close>), the downsampling and the minimum
  of the past (\<^verbatim>\<open>vad_sp.c\<close>), the energies of six bands (\<^verbatim>\<open>vad_filterbank.c\<close>) and the Gaussian density
  (\<^verbatim>\<open>vad_gmm.c\<close>). Arrays of 16 bits hold the values that the casts of the source leave.
\<close>

definition kNumChannels :: nat where "kNumChannels = 6"
definition kNumGaussians :: nat where "kNumGaussians = 2"
definition kTableSize :: nat where "kTableSize = kNumChannels * kNumGaussians"
definition kMinEnergy :: int where "kMinEnergy = 10"

record VadInstT =
  vad :: int
  downsampling_filter_states :: "int list"
  state_48_to_8 :: State48khzTo8khz
  noise_means :: "int list"
  speech_means :: "int list"
  noise_stds :: "int list"
  speech_stds :: "int list"
  frame_counter :: int
  over_hang :: int
  num_of_speech :: int
  index_vector :: "int list"
  low_value_vector :: "int list"
  mean_values :: "int list"
  upper_state :: "int list"
  lower_state :: "int list"
  hp_filter_state :: "int list"
  over_hang_max_1 :: "int list"
  over_hang_max_2 :: "int list"
  individual :: "int list"
  total :: "int list"
  init_flag :: int

section \<open>Downsampling\<close>

definition kAllPassCoefsQ13 :: "int list" where "kAllPassCoefsQ13 = [5243, 1392]"
definition kSmoothingDown :: int where "kSmoothingDown = 6553"
definition kSmoothingUp :: int where "kSmoothingUp = 32439"

definition downsampling_step :: "int \<times> int \<Rightarrow> int \<times> int \<Rightarrow> (int \<times> int) \<times> int" where
  "downsampling_step = (\<lambda>(tmp32_1, tmp32_2) (x0, x1).
     let tmp16_1 = s16 (shr tmp32_1 1 + shr (kAllPassCoefsQ13 ! 0 * x0) 14);
         tmp32_1 = s32 (x0 - shr (kAllPassCoefsQ13 ! 0 * tmp16_1) 12);
         tmp16_2 = s16 (shr tmp32_2 1 + shr (kAllPassCoefsQ13 ! 1 * x1) 14);
         tmp32_2 = s32 (x1 - shr (kAllPassCoefsQ13 ! 1 * tmp16_2) 12)
     in ((tmp32_1, tmp32_2), s16 (tmp16_1 + tmp16_2)))"

text \<open>The state is two elements of an array of the caller.\<close>

definition WebRtcVad_Downsampling :: "int list \<Rightarrow> int list \<Rightarrow> nat \<Rightarrow> int list \<times> int list" where
  "WebRtcVad_Downsampling signal_in filter_state in_length =
     (let half_length = in_length div 2;
          ((t1, t2), out) = mealy downsampling_step (filter_state ! 0, filter_state ! 1)
            (zip (evens signal_in half_length) (odds signal_in half_length))
      in ([t1, t2], out))"

section \<open>The minimum of the past\<close>

text \<open>
  Each channel has 16 small values and their ages. A value of age 100 is removed: the values behind it move down and
  the last one is 10000. (The loop of the source also copies the element behind the array, which is then overwritten.)
  The value that moves in is not looked at in this pass.
\<close>

definition age_step :: "nat \<Rightarrow> int list \<times> int list \<Rightarrow> int list \<times> int list" where
  "age_step i = (\<lambda>(age, smallest_values).
     if age ! i \<noteq> 100 then (age[i := s16 (age ! i + 1)], smallest_values)
     else (take i age @ drop (i + 1) age @ [101], take i smallest_values @ drop (i + 1) smallest_values @ [10000]))"

definition find_position :: "int \<Rightarrow> int list \<Rightarrow> int" where
  "find_position feature_value smallest_values =
     (if feature_value < smallest_values ! 7 then
        if feature_value < smallest_values ! 3 then
          if feature_value < smallest_values ! 1 then
            if feature_value < smallest_values ! 0 then 0 else 1
          else if feature_value < smallest_values ! 2 then 2 else 3
        else if feature_value < smallest_values ! 5 then
          if feature_value < smallest_values ! 4 then 4 else 5
        else if feature_value < smallest_values ! 6 then 6 else 7
      else if feature_value < smallest_values ! 15 then
        if feature_value < smallest_values ! 11 then
          if feature_value < smallest_values ! 9 then
            if feature_value < smallest_values ! 8 then 8 else 9
          else if feature_value < smallest_values ! 10 then 10 else 11
        else if feature_value < smallest_values ! 13 then
          if feature_value < smallest_values ! 12 then 12 else 13
        else if feature_value < smallest_values ! 14 then 14 else 15
      else - 1)"

text \<open>The element goes to the position, those from there on move up by one, and the last one falls out.\<close>

definition insert_at :: "nat \<Rightarrow> int \<Rightarrow> int list \<Rightarrow> int list" where
  "insert_at p x xs = take p xs @ x # take (15 - p) (drop p xs)"

definition update_minima :: "int \<Rightarrow> int list \<times> int list \<Rightarrow> int list \<times> int list" where
  "update_minima feature_value aged =
     (let (age, smallest_values) = fold age_step [0..<16] aged;
          position = find_position feature_value smallest_values
      in if position > - 1 then (insert_at (nat position) 1 age, insert_at (nat position) feature_value smallest_values)
         else (age, smallest_values))"

definition WebRtcVad_FindMinimum :: "VadInstT \<Rightarrow> int \<Rightarrow> nat \<Rightarrow> VadInstT \<times> int" where
  "WebRtcVad_FindMinimum self feature_value channel =
     (let offset = 16 * channel;
          (age, smallest_values) = update_minima feature_value
            (take 16 (drop offset (index_vector self)), take 16 (drop offset (low_value_vector self)));
          current_median = (if frame_counter self > 2 then smallest_values ! 2
                            else if frame_counter self > 0 then smallest_values ! 0 else 1600);
          alpha = (if frame_counter self > 0 then
                     if current_median < mean_values self ! channel then kSmoothingDown else kSmoothingUp
                   else 0);
          tmp32 = s32 ((alpha + 1) * (mean_values self ! channel));
          tmp32 = s32 (tmp32 + (32767 - alpha) * current_median);
          tmp32 = s32 (tmp32 + 16384);
          mean = s16 (shr tmp32 15)
      in (self\<lparr>index_vector := blit (index_vector self) offset age,
            low_value_vector := blit (low_value_vector self) offset smallest_values,
            mean_values := (mean_values self)[channel := mean]\<rparr>, mean))"

section \<open>The filter bank\<close>

definition kLogConst :: int where "kLogConst = 24660"
definition kLogEnergyIntPart :: int where "kLogEnergyIntPart = 14336"
definition kHpZeroCoefs :: "int list" where "kHpZeroCoefs = [6631, - 13262, 6631]"
definition kHpPoleCoefs :: "int list" where "kHpPoleCoefs = [16384, - 7756, 5620]"
definition kAllPassCoefsQ15 :: "int list" where "kAllPassCoefsQ15 = [20972, 5571]"
definition kOffsetVector :: "int list" where "kOffsetVector = [368, 368, 272, 176, 176, 176]"

definition high_pass_step :: "int list \<Rightarrow> int \<Rightarrow> int list \<times> int" where
  "high_pass_step st x =
     (let tmp32 = s32 (kHpZeroCoefs ! 0 * x);
          tmp32 = s32 (tmp32 + kHpZeroCoefs ! 1 * st ! 0);
          tmp32 = s32 (tmp32 + kHpZeroCoefs ! 2 * st ! 1);
          tmp32 = s32 (tmp32 - kHpPoleCoefs ! 1 * st ! 2);
          tmp32 = s32 (tmp32 - kHpPoleCoefs ! 2 * st ! 3);
          y = s16 (shr tmp32 14)
      in ([x, st ! 0, y, st ! 2], y))"

definition HighPassFilter :: "int list \<Rightarrow> nat \<Rightarrow> int list \<Rightarrow> int list \<times> int list" where
  "HighPassFilter data_in data_length filter_state = mealy high_pass_step filter_state (take data_length data_in)"

definition all_pass_step :: "int \<Rightarrow> int \<Rightarrow> int \<Rightarrow> int \<times> int" where
  "all_pass_step filter_coefficient state32 x =
     (let tmp32 = s32 (state32 + filter_coefficient * x);
          tmp16 = s16 (shr tmp32 16);
          state32 = s32 (s32 (shl x 14) - filter_coefficient * tmp16)
      in (s32 (shl state32 1), tmp16))"

text \<open>\<open>data_in\<close> here is every other sample of the array of the source.\<close>

definition AllPassFilter :: "int list \<Rightarrow> int \<Rightarrow> int \<Rightarrow> int \<times> int list" where
  "AllPassFilter data_in filter_coefficient filter_state =
     (let (state32, out) = mealy (all_pass_step filter_coefficient) (s32 (shl filter_state 16)) data_in
      in (s16 (shr state32 16), out))"

definition SplitFilter :: "int list \<Rightarrow> nat \<Rightarrow> int \<Rightarrow> int \<Rightarrow> (int \<times> int) \<times> int list \<times> int list" where
  "SplitFilter data_in data_length upper lower =
     (let half_length = data_length div 2;
          (upper, hp) = AllPassFilter (evens data_in half_length) (kAllPassCoefsQ15 ! 0) upper;
          (lower, lp) = AllPassFilter (odds data_in half_length) (kAllPassCoefsQ15 ! 1) lower
      in ((upper, lower), map2 (\<lambda>h l. s16 (h - l)) hp lp, map2 (\<lambda>h l. s16 (l + h)) hp lp))"

text \<open>The new total energy and the energy of the band.\<close>

definition LogOfEnergy :: "int list \<Rightarrow> nat \<Rightarrow> int \<Rightarrow> int \<Rightarrow> int \<times> int" where
  "LogOfEnergy data_in data_length offset total_energy =
     (let (en, tot_rshifts) = WebRtcSpl_Energy data_in data_length; energy = u32 en
      in if energy = 0 then (total_energy, offset)
         else let normalizing_rshifts = 17 - WebRtcSpl_NormU32 energy;
                  tot_rshifts = tot_rshifts + normalizing_rshifts;
                  energy = (if normalizing_rshifts < 0 then u32 (shl energy (nat (- normalizing_rshifts)))
                            else shr energy (nat normalizing_rshifts));
                  log2_energy = s16 (kLogEnergyIntPart + s16 (shr (energy AND 0x3FFF) 4));
                  log_energy = s16 (shr (kLogConst * log2_energy) 19 + shr (tot_rshifts * kLogConst) 9);
                  log_energy = (if log_energy < 0 then 0 else log_energy);
                  log_energy = s16 (log_energy + offset)
              in (if total_energy \<le> kMinEnergy then
                    if tot_rshifts \<ge> 0 then s16 (total_energy + (kMinEnergy + 1))
                    else s16 (total_energy + s16 (shr energy (nat (- tot_rshifts))))
                  else total_energy, log_energy))"

text \<open>One band is split into two, with the states of the given number.\<close>

definition split_band :: "VadInstT \<Rightarrow> nat \<Rightarrow> int list \<Rightarrow> nat \<Rightarrow> VadInstT \<times> int list \<times> int list" where
  "split_band self frequency_band data_in len =
     (let ((u, l), hp, lp) = SplitFilter data_in len (upper_state self ! frequency_band) (lower_state self ! frequency_band)
      in (self\<lparr>upper_state := (upper_state self)[frequency_band := u],
            lower_state := (lower_state self)[frequency_band := l]\<rparr>, hp, lp))"

definition WebRtcVad_CalculateFeatures :: "VadInstT \<Rightarrow> int list \<Rightarrow> nat \<Rightarrow> VadInstT \<times> int list \<times> int" where
  "WebRtcVad_CalculateFeatures self data_in data_length =
     (let half = data_length div 2; quarter = half div 2; eighth = quarter div 2; sixteenth = eighth div 2;
          (self, hp_120, lp_120) = split_band self 0 data_in data_length;
          (self, hp_60, lp_60) = split_band self 1 hp_120 half;
          (total_energy, f5) = LogOfEnergy hp_60 quarter (kOffsetVector ! 5) 0;
          (total_energy, f4) = LogOfEnergy lp_60 quarter (kOffsetVector ! 4) total_energy;
          (self, hp_60, lp_60) = split_band self 2 lp_120 half;
          (total_energy, f3) = LogOfEnergy hp_60 quarter (kOffsetVector ! 3) total_energy;
          (self, hp_120, lp_120) = split_band self 3 lp_60 quarter;
          (total_energy, f2) = LogOfEnergy hp_120 eighth (kOffsetVector ! 2) total_energy;
          (self, hp_60, lp_60) = split_band self 4 lp_120 eighth;
          (total_energy, f1) = LogOfEnergy hp_60 sixteenth (kOffsetVector ! 1) total_energy;
          (hp_state, hp_120) = HighPassFilter lp_60 sixteenth (hp_filter_state self);
          (total_energy, f0) = LogOfEnergy hp_120 sixteenth (kOffsetVector ! 0) total_energy
      in (self\<lparr>hp_filter_state := hp_state\<rparr>, [f0, f1, f2, f3, f4, f5], total_energy))"

section \<open>The Gaussian density\<close>

definition kCompVar :: int where "kCompVar = 22005"
definition kLog2Exp :: int where "kLog2Exp = 5909"

text \<open>The result has the density and \<open>delta\<close>.\<close>

definition WebRtcVad_GaussianProbability :: "int \<Rightarrow> int \<Rightarrow> int \<Rightarrow> int \<times> int" where
  "WebRtcVad_GaussianProbability input mean std =
     (let tmp32 = 131072 + shr std 1;
          inv_std = s16 (WebRtcSpl_DivW32W16 tmp32 std);
          tmp16 = shr inv_std 2;
          inv_std2 = s16 (shr (tmp16 * tmp16) 2);
          tmp16 = s16 (shl input 3);
          tmp16 = s16 (tmp16 - mean);
          delta = s16 (shr (inv_std2 * tmp16) 10);
          tmp32 = shr (delta * tmp16) 9;
          exp_value =
            (if tmp32 < kCompVar then
               let tmp16 = s16 (shr (s32 (kLog2Exp * tmp32)) 12);
                   tmp16 = s16 (- tmp16);
                   exp_value = 0x0400 OR (tmp16 AND 0x03FF);
                   tmp16 = s16 (tmp16 XOR 0xFFFF);
                   tmp16 = shr tmp16 10 + 1
               in shr exp_value (nat tmp16)
             else 0)
      in (inv_std * exp_value, delta))"

end
