(* ===== verification/Vad_Core.thy ===== *)
theory Vad_Core
  imports Vad_Features
begin

text \<open>
  The core of the voice activity detector (\<^verbatim>\<open>vad_core.c\<close>): the likelihood ratio of two Gaussian mixtures for
  six bands, their adaptation, the hangover, initialisation, modes and the four sampling rates; and its interface
  (\<^verbatim>\<open>webrtc_vad.c\<close>). A pointer of the interface that may be null is an option.
\<close>

section \<open>Constants\<close>

definition kSpectrumWeight :: "int list" where "kSpectrumWeight = [6, 8, 10, 12, 14, 16]"
definition kNoiseUpdateConst :: int where "kNoiseUpdateConst = 655"
definition kSpeechUpdateConst :: int where "kSpeechUpdateConst = 6554"
definition kBackEta :: int where "kBackEta = 154"
definition kMinimumDifference :: "int list" where "kMinimumDifference = [544, 544, 576, 576, 576, 576]"
definition kMaximumSpeech :: "int list" where "kMaximumSpeech = [11392, 11392, 11520, 11520, 11520, 11520]"
definition kMinimumMean :: "int list" where "kMinimumMean = [640, 768]"
definition kMaximumNoise :: "int list" where "kMaximumNoise = [9216, 9088, 8960, 8832, 8704, 8576]"
definition kNoiseDataWeights :: "int list" where "kNoiseDataWeights = [34, 62, 72, 66, 53, 25, 94, 66, 56, 62, 75, 103]"
definition kSpeechDataWeights :: "int list" where "kSpeechDataWeights = [48, 82, 45, 87, 50, 47, 80, 46, 83, 41, 78, 81]"
definition kNoiseDataMeans :: "int list" where
  "kNoiseDataMeans = [6738, 4892, 7065, 6715, 6771, 3369, 7646, 3863, 7820, 7266, 5020, 4362]"
definition kSpeechDataMeans :: "int list" where
  "kSpeechDataMeans = [8306, 10085, 10078, 11823, 11843, 6309, 9473, 9571, 10879, 7581, 8180, 7483]"
definition kNoiseDataStds :: "int list" where
  "kNoiseDataStds = [378, 1064, 493, 582, 688, 593, 474, 697, 475, 688, 421, 455]"
definition kSpeechDataStds :: "int list" where
  "kSpeechDataStds = [555, 505, 567, 524, 585, 1231, 509, 828, 492, 1540, 1079, 850]"
definition kMaxSpeechFrames :: int where "kMaxSpeechFrames = 6"
definition kMinStd :: int where "kMinStd = 384"
definition kDefaultMode :: int where "kDefaultMode = 0"
definition kInitCheck :: int where "kInitCheck = 42"

section \<open>The mixtures\<close>

text \<open>The element of a Gaussian of a channel.\<close>

definition gaussian :: "nat \<Rightarrow> nat \<Rightarrow> nat" where "gaussian channel k = channel + k * kNumChannels"

definition WeightedAverage :: "int list \<Rightarrow> nat \<Rightarrow> int \<Rightarrow> int list \<Rightarrow> int list \<times> int" where
  "WeightedAverage means channel offset weights =
     fold (\<lambda>k (means, weighted_average).
       let x = s16 (means ! gaussian channel k + offset)
       in (means[gaussian channel k := x], s32 (weighted_average + x * weights ! gaussian channel k)))
     [0..<kNumGaussians] (means, 0)"

text \<open>What the first loop finds for a channel: the ratio, the conditional probabilities and the deltas of both models.\<close>

record likelihood =
  log_likelihood_ratio :: int
  ngprvec :: "int list"
  sgprvec :: "int list"
  deltaN :: "int list"
  deltaS :: "int list"

text \<open>The probabilities of a feature under both Gaussians of a model, in Q27, and the deltas.\<close>

definition model_probability :: "int list \<Rightarrow> int list \<Rightarrow> int list \<Rightarrow> int \<Rightarrow> nat \<Rightarrow> int list \<times> int list" where
  "model_probability means stds weights feature channel =
     (let ps = map (\<lambda>k. WebRtcVad_GaussianProbability feature (means ! gaussian channel k) (stds ! gaussian channel k)) [0..<kNumGaussians]
      in (map (\<lambda>k. s32 (weights ! gaussian channel k * fst (ps ! k))) [0..<kNumGaussians], map snd ps))"

definition conditional :: "int \<Rightarrow> int \<Rightarrow> int list \<Rightarrow> int list" where
  "conditional probability0 h otherwise =
     (if h > 0 then
        let tmp1_s32 = s32 (shl (u32 probability0 AND 0xFFFFF000) 2); p = s16 (WebRtcSpl_DivW32W16 tmp1_s32 h)
        in [p, s16 (16384 - p)]
      else otherwise)"

definition channel_likelihood :: "VadInstT \<Rightarrow> int list \<Rightarrow> nat \<Rightarrow> likelihood" where
  "channel_likelihood self features channel =
     (let (np, dN) = model_probability (noise_means self) (noise_stds self) kNoiseDataWeights (features ! channel) channel;
          (sp, dS) = model_probability (speech_means self) (speech_stds self) kSpeechDataWeights (features ! channel) channel;
          h0_test = s32 (np ! 0 + np ! 1);
          h1_test = s32 (sp ! 0 + sp ! 1);
          shifts_h0 = (if h0_test = 0 then 31 else WebRtcSpl_NormW32 h0_test);
          shifts_h1 = (if h1_test = 0 then 31 else WebRtcSpl_NormW32 h1_test)
      in \<lparr>log_likelihood_ratio = s16 (shifts_h0 - shifts_h1),
          ngprvec = conditional (np ! 0) (s16 (shr h0_test 12)) [16384, 0],
          sgprvec = conditional (sp ! 0) (s16 (shr h1_test 12)) [0, 0],
          deltaN = dN, deltaS = dS\<rparr>)"

text \<open>The decision: a local test of each channel and a global one.\<close>

definition speech_decision :: "likelihood list \<Rightarrow> int \<Rightarrow> int \<Rightarrow> bool" where
  "speech_decision ls individualTest totalTest =
     (list_ex (\<lambda>l. shl (log_likelihood_ratio l) 2 > individualTest) ls \<or>
      fold (\<lambda>channel sum_log. s32 (sum_log + s32 (log_likelihood_ratio (ls ! channel) * kSpectrumWeight ! channel)))
        [0..<kNumChannels] 0 \<ge> totalTest)"

section \<open>Adaptation\<close>

definition updated_noise_mean :: "bool \<Rightarrow> likelihood \<Rightarrow> nat \<Rightarrow> nat \<Rightarrow> int \<Rightarrow> int \<Rightarrow> int \<Rightarrow> int" where
  "updated_noise_mean vadflag l channel k feature_minimum tmp1_s16 nmk =
     (let nmk2 = (if \<not> vadflag then
                    let delt = s16 (shr (ngprvec l ! k * deltaN l ! k) 11)
                    in s16 (nmk + s16 (shr (delt * kNoiseUpdateConst) 22))
                  else nmk);
          ndelt = s16 (shl feature_minimum 4 - tmp1_s16);
          nmk3 = s16 (nmk2 + s16 (shr (ndelt * kBackEta) 9));
          low = s16 (shl (int k + 5) 7);
          nmk3 = (if nmk3 < low then low else nmk3);
          high = s16 (shl (72 + int k - int channel) 7)
      in if nmk3 > high then high else nmk3)"

definition updated_speech_mean :: "likelihood \<Rightarrow> nat \<Rightarrow> int \<Rightarrow> int \<Rightarrow> int" where
  "updated_speech_mean l k maxspe smk =
     (let delt = s16 (shr (sgprvec l ! k * deltaS l ! k) 11);
          tmp_s16 = s16 (shr (delt * kSpeechUpdateConst) 21);
          smk2 = s16 (smk + shr (tmp_s16 + 1) 1);
          maxmu = s16 (maxspe + 640);
          smk2 = (if smk2 < kMinimumMean ! k then kMinimumMean ! k else smk2)
      in if smk2 > maxmu then maxmu else smk2)"

definition updated_speech_std :: "likelihood \<Rightarrow> nat \<Rightarrow> int \<Rightarrow> int \<Rightarrow> int \<Rightarrow> int" where
  "updated_speech_std l k feature smk ssk =
     (let tmp_s16 = s16 (feature - s16 (shr (smk + 4) 3));
          tmp2_s32 = s32 (shr (deltaS l ! k * tmp_s16) 3 - 4096);
          tmp1_s32 = s32 (shr (sgprvec l ! k) 2 * tmp2_s32);
          tmp2_s32 = shr tmp1_s32 4;
          tmp_s16 = (if tmp2_s32 > 0 then s16 (WebRtcSpl_DivW32W16 tmp2_s32 (s16 (ssk * 10)))
                     else s16 (- s16 (WebRtcSpl_DivW32W16 (s32 (- tmp2_s32)) (s16 (ssk * 10)))));
          tmp_s16 = s16 (tmp_s16 + 128);
          ssk = s16 (ssk + shr tmp_s16 8)
      in if ssk < kMinStd then kMinStd else ssk)"

definition updated_noise_std :: "likelihood \<Rightarrow> nat \<Rightarrow> int \<Rightarrow> int \<Rightarrow> int \<Rightarrow> int" where
  "updated_noise_std l k feature nmk nsk =
     (let tmp_s16 = s16 (feature - shr nmk 3);
          tmp1_s32 = s32 (shr (deltaN l ! k * tmp_s16) 3 - 4096);
          tmp_s16 = s16 (shr (ngprvec l ! k + 2) 2);
          tmp2_s32 = s32 (tmp_s16 * tmp1_s32);
          tmp1_s32 = shr tmp2_s32 14;
          tmp_s16 = (if tmp1_s32 > 0 then s16 (WebRtcSpl_DivW32W16 tmp1_s32 nsk)
                     else s16 (- s16 (WebRtcSpl_DivW32W16 (s32 (- tmp1_s32)) nsk)));
          tmp_s16 = s16 (tmp_s16 + 32);
          nsk = s16 (nsk + shr tmp_s16 6)
      in if nsk < kMinStd then kMinStd else nsk)"

definition update_gaussian :: "bool \<Rightarrow> likelihood \<Rightarrow> int \<Rightarrow> nat \<Rightarrow> int \<Rightarrow> int \<Rightarrow> int \<Rightarrow> nat \<Rightarrow> VadInstT \<Rightarrow> VadInstT" where
  "update_gaussian vadflag l feature channel feature_minimum tmp1_s16 maxspe k self =
     (let g = gaussian channel k;
          nmk = noise_means self ! g; smk = speech_means self ! g; nsk = noise_stds self ! g; ssk = speech_stds self ! g
      in self\<lparr>noise_means := (noise_means self)[g := updated_noise_mean vadflag l channel k feature_minimum tmp1_s16 nmk],
           speech_means := (if vadflag then (speech_means self)[g := updated_speech_mean l k maxspe smk] else speech_means self),
           speech_stds := (if vadflag then (speech_stds self)[g := updated_speech_std l k feature smk ssk] else speech_stds self),
           noise_stds := (if vadflag then noise_stds self else (noise_stds self)[g := updated_noise_std l k feature nmk nsk])\<rparr>)"

text \<open>Models that are too close are moved apart; the results are the means and the global means.\<close>

definition separate_models :: "nat \<Rightarrow> int list \<Rightarrow> int list \<Rightarrow> (int list \<times> int) \<times> (int list \<times> int)" where
  "separate_models channel nmeans smeans =
     (let (nmeans, noise_global_mean) = WeightedAverage nmeans channel 0 kNoiseDataWeights;
          (smeans, speech_global_mean) = WeightedAverage smeans channel 0 kSpeechDataWeights;
          diff = s16 (s16 (shr speech_global_mean 9) - s16 (shr noise_global_mean 9))
      in if diff < kMinimumDifference ! channel then
           let tmp_s16 = s16 (kMinimumDifference ! channel - diff);
               tmp1_s16 = s16 (shr (13 * tmp_s16) 2);
               tmp2_s16 = s16 (shr (3 * tmp_s16) 2)
           in (WeightedAverage nmeans channel (s16 (- tmp2_s16)) kNoiseDataWeights,
               WeightedAverage smeans channel tmp1_s16 kSpeechDataWeights)
         else ((nmeans, noise_global_mean), (smeans, speech_global_mean)))"

text \<open>Means that have drifted above the limit are moved back.\<close>

definition limit_means :: "nat \<Rightarrow> int list \<Rightarrow> int \<Rightarrow> int \<Rightarrow> int list" where
  "limit_means channel means global_mean limit =
     (let tmp2_s16 = s16 (shr global_mean 7)
      in if tmp2_s16 > limit then
           let tmp2_s16 = s16 (tmp2_s16 - limit)
           in fold (\<lambda>k means. means[gaussian channel k := s16 (means ! gaussian channel k - tmp2_s16)]) [0..<kNumGaussians] means
         else means)"

text \<open>The second loop: one channel. The limit of the speech means is the one of the channel before.\<close>

definition update_channel :: "bool \<Rightarrow> likelihood list \<Rightarrow> int list \<Rightarrow> nat \<Rightarrow> VadInstT \<Rightarrow> VadInstT" where
  "update_channel vadflag ls features channel self =
     (let (self, feature_minimum) = WebRtcVad_FindMinimum self (features ! channel) channel;
          (nmeans, noise_global_mean) = WeightedAverage (noise_means self) channel 0 kNoiseDataWeights;
          tmp1_s16 = s16 (shr noise_global_mean 6);
          maxspe = (if channel = 0 then 12800 else kMaximumSpeech ! (channel - 1));
          self = fold (update_gaussian vadflag (ls ! channel) (features ! channel) channel feature_minimum tmp1_s16 maxspe)
            [0..<kNumGaussians] (self\<lparr>noise_means := nmeans\<rparr>);
          ((nmeans, noise_global_mean), (smeans, speech_global_mean)) = separate_models channel (noise_means self) (speech_means self)
      in self\<lparr>speech_means := limit_means channel smeans speech_global_mean (kMaximumSpeech ! channel),
           noise_means := limit_means channel nmeans noise_global_mean (kMaximumNoise ! channel)\<rparr>)"

section \<open>The decision of a frame\<close>

text \<open>Smoothing over frames: the new hangover, the new count of frames with speech, and the result.\<close>

definition hysteresis :: "int \<Rightarrow> int \<Rightarrow> int \<times> int \<Rightarrow> bool \<Rightarrow> (int \<times> int) \<times> int" where
  "hysteresis overhead1 overhead2 = (\<lambda>(over, num) vadflag.
     if \<not> vadflag then if over > 0 then ((s16 (over - 1), 0), s16 (2 + over)) else ((over, 0), 0)
     else let num = s16 (num + 1)
          in if num > kMaxSpeechFrames then ((overhead2, kMaxSpeechFrames), 1) else ((overhead1, num), 1))"

definition length_index :: "nat \<Rightarrow> nat" where
  "length_index frame_length = (if frame_length = 80 then 0 else if frame_length = 160 then 1 else 2)"

definition GmmProbability :: "VadInstT \<Rightarrow> int list \<Rightarrow> int \<Rightarrow> nat \<Rightarrow> VadInstT \<times> int" where
  "GmmProbability self features total_power frame_length =
     (let i = length_index frame_length;
          (self, vadflag) =
            (if total_power > kMinEnergy then
               let ls = map (channel_likelihood self features) [0..<kNumChannels];
                   vadflag = speech_decision ls (individual self ! i) (total self ! i);
                   self = fold (update_channel vadflag ls features) [0..<kNumChannels] self
               in (self\<lparr>frame_counter := s32 (frame_counter self + 1)\<rparr>, vadflag)
             else (self, False));
          ((over, num), result) =
            hysteresis (over_hang_max_1 self ! i) (over_hang_max_2 self ! i) (over_hang self, num_of_speech self) vadflag
      in (self\<lparr>over_hang := over, num_of_speech := num\<rparr>, result))"

section \<open>Initialisation and modes\<close>

definition kOverHangMax1Q :: "int list" where "kOverHangMax1Q = [8, 4, 3]"
definition kOverHangMax2Q :: "int list" where "kOverHangMax2Q = [14, 7, 5]"
definition kLocalThresholdQ :: "int list" where "kLocalThresholdQ = [24, 21, 24]"
definition kGlobalThresholdQ :: "int list" where "kGlobalThresholdQ = [57, 48, 57]"
definition kOverHangMax1LBR :: "int list" where "kOverHangMax1LBR = [8, 4, 3]"
definition kOverHangMax2LBR :: "int list" where "kOverHangMax2LBR = [14, 7, 5]"
definition kLocalThresholdLBR :: "int list" where "kLocalThresholdLBR = [37, 32, 37]"
definition kGlobalThresholdLBR :: "int list" where "kGlobalThresholdLBR = [100, 80, 100]"
definition kOverHangMax1AGG :: "int list" where "kOverHangMax1AGG = [6, 3, 2]"
definition kOverHangMax2AGG :: "int list" where "kOverHangMax2AGG = [9, 5, 3]"
definition kLocalThresholdAGG :: "int list" where "kLocalThresholdAGG = [82, 78, 82]"
definition kGlobalThresholdAGG :: "int list" where "kGlobalThresholdAGG = [285, 260, 285]"
definition kOverHangMax1VAG :: "int list" where "kOverHangMax1VAG = [6, 3, 2]"
definition kOverHangMax2VAG :: "int list" where "kOverHangMax2VAG = [9, 5, 3]"
definition kLocalThresholdVAG :: "int list" where "kLocalThresholdVAG = [94, 94, 94]"
definition kGlobalThresholdVAG :: "int list" where "kGlobalThresholdVAG = [1100, 1050, 1100]"

definition mode_tables :: "int list \<Rightarrow> int list \<Rightarrow> int list \<Rightarrow> int list \<Rightarrow> VadInstT \<Rightarrow> VadInstT" where
  "mode_tables max_1 max_2 loc glob self = self\<lparr>over_hang_max_1 := max_1, over_hang_max_2 := max_2, individual := loc, total := glob\<rparr>"

definition WebRtcVad_set_mode_core :: "VadInstT \<Rightarrow> int \<Rightarrow> VadInstT \<times> int" where
  "WebRtcVad_set_mode_core self mode =
     (if mode = 0 then (mode_tables kOverHangMax1Q kOverHangMax2Q kLocalThresholdQ kGlobalThresholdQ self, 0)
      else if mode = 1 then (mode_tables kOverHangMax1LBR kOverHangMax2LBR kLocalThresholdLBR kGlobalThresholdLBR self, 0)
      else if mode = 2 then (mode_tables kOverHangMax1AGG kOverHangMax2AGG kLocalThresholdAGG kGlobalThresholdAGG self, 0)
      else if mode = 3 then (mode_tables kOverHangMax1VAG kOverHangMax2VAG kLocalThresholdVAG kGlobalThresholdVAG self, 0)
      else (self, - 1))"

definition WebRtcVad_InitCore :: "VadInstT \<Rightarrow> VadInstT \<times> int" where
  "WebRtcVad_InitCore self =
     (let self = self\<lparr>vad := 1, frame_counter := 0, over_hang := 0, num_of_speech := 0,
            downsampling_filter_states := replicate 4 0, state_48_to_8 := WebRtcSpl_ResetResample48khzTo8khz,
            noise_means := kNoiseDataMeans, speech_means := kSpeechDataMeans, noise_stds := kNoiseDataStds, speech_stds := kSpeechDataStds,
            low_value_vector := replicate (16 * kNumChannels) 10000, index_vector := replicate (16 * kNumChannels) 0,
            upper_state := replicate 5 0, lower_state := replicate 5 0, hp_filter_state := replicate 4 0,
            mean_values := replicate kNumChannels 1600\<rparr>;
          (self, r) = WebRtcVad_set_mode_core self kDefaultMode
      in if r \<noteq> 0 then (self, - 1) else (self\<lparr>init_flag := kInitCheck\<rparr>, 0))"

section \<open>The four rates\<close>

definition WebRtcVad_CalcVad8khz :: "VadInstT \<Rightarrow> int list \<Rightarrow> nat \<Rightarrow> VadInstT \<times> int" where
  "WebRtcVad_CalcVad8khz inst speech_frame frame_length =
     (let (inst, feature_vector, total_power) = WebRtcVad_CalculateFeatures inst speech_frame frame_length;
          (inst, v) = GmmProbability inst feature_vector total_power frame_length
      in (inst\<lparr>vad := v\<rparr>, v))"

definition WebRtcVad_CalcVad16khz :: "VadInstT \<Rightarrow> int list \<Rightarrow> nat \<Rightarrow> VadInstT \<times> int" where
  "WebRtcVad_CalcVad16khz inst speech_frame frame_length =
     (let (st, speechNB) = WebRtcVad_Downsampling speech_frame (take 2 (downsampling_filter_states inst)) frame_length
      in WebRtcVad_CalcVad8khz
           (inst\<lparr>downsampling_filter_states := blit (downsampling_filter_states inst) 0 st\<rparr>) speechNB (frame_length div 2))"

definition WebRtcVad_CalcVad32khz :: "VadInstT \<Rightarrow> int list \<Rightarrow> nat \<Rightarrow> VadInstT \<times> int" where
  "WebRtcVad_CalcVad32khz inst speech_frame frame_length =
     (let (st, speechWB) = WebRtcVad_Downsampling speech_frame (drop 2 (downsampling_filter_states inst)) frame_length;
          inst = inst\<lparr>downsampling_filter_states := blit (downsampling_filter_states inst) 2 st\<rparr>;
          len = frame_length div 2;
          (st, speechNB) = WebRtcVad_Downsampling speechWB (take 2 (downsampling_filter_states inst)) len;
          inst = inst\<lparr>downsampling_filter_states := blit (downsampling_filter_states inst) 0 st\<rparr>
      in WebRtcVad_CalcVad8khz inst speechNB (len div 2))"

text \<open>Each turn of the loop gets the start of \<open>speech_frame\<close>.\<close>

definition WebRtcVad_CalcVad48khz :: "VadInstT \<Rightarrow> int list \<Rightarrow> nat \<Rightarrow> VadInstT \<times> int" where
  "WebRtcVad_CalcVad48khz inst speech_frame frame_length =
     (let num_10ms_frames = frame_length div 480;
          (st, outs) = mealy (\<lambda>st i. WebRtcSpl_Resample48khzTo8khz st speech_frame) (state_48_to_8 inst) [0..<num_10ms_frames]
      in WebRtcVad_CalcVad8khz (inst\<lparr>state_48_to_8 := st\<rparr>) (concat outs) (frame_length div 6))"

section \<open>The interface\<close>

definition kValidRates :: "int list" where "kValidRates = [8000, 16000, 32000, 48000]"
definition kMaxFrameLengthMs :: nat where "kMaxFrameLengthMs = 30"

definition WebRtcVad_ValidRateAndFrameLength :: "int \<Rightarrow> nat \<Rightarrow> int" where
  "WebRtcVad_ValidRateAndFrameLength rate frame_length =
     (if list_ex (\<lambda>r. r = rate \<and> list_ex (\<lambda>ms. int frame_length = cdiv r 1000 * int ms) (upt_by 10 (Suc kMaxFrameLengthMs) 10)) kValidRates
      then 0 else - 1)"

definition WebRtcVad_Create :: "VadInstT \<Rightarrow> VadInstT" where
  "WebRtcVad_Create self = self\<lparr>init_flag := 0\<rparr>"

definition WebRtcVad_Init :: "VadInstT option \<Rightarrow> VadInstT option \<times> int" where
  "WebRtcVad_Init handle =
     (case handle of None \<Rightarrow> (None, - 1) | Some self \<Rightarrow> let (self, r) = WebRtcVad_InitCore self in (Some self, r))"

definition WebRtcVad_set_mode :: "VadInstT option \<Rightarrow> int \<Rightarrow> VadInstT option \<times> int" where
  "WebRtcVad_set_mode handle mode =
     (case handle of None \<Rightarrow> (None, - 1)
      | Some self \<Rightarrow>
          if init_flag self \<noteq> kInitCheck then (Some self, - 1)
          else let (self, r) = WebRtcVad_set_mode_core self mode in (Some self, r))"

definition WebRtcVad_Process :: "VadInstT option \<Rightarrow> int \<Rightarrow> int list option \<Rightarrow> nat \<Rightarrow> VadInstT option \<times> int" where
  "WebRtcVad_Process handle fs audio_frame frame_length =
     (case handle of None \<Rightarrow> (None, - 1)
      | Some self \<Rightarrow>
          if init_flag self \<noteq> kInitCheck then (Some self, - 1)
          else case audio_frame of None \<Rightarrow> (Some self, - 1)
          | Some frame \<Rightarrow>
              if WebRtcVad_ValidRateAndFrameLength fs frame_length \<noteq> 0 then (Some self, - 1)
              else let (self, v) =
                     (if fs = 48000 then WebRtcVad_CalcVad48khz self frame frame_length
                      else if fs = 32000 then WebRtcVad_CalcVad32khz self frame frame_length
                      else if fs = 16000 then WebRtcVad_CalcVad16khz self frame frame_length
                      else if fs = 8000 then WebRtcVad_CalcVad8khz self frame frame_length
                      else (self, - 1))
                   in (Some self, if v > 0 then 1 else v))"

end
