(* ===== verification/Vad_Inv.thy ===== *)
theory Vad_Inv
  imports Vad_Core
begin

text \<open>
  What holds of the voice activity detector: the minima of the past refine a list of values with ages, the hangover
  is a function of the gap since the last speech and of its length, and every sequence of calls keeps the state in shape.
\<close>

section \<open>The minima\<close>

text \<open>
  The pass over the ages, on pairs of a value and its age: a pair of age 100 goes, and the next one is in its place
  when the pass has gone by.
\<close>

function ageing :: "(int \<times> int) list \<Rightarrow> (int \<times> int) list" where
  "ageing [] = []"
| "ageing ((v, a) # ps) =
     (if a \<noteq> 100 then (v, s16 (a + 1)) # ageing ps
      else hd (ps @ [(10000, 101)]) # ageing (tl (ps @ [(10000, 101)])))"
  by pat_completeness auto
termination by (relation "measure length") auto

definition insert_value :: "int \<Rightarrow> (int \<times> int) list \<Rightarrow> (int \<times> int) list" where
  "insert_value x ps = take 16 (takeWhile (\<lambda>(v, a). v \<le> x) ps @ (x, 1) # dropWhile (\<lambda>(v, a). v \<le> x) ps)"

definition minima_ok :: "(int \<times> int) list \<Rightarrow> bool" where
  "minima_ok ps \<longleftrightarrow> length ps = 16 \<and> sorted (map fst ps) \<and> list_all (\<lambda>(v, a). - 32768 \<le> v \<and> v \<le> 10000) ps"

definition pairs :: "int list \<times> int list \<Rightarrow> (int \<times> int) list" where
  "pairs = (\<lambda>(age, smallest_values). zip smallest_values age)"

lemma length_ageing [simp]: "length (ageing ps) = length ps"
  by (induction ps rule: ageing.induct) auto

lemma zip_shift:
  assumes "length xs = length ys" "i < length xs"
  shows "zip (take i xs @ drop (i + 1) xs @ [x]) (take i ys @ drop (i + 1) ys @ [y]) =
    take i (zip xs ys) @ drop (i + 1) (zip xs ys) @ [(x, y)]"
  using assms by (simp add: zip_append take_zip drop_zip)

text \<open>One turn of the loop at an element that the pass has not reached.\<close>

lemma age_step_pairs:
  assumes "length age = length sv" "i < length sv"
  defines "r \<equiv> age_step i (age, sv)"
  shows "length (fst r) = length sv" "length (snd r) = length sv"
    "pairs r = (let ps = pairs (age, sv) in
       if snd (ps ! i) \<noteq> 100 then ps[i := (fst (ps ! i), s16 (snd (ps ! i) + 1))]
       else take i ps @ drop (i + 1) ps @ [(10000, 101)])"
proof -
  show "length (fst r) = length sv" "length (snd r) = length sv" using assms by (auto simp: age_step_def)
  have n: "zip sv age ! i = (sv ! i, age ! i)" using assms by simp
  have "zip sv (age[i := y]) = (zip sv age)[i := (sv ! i, y)]" for y
    using update_zip [of sv age i "(sv ! i, y)"] assms by simp
  then show "pairs r = (let ps = pairs (age, sv) in
       if snd (ps ! i) \<noteq> 100 then ps[i := (fst (ps ! i), s16 (snd (ps ! i) + 1))]
       else take i ps @ drop (i + 1) ps @ [(10000, 101)])"
    using zip_shift [of sv age i 10000 101] assms by (simp add: age_step_def pairs_def n Let_def)
qed

lemma ageing_fold:
  assumes "length age = 16" "length sv = 16" "i \<le> 16"
  shows "\<exists>age' sv'. fold age_step [i..<16] (age, sv) = (age', sv') \<and> length age' = 16 \<and> length sv' = 16 \<and>
    pairs (age', sv') = take i (pairs (age, sv)) @ ageing (drop i (pairs (age, sv)))"
  using assms
proof (induction "16 - i" arbitrary: i age sv)
  case 0
  then show ?case by (simp add: pairs_def)
next
  case (Suc n)
  then have i: "i < 16" by simp
  obtain age1 sv1 where r: "age_step i (age, sv) = (age1, sv1)" by (rule prod.exhaust)
  note s = age_step_pairs [of age sv i, unfolded r fst_conv snd_conv]
  let ?ps = "pairs (age, sv)" and ?qs = "pairs (age1, sv1)"
  have l: "length age1 = 16" "length sv1 = 16" "length ?ps = 16" using s(1,2) Suc.prems i by (simp_all add: pairs_def)
  have q: "?qs = (if snd (?ps ! i) \<noteq> 100 then ?ps[i := (fst (?ps ! i), s16 (snd (?ps ! i) + 1))]
       else take i ?ps @ drop (i + 1) ?ps @ [(10000, 101)])"
    using s(3) Suc.prems i by (simp add: Let_def)
  have d: "drop i ?ps = (fst (?ps ! i), snd (?ps ! i)) # drop (Suc i) ?ps"
    using i l(3) Cons_nth_drop_Suc [of i ?ps] by simp
  have "take (Suc i) ?qs @ ageing (drop (Suc i) ?qs) = take i ?ps @ ageing (drop i ?ps)"
  proof (cases "snd (?ps ! i) = 100")
    case True
    let ?rest = "drop (Suc i) ?ps @ [(10000, 101)]"
    have "take (Suc i) ?qs = take i ?ps @ [hd ?rest]" "drop (Suc i) ?qs = tl ?rest"
      using True q i l(3) by (cases ?rest; simp)+
    then show ?thesis unfolding d ageing.simps using True by simp
  next
    case False
    then have "take (Suc i) ?qs = take i ?ps @ [(fst (?ps ! i), s16 (snd (?ps ! i) + 1))]" "drop (Suc i) ?qs = drop (Suc i) ?ps"
      using q i l(3) by (simp_all add: take_Suc_conv_app_nth)
    then show ?thesis unfolding d ageing.simps using False by simp
  qed
  moreover have "fold age_step [i..<16] (age, sv) = fold age_step [Suc i..<16] (age1, sv1)"
    using i r by (simp add: upt_conv_Cons)
  moreover have "n = 16 - Suc i" using Suc.hyps(2) by simp
  ultimately show ?case using Suc.hyps(1) [of "Suc i" age1 sv1] l i by simp
qed

text \<open>The binary search finds the first larger value.\<close>

lemma sorted_less_iff:
  assumes "sorted (xs :: int list)" "i < length xs"
  shows "x < xs ! i \<longleftrightarrow> length (takeWhile (\<lambda>v. v \<le> x) xs) \<le> i"
proof
  assume x: "x < xs ! i"
  show "length (takeWhile (\<lambda>v. v \<le> x) xs) \<le> i"
  proof (rule ccontr)
    assume "\<not> length (takeWhile (\<lambda>v. v \<le> x) xs) \<le> i"
    then have i: "i < length (takeWhile (\<lambda>v. v \<le> x) xs)" by simp
    have "takeWhile (\<lambda>v. v \<le> x) xs ! i \<le> x" using set_takeWhileD [OF nth_mem [OF i]] by simp
    then show False using x takeWhile_nth [OF i] by simp
  qed
next
  assume n: "length (takeWhile (\<lambda>v. v \<le> x) xs) \<le> i"
  then have "\<not> xs ! length (takeWhile (\<lambda>v. v \<le> x) xs) \<le> x" using assms(2) by (intro nth_length_takeWhile) simp
  moreover have "xs ! length (takeWhile (\<lambda>v. v \<le> x) xs) \<le> xs ! i" using assms n by (intro sorted_nth_mono)
  ultimately show "x < xs ! i" by simp
qed

lemma find_position_eq:
  assumes "sorted sv" "length sv = 16"
  shows "find_position x sv = (let n = length (takeWhile (\<lambda>v. v \<le> x) sv) in if n < 16 then int n else - 1)"
proof -
  define n where "n = length (takeWhile (\<lambda>v. v \<le> x) sv)"
  have "x < sv ! i \<longleftrightarrow> n \<le> i" if "i < 16" for i using sorted_less_iff [OF assms(1), of i x] assms(2) that by (simp add: n_def)
  then have "find_position x sv = (if n < 16 then int n else - 1)"
    unfolding find_position_def by simp
  then show ?thesis by (simp add: n_def Let_def)
qed

lemma ageing_all: "P 10000 \<Longrightarrow> (\<forall>p \<in> set ps. P (fst p)) \<Longrightarrow> (\<forall>p \<in> set (ageing ps). P (fst p))"
proof (induction ps rule: ageing.induct)
  case (2 v a ps)
  let ?q = "ps @ [(10000, 101)]"
  have q: "\<forall>p \<in> set ?q. P (fst p)" using 2 by auto
  then have "P (fst (hd ?q))" "\<forall>p \<in> set (tl ?q). P (fst p)" by (cases ?q; auto)+
  then show ?case using 2 by auto
qed simp

lemma ageing_sorted: "sorted (map fst ps) \<Longrightarrow> (\<forall>p \<in> set ps. fst p \<le> 10000) \<Longrightarrow> sorted (map fst (ageing ps))"
proof (induction ps rule: ageing.induct)
  case (2 v a ps)
  show ?case
  proof (cases "a = 100")
    case True
    let ?q = "ps @ [(10000, 101)]"
    have q: "sorted (map fst ?q)" "\<forall>p \<in> set ?q. fst p \<le> 10000" using 2 by (auto simp: sorted_append)
    obtain h t where ht: "?q = h # t" by (cases ?q) auto
    have "sorted (map fst (ageing t))" using 2(2) True q ht by simp
    moreover have "\<forall>p \<in> set (ageing t). fst h \<le> fst p" using ageing_all [of "\<lambda>v. fst h \<le> v" t] q ht by auto
    ultimately show ?thesis using True ht by auto
  next
    case False
    then have "sorted (map fst (ageing ps))" "\<forall>p \<in> set (ageing ps). v \<le> fst p"
      using 2 ageing_all [of "\<lambda>u. v \<le> u" ps] by auto
    then show ?thesis using False by auto
  qed
qed simp

lemma minima_ok_iff:
  "minima_ok ps \<longleftrightarrow> length ps = 16 \<and> sorted (map fst ps) \<and> (\<forall>p \<in> set ps. - 32768 \<le> fst p \<and> fst p \<le> 10000)"
  unfolding minima_ok_def list_all_iff split_def ..

lemma ageing_ok:
  assumes "minima_ok ps"
  shows "minima_ok (ageing ps)"
proof -
  have ps: "\<forall>p \<in> set ps. - 32768 \<le> fst p \<and> fst p \<le> 10000" using assms by (simp add: minima_ok_iff)
  then have "\<forall>p \<in> set (ageing ps). - 32768 \<le> fst p \<and> fst p \<le> 10000"
    by (intro ageing_all [of "\<lambda>v. - 32768 \<le> v \<and> v \<le> 10000"]) simp_all
  moreover have "sorted (map fst (ageing ps))" using assms ps by (intro ageing_sorted) (simp_all add: minima_ok_iff)
  ultimately show ?thesis using assms by (simp add: minima_ok_iff)
qed

lemma insert_value_ok:
  assumes "minima_ok ps" "- 32768 \<le> x"
  shows "minima_ok (insert_value x ps)"
proof -
  let ?lo = "takeWhile (\<lambda>(v, a). v \<le> x) ps" and ?hi = "dropWhile (\<lambda>(v, a). v \<le> x) ps"
  have s: "sorted (map fst ?lo @ map fst ?hi)" using assms by (simp add: minima_ok_def flip: map_append)
  have lo: "\<forall>p \<in> set ?lo. fst p \<le> x" by (auto dest: set_takeWhileD)
  have hi: "\<forall>p \<in> set ?hi. x < fst p"
  proof (cases ?hi)
    case (Cons h t)
    then have "x < fst h" using hd_dropWhile [of "\<lambda>(v, a). v \<le> x" ps] by (auto simp: split_def)
    then show ?thesis using s Cons by (auto simp: sorted_append)
  next
    case Nil
    show ?thesis unfolding Nil by simp
  qed
  have sorted: "sorted (map fst (insert_value x ps))"
    unfolding insert_value_def take_map [symmetric] using s lo hi by (intro sorted_wrt_take) (auto simp: sorted_append less_imp_le)
  have le: "\<forall>p \<in> set ps. - 32768 \<le> fst p \<and> fst p \<le> 10000" using assms by (auto simp: minima_ok_def list_all_iff)
  have "\<forall>p \<in> set (insert_value x ps). - 32768 \<le> fst p \<and> fst p \<le> 10000"
  proof (cases ?hi)
    case Nil
    have e: "?lo = ps" using takeWhile_dropWhile_id [of "\<lambda>(v, a). v \<le> x" ps] unfolding Nil by (simp only: append_Nil2)
    have "insert_value x ps = ps" unfolding insert_value_def Nil e using assms by (simp add: minima_ok_def)
    then show ?thesis using le by simp
  next
    case (Cons h t)
    then have "h \<in> set ps" using set_dropWhileD [of h "\<lambda>(v, a). v \<le> x" ps] by simp
    then have "x < 10000" using hi Cons le by fastforce
    then have "\<forall>p \<in> set (?lo @ (x, 1) # ?hi). - 32768 \<le> fst p \<and> fst p \<le> 10000" using le assms(2) by (auto dest: set_takeWhileD set_dropWhileD)
    then show ?thesis unfolding insert_value_def by (meson in_set_takeD)
  qed
  then have all: "list_all (\<lambda>(v, a). - 32768 \<le> v \<and> v \<le> 10000) (insert_value x ps)" by (auto simp: list_all_iff)
  have "length (?lo @ (x, 1) # ?hi) = Suc (length ps)"
  proof -
    have "length ps = length (?lo @ ?hi)" by (simp only: takeWhile_dropWhile_id)
    then show ?thesis by (simp only: length_append length_Cons add_Suc_right)
  qed
  then have "length (insert_value x ps) = 16" unfolding insert_value_def length_take using assms by (simp add: minima_ok_def)
  then show ?thesis using sorted all by (simp add: minima_ok_def)
qed

lemma update_minima_eq:
  assumes "minima_ok (pairs (age, sv))" "length age = 16" "length sv = 16"
  shows "pairs (update_minima x (age, sv)) = insert_value x (ageing (pairs (age, sv)))"
    "length (fst (update_minima x (age, sv))) = 16" "length (snd (update_minima x (age, sv))) = 16"
proof -
  obtain age' sv' where f: "fold age_step [0..<16] (age, sv) = (age', sv')" and l: "length age' = 16" "length sv' = 16"
    and ps: "pairs (age', sv') = ageing (pairs (age, sv))"
    using ageing_fold [OF assms(2,3), of 0] by auto
  let ?ps = "pairs (age', sv')"
  have ok: "minima_ok ?ps" using ageing_ok [OF assms(1)] ps by simp
  have fst: "map fst ?ps = sv'" using l by (simp add: pairs_def)
  have sorted: "sorted sv'" using ok fst by (simp add: minima_ok_def)
  define n where "n = length (takeWhile (\<lambda>v. v \<le> x) sv')"
  have n: "length (takeWhile (\<lambda>(v, a). v \<le> x) ?ps) = n"
    using takeWhile_map [of "\<lambda>v. v \<le> x" fst ?ps] unfolding fst n_def by (simp add: o_def split_def)
  have n16: "n \<le> 16" using length_takeWhile_le [of "\<lambda>v. v \<le> x" sv'] l by (simp add: n_def)
  have iv: "insert_value x ?ps = take 16 (take n ?ps @ (x, 1) # drop n ?ps)"
    unfolding insert_value_def using n takeWhile_eq_take [of "\<lambda>(v, a). v \<le> x" ?ps] dropWhile_eq_drop [of "\<lambda>(v, a). v \<le> x" ?ps] by simp
  have u: "update_minima x (age, sv) = (if n < 16 then (insert_at n 1 age', insert_at n x sv') else (age', sv'))"
    using find_position_eq [OF sorted l(2), of x] by (auto simp: update_minima_def f Let_def n_def)
  show "length (fst (update_minima x (age, sv))) = 16" "length (snd (update_minima x (age, sv))) = 16"
    using u l by (auto simp: insert_at_def)
  show "pairs (update_minima x (age, sv)) = insert_value x (ageing (pairs (age, sv)))"
  proof (cases "n < 16")
    case True
    then have "pairs (insert_at n 1 age', insert_at n x sv') = take n ?ps @ (x, 1) # take (15 - n) (drop n ?ps)"
      using l by (simp add: pairs_def insert_at_def zip_append take_zip drop_zip)
    then show ?thesis using True u iv ps l by (simp add: pairs_def numeral_eq_Suc min_def Suc_diff_le)
  next
    case False
    then have "n = 16" using n16 by simp
    then show ?thesis using u iv ps l by (simp add: pairs_def)
  qed
qed

text \<open>The pairs of a channel of the detector.\<close>

definition minima :: "VadInstT \<Rightarrow> nat \<Rightarrow> (int \<times> int) list" where
  "minima self channel = pairs (take 16 (drop (16 * channel) (index_vector self)), take 16 (drop (16 * channel) (low_value_vector self)))"

definition minima_shape :: "VadInstT \<Rightarrow> bool" where
  "minima_shape self \<longleftrightarrow> length (index_vector self) = 96 \<and> length (low_value_vector self) = 96 \<and> length (mean_values self) = 6 \<and>
     list_all is_s16 (mean_values self) \<and> (\<forall>channel < 6. minima_ok (minima self channel))"

lemma slice_blit:
  assumes "length xs = 96" "length ys = 16" "c < 6" "d < 6"
  shows "take 16 (drop (16 * d) (blit xs (16 * c) ys)) = (if d = c then ys else take 16 (drop (16 * d) xs))"
proof (rule nth_equalityI)
  show "length (take 16 (drop (16 * d) (blit xs (16 * c) ys))) = length (if d = c then ys else take 16 (drop (16 * d) xs))"
    using assms by (simp add: length_blit)
  fix i assume "i < length (take 16 (drop (16 * d) (blit xs (16 * c) ys)))"
  then have i: "i < 16" by simp
  have "16 * d + i < 16 * c \<or> 16 * c + 16 \<le> 16 * d + i \<or> d = c" using i by arith
  then show "take 16 (drop (16 * d) (blit xs (16 * c) ys)) ! i = (if d = c then ys else take 16 (drop (16 * d) xs)) ! i"
    using i assms by (auto simp: nth_blit length_blit)
qed

lemma smoothing_between:
  fixes mean med alpha :: int
  assumes "is_s16 mean" "is_s16 med" "0 \<le> alpha" "alpha \<le> 32767"
  shows "s16 (shr (s32 (s32 (s32 ((alpha + 1) * mean) + (32767 - alpha) * med) + 16384)) 15) = shr ((alpha + 1) * mean + (32767 - alpha) * med + 16384) 15"
    "min mean med \<le> shr ((alpha + 1) * mean + (32767 - alpha) * med + 16384) 15"
    "shr ((alpha + 1) * mean + (32767 - alpha) * med + 16384) 15 \<le> max mean med"
proof -
  let ?x = "(alpha + 1) * mean + (32767 - alpha) * med"
  have a: "0 \<le> alpha + 1" "0 \<le> 32767 - alpha" using assms(3,4) by simp_all
  have "(alpha + 1) * min mean med + (32767 - alpha) * min mean med \<le> ?x"
    using a by (intro add_mono mult_left_mono) simp_all
  then have lo: "32768 * min mean med \<le> ?x" by (simp add: algebra_simps)
  have "?x \<le> (alpha + 1) * max mean med + (32767 - alpha) * max mean med"
    using a by (intro add_mono mult_left_mono) simp_all
  then have hi: "?x \<le> 32768 * max mean med" by (simp add: algebra_simps)
  have m: "- 32768 \<le> min mean med" "max mean med \<le> 32767" using assms(1,2) by (auto simp: is_s16_def)
  show r: "min mean med \<le> shr (?x + 16384) 15" "shr (?x + 16384) 15 \<le> max mean med"
    using lo hi by (simp_all add: shr_def)
  have "- 1073741824 \<le> ?x" "?x \<le> 1073709056" using lo hi m by linarith+
  then have "is_s32 (?x + 16384)" by (simp add: is_s32_def)
  moreover have "is_s16 (shr (?x + 16384) 15)" using r m unfolding is_s16_def by linarith
  ultimately show "s16 (shr (s32 (s32 (s32 ((alpha + 1) * mean) + (32767 - alpha) * med) + 16384)) 15) = shr (?x + 16384) 15"
    by (simp add: s32_id s16_id add.assoc)
qed

definition past_minimum :: "VadInstT \<Rightarrow> nat \<Rightarrow> int" where
  "past_minimum self channel =
     (if frame_counter self > 2 then fst (minima self channel ! 2) else if frame_counter self > 0 then fst (minima self channel ! 0) else 1600)"

lemma find_minimum_frame:
  assumes "minima_shape self" "channel < 6" "- 32768 \<le> x"
  defines "r \<equiv> WebRtcVad_FindMinimum self x channel"
  shows "\<exists>age sv mean. r = (self\<lparr>index_vector := age, low_value_vector := sv, mean_values := (mean_values self)[channel := mean]\<rparr>, mean)"
    "minima (fst r) channel = insert_value x (ageing (minima self channel))"
    "d < 6 \<Longrightarrow> d \<noteq> channel \<Longrightarrow> minima (fst r) d = minima self d"
    "min (mean_values self ! channel) (past_minimum (fst r) channel) \<le> snd r"
    "snd r \<le> max (mean_values self ! channel) (past_minimum (fst r) channel)"
    "minima_shape (fst r)"
proof -
  let ?age = "take 16 (drop (16 * channel) (index_vector self))" and ?sv = "take 16 (drop (16 * channel) (low_value_vector self))"
  have len: "length (index_vector self) = 96" "length (low_value_vector self) = 96" "length (mean_values self) = 6"
    and ok: "\<forall>channel < 6. minima_ok (minima self channel)" and s: "list_all is_s16 (mean_values self)"
    using assms(1) by (simp_all add: minima_shape_def)
  obtain age sv where u: "update_minima x (?age, ?sv) = (age, sv)" by (rule prod.exhaust)
  have m: "minima_ok (pairs (?age, ?sv))" using ok assms(2) by (simp add: minima_def)
  have 16: "length ?age = 16" "length ?sv = 16" using len assms(2) by simp_all
  note e = update_minima_eq [OF m 16, of x, unfolded u fst_conv snd_conv]
  define mean where "mean = snd r"
  have r: "r = (self\<lparr>index_vector := blit (index_vector self) (16 * channel) age,
      low_value_vector := blit (low_value_vector self) (16 * channel) sv, mean_values := (mean_values self)[channel := mean]\<rparr>, mean)"
    unfolding mean_def r_def WebRtcVad_FindMinimum_def u Let_def prod.case by simp
  then show "\<exists>age sv mean. r = (self\<lparr>index_vector := age, low_value_vector := sv, mean_values := (mean_values self)[channel := mean]\<rparr>, mean)"
    by blast
  have sl: "minima (fst r) d = (if d = channel then pairs (age, sv) else minima self d)" if "d < 6" for d
    using slice_blit [OF len(1) e(2) assms(2) that] slice_blit [OF len(2) e(3) assms(2) that] by (simp add: r minima_def)
  have new: "minima (fst r) channel = insert_value x (ageing (minima self channel))"
    using sl [OF assms(2)] e(1) by (simp add: minima_def)
  then show "minima (fst r) channel = insert_value x (ageing (minima self channel))" .
  show "d < 6 \<Longrightarrow> d \<noteq> channel \<Longrightarrow> minima (fst r) d = minima self d" using sl by simp
  have okc: "minima_ok (pairs (age, sv))"
    using insert_value_ok [OF ageing_ok [OF m] assms(3)] e(1) by simp
  have fst_sv: "fst (pairs (age, sv) ! i) = sv ! i" if "i < 16" for i using that e(2,3) by (simp add: pairs_def)
  have med: "past_minimum (fst r) channel = (if frame_counter self > 2 then sv ! 2 else if frame_counter self > 0 then sv ! 0 else 1600)"
    using sl [OF assms(2)] fst_sv by (simp add: past_minimum_def r)
  have "is_s16 (sv ! i)" if "i < 16" for i
  proof -
    have "pairs (age, sv) ! i \<in> set (pairs (age, sv))" using that okc by (intro nth_mem) (simp add: minima_ok_def)
    then have "- 32768 \<le> sv ! i \<and> sv ! i \<le> 10000" using okc fst_sv [OF that] by (auto simp: minima_ok_def list_all_iff split_def)
    then show ?thesis by (simp add: is_s16_def)
  qed
  then have sm: "is_s16 (past_minimum (fst r) channel)" unfolding med by (auto simp: is_s16_def)
  have so: "is_s16 (mean_values self ! channel)" using s len(3) assms(2) by (simp add: list_all_length)
  define alpha where "alpha = (if frame_counter self > 0 then
      if past_minimum (fst r) channel < mean_values self ! channel then kSmoothingDown else kSmoothingUp else 0)"
  have al: "0 \<le> alpha" "alpha \<le> 32767" by (auto simp: alpha_def kSmoothingDown_def kSmoothingUp_def)
  have mean: "mean = s16 (shr (s32 (s32 (s32 ((alpha + 1) * mean_values self ! channel) + (32767 - alpha) * past_minimum (fst r) channel) + 16384)) 15)"
    unfolding mean_def alpha_def med unfolding r_def WebRtcVad_FindMinimum_def u Let_def prod.case by simp
  note b = smoothing_between [OF so sm al]
  show "min (mean_values self ! channel) (past_minimum (fst r) channel) \<le> snd r"
    "snd r \<le> max (mean_values self ! channel) (past_minimum (fst r) channel)"
    using b unfolding mean_def [symmetric] mean by simp_all
  have "is_s16 mean" unfolding mean by simp
  then have "list_all is_s16 ((mean_values self)[channel := mean])" using s by (simp add: list_all_update)
  moreover have "\<forall>d < 6. minima_ok (minima (fst r) d)" using sl ok okc by auto
  ultimately show "minima_shape (fst r)" using len e(2,3) assms(2) by (simp add: r minima_shape_def length_blit)
qed

text \<open>
  C23. The minimum of the past. The values and ages of a channel refine a list of pairs: the pass over the ages removes
  the values that are 100 frames old, and a new value goes behind those that are not larger, pushing the largest of 16
  out; the binary search of the code finds that place. The values stay sorted and those of other channels as they are.
  The smoothed minimum that is returned lies between the old one and the third smallest value (the smallest in the
  first two frames, 1600 before), without any overflow.
\<close>

theorem find_minimum:
  assumes "minima_shape self" "channel < 6" "- 32768 \<le> x"
  shows "let (self', m) = WebRtcVad_FindMinimum self x channel in
    minima self' channel = insert_value x (ageing (minima self channel)) \<and>
    (\<forall>d < 6. d \<noteq> channel \<longrightarrow> minima self' d = minima self d) \<and> minima_shape self' \<and>
    min (mean_values self ! channel) (past_minimum self' channel) \<le> m \<and> m \<le> max (mean_values self ! channel) (past_minimum self' channel)"
  using find_minimum_frame [OF assms] by (simp add: split_def Let_def)

definition malloced_vad :: VadInstT where
  "malloced_vad = \<lparr>vad = 0, downsampling_filter_states = [], state_48_to_8 = WebRtcSpl_ResetResample48khzTo8khz,
     noise_means = [], speech_means = [], noise_stds = [], speech_stds = [], frame_counter = 0, over_hang = 0, num_of_speech = 0,
     index_vector = [], low_value_vector = [], mean_values = [], upper_state = [], lower_state = [], hp_filter_state = [],
     over_hang_max_1 = [], over_hang_max_2 = [], individual = [], total = [], init_flag = 7\<rparr>"

definition initial_vad :: VadInstT where "initial_vad = fst (WebRtcVad_InitCore malloced_vad)"

lemma slice_replicate: "16 * d + 16 \<le> n \<Longrightarrow> take 16 (drop (16 * d) (replicate n x)) = replicate 16 x"
  by simp

lemma initial_minima:
  assumes "length (index_vector self) = 96" "index_vector self = replicate 96 0" "low_value_vector self = replicate 96 10000"
    "mean_values self = replicate 6 1600"
  shows "minima_shape self"
proof -
  have "minima self d = replicate 16 (10000, 0)" if "d < 6" for d
  proof -
    have "16 * d + 16 \<le> 96" using that by simp
    then show ?thesis unfolding minima_def assms(2,3) slice_replicate by (simp add: pairs_def zip_replicate)
  qed
  moreover have "minima_ok (replicate 16 (10000, 0))" by (simp add: minima_ok_iff sorted_replicate)
  ultimately show ?thesis using assms by (simp add: minima_shape_def is_s16_def list_all_iff)
qed

lemma find_minimum_witness:
  "let (self', m) = WebRtcVad_FindMinimum initial_vad 500 3 in
    minima self' 3 = insert_value 500 (ageing (minima initial_vad 3)) \<and>
    (\<forall>d < 6. d \<noteq> 3 \<longrightarrow> minima self' d = minima initial_vad d) \<and> minima_shape self' \<and>
    min (mean_values initial_vad ! 3) (past_minimum self' 3) \<le> m \<and> m \<le> max (mean_values initial_vad ! 3) (past_minimum self' 3)"
proof (rule find_minimum)
  show "minima_shape initial_vad"
    by (rule initial_minima) (simp_all add: initial_vad_def WebRtcVad_InitCore_def WebRtcVad_set_mode_core_def mode_tables_def
        kDefaultMode_def kNumChannels_def Let_def)
qed simp_all

section \<open>The hangover\<close>

text \<open>The frames since the last one with speech, and the frames with speech in a row up to there.\<close>

definition gap :: "bool list \<Rightarrow> nat" where "gap flags = length (takeWhile Not (rev flags))"
definition speech_run :: "bool list \<Rightarrow> nat" where "speech_run flags = length (takeWhile (\<lambda>f. f) (dropWhile Not (rev flags)))"

definition hang :: "int \<Rightarrow> int \<Rightarrow> bool list \<Rightarrow> int" where
  "hang overhead1 overhead2 flags =
     (if speech_run flags = 0 then 0 else if speech_run flags > 6 then overhead2 else overhead1)"

lemma gap_append [simp]: "gap (flags @ [True]) = 0" "gap (flags @ [False]) = Suc (gap flags)" "gap [] = 0"
  by (simp_all add: gap_def)

lemma speech_run_append [simp]:
  "speech_run (flags @ [False]) = speech_run flags"
  "speech_run (flags @ [True]) = (if gap flags = 0 then Suc (speech_run flags) else 1)" "speech_run [] = 0"
proof -
  show "speech_run (flags @ [True]) = (if gap flags = 0 then Suc (speech_run flags) else 1)"
    by (cases flags rule: rev_cases) (auto simp: speech_run_def gap_def)
qed (simp_all add: speech_run_def)

definition hang_state :: "int \<Rightarrow> int \<Rightarrow> bool list \<Rightarrow> int \<times> int" where
  "hang_state overhead1 overhead2 flags =
     (max 0 (hang overhead1 overhead2 flags - int (gap flags)), if gap flags = 0 then min 6 (int (speech_run flags)) else 0)"

lemma hysteresis_step:
  assumes "0 \<le> o1" "o1 \<le> 32000" "0 \<le> o2" "o2 \<le> 32000"
  shows "fst (hysteresis o1 o2 (hang_state o1 o2 flags) f) = hang_state o1 o2 (flags @ [f])"
    "snd (hysteresis o1 o2 (hang_state o1 o2 flags) f) > 0 \<longleftrightarrow> f \<or> int (gap (flags @ [f])) \<le> hang o1 o2 (flags @ [f])"
    "snd (hysteresis o1 o2 (hang_state o1 o2 flags) f) \<ge> 0"
  using assms by (cases f; auto simp: hysteresis_def hang_state_def hang_def s16_def kMaxSpeechFrames_def max_def min_def)+

lemma hysteresis_run:
  assumes "0 \<le> o1" "o1 \<le> 32000" "0 \<le> o2" "o2 \<le> 32000"
  shows "\<forall>t < length flags. 0 < snd (mealy (hysteresis o1 o2) (hang_state o1 o2 before) flags) ! t \<longleftrightarrow>
    flags ! t \<or> int (gap (before @ take (t + 1) flags)) \<le> hang o1 o2 (before @ take (t + 1) flags)"
proof (induction flags arbitrary: before)
  case (Cons f flags)
  show ?case
  proof (intro allI impI)
    fix t assume t: "t < length (f # flags)"
    note s = hysteresis_step [OF assms, of before f]
    show "0 < snd (mealy (hysteresis o1 o2) (hang_state o1 o2 before) (f # flags)) ! t \<longleftrightarrow>
      (f # flags) ! t \<or> int (gap (before @ take (t + 1) (f # flags))) \<le> hang o1 o2 (before @ take (t + 1) (f # flags))"
    proof (cases t)
      case 0
      then show ?thesis using s by (simp add: split_def Let_def)
    next
      case (Suc u)
      then show ?thesis using Cons.IH [of "before @ [f]"] s(1) t by (simp add: split_def Let_def)
    qed
  qed
qed simp

text \<open>
  The hangover. From the initial state, a frame counts as speech exactly when the test for it succeeds, or when
  the last frame for which it did is not longer ago than the hangover: none before any speech, the first value of the mode
  after up to six frames of speech in a row, the second one after more.
\<close>

theorem hangover:
  assumes "0 \<le> overhead1" "overhead1 \<le> 32000" "0 \<le> overhead2" "overhead2 \<le> 32000" "t < length flags"
  shows "0 < snd (mealy (hysteresis overhead1 overhead2) (0, 0) flags) ! t \<longleftrightarrow>
    flags ! t \<or> int (gap (take (t + 1) flags)) \<le> hang overhead1 overhead2 (take (t + 1) flags)"
  using hysteresis_run [OF assms(1-4), of flags "[]"] assms(5) by (simp add: hang_state_def hang_def)

lemma hangover_witness:
  "0 < snd (mealy (hysteresis 3 5) (0, 0) (replicate 7 True @ replicate 6 False)) ! 11 \<and>
   \<not> 0 < snd (mealy (hysteresis 3 5) (0, 0) (replicate 7 True @ replicate 6 False)) ! 12"
proof -
  have "hang 3 5 (take 12 (replicate 7 True @ replicate 6 False)) = 5" "gap (take 12 (replicate 7 True @ replicate 6 False)) = 5"
    "hang 3 5 (take 13 (replicate 7 True @ replicate 6 False)) = 5" "gap (take 13 (replicate 7 True @ replicate 6 False)) = 6"
    by code_simp+
  then show ?thesis using hangover [of 3 5 11 "replicate 7 True @ replicate 6 False"]
      hangover [of 3 5 12 "replicate 7 True @ replicate 6 False"] by (simp add: nth_append)
qed

section \<open>48 kHz\<close>

text \<open>
  At 48 kHz only the first 10 ms of a frame count: the pointer into the frame is not advanced, each turn of the
  loop resamples the first 480 samples again. Frames of 20 or 30 ms that agree there give the same decision and leave
  the same state, whatever follows.
\<close>

theorem only_first_10ms:
  assumes "take 480 frame = take 480 frame'"
  shows "WebRtcVad_CalcVad48khz self frame frame_length = WebRtcVad_CalcVad48khz self frame' frame_length"
proof -
  have "frame ! i = frame' ! i" if "i < 480" for i using arg_cong [OF assms, of "\<lambda>xs. xs ! i"] that by simp
  then have "evens frame 240 = evens frame' 240" "odds frame 240 = odds frame' 240" by (auto simp: evens_def odds_def)
  then have "WebRtcSpl_DownBy2ShortToInt frame 480 = WebRtcSpl_DownBy2ShortToInt frame' 480"
    by (simp add: fun_eq_iff WebRtcSpl_DownBy2ShortToInt_def)
  then show ?thesis by (simp add: WebRtcVad_CalcVad48khz_def WebRtcSpl_Resample48khzTo8khz_def)
qed

lemma only_first_10ms_witness:
  "WebRtcVad_CalcVad48khz initial_vad (replicate 960 0) 960 =
   WebRtcVad_CalcVad48khz initial_vad (replicate 480 0 @ replicate 480 20000) 960"
  by (rule only_first_10ms) simp

section \<open>Every sequence of calls\<close>

definition std_ok :: "int \<Rightarrow> bool" where "std_ok s \<longleftrightarrow> 378 \<le> s \<and> s \<le> 32767"

definition models_ok :: "VadInstT \<Rightarrow> bool" where
  "models_ok self \<longleftrightarrow> length (noise_means self) = 12 \<and> length (speech_means self) = 12 \<and>
     length (noise_stds self) = 12 \<and> length (speech_stds self) = 12 \<and>
     list_all is_s16 (noise_means self) \<and> list_all is_s16 (speech_means self) \<and>
     list_all std_ok (noise_stds self) \<and> list_all std_ok (speech_stds self)"

definition filters_ok :: "VadInstT \<Rightarrow> bool" where
  "filters_ok self \<longleftrightarrow> length (upper_state self) = 5 \<and> length (lower_state self) = 5 \<and> length (hp_filter_state self) = 4 \<and>
     length (downsampling_filter_states self) = 4 \<and> ok_8_16_8_8 (view_48_8 (state_48_to_8 self))"

definition hangs_ok :: "int list \<Rightarrow> bool" where "hangs_ok xs \<longleftrightarrow> length xs = 3 \<and> list_all (\<lambda>x. 0 \<le> x \<and> x \<le> 14) xs"

definition control_ok :: "VadInstT \<Rightarrow> bool" where
  "control_ok self \<longleftrightarrow> init_flag self = kInitCheck \<and> 0 \<le> over_hang self \<and> over_hang self \<le> 14 \<and>
     0 \<le> num_of_speech self \<and> num_of_speech self \<le> kMaxSpeechFrames \<and> hangs_ok (over_hang_max_1 self) \<and> hangs_ok (over_hang_max_2 self) \<and>
     length (individual self) = 3 \<and> length (total self) = 3"

definition vad_ok :: "VadInstT \<Rightarrow> bool" where
  "vad_ok self \<longleftrightarrow> models_ok self \<and> filters_ok self \<and> control_ok self \<and> minima_shape self"

lemmas vad_ok_defs = vad_ok_def models_ok_def filters_ok_def control_ok_def minima_shape_def minima_def

text \<open>The adaptation.\<close>

lemma weighted_average_ok:
  assumes "length means = 12" "list_all is_s16 means"
  shows "length (fst (WeightedAverage means channel offset weights)) = 12" "list_all is_s16 (fst (WeightedAverage means channel offset weights))"
proof -
  have "length (fst (fold (\<lambda>k (means, weighted_average). let x = s16 (means ! gaussian channel k + offset)
       in (means[gaussian channel k := x], s32 (weighted_average + x * weights ! gaussian channel k))) ks mw)) = length (fst mw) \<and>
     (list_all is_s16 (fst mw) \<longrightarrow> list_all is_s16 (fst (fold (\<lambda>k (means, weighted_average). let x = s16 (means ! gaussian channel k + offset)
       in (means[gaussian channel k := x], s32 (weighted_average + x * weights ! gaussian channel k))) ks mw)))" for ks mw
    by (induction ks arbitrary: mw) (auto simp: split_def Let_def list_all_update)
  then show "length (fst (WeightedAverage means channel offset weights)) = 12" "list_all is_s16 (fst (WeightedAverage means channel offset weights))"
    using assms by (simp_all add: WeightedAverage_def)
qed

lemma limit_means_ok:
  assumes "length means = 12" "list_all is_s16 means"
  shows "length (limit_means channel means global_mean limit) = 12" "list_all is_s16 (limit_means channel means global_mean limit)"
proof -
  have "length (fold (\<lambda>k means. means[gaussian channel k := s16 (means ! gaussian channel k - d)]) ks ms) = length ms \<and>
    (list_all is_s16 ms \<longrightarrow> list_all is_s16 (fold (\<lambda>k means. means[gaussian channel k := s16 (means ! gaussian channel k - d)]) ks ms))" for d ks ms
    by (induction ks arbitrary: ms) (auto simp: list_all_update)
  then show "length (limit_means channel means global_mean limit) = 12" "list_all is_s16 (limit_means channel means global_mean limit)"
    using assms by (simp_all add: limit_means_def Let_def)
qed

lemma updated_std_ok: "std_ok (updated_speech_std l k feature smk ssk)" "std_ok (updated_noise_std l k feature nmk nsk)"
proof -
  have "s16 x \<le> 32767" for x by (simp add: s16_def)
  then show "std_ok (updated_speech_std l k feature smk ssk)" "std_ok (updated_noise_std l k feature nmk nsk)"
    by (auto simp: updated_speech_std_def updated_noise_std_def Let_def std_ok_def kMinStd_def)
qed

lemma updated_mean_s16:
  "k < 2 \<Longrightarrow> is_s16 (updated_speech_mean l k maxspe smk)" "is_s16 (updated_noise_mean vadflag l channel k feature_minimum tmp1_s16 nmk)"
  by (auto simp: updated_speech_mean_def updated_noise_mean_def Let_def kMinimumMean_def less_Suc_eq numeral_2_eq_2 is_s16_def [of 640] is_s16_def [of 768])

lemma update_gaussian_keeps:
  assumes "vad_ok self" "k < 2"
  shows "vad_ok (update_gaussian vadflag l feature channel fm t m k self)"
  using assms updated_std_ok updated_mean_s16(1) [OF assms(2)] updated_mean_s16(2)
  by (auto simp: update_gaussian_def Let_def vad_ok_defs list_all_update)

lemma separate_models_ok:
  assumes "length nm = 12" "list_all is_s16 nm" "length sm = 12" "list_all is_s16 sm"
  obtains nm' ng sm' sg where "separate_models channel nm sm = ((nm', ng), (sm', sg))"
    "length nm' = 12" "list_all is_s16 nm'" "length sm' = 12" "list_all is_s16 sm'"
proof -
  obtain a g where a: "WeightedAverage nm channel 0 kNoiseDataWeights = (a, g)" by (rule prod.exhaust)
  obtain b h where b: "WeightedAverage sm channel 0 kSpeechDataWeights = (b, h)" by (rule prod.exhaust)
  note la = weighted_average_ok [OF assms(1,2), of channel 0 kNoiseDataWeights, unfolded a fst_conv]
  note lb = weighted_average_ok [OF assms(3,4), of channel 0 kSpeechDataWeights, unfolded b fst_conv]
  have "\<exists>c x y. separate_models channel nm sm =
    (if c then (WeightedAverage a channel x kNoiseDataWeights, WeightedAverage b channel y kSpeechDataWeights) else ((a, g), (b, h)))"
    unfolding separate_models_def a b Let_def prod.case by (intro exI) (rule refl)
  then obtain c x y where r: "separate_models channel nm sm =
    (if c then (WeightedAverage a channel x kNoiseDataWeights, WeightedAverage b channel y kSpeechDataWeights) else ((a, g), (b, h)))"
    by blast
  show ?thesis
  proof (cases c)
    case True
    obtain a' g' where a': "WeightedAverage a channel x kNoiseDataWeights = (a', g')" by (rule prod.exhaust)
    obtain b' h' where b': "WeightedAverage b channel y kSpeechDataWeights = (b', h')" by (rule prod.exhaust)
    show ?thesis
      using that [of a' g' b' h'] True r weighted_average_ok [OF la, of channel x kNoiseDataWeights]
        weighted_average_ok [OF lb, of channel y kSpeechDataWeights] unfolding a' b' by simp
  next
    case False
    then show ?thesis using that [of a g b h] r la lb by simp
  qed
qed

lemma update_channel_keeps:
  assumes "vad_ok self" "channel < 6" "list_all is_s16 features" "length features = 6"
  shows "vad_ok (update_channel vadflag ls features channel self)"
proof -
  have x: "- 32768 \<le> features ! channel" using assms(2,3,4) by (simp add: list_all_length is_s16_def)
  have m: "minima_shape self" using assms(1) by (simp add: vad_ok_def)
  obtain self1 fm where r: "WebRtcVad_FindMinimum self (features ! channel) channel = (self1, fm)" by (rule prod.exhaust)
  note f = find_minimum_frame [OF m assms(2) x, unfolded r fst_conv snd_conv]
  have ok1: "vad_ok self1" using f(1) f(6) assms(1) by (auto simp: vad_ok_def models_ok_def filters_ok_def control_ok_def)
  obtain nm g where w: "WeightedAverage (noise_means self1) channel 0 kNoiseDataWeights = (nm, g)" by (rule prod.exhaust)
  have "length (noise_means self1) = 12" "list_all is_s16 (noise_means self1)" using ok1 by (simp_all add: vad_ok_def models_ok_def)
  from weighted_average_ok [OF this, of channel 0 kNoiseDataWeights, unfolded w fst_conv]
  have ok2: "vad_ok (self1\<lparr>noise_means := nm\<rparr>)" using ok1 by (simp add: vad_ok_defs)
  let ?fold = "fold (update_gaussian vadflag (ls ! channel) (features ! channel) channel fm (s16 (shr g 6))
      (if channel = 0 then 12800 else kMaximumSpeech ! (channel - 1))) [0..<kNumGaussians] (self1\<lparr>noise_means := nm\<rparr>)"
  have ok3: "vad_ok ?fold"
    by (rule fold_keeps [of vad_ok, OF ok2], rule update_gaussian_keeps) (simp_all add: kNumGaussians_def)
  then have l: "length (noise_means ?fold) = 12" "list_all is_s16 (noise_means ?fold)" "length (speech_means ?fold) = 12"
    "list_all is_s16 (speech_means ?fold)" by (simp_all add: vad_ok_def models_ok_def)
  obtain nm' ng sm' sg where s: "separate_models channel (noise_means ?fold) (speech_means ?fold) = ((nm', ng), (sm', sg))"
    and l': "length nm' = 12" "list_all is_s16 nm'" "length sm' = 12" "list_all is_s16 sm'"
    by (rule separate_models_ok [OF l])
  have "update_channel vadflag ls features channel self =
    ?fold\<lparr>speech_means := limit_means channel sm' sg (kMaximumSpeech ! channel),
          noise_means := limit_means channel nm' ng (kMaximumNoise ! channel)\<rparr>"
    unfolding update_channel_def r Let_def prod.case w s ..
  then show ?thesis using ok3 limit_means_ok [OF l'(1,2)] limit_means_ok [OF l'(3,4)] by (simp add: vad_ok_defs)
qed

text \<open>The features.\<close>

lemma log_of_energy_s16: "is_s16 offset \<Longrightarrow> is_s16 (snd (LogOfEnergy data n offset total_energy))"
  by (simp add: LogOfEnergy_def split_def Let_def)

lemma split_band_keeps: "vad_ok self \<Longrightarrow> vad_ok (fst (split_band self band data n))"
  by (simp add: split_band_def split_def Let_def vad_ok_defs)

lemma high_pass_length: "length st = 4 \<Longrightarrow> length (fst (HighPassFilter data n st)) = 4"
  unfolding HighPassFilter_def by (rule mealy_keeps [where P = "\<lambda>st. length st = 4"]) (simp_all add: high_pass_step_def Let_def)

lemma split_band_step:
  assumes "vad_ok self"
  obtains self' hp lp where "split_band self band data n = (self', hp, lp)" "vad_ok self'"
  using split_band_keeps [OF assms, of band data n] that by (metis prod.exhaust fst_conv)

lemma log_of_energy_step:
  assumes "i < 6"
  obtains t e where "LogOfEnergy data n (kOffsetVector ! i) total_energy = (t, e)" "is_s16 e"
proof -
  have "is_s16 (kOffsetVector ! i)" using assms by (auto simp: kOffsetVector_def less_Suc_eq numeral_eq_Suc is_s16_def)
  then show ?thesis using that log_of_energy_s16 [of "kOffsetVector ! i" data n total_energy] by (metis prod.exhaust snd_conv)
qed

lemma features_ok:
  assumes "vad_ok self"
  obtains self' f t where "WebRtcVad_CalculateFeatures self data n = (self', f, t)" "vad_ok self'" "length f = 6" "list_all is_s16 f"
proof -
  obtain s0 hp0 lp0 where 0: "split_band self 0 data n = (s0, hp0, lp0)" "vad_ok s0" by (rule split_band_step [OF assms])
  obtain s1 hp1 lp1 where 1: "split_band s0 1 hp0 (n div 2) = (s1, hp1, lp1)" "vad_ok s1" by (rule split_band_step [OF 0(2)])
  obtain t5 f5 where f5: "LogOfEnergy hp1 (n div 2 div 2) (kOffsetVector ! 5) 0 = (t5, f5)" "is_s16 f5"
    by (rule log_of_energy_step [of 5]) simp
  obtain t4 f4 where f4: "LogOfEnergy lp1 (n div 2 div 2) (kOffsetVector ! 4) t5 = (t4, f4)" "is_s16 f4"
    by (rule log_of_energy_step [of 4]) simp
  obtain s2 hp2 lp2 where 2: "split_band s1 2 lp0 (n div 2) = (s2, hp2, lp2)" "vad_ok s2" by (rule split_band_step [OF 1(2)])
  obtain t3 f3 where f3: "LogOfEnergy hp2 (n div 2 div 2) (kOffsetVector ! 3) t4 = (t3, f3)" "is_s16 f3"
    by (rule log_of_energy_step [of 3]) simp
  obtain s3 hp3 lp3 where 3: "split_band s2 3 lp2 (n div 2 div 2) = (s3, hp3, lp3)" "vad_ok s3" by (rule split_band_step [OF 2(2)])
  obtain t2 f2 where f2: "LogOfEnergy hp3 (n div 2 div 2 div 2) (kOffsetVector ! 2) t3 = (t2, f2)" "is_s16 f2"
    by (rule log_of_energy_step [of 2]) simp
  obtain s4 hp4 lp4 where 4: "split_band s3 4 lp3 (n div 2 div 2 div 2) = (s4, hp4, lp4)" "vad_ok s4"
    by (rule split_band_step [OF 3(2)])
  obtain t1 f1 where f1: "LogOfEnergy hp4 (n div 2 div 2 div 2 div 2) (kOffsetVector ! 1) t2 = (t1, f1)" "is_s16 f1"
    by (rule log_of_energy_step [of 1]) simp
  obtain h x where h: "HighPassFilter lp4 (n div 2 div 2 div 2 div 2) (hp_filter_state s4) = (h, x)" by (rule prod.exhaust)
  obtain t0 f0 where f0: "LogOfEnergy x (n div 2 div 2 div 2 div 2) (kOffsetVector ! 0) t1 = (t0, f0)" "is_s16 f0"
    by (rule log_of_energy_step [of 0]) simp
  have "WebRtcVad_CalculateFeatures self data n = (s4\<lparr>hp_filter_state := h\<rparr>, [f0, f1, f2, f3, f4, f5], t0)"
    unfolding WebRtcVad_CalculateFeatures_def Let_def 0(1) prod.case 1(1) f5(1) f4(1) 2(1) f3(1) 3(1) f2(1) 4(1) f1(1) h f0(1) ..
  moreover have "vad_ok (s4\<lparr>hp_filter_state := h\<rparr>)"
    using 4(2) high_pass_length [of "hp_filter_state s4" lp4] h by (simp add: vad_ok_defs) (metis fst_conv)
  ultimately show ?thesis using that f0 f1 f2 f3 f4 f5 by simp
qed

text \<open>The decision.\<close>

lemma hysteresis_ok:
  assumes "0 \<le> o1" "o1 \<le> 14" "0 \<le> o2" "o2 \<le> 14" "0 \<le> over" "over \<le> 14" "0 \<le> num" "num \<le> kMaxSpeechFrames"
  obtains over' num' v where "hysteresis o1 o2 (over, num) f = ((over', num'), v)"
    "0 \<le> over'" "over' \<le> 14" "0 \<le> num'" "num' \<le> kMaxSpeechFrames" "0 \<le> v"
proof -
  obtain over' num' v where r: "hysteresis o1 o2 (over, num) f = ((over', num'), v)" by (metis prod.exhaust)
  have "0 \<le> over' \<and> over' \<le> 14 \<and> 0 \<le> num' \<and> num' \<le> kMaxSpeechFrames \<and> 0 \<le> v"
    using r assms by (auto simp: hysteresis_def Let_def s16_def kMaxSpeechFrames_def split: if_splits)
  then show ?thesis using that r by blast
qed

lemma vad_ok_frame_counter: "vad_ok (self\<lparr>frame_counter := x\<rparr>) = vad_ok self"
  by (simp add: vad_ok_defs)

lemma hangs_nth: "hangs_ok xs \<Longrightarrow> i < 3 \<Longrightarrow> 0 \<le> xs ! i \<and> xs ! i \<le> 14"
  by (simp add: hangs_ok_def list_all_length)

lemma gmm_ok:
  assumes "vad_ok self" "length f = 6" "list_all is_s16 f"
  obtains self' v where "GmmProbability self f tp n = (self', v)" "vad_ok self'" "0 \<le> v"
proof -
  let ?i = "length_index n"
  define decided where "decided = (if tp > kMinEnergy then
       let ls = map (channel_likelihood self f) [0..<kNumChannels];
           vadflag = speech_decision ls (individual self ! ?i) (total self ! ?i);
           self = fold (update_channel vadflag ls f) [0..<kNumChannels] self
       in (self\<lparr>frame_counter := s32 (frame_counter self + 1)\<rparr>, vadflag)
     else (self, False))"
  obtain s1 flag where d: "decided = (s1, flag)" by (rule prod.exhaust)
  have "vad_ok (fold (update_channel vadflag ls f) [0..<kNumChannels] self)" for vadflag ls
    by (rule fold_keeps [of vad_ok, OF assms(1)], rule update_channel_keeps) (simp_all add: kNumChannels_def assms)
  then have "vad_ok (fst decided)" using assms(1) by (simp add: decided_def Let_def vad_ok_frame_counter)
  then have s1: "vad_ok s1" by (simp add: d)
  have "?i < 3" by (simp add: length_index_def)
  then have o: "0 \<le> over_hang_max_1 s1 ! ?i" "over_hang_max_1 s1 ! ?i \<le> 14" "0 \<le> over_hang_max_2 s1 ! ?i" "over_hang_max_2 s1 ! ?i \<le> 14"
    using s1 hangs_nth [of "over_hang_max_1 s1" ?i] hangs_nth [of "over_hang_max_2 s1" ?i]
    by (simp_all add: vad_ok_def control_ok_def)
  have c: "0 \<le> over_hang s1" "over_hang s1 \<le> 14" "0 \<le> num_of_speech s1" "num_of_speech s1 \<le> kMaxSpeechFrames"
    using s1 by (simp_all add: vad_ok_def control_ok_def)
  obtain over num v where h: "hysteresis (over_hang_max_1 s1 ! ?i) (over_hang_max_2 s1 ! ?i) (over_hang s1, num_of_speech s1) flag = ((over, num), v)"
    "0 \<le> over" "over \<le> 14" "0 \<le> num" "num \<le> kMaxSpeechFrames" "0 \<le> v"
    by (rule hysteresis_ok [OF o c])
  have "GmmProbability self f tp n = (let (self, vadflag) = decided; ((over, num), result) =
        hysteresis (over_hang_max_1 self ! ?i) (over_hang_max_2 self ! ?i) (over_hang self, num_of_speech self) vadflag
      in (self\<lparr>over_hang := over, num_of_speech := num\<rparr>, result))"
    unfolding GmmProbability_def decided_def Let_def ..
  then have "GmmProbability self f tp n = (s1\<lparr>over_hang := over, num_of_speech := num\<rparr>, v)"
    unfolding d Let_def prod.case h(1) .
  moreover have "vad_ok (s1\<lparr>over_hang := over, num_of_speech := num\<rparr>)" using s1 h by (simp add: vad_ok_defs)
  ultimately show ?thesis using that h(6) by blast
qed

text \<open>The four rates.\<close>

lemma vad_8khz_ok:
  assumes "vad_ok self"
  shows "vad_ok (fst (WebRtcVad_CalcVad8khz self frame n))" "0 \<le> snd (WebRtcVad_CalcVad8khz self frame n)"
proof -
  obtain s1 f t where f: "WebRtcVad_CalculateFeatures self frame n = (s1, f, t)" "vad_ok s1" "length f = 6" "list_all is_s16 f"
    by (rule features_ok [OF assms])
  obtain s2 v where g: "GmmProbability s1 f t n = (s2, v)" "vad_ok s2" "0 \<le> v" by (rule gmm_ok [OF f(2-4)])
  have r: "WebRtcVad_CalcVad8khz self frame n = (s2\<lparr>vad := v\<rparr>, v)"
    unfolding WebRtcVad_CalcVad8khz_def f(1) Let_def prod.case g(1) ..
  show "vad_ok (fst (WebRtcVad_CalcVad8khz self frame n))" "0 \<le> snd (WebRtcVad_CalcVad8khz self frame n)"
    using g by (simp_all add: r vad_ok_defs)
qed

lemma downsampling_length: "length (fst (WebRtcVad_Downsampling xs st n)) = 2"
  by (simp add: WebRtcVad_Downsampling_def split_def Let_def)

lemma vad_ok_downsampling:
  "vad_ok self \<Longrightarrow> length st = 4 \<Longrightarrow> vad_ok (self\<lparr>downsampling_filter_states := st\<rparr>)"
  by (simp add: vad_ok_defs)

lemma vad_16_32_ok:
  assumes "vad_ok self"
  shows "vad_ok (fst (WebRtcVad_CalcVad16khz self frame n))" "0 \<le> snd (WebRtcVad_CalcVad16khz self frame n)"
    "vad_ok (fst (WebRtcVad_CalcVad32khz self frame n))" "0 \<le> snd (WebRtcVad_CalcVad32khz self frame n)"
proof -
  have l: "length (downsampling_filter_states self) = 4" using assms by (simp add: vad_ok_def filters_ok_def)
  have "length (blit xs 0 (fst (WebRtcVad_Downsampling ys st k))) = 4" "length (blit xs 2 (fst (WebRtcVad_Downsampling ys st k))) = 4"
    if "length xs = 4" for xs ys st k using that by (simp_all add: length_blit downsampling_length)
  note b = this
  show "vad_ok (fst (WebRtcVad_CalcVad16khz self frame n))" "0 \<le> snd (WebRtcVad_CalcVad16khz self frame n)"
    "vad_ok (fst (WebRtcVad_CalcVad32khz self frame n))" "0 \<le> snd (WebRtcVad_CalcVad32khz self frame n)"
    unfolding WebRtcVad_CalcVad16khz_def WebRtcVad_CalcVad32khz_def Let_def split_def
    by (intro vad_8khz_ok vad_ok_downsampling assms, simp_all add: b l)+
qed

lemma vad_48_ok:
  assumes "vad_ok self"
  shows "vad_ok (fst (WebRtcVad_CalcVad48khz self frame n))" "0 \<le> snd (WebRtcVad_CalcVad48khz self frame n)"
proof -
  have take: "WebRtcSpl_Resample48khzTo8khz st frame = WebRtcSpl_Resample48khzTo8khz st (map (nth frame) [0..<480])" for st
  proof -
    have "evens frame 240 = evens (map (nth frame) [0..<480]) 240" "odds frame 240 = odds (map (nth frame) [0..<480]) 240"
      by (simp_all add: evens_def odds_def)
    then have "WebRtcSpl_DownBy2ShortToInt frame 480 = WebRtcSpl_DownBy2ShortToInt (map (nth frame) [0..<480]) 480"
      by (simp add: fun_eq_iff WebRtcSpl_DownBy2ShortToInt_def)
    then show ?thesis by (simp add: WebRtcSpl_Resample48khzTo8khz_def)
  qed
  have "ok_8_16_8_8 (view_48_8 (fst (mealy (\<lambda>st i. WebRtcSpl_Resample48khzTo8khz st frame) (state_48_to_8 self) is)))" for "is" :: "nat list"
  proof (rule mealy_keeps [where P = "\<lambda>st. ok_8_16_8_8 (view_48_8 st)"])
    show "ok_8_16_8_8 (view_48_8 (state_48_to_8 self))" using assms by (simp add: vad_ok_def filters_ok_def)
    show "ok_8_16_8_8 (view_48_8 st) \<Longrightarrow> ok_8_16_8_8 (view_48_8 (fst (WebRtcSpl_Resample48khzTo8khz st frame)))" for st
      unfolding take by (rule resampled_48_8) simp_all
  qed
  then have "vad_ok (self\<lparr>state_48_to_8 := fst (mealy (\<lambda>st i. WebRtcSpl_Resample48khzTo8khz st frame) (state_48_to_8 self) [0..<n div 480])\<rparr>)"
    using assms by (simp add: vad_ok_defs)
  then show "vad_ok (fst (WebRtcVad_CalcVad48khz self frame n))" "0 \<le> snd (WebRtcVad_CalcVad48khz self frame n)"
    by (simp_all add: WebRtcVad_CalcVad48khz_def Let_def split_def vad_8khz_ok)
qed

text \<open>The interface.\<close>

datatype vad_call = Set_mode int | Process int "int list" nat

definition vad_step :: "VadInstT option \<Rightarrow> vad_call \<Rightarrow> VadInstT option \<times> int" where
  "vad_step handle c = (case c of Set_mode mode \<Rightarrow> WebRtcVad_set_mode handle mode
     | Process fs frame n \<Rightarrow> WebRtcVad_Process handle fs (Some frame) n)"

text \<open>10, 20 or 30 ms at 8, 16, 32 or 48 kHz.\<close>

definition valid_frame :: "int \<Rightarrow> nat \<Rightarrow> bool" where
  "valid_frame fs n \<longleftrightarrow> fs \<in> {8000, 16000, 32000, 48000} \<and> (\<exists>tens \<in> {1, 2, 3}. int n = fs div 100 * tens)"

definition answer_ok :: "vad_call \<Rightarrow> int \<Rightarrow> bool" where
  "answer_ok c r = (case c of Set_mode mode \<Rightarrow> r = (if 0 \<le> mode \<and> mode \<le> 3 then 0 else - 1)
     | Process fs frame n \<Rightarrow> if valid_frame fs n then r \<in> {0, 1} else r = - 1)"

lemma valid_rate_eq: "WebRtcVad_ValidRateAndFrameLength fs n = (if valid_frame fs n then 0 else - 1)"
proof -
  have u: "upt_by 10 (Suc kMaxFrameLengthMs) 10 = [10, 20, 30]" by code_simp
  show ?thesis
    unfolding WebRtcVad_ValidRateAndFrameLength_def valid_frame_def u kValidRates_def
    by (auto simp: cdiv_def)
qed

lemma set_mode_core_ok:
  assumes "vad_ok self"
  shows "vad_ok (fst (WebRtcVad_set_mode_core self mode))" "answer_ok (Set_mode mode) (snd (WebRtcVad_set_mode_core self mode))"
    "snd (WebRtcVad_set_mode_core self mode) = - 1 \<Longrightarrow> fst (WebRtcVad_set_mode_core self mode) = self"
proof -
  have t: "vad_ok (mode_tables a b c d self)" if "hangs_ok a" "hangs_ok b" "length c = 3" "length d = 3" for a b c d
    using assms that by (simp add: mode_tables_def vad_ok_defs)
  show "vad_ok (fst (WebRtcVad_set_mode_core self mode))"
    unfolding WebRtcVad_set_mode_core_def using assms
    by (auto intro!: t simp: hangs_ok_def kOverHangMax1Q_def kOverHangMax2Q_def kLocalThresholdQ_def kGlobalThresholdQ_def
        kOverHangMax1LBR_def kOverHangMax2LBR_def kLocalThresholdLBR_def kGlobalThresholdLBR_def
        kOverHangMax1AGG_def kOverHangMax2AGG_def kLocalThresholdAGG_def kGlobalThresholdAGG_def
        kOverHangMax1VAG_def kOverHangMax2VAG_def kLocalThresholdVAG_def kGlobalThresholdVAG_def)
  show "answer_ok (Set_mode mode) (snd (WebRtcVad_set_mode_core self mode))"
    by (auto simp: answer_ok_def WebRtcVad_set_mode_core_def)
  show "snd (WebRtcVad_set_mode_core self mode) = - 1 \<Longrightarrow> fst (WebRtcVad_set_mode_core self mode) = self"
    by (auto simp: WebRtcVad_set_mode_core_def split: if_splits)
qed

lemma vad_step_ok:
  assumes "vad_ok self"
  obtains self' r where "vad_step (Some self) c = (Some self', r)" "vad_ok self'" "answer_ok c r" "r = - 1 \<Longrightarrow> self' = self"
proof (cases c)
  case (Set_mode mode)
  have "vad_step (Some self) c = (Some (fst (WebRtcVad_set_mode_core self mode)), snd (WebRtcVad_set_mode_core self mode))"
    using assms by (simp add: Set_mode vad_step_def WebRtcVad_set_mode_def vad_ok_def control_ok_def split_def Let_def)
  then show ?thesis by (rule that) (use set_mode_core_ok [OF assms, of mode] in \<open>simp_all add: Set_mode\<close>)
next
  case (Process fs frame n)
  have i: "init_flag self = kInitCheck" using assms by (simp add: vad_ok_def control_ok_def)
  show ?thesis
  proof (cases "valid_frame fs n")
    case False
    then have "vad_step (Some self) c = (Some self, - 1)"
      using i by (simp add: Process vad_step_def WebRtcVad_Process_def valid_rate_eq)
    then show ?thesis by (rule that) (simp_all add: Process answer_ok_def assms False)
  next
    case True
    define calc where "calc = (if fs = 48000 then WebRtcVad_CalcVad48khz self frame n
       else if fs = 32000 then WebRtcVad_CalcVad32khz self frame n
       else if fs = 16000 then WebRtcVad_CalcVad16khz self frame n
       else WebRtcVad_CalcVad8khz self frame n)"
    have k: "vad_ok (fst calc)" "0 \<le> snd calc"
      unfolding calc_def using vad_48_ok [OF assms] vad_16_32_ok [OF assms] vad_8khz_ok [OF assms] by simp_all
    have "vad_step (Some self) c = (Some (fst calc), if snd calc > 0 then 1 else snd calc)"
      using True i by (auto simp: Process vad_step_def WebRtcVad_Process_def valid_rate_eq valid_frame_def calc_def split_def Let_def)
    then show ?thesis by (rule that) (use k True in \<open>auto simp: Process answer_ok_def split: if_splits\<close>)
  qed
qed

lemma vad_init_core_ok:
  obtains self' where "WebRtcVad_InitCore self = (self', 0)" "vad_ok self'"
proof -
  let ?s = "fst (WebRtcVad_InitCore self)"
  have z: "kDefaultMode = 0" by (simp add: kDefaultMode_def)
  have m: "minima_shape ?s"
    by (rule initial_minima) (simp_all add: WebRtcVad_InitCore_def WebRtcVad_set_mode_core_def mode_tables_def z kNumChannels_def Let_def)
  have "models_ok ?s"
    by (simp add: models_ok_def WebRtcVad_InitCore_def WebRtcVad_set_mode_core_def mode_tables_def z Let_def
        kNoiseDataMeans_def kSpeechDataMeans_def kNoiseDataStds_def kSpeechDataStds_def is_s16_def std_ok_def)
  moreover have "filters_ok ?s"
    by (simp add: filters_ok_def WebRtcVad_InitCore_def WebRtcVad_set_mode_core_def mode_tables_def z Let_def resets_ok(3))
  moreover have "control_ok ?s"
    by (simp add: control_ok_def WebRtcVad_InitCore_def WebRtcVad_set_mode_core_def mode_tables_def z Let_def hangs_ok_def
        kMaxSpeechFrames_def kOverHangMax1Q_def kOverHangMax2Q_def kLocalThresholdQ_def kGlobalThresholdQ_def)
  moreover have "snd (WebRtcVad_InitCore self) = 0"
    by (simp add: WebRtcVad_InitCore_def WebRtcVad_set_mode_core_def z Let_def)
  ultimately show ?thesis using that [of ?s] m by (metis vad_ok_def prod.collapse)
qed

text \<open>
  C22. From its initialisation on, whatever the memory held before, a detector takes every sequence of modes and
  frames: a mode is accepted exactly when it is 0 to 3, a frame exactly when it has 10, 20 or 30 ms at 8, 16, 32 or
  48 kHz (the header names the first three only), and the answer is then 0 or 1; a call that is refused changes nothing. The arrays keep their lengths, the deviations by which the code divides stay at
  378 or more, the minima sorted, the hangover at most 14 and the count of frames with speech at most 6.
\<close>

theorem detector_run:
  "\<exists>self. WebRtcVad_Init (Some malloced) = (Some self, 0) \<and>
     (let (handle, answers) = mealy vad_step (Some self) calls in
        (\<exists>self'. handle = Some self' \<and> vad_ok self') \<and> list_all2 answer_ok calls answers \<and>
        (\<forall>c. snd (vad_step handle c) = - 1 \<longrightarrow> fst (vad_step handle c) = handle))"
proof -
  obtain self where i: "WebRtcVad_InitCore malloced = (self, 0)" "vad_ok self" by (rule vad_init_core_ok)
  have "(\<exists>self'. fst (mealy vad_step (Some self) calls) = Some self' \<and> vad_ok self') \<and>
    list_all2 answer_ok calls (snd (mealy vad_step (Some self) calls))" using i(2)
  proof (induction calls arbitrary: self)
    case (Cons c calls)
    obtain self' r where s: "vad_step (Some self) c = (Some self', r)" "vad_ok self'" "answer_ok c r" by (rule vad_step_ok [OF Cons.prems])
    then show ?case using Cons.IH [OF s(2)] by (simp add: split_def Let_def)
  qed simp
  then obtain self' where h: "fst (mealy vad_step (Some self) calls) = Some self'" "vad_ok self'"
    "list_all2 answer_ok calls (snd (mealy vad_step (Some self) calls))" by blast
  have "snd (vad_step (Some self') c) = - 1 \<longrightarrow> fst (vad_step (Some self') c) = Some self'" for c
    by (rule vad_step_ok [OF h(2), of c]) simp
  then show ?thesis using h i(1) by (simp add: WebRtcVad_Init_def split_def Let_def)
qed

lemma detector_run_witness:
  "\<exists>self. WebRtcVad_Init (Some malloced_vad) = (Some self, 0) \<and>
     (let calls = [Set_mode 3, Process 8000 (replicate 80 100) 80, Set_mode 4, Process 8000 [] 7, Process 48000 (replicate 480 5) 480];
          (handle, answers) = mealy vad_step (Some self) calls
      in list_all2 answer_ok calls answers \<and> snd (vad_step handle (Set_mode 4)) = - 1 \<and> fst (vad_step handle (Set_mode 4)) = handle)"
proof -
  obtain self handle answers self' where i: "WebRtcVad_Init (Some malloced_vad) = (Some self, 0)"
    and m: "mealy vad_step (Some self) [Set_mode 3, Process 8000 (replicate 80 100) 80, Set_mode 4, Process 8000 [] 7,
        Process 48000 (replicate 480 5) 480] = (handle, answers)"
    and h: "handle = Some self'" "vad_ok self'" and a: "list_all2 answer_ok [Set_mode 3, Process 8000 (replicate 80 100) 80, Set_mode 4,
        Process 8000 [] 7, Process 48000 (replicate 480 5) 480] answers"
    and c: "\<forall>c. snd (vad_step handle c) = - 1 \<longrightarrow> fst (vad_step handle c) = handle"
    using detector_run [of malloced_vad "[Set_mode 3, Process 8000 (replicate 80 100) 80, Set_mode 4, Process 8000 [] 7,
        Process 48000 (replicate 480 5) 480]"] unfolding Let_def split_def by (metis prod.collapse)
  have "snd (vad_step handle (Set_mode 4)) = - 1"
    unfolding h(1) by (rule vad_step_ok [OF h(2), of "Set_mode 4"]) (simp add: answer_ok_def)
  then show ?thesis using i m a c by (intro exI [of _ self]) (simp only: Let_def prod.case)
qed

end
